(* ===== verification/Prelude.thy ===== *)
theory Prelude
  imports Main "HOL-Library.Char_ord" "HOL-Library.List_Lexorder" "HOL-Library.Sublist"
    "HOL-Library.Word"
begin

text \<open>
  Generic vocabulary shared by every component: Rust's \<open>Result\<close> as a sum, the \<open>?\<close>
  operator and early-return checks as sequencing of results, the byte-level string operations the
  code uses (\<open>starts_with\<close>, \<open>contains\<close>, \<open>strip_prefix\<close>, \<open>split\<close>, \<open>rsplit_once\<close>,
  \<open>trim\<close>, \<open>to_ascii_lowercase\<close>), decimal printing and parsing, and \<open>i64\<close> arithmetic.

  A Rust \<open>str\<close> is its sequence of UTF-8 bytes: \<open>string\<close> is a list of 8-bit characters, so
  \<open>length\<close> is \<open>len()\<close> and \<open>of_char\<close> reads a byte. The functions that Rust defines on Unicode
  scalar values (\<open>trim\<close>, \<open>is_control\<close>) are written on the UTF-8 encodings of those values.
\<close>

section \<open>Proof collections\<close>

named_theorems res_simps \<open>inversion of sequenced results\<close>
named_theorems str_simps \<open>string operations of the standard library\<close>

section \<open>Machine integers\<close>

type_synonym u8 = "8 word"
type_synonym u16 = "16 word"
type_synonym u32 = "32 word"
type_synonym u64 = "64 word"

text \<open>
  \<open>i64\<close> values (timestamps, generations, fences) are integers. The code adds to timestamps with
  \<open>saturating_add\<close>, written out here; generations and fences only ever grow by one per write.
\<close>

definition i64_max :: int where
  "i64_max = 9223372036854775807"

definition i64_min :: int where
  "i64_min = - 9223372036854775808"

definition sat_i64 :: "int \<Rightarrow> int" where
  "sat_i64 x = max i64_min (min i64_max x)"

definition saturating_add :: "int \<Rightarrow> int \<Rightarrow> int" where
  "saturating_add a b = sat_i64 (a + b)"

definition saturating_mul :: "int \<Rightarrow> int \<Rightarrow> int" where
  "saturating_mul a b = sat_i64 (a * b)"

lemma saturating_add_le_max: "saturating_add a b \<le> i64_max"
  by (simp add: saturating_add_def sat_i64_def i64_max_def i64_min_def)

lemma saturating_add_upper: "i64_min \<le> a + b \<Longrightarrow> saturating_add a b \<le> a + b"
  by (simp add: saturating_add_def sat_i64_def)

lemma saturating_add_exact:
  "i64_min \<le> a + b \<Longrightarrow> a + b \<le> i64_max \<Longrightarrow> saturating_add a b = a + b"
  by (simp add: saturating_add_def sat_i64_def)

lemma find_SomeD: "find P xs = Some x \<Longrightarrow> x \<in> set xs \<and> P x"
  by (metis find_Some_iff nth_mem)

lemma find_NoneD: "find P xs = None \<Longrightarrow> x \<in> set xs \<Longrightarrow> \<not> P x"
  by (auto simp: find_None_iff)

lemma one_le_word: "(1 :: 'a::len word) \<le> w \<longleftrightarrow> w \<noteq> 0"
  by (simp add: not_less [symmetric])

text \<open>Widening conversions between the unsigned integers keep the value.\<close>

lemma unat_u16_less: "unat (w :: u16) < 65536"
  using unsigned_less [of w, where ?'a = nat] by simp

lemma unat_u32_less: "unat (w :: u32) < 4294967296"
  using unsigned_less [of w, where ?'a = nat] by simp

lemma unat_ucast_u64: "unat (ucast (w :: u32) :: u64) = unat w"
  using unat_u32_less [of w] by (simp add: unsigned_ucast_eq take_bit_nat_eq_self_iff)

lemma ucast_u64_le: "(ucast (a :: u32) :: u64) \<le> ucast b \<longleftrightarrow> a \<le> b"
  by (simp add: word_le_nat_alt unat_ucast_u64)

lemma ucast_u32_u64 [simp]: "(ucast (ucast (w :: u32) :: u64) :: u32) = w"
  by (simp add: word_unat_eq_iff unsigned_ucast_eq unat_ucast_u64 take_bit_word_eq_self)

section \<open>Results\<close>

type_synonym ('e, 'a) res = "'e + 'a"

definition require :: "bool \<Rightarrow> 'e \<Rightarrow> ('e, unit) res" where
  "require b e = (if b then Inr () else Inl e)"

fun res_bind :: "('e, 'a) res \<Rightarrow> ('a \<Rightarrow> ('e, 'b) res) \<Rightarrow> ('e, 'b) res" where
  "res_bind (Inl e) f = Inl e"
| "res_bind (Inr a) f = f a"

definition and_then :: "('e, unit) res \<Rightarrow> ('e, 'b) res \<Rightarrow> ('e, 'b) res" where
  "and_then r s = res_bind r (\<lambda>_. s)"

fun for_each :: "('a \<Rightarrow> ('e, unit) res) \<Rightarrow> 'a list \<Rightarrow> ('e, unit) res" where
  "for_each f [] = Inr ()"
| "for_each f (x # xs) = and_then (f x) (for_each f xs)"

fun checks :: "('e, unit) res list \<Rightarrow> ('e, unit) res" where
  "checks [] = Inr ()"
| "checks (r # rs) = and_then r (checks rs)"

fun map_err :: "('e \<Rightarrow> 'f) \<Rightarrow> ('e, 'a) res \<Rightarrow> ('f, 'a) res" where
  "map_err f (Inl e) = Inl (f e)"
| "map_err f (Inr a) = Inr a"

fun ok_or :: "'a option \<Rightarrow> 'e \<Rightarrow> ('e, 'a) res" where
  "ok_or None e = Inl e"
| "ok_or (Some a) e = Inr a"

lemma require_ok [res_simps, simp]: "require b e = Inr u \<longleftrightarrow> b"
  by (simp add: require_def)

lemma require_err [res_simps, simp]: "require b e = Inl e' \<longleftrightarrow> \<not> b \<and> e' = e"
  by (auto simp: require_def)

lemma res_bind_ok [res_simps, simp]:
  "res_bind r f = Inr b \<longleftrightarrow> (\<exists>a. r = Inr a \<and> f a = Inr b)"
  by (cases r) auto

lemma res_bind_err [res_simps]:
  "res_bind r f = Inl e \<longleftrightarrow> r = Inl e \<or> (\<exists>a. r = Inr a \<and> f a = Inl e)"
  by (cases r) auto

lemma and_then_ok [res_simps, simp]: "and_then r s = Inr b \<longleftrightarrow> r = Inr () \<and> s = Inr b"
  by (cases r) (auto simp: and_then_def)

lemma and_then_err [res_simps]:
  "and_then r s = Inl e \<longleftrightarrow> r = Inl e \<or> (r = Inr () \<and> s = Inl e)"
  by (cases r) (auto simp: and_then_def)

lemma and_then_simps [simp]:
  "and_then (Inl e) s = Inl e" "and_then (Inr u) s = s"
  by (simp_all add: and_then_def)

lemma for_each_ok [res_simps, simp]: "for_each f xs = Inr u \<longleftrightarrow> (\<forall>x\<in>set xs. f x = Inr ())"
  by (induction xs) auto

lemma checks_ok [res_simps, simp]: "checks rs = Inr u \<longleftrightarrow> (\<forall>r\<in>set rs. r = Inr ())"
  by (induction rs) auto

lemma map_err_ok [res_simps, simp]: "map_err f r = Inr a \<longleftrightarrow> r = Inr a"
  by (cases r) auto

lemma ok_or_ok [res_simps, simp]: "ok_or x e = Inr a \<longleftrightarrow> x = Some a"
  by (cases x) auto

lemma if_err_ok [res_simps]:
  "(if b then Inl e else r) = Inr a \<longleftrightarrow> \<not> b \<and> r = Inr a"
  "(if b then r else Inl e) = Inr a \<longleftrightarrow> b \<and> r = Inr a"
  by simp_all

lemma for_each_cong [fundef_cong]:
  "xs = ys \<Longrightarrow> (\<And>x. x \<in> set ys \<Longrightarrow> f x = g x) \<Longrightarrow> for_each f xs = for_each g ys"
  by (induction xs arbitrary: ys) auto

text \<open>
  The loop \<open>for value in values { if !seen.insert(value) { return Err } }\<close>: the first element
  that already occurred among the earlier ones.
\<close>

fun first_dup :: "'a list \<Rightarrow> 'a list \<Rightarrow> 'a option" where
  "first_dup seen [] = None"
| "first_dup seen (x # xs) = (if x \<in> set seen then Some x else first_dup (x # seen) xs)"

lemma first_dup_None: "first_dup seen xs = None \<longleftrightarrow> distinct xs \<and> set seen \<inter> set xs = {}"
  by (induction xs arbitrary: seen) auto

text \<open>
  The loop \<open>for (index, value) in values.iter().enumerate()\<close> whose body checks the value and then
  inserts a key of it into a set of the keys seen, refusing a key already there.
\<close>

fun each_unique ::
    "('a \<Rightarrow> 'k) \<Rightarrow> (nat \<Rightarrow> 'a \<Rightarrow> ('e, unit) res) \<Rightarrow> (nat \<Rightarrow> 'a \<Rightarrow> 'e) \<Rightarrow> nat \<Rightarrow> 'k list
       \<Rightarrow> 'a list \<Rightarrow> ('e, unit) res" where
  "each_unique key check dup i seen [] = Inr ()"
| "each_unique key check dup i seen (x # xs) =
     and_then (check i x)
       (and_then (require (key x \<notin> set seen) (dup i x))
         (each_unique key check dup (Suc i) (key x # seen) xs))"

lemma each_unique_ok:
  "each_unique key check dup i seen xs = Inr u \<longleftrightarrow>
     (\<forall>j<length xs. check (i + j) (xs ! j) = Inr ()) \<and> distinct (map key xs) \<and>
     set seen \<inter> key ` set xs = {}"
proof (induction xs arbitrary: i seen)
  case (Cons x xs)
  have "(\<forall>j<length (x # xs). check (i + j) ((x # xs) ! j) = Inr ()) \<longleftrightarrow>
      check i x = Inr () \<and> (\<forall>j<length xs. check (Suc i + j) (xs ! j) = Inr ())"
    by (auto simp: less_Suc_eq_0_disj)
  with Cons show ?case by auto
qed simp

lemma each_unique_ok_all:
  "each_unique key check dup i seen xs = Inr u \<Longrightarrow> x \<in> set xs \<Longrightarrow> \<exists>j. check j x = Inr ()"
  by (auto simp: each_unique_ok in_set_conv_nth)

section \<open>Code that may panic\<close>

text \<open>
  Where the source contains \<open>expect\<close>, \<open>unreachable!\<close> or an index that may be absent, the model
  returns \<open>None\<close> for the panic and \<open>Some\<close> of the result otherwise, so that the absence of panics
  is a statement about the model and not an assumption of it.
\<close>

type_synonym ('e, 'a) pres = "('e, 'a) res option"

definition pres_bind :: "('e, 'a) pres \<Rightarrow> ('a \<Rightarrow> ('e, 'b) pres) \<Rightarrow> ('e, 'b) pres" where
  "pres_bind r f =
     (case r of None \<Rightarrow> None | Some (Inl e) \<Rightarrow> Some (Inl e) | Some (Inr a) \<Rightarrow> f a)"

fun pres_each :: "('a \<Rightarrow> ('e, unit) pres) \<Rightarrow> 'a list \<Rightarrow> ('e, unit) pres" where
  "pres_each f [] = Some (Inr ())"
| "pres_each f (x # xs) = pres_bind (f x) (\<lambda>_. pres_each f xs)"

fun pres_fold :: "('a \<Rightarrow> 's \<Rightarrow> ('e, 's) pres) \<Rightarrow> 'a list \<Rightarrow> 's \<Rightarrow> ('e, 's) pres" where
  "pres_fold f [] s = Some (Inr s)"
| "pres_fold f (x # xs) s = pres_bind (f x s) (\<lambda>s. pres_fold f xs s)"

lemma pres_bind_simps [simp]:
  "pres_bind None f = None" "pres_bind (Some (Inl e)) f = Some (Inl e)"
  "pres_bind (Some (Inr a)) f = f a"
  by (simp_all add: pres_bind_def)

lemma pres_bind_ok [res_simps]:
  "pres_bind r f = Some (Inr b) \<longleftrightarrow> (\<exists>a. r = Some (Inr a) \<and> f a = Some (Inr b))"
  by (auto simp: pres_bind_def split: option.splits sum.splits)

lemma pres_bind_None [res_simps]:
  "pres_bind r f = None \<longleftrightarrow> r = None \<or> (\<exists>a. r = Some (Inr a) \<and> f a = None)"
  by (auto simp: pres_bind_def split: option.splits sum.splits)

lemma pres_each_ok [res_simps]:
  "pres_each f xs = Some (Inr u) \<longleftrightarrow> (\<forall>x\<in>set xs. f x = Some (Inr ()))"
  by (induction xs) (auto simp: pres_bind_ok)

lemma pres_each_no_panic: "(\<And>x. x \<in> set xs \<Longrightarrow> f x \<noteq> None) \<Longrightarrow> pres_each f xs \<noteq> None"
  by (induction xs) (auto simp: pres_bind_None)

lemma pres_fold_append:
  "pres_fold f (xs @ ys) s = pres_bind (pres_fold f xs s) (pres_fold f ys)"
  by (induction xs arbitrary: s) (auto simp: pres_bind_def split: option.splits sum.splits)

section \<open>Ordered sets\<close>

text \<open>A \<open>BTreeSet\<close> is its elements in increasing order without repetition.\<close>

definition btree_set :: "'a::linorder list \<Rightarrow> 'a list" where
  "btree_set xs = sort (remdups xs)"

lemma set_btree_set [simp]: "set (btree_set xs) = set xs"
  by (simp add: btree_set_def)

lemma btree_set_cong: "set xs = set ys \<Longrightarrow> btree_set xs = btree_set ys"
  unfolding btree_set_def by (rule sorted_distinct_set_unique) auto

lemma distinct_btree_set [simp]: "distinct (btree_set xs)"
  by (simp add: btree_set_def)

lemma btree_set_Nil_iff [simp]: "btree_set xs = [] \<longleftrightarrow> xs = []"
  by (metis set_btree_set set_empty)

text \<open>A \<open>BTreeMap\<close> that is iterated or tested for emptiness is its entries in key order.\<close>

fun btree_insert :: "'k::linorder \<Rightarrow> 'v \<Rightarrow> ('k \<times> 'v) list \<Rightarrow> ('k \<times> 'v) list" where
  "btree_insert k v [] = [(k, v)]"
| "btree_insert k v ((k', v') # m) =
     (if k < k' then (k, v) # (k', v') # m
      else if k = k' then (k, v) # m
      else (k', v') # btree_insert k v m)"

lemma map_of_btree_insert: "map_of (btree_insert k v m) = (map_of m)(k \<mapsto> v)"
  by (induction m) (auto simp: fun_upd_twist)

lemma btree_insert_not_Nil [simp]: "btree_insert k v m \<noteq> []"
  by (cases m) (auto split: if_splits)

end
