(* ===== verification/RustStr.thy ===== *)
theory RustStr
  imports Prelude
begin

text \<open>
  The string and character operations of Rust's standard library that the program uses, on UTF-8
  byte sequences. Nothing here is code of the repository; it fixes what \<open>str::contains\<close>,
  \<open>str::split\<close>, \<open>str::trim\<close>, \<open>char::is_control\<close>, \<open>u16::from_str\<close> and the like compute.
\<close>

section \<open>Bytes\<close>

definition byte :: "char \<Rightarrow> nat" where
  "byte c = of_char c"

definition is_ascii_lower :: "char \<Rightarrow> bool" where
  "is_ascii_lower c \<longleftrightarrow> 97 \<le> byte c \<and> byte c \<le> 122"

definition is_ascii_upper :: "char \<Rightarrow> bool" where
  "is_ascii_upper c \<longleftrightarrow> 65 \<le> byte c \<and> byte c \<le> 90"

definition is_ascii_digit :: "char \<Rightarrow> bool" where
  "is_ascii_digit c \<longleftrightarrow> 48 \<le> byte c \<and> byte c \<le> 57"

definition is_ascii_alnum :: "char \<Rightarrow> bool" where
  "is_ascii_alnum c \<longleftrightarrow> is_ascii_lower c \<or> is_ascii_upper c \<or> is_ascii_digit c"

definition is_ascii_hex :: "char \<Rightarrow> bool" where
  "is_ascii_hex c \<longleftrightarrow> is_ascii_digit c \<or> (97 \<le> byte c \<and> byte c \<le> 102) \<or>
     (65 \<le> byte c \<and> byte c \<le> 70)"

definition is_ascii_graphic :: "char \<Rightarrow> bool" where
  "is_ascii_graphic c \<longleftrightarrow> 33 \<le> byte c \<and> byte c \<le> 126"

definition ascii_lower :: "char \<Rightarrow> char" where
  "ascii_lower c = (if is_ascii_upper c then char_of (byte c + 32) else c)"

definition to_ascii_lowercase :: "string \<Rightarrow> string" where
  "to_ascii_lowercase s = map ascii_lower s"

lemma byte_char_of [simp]: "n < 256 \<Longrightarrow> byte (char_of n) = n"
  by (simp add: byte_def)

lemma byte_less [simp]: "byte c < 256"
  unfolding byte_def by (metis of_char_mod_256 mod_less_divisor zero_less_numeral)

lemma length_to_ascii_lowercase [simp]: "length (to_ascii_lowercase s) = length s"
  by (simp add: to_ascii_lowercase_def)

lemma ascii_lower_not_upper: "\<not> is_ascii_upper (ascii_lower c)"
  by (simp add: ascii_lower_def is_ascii_upper_def)

lemma ascii_lower_idem [simp]: "ascii_lower (ascii_lower c) = ascii_lower c"
  using ascii_lower_not_upper [of c] by (simp add: ascii_lower_def [of "ascii_lower c"])

lemma to_ascii_lowercase_idem [simp]:
  "to_ascii_lowercase (to_ascii_lowercase s) = to_ascii_lowercase s"
  by (simp add: to_ascii_lowercase_def)

lemma to_ascii_lowercase_append [simp]:
  "to_ascii_lowercase (s @ t) = to_ascii_lowercase s @ to_ascii_lowercase t"
  by (simp add: to_ascii_lowercase_def)

section \<open>Searching\<close>

definition starts_with :: "string \<Rightarrow> string \<Rightarrow> bool" where
  "starts_with s p \<longleftrightarrow> prefix p s"

definition ends_with :: "string \<Rightarrow> string \<Rightarrow> bool" where
  "ends_with s p \<longleftrightarrow> suffix p s"

definition str_contains :: "string \<Rightarrow> string \<Rightarrow> bool" where
  "str_contains s needle \<longleftrightarrow> sublist needle s"

definition contains_char :: "string \<Rightarrow> char \<Rightarrow> bool" where
  "contains_char s c \<longleftrightarrow> c \<in> set s"

definition strip_prefix :: "string \<Rightarrow> string \<Rightarrow> string option" where
  "strip_prefix s p = (if prefix p s then Some (drop (length p) s) else None)"

definition strip_suffix :: "string \<Rightarrow> string \<Rightarrow> string option" where
  "strip_suffix s p = (if suffix p s then Some (take (length s - length p) s) else None)"

lemma strip_prefix_Some [str_simps]: "strip_prefix s p = Some t \<longleftrightarrow> s = p @ t"
  by (auto simp: strip_prefix_def prefix_def)

lemma strip_suffix_Some [str_simps]: "strip_suffix s p = Some t \<longleftrightarrow> s = t @ p"
  by (auto simp: strip_suffix_def suffix_def)

lemma str_contains_mid: "str_contains (a @ needle @ b) needle"
  by (auto simp: str_contains_def sublist_def)

lemma str_contains_append: "str_contains s needle \<Longrightarrow> str_contains (a @ s @ b) needle"
  unfolding str_contains_def sublist_def by (metis append.assoc)

lemma str_contains_trans: "str_contains s t \<Longrightarrow> str_contains t needle \<Longrightarrow> str_contains s needle"
  unfolding str_contains_def by (rule sublist_order.order.trans)

section \<open>Splitting and joining\<close>

fun split_on :: "char \<Rightarrow> string \<Rightarrow> string list" where
  "split_on c [] = [[]]"
| "split_on c (x # xs) =
     (if x = c then [] # split_on c xs
      else case split_on c xs of [] \<Rightarrow> [[x]] | s # ss \<Rightarrow> (x # s) # ss)"

fun join :: "string \<Rightarrow> string list \<Rightarrow> string" where
  "join sep [] = []"
| "join sep [s] = s"
| "join sep (s # t # ss) = s @ sep @ join sep (t # ss)"

fun rsplit_once :: "char \<Rightarrow> string \<Rightarrow> (string \<times> string) option" where
  "rsplit_once c [] = None"
| "rsplit_once c (x # xs) =
     (case rsplit_once c xs of
        Some (h, t) \<Rightarrow> Some (x # h, t)
      | None \<Rightarrow> if x = c then Some ([], xs) else None)"

fun split_once :: "string \<Rightarrow> string \<Rightarrow> (string \<times> string) option" where
  "split_once p s =
     (if prefix p s then Some ([], drop (length p) s)
      else case s of [] \<Rightarrow> None
        | x # xs \<Rightarrow> map_option (\<lambda>(h, t). (x # h, t)) (split_once p xs))"

declare split_once.simps [simp del]

lemma split_on_not_Nil [simp]: "split_on c s \<noteq> []"
  by (induction s) (auto split: list.splits)

lemma split_on_no_sep: "seg \<in> set (split_on c s) \<Longrightarrow> c \<notin> set seg"
  by (induction s arbitrary: seg) (auto split: if_splits list.splits)

lemma split_on_subset: "seg \<in> set (split_on c s) \<Longrightarrow> set seg \<subseteq> set s"
  by (induction s arbitrary: seg) (fastforce split: if_splits list.splits)+

lemma join_split_on: "join [c] (split_on c s) = s"
proof (induction s)
  case Nil
  then show ?case by simp
next
  case (Cons x xs)
  then show ?case
    by (cases "split_on c xs"; cases "tl (split_on c xs)") auto
qed

lemma split_on_append_sep: "c \<notin> set s \<Longrightarrow> split_on c (s @ c # t) = s # split_on c t"
  by (induction s) auto

lemma split_on_single: "c \<notin> set s \<Longrightarrow> split_on c s = [s]"
  by (induction s) auto

lemma split_on_join:
  "segs \<noteq> [] \<Longrightarrow> \<forall>s\<in>set segs. c \<notin> set s \<Longrightarrow> split_on c (join [c] segs) = segs"
  by (induction "[c]" segs rule: join.induct) (auto simp: split_on_append_sep split_on_single)

lemma rsplit_once_None: "rsplit_once c s = None \<longleftrightarrow> c \<notin> set s"
  by (induction s) (auto split: option.splits)

lemma rsplit_once_append: "c \<notin> set t \<Longrightarrow> rsplit_once c (h @ c # t) = Some (h, t)"
proof (induction h)
  case Nil
  then show ?case by (simp add: rsplit_once_None [THEN iffD2])
qed simp

lemma rsplit_once_Some: "rsplit_once c s = Some (h, t) \<Longrightarrow> s = h @ c # t \<and> c \<notin> set t"
  by (induction s arbitrary: h) (auto simp: rsplit_once_None split: option.splits if_splits)

lemma split_once_Some: "split_once p s = Some (h, t) \<Longrightarrow> s = h @ p @ t"
proof (induction s arbitrary: h)
  case Nil
  then show ?case by (subst (asm) split_once.simps) (auto split: if_splits)
next
  case (Cons x xs)
  then show ?case
    by (subst (asm) split_once.simps) (auto simp: prefix_def split: if_splits)
qed

section \<open>White space, lines, control characters\<close>

text \<open>Length of the UTF-8 encoding of a \<open>White_Space\<close> scalar value at the front, or 0.\<close>

fun ws_len :: "string \<Rightarrow> nat" where
  "ws_len [] = 0"
| "ws_len (x # xs) =
     (let b = byte x in
      if (9 \<le> b \<and> b \<le> 13) \<or> b = 32 then 1
      else case map byte xs of
          [] \<Rightarrow> 0
        | b2 # rest \<Rightarrow>
            if b = 194 \<and> (b2 = 133 \<or> b2 = 160) then 2
            else case rest of
                [] \<Rightarrow> 0
              | b3 # _ \<Rightarrow>
                  if (b = 225 \<and> b2 = 154 \<and> b3 = 128)
                    \<or> (b = 226 \<and> b2 = 128 \<and>
                        ((128 \<le> b3 \<and> b3 \<le> 138) \<or> b3 = 168 \<or> b3 = 169 \<or> b3 = 175))
                    \<or> (b = 226 \<and> b2 = 129 \<and> b3 = 159)
                    \<or> (b = 227 \<and> b2 = 128 \<and> b3 = 128)
                  then 3 else 0)"

lemma ws_len_le: "ws_len s \<le> length s"
  by (induction s rule: ws_len.induct)
    (auto simp: Let_def split: list.splits if_splits)

function trim_start :: "string \<Rightarrow> string" where
  "trim_start s = (if ws_len s = 0 then s else trim_start (drop (ws_len s) s))"
  by pat_completeness auto
termination
proof (relation "measure length")
  fix s :: string
  assume "ws_len s \<noteq> 0"
  then have "s \<noteq> []" by auto
  with \<open>ws_len s \<noteq> 0\<close> show "(drop (ws_len s) s, s) \<in> measure length"
    by (simp add: ws_len_le)
qed simp

declare trim_start.simps [simp del]

text \<open>Trailing white space: drop the longest suffix that is white space only.\<close>

definition all_ws :: "string \<Rightarrow> bool" where
  "all_ws s \<longleftrightarrow> trim_start s = []"

fun trim_end :: "string \<Rightarrow> string" where
  "trim_end [] = []"
| "trim_end (x # xs) = (if all_ws (x # xs) then [] else x # trim_end xs)"

definition trim :: "string \<Rightarrow> string" where
  "trim s = trim_end (trim_start s)"

definition is_blank :: "string \<Rightarrow> bool" where
  "is_blank s \<longleftrightarrow> trim s = []"

lemma trim_start_suffix: "suffix (trim_start s) s"
proof (induction s rule: trim_start.induct)
  case (1 s)
  show ?case
  proof (cases "ws_len s = 0")
    case True
    then show ?thesis by (simp add: trim_start.simps)
  next
    case False
    then have "suffix (trim_start (drop (ws_len s) s)) (drop (ws_len s) s)" by (rule 1)
    with False show ?thesis
      by (subst trim_start.simps) (auto intro: suffix_order.trans suffix_drop)
  qed
qed

lemma trim_start_no_ws: "ws_len s = 0 \<Longrightarrow> trim_start s = s"
  by (subst trim_start.simps) simp

text \<open>White space contains no graphic ASCII byte, so trimming keeps every graphic character.\<close>

lemma ws_len_not_graphic: "c \<in> set (take (ws_len s) s) \<Longrightarrow> \<not> is_ascii_graphic c"
proof (cases s)
  case (Cons x xs)
  assume c: "c \<in> set (take (ws_len s) s)"
  with Cons show ?thesis
    by (cases xs; cases "tl xs")
      (auto simp: Let_def is_ascii_graphic_def split: if_splits)
qed simp

lemma trim_start_keeps_graphic:
  "c \<in> set s \<Longrightarrow> is_ascii_graphic c \<Longrightarrow> c \<in> set (trim_start s)"
proof (induction s rule: trim_start.induct)
  case (1 s)
  show ?case
  proof (cases "ws_len s = 0")
    case True
    with 1 show ?thesis by (simp add: trim_start_no_ws)
  next
    case False
    have "c \<in> set (take (ws_len s) s) \<union> set (drop (ws_len s) s)"
      using 1 by (metis append_take_drop_id set_append)
    then have "c \<in> set (drop (ws_len s) s)"
      using 1 ws_len_not_graphic by blast
    with 1 False show ?thesis by (subst trim_start.simps) simp
  qed
qed

lemma trim_end_graphic: "is_ascii_graphic c \<Longrightarrow> trim_end (s @ [c]) = s @ [c]"
proof (induction s)
  case Nil
  then have "trim_start [c] \<noteq> []" using trim_start_keeps_graphic [of c "[c]"] by auto
  then show ?case by (simp add: all_ws_def)
next
  case (Cons x xs)
  then have "trim_start (x # xs @ [c]) \<noteq> []"
    using trim_start_keeps_graphic [of c "x # xs @ [c]"] by auto
  with Cons show ?case by (simp add: all_ws_def)
qed

lemma ws_len_graphic: "is_ascii_graphic a \<Longrightarrow> ws_len (a # s) = 0"
  by (auto simp: Let_def is_ascii_graphic_def split: list.splits)

lemma trim_graphic:
  assumes "is_ascii_graphic a" "is_ascii_graphic b"
  shows "trim (a # s @ [b]) = a # s @ [b]"
  using trim_end_graphic [OF assms(2), of "a # s"] ws_len_graphic [OF assms(1)]
  by (simp add: trim_def trim_start_no_ws del: ws_len.simps)

text \<open>\<open>str::lines\<close>: terminators \<open>\\n\<close> and \<open>\\r\\n\<close>; a final empty line is not produced.\<close>

definition strip_cr :: "string \<Rightarrow> string" where
  "strip_cr l = (case strip_suffix l [CHR 0x0D] of Some m \<Rightarrow> m | None \<Rightarrow> l)"

definition str_lines :: "string \<Rightarrow> string list" where
  "str_lines s =
     (let segs = split_on CHR 0x0A s in
      map strip_cr (butlast segs) @ (if last segs = [] then [] else [last segs]))"

text \<open>Words separated by white space.\<close>

fun ws_words_acc :: "nat \<Rightarrow> string \<Rightarrow> string \<Rightarrow> string list" where
  "ws_words_acc 0 cur s = (if cur = [] then [] else [rev cur])"
| "ws_words_acc (Suc n) cur [] = (if cur = [] then [] else [rev cur])"
| "ws_words_acc (Suc n) cur (x # xs) =
     (if ws_len (x # xs) = 0 then ws_words_acc n (x # cur) xs
      else (if cur = [] then [] else [rev cur])
             @ ws_words_acc n [] (drop (ws_len (x # xs)) (x # xs)))"

definition split_whitespace :: "string \<Rightarrow> string list" where
  "split_whitespace s = ws_words_acc (Suc (length s)) [] s"

text \<open>Some \<open>char::is_control\<close> occurs: U+0000..U+001F, U+007F, or U+0080..U+009F (bytes C2 80..9F).\<close>

fun has_control :: "string \<Rightarrow> bool" where
  "has_control [] = False"
| "has_control (x # xs) =
     (byte x < 32 \<or> byte x = 127 \<or>
      (byte x = 194 \<and> (case xs of [] \<Rightarrow> False | y # _ \<Rightarrow> 128 \<le> byte y \<and> byte y \<le> 159)) \<or>
      has_control xs)"

section \<open>Decimal numbers\<close>

fun show_nat :: "nat \<Rightarrow> string" where
  "show_nat n = (if n < 10 then [char_of (48 + n)] else show_nat (n div 10) @ [char_of (48 + n mod 10)])"

declare show_nat.simps [simp del]

definition show_int :: "int \<Rightarrow> string" where
  "show_int i = (if i < 0 then CHR ''-'' # show_nat (nat (- i)) else show_nat (nat i))"

fun parse_digits :: "nat \<Rightarrow> string \<Rightarrow> nat option" where
  "parse_digits acc [] = Some acc"
| "parse_digits acc (c # cs) =
     (if is_ascii_digit c then parse_digits (acc * 10 + (byte c - 48)) cs else None)"

text \<open>\<open>u16::from_str\<close> and its kin below the bound: an optional plus sign, then digits.\<close>

definition parse_unsigned :: "nat \<Rightarrow> string \<Rightarrow> nat option" where
  "parse_unsigned bound s =
     (let d = (case s of c # cs \<Rightarrow> if c = CHR ''+'' then cs else s | [] \<Rightarrow> s) in
      if d = [] then None
      else case parse_digits 0 d of
          None \<Rightarrow> None
        | Some n \<Rightarrow> if n < bound then Some n else None)"

lemma parse_digits_append:
  "parse_digits acc (s @ t) =
     (case parse_digits acc s of None \<Rightarrow> None | Some a \<Rightarrow> parse_digits a t)"
  by (induction s arbitrary: acc) auto

lemma parse_digits_show_nat: "parse_digits 0 (show_nat n) = Some n"
proof (induction n rule: show_nat.induct)
  case (1 n)
  show ?case
  proof (cases "n < 10")
    case True
    then show ?thesis by (simp add: show_nat.simps is_ascii_digit_def)
  next
    case False
    have "n mod 10 < 10" by simp
    then have d: "byte (char_of (48 + n mod 10)) = 48 + n mod 10" by simp
    from False show ?thesis
      using 1 d by (subst show_nat.simps) (simp add: parse_digits_append is_ascii_digit_def)
  qed
qed

lemma show_nat_digits: "c \<in> set (show_nat n) \<Longrightarrow> is_ascii_digit c"
proof (induction n rule: show_nat.induct)
  case (1 n)
  have "n mod 10 < 10" by simp
  then have "byte (char_of (48 + n mod 10)) = 48 + n mod 10" by simp
  moreover have "n < 10 \<Longrightarrow> byte (char_of (48 + n)) = 48 + n" by simp
  ultimately show ?case
    using 1 by (subst (asm) show_nat.simps) (auto simp: is_ascii_digit_def split: if_splits)
qed

lemma show_nat_not_Nil [simp]: "show_nat n \<noteq> []"
  by (subst show_nat.simps) simp

lemma byte_literals:
  "byte CHR ''+'' = 43" "byte CHR '':'' = 58" "byte CHR ''/'' = 47" "byte CHR '','' = 44"
  by (simp_all add: byte_def)

lemma colon_notin_show_nat: "CHR '':'' \<notin> set (show_nat n)"
  using show_nat_digits [of "CHR '':''" n] by (auto simp: is_ascii_digit_def byte_literals)

lemma parse_unsigned_show_nat: "n < bound \<Longrightarrow> parse_unsigned bound (show_nat n) = Some n"
proof -
  assume "n < bound"
  obtain c cs where s: "show_nat n = c # cs" by (cases "show_nat n") auto
  have "is_ascii_digit c" using show_nat_digits [of c n] s by simp
  then have "c \<noteq> CHR ''+''" by (auto simp: is_ascii_digit_def byte_literals)
  then have "(case show_nat n of c # cs \<Rightarrow> if c = CHR ''+'' then cs else show_nat n
      | [] \<Rightarrow> show_nat n) = show_nat n"
    by (simp only: s list.case if_False)
  then show ?thesis
    unfolding parse_unsigned_def Let_def
    by (simp only: parse_digits_show_nat show_nat_not_Nil if_False option.case \<open>n < bound\<close> if_True)
qed

lemma show_nat_inj: "show_nat m = show_nat n \<Longrightarrow> m = n"
  by (metis option.inject parse_digits_show_nat)

section \<open>Debug output\<close>

text \<open>The \<open>Debug\<close> form of a \<open>str\<close>, for text whose characters print: quotes, backslashes and the named
  control characters are escaped.\<close>

definition escape_char :: "char \<Rightarrow> string" where
  "escape_char c =
     (if c = CHR 0x22 then [CHR 0x5C, CHR 0x22] else if c = CHR 0x5C then [CHR 0x5C, CHR 0x5C]
      else if c = CHR 0x0A then [CHR 0x5C, CHR ''n''] else if c = CHR 0x0D then [CHR 0x5C, CHR ''r'']
      else if c = CHR 0x09 then [CHR 0x5C, CHR ''t''] else if c = CHR 0x00 then [CHR 0x5C, CHR ''0'']
      else [c])"

definition debug_str :: "string \<Rightarrow> string" where
  "debug_str s = CHR 0x22 # concat (map escape_char s) @ [CHR 0x22]"

end
