(* ===== verification/CampusProfile.thy ===== *)
theory CampusProfile
  imports RustStr
begin

text \<open>
  \<open>campus_profile.rs\<close>: the versioned envelope a Campus session runs under and its validation, with
  \<open>RunBudget\<close> of \<open>project.rs\<close>. Each \<open>validate_*\<close> function is translated check by check, with the
  field and reason of each refusal. The JSON parser and the content hash of a serialised document
  are parameters; everything decided by this repository's code is not.
\<close>

section \<open>Bounds\<close>

definition CAMPUS_PROFILE_SCHEMA :: string where
  "CAMPUS_PROFILE_SCHEMA = ''pharness.dev/campus-profile/v1alpha1''"

definition SECURITY_PROFILE_QUALIFICATION :: string where
  "SECURITY_PROFILE_QUALIFICATION = ''campus-security-profile''"

definition MAX_CPU_MILLICORES :: u32 where "MAX_CPU_MILLICORES = 4000"
definition MAX_MEMORY_MIB :: u32 where "MAX_MEMORY_MIB = 8192"
definition MAX_EPHEMERAL_STORAGE_MIB :: u32 where "MAX_EPHEMERAL_STORAGE_MIB = 16384"
definition MIN_PIDS :: u32 where "MIN_PIDS = 32"
definition MAX_PIDS :: u32 where "MAX_PIDS = 1024"
definition MIN_TTL_SECONDS :: u32 where "MIN_TTL_SECONDS = 300"
definition MAX_TTL_SECONDS :: u32 where "MAX_TTL_SECONDS = 14400"
definition MAX_SESSION_ALLOCATION_MICRO_USD :: u64 where
  "MAX_SESSION_ALLOCATION_MICRO_USD = 10000000"
definition MAX_OUTPUT_TOKENS :: u32 where "MAX_OUTPUT_TOKENS = 32768"
definition MAX_CONCURRENT_MODEL_REQUESTS :: u32 where "MAX_CONCURRENT_MODEL_REQUESTS = 4"
definition MAX_EGRESS_DESTINATIONS :: nat where "MAX_EGRESS_DESTINATIONS = 32"
definition MAX_PROFILE_BYTES :: nat where "MAX_PROFILE_BYTES = 64 * 1024"

lemmas profile_bounds =
  MAX_CPU_MILLICORES_def MAX_MEMORY_MIB_def MAX_EPHEMERAL_STORAGE_MIB_def MIN_PIDS_def MAX_PIDS_def
  MIN_TTL_SECONDS_def MAX_TTL_SECONDS_def MAX_SESSION_ALLOCATION_MICRO_USD_def
  MAX_OUTPUT_TOKENS_def MAX_CONCURRENT_MODEL_REQUESTS_def MAX_EGRESS_DESTINATIONS_def
  MAX_PROFILE_BYTES_def

definition show_word :: "'a::len word \<Rightarrow> string" where
  "show_word w = show_nat (unat w)"

section \<open>Data\<close>

datatype profile_kind = KindResearch | KindCoding | KindSecurity

datatype isolation = IsoGvisor | IsoHardwareIsolated

record resource_ceilings =
  rc_cpu_millicores :: u32
  rc_memory_mib :: u32
  rc_ephemeral_storage_mib :: u32
  rc_pids :: u32

datatype network_mode = NetDenied | NetApprovedEgress

record egress_destination =
  ed_host :: string
  ed_port :: u16

record network_profile =
  np_mode :: network_mode
  np_egress :: "egress_destination list"

record agent_budget =
  ab_initial_turns :: u32
  ab_hard_turns :: u32
  ab_initial_tokens :: u64
  ab_hard_tokens :: u64
  ab_active_execution_seconds :: u64

record run_budget =
  rb_initial_turns :: u32
  rb_hard_turns :: u32
  rb_initial_tokens :: u64
  rb_hard_tokens :: u64
  rb_active_execution_seconds :: u64
  rb_recoverable_tool_errors :: u32
  rb_identical_failures :: u32
  rb_verification_reserve_turns :: u32

record model_policy =
  mp_model_aliases :: "string list"
  mp_session_allocation_micro_usd :: u64
  mp_max_output_tokens :: u32
  mp_max_concurrent_requests :: u32

datatype capability_scope = ScopeAgentControl | ScopeSessionWorkspace | ScopeSessionShell

fun capability_scope_debug :: "capability_scope \<Rightarrow> string" where
  "capability_scope_debug ScopeAgentControl = ''AgentControl''"
| "capability_scope_debug ScopeSessionWorkspace = ''SessionWorkspace''"
| "capability_scope_debug ScopeSessionShell = ''SessionShell''"

record capability_binding =
  cb_tool :: string
  cb_scope :: capability_scope

record student_choices =
  sc_model_aliases :: "string list"
  sc_min_ttl_seconds :: u32

datatype launch_gate = GateEnabled | GateRequiresQualification string

record campus_profile =
  cp_schema_version :: string
  cp_id :: string
  cp_version :: string
  cp_kind :: profile_kind
  cp_isolation :: isolation
  cp_image :: string
  cp_resources :: resource_ceilings
  cp_network :: network_profile
  cp_ttl_seconds :: u32
  cp_agent_budget :: agent_budget
  cp_model_policy :: model_policy
  cp_capabilities :: "capability_binding list"
  cp_student_choices :: student_choices
  cp_launch_gate :: launch_gate

record profile_ref =
  pr_id :: string
  pr_version :: string
  pr_profile_hash :: string

record agent_profile =
  ap_id :: string
  ap_version :: string
  ap_profile_hash :: string
  ap_prompt_version :: string
  ap_model :: string
  ap_tools :: "string list"
  ap_budget :: run_budget

datatype profile_error =
    PeMalformed string
  | PeInvalid string string
  | PeLaunchRefused string string

type_synonym 'a profile_res = "(profile_error, 'a) res"

section \<open>Budgets\<close>

definition agent_run_budget :: "agent_budget \<Rightarrow> run_budget" where
  "agent_run_budget b =
     \<lparr>rb_initial_turns = ab_initial_turns b, rb_hard_turns = ab_hard_turns b,
      rb_initial_tokens = ab_initial_tokens b, rb_hard_tokens = ab_hard_tokens b,
      rb_active_execution_seconds = ab_active_execution_seconds b,
      rb_recoverable_tool_errors = 4, rb_identical_failures = 2,
      rb_verification_reserve_turns = 0\<rparr>"

definition run_budget_default :: run_budget where
  "run_budget_default =
     \<lparr>rb_initial_turns = 48, rb_hard_turns = 100, rb_initial_tokens = 400000,
      rb_hard_tokens = 1000000, rb_active_execution_seconds = 3600,
      rb_recoverable_tool_errors = 4, rb_identical_failures = 2,
      rb_verification_reserve_turns = 8\<rparr>"

text \<open>The error is the text of \<open>RepositoryContractError::Invalid\<close> as it is displayed.\<close>

definition run_budget_validate :: "run_budget \<Rightarrow> (string, unit) res" where
  "run_budget_validate b =
     (if \<not> (1 \<le> rb_initial_turns b \<and> rb_initial_turns b \<le> 100) \<or> 100 < rb_hard_turns b \<or>
         rb_hard_turns b < rb_initial_turns b
      then Inl ''repository contract is invalid: turn budget must be ordered and capped at 100''
      else if rb_initial_tokens b = 0 \<or> 1000000 < rb_hard_tokens b \<or>
         rb_hard_tokens b < rb_initial_tokens b
      then Inl ''repository contract is invalid: token budget must be ordered and capped at 1000000''
      else if rb_active_execution_seconds b = 0 \<or> 8 < rb_recoverable_tool_errors b \<or>
         \<not> (1 \<le> rb_identical_failures b \<and> rb_identical_failures b \<le> 3) \<or>
         rb_initial_turns b \<le> rb_verification_reserve_turns b
      then Inl ''repository contract is invalid: active time or recovery thresholds are invalid''
      else Inr ())"

section \<open>Field checks\<close>

definition check_range :: "string \<Rightarrow> u32 \<Rightarrow> u32 \<Rightarrow> u32 \<Rightarrow> unit profile_res" where
  "check_range field v lo hi =
     (if lo \<le> v \<and> v \<le> hi then Inr ()
      else Inl (PeInvalid field (''must be between '' @ show_word lo @ '' and '' @ show_word hi)))"

definition valid_identifier :: "string \<Rightarrow> bool" where
  "valid_identifier v \<longleftrightarrow>
     1 \<le> length v \<and> length v \<le> 64 \<and>
     (case v of [] \<Rightarrow> False | b # _ \<Rightarrow> is_ascii_lower b \<or> is_ascii_digit b) \<and>
     list_all (\<lambda>b. is_ascii_lower b \<or> is_ascii_digit b \<or> b \<in> {CHR ''-'', CHR ''_'', CHR ''.''}) v"

definition validate_identifier :: "string \<Rightarrow> string \<Rightarrow> unit profile_res" where
  "validate_identifier field v =
     (if valid_identifier v then Inr ()
      else Inl (PeInvalid field ''must be a lowercase identifier''))"

definition validate_identifier_set :: "string \<Rightarrow> string list \<Rightarrow> bool \<Rightarrow> unit profile_res" where
  "validate_identifier_set field vs allow_empty =
     (if vs = [] \<and> \<not> allow_empty then Inl (PeInvalid field ''at least one value is required'')
      else each_unique id (\<lambda>_ v. validate_identifier field v)
        (\<lambda>_ v. PeInvalid field (''duplicate value '' @ v)) 0 [] vs)"

definition is_image_digest :: "string \<Rightarrow> bool" where
  "is_image_digest digest \<longleftrightarrow>
     length digest = 64 \<and>
     list_all (\<lambda>b. is_ascii_digit b \<or> (97 \<le> byte b \<and> byte b \<le> 102)) digest"

definition is_image_repository :: "string \<Rightarrow> bool" where
  "is_image_repository repository \<longleftrightarrow>
     (let last_segment = last (split_on CHR ''/'' repository) in
      contains_char repository CHR ''/'' \<and> last_segment \<noteq> [] \<and>
      \<not> contains_char last_segment CHR '':'' \<and>
      list_all (\<lambda>b. is_ascii_lower b \<or> is_ascii_digit b \<or>
        b \<in> {CHR ''.'', CHR ''-'', CHR ''_'', CHR ''/'', CHR '':''}) repository)"

definition validate_immutable_image :: "string \<Rightarrow> unit profile_res" where
  "validate_immutable_image v =
     (case split_once ''@sha256:'' v of
        None \<Rightarrow> Inl (PeInvalid ''image'' ''must be repository@sha256:digest'')
      | Some (repository, digest) \<Rightarrow>
          (if is_image_digest digest \<and> is_image_repository repository then Inr ()
           else Inl (PeInvalid ''image''
             ''must be an untagged lowercase repository with a sha256 digest'')))"

definition well_formed_label :: "string \<Rightarrow> bool" where
  "well_formed_label l \<longleftrightarrow>
     1 \<le> length l \<and> length l \<le> 63 \<and> \<not> starts_with l ''-'' \<and> \<not> ends_with l ''-'' \<and>
     list_all (\<lambda>b. is_ascii_lower b \<or> is_ascii_digit b \<or> b = CHR ''-'') l"

definition approved_dns_name :: "string \<Rightarrow> bool" where
  "approved_dns_name host \<longleftrightarrow>
     (let labels = split_on CHR ''.'' host;
          well_formed = length host \<le> 253 \<and> 2 \<le> length labels \<and>
            list_all well_formed_label labels \<and> list_ex is_ascii_lower (last labels);
          local = last labels \<in> set [''localhost'', ''local'', ''internal'', ''localdomain'',
              ''home'', ''lan''] \<or> hd labels = ''metadata''
      in well_formed \<and> \<not> local)"

definition validate_egress_host :: "string \<Rightarrow> string \<Rightarrow> unit profile_res" where
  "validate_egress_host field host =
     (if approved_dns_name host then Inr ()
      else Inl (PeInvalid field (host @ '' is not an approved public DNS name'')))"

definition CAMPUS_TOOL_CATALOG :: "(string \<times> capability_scope) list" where
  "CAMPUS_TOOL_CATALOG =
    [(''finish'', ScopeAgentControl), (''environment_info'', ScopeSessionWorkspace),
     (''list_dir'', ScopeSessionWorkspace), (''read_file'', ScopeSessionWorkspace),
     (''search_files'', ScopeSessionWorkspace), (''create_directory'', ScopeSessionWorkspace),
     (''write_file'', ScopeSessionWorkspace), (''patch_file'', ScopeSessionWorkspace),
     (''apply_patch'', ScopeSessionWorkspace), (''git_diff'', ScopeSessionWorkspace),
     (''git_status'', ScopeSessionWorkspace), (''run_workspace_command'', ScopeSessionShell)]"

definition is_campus_tool :: "string \<Rightarrow> bool" where
  "is_campus_tool tool \<longleftrightarrow> list_ex (\<lambda>(name, _). name = tool) CAMPUS_TOOL_CATALOG"

section \<open>Validation of a profile\<close>

definition validate_isolation :: "campus_profile \<Rightarrow> unit profile_res" where
  "validate_isolation p =
     and_then
       (if cp_kind p = KindSecurity then
          checks
            [require (cp_isolation p = IsoHardwareIsolated)
               (PeInvalid ''isolation'' ''security profiles require hardware_isolated''),
             require (cp_launch_gate p = GateRequiresQualification SECURITY_PROFILE_QUALIFICATION)
               (PeInvalid ''launch_gate''
                 (''security profiles require qualification '' @ SECURITY_PROFILE_QUALIFICATION))]
        else Inr ())
       (case cp_launch_gate p of
          GateRequiresQualification q \<Rightarrow> validate_identifier ''launch_gate'' q
        | GateEnabled \<Rightarrow> Inr ())"

definition validate_resources :: "campus_profile \<Rightarrow> unit profile_res" where
  "validate_resources p =
     (let r = cp_resources p in
      checks
        [check_range ''resources.cpu_millicores'' (rc_cpu_millicores r) 100 MAX_CPU_MILLICORES,
         check_range ''resources.memory_mib'' (rc_memory_mib r) 128 MAX_MEMORY_MIB,
         check_range ''resources.ephemeral_storage_mib'' (rc_ephemeral_storage_mib r) 128
           MAX_EPHEMERAL_STORAGE_MIB,
         check_range ''resources.pids'' (rc_pids r) MIN_PIDS MAX_PIDS])"

definition egress_field :: "string \<Rightarrow> nat \<Rightarrow> string" where
  "egress_field name i = name @ ''['' @ show_nat i @ '']''"

definition validate_network :: "campus_profile \<Rightarrow> unit profile_res" where
  "validate_network p =
     (let mode = np_mode (cp_network p); egress = np_egress (cp_network p) in
      checks
        [require (\<not> (mode = NetDenied \<and> egress \<noteq> []))
           (PeInvalid ''network.egress'' ''denied network must not list destinations''),
         require (\<not> (mode = NetApprovedEgress \<and> egress = []))
           (PeInvalid ''network.egress'' ''approved_egress requires at least one destination''),
         require (\<not> (cp_kind p = KindSecurity \<and> mode \<noteq> NetDenied))
           (PeInvalid ''network.mode'' ''security profiles must not reach external destinations''),
         require (length egress \<le> MAX_EGRESS_DESTINATIONS)
           (PeInvalid ''network.egress''
             (''at most '' @ show_nat MAX_EGRESS_DESTINATIONS @ '' destinations'')),
         each_unique id
           (\<lambda>i d. and_then (validate_egress_host (egress_field ''network.egress'' i) (ed_host d))
              (require (ed_port d \<noteq> 0) (PeInvalid (egress_field ''network.egress'' i)
                ''port must be between 1 and 65535'')))
           (\<lambda>i d. PeInvalid (egress_field ''network.egress'' i) ''duplicate destination'')
           0 [] egress])"

definition validate_time_and_budget :: "campus_profile \<Rightarrow> unit profile_res" where
  "validate_time_and_budget p =
     checks
       [check_range ''ttl_seconds'' (cp_ttl_seconds p) MIN_TTL_SECONDS MAX_TTL_SECONDS,
        map_err (PeInvalid ''agent_budget'')
          (run_budget_validate (agent_run_budget (cp_agent_budget p))),
        require (ab_active_execution_seconds (cp_agent_budget p) \<le> ucast (cp_ttl_seconds p))
          (PeInvalid ''agent_budget.active_execution_seconds'' ''must not exceed ttl_seconds'')]"

definition validate_model_policy :: "campus_profile \<Rightarrow> unit profile_res" where
  "validate_model_policy p =
     (let m = cp_model_policy p in
      checks
        [validate_identifier_set ''model_policy.model_aliases'' (mp_model_aliases m) False,
         require (\<not> (mp_session_allocation_micro_usd m = 0 \<or>
             MAX_SESSION_ALLOCATION_MICRO_USD < mp_session_allocation_micro_usd m))
           (PeInvalid ''model_policy.session_allocation_micro_usd''
             (''must be between 1 and '' @ show_word MAX_SESSION_ALLOCATION_MICRO_USD)),
         check_range ''model_policy.max_output_tokens'' (mp_max_output_tokens m) 1 MAX_OUTPUT_TOKENS,
         check_range ''model_policy.max_concurrent_requests'' (mp_max_concurrent_requests m) 1
           MAX_CONCURRENT_MODEL_REQUESTS])"

definition validate_binding :: "nat \<Rightarrow> capability_binding \<Rightarrow> unit profile_res" where
  "validate_binding i b =
     (let field = egress_field ''capabilities'' i in
      case find (\<lambda>(tool, _). tool = cb_tool b) CAMPUS_TOOL_CATALOG of
        None \<Rightarrow> Inl (PeInvalid field (cb_tool b @ '' is not a Campus tool''))
      | Some (_, scope) \<Rightarrow>
          require (scope = cb_scope b)
            (PeInvalid field
              (cb_tool b @ '' must be bound to scope '' @ capability_scope_debug scope)))"

definition validate_capabilities :: "campus_profile \<Rightarrow> unit profile_res" where
  "validate_capabilities p =
     (if cp_capabilities p = [] then Inl (PeInvalid ''capabilities'' ''at least one tool is required'')
      else each_unique cb_tool validate_binding
        (\<lambda>i _. PeInvalid (egress_field ''capabilities'' i) ''duplicate tool'') 0 [] (cp_capabilities p))"

definition validate_student_choices :: "campus_profile \<Rightarrow> unit profile_res" where
  "validate_student_choices p =
     (let c = cp_student_choices p in
      and_then (validate_identifier_set ''student_choices.model_aliases'' (sc_model_aliases c) True)
        (and_then
          (case find (\<lambda>a. a \<notin> set (mp_model_aliases (cp_model_policy p))) (sc_model_aliases c) of
             Some alias \<Rightarrow> Inl (PeInvalid ''student_choices.model_aliases''
               (alias @ '' is not an approved model alias''))
           | None \<Rightarrow> Inr ())
          (require (\<not> (sc_min_ttl_seconds c < MIN_TTL_SECONDS \<or>
               cp_ttl_seconds p < sc_min_ttl_seconds c))
            (PeInvalid ''student_choices.min_ttl_seconds''
              (''must be between '' @ show_word MIN_TTL_SECONDS @ '' and ttl_seconds'')))))"

definition profile_validate :: "campus_profile \<Rightarrow> unit profile_res" where
  "profile_validate p =
     checks
       [require (cp_schema_version p = CAMPUS_PROFILE_SCHEMA)
          (PeInvalid ''schema_version'' (''expected '' @ CAMPUS_PROFILE_SCHEMA)),
        validate_identifier ''id'' (cp_id p),
        require (starts_with (cp_id p) ''campus-'') (PeInvalid ''id'' ''must start with campus-''),
        validate_identifier ''version'' (cp_version p),
        validate_isolation p,
        validate_immutable_image (cp_image p),
        validate_resources p,
        validate_network p,
        validate_time_and_budget p,
        validate_model_policy p,
        validate_capabilities p,
        validate_student_choices p]"

text \<open>\<open>CampusProfile::parse\<close>; \<open>from_str\<close> is the strict JSON decoder.\<close>

definition profile_parse ::
    "(string \<Rightarrow> (string, campus_profile) res) \<Rightarrow> string \<Rightarrow> campus_profile profile_res" where
  "profile_parse from_str document =
     (if MAX_PROFILE_BYTES < length document
      then Inl (PeMalformed (''document exceeds '' @ show_nat MAX_PROFILE_BYTES @ '' bytes''))
      else res_bind (map_err PeMalformed (from_str document)) (\<lambda>p.
        res_bind (profile_validate p) (\<lambda>_. Inr p)))"

definition check_launchable :: "campus_profile \<Rightarrow> string set \<Rightarrow> unit profile_res" where
  "check_launchable p recorded =
     (case cp_launch_gate p of
        GateEnabled \<Rightarrow> Inr ()
      | GateRequiresQualification q \<Rightarrow>
          (if q \<in> recorded then Inr () else Inl (PeLaunchRefused (cp_id p) q)))"

text \<open>\<open>ph\<close> is the SHA-256 of the canonical JSON of the serialised profile.\<close>

definition profile_ref_of :: "(campus_profile \<Rightarrow> string) \<Rightarrow> campus_profile \<Rightarrow> profile_ref" where
  "profile_ref_of ph p = \<lparr>pr_id = cp_id p, pr_version = cp_version p, pr_profile_hash = ph p\<rparr>"

definition agent_profile_of ::
    "(campus_profile \<Rightarrow> string) \<Rightarrow> campus_profile \<Rightarrow> string \<Rightarrow> string \<Rightarrow> agent_profile profile_res"
  where
  "agent_profile_of ph p model_alias prompt_version =
     (if model_alias \<notin> set (mp_model_aliases (cp_model_policy p))
      then Inl (PeInvalid ''model_alias'' (model_alias @ '' is not approved for '' @ cp_id p))
      else and_then (validate_identifier ''prompt_version'' prompt_version)
        (Inr \<lparr>ap_id = cp_id p, ap_version = cp_version p, ap_profile_hash = ph p,
              ap_prompt_version = prompt_version, ap_model = model_alias,
              ap_tools = map cb_tool (cp_capabilities p),
              ap_budget = agent_run_budget (cp_agent_budget p)\<rparr>))"

section \<open>What each check accepts\<close>

lemma check_range_ok [res_simps]: "check_range f v lo hi = Inr u \<longleftrightarrow> lo \<le> v \<and> v \<le> hi"
  by (simp add: check_range_def)

lemma validate_identifier_ok [res_simps]: "validate_identifier f v = Inr u \<longleftrightarrow> valid_identifier v"
  by (simp add: validate_identifier_def)

lemma validate_identifier_set_ok [res_simps]:
  "validate_identifier_set f vs e = Inr u \<longleftrightarrow>
     (vs \<noteq> [] \<or> e) \<and> distinct vs \<and> (\<forall>v\<in>set vs. valid_identifier v)"
  by (auto simp: validate_identifier_set_def each_unique_ok validate_identifier_ok all_set_conv_all_nth)

lemma validate_egress_host_ok [res_simps]:
  "validate_egress_host f h = Inr u \<longleftrightarrow> approved_dns_name h"
  by (simp add: validate_egress_host_def)

lemma run_budget_validate_ok [res_simps]:
  "run_budget_validate b = Inr u \<longleftrightarrow>
     1 \<le> rb_initial_turns b \<and> rb_initial_turns b \<le> rb_hard_turns b \<and> rb_hard_turns b \<le> 100 \<and>
     rb_initial_tokens b \<noteq> 0 \<and> rb_initial_tokens b \<le> rb_hard_tokens b \<and>
     rb_hard_tokens b \<le> 1000000 \<and> rb_active_execution_seconds b \<noteq> 0 \<and>
     rb_recoverable_tool_errors b \<le> 8 \<and> 1 \<le> rb_identical_failures b \<and>
     rb_identical_failures b \<le> 3 \<and> rb_verification_reserve_turns b < rb_initial_turns b"
  by (auto simp: run_budget_validate_def not_le not_less one_le_word)

definition egress_ok :: "profile_kind \<Rightarrow> network_profile \<Rightarrow> bool" where
  "egress_ok k n \<longleftrightarrow>
     (np_mode n = NetDenied \<longleftrightarrow> np_egress n = []) \<and> (k = KindSecurity \<longrightarrow> np_egress n = []) \<and>
     length (np_egress n) \<le> MAX_EGRESS_DESTINATIONS \<and> distinct (np_egress n) \<and>
     (\<forall>d\<in>set (np_egress n). approved_dns_name (ed_host d) \<and> ed_port d \<noteq> 0)"

lemma validate_network_ok [res_simps]:
  "validate_network p = Inr u \<longleftrightarrow> egress_ok (cp_kind p) (cp_network p)"
  by (cases "np_mode (cp_network p)")
    (auto simp: validate_network_def egress_ok_def Let_def each_unique_ok validate_egress_host_ok
      all_set_conv_all_nth)

lemma catalog_distinct: "distinct (map fst CAMPUS_TOOL_CATALOG)"
  by (simp add: CAMPUS_TOOL_CATALOG_def)

lemma find_pair:
  "distinct (map fst xs) \<Longrightarrow> (t, s) \<in> set xs \<Longrightarrow> find (\<lambda>(x, _). x = t) xs = Some (t, s)"
  by (induction xs) (auto simp: rev_image_eqI)

lemma validate_binding_ok [res_simps]:
  "validate_binding i b = Inr u \<longleftrightarrow> (cb_tool b, cb_scope b) \<in> set CAMPUS_TOOL_CATALOG"
proof (cases "find (\<lambda>(t, _). t = cb_tool b) CAMPUS_TOOL_CATALOG")
  case None
  then have "(cb_tool b, cb_scope b) \<notin> set CAMPUS_TOOL_CATALOG"
    using find_NoneD [OF None] by fastforce
  with None show ?thesis by (simp add: validate_binding_def Let_def)
next
  case (Some r)
  obtain t scope where r: "r = (t, scope)" by (cases r)
  with Some have "(cb_tool b, scope) \<in> set CAMPUS_TOOL_CATALOG"
    using find_SomeD [OF Some] by auto
  then have "(cb_tool b, cb_scope b) \<in> set CAMPUS_TOOL_CATALOG \<longleftrightarrow> scope = cb_scope b"
    using catalog_distinct by (metis eq_key_imp_eq_value)
  with Some r show ?thesis by (simp add: validate_binding_def Let_def)
qed

lemma validate_capabilities_ok [res_simps]:
  "validate_capabilities p = Inr u \<longleftrightarrow>
     cp_capabilities p \<noteq> [] \<and> distinct (map cb_tool (cp_capabilities p)) \<and>
     (\<forall>b\<in>set (cp_capabilities p). (cb_tool b, cb_scope b) \<in> set CAMPUS_TOOL_CATALOG)"
  by (auto simp: validate_capabilities_def each_unique_ok validate_binding_ok all_set_conv_all_nth)

lemma is_campus_tool_iff: "is_campus_tool t \<longleftrightarrow> (\<exists>s. (t, s) \<in> set CAMPUS_TOOL_CATALOG)"
  by (auto simp: is_campus_tool_def list_ex_iff)

lemma validate_student_choices_ok [res_simps]:
  "validate_student_choices p = Inr u \<longleftrightarrow>
     distinct (sc_model_aliases (cp_student_choices p)) \<and>
     (\<forall>a\<in>set (sc_model_aliases (cp_student_choices p)).
        valid_identifier a \<and> a \<in> set (mp_model_aliases (cp_model_policy p))) \<and>
     MIN_TTL_SECONDS \<le> sc_min_ttl_seconds (cp_student_choices p) \<and>
     sc_min_ttl_seconds (cp_student_choices p) \<le> cp_ttl_seconds p"
  by (auto simp: validate_student_choices_def Let_def validate_identifier_set_ok find_None_iff
      find_Some_iff not_less split: option.splits dest: nth_mem)

text \<open>
  The declarative reading of the envelope: what a profile promises, without the order of the
  checks or their messages.
\<close>

definition profile_ok :: "campus_profile \<Rightarrow> bool" where
  "profile_ok p \<longleftrightarrow>
     cp_schema_version p = CAMPUS_PROFILE_SCHEMA \<and>
     valid_identifier (cp_id p) \<and> starts_with (cp_id p) ''campus-'' \<and>
     valid_identifier (cp_version p) \<and>
     (cp_kind p = KindSecurity \<longrightarrow> cp_isolation p = IsoHardwareIsolated \<and>
        cp_launch_gate p = GateRequiresQualification SECURITY_PROFILE_QUALIFICATION) \<and>
     (\<forall>q. cp_launch_gate p = GateRequiresQualification q \<longrightarrow> valid_identifier q) \<and>
     validate_immutable_image (cp_image p) = Inr () \<and>
     100 \<le> rc_cpu_millicores (cp_resources p) \<and>
     rc_cpu_millicores (cp_resources p) \<le> MAX_CPU_MILLICORES \<and>
     128 \<le> rc_memory_mib (cp_resources p) \<and> rc_memory_mib (cp_resources p) \<le> MAX_MEMORY_MIB \<and>
     128 \<le> rc_ephemeral_storage_mib (cp_resources p) \<and>
     rc_ephemeral_storage_mib (cp_resources p) \<le> MAX_EPHEMERAL_STORAGE_MIB \<and>
     MIN_PIDS \<le> rc_pids (cp_resources p) \<and> rc_pids (cp_resources p) \<le> MAX_PIDS \<and>
     egress_ok (cp_kind p) (cp_network p) \<and>
     MIN_TTL_SECONDS \<le> cp_ttl_seconds p \<and> cp_ttl_seconds p \<le> MAX_TTL_SECONDS \<and>
     run_budget_validate (agent_run_budget (cp_agent_budget p)) = Inr () \<and>
     ab_active_execution_seconds (cp_agent_budget p) \<le> ucast (cp_ttl_seconds p) \<and>
     mp_model_aliases (cp_model_policy p) \<noteq> [] \<and>
     distinct (mp_model_aliases (cp_model_policy p)) \<and>
     (\<forall>a\<in>set (mp_model_aliases (cp_model_policy p)). valid_identifier a) \<and>
     mp_session_allocation_micro_usd (cp_model_policy p) \<noteq> 0 \<and>
     mp_session_allocation_micro_usd (cp_model_policy p) \<le> MAX_SESSION_ALLOCATION_MICRO_USD \<and>
     1 \<le> mp_max_output_tokens (cp_model_policy p) \<and>
     mp_max_output_tokens (cp_model_policy p) \<le> MAX_OUTPUT_TOKENS \<and>
     1 \<le> mp_max_concurrent_requests (cp_model_policy p) \<and>
     mp_max_concurrent_requests (cp_model_policy p) \<le> MAX_CONCURRENT_MODEL_REQUESTS \<and>
     cp_capabilities p \<noteq> [] \<and> distinct (map cb_tool (cp_capabilities p)) \<and>
     (\<forall>b\<in>set (cp_capabilities p). (cb_tool b, cb_scope b) \<in> set CAMPUS_TOOL_CATALOG) \<and>
     set (sc_model_aliases (cp_student_choices p)) \<subseteq> set (mp_model_aliases (cp_model_policy p)) \<and>
     distinct (sc_model_aliases (cp_student_choices p)) \<and>
     MIN_TTL_SECONDS \<le> sc_min_ttl_seconds (cp_student_choices p) \<and>
     sc_min_ttl_seconds (cp_student_choices p) \<le> cp_ttl_seconds p"

lemma validate_isolation_ok:
  "validate_isolation p = Inr u \<longleftrightarrow>
     (cp_kind p = KindSecurity \<longrightarrow> cp_isolation p = IsoHardwareIsolated \<and>
        cp_launch_gate p = GateRequiresQualification SECURITY_PROFILE_QUALIFICATION) \<and>
     (\<forall>q. cp_launch_gate p = GateRequiresQualification q \<longrightarrow> valid_identifier q)"
  by (auto simp: validate_isolation_def validate_identifier_ok split: launch_gate.splits)

lemma profile_validate_ok: "profile_validate p = Inr u \<longleftrightarrow> profile_ok p"
  by (auto simp: profile_validate_def profile_ok_def validate_identifier_ok validate_isolation_ok
      validate_resources_def check_range_ok validate_network_ok validate_time_and_budget_def
      validate_model_policy_def validate_identifier_set_ok validate_capabilities_ok
      validate_student_choices_ok not_less Let_def)

text \<open>The characters of the names the envelope admits.\<close>

lemma valid_identifier_no_colon: "valid_identifier v \<Longrightarrow> CHR '':'' \<notin> set v"
  by (auto simp: valid_identifier_def list_all_iff is_ascii_lower_def is_ascii_digit_def byte_literals)

lemma set_split_on: "x \<in> set s \<Longrightarrow> x \<noteq> c \<Longrightarrow> \<exists>seg\<in>set (split_on c s). x \<in> set seg"
  by (induction s) (auto split: list.splits if_splits)

lemma approved_dns_name_no_colon: "approved_dns_name h \<Longrightarrow> CHR '':'' \<notin> set h"
proof
  assume a: "approved_dns_name h" and c: "CHR '':'' \<in> set h"
  from set_split_on [OF c, of "CHR ''.''"] obtain seg where
    seg: "seg \<in> set (split_on CHR ''.'' h)" "CHR '':'' \<in> set seg" by auto
  with a have "well_formed_label seg" by (auto simp: approved_dns_name_def Let_def list_all_iff)
  with seg show False
    by (auto simp: well_formed_label_def list_all_iff is_ascii_lower_def is_ascii_digit_def
        byte_literals)
qed

lemma approved_dns_name_not_Nil: "approved_dns_name h \<Longrightarrow> h \<noteq> []"
  by (auto simp: approved_dns_name_def Let_def)

section \<open>Properties\<close>


text \<open>A security profile that validates and may launch is hardware isolated, reaches no external
  destination, and its qualification has been recorded.\<close>
theorem security_profile_launch_safe:
  assumes "profile_validate p = Inr ()" "check_launchable p recorded = Inr ()"
    "cp_kind p = KindSecurity"
  shows "cp_isolation p = IsoHardwareIsolated \<and> np_mode (cp_network p) = NetDenied \<and>
     np_egress (cp_network p) = [] \<and> SECURITY_PROFILE_QUALIFICATION \<in> recorded"
  using assms
  by (auto simp: profile_validate_ok profile_ok_def egress_ok_def check_launchable_def
      split: launch_gate.splits if_splits)

definition example_profile :: campus_profile where
  "example_profile =
     \<lparr>cp_schema_version = CAMPUS_PROFILE_SCHEMA, cp_id = ''campus-security'',
      cp_version = ''v1'', cp_kind = KindSecurity, cp_isolation = IsoHardwareIsolated,
      cp_image = ''registry.example/lab/tools@sha256:'' @ replicate 64 CHR ''a'',
      cp_resources = \<lparr>rc_cpu_millicores = 1000, rc_memory_mib = 1024,
        rc_ephemeral_storage_mib = 2048, rc_pids = 128\<rparr>,
      cp_network = \<lparr>np_mode = NetDenied, np_egress = []\<rparr>,
      cp_ttl_seconds = 3600,
      cp_agent_budget = \<lparr>ab_initial_turns = 10, ab_hard_turns = 20, ab_initial_tokens = 1000,
        ab_hard_tokens = 2000, ab_active_execution_seconds = 1800\<rparr>,
      cp_model_policy = \<lparr>mp_model_aliases = [''lab-small'', ''lab-large''],
        mp_session_allocation_micro_usd = 500000, mp_max_output_tokens = 4096,
        mp_max_concurrent_requests = 1\<rparr>,
      cp_capabilities = [\<lparr>cb_tool = ''finish'', cb_scope = ScopeAgentControl\<rparr>,
        \<lparr>cb_tool = ''read_file'', cb_scope = ScopeSessionWorkspace\<rparr>,
        \<lparr>cb_tool = ''run_workspace_command'', cb_scope = ScopeSessionShell\<rparr>],
      cp_student_choices = \<lparr>sc_model_aliases = [''lab-small''], sc_min_ttl_seconds = 600\<rparr>,
      cp_launch_gate = GateRequiresQualification SECURITY_PROFILE_QUALIFICATION\<rparr>"

lemma example_gate:
  "\<forall>q. cp_launch_gate example_profile = GateRequiresQualification q \<longrightarrow> valid_identifier q"
proof -
  have "valid_identifier SECURITY_PROFILE_QUALIFICATION" by code_simp
  then show ?thesis by (simp add: example_profile_def)
qed

lemma example_profile_valid: "profile_validate example_profile = Inr ()"
  unfolding profile_validate_ok profile_ok_def
  by (intro conjI; (rule example_gate | code_simp))

lemma security_profile_launch_safe_witness:
  "np_egress (cp_network example_profile) = [] \<and> cp_isolation example_profile = IsoHardwareIsolated"
  using security_profile_launch_safe
    [OF example_profile_valid, of "{SECURITY_PROFILE_QUALIFICATION}"]
  by (simp add: check_launchable_def example_profile_def)

text \<open>An accepted image reference has exactly one reading: there is one way to split it at the
  digest marker, its digest is 64 lower-case hexadecimal digits, and the last path segment of the
  repository carries no tag.\<close>
theorem immutable_image_unambiguous:
  assumes "validate_immutable_image v = Inr ()"
  shows "\<exists>!(repository, digest). v = repository @ ''@sha256:'' @ digest \<and>
     is_image_repository repository \<and> is_image_digest digest"
proof -
  obtain r d where rd: "split_once ''@sha256:'' v = Some (r, d)" "is_image_repository r"
    "is_image_digest d"
    using assms by (auto simp: validate_immutable_image_def split: option.splits if_splits)
  have v: "v = r @ ''@sha256:'' @ d" using split_once_Some [OF rd(1)] .
  have no_at: "CHR ''@'' \<notin> set x" if "is_image_repository x" for x
    using that by (auto simp: is_image_repository_def Let_def list_all_iff is_ascii_lower_def
        is_ascii_digit_def byte_def)
  have unique: "r' = r \<and> d' = d" if "v = r' @ ''@sha256:'' @ d'" "is_image_repository r'" for r' d'
  proof -
    have "split_on CHR ''@'' v = x # split_on CHR ''@'' (''sha256:'' @ y)"
      if "v = x @ ''@sha256:'' @ y" "is_image_repository x" for x y
      using split_on_append_sep [OF no_at [OF that(2)], of "''sha256:'' @ y"] that(1)
      by (simp only: append_Cons append_Nil)
    from this [OF v rd(2)] this [OF that]
    have "r' = r" by (metis list.inject)
    moreover have "r @ ''@sha256:'' @ d = r' @ ''@sha256:'' @ d'"
      by (rule trans [OF v [symmetric] that(1)])
    ultimately show ?thesis by (simp only: same_append_eq simp_thms)
  qed
  show ?thesis
  proof (rule ex1I [of _ "(r, d)"])
    show "case (r, d) of (repository, digest) \<Rightarrow> v = repository @ ''@sha256:'' @ digest \<and>
        is_image_repository repository \<and> is_image_digest digest"
      unfolding prod.case using v rd(2,3) by (intro conjI)
  next
    fix x
    assume "case x of (repository, digest) \<Rightarrow> v = repository @ ''@sha256:'' @ digest \<and>
        is_image_repository repository \<and> is_image_digest digest"
    with unique [of "fst x" "snd x"] show "x = (r, d)"
      by (cases x) (simp only: prod.case fst_conv snd_conv simp_thms)
  qed
qed

lemma immutable_image_unambiguous_witness:
  "\<exists>!(repository, digest). cp_image example_profile = repository @ ''@sha256:'' @ digest \<and>
     is_image_repository repository \<and> is_image_digest digest"
proof -
  have "validate_immutable_image (cp_image example_profile) = Inr ()" by code_simp
  then show ?thesis by (rule immutable_image_unambiguous)
qed

end
