(* ===== verification/Utf8.thy ===== *)
theory Utf8
  imports RustStr
begin

text \<open>
  UTF-8 as Rust's standard library decodes it: the scalar value at the front of a byte sequence,
  \<open>String::from_utf8_lossy\<close>, in which each maximal invalid subpart becomes U+FFFD, and the validity that
  \<open>String::from_utf8\<close> checks.
\<close>

definition is_continuation :: "string \<Rightarrow> nat \<Rightarrow> bool" where
  "is_continuation s i \<longleftrightarrow> i < length s \<and> 128 \<le> byte (s ! i) \<and> byte (s ! i) \<le> 191"

definition in_second :: "string \<Rightarrow> nat \<Rightarrow> nat \<Rightarrow> bool" where
  "in_second s lo hi \<longleftrightarrow> 1 < length s \<and> lo \<le> byte (s ! 1) \<and> byte (s ! 1) \<le> hi"

text \<open>Bytes consumed by the first scalar value of a non-empty string, and whether it is valid.\<close>

definition utf8_step :: "string \<Rightarrow> nat \<times> bool" where
  "utf8_step s =
     (let b = byte (hd s) in
      if b < 128 then (1, True)
      else if 194 \<le> b \<and> b \<le> 223 then (if is_continuation s 1 then (2, True) else (1, False))
      else if 224 \<le> b \<and> b \<le> 239 then
        (if (b = 224 \<and> in_second s 160 191) \<or> (b = 237 \<and> in_second s 128 159)
             \<or> (b \<noteq> 224 \<and> b \<noteq> 237 \<and> in_second s 128 191)
         then (if is_continuation s 2 then (3, True) else (2, False))
         else (1, False))
      else if 240 \<le> b \<and> b \<le> 244 then
        (if (b = 240 \<and> in_second s 144 191) \<or> (b = 244 \<and> in_second s 128 143)
             \<or> (b \<noteq> 240 \<and> b \<noteq> 244 \<and> in_second s 128 191)
         then (if is_continuation s 2
               then (if is_continuation s 3 then (4, True) else (3, False)) else (2, False))
         else (1, False))
      else (1, False))"

fun utf8_lossy_fuel :: "nat \<Rightarrow> string \<Rightarrow> string" where
  "utf8_lossy_fuel 0 s = []"
| "utf8_lossy_fuel (Suc n) s =
     (if s = [] then []
      else case utf8_step s of (k, valid) \<Rightarrow>
        (if valid then take k s else [CHR 0xEF, CHR 0xBF, CHR 0xBD]) @ utf8_lossy_fuel n (drop k s))"

text \<open>Each step consumes at least one byte, so the length of the input is enough fuel.\<close>

definition utf8_lossy :: "string \<Rightarrow> string" where
  "utf8_lossy s = utf8_lossy_fuel (length s) s"

text \<open>\<open>str::from_utf8\<close> accepts exactly the sequences of valid scalar values.\<close>

fun utf8_valid_fuel :: "nat \<Rightarrow> string \<Rightarrow> bool" where
  "utf8_valid_fuel 0 s = (s = [])"
| "utf8_valid_fuel (Suc n) s =
     (if s = [] then True
      else case utf8_step s of (k, valid) \<Rightarrow> valid \<and> utf8_valid_fuel n (drop k s))"

definition utf8_valid :: "string \<Rightarrow> bool" where
  "utf8_valid s = utf8_valid_fuel (length s) s"

lemma utf8_lossy_fuel_valid: "utf8_valid_fuel n s \<Longrightarrow> utf8_lossy_fuel n s = s"
  by (induction n arbitrary: s) (auto split: if_splits prod.splits)

lemma utf8_lossy_valid: "utf8_valid s \<Longrightarrow> utf8_lossy s = s"
  by (simp add: utf8_valid_def utf8_lossy_def utf8_lossy_fuel_valid)

end
