(* ===== verification/CampusEgress.thy ===== *)
theory CampusEgress
  imports CampusProfile Utf8
begin

unbundle bit_operations_syntax

text \<open>
  \<open>campus_egress.rs\<close>: the contract of the egress proxy. The target of a \<open>CONNECT\<close>, the annotation
  with a session's approved hosts, the check of one HTTP request with the repeated percent
  decoding, and the address ranges the proxy may dial, with IPv4 and IPv6 addresses as 32- and
  128-bit words and the masks of the source.
\<close>

section \<open>Routes\<close>

definition CAMPUS_EGRESS_PORT :: u16 where "CAMPUS_EGRESS_PORT = 443"
definition CAMPUS_EGRESS_MAX_REQUEST_BODY_BYTES :: u64 where
  "CAMPUS_EGRESS_MAX_REQUEST_BODY_BYTES = 8 * 1024 * 1024"
definition MAX_TARGET_BYTES :: nat where "MAX_TARGET_BYTES = 8 * 1024"

datatype route_kind = RoutePackage | RouteGitRead | RouteRetrieval

definition CAMPUS_EGRESS_ROUTES :: "(string \<times> route_kind) list" where
  "CAMPUS_EGRESS_ROUTES =
    [(''pypi.org'', RoutePackage), (''files.pythonhosted.org'', RoutePackage),
     (''registry.npmjs.org'', RoutePackage), (''github.com'', RouteGitRead),
     (''codeload.github.com'', RouteRetrieval), (''raw.githubusercontent.com'', RouteRetrieval)]"

definition campus_egress_route :: "string \<Rightarrow> route_kind option" where
  "campus_egress_route host =
     map_option snd (find (\<lambda>(approved, _). approved = host) CAMPUS_EGRESS_ROUTES)"

datatype egress_denial =
    EdConnect | EdHost | EdUnknownSession | EdAddress | EdTarget | EdHostMismatch | EdMethod
  | EdGitPush | EdUpgrade | EdBodyTooLarge

fun egress_denial_code :: "egress_denial \<Rightarrow> string" where
  "egress_denial_code EdConnect = ''connect''"
| "egress_denial_code EdHost = ''host''"
| "egress_denial_code EdUnknownSession = ''unknown_session''"
| "egress_denial_code EdAddress = ''address''"
| "egress_denial_code EdTarget = ''target''"
| "egress_denial_code EdHostMismatch = ''host_mismatch''"
| "egress_denial_code EdMethod = ''method''"
| "egress_denial_code EdGitPush = ''git_push''"
| "egress_denial_code EdUpgrade = ''upgrade''"
| "egress_denial_code EdBodyTooLarge = ''body_too_large''"

definition approved_host :: "string \<Rightarrow> string option" where
  "approved_host host = map_option fst (find (\<lambda>(approved, _). approved = host) CAMPUS_EGRESS_ROUTES)"

definition parse_campus_connect_target :: "string \<Rightarrow> (egress_denial, string) res" where
  "parse_campus_connect_target authority =
     res_bind (ok_or (rsplit_once CHR '':'' authority) EdConnect) (\<lambda>(host, port).
       if port \<noteq> ''443'' then Inl EdConnect
       else ok_or (approved_host (to_ascii_lowercase host)) EdHost)"

definition format_campus_egress_hosts :: "string list \<Rightarrow> string" where
  "format_campus_egress_hosts hosts = join '','' (btree_set hosts)"

fun parse_hosts_from :: "string list \<Rightarrow> string list \<Rightarrow> (egress_denial, string list) res" where
  "parse_hosts_from hosts [] = Inr (btree_set hosts)"
| "parse_hosts_from hosts (entry # entries) =
     res_bind (ok_or (approved_host entry) EdHost) (\<lambda>host.
       if host \<in> set hosts then Inl EdHost else parse_hosts_from (host # hosts) entries)"

definition parse_campus_egress_hosts :: "string \<Rightarrow> (egress_denial, string list) res" where
  "parse_campus_egress_hosts v = parse_hosts_from [] (split_on CHR '','' v)"

section \<open>Percent decoding\<close>

definition hex_digit :: "char \<Rightarrow> nat option" where
  "hex_digit c =
     (if is_ascii_digit c then Some (byte c - 48)
      else if 97 \<le> byte c \<and> byte c \<le> 102 then Some (byte c - 87)
      else if 65 \<le> byte c \<and> byte c \<le> 70 then Some (byte c - 55)
      else None)"

fun percent_decode_once :: "string \<Rightarrow> string" where
  "percent_decode_once [] = []"
| "percent_decode_once (c # rest) =
     (case (if c = CHR ''%'' then
              (case rest of
                 h # l # _ \<Rightarrow> (case (hex_digit h, hex_digit l) of
                     (Some high, Some low) \<Rightarrow> Some (char_of (high * 16 + low) :: char)
                   | _ \<Rightarrow> None)
               | _ \<Rightarrow> None)
            else None) of
        Some d \<Rightarrow> d # percent_decode_once (drop 2 rest)
      | None \<Rightarrow> c # percent_decode_once rest)"

fun percent_decode_rounds :: "nat \<Rightarrow> string \<Rightarrow> string" where
  "percent_decode_rounds 0 current = current"
| "percent_decode_rounds (Suc n) current =
     (let next = utf8_lossy (percent_decode_once current) in
      if next = current then current else percent_decode_rounds n next)"

definition percent_decode_lossy :: "string \<Rightarrow> string" where
  "percent_decode_lossy v = percent_decode_rounds 4 v"

section \<open>The check of a request\<close>

record egress_request =
  er_tunnel_host :: string
  er_method :: string
  er_host :: "string option"
  er_target :: string
  er_content_type :: "string option"
  er_upgrade :: bool
  er_content_length :: "u64 option"

definition plain_segment :: "string \<Rightarrow> bool" where
  "plain_segment seg \<longleftrightarrow>
     seg \<noteq> [] \<and> seg \<noteq> ''.'' \<and> seg \<noteq> ''..'' \<and>
     list_all (\<lambda>b. is_ascii_alnum b \<or> b \<in> {CHR ''-'', CHR ''_'', CHR ''.''}) seg"

definition is_upload_pack_path :: "string \<Rightarrow> bool" where
  "is_upload_pack_path target \<longleftrightarrow>
     (case drop 1 (split_on CHR ''/'' target) of
        [owner, repository, last_segment] \<Rightarrow>
          last_segment = ''git-upload-pack'' \<and> plain_segment owner \<and> plain_segment repository
      | _ \<Rightarrow> False)"

definition well_formed_target :: "string \<Rightarrow> bool" where
  "well_formed_target target \<longleftrightarrow>
     \<not> (\<not> starts_with target ''/'' \<or> starts_with target ''//'' \<or>
        MAX_TARGET_BYTES < length target \<or> contains_char target CHR ''#'' \<or>
        \<not> list_all is_ascii_graphic target)"

definition check_campus_egress_request :: "egress_request \<Rightarrow> (egress_denial, unit) res" where
  "check_campus_egress_request r =
     res_bind (ok_or (campus_egress_route (er_tunnel_host r)) EdHost) (\<lambda>kind.
       if er_upgrade r then Inl EdUpgrade
       else if \<not> well_formed_target (er_target r) then Inl EdTarget
       else res_bind (ok_or (er_host r) EdHostMismatch) (\<lambda>host.
         let host = to_ascii_lowercase host;
             host = (case strip_suffix host '':443'' of Some h \<Rightarrow> h | None \<Rightarrow> host) in
         if host \<noteq> er_tunnel_host r then Inl EdHostMismatch
         else if str_contains (to_ascii_lowercase (percent_decode_lossy (er_target r))) ''receive-pack''
         then Inl EdGitPush
         else if (case er_content_length r of
               Some n \<Rightarrow> CAMPUS_EGRESS_MAX_REQUEST_BODY_BYTES < n | None \<Rightarrow> False)
         then Inl EdBodyTooLarge
         else if er_method r = ''GET'' \<or> er_method r = ''HEAD'' then Inr ()
         else if er_method r = ''POST'' \<and> kind = RouteGitRead then
           (if is_upload_pack_path (er_target r) \<and>
               map_option (\<lambda>v. to_ascii_lowercase (trim v)) (er_content_type r) =
                 Some ''application/x-git-upload-pack-request''
            then Inr () else Inl EdMethod)
         else Inl EdMethod))"

section \<open>Addresses\<close>

datatype ipv4 = Ipv4 u8 u8 u8 u8

datatype ipv6 = Ipv6 u16 u16 u16 u16 u16 u16 u16 u16

text \<open>The big-endian numbers of the addresses, \<open>u32::from\<close> and \<open>u128::from\<close>.\<close>

fun ipv4_number :: "ipv4 \<Rightarrow> nat" where
  "ipv4_number (Ipv4 a b c d) = ((unat a * 256 + unat b) * 256 + unat c) * 256 + unat d"

definition u32_of_ipv4 :: "ipv4 \<Rightarrow> u32" where
  "u32_of_ipv4 a = of_nat (ipv4_number a)"

fun ipv6_number :: "ipv6 \<Rightarrow> nat" where
  "ipv6_number (Ipv6 a b c d e f g h) =
     ((((((unat a * 65536 + unat b) * 65536 + unat c) * 65536 + unat d) * 65536 + unat e) * 65536
       + unat f) * 65536 + unat g) * 65536 + unat h"

definition u128_of_ipv6 :: "ipv6 \<Rightarrow> 128 word" where
  "u128_of_ipv6 a = of_nat (ipv6_number a)"

definition in_v4 :: "ipv4 \<Rightarrow> ipv4 \<Rightarrow> nat \<Rightarrow> bool" where
  "in_v4 address network pre \<longleftrightarrow>
     (let m = (if pre = 0 then 0 else push_bit (32 - pre) (- 1 :: u32)) in
      u32_of_ipv4 address AND m = u32_of_ipv4 network AND m)"

definition REFUSED_V4 :: "(ipv4 \<times> nat) list" where
  "REFUSED_V4 =
    [(Ipv4 0 0 0 0, 8), (Ipv4 10 0 0 0, 8), (Ipv4 100 64 0 0, 10), (Ipv4 127 0 0 0, 8),
     (Ipv4 169 254 0 0, 16), (Ipv4 172 16 0 0, 12), (Ipv4 192 0 0 0, 24), (Ipv4 192 0 2 0, 24),
     (Ipv4 192 31 196 0, 24), (Ipv4 192 52 193 0, 24), (Ipv4 192 88 99 0, 24),
     (Ipv4 192 168 0 0, 16), (Ipv4 192 175 48 0, 24), (Ipv4 198 18 0 0, 15),
     (Ipv4 198 51 100 0, 24), (Ipv4 203 0 113 0, 24), (Ipv4 224 0 0 0, 4), (Ipv4 240 0 0 0, 4)]"

definition is_public_v4 :: "ipv4 \<Rightarrow> bool" where
  "is_public_v4 address \<longleftrightarrow> \<not> list_ex (\<lambda>(network, pre). in_v4 address network pre) REFUSED_V4"

definition in_v6 :: "ipv6 \<Rightarrow> ipv6 \<Rightarrow> nat \<Rightarrow> bool" where
  "in_v6 address network pre \<longleftrightarrow>
     (let m = (if pre = 0 then 0 else push_bit (128 - pre) (- 1 :: 128 word)) in
      u128_of_ipv6 address AND m = u128_of_ipv6 network AND m)"

definition REFUSED_V6 :: "(ipv6 \<times> nat) list" where
  "REFUSED_V6 =
    [(Ipv6 0x2001 0 0 0 0 0 0 0, 23), (Ipv6 0x2001 0x0db8 0 0 0 0 0 0, 32),
     (Ipv6 0x2002 0 0 0 0 0 0 0, 16), (Ipv6 0x3fff 0 0 0 0 0 0 0, 20)]"

definition is_public_v6 :: "ipv6 \<Rightarrow> bool" where
  "is_public_v6 address \<longleftrightarrow>
     in_v6 address (Ipv6 0x2000 0 0 0 0 0 0 0) 3 \<and>
     \<not> list_ex (\<lambda>(network, pre). in_v6 address network pre) REFUSED_V6"

datatype ip_addr = IpV4 ipv4 | IpV6 ipv6

fun is_public_egress_address :: "ip_addr \<Rightarrow> bool" where
  "is_public_egress_address (IpV4 a) = is_public_v4 a"
| "is_public_egress_address (IpV6 a) = is_public_v6 a"

text \<open>An IPv6 socket address also carries its flow information and scope.\<close>

datatype socket_addr = SockV4 ipv4 u16 | SockV6 ipv6 u16 u32 u32

fun sock_ip :: "socket_addr \<Rightarrow> ip_addr" where
  "sock_ip (SockV4 a p) = IpV4 a"
| "sock_ip (SockV6 a p f s) = IpV6 a"

fun sock_port :: "socket_addr \<Rightarrow> u16" where
  "sock_port (SockV4 a p) = p"
| "sock_port (SockV6 a p f s) = p"

text \<open>The key \<open>(address.is_ipv6(), *address)\<close> under the derived order, as a list of numbers.\<close>

fun sock_key :: "socket_addr \<Rightarrow> nat list" where
  "sock_key (SockV4 (Ipv4 a b c d) p) = [0, unat a, unat b, unat c, unat d, unat p]"
| "sock_key (SockV6 (Ipv6 a b c d e f g h) p fl sc) =
     [1, unat a, unat b, unat c, unat d, unat e, unat f, unat g, unat h, unat p, unat fl, unat sc]"

definition select_campus_egress_addresses ::
    "socket_addr list \<Rightarrow> (egress_denial, socket_addr list) res" where
  "select_campus_egress_addresses resolved =
     (if resolved = [] \<or>
         list_ex (\<lambda>a. \<not> is_public_egress_address (sock_ip a) \<or> sock_port a \<noteq> CAMPUS_EGRESS_PORT) resolved
      then Inl EdAddress
      else Inr (remdups_adj (sort_key sock_key resolved)))"

section \<open>Address ranges as ranges of octets\<close>

lemma masked_eq_iff:
  fixes x y :: "'a::len word"
  shows "x AND push_bit n (- 1) = y AND push_bit n (- 1) \<longleftrightarrow> drop_bit n x = drop_bit n y"
proof
  assume m: "x AND push_bit n (- 1) = y AND push_bit n (- 1)"
  show "drop_bit n x = drop_bit n y"
  proof (rule bit_word_eqI)
    fix k
    assume "k < LENGTH('a)"
    show "bit (drop_bit n x) k \<longleftrightarrow> bit (drop_bit n y) k"
      using arg_cong [OF m, of "\<lambda>w. bit w (n + k)"]
      by (auto simp: bit_simps dest: bit_imp_le_length)
  qed
next
  assume d: "drop_bit n x = drop_bit n y"
  show "x AND push_bit n (- 1) = y AND push_bit n (- 1)"
  proof (rule bit_word_eqI)
    fix k
    assume "k < LENGTH('a)"
    show "bit (x AND push_bit n (- 1)) k \<longleftrightarrow> bit (y AND push_bit n (- 1)) k"
      using arg_cong [OF d, of "\<lambda>w. bit w (k - n)"]
      by (cases "n \<le> k") (auto simp: bit_simps)
  qed
qed

lemma unat_drop_bit:
  fixes x :: "'a::len word"
  shows "unat (drop_bit n x) = unat x div 2 ^ n"
proof -
  have "unat (drop_bit n x) = drop_bit n (unat x)"
    by (simp only: unsigned_drop_bit_eq take_bit_nat_eq_self [OF unsigned_less])
  then show ?thesis by (simp add: drop_bit_eq_div)
qed

lemma drop_bit_eq_iff:
  fixes x y :: "'a::len word"
  shows "drop_bit n x = drop_bit n y \<longleftrightarrow> unat x div 2 ^ n = unat y div 2 ^ n"
  by (simp only: word_unat_eq_iff unat_drop_bit)

lemma octet_less: "unat (w :: u8) < 256"
  using unsigned_less [of w, where ?'a = nat] by simp

lemma ipv4_number_less: "ipv4_number a < 4294967296"
proof (cases a)
  case (Ipv4 b c d e)
  then show ?thesis
    using octet_less [of b] octet_less [of c] octet_less [of d] octet_less [of e] by simp
qed

lemma unat_u32_of_ipv4: "unat (u32_of_ipv4 a) = ipv4_number a"
  using ipv4_number_less [of a]
  by (simp add: u32_of_ipv4_def unsigned_of_nat take_bit_nat_eq_self_iff)

lemma in_v4_number:
  "0 < p \<Longrightarrow> in_v4 a n p \<longleftrightarrow> ipv4_number a div 2 ^ (32 - p) = ipv4_number n div 2 ^ (32 - p)"
  by (simp only: in_v4_def Let_def masked_eq_iff drop_bit_eq_iff unat_u32_of_ipv4 if_False
      neq0_conv [symmetric])

lemma ipv6_number_less: "ipv6_number a < 2 ^ 128"
proof (cases a)
  case (Ipv6 b c d e f g h i)
  then show ?thesis
    using unat_u16_less [of b] unat_u16_less [of c] unat_u16_less [of d] unat_u16_less [of e]
      unat_u16_less [of f] unat_u16_less [of g] unat_u16_less [of h] unat_u16_less [of i] by simp
qed

lemma unat_u128_of_ipv6: "unat (u128_of_ipv6 a) = ipv6_number a"
  using ipv6_number_less [of a]
  by (simp add: u128_of_ipv6_def unsigned_of_nat take_bit_nat_eq_self_iff)

lemma in_v6_number:
  "0 < p \<Longrightarrow> in_v6 a n p \<longleftrightarrow> ipv6_number a div 2 ^ (128 - p) = ipv6_number n div 2 ^ (128 - p)"
  by (simp only: in_v6_def Let_def masked_eq_iff drop_bit_eq_iff unat_u128_of_ipv6 if_False
      neq0_conv [symmetric])

lemma horner_div: "d < m \<Longrightarrow> (y * m + d) div m = (y :: nat)"
  by simp

lemma div_by_octets: "x div 65536 = x div 256 div 256" "x div 16777216 = x div 256 div 256 div 256"
  for x :: nat
  by (simp_all add: div_mult2_eq [symmetric])

lemma ipv4_number_div:
  "ipv4_number (Ipv4 a b c d) div 256 = (unat a * 256 + unat b) * 256 + unat c"
  "ipv4_number (Ipv4 a b c d) div 65536 = unat a * 256 + unat b"
  "ipv4_number (Ipv4 a b c d) div 16777216 = unat a"
  by (simp_all only: ipv4_number.simps div_by_octets horner_div octet_less)

lemma ipv4_number_div_wide:
  "ipv4_number (Ipv4 a b c d) div 4194304 = (unat a * 256 + unat b) div 64"
  "ipv4_number (Ipv4 a b c d) div 1048576 = (unat a * 256 + unat b) div 16"
  "ipv4_number (Ipv4 a b c d) div 131072 = (unat a * 256 + unat b) div 2"
  "ipv4_number (Ipv4 a b c d) div 268435456 = unat a div 16"
proof -
  have "x div 4194304 = x div 65536 div 64" "x div 1048576 = x div 65536 div 16"
    "x div 131072 = x div 65536 div 2" "x div 268435456 = x div 16777216 div 16" for x :: nat
    by (simp_all add: div_mult2_eq [symmetric])
  then show "ipv4_number (Ipv4 a b c d) div 4194304 = (unat a * 256 + unat b) div 64"
    "ipv4_number (Ipv4 a b c d) div 1048576 = (unat a * 256 + unat b) div 16"
    "ipv4_number (Ipv4 a b c d) div 131072 = (unat a * 256 + unat b) div 2"
    "ipv4_number (Ipv4 a b c d) div 268435456 = unat a div 16"
    by (simp_all only: ipv4_number_div)
qed

text \<open>The refused IPv4 ranges, read octet by octet.\<close>

definition refused_octets :: "nat \<Rightarrow> nat \<Rightarrow> nat \<Rightarrow> bool" where
  "refused_octets a b c \<longleftrightarrow>
     a = 0 \<or> a = 10 \<or> (a = 100 \<and> 64 \<le> b \<and> b < 128) \<or> a = 127 \<or> (a = 169 \<and> b = 254) \<or>
     (a = 172 \<and> 16 \<le> b \<and> b < 32) \<or> (a = 192 \<and> b = 0 \<and> c = 0) \<or> (a = 192 \<and> b = 0 \<and> c = 2) \<or>
     (a = 192 \<and> b = 31 \<and> c = 196) \<or> (a = 192 \<and> b = 52 \<and> c = 193) \<or>
     (a = 192 \<and> b = 88 \<and> c = 99) \<or> (a = 192 \<and> b = 168) \<or> (a = 192 \<and> b = 175 \<and> c = 48) \<or>
     (a = 198 \<and> 18 \<le> b \<and> b < 20) \<or> (a = 198 \<and> b = 51 \<and> c = 100) \<or>
     (a = 203 \<and> b = 0 \<and> c = 113) \<or> 224 \<le> a"

lemma horner_eq: "b < 256 \<Longrightarrow> b' < 256 \<Longrightarrow> a * 256 + b = a' * 256 + b' \<longleftrightarrow> a = a' \<and> b = (b' :: nat)"
  by (metis add_left_cancel horner_div)

lemma in_v4_4: "in_v4 (Ipv4 a b c d) n 4 \<longleftrightarrow> unat a div 16 = ipv4_number n div 268435456"
  using in_v4_number [of 4 "Ipv4 a b c d" n]
  by (simp add: ipv4_number_div ipv4_number_div_wide del: ipv4_number.simps)

lemma in_v4_8: "in_v4 (Ipv4 a b c d) n 8 \<longleftrightarrow> unat a = ipv4_number n div 16777216"
  using in_v4_number [of 8 "Ipv4 a b c d" n]
  by (simp add: ipv4_number_div ipv4_number_div_wide del: ipv4_number.simps)

lemma in_v4_10: "in_v4 (Ipv4 a b c d) n 10 \<longleftrightarrow> (unat a * 256 + unat b) div 64 = ipv4_number n div 4194304"
  using in_v4_number [of 10 "Ipv4 a b c d" n]
  by (simp add: ipv4_number_div ipv4_number_div_wide del: ipv4_number.simps)

lemma in_v4_12: "in_v4 (Ipv4 a b c d) n 12 \<longleftrightarrow> (unat a * 256 + unat b) div 16 = ipv4_number n div 1048576"
  using in_v4_number [of 12 "Ipv4 a b c d" n]
  by (simp add: ipv4_number_div ipv4_number_div_wide del: ipv4_number.simps)

lemma in_v4_15: "in_v4 (Ipv4 a b c d) n 15 \<longleftrightarrow> (unat a * 256 + unat b) div 2 = ipv4_number n div 131072"
  using in_v4_number [of 15 "Ipv4 a b c d" n]
  by (simp add: ipv4_number_div ipv4_number_div_wide del: ipv4_number.simps)

lemma in_v4_16: "in_v4 (Ipv4 a b c d) n 16 \<longleftrightarrow> unat a * 256 + unat b = ipv4_number n div 65536"
  using in_v4_number [of 16 "Ipv4 a b c d" n]
  by (simp add: ipv4_number_div ipv4_number_div_wide del: ipv4_number.simps)

lemma in_v4_24: "in_v4 (Ipv4 a b c d) n 24 \<longleftrightarrow> (unat a * 256 + unat b) * 256 + unat c = ipv4_number n div 256"
  using in_v4_number [of 24 "Ipv4 a b c d" n]
  by (simp add: ipv4_number_div ipv4_number_div_wide del: ipv4_number.simps)

lemma in_v4_octets:
  "in_v4 (Ipv4 a b c d) (Ipv4 n m k z) 8 \<longleftrightarrow> a = n"
  "in_v4 (Ipv4 a b c d) (Ipv4 n m k z) 16 \<longleftrightarrow> a = n \<and> b = m"
  "in_v4 (Ipv4 a b c d) (Ipv4 n m k z) 24 \<longleftrightarrow> a = n \<and> b = m \<and> c = k"
  by (simp_all only: in_v4_8 in_v4_16 in_v4_24 ipv4_number_div horner_eq octet_less
      word_unat_eq_iff conj_assoc)

lemma nat_div_eq_iff: "0 < k \<Longrightarrow> x div k = q \<longleftrightarrow> k * q \<le> x \<and> x < k * Suc q" for x :: nat
  by (auto simp: times_div_less_eq_dividend dividend_less_times_div intro: div_nat_eqI)

lemma octet_window:
  assumes "a < 256" "b < 256" "n < 256" "lo \<le> hi" "hi \<le> (256 :: nat)"
  shows "n * 256 + lo \<le> a * 256 + b \<and> a * 256 + b < n * 256 + hi \<longleftrightarrow> a = n \<and> lo \<le> b \<and> b < hi"
proof
  assume x: "n * 256 + lo \<le> a * 256 + b \<and> a * 256 + b < n * 256 + hi"
  have "a = n"
  proof (rule antisym)
    have "a * 256 < Suc n * 256" using x assms by simp
    then show "a \<le> n" by (simp add: less_Suc_eq_le)
    have "n * 256 < Suc a * 256" using x assms by simp
    then show "n \<le> a" by (simp add: less_Suc_eq_le)
  qed
  with x show "a = n \<and> lo \<le> b \<and> b < hi" by simp
qed simp

lemma octet_windows:
  assumes "a < 256" "b < (256 :: nat)"
  shows "(a * 256 + b) div 64 = 401 \<longleftrightarrow> a = 100 \<and> 64 \<le> b \<and> b < 128"
    "(a * 256 + b) div 16 = 2753 \<longleftrightarrow> a = 172 \<and> 16 \<le> b \<and> b < 32"
    "(a * 256 + b) div 2 = 25353 \<longleftrightarrow> a = 198 \<and> 18 \<le> b \<and> b < 20"
  using octet_window [OF assms, of 100 64 128] octet_window [OF assms, of 172 16 32]
    octet_window [OF assms, of 198 18 20]
  by (simp_all add: nat_div_eq_iff)

lemma high_octet: "a < 256 \<Longrightarrow> a div 16 = 14 \<or> a div 16 = 15 \<longleftrightarrow> 224 \<le> (a :: nat)"
  by (auto simp: nat_div_eq_iff)

lemma in_v4_windows:
  "in_v4 (Ipv4 a b c d) (Ipv4 100 64 0 0) 10 \<longleftrightarrow> unat a = 100 \<and> 64 \<le> unat b \<and> unat b < 128"
  "in_v4 (Ipv4 a b c d) (Ipv4 172 16 0 0) 12 \<longleftrightarrow> unat a = 172 \<and> 16 \<le> unat b \<and> unat b < 32"
  "in_v4 (Ipv4 a b c d) (Ipv4 198 18 0 0) 15 \<longleftrightarrow> unat a = 198 \<and> 18 \<le> unat b \<and> unat b < 20"
  "in_v4 (Ipv4 a b c d) (Ipv4 224 0 0 0) 4 \<or> in_v4 (Ipv4 a b c d) (Ipv4 240 0 0 0) 4 \<longleftrightarrow>
     224 \<le> unat a"
  using octet_windows [of "unat a" "unat b"] high_octet [of "unat a"] octet_less [of a]
    octet_less [of b]
  by (simp_all add: in_v4_10 in_v4_12 in_v4_15 in_v4_4)

text \<open>The IPv4 masks refuse exactly the documented ranges: this network, private, shared,
  loopback, link-local with the metadata service, protocol, documentation, benchmarking, multicast
  and reserved addresses, and nothing else.\<close>
theorem public_v4_exact:
  "is_public_v4 (Ipv4 a b c d) \<longleftrightarrow> \<not> refused_octets (unat a) (unat b) (unat c)"
proof -
  have lits: "(0 :: u8) = a \<longleftrightarrow> unat a = 0" "a = 0 \<longleftrightarrow> unat a = 0"
    "a = numeral n \<longleftrightarrow> unat a = unat (numeral n :: u8)" for a :: u8 and n
    by (auto simp: word_unat_eq_iff)
  have nums: "unat (10 :: u8) = 10" "unat (127 :: u8) = 127" "unat (169 :: u8) = 169"
    "unat (254 :: u8) = 254" "unat (192 :: u8) = 192" "unat (2 :: u8) = 2" "unat (31 :: u8) = 31"
    "unat (196 :: u8) = 196" "unat (52 :: u8) = 52" "unat (193 :: u8) = 193" "unat (88 :: u8) = 88"
    "unat (99 :: u8) = 99" "unat (168 :: u8) = 168" "unat (175 :: u8) = 175" "unat (48 :: u8) = 48"
    "unat (198 :: u8) = 198" "unat (51 :: u8) = 51" "unat (100 :: u8) = 100"
    "unat (203 :: u8) = 203" "unat (113 :: u8) = 113"
    by simp_all
  have "list_ex (\<lambda>(network, pre). in_v4 (Ipv4 a b c d) network pre) REFUSED_V4 \<longleftrightarrow>
      refused_octets (unat a) (unat b) (unat c)"
    by (simp only: REFUSED_V4_def list_ex_Cons_iff list_ex_Nil_iff prod.case in_v4_octets
        in_v4_windows refused_octets_def lits nums simp_thms)
  then show ?thesis by (simp add: is_public_v4_def)
qed

lemma ipv6_number_div96:
  "ipv6_number (Ipv6 a b c d e f g h) div 2 ^ 96 = unat a * 65536 + unat b"
proof -
  have "x div 2 ^ 96 = x div 65536 div 65536 div 65536 div 65536 div 65536 div 65536" for x :: nat
    by (simp add: div_mult2_eq [symmetric])
  then show ?thesis by (simp only: ipv6_number.simps horner_div unat_u16_less)
qed

lemma in_v6_prefix:
  assumes "0 < p" "p \<le> 32"
  shows "in_v6 (Ipv6 a b c d e f g h) (Ipv6 a' b' c' d' e' f' g' h') p \<longleftrightarrow>
     (unat a * 65536 + unat b) div 2 ^ (32 - p) = (unat a' * 65536 + unat b') div 2 ^ (32 - p)"
proof -
  have "(2 :: nat) ^ (128 - p) = 2 ^ 96 * 2 ^ (32 - p)"
    using assms by (simp only: power_add [symmetric]) simp
  then show ?thesis
    by (simp only: in_v6_number [OF assms(1)] div_mult2_eq ipv6_number_div96)
qed

lemma segment_window:
  assumes "a < 65536" "b < 65536" "n < 65536" "lo \<le> hi" "hi \<le> (65536 :: nat)"
  shows "n * 65536 + lo \<le> a * 65536 + b \<and> a * 65536 + b < n * 65536 + hi \<longleftrightarrow>
     a = n \<and> lo \<le> b \<and> b < hi"
proof
  assume x: "n * 65536 + lo \<le> a * 65536 + b \<and> a * 65536 + b < n * 65536 + hi"
  have "a = n"
  proof (rule antisym)
    have "a * 65536 < Suc n * 65536" using x assms by simp
    then show "a \<le> n" by (simp add: less_Suc_eq_le)
    have "n * 65536 < Suc a * 65536" using x assms by simp
    then show "n \<le> a" by (simp add: less_Suc_eq_le)
  qed
  with x show "a = n \<and> lo \<le> b \<and> b < hi" by simp
qed simp

lemma segment_eq:
  "b < 65536 \<Longrightarrow> b' < 65536 \<Longrightarrow> a * 65536 + b = a' * 65536 + b' \<longleftrightarrow> a = a' \<and> b = (b' :: nat)"
  by (metis add_left_cancel horner_div)

text \<open>The IPv6 masks admit exactly the global unicast addresses outside the IETF protocol
  assignments with Teredo, the documentation ranges and 6to4; in particular loopback, IPv4-mapped,
  NAT64, unique-local, link-local and multicast addresses are refused.\<close>
theorem public_v6_exact:
  "is_public_v6 (Ipv6 a b c d e f g h) \<longleftrightarrow>
     0x2000 \<le> unat a \<and> unat a < 0x4000 \<and> unat a \<noteq> 0x2002 \<and>
     \<not> (unat a = 0x2001 \<and> (unat b < 0x200 \<or> unat b = 0xdb8)) \<and>
     \<not> (unat a = 0x3fff \<and> unat b < 0x1000)"
proof -
  have l: "unat a < 65536" "unat b < 65536" by (simp_all add: unat_u16_less)
  let ?x = "Ipv6 a b c d e f g h" and ?n = "unat a * 65536 + unat b"
  have w: "in_v6 ?x (Ipv6 0x2000 0 0 0 0 0 0 0) 3 \<longleftrightarrow> 0x2000 \<le> unat a \<and> unat a < 0x4000"
    using l by (simp add: in_v6_prefix nat_div_eq_iff) arith
  have n: "in_v6 ?x (Ipv6 0x2001 0 0 0 0 0 0 0) 23 \<longleftrightarrow> unat a = 0x2001 \<and> unat b < 0x200"
    using segment_window [OF l, of "0x2001" "0" "0x200"] by (simp add: in_v6_prefix nat_div_eq_iff)
  have d: "in_v6 ?x (Ipv6 0x2001 0x0db8 0 0 0 0 0 0) 32 \<longleftrightarrow> unat a = 0x2001 \<and> unat b = 0xdb8"
    using segment_eq [OF l(2), of "0xdb8" "unat a" "0x2001"] by (simp add: in_v6_prefix)
  have t: "in_v6 ?x (Ipv6 0x2002 0 0 0 0 0 0 0) 16 \<longleftrightarrow> unat a = 0x2002"
    using segment_window [OF l, of "0x2002" "0" "65536"] l by (simp add: in_v6_prefix nat_div_eq_iff)
  have f: "in_v6 ?x (Ipv6 0x3fff 0 0 0 0 0 0 0) 20 \<longleftrightarrow> unat a = 0x3fff \<and> unat b < 0x1000"
    using segment_window [OF l, of "0x3fff" "0" "0x1000"] by (simp add: in_v6_prefix nat_div_eq_iff)
  show ?thesis
    unfolding is_public_v6_def REFUSED_V6_def list_ex_Cons_iff list_ex_Nil_iff prod.case w n d t f
    by auto
qed

section \<open>Selected addresses\<close>

lemma sock_key_inj: "sock_key a = sock_key b \<Longrightarrow> a = b"
  by (cases a rule: sock_key.cases; cases b rule: sock_key.cases)
    (simp_all add: word_unat_eq_iff)

lemma distinct_remdups_adj_sorted:
  "sorted (map k xs) \<Longrightarrow> (\<And>x y. k x = k y \<Longrightarrow> x = y) \<Longrightarrow> distinct (remdups_adj xs)"
  for k :: "'a \<Rightarrow> 'k::linorder"
proof (induction xs rule: remdups_adj.induct)
  case (3 x y xs)
  show ?case
  proof (cases "x = y")
    case False
    have "x \<notin> set (y # xs)"
    proof
      assume "x \<in> set (y # xs)"
      with False have "x \<in> set xs" by simp
      with 3(3) have "k x \<le> k y" "k y \<le> k x" by auto
      with 3(4) False show False by auto
    qed
    with 3 False show ?thesis by simp
  qed (use 3 in simp)
qed simp_all

lemma sorted_remdups_adj_key: "sorted (map k xs) \<Longrightarrow> sorted (map k (remdups_adj xs))"
  for k :: "'a \<Rightarrow> 'k::linorder"
  by (induction xs rule: remdups_adj.induct) auto

text \<open>The proxy dials a set of resolved addresses exactly when it is not empty and every address
  is public and on port 443, one internal answer refusing them all; the addresses dialled are then
  the resolved ones, once each, in increasing order with IPv4 first.\<close>
theorem selected_addresses_exact:
  "select_campus_egress_addresses resolved = Inr out \<longleftrightarrow>
     resolved \<noteq> [] \<and>
     list_all (\<lambda>a. is_public_egress_address (sock_ip a) \<and> sock_port a = 443) resolved \<and>
     set out = set resolved \<and> distinct out \<and> sorted (map sock_key out)"
proof -
  let ?out = "remdups_adj (sort_key sock_key resolved)"
  have props: "set ?out = set resolved" "distinct ?out" "sorted (map sock_key ?out)"
    by (auto intro!: distinct_remdups_adj_sorted sorted_remdups_adj_key sock_key_inj)
  have unique: "out = ?out" if "set out = set resolved" "distinct out" "sorted (map sock_key out)"
  proof (rule map_sorted_distinct_set_unique)
    show "inj_on sock_key (set out \<union> set ?out)" by (auto intro: inj_onI sock_key_inj)
    show "distinct (map sock_key out)" "distinct (map sock_key ?out)"
      using that(2) props(2) by (auto simp: distinct_map intro: inj_onI sock_key_inj)
  qed (use that props in auto)
  show ?thesis
    using props unique
    by (auto simp: select_campus_egress_addresses_def list_ex_iff list_all_iff
        CAMPUS_EGRESS_PORT_def split: if_splits)
qed

section \<open>Requests\<close>

lemma route_lookup:
  "campus_egress_route host = Some kind \<longleftrightarrow> (host, kind) \<in> set CAMPUS_EGRESS_ROUTES"
proof
  assume "campus_egress_route host = Some kind"
  then show "(host, kind) \<in> set CAMPUS_EGRESS_ROUTES"
    by (auto simp: campus_egress_route_def dest: find_SomeD)
next
  have d: "distinct (map fst CAMPUS_EGRESS_ROUTES)" by (simp add: CAMPUS_EGRESS_ROUTES_def)
  assume "(host, kind) \<in> set CAMPUS_EGRESS_ROUTES"
  then show "campus_egress_route host = Some kind"
    by (simp add: campus_egress_route_def find_pair [OF d])
qed

lemma git_read_route: "(host, RouteGitRead) \<in> set CAMPUS_EGRESS_ROUTES \<longleftrightarrow> host = ''github.com''"
  by (simp add: CAMPUS_EGRESS_ROUTES_def)

lemma if_unit_ok: "(if b then Inr () else r) = Inr () \<longleftrightarrow> b \<or> r = Inr ()"
  by simp

lemma check_request_ok:
  "check_campus_egress_request r = Inr () \<longleftrightarrow>
     (\<exists>kind host. campus_egress_route (er_tunnel_host r) = Some kind \<and> er_host r = Some host \<and>
        \<not> er_upgrade r \<and> well_formed_target (er_target r) \<and>
        (case strip_suffix (to_ascii_lowercase host) '':443'' of Some h \<Rightarrow> h
           | None \<Rightarrow> to_ascii_lowercase host) = er_tunnel_host r \<and>
        \<not> str_contains (to_ascii_lowercase (percent_decode_lossy (er_target r))) ''receive-pack'' \<and>
        (\<forall>n. er_content_length r = Some n \<longrightarrow> n \<le> CAMPUS_EGRESS_MAX_REQUEST_BODY_BYTES) \<and>
        (er_method r = ''GET'' \<or> er_method r = ''HEAD'' \<or>
         er_method r = ''POST'' \<and> kind = RouteGitRead \<and> is_upload_pack_path (er_target r) \<and>
         map_option (\<lambda>v. to_ascii_lowercase (trim v)) (er_content_type r) =
           Some ''application/x-git-upload-pack-request''))"
  by (cases "campus_egress_route (er_tunnel_host r)"; cases "er_host r"; cases "er_content_length r")
    (simp_all add: check_campus_egress_request_def Let_def not_less if_err_ok if_unit_ok)

text \<open>C40: A request the proxy accepts stays on its route: the tunnel's host is one of the six approved
  hosts and the request names it, there is no upgrade and no git push in the decoded target, the
  body is bounded, and anything but \<open>GET\<close> and \<open>HEAD\<close> is a \<open>POST\<close> to \<open>github.com\<close> whose path is
  exactly an owner, a repository and \<open>git-upload-pack\<close>.\<close>
theorem accepted_request_confined:
  assumes "check_campus_egress_request r = Inr ()"
  shows "er_tunnel_host r \<in> fst ` set CAMPUS_EGRESS_ROUTES \<and> \<not> er_upgrade r \<and>
     (\<exists>host. er_host r = Some host \<and>
        to_ascii_lowercase host \<in> {er_tunnel_host r, er_tunnel_host r @ '':443''}) \<and>
     \<not> str_contains (to_ascii_lowercase (percent_decode_lossy (er_target r))) ''receive-pack'' \<and>
     (\<forall>n. er_content_length r = Some n \<longrightarrow> n \<le> 8388608) \<and>
     (er_method r \<in> {''GET'', ''HEAD''} \<or>
      er_method r = ''POST'' \<and> er_tunnel_host r = ''github.com'' \<and>
      (\<exists>owner repository. plain_segment owner \<and> plain_segment repository \<and>
         er_target r = ''/'' @ owner @ ''/'' @ repository @ ''/git-upload-pack''))"
proof -
  from assms obtain kind host where ok: "campus_egress_route (er_tunnel_host r) = Some kind"
    "er_host r = Some host" "\<not> er_upgrade r" "well_formed_target (er_target r)"
    "(case strip_suffix (to_ascii_lowercase host) '':443'' of Some h \<Rightarrow> h
       | None \<Rightarrow> to_ascii_lowercase host) = er_tunnel_host r"
    "\<not> str_contains (to_ascii_lowercase (percent_decode_lossy (er_target r))) ''receive-pack''"
    "\<forall>n. er_content_length r = Some n \<longrightarrow> n \<le> CAMPUS_EGRESS_MAX_REQUEST_BODY_BYTES"
    "er_method r = ''GET'' \<or> er_method r = ''HEAD'' \<or>
       er_method r = ''POST'' \<and> kind = RouteGitRead \<and> is_upload_pack_path (er_target r)"
    unfolding check_request_ok by blast
  have host: "to_ascii_lowercase host \<in> {er_tunnel_host r, er_tunnel_host r @ '':443''}"
    using ok(5) by (cases "strip_suffix (to_ascii_lowercase host) '':443''") (auto simp: strip_suffix_Some)
  have path: "\<exists>owner repository. plain_segment owner \<and> plain_segment repository \<and>
      er_target r = ''/'' @ owner @ ''/'' @ repository @ ''/git-upload-pack''"
    if up: "is_upload_pack_path (er_target r)"
  proof -
    obtain first owner repository where segs: "split_on CHR ''/'' (er_target r) =
        [first, owner, repository, ''git-upload-pack'']" "plain_segment owner" "plain_segment repository"
      using up split_on_not_Nil [of "CHR ''/''" "er_target r"]
      by (cases "split_on CHR ''/'' (er_target r)")
        (auto simp: is_upload_pack_path_def split: list.splits)
    have target: "er_target r = first @ ''/'' @ owner @ ''/'' @ repository @ ''/git-upload-pack''"
      using join_split_on [of "CHR ''/''" "er_target r"] by (simp add: segs(1))
    have "CHR ''/'' \<notin> set first" using split_on_no_sep [of first "CHR ''/''" "er_target r"] segs(1) by simp
    moreover have "prefix ''/'' (er_target r)"
      using ok(4) by (simp add: well_formed_target_def starts_with_def)
    ultimately have "first = []" using target by (cases first) auto
    with target segs show ?thesis by auto
  qed
  show ?thesis
    using ok host path git_read_route
    by (auto simp: route_lookup CAMPUS_EGRESS_MAX_REQUEST_BODY_BYTES_def intro: rev_image_eqI)
qed

definition example_request :: "string \<Rightarrow> string \<Rightarrow> egress_request" where
  "example_request method target =
     \<lparr>er_tunnel_host = ''github.com'', er_method = method, er_host = Some ''GitHub.com:443'',
      er_target = target, er_content_type = Some ''application/x-git-upload-pack-request'',
      er_upgrade = False, er_content_length = Some 10\<rparr>"

lemma accepted_request_confined_witness:
  "\<exists>owner repository. plain_segment owner \<and> plain_segment repository \<and>
     er_target (example_request ''POST'' ''/o/r/git-upload-pack'') =
       ''/'' @ owner @ ''/'' @ repository @ ''/git-upload-pack''"
proof -
  have "check_campus_egress_request (example_request ''POST'' ''/o/r/git-upload-pack'') = Inr ()"
    by code_simp
  from accepted_request_confined [OF this] show ?thesis
    by (simp add: example_request_def)
qed

text \<open>The decoding of a target stops after four rounds: a push whose first letter is percent
  encoded four times is refused, and the same target encoded once more is accepted, although its
  further decoding would again name \<open>git-receive-pack\<close>.\<close>
theorem percent_decoding_is_bounded:
  "check_campus_egress_request (example_request ''GET''
     ''/o/r/info/refs?service=git-%25252572eceive-pack'') = Inl EdGitPush \<and>
   check_campus_egress_request (example_request ''GET''
     ''/o/r/info/refs?service=git-%2525252572eceive-pack'') = Inr () \<and>
   str_contains (percent_decode_once (percent_decode_lossy
     ''/o/r/info/refs?service=git-%2525252572eceive-pack'')) ''receive-pack''"
  by (intro conjI; code_simp)

section \<open>The hosts annotation\<close>

definition route_hosts :: "string set" where
  "route_hosts = fst ` set CAMPUS_EGRESS_ROUTES"

lemma approved_host_iff: "approved_host h = Some a \<longleftrightarrow> a = h \<and> h \<in> route_hosts"
proof -
  have "map_option fst (find (\<lambda>(x, _). x = h) xs) = Some a \<longleftrightarrow> a = h \<and> h \<in> fst ` set xs"
    for xs :: "(string \<times> route_kind) list"
    by (induction xs) auto
  then show ?thesis by (simp add: approved_host_def route_hosts_def)
qed

lemma route_hosts_plain: "h \<in> route_hosts \<Longrightarrow> CHR '','' \<notin> set h"
  by (auto simp: route_hosts_def CAMPUS_EGRESS_ROUTES_def)

lemma parse_hosts_from_ok:
  "parse_hosts_from seen entries = Inr hosts \<longleftrightarrow>
     set entries \<subseteq> route_hosts \<and> distinct entries \<and> set seen \<inter> set entries = {} \<and>
     hosts = btree_set (seen @ entries)"
proof (induction seen entries rule: parse_hosts_from.induct)
  case (1 seen)
  then show ?case by auto
next
  case (2 seen entry entries)
  have cong: "btree_set ((entry # seen) @ entries) = btree_set (seen @ entry # entries)"
    by (rule btree_set_cong) auto
  show ?case
  proof (cases "entry \<in> route_hosts")
    case True
    then have "approved_host entry = Some entry" by (simp add: approved_host_iff)
    with 2 [of entry] True cong show ?thesis by auto
  next
    case False
    then have "approved_host entry = None" by (metis approved_host_iff not_Some_eq)
    with False show ?thesis by simp
  qed
qed

text \<open>The annotation of a session's approved hosts reads back as those hosts: for a non-empty set
  of approved hosts, parsing what was formatted yields the sorted set, and every value that parses
  lists approved hosts only, without repetition.\<close>
theorem hosts_annotation_round_trip:
  assumes "hosts \<noteq> []" "set hosts \<subseteq> route_hosts"
  shows "parse_campus_egress_hosts (format_campus_egress_hosts hosts) = Inr (btree_set hosts) \<and>
     (\<forall>v parsed. parse_campus_egress_hosts v = Inr parsed \<longrightarrow>
        set parsed \<subseteq> route_hosts \<and> set parsed = set (split_on CHR '','' v) \<and>
        distinct (split_on CHR '','' v))"
proof -
  have "split_on CHR '','' (join '','' (btree_set hosts)) = btree_set hosts"
    using assms route_hosts_plain by (intro split_on_join) auto
  moreover have "btree_set (btree_set hosts) = btree_set hosts"
    by (rule btree_set_cong) simp
  ultimately show ?thesis
    using assms(2)
    by (auto simp: parse_campus_egress_hosts_def format_campus_egress_hosts_def parse_hosts_from_ok)
qed

lemma hosts_annotation_round_trip_witness:
  "parse_campus_egress_hosts (format_campus_egress_hosts [''pypi.org'', ''github.com'']) =
     Inr (btree_set [''pypi.org'', ''github.com''])"
  using hosts_annotation_round_trip [of "[''pypi.org'', ''github.com'']"]
  by (simp add: route_hosts_def CAMPUS_EGRESS_ROUTES_def)

text \<open>The target of a tunnel is an approved host written with port 443, in any letter case.\<close>

lemma parse_connect_ok:
  "parse_campus_connect_target authority = Inr h \<longleftrightarrow>
     h \<in> route_hosts \<and> (\<exists>host. authority = host @ '':443'' \<and> to_ascii_lowercase host = h)"
proof
  assume "parse_campus_connect_target authority = Inr h"
  then show "h \<in> route_hosts \<and> (\<exists>host. authority = host @ '':443'' \<and> to_ascii_lowercase host = h)"
    by (auto simp: parse_campus_connect_target_def approved_host_iff split: if_splits
        dest!: rsplit_once_Some)
next
  assume "h \<in> route_hosts \<and> (\<exists>host. authority = host @ '':443'' \<and> to_ascii_lowercase host = h)"
  then obtain host where "h \<in> route_hosts" "authority = host @ '':443''" "to_ascii_lowercase host = h"
    by auto
  moreover have "approved_host h = Some h" using \<open>h \<in> route_hosts\<close> by (simp add: approved_host_iff)
  ultimately show "parse_campus_connect_target authority = Inr h"
    using rsplit_once_append [of "CHR '':''" "''443''" host]
    by (simp add: parse_campus_connect_target_def)
qed

end
