(* ===== verification/LabSession.thy ===== *)
theory LabSession
  imports CampusProfile
begin

text \<open>
  \<open>campus_lab_session.rs\<close>: the lifecycle of a Campus lab session. The states with their transition
  table, the desired and observed states, the operation kinds and statuses with the names the
  journal stores, the fenced identity of a slot occupancy, and the values the execution provider's
  contract exchanges. The lifecycle is the step relation of the accepted transitions; its paths
  show that nothing that may hold resources ends without revocation and reconciliation.
\<close>

section \<open>States\<close>

datatype lab_session_state =
    LsRequested | LsAuthorizing | LsProvisioning | LsReady | LsStopping | LsCleaning
  | LsCleanupBlocked | LsTerminated | LsFailed

definition ALL_LAB_STATES :: "lab_session_state list" where
  "ALL_LAB_STATES =
    [LsRequested, LsAuthorizing, LsProvisioning, LsReady, LsStopping, LsCleaning,
     LsCleanupBlocked, LsTerminated, LsFailed]"

fun lab_state_as_str :: "lab_session_state \<Rightarrow> string" where
  "lab_state_as_str LsRequested = ''requested''"
| "lab_state_as_str LsAuthorizing = ''authorizing''"
| "lab_state_as_str LsProvisioning = ''provisioning''"
| "lab_state_as_str LsReady = ''ready''"
| "lab_state_as_str LsStopping = ''stopping''"
| "lab_state_as_str LsCleaning = ''cleaning''"
| "lab_state_as_str LsCleanupBlocked = ''cleanup_blocked''"
| "lab_state_as_str LsTerminated = ''terminated''"
| "lab_state_as_str LsFailed = ''failed''"

definition lab_state_parse :: "string \<Rightarrow> lab_session_state option" where
  "lab_state_parse v = find (\<lambda>state. lab_state_as_str state = v) ALL_LAB_STATES"

fun successors :: "lab_session_state \<Rightarrow> lab_session_state list" where
  "successors LsRequested = [LsAuthorizing, LsTerminated]"
| "successors LsAuthorizing = [LsProvisioning, LsFailed, LsTerminated]"
| "successors LsProvisioning = [LsReady, LsStopping]"
| "successors LsReady = [LsStopping]"
| "successors LsStopping = [LsCleaning]"
| "successors LsCleaning = [LsTerminated, LsFailed, LsCleanupBlocked]"
| "successors LsCleanupBlocked = [LsCleaning]"
| "successors LsTerminated = []"
| "successors LsFailed = []"

definition is_terminal :: "lab_session_state \<Rightarrow> bool" where
  "is_terminal s \<longleftrightarrow> s \<in> {LsTerminated, LsFailed}"

definition may_hold_resources :: "lab_session_state \<Rightarrow> bool" where
  "may_hold_resources s \<longleftrightarrow>
     s \<in> {LsProvisioning, LsReady, LsStopping, LsCleaning, LsCleanupBlocked}"

definition is_quarantined :: "lab_session_state \<Rightarrow> bool" where
  "is_quarantined s \<longleftrightarrow> s = LsCleanupBlocked"

definition grants_access :: "lab_session_state \<Rightarrow> bool" where
  "grants_access s \<longleftrightarrow> s = LsReady"

datatype transition_error =
    TeTerminal lab_session_state lab_session_state
  | TeIllegal lab_session_state lab_session_state

definition transition ::
    "lab_session_state \<Rightarrow> lab_session_state \<Rightarrow> (transition_error, lab_session_state) res" where
  "transition s target =
     (if is_terminal s then Inl (TeTerminal s target)
      else if target \<in> set (successors s) then Inr target
      else Inl (TeIllegal s target))"

section \<open>Journal vocabulary\<close>

datatype desired_state = DesiredReady | DesiredTerminated

fun desired_as_str :: "desired_state \<Rightarrow> string" where
  "desired_as_str DesiredReady = ''ready''"
| "desired_as_str DesiredTerminated = ''terminated''"

definition desired_parse :: "string \<Rightarrow> desired_state option" where
  "desired_parse v =
     (if v = ''ready'' then Some DesiredReady
      else if v = ''terminated'' then Some DesiredTerminated else None)"

datatype observed_state =
    ObUnknown | ObAbsent | ObProvisioning | ObReady | ObDeleting | ObDeleted | ObFailed | ObUnreachable

definition ALL_OBSERVED :: "observed_state list" where
  "ALL_OBSERVED =
    [ObUnknown, ObAbsent, ObProvisioning, ObReady, ObDeleting, ObDeleted, ObFailed, ObUnreachable]"

fun observed_as_str :: "observed_state \<Rightarrow> string" where
  "observed_as_str ObUnknown = ''unknown''"
| "observed_as_str ObAbsent = ''absent''"
| "observed_as_str ObProvisioning = ''provisioning''"
| "observed_as_str ObReady = ''ready''"
| "observed_as_str ObDeleting = ''deleting''"
| "observed_as_str ObDeleted = ''deleted''"
| "observed_as_str ObFailed = ''failed''"
| "observed_as_str ObUnreachable = ''unreachable''"

definition observed_parse :: "string \<Rightarrow> observed_state option" where
  "observed_parse v = find (\<lambda>state. observed_as_str state = v) ALL_OBSERVED"

datatype operation_kind_lab = OpProvision | OpDelete

fun op_kind_as_str :: "operation_kind_lab \<Rightarrow> string" where
  "op_kind_as_str OpProvision = ''provision''"
| "op_kind_as_str OpDelete = ''delete''"

definition op_kind_parse :: "string \<Rightarrow> operation_kind_lab option" where
  "op_kind_parse v =
     (if v = ''provision'' then Some OpProvision
      else if v = ''delete'' then Some OpDelete else None)"

datatype operation_status = OsPending | OsSucceeded | OsFailed | OsBlocked | OsAbandoned

fun op_status_as_str :: "operation_status \<Rightarrow> string" where
  "op_status_as_str OsPending = ''pending''"
| "op_status_as_str OsSucceeded = ''succeeded''"
| "op_status_as_str OsFailed = ''failed''"
| "op_status_as_str OsBlocked = ''blocked''"
| "op_status_as_str OsAbandoned = ''abandoned''"

definition op_status_parse :: "string \<Rightarrow> operation_status option" where
  "op_status_parse v =
     (if v = ''pending'' then Some OsPending
      else if v = ''succeeded'' then Some OsSucceeded
      else if v = ''failed'' then Some OsFailed
      else if v = ''blocked'' then Some OsBlocked
      else if v = ''abandoned'' then Some OsAbandoned else None)"

section \<open>The provider's values\<close>

record workload_ref =
  wl_session_id :: string
  wl_slot_id :: string
  wl_slot_generation :: int

record provision_spec =
  ps_workload :: workload_ref
  ps_tenant_id :: string
  ps_course_id :: string
  ps_profile :: profile_ref
  ps_expires_at :: int

datatype provision_outcome = PoReady string | PoInProgress string | PoRejected string

datatype observation = ObsAbsent | ObsProvisioning | ObsReady string | ObsFailed string

datatype delete_outcome = DelDeleted | DelInProgress | DelBlocked string | DelUnreachable string

record owned_resource =
  or_resource_id :: string
  or_kind :: string
  or_workload :: workload_ref
  or_op_key :: string

datatype provider_error = PeUnreachable string | PeInternal string

section \<open>The stored names\<close>

lemma lab_state_parse_iff: "lab_state_parse v = Some s \<longleftrightarrow> lab_state_as_str s = v"
  by (cases s) (auto simp: lab_state_parse_def ALL_LAB_STATES_def)

lemma observed_parse_iff: "observed_parse v = Some s \<longleftrightarrow> observed_as_str s = v"
  by (cases s) (auto simp: observed_parse_def ALL_OBSERVED_def)

text \<open>The names the journal stores determine the values: a string parses to a session state, a
  desired or observed state, an operation kind or an operation status exactly when it is that
  value's name, so every stored value reads back and no other string is accepted.\<close>
theorem stored_names_round_trip:
  "(lab_state_parse v = Some s \<longleftrightarrow> lab_state_as_str s = v) \<and>
   (desired_parse v = Some d \<longleftrightarrow> desired_as_str d = v) \<and>
   (observed_parse v = Some ob \<longleftrightarrow> observed_as_str ob = v) \<and>
   (op_kind_parse v = Some k \<longleftrightarrow> op_kind_as_str k = v) \<and>
   (op_status_parse v = Some st \<longleftrightarrow> op_status_as_str st = v)"
  unfolding lab_state_parse_iff observed_parse_iff desired_parse_def op_kind_parse_def
    op_status_parse_def
  by (cases d; cases k; cases st) auto

section \<open>The lifecycle\<close>

inductive lab_step :: "lab_session_state \<Rightarrow> lab_session_state \<Rightarrow> bool" where
  lab_step: "transition s target = Inr t \<Longrightarrow> lab_step s t"

inductive lab_path :: "lab_session_state \<Rightarrow> lab_session_state list \<Rightarrow> lab_session_state \<Rightarrow> bool" where
  lab_path_here: "lab_path s [] s"
| lab_path_step: "lab_step s t \<Longrightarrow> lab_path t ts u \<Longrightarrow> lab_path s (t # ts) u"

inductive_simps lab_step_iff: "lab_step s t"
inductive_simps lab_path_Nil [simp]: "lab_path s [] u"
inductive_simps lab_path_Cons [simp]: "lab_path s (t # ts) u"
inductive_cases lab_pathE: "lab_path s ts u"

lemma transition_ok: "transition s target = Inr t \<longleftrightarrow> t = target \<and> target \<in> set (successors s)"
  by (cases s) (auto simp: transition_def is_terminal_def)

lemma lab_step_successors [simp]: "lab_step s t \<longleftrightarrow> t \<in> set (successors s)"
  by (auto simp: lab_step_iff transition_ok)

lemma lab_path_append: "lab_path s ts t \<Longrightarrow> lab_path t us u \<Longrightarrow> lab_path s (ts @ us) u"
  by (induction rule: lab_path.induct) auto

lemma lab_path_split: "lab_path s (ts @ us) u \<longleftrightarrow> (\<exists>t. lab_path s ts t \<and> lab_path t us u)"
  by (induction ts arbitrary: s) auto

lemma lab_path_terminal: "lab_path s ts u \<Longrightarrow> is_terminal s \<Longrightarrow> ts = [] \<and> u = s"
  by (cases ts) (auto simp: is_terminal_def)

text \<open>A transition is refused for exactly one reason and accepted exactly along the table: a
  terminal state refuses everything as terminal, every other state accepts its successors and
  refuses the rest as illegal; a terminal state is one without successors.\<close>
theorem transition_exact:
  "(transition s target = Inr t \<longleftrightarrow> t = target \<and> target \<in> set (successors s)) \<and>
   (transition s target = Inl (TeTerminal a b) \<longleftrightarrow> is_terminal s \<and> a = s \<and> b = target) \<and>
   (transition s target = Inl (TeIllegal a b) \<longleftrightarrow>
      \<not> is_terminal s \<and> target \<notin> set (successors s) \<and> a = s \<and> b = target) \<and>
   (is_terminal s \<longleftrightarrow> successors s = [])"
  by (cases s) (auto simp: transition_def is_terminal_def)

definition winding_down :: "lab_session_state set" where
  "winding_down = {LsCleaning, LsCleanupBlocked}"

lemma path_from_cleaning:
  assumes "lab_path s ts u" "s \<in> winding_down" "is_terminal u"
  shows "\<exists>vs. s # ts = vs @ [LsCleaning, u] \<and> set vs \<subseteq> winding_down"
  using assms
proof (induction rule: lab_path.induct)
  case (lab_path_here s)
  then show ?case by (auto simp: winding_down_def is_terminal_def)
next
  case (lab_path_step s t ts u)
  show ?case
  proof (cases "t \<in> winding_down")
    case True
    with lab_path_step obtain vs where "t # ts = vs @ [LsCleaning, u]" "set vs \<subseteq> winding_down" by auto
    then have "s # t # ts = (s # vs) @ [LsCleaning, u]" "set (s # vs) \<subseteq> winding_down"
      using lab_path_step.prems by auto
    then show ?thesis by blast
  next
    case False
    with lab_path_step have "s = LsCleaning" "is_terminal t"
      by (auto simp: winding_down_def is_terminal_def)
    with lab_path_step show ?thesis using lab_path_terminal by fastforce
  qed
qed

lemma path_from_stopping:
  assumes "lab_path LsStopping ts u" "is_terminal u"
  shows "\<exists>vs. ts = vs @ [LsCleaning, u] \<and> set vs \<subseteq> winding_down"
proof -
  from assms obtain ts' where "ts = LsCleaning # ts'" "lab_path LsCleaning ts' u"
    by (cases ts) (auto simp: is_terminal_def)
  with path_from_cleaning assms show ?thesis by (auto simp: winding_down_def)
qed

lemma path_from_ready:
  assumes "lab_path LsReady ts u" "is_terminal u"
  shows "\<exists>vs. ts = LsStopping # vs @ [LsCleaning, u] \<and> set vs \<subseteq> winding_down"
  using assms path_from_stopping by (cases ts) (auto simp: is_terminal_def)

lemma path_from_provisioning:
  assumes "lab_path LsProvisioning ts u" "is_terminal u"
  shows "\<exists>rs vs. ts = rs @ LsStopping # vs @ [LsCleaning, u] \<and> set rs \<subseteq> {LsReady} \<and>
     set vs \<subseteq> winding_down"
proof -
  from assms obtain t ts' where ts: "ts = t # ts'" "t \<in> {LsReady, LsStopping}" "lab_path t ts' u"
    by (cases ts) (auto simp: is_terminal_def)
  show ?thesis
  proof (cases "t = LsReady")
    case True
    with ts assms path_from_ready obtain vs where
      "ts = [LsReady] @ LsStopping # vs @ [LsCleaning, u]" "set vs \<subseteq> winding_down" by fastforce
    then show ?thesis by (intro exI [of _ "[LsReady]"] exI [of _ vs]) simp
  next
    case False
    with ts assms path_from_stopping obtain vs where
      "ts = [] @ LsStopping # vs @ [LsCleaning, u]" "set vs \<subseteq> winding_down" by fastforce
    then show ?thesis by (intro exI [of _ "[]"] exI [of _ vs]) simp
  qed
qed

text \<open>A session that was admitted ends only through revocation and reconciliation: every path
  from \<open>Provisioning\<close> to a terminal state is at most one stay in \<open>Ready\<close>, then \<open>Stopping\<close>, then
  cleaning attempts, and its last state before the end is \<open>Cleaning\<close>; after \<open>Stopping\<close> no state on
  the path grants access again.\<close>
theorem resources_drained_before_end:
  assumes "lab_path LsProvisioning ts u" "is_terminal u"
  shows "\<exists>rs vs. ts = rs @ LsStopping # vs @ [LsCleaning, u] \<and> rs \<in> {[], [LsReady]} \<and>
     set vs \<subseteq> {LsCleaning, LsCleanupBlocked} \<and>
     list_all (\<lambda>s. may_hold_resources s) (butlast ts) \<and>
     \<not> list_ex grants_access (LsStopping # vs @ [LsCleaning, u])"
proof -
  obtain rs vs where p: "ts = rs @ LsStopping # vs @ [LsCleaning, u]" "set rs \<subseteq> {LsReady}"
    "set vs \<subseteq> winding_down" using path_from_provisioning [OF assms] by blast
  have "rs \<in> {[], [LsReady]}"
  proof (cases rs)
    case (Cons r rs')
    show ?thesis
    proof (cases rs')
      case (Cons r' rs'')
      then have "r = LsReady" "r' = LsReady" using p(2) \<open>rs = r # rs'\<close> by auto
      with assms(1) p(1) \<open>rs = r # rs'\<close> Cons show ?thesis by simp
    qed (use Cons p(2) in auto)
  qed simp
  with p assms(2) show ?thesis
    by (intro exI [of _ rs] exI [of _ vs])
      (auto simp: butlast_append winding_down_def may_hold_resources_def grants_access_def
        is_terminal_def list_all_iff list_ex_iff)
qed

lemma resources_drained_before_end_witness:
  "\<exists>rs vs. [LsReady, LsStopping, LsCleaning, LsCleanupBlocked, LsCleaning, LsTerminated] =
     rs @ LsStopping # vs @ [LsCleaning, LsTerminated]"
  using resources_drained_before_end
    [of "[LsReady, LsStopping, LsCleaning, LsCleanupBlocked, LsCleaning, LsTerminated]" LsTerminated]
  by (auto simp: is_terminal_def)

text \<open>The distance to the end: every state that is not terminal has a successor nearer to it.\<close>

fun steps_to_end :: "lab_session_state \<Rightarrow> nat" where
  "steps_to_end LsRequested = 1"
| "steps_to_end LsAuthorizing = 1"
| "steps_to_end LsProvisioning = 3"
| "steps_to_end LsReady = 3"
| "steps_to_end LsStopping = 2"
| "steps_to_end LsCleaning = 1"
| "steps_to_end LsCleanupBlocked = 2"
| "steps_to_end LsTerminated = 0"
| "steps_to_end LsFailed = 0"

lemma nearer_successor:
  "\<not> is_terminal s \<Longrightarrow> \<exists>t\<in>set (successors s). Suc (steps_to_end t) = steps_to_end s"
  by (cases s) (auto simp: is_terminal_def)

text \<open>A session can always be brought to its end: from every state there is a path of exactly
  \<open>steps_to_end\<close> accepted transitions, at most three, to a terminal state, and the quarantine of a
  blocked cleanup is never final.\<close>
theorem end_reachable:
  "(\<exists>ts u. lab_path s ts u \<and> is_terminal u \<and> length ts = steps_to_end s) \<and> steps_to_end s \<le> 3"
proof
  show "\<exists>ts u. lab_path s ts u \<and> is_terminal u \<and> length ts = steps_to_end s"
  proof (induction "steps_to_end s" arbitrary: s)
    case 0
    then have "is_terminal s" by (cases s) (auto simp: is_terminal_def)
    with 0 show ?case by (intro exI [of _ "[]"]) auto
  next
    case (Suc n)
    then have "\<not> is_terminal s" by (auto simp: is_terminal_def)
    then obtain t where t: "t \<in> set (successors s)" "Suc (steps_to_end t) = steps_to_end s"
      using nearer_successor by blast
    then have "n = steps_to_end t" using Suc(2) by simp
    from Suc(1) [OF this] obtain ts u where "lab_path t ts u" "is_terminal u" "length ts = n"
      using \<open>n = steps_to_end t\<close> by auto
    with t Suc(2) show ?case by (intro exI [of _ "t # ts"] exI [of _ u]) auto
  qed
  show "steps_to_end s \<le> 3" by (cases s) auto
qed

end
