(* ===== verification/Tables.thy ===== *)
theory Tables
  imports RustStr
begin

text \<open>
  A database table as the list of its rows: what an \<open>UPDATE ... WHERE\<close> changes and how many rows it
  affects, a table with a unique key read as a map, and identifiers built from printed numbers.
\<close>

section \<open>Statements\<close>

definition update_where :: "('r \<Rightarrow> bool) \<Rightarrow> ('r \<Rightarrow> 'r) \<Rightarrow> 'r list \<Rightarrow> 'r list" where
  "update_where P f rows = map (\<lambda>r. if P r then f r else r) rows"

definition rows_affected :: "('r \<Rightarrow> bool) \<Rightarrow> 'r list \<Rightarrow> nat" where
  "rows_affected P rows = length (filter P rows)"

lemma update_where_keeps: "r \<in> set rows \<Longrightarrow> (if P r then f r else r) \<in> set (update_where P f rows)"
  by (auto simp: update_where_def)

lemma update_where_set: "x \<in> set (update_where P f rows) \<longleftrightarrow> (\<exists>r \<in> set rows. x = (if P r then f r else r))"
  by (auto simp: update_where_def)

section \<open>Tables as maps\<close>

definition lookup :: "('r \<Rightarrow> 'k) \<Rightarrow> 'r list \<Rightarrow> 'k \<Rightarrow> 'r option" where
  "lookup k rows v = find (\<lambda>r. k r = v) rows"

lemma lookup_Some: "distinct (map k rows) \<Longrightarrow> lookup k rows v = Some r \<longleftrightarrow> r \<in> set rows \<and> k r = v"
  unfolding lookup_def by (induction rows) auto

lemma lookup_SomeD: "lookup k rows v = Some r \<Longrightarrow> r \<in> set rows \<and> k r = v"
  unfolding lookup_def by (rule find_SomeD)

lemma lookup_None: "lookup k rows v = None \<longleftrightarrow> v \<notin> k ` set rows"
  unfolding lookup_def by (induction rows) auto

lemma lookup_append:
  "lookup k rows (k r) = None \<Longrightarrow> lookup k (rows @ [r]) = (lookup k rows)(k r \<mapsto> r)"
  unfolding lookup_def fun_eq_iff by (induction rows) (auto split: if_splits)

lemma lookup_update:
  assumes "distinct (map k rows)" "lookup k rows (k r) = Some r" "P r" "k (f r) = k r"
    "\<And>r'. r' \<in> set rows \<Longrightarrow> P r' \<Longrightarrow> k r' = k r"
  shows "lookup k (update_where P f rows) = (lookup k rows)(k r \<mapsto> f r)"
proof -
  have uniq: "r' = r" if "r' \<in> set rows" "P r'" for r'
  proof -
    have "lookup k rows (k r) = Some r'" using that assms(1, 5) by (simp add: lookup_Some)
    with assms(2) show ?thesis by simp
  qed
  have upd: "update_where P f rows = map (\<lambda>r'. if k r' = k r then f r else r') rows"
    unfolding update_where_def
  proof (rule map_cong [OF refl])
    fix x
    assume x: "x \<in> set rows"
    have "k x = k r \<longleftrightarrow> P x"
    proof
      assume "k x = k r"
      with x have "lookup k rows (k r) = Some x" using assms(1) by (simp add: lookup_Some)
      with assms(2, 3) show "P x" by simp
    qed (use x assms(5) in blast)
    then show "(if P x then f x else x) = (if k x = k r then f r else x)"
      using uniq x by (cases "P x") auto
  qed
  have "find (\<lambda>x. k x = v) (map (\<lambda>r'. if k r' = k r then f r else r') rows') =
      (if v = k r \<and> k r \<in> k ` set rows' then Some (f r)
       else if v = k r then None else find (\<lambda>x. k x = v) rows')" for v rows'
    using assms(4) by (induction rows') auto
  moreover have "k r \<in> k ` set rows" using assms(2) lookup_None by (metis option.distinct(1))
  ultimately show ?thesis by (auto simp: upd lookup_def fun_eq_iff)
qed

lemma keys_update:
  "(\<And>r. P r \<Longrightarrow> k (f r) = k r) \<Longrightarrow> map k (update_where P f rows) = map k rows"
  by (simp add: update_where_def)

lemma update_none: "(\<And>r. r \<in> set rows \<Longrightarrow> \<not> P r) \<Longrightarrow> update_where P f rows = rows"
  by (simp add: update_where_def map_idI)

lemma rows_affected_key:
  assumes "distinct (map k rows)" "lookup k rows (k r) = Some r" "P r"
    "\<And>r'. r' \<in> set rows \<Longrightarrow> P r' \<Longrightarrow> k r' = k r"
  shows "rows_affected P rows = 1"
proof -
  have r: "r \<in> set rows" using assms(2) by (auto dest: lookup_SomeD)
  have "filter P rows = [r]"
    using assms(1, 3, 4) r
  proof (induction rows)
    case (Cons a rows)
    have fresh: "k a \<notin> k ` set rows" using Cons.prems(1) by simp
    show ?case
    proof (cases "a = r")
      case True
      have "filter P rows = []"
        unfolding filter_empty_conv
      proof
        fix x
        assume x: "x \<in> set rows"
        then have "k x \<noteq> k a" using fresh by (metis imageI)
        then show "\<not> P x" using Cons.prems(3) [of x] x True by auto
      qed
      with True Cons.prems(2) show ?thesis by simp
    next
      case False
      then have r: "r \<in> set rows" using Cons.prems(4) by simp
      then have "k a \<noteq> k r" using fresh by (metis imageI)
      then have "\<not> P a" using Cons.prems(3) [of a] by auto
      moreover have "filter P rows = [r]"
        using Cons.prems r by (intro Cons.IH) (simp, assumption, metis list.set_intros(2), assumption)
      ultimately show ?thesis by simp
    qed
  qed simp
  then show ?thesis by (simp add: rows_affected_def)
qed

lemma find_append: "find P xs = Some x \<Longrightarrow> find P (xs @ ys) = Some x"
  by (induction xs) (auto split: if_splits)

section \<open>Identifiers\<close>

lemma show_int_digits: "c \<in> set (show_int i) \<Longrightarrow> is_ascii_digit c \<or> c = CHR ''-''"
  by (auto simp: show_int_def dest: show_nat_digits split: if_splits)

lemma minus_notin_show_nat: "CHR ''-'' \<notin> set (show_nat n)"
  using show_nat_digits [of "CHR ''-''" n] by (auto simp: is_ascii_digit_def byte_def)

lemma show_int_inj: "show_int a = show_int b \<Longrightarrow> a = b"
proof -
  assume eq: "show_int a = show_int b"
  have neq: "CHR ''-'' # show_nat m \<noteq> show_nat n" for m n
    using minus_notin_show_nat [of n] by (metis list.set_intros(1))
  show "a = b"
  proof (cases "a < 0"; cases "b < 0")
    assume "a < 0" "b < 0"
    with eq show ?thesis using show_nat_inj [of "nat (- a)" "nat (- b)"] by (simp add: show_int_def)
  next
    assume "\<not> a < 0" "\<not> b < 0"
    with eq show ?thesis using show_nat_inj [of "nat a" "nat b"] by (simp add: show_int_def)
  next
    assume "a < 0" "\<not> b < 0"
    with eq neq show ?thesis by (simp add: show_int_def)
  next
    assume "\<not> a < 0" "b < 0"
    with eq neq [of "nat (- b)" "nat a"] show ?thesis by (simp add: show_int_def)
  qed
qed

lemma no_slash_tail_eq:
  "c \<notin> set a \<Longrightarrow> c \<notin> set b \<Longrightarrow> x @ c # a = y @ c # b \<Longrightarrow> x = y \<and> a = b"
  for c :: char
  by (metis rsplit_once_append option.inject prod.inject)

end
