(* ===== verification/LabJournal.thy ===== *)
theory LabJournal
  imports LabSession Tables
begin

text \<open>
  \<open>campus_journal.rs\<close> and \<open>sqlite/campus_journal.rs\<close> of the store: the durable journal of lab
  sessions. A table is the list of its rows, a query a filter or search of it, an \<open>UPDATE ... WHERE\<close>
  a map over it; a write transaction is one function from the journal to an error, which rolls
  back, or the new journal. Every write takes SQLite's single write lock before it reads, so the
  transactions of any number of workers are a sequence of these functions.

  Errors keep their kind and, for a fenced or refused write, the branch it came from; their
  messages are not modelled. The payloads of events and results are the fields the code writes
  into the JSON values.
\<close>

section \<open>Rows\<close>

datatype op_result = ResEmpty | ResWorkspace string | ResRejected string | ResDeleted | ResBlocked string

record lab_session =
  ls_session_id :: string
  ls_tenant_id :: string
  ls_course_id :: string
  ls_issuer :: string
  ls_subject :: string
  ls_profile :: profile_ref
  ls_state :: lab_session_state
  ls_desired :: desired_state
  ls_observed :: observed_state
  ls_generation :: int
  ls_slot_id :: "string option"
  ls_slot_generation :: "int option"
  ls_workspace_id :: "string option"
  ls_failure_reason :: "string option"
  ls_blocked_reason :: "string option"
  ls_created_by :: string
  ls_created_at :: int
  ls_updated_at :: int
  ls_observed_at :: "int option"
  ls_revoked_at :: "int option"
  ls_quarantined_at :: "int option"
  ls_terminated_at :: "int option"
  ls_expires_at :: int

record lab_operation =
  lo_op_key :: string
  lo_session_id :: string
  lo_kind :: operation_kind_lab
  lo_session_generation :: int
  lo_slot_id :: string
  lo_slot_generation :: int
  lo_status :: operation_status
  lo_attempt_count :: int
  lo_lease_owner :: "string option"
  lo_lease_expires_at :: "int option"
  lo_lease_fence :: int
  lo_last_error :: "string option"
  lo_result :: op_result
  lo_created_at :: int
  lo_updated_at :: int
  lo_completed_at :: "int option"

record op_lease =
  ol_op_key :: string
  ol_owner :: string
  ol_fence :: int
  ol_expires_at :: int

record lab_slot =
  sl_slot_id :: string
  sl_tenant_id :: string
  sl_occupant :: "string option"
  sl_generation :: int
  sl_occupied_at :: "int option"
  sl_created_at :: int
  sl_updated_at :: int

datatype hold_kind = HoldQuarantined | HoldRetired

record slot_hold =
  sh_sequence :: int
  sh_slot_id :: string
  sh_kind :: hold_kind
  sh_reason :: string
  sh_held_by :: string
  sh_held_at :: int
  sh_released_by :: "string option"
  sh_released_at :: "int option"
  sh_release_reason :: "string option"

record hook_run =
  hr_session_id :: string
  hr_hook :: string
  hr_op_key :: string
  hr_slot_id :: string
  hr_slot_generation :: int
  hr_completed_at :: int

datatype event_payload =
    PayRequested string profile_ref int
  | PayStop string
  | PayTransition "string option" "string option" "string option" "string option" "int option"
      observed_state bool
  | PayAdmitted string string int string "string option" string int int

record lab_event =
  ev_sequence :: int
  ev_session_id :: string
  ev_kind :: string
  ev_from :: "lab_session_state option"
  ev_to :: "lab_session_state option"
  ev_generation :: int
  ev_op_key :: "string option"
  ev_actor :: string
  ev_payload :: event_payload
  ev_created_at :: int
  ev_published_at :: "int option"

record journal =
  jn_sessions :: "lab_session list"
  jn_ops :: "lab_operation list"
  jn_slots :: "lab_slot list"
  jn_holds :: "slot_hold list"
  jn_events :: "lab_event list"
  jn_hook_runs :: "hook_run list"
  jn_identities :: "(string \<times> string \<times> string) list"

datatype fence_reason =
    FenceGeneration | FenceNoSlot | FenceUnknownSlot | FenceSlotLost | FenceUnknownOperation
  | FenceForeignOperation | FenceCompleted | FenceLease | FenceSuperseded | FenceOccupancy
  | FenceLabGeneration

datatype conflict_reason =
    ConflictStopped | ConflictNoPending | ConflictNotProvision | ConflictContent | ConflictTenant
  | ConflictNothingBegun | ConflictNoSlot | ConflictExists | ConflictInactive | ConflictExpired

datatype journal_error =
    JeStore
  | JeTransition transition_error
  | JeNotFound string
  | JeFenced fence_reason
  | JeLeaseHeld string string int
  | JeNoFreeSlot string
  | JeInvalid
  | JeConflict conflict_reason

section \<open>Keys, leases and workloads\<close>

definition campus_operation_key :: "string \<Rightarrow> operation_kind_lab \<Rightarrow> int \<Rightarrow> string" where
  "campus_operation_key session_id kind generation =
     ''campus-lab/'' @ session_id @ ''/'' @ op_kind_as_str kind @ ''/g'' @ show_int generation"

definition session_workload :: "lab_session \<Rightarrow> workload_ref option" where
  "session_workload s =
     (case (ls_slot_id s, ls_slot_generation s) of
        (Some slot, Some generation) \<Rightarrow> Some
          \<lparr>wl_session_id = ls_session_id s, wl_slot_id = slot, wl_slot_generation = generation\<rparr>
      | _ \<Rightarrow> None)"

definition op_lease_of :: "lab_operation \<Rightarrow> op_lease option" where
  "op_lease_of o' =
     (case (lo_lease_owner o', lo_lease_expires_at o') of
        (Some owner, Some expires) \<Rightarrow> Some
          \<lparr>ol_op_key = lo_op_key o', ol_owner = owner, ol_fence = lo_lease_fence o',
           ol_expires_at = expires\<rparr>
      | _ \<Rightarrow> None)"

definition op_workload :: "lab_operation \<Rightarrow> workload_ref" where
  "op_workload o' =
     \<lparr>wl_session_id = lo_session_id o', wl_slot_id = lo_slot_id o',
      wl_slot_generation = lo_slot_generation o'\<rparr>"

section \<open>Queries\<close>

definition load_session :: "journal \<Rightarrow> string \<Rightarrow> lab_session option" where
  "load_session j sid = find (\<lambda>s. ls_session_id s = sid) (jn_sessions j)"

definition load_operation :: "journal \<Rightarrow> string \<Rightarrow> lab_operation option" where
  "load_operation j key = find (\<lambda>o'. lo_op_key o' = key) (jn_ops j)"

definition load_slot :: "journal \<Rightarrow> string \<Rightarrow> lab_slot option" where
  "load_slot j slot = find (\<lambda>s. sl_slot_id s = slot) (jn_slots j)"

definition pending_operation :: "journal \<Rightarrow> string \<Rightarrow> lab_operation option" where
  "pending_operation j sid =
     find (\<lambda>o'. lo_session_id o' = sid \<and> lo_status o' = OsPending) (jn_ops j)"

definition slot_held :: "journal \<Rightarrow> string \<Rightarrow> bool" where
  "slot_held j slot \<longleftrightarrow>
     list_ex (\<lambda>h. sh_slot_id h = slot \<and> sh_released_at h = None) (jn_holds j)"

text \<open>The free slots of a tenant in the order of their identifiers.\<close>

definition free_slot_ids :: "journal \<Rightarrow> string \<Rightarrow> string list" where
  "free_slot_ids j tenant =
     sort (map sl_slot_id
       (filter (\<lambda>s. sl_tenant_id s = tenant \<and> sl_occupant s = None \<and> \<not> slot_held j (sl_slot_id s))
         (jn_slots j)))"

section \<open>Transitions\<close>

definition MAX_CAMPUS_LEASE_SECONDS :: int where "MAX_CAMPUS_LEASE_SECONDS = 3600"

record lab_transition =
  lt_session_id :: string
  lt_expected_generation :: int
  lt_from :: lab_session_state
  lt_to :: lab_session_state
  lt_actor :: string
  lt_now :: int
  lt_lease :: "op_lease option"
  lt_lease_seconds :: int
  lt_failure :: "string option"
  lt_reason :: "string option"
  lt_workspace_id :: "string option"
  lt_observed :: "observed_state option"
  lt_result :: op_result

definition lab_transition_new ::
    "lab_session \<Rightarrow> lab_session_state \<Rightarrow> string \<Rightarrow> int \<Rightarrow> lab_transition" where
  "lab_transition_new s target actor now =
     \<lparr>lt_session_id = ls_session_id s, lt_expected_generation = ls_generation s,
      lt_from = ls_state s, lt_to = target, lt_actor = actor, lt_now = now, lt_lease = None,
      lt_lease_seconds = 0, lt_failure = None, lt_reason = None, lt_workspace_id = None,
      lt_observed = None, lt_result = ResEmpty\<rparr>"

definition required :: "string option \<Rightarrow> (journal_error, string) res" where
  "required v = (case v of
       Some text \<Rightarrow> if is_blank text then Inl JeInvalid else Inr text
     | None \<Rightarrow> Inl JeInvalid)"

definition ensure_slot_occupant :: "journal \<Rightarrow> lab_session \<Rightarrow> (journal_error, unit) res" where
  "ensure_slot_occupant j s =
     (case (ls_slot_id s, ls_slot_generation s) of
        (Some slot_id, Some generation) \<Rightarrow>
          res_bind (ok_or (load_slot j slot_id) (JeFenced FenceUnknownSlot)) (\<lambda>slot.
            if sl_occupant slot \<noteq> Some (ls_session_id s) \<or> sl_generation slot \<noteq> generation
            then Inl (JeFenced FenceSlotLost) else Inr ())
      | _ \<Rightarrow> Inl (JeFenced FenceNoSlot))"

definition coalesce :: "'a option \<Rightarrow> 'a option \<Rightarrow> 'a option" where
  "coalesce a b = (case a of Some v \<Rightarrow> Some v | None \<Rightarrow> b)"

definition finish_op ::
    "operation_status \<Rightarrow> string option \<Rightarrow> int \<Rightarrow> lab_operation \<Rightarrow> lab_operation" where
  "finish_op status error now o' =
     o'\<lparr>lo_status := status, lo_last_error := coalesce error (lo_last_error o'),
        lo_lease_owner := None, lo_lease_expires_at := None, lo_completed_at := Some now,
        lo_updated_at := now\<rparr>"

definition pending_at :: "string \<Rightarrow> int \<Rightarrow> lab_operation \<Rightarrow> bool" where
  "pending_at key fence o' \<longleftrightarrow>
     lo_op_key o' = key \<and> lo_status o' = OsPending \<and> lo_lease_fence o' = fence"

record completion =
  cmp_kind :: operation_kind_lab
  cmp_lease :: "op_lease option"
  cmp_status :: operation_status
  cmp_result :: op_result
  cmp_error :: "string option"
  cmp_now :: int

definition complete_operation ::
    "journal \<Rightarrow> lab_session \<Rightarrow> completion \<Rightarrow> (journal_error, journal \<times> string) res" where
  "complete_operation j s c =
     res_bind (ok_or (cmp_lease c) JeInvalid) (\<lambda>lease.
     res_bind (ok_or (load_operation j (ol_op_key lease)) (JeFenced FenceUnknownOperation)) (\<lambda>o'.
       if lo_session_id o' \<noteq> ls_session_id s \<or> lo_kind o' \<noteq> cmp_kind c \<or>
          lo_session_generation o' \<noteq> ls_generation s \<or> Some (lo_slot_id o') \<noteq> ls_slot_id s \<or>
          Some (lo_slot_generation o') \<noteq> ls_slot_generation s
       then Inl (JeFenced FenceForeignOperation)
       else if lo_status o' \<noteq> OsPending then Inl (JeFenced FenceCompleted)
       else if lo_lease_owner o' \<noteq> Some (ol_owner lease) \<or> lo_lease_fence o' \<noteq> ol_fence lease \<or>
          \<not> (case lo_lease_expires_at o' of Some expires \<Rightarrow> cmp_now c < expires | None \<Rightarrow> False)
       then Inl (JeFenced FenceLease)
       else res_bind (ensure_slot_occupant j s) (\<lambda>_.
         Inr (j\<lparr>jn_ops := update_where (pending_at (ol_op_key lease) (ol_fence lease))
                 (\<lambda>o'. (finish_op (cmp_status c) (cmp_error c) (cmp_now c) o')\<lparr>lo_result := cmp_result c\<rparr>)
                 (jn_ops j)\<rparr>,
              lo_op_key o'))))"

definition live_lease :: "lab_operation \<Rightarrow> int \<Rightarrow> op_lease option" where
  "live_lease o' now =
     (case op_lease_of o' of
        Some lease \<Rightarrow> if now < ol_expires_at lease then Some lease else None
      | None \<Rightarrow> None)"

definition abandon_provision ::
    "journal \<Rightarrow> lab_session \<Rightarrow> string option \<Rightarrow> int \<Rightarrow> (journal_error, journal \<times> string) res" where
  "abandon_provision j s error now =
     res_bind (ok_or (pending_operation j (ls_session_id s)) (JeConflict ConflictNoPending)) (\<lambda>o'.
       if lo_kind o' \<noteq> OpProvision then Inl (JeConflict ConflictNotProvision)
       else case live_lease o' now of
           Some lease \<Rightarrow> Inl (JeLeaseHeld (ol_op_key lease) (ol_owner lease) (ol_expires_at lease))
         | None \<Rightarrow>
             Inr (j\<lparr>jn_ops := update_where (pending_at (lo_op_key o') (lo_lease_fence o'))
                     (finish_op OsAbandoned error now) (jn_ops j)\<rparr>,
                  lo_op_key o'))"

definition revoke :: "string option \<Rightarrow> int \<Rightarrow> lab_session \<Rightarrow> lab_session" where
  "revoke failure now s =
     (let s = s\<lparr>ls_desired := DesiredTerminated,
                ls_revoked_at := Some (case ls_revoked_at s of Some t \<Rightarrow> t | None \<Rightarrow> now)\<rparr>
      in case failure of Some f \<Rightarrow> s\<lparr>ls_failure_reason := Some f\<rparr> | None \<Rightarrow> s)"

definition release_slot :: "journal \<Rightarrow> lab_session \<Rightarrow> int \<Rightarrow> (journal_error, journal) res" where
  "release_slot j s now =
     (let held = (\<lambda>slot. Some (sl_slot_id slot) = ls_slot_id s \<and>
            sl_occupant slot = Some (ls_session_id s) \<and>
            Some (sl_generation slot) = ls_slot_generation s) in
      if rows_affected held (jn_slots j) = 1
      then Inr (j\<lparr>jn_slots := update_where held
              (\<lambda>slot. slot\<lparr>sl_occupant := None, sl_occupied_at := None, sl_updated_at := now\<rparr>)
              (jn_slots j)\<rparr>)
      else Inl (JeFenced FenceSlotLost))"

definition take_slot ::
    "journal \<Rightarrow> lab_session \<Rightarrow> int \<Rightarrow> (journal_error, journal \<times> string \<times> int) res" where
  "take_slot j s now =
     (case free_slot_ids j (ls_tenant_id s) of
        [] \<Rightarrow> Inl (JeNoFreeSlot (ls_tenant_id s))
      | slot_id # _ \<Rightarrow>
          let j' = j\<lparr>jn_slots := update_where (\<lambda>slot. sl_slot_id slot = slot_id)
              (\<lambda>slot. slot\<lparr>sl_occupant := Some (ls_session_id s),
                           sl_generation := sl_generation slot + 1, sl_occupied_at := Some now,
                           sl_updated_at := now\<rparr>)
              (jn_slots j)\<rparr> in
          res_bind (ok_or (load_slot j' slot_id) (JeNoFreeSlot (ls_tenant_id s))) (\<lambda>slot.
            Inr (j', slot_id, sl_generation slot)))"

record effect =
  ef_journal :: journal
  ef_next :: lab_session
  ef_begins :: "operation_kind_lab option"
  ef_completed :: "string option"

definition plain_effect :: "journal \<Rightarrow> lab_session \<Rightarrow> effect" where
  "plain_effect j s = \<lparr>ef_journal = j, ef_next = s, ef_begins = None, ef_completed = None\<rparr>"

definition never_launched :: "int \<Rightarrow> lab_session \<Rightarrow> lab_session" where
  "never_launched now s =
     s\<lparr>ls_desired := DesiredTerminated, ls_observed := ObAbsent, ls_terminated_at := Some now\<rparr>"

definition or_else :: "'a option \<Rightarrow> 'a option \<Rightarrow> 'a option" where
  "or_else a b = (case a of Some v \<Rightarrow> Some v | None \<Rightarrow> b)"

definition transition_effect ::
    "journal \<Rightarrow> lab_transition \<Rightarrow> lab_session \<Rightarrow> (journal_error, effect) res" where
  "transition_effect j t s =
     (let now = lt_now t; complete = (\<lambda>kind status error.
            complete_operation j s \<lparr>cmp_kind = kind, cmp_lease = lt_lease t, cmp_status = status,
              cmp_result = lt_result t, cmp_error = error, cmp_now = now\<rparr>) in
      case lt_from t of
        LsRequested \<Rightarrow>
          (if lt_to t = LsAuthorizing then Inr (plain_effect j s)
           else if lt_to t = LsTerminated then Inr (plain_effect j (never_launched now s))
           else Inl JeInvalid)
      | LsAuthorizing \<Rightarrow>
          (if lt_to t = LsTerminated then Inr (plain_effect j (never_launched now s))
           else if lt_to t = LsFailed then
             res_bind (required (lt_failure t)) (\<lambda>failure.
               Inr (plain_effect j (never_launched now (s\<lparr>ls_failure_reason := Some failure\<rparr>))))
           else if lt_to t = LsProvisioning then
             (if ls_desired s = DesiredTerminated \<or> ls_expires_at s \<le> now
              then Inl (JeConflict ConflictStopped)
              else res_bind (take_slot j s now) (\<lambda>(j', slot_id, generation).
                Inr \<lparr>ef_journal = j',
                     ef_next = s\<lparr>ls_slot_id := Some slot_id, ls_slot_generation := Some generation,
                                 ls_observed := ObProvisioning\<rparr>,
                     ef_begins = Some OpProvision, ef_completed = None\<rparr>))
           else Inl JeInvalid)
      | LsProvisioning \<Rightarrow>
          (if lt_to t = LsReady then
             res_bind (required (lt_workspace_id t)) (\<lambda>workspace.
             res_bind (complete OpProvision OsSucceeded None) (\<lambda>(j', key).
               Inr \<lparr>ef_journal = j',
                    ef_next = s\<lparr>ls_workspace_id := Some workspace, ls_observed := ObReady,
                                ls_observed_at := Some now\<rparr>,
                    ef_begins = None, ef_completed = Some key\<rparr>))
           else if lt_to t = LsStopping then
             (let error = or_else (lt_failure t) (lt_reason t) in
              res_bind (if lt_lease t \<noteq> None then complete OpProvision OsFailed error
                        else abandon_provision j s error now) (\<lambda>(j', key).
                Inr \<lparr>ef_journal = j', ef_next = revoke (lt_failure t) now s,
                     ef_begins = None, ef_completed = Some key\<rparr>))
           else Inl JeInvalid)
      | LsReady \<Rightarrow>
          (if lt_to t = LsStopping then Inr (plain_effect j (revoke (lt_failure t) now s))
           else Inl JeInvalid)
      | LsCleaning \<Rightarrow>
          (if lt_to t = LsCleanupBlocked then
             res_bind (required (lt_reason t)) (\<lambda>reason.
             res_bind (complete OpDelete OsBlocked (Some reason)) (\<lambda>(j', key).
               Inr \<lparr>ef_journal = j',
                    ef_next = s\<lparr>ls_blocked_reason := Some reason, ls_quarantined_at := Some now,
                                ls_observed := ObUnreachable\<rparr>,
                    ef_begins = None, ef_completed = Some key\<rparr>))
           else if lt_to t \<in> {LsTerminated, LsFailed} then
             (if (lt_to t = LsFailed) \<noteq> (ls_failure_reason s \<noteq> None) then Inl JeInvalid
              else res_bind (complete OpDelete OsSucceeded None) (\<lambda>(j', key).
                res_bind (release_slot j' s now) (\<lambda>j''.
                  Inr \<lparr>ef_journal = j'',
                       ef_next = s\<lparr>ls_observed := ObDeleted, ls_terminated_at := Some now\<rparr>,
                       ef_begins = None, ef_completed = Some key\<rparr>)))
           else Inl JeInvalid)
      | _ \<Rightarrow>
          (if lt_from t \<in> {LsStopping, LsCleanupBlocked} \<and> lt_to t = LsCleaning then
             res_bind (ensure_slot_occupant j s) (\<lambda>_.
               Inr \<lparr>ef_journal = j,
                    ef_next = s\<lparr>ls_blocked_reason := None, ls_quarantined_at := None,
                                ls_observed := ObDeleting\<rparr>,
                    ef_begins = Some OpDelete, ef_completed = None\<rparr>)
           else Inl JeInvalid))"

definition insert_event ::
    "journal \<Rightarrow> string \<Rightarrow> string \<Rightarrow> lab_session_state option \<Rightarrow> lab_session_state option \<Rightarrow> int
       \<Rightarrow> string option \<Rightarrow> string \<Rightarrow> event_payload \<Rightarrow> int \<Rightarrow> journal \<times> int" where
  "insert_event j sid kind from to generation key actor payload now =
     (let n = int (length (jn_events j)) + 1 in
      (j\<lparr>jn_events := jn_events j @
          [\<lparr>ev_sequence = n, ev_session_id = sid, ev_kind = kind, ev_from = from, ev_to = to,
            ev_generation = generation, ev_op_key = key, ev_actor = actor, ev_payload = payload,
            ev_created_at = now, ev_published_at = None\<rparr>]\<rparr>, n))"

definition new_operation ::
    "lab_session \<Rightarrow> operation_kind_lab \<Rightarrow> int \<Rightarrow> string \<Rightarrow> int \<Rightarrow> string \<Rightarrow> int \<Rightarrow> int \<Rightarrow> lab_operation"
where
  "new_operation s kind generation slot slot_generation actor now lease_seconds =
     \<lparr>lo_op_key = campus_operation_key (ls_session_id s) kind generation,
      lo_session_id = ls_session_id s, lo_kind = kind, lo_session_generation = generation,
      lo_slot_id = slot, lo_slot_generation = slot_generation, lo_status = OsPending,
      lo_attempt_count = 1, lo_lease_owner = Some actor,
      lo_lease_expires_at = Some (saturating_add now lease_seconds), lo_lease_fence = 1,
      lo_last_error = None, lo_result = ResEmpty, lo_created_at = now, lo_updated_at = now,
      lo_completed_at = None\<rparr>"

definition begin_operation ::
    "journal \<Rightarrow> lab_transition \<Rightarrow> lab_session \<Rightarrow> operation_kind_lab option \<Rightarrow> int
       \<Rightarrow> (journal_error, journal \<times> string option) res" where
  "begin_operation j t next begins generation =
     (case begins of
        None \<Rightarrow> Inr (j, None)
      | Some kind \<Rightarrow>
          if \<not> (1 \<le> lt_lease_seconds t \<and> lt_lease_seconds t \<le> MAX_CAMPUS_LEASE_SECONDS)
          then Inl JeInvalid
          else case (ls_slot_id next, ls_slot_generation next) of
              (Some slot, Some slot_generation) \<Rightarrow>
                let o' = new_operation next kind generation slot slot_generation (lt_actor t)
                           (lt_now t) (lt_lease_seconds t) in
                Inr (j\<lparr>jn_ops := jn_ops j @ [o']\<rparr>, Some (lo_op_key o'))
            | _ \<Rightarrow> Inl JeStore)"

record transition_outcome =
  to_session :: lab_session
  to_begun :: "lab_operation option"
  to_sequence :: int

definition write_session :: "lab_session \<Rightarrow> lab_transition \<Rightarrow> effect \<Rightarrow> lab_session" where
  "write_session s t e =
     (ef_next e)\<lparr>ls_state := lt_to t, ls_generation := ls_generation s + 1,
       ls_observed := (case lt_observed t of Some ob \<Rightarrow> ob | None \<Rightarrow> ls_observed (ef_next e)),
       ls_updated_at := lt_now t\<rparr>"

definition transition_payload :: "lab_transition \<Rightarrow> lab_session \<Rightarrow> event_payload" where
  "transition_payload t next =
     PayTransition (lt_reason t) (lt_failure t) (ls_workspace_id next) (ls_slot_id next)
       (ls_slot_generation next) (ls_observed next) (ls_revoked_at next \<noteq> None)"

definition transition_campus_lab_session ::
    "journal \<Rightarrow> lab_transition \<Rightarrow> (journal_error, journal \<times> transition_outcome) res" where
  "transition_campus_lab_session j t =
     res_bind (map_err JeTransition (transition (lt_from t) (lt_to t))) (\<lambda>_.
     if is_blank (lt_actor t) then Inl JeInvalid
     else res_bind (ok_or (load_session j (lt_session_id t)) (JeNotFound (lt_session_id t))) (\<lambda>s.
     if ls_generation s \<noteq> lt_expected_generation t \<or> ls_state s \<noteq> lt_from t
     then Inl (JeFenced FenceGeneration)
     else res_bind (transition_effect j t s) (\<lambda>e.
     let next = write_session s t e; j1 = ef_journal e;
         current = (\<lambda>r. ls_session_id r = ls_session_id s \<and> ls_generation r = ls_generation s \<and>
                        ls_state r = ls_state s) in
     if rows_affected current (jn_sessions j1) \<noteq> 1 then Inl (JeFenced FenceGeneration)
     else let j2 = j1\<lparr>jn_sessions := update_where current (\<lambda>_. next) (jn_sessions j1)\<rparr> in
     res_bind (begin_operation j2 t next (ef_begins e) (ls_generation s + 1)) (\<lambda>(j3, begun_key).
     let (j4, sequence) = insert_event j3 (ls_session_id s)
           (''campus.session.'' @ lab_state_as_str (lt_to t)) (Some (lt_from t)) (Some (lt_to t))
           (ls_generation s + 1) (or_else begun_key (ef_completed e)) (lt_actor t)
           (transition_payload t next) (lt_now t) in
     res_bind (ok_or (load_session j4 (ls_session_id s)) (JeNotFound (lt_session_id t))) (\<lambda>s'.
       Inr (j4, \<lparr>to_session = s', to_begun = Option.bind begun_key (load_operation j4),
                 to_sequence = sequence\<rparr>))))))"

section \<open>Registration, stops and observations\<close>

text \<open>SQLite's \<open>length\<close> counts characters: the bytes that do not continue one.\<close>

definition char_count :: "string \<Rightarrow> nat" where
  "char_count s = length (filter (\<lambda>b. \<not> (128 \<le> byte b \<and> byte b \<le> 191)) s)"

definition chars_between :: "nat \<Rightarrow> nat \<Rightarrow> string \<Rightarrow> bool" where
  "chars_between lo hi s \<longleftrightarrow> lo \<le> char_count s \<and> char_count s \<le> hi"

definition register_campus_lab_slot ::
    "journal \<Rightarrow> string \<Rightarrow> string \<Rightarrow> int \<Rightarrow> (journal_error, journal \<times> lab_slot) res" where
  "register_campus_lab_slot j slot_id tenant_id now =
     (if \<not> (chars_between 1 128 slot_id \<and> chars_between 1 64 tenant_id) then Inl JeStore
      else
        let j' = (case load_slot j slot_id of
            Some _ \<Rightarrow> j
          | None \<Rightarrow> j\<lparr>jn_slots := jn_slots j @
              [\<lparr>sl_slot_id = slot_id, sl_tenant_id = tenant_id, sl_occupant = None, sl_generation = 0,
                sl_occupied_at = None, sl_created_at = now, sl_updated_at = now\<rparr>]\<rparr>) in
        res_bind (ok_or (load_slot j' slot_id) (JeNotFound slot_id)) (\<lambda>slot.
          if sl_tenant_id slot \<noteq> tenant_id then Inl (JeConflict ConflictTenant) else Inr (j', slot)))"

record create_session =
  cs_session_id :: string
  cs_tenant_id :: string
  cs_course_id :: string
  cs_issuer :: string
  cs_subject :: string
  cs_profile :: profile_ref
  cs_expires_at :: int
  cs_actor :: string
  cs_now :: int

definition requested_session :: "create_session \<Rightarrow> lab_session" where
  "requested_session r =
     \<lparr>ls_session_id = cs_session_id r, ls_tenant_id = cs_tenant_id r, ls_course_id = cs_course_id r,
      ls_issuer = cs_issuer r, ls_subject = cs_subject r, ls_profile = cs_profile r,
      ls_state = LsRequested, ls_desired = DesiredReady, ls_observed = ObUnknown, ls_generation = 1,
      ls_slot_id = None, ls_slot_generation = None, ls_workspace_id = None,
      ls_failure_reason = None, ls_blocked_reason = None, ls_created_by = cs_actor r,
      ls_created_at = cs_now r, ls_updated_at = cs_now r, ls_observed_at = None,
      ls_revoked_at = None, ls_quarantined_at = None, ls_terminated_at = None,
      ls_expires_at = cs_expires_at r\<rparr>"

definition session_text_ok :: "create_session \<Rightarrow> bool" where
  "session_text_ok r \<longleftrightarrow>
     chars_between 1 128 (cs_session_id r) \<and> chars_between 1 128 (cs_course_id r) \<and>
     chars_between 1 64 (pr_id (cs_profile r)) \<and> chars_between 1 64 (pr_version (cs_profile r)) \<and>
     chars_between 1 128 (pr_profile_hash (cs_profile r))"

definition same_content :: "lab_session \<Rightarrow> create_session \<Rightarrow> bool" where
  "same_content s r \<longleftrightarrow>
     ls_tenant_id s = cs_tenant_id r \<and> ls_course_id s = cs_course_id r \<and>
     ls_issuer s = cs_issuer r \<and> ls_subject s = cs_subject r \<and> ls_profile s = cs_profile r \<and>
     ls_expires_at s = cs_expires_at r"

definition insert_campus_lab_session ::
    "journal \<Rightarrow> create_session \<Rightarrow> (journal_error, journal \<times> lab_session \<times> bool) res" where
  "insert_campus_lab_session j r =
     (if cs_session_id r = [] \<or> is_blank (cs_actor r) then Inl JeInvalid
      else if cs_expires_at r \<le> cs_now r then Inl JeInvalid
      else if (cs_tenant_id r, cs_issuer r, cs_subject r) \<notin> set (jn_identities j) then Inl JeInvalid
      else if \<not> session_text_ok r then Inl JeStore
      else case load_session j (cs_session_id r) of
          None \<Rightarrow>
            let s = requested_session r;
                j' = fst (insert_event (j\<lparr>jn_sessions := jn_sessions j @ [s]\<rparr>) (ls_session_id s)
                  ''campus.session.requested'' None (Some LsRequested) (ls_generation s) None
                  (cs_actor r) (PayRequested (ls_course_id s) (ls_profile s) (ls_expires_at s))
                  (cs_now r)) in
            Inr (j', s, True)
        | Some s \<Rightarrow>
            if \<not> same_content s r then Inl (JeConflict ConflictContent) else Inr (j, s, False))"

definition request_campus_lab_stop_in ::
    "journal \<Rightarrow> string \<Rightarrow> string \<Rightarrow> string \<Rightarrow> int \<Rightarrow> (journal_error, journal \<times> lab_session) res" where
  "request_campus_lab_stop_in j sid actor reason now =
     (if is_blank actor \<or> is_blank reason then Inl JeInvalid
      else res_bind (ok_or (load_session j sid) (JeNotFound sid)) (\<lambda>s.
        if is_terminal (ls_state s) \<or> ls_desired s = DesiredTerminated then Inr (j, s)
        else
          let j1 = j\<lparr>jn_sessions := update_where
                (\<lambda>r. ls_session_id r = sid \<and> ls_generation r = ls_generation s)
                (\<lambda>r. r\<lparr>ls_desired := DesiredTerminated, ls_updated_at := now\<rparr>) (jn_sessions j)\<rparr>;
              j2 = fst (insert_event j1 sid ''campus.session.stop_requested'' (Some (ls_state s))
                None (ls_generation s) None actor (PayStop reason) now) in
          res_bind (ok_or (load_session j2 sid) (JeNotFound sid)) (\<lambda>s'. Inr (j2, s'))))"

definition stale :: "journal \<Rightarrow> string \<Rightarrow> journal_error" where
  "stale j sid =
     (case load_session j sid of Some s \<Rightarrow> JeFenced FenceGeneration | None \<Rightarrow> JeNotFound sid)"

definition record_campus_lab_observation ::
    "journal \<Rightarrow> string \<Rightarrow> int \<Rightarrow> observed_state \<Rightarrow> int \<Rightarrow> (journal_error, journal \<times> lab_session) res"
where
  "record_campus_lab_observation j sid generation observed now =
     (let target = (\<lambda>s. ls_session_id s = sid \<and> ls_generation s = generation \<and>
                        \<not> is_terminal (ls_state s));
          j' = j\<lparr>jn_sessions := update_where target
            (\<lambda>s. s\<lparr>ls_observed := observed, ls_observed_at := Some now, ls_updated_at := now\<rparr>)
            (jn_sessions j)\<rparr> in
      if rows_affected target (jn_sessions j) = 0 then Inl (stale j sid)
      else res_bind (ok_or (load_session j' sid) (stale j sid)) (\<lambda>s. Inr (j', s)))"

section \<open>Leases\<close>

definition lease_campus_lab_operation ::
    "journal \<Rightarrow> string \<Rightarrow> string \<Rightarrow> int \<Rightarrow> int \<Rightarrow> (journal_error, journal \<times> lab_operation) res" where
  "lease_campus_lab_operation j key owner now lease_seconds =
     (if is_blank owner \<or> \<not> (1 \<le> lease_seconds \<and> lease_seconds \<le> MAX_CAMPUS_LEASE_SECONDS)
      then Inl JeInvalid
      else res_bind (ok_or (load_operation j key) (JeNotFound key)) (\<lambda>o'.
        if lo_status o' \<noteq> OsPending then Inl (JeFenced FenceCompleted)
        else case live_lease o' now of
            Some lease \<Rightarrow> Inl (JeLeaseHeld (ol_op_key lease) (ol_owner lease) (ol_expires_at lease))
          | None \<Rightarrow>
              res_bind (ok_or (load_session j (lo_session_id o')) (JeNotFound (lo_session_id o'))) (\<lambda>s.
                if ls_generation s \<noteq> lo_session_generation o' then Inl (JeFenced FenceSuperseded)
                else res_bind (ensure_slot_occupant j s) (\<lambda>_.
                  let j' = j\<lparr>jn_ops := update_where (pending_at key (lo_lease_fence o'))
                        (\<lambda>o'. o'\<lparr>lo_lease_owner := Some owner,
                                 lo_lease_expires_at := Some (saturating_add now lease_seconds),
                                 lo_lease_fence := lo_lease_fence o' + 1,
                                 lo_attempt_count := lo_attempt_count o' + 1,
                                 lo_updated_at := now\<rparr>)
                        (jn_ops j)\<rparr> in
                  res_bind (ok_or (load_operation j' key) JeStore) (\<lambda>leased. Inr (j', leased))))))"

definition held_by_lease :: "op_lease \<Rightarrow> lab_operation \<Rightarrow> bool" where
  "held_by_lease lease o' \<longleftrightarrow>
     lo_op_key o' = ol_op_key lease \<and> lo_status o' = OsPending \<and>
     lo_lease_owner o' = Some (ol_owner lease) \<and> lo_lease_fence o' = ol_fence lease"

definition release_campus_lab_operation_lease ::
    "journal \<Rightarrow> op_lease \<Rightarrow> string option \<Rightarrow> int \<Rightarrow> journal \<times> bool" where
  "release_campus_lab_operation_lease j lease error now =
     (j\<lparr>jn_ops := update_where (held_by_lease lease)
          (\<lambda>o'. o'\<lparr>lo_lease_owner := None, lo_lease_expires_at := None,
                   lo_last_error := coalesce error (lo_last_error o'), lo_updated_at := now\<rparr>)
          (jn_ops j)\<rparr>,
      rows_affected (held_by_lease lease) (jn_ops j) = 1)"

section \<open>The outbox, hook runs and orphans\<close>

fun mark_published :: "int list \<Rightarrow> int \<Rightarrow> lab_event list \<Rightarrow> nat \<Rightarrow> lab_event list \<times> nat" where
  "mark_published [] now events marked = (events, marked)"
| "mark_published (n # ns) now events marked =
     (let target = (\<lambda>e. ev_sequence e = n \<and> ev_published_at e = None) in
      mark_published ns now (update_where target (\<lambda>e. e\<lparr>ev_published_at := Some now\<rparr>) events)
        (marked + rows_affected target events))"

definition mark_campus_lab_events_published ::
    "journal \<Rightarrow> int list \<Rightarrow> int \<Rightarrow> journal \<times> nat" where
  "mark_campus_lab_events_published j sequences now =
     (let (events, marked) = mark_published sequences now (jn_events j) 0 in
      (j\<lparr>jn_events := events\<rparr>, marked))"

definition list_unpublished_campus_lab_events :: "journal \<Rightarrow> int \<Rightarrow> lab_event list" where
  "list_unpublished_campus_lab_events j limit =
     take (nat (max 1 (min 1000 limit)))
       (sort_key ev_sequence (filter (\<lambda>e. ev_published_at e = None) (jn_events j)))"

definition list_campus_lab_session_events :: "journal \<Rightarrow> string \<Rightarrow> lab_event list" where
  "list_campus_lab_session_events j sid =
     sort_key ev_sequence (filter (\<lambda>e. ev_session_id e = sid) (jn_events j))"

definition list_campus_teardown_hook_runs :: "journal \<Rightarrow> string \<Rightarrow> string list" where
  "list_campus_teardown_hook_runs j sid =
     map hr_hook (sort_key hr_completed_at (sort_key hr_hook
       (filter (\<lambda>r. hr_session_id r = sid) (jn_hook_runs j))))"

definition record_campus_teardown_hook_run ::
    "journal \<Rightarrow> string \<Rightarrow> string \<Rightarrow> string \<Rightarrow> workload_ref \<Rightarrow> int \<Rightarrow> (journal_error, journal \<times> bool) res"
where
  "record_campus_teardown_hook_run j sid hook key w now =
     (if hook = [] \<or> 64 < length hook then Inl JeInvalid
      else if key = [] \<or> wl_slot_generation w < 1 then Inl JeStore
      else if list_ex (\<lambda>r. hr_session_id r = sid \<and> hr_hook r = hook) (jn_hook_runs j)
      then Inr (j, False)
      else if load_session j sid = None \<or> load_slot j (wl_slot_id w) = None then Inl JeStore
      else Inr (j\<lparr>jn_hook_runs := jn_hook_runs j @
          [\<lparr>hr_session_id = sid, hr_hook = hook, hr_op_key = key, hr_slot_id = wl_slot_id w,
            hr_slot_generation = wl_slot_generation w, hr_completed_at = now\<rparr>]\<rparr>, True))"

datatype orphan_reason = OrUnknownSession | OrTerminalSession | OrStaleOccupancy

definition orphan_reason_of :: "journal \<Rightarrow> owned_resource \<Rightarrow> orphan_reason option" where
  "orphan_reason_of j r =
     (case load_session j (wl_session_id (or_workload r)) of
        None \<Rightarrow> Some OrUnknownSession
      | Some s \<Rightarrow>
          if is_terminal (ls_state s) then Some OrTerminalSession
          else if session_workload s \<noteq> Some (or_workload r) then Some OrStaleOccupancy
          else None)"

fun find_campus_lab_orphans ::
    "journal \<Rightarrow> owned_resource list \<Rightarrow> (owned_resource \<times> orphan_reason) list" where
  "find_campus_lab_orphans j [] = []"
| "find_campus_lab_orphans j (r # rs) =
     (case orphan_reason_of j r of
        Some reason \<Rightarrow> (r, reason) # find_campus_lab_orphans j rs
      | None \<Rightarrow> find_campus_lab_orphans j rs)"

end
