(* ===== verification/LabInvariant.thy ===== *)
theory LabInvariant
  imports LabJournal
begin

text \<open>
  The invariant of the lab journal, over its tables read as maps, and its preservation by every
  transaction of \<open>LabJournal\<close>: sessions, slots and operations agree, a session that may hold
  resources occupies exactly its slot generation, and the pending operation of a session is the one
  of its state and generation.
\<close>

section \<open>Rows by key\<close>

lemma load_session_lookup: "load_session j = lookup ls_session_id (jn_sessions j)"
  by (simp add: fun_eq_iff load_session_def lookup_def)

lemma load_operation_lookup: "load_operation j = lookup lo_op_key (jn_ops j)"
  by (simp add: fun_eq_iff load_operation_def lookup_def)

lemma load_slot_lookup: "load_slot j = lookup sl_slot_id (jn_slots j)"
  by (simp add: fun_eq_iff load_slot_def lookup_def)

lemmas load_lookup = load_session_lookup load_operation_lookup load_slot_lookup

section \<open>Operation keys\<close>

lemma slash_notin_show_int: "CHR ''/'' \<notin> set (show_int i)"
  using show_int_digits [of "CHR ''/''" i] by (auto simp: is_ascii_digit_def byte_def)

text \<open>The key of an operation determines it: two operations share a key only if they are of the
  same session, kind and session generation, whatever characters a session identifier contains, so
  the provider's idempotency key never conflates two operations.\<close>
theorem operation_key_injective:
  "campus_operation_key sid kind generation = campus_operation_key sid' kind' generation' \<longleftrightarrow>
     sid = sid' \<and> kind = kind' \<and> generation = generation'"
proof
  assume eq: "campus_operation_key sid kind generation = campus_operation_key sid' kind' generation'"
  have k: "CHR ''/'' \<notin> set (op_kind_as_str k)" for k by (cases k) auto
  have "(sid @ ''/'' @ op_kind_as_str kind) @ CHR ''/'' # CHR ''g'' # show_int generation =
      (sid' @ ''/'' @ op_kind_as_str kind') @ CHR ''/'' # CHR ''g'' # show_int generation'"
    using eq by (simp add: campus_operation_key_def)
  then have *: "sid @ CHR ''/'' # op_kind_as_str kind = sid' @ CHR ''/'' # op_kind_as_str kind'"
    "show_int generation = show_int generation'"
    using no_slash_tail_eq [of "CHR ''/''" "CHR ''g'' # show_int generation"
        "CHR ''g'' # show_int generation'" "sid @ ''/'' @ op_kind_as_str kind"
        "sid' @ ''/'' @ op_kind_as_str kind'"] slash_notin_show_int
    by simp_all
  from no_slash_tail_eq [OF k k *(1)] have "sid = sid'" "op_kind_as_str kind = op_kind_as_str kind'"
    by auto
  with *(2) show "sid = sid' \<and> kind = kind' \<and> generation = generation'"
    by (cases kind; cases kind') (auto dest: show_int_inj)
qed simp

section \<open>The schema\<close>

text \<open>The \<open>CHECK\<close> constraints of migration 0058, row by row.\<close>

definition session_row_ok :: "lab_session \<Rightarrow> bool" where
  "session_row_ok s \<longleftrightarrow>
     chars_between 1 128 (ls_session_id s) \<and> chars_between 1 128 (ls_course_id s) \<and>
     chars_between 1 64 (pr_id (ls_profile s)) \<and> chars_between 1 64 (pr_version (ls_profile s)) \<and>
     chars_between 1 128 (pr_profile_hash (ls_profile s)) \<and>
     1 \<le> ls_generation s \<and> (\<forall>g. ls_slot_generation s = Some g \<longrightarrow> 1 \<le> g) \<and>
     ls_created_by s \<noteq> [] \<and> ls_created_at s < ls_expires_at s \<and>
     (ls_slot_id s = None \<longleftrightarrow> ls_slot_generation s = None) \<and>
     (may_hold_resources (ls_state s) \<longrightarrow> ls_slot_id s \<noteq> None) \<and>
     (ls_state s \<in> {LsStopping, LsCleaning, LsCleanupBlocked} \<longrightarrow> ls_revoked_at s \<noteq> None) \<and>
     (ls_state s = LsReady \<longrightarrow> ls_workspace_id s \<noteq> None) \<and>
     (ls_state s = LsCleanupBlocked \<longleftrightarrow> ls_quarantined_at s \<noteq> None) \<and>
     (ls_state s = LsCleanupBlocked \<longrightarrow> ls_blocked_reason s \<noteq> None) \<and>
     (is_terminal (ls_state s) \<longleftrightarrow> ls_terminated_at s \<noteq> None) \<and>
     (ls_state s = LsFailed \<longrightarrow> ls_failure_reason s \<noteq> None)"

definition op_row_ok :: "lab_operation \<Rightarrow> bool" where
  "op_row_ok o' \<longleftrightarrow>
     1 \<le> lo_session_generation o' \<and> 1 \<le> lo_slot_generation o' \<and> 0 \<le> lo_attempt_count o' \<and>
     0 \<le> lo_lease_fence o' \<and> (lo_lease_owner o' = None \<longleftrightarrow> lo_lease_expires_at o' = None) \<and>
     (lo_status o' = OsPending \<longleftrightarrow> lo_completed_at o' = None) \<and>
     (lo_status o' = OsPending \<or> lo_lease_owner o' = None)"

definition slot_row_ok :: "lab_slot \<Rightarrow> bool" where
  "slot_row_ok l \<longleftrightarrow>
     chars_between 1 128 (sl_slot_id l) \<and> chars_between 1 64 (sl_tenant_id l) \<and>
     0 \<le> sl_generation l \<and> (sl_occupant l = None \<longleftrightarrow> sl_occupied_at l = None)"

text \<open>The update triggers: what a changed row may differ in.\<close>

definition session_update_ok :: "lab_session \<Rightarrow> lab_session \<Rightarrow> bool" where
  "session_update_ok old new \<longleftrightarrow>
     ls_session_id new = ls_session_id old \<and> ls_tenant_id new = ls_tenant_id old \<and>
     ls_course_id new = ls_course_id old \<and> ls_issuer new = ls_issuer old \<and>
     ls_subject new = ls_subject old \<and> ls_profile new = ls_profile old \<and>
     ls_created_by new = ls_created_by old \<and> ls_created_at new = ls_created_at old \<and>
     ls_expires_at new = ls_expires_at old \<and>
     (if ls_state new = ls_state old then ls_generation new = ls_generation old
      else ls_generation new = ls_generation old + 1 \<and> ls_state new \<in> set (successors (ls_state old))) \<and>
     (ls_slot_id old \<noteq> None \<longrightarrow>
        ls_slot_id new = ls_slot_id old \<and> ls_slot_generation new = ls_slot_generation old) \<and>
     (ls_desired old = DesiredTerminated \<longrightarrow> ls_desired new = DesiredTerminated) \<and>
     \<not> is_terminal (ls_state old)"

definition op_update_ok :: "lab_operation \<Rightarrow> lab_operation \<Rightarrow> bool" where
  "op_update_ok old new \<longleftrightarrow>
     lo_op_key new = lo_op_key old \<and> lo_session_id new = lo_session_id old \<and>
     lo_kind new = lo_kind old \<and> lo_session_generation new = lo_session_generation old \<and>
     lo_slot_id new = lo_slot_id old \<and> lo_slot_generation new = lo_slot_generation old \<and>
     lo_created_at new = lo_created_at old \<and> lo_status old = OsPending \<and>
     lo_lease_fence old \<le> lo_lease_fence new \<and> lo_attempt_count old \<le> lo_attempt_count new"

definition slot_update_ok :: "lab_slot \<Rightarrow> lab_slot \<Rightarrow> bool" where
  "slot_update_ok old new \<longleftrightarrow>
     sl_slot_id new = sl_slot_id old \<and> sl_tenant_id new = sl_tenant_id old \<and>
     sl_created_at new = sl_created_at old \<and>
     (if sl_occupant old = None \<and> sl_occupant new \<noteq> None
      then sl_generation new = sl_generation old + 1
      else sl_generation new = sl_generation old \<and>
        (sl_occupant old = None \<or> sl_occupant new = None \<or> sl_occupant new = sl_occupant old))"

section \<open>The invariant\<close>

type_synonym sessions_map = "string \<Rightarrow> lab_session option"
type_synonym ops_map = "string \<Rightarrow> lab_operation option"
type_synonym slots_map = "string \<Rightarrow> lab_slot option"

definition session_extra_ok :: "lab_session \<Rightarrow> bool" where
  "session_extra_ok s \<longleftrightarrow>
     (ls_state s \<in> {LsRequested, LsAuthorizing} \<longrightarrow> ls_slot_id s = None) \<and>
     (ls_state s \<in> {LsStopping, LsCleaning, LsCleanupBlocked, LsTerminated, LsFailed} \<longrightarrow>
        ls_desired s = DesiredTerminated)"

definition session_slot_ok :: "slots_map \<Rightarrow> lab_session \<Rightarrow> bool" where
  "session_slot_ok L s \<longleftrightarrow>
     (\<forall>slot_id g. ls_slot_id s = Some slot_id \<and> ls_slot_generation s = Some g \<longrightarrow>
        (\<exists>l. L slot_id = Some l \<and> g \<le> sl_generation l \<and> sl_tenant_id l = ls_tenant_id s \<and>
           (may_hold_resources (ls_state s) \<longrightarrow>
              sl_occupant l = Some (ls_session_id s) \<and> sl_generation l = g)))"

definition state_op :: "lab_session_state \<Rightarrow> operation_kind_lab option" where
  "state_op st =
     (if st = LsProvisioning then Some OpProvision
      else if st = LsCleaning then Some OpDelete else None)"

definition session_op_ok :: "ops_map \<Rightarrow> lab_session \<Rightarrow> bool" where
  "session_op_ok Q s \<longleftrightarrow>
     (\<forall>kind. state_op (ls_state s) = Some kind \<longrightarrow>
        (\<exists>o'. Q (campus_operation_key (ls_session_id s) kind (ls_generation s)) = Some o' \<and>
              lo_status o' = OsPending))"

definition op_ok :: "sessions_map \<Rightarrow> lab_operation \<Rightarrow> bool" where
  "op_ok S o' \<longleftrightarrow>
     op_row_ok o' \<and>
     lo_op_key o' = campus_operation_key (lo_session_id o') (lo_kind o') (lo_session_generation o') \<and>
     (\<exists>s. S (lo_session_id o') = Some s \<and> lo_session_generation o' \<le> ls_generation s \<and>
        ls_slot_id s = Some (lo_slot_id o') \<and> ls_slot_generation s = Some (lo_slot_generation o') \<and>
        (lo_status o' = OsPending \<longrightarrow>
           lo_session_generation o' = ls_generation s \<and> state_op (ls_state s) = Some (lo_kind o')))"

definition slot_ok :: "sessions_map \<Rightarrow> lab_slot \<Rightarrow> bool" where
  "slot_ok S l \<longleftrightarrow>
     slot_row_ok l \<and>
     (\<forall>sid. sl_occupant l = Some sid \<longrightarrow>
        (\<exists>s. S sid = Some s \<and> may_hold_resources (ls_state s) \<and> ls_slot_id s = Some (sl_slot_id l) \<and>
           ls_slot_generation s = Some (sl_generation l)))"

definition occupancies_unique :: "sessions_map \<Rightarrow> bool" where
  "occupancies_unique S \<longleftrightarrow>
     (\<forall>sid s sid' s'. S sid = Some s \<and> S sid' = Some s' \<and> ls_slot_id s \<noteq> None \<and>
        ls_slot_id s = ls_slot_id s' \<and> ls_slot_generation s = ls_slot_generation s' \<longrightarrow> sid = sid')"

definition tables_ok :: "sessions_map \<Rightarrow> ops_map \<Rightarrow> slots_map \<Rightarrow> bool" where
  "tables_ok S Q L \<longleftrightarrow>
     (\<forall>sid s. S sid = Some s \<longrightarrow> ls_session_id s = sid \<and> session_row_ok s \<and> session_extra_ok s \<and>
        session_slot_ok L s \<and> session_op_ok Q s) \<and>
     (\<forall>key o'. Q key = Some o' \<longrightarrow> lo_op_key o' = key \<and> op_ok S o') \<and>
     (\<forall>slot l. L slot = Some l \<longrightarrow> sl_slot_id l = slot \<and> slot_ok S l) \<and>
     occupancies_unique S"

definition keys_ok :: "journal \<Rightarrow> bool" where
  "keys_ok j \<longleftrightarrow>
     distinct (map ls_session_id (jn_sessions j)) \<and> distinct (map lo_op_key (jn_ops j)) \<and>
     distinct (map sl_slot_id (jn_slots j))"

definition journal_inv :: "journal \<Rightarrow> bool" where
  "journal_inv j \<longleftrightarrow>
     keys_ok j \<and> tables_ok (load_session j) (load_operation j) (load_slot j)"

section \<open>Moves\<close>

lemma tables_okD:
  assumes "tables_ok S Q L"
  shows "S sid = Some s \<Longrightarrow> ls_session_id s = sid \<and> session_row_ok s \<and> session_extra_ok s \<and>
        session_slot_ok L s \<and> session_op_ok Q s"
    and "Q key = Some o' \<Longrightarrow> lo_op_key o' = key \<and> op_ok S o'"
    and "L slot = Some l \<Longrightarrow> sl_slot_id l = slot \<and> slot_ok S l"
    and "occupancies_unique S"
  using assms by (auto simp: tables_ok_def)

lemma op_session_of_key:
  assumes "tables_ok S Q L" "Q (campus_operation_key sid kind g) = Some o'"
  shows "lo_session_id o' = sid \<and> lo_kind o' = kind \<and> lo_session_generation o' = g"
  using tables_okD(2) [OF assms] operation_key_injective by (auto simp: op_ok_def)

text \<open>
  One session moves from \<open>s\<close> to \<open>s'\<close>, only its own operations change, and only slots that nobody
  else holds.
\<close>

lemma tables_ok_move:
  assumes inv: "tables_ok S Q L" and s: "S sid = Some s"
    and id: "ls_session_id s' = sid"
    and rows: "session_row_ok s'" "session_extra_ok s'" "session_slot_ok L' s'" "session_op_ok Q' s'"
    and ops: "\<And>key o'. Q' key = Some o' \<Longrightarrow>
        lo_op_key o' = key \<and> (if lo_session_id o' = sid then op_ok (S(sid \<mapsto> s')) o' else Q key = Some o')"
    and keep_ops: "\<And>key o'. Q key = Some o' \<Longrightarrow> lo_session_id o' \<noteq> sid \<Longrightarrow> Q' key = Some o'"
    and slots: "\<And>x l. L' x = Some l \<Longrightarrow>
        sl_slot_id l = x \<and> (L x = Some l \<and> sl_occupant l \<noteq> Some sid \<or> slot_ok (S(sid \<mapsto> s')) l)"
    and keep_slots: "\<And>x l. L x = Some l \<Longrightarrow> \<exists>l'. L' x = Some l' \<and> sl_generation l \<le> sl_generation l' \<and>
        sl_tenant_id l' = sl_tenant_id l \<and> (sl_occupant l = None \<or> sl_occupant l = Some sid \<or> l' = l)"
    and uniq: "\<And>sid' t. sid' \<noteq> sid \<Longrightarrow> S sid' = Some t \<Longrightarrow> ls_slot_id s' \<noteq> None \<Longrightarrow>
        ls_slot_id t = ls_slot_id s' \<Longrightarrow> ls_slot_generation t \<noteq> ls_slot_generation s'"
  shows "tables_ok (S(sid \<mapsto> s')) Q' L'"
  unfolding tables_ok_def
proof (intro conjI allI impI)
  fix tid t
  assume t: "(S(sid \<mapsto> s')) tid = Some t"
  show "ls_session_id t = tid" "session_row_ok t" "session_extra_ok t"
    using t id rows(1, 2) tables_okD(1) [OF inv, of tid t] by (cases "tid = sid"; simp)+
  show "session_slot_ok L' t"
  proof (cases "tid = sid")
    case False
    with t have St: "S tid = Some t" by simp
    note T = tables_okD(1) [OF inv St]
    show ?thesis unfolding session_slot_ok_def
    proof (intro allI impI)
      fix slot_id g
      assume a: "ls_slot_id t = Some slot_id \<and> ls_slot_generation t = Some g"
      with T obtain l where l: "L slot_id = Some l" "g \<le> sl_generation l"
        "sl_tenant_id l = ls_tenant_id t" "may_hold_resources (ls_state t) \<longrightarrow>
           sl_occupant l = Some (ls_session_id t) \<and> sl_generation l = g"
        by (auto simp: session_slot_ok_def)
      from keep_slots [OF l(1)] obtain l' where l': "L' slot_id = Some l'"
        "sl_generation l \<le> sl_generation l'" "sl_tenant_id l' = sl_tenant_id l"
        "sl_occupant l = None \<or> sl_occupant l = Some sid \<or> l' = l" by auto
      have "l' = l" if "may_hold_resources (ls_state t)"
        using l(4) l'(4) that T False by auto
      with l l' show "\<exists>l. L' slot_id = Some l \<and> g \<le> sl_generation l \<and>
          sl_tenant_id l = ls_tenant_id t \<and> (may_hold_resources (ls_state t) \<longrightarrow>
           sl_occupant l = Some (ls_session_id t) \<and> sl_generation l = g)"
        by (intro exI [of _ l']) auto
    qed
  qed (use t rows in simp)
  show "session_op_ok Q' t"
  proof (cases "tid = sid")
    case False
    with t have St: "S tid = Some t" by simp
    note T = tables_okD(1) [OF inv St]
    show ?thesis unfolding session_op_ok_def
    proof (intro allI impI)
      fix kind
      assume "state_op (ls_state t) = Some kind"
      with T obtain o' where o': "Q (campus_operation_key tid kind (ls_generation t)) = Some o'"
        "lo_status o' = OsPending" by (auto simp: session_op_ok_def)
      from op_session_of_key [OF inv o'(1)] False have "lo_session_id o' \<noteq> sid" by simp
      from keep_ops [OF o'(1) this] o'(2) T
      show "\<exists>o'. Q' (campus_operation_key (ls_session_id t) kind (ls_generation t)) = Some o' \<and>
          lo_status o' = OsPending" by auto
    qed
  qed (use t rows in simp)
next
  fix key o'
  assume q: "Q' key = Some o'"
  show "lo_op_key o' = key" using ops [OF q] by simp
  show "op_ok (S(sid \<mapsto> s')) o'"
  proof (cases "lo_session_id o' = sid")
    case False
    with ops [OF q] have "Q key = Some o'" by simp
    from tables_okD(2) [OF inv this] False show ?thesis by (auto simp: op_ok_def)
  qed (use ops [OF q] in simp)
next
  fix x l
  assume q: "L' x = Some l"
  show "sl_slot_id l = x" using slots [OF q] by simp
  show "slot_ok (S(sid \<mapsto> s')) l"
  proof (cases "L x = Some l \<and> sl_occupant l \<noteq> Some sid")
    case True
    with tables_okD(3) [OF inv, of x l] show ?thesis by (auto simp: slot_ok_def)
  qed (use slots [OF q] in blast)
next
  have old: "occupancies_unique S" by (rule tables_okD(4) [OF inv])
  show "occupancies_unique (S(sid \<mapsto> s'))"
    unfolding occupancies_unique_def
  proof (intro allI impI)
    fix a t b u
    assume *: "(S(sid \<mapsto> s')) a = Some t \<and> (S(sid \<mapsto> s')) b = Some u \<and> ls_slot_id t \<noteq> None \<and>
      ls_slot_id t = ls_slot_id u \<and> ls_slot_generation t = ls_slot_generation u"
    show "a = b"
    proof (cases "a = sid"; cases "b = sid")
      assume ab: "a = sid" "b \<noteq> sid"
      with * have "t = s'" "S b = Some u" by auto
      with uniq [OF ab(2) this(2)] * show ?thesis by metis
    next
      assume ab: "a \<noteq> sid" "b = sid"
      with * have "u = s'" "S a = Some t" by auto
      with uniq [OF ab(1) this(2)] * show ?thesis by metis
    next
      assume "a \<noteq> sid" "b \<noteq> sid"
      with * have "S a = Some t" "S b = Some u" by auto
      with * old show ?thesis unfolding occupancies_unique_def by blast
    qed simp
  qed
qed

section \<open>Moves of the lifecycle\<close>

definition keeps_slot :: "lab_session \<Rightarrow> lab_session \<Rightarrow> bool" where
  "keeps_slot s s' \<longleftrightarrow>
     ls_session_id s' = ls_session_id s \<and> ls_tenant_id s' = ls_tenant_id s \<and>
     ls_slot_id s' = ls_slot_id s \<and> ls_slot_generation s' = ls_slot_generation s \<and>
     ls_generation s \<le> ls_generation s'"

lemma settled_op_ok:
  assumes "op_ok S o'" "S sid = Some s" "keeps_slot s s'"
    "lo_session_id o' = sid \<Longrightarrow> lo_status o' \<noteq> OsPending"
  shows "op_ok (S(sid \<mapsto> s')) o'"
  using assms by (auto simp: op_ok_def keeps_slot_def)

lemma kept_slot_ok:
  assumes "slot_ok S l" "S sid = Some s" "keeps_slot s s'"
    "may_hold_resources (ls_state s) \<Longrightarrow> may_hold_resources (ls_state s')"
  shows "slot_ok (S(sid \<mapsto> s')) l"
  using assms by (auto simp: slot_ok_def keeps_slot_def)

lemma kept_session_slot:
  assumes "session_slot_ok L s" "keeps_slot s s'"
    "may_hold_resources (ls_state s') \<Longrightarrow> may_hold_resources (ls_state s)"
  shows "session_slot_ok L s'"
  using assms unfolding session_slot_ok_def keeps_slot_def by metis

lemma no_pending:
  assumes "tables_ok S Q L" "S sid = Some s" "Q key = Some o'" "lo_session_id o' = sid"
    "state_op (ls_state s) = None"
  shows "lo_status o' \<noteq> OsPending"
  using tables_okD(2) [OF assms(1, 3)] assms(2, 4, 5) by (auto simp: op_ok_def)

lemma pending_unique:
  assumes "tables_ok S Q L" "Q key = Some o'" "Q key' = Some o''" "lo_session_id o' = lo_session_id o''"
    "lo_status o' = OsPending" "lo_status o'' = OsPending"
  shows "key = key'"
  using tables_okD(2) [OF assms(1, 2)] tables_okD(2) [OF assms(1, 3)] assms(4-6)
  by (auto simp: op_ok_def)

lemma uniq_kept:
  assumes "tables_ok S Q L" "S sid = Some s" "keeps_slot s s'" "sid' \<noteq> sid" "S sid' = Some t"
    "ls_slot_id s' \<noteq> None" "ls_slot_id t = ls_slot_id s'"
  shows "ls_slot_generation t \<noteq> ls_slot_generation s'"
  using tables_okD(4) [OF assms(1)] assms(2-) unfolding occupancies_unique_def keeps_slot_def
  by metis

lemma move_plain:
  assumes inv: "tables_ok S Q L" and s: "S sid = Some s" and k: "keeps_slot s s'"
    and rows: "session_row_ok s'" "session_extra_ok s'"
    and ops: "state_op (ls_state s) = None" "state_op (ls_state s') = None"
    and hold: "may_hold_resources (ls_state s') \<longleftrightarrow> may_hold_resources (ls_state s)"
  shows "tables_ok (S(sid \<mapsto> s')) Q L"
proof (rule tables_ok_move [OF inv s _ rows])
  note T = tables_okD(1) [OF inv s]
  show "ls_session_id s' = sid" using T k by (simp add: keeps_slot_def)
  show "session_slot_ok L s'" using T k hold kept_session_slot by blast
  show "session_op_ok Q s'" using ops by (simp add: session_op_ok_def)
  show "lo_op_key o' = key \<and> (if lo_session_id o' = sid then op_ok (S(sid \<mapsto> s')) o' else Q key = Some o')"
    if "Q key = Some o'" for key o'
    using that tables_okD(2) [OF inv that] no_pending [OF inv s that _ ops(1)]
      settled_op_ok [of S o' sid s s', OF _ s k] by auto
  show "sl_slot_id l = x \<and> (L x = Some l \<and> sl_occupant l \<noteq> Some sid \<or> slot_ok (S(sid \<mapsto> s')) l)"
    if "L x = Some l" for x l
    using tables_okD(3) [OF inv that] kept_slot_ok [of S l sid s s', OF _ s k] hold by blast
  show "ls_slot_generation t \<noteq> ls_slot_generation s'"
    if "sid' \<noteq> sid" "S sid' = Some t" "ls_slot_id s' \<noteq> None" "ls_slot_id t = ls_slot_id s'" for sid' t
    by (rule uniq_kept [OF inv s k that])
qed auto

definition finished :: "lab_operation \<Rightarrow> lab_operation \<Rightarrow> bool" where
  "finished o' o'' \<longleftrightarrow>
     op_update_ok o' o'' \<and> lo_status o'' \<noteq> OsPending \<and> op_row_ok o''"

lemma move_finish:
  assumes inv: "tables_ok S Q L" and s: "S sid = Some s" and k: "keeps_slot s s'"
    and rows: "session_row_ok s'" "session_extra_ok s'"
    and o': "Q key = Some o'" "lo_session_id o' = sid" "finished o' o''"
    and ops: "state_op (ls_state s') = None"
    and L': "L' = L \<and> may_hold_resources (ls_state s') \<and> may_hold_resources (ls_state s) \<or>
       \<not> may_hold_resources (ls_state s') \<and> (\<exists>x l. L x = Some l \<and> sl_occupant l = Some sid \<and>
         L' = L(x \<mapsto> l\<lparr>sl_occupant := None, sl_occupied_at := None, sl_updated_at := now\<rparr>))"
  shows "tables_ok (S(sid \<mapsto> s')) (Q(key \<mapsto> o'')) L'"
proof (rule tables_ok_move [OF inv s _ rows])
  note T = tables_okD(1) [OF inv s]
  show id: "ls_session_id s' = sid" using T k by (simp add: keeps_slot_def)
  have keep: "\<exists>l'. L' x = Some l' \<and> sl_generation l' = sl_generation l \<and> sl_tenant_id l' = sl_tenant_id l \<and>
      (sl_occupant l = None \<or> sl_occupant l = Some sid \<or> l' = l) \<and>
      (may_hold_resources (ls_state s') \<longrightarrow> l' = l)" if "L x = Some l" for x l
    using L' that by auto
  then show "\<exists>l'. L' x = Some l' \<and> sl_generation l \<le> sl_generation l' \<and>
        sl_tenant_id l' = sl_tenant_id l \<and> (sl_occupant l = None \<or> sl_occupant l = Some sid \<or> l' = l)"
    if "L x = Some l" for x l using that by fastforce
  have "session_slot_ok L s'"
    using T k L' kept_session_slot by blast
  then show "session_slot_ok L' s'"
    unfolding session_slot_ok_def using keep by metis
  show "session_op_ok (Q(key \<mapsto> o'')) s'" using ops by (simp add: session_op_ok_def)
  have pending: "lo_status o' = OsPending" using o'(3) by (simp add: finished_def op_update_ok_def)
  note O' = tables_okD(2) [OF inv o'(1)]
  have new_ok: "op_ok (S(sid \<mapsto> s')) o''"
  proof -
    have "op_ok (S(sid \<mapsto> s')) (o''\<lparr>lo_status := lo_status o''\<rparr>)"
      using O' o' s k
      by (auto simp: op_ok_def finished_def op_update_ok_def keeps_slot_def)
    then show ?thesis by simp
  qed
  show "lo_op_key q = key' \<and> (if lo_session_id q = sid then op_ok (S(sid \<mapsto> s')) q else Q key' = Some q)"
    if q: "(Q(key \<mapsto> o'')) key' = Some q" for key' q
  proof (cases "key' = key")
    case True
    with q o' O' new_ok show ?thesis by (auto simp: finished_def op_update_ok_def)
  next
    case False
    with q have Q: "Q key' = Some q" by simp
    have "lo_status q \<noteq> OsPending" if "lo_session_id q = sid"
      using pending_unique [OF inv Q o'(1)] that o'(2) pending False by auto
    with tables_okD(2) [OF inv Q] settled_op_ok [of S q sid s s', OF _ s k] Q show ?thesis by auto
  qed
  show "(Q(key \<mapsto> o'')) key' = Some q" if "Q key' = Some q" "lo_session_id q \<noteq> sid" for key' q
    using that o' by auto
  show "sl_slot_id l = x \<and> (L x = Some l \<and> sl_occupant l \<noteq> Some sid \<or> slot_ok (S(sid \<mapsto> s')) l)"
    if l: "L' x = Some l" for x l
    using L'
  proof (elim disjE conjE exE)
    assume "L' = L" "may_hold_resources (ls_state s')"
    with l tables_okD(3) [OF inv, of x l] kept_slot_ok [of S l sid s s', OF _ s k] show ?thesis by blast
  next
    fix y m
    assume h: "\<not> may_hold_resources (ls_state s')" and m: "L y = Some m" "sl_occupant m = Some sid"
      "L' = L(y \<mapsto> m\<lparr>sl_occupant := None, sl_occupied_at := None, sl_updated_at := now\<rparr>)"
    show ?thesis
    proof (cases "x = y")
      case True
      with l m tables_okD(3) [OF inv m(1)] show ?thesis
        by (auto simp: slot_ok_def slot_row_ok_def)
    next
      case False
      with l m have Lx: "L x = Some l" by simp
      have "sl_occupant l \<noteq> Some sid"
        using tables_okD(3) [OF inv Lx] tables_okD(3) [OF inv m(1)] m(2) s False
        by (auto simp: slot_ok_def)
      with Lx tables_okD(3) [OF inv Lx] show ?thesis by simp
    qed
  qed
  show "ls_slot_generation t \<noteq> ls_slot_generation s'"
    if "sid' \<noteq> sid" "S sid' = Some t" "ls_slot_id s' \<noteq> None" "ls_slot_id t = ls_slot_id s'" for sid' t
    by (rule uniq_kept [OF inv s k that])
qed

lemma key_fresh:
  assumes "tables_ok S Q L" "S sid = Some s" "ls_generation s < g"
  shows "Q (campus_operation_key sid kind g) = None"
proof (rule ccontr)
  assume "Q (campus_operation_key sid kind g) \<noteq> None"
  then obtain o' where o': "Q (campus_operation_key sid kind g) = Some o'" by auto
  from op_session_of_key [OF assms(1) o'] tables_okD(2) [OF assms(1) o'] assms(2, 3)
  show False by (auto simp: op_ok_def)
qed

text \<open>Beginning an operation, in the slot the session holds or in a free one it takes.\<close>

definition holds_on :: "slots_map \<Rightarrow> slots_map \<Rightarrow> lab_session \<Rightarrow> lab_session \<Rightarrow> bool" where
  "holds_on L L' s s' \<longleftrightarrow> L' = L \<and> keeps_slot s s' \<and> may_hold_resources (ls_state s)"

definition takes_slot :: "slots_map \<Rightarrow> slots_map \<Rightarrow> lab_session \<Rightarrow> lab_session \<Rightarrow> bool" where
  "takes_slot L L' s s' \<longleftrightarrow>
     ls_slot_id s = None \<and> ls_session_id s' = ls_session_id s \<and> ls_tenant_id s' = ls_tenant_id s \<and>
     (\<exists>x l now. L x = Some l \<and> sl_occupant l = None \<and> sl_tenant_id l = ls_tenant_id s \<and>
        ls_slot_id s' = Some x \<and> ls_slot_generation s' = Some (sl_generation l + 1) \<and>
        L' = L(x \<mapsto> l\<lparr>sl_occupant := Some (ls_session_id s), sl_generation := sl_generation l + 1,
                     sl_occupied_at := Some now, sl_updated_at := now\<rparr>))"

lemma move_begin:
  assumes inv: "tables_ok S Q L" and s: "S sid = Some s"
    and g: "ls_generation s < ls_generation s'" and idle: "state_op (ls_state s) = None"
    and rows: "session_row_ok s'" "session_extra_ok s'"
    and kind: "state_op (ls_state s') = Some kind"
    and slot: "holds_on L L' s s' \<or> takes_slot L L' s s'"
    and new: "lo_op_key q = campus_operation_key sid kind (ls_generation s')" "lo_session_id q = sid"
      "lo_kind q = kind" "lo_session_generation q = ls_generation s'"
      "Some (lo_slot_id q) = ls_slot_id s'" "Some (lo_slot_generation q) = ls_slot_generation s'"
      "lo_status q = OsPending" "op_row_ok q"
  shows "tables_ok (S(sid \<mapsto> s')) (Q(lo_op_key q \<mapsto> q)) L' \<and> Q (lo_op_key q) = None"
proof
  note T = tables_okD(1) [OF inv s]
  have fresh: "Q (lo_op_key q) = None"
    using key_fresh [OF inv s] g new(1) by simp
  then show "Q (lo_op_key q) = None" .
  have hold': "may_hold_resources (ls_state s')"
    using kind by (auto simp: state_op_def may_hold_resources_def split: if_splits)
  have id: "ls_session_id s' = sid"
    using slot T by (auto simp: holds_on_def takes_slot_def keeps_slot_def)
  have new_ok: "op_ok (S(sid \<mapsto> s')) q"
    using new kind by (auto simp: op_ok_def)
  show "tables_ok (S(sid \<mapsto> s')) (Q(lo_op_key q \<mapsto> q)) L'"
  proof (rule tables_ok_move [OF inv s id rows])
    show "session_op_ok (Q(lo_op_key q \<mapsto> q)) s'"
      using kind new id by (auto simp: session_op_ok_def)
    show "(Q(lo_op_key q \<mapsto> q)) key' = Some r" if "Q key' = Some r" "lo_session_id r \<noteq> sid" for key' r
      using that fresh by auto
    show "session_slot_ok L' s'"
      using slot
    proof
      assume h: "holds_on L L' s s'"
      with T show ?thesis using kept_session_slot by (auto simp: holds_on_def)
    next
      assume "takes_slot L L' s s'"
      with id hold' T show ?thesis by (auto simp: takes_slot_def session_slot_ok_def)
    qed
    show "lo_op_key r = key' \<and> (if lo_session_id r = sid then op_ok (S(sid \<mapsto> s')) r else Q key' = Some r)"
      if r: "(Q(lo_op_key q \<mapsto> q)) key' = Some r" for key' r
    proof (cases "key' = lo_op_key q")
      case True
      with r new new_ok show ?thesis by auto
    next
      case False
      with r have Q: "Q key' = Some r" by simp
      note R = tables_okD(2) [OF inv Q]
      show ?thesis
      proof (cases "lo_session_id r = sid")
        case True
        then have "ls_slot_id s \<noteq> None" using R s by (auto simp: op_ok_def)
        with slot have "keeps_slot s s'" by (auto simp: holds_on_def takes_slot_def)
        with settled_op_ok [of S r sid s s'] no_pending [OF inv s Q True idle] R s True
        show ?thesis by auto
      qed (use Q R in simp)
    qed
    show "sl_slot_id l = x \<and> (L x = Some l \<and> sl_occupant l \<noteq> Some sid \<or> slot_ok (S(sid \<mapsto> s')) l)"
      if l: "L' x = Some l" for x l
      using slot
    proof
      assume "holds_on L L' s s'"
      with l tables_okD(3) [OF inv, of x l] kept_slot_ok [of S l sid s s'] s hold'
      show ?thesis by (auto simp: holds_on_def)
    next
      assume "takes_slot L L' s s'"
      then obtain y m now where m: "ls_slot_id s = None" "L y = Some m" "sl_occupant m = None"
        "ls_slot_id s' = Some y" "ls_slot_generation s' = Some (sl_generation m + 1)"
        "L' = L(y \<mapsto> m\<lparr>sl_occupant := Some (ls_session_id s), sl_generation := sl_generation m + 1,
                     sl_occupied_at := Some now, sl_updated_at := now\<rparr>)"
        by (auto simp: takes_slot_def)
      show ?thesis
      proof (cases "x = y")
        case True
        with l m T id hold' tables_okD(3) [OF inv m(2)] show ?thesis
          by (auto simp: slot_ok_def slot_row_ok_def)
      next
        case False
        with l m have Lx: "L x = Some l" by simp
        with tables_okD(3) [OF inv Lx] s m(1) show ?thesis by (auto simp: slot_ok_def)
      qed
    qed
    show "\<exists>l'. L' x = Some l' \<and> sl_generation l \<le> sl_generation l' \<and>
        sl_tenant_id l' = sl_tenant_id l \<and> (sl_occupant l = None \<or> sl_occupant l = Some sid \<or> l' = l)"
      if "L x = Some l" for x l
      using slot that by (auto simp: holds_on_def takes_slot_def)
    show "ls_slot_generation t \<noteq> ls_slot_generation s'"
      if t: "sid' \<noteq> sid" "S sid' = Some t" "ls_slot_id s' \<noteq> None" "ls_slot_id t = ls_slot_id s'" for sid' t
      using slot
    proof
      assume "holds_on L L' s s'"
      then show ?thesis using uniq_kept [OF inv s _ t] by (simp add: holds_on_def)
    next
      assume "takes_slot L L' s s'"
      then obtain y m where m: "L y = Some m" "ls_slot_id s' = Some y"
        "ls_slot_generation s' = Some (sl_generation m + 1)" by (auto simp: takes_slot_def)
      with tables_okD(1) [OF inv t(2)] t(4) show ?thesis
        by (auto simp: session_slot_ok_def)
    qed
  qed
qed

section \<open>The parts of a transition\<close>

lemma journal_invD:
  assumes "journal_inv j"
  shows "keys_ok j" "tables_ok (load_session j) (load_operation j) (load_slot j)"
  using assms by (simp_all add: journal_inv_def)

lemma keys_okD:
  assumes "keys_ok j"
  shows "distinct (map ls_session_id (jn_sessions j))" "distinct (map lo_op_key (jn_ops j))"
    "distinct (map sl_slot_id (jn_slots j))"
  using assms by (simp_all add: keys_ok_def)

lemma update_operation:
  assumes "keys_ok j" "load_operation j key = Some o'" "P o'" "\<And>o'. lo_op_key (f o') = lo_op_key o'"
    "\<And>o'. P o' \<Longrightarrow> lo_op_key o' = key"
  shows "load_operation (j\<lparr>jn_ops := update_where P f (jn_ops j)\<rparr>) = (load_operation j)(key \<mapsto> f o')"
    "keys_ok (j\<lparr>jn_ops := update_where P f (jn_ops j)\<rparr>)"
proof -
  have k: "lo_op_key o' = key" using assms(2) by (auto simp: load_operation_lookup dest: lookup_SomeD)
  show "load_operation (j\<lparr>jn_ops := update_where P f (jn_ops j)\<rparr>) = (load_operation j)(key \<mapsto> f o')"
    using lookup_update [OF keys_okD(2) [OF assms(1)], of o' P f] assms k
    by (auto simp: load_operation_lookup)
  show "keys_ok (j\<lparr>jn_ops := update_where P f (jn_ops j)\<rparr>)"
    using assms(1, 4) by (simp add: keys_ok_def keys_update)
qed

lemma update_slot:
  assumes "keys_ok j" "load_slot j x = Some l" "P l" "\<And>l. sl_slot_id (f l) = sl_slot_id l"
    "\<And>l. P l \<Longrightarrow> sl_slot_id l = x"
  shows "load_slot (j\<lparr>jn_slots := update_where P f (jn_slots j)\<rparr>) = (load_slot j)(x \<mapsto> f l)"
    "keys_ok (j\<lparr>jn_slots := update_where P f (jn_slots j)\<rparr>)"
proof -
  have k: "sl_slot_id l = x" using assms(2) by (auto simp: load_slot_lookup dest: lookup_SomeD)
  show "load_slot (j\<lparr>jn_slots := update_where P f (jn_slots j)\<rparr>) = (load_slot j)(x \<mapsto> f l)"
    using lookup_update [OF keys_okD(3) [OF assms(1)], of l P f] assms k
    by (auto simp: load_slot_lookup)
  show "keys_ok (j\<lparr>jn_slots := update_where P f (jn_slots j)\<rparr>)"
    using assms(1, 4) by (simp add: keys_ok_def keys_update)
qed

lemma load_other [simp]:
  "load_session (j\<lparr>jn_ops := a\<rparr>) = load_session j" "load_slot (j\<lparr>jn_ops := a\<rparr>) = load_slot j"
  "load_session (j\<lparr>jn_slots := b\<rparr>) = load_session j"
  "load_operation (j\<lparr>jn_slots := b\<rparr>) = load_operation j"
  "load_operation (j\<lparr>jn_sessions := c\<rparr>) = load_operation j"
  "load_slot (j\<lparr>jn_sessions := c\<rparr>) = load_slot j"
  "load_session (j\<lparr>jn_events := d\<rparr>) = load_session j" "load_slot (j\<lparr>jn_events := d\<rparr>) = load_slot j"
  "load_operation (j\<lparr>jn_events := d\<rparr>) = load_operation j"
  "load_session (j\<lparr>jn_hook_runs := h\<rparr>) = load_session j"
  "load_slot (j\<lparr>jn_hook_runs := h\<rparr>) = load_slot j"
  "load_operation (j\<lparr>jn_hook_runs := h\<rparr>) = load_operation j"
  "load_session (j\<lparr>jn_holds := i\<rparr>) = load_session j" "load_slot (j\<lparr>jn_holds := i\<rparr>) = load_slot j"
  "load_operation (j\<lparr>jn_holds := i\<rparr>) = load_operation j"
  by (simp_all add: fun_eq_iff load_session_def load_operation_def load_slot_def)

lemma keys_ok_other [simp]:
  "keys_ok (j\<lparr>jn_events := d\<rparr>) \<longleftrightarrow> keys_ok j" "keys_ok (j\<lparr>jn_hook_runs := h\<rparr>) \<longleftrightarrow> keys_ok j"
  "keys_ok (j\<lparr>jn_holds := i\<rparr>) \<longleftrightarrow> keys_ok j"
  by (simp_all add: keys_ok_def)

definition ends_operation :: "journal \<Rightarrow> journal \<Rightarrow> lab_session \<Rightarrow> string \<Rightarrow> bool" where
  "ends_operation j j' s key \<longleftrightarrow>
     (\<exists>o' o'' ops. load_operation j key = Some o' \<and> lo_session_id o' = ls_session_id s \<and>
        finished o' o'' \<and> j' = j\<lparr>jn_ops := ops\<rparr> \<and> keys_ok j' \<and>
        load_operation j' = (load_operation j)(key \<mapsto> o''))"

lemma ends_operationI:
  assumes "keys_ok j" "load_operation j key = Some o'" "lo_session_id o' = ls_session_id s"
    "pending_at key fence o'" "finished o' (f o')" "\<And>q. lo_op_key (f q) = lo_op_key q"
  shows "ends_operation j (j\<lparr>jn_ops := update_where (pending_at key fence) f (jn_ops j)\<rparr>) s key"
proof -
  have P: "lo_op_key q = key" if "pending_at key fence q" for q
    using that by (simp add: pending_at_def)
  note U = update_operation [of j key o' "pending_at key fence" f, OF assms(1, 2, 4, 6) P]
  show ?thesis unfolding ends_operation_def
    by (intro exI [of _ o'] exI [of _ "f o'"] exI [of _ "update_where (pending_at key fence) f (jn_ops j)"]
        conjI assms U refl)
qed

lemma ensure_slot_occupant_ok:
  "ensure_slot_occupant j s = Inr () \<longleftrightarrow>
     (\<exists>x g l. ls_slot_id s = Some x \<and> ls_slot_generation s = Some g \<and> load_slot j x = Some l \<and>
        sl_occupant l = Some (ls_session_id s) \<and> sl_generation l = g)"
  by (auto simp: ensure_slot_occupant_def res_simps split: option.splits)

lemma finish_op_finished:
  assumes "op_row_ok o'" "lo_status o' = OsPending" "status \<noteq> OsPending"
  shows "finished o' (finish_op status error now o')"
    "finished o' ((finish_op status error now o')\<lparr>lo_result := r\<rparr>)"
  using assms by (auto simp: finished_def finish_op_def op_update_ok_def op_row_ok_def)

lemma complete_operation_ok:
  assumes "complete_operation j s c = Inr (j', key)"
  shows "\<exists>lease o'. cmp_lease c = Some lease \<and> key = ol_op_key lease \<and> load_operation j key = Some o' \<and>
     lo_session_id o' = ls_session_id s \<and> lo_kind o' = cmp_kind c \<and>
     lo_session_generation o' = ls_generation s \<and> ls_slot_id s = Some (lo_slot_id o') \<and>
     ls_slot_generation s = Some (lo_slot_generation o') \<and> lo_status o' = OsPending \<and>
     lo_lease_owner o' = Some (ol_owner lease) \<and> lo_lease_fence o' = ol_fence lease \<and>
     (\<exists>expires. lo_lease_expires_at o' = Some expires \<and> cmp_now c < expires) \<and>
     ensure_slot_occupant j s = Inr () \<and>
     j' = j\<lparr>jn_ops := update_where (pending_at (ol_op_key lease) (ol_fence lease))
        (\<lambda>o'. (finish_op (cmp_status c) (cmp_error c) (cmp_now c) o')\<lparr>lo_result := cmp_result c\<rparr>) (jn_ops j)\<rparr>"
proof -
  obtain lease where l: "cmp_lease c = Some lease"
    using assms by (auto simp: complete_operation_def)
  obtain o' where o': "load_operation j (ol_op_key lease) = Some o'"
    using assms l by (cases "load_operation j (ol_op_key lease)") (auto simp: complete_operation_def)
  have "lo_op_key o' = ol_op_key lease"
    using o' by (auto simp: load_operation_lookup dest: lookup_SomeD)
  with assms l o' show ?thesis
    by (auto simp: complete_operation_def res_simps split: option.splits)
qed

lemma complete_ends_operation:
  assumes "complete_operation j s c = Inr (j', key)" "journal_inv j" "cmp_status c \<noteq> OsPending"
  shows "ends_operation j j' s key"
proof -
  obtain lease :: op_lease and o' where c: "key = ol_op_key lease" "load_operation j key = Some o'"
    "lo_session_id o' = ls_session_id s" "lo_status o' = OsPending"
    "lo_lease_fence o' = ol_fence lease"
    "j' = j\<lparr>jn_ops := update_where (pending_at (ol_op_key lease) (ol_fence lease))
        (\<lambda>o'. (finish_op (cmp_status c) (cmp_error c) (cmp_now c) o')\<lparr>lo_result := cmp_result c\<rparr>) (jn_ops j)\<rparr>"
    using complete_operation_ok [OF assms(1)] by blast
  note O' = tables_okD(2) [OF journal_invD(2) [OF assms(2)] c(2)]
  have "finished o' ((finish_op (cmp_status c) (cmp_error c) (cmp_now c) o')\<lparr>lo_result := cmp_result c\<rparr>)"
    using O' c(4) assms(3) by (intro finish_op_finished) (auto simp: op_ok_def)
  then show ?thesis
    unfolding c(6) c(1) using c O' journal_invD(1) [OF assms(2)]
    by (intro ends_operationI) (auto simp: pending_at_def finish_op_def)
qed

lemma pending_operation_ok:
  "pending_operation j sid = Some o' \<Longrightarrow>
     o' \<in> set (jn_ops j) \<and> lo_session_id o' = sid \<and> lo_status o' = OsPending"
  by (auto simp: pending_operation_def dest: find_SomeD)

lemma abandon_ends_operation:
  assumes "abandon_provision j s error now = Inr (j', key)" "journal_inv j"
  shows "ends_operation j j' s key"
proof -
  obtain o' where o': "pending_operation j (ls_session_id s) = Some o'" "key = lo_op_key o'"
    "j' = j\<lparr>jn_ops := update_where (pending_at (lo_op_key o') (lo_lease_fence o'))
        (finish_op OsAbandoned error now) (jn_ops j)\<rparr>"
    using assms(1) by (auto simp: abandon_provision_def res_simps split: option.splits if_splits)
  note P = pending_operation_ok [OF o'(1)]
  have l: "load_operation j key = Some o'"
    using P o'(2) keys_okD(2) [OF journal_invD(1) [OF assms(2)]]
    by (simp add: load_operation_lookup lookup_Some)
  have "finished o' (finish_op OsAbandoned error now o')"
    using tables_okD(2) [OF journal_invD(2) [OF assms(2)] l] P
    by (intro finish_op_finished) (auto simp: op_ok_def)
  then show ?thesis
    unfolding o'(3) o'(2) using o'(2) l P journal_invD(1) [OF assms(2)]
    by (intro ends_operationI) (auto simp: pending_at_def finish_op_def)
qed

lemma release_slot_ok:
  assumes "release_slot j s now = Inr j'" "keys_ok j"
  shows "\<exists>x l slots. load_slot j x = Some l \<and> sl_occupant l = Some (ls_session_id s) \<and>
     ls_slot_id s = Some x \<and> ls_slot_generation s = Some (sl_generation l) \<and>
     j' = j\<lparr>jn_slots := slots\<rparr> \<and> keys_ok j' \<and>
     load_slot j' = (load_slot j)(x \<mapsto> l\<lparr>sl_occupant := None, sl_occupied_at := None, sl_updated_at := now\<rparr>)"
proof -
  let ?P = "\<lambda>slot. Some (sl_slot_id slot) = ls_slot_id s \<and>
            sl_occupant slot = Some (ls_session_id s) \<and>
            Some (sl_generation slot) = ls_slot_generation s"
  let ?f = "\<lambda>slot. slot\<lparr>sl_occupant := None, sl_occupied_at := None, sl_updated_at := now\<rparr>"
  have c: "rows_affected ?P (jn_slots j) = 1" and j': "j' = j\<lparr>jn_slots := update_where ?P ?f (jn_slots j)\<rparr>"
    using assms(1) by (auto simp: release_slot_def Let_def split: if_splits)
  then have "filter ?P (jn_slots j) \<noteq> []" by (auto simp: rows_affected_def)
  then obtain l where "l \<in> set (filter ?P (jn_slots j))" using last_in_set by blast
  then have l: "l \<in> set (jn_slots j)" "?P l" by simp_all
  then have load: "load_slot j (sl_slot_id l) = Some l"
    using keys_okD(3) [OF assms(2)] by (simp add: load_slot_lookup lookup_Some)
  have keys: "\<And>l'. ?P l' \<Longrightarrow> sl_slot_id l' = sl_slot_id l"
    using l(2) by (metis option.inject)
  have same: "\<And>l. sl_slot_id (?f l) = sl_slot_id l" by simp
  note U = update_slot [of j "sl_slot_id l" l ?P ?f, OF assms(2) load l(2) same keys]
  show ?thesis unfolding j'
    by (intro exI [of _ "sl_slot_id l"] exI [of _ l] exI [of _ "update_where ?P ?f (jn_slots j)"] conjI
        load U refl l(2) [THEN conjunct2, THEN conjunct1] l(2) [THEN conjunct1, symmetric]
        l(2) [THEN conjunct2, THEN conjunct2, symmetric]) blast+
qed

lemma free_slot_ids_set:
  "x \<in> set (free_slot_ids j tenant) \<longleftrightarrow>
     (\<exists>l\<in>set (jn_slots j). sl_slot_id l = x \<and> sl_tenant_id l = tenant \<and> sl_occupant l = None \<and>
        \<not> slot_held j x)"
  by (auto simp: free_slot_ids_def)

lemma take_slot_ok:
  assumes "take_slot j s now = Inr (j', x, g)" "keys_ok j"
  shows "\<exists>l slots. load_slot j x = Some l \<and> sl_occupant l = None \<and> sl_tenant_id l = ls_tenant_id s \<and>
     \<not> slot_held j x \<and> g = sl_generation l + 1 \<and> j' = j\<lparr>jn_slots := slots\<rparr> \<and> keys_ok j' \<and>
     load_slot j' = (load_slot j)(x \<mapsto> l\<lparr>sl_occupant := Some (ls_session_id s),
        sl_generation := sl_generation l + 1, sl_occupied_at := Some now, sl_updated_at := now\<rparr>)"
proof -
  let ?f = "\<lambda>slot. slot\<lparr>sl_occupant := Some (ls_session_id s),
                         sl_generation := sl_generation slot + 1, sl_occupied_at := Some now,
                         sl_updated_at := now\<rparr>"
  let ?j = "j\<lparr>jn_slots := update_where (\<lambda>slot. sl_slot_id slot = x) ?f (jn_slots j)\<rparr>"
  obtain l' rest where t: "free_slot_ids j (ls_tenant_id s) = x # rest" "j' = ?j"
    "load_slot ?j x = Some l'" "g = sl_generation l'"
    using assms(1) by (auto simp: take_slot_def Let_def split: list.splits)
  then have "x \<in> set (free_slot_ids j (ls_tenant_id s))" by simp
  then obtain l where l: "l \<in> set (jn_slots j)" "sl_slot_id l = x" "sl_tenant_id l = ls_tenant_id s"
    "sl_occupant l = None" "\<not> slot_held j x" by (auto simp: free_slot_ids_set)
  then have load: "load_slot j x = Some l"
    using keys_okD(3) [OF assms(2)] by (auto simp: load_slot_lookup lookup_Some)
  have same: "\<And>l. sl_slot_id (?f l) = sl_slot_id l" by simp
  note U = update_slot [of j x l "\<lambda>slot. sl_slot_id slot = x" ?f, OF assms(2) load l(2) same]
  from U(1) t(3) have "l' = ?f l" by simp
  with t(4) have g: "g = sl_generation l + 1" by simp
  show ?thesis unfolding t(2)
    by (intro exI [of _ l] exI [of _ "update_where (\<lambda>slot. sl_slot_id slot = x) ?f (jn_slots j)"] conjI
        load l g U refl)
qed

section \<open>The effect of a transition\<close>

text \<open>Rows are never removed, and a changed row passes the trigger of its table.\<close>

definition rows_step :: "('r \<Rightarrow> 'r \<Rightarrow> bool) \<Rightarrow> ('k \<Rightarrow> 'r option) \<Rightarrow> ('k \<Rightarrow> 'r option) \<Rightarrow> bool" where
  "rows_step ok M M' \<longleftrightarrow> (\<forall>k r. M k = Some r \<longrightarrow> (\<exists>r'. M' k = Some r' \<and> (r' = r \<or> ok r r')))"

lemma rows_step_refl [simp]: "rows_step ok M M"
  by (simp add: rows_step_def)

lemma rows_step_upd: "M k = Some r \<Longrightarrow> ok r r' \<Longrightarrow> rows_step ok M (M(k \<mapsto> r'))"
  by (simp add: rows_step_def)

lemma rows_step_new: "M k = None \<Longrightarrow> rows_step ok M (M(k \<mapsto> r'))"
  by (simp add: rows_step_def)

definition effect_ok :: "journal \<Rightarrow> lab_transition \<Rightarrow> lab_session \<Rightarrow> effect \<Rightarrow> bool" where
  "effect_ok j t s e \<longleftrightarrow>
     (let next = write_session s t e; Q' = load_operation (ef_journal e); L' = load_slot (ef_journal e) in
      (\<exists>ops slots. ef_journal e = j\<lparr>jn_ops := ops, jn_slots := slots\<rparr>) \<and> keys_ok (ef_journal e) \<and>
      session_update_ok s next \<and> session_row_ok next \<and> session_extra_ok next \<and>
      rows_step op_update_ok (load_operation j) Q' \<and> rows_step slot_update_ok (load_slot j) L' \<and>
      (case ef_begins e of
         None \<Rightarrow> tables_ok ((load_session j)(ls_session_id s \<mapsto> next)) Q' L'
       | Some kind \<Rightarrow> Q' = load_operation j \<and> state_op (ls_state s) = None \<and>
           state_op (lt_to t) = Some kind \<and>
           (holds_on (load_slot j) L' s next \<or> takes_slot (load_slot j) L' s next)))"

lemmas row_simps = session_row_ok_def session_extra_ok_def session_update_ok_def write_session_def
  plain_effect_def never_launched_def may_hold_resources_def is_terminal_def state_op_def
  keeps_slot_def revoke_def

lemma effect_plain:
  assumes "journal_inv j" "load_session j sid = Some s" "ls_state s = lt_from t"
    "ef_journal e = j" "ef_begins e = None" "state_op (lt_from t) = None" "state_op (lt_to t) = None"
    "may_hold_resources (lt_to t) \<longleftrightarrow> may_hold_resources (lt_from t)"
    "session_update_ok s (write_session s t e)" "session_row_ok (write_session s t e)"
    "session_extra_ok (write_session s t e)" "keeps_slot s (write_session s t e)"
  shows "effect_ok j t s e"
proof -
  have inv: "tables_ok (load_session j) (load_operation j) (load_slot j)"
    using assms(1) by (simp add: journal_inv_def)
  have id: "ls_session_id s = sid" using tables_okD(1) [OF inv assms(2)] by simp
  have "ls_state (write_session s t e) = lt_to t" by (simp add: write_session_def)
  with move_plain [OF inv assms(2, 12, 10, 11)] assms
  have "tables_ok ((load_session j)(sid \<mapsto> write_session s t e)) (load_operation j) (load_slot j)" by simp
  moreover have "\<exists>ops slots. j = j\<lparr>jn_ops := ops, jn_slots := slots\<rparr>"
    by (intro exI [of _ "jn_ops j"] exI [of _ "jn_slots j"]) simp
  ultimately show ?thesis
    using assms(1, 4, 5, 9-11) id by (simp add: effect_ok_def Let_def journal_inv_def)
qed

lemma effect_finish:
  assumes "journal_inv j" "load_session j sid = Some s" "ls_state s = lt_from t"
    "ends_operation j j1 s key" "ef_journal e = j2" "ef_begins e = None"
    "state_op (lt_to t) = None"
    "j2 = j1 \<and> may_hold_resources (lt_to t) \<and> may_hold_resources (lt_from t) \<or>
     \<not> may_hold_resources (lt_to t) \<and> release_slot j1 s now = Inr j2"
    "session_update_ok s (write_session s t e)" "session_row_ok (write_session s t e)"
    "session_extra_ok (write_session s t e)" "keeps_slot s (write_session s t e)"
  shows "effect_ok j t s e"
proof -
  have inv: "tables_ok (load_session j) (load_operation j) (load_slot j)"
    using assms(1) by (simp add: journal_inv_def)
  have id: "ls_session_id s = sid" using tables_okD(1) [OF inv assms(2)] by simp
  obtain o' o'' ops where E: "load_operation j key = Some o'" "lo_session_id o' = sid"
    "finished o' o''" "j1 = j\<lparr>jn_ops := ops\<rparr>" "keys_ok j1"
    "load_operation j1 = (load_operation j)(key \<mapsto> o'')"
    using assms(4) id by (auto simp: ends_operation_def)
  have st: "ls_state (write_session s t e) = lt_to t" by (simp add: write_session_def)
  have L: "load_slot j2 = load_slot j \<and> may_hold_resources (lt_to t) \<and> may_hold_resources (ls_state s) \<or>
       \<not> may_hold_resources (lt_to t) \<and> (\<exists>x l. load_slot j x = Some l \<and> sl_occupant l = Some sid \<and>
         load_slot j2 = (load_slot j)(x \<mapsto> l\<lparr>sl_occupant := None, sl_occupied_at := None, sl_updated_at := now\<rparr>))"
    and j2: "\<exists>slots. j2 = j\<lparr>jn_ops := ops, jn_slots := slots\<rparr>" and k2: "keys_ok j2"
    and q2: "load_operation j2 = load_operation j1"
  proof -
    have same: "j1 = j\<lparr>jn_ops := ops, jn_slots := jn_slots j\<rparr>" using E(4) by simp
    show "load_slot j2 = load_slot j \<and> may_hold_resources (lt_to t) \<and> may_hold_resources (ls_state s) \<or>
       \<not> may_hold_resources (lt_to t) \<and> (\<exists>x l. load_slot j x = Some l \<and> sl_occupant l = Some sid \<and>
         load_slot j2 = (load_slot j)(x \<mapsto> l\<lparr>sl_occupant := None, sl_occupied_at := None, sl_updated_at := now\<rparr>))"
      using assms(3, 8) release_slot_ok [OF _ E(5), of s now j2] E(4) id by auto
    show "\<exists>slots. j2 = j\<lparr>jn_ops := ops, jn_slots := slots\<rparr>"
    proof (cases "j2 = j1")
      case True
      with same show ?thesis by blast
    next
      case False
      then show ?thesis using assms(8) release_slot_ok [OF _ E(5), of s now j2] E(4) by auto
    qed
    show "keys_ok j2" using assms(8) release_slot_ok [OF _ E(5), of s now j2] E(5) by auto
    show "load_operation j2 = load_operation j1"
      using assms(8) release_slot_ok [OF _ E(5), of s now j2] by auto
  qed
  have "tables_ok ((load_session j)(sid \<mapsto> write_session s t e)) ((load_operation j)(key \<mapsto> o'')) (load_slot j2)"
    by (rule move_finish [OF inv assms(2, 12, 10, 11) E(1-3)]) (use st assms(7) L in auto)
  moreover have "rows_step op_update_ok (load_operation j) (load_operation j2)"
    unfolding q2 E(6) by (rule rows_step_upd, rule E(1)) (use E(3) in \<open>simp add: finished_def\<close>)
  moreover have "rows_step slot_update_ok (load_slot j) (load_slot j2)"
    using L by (auto simp: slot_update_ok_def intro!: rows_step_upd)
  ultimately show ?thesis
    using assms(5, 6, 9-11) id j2 k2 q2 E(6) by (auto simp: effect_ok_def Let_def)
qed

lemma transition_effect_ok:
  assumes inv: "journal_inv j" and s: "load_session j (lt_session_id t) = Some s"
    and st: "ls_state s = lt_from t" and e: "transition_effect j t s = Inr e"
  shows "effect_ok j t s e"
proof -
  note keys = journal_invD(1) [OF inv] and tab = journal_invD(2) [OF inv]
  have T: "session_row_ok s" "session_extra_ok s" "ls_session_id s = lt_session_id t"
    using tables_okD(1) [OF tab s] by simp_all
  note plain = effect_plain [OF inv s st] and fin = effect_finish [OF inv s st]
  note complete = complete_ends_operation [OF _ inv] and abandon = abandon_ends_operation [OF _ inv]
  show ?thesis
  proof (cases "lt_from t")
    case LsRequested
    with e have "ef_journal e = j \<and> ef_begins e = None \<and>
        (lt_to t = LsAuthorizing \<and> ef_next e = s \<or>
         lt_to t = LsTerminated \<and> ef_next e = never_launched (lt_now t) s)"
      by (auto simp: transition_effect_def Let_def plain_effect_def split: if_splits)
    with LsRequested T st show ?thesis by (intro plain) (auto simp: row_simps)
  next
    case LsAuthorizing
    show ?thesis
    proof (cases "lt_to t = LsProvisioning")
      case False
      with LsAuthorizing e have "ef_journal e = j \<and> ef_begins e = None \<and>
          (lt_to t = LsTerminated \<and> ef_next e = never_launched (lt_now t) s \<or>
           lt_to t = LsFailed \<and> (\<exists>f. ef_next e = never_launched (lt_now t) (s\<lparr>ls_failure_reason := Some f\<rparr>)))"
        by (auto simp: transition_effect_def Let_def plain_effect_def res_simps split: if_splits)
      with LsAuthorizing T st show ?thesis by (intro plain) (auto simp: row_simps)
    next
      case True
      with LsAuthorizing e obtain j' x g where a: "take_slot j s (lt_now t) = Inr (j', x, g)"
        "ef_journal e = j'" "ef_begins e = Some OpProvision"
        "ef_next e = s\<lparr>ls_slot_id := Some x, ls_slot_generation := Some g, ls_observed := ObProvisioning\<rparr>"
        by (auto simp: transition_effect_def Let_def res_simps split: if_splits)
      obtain l slots where l: "load_slot j x = Some l" "sl_occupant l = None"
        "sl_tenant_id l = ls_tenant_id s" "g = sl_generation l + 1" "j' = j\<lparr>jn_slots := slots\<rparr>" "keys_ok j'"
        "load_slot j' = (load_slot j)(x \<mapsto> l\<lparr>sl_occupant := Some (ls_session_id s),
          sl_generation := sl_generation l + 1, sl_occupied_at := Some (lt_now t), sl_updated_at := lt_now t\<rparr>)"
        using take_slot_ok [OF a(1) keys] by blast
      have g: "1 \<le> g" using tables_okD(3) [OF tab l(1)] l(4) by (auto simp: slot_ok_def slot_row_ok_def)
      have "takes_slot (load_slot j) (load_slot j') s (write_session s t e)"
        unfolding takes_slot_def using l a(4) T LsAuthorizing st
        by (auto simp: write_session_def session_extra_ok_def)
      moreover have "\<exists>ops slots. j' = j\<lparr>jn_ops := ops, jn_slots := slots\<rparr>"
        unfolding l(5) by (intro exI [of _ "jn_ops j"] exI [of _ slots]) simp
      moreover have "rows_step slot_update_ok (load_slot j) (load_slot j')"
        unfolding l(7) by (rule rows_step_upd, rule l(1)) (simp add: slot_update_ok_def l(2))
      ultimately show ?thesis
        using a l(5, 6) T st g LsAuthorizing True
        by (auto simp: effect_ok_def Let_def row_simps)
    qed
  next
    case LsProvisioning
    show ?thesis
    proof (cases "lt_to t = LsReady")
      case True
      obtain w j' key where r: "complete_operation j s \<lparr>cmp_kind = OpProvision, cmp_lease = lt_lease t,
           cmp_status = OsSucceeded, cmp_result = lt_result t, cmp_error = None, cmp_now = lt_now t\<rparr> =
             Inr (j', key)"
        "\<lparr>ef_journal = j', ef_next = s\<lparr>ls_workspace_id := Some w, ls_observed := ObReady,
           ls_observed_at := Some (lt_now t)\<rparr>, ef_begins = None, ef_completed = Some key\<rparr> = e"
        using e LsProvisioning True
        by (simp add: transition_effect_def Let_def split_beta) (elim exE conjE, rule that; assumption)
      have end': "ends_operation j j' s key" by (rule complete [OF r(1)]) simp
      show ?thesis
        by (rule fin [OF end'])
          (use r(2) [symmetric] True LsProvisioning T st in \<open>auto simp: row_simps\<close>)
    next
      case False
      with LsProvisioning e obtain j' key where a: "ef_journal e = j'" "ef_begins e = None"
        "ends_operation j j' s key" "ef_next e = revoke (lt_failure t) (lt_now t) s" "lt_to t = LsStopping"
        by (auto simp: transition_effect_def Let_def res_simps split: if_splits dest!: complete abandon)
      show ?thesis
        by (rule fin [OF a(3, 1, 2)])
          (use a LsProvisioning T st in \<open>auto simp: row_simps Let_def split: option.splits\<close>)
    qed
  next
    case LsReady
    with e have "ef_journal e = j \<and> ef_begins e = None \<and> lt_to t = LsStopping \<and>
        ef_next e = revoke (lt_failure t) (lt_now t) s"
      by (auto simp: transition_effect_def Let_def plain_effect_def split: if_splits)
    with LsReady T st show ?thesis
      by (intro plain) (auto simp: row_simps Let_def split: option.splits)
  next
    case LsCleaning
    show ?thesis
    proof (cases "lt_to t = LsCleanupBlocked")
      case True
      obtain r j' key where r: "complete_operation j s \<lparr>cmp_kind = OpDelete, cmp_lease = lt_lease t,
           cmp_status = OsBlocked, cmp_result = lt_result t, cmp_error = Some r, cmp_now = lt_now t\<rparr> =
             Inr (j', key)"
        "\<lparr>ef_journal = j', ef_next = s\<lparr>ls_blocked_reason := Some r,
           ls_quarantined_at := Some (lt_now t), ls_observed := ObUnreachable\<rparr>,
           ef_begins = None, ef_completed = Some key\<rparr> = e"
        using e LsCleaning True
        by (simp add: transition_effect_def Let_def split_beta) (elim exE conjE, rule that; assumption)
      have end': "ends_operation j j' s key" by (rule complete [OF r(1)]) simp
      show ?thesis
        by (rule fin [OF end']) (use r(2) [symmetric] True LsCleaning T st in \<open>auto simp: row_simps\<close>)
    next
      case False
      with LsCleaning e obtain j1 j' key where a: "ef_journal e = j'" "ef_begins e = None"
        "ends_operation j j1 s key" "release_slot j1 s (lt_now t) = Inr j'" "lt_to t \<in> {LsTerminated, LsFailed}"
        "(lt_to t = LsFailed) = (ls_failure_reason s \<noteq> None)"
        "ef_next e = s\<lparr>ls_observed := ObDeleted, ls_terminated_at := Some (lt_now t)\<rparr>"
        by (auto simp: transition_effect_def Let_def res_simps split: if_splits dest!: complete)
      show ?thesis
        by (rule fin [OF a(3, 1, 2), where now = "lt_now t"])
          (use a LsCleaning T st in \<open>auto simp: row_simps\<close>)
    qed
  next
    case LsStopping
    with e have a: "ef_journal e = j" "ef_begins e = Some OpDelete" "lt_to t = LsCleaning"
      "ef_next e = s\<lparr>ls_blocked_reason := None, ls_quarantined_at := None, ls_observed := ObDeleting\<rparr>"
      by (auto simp: transition_effect_def Let_def res_simps split: if_splits)
    moreover have "\<exists>ops slots. j = j\<lparr>jn_ops := ops, jn_slots := slots\<rparr>"
      by (intro exI [of _ "jn_ops j"] exI [of _ "jn_slots j"]) simp
    ultimately show ?thesis using keys T st LsStopping
      by (auto simp: effect_ok_def Let_def row_simps holds_on_def)
  next
    case LsCleanupBlocked
    with e have a: "ef_journal e = j" "ef_begins e = Some OpDelete" "lt_to t = LsCleaning"
      "ef_next e = s\<lparr>ls_blocked_reason := None, ls_quarantined_at := None, ls_observed := ObDeleting\<rparr>"
      by (auto simp: transition_effect_def Let_def res_simps split: if_splits)
    moreover have "\<exists>ops slots. j = j\<lparr>jn_ops := ops, jn_slots := slots\<rparr>"
      by (intro exI [of _ "jn_ops j"] exI [of _ "jn_slots j"]) simp
    ultimately show ?thesis using keys T st LsCleanupBlocked
      by (auto simp: effect_ok_def Let_def row_simps holds_on_def)
  qed (use e in \<open>auto simp: transition_effect_def\<close>)
qed

end
