(* ===== verification/LabTransactions.thy ===== *)
theory LabTransactions
  imports LabInvariant
begin

text \<open>
  Every transaction of the journal keeps its invariant, and the schema's constraints and triggers
  never refuse a write of it: they are implied by the invariant. The journals any number of workers
  can produce are the reachable states of the step relation \<open>journal_step\<close>.
\<close>

section \<open>Transactions keep the invariant\<close>

lemma keys_ok_sessions:
  assumes "keys_ok j" "\<And>r. P r \<Longrightarrow> ls_session_id (f r) = ls_session_id r"
  shows "keys_ok (j\<lparr>jn_sessions := update_where P f (jn_sessions j)\<rparr>)"
proof -
  have "map ls_session_id (update_where P f (jn_sessions j)) = map ls_session_id (jn_sessions j)"
    by (rule keys_update) (rule assms(2))
  with assms(1) show ?thesis by (simp add: keys_ok_def)
qed

lemma update_session:
  assumes "keys_ok j" "load_session j sid = Some s" "P s" "ls_session_id (f s) = sid"
    "\<And>r. P r \<Longrightarrow> ls_session_id r = sid"
  shows "load_session (j\<lparr>jn_sessions := update_where P f (jn_sessions j)\<rparr>) = (load_session j)(sid \<mapsto> f s)"
    "keys_ok (j\<lparr>jn_sessions := update_where P f (jn_sessions j)\<rparr>)"
    "rows_affected P (jn_sessions j) = 1"
proof -
  have k: "ls_session_id s = sid" using assms(2) by (auto simp: load_session_lookup dest: lookup_SomeD)
  note D = keys_okD(1) [OF assms(1)]
  have l: "lookup ls_session_id (jn_sessions j) (ls_session_id s) = Some s"
    using assms(2) k by (simp add: load_session_lookup)
  have fk: "ls_session_id (f s) = ls_session_id s" using assms(4) k by simp
  have P: "\<And>r. r \<in> set (jn_sessions j) \<Longrightarrow> P r \<Longrightarrow> ls_session_id r = ls_session_id s"
    using assms(5) k by blast
  show "load_session (j\<lparr>jn_sessions := update_where P f (jn_sessions j)\<rparr>) = (load_session j)(sid \<mapsto> f s)"
    using lookup_update [of ls_session_id "jn_sessions j" s P f, OF D l assms(3) fk P] k by (simp add: load_session_lookup)
  show "rows_affected P (jn_sessions j) = 1" by (rule rows_affected_key [of ls_session_id "jn_sessions j" s P, OF D l assms(3) P])
  have only: "r = s" if "r \<in> set (jn_sessions j)" "P r" for r
    using P [OF that] that(1) D l by (metis lookup_Some option.inject)
  have "map ls_session_id (update_where P f (jn_sessions j)) = map ls_session_id (jn_sessions j)"
    unfolding update_where_def using only fk by (auto simp: o_def)
  then show "keys_ok (j\<lparr>jn_sessions := update_where P f (jn_sessions j)\<rparr>)"
    using assms(1) by (simp add: keys_ok_def)
qed

lemma append_operation:
  assumes "keys_ok j" "load_operation j (lo_op_key q) = None"
  shows "load_operation (j\<lparr>jn_ops := jn_ops j @ [q]\<rparr>) = (load_operation j)(lo_op_key q \<mapsto> q)"
    "keys_ok (j\<lparr>jn_ops := jn_ops j @ [q]\<rparr>)"
proof -
  have n: "lookup lo_op_key (jn_ops j) (lo_op_key q) = None"
    using assms(2) by (simp add: load_operation_lookup)
  then show "load_operation (j\<lparr>jn_ops := jn_ops j @ [q]\<rparr>) = (load_operation j)(lo_op_key q \<mapsto> q)"
    by (simp add: load_operation_lookup lookup_append)
  show "keys_ok (j\<lparr>jn_ops := jn_ops j @ [q]\<rparr>)"
    using assms(1) n by (auto simp: keys_ok_def lookup_None)
qed

definition begun_op :: "lab_transition \<Rightarrow> lab_session \<Rightarrow> operation_kind_lab \<Rightarrow> lab_operation" where
  "begun_op t next kind =
     new_operation next kind (ls_generation next) (the (ls_slot_id next)) (the (ls_slot_generation next))
       (lt_actor t) (lt_now t) (lt_lease_seconds t)"

definition transition_event :: "journal \<Rightarrow> lab_transition \<Rightarrow> effect \<Rightarrow> lab_session \<Rightarrow> lab_event" where
  "transition_event j t e next =
     \<lparr>ev_sequence = int (length (jn_events j)) + 1, ev_session_id = ls_session_id next,
      ev_kind = ''campus.session.'' @ lab_state_as_str (lt_to t), ev_from = Some (lt_from t),
      ev_to = Some (lt_to t), ev_generation = ls_generation next,
      ev_op_key = (case ef_begins e of Some kind \<Rightarrow> Some (lo_op_key (begun_op t next kind))
         | None \<Rightarrow> ef_completed e),
      ev_actor = lt_actor t, ev_payload = transition_payload t next, ev_created_at = lt_now t,
      ev_published_at = None\<rparr>"

text \<open>A committed transition, over the tables read as maps.\<close>

definition committed ::
    "journal \<Rightarrow> lab_transition \<Rightarrow> lab_session \<Rightarrow> effect \<Rightarrow> lab_session \<Rightarrow> journal \<Rightarrow> transition_outcome \<Rightarrow> bool"
where
  "committed j t s e next j' out \<longleftrightarrow>
     load_session j (lt_session_id t) = Some s \<and> ls_session_id s = lt_session_id t \<and>
     ls_generation s = lt_expected_generation t \<and> ls_state s = lt_from t \<and>
     lt_to t \<in> set (successors (lt_from t)) \<and> \<not> is_blank (lt_actor t) \<and>
     transition_effect j t s = Inr e \<and> effect_ok j t s e \<and> next = write_session s t e \<and>
     load_session j' = (load_session j)(lt_session_id t \<mapsto> next) \<and>
     load_slot j' = load_slot (ef_journal e) \<and>
     load_operation j' = (case ef_begins e of
         None \<Rightarrow> load_operation (ef_journal e)
       | Some kind \<Rightarrow> (load_operation j)(lo_op_key (begun_op t next kind) \<mapsto> begun_op t next kind)) \<and>
     (\<forall>kind. ef_begins e = Some kind \<longrightarrow>
        1 \<le> lt_lease_seconds t \<and> lt_lease_seconds t \<le> 3600 \<and>
        load_operation j (lo_op_key (begun_op t next kind)) = None) \<and>
     jn_events j' = jn_events j @ [transition_event j t e next] \<and>
     jn_holds j' = jn_holds j \<and> jn_hook_runs j' = jn_hook_runs j \<and> jn_identities j' = jn_identities j \<and>
     to_session out = next \<and>
     to_begun out = map_option (begun_op t next) (ef_begins e)"

definition moved :: "lab_session \<Rightarrow> lab_session \<Rightarrow> journal \<Rightarrow> journal" where
  "moved s next j = j\<lparr>jn_sessions := update_where
     (\<lambda>r. ls_session_id r = ls_session_id s \<and> ls_generation r = ls_generation s \<and> ls_state r = ls_state s)
     (\<lambda>_. next) (jn_sessions j)\<rparr>"

lemma moved_ok:
  assumes "keys_ok j" "load_session j (ls_session_id s) = Some s" "ls_session_id nx = ls_session_id s"
  shows "load_session (moved s nx j) = (load_session j)(ls_session_id s \<mapsto> nx)"
    "keys_ok (moved s nx j)" "load_operation (moved s nx j) = load_operation j"
    "load_slot (moved s nx j) = load_slot j"
proof -
  let ?P = "\<lambda>r. ls_session_id r = ls_session_id s \<and> ls_generation r = ls_generation s \<and>
     ls_state r = ls_state s"
  have P: "?P s" "\<And>r. ?P r \<Longrightarrow> ls_session_id r = ls_session_id s" by simp_all
  note U = update_session [of j "ls_session_id s" s ?P "\<lambda>_. nx", OF assms(1, 2) P(1) assms(3) P(2)]
  show "load_session (moved s nx j) = (load_session j)(ls_session_id s \<mapsto> nx)"
    unfolding moved_def by (rule U(1)) simp
  show "keys_ok (moved s nx j)" unfolding moved_def by (rule U(2)) simp
qed (simp_all add: moved_def)

lemma transition_parts:
  assumes "transition_campus_lab_session j t = Inr (j', out)"
  obtains s e j3 key where
    "lt_to t \<in> set (successors (lt_from t))" "\<not> is_blank (lt_actor t)"
    "load_session j (lt_session_id t) = Some s" "ls_generation s = lt_expected_generation t"
    "ls_state s = lt_from t" "transition_effect j t s = Inr e"
    "begin_operation (moved s (write_session s t e) (ef_journal e)) t (write_session s t e)
       (ef_begins e) (ls_generation s + 1) = Inr (j3, key)"
    "j' = fst (insert_event j3 (ls_session_id s) (''campus.session.'' @ lab_state_as_str (lt_to t))
       (Some (lt_from t)) (Some (lt_to t)) (ls_generation s + 1) (or_else key (ef_completed e))
       (lt_actor t) (transition_payload t (write_session s t e)) (lt_now t))"
    "load_session j' (ls_session_id s) = Some (to_session out)"
    "to_begun out = Option.bind key (load_operation j')"
proof -
  have tr: "lt_to t \<in> set (successors (lt_from t))" "\<not> is_blank (lt_actor t)"
    using assms by (auto simp: transition_campus_lab_session_def transition_ok split: if_splits)
  obtain s where s: "load_session j (lt_session_id t) = Some s"
    using assms by (auto simp: transition_campus_lab_session_def split: if_splits)
  have g: "ls_generation s = lt_expected_generation t" "ls_state s = lt_from t"
    using assms s by (auto simp: transition_campus_lab_session_def split: if_splits)
  obtain e where e: "transition_effect j t s = Inr e"
    using assms s g by (auto simp: transition_campus_lab_session_def split: if_splits)
  obtain j3 key where b: "begin_operation (moved s (write_session s t e) (ef_journal e)) t
      (write_session s t e) (ef_begins e) (ls_generation s + 1) = Inr (j3, key)"
    using assms s g e
    by (auto simp: transition_campus_lab_session_def Let_def moved_def split: if_splits)
  have rest: "j' = fst (insert_event j3 (ls_session_id s) (''campus.session.'' @ lab_state_as_str (lt_to t))
       (Some (lt_from t)) (Some (lt_to t)) (ls_generation s + 1) (or_else key (ef_completed e))
       (lt_actor t) (transition_payload t (write_session s t e)) (lt_now t)) \<and>
     load_session j' (ls_session_id s) = Some (to_session out) \<and>
     to_begun out = Option.bind key (load_operation j')"
    using assms s g e b
    by (auto simp: transition_campus_lab_session_def Let_def moved_def split_beta split: if_splits)
  show thesis by (rule that [OF tr s g e b]) (use rest in blast)+
qed

lemma insert_event_loads [simp]:
  "load_session (fst (insert_event j a b c d e f g h i)) = load_session j"
  "load_operation (fst (insert_event j a b c d e f g h i)) = load_operation j"
  "load_slot (fst (insert_event j a b c d e f g h i)) = load_slot j"
  "keys_ok (fst (insert_event j a b c d e f g h i)) \<longleftrightarrow> keys_ok j"
  by (simp_all add: insert_event_def Let_def)

lemma begun_op_key:
  "lo_op_key (begun_op t next kind) = campus_operation_key (ls_session_id next) kind (ls_generation next)"
  by (simp add: begun_op_def new_operation_def)

lemma begun_op_row_ok:
  "1 \<le> ls_generation next \<Longrightarrow> 1 \<le> the (ls_slot_generation next) \<Longrightarrow> op_row_ok (begun_op t next kind)"
  by (simp add: begun_op_def new_operation_def op_row_ok_def)

lemma transition_committed:
  assumes tr: "transition_campus_lab_session j t = Inr (j', out)" and inv: "journal_inv j"
  shows "journal_inv j' \<and> (\<exists>s e nx. committed j t s e nx j' out)"
proof -
  obtain s e j3 key where p:
    "lt_to t \<in> set (successors (lt_from t))" "\<not> is_blank (lt_actor t)"
    "load_session j (lt_session_id t) = Some s" "ls_generation s = lt_expected_generation t"
    "ls_state s = lt_from t" "transition_effect j t s = Inr e"
    "begin_operation (moved s (write_session s t e) (ef_journal e)) t (write_session s t e)
       (ef_begins e) (ls_generation s + 1) = Inr (j3, key)"
    "j' = fst (insert_event j3 (ls_session_id s) (''campus.session.'' @ lab_state_as_str (lt_to t))
       (Some (lt_from t)) (Some (lt_to t)) (ls_generation s + 1) (or_else key (ef_completed e))
       (lt_actor t) (transition_payload t (write_session s t e)) (lt_now t))"
    "load_session j' (ls_session_id s) = Some (to_session out)"
    "to_begun out = Option.bind key (load_operation j')"
    by (rule transition_parts [OF tr])
  define nx where "nx = write_session s t e"
  have T: "ls_session_id s = lt_session_id t"
    using tables_okD(1) [OF journal_invD(2) [OF inv] p(3)] by simp
  note E = transition_effect_ok [OF inv p(3, 5, 6)]
  then obtain ops slots where E': "ef_journal e = j\<lparr>jn_ops := ops, jn_slots := slots\<rparr>"
    "keys_ok (ef_journal e)" "session_update_ok s nx" "session_row_ok nx" "session_extra_ok nx"
    by (auto simp: effect_ok_def Let_def nx_def)
  have n: "ls_session_id nx = lt_session_id t" "ls_generation nx = ls_generation s + 1"
    using E'(3) T by (simp_all add: session_update_ok_def nx_def write_session_def)
  have sess: "load_session (ef_journal e) (lt_session_id t) = Some s" using p(3) E'(1) by simp
  let ?j2 = "moved s nx (ef_journal e)"
  have m: "load_session ?j2 = (load_session j)(lt_session_id t \<mapsto> nx)" "keys_ok ?j2"
    "load_operation ?j2 = load_operation (ef_journal e)" "load_slot ?j2 = load_slot (ef_journal e)"
    using moved_ok [OF E'(2), of s nx] sess T n(1) E'(1) by simp_all
  have other: "jn_events ?j2 = jn_events j" "jn_holds ?j2 = jn_holds j"
    "jn_hook_runs ?j2 = jn_hook_runs j" "jn_identities ?j2 = jn_identities j"
    using E'(1) by (simp_all add: moved_def)
  have evs: "jn_events j3 = jn_events j \<Longrightarrow>
      or_else key (ef_completed e) = (case ef_begins e of
         Some kind \<Rightarrow> Some (lo_op_key (begun_op t nx kind)) | None \<Rightarrow> ef_completed e) \<Longrightarrow>
      jn_events j' = jn_events j @ [transition_event j t e nx]"
    using T by (simp add: p(8) insert_event_def Let_def transition_event_def n nx_def [symmetric])
  have rest: "jn_holds j' = jn_holds j3" "jn_hook_runs j' = jn_hook_runs j3"
    "jn_identities j' = jn_identities j3"
    by (simp_all add: p(8) insert_event_def Let_def)
  show ?thesis
  proof (cases "ef_begins e")
    case None
    then have b: "j3 = ?j2" "key = None" using p(7) by (simp_all add: begin_operation_def nx_def)
    have loads: "load_session j' = (load_session j)(lt_session_id t \<mapsto> nx)"
      "load_operation j' = load_operation (ef_journal e)" "load_slot j' = load_slot (ef_journal e)"
      using m b p(8) by simp_all
    have "journal_inv j'"
      using E None m b p(8) T loads by (simp add: journal_inv_def effect_ok_def Let_def nx_def)
    moreover have "committed j t s e nx j' out"
      unfolding committed_def
      using p T E None loads evs other rest b n by (simp add: nx_def [symmetric] or_else_def)
    ultimately show ?thesis by blast
  next
    case (Some kind)
    obtain x g where x: "ls_slot_id nx = Some x" "ls_slot_generation nx = Some g" "1 \<le> g"
      using E Some E'(4) unfolding effect_ok_def Let_def nx_def [symmetric]
      by (auto simp: session_row_ok_def holds_on_def takes_slot_def keeps_slot_def nx_def write_session_def
          state_op_def may_hold_resources_def split: if_splits)
    have lease: "1 \<le> lt_lease_seconds t" "lt_lease_seconds t \<le> 3600"
      and b: "j3 = ?j2\<lparr>jn_ops := jn_ops ?j2 @ [begun_op t nx kind]\<rparr>"
        "key = Some (lo_op_key (begun_op t nx kind))"
      using p(7) Some x n unfolding nx_def [symmetric]
      by (auto simp: begin_operation_def Let_def begun_op_def MAX_CAMPUS_LEASE_SECONDS_def split: if_splits)
    have Q: "load_operation (ef_journal e) = load_operation j"
      "state_op (ls_state s) = None" "state_op (lt_to t) = Some kind"
      "holds_on (load_slot j) (load_slot (ef_journal e)) s nx \<or>
       takes_slot (load_slot j) (load_slot (ef_journal e)) s nx"
      using E Some by (simp_all add: effect_ok_def Let_def nx_def)
    have move: "tables_ok ((load_session j)(lt_session_id t \<mapsto> nx))
        ((load_operation j)(lo_op_key (begun_op t nx kind) \<mapsto> begun_op t nx kind))
        (load_slot (ef_journal e)) \<and> load_operation j (lo_op_key (begun_op t nx kind)) = None"
    proof (rule move_begin [OF journal_invD(2) [OF inv] p(3) _ Q(2) E'(4, 5) _ Q(4)])
      show "state_op (ls_state nx) = Some kind" using Q(3) by (simp add: nx_def write_session_def)
      show "op_row_ok (begun_op t nx kind)"
        using E'(4) x by (intro begun_op_row_ok) (simp_all add: session_row_ok_def)
    qed (use n x in \<open>simp_all add: begun_op_def new_operation_def\<close>)
    then have fresh: "load_operation ?j2 (lo_op_key (begun_op t nx kind)) = None" using m(3) Q(1) by simp
    note A = append_operation [OF m(2) fresh]
    have loads: "load_session j' = (load_session j)(lt_session_id t \<mapsto> nx)"
      "load_operation j' = (load_operation j)(lo_op_key (begun_op t nx kind) \<mapsto> begun_op t nx kind)"
      "load_slot j' = load_slot (ef_journal e)" "keys_ok j'"
      using m A b p(8) Q(1) by simp_all
    have "journal_inv j'" using move loads by (simp add: journal_inv_def)
    moreover have "committed j t s e nx j' out"
      unfolding committed_def
      using p T E Some loads evs other rest b n lease move
      by (simp add: nx_def [symmetric] or_else_def)
    ultimately show ?thesis by blast
  qed
qed

section \<open>The other transactions\<close>

lemma move_same:
  assumes inv: "tables_ok S Q L" and s: "S sid = Some s" and k: "keeps_slot s s'"
    and same: "ls_state s' = ls_state s" "ls_generation s' = ls_generation s"
    and rows: "session_row_ok s'" "session_extra_ok s'"
  shows "tables_ok (S(sid \<mapsto> s')) Q L"
proof (rule tables_ok_move [OF inv s _ rows])
  note T = tables_okD(1) [OF inv s]
  show "ls_session_id s' = sid" using T k by (simp add: keeps_slot_def)
  show "session_slot_ok L s'" using T k same kept_session_slot by metis
  show "session_op_ok Q s'" using T k same by (auto simp: session_op_ok_def keeps_slot_def)
  show "lo_op_key q = key \<and> (if lo_session_id q = sid then op_ok (S(sid \<mapsto> s')) q else Q key = Some q)"
    if "Q key = Some q" for key q
    using that tables_okD(2) [OF inv that] s k same by (auto simp: op_ok_def keeps_slot_def)
  show "sl_slot_id l = x \<and> (L x = Some l \<and> sl_occupant l \<noteq> Some sid \<or> slot_ok (S(sid \<mapsto> s')) l)"
    if "L x = Some l" for x l
    using tables_okD(3) [OF inv that] kept_slot_ok [of S l sid s s', OF _ s k] same by auto
  show "ls_slot_generation t \<noteq> ls_slot_generation s'"
    if "sid' \<noteq> sid" "S sid' = Some t" "ls_slot_id s' \<noteq> None" "ls_slot_id t = ls_slot_id s'" for sid' t
    by (rule uniq_kept [OF inv s k that])
qed auto

lemma move_op:
  assumes inv: "tables_ok S Q L" and q: "Q key = Some o'"
    and upd: "op_update_ok o' o''" "lo_status o'' = OsPending" "op_row_ok o''"
  shows "tables_ok S (Q(key \<mapsto> o'')) L"
proof -
  note O' = tables_okD(2) [OF inv q]
  have new: "lo_op_key o'' = key \<and> op_ok S o''"
    using O' upd by (auto simp: op_ok_def op_update_ok_def)
  have "session_op_ok (Q(key \<mapsto> o'')) s" if "session_op_ok Q s" for s
    using that upd by (auto simp: session_op_ok_def)
  with inv new show ?thesis unfolding tables_ok_def by auto
qed

lemma fresh_session:
  assumes inv: "tables_ok S Q L" and n: "S sid = None" "ls_session_id s = sid"
    and rows: "session_row_ok s" "session_extra_ok s" "ls_slot_id s = None" "state_op (ls_state s) = None"
  shows "tables_ok (S(sid \<mapsto> s)) Q L"
proof -
  have ops: "op_ok (S(sid \<mapsto> s)) q" if "Q key = Some q" for key q
    using tables_okD(2) [OF inv that] n by (auto simp: op_ok_def)
  have slots: "slot_ok (S(sid \<mapsto> s)) l" if "L x = Some l" for x l
    using tables_okD(3) [OF inv that] n by (auto simp: slot_ok_def)
  have "session_slot_ok L s" "session_op_ok Q s"
    using rows by (simp_all add: session_slot_ok_def session_op_ok_def)
  moreover have "occupancies_unique (S(sid \<mapsto> s))"
    using tables_okD(4) [OF inv] rows(3) unfolding occupancies_unique_def
    by (auto split: if_splits) metis+
  ultimately show ?thesis
    using inv n rows ops slots tables_okD [OF inv] unfolding tables_ok_def by (auto split: if_splits)
qed

lemma fresh_slot:
  assumes inv: "tables_ok S Q L" and n: "L (sl_slot_id l) = None"
    and rows: "slot_row_ok l" "sl_occupant l = None"
  shows "tables_ok S Q (L(sl_slot_id l \<mapsto> l))"
proof -
  have "session_slot_ok (L(sl_slot_id l \<mapsto> l)) s" if "session_slot_ok L s" for s
    using that n unfolding session_slot_ok_def by (metis fun_upd_apply option.distinct(1))
  moreover have "slot_ok S l" using rows by (simp add: slot_ok_def)
  ultimately show ?thesis
    using inv unfolding tables_ok_def by (auto split: if_splits)
qed

lemma append_session:
  assumes "keys_ok j" "load_session j (ls_session_id s) = None"
  shows "load_session (j\<lparr>jn_sessions := jn_sessions j @ [s]\<rparr>) = (load_session j)(ls_session_id s \<mapsto> s)"
    "keys_ok (j\<lparr>jn_sessions := jn_sessions j @ [s]\<rparr>)"
proof -
  have n: "lookup ls_session_id (jn_sessions j) (ls_session_id s) = None"
    using assms(2) by (simp add: load_session_lookup)
  then show "load_session (j\<lparr>jn_sessions := jn_sessions j @ [s]\<rparr>) = (load_session j)(ls_session_id s \<mapsto> s)"
    by (simp add: load_session_lookup lookup_append)
  show "keys_ok (j\<lparr>jn_sessions := jn_sessions j @ [s]\<rparr>)"
    using assms(1) n by (auto simp: keys_ok_def lookup_None)
qed

lemma append_slot:
  assumes "keys_ok j" "load_slot j (sl_slot_id l) = None"
  shows "load_slot (j\<lparr>jn_slots := jn_slots j @ [l]\<rparr>) = (load_slot j)(sl_slot_id l \<mapsto> l)"
    "keys_ok (j\<lparr>jn_slots := jn_slots j @ [l]\<rparr>)"
proof -
  have n: "lookup sl_slot_id (jn_slots j) (sl_slot_id l) = None"
    using assms(2) by (simp add: load_slot_lookup)
  then show "load_slot (j\<lparr>jn_slots := jn_slots j @ [l]\<rparr>) = (load_slot j)(sl_slot_id l \<mapsto> l)"
    by (simp add: load_slot_lookup lookup_append)
  show "keys_ok (j\<lparr>jn_slots := jn_slots j @ [l]\<rparr>)"
    using assms(1) n by (auto simp: keys_ok_def lookup_None)
qed

text \<open>What each of the other transactions does to the tables.\<close>

lemma register_ok:
  assumes "register_campus_lab_slot j slot_id tenant now = Inr (j', l)" "journal_inv j"
  shows "journal_inv j' \<and> load_slot j' slot_id = Some l \<and> sl_tenant_id l = tenant \<and>
     (j' = j \<or> load_slot j slot_id = None \<and> load_slot j' = (load_slot j)(slot_id \<mapsto> l) \<and>
        sl_occupant l = None \<and> sl_generation l = 0 \<and> (\<exists>slots. j' = j\<lparr>jn_slots := slots\<rparr>))"
proof (cases "load_slot j slot_id")
  case None
  let ?l = "\<lparr>sl_slot_id = slot_id, sl_tenant_id = tenant, sl_occupant = None, sl_generation = 0,
             sl_occupied_at = None, sl_created_at = now, sl_updated_at = now\<rparr>"
  have A: "load_slot (j\<lparr>jn_slots := jn_slots j @ [?l]\<rparr>) = (load_slot j)(slot_id \<mapsto> ?l)"
    "keys_ok (j\<lparr>jn_slots := jn_slots j @ [?l]\<rparr>)"
    using append_slot [of j ?l] journal_invD(1) [OF assms(2)] None by simp_all
  have j': "j' = j\<lparr>jn_slots := jn_slots j @ [?l]\<rparr>" "l = ?l" "chars_between 1 128 slot_id"
    "chars_between 1 64 tenant"
    using assms(1) None A by (auto simp: register_campus_lab_slot_def Let_def split: if_splits)
  have "tables_ok (load_session j) (load_operation j) ((load_slot j)(sl_slot_id ?l \<mapsto> ?l))"
    by (rule fresh_slot [OF journal_invD(2) [OF assms(2)]])
      (use None j'(3, 4) in \<open>simp_all add: slot_row_ok_def\<close>)
  with A j' None show ?thesis by (auto simp: journal_inv_def)
next
  case (Some l')
  with assms show ?thesis by (auto simp: register_campus_lab_slot_def Let_def split: if_splits)
qed

lemma blank_Nil [simp]: "is_blank []"
  by (simp add: is_blank_def trim_def trim_start.simps)

lemma insert_session_ok:
  assumes "insert_campus_lab_session j r = Inr (j', s, created)" "journal_inv j"
  shows "journal_inv j' \<and> load_session j' (cs_session_id r) = Some s \<and>
     (if created then load_session j (cs_session_id r) = None \<and> s = requested_session r \<and>
        load_session j' = (load_session j)(cs_session_id r \<mapsto> s) \<and>
        jn_events j' = jn_events j @ [\<lparr>ev_sequence = int (length (jn_events j)) + 1,
          ev_session_id = cs_session_id r, ev_kind = ''campus.session.requested'', ev_from = None,
          ev_to = Some LsRequested, ev_generation = 1, ev_op_key = None, ev_actor = cs_actor r,
          ev_payload = PayRequested (cs_course_id r) (cs_profile r) (cs_expires_at r),
          ev_created_at = cs_now r, ev_published_at = None\<rparr>] \<and>
        load_operation j' = load_operation j \<and> load_slot j' = load_slot j \<and>
        jn_hook_runs j' = jn_hook_runs j \<and> jn_identities j' = jn_identities j
      else j' = j \<and> same_content s r)"
proof (cases "load_session j (cs_session_id r)")
  case None
  let ?s = "requested_session r"
  have id: "ls_session_id ?s = cs_session_id r" by (simp add: requested_session_def)
  have A: "load_session (j\<lparr>jn_sessions := jn_sessions j @ [?s]\<rparr>) = (load_session j)(cs_session_id r \<mapsto> ?s)"
    "keys_ok (j\<lparr>jn_sessions := jn_sessions j @ [?s]\<rparr>)"
    using append_session [of j ?s] journal_invD(1) [OF assms(2)] None id by simp_all
  have ok: "cs_actor r \<noteq> []" "cs_now r < cs_expires_at r" "session_text_ok r" "created" "s = ?s"
    "j' = fst (insert_event (j\<lparr>jn_sessions := jn_sessions j @ [?s]\<rparr>) (ls_session_id ?s)
       ''campus.session.requested'' None (Some LsRequested) (ls_generation ?s) None (cs_actor r)
       (PayRequested (ls_course_id ?s) (ls_profile ?s) (ls_expires_at ?s)) (cs_now r))"
    using assms(1) None
    by (auto simp: insert_campus_lab_session_def Let_def split: if_splits)
  have "tables_ok ((load_session j)(cs_session_id r \<mapsto> ?s)) (load_operation j) (load_slot j)"
    by (rule fresh_session [OF journal_invD(2) [OF assms(2)] None id])
      (use ok(1-3) in \<open>simp_all add: requested_session_def session_row_ok_def session_extra_ok_def
        session_text_ok_def may_hold_resources_def is_terminal_def state_op_def\<close>)
  with A ok None show ?thesis
    by (auto simp: journal_inv_def insert_event_def Let_def requested_session_def)
next
  case (Some s')
  with assms show ?thesis by (auto simp: insert_campus_lab_session_def Let_def split: if_splits)
qed

lemma update_same_session:
  assumes inv: "journal_inv j" and s: "load_session j sid = Some s" and P: "P s"
    "\<And>r. P r \<Longrightarrow> ls_session_id r = sid"
    and f: "keeps_slot s (f s)" "ls_state (f s) = ls_state s" "ls_generation (f s) = ls_generation s"
      "session_row_ok (f s)" "session_extra_ok (f s)"
  shows "journal_inv (j\<lparr>jn_sessions := update_where P f (jn_sessions j)\<rparr>)"
    "load_session (j\<lparr>jn_sessions := update_where P f (jn_sessions j)\<rparr>) = (load_session j)(sid \<mapsto> f s)"
    "rows_affected P (jn_sessions j) = 1"
proof -
  have id: "ls_session_id (f s) = sid"
    using f(1) tables_okD(1) [OF journal_invD(2) [OF inv] s] by (simp add: keeps_slot_def)
  note U = update_session [of j sid s P f, OF journal_invD(1) [OF inv] s P(1) id P(2)]
  have l: "load_session (j\<lparr>jn_sessions := update_where P f (jn_sessions j)\<rparr>) = (load_session j)(sid \<mapsto> f s)"
    by (rule U(1))
  show "load_session (j\<lparr>jn_sessions := update_where P f (jn_sessions j)\<rparr>) = (load_session j)(sid \<mapsto> f s)"
    by (rule l)
  show "rows_affected P (jn_sessions j) = 1" by (rule U(3))
  have k: "keys_ok (j\<lparr>jn_sessions := update_where P f (jn_sessions j)\<rparr>)" by (rule U(2))
  show "journal_inv (j\<lparr>jn_sessions := update_where P f (jn_sessions j)\<rparr>)"
    using k move_same [OF journal_invD(2) [OF inv] s f] by (simp add: journal_inv_def l)
qed

lemma row_ok_benign [simp]:
  "session_row_ok (s\<lparr>ls_desired := d\<rparr>) \<longleftrightarrow> session_row_ok s"
  "session_row_ok (s\<lparr>ls_updated_at := u\<rparr>) \<longleftrightarrow> session_row_ok s"
  "session_row_ok (s\<lparr>ls_observed := ob\<rparr>) \<longleftrightarrow> session_row_ok s"
  "session_row_ok (s\<lparr>ls_observed_at := oa\<rparr>) \<longleftrightarrow> session_row_ok s"
  "session_extra_ok (s\<lparr>ls_updated_at := u\<rparr>) \<longleftrightarrow> session_extra_ok s"
  "session_extra_ok (s\<lparr>ls_observed := ob\<rparr>) \<longleftrightarrow> session_extra_ok s"
  "session_extra_ok (s\<lparr>ls_observed_at := oa\<rparr>) \<longleftrightarrow> session_extra_ok s"
  "session_extra_ok s \<Longrightarrow> session_extra_ok (s\<lparr>ls_desired := DesiredTerminated\<rparr>)"
  by (simp_all add: session_row_ok_def session_extra_ok_def)

lemma stop_ok:
  assumes "request_campus_lab_stop_in j sid actor reason now = Inr (j', s')" "journal_inv j"
  shows "journal_inv j' \<and> (\<exists>s. load_session j sid = Some s \<and> load_session j' sid = Some s' \<and>
     (if is_terminal (ls_state s) \<or> ls_desired s = DesiredTerminated then j' = j \<and> s' = s
      else s' = s\<lparr>ls_desired := DesiredTerminated, ls_updated_at := now\<rparr> \<and>
        load_session j' = (load_session j)(sid \<mapsto> s') \<and> load_operation j' = load_operation j \<and>
        load_slot j' = load_slot j \<and>
        jn_hook_runs j' = jn_hook_runs j \<and> jn_identities j' = jn_identities j \<and>
        (\<exists>ev. jn_events j' = jn_events j @ [ev] \<and> ev_session_id ev = sid \<and> ev_to ev = None \<and>
           ev_sequence ev = int (length (jn_events j)) + 1)))"
proof -
  obtain s where s: "load_session j sid = Some s"
    using assms(1) by (auto simp: request_campus_lab_stop_in_def split: if_splits)
  note T = tables_okD(1) [OF journal_invD(2) [OF assms(2)] s]
  show ?thesis
  proof (cases "is_terminal (ls_state s) \<or> ls_desired s = DesiredTerminated")
    case True
    with assms s show ?thesis by (auto simp: request_campus_lab_stop_in_def split: if_splits)
  next
    case False
    let ?P = "\<lambda>r. ls_session_id r = sid \<and> ls_generation r = ls_generation s"
    let ?f = "\<lambda>r. r\<lparr>ls_desired := DesiredTerminated, ls_updated_at := now\<rparr>"
    let ?j = "j\<lparr>jn_sessions := update_where ?P ?f (jn_sessions j)\<rparr>"
    have f: "keeps_slot s (?f s)" "ls_state (?f s) = ls_state s" "ls_generation (?f s) = ls_generation s"
      "session_row_ok (?f s)" "session_extra_ok (?f s)"
      using T by (simp_all add: keeps_slot_def)
    have P: "?P s" "\<And>r. ?P r \<Longrightarrow> ls_session_id r = sid" using T by simp_all
    note U = update_same_session [of j sid s ?P ?f, OF assms(2) s P(1) P(2) f]
    have U': "journal_inv ?j" "load_session ?j = (load_session j)(sid \<mapsto> ?f s)"
      by (rule U(1), simp) (rule U(2), simp)
    have j': "j' = fst (insert_event ?j sid ''campus.session.stop_requested'' (Some (ls_state s)) None
        (ls_generation s) None actor (PayStop reason) now)" "s' = ?f s"
      using assms(1) s False U'(2)
      by (auto simp: request_campus_lab_stop_in_def Let_def split: if_splits)
    have "journal_inv j'" using U'(1) by (simp add: journal_inv_def j'(1))
    moreover have "load_session j' = (load_session j)(sid \<mapsto> ?f s)" using U'(2) by (simp add: j'(1))
    moreover have "load_operation j' = load_operation j" "load_slot j' = load_slot j" by (simp_all add: j'(1))
    moreover have "jn_hook_runs j' = jn_hook_runs j" "jn_identities j' = jn_identities j"
      "\<exists>ev. jn_events j' = jn_events j @ [ev] \<and> ev_session_id ev = sid \<and> ev_to ev = None \<and>
           ev_sequence ev = int (length (jn_events j)) + 1"
      by (simp_all add: j'(1) insert_event_def Let_def)
    ultimately show ?thesis using s False by (intro conjI exI [of _ s]) (simp_all add: j'(2))
  qed
qed

lemma observation_ok:
  assumes "record_campus_lab_observation j sid g ob now = Inr (j', s')" "journal_inv j"
  shows "journal_inv j' \<and> (\<exists>s sessions. load_session j sid = Some s \<and> ls_generation s = g \<and>
     \<not> is_terminal (ls_state s) \<and> j' = j\<lparr>jn_sessions := sessions\<rparr> \<and>
     s' = s\<lparr>ls_observed := ob, ls_observed_at := Some now, ls_updated_at := now\<rparr> \<and>
     load_session j' = (load_session j)(sid \<mapsto> s'))"
proof -
  let ?P = "\<lambda>s. ls_session_id s = sid \<and> ls_generation s = g \<and> \<not> is_terminal (ls_state s)"
  let ?f = "\<lambda>s. s\<lparr>ls_observed := ob, ls_observed_at := Some now, ls_updated_at := now\<rparr>"
  let ?j = "j\<lparr>jn_sessions := update_where ?P ?f (jn_sessions j)\<rparr>"
  have r: "rows_affected ?P (jn_sessions j) \<noteq> 0" "j' = ?j" "load_session ?j sid = Some s'"
    using assms(1) by (auto simp: record_campus_lab_observation_def Let_def split: if_splits)
  from r(1) have "filter ?P (jn_sessions j) \<noteq> []" by (auto simp: rows_affected_def)
  then obtain s where "s \<in> set (filter ?P (jn_sessions j))" using last_in_set by blast
  then have s: "s \<in> set (jn_sessions j)" "?P s" by simp_all
  then have load: "load_session j sid = Some s"
    using keys_okD(1) [OF journal_invD(1) [OF assms(2)]] by (simp add: load_session_lookup lookup_Some)
  note T = tables_okD(1) [OF journal_invD(2) [OF assms(2)] load]
  have f: "keeps_slot s (?f s)" "ls_state (?f s) = ls_state s" "ls_generation (?f s) = ls_generation s"
      "session_row_ok (?f s)" "session_extra_ok (?f s)"
    using T by (simp_all add: keeps_slot_def)
  have P: "\<And>r. ?P r \<Longrightarrow> ls_session_id r = sid" by simp
  note U = update_same_session [of j sid s ?P ?f, OF assms(2) load s(2) P f]
  have U': "journal_inv ?j" "load_session ?j = (load_session j)(sid \<mapsto> ?f s)"
    by (rule U(1), simp) (rule U(2), simp)
  with r have "s' = ?f s" by simp
  with U' r(2) load s(2) show ?thesis by blast
qed

lemma live_lease_row:
  "op_row_ok o' \<Longrightarrow> live_lease o' now = None \<longleftrightarrow>
     (\<forall>expires. lo_lease_expires_at o' = Some expires \<longrightarrow> expires \<le> now)"
  by (auto simp: live_lease_def op_lease_of_def op_row_ok_def not_less split: option.splits)

lemma lease_ok:
  assumes "lease_campus_lab_operation j key owner now secs = Inr (j', leased)" "journal_inv j"
  shows "journal_inv j' \<and> (\<exists>o' s ops. load_operation j key = Some o' \<and> lo_status o' = OsPending \<and>
     live_lease o' now = None \<and> load_session j (lo_session_id o') = Some s \<and>
     ls_generation s = lo_session_generation o' \<and> \<not> is_blank owner \<and> 1 \<le> secs \<and> secs \<le> 3600 \<and>
     j' = j\<lparr>jn_ops := ops\<rparr> \<and>
     leased = o'\<lparr>lo_lease_owner := Some owner, lo_lease_expires_at := Some (saturating_add now secs),
        lo_lease_fence := lo_lease_fence o' + 1, lo_attempt_count := lo_attempt_count o' + 1,
        lo_updated_at := now\<rparr> \<and>
     load_operation j' = (load_operation j)(key \<mapsto> leased))"
proof -
  obtain o' where o': "load_operation j key = Some o'"
    using assms(1) by (auto simp: lease_campus_lab_operation_def split: if_splits)
  let ?f = "\<lambda>o'. o'\<lparr>lo_lease_owner := Some owner, lo_lease_expires_at := Some (saturating_add now secs),
        lo_lease_fence := lo_lease_fence o' + 1, lo_attempt_count := lo_attempt_count o' + 1,
        lo_updated_at := now\<rparr>"
  let ?P = "pending_at key (lo_lease_fence o')"
  let ?j = "j\<lparr>jn_ops := update_where ?P ?f (jn_ops j)\<rparr>"
  have p: "lo_status o' = OsPending" "live_lease o' now = None" "\<not> is_blank owner" "1 \<le> secs" "secs \<le> 3600"
    using assms(1) o'
    by (auto simp: lease_campus_lab_operation_def MAX_CAMPUS_LEASE_SECONDS_def split: if_splits option.splits)
  obtain s where s: "load_session j (lo_session_id o') = Some s" "ls_generation s = lo_session_generation o'"
    using assms(1) o' p by (auto simp: lease_campus_lab_operation_def split: if_splits)
  note O' = tables_okD(2) [OF journal_invD(2) [OF assms(2)] o']
  have P: "?P o'" "\<And>q. lo_op_key (?f q) = lo_op_key q" "\<And>q. ?P q \<Longrightarrow> lo_op_key q = key"
    using O' p(1) by (simp_all add: pending_at_def)
  note U = update_operation [of j key o' ?P ?f, OF journal_invD(1) [OF assms(2)] o' P(1) P(2) P(3)]
  have U': "load_operation ?j = (load_operation j)(key \<mapsto> ?f o')" "keys_ok ?j"
    by (rule U(1), simp) (rule U(2), simp)
  have j': "j' = ?j" "leased = ?f o'"
    using assms(1) o' p s U'(1)
    by (auto simp: lease_campus_lab_operation_def Let_def split: if_splits)
  have "tables_ok (load_session j) ((load_operation j)(key \<mapsto> ?f o')) (load_slot j)"
    by (rule move_op [OF journal_invD(2) [OF assms(2)] o'])
      (use O' p(1) in \<open>auto simp: op_ok_def op_row_ok_def op_update_ok_def\<close>)
  with U' have "journal_inv j'" by (simp add: j'(1) journal_inv_def)
  with o' p s j' U'(1) show ?thesis by blast
qed

lemma release_lease_ok:
  assumes "release_campus_lab_operation_lease j lease error now = (j', held)" "journal_inv j"
  shows "journal_inv j' \<and>
     (if held then \<exists>o' o'' ops. load_operation j (ol_op_key lease) = Some o' \<and> held_by_lease lease o' \<and>
        o'' = o'\<lparr>lo_lease_owner := None, lo_lease_expires_at := None,
          lo_last_error := coalesce error (lo_last_error o'), lo_updated_at := now\<rparr> \<and>
        j' = j\<lparr>jn_ops := ops\<rparr> \<and> load_operation j' = (load_operation j)(ol_op_key lease \<mapsto> o'')
      else j' = j)"
proof (cases "\<exists>o'. load_operation j (ol_op_key lease) = Some o' \<and> held_by_lease lease o'")
  case True
  then obtain o' where o': "load_operation j (ol_op_key lease) = Some o'" "held_by_lease lease o'" by blast
  let ?f = "\<lambda>o'. o'\<lparr>lo_lease_owner := None, lo_lease_expires_at := None,
          lo_last_error := coalesce error (lo_last_error o'), lo_updated_at := now\<rparr>"
  let ?P = "held_by_lease lease"
  note O' = tables_okD(2) [OF journal_invD(2) [OF assms(2)] o'(1)]
  have P: "\<And>q. lo_op_key (?f q) = lo_op_key q" "\<And>q. ?P q \<Longrightarrow> lo_op_key q = ol_op_key lease"
    by (simp_all add: held_by_lease_def)
  note U = update_operation [of j "ol_op_key lease" o' ?P ?f,
      OF journal_invD(1) [OF assms(2)] o'(1, 2) P]
  have U': "load_operation (j\<lparr>jn_ops := update_where ?P ?f (jn_ops j)\<rparr>) =
      (load_operation j)(ol_op_key lease \<mapsto> ?f o')" "keys_ok (j\<lparr>jn_ops := update_where ?P ?f (jn_ops j)\<rparr>)"
    by (rule U(1), simp) (rule U(2), simp)
  have "rows_affected ?P (jn_ops j) = 1"
    using rows_affected_key [of lo_op_key "jn_ops j" o' ?P] keys_okD(2) [OF journal_invD(1) [OF assms(2)]]
      o' O' P(2) by (simp add: load_operation_lookup)
  then have j': "j' = j\<lparr>jn_ops := update_where ?P ?f (jn_ops j)\<rparr>" "held"
    using assms(1) by (auto simp: release_campus_lab_operation_lease_def)
  have "tables_ok (load_session j) ((load_operation j)(ol_op_key lease \<mapsto> ?f o')) (load_slot j)"
    by (rule move_op [OF journal_invD(2) [OF assms(2)] o'(1)])
      (use O' o'(2) in \<open>auto simp: op_ok_def op_row_ok_def op_update_ok_def held_by_lease_def\<close>)
  with U' have "journal_inv j'" by (simp add: j'(1) journal_inv_def)
  with o' j' U'(1) show ?thesis by auto
next
  case False
  have "\<not> held_by_lease lease q" if "q \<in> set (jn_ops j)" for q
    using that False keys_okD(2) [OF journal_invD(1) [OF assms(2)]]
    by (auto simp: load_operation_lookup lookup_Some held_by_lease_def)
  then have "update_where (held_by_lease lease) f (jn_ops j) = jn_ops j"
    "rows_affected (held_by_lease lease) (jn_ops j) = 0" for f
    by (simp_all add: update_none rows_affected_def filter_False)
  with assms show ?thesis by (auto simp: release_campus_lab_operation_lease_def)
qed

end
