(* ===== verification/LabSlots.thy ===== *)
theory LabSlots
  imports LabTransactions
begin

text \<open>
  Slot holds and the slot configuration of a tenant: the hold transactions of
  \<open>sqlite/campus_teardown.rs\<close> and their invariant. A hold keeps a slot out of allocation; at most one
  hold of a slot is active, and a hold changes only once, when it is released.
\<close>

section \<open>Hold rows\<close>

definition hold_kind_as_str :: "hold_kind \<Rightarrow> string" where
  "hold_kind_as_str k = (case k of HoldQuarantined \<Rightarrow> ''quarantined'' | HoldRetired \<Rightarrow> ''retired'')"

definition hold_kind_parse :: "string \<Rightarrow> hold_kind option" where
  "hold_kind_parse v =
     (if v = ''quarantined'' then Some HoldQuarantined
      else if v = ''retired'' then Some HoldRetired else None)"

definition MAX_HOLD_TEXT :: nat where "MAX_HOLD_TEXT = 512"

definition continues_char :: "char \<Rightarrow> bool" where
  "continues_char b \<longleftrightarrow> 128 \<le> byte b \<and> byte b \<le> 191"

fun take_chars :: "nat \<Rightarrow> string \<Rightarrow> string" where
  "take_chars n [] = []"
| "take_chars n (b # bs) =
     (if continues_char b then b # take_chars n bs
      else case n of 0 \<Rightarrow> [] | Suc m \<Rightarrow> b # take_chars m bs)"

definition bounded :: "string \<Rightarrow> string" where
  "bounded s = take_chars MAX_HOLD_TEXT s"

definition is_active :: "string \<Rightarrow> slot_hold \<Rightarrow> bool" where
  "is_active slot h \<longleftrightarrow> sh_slot_id h = slot \<and> sh_released_at h = None"

definition active_hold :: "journal \<Rightarrow> string \<Rightarrow> slot_hold option" where
  "active_hold j slot = find (is_active slot) (jn_holds j)"

text \<open>The \<open>CHECK\<close> constraints of migration 0061.\<close>

definition hold_row_ok :: "slot_hold \<Rightarrow> bool" where
  "hold_row_ok h \<longleftrightarrow>
     chars_between 1 512 (sh_reason h) \<and> chars_between 1 128 (sh_held_by h) \<and>
     (case (sh_released_at h, sh_released_by h, sh_release_reason h) of
        (None, None, None) \<Rightarrow> True
      | (Some at, Some by, Some reason) \<Rightarrow>
          chars_between 1 128 by \<and> chars_between 1 512 reason \<and> sh_held_at h \<le> at
      | _ \<Rightarrow> False)"

definition insert_hold ::
    "journal \<Rightarrow> string \<Rightarrow> hold_kind \<Rightarrow> string \<Rightarrow> string \<Rightarrow> int \<Rightarrow> (journal_error, journal \<times> slot_hold) res"
where
  "insert_hold j slot kind reason actor now =
     (let h = \<lparr>sh_sequence = int (length (jn_holds j)) + 1, sh_slot_id = slot, sh_kind = kind,
               sh_reason = bounded reason, sh_held_by = bounded actor, sh_held_at = now,
               sh_released_by = None, sh_released_at = None, sh_release_reason = None\<rparr> in
      if \<not> hold_row_ok h \<or> active_hold j slot \<noteq> None \<or> load_slot j slot = None then Inl JeStore
      else Inr (j\<lparr>jn_holds := jn_holds j @ [h]\<rparr>, h))"

definition to_release :: "string \<Rightarrow> hold_kind \<Rightarrow> string option \<Rightarrow> slot_hold \<Rightarrow> bool" where
  "to_release slot kind held_by h \<longleftrightarrow>
     is_active slot h \<and> sh_kind h = kind \<and> (held_by = None \<or> held_by = Some (sh_held_by h))"

definition released :: "string \<Rightarrow> string \<Rightarrow> int \<Rightarrow> slot_hold \<Rightarrow> slot_hold" where
  "released actor reason now h =
     h\<lparr>sh_released_by := Some (bounded actor), sh_released_at := Some (max now (sh_held_at h)),
       sh_release_reason := Some (bounded reason)\<rparr>"

definition release_hold ::
    "journal \<Rightarrow> string \<Rightarrow> hold_kind \<Rightarrow> string option \<Rightarrow> string \<Rightarrow> string \<Rightarrow> int
       \<Rightarrow> (journal_error, journal \<times> bool) res" where
  "release_hold j slot kind held_by actor reason now =
     (let P = to_release slot kind held_by; holds = update_where P (released actor reason now) (jn_holds j) in
      if list_ex (\<lambda>h. P h \<and> \<not> hold_row_ok (released actor reason now h)) (jn_holds j) then Inl JeStore
      else Inr (j\<lparr>jn_holds := holds\<rparr>, rows_affected P (jn_holds j) = 1))"

section \<open>Transactions\<close>

definition hold_campus_lab_slot ::
    "journal \<Rightarrow> string \<Rightarrow> string \<Rightarrow> hold_kind \<Rightarrow> string \<Rightarrow> string \<Rightarrow> int
       \<Rightarrow> (journal_error, journal \<times> slot_hold option) res" where
  "hold_campus_lab_slot j slot_id tenant_id kind reason actor now =
     (if is_blank reason \<or> is_blank actor then Inl JeInvalid
      else res_bind (ok_or (load_slot j slot_id) (JeNotFound slot_id)) (\<lambda>slot.
        if sl_tenant_id slot \<noteq> tenant_id then Inl (JeConflict ConflictTenant)
        else if active_hold j slot_id \<noteq> None then Inr (j, None)
        else res_bind (insert_hold j slot_id kind reason actor now) (\<lambda>(j', h). Inr (j', Some h))))"

definition release_campus_lab_slot_hold ::
    "journal \<Rightarrow> string \<Rightarrow> hold_kind \<Rightarrow> string option \<Rightarrow> string \<Rightarrow> string \<Rightarrow> int
       \<Rightarrow> (journal_error, journal \<times> bool) res" where
  "release_campus_lab_slot_hold j slot_id kind held_by actor reason now =
     (if is_blank reason \<or> is_blank actor then Inl JeInvalid
      else release_hold j slot_id kind held_by actor reason now)"

record slot_sync =
  sy_registered :: "string list"
  sy_retired :: "string list"
  sy_restored :: "string list"

fun sync_configured ::
    "string \<Rightarrow> string \<Rightarrow> int \<Rightarrow> string list \<Rightarrow> journal \<Rightarrow> slot_sync \<Rightarrow> (journal_error, journal \<times> slot_sync) res"
where
  "sync_configured tenant_id actor now [] j sync = Inr (j, sync)"
| "sync_configured tenant_id actor now (slot_id # slot_ids) j sync =
     res_bind (register_campus_lab_slot j slot_id tenant_id now) (\<lambda>(j1, slot).
     let sync1 = (if load_slot j slot_id = None
                  then sync\<lparr>sy_registered := sy_registered sync @ [slot_id]\<rparr> else sync) in
     res_bind (release_hold j1 slot_id HoldRetired None actor ''the slot is configured again'' now)
       (\<lambda>(j2, restored).
     sync_configured tenant_id actor now slot_ids j2
       (if restored then sync1\<lparr>sy_restored := sy_restored sync1 @ [slot_id]\<rparr> else sync1)))"

definition unheld_slot_ids :: "journal \<Rightarrow> string \<Rightarrow> string list" where
  "unheld_slot_ids j tenant_id =
     sort (map sl_slot_id
       (filter (\<lambda>s. sl_tenant_id s = tenant_id \<and> \<not> slot_held j (sl_slot_id s)) (jn_slots j)))"

fun sync_retired ::
    "string \<Rightarrow> int \<Rightarrow> string list \<Rightarrow> journal \<Rightarrow> slot_sync \<Rightarrow> (journal_error, journal \<times> slot_sync) res"
where
  "sync_retired actor now [] j sync = Inr (j, sync)"
| "sync_retired actor now (slot_id # slot_ids) j sync =
     res_bind (insert_hold j slot_id HoldRetired ''the slot is no longer configured'' actor now)
       (\<lambda>(j', h).
     sync_retired actor now slot_ids j' (sync\<lparr>sy_retired := sy_retired sync @ [slot_id]\<rparr>))"

definition sync_campus_lab_slots ::
    "journal \<Rightarrow> string \<Rightarrow> string list \<Rightarrow> string \<Rightarrow> int \<Rightarrow> (journal_error, journal \<times> slot_sync) res" where
  "sync_campus_lab_slots j tenant_id slot_ids actor now =
     (if slot_ids = [] \<or> is_blank actor then Inl JeInvalid
      else res_bind (sync_configured tenant_id actor now slot_ids j
             \<lparr>sy_registered = [], sy_retired = [], sy_restored = []\<rparr>) (\<lambda>(j1, sync).
        sync_retired actor now (filter (\<lambda>slot. slot \<notin> set slot_ids) (unheld_slot_ids j1 tenant_id)) j1 sync))"

section \<open>Queries\<close>

definition list_campus_lab_slot_holds :: "journal \<Rightarrow> string \<Rightarrow> slot_hold list" where
  "list_campus_lab_slot_holds j tenant_id =
     sort_key sh_held_at (sort_key sh_sequence
       (filter (\<lambda>h. sh_released_at h = None \<and>
          (case load_slot j (sh_slot_id h) of Some s \<Rightarrow> sl_tenant_id s = tenant_id | None \<Rightarrow> False))
         (jn_holds j)))"

definition list_campus_lab_slot_hold_history :: "journal \<Rightarrow> string \<Rightarrow> slot_hold list" where
  "list_campus_lab_slot_hold_history j slot_id =
     sort_key sh_sequence (filter (\<lambda>h. sh_slot_id h = slot_id) (jn_holds j))"

definition list_campus_lab_slots :: "journal \<Rightarrow> string \<Rightarrow> lab_slot list" where
  "list_campus_lab_slots j tenant_id =
     List.map_filter (load_slot j)
       (sort (map sl_slot_id (filter (\<lambda>s. sl_tenant_id s = tenant_id) (jn_slots j))))"

record cleanup_blocked_session =
  cb_session_id :: string
  cb_slot_id :: "string option"
  cb_blocked_reason :: "string option"
  cb_quarantined_at :: int
  cb_blocked_attempts :: int

definition blocked_session :: "journal \<Rightarrow> lab_session \<Rightarrow> cleanup_blocked_session" where
  "blocked_session j s =
     \<lparr>cb_session_id = ls_session_id s, cb_slot_id = ls_slot_id s, cb_blocked_reason = ls_blocked_reason s,
      cb_quarantined_at = (case ls_quarantined_at s of Some t \<Rightarrow> t | None \<Rightarrow> ls_updated_at s),
      cb_blocked_attempts = int (length (filter (\<lambda>q. lo_session_id q = ls_session_id s \<and>
         lo_kind q = OpDelete \<and> lo_status q = OsBlocked) (jn_ops j)))\<rparr>"

definition list_campus_cleanup_blocked_sessions :: "journal \<Rightarrow> string \<Rightarrow> cleanup_blocked_session list" where
  "list_campus_cleanup_blocked_sessions j tenant_id =
     sort_key cb_quarantined_at (sort_key cb_session_id
       (map (blocked_session j)
         (filter (\<lambda>s. ls_tenant_id s = tenant_id \<and> ls_state s = LsCleanupBlocked) (jn_sessions j))))"

datatype slot_condition =
    ScFree | ScOccupied | ScCleanupBlocked | ScQuarantined | ScRetired

definition ALL_SLOT_CONDITIONS :: "slot_condition list" where
  "ALL_SLOT_CONDITIONS = [ScFree, ScOccupied, ScCleanupBlocked, ScQuarantined, ScRetired]"

definition slot_condition_as_str :: "slot_condition \<Rightarrow> string" where
  "slot_condition_as_str c = (case c of ScFree \<Rightarrow> ''free'' | ScOccupied \<Rightarrow> ''occupied''
     | ScCleanupBlocked \<Rightarrow> ''cleanup_blocked'' | ScQuarantined \<Rightarrow> ''quarantined'' | ScRetired \<Rightarrow> ''retired'')"

definition slot_condition_parse :: "string \<Rightarrow> slot_condition option" where
  "slot_condition_parse v = find (\<lambda>c. slot_condition_as_str c = v) ALL_SLOT_CONDITIONS"

text \<open>The condition of a slot as the metrics query counts it.\<close>

definition slot_condition_of :: "journal \<Rightarrow> lab_slot \<Rightarrow> slot_condition" where
  "slot_condition_of j l =
     (let session = Option.bind (sl_occupant l) (load_session j); hold = active_hold j (sl_slot_id l) in
      if map_option ls_state session = Some LsCleanupBlocked then ScCleanupBlocked
      else if map_option sh_kind hold = Some HoldQuarantined then ScQuarantined
      else if sl_occupant l \<noteq> None then ScOccupied
      else if map_option sh_kind hold = Some HoldRetired then ScRetired
      else ScFree)"

section \<open>The invariant of holds\<close>

definition holds_ok :: "journal \<Rightarrow> bool" where
  "holds_ok j \<longleftrightarrow>
     list_all hold_row_ok (jn_holds j) \<and>
     distinct (map sh_slot_id (filter (\<lambda>h. sh_released_at h = None) (jn_holds j))) \<and>
     list_all (\<lambda>h. load_slot j (sh_slot_id h) \<noteq> None) (jn_holds j) \<and>
     map sh_sequence (jn_holds j) = map int [1..<Suc (length (jn_holds j))]"

lemma active_hold_None: "active_hold j slot = None \<longleftrightarrow> \<not> slot_held j slot"
  by (auto simp: active_hold_def slot_held_def is_active_def find_None_iff list_ex_iff)

lemma released_simps [simp]:
  "sh_slot_id (released a r n h) = sh_slot_id h" "sh_sequence (released a r n h) = sh_sequence h"
  "sh_held_by (released a r n h) = sh_held_by h" "sh_kind (released a r n h) = sh_kind h"
  "sh_reason (released a r n h) = sh_reason h" "sh_held_at (released a r n h) = sh_held_at h"
  "sh_released_at (released a r n h) \<noteq> None"
  by (simp_all add: released_def)

lemma distinct_active_update:
  "distinct (map sh_slot_id (filter (\<lambda>h. sh_released_at h = None) hs)) \<Longrightarrow>
     distinct (map sh_slot_id (filter (\<lambda>h. sh_released_at h = None) (update_where P (released a r n) hs)))"
proof (induction hs)
  case (Cons h hs)
  have "set (map sh_slot_id (filter (\<lambda>h. sh_released_at h = None) (update_where P (released a r n) hs)))
      \<subseteq> set (map sh_slot_id (filter (\<lambda>h. sh_released_at h = None) hs))" for hs
    by (auto simp: update_where_def image_iff)
  from this [of hs] Cons show ?case by (auto simp: update_where_def split: if_splits)
qed (simp add: update_where_def)

lemma find_snoc: "find P (xs @ [x]) = (case find P xs of Some y \<Rightarrow> Some y | None \<Rightarrow> if P x then Some x else None)"
  by (induction xs) auto

lemma insert_hold_ok:
  assumes "insert_hold j slot kind reason actor now = Inr (j', h)" "holds_ok j"
  shows "holds_ok j' \<and> j' = j\<lparr>jn_holds := jn_holds j @ [h]\<rparr> \<and> active_hold j' slot = Some h"
proof -
  have h: "hold_row_ok h" "active_hold j slot = None" "load_slot j slot \<noteq> None"
    "j' = j\<lparr>jn_holds := jn_holds j @ [h]\<rparr>" "sh_slot_id h = slot" "sh_released_at h = None"
    "sh_sequence h = int (length (jn_holds j)) + 1"
    using assms(1) by (auto simp: insert_hold_def Let_def split: if_splits)
  have "slot \<notin> set (map sh_slot_id (filter (\<lambda>h. sh_released_at h = None) (jn_holds j)))"
    using h(2) by (auto simp: active_hold_def find_None_iff is_active_def)
  with h assms(2) show ?thesis
    by (auto simp: holds_ok_def active_hold_def is_active_def find_snoc list_all_iff load_slot_def)
qed

lemma release_hold_ok:
  assumes "release_hold j slot kind held_by actor reason now = Inr (j', b)" "holds_ok j"
  shows "holds_ok j' \<and> (\<exists>holds. j' = j\<lparr>jn_holds := holds\<rparr>)"
proof -
  let ?P = "to_release slot kind held_by" and ?f = "released actor reason now"
  have j': "j' = j\<lparr>jn_holds := update_where ?P ?f (jn_holds j)\<rparr>"
    "\<And>h. h \<in> set (jn_holds j) \<Longrightarrow> ?P h \<Longrightarrow> hold_row_ok (?f h)"
    using assms(1) by (auto simp: release_hold_def Let_def list_ex_iff split: if_splits)
  have "map sh_sequence (update_where ?P ?f (jn_holds j)) = map sh_sequence (jn_holds j)"
    by (simp add: update_where_def o_def cong: if_cong)
  moreover have "list_all hold_row_ok (update_where ?P ?f (jn_holds j))"
    "list_all (\<lambda>h. load_slot j (sh_slot_id h) \<noteq> None) (update_where ?P ?f (jn_holds j))"
    using assms(2) j'(2) by (auto simp: holds_ok_def update_where_def list_all_iff)
  moreover have "length (update_where ?P ?f (jn_holds j)) = length (jn_holds j)"
    by (simp add: update_where_def)
  ultimately have "holds_ok j'" using assms(2) distinct_active_update
    by (simp add: holds_ok_def j'(1) load_slot_def del: upt_Suc)
  with j'(1) show ?thesis by blast
qed

text \<open>What the slot transactions may change: holds, and new slots.\<close>

definition slots_extended :: "journal \<Rightarrow> journal \<Rightarrow> bool" where
  "slots_extended j j' \<longleftrightarrow>
     journal_inv j' \<and> holds_ok j' \<and> load_slot j \<subseteq>\<^sub>m load_slot j' \<and>
     jn_sessions j' = jn_sessions j \<and> jn_ops j' = jn_ops j \<and> jn_events j' = jn_events j \<and>
     jn_hook_runs j' = jn_hook_runs j \<and> jn_identities j' = jn_identities j"

lemma slots_extended_refl: "journal_inv j \<Longrightarrow> holds_ok j \<Longrightarrow> slots_extended j j"
  by (simp add: slots_extended_def)

lemma slots_extended_trans: "slots_extended j j1 \<Longrightarrow> slots_extended j1 j2 \<Longrightarrow> slots_extended j j2"
  unfolding slots_extended_def by (auto intro: map_le_trans)

lemma register_extends:
  assumes "register_campus_lab_slot j slot_id tenant now = Inr (j', l)" "journal_inv j" "holds_ok j"
  shows "slots_extended j j'"
proof (cases "j' = j")
  case True
  with assms slots_extended_refl show ?thesis by simp
next
  case False
  with register_ok [OF assms(1, 2)] obtain slots where j': "journal_inv j'" "load_slot j slot_id = None"
    "load_slot j' = (load_slot j)(slot_id \<mapsto> l)" "j' = j\<lparr>jn_slots := slots\<rparr>" by blast
  then have "holds_ok j'" using assms(3) by (auto simp: holds_ok_def list_all_iff)
  moreover have "load_slot j \<subseteq>\<^sub>m load_slot j'" using j'(2, 3) by (auto simp: map_le_def dom_def)
  ultimately show ?thesis using j'(1) by (simp add: slots_extended_def j'(4))
qed

lemma holds_extend: "journal_inv j \<Longrightarrow> holds_ok (j\<lparr>jn_holds := holds\<rparr>) \<Longrightarrow> slots_extended j (j\<lparr>jn_holds := holds\<rparr>)"
  by (simp add: slots_extended_def journal_inv_def)

lemma insert_hold_extends:
  "insert_hold j slot kind reason actor now = Inr (j', h) \<Longrightarrow> journal_inv j \<Longrightarrow> holds_ok j \<Longrightarrow>
     slots_extended j j'"
  using insert_hold_ok holds_extend by metis

lemma release_hold_extends:
  "release_hold j slot kind held_by actor reason now = Inr (j', b) \<Longrightarrow> journal_inv j \<Longrightarrow> holds_ok j \<Longrightarrow>
     slots_extended j j'"
  using release_hold_ok holds_extend by metis

lemma hold_extends:
  "hold_campus_lab_slot j slot tenant kind reason actor now = Inr (j', h) \<Longrightarrow> journal_inv j \<Longrightarrow>
     holds_ok j \<Longrightarrow> slots_extended j j'"
  by (auto simp: hold_campus_lab_slot_def slots_extended_refl dest: insert_hold_extends split: if_splits)

lemma release_slot_hold_extends:
  "release_campus_lab_slot_hold j slot kind held_by actor reason now = Inr (j', b) \<Longrightarrow> journal_inv j \<Longrightarrow>
     holds_ok j \<Longrightarrow> slots_extended j j'"
  by (auto simp: release_campus_lab_slot_hold_def dest: release_hold_extends split: if_splits)

lemma extended_inv: "slots_extended j j' \<Longrightarrow> journal_inv j' \<and> holds_ok j'"
  by (simp add: slots_extended_def)

lemma sync_configured_extends:
  "sync_configured tenant actor now ids j sync = Inr (j', sync') \<Longrightarrow> journal_inv j \<Longrightarrow> holds_ok j \<Longrightarrow>
     slots_extended j j'"
proof (induction ids arbitrary: j sync)
  case (Cons slot ids)
  from Cons.prems(1) obtain j1 l j2 b sync2 where
    1: "register_campus_lab_slot j slot tenant now = Inr (j1, l)" and
    2: "release_hold j1 slot HoldRetired None actor ''the slot is configured again'' now = Inr (j2, b)" and
    3: "sync_configured tenant actor now ids j2 sync2 = Inr (j', sync')"
    by (auto simp: Let_def)
  from register_extends [OF 1 Cons.prems(2, 3)] have e1: "slots_extended j j1" .
  from release_hold_extends [OF 2] extended_inv [OF e1] have e2: "slots_extended j1 j2" by blast
  from Cons.IH [OF 3] extended_inv [OF e2] have "slots_extended j2 j'" by blast
  with e1 e2 show ?case by (blast intro: slots_extended_trans)
qed (simp add: slots_extended_refl)

lemma sync_retired_extends:
  "sync_retired actor now ids j sync = Inr (j', sync') \<Longrightarrow> journal_inv j \<Longrightarrow> holds_ok j \<Longrightarrow>
     slots_extended j j'"
proof (induction ids arbitrary: j sync)
  case (Cons slot ids)
  from Cons.prems(1) obtain j1 h sync1 where
    1: "insert_hold j slot HoldRetired ''the slot is no longer configured'' actor now = Inr (j1, h)" and
    2: "sync_retired actor now ids j1 sync1 = Inr (j', sync')" by auto
  from insert_hold_extends [OF 1 Cons.prems(2, 3)] have e1: "slots_extended j j1" .
  from Cons.IH [OF 2] extended_inv [OF e1] have "slots_extended j1 j'" by blast
  with e1 show ?case by (rule slots_extended_trans)
qed (simp add: slots_extended_refl)

lemma sync_extends:
  assumes "sync_campus_lab_slots j tenant ids actor now = Inr (j', sync)" "journal_inv j" "holds_ok j"
  shows "slots_extended j j'"
proof -
  from assms(1) obtain j1 sync0 sync1 ids1 where
    "sync_configured tenant actor now ids j sync0 = Inr (j1, sync1)"
    "sync_retired actor now ids1 j1 sync1 = Inr (j', sync)"
    by (auto simp: sync_campus_lab_slots_def split: if_splits)
  with sync_configured_extends sync_retired_extends assms(2, 3) extended_inv slots_extended_trans
  show ?thesis by metis
qed

end
