(* ===== verification/LabSafety.thy ===== *)
theory LabSafety
  imports LabSlots
begin

text \<open>
  The journal as the workers see it: a call is one transaction or one read, and answers with a
  reply. The reachable journals are those that any sequence of calls of any workers produces. Over them: the invariant, the schema's triggers, the
  exclusiveness of slots, the fencing of leases and generations, and the audit trail.
\<close>

section \<open>Calls\<close>

datatype journal_call =
    CallRegister string string int
  | CallCreate create_session
  | CallGetSession string
  | CallStop string string string int
  | CallObserve string int observed_state int
  | CallTransition lab_transition
  | CallLease string string int int
  | CallRelease op_lease "string option" int
  | CallPending string
  | CallHookRuns string
  | CallRecordHook string string string workload_ref int
  | CallPublish "int list" int
  | CallHold string string hold_kind string string int
  | CallReleaseHold string hold_kind "string option" string string int
  | CallSync string "string list" string int

datatype journal_reply =
    RepSlot "(journal_error, lab_slot) res"
  | RepCreated "(journal_error, lab_session \<times> bool) res"
  | RepSession "lab_session option"
  | RepStopped "(journal_error, lab_session) res"
  | RepObserved "(journal_error, lab_session) res"
  | RepTransition "(journal_error, transition_outcome) res"
  | RepLease "(journal_error, lab_operation) res"
  | RepReleased bool
  | RepPending "lab_operation option"
  | RepHookRuns "string list"
  | RepHook "(journal_error, bool) res"
  | RepPublished nat
  | RepHold "(journal_error, slot_hold option) res"
  | RepHoldReleased "(journal_error, bool) res"
  | RepSync "(journal_error, slot_sync) res"

definition commit :: "journal \<Rightarrow> (journal_error, journal \<times> 'a) res \<Rightarrow> journal \<times> (journal_error, 'a) res" where
  "commit j r = (case r of Inl e \<Rightarrow> (j, Inl e) | Inr (j', a) \<Rightarrow> (j', Inr a))"

definition reply :: "('a \<Rightarrow> journal_reply) \<Rightarrow> journal \<times> 'a \<Rightarrow> journal \<times> journal_reply" where
  "reply f p = (fst p, f (snd p))"

fun journal_answer :: "journal \<Rightarrow> journal_call \<Rightarrow> journal \<times> journal_reply" where
  "journal_answer j (CallRegister slot tenant now) =
     reply RepSlot (commit j (register_campus_lab_slot j slot tenant now))"
| "journal_answer j (CallCreate r) = reply RepCreated (commit j (insert_campus_lab_session j r))"
| "journal_answer j (CallGetSession sid) = (j, RepSession (load_session j sid))"
| "journal_answer j (CallStop sid actor reason now) =
     reply RepStopped (commit j (request_campus_lab_stop_in j sid actor reason now))"
| "journal_answer j (CallObserve sid g ob now) =
     reply RepObserved (commit j (record_campus_lab_observation j sid g ob now))"
| "journal_answer j (CallTransition t) =
     reply RepTransition (commit j (transition_campus_lab_session j t))"
| "journal_answer j (CallLease key owner now secs) =
     reply RepLease (commit j (lease_campus_lab_operation j key owner now secs))"
| "journal_answer j (CallRelease lease error now) =
     reply RepReleased (release_campus_lab_operation_lease j lease error now)"
| "journal_answer j (CallPending sid) = (j, RepPending (pending_operation j sid))"
| "journal_answer j (CallHookRuns sid) = (j, RepHookRuns (list_campus_teardown_hook_runs j sid))"
| "journal_answer j (CallRecordHook sid hook key w now) =
     reply RepHook (commit j (record_campus_teardown_hook_run j sid hook key w now))"
| "journal_answer j (CallPublish sequences now) =
     reply RepPublished (mark_campus_lab_events_published j sequences now)"
| "journal_answer j (CallHold slot tenant kind reason actor now) =
     reply RepHold (commit j (hold_campus_lab_slot j slot tenant kind reason actor now))"
| "journal_answer j (CallReleaseHold slot kind held_by actor reason now) =
     reply RepHoldReleased (commit j (release_campus_lab_slot_hold j slot kind held_by actor reason now))"
| "journal_answer j (CallSync tenant slots actor now) =
     reply RepSync (commit j (sync_campus_lab_slots j tenant slots actor now))"

inductive journal_step :: "journal \<Rightarrow> journal \<Rightarrow> bool" where
  step_call: "journal_answer j c = (j', r) \<Longrightarrow> journal_step j j'"

inductive_cases journal_stepE: "journal_step j j'"

inductive journal_steps :: "journal \<Rightarrow> journal \<Rightarrow> bool" where
  steps_here: "journal_steps j j"
| steps_more: "journal_step j j1 \<Longrightarrow> journal_steps j1 j2 \<Longrightarrow> journal_steps j j2"

definition empty_journal :: "(string \<times> string \<times> string) list \<Rightarrow> journal" where
  "empty_journal identities =
     \<lparr>jn_sessions = [], jn_ops = [], jn_slots = [], jn_holds = [], jn_events = [], jn_hook_runs = [],
      jn_identities = identities\<rparr>"

definition journal_reachable :: "journal \<Rightarrow> bool" where
  "journal_reachable j \<longleftrightarrow> (\<exists>identities. journal_steps (empty_journal identities) j)"

section \<open>One step\<close>

text \<open>A step keeps every row, and changes one only as its trigger allows.\<close>

definition journal_grows :: "journal \<Rightarrow> journal \<Rightarrow> bool" where
  "journal_grows j j' \<longleftrightarrow>
     rows_step session_update_ok (load_session j) (load_session j') \<and>
     rows_step op_update_ok (load_operation j) (load_operation j') \<and>
     rows_step slot_update_ok (load_slot j) (load_slot j')"

lemma grows_refl [simp]: "journal_grows j j"
  by (simp add: journal_grows_def)

lemma rows_step_at: "M k = Some r \<Longrightarrow> M' = M(k \<mapsto> r') \<Longrightarrow> ok r r' \<Longrightarrow> rows_step ok M M'"
  by (simp add: rows_step_upd)

text \<open>The trail of a session: the states it entered, as the audit events record them.\<close>

definition trail :: "journal \<Rightarrow> string \<Rightarrow> lab_session_state list" where
  "trail j sid = map (\<lambda>e. the (ev_to e)) (filter (\<lambda>e. ev_session_id e = sid \<and> ev_to e \<noteq> None) (jn_events j))"

definition session_trail_ok :: "journal \<Rightarrow> string \<Rightarrow> bool" where
  "session_trail_ok j sid \<longleftrightarrow>
     (case load_session j sid of
        None \<Rightarrow> trail j sid = []
      | Some s \<Rightarrow> \<exists>ts. trail j sid = LsRequested # ts \<and> lab_path LsRequested ts (ls_state s) \<and>
          ls_generation s = 1 + int (length ts))"

definition audit_ok :: "journal \<Rightarrow> bool" where
  "audit_ok j \<longleftrightarrow>
     (\<forall>sid. session_trail_ok j sid) \<and>
     map ev_sequence (jn_events j) = map int [1..<Suc (length (jn_events j))]"

lemma audit_okD:
  assumes "audit_ok j"
  shows "session_trail_ok j sid" "load_session j sid = None \<Longrightarrow> trail j sid = []"
    "map ev_sequence (jn_events j) = map int [1..<Suc (length (jn_events j))]"
  using assms [unfolded audit_ok_def, THEN conjunct1, rule_format, of sid]
    assms [unfolded audit_ok_def, THEN conjunct2]
  by (simp_all only: session_trail_ok_def option.case)

lemma session_trailD:
  assumes "audit_ok j" "load_session j sid = Some s"
  obtains ts where "trail j sid = LsRequested # ts" "lab_path LsRequested ts (ls_state s)"
    "ls_generation s = 1 + int (length ts)"
  using audit_okD(1) [OF assms(1), of sid] assms(2) by (auto simp: session_trail_ok_def)

lemma session_trail_same:
  "session_trail_ok j sid \<Longrightarrow> trail j' sid = trail j sid \<Longrightarrow> load_session j' sid = load_session j sid \<Longrightarrow>
     session_trail_ok j' sid"
  by (cases "load_session j sid") (simp_all add: session_trail_ok_def)

lemma trail_append:
  "jn_events j' = jn_events j @ [ev] \<Longrightarrow>
     trail j' sid = trail j sid @ (if ev_session_id ev = sid \<and> ev_to ev \<noteq> None then [the (ev_to ev)] else [])"
  by (simp add: trail_def)

lemma sequence_append:
  assumes "map ev_sequence (jn_events j) = map int [1..<Suc (length (jn_events j))]"
    "jn_events j' = jn_events j @ [ev]" "ev_sequence ev = int (length (jn_events j)) + 1"
  shows "map ev_sequence (jn_events j') = map int [1..<Suc (length (jn_events j'))]"
  using assms by simp

lemma audit_same:
  assumes "audit_ok j" "jn_events j' = jn_events j"
    "\<And>sid. map_option (\<lambda>s. (ls_state s, ls_generation s)) (load_session j' sid) =
       map_option (\<lambda>s. (ls_state s, ls_generation s)) (load_session j sid)"
  shows "audit_ok j'"
proof -
  have "session_trail_ok j' sid" for sid
  proof -
    have "session_trail_ok j sid" "trail j' sid = trail j sid"
      using assms(1, 2) by (simp_all add: audit_ok_def trail_def)
    with assms(3) [of sid] show ?thesis
      by (cases "load_session j sid"; cases "load_session j' sid")
        (simp_all add: session_trail_ok_def)
  qed
  with assms show ?thesis by (simp add: audit_ok_def)
qed

lemma lab_path_snoc: "lab_path a ts b \<Longrightarrow> c \<in> set (successors b) \<Longrightarrow> lab_path a (ts @ [c]) c"
  by (rule lab_path_append) auto

definition step_ok :: "journal \<Rightarrow> journal \<Rightarrow> bool" where
  "step_ok j j' \<longleftrightarrow> journal_inv j' \<and> audit_ok j' \<and> journal_grows j j'"

text \<open>Only the slot transactions touch the holds.\<close>

lemma holds_untouched:
  "transition_campus_lab_session j t = Inr (j', out) \<Longrightarrow> journal_inv j \<Longrightarrow> jn_holds j' = jn_holds j"
  using transition_committed [of j t j' out] by (auto simp: committed_def)

lemma holds_ok_grows:
  "holds_ok j \<Longrightarrow> jn_holds j' = jn_holds j \<Longrightarrow> journal_grows j j' \<Longrightarrow> holds_ok j'"
  by (fastforce simp: holds_ok_def journal_grows_def rows_step_def list_all_iff)

lemma transition_step_ok:
  assumes "transition_campus_lab_session j t = Inr (j', out)" "journal_inv j" "audit_ok j"
  shows "step_ok j j'"
proof -
  from transition_committed [OF assms(1, 2)] obtain s e nx
    where inv': "journal_inv j'" and c: "committed j t s e nx j' out" by blast
  from c have s: "load_session j (lt_session_id t) = Some s" "ls_session_id s = lt_session_id t"
    "load_session j' = (load_session j)(lt_session_id t \<mapsto> nx)" "nx = write_session s t e"
    "effect_ok j t s e" "ls_state s = lt_from t" "lt_to t \<in> set (successors (lt_from t))"
    "jn_events j' = jn_events j @ [transition_event j t e nx]"
    by (simp_all add: committed_def)
  have u: "session_update_ok s nx" "rows_step op_update_ok (load_operation j) (load_operation (ef_journal e))"
    "rows_step slot_update_ok (load_slot j) (load_slot (ef_journal e))"
    using s by (simp_all add: effect_ok_def Let_def)
  have "rows_step session_update_ok (load_session j) (load_session j')"
    by (rule rows_step_at, rule s(1), rule s(3), rule u(1))
  moreover have "rows_step op_update_ok (load_operation j) (load_operation j')"
  proof (cases "ef_begins e")
    case None
    with c u(2) show ?thesis by (simp add: committed_def)
  next
    case (Some kind)
    with c show ?thesis by (auto simp: committed_def intro: rows_step_new)
  qed
  moreover have "rows_step slot_update_ok (load_slot j) (load_slot j')"
    using c u(3) by (simp add: committed_def)
  moreover have "audit_ok j'"
  proof -
    have ev: "ev_session_id (transition_event j t e nx) = lt_session_id t"
      "ev_to (transition_event j t e nx) = Some (lt_to t)"
      "ev_sequence (transition_event j t e nx) = int (length (jn_events j)) + 1"
      using u(1) s(2) by (simp_all add: transition_event_def session_update_ok_def)
    have n: "ls_state nx = lt_to t" "ls_generation nx = ls_generation s + 1"
      by (simp_all add: s(4) write_session_def)
    have "session_trail_ok j' sid" for sid
    proof (cases "sid = lt_session_id t")
      case True
      obtain ts where "trail j sid = LsRequested # ts" "lab_path LsRequested ts (lt_from t)"
        "ls_generation s = 1 + int (length ts)"
        using session_trailD [OF assms(3) s(1)] s(6) True by metis
      with True s(3, 7) n ev trail_append [OF s(8), of sid] show ?thesis
        by (auto simp: session_trail_ok_def intro: lab_path_snoc)
    next
      case False
      then have "trail j' sid = trail j sid" using trail_append [OF s(8), of sid] ev by simp
      with False s(3) show ?thesis
        by (intro session_trail_same [OF audit_okD(1) [OF assms(3)]]) simp_all
    qed
    with sequence_append [OF audit_okD(3) [OF assms(3)] s(8) ev(3)] show ?thesis by (simp add: audit_ok_def)
  qed
  ultimately show ?thesis using inv' by (simp add: step_ok_def journal_grows_def)
qed

lemma create_step_ok:
  assumes "insert_campus_lab_session j r = Inr (j', s, created)" "journal_inv j" "audit_ok j"
  shows "step_ok j j'"
proof (cases created)
  case False
  with insert_session_ok [OF assms(1, 2)] assms show ?thesis by (simp add: step_ok_def)
next
  case True
  note I = insert_session_ok [OF assms(1, 2)]
  let ?ev = "\<lparr>ev_sequence = int (length (jn_events j)) + 1,
          ev_session_id = cs_session_id r, ev_kind = ''campus.session.requested'', ev_from = None,
          ev_to = Some LsRequested, ev_generation = 1, ev_op_key = None, ev_actor = cs_actor r,
          ev_payload = PayRequested (cs_course_id r) (cs_profile r) (cs_expires_at r),
          ev_created_at = cs_now r, ev_published_at = None\<rparr>"
  from I True have c: "journal_inv j'" "load_session j (cs_session_id r) = None" "s = requested_session r"
    "load_session j' = (load_session j)(cs_session_id r \<mapsto> s)" "jn_events j' = jn_events j @ [?ev]"
    "load_operation j' = load_operation j" "load_slot j' = load_slot j" by simp_all
  have "session_trail_ok j' sid" for sid
  proof (cases "sid = cs_session_id r")
    case True
    with c audit_okD(2) [OF assms(3) c(2)] trail_append [OF c(5), of sid] show ?thesis
      by (simp add: session_trail_ok_def requested_session_def)
  next
    case False
    with c trail_append [OF c(5), of sid] show ?thesis
      by (intro session_trail_same [OF audit_okD(1) [OF assms(3)]]) simp_all
  qed
  then have "audit_ok j'"
    using sequence_append [OF audit_okD(3) [OF assms(3)] c(5)] by (simp add: audit_ok_def)
  moreover have "journal_grows j j'"
    unfolding journal_grows_def c(4, 6, 7) using rows_step_new [of "load_session j", OF c(2)] by simp
  ultimately show ?thesis using c(1) by (simp add: step_ok_def)
qed

lemma stop_step_ok:
  assumes "request_campus_lab_stop_in j sid actor reason now = Inr (j', s')" "journal_inv j" "audit_ok j"
  shows "step_ok j j'"
proof -
  from stop_ok [OF assms(1, 2)] obtain s where s: "journal_inv j'" "load_session j sid = Some s"
    and cases: "if is_terminal (ls_state s) \<or> ls_desired s = DesiredTerminated then j' = j \<and> s' = s
      else s' = s\<lparr>ls_desired := DesiredTerminated, ls_updated_at := now\<rparr> \<and>
        load_session j' = (load_session j)(sid \<mapsto> s') \<and> load_operation j' = load_operation j \<and>
        load_slot j' = load_slot j \<and>
        jn_hook_runs j' = jn_hook_runs j \<and> jn_identities j' = jn_identities j \<and>
        (\<exists>ev. jn_events j' = jn_events j @ [ev] \<and> ev_session_id ev = sid \<and> ev_to ev = None \<and>
           ev_sequence ev = int (length (jn_events j)) + 1)"
    by blast
  show ?thesis
  proof (cases "is_terminal (ls_state s) \<or> ls_desired s = DesiredTerminated")
    case True
    with cases assms show ?thesis by (simp add: step_ok_def)
  next
    case False
    with cases obtain ev where c: "s' = s\<lparr>ls_desired := DesiredTerminated, ls_updated_at := now\<rparr>"
      "load_session j' = (load_session j)(sid \<mapsto> s')" "load_operation j' = load_operation j"
      "load_slot j' = load_slot j" "jn_events j' = jn_events j @ [ev]" "ev_to ev = None"
      "ev_sequence ev = int (length (jn_events j)) + 1" by auto
    have "session_trail_ok j' sid'" for sid'
    proof (cases "sid' = sid")
      case True
      with audit_okD(1) [OF assms(3), of sid] s(2) c trail_append [OF c(5), of sid] show ?thesis
        by (simp add: session_trail_ok_def)
    next
      case False
      with c trail_append [OF c(5), of sid'] show ?thesis
        by (intro session_trail_same [OF audit_okD(1) [OF assms(3)]]) simp_all
    qed
    then have "audit_ok j'"
      using sequence_append [OF audit_okD(3) [OF assms(3)] c(5, 7)] by (simp add: audit_ok_def)
    moreover have "session_update_ok s s'" using False c(1) by (simp add: session_update_ok_def)
    then have "journal_grows j j'"
      unfolding journal_grows_def c(2-4) using rows_step_upd [of "load_session j", OF s(2)] by simp
    ultimately show ?thesis using s(1) by (simp add: step_ok_def)
  qed
qed

lemma observe_step_ok:
  assumes "record_campus_lab_observation j sid g ob now = Inr (j', s')" "journal_inv j" "audit_ok j"
  shows "step_ok j j'"
proof -
  from observation_ok [OF assms(1, 2)] obtain s sessions where s: "journal_inv j'"
    "load_session j sid = Some s" "\<not> is_terminal (ls_state s)" "j' = j\<lparr>jn_sessions := sessions\<rparr>"
    "s' = s\<lparr>ls_observed := ob, ls_observed_at := Some now, ls_updated_at := now\<rparr>"
    "load_session j' = (load_session j)(sid \<mapsto> s')" by blast
  have "audit_ok j'"
    by (rule audit_same [OF assms(3)]) (use s in auto)
  moreover have "session_update_ok s s'" using s(3, 5) by (simp add: session_update_ok_def)
  then have "journal_grows j j'"
    using rows_step_upd [of "load_session j", OF s(2)] s(4, 6) by (simp add: journal_grows_def)
  ultimately show ?thesis using s(1) by (simp add: step_ok_def)
qed

lemma same_sessions_audit: "audit_ok j \<Longrightarrow> audit_ok (j\<lparr>jn_ops := ops\<rparr>)"
  "audit_ok j \<Longrightarrow> audit_ok (j\<lparr>jn_slots := slots\<rparr>)" "audit_ok j \<Longrightarrow> audit_ok (j\<lparr>jn_holds := holds\<rparr>)"
  "audit_ok j \<Longrightarrow> audit_ok (j\<lparr>jn_hook_runs := runs\<rparr>)"
  by (auto intro: audit_same)

lemma mark_published_same:
  "map (\<lambda>e. e\<lparr>ev_published_at := None\<rparr>) (fst (mark_published ns now events n)) =
     map (\<lambda>e. e\<lparr>ev_published_at := None\<rparr>) events"
  by (induction ns now events n rule: mark_published.induct)
    (auto simp: Let_def update_where_def o_def)

lemma publish_audit:
  assumes "audit_ok j"
  shows "audit_ok (fst (mark_campus_lab_events_published j ns now))"
proof -
  let ?j = "fst (mark_campus_lab_events_published j ns now)"
  let ?z = "\<lambda>e. e\<lparr>ev_published_at := None\<rparr>"
  have evs: "map ?z (jn_events ?j) = map ?z (jn_events j)"
    by (simp add: mark_campus_lab_events_published_def split_beta mark_published_same)
  have z: "map f (jn_events ?j) = map f (jn_events j)" if "\<And>e. f (?z e) = f e" for f :: "lab_event \<Rightarrow> 'b"
    using arg_cong [OF evs, of "map f"] that by (simp add: o_def)
  have "trail ?j sid = trail j sid" for sid
  proof -
    have t: "trail k sid = map (\<lambda>(_, x). the x) (filter (\<lambda>(i, x). i = sid \<and> x \<noteq> None)
        (map (\<lambda>e. (ev_session_id e, ev_to e)) (jn_events k)))" for k
      by (simp add: trail_def filter_map o_def)
    show ?thesis unfolding t by (subst z) simp_all
  qed
  moreover have "load_session ?j = load_session j"
    by (simp add: mark_campus_lab_events_published_def split_beta)
  moreover have "map ev_sequence (jn_events ?j) = map ev_sequence (jn_events j)" by (rule z) simp
  moreover have "length (jn_events ?j) = length (jn_events j)" using arg_cong [OF evs, of length] by simp
  ultimately have "session_trail_ok ?j sid" for sid
    by (intro session_trail_same [OF audit_okD(1) [OF assms]]) simp_all
  with \<open>map ev_sequence (jn_events ?j) = map ev_sequence (jn_events j)\<close> \<open>length (jn_events ?j) = length (jn_events j)\<close>
  show ?thesis using audit_okD(3) [OF assms] by (simp add: audit_ok_def)
qed

lemma publish_step_ok:
  assumes "journal_inv j" "audit_ok j"
  shows "step_ok j (fst (mark_campus_lab_events_published j ns now))"
  using assms(1) publish_audit [OF assms(2)]
  by (simp add: step_ok_def journal_inv_def journal_grows_def mark_campus_lab_events_published_def split_beta)

lemma op_step_ok:
  assumes "journal_inv (j\<lparr>jn_ops := ops\<rparr>)" "audit_ok j" "load_operation j key = Some o'"
    "load_operation (j\<lparr>jn_ops := ops\<rparr>) = (load_operation j)(key \<mapsto> o'')" "op_update_ok o' o''"
  shows "step_ok j (j\<lparr>jn_ops := ops\<rparr>)"
  using assms(1) same_sessions_audit(1) [OF assms(2)]
    rows_step_upd [of "load_operation j" key o' op_update_ok o'', OF assms(3, 5)]
  by (simp add: step_ok_def journal_grows_def assms(4))

lemma lease_step_ok:
  assumes "lease_campus_lab_operation j key owner now secs = Inr (j', leased)" "journal_inv j" "audit_ok j"
  shows "step_ok j j'"
proof -
  from lease_ok [OF assms(1, 2)] obtain o' ops where o': "journal_inv j'" "load_operation j key = Some o'"
    "lo_status o' = OsPending" "j' = j\<lparr>jn_ops := ops\<rparr>"
    "leased = o'\<lparr>lo_lease_owner := Some owner, lo_lease_expires_at := Some (saturating_add now secs),
        lo_lease_fence := lo_lease_fence o' + 1, lo_attempt_count := lo_attempt_count o' + 1,
        lo_updated_at := now\<rparr>"
    "load_operation j' = (load_operation j)(key \<mapsto> leased)" by blast
  have "op_update_ok o' leased" using o'(3, 5) by (simp add: op_update_ok_def)
  with o' show ?thesis by (metis op_step_ok [OF _ assms(3) o'(2)])
qed

lemma release_lease_step_ok:
  assumes "release_campus_lab_operation_lease j lease error now = (j', held)" "journal_inv j" "audit_ok j"
  shows "step_ok j j'"
proof (cases held)
  case True
  with release_lease_ok [OF assms(1, 2)] obtain o' o'' ops where o': "journal_inv j'"
    "load_operation j (ol_op_key lease) = Some o'" "held_by_lease lease o'"
    "o'' = o'\<lparr>lo_lease_owner := None, lo_lease_expires_at := None,
          lo_last_error := coalesce error (lo_last_error o'), lo_updated_at := now\<rparr>"
    "j' = j\<lparr>jn_ops := ops\<rparr>" "load_operation j' = (load_operation j)(ol_op_key lease \<mapsto> o'')" by auto
  have "op_update_ok o' o''" using o'(3, 4) by (simp add: op_update_ok_def held_by_lease_def)
  with o' show ?thesis by (metis op_step_ok [OF _ assms(3) o'(2)])
next
  case False
  with release_lease_ok [OF assms(1, 2)] assms show ?thesis by (simp add: step_ok_def)
qed

lemma slots_step_ok:
  assumes "slots_extended j j'" "audit_ok j"
  shows "step_ok j j'"
proof -
  have e: "journal_inv j'" "load_slot j \<subseteq>\<^sub>m load_slot j'" "jn_sessions j' = jn_sessions j"
    "jn_ops j' = jn_ops j" "jn_events j' = jn_events j"
    using assms(1) by (simp_all add: slots_extended_def)
  have l: "load_session j' = load_session j" "load_operation j' = load_operation j"
    using e(3, 4) by (simp_all add: load_lookup)
  have "audit_ok j'" by (rule audit_same [OF assms(2) e(5)]) (simp add: l)
  moreover have "rows_step slot_update_ok (load_slot j) (load_slot j')"
    using e(2) by (fastforce simp: rows_step_def map_le_def dom_def)
  ultimately show ?thesis using e(1) by (simp add: step_ok_def journal_grows_def l)
qed

lemma hook_step_ok:
  assumes "record_campus_teardown_hook_run j sid hook key w now = Inr (j', b)" "journal_inv j" "audit_ok j"
  shows "step_ok j j' \<and> jn_holds j' = jn_holds j"
proof -
  have "\<exists>runs. j' = j\<lparr>jn_hook_runs := runs\<rparr> \<or> j' = j"
    using assms(1) by (auto simp: record_campus_teardown_hook_run_def split: if_splits)
  then obtain runs where "j' = j\<lparr>jn_hook_runs := runs\<rparr> \<or> j' = j" by blast
  with assms same_sessions_audit(4) [of j runs] show ?thesis
    by (auto simp: step_ok_def journal_inv_def journal_grows_def)
qed

definition sound :: "journal \<Rightarrow> bool" where
  "sound j \<longleftrightarrow> journal_inv j \<and> audit_ok j \<and> holds_ok j"

definition sound_step :: "journal \<Rightarrow> journal \<Rightarrow> bool" where
  "sound_step j j' \<longleftrightarrow> sound j' \<and> journal_grows j j'"

lemma sound_stepI: "step_ok j j' \<Longrightarrow> holds_ok j \<Longrightarrow> jn_holds j' = jn_holds j \<Longrightarrow> sound_step j j'"
  using holds_ok_grows by (auto simp: sound_step_def sound_def step_ok_def)

lemma sound_slots: "slots_extended j j' \<Longrightarrow> audit_ok j \<Longrightarrow> sound_step j j'"
  using slots_step_ok by (auto simp: sound_step_def sound_def step_ok_def slots_extended_def)

lemma sound_same [simp]: "sound_step j j \<longleftrightarrow> sound j"
  by (simp add: sound_step_def)

lemma commit_cases:
  "reply f (commit j r) = (j', rep) \<Longrightarrow>
     (\<And>a. r = Inr (j', a) \<Longrightarrow> rep = f (Inr a) \<Longrightarrow> P) \<Longrightarrow> (\<And>e. r = Inl e \<Longrightarrow> j' = j \<Longrightarrow> P) \<Longrightarrow> P"
  by (cases r) (auto simp: reply_def commit_def)

lemma create_holds: "insert_campus_lab_session j r = Inr (j', a) \<Longrightarrow> jn_holds j' = jn_holds j"
  by (auto simp: insert_campus_lab_session_def insert_event_def Let_def split: if_splits option.splits)

lemma stop_holds: "request_campus_lab_stop_in j sid actor reason now = Inr (j', a) \<Longrightarrow> jn_holds j' = jn_holds j"
  by (auto simp: request_campus_lab_stop_in_def insert_event_def Let_def split: if_splits)

lemma observe_holds: "record_campus_lab_observation j sid g ob now = Inr (j', a) \<Longrightarrow> jn_holds j' = jn_holds j"
  by (auto simp: record_campus_lab_observation_def Let_def split: if_splits)

lemma lease_holds: "lease_campus_lab_operation j key owner now secs = Inr (j', a) \<Longrightarrow> jn_holds j' = jn_holds j"
  by (auto simp: lease_campus_lab_operation_def Let_def split: if_splits option.splits)

theorem answer_sound:
  assumes "journal_answer j c = (j', r)" "sound j"
  shows "sound_step j j'"
proof -
  have inv: "journal_inv j" "audit_ok j" "holds_ok j" using assms(2) by (simp_all add: sound_def)
  show ?thesis
  proof (cases c)
    case (CallRegister slot tenant now)
    with assms(1) have "reply RepSlot (commit j (register_campus_lab_slot j slot tenant now)) = (j', r)" by simp
    then show ?thesis
      by (rule commit_cases)
        (use inv assms(2) in \<open>auto intro: sound_slots dest: register_extends\<close>)
  next
    case (CallCreate req)
    with assms(1) have "reply RepCreated (commit j (insert_campus_lab_session j req)) = (j', r)" by simp
    then show ?thesis
      by (rule commit_cases)
        (use inv assms(2) create_holds in \<open>auto intro: sound_stepI create_step_ok\<close>)
  next
    case (CallStop sid actor reason now)
    with assms(1) have "reply RepStopped (commit j (request_campus_lab_stop_in j sid actor reason now)) = (j', r)"
      by simp
    then show ?thesis
      by (rule commit_cases)
        (use inv assms(2) stop_holds in \<open>auto intro: sound_stepI stop_step_ok\<close>)
  next
    case (CallObserve sid g ob now)
    with assms(1) have "reply RepObserved (commit j (record_campus_lab_observation j sid g ob now)) = (j', r)"
      by simp
    then show ?thesis
      by (rule commit_cases)
        (use inv assms(2) observe_holds in \<open>auto intro: sound_stepI observe_step_ok\<close>)
  next
    case (CallTransition t)
    with assms(1) have "reply RepTransition (commit j (transition_campus_lab_session j t)) = (j', r)" by simp
    then show ?thesis
      by (rule commit_cases)
        (use inv assms(2) holds_untouched in \<open>auto intro: sound_stepI transition_step_ok\<close>)
  next
    case (CallLease key owner now secs)
    with assms(1) have "reply RepLease (commit j (lease_campus_lab_operation j key owner now secs)) = (j', r)"
      by simp
    then show ?thesis
      by (rule commit_cases)
        (use inv assms(2) lease_holds in \<open>auto intro: sound_stepI lease_step_ok\<close>)
  next
    case (CallRelease lease error now)
    then obtain held where "release_campus_lab_operation_lease j lease error now = (j', held)"
      using assms(1) by (auto simp: reply_def prod_eq_iff)
    moreover from this have "jn_holds j' = jn_holds j"
      by (auto simp: release_campus_lab_operation_lease_def)
    ultimately show ?thesis using inv by (blast intro: sound_stepI release_lease_step_ok)
  next
    case (CallRecordHook sid hook key w now)
    with assms(1) have "reply RepHook (commit j (record_campus_teardown_hook_run j sid hook key w now)) = (j', r)"
      by simp
    then show ?thesis
      by (rule commit_cases)
        (use inv assms(2) hook_step_ok in \<open>auto intro: sound_stepI\<close>)
  next
    case (CallPublish ns now)
    then have "j' = fst (mark_campus_lab_events_published j ns now)" using assms(1) by (simp add: reply_def)
    moreover have "jn_holds (fst (mark_campus_lab_events_published j ns now)) = jn_holds j"
      by (simp add: mark_campus_lab_events_published_def split_beta)
    ultimately show ?thesis using inv publish_step_ok sound_stepI by metis
  next
    case (CallHold slot tenant kind reason actor now)
    with assms(1) have "reply RepHold (commit j (hold_campus_lab_slot j slot tenant kind reason actor now)) = (j', r)"
      by simp
    then show ?thesis
      by (rule commit_cases) (use inv assms(2) in \<open>auto intro: sound_slots hold_extends\<close>)
  next
    case (CallReleaseHold slot kind held_by actor reason now)
    with assms(1) have "reply RepHoldReleased
        (commit j (release_campus_lab_slot_hold j slot kind held_by actor reason now)) = (j', r)" by simp
    then show ?thesis
      by (rule commit_cases) (use inv assms(2) in \<open>auto intro: sound_slots release_slot_hold_extends\<close>)
  next
    case (CallSync tenant slots actor now)
    with assms(1) have "reply RepSync (commit j (sync_campus_lab_slots j tenant slots actor now)) = (j', r)" by simp
    then show ?thesis
      by (rule commit_cases) (use inv assms(2) in \<open>auto intro: sound_slots sync_extends\<close>)
  qed (use assms in auto)
qed

section \<open>Reachable journals\<close>

lemma empty_sound: "sound (empty_journal identities)"
proof -
  have "load_session (empty_journal identities) = Map.empty" "load_operation (empty_journal identities) = Map.empty"
    "load_slot (empty_journal identities) = Map.empty"
    by (simp_all add: load_session_def load_operation_def load_slot_def empty_journal_def fun_eq_iff)
  then show ?thesis
    by (simp add: sound_def journal_inv_def keys_ok_def tables_ok_def occupancies_unique_def audit_ok_def
        session_trail_ok_def trail_def holds_ok_def empty_journal_def)
qed

lemma step_sound: "journal_step j j' \<Longrightarrow> sound j \<Longrightarrow> sound_step j j'"
  by (erule journal_stepE) (rule answer_sound)

lemma steps_sound: "journal_steps j j' \<Longrightarrow> sound j \<Longrightarrow> sound j'"
  by (induction rule: journal_steps.induct) (auto dest: step_sound simp: sound_step_def)

lemma reachable_sound: "journal_reachable j \<Longrightarrow> sound j"
  using empty_sound steps_sound by (auto simp: journal_reachable_def)

lemma steps_snoc: "journal_steps j j1 \<Longrightarrow> journal_step j1 j2 \<Longrightarrow> journal_steps j j2"
  by (induction rule: journal_steps.induct) (blast intro: journal_steps.intros)+

lemma reachable_step: "journal_reachable j \<Longrightarrow> journal_step j j' \<Longrightarrow> journal_reachable j'"
  unfolding journal_reachable_def by (blast intro: steps_snoc)

fun run_calls :: "journal \<Rightarrow> journal_call list \<Rightarrow> journal" where
  "run_calls j [] = j"
| "run_calls j (c # cs) = run_calls (fst (journal_answer j c)) cs"

lemma run_calls_steps: "journal_steps j (run_calls j cs)"
  by (induction j cs rule: run_calls.induct)
    (auto intro!: steps_here intro: steps_more step_call [OF surjective_pairing])

lemma run_calls_reachable: "journal_reachable (run_calls (empty_journal identities) cs)"
  using run_calls_steps by (auto simp: journal_reachable_def)

text \<open>What a row keeps over any number of steps.\<close>

lemma session_steps:
  "journal_steps j j' \<Longrightarrow> sound j \<Longrightarrow> load_session j sid = Some s \<Longrightarrow>
     \<exists>s'. load_session j' sid = Some s' \<and> ls_generation s \<le> ls_generation s' \<and>
       (ls_generation s' = ls_generation s \<longrightarrow> ls_state s' = ls_state s) \<and>
       (is_terminal (ls_state s) \<longrightarrow> s' = s) \<and>
       (ls_desired s = DesiredTerminated \<longrightarrow> ls_desired s' = DesiredTerminated) \<and>
       (ls_slot_id s \<noteq> None \<longrightarrow> ls_slot_id s' = ls_slot_id s \<and> ls_slot_generation s' = ls_slot_generation s)"
proof (induction arbitrary: s rule: journal_steps.induct)
  case (steps_more j j1 j2)
  from step_sound [OF steps_more.hyps(1) steps_more.prems(1)]
  have j1: "sound j1" "rows_step session_update_ok (load_session j) (load_session j1)"
    by (simp_all add: sound_step_def journal_grows_def)
  then obtain s1 where s1: "load_session j1 sid = Some s1" "s1 = s \<or> session_update_ok s s1"
    using steps_more.prems(2) by (auto simp: rows_step_def)
  from steps_more.IH [OF j1(1) s1(1)] obtain s2 where s2: "load_session j2 sid = Some s2"
    "ls_generation s1 \<le> ls_generation s2" "ls_generation s2 = ls_generation s1 \<longrightarrow> ls_state s2 = ls_state s1"
    "is_terminal (ls_state s1) \<longrightarrow> s2 = s1"
    "ls_desired s1 = DesiredTerminated \<longrightarrow> ls_desired s2 = DesiredTerminated"
    "ls_slot_id s1 \<noteq> None \<longrightarrow> ls_slot_id s2 = ls_slot_id s1 \<and> ls_slot_generation s2 = ls_slot_generation s1"
    by blast
  with s1(2) show ?case
    by (intro exI [of _ s2]) (auto simp: session_update_ok_def split: if_splits)
qed auto

lemma operation_steps:
  "journal_steps j j' \<Longrightarrow> sound j \<Longrightarrow> load_operation j key = Some q \<Longrightarrow>
     \<exists>q'. load_operation j' key = Some q' \<and> lo_lease_fence q \<le> lo_lease_fence q' \<and>
       (lo_status q \<noteq> OsPending \<longrightarrow> q' = q)"
proof (induction arbitrary: q rule: journal_steps.induct)
  case (steps_more j j1 j2)
  from step_sound [OF steps_more.hyps(1) steps_more.prems(1)]
  have j1: "sound j1" "rows_step op_update_ok (load_operation j) (load_operation j1)"
    by (simp_all add: sound_step_def journal_grows_def)
  then obtain q1 where q1: "load_operation j1 key = Some q1" "q1 = q \<or> op_update_ok q q1"
    using steps_more.prems(2) by (auto simp: rows_step_def)
  from steps_more.IH [OF j1(1) q1(1)] obtain q2 where "load_operation j2 key = Some q2"
    "lo_lease_fence q1 \<le> lo_lease_fence q2" "lo_status q1 \<noteq> OsPending \<longrightarrow> q2 = q1" by blast
  with q1(2) show ?case by (intro exI [of _ q2]) (auto simp: op_update_ok_def)
qed auto

end
