(* ===== verification/ExecutionProvider.thy ===== *)
theory ExecutionProvider
  imports LabSession
begin

text \<open>
  The contract between the Campus journal and an execution backend, the trait
  \<open>CampusExecutionProvider\<close> of \<open>campus_lab_session.rs\<close>, as a locale. A provider is a transition system:
  calls start, run in any number of internal steps that interleave with other calls and with the
  world, and reply or are dropped by their caller. The laws are the bullets of the trait's
  documentation; what follows from them over any run is proved once, here.
\<close>

section \<open>Calls and events\<close>

datatype provider_call =
    PcProvision string provision_spec
  | PcObserve workload_ref
  | PcDelete string workload_ref
  | PcListOwned

datatype provider_reply =
    PrProvision "(provider_error, provision_outcome) res"
  | PrObserve "(provider_error, observation) res"
  | PrDelete "(provider_error, delete_outcome) res"
  | PrOwned "(provider_error, owned_resource list) res"

datatype provider_event =
    EvStart nat provider_call
  | EvReply nat provider_call provider_reply
  | EvInternal

definition labelled :: "owned_resource list \<Rightarrow> workload_ref \<Rightarrow> owned_resource list" where
  "labelled resources w = filter (\<lambda>r. or_workload r = w) resources"

definition workspace_of :: "provision_outcome \<Rightarrow> string option" where
  "workspace_of out = (case out of PoReady ws \<Rightarrow> Some ws | PoInProgress ws \<Rightarrow> Some ws | PoRejected _ \<Rightarrow> None)"

inductive provider_run :: "('p \<Rightarrow> provider_event \<Rightarrow> 'p \<Rightarrow> bool) \<Rightarrow> 'p \<Rightarrow> provider_event list \<Rightarrow> 'p \<Rightarrow> bool"
  for event :: "'p \<Rightarrow> provider_event \<Rightarrow> 'p \<Rightarrow> bool" where
  run_done: "provider_run event p [] p"
| run_event: "event p e p1 \<Longrightarrow> provider_run event p1 es p2 \<Longrightarrow> provider_run event p (e # es) p2"

inductive_cases provider_runE: "provider_run event p (e # es) p'"

lemma labelled_Nil: "labelled rs w = [] \<longleftrightarrow> (\<forall>r\<in>set rs. or_workload r \<noteq> w)"
  by (auto simp: labelled_def filter_empty_conv)

section \<open>The contract\<close>

text \<open>
  \<open>inventory p\<close> is what the provider owns, \<open>torn_down p\<close> the workloads whose teardown began,
  \<open>accepted p key\<close> the spec and workspace of an operation key once it created something, and
  \<open>in_flight p\<close> the calls that have not replied.
\<close>

locale execution_provider =
  fixes healthy :: "'p \<Rightarrow> bool"
    and event :: "'p \<Rightarrow> provider_event \<Rightarrow> 'p \<Rightarrow> bool"
    and inventory :: "'p \<Rightarrow> owned_resource list"
    and torn_down :: "'p \<Rightarrow> workload_ref set"
    and accepted :: "'p \<Rightarrow> string \<Rightarrow> (provision_spec \<times> string) option"
    and in_flight :: "'p \<Rightarrow> (nat \<times> provider_call) set"
  assumes healthy_event: "event p e p' \<Longrightarrow> healthy p \<Longrightarrow> healthy p'"
    and starts: "event p e p' \<Longrightarrow> x \<in> in_flight p' \<Longrightarrow> x \<in> in_flight p \<or> e = EvStart (fst x) (snd x)"
    and replies: "event p (EvReply c call r) p' \<Longrightarrow> healthy p \<Longrightarrow> (c, call) \<in> in_flight p"
    and torn_down_stays: "event p e p' \<Longrightarrow> healthy p \<Longrightarrow> torn_down p \<subseteq> torn_down p'"
    and no_resurrection: "event p e p' \<Longrightarrow> healthy p \<Longrightarrow> w \<in> torn_down p \<Longrightarrow>
      set (labelled (inventory p') w) \<subseteq> set (labelled (inventory p) w)"
    and deleted_confirmed: "event p (EvReply c (PcDelete key w) (PrDelete (Inr DelDeleted))) p' \<Longrightarrow> healthy p \<Longrightarrow>
      w \<in> torn_down p' \<and> labelled (inventory p') w = []"
    and accepted_stays: "event p e p' \<Longrightarrow> healthy p \<Longrightarrow> accepted p key = Some a \<Longrightarrow> accepted p' key = Some a"
    and accepts_called: "event p e p' \<Longrightarrow> healthy p \<Longrightarrow> accepted p key = None \<Longrightarrow>
      accepted p' key = Some (spec, ws) \<Longrightarrow> \<exists>c. (c, PcProvision key spec) \<in> in_flight p"
    and reply_accepted: "event p (EvReply c (PcProvision key spec) (PrProvision (Inr out))) p' \<Longrightarrow> healthy p \<Longrightarrow>
      workspace_of out = Some ws \<Longrightarrow> accepted p' key = Some (spec, ws)"
    and labels: "healthy p \<Longrightarrow> owned \<in> set (inventory p) \<Longrightarrow>
      \<exists>spec ws. accepted p (or_op_key owned) = Some (spec, ws) \<and> ps_workload spec = or_workload owned \<and>
        (or_kind owned = ''workspace'' \<longrightarrow> or_resource_id owned = ws)"
    and listed: "event p (EvReply c PcListOwned (PrOwned (Inr rs))) p' \<Longrightarrow> healthy p \<Longrightarrow> rs = inventory p'"
begin

lemma healthy_run: "provider_run event p es p' \<Longrightarrow> healthy p \<Longrightarrow> healthy p'"
  by (induction rule: provider_run.induct) (auto dest: healthy_event)

text \<open>Once a teardown was confirmed, the workload owns nothing ever again.\<close>

lemma gone_stays:
  "provider_run event p es p' \<Longrightarrow> healthy p \<Longrightarrow> w \<in> torn_down p \<Longrightarrow> labelled (inventory p) w = [] \<Longrightarrow>
     w \<in> torn_down p' \<and> labelled (inventory p') w = []"
proof (induction rule: provider_run.induct)
  case (run_event p e p1 es p2)
  have "labelled (inventory p1) w = []"
    using no_resurrection [OF run_event.hyps(1) run_event.prems(1, 2)] run_event.prems(3) by simp
  moreover have "w \<in> torn_down p1" using torn_down_stays [OF run_event.hyps(1) run_event.prems(1)] run_event.prems(2) by blast
  ultimately show ?case using run_event healthy_event by blast
qed simp

lemma gone_after_delete:
  "event p (EvReply c (PcDelete key w) (PrDelete (Inr DelDeleted))) p1 \<Longrightarrow> provider_run event p1 es p' \<Longrightarrow>
     healthy p \<Longrightarrow> labelled (inventory p') w = []"
  using gone_stays deleted_confirmed healthy_event by blast

lemma accepted_run:
  "provider_run event p es p' \<Longrightarrow> healthy p \<Longrightarrow> accepted p key = Some a \<Longrightarrow> accepted p' key = Some a"
  by (induction rule: provider_run.induct) (auto dest: accepted_stays healthy_event)

text \<open>Replies under one operation key agree on the spec and on the workspace.\<close>

lemma one_workspace:
  assumes "event p (EvReply c (PcProvision key spec) (PrProvision (Inr out))) p1" "workspace_of out = Some ws"
    "provider_run event p1 es p2"
    "event p2 (EvReply c' (PcProvision key spec') (PrProvision (Inr out'))) p3" "workspace_of out' = Some ws'"
    "healthy p"
  shows "spec' = spec \<and> ws' = ws"
proof -
  have h: "healthy p1" "healthy p2" using assms healthy_event healthy_run by blast+
  have "accepted p1 key = Some (spec, ws)" by (rule reply_accepted [OF assms(1, 6, 2)])
  from accepted_stays [OF assms(4) h(2) accepted_run [OF assms(3) h(1) this]]
  show ?thesis using reply_accepted [OF assms(4) h(2) assms(5)] by simp
qed

text \<open>All resources of one operation key carry one workload, and at most one is a workspace.\<close>

lemma key_resources:
  assumes "healthy p" "r \<in> set (inventory p)" "r' \<in> set (inventory p)" "or_op_key r = or_op_key r'"
  shows "or_workload r = or_workload r' \<and>
    (or_kind r = ''workspace'' \<and> or_kind r' = ''workspace'' \<longrightarrow> or_resource_id r = or_resource_id r')"
  using labels [OF assms(1, 2)] labels [OF assms(1, 3)] assms(4) by auto

end

end
