(* ===== verification/LabDriver.thy ===== *)
theory LabDriver
  imports LabSafety ExecutionProvider
begin

text \<open>
  The one-step reconciler \<open>campus_driver.rs\<close>. A step is a program that asks the journal, the provider
  or a teardown hook and goes on with the reply; between two questions other workers run, and the
  worker may crash. The programs read as the code does: each \<open>.await\<close> on a store, provider or hook call
  is one question, each \<open>?\<close> an early end.
\<close>

section \<open>Programs\<close>

datatype step_outcome =
    SoAdvanced lab_session_state int
  | SoWaiting lab_session_state string
  | SoLeaseHeld string int
  | SoObserved observed_state
  | SoQuarantined string
  | SoTerminal lab_session_state

datatype driver_prog =
    Done "(journal_error, step_outcome) res"
  | AskJournal journal_call "journal_reply \<Rightarrow> driver_prog"
  | AskProvider provider_call "provider_reply \<Rightarrow> driver_prog"
  | AskHook string string workload_ref "(provider_error, unit) res \<Rightarrow> driver_prog"

text \<open>A question with the reply of its kind; a reply of another kind does not occur.\<close>

definition no_reply :: driver_prog where
  "no_reply = Done (Inl JeStore)"

definition ask_transition ::
    "lab_transition \<Rightarrow> ((journal_error, transition_outcome) res \<Rightarrow> driver_prog) \<Rightarrow> driver_prog" where
  "ask_transition t k = AskJournal (CallTransition t) (\<lambda>rep. case rep of RepTransition r \<Rightarrow> k r | _ \<Rightarrow> no_reply)"

definition ask_session :: "string \<Rightarrow> (lab_session option \<Rightarrow> driver_prog) \<Rightarrow> driver_prog" where
  "ask_session sid k = AskJournal (CallGetSession sid) (\<lambda>rep. case rep of RepSession r \<Rightarrow> k r | _ \<Rightarrow> no_reply)"

definition ask_pending :: "string \<Rightarrow> (lab_operation option \<Rightarrow> driver_prog) \<Rightarrow> driver_prog" where
  "ask_pending sid k = AskJournal (CallPending sid) (\<lambda>rep. case rep of RepPending r \<Rightarrow> k r | _ \<Rightarrow> no_reply)"

text \<open>\<open>?\<close>: an error ends the program.\<close>

definition try_res :: "(journal_error, 'a) res \<Rightarrow> ('a \<Rightarrow> driver_prog) \<Rightarrow> driver_prog" where
  "try_res r k = (case r of Inl e \<Rightarrow> Done (Inl e) | Inr a \<Rightarrow> k a)"

section \<open>Context and messages\<close>

definition CENTRAL_AUTHORITY_UNAVAILABLE :: string where
  "CENTRAL_AUTHORITY_UNAVAILABLE = ''central authority is unavailable; new launches are denied''"

record driver_context =
  dc_worker_id :: string
  dc_now :: int
  dc_lease_seconds :: int
  dc_central_authority :: bool
  dc_teardown_hooks :: "string list"

fun provider_error_text :: "provider_error \<Rightarrow> string" where
  "provider_error_text (PeUnreachable r) = ''campus execution provider is unreachable: '' @ r"
| "provider_error_text (PeInternal r) = ''campus execution provider failed: '' @ r"

fun observation_debug :: "observation \<Rightarrow> string" where
  "observation_debug ObsAbsent = ''Absent''"
| "observation_debug ObsProvisioning = ''Provisioning''"
| "observation_debug (ObsReady ws) = ''Ready { workspace_id: '' @ debug_str ws @ '' }''"
| "observation_debug (ObsFailed r) = ''Failed { reason: '' @ debug_str r @ '' }''"

definition transition_for :: "lab_session \<Rightarrow> lab_session_state \<Rightarrow> driver_context \<Rightarrow> lab_transition" where
  "transition_for s target ctx = lab_transition_new s target (dc_worker_id ctx) (dc_now ctx)"

definition advanced :: "(journal_error, transition_outcome) res \<Rightarrow> driver_prog" where
  "advanced r = try_res r (\<lambda>out.
     Done (Inr (SoAdvanced (ls_state (to_session out)) (ls_generation (to_session out)))))"

definition driver_transition :: "lab_transition \<Rightarrow> driver_prog" where
  "driver_transition t = ask_transition t advanced"

definition driver_pending ::
    "lab_session \<Rightarrow> operation_kind_lab \<Rightarrow> (lab_operation \<Rightarrow> driver_prog) \<Rightarrow> driver_prog" where
  "driver_pending s kind k =
     ask_pending (ls_session_id s) (\<lambda>pending. case pending of
        Some q \<Rightarrow> if lo_kind q = kind then k q else Done (Inl (JeConflict ConflictNoPending))
      | None \<Rightarrow> Done (Inl (JeConflict ConflictNoPending)))"

definition driver_lease ::
    "driver_context \<Rightarrow> lab_operation \<Rightarrow> (lab_operation \<Rightarrow> driver_prog) \<Rightarrow> driver_prog" where
  "driver_lease ctx q k =
     AskJournal (CallLease (lo_op_key q) (dc_worker_id ctx) (dc_now ctx) (dc_lease_seconds ctx))
       (\<lambda>rep. case rep of
          RepLease (Inr leased) \<Rightarrow> k leased
        | RepLease (Inl (JeLeaseHeld _ owner expires)) \<Rightarrow> Done (Inr (SoLeaseHeld owner expires))
        | RepLease (Inl e) \<Rightarrow> Done (Inl e)
        | _ \<Rightarrow> no_reply)"

definition driver_release ::
    "driver_context \<Rightarrow> lab_session \<Rightarrow> lab_operation \<Rightarrow> string \<Rightarrow> driver_prog" where
  "driver_release ctx s q reason =
     (let waiting = Done (Inr (SoWaiting (ls_state s) reason)) in
      case op_lease_of q of
        Some lease \<Rightarrow> AskJournal (CallRelease lease (Some reason) (dc_now ctx)) (\<lambda>rep. waiting)
      | None \<Rightarrow> waiting)"

section \<open>Provisioning and observing\<close>

definition provision_spec_of :: "lab_session \<Rightarrow> lab_operation \<Rightarrow> provision_spec" where
  "provision_spec_of s q =
     \<lparr>ps_workload = op_workload q, ps_tenant_id = ls_tenant_id s, ps_course_id = ls_course_id s,
      ps_profile = ls_profile s, ps_expires_at = ls_expires_at s\<rparr>"

definition provision_outcome_step ::
    "driver_context \<Rightarrow> lab_session \<Rightarrow> lab_operation \<Rightarrow> (provider_error, provision_outcome) res \<Rightarrow> driver_prog"
where
  "provision_outcome_step ctx s q outcome =
     (let nx = (transition_for s LsReady ctx)\<lparr>lt_lease := op_lease_of q\<rparr> in
      case outcome of
        Inr (PoReady ws) \<Rightarrow>
          driver_transition (nx\<lparr>lt_result := ResWorkspace ws, lt_workspace_id := Some ws\<rparr>)
      | Inr (PoRejected reason) \<Rightarrow>
          driver_transition (nx\<lparr>lt_to := LsStopping, lt_result := ResRejected reason,
            lt_failure := Some (''provision rejected: '' @ reason), lt_observed := Some ObFailed\<rparr>)
      | Inr (PoInProgress ws) \<Rightarrow>
          driver_release ctx s q (''workspace '' @ ws @ '' is still provisioning'')
      | Inl e \<Rightarrow> driver_release ctx s q (provider_error_text e))"

definition driver_provision :: "driver_context \<Rightarrow> lab_session \<Rightarrow> lab_operation \<Rightarrow> driver_prog" where
  "driver_provision ctx s q =
     AskProvider (PcProvision (lo_op_key q) (provision_spec_of s q))
       (\<lambda>rep. case rep of PrProvision outcome \<Rightarrow> provision_outcome_step ctx s q outcome | _ \<Rightarrow> no_reply)"

definition record_observation ::
    "driver_context \<Rightarrow> lab_session \<Rightarrow> observed_state \<Rightarrow> driver_prog" where
  "record_observation ctx s observed =
     AskJournal (CallObserve (ls_session_id s) (ls_generation s) observed (dc_now ctx))
       (\<lambda>rep. case rep of RepObserved r \<Rightarrow> try_res r (\<lambda>_. Done (Inr (SoObserved observed))) | _ \<Rightarrow> no_reply)"

definition observation_step ::
    "driver_context \<Rightarrow> lab_session \<Rightarrow> (provider_error, observation) res \<Rightarrow> driver_prog" where
  "observation_step ctx s seen =
     (let lost = (\<lambda>ob observed. driver_transition ((transition_for s LsStopping ctx)
            \<lparr>lt_failure := Some (''workspace lost: '' @ observation_debug ob), lt_observed := Some observed\<rparr>)) in
      case seen of
        Inr (ObsReady ws) \<Rightarrow>
          if Some ws = ls_workspace_id s then record_observation ctx s ObReady else lost (ObsReady ws) ObFailed
      | Inr ObsProvisioning \<Rightarrow> record_observation ctx s ObProvisioning
      | Inr ObsAbsent \<Rightarrow> lost ObsAbsent ObAbsent
      | Inr (ObsFailed reason) \<Rightarrow> lost (ObsFailed reason) ObFailed
      | Inl (PeUnreachable _) \<Rightarrow> record_observation ctx s ObUnreachable
      | Inl e \<Rightarrow> Done (Inr (SoWaiting (ls_state s) (provider_error_text e))))"

definition driver_observe :: "driver_context \<Rightarrow> lab_session \<Rightarrow> driver_prog" where
  "driver_observe ctx s =
     (case session_workload s of
        None \<Rightarrow> Done (Inl (JeConflict ConflictNoSlot))
      | Some w \<Rightarrow>
          AskProvider (PcObserve w)
            (\<lambda>rep. case rep of PrObserve seen \<Rightarrow> observation_step ctx s seen | _ \<Rightarrow> no_reply))"

section \<open>Deleting\<close>

datatype teardown = TdDone | TdRetry string | TdBlocked string

fun run_hooks ::
    "driver_context \<Rightarrow> lab_session \<Rightarrow> lab_operation \<Rightarrow> string list \<Rightarrow> string list \<Rightarrow> (teardown \<Rightarrow> driver_prog)
       \<Rightarrow> driver_prog" where
  "run_hooks ctx s q hook_runs [] k = k TdDone"
| "run_hooks ctx s q hook_runs (hook # hooks) k =
     (if hook \<in> set hook_runs then run_hooks ctx s q hook_runs hooks k
      else AskHook hook (lo_op_key q) (op_workload q) (\<lambda>r. case r of
          Inr _ \<Rightarrow>
            AskJournal (CallRecordHook (ls_session_id s) hook (lo_op_key q) (op_workload q) (dc_now ctx))
              (\<lambda>rep. case rep of
                 RepHook res \<Rightarrow> try_res res (\<lambda>_. run_hooks ctx s q hook_runs hooks k)
               | _ \<Rightarrow> no_reply)
        | Inl (PeUnreachable reason) \<Rightarrow>
            k (TdBlocked (''teardown hook '' @ hook @ '' unreachable: '' @ reason))
        | Inl e \<Rightarrow> k (TdRetry (''teardown hook '' @ hook @ '' failed: '' @ provider_error_text e))))"

definition confirm_teardown ::
    "driver_context \<Rightarrow> lab_session \<Rightarrow> lab_operation \<Rightarrow> (teardown \<Rightarrow> driver_prog) \<Rightarrow> driver_prog" where
  "confirm_teardown ctx s q k =
     AskProvider PcListOwned (\<lambda>rep. case rep of
        PrOwned (Inl e) \<Rightarrow> k (TdBlocked (''deletion could not be confirmed: '' @ provider_error_text e))
      | PrOwned (Inr owned) \<Rightarrow>
          let remaining = length (labelled owned (op_workload q)) in
          if 0 < remaining
          then k (TdRetry (show_nat remaining @ '' owned resources remain after delete''))
          else if dc_teardown_hooks ctx = [] then k TdDone
          else AskJournal (CallHookRuns (ls_session_id s)) (\<lambda>rep. case rep of
              RepHookRuns hook_runs \<Rightarrow> run_hooks ctx s q hook_runs (dc_teardown_hooks ctx) k
            | _ \<Rightarrow> no_reply)
      | _ \<Rightarrow> no_reply)"

definition quarantine :: "driver_context \<Rightarrow> lab_session \<Rightarrow> lab_operation \<Rightarrow> string \<Rightarrow> driver_prog" where
  "quarantine ctx s q blocked =
     driver_transition ((transition_for s LsCleanupBlocked ctx)
       \<lparr>lt_lease := op_lease_of q, lt_result := ResBlocked blocked, lt_reason := Some blocked\<rparr>)"

definition finish_delete :: "driver_context \<Rightarrow> lab_session \<Rightarrow> lab_operation \<Rightarrow> teardown \<Rightarrow> driver_prog" where
  "finish_delete ctx s q outcome =
     (case outcome of
        TdDone \<Rightarrow>
          driver_transition
            ((transition_for s (if ls_failure_reason s \<noteq> None then LsFailed else LsTerminated) ctx)
               \<lparr>lt_lease := op_lease_of q, lt_result := ResDeleted\<rparr>)
      | TdRetry reason \<Rightarrow> driver_release ctx s q reason
      | TdBlocked reason \<Rightarrow> quarantine ctx s q reason)"

definition delete_outcome_step ::
    "driver_context \<Rightarrow> lab_session \<Rightarrow> lab_operation \<Rightarrow> (provider_error, delete_outcome) res \<Rightarrow> driver_prog" where
  "delete_outcome_step ctx s q outcome =
     (case outcome of
        Inr DelDeleted \<Rightarrow> confirm_teardown ctx s q (finish_delete ctx s q)
      | Inr DelInProgress \<Rightarrow> driver_release ctx s q ''deletion in progress''
      | Inr (DelBlocked reason) \<Rightarrow> quarantine ctx s q (''cleanup blocked: '' @ reason)
      | Inr (DelUnreachable reason) \<Rightarrow> quarantine ctx s q (''unreachable: '' @ reason)
      | Inl (PeUnreachable reason) \<Rightarrow> quarantine ctx s q (''unreachable: '' @ reason)
      | Inl e \<Rightarrow> driver_release ctx s q (provider_error_text e))"

definition driver_delete :: "driver_context \<Rightarrow> lab_session \<Rightarrow> lab_operation \<Rightarrow> driver_prog" where
  "driver_delete ctx s q =
     AskProvider (PcDelete (lo_op_key q) (op_workload q))
       (\<lambda>rep. case rep of PrDelete outcome \<Rightarrow> delete_outcome_step ctx s q outcome | _ \<Rightarrow> no_reply)"

section \<open>Steps\<close>

text \<open>An operation that the transition began, or the conflict of a transition that began none.\<close>

definition begun :: "transition_outcome \<Rightarrow> (lab_session \<Rightarrow> lab_operation \<Rightarrow> driver_prog) \<Rightarrow> driver_prog" where
  "begun out k = (case to_begun out of
       Some q \<Rightarrow> k (to_session out) q
     | None \<Rightarrow> Done (Inl (JeConflict ConflictNothingBegun)))"

definition authorize_step :: "driver_context \<Rightarrow> lab_session \<Rightarrow> driver_prog" where
  "authorize_step ctx s =
     (if ls_desired s = DesiredTerminated then driver_transition (transition_for s LsTerminated ctx)
      else if \<not> dc_central_authority ctx
      then driver_transition ((transition_for s LsFailed ctx)\<lparr>lt_failure := Some CENTRAL_AUTHORITY_UNAVAILABLE\<rparr>)
      else ask_transition ((transition_for s LsProvisioning ctx)\<lparr>lt_lease_seconds := dc_lease_seconds ctx\<rparr>)
        (\<lambda>r. case r of
           Inr out \<Rightarrow> begun out (driver_provision ctx)
         | Inl (JeNoFreeSlot tenant) \<Rightarrow>
             Done (Inr (SoWaiting (ls_state s) (''no free lab slot for tenant '' @ tenant)))
         | Inl e \<Rightarrow> Done (Inl e)))"

definition provisioning_step :: "driver_context \<Rightarrow> lab_session \<Rightarrow> driver_prog" where
  "provisioning_step ctx s =
     (if ls_desired s = DesiredTerminated
      then ask_transition
        ((transition_for s LsStopping ctx)\<lparr>lt_reason := Some ''stop requested during provisioning''\<rparr>)
        (\<lambda>r. case r of
           Inl (JeLeaseHeld _ owner expires) \<Rightarrow> Done (Inr (SoLeaseHeld owner expires))
         | _ \<Rightarrow> advanced r)
      else driver_pending s OpProvision (\<lambda>q. driver_lease ctx q (driver_provision ctx s)))"

definition state_step :: "driver_context \<Rightarrow> lab_session \<Rightarrow> driver_prog" where
  "state_step ctx s =
     (case ls_state s of
        LsRequested \<Rightarrow>
          driver_transition (transition_for s
            (if ls_desired s = DesiredTerminated then LsTerminated else LsAuthorizing) ctx)
      | LsAuthorizing \<Rightarrow> authorize_step ctx s
      | LsProvisioning \<Rightarrow> provisioning_step ctx s
      | LsReady \<Rightarrow>
          if ls_desired s = DesiredTerminated
          then driver_transition ((transition_for s LsStopping ctx)\<lparr>lt_reason := Some ''stop requested''\<rparr>)
          else driver_observe ctx s
      | LsStopping \<Rightarrow>
          ask_transition ((transition_for s LsCleaning ctx)\<lparr>lt_lease_seconds := dc_lease_seconds ctx\<rparr>)
            (\<lambda>r. try_res r (\<lambda>out. begun out (driver_delete ctx)))
      | LsCleaning \<Rightarrow> driver_pending s OpDelete (\<lambda>q. driver_lease ctx q (driver_delete ctx s))
      | LsCleanupBlocked \<Rightarrow>
          Done (Inr (SoQuarantined (case ls_blocked_reason s of Some reason \<Rightarrow> reason | None \<Rightarrow> [])))
      | st \<Rightarrow> Done (Inr (SoTerminal st)))"

definition advance_campus_lab_session :: "driver_context \<Rightarrow> string \<Rightarrow> driver_prog" where
  "advance_campus_lab_session ctx sid =
     ask_session sid (\<lambda>found. case found of
        None \<Rightarrow> Done (Inl (JeNotFound sid))
      | Some s \<Rightarrow>
          if is_terminal (ls_state s) then Done (Inr (SoTerminal (ls_state s)))
          else if ls_expires_at s \<le> dc_now ctx \<and> ls_desired s = DesiredReady
          then AskJournal (CallStop sid (dc_worker_id ctx) ''absolute expiry reached'' (dc_now ctx))
            (\<lambda>rep. case rep of RepStopped r \<Rightarrow> try_res r (state_step ctx) | _ \<Rightarrow> no_reply)
          else state_step ctx s)"

definition retry_campus_lab_cleanup :: "driver_context \<Rightarrow> string \<Rightarrow> driver_prog" where
  "retry_campus_lab_cleanup ctx sid =
     ask_session sid (\<lambda>found. case found of
        None \<Rightarrow> Done (Inl (JeNotFound sid))
      | Some s \<Rightarrow>
          ask_transition ((transition_for s LsCleaning ctx)
              \<lparr>lt_lease_seconds := dc_lease_seconds ctx, lt_reason := Some ''quarantined cleanup retried''\<rparr>)
            (\<lambda>r. try_res r (\<lambda>out. begun out (driver_delete ctx))))"

end
