(* ===== verification/LabSystem.thy ===== *)
theory LabSystem
  imports LabDriver
begin

text \<open>
  The journal, an execution provider and any number of workers running the reconciler's programs,
  interleaved at every question and crashing anywhere. Against the provider's contract alone: a
  session that ended left nothing behind.
\<close>

section \<open>What a program may rely on\<close>

text \<open>
  \<open>K\<close>: operations the worker read from the journal, by key, kind and workload; \<open>G\<close>: workloads whose
  deletion the provider confirmed to it. A program is safe if it ends a cleanup only under the lease of
  an operation whose workload is gone, and provisions only under the key of a provision operation, for
  its workload. \<open>plausible\<close> is what a reply has to do with its call.
\<close>

definition ends_cleanup :: "journal_call \<Rightarrow> op_lease option \<Rightarrow> bool" where
  "ends_cleanup c lease \<longleftrightarrow>
     (\<exists>t. c = CallTransition t \<and> lt_from t = LsCleaning \<and> is_terminal (lt_to t) \<and> lt_lease t = lease)"

type_synonym op_knowledge = "string \<times> operation_kind_lab \<times> workload_ref"

definition op_fact :: "lab_operation \<Rightarrow> op_knowledge" where
  "op_fact q = (lo_op_key q, lo_kind q, op_workload q)"

fun learned :: "journal_reply \<Rightarrow> op_knowledge set" where
  "learned (RepTransition (Inr out)) = op_fact ` set_option (to_begun out)"
| "learned (RepLease (Inr q)) = {op_fact q}"
| "learned (RepPending (Some q)) = {op_fact q}"
| "learned _ = {}"

fun plausible :: "journal_call \<Rightarrow> journal_reply \<Rightarrow> bool" where
  "plausible (CallTransition t) (RepTransition (Inr out)) =
     (\<forall>q\<in>set_option (to_begun out). lt_to t = LsProvisioning \<longrightarrow> lo_kind q = OpProvision)"
| "plausible (CallLease key owner now secs) (RepLease (Inr q)) = (lo_op_key q = key)"
| "plausible _ _ = True"

fun cleared :: "provider_call \<Rightarrow> provider_reply \<Rightarrow> workload_ref set" where
  "cleared (PcDelete key w) (PrDelete (Inr DelDeleted)) = {w}"
| "cleared _ _ = {}"

fun provisions_known :: "op_knowledge set \<Rightarrow> provider_call \<Rightarrow> bool" where
  "provisions_known K (PcProvision key spec) =
     ((\<exists>w. (key, OpProvision, w) \<in> K) \<and> (\<exists>kind. (key, kind, ps_workload spec) \<in> K))"
| "provisions_known K _ = True"

primrec safe :: "driver_prog \<Rightarrow> op_knowledge set \<Rightarrow> workload_ref set \<Rightarrow> bool" where
  "safe (Done r) = (\<lambda>K G. True)"
| "safe (AskJournal c k) = (\<lambda>K G.
     (\<forall>lease. ends_cleanup c (Some lease) \<longrightarrow> (\<exists>w\<in>G. \<exists>kind. (ol_op_key lease, kind, w) \<in> K)) \<and>
     (\<forall>rep. plausible c rep \<longrightarrow> safe (k rep) (K \<union> learned rep) G))"
| "safe (AskProvider c k) = (\<lambda>K G. provisions_known K c \<and> (\<forall>r. safe (k r) K (G \<union> cleared c r)))"
| "safe (AskHook h key w k) = (\<lambda>K G. \<forall>r. safe (k r) K G)"

text \<open>Every program is safe that neither ends a cleanup nor provisions.\<close>

lemma safe_transition:
  "lt_from t \<noteq> LsCleaning \<or> \<not> is_terminal (lt_to t) \<Longrightarrow>
     (\<And>r. plausible (CallTransition t) (RepTransition r) \<Longrightarrow> safe (k r) (K \<union> learned (RepTransition r)) G) \<Longrightarrow>
     safe (ask_transition t k) K G"
  by (auto simp: ask_transition_def ends_cleanup_def no_reply_def split: journal_reply.splits)

lemma safe_advanced [simp]: "safe (advanced r) K G"
  by (auto simp: advanced_def try_res_def split: sum.splits)

lemma safe_driver_transition:
  "lt_from t \<noteq> LsCleaning \<or> \<not> is_terminal (lt_to t) \<Longrightarrow> safe (driver_transition t) K G"
  unfolding driver_transition_def by (rule safe_transition) simp_all

lemma transition_for_simps [simp]:
  "lt_from (transition_for s target ctx) = ls_state s" "lt_to (transition_for s target ctx) = target"
  "lt_lease (transition_for s target ctx) = None" "lt_session_id (transition_for s target ctx) = ls_session_id s"
  by (simp_all add: transition_for_def lab_transition_new_def)

lemma safe_release [simp]: "safe (driver_release ctx s q reason) K G"
  by (auto simp: driver_release_def Let_def ends_cleanup_def split: option.splits)

lemma is_terminal_simps [simp]:
  "is_terminal LsTerminated" "is_terminal LsFailed" "\<not> is_terminal LsReady" "\<not> is_terminal LsStopping"
  "\<not> is_terminal LsCleanupBlocked" "\<not> is_terminal LsProvisioning" "\<not> is_terminal LsCleaning"
  "\<not> is_terminal LsAuthorizing" "\<not> is_terminal LsRequested"
  by (simp_all add: is_terminal_def)

lemma safe_outcome [simp]: "safe (provision_outcome_step ctx s q outcome) K G"
  by (auto simp: provision_outcome_step_def Let_def
      intro!: safe_driver_transition split: sum.splits provision_outcome.splits)

lemma safe_provision:
  "(lo_op_key q, OpProvision, w) \<in> K \<Longrightarrow> op_fact q \<in> K \<Longrightarrow> safe (driver_provision ctx s q) K G"
  by (auto simp: driver_provision_def provision_spec_of_def op_fact_def no_reply_def split: provider_reply.splits)

lemma safe_observe [simp]: "safe (driver_observe ctx s) K G"
  by (auto simp: driver_observe_def observation_step_def record_observation_def try_res_def Let_def no_reply_def
      ends_cleanup_def
      intro!: safe_driver_transition split: provider_reply.splits sum.splits observation.splits
      option.splits provider_error.splits journal_reply.splits)

lemma safe_quarantine [simp]: "safe (quarantine ctx s q reason) K G"
  by (auto simp: quarantine_def intro!: safe_driver_transition)

lemma safe_finish:
  assumes "op_fact q \<in> K" "op_workload q \<in> G"
  shows "safe (finish_delete ctx s q outcome) K G"
proof (cases outcome)
  case TdDone
  have "ol_op_key lease = lo_op_key q" if "op_lease_of q = Some lease" for lease
    using that by (auto simp: op_lease_of_def split: option.splits)
  with assms TdDone show ?thesis
    by (fastforce simp: finish_delete_def driver_transition_def ask_transition_def ends_cleanup_def no_reply_def
        op_fact_def split: journal_reply.splits)
qed (simp_all add: finish_delete_def)

lemma safe_hooks:
  "(\<And>K' outcome. K \<subseteq> K' \<Longrightarrow> safe (k outcome) K' G) \<Longrightarrow> safe (run_hooks ctx s q hook_runs hooks k) K G"
proof (induction hooks arbitrary: K)
  case (Cons hook hooks)
  have "safe (run_hooks ctx s q hook_runs hooks k) (K \<union> learned rep) G" for rep
    by (rule Cons.IH) (rule Cons.prems, blast)
  with Cons show ?case
    by (auto simp: ends_cleanup_def try_res_def no_reply_def
        split: sum.splits provider_error.splits journal_reply.splits)
qed simp

lemma safe_confirm:
  assumes "\<And>K' outcome. K \<subseteq> K' \<Longrightarrow> safe (k outcome) K' G"
  shows "safe (confirm_teardown ctx s q k) K G"
proof -
  have "safe (run_hooks ctx s q hook_runs hooks k) K' G" if "K \<subseteq> K'" for hook_runs hooks K'
    by (rule safe_hooks) (rule assms, use that in blast)
  moreover have "cleared PcListOwned r = {}" for r by simp
  ultimately show ?thesis using assms [OF order.refl]
    by (auto simp: confirm_teardown_def Let_def no_reply_def ends_cleanup_def
        split: provider_reply.splits sum.splits journal_reply.splits)
qed

lemma safe_delete:
  assumes "op_fact q \<in> K"
  shows "safe (driver_delete ctx s q) K G"
proof -
  have "safe (confirm_teardown ctx s q (finish_delete ctx s q)) K (insert (op_workload q) G)"
    by (rule safe_confirm, rule safe_finish) (use assms in auto)
  then show ?thesis
    by (auto simp: driver_delete_def delete_outcome_step_def no_reply_def
        split: provider_reply.splits sum.splits delete_outcome.splits provider_error.splits)
qed

lemma safe_lease:
  "(\<And>leased. lo_op_key leased = lo_op_key q \<Longrightarrow> safe (k leased) (insert (op_fact leased) K) G) \<Longrightarrow>
     safe (driver_lease ctx q k) K G"
  by (auto simp: driver_lease_def no_reply_def ends_cleanup_def split: journal_reply.splits sum.splits journal_error.splits)

lemma safe_pending:
  "(\<And>q. lo_kind q = kind \<Longrightarrow> safe (k q) (insert (op_fact q) K) G) \<Longrightarrow> safe (driver_pending s kind k) K G"
  by (auto simp: driver_pending_def ask_pending_def no_reply_def ends_cleanup_def split: journal_reply.splits option.splits)

lemma safe_begun:
  "(\<And>s q. to_begun out = Some q \<Longrightarrow> safe (k s q) (insert (op_fact q) K) G) \<Longrightarrow>
     safe (begun out k) (K \<union> learned (RepTransition (Inr out))) G"
  by (auto simp: begun_def split: option.splits)

lemma safe_begun_delete: "safe (begun out (driver_delete ctx)) (K \<union> learned (RepTransition (Inr out))) G"
  by (rule safe_begun, rule safe_delete) simp

lemma safe_state_step: "safe (state_step ctx s) K G"
proof (cases "ls_state s")
  case LsRequested
  then show ?thesis by (auto simp: state_step_def intro!: safe_driver_transition)
next
  case LsAuthorizing
  have "safe (begun out (driver_provision ctx)) (K \<union> learned (RepTransition (Inr out))) G"
    if "plausible (CallTransition t) (RepTransition (Inr out))" "lt_to t = LsProvisioning" for out t
  proof (rule safe_begun)
    fix s q
    assume "to_begun out = Some q"
    with that have "lo_kind q = OpProvision" by simp
    then show "safe (driver_provision ctx s q) (insert (op_fact q) K) G"
      by (intro safe_provision [of _ "op_workload q"]) (simp_all add: op_fact_def)
  qed
  with LsAuthorizing show ?thesis
    by (auto simp: state_step_def authorize_step_def simp del: plausible.simps learned.simps
        intro!: safe_driver_transition safe_transition split: sum.splits journal_error.splits)
next
  case LsProvisioning
  have "safe (driver_lease ctx q (driver_provision ctx s)) (insert (op_fact q) K) G" if "lo_kind q = OpProvision" for q :: lab_operation
  proof (rule safe_lease)
    fix leased :: lab_operation
    assume "lo_op_key leased = lo_op_key q"
    with that show "safe (driver_provision ctx s leased) (insert (op_fact leased) (insert (op_fact q) K)) G"
      by (intro safe_provision [of _ "op_workload q"]) (simp_all add: op_fact_def)
  qed
  with LsProvisioning show ?thesis
    by (auto simp: state_step_def provisioning_step_def intro!: safe_transition safe_pending
        split: sum.splits journal_error.splits)
next
  case LsReady
  then show ?thesis by (auto simp: state_step_def intro!: safe_driver_transition)
next
  case LsStopping
  then show ?thesis
    by (auto simp: state_step_def try_res_def safe_begun_delete simp del: learned.simps
        intro!: safe_transition split: sum.splits)
next
  case LsCleaning
  have "safe (driver_lease ctx q (driver_delete ctx s)) K' G" for q K'
    by (rule safe_lease, rule safe_delete) simp
  with LsCleaning show ?thesis by (auto simp: state_step_def intro!: safe_pending)
qed (simp_all add: state_step_def)

lemma safe_advance: "safe (advance_campus_lab_session ctx sid) K G"
  by (auto simp: advance_campus_lab_session_def ask_session_def try_res_def ends_cleanup_def no_reply_def safe_state_step
      split: journal_reply.splits option.splits sum.splits)

lemma safe_retry: "safe (retry_campus_lab_cleanup ctx sid) K G"
proof -
  have "safe (ask_transition t (\<lambda>r. try_res r (\<lambda>out. begun out (driver_delete ctx)))) K' G"
    if "lt_to t = LsCleaning" for t K'
    by (rule safe_transition)
      (use that in \<open>auto simp: try_res_def safe_begun_delete simp del: learned.simps split: sum.splits\<close>)
  then show ?thesis
    by (auto simp: retry_campus_lab_cleanup_def ask_session_def no_reply_def ends_cleanup_def
        split: journal_reply.splits option.splits)
qed

section \<open>States only move by transitions\<close>

text \<open>Apart from transitions, a call keeps the state and the slot of every session and adds only
  sessions that were just requested; and it adds no operation.\<close>

definition lifecycle :: "lab_session \<Rightarrow> string \<times> lab_session_state \<times> string option \<times> int option" where
  "lifecycle s = (ls_session_id s, ls_state s, ls_slot_id s, ls_slot_generation s)"

lemma lifecycle_workload: "lifecycle s = lifecycle s' \<Longrightarrow> session_workload s = session_workload s'"
  by (auto simp: lifecycle_def session_workload_def split: option.splits)

definition quiet :: "journal \<Rightarrow> journal \<Rightarrow> bool" where
  "quiet j j' \<longleftrightarrow>
     (\<forall>sid s'. load_session j' sid = Some s' \<longrightarrow>
        (\<exists>s. load_session j sid = Some s \<and> lifecycle s = lifecycle s') \<or> \<not> is_terminal (ls_state s')) \<and>
     (\<forall>key q'. load_operation j' key = Some q' \<longrightarrow>
        (\<exists>q. load_operation j key = Some q \<and> lo_kind q' = lo_kind q \<and>
           lo_session_generation q' = lo_session_generation q))"

lemma quiet_same:
  "load_session j' = load_session j \<Longrightarrow> load_operation j' = load_operation j \<Longrightarrow> quiet j j'"
  by (auto simp: quiet_def)

lemma quiet_session:
  "load_session j' = (load_session j)(sid \<mapsto> s') \<Longrightarrow> load_operation j' = load_operation j \<Longrightarrow>
     (load_session j sid = Some s \<and> lifecycle s = lifecycle s') \<or> \<not> is_terminal (ls_state s') \<Longrightarrow> quiet j j'"
  by (auto simp: quiet_def)

lemma quiet_operation:
  "load_session j' = load_session j \<Longrightarrow> load_operation j' = (load_operation j)(key \<mapsto> q') \<Longrightarrow>
     load_operation j key = Some q \<Longrightarrow> lo_kind q' = lo_kind q \<Longrightarrow>
     lo_session_generation q' = lo_session_generation q \<Longrightarrow> quiet j j'"
  by (auto simp: quiet_def)

lemma quiet_slots: "slots_extended j j' \<Longrightarrow> quiet j j'"
  by (rule quiet_same) (simp_all add: slots_extended_def load_lookup)

lemma call_quiet:
  assumes "journal_answer j c = (j', r)" "sound j" "\<nexists>t. c = CallTransition t"
  shows "quiet j j'"
proof -
  have inv: "journal_inv j" "holds_ok j" using assms(2) by (simp_all add: sound_def)
  show ?thesis
  proof (cases c)
    case (CallRegister slot tenant now)
    with assms(1) have "reply RepSlot (commit j (register_campus_lab_slot j slot tenant now)) = (j', r)" by simp
    then show ?thesis
      by (rule commit_cases) (use inv quiet_slots register_extends quiet_same in blast)+
  next
    case (CallCreate req)
    with assms(1) have "reply RepCreated (commit j (insert_campus_lab_session j req)) = (j', r)" by simp
    then show ?thesis
    proof (rule commit_cases)
      fix a
      assume a: "insert_campus_lab_session j req = Inr (j', a)"
      obtain s created where sc: "a = (s, created)" by (cases a)
      show ?thesis
      proof (cases created)
        case True
        with insert_session_ok [of j req j' s created] a sc inv(1) have
          "load_session j' = (load_session j)(cs_session_id req \<mapsto> s)" "load_operation j' = load_operation j"
          "\<not> is_terminal (ls_state s)" by (simp_all add: requested_session_def)
        then show ?thesis by (intro quiet_session [of j' j _ s]) simp_all
      next
        case False
        with insert_session_ok [of j req j' s created] a sc inv(1) show ?thesis by (simp add: quiet_same)
      qed
    qed (simp add: quiet_same)
  next
    case (CallStop sid actor reason now)
    with assms(1) have "reply RepStopped (commit j (request_campus_lab_stop_in j sid actor reason now)) = (j', r)"
      by simp
    then show ?thesis
    proof (rule commit_cases)
      fix s'
      assume "request_campus_lab_stop_in j sid actor reason now = Inr (j', s')"
      from stop_ok [OF this inv(1)] obtain s where s: "load_session j sid = Some s"
        "j' = j \<or> s' = s\<lparr>ls_desired := DesiredTerminated, ls_updated_at := now\<rparr> \<and>
           load_session j' = (load_session j)(sid \<mapsto> s') \<and> load_operation j' = load_operation j"
        by (auto split: if_splits)
      then show ?thesis
        by (auto intro: quiet_same intro!: quiet_session [of j' j sid s' s] simp: lifecycle_def)
    qed (simp add: quiet_same)
  next
    case (CallObserve sid g ob now)
    with assms(1) have "reply RepObserved (commit j (record_campus_lab_observation j sid g ob now)) = (j', r)"
      by simp
    then show ?thesis
    proof (rule commit_cases)
      fix s'
      assume "record_campus_lab_observation j sid g ob now = Inr (j', s')"
      from observation_ok [OF this inv(1)] obtain s sessions where "load_session j sid = Some s"
        "j' = j\<lparr>jn_sessions := sessions\<rparr>"
        "s' = s\<lparr>ls_observed := ob, ls_observed_at := Some now, ls_updated_at := now\<rparr>"
        "load_session j' = (load_session j)(sid \<mapsto> s')" by blast
      then show ?thesis by (intro quiet_session [of j' j sid s' s]) (simp_all add: lifecycle_def)
    qed (simp add: quiet_same)
  next
    case (CallLease key owner now secs)
    with assms(1) have "reply RepLease (commit j (lease_campus_lab_operation j key owner now secs)) = (j', r)"
      by simp
    then show ?thesis
    proof (rule commit_cases)
      fix leased
      assume "lease_campus_lab_operation j key owner now secs = Inr (j', leased)"
      from lease_ok [OF this inv(1)] obtain q ops where "load_operation j key = Some q"
        "j' = j\<lparr>jn_ops := ops\<rparr>" "load_operation j' = (load_operation j)(key \<mapsto> leased)"
        "lo_kind leased = lo_kind q" "lo_session_generation leased = lo_session_generation q" by auto
      then show ?thesis by (intro quiet_operation [of j' j key leased q]) simp_all
    qed (simp add: quiet_same)
  next
    case (CallRelease lease error now)
    then obtain held where h: "release_campus_lab_operation_lease j lease error now = (j', held)"
      using assms(1) by (auto simp: reply_def prod_eq_iff)
    then have l: "load_session j' = load_session j"
      by (auto simp: release_campus_lab_operation_lease_def)
    show ?thesis
    proof (cases held)
      case True
      with release_lease_ok [OF h inv(1)] obtain q q' where "load_operation j (ol_op_key lease) = Some q"
        "load_operation j' = (load_operation j)(ol_op_key lease \<mapsto> q')" "lo_kind q' = lo_kind q"
        "lo_session_generation q' = lo_session_generation q" by auto
      with l show ?thesis by (intro quiet_operation [of j' j "ol_op_key lease" q' q])
    next
      case False
      with release_lease_ok [OF h inv(1)] show ?thesis by (simp add: quiet_same)
    qed
  next
    case (CallRecordHook sid hook key w now)
    with assms(1) have "reply RepHook (commit j (record_campus_teardown_hook_run j sid hook key w now)) = (j', r)"
      by simp
    then show ?thesis
      by (rule commit_cases)
        (auto simp: record_campus_teardown_hook_run_def split: if_splits intro: quiet_same)
  next
    case (CallPublish ns now)
    then have "j' = fst (mark_campus_lab_events_published j ns now)" using assms(1) by (simp add: reply_def)
    then show ?thesis by (intro quiet_same) (simp_all add: mark_campus_lab_events_published_def split_beta)
  next
    case (CallHold slot tenant kind reason actor now)
    with assms(1) have "reply RepHold (commit j (hold_campus_lab_slot j slot tenant kind reason actor now)) = (j', r)"
      by simp
    then show ?thesis by (rule commit_cases) (use inv quiet_slots quiet_same hold_extends in blast)+
  next
    case (CallReleaseHold slot kind held_by actor reason now)
    with assms(1) have "reply RepHoldReleased
        (commit j (release_campus_lab_slot_hold j slot kind held_by actor reason now)) = (j', r)" by simp
    then show ?thesis
      by (rule commit_cases) (use inv quiet_slots quiet_same release_slot_hold_extends in blast)+
  next
    case (CallSync tenant slots actor now)
    with assms(1) have "reply RepSync (commit j (sync_campus_lab_slots j tenant slots actor now)) = (j', r)" by simp
    then show ?thesis by (rule commit_cases) (use inv quiet_slots quiet_same sync_extends in blast)+
  qed (use assms quiet_same in auto)
qed

section \<open>Replies tell the truth\<close>

definition op_known :: "journal \<Rightarrow> op_knowledge \<Rightarrow> bool" where
  "op_known j f \<longleftrightarrow> (\<exists>q. load_operation j (fst f) = Some q \<and> op_fact q = f)"

lemma op_known_grows: "op_known j f \<Longrightarrow> journal_grows j j' \<Longrightarrow> op_known j' f"
  unfolding op_known_def journal_grows_def rows_step_def
  by (fastforce simp: op_fact_def op_workload_def op_update_ok_def)

lemma loaded_known: "journal_inv j \<Longrightarrow> load_operation j key = Some q \<Longrightarrow> op_known j (op_fact q)"
  using tables_okD(2) [OF journal_invD(2)] by (fastforce simp: op_known_def op_fact_def)

lemma committed_op:
  assumes "committed j t s e nx j' out" "to_begun out = Some q"
  shows "load_operation j' (lo_op_key q) = Some q \<and> state_op (lt_to t) = Some (lo_kind q) \<and>
    q = begun_op t nx (lo_kind q)"
  using assms
  by (auto simp: committed_def effect_ok_def Let_def begun_op_def new_operation_def split: option.splits)

lemma answer_truth:
  assumes "journal_answer j c = (j', rep)" "sound j"
  shows "plausible c rep \<and> (\<forall>f\<in>learned rep. op_known j' f)"
proof -
  have inv: "journal_inv j" using assms(2) by (simp add: sound_def)
  have inv': "journal_inv j'" using answer_sound [OF assms] by (simp add: sound_step_def sound_def)
  show ?thesis
  proof (cases c)
    case (CallTransition t)
    show ?thesis
    proof (cases "transition_campus_lab_session j t")
      case (Inl e)
      with CallTransition assms(1) show ?thesis by (auto simp: reply_def commit_def)
    next
      case (Inr r)
      then obtain out where t: "transition_campus_lab_session j t = Inr (j', out)" "rep = RepTransition (Inr out)"
        using CallTransition assms(1) by (cases r) (auto simp: reply_def commit_def)
      obtain s e nx where "committed j t s e nx j' out" using transition_committed [OF t(1) inv] by blast
      from committed_op [OF this] loaded_known [OF inv'] show ?thesis
        by (auto simp: t(2) CallTransition state_op_def split: if_splits)
    qed
  next
    case (CallLease key owner now secs)
    show ?thesis
    proof (cases "lease_campus_lab_operation j key owner now secs")
      case (Inl e)
      with CallLease assms(1) show ?thesis by (auto simp: reply_def commit_def)
    next
      case (Inr r)
      then obtain q where t: "lease_campus_lab_operation j key owner now secs = Inr (j', q)" "rep = RepLease (Inr q)"
        using CallLease assms(1) by (cases r) (auto simp: reply_def commit_def)
      from lease_ok [OF t(1) inv] have "load_operation j' key = Some q" by auto
      with loaded_known [OF inv'] tables_okD(2) [OF journal_invD(2) [OF inv']] show ?thesis
        by (auto simp: t(2) CallLease)
    qed
  next
    case (CallPending sid)
    show ?thesis
    proof (cases "pending_operation j sid")
      case (Some q)
      note P = pending_operation_ok [OF Some]
      then have "load_operation j (lo_op_key q) = Some q"
        using keys_okD(2) [OF journal_invD(1) [OF inv]] by (simp add: load_operation_lookup lookup_Some)
      with Some CallPending assms(1) loaded_known [OF inv] show ?thesis by auto
    qed (use CallPending assms(1) in auto)
  qed (use assms(1) in \<open>auto simp: reply_def commit_def split: sum.splits\<close>)
qed

section \<open>One launch per session\<close>

text \<open>Sessions are provisioned at generation 3, so a session has one provision operation.\<close>

definition launches_once :: "journal \<Rightarrow> bool" where
  "launches_once j \<longleftrightarrow>
     (\<forall>key q. load_operation j key = Some q \<and> lo_kind q = OpProvision \<longrightarrow> lo_session_generation q = 3)"

lemma successors_back:
  "LsRequested \<notin> set (successors x)" "LsAuthorizing \<in> set (successors x) \<Longrightarrow> x = LsRequested"
  "LsProvisioning \<in> set (successors x) \<Longrightarrow> x = LsAuthorizing"
  by (cases x; simp)+

lemma path_last: "lab_path a ts b \<Longrightarrow> ts = [] \<and> a = b \<or> (\<exists>us x. ts = us @ [b] \<and> lab_path a us x \<and> b \<in> set (successors x))"
proof (cases ts rule: rev_cases)
  case (snoc us c)
  assume "lab_path a ts b"
  then obtain x where "lab_path a us x" "lab_path x [c] b" by (auto simp: snoc lab_path_split)
  then show ?thesis using snoc by (auto simp: lab_step.simps transition_ok)
qed simp

lemma authorizing_path: "lab_path LsRequested ts LsAuthorizing \<Longrightarrow> length ts = 1"
  using path_last [of LsRequested ts LsAuthorizing] path_last [of LsRequested _ LsRequested] successors_back
  by fastforce

definition op_identity :: "lab_operation \<Rightarrow> string \<times> operation_kind_lab \<times> int" where
  "op_identity q = (lo_op_key q, lo_kind q, lo_session_generation q)"

lemma identity_update:
  "(\<And>q. op_identity (f q) = op_identity q) \<Longrightarrow> map op_identity (update_where P f rows) = map op_identity rows"
  by (simp add: update_where_def)

lemma complete_identity:
  "complete_operation j s c = Inr (j', key) \<Longrightarrow> map op_identity (jn_ops j') = map op_identity (jn_ops j)"
  using complete_operation_ok [of j s c j' key]
  by (auto intro!: identity_update simp: op_identity_def finish_op_def)

lemma abandon_identity:
  "abandon_provision j s error now = Inr (j', key) \<Longrightarrow> map op_identity (jn_ops j') = map op_identity (jn_ops j)"
  by (auto simp: abandon_provision_def res_simps op_identity_def finish_op_def intro!: identity_update
      split: option.splits if_splits)

lemma effect_identity:
  "transition_effect j t s = Inr e \<Longrightarrow> map op_identity (jn_ops (ef_journal e)) = map op_identity (jn_ops j)"
  by (cases "lt_from t")
    (auto simp: transition_effect_def plain_effect_def take_slot_def release_slot_def Let_def
      dest: complete_identity abandon_identity split: if_splits list.splits)

lemma identity_load:
  assumes "map op_identity (jn_ops j1) = map op_identity (jn_ops j)" "keys_ok j" "load_operation j1 key = Some q'"
  shows "\<exists>q. load_operation j key = Some q \<and> op_identity q = op_identity q'"
proof -
  have q': "q' \<in> set (jn_ops j1)" "lo_op_key q' = key"
    using assms(3) by (auto simp: load_operation_lookup dest: lookup_SomeD)
  then have "op_identity q' \<in> set (map op_identity (jn_ops j))" using assms(1) by (metis image_eqI list.set_map)
  then obtain q where "q \<in> set (jn_ops j)" "op_identity q = op_identity q'" by auto
  with q' keys_okD(2) [OF assms(2)] show ?thesis
    by (auto simp: load_operation_lookup lookup_Some op_identity_def)
qed

lemma launches_step:
  assumes "journal_answer j c = (j', r)" "sound j" "launches_once j"
  shows "launches_once j'"
proof (cases "\<exists>t. c = CallTransition t")
  case True
  then obtain t where t: "c = CallTransition t" by blast
  have inv: "journal_inv j" using assms(2) by (simp add: sound_def)
  show ?thesis
  proof (cases "transition_campus_lab_session j t")
    case (Inl e)
    with t assms show ?thesis by (auto simp: reply_def commit_def)
  next
    case (Inr x)
    then obtain out where tr: "transition_campus_lab_session j t = Inr (j', out)"
      using t assms(1) by (cases x) (auto simp: reply_def commit_def)
    obtain s e nx where c: "committed j t s e nx j' out" using transition_committed [OF tr inv] by blast
    have s: "load_session j (lt_session_id t) = Some s" "ls_state s = lt_from t"
      "lt_to t \<in> set (successors (lt_from t))" "ls_generation nx = ls_generation s + 1"
      using c by (auto simp: committed_def write_session_def)
    have new: "lo_session_generation (begun_op t nx kind) = 3"
      if "ef_begins e = Some kind" "kind = OpProvision" for kind
    proof -
      have "lt_to t = LsProvisioning"
        using c that by (auto simp: committed_def effect_ok_def Let_def state_op_def split: if_splits)
      with s(2, 3) successors_back(3) have "ls_state s = LsAuthorizing" by simp
      with session_trailD [of j "lt_session_id t" s] s(1) assms(2) authorizing_path have "ls_generation s = 2"
        unfolding sound_def by fastforce
      with s(4) show ?thesis by (simp add: begun_op_def new_operation_def)
    qed
    have old: "lo_session_generation q' = 3"
      if "load_operation (ef_journal e) key = Some q'" "lo_kind q' = OpProvision" for key q'
    proof -
      have "map op_identity (jn_ops (ef_journal e)) = map op_identity (jn_ops j)"
        using c effect_identity by (auto simp: committed_def)
      from identity_load [OF this journal_invD(1) [OF inv] that(1)] that(2) assms(3) show ?thesis
        by (fastforce simp: op_identity_def launches_once_def)
    qed
    show ?thesis
    proof (cases "ef_begins e")
      case None
      then have "load_operation j' = load_operation (ef_journal e)" using c by (simp add: committed_def)
      with old show ?thesis by (auto simp: launches_once_def)
    next
      case (Some kind)
      then have l: "load_operation j' = (load_operation j)(lo_op_key (begun_op t nx kind) \<mapsto> begun_op t nx kind)"
        using c by (simp add: committed_def)
      have "lo_kind (begun_op t nx kind) = kind" by (simp add: begun_op_def new_operation_def)
      with new [OF Some] assms(3) show ?thesis unfolding launches_once_def l
        by (metis fun_upd_apply option.inject)
    qed
  qed
next
  case False
  then have "quiet j j'" by (intro call_quiet [OF assms(1, 2)])
  with assms(3) show ?thesis by (fastforce simp: quiet_def launches_once_def)
qed

section \<open>The system\<close>

datatype worker =
    Runs driver_prog
  | Awaits nat provider_call "provider_reply \<Rightarrow> driver_prog"

record 'p lab_system =
  sy_journal :: journal
  sy_provider :: 'p
  sy_workers :: "nat \<Rightarrow> worker option"

text \<open>
  A worker starts a step, asks, goes on with a reply, ends or crashes; a provider call whose worker
  crashed keeps running. Teardown hooks answer anything. Beside the workers, the API and the janitor
  call the journal at any time, except that only the reconciler moves a session, and the provider
  moves on its own.
\<close>

inductive system_step ::
    "('p \<Rightarrow> provider_event \<Rightarrow> 'p \<Rightarrow> bool) \<Rightarrow> 'p lab_system \<Rightarrow> 'p lab_system \<Rightarrow> bool"
  for event :: "'p \<Rightarrow> provider_event \<Rightarrow> 'p \<Rightarrow> bool" where
  worker_advances: "system_step event y (y\<lparr>sy_workers := (sy_workers y)
     (i \<mapsto> Runs (advance_campus_lab_session ctx sid))\<rparr>)"
| worker_retries: "system_step event y (y\<lparr>sy_workers := (sy_workers y)
     (i \<mapsto> Runs (retry_campus_lab_cleanup ctx sid))\<rparr>)"
| worker_journal: "sy_workers y i = Some (Runs (AskJournal c k)) \<Longrightarrow> journal_answer (sy_journal y) c = (j', rep) \<Longrightarrow>
    system_step event y (y\<lparr>sy_journal := j', sy_workers := (sy_workers y)(i \<mapsto> Runs (k rep))\<rparr>)"
| worker_calls: "sy_workers y i = Some (Runs (AskProvider c k)) \<Longrightarrow> event (sy_provider y) (EvStart n c) p' \<Longrightarrow>
    system_step event y (y\<lparr>sy_provider := p', sy_workers := (sy_workers y)(i \<mapsto> Awaits n c k)\<rparr>)"
| worker_replied: "sy_workers y i = Some (Awaits n c k) \<Longrightarrow> event (sy_provider y) (EvReply n c r) p' \<Longrightarrow>
    system_step event y (y\<lparr>sy_provider := p', sy_workers := (sy_workers y)(i \<mapsto> Runs (k r))\<rparr>)"
| worker_hook: "sy_workers y i = Some (Runs (AskHook h key w k)) \<Longrightarrow>
    system_step event y (y\<lparr>sy_workers := (sy_workers y)(i \<mapsto> Runs (k r))\<rparr>)"
| worker_stops: "system_step event y (y\<lparr>sy_workers := (sy_workers y)(i := None)\<rparr>)"
| other_call: "(\<nexists>t. c = CallTransition t) \<Longrightarrow> journal_answer (sy_journal y) c = (j', rep) \<Longrightarrow>
    system_step event y (y\<lparr>sy_journal := j'\<rparr>)"
| provider_moves: "event (sy_provider y) e p' \<Longrightarrow> (\<nexists>n c. e = EvStart n c) \<Longrightarrow>
    system_step event y (y\<lparr>sy_provider := p'\<rparr>)"

inductive system_steps ::
    "('p \<Rightarrow> provider_event \<Rightarrow> 'p \<Rightarrow> bool) \<Rightarrow> 'p lab_system \<Rightarrow> 'p lab_system \<Rightarrow> bool"
  for event :: "'p \<Rightarrow> provider_event \<Rightarrow> 'p \<Rightarrow> bool" where
  system_here: "system_steps event y y"
| system_more: "system_steps event y y1 \<Longrightarrow> system_step event y1 y2 \<Longrightarrow> system_steps event y y2"

definition system_start :: "(string \<times> string \<times> string) list \<Rightarrow> 'p \<Rightarrow> 'p lab_system" where
  "system_start identities p =
     \<lparr>sy_journal = empty_journal identities, sy_provider = p, sy_workers = Map.empty\<rparr>"

fun worker_safe :: "worker \<Rightarrow> op_knowledge set \<Rightarrow> workload_ref set \<Rightarrow> bool" where
  "worker_safe (Runs m) K G = safe m K G"
| "worker_safe (Awaits n c k) K G = (\<forall>r. safe (k r) K (G \<union> cleared c r))"

text \<open>A provision call is known to the journal: its key is that of a provision operation, and its
  workload is the operation's.\<close>

definition launch_known :: "journal \<Rightarrow> string \<Rightarrow> provision_spec \<Rightarrow> bool" where
  "launch_known j key spec \<longleftrightarrow>
     (\<exists>q. load_operation j key = Some q \<and> lo_kind q = OpProvision \<and> op_workload q = ps_workload spec)"

lemma launch_known_grows: "launch_known j key spec \<Longrightarrow> journal_grows j j' \<Longrightarrow> launch_known j' key spec"
  unfolding launch_known_def journal_grows_def rows_step_def
  by (fastforce simp: op_workload_def op_update_ok_def)

lemma provisions_launch:
  "provisions_known K (PcProvision key spec) \<Longrightarrow> \<forall>f\<in>K. op_known j f \<Longrightarrow> launch_known j key spec"
proof -
  assume a: "provisions_known K (PcProvision key spec)" "\<forall>f\<in>K. op_known j f"
  then obtain w kind where "op_known j (key, OpProvision, w)" "op_known j (key, kind, ps_workload spec)" by auto
  then show ?thesis by (auto simp: op_known_def op_fact_def launch_known_def)
qed

lemma early_end:
  "transition_effect j t s = Inr e \<Longrightarrow> ls_state s = lt_from t \<Longrightarrow> lt_to t \<in> set (successors (lt_from t)) \<Longrightarrow>
     is_terminal (lt_to t) \<Longrightarrow> lt_from t \<noteq> LsCleaning \<Longrightarrow>
     lt_from t \<in> {LsRequested, LsAuthorizing} \<and> ls_slot_id (write_session s t e) = ls_slot_id s"
  by (cases "lt_from t"; cases "lt_to t")
    (auto simp: transition_effect_def plain_effect_def never_launched_def write_session_def Let_def split: if_splits)

lemma cleanup_ends_with:
  assumes "committed j t s e nx j' out" "lt_from t = LsCleaning" "is_terminal (lt_to t)"
  shows "\<exists>lease q. lt_lease t = Some lease \<and> load_operation j (ol_op_key lease) = Some q \<and>
     session_workload nx = Some (op_workload q)"
proof -
  have c: "transition_effect j t s = Inr e" "ls_session_id s = lt_session_id t" "session_update_ok s nx"
    using assms(1) by (auto simp: committed_def effect_ok_def Let_def)
  from c(1) assms(2, 3) obtain kind status error j1 key where
    "complete_operation j s \<lparr>cmp_kind = kind, cmp_lease = lt_lease t, cmp_status = status,
       cmp_result = lt_result t, cmp_error = error, cmp_now = lt_now t\<rparr> = Inr (j1, key)"
    by (auto simp: transition_effect_def Let_def split: if_splits)
  from complete_operation_ok [OF this] obtain lease :: op_lease and q where
    l: "lt_lease t = Some lease" "load_operation j (ol_op_key lease) = Some q"
    "lo_session_id q = ls_session_id s" "ls_slot_id s = Some (lo_slot_id q)"
    "ls_slot_generation s = Some (lo_slot_generation q)" by auto
  with c(3) have "session_workload nx = Some (op_workload q)"
    by (auto simp: session_update_ok_def session_workload_def op_workload_def)
  with l show ?thesis by blast
qed

text \<open>The system over a provider that keeps the contract.\<close>

locale lab_on_provider = execution_provider healthy event inventory torn_down accepted in_flight
  for healthy :: "'p \<Rightarrow> bool"
    and event :: "'p \<Rightarrow> provider_event \<Rightarrow> 'p \<Rightarrow> bool"
    and inventory :: "'p \<Rightarrow> owned_resource list"
    and torn_down :: "'p \<Rightarrow> workload_ref set"
    and accepted :: "'p \<Rightarrow> string \<Rightarrow> (provision_spec \<times> string) option"
    and in_flight :: "'p \<Rightarrow> (nat \<times> provider_call) set"
begin

definition gone :: "'p \<Rightarrow> workload_ref \<Rightarrow> bool" where
  "gone p w \<longleftrightarrow> w \<in> torn_down p \<and> labelled (inventory p) w = []"

lemma gone_event: "event p e p' \<Longrightarrow> healthy p \<Longrightarrow> gone p w \<Longrightarrow> gone p' w"
  using no_resurrection torn_down_stays unfolding gone_def by fastforce

lemma cleared_gone: "event p (EvReply n c r) p' \<Longrightarrow> healthy p \<Longrightarrow> w \<in> cleared c r \<Longrightarrow> gone p' w"
  using deleted_confirmed by (cases "(c, r)" rule: cleared.cases) (auto simp: gone_def)

definition worker_ok :: "journal \<Rightarrow> 'p \<Rightarrow> worker \<Rightarrow> bool" where
  "worker_ok j p m \<longleftrightarrow>
     (\<exists>K G. worker_safe m K G \<and> (\<forall>f\<in>K. op_known j f) \<and> (\<forall>w\<in>G. gone p w))"

definition ended_clean :: "journal \<Rightarrow> 'p \<Rightarrow> bool" where
  "ended_clean j p \<longleftrightarrow>
     (\<forall>sid s w. load_session j sid = Some s \<and> is_terminal (ls_state s) \<and> session_workload s = Some w \<longrightarrow> gone p w)"

definition launches_known :: "journal \<Rightarrow> 'p \<Rightarrow> bool" where
  "launches_known j p \<longleftrightarrow>
     (\<forall>c key spec. (c, PcProvision key spec) \<in> in_flight p \<longrightarrow> launch_known j key spec) \<and>
     (\<forall>key spec ws. accepted p key = Some (spec, ws) \<longrightarrow> launch_known j key spec)"

definition system_inv :: "'p lab_system \<Rightarrow> bool" where
  "system_inv y \<longleftrightarrow>
     sound (sy_journal y) \<and> launches_once (sy_journal y) \<and> healthy (sy_provider y) \<and>
     (\<forall>i m. sy_workers y i = Some m \<longrightarrow> worker_ok (sy_journal y) (sy_provider y) m) \<and>
     ended_clean (sy_journal y) (sy_provider y) \<and> launches_known (sy_journal y) (sy_provider y)"

lemma worker_ok_moves:
  "worker_ok j p m \<Longrightarrow> journal_grows j j' \<Longrightarrow> p' = p \<or> healthy p \<and> event p e p' \<Longrightarrow> worker_ok j' p' m"
proof -
  assume a: "worker_ok j p m" "journal_grows j j'" "p' = p \<or> healthy p \<and> event p e p'"
  then obtain K G where k: "worker_safe m K G" "\<forall>f\<in>K. op_known j f" "\<forall>w\<in>G. gone p w"
    unfolding worker_ok_def by blast
  have "\<forall>f\<in>K. op_known j' f" using k(2) a(2) op_known_grows by blast
  moreover have "\<forall>w\<in>G. gone p' w" using k(3) a(3) gone_event by blast
  ultimately show ?thesis using k(1) unfolding worker_ok_def by blast
qed

lemma ended_clean_event: "ended_clean j p \<Longrightarrow> healthy p \<Longrightarrow> event p e p' \<Longrightarrow> ended_clean j p'"
  unfolding ended_clean_def using gone_event by blast

lemma ended_clean_quiet: "ended_clean j p \<Longrightarrow> quiet j j' \<Longrightarrow> ended_clean j' p"
proof -
  assume a: "ended_clean j p" "quiet j j'"
  have "gone p w" if s': "load_session j' sid = Some s'" "is_terminal (ls_state s')" "session_workload s' = Some w"
    for sid s' w
  proof -
    from a(2) s'(1, 2) obtain s where s: "load_session j sid = Some s" "lifecycle s = lifecycle s'"
      unfolding quiet_def by blast
    then have "is_terminal (ls_state s)" "session_workload s = Some w"
      using s'(2, 3) lifecycle_workload [OF s(2)] by (simp_all add: lifecycle_def)
    with a(1) s(1) show ?thesis unfolding ended_clean_def by blast
  qed
  then show ?thesis unfolding ended_clean_def by blast
qed

lemma launches_known_grows: "launches_known j p \<Longrightarrow> journal_grows j j' \<Longrightarrow> launches_known j' p"
  unfolding launches_known_def using launch_known_grows by blast

lemma launches_known_event:
  assumes "launches_known j p" "healthy p" "event p e p'"
    "\<And>n key spec. e = EvStart n (PcProvision key spec) \<Longrightarrow> launch_known j key spec"
  shows "launches_known j p'"
  unfolding launches_known_def
proof (intro conjI allI impI)
  fix c key spec
  assume "(c, PcProvision key spec) \<in> in_flight p'"
  with starts [OF assms(3)] assms(1, 4) show "launch_known j key spec"
    unfolding launches_known_def by fastforce
next
  fix key spec ws
  assume a: "accepted p' key = Some (spec, ws)"
  show "launch_known j key spec"
  proof (cases "accepted p key")
    case None
    from accepts_called [OF assms(3, 2) None a] assms(1) show ?thesis unfolding launches_known_def by blast
  next
    case (Some b)
    with accepted_stays [OF assms(3, 2) Some] a assms(1) show ?thesis unfolding launches_known_def by auto
  qed
qed

lemma ended_clean_transition:
  assumes "transition_campus_lab_session j t = Inr (j', out)" "sound j" "ended_clean j p"
    and K: "\<forall>lease. ends_cleanup (CallTransition t) (Some lease) \<longrightarrow> (\<exists>w\<in>G. \<exists>kind. (ol_op_key lease, kind, w) \<in> K)"
      "\<forall>f\<in>K. op_known j f" "\<forall>w\<in>G. gone p w"
  shows "ended_clean j' p"
  unfolding ended_clean_def
proof (intro allI impI)
  fix sid x w
  assume x: "load_session j' sid = Some x \<and> is_terminal (ls_state x) \<and> session_workload x = Some w"
  have inv: "journal_inv j" using assms(2) by (simp add: sound_def)
  obtain s e nx where c: "committed j t s e nx j' out" using transition_committed [OF assms(1) inv] by blast
  show "gone p w"
  proof (cases "sid = lt_session_id t")
    case False
    with c x have "load_session j sid = Some x" by (simp add: committed_def)
    with x assms(3) show ?thesis unfolding ended_clean_def by blast
  next
    case True
    with c x have nx: "x = nx" "nx = write_session s t e" "is_terminal (lt_to t)"
      "load_session j sid = Some s" "ls_state s = lt_from t" "transition_effect j t s = Inr e"
      "lt_to t \<in> set (successors (lt_from t))"
      by (auto simp: committed_def write_session_def)
    show ?thesis
    proof (cases "lt_from t = LsCleaning")
      case True
      from cleanup_ends_with [OF c True nx(3)] obtain lease q where
        l: "lt_lease t = Some lease" "load_operation j (ol_op_key lease) = Some q"
          "session_workload nx = Some (op_workload q)" by blast
      then have "ends_cleanup (CallTransition t) (Some lease)"
        using True nx(3) by (simp add: ends_cleanup_def)
      with K(1) obtain w' kind where k: "w' \<in> G" "(ol_op_key lease, kind, w') \<in> K" by blast
      with K(2) l(2) have "w' = op_workload q" by (auto simp: op_known_def op_fact_def)
      with k(1) K(3) l(3) x nx(1) show ?thesis by auto
    next
      case False
      from early_end [OF nx(6, 5, 7, 3) False] have "lt_from t \<in> {LsRequested, LsAuthorizing}"
        "ls_slot_id nx = ls_slot_id s" by (simp_all add: nx(2))
      moreover have "session_extra_ok s" using tables_okD(1) [OF journal_invD(2) [OF inv] nx(4)] by simp
      ultimately have "ls_slot_id nx = None" using nx(5) by (auto simp: session_extra_ok_def)
      with x nx(1) show ?thesis by (simp add: session_workload_def)
    qed
  qed
qed

text \<open>A journal call by anybody, with the knowledge of its caller.\<close>

lemma journal_call_keeps:
  assumes "journal_answer j c = (j', rep)" "sound j" "launches_once j" "ended_clean j p" "launches_known j p"
    and K: "\<forall>lease. ends_cleanup c (Some lease) \<longrightarrow> (\<exists>w\<in>G. \<exists>kind. (ol_op_key lease, kind, w) \<in> K)"
      "\<forall>f\<in>K. op_known j f" "\<forall>w\<in>G. gone p w"
  shows "sound j' \<and> journal_grows j j' \<and> launches_once j' \<and> ended_clean j' p \<and> launches_known j' p \<and>
    plausible c rep \<and> (\<forall>f\<in>learned rep. op_known j' f)"
proof -
  have s: "sound j'" "journal_grows j j'" using answer_sound [OF assms(1, 2)] by (simp_all add: sound_step_def)
  have "ended_clean j' p"
  proof (cases "\<exists>t. c = CallTransition t")
    case True
    then obtain t where t: "c = CallTransition t" by blast
    show ?thesis
    proof (cases "transition_campus_lab_session j t")
      case (Inl e)
      with t assms(1, 4) show ?thesis by (auto simp: reply_def commit_def)
    next
      case (Inr x)
      then obtain out where "transition_campus_lab_session j t = Inr (j', out)"
        using t assms(1) by (cases x) (auto simp: reply_def commit_def)
      from ended_clean_transition [OF this assms(2, 4) K [unfolded t]] show ?thesis .
    qed
  qed (use call_quiet [OF assms(1, 2)] ended_clean_quiet assms(4) in blast)
  with s launches_step [OF assms(1-3)] launches_known_grows [OF assms(5) s(2)] answer_truth [OF assms(1, 2)]
  show ?thesis by blast
qed

lemma system_step_inv:
  assumes "system_step event y y'" "system_inv y"
  shows "system_inv y'"
proof -
  have inv: "sound (sy_journal y)" "launches_once (sy_journal y)" "healthy (sy_provider y)"
    "ended_clean (sy_journal y) (sy_provider y)" "launches_known (sy_journal y) (sy_provider y)"
    and workers: "\<And>i m. sy_workers y i = Some m \<Longrightarrow> worker_ok (sy_journal y) (sy_provider y) m"
    using assms(2) unfolding system_inv_def by blast+
  have advances: "worker_ok j p (Runs (advance_campus_lab_session ctx sid))"
    "worker_ok j p (Runs (retry_campus_lab_cleanup ctx sid))" for j p ctx sid
    unfolding worker_ok_def by (auto intro!: exI [of _ "{}"] simp: safe_advance safe_retry)
  from assms(1) show ?thesis
  proof cases
    case (worker_advances i ctx sid)
    then show ?thesis using inv workers advances(1) unfolding system_inv_def by (auto split: if_splits)
  next
    case (worker_retries i ctx sid)
    then show ?thesis using inv workers advances(2) unfolding system_inv_def by (auto split: if_splits)
  next
    case (worker_journal i c k j' rep)
    from workers [OF worker_journal(2)] obtain K G where
      K: "safe (AskJournal c k) K G" "\<forall>f\<in>K. op_known (sy_journal y) f" "\<forall>w\<in>G. gone (sy_provider y) w"
      unfolding worker_ok_def by auto
    from journal_call_keeps [OF worker_journal(3) inv(1, 2, 4, 5) _ K(2, 3)] K(1)
    have A: "sound j'" "journal_grows (sy_journal y) j'" "launches_once j'" "ended_clean j' (sy_provider y)"
      "launches_known j' (sy_provider y)" "plausible c rep" "\<forall>f\<in>learned rep. op_known j' f" by auto
    have "\<forall>f\<in>K \<union> learned rep. op_known j' f" using K(2) A(2, 7) op_known_grows by blast
    then have "worker_ok j' (sy_provider y) (Runs (k rep))"
      unfolding worker_ok_def using K(1, 3) A(6) by (intro exI [of _ "K \<union> learned rep"] exI [of _ G]) auto
    moreover have "worker_ok j' (sy_provider y) m" if "sy_workers y l = Some m" for l m
      using worker_ok_moves [OF workers [OF that] A(2)] by blast
    ultimately show ?thesis using A inv(3) worker_journal(1)
      unfolding system_inv_def by (auto split: if_splits)
  next
    case (worker_calls i c k n p')
    from workers [OF worker_calls(2)] obtain K G where
      K: "safe (AskProvider c k) K G" "\<forall>f\<in>K. op_known (sy_journal y) f" "\<forall>w\<in>G. gone (sy_provider y) w"
      unfolding worker_ok_def by auto
    have h: "healthy p'" by (rule healthy_event [OF worker_calls(3) inv(3)])
    have "\<forall>w\<in>G. gone p' w" using K(3) gone_event [OF worker_calls(3) inv(3)] by blast
    then have "worker_ok (sy_journal y) p' (Awaits n c k)"
      unfolding worker_ok_def using K(1, 2) by (intro exI [of _ K] exI [of _ G]) auto
    moreover have "launches_known (sy_journal y) p'"
      by (rule launches_known_event [OF inv(5, 3) worker_calls(3)])
        (use K(1, 2) provisions_launch in \<open>auto simp del: provisions_known.simps\<close>)
    moreover have "worker_ok (sy_journal y) p' m" if "sy_workers y l = Some m" for l m
      using worker_ok_moves [OF workers [OF that] grows_refl] worker_calls(3) inv(3) by blast
    ultimately show ?thesis
      using inv h worker_calls(1) ended_clean_event [OF inv(4, 3) worker_calls(3)]
      unfolding system_inv_def by (auto split: if_splits)
  next
    case (worker_replied i n c k r p')
    from workers [OF worker_replied(2)] obtain K G where
      K: "\<forall>r. safe (k r) K (G \<union> cleared c r)" "\<forall>f\<in>K. op_known (sy_journal y) f" "\<forall>w\<in>G. gone (sy_provider y) w"
      unfolding worker_ok_def by auto
    have h: "healthy p'" by (rule healthy_event [OF worker_replied(3) inv(3)])
    have "\<forall>w\<in>G \<union> cleared c r. gone p' w"
      using K(3) gone_event [OF worker_replied(3) inv(3)] cleared_gone [OF worker_replied(3) inv(3)] by blast
    then have "worker_ok (sy_journal y) p' (Runs (k r))"
      unfolding worker_ok_def using K(1, 2) by (intro exI [of _ K] exI [of _ "G \<union> cleared c r"]) auto
    moreover have "launches_known (sy_journal y) p'"
      by (rule launches_known_event [OF inv(5, 3) worker_replied(3)]) simp
    moreover have "worker_ok (sy_journal y) p' m" if "sy_workers y l = Some m" for l m
      using worker_ok_moves [OF workers [OF that] grows_refl] worker_replied(3) inv(3) by blast
    ultimately show ?thesis
      using inv h worker_replied(1) ended_clean_event [OF inv(4, 3) worker_replied(3)]
      unfolding system_inv_def by (auto split: if_splits)
  next
    case (worker_hook i h key w k r)
    from workers [OF worker_hook(2)] have "worker_ok (sy_journal y) (sy_provider y) (Runs (k r))"
      unfolding worker_ok_def by auto
    with worker_hook(1) inv workers show ?thesis unfolding system_inv_def by (auto split: if_splits)
  next
    case (worker_stops i)
    with inv workers show ?thesis unfolding system_inv_def by (auto split: if_splits)
  next
    case (other_call c j' rep)
    have "\<forall>lease. \<not> ends_cleanup c (Some lease)" using other_call(2) by (auto simp: ends_cleanup_def)
    then have A: "sound j'" "journal_grows (sy_journal y) j'" "launches_once j'" "ended_clean j' (sy_provider y)"
      "launches_known j' (sy_provider y)"
      using journal_call_keeps [OF other_call(3) inv(1, 2, 4, 5), of "{}" "{}"] by auto
    moreover have "worker_ok j' (sy_provider y) m" if "sy_workers y l = Some m" for l m
      using worker_ok_moves [OF workers [OF that] A(2)] by blast
    ultimately show ?thesis using inv(3) other_call(1) unfolding system_inv_def by auto
  next
    case (provider_moves e p')
    have h: "healthy p'" by (rule healthy_event [OF provider_moves(2) inv(3)])
    have "launches_known (sy_journal y) p'"
      by (rule launches_known_event [OF inv(5, 3) provider_moves(2)]) (use provider_moves(3) in blast)
    moreover have "worker_ok (sy_journal y) p' m" if "sy_workers y l = Some m" for l m
      using worker_ok_moves [OF workers [OF that] grows_refl] provider_moves(2) inv(3) by blast
    ultimately show ?thesis
      using inv h provider_moves(1) ended_clean_event [OF inv(4, 3) provider_moves(2)]
      unfolding system_inv_def by auto
  qed
qed

lemma system_steps_inv: "system_steps event y y' \<Longrightarrow> system_inv y \<Longrightarrow> system_inv y'"
  by (induction rule: system_steps.induct) (auto intro: system_step_inv)

lemma system_start_inv:
  assumes "healthy p" "in_flight p = {}" "\<And>key. accepted p key = None"
  shows "system_inv (system_start identities p)"
proof -
  have "load_session (empty_journal identities) = Map.empty" "load_operation (empty_journal identities) = Map.empty"
    by (simp_all add: load_session_def load_operation_def empty_journal_def fun_eq_iff)
  with assms empty_sound show ?thesis
    unfolding system_inv_def system_start_def ended_clean_def launches_known_def launches_once_def by auto
qed

lemma resource_operation:
  assumes "system_inv y" "r \<in> set (inventory (sy_provider y))"
  shows "\<exists>q. load_operation (sy_journal y) (or_op_key r) = Some q \<and> op_workload q = or_workload r \<and>
    or_op_key r = campus_operation_key (wl_session_id (or_workload r)) OpProvision 3 \<and>
    (\<exists>s. load_session (sy_journal y) (wl_session_id (or_workload r)) = Some s \<and>
       session_workload s = Some (or_workload r))"
proof -
  have inv: "sound (sy_journal y)" "launches_once (sy_journal y)" "healthy (sy_provider y)"
    "launches_known (sy_journal y) (sy_provider y)"
    using assms(1) unfolding system_inv_def by blast+
  have t: "tables_ok (load_session (sy_journal y)) (load_operation (sy_journal y)) (load_slot (sy_journal y))"
    using inv(1) by (simp add: sound_def journal_inv_def)
  from labels [OF inv(3) assms(2)] obtain spec ws where
    "accepted (sy_provider y) (or_op_key r) = Some (spec, ws)" "ps_workload spec = or_workload r" by blast
  with inv(4) obtain q where q: "load_operation (sy_journal y) (or_op_key r) = Some q" "lo_kind q = OpProvision"
    "op_workload q = or_workload r" unfolding launches_known_def launch_known_def by metis
  with inv(2) have "lo_session_generation q = 3" unfolding launches_once_def by blast
  moreover from tables_okD(2) [OF t q(1)] have o: "lo_op_key q = or_op_key r" "op_ok (load_session (sy_journal y)) q"
    by simp_all
  moreover from o(2) obtain s where s: "load_session (sy_journal y) (lo_session_id q) = Some s"
    "ls_slot_id s = Some (lo_slot_id q)" "ls_slot_generation s = Some (lo_slot_generation q)"
    by (auto simp: op_ok_def)
  moreover have "ls_session_id s = lo_session_id q" using tables_okD(1) [OF t s(1)] by simp
  moreover have "lo_session_id q = wl_session_id (or_workload r)"
    unfolding q(3) [symmetric] by (simp add: op_workload_def)
  ultimately show ?thesis using q by (auto simp: op_ok_def session_workload_def op_workload_def)
qed

text \<open>A session that ended owns nothing, under any slot generation; a session that did not owns at most
  one workspace.\<close>

lemma ended_owns_nothing:
  assumes "system_inv y" "load_session (sy_journal y) sid = Some s" "is_terminal (ls_state s)"
    "r \<in> set (inventory (sy_provider y))"
  shows "wl_session_id (or_workload r) \<noteq> sid"
proof
  assume "wl_session_id (or_workload r) = sid"
  with resource_operation [OF assms(1, 4)] assms(2) have "session_workload s = Some (or_workload r)" by auto
  moreover have "ended_clean (sy_journal y) (sy_provider y)" using assms(1) unfolding system_inv_def by blast
  ultimately have "gone (sy_provider y) (or_workload r)" using assms(2, 3) unfolding ended_clean_def by blast
  with assms(4) show False by (auto simp: gone_def labelled_Nil)
qed

lemma one_workspace_each:
  assumes "system_inv y" "r \<in> set (inventory (sy_provider y))" "r' \<in> set (inventory (sy_provider y))"
    "wl_session_id (or_workload r) = wl_session_id (or_workload r')"
    "or_kind r = ''workspace''" "or_kind r' = ''workspace''"
  shows "or_resource_id r = or_resource_id r'"
proof -
  have "healthy (sy_provider y)" using assms(1) unfolding system_inv_def by blast
  moreover have "or_op_key r = or_op_key r'"
    using resource_operation [OF assms(1, 2)] resource_operation [OF assms(1, 3)] assms(4) by metis
  ultimately show ?thesis using key_resources assms by blast
qed

text \<open>What the provider owns belongs to sessions that may hold resources, under their slot generation.\<close>

lemma resources_accounted:
  assumes "system_inv y" "r \<in> set (inventory (sy_provider y))"
  shows "\<exists>s. load_session (sy_journal y) (wl_session_id (or_workload r)) = Some s \<and>
    session_workload s = Some (or_workload r) \<and> may_hold_resources (ls_state s)"
proof -
  from resource_operation [OF assms] obtain s where s:
    "load_session (sy_journal y) (wl_session_id (or_workload r)) = Some s"
    "session_workload s = Some (or_workload r)" by blast
  have "\<not> is_terminal (ls_state s)" using ended_owns_nothing [OF assms(1) s(1) _ assms(2)] by blast
  moreover have "session_extra_ok s"
    using s(1) assms(1) tables_okD(1) unfolding system_inv_def sound_def journal_inv_def by blast
  ultimately have "may_hold_resources (ls_state s)"
    using s(2) by (cases "ls_state s")
      (auto simp: session_extra_ok_def session_workload_def may_hold_resources_def)
  with s show ?thesis by blast
qed

end

end
