(* ===== verification/FakeProvider.thy ===== *)
theory FakeProvider
  imports ExecutionProvider
begin

text \<open>
  The in-memory execution provider of \<open>campus_lab_session/fake.rs\<close>, with its fault injection. A call is
  a sequence of segments, each under one acquisition of the state's mutex; between two segments other
  calls run, a pause waits for a permit, and the caller may drop the call. \<open>u64\<close> counters are natural
  numbers: they do not reach \<open>2 ^ 64\<close> creations.
\<close>

section \<open>Ordered maps\<close>

definition bt_get :: "(string \<times> 'v) list \<Rightarrow> string \<Rightarrow> 'v option" where
  "bt_get m k = map_of m k"

definition bt_remove :: "string \<Rightarrow> (string \<times> 'v) list \<Rightarrow> (string \<times> 'v) list" where
  "bt_remove k m = filter (\<lambda>e. fst e \<noteq> k) m"

definition bt_insert :: "string \<Rightarrow> 'v \<Rightarrow> (string \<times> 'v) list \<Rightarrow> (string \<times> 'v) list" where
  "bt_insert k v m = insort_key fst (k, v) (bt_remove k m)"

definition bt_values :: "(string \<times> 'v) list \<Rightarrow> 'v list" where
  "bt_values m = map snd m"

lemma bt_get_insert: "bt_get (bt_insert k v m) x = (if x = k then Some v else bt_get m x)"
proof -
  have "map_of (insort_key fst (k, v) m) = (map_of m)(k \<mapsto> v)" if "k \<notin> fst ` set m" for m
    using that by (induction m) (auto simp: fun_eq_iff)
  moreover have "map_of (bt_remove k m) x = (if x = k then None else map_of m x)"
    by (induction m) (auto simp: bt_remove_def)
  moreover have "k \<notin> fst ` set (bt_remove k m)" by (auto simp: bt_remove_def)
  ultimately show ?thesis by (simp add: bt_get_def bt_insert_def)
qed

lemma bt_insert_set: "set (bt_insert k v m) = insert (k, v) {e \<in> set m. fst e \<noteq> k}"
  by (auto simp: bt_insert_def bt_remove_def set_insort_key)

lemma bt_remove_set: "set (bt_remove k m) = {e \<in> set m. fst e \<noteq> k}"
  by (auto simp: bt_remove_def)

section \<open>Faults\<close>

datatype fault_point =
    BeforeProvision | AfterProvision | BeforeDelete | MidDelete | AtObserve | AtListOwned

datatype fake_fault =
    FaultPause | FaultUnreachable | FaultBlocked string | FaultReject string | FaultInProgress

record fake_state =
  fk_resources :: "(string \<times> owned_resource) list"
  fk_provisions :: "(string \<times> (provision_spec \<times> string)) list"
  fk_deleted :: "workload_ref set"
  fk_faults :: "(fault_point \<times> fake_fault) list"
  fk_next_id :: nat
  fk_workspaces_created :: nat
  fk_calls :: "string list"

definition fake_new :: fake_state where
  "fake_new = \<lparr>fk_resources = [], fk_provisions = [], fk_deleted = {}, fk_faults = [], fk_next_id = 0,
     fk_workspaces_created = 0, fk_calls = []\<rparr>"

fun remove_first :: "('a \<Rightarrow> bool) \<Rightarrow> 'a list \<Rightarrow> 'a list" where
  "remove_first P [] = []"
| "remove_first P (x # xs) = (if P x then xs else x # remove_first P xs)"

definition take_fault :: "fake_state \<Rightarrow> fault_point \<Rightarrow> fake_state \<times> fake_fault option" where
  "take_fault st point =
     (case find (\<lambda>f. fst f = point) (fk_faults st) of
        None \<Rightarrow> (st, None)
      | Some f \<Rightarrow> (st\<lparr>fk_faults := remove_first (\<lambda>f. fst f = point) (fk_faults st)\<rparr>, Some (snd f)))"

definition record_call :: "fake_state \<Rightarrow> string \<Rightarrow> workload_ref \<Rightarrow> fake_state" where
  "record_call st method w =
     st\<lparr>fk_calls := fk_calls st @
       [method @ '':'' @ wl_session_id w @ '':'' @ show_int (wl_slot_generation w)]\<rparr>"

text \<open>The \<open>Debug\<close> form of a fault.\<close>

fun fault_debug :: "fake_fault \<Rightarrow> string" where
  "fault_debug FaultPause = ''Pause''"
| "fault_debug FaultUnreachable = ''Unreachable''"
| "fault_debug (FaultBlocked r) = ''Blocked('' @ debug_str r @ '')''"
| "fault_debug (FaultReject r) = ''Reject('' @ debug_str r @ '')''"
| "fault_debug FaultInProgress = ''InProgress''"

fun point_debug :: "fault_point \<Rightarrow> string" where
  "point_debug BeforeProvision = ''BeforeProvision''"
| "point_debug AfterProvision = ''AfterProvision''"
| "point_debug BeforeDelete = ''BeforeDelete''"
| "point_debug MidDelete = ''MidDelete''"
| "point_debug AtObserve = ''Observe''"
| "point_debug AtListOwned = ''ListOwned''"

definition unexpected_fault :: "fake_fault \<Rightarrow> fault_point \<Rightarrow> provider_error" where
  "unexpected_fault fault point =
     PeInternal (''injected '' @ fault_debug fault @ '' at '' @ point_debug point)"

section \<open>Calls\<close>

datatype fake_phase =
    PhProvision string provision_spec
  | PhProvisionFault string provision_spec
  | PhProvisionPaused string provision_spec
  | PhProvisionCreate string provision_spec
  | PhProvisionAfter string
  | PhProvisionAfterPaused string
  | PhObserve workload_ref
  | PhObserveFault workload_ref
  | PhObservePaused workload_ref
  | PhObserveRead workload_ref
  | PhDelete workload_ref
  | PhDeleteFault workload_ref
  | PhDeletePaused workload_ref
  | PhDeleteMark workload_ref
  | PhDeleteRemove "string list" nat
  | PhDeleteMid "string list"
  | PhDeleteMidPaused "string list"
  | PhList
  | PhListPaused
  | PhListRead

datatype fake_next = Goes fake_phase | Replies provider_reply

definition fake_resource :: "string \<Rightarrow> string \<Rightarrow> string \<Rightarrow> provision_spec \<Rightarrow> owned_resource" where
  "fake_resource rid kind key spec =
     \<lparr>or_resource_id = rid, or_kind = kind, or_workload = ps_workload spec, or_op_key = key\<rparr>"

definition create_workspace :: "fake_state \<Rightarrow> string \<Rightarrow> provision_spec \<Rightarrow> fake_state \<times> string" where
  "create_workspace st key spec =
     (let n = fk_next_id st + 1; ws = ''fake-ws-'' @ show_nat n; netpol = ws @ ''-netpol'' in
      (st\<lparr>fk_next_id := n,
          fk_resources := bt_insert netpol (fake_resource netpol ''network_policy'' key spec)
            (bt_insert ws (fake_resource ws ''workspace'' key spec) (fk_resources st)),
          fk_workspaces_created := fk_workspaces_created st + 1,
          fk_provisions := bt_insert key (spec, ws) (fk_provisions st)\<rparr>, ws))"

definition provision_create :: "fake_state \<Rightarrow> string \<Rightarrow> provision_spec \<Rightarrow> fake_state \<times> fake_next" where
  "provision_create st key spec =
     (if ps_workload spec \<in> fk_deleted st
      then (st, Replies (PrProvision (Inr (PoRejected ''the workload was already deleted''))))
      else case bt_get (fk_provisions st) key of
          Some (existing, ws) \<Rightarrow>
            if existing \<noteq> spec
            then (st, Replies (PrProvision (Inr (PoRejected ''operation key was reused with a different spec''))))
            else (st, Goes (PhProvisionAfter ws))
        | None \<Rightarrow> let (st', ws) = create_workspace st key spec in (st', Goes (PhProvisionAfter ws)))"

definition before_provision :: "string \<Rightarrow> provision_spec \<Rightarrow> fake_fault option \<Rightarrow> fake_next" where
  "before_provision key spec fault = (case fault of
       None \<Rightarrow> Goes (PhProvisionCreate key spec)
     | Some FaultPause \<Rightarrow> Goes (PhProvisionPaused key spec)
     | Some FaultUnreachable \<Rightarrow> Replies (PrProvision (Inl (PeUnreachable ''injected before provision'')))
     | Some (FaultReject reason) \<Rightarrow> Replies (PrProvision (Inr (PoRejected reason)))
     | Some f \<Rightarrow> Replies (PrProvision (Inl (unexpected_fault f BeforeProvision))))"

definition after_provision :: "string \<Rightarrow> fake_fault option \<Rightarrow> fake_next" where
  "after_provision ws fault = (case fault of
       None \<Rightarrow> Replies (PrProvision (Inr (PoReady ws)))
     | Some FaultPause \<Rightarrow> Goes (PhProvisionAfterPaused ws)
     | Some FaultUnreachable \<Rightarrow> Replies (PrProvision (Inl (PeUnreachable ''injected after provision'')))
     | Some FaultInProgress \<Rightarrow> Replies (PrProvision (Inr (PoInProgress ws)))
     | Some f \<Rightarrow> Replies (PrProvision (Inl (unexpected_fault f AfterProvision))))"

definition at_observe :: "workload_ref \<Rightarrow> fake_fault option \<Rightarrow> fake_next" where
  "at_observe w fault = (case fault of
       None \<Rightarrow> Goes (PhObserveRead w)
     | Some FaultPause \<Rightarrow> Goes (PhObservePaused w)
     | Some FaultUnreachable \<Rightarrow> Replies (PrObserve (Inl (PeUnreachable ''injected observe'')))
     | Some f \<Rightarrow> Replies (PrObserve (Inl (unexpected_fault f AtObserve))))"

definition observe_read :: "fake_state \<Rightarrow> workload_ref \<Rightarrow> observation" where
  "observe_read st w =
     (case find (\<lambda>r. or_kind r = ''workspace'' \<and> or_workload r = w) (bt_values (fk_resources st)) of
        None \<Rightarrow> ObsAbsent
      | Some r \<Rightarrow> ObsReady (or_resource_id r))"

definition before_delete :: "workload_ref \<Rightarrow> fake_fault option \<Rightarrow> fake_next" where
  "before_delete w fault = (case fault of
       None \<Rightarrow> Goes (PhDeleteMark w)
     | Some FaultPause \<Rightarrow> Goes (PhDeletePaused w)
     | Some FaultUnreachable \<Rightarrow> Replies (PrDelete (Inr (DelUnreachable ''injected before delete'')))
     | Some (FaultBlocked reason) \<Rightarrow> Replies (PrDelete (Inr (DelBlocked reason)))
     | Some FaultInProgress \<Rightarrow> Replies (PrDelete (Inr DelInProgress))
     | Some f \<Rightarrow> Replies (PrDelete (Inl (unexpected_fault f BeforeDelete))))"

definition mid_delete :: "string list \<Rightarrow> fake_fault option \<Rightarrow> fake_next" where
  "mid_delete owned fault = (case fault of
       None \<Rightarrow> Goes (PhDeleteRemove owned 1)
     | Some FaultPause \<Rightarrow> Goes (PhDeleteMidPaused owned)
     | Some FaultUnreachable \<Rightarrow> Replies (PrDelete (Inr (DelUnreachable ''injected mid delete'')))
     | Some (FaultBlocked reason) \<Rightarrow> Replies (PrDelete (Inr (DelBlocked reason)))
     | Some f \<Rightarrow> Replies (PrDelete (Inl (unexpected_fault f MidDelete))))"

definition at_list :: "fake_fault option \<Rightarrow> fake_next" where
  "at_list fault = (case fault of
       None \<Rightarrow> Goes PhListRead
     | Some FaultPause \<Rightarrow> Goes PhListPaused
     | Some FaultUnreachable \<Rightarrow> Replies (PrOwned (Inl (PeUnreachable ''injected list owned'')))
     | Some f \<Rightarrow> Replies (PrOwned (Inl (unexpected_fault f AtListOwned))))"

fun fake_start :: "provider_call \<Rightarrow> fake_phase" where
  "fake_start (PcProvision key spec) = PhProvision key spec"
| "fake_start (PcObserve w) = PhObserve w"
| "fake_start (PcDelete key w) = PhDelete w"
| "fake_start PcListOwned = PhList"

text \<open>One segment. A paused call goes on only with a permit.\<close>

fun is_paused :: "fake_phase \<Rightarrow> bool" where
  "is_paused (PhProvisionPaused key spec) = True"
| "is_paused (PhProvisionAfterPaused ws) = True"
| "is_paused (PhObservePaused w) = True"
| "is_paused (PhDeletePaused w) = True"
| "is_paused (PhDeleteMidPaused owned) = True"
| "is_paused PhListPaused = True"
| "is_paused ph = False"

fun fake_step :: "fake_state \<Rightarrow> fake_phase \<Rightarrow> fake_state \<times> fake_next" where
  "fake_step st (PhProvision key spec) =
     (record_call st ''provision'' (ps_workload spec), Goes (PhProvisionFault key spec))"
| "fake_step st (PhProvisionFault key spec) = apsnd (before_provision key spec) (take_fault st BeforeProvision)"
| "fake_step st (PhProvisionPaused key spec) = (st, Goes (PhProvisionCreate key spec))"
| "fake_step st (PhProvisionCreate key spec) = provision_create st key spec"
| "fake_step st (PhProvisionAfter ws) = apsnd (after_provision ws) (take_fault st AfterProvision)"
| "fake_step st (PhProvisionAfterPaused ws) = (st, Replies (PrProvision (Inr (PoReady ws))))"
| "fake_step st (PhObserve w) = (record_call st ''observe'' w, Goes (PhObserveFault w))"
| "fake_step st (PhObserveFault w) = apsnd (at_observe w) (take_fault st AtObserve)"
| "fake_step st (PhObservePaused w) = (st, Goes (PhObserveRead w))"
| "fake_step st (PhObserveRead w) = (st, Replies (PrObserve (Inr (observe_read st w))))"
| "fake_step st (PhDelete w) = (record_call st ''delete'' w, Goes (PhDeleteFault w))"
| "fake_step st (PhDeleteFault w) = apsnd (before_delete w) (take_fault st BeforeDelete)"
| "fake_step st (PhDeletePaused w) = (st, Goes (PhDeleteMark w))"
| "fake_step st (PhDeleteMark w) =
     (st\<lparr>fk_deleted := insert w (fk_deleted st)\<rparr>,
      Goes (PhDeleteRemove (map or_resource_id (labelled (bt_values (fk_resources st)) w)) 0))"
| "fake_step st (PhDeleteRemove owned i) =
     (if i < length owned
      then (st\<lparr>fk_resources := bt_remove (owned ! i) (fk_resources st)\<rparr>,
            Goes (if i = 0 \<and> 1 < length owned then PhDeleteMid owned else PhDeleteRemove owned (i + 1)))
      else (st, Replies (PrDelete (Inr DelDeleted))))"
| "fake_step st (PhDeleteMid owned) = apsnd (mid_delete owned) (take_fault st MidDelete)"
| "fake_step st (PhDeleteMidPaused owned) = (st, Goes (PhDeleteRemove owned 1))"
| "fake_step st PhList = apsnd at_list (take_fault st AtListOwned)"
| "fake_step st PhListPaused = (st, Goes PhListRead)"
| "fake_step st PhListRead = (st, Replies (PrOwned (Inr (bt_values (fk_resources st)))))"

section \<open>The provider and its calls\<close>

record fake_system =
  fy_state :: fake_state
  fy_permits :: nat
  fy_calls :: "nat \<Rightarrow> (provider_call \<times> fake_phase) option"

definition fake_init :: fake_system where
  "fake_init = \<lparr>fy_state = fake_new, fy_permits = 0, fy_calls = Map.empty\<rparr>"

definition fake_segment :: "fake_system \<Rightarrow> nat \<Rightarrow> (fake_system \<times> provider_event) option" where
  "fake_segment y c =
     (case fy_calls y c of
        None \<Rightarrow> None
      | Some (call, ph) \<Rightarrow>
          if is_paused ph \<and> fy_permits y = 0 then None
          else
            let (st, nx) = fake_step (fy_state y) ph;
                y' = y\<lparr>fy_state := st, fy_permits := (if is_paused ph then fy_permits y - 1 else fy_permits y)\<rparr> in
            Some (case nx of
                Goes ph' \<Rightarrow> (y'\<lparr>fy_calls := (fy_calls y)(c \<mapsto> (call, ph'))\<rparr>, EvInternal)
              | Replies r \<Rightarrow> (y'\<lparr>fy_calls := (fy_calls y)(c := None)\<rparr>, EvReply c call r)))"

definition inject :: "fake_system \<Rightarrow> fault_point \<Rightarrow> fake_fault \<Rightarrow> fake_system" where
  "inject y point fault =
     y\<lparr>fy_state := (fy_state y)\<lparr>fk_faults := fk_faults (fy_state y) @ [(point, fault)]\<rparr>\<rparr>"

definition release_pause :: "fake_system \<Rightarrow> fake_system" where
  "release_pause y = y\<lparr>fy_permits := fy_permits y + 1\<rparr>"

definition lose_resource :: "fake_system \<Rightarrow> string \<Rightarrow> fake_system" where
  "lose_resource y rid =
     y\<lparr>fy_state := (fy_state y)\<lparr>fk_resources := bt_remove rid (fk_resources (fy_state y))\<rparr>\<rparr>"

text \<open>The events: a call starts, runs a segment, or is dropped by its caller; the test rig injects a
  fault, releases a pause or loses a resource.\<close>

inductive fake_event :: "fake_system \<Rightarrow> provider_event \<Rightarrow> fake_system \<Rightarrow> bool" where
  fake_starts: "fy_calls y c = None \<Longrightarrow>
    fake_event y (EvStart c call) (y\<lparr>fy_calls := (fy_calls y)(c \<mapsto> (call, fake_start call))\<rparr>)"
| fake_runs: "fake_segment y c = Some (y', e) \<Longrightarrow> fake_event y e y'"
| fake_drops: "fake_event y EvInternal (y\<lparr>fy_calls := (fy_calls y)(c := None)\<rparr>)"
| fake_injects: "fake_event y EvInternal (inject y point fault)"
| fake_releases: "fake_event y EvInternal (release_pause y)"
| fake_loses: "fake_event y EvInternal (lose_resource y rid)"

definition fake_inventory :: "fake_system \<Rightarrow> owned_resource list" where
  "fake_inventory y = bt_values (fk_resources (fy_state y))"

definition fake_accepted :: "fake_system \<Rightarrow> string \<Rightarrow> (provision_spec \<times> string) option" where
  "fake_accepted y key = bt_get (fk_provisions (fy_state y)) key"

definition fake_in_flight :: "fake_system \<Rightarrow> (nat \<times> provider_call) set" where
  "fake_in_flight y = {(c, call). \<exists>ph. fy_calls y c = Some (call, ph)}"

text \<open>The fake teardown hook: it fails with the queued errors first.\<close>

record fake_hook =
  fh_name :: string
  fh_failures :: "provider_error list"
  fh_calls :: "string list"

definition fail_next :: "fake_hook \<Rightarrow> provider_error \<Rightarrow> fake_hook" where
  "fail_next h e = h\<lparr>fh_failures := fh_failures h @ [e]\<rparr>"

definition fake_hook_release ::
    "fake_hook \<Rightarrow> string \<Rightarrow> workload_ref \<Rightarrow> fake_hook \<times> (provider_error, unit) res" where
  "fake_hook_release h key w =
     (let h' = h\<lparr>fh_calls := fh_calls h @
            [key @ '':'' @ wl_session_id w @ '':'' @ show_int (wl_slot_generation w)]\<rparr> in
      case fh_failures h' of
        [] \<Rightarrow> (h', Inr ())
      | e # es \<Rightarrow> (h'\<lparr>fh_failures := es\<rparr>, Inl e))"

section \<open>The invariant\<close>

text \<open>What a call in some phase relies on: its arguments, and for a running delete that the workload is
  torn down and everything it still owns is on the rest of its list.\<close>

fun phase_ok :: "fake_state \<Rightarrow> provider_call \<Rightarrow> fake_phase \<Rightarrow> bool" where
  "phase_ok st (PcProvision key spec) ph =
     (case ph of
        PhProvision k s \<Rightarrow> k = key \<and> s = spec | PhProvisionFault k s \<Rightarrow> k = key \<and> s = spec
      | PhProvisionPaused k s \<Rightarrow> k = key \<and> s = spec | PhProvisionCreate k s \<Rightarrow> k = key \<and> s = spec
      | PhProvisionAfter ws \<Rightarrow> bt_get (fk_provisions st) key = Some (spec, ws)
      | PhProvisionAfterPaused ws \<Rightarrow> bt_get (fk_provisions st) key = Some (spec, ws)
      | _ \<Rightarrow> False)"
| "phase_ok st (PcObserve w) ph =
     (ph \<in> {PhObserve w, PhObserveFault w, PhObservePaused w, PhObserveRead w})"
| "phase_ok st (PcDelete key w) ph =
     (let rest = (\<lambda>ids. w \<in> fk_deleted st \<and>
            or_resource_id ` set (labelled (bt_values (fk_resources st)) w) \<subseteq> set ids) in
      case ph of
        PhDelete v \<Rightarrow> v = w | PhDeleteFault v \<Rightarrow> v = w | PhDeletePaused v \<Rightarrow> v = w | PhDeleteMark v \<Rightarrow> v = w
      | PhDeleteRemove owned i \<Rightarrow> rest (drop i owned)
      | PhDeleteMid owned \<Rightarrow> rest (drop 1 owned) | PhDeleteMidPaused owned \<Rightarrow> rest (drop 1 owned)
      | _ \<Rightarrow> False)"
| "phase_ok st PcListOwned ph = (ph \<in> {PhList, PhListPaused, PhListRead})"

definition resource_ok :: "fake_state \<Rightarrow> string \<times> owned_resource \<Rightarrow> bool" where
  "resource_ok st e \<longleftrightarrow>
     or_resource_id (snd e) = fst e \<and>
     (\<exists>spec ws. bt_get (fk_provisions st) (or_op_key (snd e)) = Some (spec, ws) \<and>
        ps_workload spec = or_workload (snd e) \<and> (or_kind (snd e) = ''workspace'' \<longrightarrow> fst e = ws))"

definition fake_healthy :: "fake_system \<Rightarrow> bool" where
  "fake_healthy y \<longleftrightarrow>
     (\<forall>e\<in>set (fk_resources (fy_state y)). resource_ok (fy_state y) e) \<and>
     (\<forall>c call ph. fy_calls y c = Some (call, ph) \<longrightarrow> phase_ok (fy_state y) call ph)"

text \<open>How the shared state changes: provisions and torn-down workloads only grow, and the resources of
  a torn-down workload only shrink.\<close>

definition fake_grows :: "fake_state \<Rightarrow> fake_state \<Rightarrow> bool" where
  "fake_grows st st' \<longleftrightarrow>
     (\<forall>key a. bt_get (fk_provisions st) key = Some a \<longrightarrow> bt_get (fk_provisions st') key = Some a) \<and>
     fk_deleted st \<subseteq> fk_deleted st' \<and>
     (\<forall>w\<in>fk_deleted st. set (labelled (bt_values (fk_resources st')) w)
        \<subseteq> set (labelled (bt_values (fk_resources st)) w))"

lemma grows_same [simp]: "fake_grows st st"
  by (simp add: fake_grows_def)

lemma phase_grows: "fake_grows st st' \<Longrightarrow> phase_ok st call ph \<Longrightarrow> phase_ok st' call ph"
  by (cases call; cases ph) (fastforce simp: fake_grows_def Let_def)+

lemma resource_grows: "fake_grows st st' \<Longrightarrow> resource_ok st e \<Longrightarrow> resource_ok st' e"
  by (fastforce simp: fake_grows_def resource_ok_def)

lemma take_fault_state [simp]:
  "fk_resources (fst (take_fault st point)) = fk_resources st"
  "fk_provisions (fst (take_fault st point)) = fk_provisions st"
  "fk_deleted (fst (take_fault st point)) = fk_deleted st"
  by (simp_all add: take_fault_def split: option.splits)

lemma record_call_state [simp]:
  "fk_resources (record_call st m w) = fk_resources st" "fk_provisions (record_call st m w) = fk_provisions st"
  "fk_deleted (record_call st m w) = fk_deleted st"
  by (simp_all add: record_call_def)

lemma grows_eq:
  "fk_resources st' = fk_resources st \<Longrightarrow> fk_provisions st' = fk_provisions st \<Longrightarrow> fk_deleted st' = fk_deleted st
     \<Longrightarrow> fake_grows st st'"
  by (simp add: fake_grows_def)

lemma labelled_values: "set (labelled (bt_values m) w) = {r. or_workload r = w \<and> (\<exists>k. (k, r) \<in> set m)}"
  by (force simp: labelled_def bt_values_def image_iff)

lemma remove_grows: "fake_grows st (st\<lparr>fk_resources := bt_remove k (fk_resources st)\<rparr>)"
  by (auto simp: fake_grows_def labelled_values bt_remove_set)

lemma create_parts:
  assumes "create_workspace st key spec = (st', ws)"
  obtains np r1 r2 where "fk_resources st' = bt_insert np r1 (bt_insert ws r2 (fk_resources st))"
    "fk_provisions st' = bt_insert key (spec, ws) (fk_provisions st)" "fk_deleted st' = fk_deleted st"
    "or_resource_id r1 = np" "or_kind r1 = ''network_policy''" "or_resource_id r2 = ws"
    "or_workload r1 = ps_workload spec" "or_workload r2 = ps_workload spec" "or_op_key r1 = key" "or_op_key r2 = key"
proof (rule that)
  show "fk_resources st' = bt_insert (ws @ ''-netpol'') (fake_resource (ws @ ''-netpol'') ''network_policy'' key spec)
      (bt_insert ws (fake_resource ws ''workspace'' key spec) (fk_resources st))"
    using assms by (auto simp: create_workspace_def Let_def)
qed (use assms in \<open>auto simp: create_workspace_def Let_def fake_resource_def\<close>)

lemma create_grows:
  assumes "bt_get (fk_provisions st) key = None" "ps_workload spec \<notin> fk_deleted st"
    "create_workspace st key spec = (st', ws)"
  shows "fake_grows st st' \<and> bt_get (fk_provisions st') key = Some (spec, ws) \<and>
    (\<forall>x. x \<noteq> key \<longrightarrow> bt_get (fk_provisions st') x = bt_get (fk_provisions st) x) \<and>
    ((\<forall>e\<in>set (fk_resources st). resource_ok st e) \<longrightarrow> (\<forall>e\<in>set (fk_resources st'). resource_ok st' e))"
proof -
  from create_parts [OF assms(3)] obtain np r1 r2 where
    c: "fk_resources st' = bt_insert np r1 (bt_insert ws r2 (fk_resources st))"
    "fk_provisions st' = bt_insert key (spec, ws) (fk_provisions st)" "fk_deleted st' = fk_deleted st"
    "or_resource_id r1 = np" "or_kind r1 = ''network_policy''" "or_resource_id r2 = ws"
    "or_workload r1 = ps_workload spec" "or_workload r2 = ps_workload spec" "or_op_key r1 = key" "or_op_key r2 = key"
    by metis
  have g: "fake_grows st st'" using assms(1, 2)
    by (auto simp: fake_grows_def labelled_values c(1-3, 7, 8) bt_get_insert bt_insert_set)
  have p: "bt_get (fk_provisions st') x = (if x = key then Some (spec, ws) else bt_get (fk_provisions st) x)" for x
    by (simp add: c(2) bt_get_insert)
  have "resource_ok st' e" if "\<forall>e\<in>set (fk_resources st). resource_ok st e" "e \<in> set (fk_resources st')" for e
  proof (cases "e \<in> set (fk_resources st)")
    case False
    with that(2) have "e = (np, r1) \<or> e = (ws, r2)" by (auto simp: c(1) bt_insert_set)
    then show ?thesis using c(4-10) p by (auto simp: resource_ok_def)
  qed (use that g resource_grows in blast)
  with g p show ?thesis by simp
qed

text \<open>One segment of a call whose phase is sound.\<close>

definition segment_ok :: "fake_state \<Rightarrow> provider_call \<Rightarrow> fake_state \<Rightarrow> fake_next \<Rightarrow> bool" where
  "segment_ok st call st' nx \<longleftrightarrow>
     fake_grows st st' \<and>
     ((\<forall>e\<in>set (fk_resources st). resource_ok st e) \<longrightarrow> (\<forall>e\<in>set (fk_resources st'). resource_ok st' e)) \<and>
     (\<forall>x. bt_get (fk_provisions st') x = bt_get (fk_provisions st) x \<or>
        (\<exists>spec ws. call = PcProvision x spec \<and> bt_get (fk_provisions st') x = Some (spec, ws))) \<and>
     (case nx of
        Goes ph \<Rightarrow> phase_ok st' call ph
      | Replies r \<Rightarrow>
          (\<forall>key w. call = PcDelete key w \<and> r = PrDelete (Inr DelDeleted) \<longrightarrow>
             w \<in> fk_deleted st' \<and> labelled (bt_values (fk_resources st')) w = []) \<and>
          (\<forall>key spec out ws. call = PcProvision key spec \<and> r = PrProvision (Inr out) \<and> workspace_of out = Some ws
             \<longrightarrow> bt_get (fk_provisions st') key = Some (spec, ws)) \<and>
          (\<forall>rs. r = PrOwned (Inr rs) \<longrightarrow> rs = bt_values (fk_resources st')))"

lemma same_segment:
  "fk_resources st' = fk_resources st \<Longrightarrow> fk_provisions st' = fk_provisions st \<Longrightarrow> fk_deleted st' = fk_deleted st
     \<Longrightarrow> (case nx of
        Goes ph \<Rightarrow> phase_ok st call ph
      | Replies r \<Rightarrow>
          (\<forall>key w. call = PcDelete key w \<and> r = PrDelete (Inr DelDeleted) \<longrightarrow>
             w \<in> fk_deleted st \<and> labelled (bt_values (fk_resources st)) w = []) \<and>
          (\<forall>key spec out ws. call = PcProvision key spec \<and> r = PrProvision (Inr out) \<and> workspace_of out = Some ws
             \<longrightarrow> bt_get (fk_provisions st) key = Some (spec, ws)) \<and>
          (\<forall>rs. r = PrOwned (Inr rs) \<longrightarrow> rs = bt_values (fk_resources st)))
     \<Longrightarrow> segment_ok st call st' nx"
  using phase_grows [OF grows_eq [of st' st], of call]
  by (auto simp: segment_ok_def grows_eq resource_ok_def split: fake_next.splits)

text \<open>A segment that only takes a fault and then goes on or replies.\<close>

lemma step_segment:
  assumes "phase_ok st call ph" "fake_step st ph = (st', nx)" "\<forall>e\<in>set (fk_resources st). resource_ok st e"
  shows "segment_ok st call st' nx"
proof -
  have f: "st' = fst (take_fault st p)" "nx = h (snd (take_fault st p))"
    if "apsnd h (take_fault st p) = (st', nx)" for h :: "fake_fault option \<Rightarrow> fake_next" and p
    using that by (cases "take_fault st p"; auto)+
  show ?thesis
  proof (cases ph)
    case (PhProvisionFault key spec)
    with assms(2) f [of "before_provision key spec" BeforeProvision]
    have st': "st' = fst (take_fault st BeforeProvision)" "nx = before_provision key spec (snd (take_fault st BeforeProvision))"
      by simp_all
    from assms(1) PhProvisionFault have "call = PcProvision key spec" by (cases call) auto
    then show ?thesis unfolding st'
      by (intro same_segment)
        (auto simp: before_provision_def workspace_of_def split: option.splits fake_fault.splits)
  next
    case (PhProvisionAfter ws)
    with assms(2) f [of "after_provision ws" AfterProvision]
    have st': "st' = fst (take_fault st AfterProvision)" "nx = after_provision ws (snd (take_fault st AfterProvision))"
      by simp_all
    from assms(1) PhProvisionAfter show ?thesis unfolding st'
      by (intro same_segment; cases call)
        (auto simp: after_provision_def workspace_of_def Let_def split: option.splits fake_fault.splits)
  next
    case (PhObserveFault w)
    with assms(2) f [of "at_observe w" AtObserve]
    have st': "st' = fst (take_fault st AtObserve)" "nx = at_observe w (snd (take_fault st AtObserve))"
      by simp_all
    from assms(1) PhObserveFault show ?thesis unfolding st'
      by (intro same_segment; cases call)
        (auto simp: at_observe_def Let_def split: option.splits fake_fault.splits)
  next
    case (PhDeleteFault w)
    with assms(2) f [of "before_delete w" BeforeDelete]
    have st': "st' = fst (take_fault st BeforeDelete)" "nx = before_delete w (snd (take_fault st BeforeDelete))"
      by simp_all
    from assms(1) PhDeleteFault show ?thesis unfolding st'
      by (intro same_segment; cases call)
        (auto simp: before_delete_def Let_def split: option.splits fake_fault.splits)
  next
    case (PhDeleteMid owned)
    with assms(2) f [of "mid_delete owned" MidDelete]
    have st': "st' = fst (take_fault st MidDelete)" "nx = mid_delete owned (snd (take_fault st MidDelete))"
      by simp_all
    from assms(1) PhDeleteMid show ?thesis unfolding st'
      by (intro same_segment; cases call)
        (auto simp: mid_delete_def Let_def split: option.splits fake_fault.splits)
  next
    case PhList
    with assms(2) f [of at_list AtListOwned]
    have st': "st' = fst (take_fault st AtListOwned)" "nx = at_list (snd (take_fault st AtListOwned))"
      by simp_all
    from assms(1) PhList show ?thesis unfolding st'
      by (intro same_segment; cases call)
        (auto simp: at_list_def Let_def split: option.splits fake_fault.splits)
  next
    case (PhProvisionCreate key spec)
    from assms(1) PhProvisionCreate have call: "call = PcProvision key spec" by (cases call) (auto simp: Let_def)
    show ?thesis
    proof (cases "ps_workload spec \<in> fk_deleted st \<or> bt_get (fk_provisions st) key \<noteq> None")
      case True
      with assms(2) PhProvisionCreate call have "st' = st" by (auto simp: provision_create_def split: if_splits)
      with True assms(2) PhProvisionCreate call show ?thesis
        by (intro same_segment) (auto simp: provision_create_def workspace_of_def split: if_splits)
    next
      case False
      then have n: "ps_workload spec \<notin> fk_deleted st" "bt_get (fk_provisions st) key = None" by blast+
      then obtain ws where ws: "create_workspace st key spec = (st', ws)" "nx = Goes (PhProvisionAfter ws)"
        using assms(2) PhProvisionCreate by (auto simp: provision_create_def split: prod.splits)
      from create_grows [OF n(2, 1) ws(1)] ws(2) call show ?thesis
        by (auto simp: segment_ok_def)
    qed
  next
    case (PhDeleteMark w)
    from assms(1) PhDeleteMark obtain key where call: "call = PcDelete key w" by (cases call) (auto simp: Let_def)
    from assms(2) PhDeleteMark show ?thesis unfolding call
      by (fastforce simp: segment_ok_def fake_grows_def resource_ok_def Let_def)
  next
    case (PhDeleteRemove owned i)
    from assms(1) PhDeleteRemove obtain key w where call: "call = PcDelete key w"
      and rest: "w \<in> fk_deleted st" "or_resource_id ` set (labelled (bt_values (fk_resources st)) w) \<subseteq> set (drop i owned)"
      by (cases call) (auto simp: Let_def)
    show ?thesis
    proof (cases "i < length owned")
      case False
      with rest(2) have "labelled (bt_values (fk_resources st)) w = []" by simp
      with False assms(2) PhDeleteRemove rest(1) call show ?thesis
        by (auto simp: segment_ok_def)
    next
      case True
      let ?st = "st\<lparr>fk_resources := bt_remove (owned ! i) (fk_resources st)\<rparr>"
      from True assms(2) PhDeleteRemove have st': "st' = ?st"
        "nx = Goes (if i = 0 \<and> 1 < length owned then PhDeleteMid owned else PhDeleteRemove owned (i + 1))"
        by auto
      have g: "fake_grows st ?st" by (rule remove_grows)
      have "set (drop i owned) = insert (owned ! i) (set (drop (i + 1) owned))"
        using True by (metis Cons_nth_drop_Suc Suc_eq_plus1 list.simps(15))
      moreover have ids: "or_resource_id (snd e) = fst e" if "e \<in> set (fk_resources st)" for e
        using that assms(3) by (auto simp: resource_ok_def)
      ultimately have "or_resource_id ` set (labelled (bt_values (fk_resources ?st)) w) \<subseteq> set (drop (i + 1) owned)"
        using rest(2) by (fastforce simp: labelled_values bt_remove_set)
      then have "phase_ok ?st call (if i = 0 \<and> 1 < length owned then PhDeleteMid owned else PhDeleteRemove owned (i + 1))"
        using rest(1) by (auto simp: call Let_def)
      with g resource_grows [OF g] show ?thesis by (auto simp: segment_ok_def st' bt_remove_set)
    qed
  next
    case (PhObserveRead w)
    with assms show ?thesis by (cases call) (auto intro!: same_segment simp: Let_def)
  next
    case PhListRead
    with assms show ?thesis by (cases call) (auto intro!: same_segment simp: Let_def)
  next
    case (PhProvisionAfterPaused ws)
    with assms show ?thesis by (cases call) (auto intro!: same_segment simp: Let_def workspace_of_def)
  qed (use assms in \<open>cases call; auto intro!: same_segment simp: Let_def\<close>)+
qed

section \<open>The contract holds\<close>

lemma segment_parts:
  assumes "fake_segment y c = Some (y', e)" "fake_healthy y"
  obtains call ph nx where "fy_calls y c = Some (call, ph)" "segment_ok (fy_state y) call (fy_state y') nx"
    "case nx of Goes ph' \<Rightarrow> e = EvInternal \<and> fy_calls y' = (fy_calls y)(c \<mapsto> (call, ph'))
       | Replies r \<Rightarrow> e = EvReply c call r \<and> fy_calls y' = (fy_calls y)(c := None)"
proof -
  obtain call ph where c: "fy_calls y c = Some (call, ph)"
    using assms(1) by (auto simp: fake_segment_def split: option.splits)
  obtain st nx where s: "fake_step (fy_state y) ph = (st, nx)" by (cases "fake_step (fy_state y) ph")
  have "segment_ok (fy_state y) call st nx"
    using step_segment [OF _ s] c assms(2) by (auto simp: fake_healthy_def)
  moreover have "fy_state y' = st"
    "case nx of Goes ph' \<Rightarrow> e = EvInternal \<and> fy_calls y' = (fy_calls y)(c \<mapsto> (call, ph'))
       | Replies r \<Rightarrow> e = EvReply c call r \<and> fy_calls y' = (fy_calls y)(c := None)"
    using assms(1) c s by (auto simp: fake_segment_def Let_def split: if_splits fake_next.splits)
  ultimately show thesis using that c by blast
qed

lemma start_phase_ok: "phase_ok st call (fake_start call)"
  by (cases call) (simp_all add: Let_def)

text \<open>Any event grows the shared state and keeps the invariant.\<close>

lemma event_grows:
  assumes "fake_event y e y'" "fake_healthy y"
  shows "fake_grows (fy_state y) (fy_state y') \<and> fake_healthy y'"
  using assms(1)
proof cases
  case (fake_runs c)
  from segment_parts [OF fake_runs assms(2)] obtain call ph nx where
    p: "fy_calls y c = Some (call, ph)" "segment_ok (fy_state y) call (fy_state y') nx"
    "case nx of Goes ph' \<Rightarrow> e = EvInternal \<and> fy_calls y' = (fy_calls y)(c \<mapsto> (call, ph'))
       | Replies r \<Rightarrow> e = EvReply c call r \<and> fy_calls y' = (fy_calls y)(c := None)" by blast
  have g: "fake_grows (fy_state y) (fy_state y')" using p(2) by (simp add: segment_ok_def)
  have "phase_ok (fy_state y') call' ph'" if "fy_calls y' c' = Some (call', ph')" for c' call' ph'
    using that p assms(2) phase_grows [OF g]
    by (cases nx) (auto simp: fake_healthy_def segment_ok_def split: if_splits)
  with g p(2) assms(2) show ?thesis by (auto simp: fake_healthy_def segment_ok_def)
next
  case (fake_injects point fault)
  let ?st = "(fy_state y)\<lparr>fk_faults := fk_faults (fy_state y) @ [(point, fault)]\<rparr>"
  have g: "fake_grows (fy_state y) ?st" by (rule grows_eq) simp_all
  with assms(2) resource_grows [OF g] phase_grows [OF g] show ?thesis
    by (auto simp: fake_injects inject_def fake_healthy_def)
next
  case (fake_loses rid)
  note g = remove_grows [of "fy_state y" rid]
  with assms(2) resource_grows [OF g] phase_grows [OF g] show ?thesis
    by (auto simp: fake_loses lose_resource_def fake_healthy_def bt_remove_set)
qed (use assms start_phase_ok in \<open>auto simp: fake_healthy_def release_pause_def split: if_splits\<close>)

lemma reply_segment:
  assumes "fake_event y (EvReply c call r) y'" "fake_healthy y"
  shows "(c, call) \<in> fake_in_flight y \<and> segment_ok (fy_state y) call (fy_state y') (Replies r)"
proof -
  from assms(1) obtain c' where s: "fake_segment y c' = Some (y', EvReply c call r)"
    by cases auto
  from segment_parts [OF s assms(2)] obtain call' ph nx where
    p: "fy_calls y c' = Some (call', ph)" "segment_ok (fy_state y) call' (fy_state y') nx"
    "case nx of Goes ph' \<Rightarrow> EvReply c call r = EvInternal \<and> fy_calls y' = (fy_calls y)(c' \<mapsto> (call', ph'))
       | Replies r' \<Rightarrow> EvReply c call r = EvReply c' call' r' \<and> fy_calls y' = (fy_calls y)(c' := None)" by blast
  then show ?thesis by (cases nx) (auto simp: fake_in_flight_def)
qed

lemma fake_creates:
  assumes "fake_event y e y'" "fake_healthy y" "fake_accepted y key = None" "fake_accepted y' key = Some (spec, ws)"
  shows "\<exists>c. (c, PcProvision key spec) \<in> fake_in_flight y"
  using assms(1)
proof cases
  case (fake_runs c)
  from segment_parts [OF fake_runs assms(2)] obtain call ph nx where
    p: "fy_calls y c = Some (call, ph)" "segment_ok (fy_state y) call (fy_state y') nx" by blast
  with assms(3, 4) have "call = PcProvision key spec"
    unfolding segment_ok_def fake_accepted_def by (metis option.distinct(1) option.inject prod.inject)
  with p(1) show ?thesis by (auto simp: fake_in_flight_def)
qed (use assms(3, 4) in \<open>auto simp: fake_accepted_def inject_def release_pause_def lose_resource_def\<close>)

lemma fake_starts_only:
  assumes "fake_event y e y'" "x \<in> fake_in_flight y'"
  shows "x \<in> fake_in_flight y \<or> e = EvStart (fst x) (snd x)"
  using assms(1)
proof cases
  case (fake_runs c)
  from fake_runs obtain call ph where c: "fy_calls y c = Some (call, ph)"
    by (auto simp: fake_segment_def split: option.splits)
  have "fy_calls y' = (fy_calls y)(c := None) \<or> (\<exists>ph'. fy_calls y' = (fy_calls y)(c \<mapsto> (call, ph')))"
    using fake_runs c by (auto simp: fake_segment_def Let_def split: if_splits prod.splits fake_next.splits)
  with c assms(2) show ?thesis by (auto simp: fake_in_flight_def split: if_splits)
qed (use assms(2) in \<open>auto simp: fake_in_flight_def inject_def release_pause_def lose_resource_def split: if_splits\<close>)

interpretation fake: execution_provider fake_healthy fake_event fake_inventory
  "\<lambda>y. fk_deleted (fy_state y)" fake_accepted fake_in_flight
proof unfold_locales
  fix p e p' x c call r w key a spec ws out owned rs
  show "fake_event p e p' \<Longrightarrow> fake_healthy p \<Longrightarrow> fake_healthy p'" using event_grows by blast
  show "fake_event p e p' \<Longrightarrow> x \<in> fake_in_flight p' \<Longrightarrow> x \<in> fake_in_flight p \<or> e = EvStart (fst x) (snd x)"
    by (rule fake_starts_only)
  show "fake_event p (EvReply c call r) p' \<Longrightarrow> fake_healthy p \<Longrightarrow> (c, call) \<in> fake_in_flight p"
    using reply_segment by blast
  show "fake_event p e p' \<Longrightarrow> fake_healthy p \<Longrightarrow> fk_deleted (fy_state p) \<subseteq> fk_deleted (fy_state p')"
    using event_grows by (auto simp: fake_grows_def)
  show "fake_event p e p' \<Longrightarrow> fake_healthy p \<Longrightarrow> w \<in> fk_deleted (fy_state p) \<Longrightarrow>
      set (labelled (fake_inventory p') w) \<subseteq> set (labelled (fake_inventory p) w)"
    using event_grows by (auto simp: fake_grows_def fake_inventory_def)
  show "fake_event p (EvReply c (PcDelete key w) (PrDelete (Inr DelDeleted))) p' \<Longrightarrow> fake_healthy p \<Longrightarrow>
      w \<in> fk_deleted (fy_state p') \<and> labelled (fake_inventory p') w = []"
    using reply_segment by (force simp: segment_ok_def fake_inventory_def)
  show "fake_event p e p' \<Longrightarrow> fake_healthy p \<Longrightarrow> fake_accepted p key = Some a \<Longrightarrow> fake_accepted p' key = Some a"
    using event_grows unfolding fake_grows_def fake_accepted_def by blast
  show "fake_event p e p' \<Longrightarrow> fake_healthy p \<Longrightarrow> fake_accepted p key = None \<Longrightarrow>
      fake_accepted p' key = Some (spec, ws) \<Longrightarrow> \<exists>c. (c, PcProvision key spec) \<in> fake_in_flight p"
    by (rule fake_creates)
  show "fake_event p (EvReply c (PcProvision key spec) (PrProvision (Inr out))) p' \<Longrightarrow> fake_healthy p \<Longrightarrow>
      workspace_of out = Some ws \<Longrightarrow> fake_accepted p' key = Some (spec, ws)"
    using reply_segment by (force simp: segment_ok_def fake_accepted_def)
  show "fake_healthy p \<Longrightarrow> owned \<in> set (fake_inventory p) \<Longrightarrow>
      \<exists>spec ws. fake_accepted p (or_op_key owned) = Some (spec, ws) \<and> ps_workload spec = or_workload owned \<and>
        (or_kind owned = ''workspace'' \<longrightarrow> or_resource_id owned = ws)"
    by (fastforce simp: fake_healthy_def fake_inventory_def bt_values_def resource_ok_def fake_accepted_def)
  show "fake_event p (EvReply c PcListOwned (PrOwned (Inr rs))) p' \<Longrightarrow> fake_healthy p \<Longrightarrow> rs = fake_inventory p'"
    using reply_segment by (force simp: segment_ok_def fake_inventory_def)
qed

lemma fake_init_healthy: "fake_healthy fake_init"
  by (simp add: fake_healthy_def fake_init_def fake_new_def)

end
