(* ===== verification/Fencing.thy ===== *)
theory Fencing
  imports Tables
begin

text \<open>
  The interface of a fenced resource. Session generations, operation leases and controller claims all
  work the same way: a number per key that never falls while the store runs, and calls that present a
  number and are only accepted while it is the current one. Whoever was superseded stays out.
\<close>

locale fencing =
  fixes valid :: "'s \<Rightarrow> bool"
    and later :: "'s \<Rightarrow> 's \<Rightarrow> bool"
    and fence :: "'s \<Rightarrow> 'k \<Rightarrow> int option"
    and accepts :: "'s \<Rightarrow> 'k \<Rightarrow> int \<Rightarrow> bool"
  assumes valid_later: "valid s \<Longrightarrow> later s s' \<Longrightarrow> valid s'"
    and fence_later: "valid s \<Longrightarrow> later s s' \<Longrightarrow> fence s k = Some n \<Longrightarrow> \<exists>m. fence s' k = Some m \<and> n \<le> m"
    and accepts_current: "valid s \<Longrightarrow> accepts s k n \<Longrightarrow> fence s k = Some n"
begin

lemma superseded:
  assumes "valid s" "fence s k = Some m" "n < m" "later s s'"
  shows "\<not> accepts s' k n"
proof
  assume "accepts s' k n"
  then have "fence s' k = Some n" by (rule accepts_current [OF valid_later [OF assms(1, 4)]])
  with fence_later [OF assms(1, 4, 2)] assms(3) show False by auto
qed

text \<open>Two numbers accepted one after the other come in order.\<close>

lemma accepted_in_order:
  assumes "valid s" "accepts s k n" "later s s'" "accepts s' k n'"
  shows "n \<le> n'"
proof (rule ccontr)
  assume "\<not> n \<le> n'"
  then show False
    using superseded [OF assms(1) accepts_current [OF assms(1, 2)] _ assms(3), of n'] assms(4) by simp
qed

end

end
