(* ===== verification/LabProperties.thy ===== *)
theory LabProperties
  imports LabSafety Fencing
begin

text \<open>
  What the lab journal guarantees whatever its workers do: over every history of calls, or over every
  reachable journal. The example journal holds two provisioned sessions and one that was stopped
  before its launch; it is where the guarantees with hypotheses are applied.
\<close>

section \<open>An example journal\<close>

definition example_session :: "string \<Rightarrow> create_session" where
  "example_session sid =
     \<lparr>cs_session_id = sid, cs_tenant_id = ''t'', cs_course_id = ''c'', cs_issuer = ''i'',
      cs_subject = ''u'', cs_profile = \<lparr>pr_id = ''p'', pr_version = ''1'', pr_profile_hash = ''h''\<rparr>,
      cs_expires_at = 900, cs_actor = ''api'', cs_now = 10\<rparr>"

definition example_move :: "string \<Rightarrow> lab_session_state \<Rightarrow> int \<Rightarrow> journal \<Rightarrow> lab_transition" where
  "example_move sid target now j =
     (lab_transition_new (the (load_session j sid)) target ''w1'' now)
       \<lparr>lt_lease_seconds := 60, lt_workspace_id := Some ''ws''\<rparr>"

fun example_moves :: "(string \<times> lab_session_state) list \<Rightarrow> journal \<Rightarrow> journal" where
  "example_moves [] j = j"
| "example_moves ((sid, target) # moves) j =
     example_moves moves (fst (journal_answer j (CallTransition (example_move sid target 100 j))))"

definition example_journal :: journal where
  "example_journal =
     example_moves
       [(''s1'', LsAuthorizing), (''s1'', LsProvisioning), (''s2'', LsAuthorizing),
        (''s2'', LsProvisioning), (''s3'', LsTerminated)]
       (run_calls (empty_journal [(''t'', ''i'', ''u'')])
         [CallSync ''t'' [''b'', ''a''] ''api'' 5, CallCreate (example_session ''s1''),
          CallCreate (example_session ''s2''), CallCreate (example_session ''s3'')])"

lemma answer_reachable: "journal_reachable j \<Longrightarrow> journal_reachable (fst (journal_answer j c))"
  by (rule reachable_step) (auto intro: step_call [OF surjective_pairing])

lemma moves_reachable: "journal_reachable j \<Longrightarrow> journal_reachable (example_moves moves j)"
  by (induction moves j rule: example_moves.induct) (simp_all only: example_moves.simps answer_reachable)

lemma example_reachable: "journal_reachable example_journal"
  unfolding example_journal_def by (intro moves_reachable run_calls_reachable)

section \<open>Every history\<close>

text \<open>C3: Whatever calls workers make, in any order and with any arguments, the journal stays
  consistent: sessions, slots and operations agree (a session that may hold resources occupies exactly
  its slot generation, an occupied slot names such a session, every pending operation is the one of
  its session's state and generation), the audit trail is the session's lifecycle, and at most one
  hold per slot is active.\<close>
theorem journal_invariant:
  "journal_inv (run_calls (empty_journal identities) calls) \<and>
   audit_ok (run_calls (empty_journal identities) calls) \<and>
   holds_ok (run_calls (empty_journal identities) calls)"
  using reachable_sound [OF run_calls_reachable] by (simp add: sound_def)

lemma inv_rows:
  assumes "journal_inv j"
  shows "list_all session_row_ok (jn_sessions j) \<and> list_all op_row_ok (jn_ops j) \<and> list_all slot_row_ok (jn_slots j)"
proof -
  have k: "distinct (map ls_session_id (jn_sessions j))" "distinct (map lo_op_key (jn_ops j))"
    "distinct (map sl_slot_id (jn_slots j))"
    using keys_okD journal_invD(1) [OF assms] by blast+
  note D = tables_okD [OF journal_invD(2) [OF assms]]
  have "session_row_ok s" if "s \<in> set (jn_sessions j)" for s
    using that k(1) D(1) [of "ls_session_id s" s] by (simp add: load_session_lookup lookup_Some)
  moreover have "op_row_ok q" if "q \<in> set (jn_ops j)" for q
    using that k(2) D(2) [of "lo_op_key q" q] by (simp add: load_operation_lookup lookup_Some op_ok_def)
  moreover have "slot_row_ok l" if "l \<in> set (jn_slots j)" for l
    using that k(3) D(3) [of "sl_slot_id l" l] by (simp add: load_slot_lookup lookup_Some slot_ok_def)
  ultimately show ?thesis by (simp add: list_all_iff)
qed


text \<open>C5: The audit events of a session replay its lifecycle: in every history the states they record
  start with Requested and follow the lifecycle table to the session's current state, one event per
  generation; a session that does not exist has no trail; and the events are numbered without gaps.\<close>
theorem audit_replays:
  "let j = run_calls (empty_journal identities) calls in
     map ev_sequence (jn_events j) = map int [1..<Suc (length (jn_events j))] \<and>
     (case load_session j sid of
        None \<Rightarrow> trail j sid = []
      | Some s \<Rightarrow> \<exists>ts. trail j sid = LsRequested # ts \<and> lab_path LsRequested ts (ls_state s) \<and>
          ls_generation s = 1 + int (length ts))"
proof -
  have "audit_ok (run_calls (empty_journal identities) calls)"
    using reachable_sound [OF run_calls_reachable] by (simp add: sound_def)
  from audit_okD(1, 3) [OF this] show ?thesis
    unfolding Let_def session_trail_ok_def by blast
qed

section \<open>Slots\<close>

text \<open>C6: A session that may hold resources has its slot to itself: the slot is registered for the
  session's tenant and names the session as occupant, no other session that may hold resources has the
  slot, and no other session, past or present, has the same workload reference.\<close>
theorem slots_exclusive:
  assumes "journal_reachable j" "load_session j sid = Some s" "may_hold_resources (ls_state s)"
    "load_session j sid' = Some s'" "sid' \<noteq> sid"
  shows "\<exists>slot l. ls_slot_id s = Some slot \<and> load_slot j slot = Some l \<and>
    sl_occupant l = Some sid \<and> sl_tenant_id l = ls_tenant_id s \<and>
    (ls_slot_id s' \<noteq> Some slot \<or> \<not> may_hold_resources (ls_state s')) \<and>
    session_workload s' \<noteq> session_workload s"
proof -
  have inv: "tables_ok (load_session j) (load_operation j) (load_slot j)"
    using reachable_sound [OF assms(1)] by (simp add: sound_def journal_inv_def)
  note S = tables_okD(1) [OF inv assms(2)] and S' = tables_okD(1) [OF inv assms(4)]
  from S assms(3) obtain slot g where g: "ls_slot_id s = Some slot" "ls_slot_generation s = Some g"
    by (auto simp: session_row_ok_def)
  with S assms(3) obtain l where l: "load_slot j slot = Some l" "sl_occupant l = Some sid"
    "sl_tenant_id l = ls_tenant_id s" by (auto simp: session_slot_ok_def)
  have "\<not> may_hold_resources (ls_state s')" if "ls_slot_id s' = Some slot"
    using that S' l assms(5) by (auto simp: session_slot_ok_def session_row_ok_def)
  moreover have "session_workload s' \<noteq> session_workload s"
    using g S S' assms(5) by (auto simp: session_workload_def split: option.splits)
  ultimately show ?thesis using g l by blast
qed

lemma slots_exclusive_witness:
  "\<exists>s s'. load_session example_journal ''s1'' = Some s \<and> load_session example_journal ''s2'' = Some s' \<and>
     ls_slot_id s = Some ''a'' \<and> may_hold_resources (ls_state s') \<and> ls_slot_id s' \<noteq> Some ''a''"
proof -
  have "map_option (\<lambda>s. (ls_state s, ls_slot_id s)) (load_session example_journal ''s1'') =
      Some (LsProvisioning, Some ''a'') \<and>
    map_option ls_state (load_session example_journal ''s2'') = Some LsProvisioning" by code_simp
  then obtain s s' where s: "load_session example_journal ''s1'' = Some s" "ls_state s = LsProvisioning"
    "ls_slot_id s = Some ''a''" "load_session example_journal ''s2'' = Some s'" "ls_state s' = LsProvisioning"
    by auto
  from slots_exclusive [OF example_reachable s(1) _ s(4)] s show ?thesis
    by (auto simp: may_hold_resources_def)
qed

lemma provisioning_effect:
  "transition_effect j t s = Inr e \<Longrightarrow> lt_from t = LsAuthorizing \<Longrightarrow> lt_to t = LsProvisioning \<Longrightarrow>
     \<exists>j' slot g. take_slot j s (lt_now t) = Inr (j', slot, g) \<and> ef_begins e = Some OpProvision \<and>
       ls_desired s = DesiredReady \<and> lt_now t < ls_expires_at s \<and>
       ef_next e = s\<lparr>ls_slot_id := Some slot, ls_slot_generation := Some g, ls_observed := ObProvisioning\<rparr>"
  by (cases "ls_desired s") (auto simp: transition_effect_def Let_def split: if_splits)

text \<open>Provisioning takes a free slot: a launch that commits gets the first slot of its tenant, in
  the order of the identifiers, that nobody occupies and no hold covers; the slot's generation is
  new; the session was neither asked to stop nor expired; and the provision operation is pending in
  the same transaction, leased to the caller, for exactly that slot generation.\<close>
theorem launch_takes_free_slot:
  assumes "journal_reachable j" "transition_campus_lab_session j t = Inr (j', out)"
    "lt_to t = LsProvisioning"
  shows "\<exists>s slot l q. load_session j (lt_session_id t) = Some s \<and>
    free_slot_ids j (ls_tenant_id s) = slot # tl (free_slot_ids j (ls_tenant_id s)) \<and>
    load_slot j slot = Some l \<and> sl_tenant_id l = ls_tenant_id s \<and> sl_occupant l = None \<and> \<not> slot_held j slot \<and>
    ls_desired s = DesiredReady \<and> lt_now t < ls_expires_at s \<and>
    session_workload (to_session out) =
      Some \<lparr>wl_session_id = lt_session_id t, wl_slot_id = slot, wl_slot_generation = sl_generation l + 1\<rparr> \<and>
    to_begun out = Some q \<and> lo_kind q = OpProvision \<and> lo_status q = OsPending \<and>
    Some (op_workload q) = session_workload (to_session out) \<and> lo_lease_owner q = Some (lt_actor t)"
proof -
  have inv: "journal_inv j" using reachable_sound [OF assms(1)] by (simp add: sound_def)
  obtain s e nx where c: "committed j t s e nx j' out" using transition_committed [OF assms(2) inv] by blast
  then have c': "load_session j (lt_session_id t) = Some s" "ls_session_id s = lt_session_id t"
    "transition_effect j t s = Inr e" "nx = write_session s t e" "to_session out = nx"
    "to_begun out = map_option (begun_op t nx) (ef_begins e)" "lt_to t \<in> set (successors (lt_from t))"
    by (simp_all add: committed_def)
  have "lt_from t = LsAuthorizing" using c'(7) assms(3) by (cases "lt_from t") auto
  from provisioning_effect [OF c'(3) this assms(3)] obtain j1 slot g where
    e: "take_slot j s (lt_now t) = Inr (j1, slot, g)" "ef_begins e = Some OpProvision"
      "ls_desired s = DesiredReady" "lt_now t < ls_expires_at s"
      "ef_next e = s\<lparr>ls_slot_id := Some slot, ls_slot_generation := Some g, ls_observed := ObProvisioning\<rparr>"
    by blast
  from take_slot_ok [OF e(1) journal_invD(1) [OF inv]] obtain l where
    l: "load_slot j slot = Some l" "sl_occupant l = None" "sl_tenant_id l = ls_tenant_id s"
      "\<not> slot_held j slot" "g = sl_generation l + 1" by blast
  have "free_slot_ids j (ls_tenant_id s) = slot # tl (free_slot_ids j (ls_tenant_id s))"
    using e(1) by (auto simp: take_slot_def Let_def split: list.splits)
  with l e(2-5) c' show ?thesis
    by (auto simp: write_session_def session_workload_def begun_op_def new_operation_def op_workload_def
        intro!: exI [of _ s] exI [of _ slot] exI [of _ l])
qed

definition example_ready_to_launch :: journal where
  "example_ready_to_launch =
     example_moves [(''s1'', LsAuthorizing)]
       (run_calls (empty_journal [(''t'', ''i'', ''u'')])
         [CallSync ''t'' [''b'', ''a''] ''api'' 5, CallCreate (example_session ''s1''),
          CallHold ''a'' ''t'' HoldQuarantined ''unaccounted'' ''op'' 6])"

lemma launch_takes_free_slot_witness:
  "\<exists>j' out. transition_campus_lab_session example_ready_to_launch
       (example_move ''s1'' LsProvisioning 100 example_ready_to_launch) = Inr (j', out) \<and>
     ls_slot_id (to_session out) = Some ''b'' \<and> to_begun out \<noteq> None"
proof -
  let ?t = "example_move ''s1'' LsProvisioning 100 example_ready_to_launch"
  have r: "journal_reachable example_ready_to_launch"
    unfolding example_ready_to_launch_def by (intro moves_reachable run_calls_reachable)
  have "(case transition_campus_lab_session example_ready_to_launch ?t of
      Inr (j', out) \<Rightarrow> ls_slot_id (to_session out) = Some ''b'' | Inl e \<Rightarrow> False)" by code_simp
  then obtain j' out where t: "transition_campus_lab_session example_ready_to_launch ?t = Inr (j', out)"
    "ls_slot_id (to_session out) = Some ''b''" by (auto split: sum.splits)
  have "lt_to ?t = LsProvisioning" by (simp add: example_move_def lab_transition_new_def)
  from launch_takes_free_slot [OF r t(1) this] t show ?thesis by auto
qed

section \<open>Fencing\<close>

lemma committed_at:
  assumes "transition_campus_lab_session j t = Inr (j', out)" "sound j"
  shows "\<exists>s nx. load_session j (lt_session_id t) = Some s \<and> ls_generation s = lt_expected_generation t \<and>
     load_session j' (lt_session_id t) = Some nx \<and> ls_generation nx = lt_expected_generation t + 1 \<and>
     ls_state nx = lt_to t \<and> sound j'"
proof -
  have inv: "journal_inv j" using assms(2) by (simp add: sound_def)
  obtain s e nx where c: "committed j t s e nx j' out" using transition_committed [OF assms(1) inv] by blast
  have "journal_answer j (CallTransition t) = (j', RepTransition (Inr out))"
    using assms(1) by (simp add: reply_def commit_def)
  from answer_sound [OF this assms(2)] have "sound j'" by (simp add: sound_step_def)
  with c show ?thesis by (auto simp: committed_def write_session_def)
qed

interpretation generations: fencing sound journal_steps
  "\<lambda>j sid. map_option ls_generation (load_session j sid)"
  "\<lambda>j sid n. \<exists>t j' out. lt_session_id t = sid \<and> lt_expected_generation t = n \<and>
     transition_campus_lab_session j t = Inr (j', out)"
proof
  show "sound j \<Longrightarrow> journal_steps j j' \<Longrightarrow> sound j'" for j j' by (rule steps_sound)
  show "\<exists>m. map_option ls_generation (load_session j' sid) = Some m \<and> n \<le> m"
    if "sound j" "journal_steps j j'" "map_option ls_generation (load_session j sid) = Some n" for j j' sid n
    using session_steps [OF that(2, 1)] that(3) by fastforce
qed (auto dest: committed_at)

text \<open>Transitions are serialised by generation: once a transition from some generation has
  committed, no transition that expects this generation, or an earlier one, ever commits again,
  whatever happens in between.\<close>
theorem transitions_serialised:
  assumes "journal_reachable j" "transition_campus_lab_session j t = Inr (j1, out)" "journal_steps j1 j2"
    "lt_session_id t' = lt_session_id t" "lt_expected_generation t' \<le> lt_expected_generation t"
  shows "\<exists>e. transition_campus_lab_session j2 t' = Inl e"
proof (cases "transition_campus_lab_session j2 t'")
  case (Inr r)
  obtain nx where nx: "load_session j1 (lt_session_id t) = Some nx"
    "ls_generation nx = lt_expected_generation t + 1" "sound j1"
    using committed_at [OF assms(2) reachable_sound [OF assms(1)]] by blast
  then show ?thesis
    using generations.superseded [OF nx(3) _ _ assms(3), of "lt_session_id t" _ "lt_expected_generation t'"]
      assms(4, 5) Inr by (cases r) auto
qed blast

lemma transitions_serialised_witness:
  "\<exists>e. transition_campus_lab_session
     (fst (journal_answer example_ready_to_launch
        (CallTransition (example_move ''s1'' LsTerminated 90 example_ready_to_launch))))
     (example_move ''s1'' LsProvisioning 100 example_ready_to_launch) = Inl e"
proof -
  let ?t = "example_move ''s1'' LsTerminated 90 example_ready_to_launch"
  have r: "journal_reachable example_ready_to_launch"
    unfolding example_ready_to_launch_def by (intro moves_reachable run_calls_reachable)
  have "(case transition_campus_lab_session example_ready_to_launch ?t of Inr _ \<Rightarrow> True | Inl e \<Rightarrow> False)"
    by code_simp
  then obtain j' out where t: "transition_campus_lab_session example_ready_to_launch ?t = Inr (j', out)"
    by (auto split: sum.splits)
  then have j': "fst (journal_answer example_ready_to_launch (CallTransition ?t)) = j'"
    by (simp add: reply_def commit_def)
  show ?thesis unfolding j'
    by (rule transitions_serialised [OF r t steps_here]) (simp_all add: example_move_def lab_transition_new_def)
qed

lemma leased_commit:
  assumes "transition_campus_lab_session j t = Inr (j', out)" "sound j" "lt_lease t = Some lease"
    "lt_from t \<in> {LsProvisioning, LsCleaning}"
  shows "\<exists>q. load_operation j (ol_op_key lease) = Some q \<and> lo_lease_fence q = ol_fence lease \<and>
     lo_lease_owner q = Some (ol_owner lease) \<and> lo_status q = OsPending \<and>
     (\<exists>expires. lo_lease_expires_at q = Some expires \<and> lt_now t < expires)"
proof -
  have inv: "journal_inv j" using assms(2) by (simp add: sound_def)
  obtain s e nx where c: "committed j t s e nx j' out" using transition_committed [OF assms(1) inv] by blast
  then have "transition_effect j t s = Inr e" by (simp add: committed_def)
  with assms(3, 4) obtain kind status error result j1 key where
    "complete_operation j s \<lparr>cmp_kind = kind, cmp_lease = Some lease, cmp_status = status,
       cmp_result = result, cmp_error = error, cmp_now = lt_now t\<rparr> = Inr (j1, key)"
    by (auto simp: transition_effect_def Let_def split: if_splits)
  from complete_operation_ok [OF this] show ?thesis by auto
qed

interpretation leases: fencing sound journal_steps
  "\<lambda>j key. map_option lo_lease_fence (load_operation j key)"
  "\<lambda>j key n. \<exists>t lease j' out. lt_lease t = Some lease \<and> lt_from t \<in> {LsProvisioning, LsCleaning} \<and>
     ol_op_key lease = key \<and> ol_fence lease = n \<and> transition_campus_lab_session j t = Inr (j', out)"
proof
  show "sound j \<Longrightarrow> journal_steps j j' \<Longrightarrow> sound j'" for j j' by (rule steps_sound)
  show "\<exists>m. map_option lo_lease_fence (load_operation j' key) = Some m \<and> n \<le> m"
    if "sound j" "journal_steps j j'" "map_option lo_lease_fence (load_operation j key) = Some n" for j j' key n
    using operation_steps [OF that(2, 1)] that(3) by fastforce
qed (auto dest: leased_commit)



text \<open>A live lease excludes every other worker: while an operation is leased, leasing it fails with
  the holder's name, and so does stopping a launch without that lease.\<close>
theorem live_lease_excludes:
  assumes "journal_reachable j" "load_operation j key = Some q" "lo_status q = OsPending"
    "op_lease_of q = Some lease" "now < ol_expires_at lease" "\<not> is_blank owner" "1 \<le> secs" "secs \<le> 3600"
  shows "lease_campus_lab_operation j key owner now secs = Inl (JeLeaseHeld key (ol_owner lease) (ol_expires_at lease)) \<and>
    (lo_kind q = OpProvision \<longrightarrow>
     abandon_provision j (the (load_session j (lo_session_id q))) error now =
       Inl (JeLeaseHeld key (ol_owner lease) (ol_expires_at lease)))"
proof -
  have inv: "journal_inv j" using reachable_sound [OF assms(1)] by (simp add: sound_def)
  note Q = tables_okD(2) [OF journal_invD(2) [OF inv] assms(2)]
  have l: "live_lease q now = Some lease" "ol_op_key lease = key"
    using Q assms(4, 5) by (auto simp: live_lease_def op_lease_of_def split: option.splits)
  obtain s where s: "load_session j (lo_session_id q) = Some s" "ls_session_id s = lo_session_id q"
    using Q tables_okD(1) [OF journal_invD(2) [OF inv]] by (auto simp: op_ok_def)
  have "pending_operation j (lo_session_id q) = Some q"
  proof -
    have "q \<in> set (jn_ops j)" using assms(2) by (auto simp: load_operation_lookup dest: lookup_SomeD)
    then obtain p where p: "pending_operation j (lo_session_id q) = Some p"
      using assms(3) by (cases "pending_operation j (lo_session_id q)")
        (auto simp: pending_operation_def find_None_iff)
    note P = pending_operation_ok [OF p]
    have "load_operation j (lo_op_key p) = Some p"
      using P keys_okD(2) [OF journal_invD(1) [OF inv]] by (simp add: load_operation_lookup lookup_Some)
    note this' = this
    have "key = lo_op_key p"
      by (rule pending_unique [OF journal_invD(2) [OF inv] assms(2) this']) (use P assms(3) in simp_all)
    with this' assms(2) p show ?thesis by simp
  qed
  moreover have "lease_campus_lab_operation j key owner now secs =
      Inl (JeLeaseHeld key (ol_owner lease) (ol_expires_at lease))"
    using l assms(2, 3, 6-8) by (simp add: lease_campus_lab_operation_def MAX_CAMPUS_LEASE_SECONDS_def)
  ultimately show ?thesis using l s by (simp add: abandon_provision_def)
qed

lemma live_lease_excludes_witness:
  "lease_campus_lab_operation example_journal (campus_operation_key ''s1'' OpProvision 3) ''w2'' 120 60 =
     Inl (JeLeaseHeld (campus_operation_key ''s1'' OpProvision 3) ''w1'' 160)"
proof -
  let ?key = "campus_operation_key ''s1'' OpProvision 3"
  have "map_option (\<lambda>q. (lo_status q, op_lease_of q)) (load_operation example_journal ?key) =
      Some (OsPending, Some \<lparr>ol_op_key = ?key, ol_owner = ''w1'', ol_fence = 1, ol_expires_at = 160\<rparr>)"
    by code_simp
  then obtain q where "load_operation example_journal ?key = Some q" "lo_status q = OsPending"
    "op_lease_of q = Some \<lparr>ol_op_key = ?key, ol_owner = ''w1'', ol_fence = 1, ol_expires_at = 160\<rparr>" by auto
  moreover have "\<not> is_blank ''w2''" by code_simp
  ultimately show ?thesis
    using live_lease_excludes [OF example_reachable, of ?key q _ 120 "''w2''" 60] by simp
qed

text \<open>The end of a session is final: once terminated or failed, its row never changes again, whatever
  calls follow.\<close>
theorem terminal_final:
  assumes "journal_reachable j" "load_session j sid = Some s" "is_terminal (ls_state s)" "journal_steps j j'"
  shows "load_session j' sid = Some s"
  using session_steps [OF assms(4) reachable_sound [OF assms(1)] assms(2)] assms(3) by auto

lemma terminal_final_witness:
  "load_session (run_calls example_journal [CallStop ''s3'' ''api'' ''again'' 300]) ''s3'' =
     load_session example_journal ''s3'' \<and>
   map_option ls_state (load_session example_journal ''s3'') = Some LsTerminated"
proof -
  have t: "map_option ls_state (load_session example_journal ''s3'') = Some LsTerminated" by code_simp
  then obtain s where s: "load_session example_journal ''s3'' = Some s" "ls_state s = LsTerminated" by auto
  have "is_terminal (ls_state s)" by (simp add: s is_terminal_def)
  from terminal_final [OF example_reachable s(1) this run_calls_steps] s t show ?thesis
    by (simp del: run_calls.simps)
qed

end
