(* ===== verification/LabOutcome.thy ===== *)
theory LabOutcome
  imports LabSystem FakeProvider LabProperties
begin

text \<open>
  The reconciler on the fake provider, with every fault the provider can inject: what holds in every
  interleaving, and one run from the request of a session to its end, computed.
\<close>

section \<open>Every run\<close>

interpretation lab: lab_on_provider fake_healthy fake_event fake_inventory
  "\<lambda>y. fk_deleted (fy_state y)" fake_accepted fake_in_flight
  by unfold_locales

definition lab_reaches :: "fake_system lab_system \<Rightarrow> bool" where
  "lab_reaches y \<longleftrightarrow> (\<exists>identities. system_steps fake_event (system_start identities fake_init) y)"

lemma reaches_inv: "lab_reaches y \<Longrightarrow> lab.system_inv y"
proof -
  have "lab.system_inv (system_start identities fake_init)" for identities
    by (rule lab.system_start_inv [OF fake_init_healthy])
      (simp_all add: fake_in_flight_def fake_init_def fake_accepted_def fake_new_def bt_get_def)
  then show "lab_reaches y \<Longrightarrow> lab.system_inv y"
    unfolding lab_reaches_def using lab.system_steps_inv by blast
qed

section \<open>A run\<close>

text \<open>One worker, step by step, with call number 0; \<open>n\<close> bounds the segments of one provider call.\<close>

fun call_fake :: "nat \<Rightarrow> fake_system \<Rightarrow> (fake_system \<times> provider_reply) option" where
  "call_fake 0 p = None"
| "call_fake (Suc n) p =
     (case fake_segment p 0 of
        None \<Rightarrow> None
      | Some (p', EvReply c call r) \<Rightarrow> Some (p', r)
      | Some (p', e) \<Rightarrow> call_fake n p')"

definition start_call :: "provider_call \<Rightarrow> fake_system \<Rightarrow> fake_system" where
  "start_call c p = p\<lparr>fy_calls := (fy_calls p)(0 \<mapsto> (c, fake_start c))\<rparr>"

primrec drive :: "driver_prog \<Rightarrow> journal \<Rightarrow> fake_system \<Rightarrow> (journal \<times> fake_system) option" where
  "drive (Done r) = (\<lambda>j p. Some (j, p))"
| "drive (AskJournal c k) = (\<lambda>j p. let (j', rep) = journal_answer j c in drive (k rep) j' p)"
| "drive (AskProvider c k) = (\<lambda>j p.
     if fy_calls p 0 \<noteq> None then None
     else case call_fake 20 (start_call c p) of None \<Rightarrow> None | Some (p', r) \<Rightarrow> drive (k r) j p')"
| "drive (AskHook h key w k) = (\<lambda>j p. drive (k (Inr ())) j p)"

definition at_work :: "journal \<Rightarrow> fake_system \<Rightarrow> worker option \<Rightarrow> fake_system lab_system" where
  "at_work j p m = \<lparr>sy_journal = j, sy_provider = p, sy_workers = (\<lambda>i. if i = 0 then m else None)\<rparr>"

lemma reaches_more: "lab_reaches y \<Longrightarrow> system_step fake_event y y' \<Longrightarrow> lab_reaches y'"
  unfolding lab_reaches_def by (blast intro: system_more)

lemma at_work_upd:
  "(at_work j p m)\<lparr>sy_workers := (sy_workers (at_work j p m))(0 := m')\<rparr> = at_work j p m'"
  by (auto simp: at_work_def)

lemma internal_segment: "fake_segment p c = Some (p', EvInternal) \<Longrightarrow> fake_event p EvInternal p'"
  by (rule fake_runs)

lemma segment_event:
  "fake_segment p 0 = Some (p', e) \<Longrightarrow> fy_calls p 0 = Some (c, ph) \<Longrightarrow>
     e = EvInternal \<and> (\<exists>ph'. fy_calls p' 0 = Some (c, ph')) \<or> (\<exists>r. e = EvReply 0 c r)"
  by (auto simp: fake_segment_def Let_def split: prod.splits fake_next.splits if_splits)

lemma call_fake_reaches:
  "call_fake n p = Some (p', r) \<Longrightarrow> fy_calls p 0 = Some (c, ph) \<Longrightarrow>
     lab_reaches (at_work j p (Some (Awaits 0 c k))) \<Longrightarrow> lab_reaches (at_work j p' (Some (Runs (k r))))"
proof (induction n p arbitrary: ph rule: call_fake.induct)
  case (2 n p)
  obtain p1 e where s: "fake_segment p 0 = Some (p1, e)"
    using "2.prems"(1) by (auto split: option.splits)
  have ev: "fake_event p e p1" by (rule fake_runs [OF s])
  from segment_event [OF s "2.prems"(2)] show ?case
  proof
    assume e: "e = EvInternal \<and> (\<exists>ph'. fy_calls p1 0 = Some (c, ph'))"
    then obtain ph' where ph': "fy_calls p1 0 = Some (c, ph')" by blast
    have "system_step fake_event (at_work j p (Some (Awaits 0 c k)))
        ((at_work j p (Some (Awaits 0 c k)))\<lparr>sy_provider := p1\<rparr>)"
      by (rule provider_moves [of _ _ e]) (use ev e in \<open>auto simp: at_work_def\<close>)
    then have "lab_reaches (at_work j p1 (Some (Awaits 0 c k)))"
      using reaches_more [OF "2.prems"(3)] by (simp add: at_work_def)
    moreover have "call_fake n p1 = Some (p', r)" using "2.prems"(1) s e by simp
    ultimately show ?thesis using "2.IH" [OF s] e ph' by auto
  next
    assume "\<exists>r'. e = EvReply 0 c r'"
    then have e: "e = EvReply 0 c r" "p1 = p'" using "2.prems"(1) s by auto
    have "system_step fake_event (at_work j p (Some (Awaits 0 c k)))
        ((at_work j p (Some (Awaits 0 c k)))\<lparr>sy_provider := p', sy_workers :=
          (sy_workers (at_work j p (Some (Awaits 0 c k))))(0 \<mapsto> Runs (k r))\<rparr>)"
      by (rule worker_replied [of _ 0 0 c]) (use ev e in \<open>simp_all add: at_work_def\<close>)
    moreover have "(at_work j p (Some (Awaits 0 c k)))\<lparr>sy_provider := p', sy_workers :=
          (sy_workers (at_work j p (Some (Awaits 0 c k))))(0 \<mapsto> Runs (k r))\<rparr> = at_work j p' (Some (Runs (k r)))"
      by (auto simp: at_work_def)
    ultimately show ?thesis using reaches_more [OF "2.prems"(3)] by metis
  qed
qed simp

lemma drive_reaches:
  "drive m j p = Some (j', p') \<Longrightarrow> lab_reaches (at_work j p (Some (Runs m))) \<Longrightarrow>
     \<exists>r. lab_reaches (at_work j' p' (Some (Runs (Done r))))"
proof (induction m arbitrary: j p)
  case (AskJournal c k)
  obtain j1 rep where a: "journal_answer j c = (j1, rep)" by (cases "journal_answer j c")
  have "system_step fake_event (at_work j p (Some (Runs (AskJournal c k))))
      ((at_work j p (Some (Runs (AskJournal c k))))\<lparr>sy_journal := j1, sy_workers :=
        (sy_workers (at_work j p (Some (Runs (AskJournal c k)))))(0 \<mapsto> Runs (k rep))\<rparr>)"
    by (rule worker_journal [of _ 0 c k]) (simp_all add: at_work_def a)
  moreover have "(at_work j p (Some (Runs (AskJournal c k))))\<lparr>sy_journal := j1, sy_workers :=
        (sy_workers (at_work j p (Some (Runs (AskJournal c k)))))(0 \<mapsto> Runs (k rep))\<rparr> =
      at_work j1 p (Some (Runs (k rep)))" by (auto simp: at_work_def)
  ultimately have "lab_reaches (at_work j1 p (Some (Runs (k rep))))"
    using reaches_more [OF AskJournal.prems(2)] by metis
  then show ?case using AskJournal.IH [OF rangeI] AskJournal.prems(1) a by simp
next
  case (AskProvider c k)
  have "fy_calls p 0 = None" using AskProvider.prems(1) by (cases "fy_calls p 0 = None") simp_all
  then obtain p1 r where a: "fy_calls p 0 = None" "call_fake 20 (start_call c p) = Some (p1, r)" "drive (k r) j p1 = Some (j', p')"
    using AskProvider.prems(1) by (auto split: if_splits option.splits)
  have "fake_event p (EvStart 0 c) (start_call c p)"
    unfolding start_call_def by (rule fake_starts [OF a(1)])
  then have "system_step fake_event (at_work j p (Some (Runs (AskProvider c k))))
      ((at_work j p (Some (Runs (AskProvider c k))))\<lparr>sy_provider := start_call c p, sy_workers :=
        (sy_workers (at_work j p (Some (Runs (AskProvider c k)))))(0 \<mapsto> Awaits 0 c k)\<rparr>)"
    by (intro worker_calls [of _ 0 c k]) (simp_all add: at_work_def)
  moreover have "(at_work j p (Some (Runs (AskProvider c k))))\<lparr>sy_provider := start_call c p, sy_workers :=
        (sy_workers (at_work j p (Some (Runs (AskProvider c k)))))(0 \<mapsto> Awaits 0 c k)\<rparr> =
      at_work j (start_call c p) (Some (Awaits 0 c k))" by (auto simp: at_work_def)
  ultimately have "lab_reaches (at_work j (start_call c p) (Some (Awaits 0 c k)))"
    using reaches_more [OF AskProvider.prems(2)] by metis
  then have "lab_reaches (at_work j p1 (Some (Runs (k r))))"
    by (rule call_fake_reaches [OF a(2), rotated]) (simp add: start_call_def)
  then show ?case by (rule AskProvider.IH [OF rangeI a(3)])
next
  case (AskHook h key w k)
  have "system_step fake_event (at_work j p (Some (Runs (AskHook h key w k))))
      (at_work j p (Some (Runs (k (Inr ())))))"
    using worker_hook [of "at_work j p (Some (Runs (AskHook h key w k)))" 0 h key w k fake_event "Inr ()"]
    unfolding at_work_upd by (simp add: at_work_def)
  then have "lab_reaches (at_work j p (Some (Runs (k (Inr ())))))"
    using reaches_more [OF AskHook.prems(2)] by blast
  then show ?case using AskHook.IH [OF rangeI] AskHook.prems(1) by simp
qed auto

text \<open>A script: calls of the API, faults, and whole steps of one worker.\<close>

datatype script_step =
    ScCall journal_call
  | ScInject fault_point fake_fault
  | ScAdvance driver_context string
  | ScRetry driver_context string

fun is_transition :: "journal_call \<Rightarrow> bool" where
  "is_transition (CallTransition t) = True"
| "is_transition c = False"

fun script :: "script_step list \<Rightarrow> journal \<Rightarrow> fake_system \<Rightarrow> (journal \<times> fake_system) option" where
  "script [] j p = Some (j, p)"
| "script (ScCall c # steps) j p =
     (if is_transition c then None else script steps (fst (journal_answer j c)) p)"
| "script (ScInject point fault # steps) j p = script steps j (inject p point fault)"
| "script (ScAdvance ctx sid # steps) j p =
     (case drive (advance_campus_lab_session ctx sid) j p of
        None \<Rightarrow> None
      | Some (j', p') \<Rightarrow> script steps j' p')"
| "script (ScRetry ctx sid # steps) j p =
     (case drive (retry_campus_lab_cleanup ctx sid) j p of
        None \<Rightarrow> None
      | Some (j', p') \<Rightarrow> script steps j' p')"

lemma other_call_reaches:
  assumes "\<not> is_transition c" "lab_reaches (at_work j p None)"
  shows "lab_reaches (at_work (fst (journal_answer j c)) p None)"
proof -
  have "system_step fake_event (at_work j p None) ((at_work j p None)\<lparr>sy_journal := fst (journal_answer j c)\<rparr>)"
    by (rule other_call [of c _ _ "snd (journal_answer j c)"])
      (use assms(1) in \<open>cases c; simp add: at_work_def\<close>)+
  then show ?thesis using reaches_more [OF assms(2)] by (simp add: at_work_def)
qed

lemma inject_reaches:
  assumes "lab_reaches (at_work j p None)"
  shows "lab_reaches (at_work j (inject p point fault) None)"
proof -
  have "system_step fake_event (at_work j p None) ((at_work j p None)\<lparr>sy_provider := inject p point fault\<rparr>)"
    by (rule provider_moves [of _ _ EvInternal]) (simp_all add: at_work_def fake_injects)
  then show ?thesis using reaches_more [OF assms] by (simp add: at_work_def)
qed

lemma stop_reaches: "lab_reaches (at_work j p m) \<Longrightarrow> lab_reaches (at_work j p None)"
  using reaches_more [of "at_work j p m"] worker_stops [of fake_event "at_work j p m" 0] by (simp add: at_work_upd)

lemma work_reaches:
  assumes "drive m j p = Some (j', p')" "m = advance_campus_lab_session ctx sid \<or> m = retry_campus_lab_cleanup ctx sid"
    "lab_reaches (at_work j p None)"
  shows "lab_reaches (at_work j' p' None)"
proof -
  have "system_step fake_event (at_work j p None) (at_work j p (Some (Runs m)))"
    using assms(2) worker_advances [of fake_event "at_work j p None" 0 ctx sid]
      worker_retries [of fake_event "at_work j p None" 0 ctx sid] by (auto simp: at_work_upd)
  with drive_reaches [OF assms(1)] reaches_more [OF assms(3)] stop_reaches show ?thesis by blast
qed

lemma script_reaches:
  "script steps j p = Some (j', p') \<Longrightarrow> lab_reaches (at_work j p None) \<Longrightarrow> lab_reaches (at_work j' p' None)"
  by (induction steps j p rule: script.induct)
    (auto split: if_splits option.splits dest: other_call_reaches inject_reaches work_reaches)

lemma start_reaches: "lab_reaches (at_work (empty_journal identities) fake_init None)"
proof -
  have "at_work (empty_journal identities) fake_init None = system_start identities fake_init"
    by (auto simp: at_work_def system_start_def)
  then show ?thesis unfolding lab_reaches_def by (metis system_here)
qed

lemma script_from_start:
  "script steps (empty_journal identities) fake_init = Some (j, p) \<Longrightarrow> lab_reaches (at_work j p None)"
  using script_reaches start_reaches by blast

definition example_context :: "int \<Rightarrow> driver_context" where
  "example_context now =
     \<lparr>dc_worker_id = ''w1'', dc_now = now, dc_lease_seconds = 60, dc_central_authority = True,
      dc_teardown_hooks = [''volumes'']\<rparr>"

definition launch_script :: "script_step list" where
  "launch_script =
     [ScCall (CallSync ''t'' [''a''] ''api'' 5), ScCall (CallCreate (example_session ''s1'')),
      ScAdvance (example_context 20) ''s1'', ScInject AfterProvision FaultInProgress,
      ScAdvance (example_context 30) ''s1'', ScAdvance (example_context 40) ''s1'']"

definition teardown_script :: "script_step list" where
  "teardown_script =
     [ScCall (CallStop ''s1'' ''api'' ''done'' 50), ScAdvance (example_context 60) ''s1'',
      ScInject MidDelete FaultUnreachable, ScAdvance (example_context 70) ''s1'',
      ScRetry (example_context 90) ''s1'']"

definition example_identities :: "(string \<times> string \<times> string) list" where
  "example_identities = [(''t'', ''i'', ''u'')]"

lemma case_option_prod:
  "(case x of Some (a, b) \<Rightarrow> P a b | None \<Rightarrow> False) \<longleftrightarrow> (\<exists>a b. x = Some (a, b) \<and> P a b)"
  by (auto split: option.splits)

lemma launch_run:
  obtains j p where "lab_reaches (at_work j p None)" "map_option ls_state (load_session j ''s1'') = Some LsReady"
    "map or_resource_id (fake_inventory p) = [''fake-ws-1'', ''fake-ws-1-netpol'']"
    "map or_kind (fake_inventory p) = [''workspace'', ''network_policy'']"
proof -
  have "(case script launch_script (empty_journal example_identities) fake_init of
      Some (j, p) \<Rightarrow> map_option ls_state (load_session j ''s1'') = Some LsReady \<and>
        map or_resource_id (fake_inventory p) = [''fake-ws-1'', ''fake-ws-1-netpol''] \<and>
        map or_kind (fake_inventory p) = [''workspace'', ''network_policy'']
    | None \<Rightarrow> False)" by code_simp
  then obtain j p where jp: "script launch_script (empty_journal example_identities) fake_init = Some (j, p)"
    "map_option ls_state (load_session j ''s1'') = Some LsReady"
    "map or_resource_id (fake_inventory p) = [''fake-ws-1'', ''fake-ws-1-netpol'']"
    "map or_kind (fake_inventory p) = [''workspace'', ''network_policy'']"
    unfolding case_option_prod by (elim exE conjE) (rule that)
  show thesis by (rule that [OF script_from_start [OF jp(1)] jp(2-4)])
qed

lemma teardown_run:
  obtains j p where "lab_reaches (at_work j p None)"
    "map_option ls_state (load_session j ''s1'') = Some LsTerminated"
proof -
  have "(case script (launch_script @ teardown_script) (empty_journal example_identities) fake_init of
      Some (j, p) \<Rightarrow> map_option ls_state (load_session j ''s1'') = Some LsTerminated
    | None \<Rightarrow> False)" by code_simp
  then obtain j p where jp: "script (launch_script @ teardown_script) (empty_journal example_identities) fake_init = Some (j, p)"
    "map_option ls_state (load_session j ''s1'') = Some LsTerminated"
    unfolding case_option_prod by (elim exE conjE) (rule that)
  show thesis by (rule that [OF script_from_start [OF jp(1)] jp(2)])
qed

section \<open>Guarantees\<close>

text \<open>C1: A session that ended left nothing behind: in every interleaving of workers, crashes, faults,
  retries and other callers, once the journal says a session is terminated or failed, the provider
  owns no resource labelled with it, whatever the slot or generation, and it stays so, because every
  later state is again such an interleaving.\<close>
theorem ended_session_owns_nothing:
  assumes "lab_reaches y" "load_session (sy_journal y) sid = Some s" "is_terminal (ls_state s)"
    "r \<in> set (fake_inventory (sy_provider y))"
  shows "wl_session_id (or_workload r) \<noteq> sid"
  by (rule lab.ended_owns_nothing [OF reaches_inv [OF assms(1)] assms(2-4)])

lemma ended_session_owns_nothing_witness:
  "\<exists>y s. lab_reaches y \<and> load_session (sy_journal y) ''s1'' = Some s \<and> ls_state s = LsTerminated \<and>
     (\<nexists>r. r \<in> set (fake_inventory (sy_provider y)) \<and> wl_session_id (or_workload r) = ''s1'')"
proof -
  obtain j p where r: "lab_reaches (at_work j p None)"
    "map_option ls_state (load_session j ''s1'') = Some LsTerminated" by (rule teardown_run)
  then obtain s where s: "load_session (sy_journal (at_work j p None)) ''s1'' = Some s" "ls_state s = LsTerminated"
    by (auto simp: at_work_def)
  then have "is_terminal (ls_state s)" by simp
  note e = ended_session_owns_nothing [OF r(1) s(1) this]
  show ?thesis
    by (rule exI [of _ "at_work j p None"], rule exI [of _ s]) (use r(1) s e in auto)
qed

text \<open>C2: A session never has two workspaces: whatever workers repeat, race or crash, two workspaces the
  provider owns for one session are the same one.\<close>
theorem one_workspace_per_session:
  assumes "lab_reaches y" "r \<in> set (fake_inventory (sy_provider y))" "r' \<in> set (fake_inventory (sy_provider y))"
    "or_kind r = ''workspace''" "or_kind r' = ''workspace''"
    "wl_session_id (or_workload r) = wl_session_id (or_workload r')"
  shows "or_resource_id r = or_resource_id r'"
  by (rule lab.one_workspace_each [OF reaches_inv [OF assms(1)] assms(2, 3, 6, 4, 5)])

lemma one_workspace_per_session_witness:
  "\<exists>y r r'. lab_reaches y \<and> r \<in> set (fake_inventory (sy_provider y)) \<and> or_kind r = ''workspace'' \<and>
     r' = hd (filter (\<lambda>r. or_kind r = ''workspace'') (fake_inventory (sy_provider y))) \<and>
     or_resource_id r = or_resource_id r'"
proof -
  obtain j p where l: "lab_reaches (at_work j p None)"
    "map_option ls_state (load_session j ''s1'') = Some LsReady"
    "map or_resource_id (fake_inventory p) = [''fake-ws-1'', ''fake-ws-1-netpol'']"
    "map or_kind (fake_inventory p) = [''workspace'', ''network_policy'']" by (rule launch_run)
  from l(4) obtain r rest where r: "fake_inventory p = r # rest" "or_kind r = ''workspace''"
    by (cases "fake_inventory p") auto
  then have i: "r \<in> set (fake_inventory (sy_provider (at_work j p None)))"
    and h: "hd (filter (\<lambda>r. or_kind r = ''workspace'') (fake_inventory (sy_provider (at_work j p None)))) = r"
    by (simp_all add: at_work_def)
  show ?thesis
    by (intro exI [of _ "at_work j p None"] exI [of _ r] conjI l(1) i r(2) h [symmetric]
        one_workspace_per_session [OF l(1) i i r(2, 2) refl])
qed

text \<open>The reconciler leaves no orphans: in every such interleaving the journal accounts for each
  resource the provider owns by a live session with exactly the resource's slot generation, so the
  orphan search over the provider's inventory comes back empty.\<close>
theorem reconciler_leaves_no_orphans:
  assumes "lab_reaches y"
  shows "find_campus_lab_orphans (sy_journal y) (fake_inventory (sy_provider y)) = []"
proof -
  have "find_campus_lab_orphans (sy_journal y) rs = []" if "set rs \<subseteq> set (fake_inventory (sy_provider y))" for rs
    using that
  proof (induction rs)
    case (Cons r rs)
    from lab.resources_accounted [OF reaches_inv [OF assms], of r] Cons.prems obtain s where
      s: "load_session (sy_journal y) (wl_session_id (or_workload r)) = Some s"
      "session_workload s = Some (or_workload r)" "may_hold_resources (ls_state s)" by auto
    then have "\<not> is_terminal (ls_state s)" by (auto simp: may_hold_resources_def is_terminal_def)
    with s Cons show ?case by (simp add: orphan_reason_of_def)
  qed simp
  then show ?thesis by simp
qed

lemma reconciler_leaves_no_orphans_witness:
  "\<exists>y. lab_reaches y \<and> fake_inventory (sy_provider y) \<noteq> [] \<and>
     find_campus_lab_orphans (sy_journal y) (fake_inventory (sy_provider y)) = []"
proof -
  obtain j p where l: "lab_reaches (at_work j p None)"
    "map_option ls_state (load_session j ''s1'') = Some LsReady"
    "map or_resource_id (fake_inventory p) = [''fake-ws-1'', ''fake-ws-1-netpol'']"
    "map or_kind (fake_inventory p) = [''workspace'', ''network_policy'']" by (rule launch_run)
  from l(3) have "fake_inventory (sy_provider (at_work j p None)) \<noteq> []"
    by (cases "fake_inventory p") (simp_all add: at_work_def)
  then show ?thesis
    by (intro exI [of _ "at_work j p None"] conjI l(1) reconciler_leaves_no_orphans [OF l(1)])
qed

end
