(* ===== verification/Json.thy ===== *)
theory Json
  imports Prelude
begin

text \<open>
  \<open>serde_json::Value\<close>. The crate is used without \<open>preserve_order\<close>, so an object is a \<open>BTreeMap\<close>: its
  entries in strict key order, and equality of objects is equality of these lists. A number is its
  text (the two float zeros, equal as numbers, are told apart).
\<close>

datatype json =
    JNull
  | JBool bool
  | JNumber string
  | JString string
  | JArray "json list"
  | JObject "(string \<times> json) list"

fun json_ok :: "json \<Rightarrow> bool" where
  "json_ok (JArray vs) = list_all json_ok vs"
| "json_ok (JObject es) = (sorted_wrt (<) (map fst es) \<and> list_all (\<lambda>e. json_ok (snd e)) es)"
| "json_ok _ = True"

definition is_object :: "json \<Rightarrow> bool" where
  "is_object v = (case v of JObject _ \<Rightarrow> True | _ \<Rightarrow> False)"

definition object_entries :: "json \<Rightarrow> (string \<times> json) list" where
  "object_entries v = (case v of JObject es \<Rightarrow> es | _ \<Rightarrow> [])"

definition json_get :: "json \<Rightarrow> string \<Rightarrow> json option" where
  "json_get v k = map_of (object_entries v) k"

text \<open>\<open>value[key]\<close>: \<open>Null\<close> when the key is absent or the value is no object.\<close>

definition json_index :: "json \<Rightarrow> string \<Rightarrow> json" where
  "json_index v k = (case json_get v k of Some x \<Rightarrow> x | None \<Rightarrow> JNull)"

definition json_str :: "json \<Rightarrow> string option" where
  "json_str v = (case v of JString s \<Rightarrow> Some s | _ \<Rightarrow> None)"

definition empty_object :: json where
  "empty_object = JObject []"

lemma json_get_simps [simp]:
  "json_get (JObject es) k = map_of es k" "json_get empty_object k = None"
  "is_object (JObject es)" "is_object empty_object" "object_entries (JObject es) = es"
  "object_entries empty_object = []"
  by (simp_all add: json_get_def is_object_def object_entries_def empty_object_def)

lemma is_object_entries: "is_object v \<Longrightarrow> v = JObject (object_entries v)"
  by (simp add: is_object_def split: json.splits)

end
