(* ===== verification/HostedStore.thy ===== *)
theory HostedStore
  imports Json Tables
begin

text \<open>
  The hosted controller's tables and calls: \<open>sqlite/hosted_controller.rs\<close> of the store over migration
  0053. A reconciliation row per hosted work item carries the operator's control and the claim of the
  controller that works on it; operations record a dispatch before it happens, and the resource locks
  they hold outlive the claim. A transaction is a function and an error leaves the
  store as it was. \<open>closed_at\<close> and the enrolment of new work items are written by other parts of the
  store; they appear as the two statements that matter here.
\<close>

section \<open>Rows\<close>

record reconciliation =
  hr_work_item_id :: string
  hr_control :: string
  hr_control_version :: int
  hr_next_due_at :: int
  hr_claim_owner :: "string option"
  hr_claim_fence :: int
  hr_claim_until :: "int option"
  hr_condition :: string
  hr_condition_reason :: string
  hr_unchanged_checks :: int
  hr_observed_state_hash :: "string option"
  hr_updated_at :: int

record hosted_operation =
  ho_id :: string
  ho_work_item_id :: string
  ho_action :: string
  ho_input_hash :: string
  ho_effect :: string
  ho_status :: string
  ho_resource_keys :: "string list"
  ho_resource_refs :: json
  ho_status_reason :: string
  ho_created_at :: int
  ho_updated_at :: int

record begin_hosted =
  hb_id :: string
  hb_action :: string
  hb_input_hash :: string
  hb_effect :: string
  hb_resource_keys :: "string list"

record finish_reconciliation =
  hf_next_due_at :: int
  hf_condition :: string
  hf_reason :: string
  hf_observed_state_hash :: "string option"

record work_item_row =
  wi_id :: string
  wi_closed_at :: "int option"

record control_audit =
  wa_id :: string
  wa_actor :: string
  wa_work_item :: string
  wa_control :: string
  wa_reason :: string
  wa_version :: int
  wa_at :: int

text \<open>\<open>hs_locks\<close>: resource key and operation of each row of \<open>hosted_operation_locks\<close>.\<close>

record hosted_store =
  hs_items :: "work_item_row list"
  hs_rows :: "reconciliation list"
  hs_ops :: "hosted_operation list"
  hs_locks :: "(string \<times> string) list"
  hs_audit :: "control_audit list"

text \<open>The conflicts the calls report, by the message they carry, and a refused statement.\<close>

datatype hosted_error =
    HeInvalidClaim
  | HeNotMutable
  | HePastDueTime
  | HeClaimLost
  | HeInvalidControl
  | HeControlChanged
  | HeInvalidOperation
  | HeInvalidKeys
  | HeStopped
  | HeIdentityChanged
  | HeLocksChanged
  | HeInvalidOutcome
  | HeNotOwned
  | HeRefsChanged
  | HeCompleted
  | HeAmbiguousIntent
  | HeDatabase

section \<open>Enrolment and closure\<close>

definition CONTROL_READY_REASON :: string where
  "CONTROL_READY_REASON = ''Authorized hosted work is ready for reconciliation''"

definition enrolled_row :: "string \<Rightarrow> int \<Rightarrow> reconciliation" where
  "enrolled_row w created =
     \<lparr>hr_work_item_id = w, hr_control = ''active'', hr_control_version = 1, hr_next_due_at = created,
      hr_claim_owner = None, hr_claim_fence = 0, hr_claim_until = None, hr_condition = ''ready'',
      hr_condition_reason = CONTROL_READY_REASON, hr_unchanged_checks = 0,
      hr_observed_state_hash = None, hr_updated_at = created\<rparr>"

definition enroll_hosted_workflow ::
    "hosted_store \<Rightarrow> string \<Rightarrow> bool \<Rightarrow> int \<Rightarrow> (hosted_error, hosted_store) res" where
  "enroll_hosted_workflow s w hosted created =
     (if w \<in> wi_id ` set (hs_items s) then Inl HeDatabase
      else
        let s' = s\<lparr>hs_items := hs_items s @ [\<lparr>wi_id = w, wi_closed_at = None\<rparr>]\<rparr> in
        Inr (if hosted then s'\<lparr>hs_rows := hs_rows s' @ [enrolled_row w created]\<rparr> else s'))"

definition open_item :: "string \<Rightarrow> work_item_row \<Rightarrow> bool" where
  "open_item w i \<longleftrightarrow> wi_id i = w \<and> wi_closed_at i = None"

definition close_work_item :: "hosted_store \<Rightarrow> string \<Rightarrow> int \<Rightarrow> (hosted_error, hosted_store) res" where
  "close_work_item s w now =
     (if rows_affected (open_item w) (hs_items s) = 1
      then Inr (s\<lparr>hs_items := update_where (open_item w) (\<lambda>i. i\<lparr>wi_closed_at := Some now\<rparr>) (hs_items s)\<rparr>)
      else Inl HeNotMutable)"

section \<open>Queries\<close>

definition load_row :: "hosted_store \<Rightarrow> string \<Rightarrow> reconciliation option" where
  "load_row s w = find (\<lambda>r. hr_work_item_id r = w) (hs_rows s)"

definition load_hosted_op :: "hosted_store \<Rightarrow> string \<Rightarrow> hosted_operation option" where
  "load_hosted_op s q = find (\<lambda>x. ho_id x = q) (hs_ops s)"

definition unfinished :: "hosted_operation \<Rightarrow> bool" where
  "unfinished x \<longleftrightarrow> ho_status x \<noteq> ''succeeded''"

definition active_workflow_operation :: "hosted_store \<Rightarrow> string \<Rightarrow> hosted_operation option" where
  "active_workflow_operation s w = find (\<lambda>x. ho_work_item_id x = w \<and> unfinished x) (hs_ops s)"

definition find_operation :: "hosted_store \<Rightarrow> string \<Rightarrow> string \<Rightarrow> string \<Rightarrow> hosted_operation option" where
  "find_operation s w action input =
     find (\<lambda>x. ho_work_item_id x = w \<and> ho_action x = action \<and> ho_input_hash x = input) (hs_ops s)"

definition operation_for_source_intent ::
    "hosted_store \<Rightarrow> string \<Rightarrow> (hosted_error, hosted_operation option) res" where
  "operation_for_source_intent s intent =
     (case take 2 (filter (\<lambda>x. json_get (ho_resource_refs x) ''source_delivery_intent_id'' = Some (JString intent))
         (hs_ops s)) of
        [] \<Rightarrow> Inr None
      | [x] \<Rightarrow> Inr (Some x)
      | _ \<Rightarrow> Inl HeAmbiguousIntent)"

definition locked_keys :: "hosted_store \<Rightarrow> string \<Rightarrow> string list" where
  "locked_keys s q = sort (map fst (filter (\<lambda>l. snd l = q) (hs_locks s)))"

definition is_open :: "hosted_store \<Rightarrow> string \<Rightarrow> bool" where
  "is_open s w \<longleftrightarrow> list_ex (open_item w) (hs_items s)"

section \<open>Claims\<close>

text \<open>The population the scheduler visits: work that is open or has an unfinished operation.\<close>

definition eligible :: "hosted_store \<Rightarrow> string \<Rightarrow> bool" where
  "eligible s w \<longleftrightarrow>
     list_ex (\<lambda>i. wi_id i = w) (hs_items s) \<and> (is_open s w \<or> active_workflow_operation s w \<noteq> None)"

definition claimable :: "int \<Rightarrow> reconciliation \<Rightarrow> bool" where
  "claimable now r \<longleftrightarrow>
     hr_next_due_at r \<le> now \<and>
     (case hr_claim_until r of Some until \<Rightarrow> until \<le> now | None \<Rightarrow> True)"

definition due_rows :: "hosted_store \<Rightarrow> int \<Rightarrow> (int \<times> string) list" where
  "due_rows s now =
     map (\<lambda>r. (hr_next_due_at r, hr_work_item_id r))
       (filter (\<lambda>r. claimable now r \<and> eligible s (hr_work_item_id r)) (hs_rows s))"

definition claimed_row :: "string \<Rightarrow> int \<Rightarrow> int \<Rightarrow> reconciliation \<Rightarrow> reconciliation" where
  "claimed_row owner now lease r =
     r\<lparr>hr_claim_owner := Some owner, hr_claim_fence := hr_claim_fence r + 1,
       hr_claim_until := Some (saturating_add now lease), hr_updated_at := now\<rparr>"

text \<open>The first of a list of pairs in the order of \<open>ORDER BY next_due_at, work_item_id\<close>.\<close>

fun first_due :: "(int \<times> string) list \<Rightarrow> (int \<times> string) option" where
  "first_due [] = None"
| "first_due (x # xs) =
     Some (case first_due xs of
         None \<Rightarrow> x
       | Some y \<Rightarrow> if fst x < fst y \<or> fst x = fst y \<and> snd x \<le> snd y then x else y)"

definition claim_due_workflow ::
    "hosted_store \<Rightarrow> string \<Rightarrow> int \<Rightarrow> int \<Rightarrow> (hosted_error, hosted_store \<times> reconciliation option) res" where
  "claim_due_workflow s owner now lease =
     (if owner = [] \<or> \<not> (1 \<le> lease \<and> lease \<le> 60000) then Inl HeInvalidClaim
      else case first_due (due_rows s now) of
          None \<Rightarrow> Inr (s, None)
        | Some (_, w) \<Rightarrow>
            let s' = s\<lparr>hs_rows := update_where (\<lambda>r. hr_work_item_id r = w) (claimed_row owner now lease) (hs_rows s)\<rparr>
            in Inr (s', load_row s' w))"

definition wake_workflow :: "hosted_store \<Rightarrow> string \<Rightarrow> int \<Rightarrow> hosted_store" where
  "wake_workflow s w now =
     s\<lparr>hs_rows := update_where (\<lambda>r. hr_work_item_id r = w)
         (\<lambda>r. r\<lparr>hr_next_due_at := min (hr_next_due_at r) now\<rparr>) (hs_rows s)\<rparr>"

text \<open>The row still carries the claim; \<open>NULL\<close> equals nothing.\<close>

definition holds_claim :: "reconciliation \<Rightarrow> int \<Rightarrow> reconciliation \<Rightarrow> bool" where
  "holds_claim c now r \<longleftrightarrow>
     hr_work_item_id r = hr_work_item_id c \<and>
     hr_claim_owner c \<noteq> None \<and> hr_claim_owner r = hr_claim_owner c \<and>
     hr_claim_fence r = hr_claim_fence c \<and>
     (case hr_claim_until r of Some until \<Rightarrow> now < until | None \<Rightarrow> False) \<and>
     hr_control_version r = hr_control_version c"

definition require_one :: "nat \<Rightarrow> (hosted_error, unit) res" where
  "require_one n = (if n = 1 then Inr () else Inl HeClaimLost)"

definition finished_row :: "finish_reconciliation \<Rightarrow> int \<Rightarrow> reconciliation \<Rightarrow> reconciliation" where
  "finished_row f now r =
     r\<lparr>hr_next_due_at := hf_next_due_at f, hr_condition := hf_condition f,
       hr_condition_reason := hf_reason f,
       hr_unchanged_checks :=
         (if hr_observed_state_hash r = hf_observed_state_hash f then hr_unchanged_checks r + 1 else 0),
       hr_observed_state_hash := hf_observed_state_hash f,
       hr_claim_owner := None, hr_claim_until := None, hr_updated_at := now\<rparr>"

definition finish_workflow_reconciliation ::
    "hosted_store \<Rightarrow> reconciliation \<Rightarrow> finish_reconciliation \<Rightarrow> int \<Rightarrow> (hosted_error, hosted_store) res" where
  "finish_workflow_reconciliation s c f now =
     (if hf_next_due_at f \<le> now then Inl HePastDueTime
      else and_then (require_one (rows_affected (holds_claim c now) (hs_rows s)))
        (Inr (s\<lparr>hs_rows := update_where (holds_claim c now) (finished_row f now) (hs_rows s)\<rparr>)))"

definition fence_claim :: "hosted_store \<Rightarrow> reconciliation \<Rightarrow> int \<Rightarrow> (hosted_error, hosted_store) res" where
  "fence_claim s c now =
     (let held = (\<lambda>r. holds_claim c now r \<and> hr_control r = hr_control c) in
      and_then (require_one (rows_affected held (hs_rows s)))
        (Inr (s\<lparr>hs_rows := update_where held (\<lambda>r. r\<lparr>hr_updated_at := now\<rparr>) (hs_rows s)\<rparr>)))"

section \<open>Control\<close>

definition control_event_id :: "string \<Rightarrow> int \<Rightarrow> string" where
  "control_event_id w version = ''audit_workflow_control_'' @ w @ ''_'' @ show_int version"

definition controlled_row :: "string \<Rightarrow> string \<Rightarrow> int \<Rightarrow> reconciliation \<Rightarrow> reconciliation" where
  "controlled_row control reason now r =
     r\<lparr>hr_control := control, hr_control_version := hr_control_version r + 1, hr_next_due_at := now,
       hr_claim_owner := None, hr_claim_until := None, hr_claim_fence := hr_claim_fence r + 1,
       hr_condition := control, hr_condition_reason := reason, hr_unchanged_checks := 0,
       hr_updated_at := now\<rparr>"

definition set_workflow_control ::
    "hosted_store \<Rightarrow> string \<Rightarrow> int \<Rightarrow> string \<Rightarrow> string \<Rightarrow> string \<Rightarrow> int
       \<Rightarrow> (hosted_error, hosted_store \<times> reconciliation) res" where
  "set_workflow_control s w expected control actor reason now =
     (if control \<notin> {''active'', ''paused'', ''cancelled''} \<or> is_blank actor \<or> is_blank reason
      then Inl HeInvalidControl
      else
        let target = (\<lambda>r. hr_work_item_id r = w \<and> hr_control_version r = expected \<and>
              hr_control r \<noteq> ''cancelled'' \<and> is_open s w) in
        res_bind (ok_or (find target (hs_rows s)) HeControlChanged) (\<lambda>r.
          let r' = controlled_row control reason now r;
              event = control_event_id w (hr_control_version r') in
          if list_ex (\<lambda>e. wa_id e = event) (hs_audit s) then Inl HeDatabase
          else Inr (s\<lparr>hs_rows := update_where target (controlled_row control reason now) (hs_rows s),
                     hs_audit := hs_audit s @
                       [\<lparr>wa_id = event, wa_actor = actor, wa_work_item = w,
                         wa_control = control, wa_reason = reason,
                         wa_version = hr_control_version r', wa_at = now\<rparr>]\<rparr>, r')))"

section \<open>Operations\<close>

definition begin_request_ok :: "begin_hosted \<Rightarrow> bool" where
  "begin_request_ok q \<longleftrightarrow>
     hb_id q \<noteq> [] \<and> hb_action q \<noteq> [] \<and> hb_input_hash q \<noteq> [] \<and>
     hb_effect q \<in> {''development'', ''observation'', ''recovery''}"

definition requested_keys :: "begin_hosted \<Rightarrow> string list" where
  "requested_keys q = sort (hb_resource_keys q)"

definition take_locks :: "hosted_store \<Rightarrow> string \<Rightarrow> string list \<Rightarrow> (hosted_error, hosted_store) res" where
  "take_locks s q keys =
     (if list_ex (\<lambda>k. k \<in> fst ` set (hs_locks s)) keys then Inl HeDatabase
      else Inr (s\<lparr>hs_locks := hs_locks s @ map (\<lambda>k. (k, q)) keys\<rparr>))"

text \<open>A known operation: the same identity, with the locks it recorded; one that gave them up while
  it was pending takes them again.\<close>

definition resume_operation ::
    "hosted_store \<Rightarrow> begin_hosted \<Rightarrow> hosted_operation \<Rightarrow> (hosted_error, hosted_store \<times> hosted_operation) res"
where
  "resume_operation s q x =
     (if ho_id x \<noteq> hb_id q \<or> ho_effect x \<noteq> hb_effect q \<or> ho_resource_keys x \<noteq> requested_keys q
      then Inl HeIdentityChanged
      else if unfinished x then
        (let keys = locked_keys s (hb_id q) in
         if keys = [] \<and> ho_status x = ''pending''
         then res_bind (take_locks s (hb_id q) (requested_keys q)) (\<lambda>s'. Inr (s', x))
         else if keys \<noteq> requested_keys q then Inl HeLocksChanged
         else Inr (s, x))
      else Inr (s, x))"

definition new_hosted_operation :: "string \<Rightarrow> begin_hosted \<Rightarrow> int \<Rightarrow> hosted_operation" where
  "new_hosted_operation w q now =
     \<lparr>ho_id = hb_id q, ho_work_item_id = w, ho_action = hb_action q, ho_input_hash = hb_input_hash q,
      ho_effect = hb_effect q, ho_status = ''pending'', ho_resource_keys = requested_keys q,
      ho_resource_refs = empty_object, ho_status_reason = ''Dispatch identity recorded before execution'',
      ho_created_at = now, ho_updated_at = now\<rparr>"

definition insert_operation ::
    "hosted_store \<Rightarrow> string \<Rightarrow> begin_hosted \<Rightarrow> int \<Rightarrow> (hosted_error, hosted_store \<times> hosted_operation) res"
where
  "insert_operation s w q now =
     (if load_hosted_op s (hb_id q) \<noteq> None \<or> active_workflow_operation s w \<noteq> None then Inl HeDatabase
      else
        let x = new_hosted_operation w q now in
        res_bind (take_locks (s\<lparr>hs_ops := hs_ops s @ [x]\<rparr>) (hb_id q) (hb_resource_keys q)) (\<lambda>s'.
          Inr (s', x)))"

definition begin_workflow_operation ::
    "hosted_store \<Rightarrow> reconciliation \<Rightarrow> begin_hosted \<Rightarrow> int
       \<Rightarrow> (hosted_error, hosted_store \<times> hosted_operation) res" where
  "begin_workflow_operation s c q now =
     (if \<not> begin_request_ok q then Inl HeInvalidOperation
      else if [] \<in> set (requested_keys q) \<or> \<not> distinct (requested_keys q) then Inl HeInvalidKeys
      else res_bind (fence_claim s c now) (\<lambda>s1.
        if hr_control c \<noteq> ''active'' \<and> hb_effect q = ''development'' then Inl HeStopped
        else case find_operation s1 (hr_work_item_id c) (hb_action q) (hb_input_hash q) of
            Some x \<Rightarrow> resume_operation s1 q x
          | None \<Rightarrow> insert_operation s1 (hr_work_item_id c) q now))"

definition drop_locks :: "hosted_store \<Rightarrow> string \<Rightarrow> hosted_store" where
  "drop_locks s q = s\<lparr>hs_locks := filter (\<lambda>l. snd l \<noteq> q) (hs_locks s)\<rparr>"

definition release_pending_workflow_locks ::
    "hosted_store \<Rightarrow> reconciliation \<Rightarrow> string \<Rightarrow> int \<Rightarrow> (hosted_error, hosted_store) res" where
  "release_pending_workflow_locks s c q now =
     res_bind (fence_claim s c now) (\<lambda>s1.
     and_then (require_one (rows_affected (\<lambda>x. ho_id x = q \<and> ho_work_item_id x = hr_work_item_id c \<and>
         ho_status x = ''pending'' \<and> ho_resource_refs x = empty_object) (hs_ops s1)))
       (Inr (drop_locks s1 q)))"

definition refs_kept :: "json \<Rightarrow> json \<Rightarrow> bool" where
  "refs_kept old new \<longleftrightarrow> list_all (\<lambda>(k, v). json_get new k = Some v) (object_entries old)"

definition recorded_op :: "string \<Rightarrow> json \<Rightarrow> string \<Rightarrow> int \<Rightarrow> hosted_operation \<Rightarrow> hosted_operation" where
  "recorded_op status refs reason now x =
     x\<lparr>ho_status := status, ho_resource_refs := refs, ho_status_reason := reason, ho_updated_at := now\<rparr>"

definition record_workflow_operation ::
    "hosted_store \<Rightarrow> reconciliation \<Rightarrow> string \<Rightarrow> string \<Rightarrow> json \<Rightarrow> string \<Rightarrow> int
       \<Rightarrow> (hosted_error, hosted_store \<times> hosted_operation) res" where
  "record_workflow_operation s c q status refs reason now =
     (if status \<notin> {''running'', ''blocked'', ''succeeded''} \<or> \<not> is_object refs then Inl HeInvalidOutcome
      else res_bind (fence_claim s c now) (\<lambda>s1.
        res_bind (ok_or (find (\<lambda>x. ho_id x = q \<and> ho_work_item_id x = hr_work_item_id c) (hs_ops s1)) HeNotOwned)
          (\<lambda>old.
            if \<not> refs_kept (ho_resource_refs old) refs then Inl HeRefsChanged
            else if \<not> unfinished old then
              (if status \<noteq> ho_status old \<or> refs \<noteq> ho_resource_refs old then Inl HeCompleted
               else Inr (s1, old))
            else
              let s2 = s1\<lparr>hs_ops := update_where (\<lambda>x. ho_id x = q) (recorded_op status refs reason now) (hs_ops s1)\<rparr>;
                  s3 = (if status = ''succeeded'' then drop_locks s2 q else s2) in
              Inr (s3, recorded_op status refs reason now old))))"

section \<open>Metrics\<close>

record hosted_metrics =
  hm_by_condition :: "(string \<times> nat) list"
  hm_due_unclaimed :: nat
  hm_oldest_due_age :: "int option"
  hm_claimed :: nat
  hm_by_status :: "(string \<times> nat) list"
  hm_oldest_active_age :: "int option"

text \<open>\<open>GROUP BY\<close> with a count, ordered by the group; the least of a column.\<close>

definition count_by :: "string list \<Rightarrow> (string \<times> nat) list" where
  "count_by xs = map (\<lambda>x. (x, count_list xs x)) (sort (remdups xs))"

definition minimum :: "int list \<Rightarrow> int option" where
  "minimum xs = (if xs = [] then None else Some (foldr min xs (hd xs)))"

definition row_age :: "int \<Rightarrow> int \<Rightarrow> int" where
  "row_age now t = max 0 (sat_i64 (now - t))"

definition hosted_controller_metrics :: "hosted_store \<Rightarrow> int \<Rightarrow> hosted_metrics" where
  "hosted_controller_metrics s now =
     (let visited = filter (\<lambda>r. eligible s (hr_work_item_id r)) (hs_rows s);
          due = filter (claimable now) visited;
          active = filter unfinished (hs_ops s) in
      \<lparr>hm_by_condition = count_by (map hr_condition visited), hm_due_unclaimed = length due,
       hm_oldest_due_age = map_option (row_age now) (minimum (map hr_next_due_at due)),
       hm_claimed = length (filter (\<lambda>r. case hr_claim_until r of Some until \<Rightarrow> now < until | None \<Rightarrow> False) visited),
       hm_by_status = count_by (map ho_status active),
       hm_oldest_active_age = map_option (row_age now) (minimum (map ho_created_at active))\<rparr>)"

end
