(* ===== verification/HostedSafety.thy ===== *)
theory HostedSafety
  imports HostedStore
begin

text \<open>
  The hosted store as a state machine over its calls: the invariant of its tables, how rows and
  operations grow, and the locks of dispatched operations.
\<close>

section \<open>Calls\<close>

datatype hosted_call =
    HcEnroll string bool int
  | HcClose string int
  | HcClaim string int int
  | HcWake string int
  | HcFinish reconciliation finish_reconciliation int
  | HcControl string int string string string int
  | HcBegin reconciliation begin_hosted int
  | HcRelease reconciliation string int
  | HcRecord reconciliation string string json string int

definition kept :: "'s \<Rightarrow> ('e, 's) res \<Rightarrow> 's" where
  "kept s r = (case r of Inl _ \<Rightarrow> s | Inr s' \<Rightarrow> s')"

definition kept_fst :: "'s \<Rightarrow> ('e, 's \<times> 'a) res \<Rightarrow> 's" where
  "kept_fst s r = (case r of Inl _ \<Rightarrow> s | Inr (s', _) \<Rightarrow> s')"

fun hosted_apply :: "hosted_store \<Rightarrow> hosted_call \<Rightarrow> hosted_store" where
  "hosted_apply s (HcEnroll w hosted created) = kept s (enroll_hosted_workflow s w hosted created)"
| "hosted_apply s (HcClose w now) = kept s (close_work_item s w now)"
| "hosted_apply s (HcClaim owner now lease) = kept_fst s (claim_due_workflow s owner now lease)"
| "hosted_apply s (HcWake w now) = wake_workflow s w now"
| "hosted_apply s (HcFinish c f now) = kept s (finish_workflow_reconciliation s c f now)"
| "hosted_apply s (HcControl w expected control actor reason now) =
     kept_fst s (set_workflow_control s w expected control actor reason now)"
| "hosted_apply s (HcBegin c q now) = kept_fst s (begin_workflow_operation s c q now)"
| "hosted_apply s (HcRelease c q now) = kept s (release_pending_workflow_locks s c q now)"
| "hosted_apply s (HcRecord c q status refs reason now) =
     kept_fst s (record_workflow_operation s c q status refs reason now)"

inductive hosted_steps ::
    "(hosted_store \<Rightarrow> hosted_call \<Rightarrow> bool) \<Rightarrow> hosted_store \<Rightarrow> hosted_store \<Rightarrow> bool" for allowed where
  hosted_here: "hosted_steps allowed s s"
| hosted_more: "allowed s c \<Longrightarrow> hosted_steps allowed (hosted_apply s c) s' \<Longrightarrow> hosted_steps allowed s s'"

definition empty_hosted :: hosted_store where
  "empty_hosted = \<lparr>hs_items = [], hs_rows = [], hs_ops = [], hs_locks = [], hs_audit = []\<rparr>"

abbreviation any_hosted_call :: "hosted_store \<Rightarrow> hosted_call \<Rightarrow> bool" where
  "any_hosted_call \<equiv> \<lambda>_ _. True"

definition hosted_reachable :: "(hosted_store \<Rightarrow> hosted_call \<Rightarrow> bool) \<Rightarrow> hosted_store \<Rightarrow> bool" where
  "hosted_reachable allowed s \<longleftrightarrow> hosted_steps allowed empty_hosted s"

fun run_hosted :: "hosted_store \<Rightarrow> hosted_call list \<Rightarrow> hosted_store" where
  "run_hosted s [] = s"
| "run_hosted s (c # cs) = run_hosted (hosted_apply s c) cs"

text \<open>A caller dispatches a pending operation only while it holds the operation's locks: the
  controller records \<open>running\<close> right after \<open>begin_workflow_operation\<close>, under the same claim.\<close>

definition dispatches_locked :: "hosted_store \<Rightarrow> hosted_call \<Rightarrow> bool" where
  "dispatches_locked s c =
     (case c of
        HcRecord _ q _ _ _ _ \<Rightarrow>
          (case load_hosted_op s q of
             Some x \<Rightarrow> ho_status x = ''pending'' \<longrightarrow> locked_keys s q = ho_resource_keys x
           | None \<Rightarrow> True)
      | _ \<Rightarrow> True)"

lemma hosted_steps_mono: "hosted_steps A s s' \<Longrightarrow> hosted_steps any_hosted_call s s'"
  by (induction rule: hosted_steps.induct) (auto intro: hosted_steps.intros)

lemma hosted_steps_trans: "hosted_steps A s s1 \<Longrightarrow> hosted_steps A s1 s2 \<Longrightarrow> hosted_steps A s s2"
  by (induction rule: hosted_steps.induct) (auto intro: hosted_steps.intros)

section \<open>The invariant\<close>

definition row_ok :: "reconciliation \<Rightarrow> bool" where
  "row_ok r \<longleftrightarrow>
     (hr_claim_owner r = None \<longleftrightarrow> hr_claim_until r = None) \<and>
     hr_control r \<in> {''active'', ''paused'', ''cancelled''} \<and>
     1 \<le> hr_control_version r \<and> 0 \<le> hr_claim_fence r \<and> 0 \<le> hr_unchanged_checks r"

definition hosted_op_ok :: "hosted_operation \<Rightarrow> bool" where
  "hosted_op_ok x \<longleftrightarrow>
     ho_effect x \<in> {''development'', ''observation'', ''recovery''} \<and>
     ho_status x \<in> {''pending'', ''running'', ''blocked'', ''succeeded''} \<and>
     is_object (ho_resource_refs x) \<and> (ho_status x = ''pending'' \<longrightarrow> ho_resource_refs x = empty_object) \<and>
     sorted (ho_resource_keys x) \<and> distinct (ho_resource_keys x) \<and> [] \<notin> set (ho_resource_keys x)"

definition dispatch_key :: "hosted_operation \<Rightarrow> string \<times> string \<times> string" where
  "dispatch_key x = (ho_work_item_id x, ho_action x, ho_input_hash x)"

definition rows_ok :: "hosted_store \<Rightarrow> bool" where
  "rows_ok s \<longleftrightarrow> distinct (map wi_id (hs_items s)) \<and> distinct (map hr_work_item_id (hs_rows s)) \<and>
     (\<forall>r\<in>set (hs_rows s). row_ok r \<and> hr_work_item_id r \<in> wi_id ` set (hs_items s))"

definition ops_ok :: "hosted_store \<Rightarrow> bool" where
  "ops_ok s \<longleftrightarrow> distinct (map ho_id (hs_ops s)) \<and> distinct (map dispatch_key (hs_ops s)) \<and>
     distinct (map ho_work_item_id (filter unfinished (hs_ops s))) \<and>
     (\<forall>x\<in>set (hs_ops s). hosted_op_ok x \<and> ho_work_item_id x \<in> hr_work_item_id ` set (hs_rows s))"

definition locks_ok :: "hosted_store \<Rightarrow> bool" where
  "locks_ok s \<longleftrightarrow> distinct (map fst (hs_locks s)) \<and>
     (\<forall>l\<in>set (hs_locks s). \<exists>x\<in>set (hs_ops s). ho_id x = snd l \<and> unfinished x \<and> fst l \<in> set (ho_resource_keys x)) \<and>
     (\<forall>x\<in>set (hs_ops s). unfinished x \<longrightarrow>
        locked_keys s (ho_id x) = [] \<or> locked_keys s (ho_id x) = ho_resource_keys x)"

definition audit_row_ok :: "reconciliation list \<Rightarrow> control_audit \<Rightarrow> bool" where
  "audit_row_ok rows e \<longleftrightarrow>
     wa_id e = control_event_id (wa_work_item e) (wa_version e) \<and> 1 \<le> wa_version e \<and>
     (\<exists>r\<in>set rows. hr_work_item_id r = wa_work_item e \<and> wa_version e \<le> hr_control_version r)"

definition hosted_inv :: "hosted_store \<Rightarrow> bool" where
  "hosted_inv s \<longleftrightarrow> rows_ok s \<and> ops_ok s \<and> locks_ok s \<and>
     (\<forall>e\<in>set (hs_audit s). audit_row_ok (hs_rows s) e)"

lemma empty_hosted_inv: "hosted_inv empty_hosted"
  by (simp add: hosted_inv_def rows_ok_def ops_ok_def locks_ok_def empty_hosted_def)

lemma load_row_lookup: "load_row s = lookup hr_work_item_id (hs_rows s)"
  by (simp add: fun_eq_iff load_row_def lookup_def)

lemma load_hosted_op_lookup: "load_hosted_op s = lookup ho_id (hs_ops s)"
  by (simp add: fun_eq_iff load_hosted_op_def lookup_def)

lemma locked_keys_frame [simp]: "locked_keys (s\<lparr>hs_rows := rows\<rparr>) = locked_keys s"
  "locked_keys (s\<lparr>hs_ops := ops\<rparr>) = locked_keys s" "locked_keys (s\<lparr>hs_items := items\<rparr>) = locked_keys s"
  "locked_keys (s\<lparr>hs_audit := audit\<rparr>) = locked_keys s"
  by (simp_all add: locked_keys_def fun_eq_iff)

lemma hosted_invD:
  assumes "hosted_inv s"
  shows "distinct (map hr_work_item_id (hs_rows s))" "distinct (map ho_id (hs_ops s))"
    "distinct (map fst (hs_locks s))" "distinct (map ho_work_item_id (filter unfinished (hs_ops s)))"
  using assms by (simp_all add: hosted_inv_def rows_ok_def ops_ok_def locks_ok_def)

lemma load_row_iff:
  "hosted_inv s \<Longrightarrow> load_row s w = Some r \<longleftrightarrow> r \<in> set (hs_rows s) \<and> hr_work_item_id r = w"
  by (simp add: load_row_lookup lookup_Some hosted_invD)

lemma load_hosted_op_iff:
  "hosted_inv s \<Longrightarrow> load_hosted_op s q = Some x \<longleftrightarrow> x \<in> set (hs_ops s) \<and> ho_id x = q"
  by (simp add: load_hosted_op_lookup lookup_Some hosted_invD)

lemma inv_row_ok: "hosted_inv s \<Longrightarrow> r \<in> set (hs_rows s) \<Longrightarrow> row_ok r"
  by (simp add: hosted_inv_def rows_ok_def)

lemma inv_op_ok: "hosted_inv s \<Longrightarrow> x \<in> set (hs_ops s) \<Longrightarrow> hosted_op_ok x"
  by (simp add: hosted_inv_def ops_ok_def)

section \<open>Updates of rows\<close>

text \<open>A row update that keeps the identifier, keeps the row well formed and never lowers the control
  version keeps the invariant.\<close>

lemma rows_update_inv:
  assumes "hosted_inv s" "\<And>r. P r \<Longrightarrow> hr_work_item_id (f r) = hr_work_item_id r"
    "\<And>r. r \<in> set (hs_rows s) \<Longrightarrow> P r \<Longrightarrow> row_ok (f r) \<and> hr_control_version r \<le> hr_control_version (f r)"
  shows "hosted_inv (s\<lparr>hs_rows := update_where P f (hs_rows s)\<rparr>)"
proof -
  let ?rows = "update_where P f (hs_rows s)"
  have ids: "map hr_work_item_id ?rows = map hr_work_item_id (hs_rows s)"
    by (rule keys_update) (rule assms(2))
  have set_ids: "hr_work_item_id ` set ?rows = hr_work_item_id ` set (hs_rows s)"
    using arg_cong [OF ids, of set] by simp
  have audit: "audit_row_ok ?rows e" if e: "audit_row_ok (hs_rows s) e" for e
  proof -
    from e obtain r where r: "r \<in> set (hs_rows s)" "hr_work_item_id r = wa_work_item e"
      "wa_version e \<le> hr_control_version r" by (auto simp: audit_row_ok_def)
    let ?r = "if P r then f r else r"
    have "?r \<in> set ?rows" by (rule update_where_keeps [OF r(1)])
    moreover have "hr_work_item_id ?r = wa_work_item e" using assms(2) [of r] r(2) by simp
    moreover have "wa_version e \<le> hr_control_version ?r" using assms(3) [OF r(1)] r(3) by auto
    ultimately show ?thesis using e by (auto simp: audit_row_ok_def)
  qed
  have rows: "rows_ok (s\<lparr>hs_rows := ?rows\<rparr>)"
    using assms(1) assms(2, 3) unfolding hosted_inv_def rows_ok_def
    by (auto simp: ids update_where_set)
  have ops: "ops_ok (s\<lparr>hs_rows := ?rows\<rparr>)"
    using assms(1) by (simp add: hosted_inv_def ops_ok_def set_ids)
  have locks: "locks_ok (s\<lparr>hs_rows := ?rows\<rparr>)"
    using assms(1) by (simp add: hosted_inv_def locks_ok_def)
  show ?thesis using assms(1) rows ops locks audit by (simp add: hosted_inv_def)
qed

lemma fence_claimE:
  assumes "fence_claim s c now = Inr s1"
  obtains P where "s1 = s\<lparr>hs_rows := update_where P (\<lambda>r. r\<lparr>hr_updated_at := now\<rparr>) (hs_rows s)\<rparr>"
    "\<exists>r \<in> set (hs_rows s). holds_claim c now r \<and> hr_control r = hr_control c"
proof -
  let ?P = "\<lambda>r. holds_claim c now r \<and> hr_control r = hr_control c"
  from assms have n: "rows_affected ?P (hs_rows s) = 1"
    and s1: "s1 = s\<lparr>hs_rows := update_where ?P (\<lambda>r. r\<lparr>hr_updated_at := now\<rparr>) (hs_rows s)\<rparr>"
    by (auto simp: fence_claim_def Let_def require_one_def and_then_def split: if_splits)
  from n have "filter ?P (hs_rows s) \<noteq> []" by (auto simp: rows_affected_def)
  then have "\<exists>r \<in> set (hs_rows s). ?P r" by (simp add: filter_empty_conv)
  with s1 that show thesis by blast
qed

lemma fence_inv:
  assumes "fence_claim s c now = Inr s1" "hosted_inv s"
  shows "hosted_inv s1"
proof -
  from fence_claimE [OF assms(1)] obtain P where
    "s1 = s\<lparr>hs_rows := update_where P (\<lambda>r. r\<lparr>hr_updated_at := now\<rparr>) (hs_rows s)\<rparr>" by blast
  moreover have "row_ok (r\<lparr>hr_updated_at := now\<rparr>)" if "r \<in> set (hs_rows s)" for r
    using inv_row_ok [OF assms(2) that] by (simp add: row_ok_def)
  ultimately show ?thesis by (simp add: rows_update_inv assms(2))
qed

section \<open>Locks\<close>

lemma locked_keys_set: "k \<in> set (locked_keys s q) \<longleftrightarrow> (k, q) \<in> set (hs_locks s)"
  by (force simp: locked_keys_def image_iff)

lemma sort_Nil [simp]: "sort xs = [] \<longleftrightarrow> xs = []"
  by (metis length_0_conv length_sort)

lemma locked_keys_nil: "locked_keys s q = [] \<longleftrightarrow> (\<forall>l\<in>set (hs_locks s). snd l \<noteq> q)"
  by (simp add: locked_keys_def filter_empty_conv)

lemma drop_locks_simps [simp]:
  "hs_items (drop_locks s q) = hs_items s" "hs_rows (drop_locks s q) = hs_rows s"
  "hs_ops (drop_locks s q) = hs_ops s" "hs_audit (drop_locks s q) = hs_audit s"
  "locked_keys (drop_locks s q) p = (if p = q then [] else locked_keys s p)"
  by (auto simp: drop_locks_def locked_keys_def filter_empty_conv intro!: arg_cong [of _ _ "\<lambda>xs. sort (map fst xs)"] filter_cong)

lemma drop_locks_inv:
  assumes "hosted_inv s"
  shows "hosted_inv (drop_locks s q)"
proof -
  have l: "locks_ok s" using assms by (simp add: hosted_inv_def)
  have "set (hs_locks (drop_locks s q)) \<subseteq> set (hs_locks s)" "distinct (map fst (hs_locks (drop_locks s q)))"
    using l by (auto simp: drop_locks_def locks_ok_def distinct_map_filter)
  then have "locks_ok (drop_locks s q)" using l unfolding locks_ok_def by auto
  then show ?thesis using assms by (simp add: hosted_inv_def rows_ok_def ops_ok_def)
qed

lemma take_locksE:
  assumes "take_locks s q keys = Inr s'"
  obtains "s' = s\<lparr>hs_locks := hs_locks s @ map (\<lambda>k. (k, q)) keys\<rparr>"
    "set keys \<inter> fst ` set (hs_locks s) = {}"
  using assms by (auto simp: take_locks_def list_ex_iff split: if_splits)

lemma take_locks_inv:
  assumes "take_locks s (ho_id x) keys = Inr s'" "hosted_inv s" "x \<in> set (hs_ops s)" "unfinished x"
    "locked_keys s (ho_id x) = []" "sort keys = ho_resource_keys x"
  shows "hosted_inv s'" "locked_keys s' p = (if p = ho_id x then ho_resource_keys x else locked_keys s p)"
proof -
  from take_locksE [OF assms(1)] have s': "s' = s\<lparr>hs_locks := hs_locks s @ map (\<lambda>k. (k, ho_id x)) keys\<rparr>"
    and free: "set keys \<inter> fst ` set (hs_locks s) = {}" by blast+
  have none: "filter (\<lambda>l. snd l = ho_id x) (hs_locks s) = []"
    using assms(5) by (simp add: locked_keys_def)
  have mine: "locked_keys s' p = (if p = ho_id x then ho_resource_keys x else locked_keys s p)" for p
    using none assms(6) by (simp add: s' locked_keys_def filter_map o_def)
  have "distinct (ho_resource_keys x)" using inv_op_ok [OF assms(2, 3)] by (simp add: hosted_op_ok_def)
  then have d: "distinct keys" and k: "set keys = set (ho_resource_keys x)"
    using assms(6) by (metis distinct_sort, metis set_sort)
  have same: "y = x" if "y \<in> set (hs_ops s)" "ho_id y = ho_id x" for y
    using that assms(3) hosted_invD(2) [OF assms(2)] by (auto simp: distinct_map dest: inj_onD)
  have "distinct (map fst (hs_locks s'))"
    using hosted_invD(3) [OF assms(2)] d free by (auto simp: s' o_def)
  moreover have "\<exists>y\<in>set (hs_ops s'). ho_id y = snd l \<and> unfinished y \<and> fst l \<in> set (ho_resource_keys y)"
    if "l \<in> set (hs_locks s')" for l
    using that assms(2-4) k by (auto simp: s' hosted_inv_def locks_ok_def)
  moreover have "locked_keys s' (ho_id y) = [] \<or> locked_keys s' (ho_id y) = ho_resource_keys y"
    if "y \<in> set (hs_ops s')" "unfinished y" for y
  proof -
    have y: "y \<in> set (hs_ops s)" using that(1) by (simp add: s')
    with that(2) assms(2) have "locked_keys s (ho_id y) = [] \<or> locked_keys s (ho_id y) = ho_resource_keys y"
      by (simp add: hosted_inv_def locks_ok_def)
    with same [OF y] show ?thesis by (auto simp: mine)
  qed
  ultimately have "locks_ok s'" by (simp add: locks_ok_def)
  then show "hosted_inv s'" using assms(2) by (simp add: s' hosted_inv_def rows_ok_def ops_ok_def)
  show "locked_keys s' p = (if p = ho_id x then ho_resource_keys x else locked_keys s p)" by (rule mine)
qed

section \<open>Operations\<close>

lemma load_hosted_op_None: "load_hosted_op s q = None \<longleftrightarrow> q \<notin> ho_id ` set (hs_ops s)"
  by (simp add: load_hosted_op_lookup lookup_None)

lemma append_op_inv:
  assumes "hosted_inv s" "load_hosted_op s (ho_id x) = None" "active_workflow_operation s (ho_work_item_id x) = None"
    "dispatch_key x \<notin> dispatch_key ` set (hs_ops s)" "hosted_op_ok x" "unfinished x"
    "ho_work_item_id x \<in> hr_work_item_id ` set (hs_rows s)"
  shows "hosted_inv (s\<lparr>hs_ops := hs_ops s @ [x]\<rparr>)" "locked_keys s (ho_id x) = []"
proof -
  have fresh: "ho_id x \<notin> ho_id ` set (hs_ops s)" using assms(2) by (simp add: load_hosted_op_None)
  have idle: "ho_work_item_id x \<notin> ho_work_item_id ` set (filter unfinished (hs_ops s))"
    using assms(3) by (auto simp: active_workflow_operation_def find_None_iff)
  have "snd l \<noteq> ho_id x" if "l \<in> set (hs_locks s)" for l
  proof -
    from that assms(1) obtain y where "y \<in> set (hs_ops s)" "ho_id y = snd l"
      by (auto simp: hosted_inv_def locks_ok_def)
    with fresh show ?thesis by (metis imageI)
  qed
  then show none: "locked_keys s (ho_id x) = []" by (simp add: locked_keys_nil)
  have "ops_ok (s\<lparr>hs_ops := hs_ops s @ [x]\<rparr>)"
    using assms(1, 4-7) fresh idle by (simp add: hosted_inv_def ops_ok_def)
  moreover have "locks_ok (s\<lparr>hs_ops := hs_ops s @ [x]\<rparr>)"
    using assms(1) none by (auto simp: hosted_inv_def locks_ok_def)
  ultimately show "hosted_inv (s\<lparr>hs_ops := hs_ops s @ [x]\<rparr>)"
    using assms(1) by (simp add: hosted_inv_def rows_ok_def)
qed

text \<open>An unfinished operation takes a new status and references; one that finishes holds no locks.\<close>

lemma record_op_inv:
  assumes "hosted_inv s" "x \<in> set (hs_ops s)" "unfinished x" "is_object refs"
    "status \<in> {''running'', ''blocked'', ''succeeded''}" "status = ''succeeded'' \<longrightarrow> locked_keys s (ho_id x) = []"
  shows "hosted_inv (s\<lparr>hs_ops := update_where (\<lambda>y. ho_id y = ho_id x) (recorded_op status refs reason now) (hs_ops s)\<rparr>)"
    (is "hosted_inv (s\<lparr>hs_ops := ?ops\<rparr>)")
proof -
  let ?f = "recorded_op status refs reason now"
  have f: "ho_id (?f y) = ho_id y" "dispatch_key (?f y) = dispatch_key y"
    "ho_work_item_id (?f y) = ho_work_item_id y" "ho_resource_keys (?f y) = ho_resource_keys y"
    "unfinished (?f y) \<longleftrightarrow> status \<noteq> ''succeeded''" for y
    by (simp_all add: recorded_op_def dispatch_key_def unfinished_def)
  have only: "y = x" if "y \<in> set (hs_ops s)" "ho_id y = ho_id x" for y
    using that assms(2) hosted_invD(2) [OF assms(1)] by (auto simp: distinct_map dest: inj_onD)
  have keys: "map ho_id ?ops = map ho_id (hs_ops s)" "map dispatch_key ?ops = map dispatch_key (hs_ops s)"
    by (simp_all add: keys_update f)
  have un: "unfinished (if ho_id y = ho_id x then ?f y else y) \<longleftrightarrow>
      unfinished y \<and> (ho_id y = ho_id x \<longrightarrow> status \<noteq> ''succeeded'')" if "y \<in> set (hs_ops s)" for y
    using only [OF that] assms(3) f(5) by auto
  have ids: "map ho_work_item_id (filter unfinished ?ops) =
      map ho_work_item_id (filter (\<lambda>y. unfinished y \<and> (ho_id y = ho_id x \<longrightarrow> status \<noteq> ''succeeded'')) (hs_ops s))"
    unfolding update_where_def filter_map map_map o_def
    by (rule map_cong [OF filter_cong [OF refl]]) (use un f in auto)
  have "distinct (map ho_work_item_id (filter unfinished ?ops))"
  proof -
    have "distinct (map ho_work_item_id (filter (\<lambda>y. ho_id y = ho_id x \<longrightarrow> status \<noteq> ''succeeded'') (filter unfinished (hs_ops s))))"
      by (rule distinct_map_filter) (rule hosted_invD(4) [OF assms(1)])
    then show ?thesis unfolding ids filter_filter .
  qed
  moreover have "hosted_op_ok y" if y: "y \<in> set ?ops" for y
  proof -
    from y obtain z where z: "z \<in> set (hs_ops s)" "y = (if ho_id z = ho_id x then ?f z else z)"
      by (auto simp: update_where_set)
    with inv_op_ok [OF assms(1) z(1)] assms(4, 5) show ?thesis by (auto simp: hosted_op_ok_def recorded_op_def)
  qed
  moreover have "ho_work_item_id y \<in> hr_work_item_id ` set (hs_rows s)" if "y \<in> set ?ops" for y
    using that assms(1) f by (auto simp: hosted_inv_def ops_ok_def update_where_set)
  ultimately have "ops_ok (s\<lparr>hs_ops := ?ops\<rparr>)"
    using assms(1) by (simp add: hosted_inv_def ops_ok_def keys)
  moreover have "locks_ok (s\<lparr>hs_ops := ?ops\<rparr>)"
  proof -
    have "\<exists>y\<in>set ?ops. ho_id y = snd l \<and> unfinished y \<and> fst l \<in> set (ho_resource_keys y)"
      if l: "l \<in> set (hs_locks s)" for l
    proof -
      from l assms(1) obtain y where y: "y \<in> set (hs_ops s)" "ho_id y = snd l" "unfinished y"
        "fst l \<in> set (ho_resource_keys y)" by (auto simp: hosted_inv_def locks_ok_def)
      have "status \<noteq> ''succeeded''" if "ho_id y = ho_id x"
        using that l y(2) assms(6) locked_keys_nil [of s "ho_id x"] by auto
      then show ?thesis
        using update_where_keeps [OF y(1), of "\<lambda>y. ho_id y = ho_id x" ?f] un [OF y(1)] y f
        by (intro bexI [of _ "if ho_id y = ho_id x then ?f y else y"]) auto
    qed
    moreover have "locked_keys s (ho_id y) = [] \<or> locked_keys s (ho_id y) = ho_resource_keys y"
      if "y \<in> set ?ops" "unfinished y" for y
    proof -
      from that(1) obtain z where z: "z \<in> set (hs_ops s)" "y = (if ho_id z = ho_id x then ?f z else z)"
        by (auto simp: update_where_set)
      with that(2) un [OF z(1)] have "unfinished z" by simp
      with z assms(1) f show ?thesis by (auto simp: hosted_inv_def locks_ok_def)
    qed
    ultimately show ?thesis using assms(1) by (simp add: hosted_inv_def locks_ok_def)
  qed
  ultimately show ?thesis using assms(1) by (simp add: hosted_inv_def rows_ok_def)
qed

end
