(* ===== verification/HostedSteps.thy ===== *)
theory HostedSteps
  imports HostedSafety
begin

text \<open>
  What each committed call of the hosted store did, that it keeps the invariant, and that rows,
  operations and closures only ever grow.
\<close>

section \<open>Rows\<close>

lemma row_update_load:
  assumes "hosted_inv s" "load_row s w = Some r" "P r" "\<And>r. P r \<Longrightarrow> hr_work_item_id r = w"
    "hr_work_item_id (f r) = w"
  shows "load_row (s\<lparr>hs_rows := update_where P f (hs_rows s)\<rparr>) = (load_row s)(w \<mapsto> f r)"
proof -
  have w: "hr_work_item_id r = w" using assms(2) by (simp add: load_row_iff [OF assms(1)])
  have "lookup hr_work_item_id (update_where P f (hs_rows s)) =
      (lookup hr_work_item_id (hs_rows s))(hr_work_item_id r \<mapsto> f r)"
    by (rule lookup_update) (use assms w hosted_invD(1) [OF assms(1)] in \<open>auto simp: load_row_lookup\<close>)
  then show ?thesis by (simp add: load_row_lookup w)
qed

lemma affected_row:
  assumes "rows_affected P (hs_rows s) = 1" "hosted_inv s" "\<And>r. P r \<Longrightarrow> hr_work_item_id r = w"
  obtains r where "load_row s w = Some r" "P r"
proof -
  from assms(1) obtain r where "r \<in> set (filter P (hs_rows s))"
    by (cases "filter P (hs_rows s)") (auto simp: rows_affected_def)
  then have "r \<in> set (hs_rows s)" "P r" by auto
  with assms(2, 3) show thesis by (intro that [of r]) (simp_all add: load_row_iff)
qed

lemma holds_claimD: "holds_claim c now r \<Longrightarrow> hr_work_item_id r = hr_work_item_id c"
  by (simp add: holds_claim_def)

lemma fence_cases:
  assumes "fence_claim s c now = Inr s1" "hosted_inv s"
  obtains r where "load_row s (hr_work_item_id c) = Some r" "holds_claim c now r" "hr_control r = hr_control c"
    "load_row s1 = (load_row s)(hr_work_item_id c \<mapsto> r\<lparr>hr_updated_at := now\<rparr>)"
    "hs_items s1 = hs_items s" "hs_ops s1 = hs_ops s" "hs_locks s1 = hs_locks s" "hs_audit s1 = hs_audit s"
proof -
  let ?P = "\<lambda>r. holds_claim c now r \<and> hr_control r = hr_control c"
  from assms(1) have n: "rows_affected ?P (hs_rows s) = 1"
    and s1: "s1 = s\<lparr>hs_rows := update_where ?P (\<lambda>r. r\<lparr>hr_updated_at := now\<rparr>) (hs_rows s)\<rparr>"
    by (auto simp: fence_claim_def Let_def require_one_def and_then_def split: if_splits)
  obtain r where r: "load_row s (hr_work_item_id c) = Some r" "?P r"
    by (rule affected_row [OF n assms(2)]) (auto dest: holds_claimD)
  have "load_row s1 = (load_row s)(hr_work_item_id c \<mapsto> r\<lparr>hr_updated_at := now\<rparr>)"
    unfolding s1 by (rule row_update_load [OF assms(2) r(1)]) (use r(2) in \<open>auto dest: holds_claimD\<close>)
  with r s1 that show thesis by simp
qed

text \<open>A claim that the row no longer carries fences every call that presents it.\<close>

lemma lost_claim:
  assumes "hosted_inv s" "\<And>r. load_row s (hr_work_item_id c) = Some r \<Longrightarrow> hr_claim_fence r \<noteq> hr_claim_fence c"
  shows "fence_claim s c now = Inl HeClaimLost" "isl (finish_workflow_reconciliation s c f now)"
proof -
  have none: "\<not> holds_claim c now r" if "r \<in> set (hs_rows s)" for r
    using that assms(2) [of r] by (auto simp: holds_claim_def load_row_iff [OF assms(1)])
  then have "rows_affected (\<lambda>r. holds_claim c now r \<and> hr_control r = hr_control c) (hs_rows s) = 0"
    "rows_affected (holds_claim c now) (hs_rows s) = 0"
    by (simp_all add: rows_affected_def)
  then show "fence_claim s c now = Inl HeClaimLost" "isl (finish_workflow_reconciliation s c f now)"
    by (simp_all add: fence_claim_def finish_workflow_reconciliation_def require_one_def and_then_def Let_def)
qed

section \<open>Claims\<close>

lemma first_due_least:
  "first_due xs = Some x \<Longrightarrow> x \<in> set xs \<and>
     (\<forall>y\<in>set xs. fst x < fst y \<or> fst x = fst y \<and> snd x \<le> snd y)"
proof (induction xs arbitrary: x)
  case (Cons a xs)
  show ?case
  proof (cases "first_due xs")
    case None
    then have "xs = []" by (cases xs) auto
    with Cons.prems show ?thesis by simp
  next
    case (Some y)
    from Cons.IH [OF Some] Cons.prems Some show ?thesis
      by (auto split: if_splits intro: order_trans)
  qed
qed simp

lemma first_due_None: "first_due xs = None \<longleftrightarrow> xs = []"
  by (cases xs) auto

lemma claim_cases:
  assumes "claim_due_workflow s owner now lease = Inr (s1, out)" "hosted_inv s"
  obtains (idle) "s1 = s" "out = None" "due_rows s now = []"
  | (claimed) w r where "load_row s w = Some r" "claimable now r" "eligible s w"
      "out = Some (claimed_row owner now lease r)" "load_row s1 = (load_row s)(w \<mapsto> claimed_row owner now lease r)"
      "s1 = s\<lparr>hs_rows := update_where (\<lambda>r. hr_work_item_id r = w) (claimed_row owner now lease) (hs_rows s)\<rparr>"
      "owner \<noteq> []" "1 \<le> lease" "lease \<le> 60000"
      "\<And>r'. r' \<in> set (hs_rows s) \<Longrightarrow> claimable now r' \<Longrightarrow> eligible s (hr_work_item_id r') \<Longrightarrow>
         hr_next_due_at r < hr_next_due_at r' \<or> hr_next_due_at r = hr_next_due_at r' \<and> w \<le> hr_work_item_id r'"
proof (cases "first_due (due_rows s now)")
  case None
  with assms(1) show thesis by (intro idle) (auto simp: claim_due_workflow_def first_due_None split: if_splits)
next
  case (Some p)
  obtain due w where p: "p = (due, w)" by (cases p)
  let ?s1 = "s\<lparr>hs_rows := update_where (\<lambda>r. hr_work_item_id r = w) (claimed_row owner now lease) (hs_rows s)\<rparr>"
  from Some assms(1) have s1: "s1 = ?s1" "out = load_row ?s1 w" "owner \<noteq> []" "1 \<le> lease" "lease \<le> 60000"
    by (auto simp: claim_due_workflow_def p Let_def split: if_splits)
  note least = first_due_least [OF Some]
  from least obtain r where r: "r \<in> set (hs_rows s)" "hr_work_item_id r = w" "hr_next_due_at r = due"
    "claimable now r" "eligible s w" by (auto simp: due_rows_def p)
  have load: "load_row s w = Some r" using r by (simp add: load_row_iff [OF assms(2)])
  have up: "load_row ?s1 = (load_row s)(w \<mapsto> claimed_row owner now lease r)"
    by (rule row_update_load [OF assms(2) load]) (use r in \<open>simp_all add: claimed_row_def\<close>)
  show thesis
  proof (rule claimed [OF load r(4, 5) _ _ _ s1(3-5)])
    show "out = Some (claimed_row owner now lease r)" using s1(2) up by simp
    show "load_row s1 = (load_row s)(w \<mapsto> claimed_row owner now lease r)" using s1(1) up by simp
    show "s1 = ?s1" by (rule s1(1))
    fix r'
    assume "r' \<in> set (hs_rows s)" "claimable now r'" "eligible s (hr_work_item_id r')"
    then have "(hr_next_due_at r', hr_work_item_id r') \<in> set (due_rows s now)" by (auto simp: due_rows_def)
    with least r(3) p show "hr_next_due_at r < hr_next_due_at r' \<or> hr_next_due_at r = hr_next_due_at r' \<and> w \<le> hr_work_item_id r'"
      by auto
  qed
qed

lemma claim_inv:
  "claim_due_workflow s owner now lease = Inr (s1, out) \<Longrightarrow> hosted_inv s \<Longrightarrow> hosted_inv s1"
proof (erule claim_cases, assumption)
  fix w
  assume s: "hosted_inv s"
    and s1: "s1 = s\<lparr>hs_rows := update_where (\<lambda>r. hr_work_item_id r = w) (claimed_row owner now lease) (hs_rows s)\<rparr>"
  show "hosted_inv s1" unfolding s1
    by (rule rows_update_inv [OF s]) (use inv_row_ok [OF s] in \<open>auto simp: claimed_row_def row_ok_def\<close>)
qed simp

lemma wake_inv: "hosted_inv s \<Longrightarrow> hosted_inv (wake_workflow s w now)"
  unfolding wake_workflow_def
  by (rule rows_update_inv) (auto simp: row_ok_def dest: inv_row_ok)

lemma finish_cases:
  assumes "finish_workflow_reconciliation s c f now = Inr s1" "hosted_inv s"
  obtains r where "load_row s (hr_work_item_id c) = Some r" "holds_claim c now r"
    "now < hf_next_due_at f" "load_row s1 = (load_row s)(hr_work_item_id c \<mapsto> finished_row f now r)"
    "s1 = s\<lparr>hs_rows := update_where (holds_claim c now) (finished_row f now) (hs_rows s)\<rparr>"
proof -
  from assms(1) have n: "rows_affected (holds_claim c now) (hs_rows s) = 1" "now < hf_next_due_at f"
    and s1: "s1 = s\<lparr>hs_rows := update_where (holds_claim c now) (finished_row f now) (hs_rows s)\<rparr>"
    by (auto simp: finish_workflow_reconciliation_def require_one_def and_then_def split: if_splits)
  obtain r where r: "load_row s (hr_work_item_id c) = Some r" "holds_claim c now r"
    by (rule affected_row [OF n(1) assms(2)]) (auto dest: holds_claimD)
  have "load_row s1 = (load_row s)(hr_work_item_id c \<mapsto> finished_row f now r)" unfolding s1
    by (rule row_update_load [where P = "holds_claim c now", OF assms(2) r(1, 2)]) (use r(2) in \<open>auto simp: finished_row_def dest: holds_claimD\<close>)
  with r n(2) s1 that show thesis by blast
qed

lemma finish_inv:
  assumes "finish_workflow_reconciliation s c f now = Inr s1" "hosted_inv s"
  shows "hosted_inv s1"
  by (rule finish_cases [OF assms], simp, rule rows_update_inv [OF assms(2)])
    (use inv_row_ok [OF assms(2)] in \<open>auto simp: finished_row_def row_ok_def\<close>)

section \<open>Control\<close>

lemma controlled_row_simps [simp]:
  "hr_work_item_id (controlled_row control reason now r) = hr_work_item_id r"
  "hr_control_version (controlled_row control reason now r) = hr_control_version r + 1"
  "hr_claim_fence (controlled_row control reason now r) = hr_claim_fence r + 1"
  "hr_control (controlled_row control reason now r) = control"
  by (simp_all add: controlled_row_def)

lemma row_ok_controlled:
  "row_ok r \<Longrightarrow> control \<in> {''active'', ''paused'', ''cancelled''} \<Longrightarrow> row_ok (controlled_row control reason now r)"
  by (auto simp: row_ok_def controlled_row_def)

lemma control_cases:
  assumes "set_workflow_control s w expected control actor reason now = Inr (s1, r1)" "hosted_inv s"
  obtains r where "load_row s w = Some r" "hr_control_version r = expected" "hr_control r \<noteq> ''cancelled''"
    "is_open s w" "control \<in> {''active'', ''paused'', ''cancelled''}" "r1 = controlled_row control reason now r"
    "load_row s1 = (load_row s)(w \<mapsto> r1)"
    "s1 = s\<lparr>hs_rows := update_where (\<lambda>r. hr_work_item_id r = w \<and> hr_control_version r = expected \<and>
          hr_control r \<noteq> ''cancelled'' \<and> is_open s w) (controlled_row control reason now) (hs_rows s),
        hs_audit := hs_audit s @
          [\<lparr>wa_id = control_event_id w (hr_control_version r1), wa_actor = actor, wa_work_item = w, wa_control = control,
            wa_reason = reason, wa_version = hr_control_version r1, wa_at = now\<rparr>]\<rparr>"
proof -
  let ?P = "\<lambda>r. hr_work_item_id r = w \<and> hr_control_version r = expected \<and> hr_control r \<noteq> ''cancelled'' \<and> is_open s w"
  from assms(1) obtain r where f: "find ?P (hs_rows s) = Some r"
    and c: "control \<in> {''active'', ''paused'', ''cancelled''}" and r1: "r1 = controlled_row control reason now r"
    and s1: "s1 = s\<lparr>hs_rows := update_where ?P (controlled_row control reason now) (hs_rows s),
        hs_audit := hs_audit s @
          [\<lparr>wa_id = control_event_id w (hr_control_version r1), wa_actor = actor, wa_work_item = w, wa_control = control,
            wa_reason = reason, wa_version = hr_control_version r1, wa_at = now\<rparr>]\<rparr>"
    by (cases "find ?P (hs_rows s)") (auto simp: set_workflow_control_def Let_def split: if_splits)
  from find_SomeD [OF f] have r: "load_row s w = Some r" "?P r" by (simp_all add: load_row_iff [OF assms(2)])
  have "load_row (s\<lparr>hs_rows := update_where ?P (controlled_row control reason now) (hs_rows s)\<rparr>) =
      (load_row s)(w \<mapsto> controlled_row control reason now r)"
    by (rule row_update_load [where P = ?P, OF assms(2) r]) (use r in \<open>simp_all add: controlled_row_def\<close>)
  then have "load_row s1 = (load_row s)(w \<mapsto> r1)" by (simp add: s1 r1 load_row_def fun_eq_iff)
  with r c r1 s1 that show thesis by blast
qed

lemma control_inv:
  assumes "set_workflow_control s w expected control actor reason now = Inr (s1, r1)" "hosted_inv s"
  shows "hosted_inv s1"
proof -
  obtain r where r: "load_row s w = Some r" "hr_control_version r = expected"
    "hr_control r \<noteq> ''cancelled''" "is_open s w" "control \<in> {''active'', ''paused'', ''cancelled''}"
    "r1 = controlled_row control reason now r" "load_row s1 = (load_row s)(w \<mapsto> r1)"
    and s1: "s1 = s\<lparr>hs_rows := update_where (\<lambda>r. hr_work_item_id r = w \<and> hr_control_version r = expected \<and>
          hr_control r \<noteq> ''cancelled'' \<and> is_open s w) (controlled_row control reason now) (hs_rows s),
        hs_audit := hs_audit s @
          [\<lparr>wa_id = control_event_id w (hr_control_version r1), wa_actor = actor, wa_work_item = w, wa_control = control,
            wa_reason = reason, wa_version = hr_control_version r1, wa_at = now\<rparr>]\<rparr>" (is "s1 = ?s\<lparr>hs_audit := _\<rparr>")
    by (rule control_cases [OF assms])
  have s: "hosted_inv ?s"
    by (rule rows_update_inv [OF assms(2)])
      (simp_all add: row_ok_controlled [OF inv_row_ok [OF assms(2)] r(5)])
  have "row_ok r" using r(1) inv_row_ok [OF assms(2)] by (simp add: load_row_iff [OF assms(2)])
  then have v: "1 \<le> hr_control_version r1" by (simp add: r(6) controlled_row_def row_ok_def)
  have "load_row ?s = load_row s1" by (simp add: s1 load_row_def fun_eq_iff)
  then have "load_row ?s w = Some r1" using r(7) by simp
  then have "r1 \<in> set (hs_rows ?s)" "hr_work_item_id r1 = w" using load_row_iff [OF s] by blast+
  with s v show ?thesis by (auto simp: s1 hosted_inv_def rows_ok_def ops_ok_def locks_ok_def audit_row_ok_def)
qed

text \<open>The identifier of a control event is new: it ends in the row's next control version.\<close>

lemma control_event_id_inj:
  assumes "control_event_id w v = control_event_id w' v'" "0 \<le> v" "0 \<le> v'"
  shows "w = w' \<and> v = v'"
proof -
  have "CHR ''_'' \<notin> set (show_int i)" for i
    using show_int_digits [of "CHR ''_''" i] by (auto simp: is_ascii_digit_def byte_def)
  then have "w = w' \<and> show_int v = show_int v'"
    using no_slash_tail_eq [of "CHR ''_''" "show_int v" "show_int v'" w w'] assms(1) by (simp add: control_event_id_def)
  then show ?thesis by (auto dest: show_int_inj)
qed

lemma control_never_refused:
  assumes "hosted_inv s" "load_row s w = Some r" "hr_control_version r = expected" "hr_control r \<noteq> ''cancelled''"
    "is_open s w" "control \<in> {''active'', ''paused'', ''cancelled''}" "\<not> is_blank actor" "\<not> is_blank reason"
  shows "\<exists>s1. set_workflow_control s w expected control actor reason now = Inr (s1, controlled_row control reason now r)"
proof -
  let ?P = "\<lambda>r. hr_work_item_id r = w \<and> hr_control_version r = expected \<and> hr_control r \<noteq> ''cancelled'' \<and> is_open s w"
  have r: "r \<in> set (hs_rows s)" "hr_work_item_id r = w" using assms(2) by (simp_all add: load_row_iff [OF assms(1)])
  obtain r' where f: "find ?P (hs_rows s) = Some r'"
    using r assms(3-5) by (cases "find ?P (hs_rows s)") (auto dest: find_NoneD)
  from find_SomeD [OF f] have "load_row s w = Some r'" by (simp add: load_row_iff [OF assms(1)])
  with assms(2) f have f: "find ?P (hs_rows s) = Some r" by simp
  have "wa_id e \<noteq> control_event_id w (hr_control_version r + 1)" if e: "e \<in> set (hs_audit s)" for e
  proof
    assume eq: "wa_id e = control_event_id w (hr_control_version r + 1)"
    from e assms(1) have a: "audit_row_ok (hs_rows s) e" by (simp add: hosted_inv_def)
    have "1 \<le> hr_control_version r" using inv_row_ok [OF assms(1) r(1)] by (simp add: row_ok_def)
    with a eq have "wa_work_item e = w" "wa_version e = hr_control_version r + 1"
      using control_event_id_inj [of "wa_work_item e" "wa_version e" w "hr_control_version r + 1"]
      by (auto simp: audit_row_ok_def)
    with a obtain r' where "r' \<in> set (hs_rows s)" "hr_work_item_id r' = w" "hr_control_version r < hr_control_version r'"
      by (auto simp: audit_row_ok_def)
    then have "load_row s w = Some r'" by (simp add: load_row_iff [OF assms(1)])
    with assms(2) \<open>hr_control_version r < hr_control_version r'\<close> show False by simp
  qed
  then have "\<not> list_ex (\<lambda>e. wa_id e = control_event_id w (hr_control_version (controlled_row control reason now r))) (hs_audit s)"
    by (auto simp: list_ex_iff controlled_row_def)
  then show ?thesis using assms(6-8) f by (simp add: set_workflow_control_def Let_def)
qed

section \<open>Operations\<close>

lemma begin_cases:
  assumes "begin_workflow_operation s c q now = Inr (s2, x)" "hosted_inv s"
  obtains (known) s1 where "fence_claim s c now = Inr s1" "s2 = s1" "load_hosted_op s (ho_id x) = Some x"
      "unfinished x \<longrightarrow> locked_keys s (ho_id x) = ho_resource_keys x" "hb_effect q = ''development'' \<longrightarrow> hr_control c = ''active''"
      "ho_effect x = hb_effect q" "ho_work_item_id x = hr_work_item_id c" "ho_resource_keys x = requested_keys q"
  | (relocked) s1 where "fence_claim s c now = Inr s1" "load_hosted_op s (ho_id x) = Some x" "ho_status x = ''pending''"
      "locked_keys s (ho_id x) = []" "take_locks s1 (ho_id x) (requested_keys q) = Inr s2"
      "hb_effect q = ''development'' \<longrightarrow> hr_control c = ''active''"
      "ho_effect x = hb_effect q" "ho_work_item_id x = hr_work_item_id c" "ho_resource_keys x = requested_keys q"
  | (fresh) s1 where "fence_claim s c now = Inr s1" "x = new_hosted_operation (hr_work_item_id c) q now"
      "begin_request_ok q" "[] \<notin> set (requested_keys q)" "distinct (requested_keys q)"
      "hb_effect q = ''development'' \<longrightarrow> hr_control c = ''active''"
      "find_operation s (hr_work_item_id c) (hb_action q) (hb_input_hash q) = None"
      "load_hosted_op s (hb_id q) = None" "active_workflow_operation s (hr_work_item_id c) = None"
      "take_locks (s1\<lparr>hs_ops := hs_ops s @ [x]\<rparr>) (hb_id q) (hb_resource_keys q) = Inr s2"
proof -
  from assms(1) obtain s1 where f: "fence_claim s c now = Inr s1" and ok: "begin_request_ok q"
    "[] \<notin> set (requested_keys q)" "distinct (requested_keys q)"
    and dev: "hb_effect q = ''development'' \<longrightarrow> hr_control c = ''active''"
    and rest: "(case find_operation s1 (hr_work_item_id c) (hb_action q) (hb_input_hash q) of
            Some y \<Rightarrow> resume_operation s1 q y
          | None \<Rightarrow> insert_operation s1 (hr_work_item_id c) q now) = Inr (s2, x)"
    by (cases "fence_claim s c now") (auto simp: begin_workflow_operation_def split: if_splits)
  from fence_cases [OF f assms(2)] have same: "hs_ops s1 = hs_ops s" "hs_locks s1 = hs_locks s" by metis+
  then have q: "find_operation s1 = find_operation s" "load_hosted_op s1 = load_hosted_op s"
    "active_workflow_operation s1 = active_workflow_operation s" "locked_keys s1 = locked_keys s"
    by (simp_all add: fun_eq_iff find_operation_def load_hosted_op_def active_workflow_operation_def locked_keys_def)
  show thesis
  proof (cases "find_operation s (hr_work_item_id c) (hb_action q) (hb_input_hash q)")
    case None
    let ?x = "new_hosted_operation (hr_work_item_id c) q now"
    from None rest q same have i: "load_hosted_op s (hb_id q) = None" "active_workflow_operation s (hr_work_item_id c) = None"
      "take_locks (s1\<lparr>hs_ops := hs_ops s @ [?x]\<rparr>) (hb_id q) (hb_resource_keys q) = Inr s2" "x = ?x"
      by (cases "take_locks (s1\<lparr>hs_ops := hs_ops s @ [?x]\<rparr>) (hb_id q) (hb_resource_keys q)";
          auto simp: insert_operation_def Let_def split: if_splits)+
    show thesis by (rule fresh [OF f i(4) ok dev None i(1, 2)]) (use i(3, 4) in simp)
  next
    case (Some y)
    then have y: "y \<in> set (hs_ops s)" "ho_work_item_id y = hr_work_item_id c"
      by (auto simp: find_operation_def dest!: find_SomeD)
    from rest Some q have r: "resume_operation s1 q y = Inr (s2, x)" by simp
    then have id: "ho_id y = hb_id q" "ho_effect y = hb_effect q" "ho_resource_keys y = requested_keys q"
      by (auto simp: resume_operation_def split: if_splits)
    have load: "load_hosted_op s (ho_id y) = Some y" using y by (simp add: load_hosted_op_iff [OF assms(2)])
    show thesis
    proof (cases "unfinished y \<and> locked_keys s (hb_id q) = [] \<and> ho_status y = ''pending''")
      case True
      then obtain "take_locks s1 (hb_id q) (requested_keys q) = Inr s2" "x = y"
        using r id q by (cases "take_locks s1 (hb_id q) (requested_keys q)") (auto simp: resume_operation_def)
      then show thesis using True id load y by (intro relocked [OF f _ _ _ _ dev]) auto
    next
      case False
      with r id q have "s2 = s1" "x = y" "unfinished y \<longrightarrow> locked_keys s (hb_id q) = requested_keys q"
        by (auto simp: resume_operation_def Let_def split: if_splits)
      then show thesis using id load y by (intro known [OF f _ _ _ dev]) auto
    qed
  qed
qed

lemma begin_inv:
  assumes "begin_workflow_operation s c q now = Inr (s2, x)" "hosted_inv s"
  shows "hosted_inv s2"
  using assms
proof (cases rule: begin_cases)
  case (known s1)
  then show ?thesis using fence_inv [OF known(1) assms(2)] by simp
next
  case (relocked s1)
  have i: "hosted_inv s1" by (rule fence_inv [OF relocked(1) assms(2)])
  from fence_cases [OF relocked(1) assms(2)] have same: "hs_ops s1 = hs_ops s" "hs_locks s1 = hs_locks s" by metis+
  have x: "x \<in> set (hs_ops s1)" using relocked(2) same by (simp add: load_hosted_op_iff [OF assms(2)])
  show ?thesis
    by (rule take_locks_inv(1) [OF relocked(5) i x])
      (use relocked same in \<open>simp_all add: unfinished_def locked_keys_def requested_keys_def sorted_sort_id\<close>)
next
  case (fresh s1)
  have i: "hosted_inv s1" by (rule fence_inv [OF fresh(1) assms(2)])
  obtain r where r: "load_row s1 (hr_work_item_id c) = Some r" and
    same: "hs_ops s1 = hs_ops s" "hs_locks s1 = hs_locks s" "hs_items s1 = hs_items s"
    by (rule fence_cases [OF fresh(1) assms(2)]) simp
  let ?s = "s1\<lparr>hs_ops := hs_ops s1 @ [x]\<rparr>"
  have new: "ho_id x = hb_id q" "ho_work_item_id x = hr_work_item_id c" "unfinished x" "hosted_op_ok x"
    "dispatch_key x = (hr_work_item_id c, hb_action q, hb_input_hash q)" "ho_resource_keys x = sort (hb_resource_keys q)"
    using fresh(3-5) by (auto simp: fresh(2) new_hosted_operation_def unfinished_def hosted_op_ok_def dispatch_key_def
        begin_request_ok_def requested_keys_def)
  have key: "dispatch_key x \<notin> dispatch_key ` set (hs_ops s1)"
    using fresh(7) unfolding new(5) by (auto simp: find_operation_def find_None_iff dispatch_key_def same)
  have row: "ho_work_item_id x \<in> hr_work_item_id ` set (hs_rows s1)"
    using r new(2) load_row_iff [OF i] by (metis imageI)
  have load: "load_hosted_op s1 (ho_id x) = None" "active_workflow_operation s1 (ho_work_item_id x) = None"
    using fresh(8, 9) by (simp_all add: load_hosted_op_def active_workflow_operation_def same new)
  note a = append_op_inv [OF i load key new(4, 3) row]
  show ?thesis
    by (rule take_locks_inv(1) [of ?s x "hb_resource_keys q"]) (use a new fresh(10) same in simp_all)
qed

lemma release_cases:
  assumes "release_pending_workflow_locks s c q now = Inr s2" "hosted_inv s"
  obtains s1 x where "fence_claim s c now = Inr s1" "load_hosted_op s q = Some x" "ho_work_item_id x = hr_work_item_id c"
    "ho_status x = ''pending''" "ho_resource_refs x = empty_object" "s2 = drop_locks s1 q"
proof -
  let ?P = "\<lambda>x. ho_id x = q \<and> ho_work_item_id x = hr_work_item_id c \<and> ho_status x = ''pending'' \<and>
    ho_resource_refs x = empty_object"
  from assms(1) obtain s1 where f: "fence_claim s c now = Inr s1" and n: "rows_affected ?P (hs_ops s1) = 1"
    and s2: "s2 = drop_locks s1 q"
    by (cases "fence_claim s c now")
      (auto simp: release_pending_workflow_locks_def and_then_def require_one_def split: if_splits)
  from fence_cases [OF f assms(2)] have same: "hs_ops s1 = hs_ops s" by metis
  from n obtain x where "x \<in> set (filter ?P (hs_ops s1))"
    by (cases "filter ?P (hs_ops s1)") (auto simp: rows_affected_def)
  then have "load_hosted_op s q = Some x" "?P x" using same by (simp_all add: load_hosted_op_iff [OF assms(2)])
  with f s2 that show thesis by blast
qed

lemma release_inv:
  "release_pending_workflow_locks s c q now = Inr s2 \<Longrightarrow> hosted_inv s \<Longrightarrow> hosted_inv s2"
  by (erule release_cases, assumption) (simp add: drop_locks_inv fence_inv)

lemma record_cases:
  assumes "record_workflow_operation s c q status refs reason now = Inr (s2, y)" "hosted_inv s"
  obtains s1 x where "fence_claim s c now = Inr s1" "load_hosted_op s q = Some x" "ho_work_item_id x = hr_work_item_id c"
      "\<not> unfinished x" "s2 = s1" "y = x"
  | s1 x where "fence_claim s c now = Inr s1" "load_hosted_op s q = Some x" "ho_work_item_id x = hr_work_item_id c"
      "unfinished x" "refs_kept (ho_resource_refs x) refs" "is_object refs"
      "status \<in> {''running'', ''blocked'', ''succeeded''}" "y = recorded_op status refs reason now x"
      "s2 = (let s' = (if status = ''succeeded'' then drop_locks s1 q else s1) in
         s'\<lparr>hs_ops := update_where (\<lambda>x. ho_id x = q) (recorded_op status refs reason now) (hs_ops s')\<rparr>)"
proof -
  from assms(1) obtain s1 where f: "fence_claim s c now = Inr s1" and ok: "is_object refs"
    "status \<in> {''running'', ''blocked'', ''succeeded''}"
    by (cases "fence_claim s c now") (auto simp: record_workflow_operation_def split: if_splits)
  from fence_cases [OF f assms(2)] have same: "hs_ops s1 = hs_ops s" by metis
  let ?P = "\<lambda>x. ho_id x = q \<and> ho_work_item_id x = hr_work_item_id c"
  from assms(1) f ok obtain x where fx: "find ?P (hs_ops s1) = Some x"
    by (cases "find ?P (hs_ops s1)") (auto simp: record_workflow_operation_def)
  then have x: "load_hosted_op s q = Some x" "ho_work_item_id x = hr_work_item_id c"
    using same by (auto simp: load_hosted_op_iff [OF assms(2)] dest: find_SomeD)
  have k: "refs_kept (ho_resource_refs x) refs"
    using assms(1) f ok fx by (auto simp: record_workflow_operation_def split: if_splits)
  show thesis
  proof (cases "unfinished x")
    case False
    with assms(1) f ok fx k have "s2 = s1" "y = x"
      by (auto simp: record_workflow_operation_def split: if_splits)
    with False f x that(1) show thesis by blast
  next
    case True
    with assms(1) f ok fx k have "y = recorded_op status refs reason now x"
      "s2 = (let s' = (if status = ''succeeded'' then drop_locks s1 q else s1) in
         s'\<lparr>hs_ops := update_where (\<lambda>x. ho_id x = q) (recorded_op status refs reason now) (hs_ops s')\<rparr>)"
      by (auto simp: record_workflow_operation_def Let_def drop_locks_def)
    with True f x k ok that(2) show thesis by blast
  qed
qed

lemma record_inv:
  assumes "record_workflow_operation s c q status refs reason now = Inr (s2, y)" "hosted_inv s"
  shows "hosted_inv s2"
proof (rule record_cases [OF assms])
  fix s1 x
  assume f: "fence_claim s c now = Inr s1" and x: "load_hosted_op s q = Some x" and u: "unfinished x"
    and ok: "is_object refs" "status \<in> {''running'', ''blocked'', ''succeeded''}"
    and s2: "s2 = (let s' = (if status = ''succeeded'' then drop_locks s1 q else s1) in
         s'\<lparr>hs_ops := update_where (\<lambda>x. ho_id x = q) (recorded_op status refs reason now) (hs_ops s')\<rparr>)"
  from fence_cases [OF f assms(2)] have same: "hs_ops s1 = hs_ops s" by metis
  let ?s = "if status = ''succeeded'' then drop_locks s1 q else s1"
  have i: "hosted_inv ?s" using fence_inv [OF f assms(2)] by (simp add: drop_locks_inv)
  have "x \<in> set (hs_ops ?s)" "ho_id x = q" using x same by (simp_all add: load_hosted_op_iff [OF assms(2)])
  from record_op_inv [OF i this(1) u ok] this(2) show ?thesis unfolding s2 Let_def by simp
qed (simp add: fence_inv [OF _ assms(2)])

section \<open>Enrolment\<close>

lemma enroll_inv:
  assumes "enroll_hosted_workflow s w hosted created = Inr s1" "hosted_inv s"
  shows "hosted_inv s1"
proof -
  from assms(1) have w: "w \<notin> wi_id ` set (hs_items s)"
    by (auto simp: enroll_hosted_workflow_def split: if_splits)
  then have r: "w \<notin> hr_work_item_id ` set (hs_rows s)"
    using assms(2) by (auto simp: hosted_inv_def rows_ok_def)
  have s1: "s1 = s\<lparr>hs_items := hs_items s @ [\<lparr>wi_id = w, wi_closed_at = None\<rparr>],
      hs_rows := hs_rows s @ (if hosted then [enrolled_row w created] else [])\<rparr>"
    using assms(1) w by (auto simp: enroll_hosted_workflow_def Let_def)
  have e: "row_ok (enrolled_row w created)" "hr_work_item_id (enrolled_row w created) = w"
    by (simp_all add: row_ok_def enrolled_row_def)
  show ?thesis unfolding s1 using assms(2) w r e
    by (auto simp: hosted_inv_def rows_ok_def ops_ok_def locks_ok_def audit_row_ok_def image_Un)
qed

lemma close_cases:
  assumes "close_work_item s w now = Inr s1"
  shows "s1 = s\<lparr>hs_items := update_where (open_item w) (\<lambda>i. i\<lparr>wi_closed_at := Some now\<rparr>) (hs_items s)\<rparr>"
  using assms by (simp add: close_work_item_def split: if_splits)

lemma close_inv:
  assumes "close_work_item s w now = Inr s1" "hosted_inv s"
  shows "hosted_inv s1"
proof -
  have k: "map wi_id (update_where (open_item w) (\<lambda>i. i\<lparr>wi_closed_at := Some now\<rparr>) (hs_items s)) = map wi_id (hs_items s)"
    by (rule keys_update) simp
  have "wi_id ` set (update_where (open_item w) (\<lambda>i. i\<lparr>wi_closed_at := Some now\<rparr>) (hs_items s)) = wi_id ` set (hs_items s)"
    using arg_cong [OF k, of set] by simp
  with assms(2) k show ?thesis
    unfolding close_cases [OF assms(1)] by (simp add: hosted_inv_def rows_ok_def ops_ok_def locks_ok_def)
qed

section \<open>Every call\<close>

theorem hosted_apply_inv: "hosted_inv s \<Longrightarrow> hosted_inv (hosted_apply s c)"
proof (cases c)
  case (HcEnroll w hosted created)
  assume "hosted_inv s"
  with HcEnroll show ?thesis by (auto simp: kept_def intro: enroll_inv split: sum.split)
next
  case (HcClose w now)
  assume "hosted_inv s"
  with HcClose show ?thesis by (auto simp: kept_def intro: close_inv split: sum.split)
next
  case (HcClaim owner now lease)
  assume "hosted_inv s"
  with HcClaim show ?thesis by (auto simp: kept_fst_def intro: claim_inv split: sum.split)
next
  case (HcWake w now)
  assume "hosted_inv s"
  with HcWake show ?thesis by (simp add: wake_inv)
next
  case (HcFinish c f now)
  assume "hosted_inv s"
  with HcFinish show ?thesis by (auto simp: kept_def intro: finish_inv split: sum.split)
next
  case (HcControl w expected control actor reason now)
  assume "hosted_inv s"
  with HcControl show ?thesis by (auto simp: kept_fst_def intro: control_inv split: sum.split)
next
  case (HcBegin c q now)
  assume "hosted_inv s"
  with HcBegin show ?thesis by (auto simp: kept_fst_def intro: begin_inv split: sum.split)
next
  case (HcRelease c q now)
  assume "hosted_inv s"
  with HcRelease show ?thesis by (auto simp: kept_def intro: release_inv split: sum.split)
next
  case (HcRecord c q status refs reason now)
  assume "hosted_inv s"
  with HcRecord show ?thesis by (auto simp: kept_fst_def intro: record_inv split: sum.split)
qed

lemma hosted_steps_inv: "hosted_steps A s s' \<Longrightarrow> hosted_inv s \<Longrightarrow> hosted_inv s'"
  by (induction rule: hosted_steps.induct) (auto dest: hosted_apply_inv)

lemma hosted_reachable_inv: "hosted_reachable A s \<Longrightarrow> hosted_inv s"
  unfolding hosted_reachable_def using hosted_steps_inv empty_hosted_inv by blast

end
