(* ===== verification/HostedGrowth.thy ===== *)
theory HostedGrowth
  imports HostedSteps
begin

text \<open>
  What never goes back in the hosted store: fences and control versions only rise, a cancelled row
  stays cancelled, an operation keeps its identity and the references it recorded, a finished one
  never changes; and, while callers dispatch under locks, a dispatched operation holds its keys.
\<close>

section \<open>Growth\<close>

definition row_step :: "reconciliation \<Rightarrow> reconciliation \<Rightarrow> bool" where
  "row_step r r' \<longleftrightarrow>
     hr_claim_fence r \<le> hr_claim_fence r' \<and> hr_control_version r \<le> hr_control_version r' \<and>
     (hr_control_version r' = hr_control_version r \<longrightarrow> hr_control r' = hr_control r) \<and>
     (hr_control r = ''cancelled'' \<longrightarrow> hr_control_version r' = hr_control_version r)"

definition dispatch_identity :: "hosted_operation \<Rightarrow> string \<times> string \<times> string \<times> string \<times> string \<times> string list \<times> int" where
  "dispatch_identity x = (ho_id x, ho_work_item_id x, ho_action x, ho_input_hash x, ho_effect x, ho_resource_keys x,
     ho_created_at x)"

definition op_step :: "hosted_operation \<Rightarrow> hosted_operation \<Rightarrow> bool" where
  "op_step x x' \<longleftrightarrow>
     dispatch_identity x' = dispatch_identity x \<and>
     (\<forall>k v. json_get (ho_resource_refs x) k = Some v \<longrightarrow> json_get (ho_resource_refs x') k = Some v) \<and>
     (\<not> unfinished x \<longrightarrow> x' = x) \<and> (ho_status x \<noteq> ''pending'' \<longrightarrow> ho_status x' \<noteq> ''pending'')"

definition hosted_grows :: "hosted_store \<Rightarrow> hosted_store \<Rightarrow> bool" where
  "hosted_grows s s' \<longleftrightarrow>
     (\<forall>w r. load_row s w = Some r \<longrightarrow> (\<exists>r'. load_row s' w = Some r' \<and> row_step r r')) \<and>
     (\<forall>q x. load_hosted_op s q = Some x \<longrightarrow> (\<exists>x'. load_hosted_op s' q = Some x' \<and> op_step x x'))"

lemma row_step_refl [simp]: "row_step r r"
  by (simp add: row_step_def)

lemma row_step_trans: "row_step a b \<Longrightarrow> row_step b c \<Longrightarrow> row_step a c"
  by (auto simp: row_step_def)

lemma op_step_refl [simp]: "op_step x x"
  by (simp add: op_step_def)

lemma op_step_trans: "op_step a b \<Longrightarrow> op_step b c \<Longrightarrow> op_step a c"
  by (auto simp: op_step_def)

lemma hosted_grows_refl [simp]: "hosted_grows s s"
  by (simp add: hosted_grows_def)

lemma hosted_grows_trans:
  assumes "hosted_grows a b" "hosted_grows b c"
  shows "hosted_grows a c"
  using assms row_step_trans op_step_trans unfolding hosted_grows_def by meson

lemma hosted_growsD:
  assumes "hosted_grows s s'"
  shows "load_row s w = Some r \<Longrightarrow> load_row s' w = Some r' \<Longrightarrow> row_step r r'"
    "load_row s w = Some r \<Longrightarrow> \<exists>r'. load_row s' w = Some r' \<and> row_step r r'"
    "load_hosted_op s q = Some x \<Longrightarrow> \<exists>x'. load_hosted_op s' q = Some x' \<and> op_step x x'"
  using assms by (fastforce simp: hosted_grows_def)+

lemma grows_row:
  assumes "load_row s' = (load_row s)(w \<mapsto> r')" "hs_ops s' = hs_ops s" "load_row s w = Some r" "row_step r r'"
  shows "hosted_grows s s'"
  using assms by (auto simp: hosted_grows_def load_hosted_op_def)

lemma grows_ops:
  assumes "load_row s' = load_row s" "\<And>q x. load_hosted_op s q = Some x \<Longrightarrow> \<exists>x'. load_hosted_op s' q = Some x' \<and> op_step x x'"
  shows "hosted_grows s s'"
  using assms by (auto simp: hosted_grows_def)

lemma same_rows_load: "hs_rows s' = hs_rows s \<Longrightarrow> load_row s' = load_row s"
  by (simp add: load_row_def fun_eq_iff)

lemma same_ops_load: "hs_ops s' = hs_ops s \<Longrightarrow> load_hosted_op s' = load_hosted_op s"
  by (simp add: load_hosted_op_def fun_eq_iff)

lemma fence_same:
  assumes "fence_claim s c now = Inr s1" "hosted_inv s"
  shows "hs_ops s1 = hs_ops s" "hs_locks s1 = hs_locks s" "load_hosted_op s1 = load_hosted_op s"
    "locked_keys s1 = locked_keys s"
proof -
  show ops: "hs_ops s1 = hs_ops s" and locks: "hs_locks s1 = hs_locks s" by (rule fence_cases [OF assms], simp)+
  show "load_hosted_op s1 = load_hosted_op s" by (rule same_ops_load [OF ops])
  show "locked_keys s1 = locked_keys s" by (simp add: locked_keys_def fun_eq_iff locks)
qed

lemma fence_grows:
  assumes "fence_claim s c now = Inr s1" "hosted_inv s"
  shows "hosted_grows s s1"
proof -
  obtain r where r: "load_row s (hr_work_item_id c) = Some r"
    "load_row s1 = (load_row s)(hr_work_item_id c \<mapsto> r\<lparr>hr_updated_at := now\<rparr>)" "hs_ops s1 = hs_ops s"
    by (rule fence_cases [OF assms]) simp
  show ?thesis by (rule grows_row [OF r(2, 3, 1)]) (simp add: row_step_def)
qed

lemma take_locks_same:
  assumes "take_locks s q keys = Inr s'"
  shows "hs_rows s' = hs_rows s" "hs_ops s' = hs_ops s" "hs_items s' = hs_items s" "hs_audit s' = hs_audit s"
  by (rule take_locksE [OF assms], simp)+

lemma begin_ops:
  assumes "begin_workflow_operation s c q now = Inr (s2, x)" "hosted_inv s"
  obtains (same) s1 where "fence_claim s c now = Inr s1" "load_row s2 = load_row s1" "hs_ops s2 = hs_ops s"
      "load_hosted_op s (ho_id x) = Some x"
  | (added) s1 where "fence_claim s c now = Inr s1" "load_row s2 = load_row s1" "hs_ops s2 = hs_ops s @ [x]"
      "load_hosted_op s (ho_id x) = None" "ho_work_item_id x = hr_work_item_id c"
      "ho_effect x = ''development'' \<longrightarrow> hr_control c = ''active''" "ho_status x = ''pending''"
  using assms
proof (cases rule: begin_cases)
  case (known s1)
  then show thesis using fence_same [OF known(1) assms(2)] by (intro same [OF known(1)]) simp_all
next
  case (relocked s1)
  show thesis
    by (rule same [OF relocked(1) same_rows_load])
      (use take_locks_same [OF relocked(5)] fence_same [OF relocked(1) assms(2)] relocked(2) in simp_all)
next
  case (fresh s1)
  have "load_row s2 = load_row s1" "hs_ops s2 = hs_ops s @ [x]"
    using take_locks_same [OF fresh(10)] by (auto intro: same_rows_load)
  then show thesis
    by (rule added [OF fresh(1)]) (use fresh(6, 8) in \<open>simp_all add: fresh(2) new_hosted_operation_def\<close>)
qed

lemma append_load:
  "load_hosted_op s (ho_id x) = None \<Longrightarrow> hs_ops s' = hs_ops s @ [x] \<Longrightarrow>
     load_hosted_op s' = (load_hosted_op s)(ho_id x \<mapsto> x)"
  by (simp add: load_hosted_op_lookup lookup_append)

lemma begin_grows:
  assumes "begin_workflow_operation s c q now = Inr (s2, x)" "hosted_inv s"
  shows "hosted_grows s s2"
  using assms
proof (cases rule: begin_ops)
  case (same s1)
  have "hosted_grows s1 s2"
    by (rule grows_ops [OF same(2)])
      (use same_ops_load [of s2 s] same(3) fence_same(3) [OF same(1) assms(2)] in \<open>auto intro: op_step_refl\<close>)
  then show ?thesis using fence_grows [OF same(1) assms(2)] hosted_grows_trans by blast
next
  case (added s1)
  note ops = fence_same(3) [OF added(1) assms(2)]
  have "hosted_grows s1 s2"
    by (rule grows_ops [OF added(2)]) (use append_load [OF added(4, 3)] added(4) ops in \<open>auto split: if_splits\<close>)
  then show ?thesis using fence_grows [OF added(1) assms(2)] hosted_grows_trans by blast
qed

lemma refs_kept_get:
  "refs_kept old new \<Longrightarrow> json_get old k = Some v \<Longrightarrow> json_get new k = Some v"
  by (auto simp: refs_kept_def list_all_iff json_get_def [of old] dest!: map_of_SomeD)

lemma record_load:
  assumes "record_workflow_operation s c q status refs reason now = Inr (s2, y)" "hosted_inv s"
  obtains s1 x where "fence_claim s c now = Inr s1" "load_row s2 = load_row s1" "load_hosted_op s q = Some x"
    "load_hosted_op s2 = (load_hosted_op s)(q \<mapsto> y)" "op_step x y" "ho_work_item_id x = hr_work_item_id c"
    "unfinished x \<longrightarrow> ho_status y = status" "\<not> unfinished x \<longrightarrow> y = x"
    "locked_keys s2 = (\<lambda>p. if unfinished x \<and> status = ''succeeded'' \<and> p = q then [] else locked_keys s p)"
proof (rule record_cases [OF assms])
  fix s1 x
  assume f: "fence_claim s c now = Inr s1" and x: "load_hosted_op s q = Some x" "ho_work_item_id x = hr_work_item_id c"
    and d: "\<not> unfinished x" "s2 = s1" "y = x"
  note same = fence_same [OF f assms(2)]
  show thesis
    by (rule that [OF f _ x(1) _ _ x(2)])
      (use d x same in \<open>simp_all add: fun_upd_idem\<close>)
next
  fix s1 x
  assume f: "fence_claim s c now = Inr s1" and x: "load_hosted_op s q = Some x" "ho_work_item_id x = hr_work_item_id c"
    and u: "unfinished x" "refs_kept (ho_resource_refs x) refs" "status \<in> {''running'', ''blocked'', ''succeeded''}"
    and y: "y = recorded_op status refs reason now x"
    and s2: "s2 = (let s' = (if status = ''succeeded'' then drop_locks s1 q else s1) in
         s'\<lparr>hs_ops := update_where (\<lambda>x. ho_id x = q) (recorded_op status refs reason now) (hs_ops s')\<rparr>)"
  note same = fence_same [OF f assms(2)]
  have q: "ho_id x = q" using x(1) by (simp add: load_hosted_op_iff [OF assms(2)])
  have "lookup ho_id (update_where (\<lambda>x. ho_id x = q) (recorded_op status refs reason now) (hs_ops s)) =
      (lookup ho_id (hs_ops s))(ho_id x \<mapsto> recorded_op status refs reason now x)"
    by (rule lookup_update) (use x q hosted_invD(2) [OF assms(2)] in \<open>auto simp: load_hosted_op_lookup recorded_op_def\<close>)
  moreover have "hs_ops s2 = update_where (\<lambda>x. ho_id x = q) (recorded_op status refs reason now) (hs_ops s)"
    by (simp add: s2 Let_def same)
  ultimately have l: "load_hosted_op s2 = (load_hosted_op s)(q \<mapsto> y)"
    by (simp only: load_hosted_op_lookup y q)
  have st: "op_step x y"
    using u refs_kept_get by (auto simp: y op_step_def recorded_op_def dispatch_identity_def)
  show thesis
    by (rule that [OF f _ x(1) l st x(2)])
      (use u same in \<open>auto simp: s2 Let_def y recorded_op_def locked_keys_def drop_locks_def fun_eq_iff load_row_def
        filter_empty_conv intro!: arg_cong [of _ _ "\<lambda>xs. sort (map fst xs)"] filter_cong\<close>)
qed

lemma recorded_grows:
  assumes "record_workflow_operation s c q status refs reason now = Inr (s2, y)" "hosted_inv s"
  shows "hosted_grows s s2"
proof (rule record_load [OF assms])
  fix s1 x
  assume f: "fence_claim s c now = Inr s1" and r: "load_row s2 = load_row s1"
    and l: "load_hosted_op s q = Some x" "load_hosted_op s2 = (load_hosted_op s)(q \<mapsto> y)" "op_step x y"
  have "hosted_grows s1 s2"
    by (rule grows_ops [OF r]) (use l fence_same(3) [OF f assms(2)] in \<open>auto intro: op_step_refl\<close>)
  then show ?thesis using fence_grows [OF f assms(2)] hosted_grows_trans by blast
qed

lemma release_grows:
  assumes "release_pending_workflow_locks s c q now = Inr s2" "hosted_inv s"
  shows "hosted_grows s s2"
proof (rule release_cases [OF assms])
  fix s1
  assume f: "fence_claim s c now = Inr s1" and s2: "s2 = drop_locks s1 q"
  have "hosted_grows s1 s2" by (rule grows_ops) (simp_all add: s2 load_row_def load_hosted_op_def fun_eq_iff)
  then show ?thesis using fence_grows [OF f assms(2)] hosted_grows_trans by blast
qed

lemma claim_grows:
  assumes "claim_due_workflow s owner now lease = Inr (s1, out)" "hosted_inv s"
  shows "hosted_grows s s1"
proof (rule claim_cases [OF assms])
  fix w r
  assume "load_row s w = Some r" "load_row s1 = (load_row s)(w \<mapsto> claimed_row owner now lease r)"
    and s1: "s1 = s\<lparr>hs_rows := update_where (\<lambda>r. hr_work_item_id r = w) (claimed_row owner now lease) (hs_rows s)\<rparr>"
  then show ?thesis by (intro grows_row [of s1 s w "claimed_row owner now lease r" r]) (simp_all add: row_step_def claimed_row_def)
qed simp

lemma finish_grows:
  assumes "finish_workflow_reconciliation s c f now = Inr s1" "hosted_inv s"
  shows "hosted_grows s s1"
proof (rule finish_cases [OF assms])
  fix r
  assume "load_row s (hr_work_item_id c) = Some r" "load_row s1 = (load_row s)(hr_work_item_id c \<mapsto> finished_row f now r)"
    and "s1 = s\<lparr>hs_rows := update_where (holds_claim c now) (finished_row f now) (hs_rows s)\<rparr>"
  then show ?thesis
    by (intro grows_row [of s1 s "hr_work_item_id c" "finished_row f now r" r]) (simp_all add: row_step_def finished_row_def)
qed

lemma control_grows:
  assumes "set_workflow_control s w expected control actor reason now = Inr (s1, r1)" "hosted_inv s"
  shows "hosted_grows s s1"
proof (rule control_cases [OF assms])
  fix r
  assume r: "load_row s w = Some r" "hr_control r \<noteq> ''cancelled''" "r1 = controlled_row control reason now r"
    "load_row s1 = (load_row s)(w \<mapsto> r1)"
    and s1: "s1 = s\<lparr>hs_rows := update_where (\<lambda>r. hr_work_item_id r = w \<and> hr_control_version r = expected \<and>
          hr_control r \<noteq> ''cancelled'' \<and> is_open s w) (controlled_row control reason now) (hs_rows s),
        hs_audit := hs_audit s @
          [\<lparr>wa_id = control_event_id w (hr_control_version r1), wa_actor = actor, wa_work_item = w, wa_control = control,
            wa_reason = reason, wa_version = hr_control_version r1, wa_at = now\<rparr>]\<rparr>"
  show ?thesis by (rule grows_row [OF r(4) _ r(1)]) (use r in \<open>simp_all add: s1 row_step_def\<close>)
qed

lemma wake_grows:
  assumes "hosted_inv s"
  shows "hosted_grows s (wake_workflow s w now)"
proof (cases "load_row s w")
  case None
  then have "\<forall>r\<in>set (hs_rows s). hr_work_item_id r \<noteq> w" by (auto simp: load_row_lookup lookup_None)
  then have "wake_workflow s w now = s" by (simp add: wake_workflow_def update_none)
  then show ?thesis by simp
next
  case (Some r)
  let ?f = "\<lambda>r. r\<lparr>hr_next_due_at := min (hr_next_due_at r) now\<rparr>"
  have "load_row (wake_workflow s w now) = (load_row s)(w \<mapsto> ?f r)" unfolding wake_workflow_def
    by (rule row_update_load [OF assms Some]) (use Some in \<open>simp_all add: load_row_iff [OF assms]\<close>)
  then show ?thesis by (rule grows_row [OF _ _ Some]) (simp_all add: wake_workflow_def row_step_def)
qed

lemma enroll_grows:
  assumes "enroll_hosted_workflow s w hosted created = Inr s1" "hosted_inv s"
  shows "hosted_grows s s1"
proof -
  have "load_row s v = Some r \<Longrightarrow> load_row s1 v = Some r" for v r
    using assms(1) by (auto simp: enroll_hosted_workflow_def Let_def load_row_def find_append split: if_splits)
  moreover have "load_hosted_op s1 = load_hosted_op s"
    using assms(1) by (auto simp: enroll_hosted_workflow_def Let_def load_hosted_op_def fun_eq_iff split: if_splits)
  ultimately show ?thesis by (auto simp: hosted_grows_def intro: row_step_refl op_step_refl)
qed

lemma close_grows: "close_work_item s w now = Inr s1 \<Longrightarrow> hosted_grows s s1"
  by (drule close_cases) (auto intro!: grows_ops simp: load_row_def load_hosted_op_def fun_eq_iff)

lemma hosted_apply_grows:
  assumes "hosted_inv s"
  shows "hosted_grows s (hosted_apply s c)"
  by (cases c)
    (use assms in \<open>auto simp: kept_def kept_fst_def wake_grows intro: enroll_grows close_grows claim_grows finish_grows
      control_grows begin_grows release_grows recorded_grows split: sum.split\<close>)

lemma hosted_steps_grow: "hosted_steps A s s' \<Longrightarrow> hosted_inv s \<Longrightarrow> hosted_grows s s'"
  by (induction rule: hosted_steps.induct) (auto dest: hosted_apply_inv intro: hosted_grows_trans hosted_apply_grows)

text \<open>Only a control call changes a row's control version.\<close>

lemma version_kept:
  assumes "hosted_inv s" "load_row s w = Some r" "load_row (hosted_apply s c) w = Some r'"
    "\<nexists>w expected control actor reason now. c = HcControl w expected control actor reason now"
  shows "hr_control_version r' = hr_control_version r"
proof -
  have fence: "hr_control_version r' = hr_control_version r"
    if "fence_claim s k now = Inr s1" "load_row s1 w = Some r'" for k now s1
    by (rule fence_cases [OF that(1) assms(1)]) (use that(2) assms(2) in \<open>auto split: if_splits\<close>)
  show ?thesis
  proof (cases c)
    case (HcClaim owner now lease)
    have "hr_control_version r' = hr_control_version r"
      if "claim_due_workflow s owner now lease = Inr (s1, out)" "load_row s1 w = Some r'" for s1 out
      by (rule claim_cases [OF that(1) assms(1)])
        (use that(2) assms(2) in \<open>auto simp: claimed_row_def split: if_splits\<close>)
    with HcClaim assms(2, 3) show ?thesis by (auto simp: kept_fst_def split: sum.splits)
  next
    case (HcFinish k f now)
    have "hr_control_version r' = hr_control_version r"
      if "finish_workflow_reconciliation s k f now = Inr s1" "load_row s1 w = Some r'" for s1
      by (rule finish_cases [OF that(1) assms(1)])
        (use that(2) assms(2) in \<open>auto simp: finished_row_def split: if_splits\<close>)
    with HcFinish assms(2, 3) show ?thesis by (auto simp: kept_def split: sum.splits)
  next
    case (HcWake v now)
    have "hr_control_version y = hr_control_version x"
      if "find (\<lambda>r. hr_work_item_id r = w) rows = Some x"
        "find (\<lambda>r. hr_work_item_id r = w) (update_where (\<lambda>r. hr_work_item_id r = v)
          (\<lambda>r. r\<lparr>hr_next_due_at := min (hr_next_due_at r) now\<rparr>) rows) = Some y" for rows x y
      using that by (induction rows) (auto simp: update_where_def split: if_splits)
    with HcWake assms(2, 3) show ?thesis by (auto simp: wake_workflow_def load_row_def)
  next
    case (HcBegin k q now)
    have "hr_control_version r' = hr_control_version r"
      if b: "begin_workflow_operation s k q now = Inr (s2, x)" and l: "load_row s2 w = Some r'" for s2 x
      using b assms(1) by (cases rule: begin_ops) (use l fence in auto)
    with HcBegin assms(2, 3) show ?thesis by (auto simp: kept_fst_def split: sum.splits)
  next
    case (HcRelease k q now)
    have "hr_control_version r' = hr_control_version r"
      if "release_pending_workflow_locks s k q now = Inr s2" and l: "load_row s2 w = Some r'" for s2
      by (rule release_cases [OF that(1) assms(1)]) (use l fence in \<open>auto simp: load_row_def\<close>)
    with HcRelease assms(2, 3) show ?thesis by (auto simp: kept_def split: sum.splits)
  next
    case (HcRecord k q status refs reason now)
    have "hr_control_version r' = hr_control_version r"
      if "record_workflow_operation s k q status refs reason now = Inr (s2, y)" "load_row s2 w = Some r'" for s2 y
      by (rule record_load [OF that(1) assms(1)]) (use that(2) fence in auto)
    with HcRecord assms(2, 3) show ?thesis by (auto simp: kept_fst_def split: sum.splits)
  qed (use assms(2-4) in \<open>auto simp: kept_def enroll_hosted_workflow_def close_work_item_def Let_def load_row_def
      find_append split: sum.splits if_splits\<close>)
qed

end
