(* ===== verification/HostedProperties.thy ===== *)
theory HostedProperties
  imports HostedGrowth Fencing
begin

text \<open>
  What the hosted controller's store guarantees over every history of its calls, and an example
  deployment at which the guarantees apply.
\<close>

section \<open>Superseded claims\<close>

definition accepts_claim :: "hosted_store \<Rightarrow> string \<Rightarrow> int \<Rightarrow> bool" where
  "accepts_claim s w n \<longleftrightarrow> (\<exists>c now. hr_work_item_id c = w \<and> hr_claim_fence c = n \<and>
     ((\<exists>s'. fence_claim s c now = Inr s') \<or> (\<exists>f s'. finish_workflow_reconciliation s c f now = Inr s')))"

lemma accepted_current:
  assumes "hosted_inv s" "accepts_claim s w n"
  shows "map_option hr_claim_fence (load_row s w) = Some n"
proof (rule ccontr)
  assume none: "map_option hr_claim_fence (load_row s w) \<noteq> Some n"
  from assms(2) obtain c now where c: "hr_work_item_id c = w" "hr_claim_fence c = n"
    "(\<exists>s'. fence_claim s c now = Inr s') \<or> (\<exists>f s'. finish_workflow_reconciliation s c f now = Inr s')"
    unfolding accepts_claim_def by blast
  have "hr_claim_fence r \<noteq> hr_claim_fence c" if "load_row s (hr_work_item_id c) = Some r" for r
    using that none c(1, 2) by simp
  note l = lost_claim [OF assms(1) this]
  from c(3) show False
  proof
    assume "\<exists>s'. fence_claim s c now = Inr s'"
    then show False using l(1) [of now] by auto
  next
    assume "\<exists>f s'. finish_workflow_reconciliation s c f now = Inr s'"
    then show False using l(2) [of _ now] by (metis isl_def sum.disc(2))
  qed
qed

interpretation claims: fencing hosted_inv "hosted_steps any_hosted_call"
  "\<lambda>s w. map_option hr_claim_fence (load_row s w)" accepts_claim
proof
  show "hosted_inv s \<Longrightarrow> hosted_steps any_hosted_call s s' \<Longrightarrow> hosted_inv s'" for s s' by (rule hosted_steps_inv)
  show "\<exists>m. map_option hr_claim_fence (load_row s' w) = Some m \<and> n \<le> m"
    if "hosted_inv s" "hosted_steps any_hosted_call s s'" "map_option hr_claim_fence (load_row s w) = Some n" for s s' w n
    using hosted_steps_grow [OF that(2, 1)] that(3) by (fastforce simp: hosted_grows_def row_step_def)
  show "hosted_inv s \<Longrightarrow> accepts_claim s w n \<Longrightarrow> map_option hr_claim_fence (load_row s w) = Some n" for s w n
    by (rule accepted_current)
qed

lemma refused_claim:
  assumes "\<not> accepts_claim s (hr_work_item_id c) (hr_claim_fence c)"
  shows "isl (begin_workflow_operation s c q now)" "isl (release_pending_workflow_locks s c p now)"
    "isl (record_workflow_operation s c p status refs reason now)" "isl (finish_workflow_reconciliation s c f now)"
proof -
  have "isl (fence_claim s c now)" using assms by (cases "fence_claim s c now") (auto simp: accepts_claim_def)
  then obtain e where "fence_claim s c now = Inl e" by (cases "fence_claim s c now") auto
  then show "isl (begin_workflow_operation s c q now)" "isl (release_pending_workflow_locks s c p now)"
    "isl (record_workflow_operation s c p status refs reason now)"
    by (simp_all add: begin_workflow_operation_def release_pending_workflow_locks_def record_workflow_operation_def)
  show "isl (finish_workflow_reconciliation s c f now)"
    using assms by (cases "finish_workflow_reconciliation s c f now") (auto simp: accepts_claim_def)
qed

text \<open>C27: A superseded controller is fenced out: once a work item was claimed again, or an operator
  paused, resumed or cancelled it, every call under a claim taken before is refused, in every later
  store and at any time.\<close>
theorem superseded_claim_fenced:
  assumes "hosted_reachable allowed s" "hr_claim_fence c \<le> fence" "load_row s (hr_work_item_id c) = Some r"
    "hr_claim_fence r = fence"
    "claim_due_workflow s owner now lease = Inr (s1, Some r1) \<or>
     set_workflow_control s (hr_work_item_id c) expected control actor reason now = Inr (s1, r1)"
    "hr_work_item_id r1 = hr_work_item_id c" "hosted_steps allowed' s1 s2"
  shows "isl (begin_workflow_operation s2 c q t) \<and> isl (release_pending_workflow_locks s2 c p t) \<and>
    isl (record_workflow_operation s2 c p status refs why t) \<and> isl (finish_workflow_reconciliation s2 c f t)"
proof -
  have s: "hosted_inv s" by (rule hosted_reachable_inv [OF assms(1)])
  have s1: "hosted_inv s1" using assms(5) claim_inv [OF _ s] control_inv [OF _ s] by blast
  have "\<exists>r'. load_row s1 (hr_work_item_id c) = Some r' \<and> hr_claim_fence c < hr_claim_fence r'"
    using assms(5)
  proof
    assume c: "claim_due_workflow s owner now lease = Inr (s1, Some r1)"
    show ?thesis
    proof (rule claim_cases [OF c s])
      fix w r0
      assume r0: "load_row s w = Some r0" "Some r1 = Some (claimed_row owner now lease r0)"
        "load_row s1 = (load_row s)(w \<mapsto> claimed_row owner now lease r0)"
      then have "w = hr_work_item_id c" using assms(6) by (simp add: claimed_row_def load_row_iff [OF s])
      with r0 assms(2-4) show ?thesis by (simp add: claimed_row_def)
    qed simp
  next
    assume c: "set_workflow_control s (hr_work_item_id c) expected control actor reason now = Inr (s1, r1)"
    show ?thesis by (rule control_cases [OF c s]) (use assms(2-4) in simp)
  qed
  then obtain m where "map_option hr_claim_fence (load_row s1 (hr_work_item_id c)) = Some m" "hr_claim_fence c < m"
    by auto
  from claims.superseded [OF s1 this hosted_steps_mono [OF assms(7)]] show ?thesis
    using refused_claim by blast
qed

section \<open>Locks\<close>

definition dispatched_locked :: "hosted_store \<Rightarrow> bool" where
  "dispatched_locked s \<longleftrightarrow>
     (\<forall>q x. load_hosted_op s q = Some x \<longrightarrow> unfinished x \<longrightarrow> ho_status x \<noteq> ''pending'' \<longrightarrow>
        locked_keys s q = ho_resource_keys x)"

lemma dispatched_same:
  "dispatched_locked s \<Longrightarrow> load_hosted_op s' = load_hosted_op s \<Longrightarrow> locked_keys s' = locked_keys s \<Longrightarrow> dispatched_locked s'"
  by (simp add: dispatched_locked_def)

lemma locked_keys_rows: "hs_locks s' = hs_locks s \<Longrightarrow> locked_keys s' = locked_keys s"
  by (simp add: locked_keys_def fun_eq_iff)

lemma row_call_locked:
  assumes "dispatched_locked s" "hs_ops s' = hs_ops s" "hs_locks s' = hs_locks s"
  shows "dispatched_locked s'"
  by (rule dispatched_same [OF assms(1) same_ops_load [OF assms(2)] locked_keys_rows [OF assms(3)]])

lemma begin_locked:
  assumes "begin_workflow_operation s c q now = Inr (s2, x)" "hosted_inv s" "dispatched_locked s"
  shows "dispatched_locked s2"
  using assms(1, 2)
proof (cases rule: begin_cases)
  case (known s1)
  then show ?thesis using row_call_locked [OF assms(3)] fence_same [OF known(1) assms(2)] by simp
next
  case (relocked s1)
  note same = fence_same [OF relocked(1) assms(2)]
  have i: "hosted_inv s1" by (rule fence_inv [OF relocked(1) assms(2)])
  have x: "x \<in> set (hs_ops s1)" using relocked(2) same(1) by (simp add: load_hosted_op_iff [OF assms(2)])
  have l: "locked_keys s2 p = (if p = ho_id x then ho_resource_keys x else locked_keys s1 p)" for p
    by (rule take_locks_inv(2) [OF relocked(5) i x])
      (use relocked same(4) in \<open>simp_all add: unfinished_def requested_keys_def sorted_sort_id\<close>)
  have "load_hosted_op s2 = load_hosted_op s"
    using same_ops_load [OF take_locks_same(2) [OF relocked(5)]] same(3) by simp
  with assms(3) l same(4) relocked(2) show ?thesis by (auto simp: dispatched_locked_def)
next
  case (fresh s1)
  note same = fence_same [OF fresh(1) assms(2)]
  have x: "ho_id x = hb_id q" "ho_status x = ''pending''"
    by (simp_all add: fresh(2) new_hosted_operation_def)
  have s2: "hs_ops s2 = hs_ops s @ [x]" "hs_locks s2 = hs_locks s @ map (\<lambda>k. (k, hb_id q)) (hb_resource_keys q)"
    by (rule take_locksE [OF fresh(10)], simp add: same(2))+
  have "locked_keys s2 p = locked_keys s p" if "p \<noteq> hb_id q" for p
    using that by (simp add: locked_keys_def s2 filter_map o_def)
  moreover have "load_hosted_op s2 = (load_hosted_op s)(hb_id q \<mapsto> x)"
    using append_load [OF _ s2(1)] fresh(8) x(1) by simp
  ultimately show ?thesis using assms(3) x(2) by (auto simp: dispatched_locked_def)
qed

lemma record_locked:
  assumes "record_workflow_operation s c q status refs reason now = Inr (s2, y)" "hosted_inv s" "dispatched_locked s"
    "dispatches_locked s (HcRecord c q status refs reason now)"
  shows "dispatched_locked s2"
proof (rule record_load [OF assms(1, 2)])
  fix x
  assume x: "load_hosted_op s q = Some x" "load_hosted_op s2 = (load_hosted_op s)(q \<mapsto> y)" "op_step x y"
    "unfinished x \<longrightarrow> ho_status y = status" "\<not> unfinished x \<longrightarrow> y = x"
    "locked_keys s2 = (\<lambda>p. if unfinished x \<and> status = ''succeeded'' \<and> p = q then [] else locked_keys s p)"
  have "ho_resource_keys y = ho_resource_keys x" using x(3) by (simp add: op_step_def dispatch_identity_def)
  with x assms(3, 4) show ?thesis
    by (auto simp: dispatched_locked_def dispatches_locked_def unfinished_def)
qed

lemma release_locked:
  assumes "release_pending_workflow_locks s c q now = Inr s2" "hosted_inv s" "dispatched_locked s"
  shows "dispatched_locked s2"
proof (rule release_cases [OF assms(1, 2)])
  fix s1 x
  assume f: "fence_claim s c now = Inr s1" and x: "load_hosted_op s q = Some x" "ho_status x = ''pending''"
    and s2: "s2 = drop_locks s1 q"
  note same = fence_same [OF f assms(2)]
  have "load_hosted_op s2 = load_hosted_op s" by (simp add: s2 same load_hosted_op_def fun_eq_iff)
  with x assms(3) show ?thesis by (auto simp: dispatched_locked_def s2 same)
qed

lemma apply_locked:
  assumes "hosted_inv s" "dispatched_locked s" "dispatches_locked s c"
  shows "dispatched_locked (hosted_apply s c)"
proof (cases c)
  case (HcEnroll w hosted created)
  with assms(2) show ?thesis
    by (auto simp: kept_def enroll_hosted_workflow_def Let_def intro: row_call_locked split: if_splits)
next
  case (HcClose w now)
  with assms(2) show ?thesis by (auto simp: kept_def close_work_item_def intro: row_call_locked)
next
  case (HcClaim owner now lease)
  with assms(2) show ?thesis
    by (auto simp: kept_fst_def claim_due_workflow_def Let_def intro: row_call_locked split: option.split)
next
  case (HcWake w now)
  with assms(2) show ?thesis by (auto simp: wake_workflow_def intro: row_call_locked)
next
  case (HcFinish c' f now)
  with assms(2) show ?thesis
    by (auto simp: kept_def finish_workflow_reconciliation_def and_then_def require_one_def intro: row_call_locked)
next
  case (HcControl w expected control actor reason now)
  have "dispatched_locked s1" if "set_workflow_control s w expected control actor reason now = Inr (s1, r)" for s1 r
    by (rule control_cases [OF that assms(1)]) (use assms(2) in \<open>auto intro: row_call_locked\<close>)
  with HcControl assms(2) show ?thesis by (auto simp: kept_fst_def split: sum.split)
next
  case (HcBegin c' q now)
  with assms show ?thesis by (auto simp: kept_fst_def intro: begin_locked split: sum.split)
next
  case (HcRelease c' q now)
  with assms show ?thesis by (auto simp: kept_def intro: release_locked split: sum.split)
next
  case (HcRecord c' q status refs reason now)
  with assms show ?thesis by (auto simp: kept_fst_def intro: record_locked split: sum.split)
qed

lemma steps_locked:
  "hosted_steps A s s' \<Longrightarrow> hosted_inv s \<Longrightarrow> dispatched_locked s \<Longrightarrow> (\<And>s c. A s c \<Longrightarrow> dispatches_locked s c) \<Longrightarrow>
     dispatched_locked s'"
  by (induction rule: hosted_steps.induct) (auto intro: apply_locked hosted_apply_inv)


lemma find_narrow: "find P xs = Some x \<Longrightarrow> Q x \<Longrightarrow> find (\<lambda>x. P x \<and> Q x) xs = Some x"
  by (induction xs) (auto split: if_splits)

lemma fence_again:
  assumes "fence_claim s c now = Inr s1" "hosted_inv s" "load_row s (hr_work_item_id c) = Some r"
    "hr_claim_until r = Some until" "later < until"
  shows "\<exists>s2. fence_claim s1 c later = Inr s2"
proof (rule fence_cases [OF assms(1, 2)])
  fix r0
  assume "load_row s (hr_work_item_id c) = Some r0" "holds_claim c now r0" "hr_control r0 = hr_control c"
    "load_row s1 = (load_row s)(hr_work_item_id c \<mapsto> r0\<lparr>hr_updated_at := now\<rparr>)"
  moreover from this(1) have "r0 = r" using assms(3) by simp
  ultimately have r: "load_row s1 (hr_work_item_id c) = Some (r\<lparr>hr_updated_at := now\<rparr>)"
    "holds_claim c later (r\<lparr>hr_updated_at := now\<rparr>)" "hr_control r = hr_control c"
    using assms(4, 5) by (auto simp: holds_claim_def)
  have i: "hosted_inv s1" by (rule fence_inv [OF assms(1, 2)])
  have "rows_affected (\<lambda>r. holds_claim c later r \<and> hr_control r = hr_control c) (hs_rows s1) = 1"
    by (intro rows_affected_key [OF hosted_invD(1) [OF i], of "r\<lparr>hr_updated_at := now\<rparr>"])
      (use r in \<open>auto simp: load_row_lookup holds_claim_def\<close>)
  then show ?thesis by (simp add: fence_claim_def require_one_def and_then_def Let_def)
qed

text \<open>Locks given up are not enforced on dispatch: after a pending operation relinquished its locks, the
  same claim can record it as running, and it runs with no resource locked. Migration 0053 says such an
  operation must reacquire its locks; the store leaves that to its caller.\<close>
theorem released_operation_runs_unlocked:
  assumes "hosted_reachable allowed s" "release_pending_workflow_locks s c q now = Inr s1"
    "load_row s (hr_work_item_id c) = Some r" "hr_claim_until r = Some until" "later < until" "is_object refs"
  shows "\<exists>s2 x. record_workflow_operation s1 c q ''running'' refs reason later = Inr (s2, x) \<and>
    ho_status x = ''running'' \<and> load_hosted_op s2 q = Some x \<and> locked_keys s2 q = []"
proof -
  note s = hosted_reachable_inv [OF assms(1)]
  show ?thesis
  proof (rule release_cases [OF assms(2) s])
    fix s0 x
    assume f: "fence_claim s c now = Inr s0" and x: "load_hosted_op s q = Some x" "ho_work_item_id x = hr_work_item_id c"
      "ho_status x = ''pending''" "ho_resource_refs x = empty_object" and s1: "s1 = drop_locks s0 q"
    have i: "hosted_inv s1" by (rule release_inv [OF assms(2) s])
    obtain s0' where "fence_claim s0 c later = Inr s0'" using fence_again [OF f s assms(3-5)] by blast
    then obtain s1' where f1: "fence_claim s1 c later = Inr s1'"
      by (auto simp: s1 fence_claim_def and_then_def require_one_def Let_def split: if_splits)
    have ops: "hs_ops s1' = hs_ops s" using fence_same(1) [OF f1 i] fence_same(1) [OF f s] by (simp add: s1)
    have "find (\<lambda>x. ho_id x = q \<and> ho_work_item_id x = hr_work_item_id c) (hs_ops s1') = Some x"
      by (rule find_narrow) (use x in \<open>simp_all add: load_hosted_op_def ops\<close>)
    with f1 x assms(6) have r: "\<exists>s2. record_workflow_operation s1 c q ''running'' refs reason later =
        Inr (s2, recorded_op ''running'' refs reason later x)"
      by (auto simp: record_workflow_operation_def refs_kept_def unfinished_def)
    then obtain s2 where r: "record_workflow_operation s1 c q ''running'' refs reason later =
        Inr (s2, recorded_op ''running'' refs reason later x)" by blast
    have "load_hosted_op s2 q = Some (recorded_op ''running'' refs reason later x) \<and> locked_keys s2 q = []"
      by (rule record_load [OF r i]) (simp add: s1)
    with r show ?thesis by (auto simp: recorded_op_def)
  qed
qed

end
