(* ===== verification/HostedControl.thy ===== *)
theory HostedControl
  imports HostedGrowth
begin

text \<open>
  What an operator's control and a recorded dispatch guarantee over every later history of the hosted
  store, and the tables the scheduler sees in the metrics.
\<close>

section \<open>Control\<close>

definition resumes :: "string \<Rightarrow> hosted_call \<Rightarrow> bool" where
  "resumes w c \<longleftrightarrow> (\<exists>expected actor reason now. c = HcControl w expected ''active'' actor reason now)"

definition development_ids :: "hosted_store \<Rightarrow> string \<Rightarrow> string list" where
  "development_ids s w =
     map ho_id (filter (\<lambda>x. ho_work_item_id x = w \<and> ho_effect x = ''development'') (hs_ops s))"

lemma development_ids_set:
  "hosted_inv s \<Longrightarrow> q \<in> set (development_ids s w) \<longleftrightarrow>
     (\<exists>x. load_hosted_op s q = Some x \<and> ho_work_item_id x = w \<and> ho_effect x = ''development'')"
  by (auto simp: development_ids_def load_hosted_op_iff)

lemma fence_control:
  assumes "fence_claim s c now = Inr s1" "hosted_inv s"
  shows "\<exists>r. load_row s (hr_work_item_id c) = Some r \<and> hr_control r = hr_control c"
  by (rule fence_cases [OF assms]) simp

lemma grown_ids:
  assumes "hosted_inv s" "hosted_inv s'" "hosted_grows s s'"
    "\<And>q x. load_hosted_op s q = None \<Longrightarrow> load_hosted_op s' q = Some x \<Longrightarrow> ho_work_item_id x = w \<Longrightarrow>
       ho_effect x \<noteq> ''development''"
  shows "set (development_ids s' w) = set (development_ids s w)"
proof -
  have "\<exists>x'. load_hosted_op s' q = Some x' \<and> ho_work_item_id x' = ho_work_item_id x \<and> ho_effect x' = ho_effect x"
    if "load_hosted_op s q = Some x" for q x
    using hosted_growsD(3) [OF assms(3) that] by (auto simp: op_step_def dispatch_identity_def)
  with assms(4) have "(\<exists>x. load_hosted_op s' q = Some x \<and> ho_work_item_id x = w \<and> ho_effect x = ''development'') \<longleftrightarrow>
      (\<exists>x. load_hosted_op s q = Some x \<and> ho_work_item_id x = w \<and> ho_effect x = ''development'')" for q
    by (cases "load_hosted_op s q") fastforce+
  then show ?thesis
    by (simp add: set_eq_iff development_ids_set [OF assms(1)] development_ids_set [OF assms(2)])
qed

text \<open>The only call that adds an operation begins it.\<close>

lemma new_op_begun:
  assumes "hosted_inv s" "load_hosted_op s q = None" "load_hosted_op (hosted_apply s c) q = Some x"
  shows "\<exists>k b now. c = HcBegin k b now \<and> ho_work_item_id x = hr_work_item_id k \<and>
    (\<exists>r. load_row s (hr_work_item_id k) = Some r \<and> hr_control r = hr_control k) \<and>
    (ho_effect x = ''development'' \<longrightarrow> hr_control k = ''active'')"
proof (cases c)
  case (HcBegin k b now)
  then obtain s2 y where b: "begin_workflow_operation s k b now = Inr (s2, y)"
    using assms(2, 3) by (cases "begin_workflow_operation s k b now") (auto simp: kept_fst_def)
  then have x: "load_hosted_op s2 q = Some x" using assms(3) HcBegin by (simp add: kept_fst_def)
  from b assms(1) show ?thesis
  proof (cases rule: begin_ops)
    case (same s1)
    then show ?thesis using x assms(2) same_ops_load [OF same(3)] by simp
  next
    case (added s1)
    with x assms(2) append_load [OF added(4, 3)] have "x = y" by (auto split: if_splits)
    with added HcBegin fence_control [OF added(1) assms(1)] show ?thesis by auto
  qed
next
  case (HcRecord k p status refs reason now)
  have "load_hosted_op s2 q = None" if "record_workflow_operation s k p status refs reason now = Inr (s2, y)" for s2 y
    by (rule record_load [OF that assms(1)]) (use assms(2) in auto)
  with HcRecord assms(2, 3) show ?thesis by (auto simp: kept_fst_def split: sum.splits)
next
  case (HcRelease k p now)
  have "load_hosted_op s2 = load_hosted_op s" if "release_pending_workflow_locks s k p now = Inr s2" for s2
    by (rule release_cases [OF that assms(1)])
      (use fence_same(3) [OF _ assms(1)] in \<open>auto simp: load_hosted_op_def fun_eq_iff\<close>)
  with HcRelease assms(2, 3) show ?thesis by (auto simp: kept_def split: sum.splits)
next
  case (HcControl w expected control actor reason now)
  have "load_hosted_op s1 = load_hosted_op s" if "set_workflow_control s w expected control actor reason now = Inr (s1, r)" for s1 r
    by (rule control_cases [OF that assms(1)]) (simp add: load_hosted_op_def fun_eq_iff)
  with HcControl assms(2, 3) show ?thesis by (auto simp: kept_fst_def split: sum.splits)
qed (use assms(2, 3) in \<open>auto simp: kept_def kept_fst_def enroll_hosted_workflow_def close_work_item_def
    claim_due_workflow_def wake_workflow_def finish_workflow_reconciliation_def and_then_def require_one_def Let_def
    load_hosted_op_def split: sum.splits if_splits option.splits\<close>)

lemma control_changes:
  assumes "hosted_inv s" "load_row s w = Some r" "load_row (hosted_apply s c) w = Some r'" "hr_control r \<noteq> ''active''"
    "hr_control r = ''cancelled'' \<or> \<not> resumes w c"
  shows "hr_control r' \<noteq> ''active'' \<and> (hr_control r = ''cancelled'' \<longrightarrow> hr_control r' = ''cancelled'')"
proof -
  have step: "row_step r r'" by (rule hosted_growsD(1) [OF hosted_apply_grows [OF assms(1)] assms(2, 3)])
  show ?thesis
  proof (cases "hr_control_version r' = hr_control_version r")
    case True
    with step assms(4) show ?thesis by (simp add: row_step_def)
  next
    case False
    with step have nc: "hr_control r \<noteq> ''cancelled''" by (auto simp: row_step_def)
    have "\<exists>w' expected control actor reason now. c = HcControl w' expected control actor reason now"
      using False assms(1-3) by (rule_tac ccontr) (simp add: version_kept)
    then obtain w' expected control actor reason now where c: "c = HcControl w' expected control actor reason now" by blast
    show ?thesis
    proof (cases "set_workflow_control s w' expected control actor reason now")
      case (Inl e)
      with c assms(2, 3) False show ?thesis by (simp add: kept_fst_def)
    next
      case (Inr p)
      then obtain s1 r1 where s1: "set_workflow_control s w' expected control actor reason now = Inr (s1, r1)" by (cases p) simp
      show ?thesis
      proof (rule control_cases [OF s1 assms(1)])
        fix r0
        assume r0: "r1 = controlled_row control reason now r0" "load_row s1 = (load_row s)(w' \<mapsto> r1)"
        have "load_row s1 w = Some r'" using assms(3) c s1 by (simp add: kept_fst_def)
        with r0 assms(2) False have "w' = w" "r' = r1" by (auto split: if_splits)
        with r0 c assms(5) nc show ?thesis by (auto simp: resumes_def)
      qed
    qed
  qed
qed

lemma stopped_steps:
  assumes "hosted_steps (\<lambda>_ c. hr_control r0 = ''cancelled'' \<or> \<not> resumes w c) s s'" "hosted_inv s"
    "load_row s w = Some r" "hr_control r \<noteq> ''active''" "hr_control r0 = ''cancelled'' \<longrightarrow> hr_control r = ''cancelled''"
  shows "\<exists>r'. load_row s' w = Some r' \<and> hr_control r' \<noteq> ''active'' \<and>
    (hr_control r0 = ''cancelled'' \<longrightarrow> hr_control r' = ''cancelled'') \<and>
    set (development_ids s' w) = set (development_ids s w)"
  using assms
proof (induction arbitrary: r rule: hosted_steps.induct)
  case (hosted_here s)
  then show ?case by blast
next
  case (hosted_more s c s')
  note s = hosted_more.prems(1)
  let ?s = "hosted_apply s c"
  obtain r1 where r1: "load_row ?s w = Some r1"
    using hosted_growsD(2) [OF hosted_apply_grows [OF s] hosted_more.prems(2)] by blast
  have c: "hr_control r1 \<noteq> ''active''" "hr_control r = ''cancelled'' \<longrightarrow> hr_control r1 = ''cancelled''"
    using control_changes [OF s hosted_more.prems(2) r1 hosted_more.prems(3)] hosted_more.hyps(1) hosted_more.prems(4) by blast+
  have "set (development_ids ?s w) = set (development_ids s w)"
  proof (rule grown_ids [OF s hosted_apply_inv [OF s] hosted_apply_grows [OF s]])
    fix q x
    assume x: "load_hosted_op s q = None" "load_hosted_op ?s q = Some x" "ho_work_item_id x = w"
    show "ho_effect x \<noteq> ''development''" using new_op_begun [OF s x(1, 2)] x(3) hosted_more.prems(2, 3) by auto
  qed
  moreover note hosted_more.IH [OF hosted_apply_inv [OF s] r1 c(1)]
  ultimately show ?case using hosted_more.prems(4) c(2) by auto
qed

text \<open>C29: Paused and cancelled work starts no development: from a store where the operator stopped a work
  item, no later history begins a development operation for it until an operator resumes it, and a
  cancelled item stays cancelled whatever anyone calls.\<close>
theorem stopped_work_starts_nothing:
  assumes "hosted_reachable allowed s" "load_row s w = Some r" "hr_control r \<noteq> ''active''"
    "hosted_steps (\<lambda>_ c. hr_control r = ''cancelled'' \<or> \<not> resumes w c) s s'"
  shows "(\<exists>r'. load_row s' w = Some r' \<and> hr_control r' \<noteq> ''active'' \<and>
      (hr_control r = ''cancelled'' \<longrightarrow> hr_control r' = ''cancelled'')) \<and>
    set (development_ids s' w) = set (development_ids s w)"
  using stopped_steps [OF assms(4) hosted_reachable_inv [OF assms(1)] assms(2, 3)] by blast

text \<open>A recorded dispatch is durable: an operation keeps its identity and every reference it recorded,
  never returns to pending, and once it succeeded it never changes again.\<close>
theorem operation_record_durable:
  assumes "hosted_reachable allowed s" "load_hosted_op s q = Some x" "hosted_steps allowed' s s'"
  shows "\<exists>y. load_hosted_op s' q = Some y \<and> dispatch_identity y = dispatch_identity x \<and>
    (\<forall>k v. json_get (ho_resource_refs x) k = Some v \<longrightarrow> json_get (ho_resource_refs y) k = Some v) \<and>
    (ho_status x \<noteq> ''pending'' \<longrightarrow> ho_status y \<noteq> ''pending'') \<and> (ho_status x = ''succeeded'' \<longrightarrow> y = x)"
  using hosted_growsD(3) [OF hosted_steps_grow [OF assms(3) hosted_reachable_inv [OF assms(1)]] assms(2)]
  by (auto simp: op_step_def unfinished_def)

end
