(* ===== verification/CanonicalJson.thy ===== *)
theory CanonicalJson
  imports Json
begin

text \<open>
  \<open>canonical_json_sha256\<close>: the keys of every object are put in order before a value is printed and
  hashed. Printing with SHA-256 is the parameter \<open>digest\<close>.
\<close>

fun canonicalize :: "json \<Rightarrow> json" where
  "canonicalize (JObject es) = JObject (sort_key fst (map (\<lambda>(k, v). (k, canonicalize v)) es))"
| "canonicalize (JArray vs) = JArray (map canonicalize vs)"
| "canonicalize v = v"

definition canonical_json_sha256 :: "(json \<Rightarrow> string) \<Rightarrow> json \<Rightarrow> string" where
  "canonical_json_sha256 digest v = ''sha256:'' @ digest (canonicalize v)"

text \<open>The entries of a value are kept in key order, so hashing it canonically changes nothing.\<close>

lemma canonicalize_ok: "json_ok v \<Longrightarrow> canonicalize v = v"
proof (induction v rule: canonicalize.induct)
  case (1 es)
  have ok: "sorted_wrt (<) (map fst es)" "\<And>e. e \<in> set es \<Longrightarrow> json_ok (snd e)"
    using 1(2) by (auto simp: list_all_iff)
  have es: "map (\<lambda>(k, v). (k, canonicalize v)) es = es"
  proof (rule map_idI)
    fix e
    assume e: "e \<in> set es"
    have "canonicalize (snd e) = snd e"
      by (rule 1(1) [OF e prod.collapse]) (rule ok(2) [OF e])
    then show "(case e of (k, v) \<Rightarrow> (k, canonicalize v)) = e" by (simp add: case_prod_unfold)
  qed
  have "sorted (map fst es)" using ok(1) strict_sorted_imp_sorted by blast
  then show ?case by (simp add: es sort_key_id_if_sorted)
next
  case (2 vs)
  then show ?case by (auto simp: list_all_iff intro: map_idI)
qed simp_all

end
