(* ===== verification/HostedOperator.thy ===== *)
theory HostedOperator
  imports HostedControl CanonicalJson
begin

text \<open>
  The operator's side of the hosted controller: \<open>hosted_controller/control.rs\<close> of the API over the
  store's control call.
\<close>

section \<open>The calls\<close>

record action_response =
  ar_id :: string
  ar_lifecycle_stage :: string
  ar_resource :: string
  ar_status :: string
  ar_effect_class :: string
  ar_blockers :: "string list"
  ar_approval_required :: bool
  ar_approval_requirements :: "string list"
  ar_external_effect_summary :: string
  ar_state_hash :: string

datatype operator_error =
    OeUnknownAction
  | OeUnavailable
  | OeControlChanged
  | OeClock
  | OeStore hosted_error

definition control_material :: "reconciliation \<Rightarrow> json" where
  "control_material r = JObject
     [(''control'', JString (hr_control r)), (''control_version'', JNumber (show_int (hr_control_version r))),
      (''work_item_id'', JString (hr_work_item_id r))]"

definition control_hash :: "(json \<Rightarrow> string) \<Rightarrow> reconciliation \<Rightarrow> string" where
  "control_hash digest r = canonical_json_sha256 digest (control_material r)"

definition public_state :: "reconciliation \<Rightarrow> json" where
  "public_state r = JObject
     [(''as_of'', JString (show_int (hr_updated_at r))), (''condition'', JString (hr_condition r)),
      (''control'', JString (hr_control r)), (''control_version'', JNumber (show_int (hr_control_version r))),
      (''next_check_at'', JString (show_int (hr_next_due_at r))),
      (''observation_and_authorized_recovery_continue'', JBool True), (''reason'', JString (hr_condition_reason r))]"

definition cancel_summary :: string where
  "cancel_summary = ''Cancel future development and promotion. Existing evidence is retained; observation and already-authorized release recovery continue.''"

definition offered_controls :: "string \<Rightarrow> (string \<times> string) list" where
  "offered_controls control =
     (if control = ''paused''
      then [(''resume_workflow'', ''Resume new development and promotion within the saved authorization.''),
            (''cancel_workflow'', cancel_summary)]
      else [(''pause_workflow'', ''Pause new development and promotion. Work already dispatched may finish; observation and already-authorized release recovery continue.''),
            (''cancel_workflow'', cancel_summary)])"

definition control_actions :: "(json \<Rightarrow> string) \<Rightarrow> reconciliation \<Rightarrow> bool \<Rightarrow> action_response list" where
  "control_actions digest r closed =
     (if closed \<or> hr_control r = ''cancelled'' then []
      else map (\<lambda>(action, summary).
        \<lparr>ar_id = action, ar_lifecycle_stage = ''workflow'', ar_resource = hr_work_item_id r,
         ar_status = ''ready'', ar_effect_class = ''workflow_control'', ar_blockers = [],
         ar_approval_required = True, ar_approval_requirements = [],
         ar_external_effect_summary = summary, ar_state_hash = control_hash digest r\<rparr>)
        (offered_controls (hr_control r)))"

definition control_of_action :: "string \<Rightarrow> string option" where
  "control_of_action action =
     (if action = ''pause_workflow'' then Some ''paused''
      else if action = ''resume_workflow'' then Some ''active''
      else if action = ''cancel_workflow'' then Some ''cancelled''
      else None)"

definition execute_control ::
    "(json \<Rightarrow> string) \<Rightarrow> hosted_store \<Rightarrow> string \<Rightarrow> string \<Rightarrow> string \<Rightarrow> string \<Rightarrow> string \<Rightarrow> int
       \<Rightarrow> (operator_error, hosted_store \<times> json) res" where
  "execute_control digest s w action expected_hash actor reason millis =
     res_bind (ok_or (control_of_action action) OeUnknownAction) (\<lambda>control.
     res_bind (ok_or (load_row s w) OeUnavailable) (\<lambda>current.
       if control_hash digest current \<noteq> expected_hash \<or>
          \<not> list_ex (\<lambda>a. ar_id a = action) (control_actions digest current False)
       then Inl OeControlChanged
       else if i64_max < millis then Inl OeClock
       else case set_workflow_control s w (hr_control_version current) control actor reason millis of
           Inl e \<Rightarrow> Inl (OeStore e)
         | Inr (s', updated) \<Rightarrow>
             Inr (s', JObject [(''work_item_id'', JString w), (''workflow_control'', public_state updated)])))"

section \<open>Decisions\<close>

lemma control_material_ok: "json_ok (control_material r)"
  by (simp add: control_material_def less_char_def)

lemma control_hash_eq:
  assumes "inj_on digest (range control_material)" "control_hash digest r = control_hash digest r'"
  shows "hr_work_item_id r = hr_work_item_id r' \<and> hr_control r = hr_control r' \<and> hr_control_version r = hr_control_version r'"
proof -
  from assms have "control_material r = control_material r'"
    by (simp add: control_hash_def canonical_json_sha256_def canonicalize_ok control_material_ok inj_on_eq_iff)
  then show ?thesis by (auto simp: control_material_def dest: show_int_inj)
qed

lemma execute_control_cases:
  assumes "execute_control digest s w action h actor reason now = Inr (s1, v)"
  obtains control r r1 where "control_of_action action = Some control" "load_row s w = Some r"
    "control_hash digest r = h" "set_workflow_control s w (hr_control_version r) control actor reason now = Inr (s1, r1)"
    "hr_control r \<noteq> ''cancelled''" "action \<in> fst ` set (offered_controls (hr_control r))"
    "v = JObject [(''work_item_id'', JString w), (''workflow_control'', public_state r1)]"
proof -
  from assms obtain control r where c: "control_of_action action = Some control" and r: "load_row s w = Some r"
    by (cases "control_of_action action"; cases "load_row s w") (auto simp: execute_control_def)
  with assms have g: "control_hash digest r = h" "list_ex (\<lambda>a. ar_id a = action) (control_actions digest r False)"
    by (auto simp: execute_control_def split: if_splits)
  then have o: "hr_control r \<noteq> ''cancelled''" "action \<in> fst ` set (offered_controls (hr_control r))"
    by (auto simp: control_actions_def list_ex_iff split: if_splits intro: rev_image_eqI)
  from assms c r g have "\<exists>r1. set_workflow_control s w (hr_control_version r) control actor reason now = Inr (s1, r1) \<and>
      v = JObject [(''work_item_id'', JString w), (''workflow_control'', public_state r1)]"
    by (auto simp: execute_control_def split: if_splits sum.splits)
  with c r g(1) o that show thesis by blast
qed

text \<open>A decision applies once and only to what the operator saw: the hash an accepted decision was
  made on is the hash of the item's current control, and no later decision on that hash is accepted, in
  any later store and for any action. The digest is taken to tell the hashed control states apart.\<close>
theorem decision_applies_once:
  assumes "inj_on digest (range control_material)" "hosted_reachable allowed s"
    "execute_control digest s w action (control_hash digest seen) actor reason now = Inr (s1, v)"
    "hosted_steps allowed' s1 s2"
  shows "(\<exists>r. load_row s w = Some r \<and> hr_control r = hr_control seen \<and> hr_control_version r = hr_control_version seen \<and>
      (\<exists>control. control_of_action action = Some control \<and> control \<noteq> hr_control r)) \<and>
    isl (execute_control digest s2 w action' (control_hash digest seen) actor' reason' now')"
proof (rule execute_control_cases [OF assms(3)])
  fix control r r1
  assume c: "control_of_action action = Some control" and r: "load_row s w = Some r"
    and h: "control_hash digest r = control_hash digest seen" and o: "hr_control r \<noteq> ''cancelled''"
      "action \<in> fst ` set (offered_controls (hr_control r))"
    and set: "set_workflow_control s w (hr_control_version r) control actor reason now = Inr (s1, r1)"
  have s: "hosted_inv s" by (rule hosted_reachable_inv [OF assms(2)])
  note same = control_hash_eq [OF assms(1) h]
  have ok: "hr_control r \<in> {''active'', ''paused'', ''cancelled''}"
    using r inv_row_ok [OF s] by (simp add: load_row_iff [OF s] row_ok_def)
  have different: "control \<noteq> hr_control r"
    using c o ok by (auto simp: control_of_action_def offered_controls_def split: if_splits)
  have s1: "load_row s1 w = Some r1" "hr_control_version r1 = hr_control_version r + 1"
    by (rule control_cases [OF set s], use r in simp)+
  have later: "isl (execute_control digest s2 w action' (control_hash digest seen) actor' reason' now')"
  proof (rule ccontr)
    assume "\<not> isl (execute_control digest s2 w action' (control_hash digest seen) actor' reason' now')"
    then obtain s3 v3 where "execute_control digest s2 w action' (control_hash digest seen) actor' reason' now' = Inr (s3, v3)"
      by (cases "execute_control digest s2 w action' (control_hash digest seen) actor' reason' now'") auto
    then obtain r2 where r2: "load_row s2 w = Some r2" "control_hash digest r2 = control_hash digest seen"
      by (rule execute_control_cases)
    have "row_step r1 r2"
      using hosted_growsD(1) [OF hosted_steps_grow [OF assms(4) control_inv [OF set s]] s1(1) r2(1)] .
    with s1(2) same control_hash_eq [OF assms(1) r2(2)] show False by (simp add: row_step_def)
  qed
  show ?thesis using r same c different later by blast
qed

text \<open>Every offered action works: an action offered for the current control of an open item, decided
  with the hash it was offered with, is accepted and puts that control in force.\<close>
theorem offered_action_accepted:
  assumes "hosted_reachable allowed s" "load_row s w = Some r" "is_open s w" "a \<in> set (control_actions digest r False)"
    "\<not> is_blank actor" "\<not> is_blank reason" "now \<le> i64_max"
  shows "\<exists>s1 r1 v. execute_control digest s w (ar_id a) (ar_state_hash a) actor reason now = Inr (s1, v) \<and>
    load_row s1 w = Some r1 \<and> control_of_action (ar_id a) = Some (hr_control r1) \<and>
    v = JObject [(''work_item_id'', JString w), (''workflow_control'', public_state r1)]"
proof -
  note s = hosted_reachable_inv [OF assms(1)]
  from assms(4) obtain control where a: "hr_control r \<noteq> ''cancelled''" "ar_state_hash a = control_hash digest r"
    "control_of_action (ar_id a) = Some control" "control \<in> {''active'', ''paused'', ''cancelled''}"
    by (auto simp: control_actions_def offered_controls_def control_of_action_def split: if_splits)
  have listed: "list_ex (\<lambda>b. ar_id b = ar_id a) (control_actions digest r False)"
    using assms(4) by (auto simp: list_ex_iff)
  let ?r1 = "controlled_row control reason now r"
  obtain s1 where c: "set_workflow_control s w (hr_control_version r) control actor reason now = Inr (s1, ?r1)"
    using control_never_refused [OF s assms(2) refl a(1) assms(3) a(4) assms(5, 6)] by blast
  have "load_row s1 w = Some ?r1" by (rule control_cases [OF c s]) simp
  moreover have "execute_control digest s w (ar_id a) (ar_state_hash a) actor reason now =
      Inr (s1, JObject [(''work_item_id'', JString w), (''workflow_control'', public_state ?r1)])"
    using assms(2, 7) a(2, 3) listed c by (simp add: execute_control_def)
  ultimately show ?thesis using a(3) by auto
qed

end
