(* ===== verification/HostedScheduler.thy ===== *)
theory HostedScheduler
  imports HostedGrowth
begin

text \<open>
  One tick of the hosted scheduler: \<open>hosted_controller/scheduler.rs\<close> of the API over the store. What a
  pass finds and does in the rest of the application is a draw: the snapshot of the work item or the
  error of loading it, then the store calls of \<open>progression::advance\<close> and its condition, the clock at
  the claim and at the end, and whether the pass timed out.
\<close>

section \<open>A tick\<close>

definition CONTROLLER_WAIT_INTERVAL_MS :: int where "CONTROLLER_WAIT_INTERVAL_MS = 15000"
definition CONTROLLER_WAIT_MAX_CHECKS :: int where "CONTROLLER_WAIT_MAX_CHECKS = 240"
definition MAX_CLAIMS_PER_TICK :: nat where "MAX_CLAIMS_PER_TICK = 64"

text \<open>\<open>td_snapshot\<close>: the error message, or the snapshot's hash; \<open>td_advance\<close> is applied to the claim and to
  whether its wait expired, and gives the calls made and an error message or the condition reached.\<close>

record tick_draw =
  td_claimed_at :: int
  td_finished_at :: int
  td_snapshot :: "(string, string) res"
  td_advance :: "reconciliation \<Rightarrow> bool \<Rightarrow> hosted_call list \<times> (string, string \<times> string) res"
  td_timed_out :: bool

definition wait_expired :: "reconciliation \<Rightarrow> string \<Rightarrow> bool" where
  "wait_expired c hash \<longleftrightarrow>
     CONTROLLER_WAIT_MAX_CHECKS \<le> hr_unchanged_checks c \<and> hr_observed_state_hash c = Some hash"

definition pass_result :: "tick_draw \<Rightarrow> reconciliation \<Rightarrow> hosted_call list \<times> (string, string \<times> string) res" where
  "pass_result d c =
     (case td_snapshot d of
        Inl message \<Rightarrow> ([], Inl message)
      | Inr hash \<Rightarrow> td_advance d c (wait_expired c hash))"

definition pass_condition :: "(string, string \<times> string) res \<Rightarrow> string \<times> string" where
  "pass_condition result = (case result of Inr condition \<Rightarrow> condition | Inl message \<Rightarrow> (''blocked'', message))"

definition pass_finish :: "tick_draw \<Rightarrow> string \<times> string \<Rightarrow> finish_reconciliation" where
  "pass_finish d condition =
     \<lparr>hf_next_due_at = saturating_add (td_finished_at d) CONTROLLER_WAIT_INTERVAL_MS,
      hf_condition = fst condition, hf_reason = snd condition,
      hf_observed_state_hash = (case td_snapshot d of Inr hash \<Rightarrow> Some hash | Inl _ \<Rightarrow> None)\<rparr>"

text \<open>The store afterwards and \<open>Ok(claimed)\<close>, or \<open>None\<close> for a failed pass.\<close>

definition reconcile_once :: "hosted_store \<Rightarrow> string \<Rightarrow> tick_draw \<Rightarrow> hosted_store \<times> bool option" where
  "reconcile_once s owner d =
     (case claim_due_workflow s owner (td_claimed_at d) 60000 of
        Inl _ \<Rightarrow> (s, None)
      | Inr (s1, None) \<Rightarrow> (s1, Some False)
      | Inr (s1, Some c) \<Rightarrow>
          let (calls, result) = pass_result d c;
              s2 = run_hosted s1 calls in
          if td_timed_out d then (s2, None)
          else case finish_workflow_reconciliation s2 c (pass_finish d (pass_condition result)) (td_finished_at d) of
              Inl _ \<Rightarrow> (s2, None)
            | Inr s3 \<Rightarrow> (s3, Some True))"

text \<open>The loop of \<open>reconcile_due\<close> with its bound; the draw of each iteration is numbered.\<close>

fun drain :: "nat \<Rightarrow> hosted_store \<Rightarrow> string \<Rightarrow> (nat \<Rightarrow> tick_draw) \<Rightarrow> nat \<Rightarrow> hosted_store \<times> nat" where
  "drain 0 s owner draws claimed = (s, claimed)"
| "drain (Suc n) s owner draws claimed =
     (case reconcile_once s owner (draws 0) of
        (s', Some True) \<Rightarrow> drain n s' owner (\<lambda>i. draws (Suc i)) (Suc claimed)
      | (s', Some False) \<Rightarrow> (s', claimed)
      | (s', None) \<Rightarrow> drain n s' owner (\<lambda>i. draws (Suc i)) claimed)"

definition reconcile_due :: "hosted_store \<Rightarrow> string \<Rightarrow> (nat \<Rightarrow> tick_draw) \<Rightarrow> hosted_store \<times> nat" where
  "reconcile_due s owner draws = drain MAX_CLAIMS_PER_TICK s owner draws 0"

section \<open>What is due\<close>

definition due_items :: "hosted_store \<Rightarrow> int \<Rightarrow> string set" where
  "due_items s t = {w. \<exists>r. load_row s w = Some r \<and> claimable t r \<and> eligible s w}"

lemma due_items_rows: "hosted_inv s \<Longrightarrow> due_items s t = snd ` set (due_rows s t)"
  by (auto simp: due_items_def due_rows_def load_row_iff image_iff)

lemma due_items_finite: "hosted_inv s \<Longrightarrow> finite (due_items s t)"
  by (simp add: due_items_rows)

lemma due_items_card:
  assumes "hosted_inv s"
  shows "card (due_items s t) = length (due_rows s t)"
proof -
  have "distinct (map snd (due_rows s t))"
    using distinct_map_filter [OF hosted_invD(1) [OF assms]] by (simp add: due_rows_def o_def)
  then show ?thesis using distinct_card [of "map snd (due_rows s t)"] by (simp add: due_items_rows [OF assms])
qed

lemma due_items_nil: "hosted_inv s \<Longrightarrow> due_items s t = {} \<longleftrightarrow> due_rows s t = []"
  by (simp add: due_items_rows)

lemma claimable_mono: "claimable t r \<Longrightarrow> t \<le> t' \<Longrightarrow> claimable t' r"
  by (auto simp: claimable_def split: option.splits)

lemma due_items_mono: "t \<le> t' \<Longrightarrow> due_items s t \<subseteq> due_items s t'"
  by (auto simp: due_items_def intro: claimable_mono)

section \<open>Calls of a pass\<close>

text \<open>A pass calls the store under its own claim.\<close>

definition own_call :: "reconciliation \<Rightarrow> hosted_call \<Rightarrow> bool" where
  "own_call c call \<longleftrightarrow>
     (\<exists>q now. call = HcBegin c q now) \<or> (\<exists>q now. call = HcRelease c q now) \<or>
     (\<exists>q status refs reason now. call = HcRecord c q status refs reason now)"

text \<open>It changes nothing about another item, and not when its own is due.\<close>

definition same_due :: "string \<Rightarrow> hosted_store \<Rightarrow> hosted_store \<Rightarrow> bool" where
  "same_due w s s' \<longleftrightarrow>
     (\<forall>v. v \<noteq> w \<longrightarrow> load_row s' v = load_row s v \<and> (eligible s' v \<longleftrightarrow> eligible s v)) \<and>
     (\<forall>r'. load_row s' w = Some r' \<longrightarrow>
        (\<exists>r. load_row s w = Some r \<and> hr_next_due_at r' = hr_next_due_at r \<and> hr_claim_until r' = hr_claim_until r))"

lemma same_due_refl [simp]: "same_due w s s"
  by (simp add: same_due_def)

lemma same_due_trans: "same_due w s1 s2 \<Longrightarrow> same_due w s2 s3 \<Longrightarrow> same_due w s1 s3"
  unfolding same_due_def by (metis (no_types, lifting))

lemma active_iff:
  assumes "hosted_inv s"
  shows "active_workflow_operation s v \<noteq> None \<longleftrightarrow> (\<exists>q x. load_hosted_op s q = Some x \<and> ho_work_item_id x = v \<and> unfinished x)"
  by (auto simp: active_workflow_operation_def find_None_iff load_hosted_op_iff [OF assms])

lemma same_dueI:
  assumes "hosted_inv s" "hosted_inv s'" "hs_items s' = hs_items s"
    "load_row s w = Some r" "load_row s' = (load_row s)(w \<mapsto> r\<lparr>hr_updated_at := now\<rparr>)"
    "\<And>q x. ho_work_item_id x \<noteq> w \<Longrightarrow> load_hosted_op s' q = Some x \<longleftrightarrow> load_hosted_op s q = Some x"
  shows "same_due w s s'"
proof -
  have "eligible s' v \<longleftrightarrow> eligible s v" if "v \<noteq> w" for v
    using active_iff [OF assms(1), of v] active_iff [OF assms(2), of v] assms(6) that
    by (auto simp: eligible_def is_open_def assms(3))
  then show ?thesis using assms(4, 5) by (simp add: same_due_def)
qed

lemma fence_items: "fence_claim s c now = Inr s1 \<Longrightarrow> hs_items s1 = hs_items s"
  by (erule fence_claimE) simp

lemma begin_items:
  assumes "begin_workflow_operation s c q now = Inr (s2, x)" "hosted_inv s"
  shows "hs_items s2 = hs_items s"
  using assms
proof (cases rule: begin_cases)
  case (known s1)
  then show ?thesis using fence_items [OF known(1)] by simp
next
  case (relocked s1)
  then show ?thesis using fence_items [OF relocked(1)] take_locks_same(3) [OF relocked(5)] by simp
next
  case (fresh s1)
  then show ?thesis using fence_items [OF fresh(1)] take_locks_same(3) [OF fresh(10)] by simp
qed

lemma record_items:
  assumes "record_workflow_operation s c q status refs reason now = Inr (s2, y)" "hosted_inv s"
  shows "hs_items s2 = hs_items s"
  by (rule record_cases [OF assms]) (auto simp: Let_def dest: fence_items)

lemma own_call_due:
  assumes "own_call c call" "hosted_inv s"
  shows "same_due (hr_work_item_id c) s (hosted_apply s call)"
proof -
  let ?w = "hr_work_item_id c"
  have fence: "same_due ?w s s2"
    if "fence_claim s c now = Inr s1" "load_row s2 = load_row s1" "hs_items s2 = hs_items s1" "hosted_inv s2"
      "\<And>q x. ho_work_item_id x \<noteq> ?w \<Longrightarrow> load_hosted_op s2 q = Some x \<longleftrightarrow> load_hosted_op s q = Some x" for s1 s2 now
  proof (rule fence_cases [OF that(1) assms(2)])
    fix r
    assume "load_row s ?w = Some r" "load_row s1 = (load_row s)(?w \<mapsto> r\<lparr>hr_updated_at := now\<rparr>)" "hs_items s1 = hs_items s"
    with that show ?thesis by (intro same_dueI [OF assms(2) that(4)]) simp_all
  qed
  from assms(1) consider (starts) q now where "call = HcBegin c q now" | (release) q now where "call = HcRelease c q now"
    | (recorded) q status refs reason now where "call = HcRecord c q status refs reason now"
    unfolding own_call_def by blast
  then show ?thesis
  proof cases
    case (starts q now)
    have "same_due ?w s s2" if b: "begin_workflow_operation s c q now = Inr (s2, x)" for s2 x
    proof -
      have i: "hosted_inv s2" by (rule begin_inv [OF b assms(2)])
      have items: "hs_items s2 = hs_items s1" if "fence_claim s c now = Inr s1" for s1
        using begin_items [OF b assms(2)] fence_items [OF that] by simp
      show ?thesis using b assms(2)
      proof (cases rule: begin_ops)
        case (same s1)
        then show ?thesis using fence [OF same(1, 2) items [OF same(1)] i] same_ops_load [OF same(3)] by simp
      next
        case (added s1)
        show ?thesis
          by (rule fence [OF added(1, 2) items [OF added(1)] i]) (use append_load [OF added(4, 3)] added(4, 5) in auto)
      qed
    qed
    with starts show ?thesis by (auto simp: kept_fst_def split: sum.splits)
  next
    case (release q now)
    have "same_due ?w s s2" if r: "release_pending_workflow_locks s c q now = Inr s2" for s2
    proof (rule release_cases [OF r assms(2)])
      fix s1
      assume f: "fence_claim s c now = Inr s1" and s2: "s2 = drop_locks s1 q"
      show ?thesis
        by (rule fence [OF f _ _ release_inv [OF r assms(2)]])
          (use fence_same(3) [OF f assms(2)] in \<open>simp_all add: s2 load_row_def load_hosted_op_def fun_eq_iff\<close>)
    qed
    with release show ?thesis by (auto simp: kept_def split: sum.splits)
  next
    case (recorded q status refs reason now)
    have "same_due ?w s s2" if r: "record_workflow_operation s c q status refs reason now = Inr (s2, y)" for s2 y
    proof (rule record_load [OF r assms(2)])
      fix s1 x
      assume f: "fence_claim s c now = Inr s1" and l: "load_row s2 = load_row s1" "load_hosted_op s q = Some x"
        "load_hosted_op s2 = (load_hosted_op s)(q \<mapsto> y)" "op_step x y" "ho_work_item_id x = hr_work_item_id c"
      have "hs_items s2 = hs_items s1" using record_items [OF r assms(2)] fence_items [OF f] by simp
      moreover have "ho_work_item_id y = ?w" using l(4, 5) by (simp add: op_step_def dispatch_identity_def)
      ultimately show ?thesis
        by (intro fence [OF f l(1) _ record_inv [OF r assms(2)]]) (use l in auto)
    qed
    with recorded show ?thesis by (auto simp: kept_fst_def split: sum.splits)
  qed
qed

lemma own_calls_due:
  "list_all (own_call c) calls \<Longrightarrow> hosted_inv s \<Longrightarrow>
     same_due (hr_work_item_id c) s (run_hosted s calls) \<and> hosted_inv (run_hosted s calls)"
proof (induction calls arbitrary: s)
  case (Cons call calls)
  then show ?case
    using own_call_due [of c call s] hosted_apply_inv [of s call] same_due_trans by fastforce
qed simp

section \<open>A tick serves what is due\<close>

text \<open>The clock stays within the tick, short of the wait that finished and claimed items sit out, and
  passes keep to their claim.\<close>

definition tick_ok :: "int \<Rightarrow> int \<Rightarrow> tick_draw \<Rightarrow> bool" where
  "tick_ok t0 t1 d \<longleftrightarrow>
     t0 \<le> td_claimed_at d \<and> td_claimed_at d \<le> t1 \<and> t0 \<le> td_finished_at d \<and>
     (\<forall>c expired. list_all (own_call c) (fst (td_advance d c expired)))"

lemma pass_calls: "tick_ok t0 t1 d \<Longrightarrow> list_all (own_call c) (fst (pass_result d c))"
  by (simp add: tick_ok_def pass_result_def split: sum.split)

lemma saturating_add_beyond:
  "t1 < a + b \<Longrightarrow> t1 < i64_max \<Longrightarrow> t1 < saturating_add a b"
  by (simp add: saturating_add_def sat_i64_def)

lemma same_due_item:
  assumes "same_due w s s'" "load_row s w = Some r" "\<not> claimable t r"
  shows "due_items s' t \<subseteq> due_items s t - {w}"
proof
  fix v
  assume "v \<in> due_items s' t"
  then obtain r' where r': "load_row s' v = Some r'" "claimable t r'" "eligible s' v" by (auto simp: due_items_def)
  show "v \<in> due_items s t - {w}"
  proof (cases "v = w")
    case True
    with assms(1, 2) r'(1) have "hr_next_due_at r' = hr_next_due_at r" "hr_claim_until r' = hr_claim_until r"
      by (auto simp: same_due_def)
    with r'(2) assms(3) show ?thesis by (simp add: claimable_def)
  next
    case False
    with assms(1) r' show ?thesis by (auto simp: same_due_def due_items_def)
  qed
qed

lemma reconcile_once_idle:
  assumes "reconcile_once s owner d = (s', Some False)" "hosted_inv s"
  shows "s' = s \<and> due_items s (td_claimed_at d) = {}"
proof -
  from assms(1) have "claim_due_workflow s owner (td_claimed_at d) 60000 = Inr (s', None)"
    by (auto simp: reconcile_once_def Let_def split: sum.splits option.splits prod.splits if_splits)
  then show ?thesis
    by (rule claim_cases [OF _ assms(2)]) (simp_all add: due_items_nil [OF assms(2)])
qed

lemma reconcile_once_serves:
  assumes "reconcile_once s owner d = (s', out)" "out \<noteq> Some False" "hosted_inv s" "owner \<noteq> []"
    "tick_ok t0 t1 d" "t1 < t0 + CONTROLLER_WAIT_INTERVAL_MS" "t1 < i64_max"
  shows "hosted_inv s' \<and> (\<exists>w \<in> due_items s t1. due_items s' t1 \<subseteq> due_items s t1 - {w})"
proof (cases "claim_due_workflow s owner (td_claimed_at d) 60000")
  case (Inl e)
  with assms(4) show ?thesis by (auto simp: claim_due_workflow_def Let_def split: option.splits)
next
  case (Inr p)
  with assms(1, 2) obtain s1 c where claim: "claim_due_workflow s owner (td_claimed_at d) 60000 = Inr (s1, Some c)"
    by (cases p; cases "snd p") (auto simp: reconcile_once_def)
  let ?t = "td_claimed_at d"
  obtain calls result where pass: "pass_result d c = (calls, result)" by (cases "pass_result d c")
  let ?s2 = "run_hosted s1 calls"
  have i1: "hosted_inv s1" by (rule claim_inv [OF claim assms(3)])
  obtain w r where w: "load_row s w = Some r" "claimable ?t r" "eligible s w" "c = claimed_row owner ?t 60000 r"
    "load_row s1 = (load_row s)(w \<mapsto> c)" "hs_items s1 = hs_items s" "hs_ops s1 = hs_ops s"
    by (rule claim_cases [OF claim assms(3)]) auto
  have c: "hr_work_item_id c = w" using w(1, 4) by (simp add: claimed_row_def load_row_iff [OF assms(3)])
  have times: "t0 \<le> ?t" "?t \<le> t1" "t0 \<le> td_finished_at d" using assms(5) by (simp_all add: tick_ok_def)
  have "eligible s1 = eligible s" using w(6, 7)
    by (simp add: fun_eq_iff eligible_def is_open_def active_workflow_operation_def)
  then have same1: "due_items s1 t1 - {w} = due_items s t1 - {w}" using w(5) by (auto simp: due_items_def)
  have "t1 < saturating_add ?t 60000"
    using times assms(6, 7) by (intro saturating_add_beyond) (simp_all add: CONTROLLER_WAIT_INTERVAL_MS_def)
  then have late: "\<not> claimable t1 c" using w(4) by (simp add: claimable_def claimed_row_def)
  have d: "w \<in> due_items s t1" using w(1-3) claimable_mono times(2) by (auto simp: due_items_def)
  from own_calls_due [OF pass_calls [OF assms(5)] i1] pass c
  have own: "same_due w s1 ?s2" "hosted_inv ?s2" by (metis fst_conv)+
  have l1: "load_row s1 w = Some c" using w(5) by simp
  have two: "due_items ?s2 t1 \<subseteq> due_items s t1 - {w}"
    using same_due_item [OF own(1) l1 late] same1 by simp
  show ?thesis
  proof (cases "\<exists>s3. finish_workflow_reconciliation ?s2 c (pass_finish d (pass_condition result)) (td_finished_at d) = Inr s3 \<and> s' = s3")
    case False
    with assms(1) claim pass have "s' = ?s2"
      by (auto simp: reconcile_once_def Let_def split: if_splits sum.splits)
    with two own(2) d show ?thesis by blast
  next
    case True
    let ?f = "pass_finish d (pass_condition result)"
    from True have f: "finish_workflow_reconciliation ?s2 c ?f (td_finished_at d) = Inr s'" by blast
    have "t1 < saturating_add (td_finished_at d) CONTROLLER_WAIT_INTERVAL_MS"
      using times(3) assms(6, 7) by (intro saturating_add_beyond) simp_all
    then have beyond: "t1 < hf_next_due_at ?f" by (simp add: pass_finish_def)
    have "due_items s' t1 \<subseteq> due_items ?s2 t1"
    proof (rule finish_cases [OF f own(2)])
      fix r2
      assume r2: "load_row s' = (load_row ?s2)(hr_work_item_id c \<mapsto> finished_row ?f (td_finished_at d) r2)"
        and s': "s' = ?s2\<lparr>hs_rows := update_where (holds_claim c (td_finished_at d)) (finished_row ?f (td_finished_at d)) (hs_rows ?s2)\<rparr>"
      have "eligible s' = eligible ?s2"
        by (simp add: s' fun_eq_iff eligible_def is_open_def active_workflow_operation_def)
      with r2 beyond show ?thesis by (auto simp: due_items_def claimable_def finished_row_def split: if_splits)
    qed
    with two d finish_inv [OF f own(2)] show ?thesis by blast
  qed
qed

lemma drain_serves:
  assumes "hosted_inv s" "owner \<noteq> []" "\<And>i. tick_ok t0 t1 (draws i)"
    "t1 < t0 + CONTROLLER_WAIT_INTERVAL_MS" "t1 < i64_max" "card (due_items s t1) \<le> n"
  shows "due_items (fst (drain n s owner draws k)) t0 = {} \<and>
    snd (drain n s owner draws k) \<le> k + card (due_items s t1) \<and> hosted_inv (fst (drain n s owner draws k))"
  using assms
proof (induction n s owner draws k rule: drain.induct)
  case (1 s owner draws claimed)
  then have "due_items s t1 = {}" using due_items_finite by simp
  moreover have "t0 \<le> t1" using "1.prems"(3) [of 0] by (simp add: tick_ok_def)
  ultimately show ?case using due_items_mono [of t0 t1 s] "1.prems"(1) by simp
next
  case (2 n s owner draws claimed)
  obtain s' out where o: "reconcile_once s owner (draws 0) = (s', out)" by (cases "reconcile_once s owner (draws 0)")
  show ?case
  proof (cases "out = Some False")
    case True
    from reconcile_once_idle [OF o [unfolded True] "2.prems"(1)] have "s' = s" "due_items s (td_claimed_at (draws 0)) = {}"
      by blast+
    moreover have "t0 \<le> td_claimed_at (draws 0)" using "2.prems"(3) [of 0] by (simp add: tick_ok_def)
    ultimately show ?thesis using due_items_mono o True "2.prems"(1) by fastforce
  next
    case False
    note served = reconcile_once_serves [OF o False "2.prems"(1, 2, 3, 4, 5)]
    then obtain w where i: "hosted_inv s'" and w: "w \<in> due_items s t1" "due_items s' t1 \<subseteq> due_items s t1 - {w}" by blast
    have "card (due_items s' t1) < card (due_items s t1)"
      using w due_items_finite [OF "2.prems"(1)] by (intro psubset_card_mono) auto
    then have less: "card (due_items s' t1) \<le> n" "Suc (card (due_items s' t1)) \<le> card (due_items s t1)"
      using "2.prems"(6) by simp_all
    note ih = "2.IH" [OF o [symmetric]]
    show ?thesis
    proof (cases out)
      case None
      from ih(1) [OF None i "2.prems"(2, 3, 4, 5) less(1)] less(2) o None show ?thesis by simp
    next
      case (Some b)
      with False have b: "out = Some True" "b = True" by simp_all
      with ih(2) [OF Some b(2) i "2.prems"(2, 3, 4, 5) less(1)] less(2) o b(1) show ?thesis by simp
    qed
  qed
qed

lemma due_metric: "hosted_inv s \<Longrightarrow> hm_due_unclaimed (hosted_controller_metrics s t) = card (due_items s t)"
  by (simp add: hosted_controller_metrics_def Let_def due_items_card due_rows_def conj_commute)

lemma reconcile_once_none:
  assumes "due_items s t1 = {}" "hosted_inv s" "owner \<noteq> []" "tick_ok t0 t1 d"
  shows "reconcile_once s owner d = (s, Some False)"
proof -
  have "due_items s (td_claimed_at d) = {}"
    using assms(1, 4) due_items_mono [of "td_claimed_at d" t1 s] by (auto simp: tick_ok_def)
  then have "due_rows s (td_claimed_at d) = []" by (simp add: due_items_nil [OF assms(2)])
  then show ?thesis using assms(3) by (simp add: reconcile_once_def claim_due_workflow_def)
qed

lemma drain_enough:
  assumes "hosted_inv s" "owner \<noteq> []" "\<And>i. tick_ok t0 t1 (draws i)"
    "t1 < t0 + CONTROLLER_WAIT_INTERVAL_MS" "t1 < i64_max" "card (due_items s t1) \<le> n"
  shows "drain (n + extra) s owner draws k = drain n s owner draws k"
  using assms
proof (induction n s owner draws k rule: drain.induct)
  case (1 s owner draws claimed)
  then have "due_items s t1 = {}" using due_items_finite by simp
  from reconcile_once_none [OF this "1.prems"(1-3)] show ?case by (cases extra) simp_all
next
  case (2 n s owner draws claimed)
  obtain s' out where o: "reconcile_once s owner (draws 0) = (s', out)" by (cases "reconcile_once s owner (draws 0)")
  show ?case
  proof (cases "out = Some False")
    case True
    with o show ?thesis by simp
  next
    case False
    then obtain w where i: "hosted_inv s'" and w: "w \<in> due_items s t1" "due_items s' t1 \<subseteq> due_items s t1 - {w}"
      using reconcile_once_serves [OF o False "2.prems"(1, 2, 3, 4, 5)] by blast
    have "card (due_items s' t1) < card (due_items s t1)"
      using w due_items_finite [OF "2.prems"(1)] by (intro psubset_card_mono) auto
    then have less: "card (due_items s' t1) \<le> n" using "2.prems"(6) by simp
    note ih = "2.IH" [OF o [symmetric]]
    show ?thesis
    proof (cases out)
      case None
      from ih(1) [OF None i "2.prems"(2, 3, 4, 5) less] o None show ?thesis by simp
    next
      case (Some b)
      with False have b: "out = Some True" "b = True" by simp_all
      with ih(2) [OF Some b(2) i "2.prems"(2, 3, 4, 5) less] o show ?thesis by simp
    qed
  qed
qed



end
