(* ===== verification/HostedExamples.thy ===== *)
theory HostedExamples
  imports HostedProperties HostedOperator HostedScheduler
begin

text \<open>
  Two work items of a small deployment, and the guarantees of the hosted store applied to them.
\<close>

section \<open>The deployment\<close>

fun allowed_run :: "(hosted_store \<Rightarrow> hosted_call \<Rightarrow> bool) \<Rightarrow> hosted_store \<Rightarrow> hosted_call list \<Rightarrow> bool" where
  "allowed_run A s [] \<longleftrightarrow> True"
| "allowed_run A s (c # cs) \<longleftrightarrow> A s c \<and> allowed_run A (hosted_apply s c) cs"

lemma run_steps: "allowed_run A s cs \<Longrightarrow> hosted_steps A s (run_hosted s cs)"
  by (induction cs arbitrary: s) (auto intro: hosted_steps.intros)

lemma run_any: "hosted_steps any_hosted_call s (run_hosted s cs)"
  by (induction cs arbitrary: s) (auto intro: hosted_steps.intros)

definition first_claim :: reconciliation where
  "first_claim = claimed_row ''a'' 10 1000 (enrolled_row ''w1'' 0)"

definition second_claim :: reconciliation where
  "second_claim = claimed_row ''b'' 12 1000 (enrolled_row ''w2'' 0)"

definition coding_op :: begin_hosted where
  "coding_op = \<lparr>hb_id = ''op1'', hb_action = ''start_planner'', hb_input_hash = ''h1'', hb_effect = ''development'',
     hb_resource_keys = [''repository:r1'', ''coding'']\<rparr>"

definition build_op :: begin_hosted where
  "build_op = \<lparr>hb_id = ''op2'', hb_action = ''build'', hb_input_hash = ''h2'', hb_effect = ''observation'',
     hb_resource_keys = [''repository:r2'']\<rparr>"

definition claimed_calls :: "hosted_call list" where
  "claimed_calls = [HcEnroll ''w1'' True 0, HcEnroll ''w2'' True 0, HcClaim ''a'' 10 1000]"

definition pending_calls :: "hosted_call list" where
  "pending_calls = claimed_calls @ [HcBegin first_claim coding_op 11]"

definition dispatched_calls :: "hosted_call list" where
  "dispatched_calls = pending_calls @
     [HcClaim ''b'' 12 1000, HcBegin second_claim build_op 13,
      HcRecord first_claim ''op1'' ''running'' empty_object ''Started'' 14,
      HcRecord second_claim ''op2'' ''running'' empty_object ''Started'' 15]"

definition claimed_store :: hosted_store where "claimed_store = run_hosted empty_hosted claimed_calls"
definition pending_store :: hosted_store where "pending_store = run_hosted empty_hosted pending_calls"
definition dispatched_store :: hosted_store where "dispatched_store = run_hosted empty_hosted dispatched_calls"

lemma deployment_reachable:
  "hosted_reachable any_hosted_call claimed_store" "hosted_reachable any_hosted_call pending_store"
  "hosted_reachable any_hosted_call dispatched_store"
  by (simp_all add: hosted_reachable_def claimed_store_def pending_store_def dispatched_store_def run_any)

lemma dispatched_reachable: "hosted_reachable dispatches_locked dispatched_store"
proof -
  have "allowed_run dispatches_locked empty_hosted dispatched_calls" by code_simp
  then show ?thesis by (simp add: hosted_reachable_def dispatched_store_def run_steps)
qed

section \<open>Claims and locks\<close>

lemma superseded_claim_fenced_witness:
  "isl (begin_workflow_operation (hosted_apply claimed_store (HcClaim ''b'' 2000 60000)) first_claim coding_op 20)"
proof -
  let ?r = "claimed_row ''b'' 2000 60000 first_claim"
  have "hr_claim_fence first_claim \<le> 1" "load_row claimed_store (hr_work_item_id first_claim) = Some first_claim"
    "hr_claim_fence first_claim = 1" "hr_work_item_id ?r = hr_work_item_id first_claim"
    "claim_due_workflow claimed_store ''b'' 2000 60000 =
       Inr (hosted_apply claimed_store (HcClaim ''b'' 2000 60000), Some ?r)"
    by code_simp+
  from superseded_claim_fenced [OF deployment_reachable(1) this(1-3) disjI1 [OF this(5)] this(4) hosted_here]
  show ?thesis by blast
qed


lemma released_operation_runs_unlocked_witness:
  "\<exists>s2 x. record_workflow_operation (drop_locks (hosted_apply claimed_store (HcBegin first_claim coding_op 11)) ''op1'')
     first_claim ''op1'' ''running'' empty_object ''Started'' 16 = Inr (s2, x) \<and> locked_keys s2 ''op1'' = []"
proof -
  let ?s1 = "drop_locks pending_store ''op1''"
  have p: "hosted_apply claimed_store (HcBegin first_claim coding_op 11) = pending_store" by code_simp
  obtain s1 where s1: "release_pending_workflow_locks pending_store first_claim ''op1'' 11 = Inr s1" "s1 = ?s1"
  proof -
    have "release_pending_workflow_locks pending_store first_claim ''op1'' 11 = Inr ?s1" by code_simp
    then show ?thesis using that by blast
  qed
  have "load_row pending_store (hr_work_item_id first_claim) = Some (first_claim\<lparr>hr_updated_at := 11\<rparr>)"
    "hr_claim_until (first_claim\<lparr>hr_updated_at := 11\<rparr>) = Some 1010" "(16::int) < 1010" "is_object empty_object"
    by code_simp+
  from released_operation_runs_unlocked [OF deployment_reachable(2) s1(1) this]
  show ?thesis unfolding p s1(2) by blast
qed

section \<open>Control\<close>

lemma stopped_work_starts_nothing_witness:
  "set (development_ids (run_hosted (hosted_apply pending_store (HcControl ''w1'' 1 ''paused'' ''op'' ''stop'' 20))
     [HcClaim ''c'' 21 1000, HcWake ''w1'' 22]) ''w1'') = {''op1''}"
proof -
  let ?stop = "HcControl ''w1'' 1 ''paused'' ''op'' ''stop'' 20"
  let ?s = "hosted_apply pending_store ?stop"
  let ?r = "controlled_row ''paused'' ''stop'' 20 first_claim"
  let ?cs = "[HcClaim ''c'' 21 1000, HcWake ''w1'' 22]"
  have "?s = run_hosted empty_hosted (pending_calls @ [?stop])"
    by (simp add: pending_store_def pending_calls_def claimed_calls_def)
  then have reach: "hosted_reachable any_hosted_call ?s" by (simp only: hosted_reachable_def run_any)
  have r: "load_row ?s ''w1'' = Some ?r" "hr_control ?r \<noteq> ''active''" by code_simp+
  have "hosted_steps (\<lambda>_ c. hr_control ?r = ''cancelled'' \<or> \<not> resumes ''w1'' c) ?s (run_hosted ?s ?cs)"
    by (rule run_steps) (simp add: resumes_def)
  from stopped_work_starts_nothing [OF reach r this]
  have "set (development_ids (run_hosted ?s ?cs) ''w1'') = set (development_ids ?s ''w1'')" by blast
  also have "development_ids ?s ''w1'' = [''op1'']" by code_simp
  finally show ?thesis by simp
qed

lemma operation_record_durable_witness:
  "\<exists>y. load_hosted_op (run_hosted dispatched_store [HcRecord first_claim ''op1'' ''succeeded'' empty_object ''Done'' 20]) ''op1'' = Some y \<and>
    ho_action y = ''start_planner''"
proof -
  let ?x = "the (load_hosted_op dispatched_store ''op1'')"
  let ?cs = "[HcRecord first_claim ''op1'' ''succeeded'' empty_object ''Done'' 20]"
  have "load_hosted_op dispatched_store ''op1'' = Some ?x" "ho_action ?x = ''start_planner''" by code_simp+
  with operation_record_durable [OF dispatched_reachable this(1) run_any [of dispatched_store ?cs]]
  show ?thesis by (auto simp: dispatch_identity_def simp del: run_hosted.simps)
qed

text \<open>A digest that frames the strings of a control state, so that it tells any two apart.\<close>

definition frame :: "string \<Rightarrow> string" where
  "frame s = replicate (length s) CHR ''1'' @ CHR ''0'' # s"

definition framing_digest :: "json \<Rightarrow> string" where
  "framing_digest v =
     (case v of JObject [(_, JString a), (_, JNumber n), (_, JString b)] \<Rightarrow> frame a @ frame n @ frame b | _ \<Rightarrow> [])"

lemma ones_cancel:
  "replicate m CHR ''1'' @ CHR ''0'' # x = replicate n CHR ''1'' @ CHR ''0'' # (y::string) \<Longrightarrow> x = y \<and> m = n"
proof (induction m arbitrary: n)
  case 0
  then show ?case by (cases n) auto
next
  case (Suc m)
  then show ?case by (cases n) auto
qed

lemma frame_cancel:
  assumes "frame s @ t = frame s' @ t'"
  shows "s = s' \<and> t = t'"
proof -
  from assms have "replicate (length s) CHR ''1'' @ CHR ''0'' # s @ t = replicate (length s') CHR ''1'' @ CHR ''0'' # s' @ t'"
    by (simp add: frame_def)
  from ones_cancel [OF this] show ?thesis by (metis append_eq_append_conv)
qed

lemma frame_inj: "frame s = frame s' \<Longrightarrow> s = s'"
  using frame_cancel [of s "[]" s' "[]"] by simp

lemma framing_digest_inj: "inj_on framing_digest (range control_material)"
proof (rule inj_onI)
  fix x y
  assume "x \<in> range control_material" "y \<in> range control_material" "framing_digest x = framing_digest y"
  then show "x = y" by (auto simp: control_material_def framing_digest_def dest!: frame_cancel frame_inj)
qed

lemma decision_applies_once_witness:
  "isl (execute_control framing_digest (hosted_apply claimed_store (HcControl ''w1'' 1 ''paused'' ''op'' ''stop'' 20))
     ''w1'' ''cancel_workflow'' (control_hash framing_digest first_claim) ''op'' ''stop'' 21)"
proof -
  let ?s = "hosted_apply claimed_store (HcControl ''w1'' 1 ''paused'' ''op'' ''stop'' 20)"
  let ?v = "JObject [(''work_item_id'', JString ''w1''),
    (''workflow_control'', public_state (controlled_row ''paused'' ''stop'' 20 first_claim))]"
  have "execute_control framing_digest claimed_store ''w1'' ''pause_workflow'' (control_hash framing_digest first_claim)
      ''op'' ''stop'' 20 = Inr (?s, ?v)" by code_simp
  from decision_applies_once [OF framing_digest_inj deployment_reachable(1) this hosted_here]
  show ?thesis by blast
qed

lemma offered_action_accepted_witness:
  "\<exists>s1 r1. execute_control framing_digest claimed_store ''w1'' ''pause_workflow'' (control_hash framing_digest first_claim)
     ''op'' ''stop'' 20 = Inr (s1, JObject [(''work_item_id'', JString ''w1''), (''workflow_control'', public_state r1)]) \<and>
     hr_control r1 = ''paused''"
proof -
  let ?a = "hd (control_actions framing_digest first_claim False)"
  have "load_row claimed_store ''w1'' = Some first_claim" "is_open claimed_store ''w1''"
    "?a \<in> set (control_actions framing_digest first_claim False)" "\<not> is_blank ''op''" "\<not> is_blank ''stop''"
    "(20::int) \<le> i64_max"
    by code_simp+
  note accepted = offered_action_accepted [OF deployment_reachable(1) this]
  have "ar_id ?a = ''pause_workflow''" "ar_state_hash ?a = control_hash framing_digest first_claim"
    "control_of_action ''pause_workflow'' = Some ''paused''"
    by code_simp+
  with accepted show ?thesis by auto
qed

section \<open>A tick\<close>

text \<open>Every pass observes nothing and finishes, but the second, which times out after it began a build.\<close>

definition example_draws :: "nat \<Rightarrow> tick_draw" where
  "example_draws i = \<lparr>td_claimed_at = 100 + min 8 (int i), td_finished_at = 101 + min 8 (int i), td_snapshot = Inr ''h'',
     td_advance = (\<lambda>c expired. ([HcBegin c build_op 101], Inr (''waiting'', ''Observing''))), td_timed_out = (i = 1)\<rparr>"

definition enrolled_store :: hosted_store where
  "enrolled_store = run_hosted empty_hosted [HcEnroll ''w1'' True 0, HcEnroll ''w2'' True 0]"

lemma example_tick_ok: "tick_ok 100 108 (example_draws i)"
  by (simp add: tick_ok_def example_draws_def own_call_def)

lemma enrolled_reachable: "hosted_reachable any_hosted_call enrolled_store"
  unfolding hosted_reachable_def enrolled_store_def by (rule run_any)

lemma example_tick_hyps:
  "''s'' \<noteq> ([]::string)" "(108::int) < 100 + CONTROLLER_WAIT_INTERVAL_MS" "(108::int) < i64_max"
  "hm_due_unclaimed (hosted_controller_metrics enrolled_store 108) = 2"
  by code_simp+



end
