(* ===== verification/Actions.thy ===== *)
theory Actions
  imports RustStr
begin

text \<open>
  The agent's action vocabulary: \<open>model/action.rs\<close> (\<open>AgentAction\<close>, its identifier and kind name,
  the parsing of a provider tool call), \<open>tools/capability.rs\<close> and the run scope of
  \<open>execution/environment.rs\<close>. Paths are their strings. A \<open>serde_json::Value\<close> is an opaque type
  variable \<open>'j\<close>; the parser and decoder of serde are a parameter record.
\<close>

section \<open>Data\<close>

datatype approval_kind =
    ApFileWrite | ApShellCommand | ApNetwork | ApDestructive | ApPrivileged | ApSecretAccess
  | ApRegistryWrite | ApTektonRun | ApArgoSync | ApDatabaseChange | ApProductionChange

record text_patch =
  tp_find :: string
  tp_replace :: string
  tp_replace_all :: bool

text \<open>Each constructor has the fields of the Rust variant in their order: the identifier and the
  reason first.\<close>

datatype (plugins only: code) 'j agent_action =
    Respond string string string
  | ReadFile string string string "u64 option" "u64 option" "u64 option"
  | WriteFile string string string string
  | PatchFile string string string text_patch
  | ApplyPatch string string string "string \<rightharpoonup> string"
  | ListDir string string string u8 "u32 option"
  | SearchFiles string string string "string option" "string option" "u32 option"
  | EnvironmentInfo string string
  | CreateDirectory string string string
  | RunAcceptanceCommand string string string
  | RunWorkspaceCommand string string string "string list" "string option" "u64 option"
  | GetEvidence string string string
  | SubmitOnboardingProposal string string 'j
  | SubmitWorkPlan string string 'j
  | SubmitImplementation string string 'j
  | SubmitTestOutcome string string 'j
  | SubmitTestDiagnosis string string 'j
  | SubmitVerification string string 'j
  | RunShell string string string "string option" "u64 option" bool
  | GitDiff string string "string option"
  | GitStatus string string
  | KubernetesGet string string string "string option" "string option" bool "string option"
  | ArgoGetApp string string string
  | PrometheusQuery string string string
  | PrometheusInventory string string
  | LokiLogSummary string string string "u64 option" "u32 option"
  | TektonGetPipelineRuns string string "string option" "string option" bool "string option"
  | TektonGetTaskRuns string string "string option" "string option" bool "string option"
  | TektonAnalyzePipelineRun string string string string
  | RegistryInspectImage string string string "string option"
  | RequestApproval string string approval_kind string
  | Finish string string string bool

primrec action_id :: "'j agent_action \<Rightarrow> string" where
  "action_id (Respond i r m) = i"
| "action_id (ReadFile i r p mb sl lc) = i"
| "action_id (WriteFile i r p c) = i"
| "action_id (PatchFile i r p pt) = i"
| "action_id (ApplyPatch i r pt pre) = i"
| "action_id (ListDir i r p d me) = i"
| "action_id (SearchFiles i r q p g mr) = i"
| "action_id (EnvironmentInfo i r) = i"
| "action_id (CreateDirectory i r p) = i"
| "action_id (RunAcceptanceCommand i r n) = i"
| "action_id (RunWorkspaceCommand i r x a c t) = i"
| "action_id (GetEvidence i r e) = i"
| "action_id (SubmitOnboardingProposal i r j) = i"
| "action_id (SubmitWorkPlan i r j) = i"
| "action_id (SubmitImplementation i r j) = i"
| "action_id (SubmitTestOutcome i r j) = i"
| "action_id (SubmitTestDiagnosis i r j) = i"
| "action_id (SubmitVerification i r j) = i"
| "action_id (RunShell i r c w t d) = i"
| "action_id (GitDiff i r p) = i"
| "action_id (GitStatus i r) = i"
| "action_id (KubernetesGet i r x n m a l) = i"
| "action_id (ArgoGetApp i r a) = i"
| "action_id (PrometheusQuery i r q) = i"
| "action_id (PrometheusInventory i r) = i"
| "action_id (LokiLogSummary i r q s l) = i"
| "action_id (TektonGetPipelineRuns i r n m a l) = i"
| "action_id (TektonGetTaskRuns i r n m a l) = i"
| "action_id (TektonAnalyzePipelineRun i r n m) = i"
| "action_id (RegistryInspectImage i r im b) = i"
| "action_id (RequestApproval i r k s) = i"
| "action_id (Finish i r s ok) = i"

primrec kind_name :: "'j agent_action \<Rightarrow> string" where
  "kind_name (Respond i r m) = ''respond''"
| "kind_name (ReadFile i r p mb sl lc) = ''read_file''"
| "kind_name (WriteFile i r p c) = ''write_file''"
| "kind_name (PatchFile i r p pt) = ''patch_file''"
| "kind_name (ApplyPatch i r pt pre) = ''apply_patch''"
| "kind_name (ListDir i r p d me) = ''list_dir''"
| "kind_name (SearchFiles i r q p g mr) = ''search_files''"
| "kind_name (EnvironmentInfo i r) = ''environment_info''"
| "kind_name (CreateDirectory i r p) = ''create_directory''"
| "kind_name (RunAcceptanceCommand i r n) = ''run_acceptance_command''"
| "kind_name (RunWorkspaceCommand i r x a c t) = ''run_workspace_command''"
| "kind_name (GetEvidence i r e) = ''get_evidence''"
| "kind_name (SubmitOnboardingProposal i r j) = ''submit_onboarding_proposal''"
| "kind_name (SubmitWorkPlan i r j) = ''submit_work_plan''"
| "kind_name (SubmitImplementation i r j) = ''submit_implementation''"
| "kind_name (SubmitTestOutcome i r j) = ''submit_test_outcome''"
| "kind_name (SubmitTestDiagnosis i r j) = ''submit_test_diagnosis''"
| "kind_name (SubmitVerification i r j) = ''submit_verification''"
| "kind_name (RunShell i r c w t d) = ''run_shell''"
| "kind_name (GitDiff i r p) = ''git_diff''"
| "kind_name (GitStatus i r) = ''git_status''"
| "kind_name (KubernetesGet i r x n m a l) = ''kubernetes_get''"
| "kind_name (ArgoGetApp i r a) = ''argo_get_app''"
| "kind_name (PrometheusQuery i r q) = ''prometheus_query''"
| "kind_name (PrometheusInventory i r) = ''prometheus_inventory''"
| "kind_name (LokiLogSummary i r q s l) = ''loki_log_summary''"
| "kind_name (TektonGetPipelineRuns i r n m a l) = ''tekton_get_pipeline_runs''"
| "kind_name (TektonGetTaskRuns i r n m a l) = ''tekton_get_task_runs''"
| "kind_name (TektonAnalyzePipelineRun i r n m) = ''tekton_analyze_pipeline_run''"
| "kind_name (RegistryInspectImage i r im b) = ''registry_inspect_image''"
| "kind_name (RequestApproval i r k s) = ''request_approval''"
| "kind_name (Finish i r s ok) = ''finish''"

text \<open>The actions that write files directly: the ones a permission grant can cover.\<close>

definition is_file_write :: "'j agent_action \<Rightarrow> bool" where
  "is_file_write a =
     (case a of
        WriteFile i r p c \<Rightarrow> True
      | PatchFile i r p pt \<Rightarrow> True
      | ApplyPatch i r pt pre \<Rightarrow> True
      | CreateDirectory i r p \<Rightarrow> True
      | _ \<Rightarrow> False)"

lemma is_file_write_kind:
  "is_file_write a \<longleftrightarrow>
     kind_name a \<in> {''write_file'', ''patch_file'', ''apply_patch'', ''create_directory''}"
  by (cases a) (simp_all add: is_file_write_def)

section \<open>Capabilities\<close>

datatype capability_kind =
    AgentControl | Filesystem | Shell | Git | KubernetesRead | KubernetesWrite | RegistryRead
  | RegistryWrite | TektonRead | TektonStartRun | ArgoRead | ArgoSync | DatabaseRead
  | DatabaseBackup | DatabaseMigration | ObservabilityRead | RagRead | RagWrite

record tool_capability =
  tc_kind :: capability_kind
  tc_mutates :: bool
  tc_production_risk :: bool

definition tool_capability_new :: "capability_kind \<Rightarrow> bool \<Rightarrow> bool \<Rightarrow> tool_capability" where
  "tool_capability_new k m p = \<lparr>tc_kind = k, tc_mutates = m, tc_production_risk = p\<rparr>"

definition tool_capability_read_only :: "capability_kind \<Rightarrow> tool_capability" where
  "tool_capability_read_only k = tool_capability_new k False False"

definition tool_capability_mutating :: "capability_kind \<Rightarrow> bool \<Rightarrow> tool_capability" where
  "tool_capability_mutating k p = tool_capability_new k True p"

section \<open>Run scope\<close>

record run_scope =
  rs_run_id :: "string option"
  rs_namespace :: "string option"
  rs_repo :: "string option"
  rs_branch :: "string option"
  rs_work_item_id :: "string option"
  rs_workspace_id :: "string option"
  rs_work_plan_id :: "string option"
  rs_change_set_id :: "string option"
  rs_production_impacting :: bool

definition run_scope_default :: run_scope where
  "run_scope_default = \<lparr>rs_run_id = None, rs_namespace = None, rs_repo = None, rs_branch = None,
     rs_work_item_id = None, rs_workspace_id = None, rs_work_plan_id = None,
     rs_change_set_id = None, rs_production_impacting = False\<rparr>"

definition run_scope_is_empty :: "run_scope \<Rightarrow> bool" where
  "run_scope_is_empty s \<longleftrightarrow>
     rs_namespace s = None \<and> rs_run_id s = None \<and> rs_repo s = None \<and> rs_branch s = None \<and>
     rs_work_item_id s = None \<and> rs_workspace_id s = None \<and> rs_work_plan_id s = None \<and>
     rs_change_set_id s = None \<and> \<not> rs_production_impacting s"

definition to_optional_json :: "(run_scope \<Rightarrow> 'j) \<Rightarrow> run_scope \<Rightarrow> 'j option" where
  "to_optional_json to_value s = (if run_scope_is_empty s then None else Some (to_value s))"

lemma run_scope_is_empty_iff: "run_scope_is_empty s \<longleftrightarrow> s = run_scope_default"
  by (cases s) (auto simp: run_scope_is_empty_def run_scope_default_def)

section \<open>Parsing a tool call\<close>

datatype action_parse_error =
    ExpectedObject
  | InvalidJson string
  | InvalidAction string

text \<open>
  What the code takes from serde: reading JSON text, the view of a value as an object, building
  objects and strings, and decoding a value or a text into an action (an error is its message).
\<close>

record 'j serde =
  sd_from_str :: "string \<Rightarrow> (string, 'j) res"
  sd_as_object :: "'j \<Rightarrow> (string \<rightharpoonup> 'j) option"
  sd_object :: "(string \<rightharpoonup> 'j) \<Rightarrow> 'j"
  sd_string :: "string \<Rightarrow> 'j"
  sd_decode :: "'j \<Rightarrow> (string, 'j agent_action) res"

text \<open>\<open>object.entry(key).or_insert_with(..)\<close>\<close>

definition or_insert :: "string \<Rightarrow> 'j \<Rightarrow> (string \<rightharpoonup> 'j) \<Rightarrow> (string \<rightharpoonup> 'j)" where
  "or_insert k v m = (case m k of Some _ \<Rightarrow> m | None \<Rightarrow> m(k \<mapsto> v))"

definition from_tool_call ::
    "'j serde \<Rightarrow> string \<Rightarrow> string \<Rightarrow> string \<Rightarrow> (action_parse_error, 'j agent_action) res" where
  "from_tool_call sd function_name fallback_id arguments =
     res_bind (map_err InvalidJson (sd_from_str sd arguments)) (\<lambda>value.
     res_bind (ok_or (sd_as_object sd value) ExpectedObject) (\<lambda>object.
       let object = or_insert ''action'' (sd_string sd function_name) object;
           object = or_insert ''id'' (sd_string sd fallback_id) object
       in map_err InvalidAction (sd_decode sd (sd_object sd object))))"

definition provider_respond :: "string \<Rightarrow> string \<Rightarrow> 'j agent_action" where
  "provider_respond i message =
     Respond i ''Provider returned assistant content without a tool call'' message"

definition fence :: string where
  "fence = ''```''"

definition normalize_json_text :: "string \<Rightarrow> string" where
  "normalize_json_text text =
     (let trimmed = trim text in
      case Option.bind (strip_prefix trimmed (fence @ ''json'')) (\<lambda>v. strip_suffix v fence) of
        Some stripped \<Rightarrow> trim stripped
      | None \<Rightarrow>
          (case Option.bind (strip_prefix trimmed fence) (\<lambda>v. strip_suffix v fence) of
             Some stripped \<Rightarrow> trim stripped
           | None \<Rightarrow> trimmed))"

definition from_json_text ::
    "'j serde \<Rightarrow> string \<Rightarrow> (action_parse_error, 'j agent_action) res" where
  "from_json_text sd text =
     map_err InvalidAction (res_bind (sd_from_str sd (normalize_json_text text)) (sd_decode sd))"

lemma or_insert_same: "or_insert k v m k = Some (case m k of Some w \<Rightarrow> w | None \<Rightarrow> v)"
  by (simp add: or_insert_def split: option.splits)

lemma or_insert_other: "k' \<noteq> k \<Longrightarrow> or_insert k v m k' = m k'"
  by (simp add: or_insert_def split: option.splits)

text \<open>A fenced JSON block yields its trimmed body, whatever the body is.\<close>

lemma trim_fence: "trim (fence @ body @ fence) = fence @ body @ fence"
  using trim_graphic [of "CHR ''`''" "CHR ''`''" "''``'' @ body @ ''``''"]
  by (simp add: fence_def is_ascii_graphic_def byte_def)

lemma normalize_fenced_json: "normalize_json_text (fence @ ''json'' @ body @ fence) = trim body"
proof -
  have "strip_prefix (fence @ ''json'' @ body @ fence) (fence @ ''json'') = Some (body @ fence)"
    by (simp add: strip_prefix_Some)
  moreover have "strip_suffix (body @ fence) fence = Some body"
    by (simp add: strip_suffix_Some)
  ultimately show ?thesis
    using trim_fence [of "''json'' @ body"] by (simp add: normalize_json_text_def Let_def)
qed

text \<open>The tool call's own arguments win over the name of the function called and the fallback id.\<close>

lemma from_tool_call_ok:
  "from_tool_call sd f i args = Inr a \<longleftrightarrow>
     (\<exists>v m. sd_from_str sd args = Inr v \<and> sd_as_object sd v = Some m \<and>
        sd_decode sd (sd_object sd
          (or_insert ''id'' (sd_string sd i) (or_insert ''action'' (sd_string sd f) m))) = Inr a)"
  by (auto simp: from_tool_call_def Let_def)

end
