(* ===== verification/CommandClassifier.thy ===== *)
theory CommandClassifier
  imports RustStr
begin

text \<open>
  \<open>policy/command_classifier.rs\<close>: the textual classification of a shell command. Every marker
  list is the source's, in the source's order; the tests are made on the lower-cased command, and
  the first test that holds decides.
\<close>

datatype command_class =
    CcSafeReadOnly | CcWriteLocalProject | CcDestructiveLocal | CcNetwork | CcEnvironmentSetup
  | CcPrivileged | CcSecretAccessing | CcUnknown

definition starts_with_any :: "string \<Rightarrow> string list \<Rightarrow> bool" where
  "starts_with_any v ps \<longleftrightarrow> list_ex (starts_with v) ps"

definition contains_word :: "string \<Rightarrow> string \<Rightarrow> bool" where
  "contains_word padded word \<longleftrightarrow>
     str_contains padded ('' '' @ word @ '' '') \<or>
     str_contains padded ('';'' @ word @ '' '') \<or>
     str_contains padded (''|'' @ word @ '' '') \<or>
     str_contains padded (''&& '' @ word @ '' '')"

definition setup_words :: "string list" where
  "setup_words =
    ['' apt '', '' apt-get '', '' apk '', '' pip install '', '' pip3 install '',
     '' python -m pip install '', '' python3 -m pip install '', '' uv pip install '',
     '' npm install '', '' npm ci '', '' npm i '', '' npx '', '' pnpm install '', '' pnpm add '',
     '' yarn install '', '' yarn add '', '' cargo install '', '' curl '', '' wget '', '' httpx '',
     '' requests.get '', '' urllib.request '', '' http.client '', '' socket.create_connection '',
     '' docker version '', '' docker info '', '' podman version '', '' which python '',
     '' which python3 '', '' which docker '', '' command -v python '', '' command -v python3 '',
     '' command -v docker '', '' python --version '', '' python3 --version '',
     '' node --version '', '' npm --version '', '' which node '', '' which npm '',
     '' command -v node '', '' command -v npm '']"

definition setup_fragments :: "string list" where
  "setup_fragments =
    [''import httpx'', ''import requests'', ''import urllib'', ''import socket'', ''fetch('',
     ''node:http'', ''node:https'', ''http.get('', ''https.get('', ''net.connect('']"

definition is_environment_setup_or_probe :: "string \<Rightarrow> bool" where
  "is_environment_setup_or_probe command \<longleftrightarrow>
     (let padded = '' '' @ command @ '' '' in
      list_ex (str_contains padded) setup_words \<or>
      list_ex (str_contains command) setup_fragments)"

definition secret_markers :: "string list" where
  "secret_markers =
    [''.env'', ''.kube/config'', ''kubeconfig'', ''~/.ssh'', ''id_rsa'', ''id_ed25519'',
     ''kubectl get secret'', ''kubectl describe secret'']"

definition destructive_markers :: "string list" where
  "destructive_markers =
    [''rm -rf'', ''rm -fr'', ''git reset --hard'', ''kubectl delete'', ''helm uninstall'']"

definition network_prefixes :: "string list" where
  "network_prefixes =
    [''curl '', ''wget '', ''git fetch'', ''git pull'', ''git push'', ''npm install'',
     ''pnpm install'', ''yarn install'', ''cargo install'', ''docker pull'', ''docker push'',
     ''crane push'', ''oras push'', ''kubectl apply'', ''helm upgrade'', ''argocd app sync'',
     ''tkn pipeline start'']"

definition read_only_prefixes :: "string list" where
  "read_only_prefixes =
    [''ls'', ''pwd'', ''cat '', ''head '', ''tail '', ''sed -n'', ''wc '', ''cargo metadata'',
     ''cargo fmt --check'', ''rg '', ''grep '', ''find '', ''git status'', ''git diff'',
     ''git log'', ''kubectl get '', ''kubectl describe '', ''argocd app get '',
     ''tkn pipelinerun describe '', ''tkn taskrun describe '']"

definition local_write_prefixes :: "string list" where
  "local_write_prefixes =
    [''touch '', ''mkdir '', ''cp '', ''mv '', ''cargo check'', ''cargo test'', ''cargo clippy'',
     ''npm test'', ''pnpm test'', ''yarn test'', ''python -m unittest'', ''python3 -m unittest'',
     ''python -m compileall'', ''python3 -m compileall'', ''pytest'', ''go test'']"

definition classify_command :: "string \<Rightarrow> command_class" where
  "classify_command command =
     (let normalized = to_ascii_lowercase command;
          padded = '' '' @ normalized @ '' '' in
      if contains_word padded ''sudo'' \<or> contains_word padded ''su'' then CcPrivileged
      else if list_ex (str_contains normalized) secret_markers then CcSecretAccessing
      else if list_ex (str_contains normalized) destructive_markers then CcDestructiveLocal
      else if is_environment_setup_or_probe normalized then CcEnvironmentSetup
      else if starts_with_any (trim_start normalized) network_prefixes then CcNetwork
      else if starts_with_any (trim_start normalized) read_only_prefixes then CcSafeReadOnly
      else if starts_with_any (trim_start normalized) local_write_prefixes
        then CcWriteLocalProject
      else CcUnknown)"

section \<open>Properties of the order of the tests\<close>

lemma classify_case_insensitive: "classify_command (to_ascii_lowercase c) = classify_command c"
  by (simp add: classify_command_def)

text \<open>A marker found in a fragment is found in every command around that fragment.\<close>

lemma list_ex_contains_wrap:
  "list_ex (str_contains s) ms \<Longrightarrow> list_ex (str_contains (a @ s @ b)) ms"
  by (auto simp: list_ex_iff intro: str_contains_append)

lemma classify_secret_wrap:
  "list_ex (str_contains (to_ascii_lowercase c)) secret_markers \<Longrightarrow>
     classify_command (a @ c @ b) \<in> {CcPrivileged, CcSecretAccessing}"
  using list_ex_contains_wrap
    [of "to_ascii_lowercase c" secret_markers "to_ascii_lowercase a" "to_ascii_lowercase b"]
  by (simp add: classify_command_def Let_def)

lemma classify_destructive_wrap:
  "list_ex (str_contains (to_ascii_lowercase c)) destructive_markers \<Longrightarrow>
     classify_command (a @ c @ b) \<in> {CcPrivileged, CcSecretAccessing, CcDestructiveLocal}"
  using list_ex_contains_wrap
    [of "to_ascii_lowercase c" destructive_markers "to_ascii_lowercase a" "to_ascii_lowercase b"]
  by (simp add: classify_command_def Let_def)

text \<open>The classes below the environment test contain none of the markers above it.\<close>

definition unmarked :: "string \<Rightarrow> bool" where
  "unmarked c \<longleftrightarrow>
     \<not> contains_word ('' '' @ to_ascii_lowercase c @ '' '') ''sudo'' \<and>
     \<not> contains_word ('' '' @ to_ascii_lowercase c @ '' '') ''su'' \<and>
     \<not> list_ex (str_contains (to_ascii_lowercase c)) secret_markers \<and>
     \<not> list_ex (str_contains (to_ascii_lowercase c)) destructive_markers \<and>
     \<not> is_environment_setup_or_probe (to_ascii_lowercase c)"

lemma classify_unmarked:
  "classify_command c \<in> {CcNetwork, CcSafeReadOnly, CcWriteLocalProject, CcUnknown}
     \<longleftrightarrow> unmarked c"
  by (auto simp: classify_command_def unmarked_def Let_def)

lemma classify_marked:
  "classify_command c \<in> {CcPrivileged, CcSecretAccessing, CcDestructiveLocal, CcEnvironmentSetup}
     \<longleftrightarrow> \<not> unmarked c"
  by (auto simp: classify_command_def unmarked_def Let_def)

lemma classify_read_only_iff:
  "classify_command c = CcSafeReadOnly \<longleftrightarrow>
     unmarked c \<and>
     \<not> starts_with_any (trim_start (to_ascii_lowercase c)) network_prefixes \<and>
     starts_with_any (trim_start (to_ascii_lowercase c)) read_only_prefixes"
  by (auto simp: classify_command_def unmarked_def Let_def)

end
