(* ===== verification/CampusPolicy.thy ===== *)
theory CampusPolicy
  imports CampusProfile SafetyPolicy "HOL-Library.Product_Lexorder"
begin

text \<open>
  \<open>policy/campus.rs\<close>, first half: the authority-tagged policy layers, their validation, and the
  monotone composition of a profile with its layers into one effective policy. \<open>BTreeSet\<close>s are
  sorted lists without repetition, \<open>BTreeMap\<close>s keyed by dimension are maps, \<open>u64\<close> limits are
  words. The three content hashes (serde and SHA-256) are a parameter record; what is hashed, and
  how lists are normalised before it, is the source's. A \<open>None\<close> result is a panic.
\<close>

section \<open>Authorities and dimensions\<close>

datatype campus_authority = AuPlatform | AuInstitution | AuAssignment | AuStudent

fun authority_rank :: "campus_authority \<Rightarrow> nat" where
  "authority_rank AuPlatform = 0"
| "authority_rank AuInstitution = 1"
| "authority_rank AuAssignment = 2"
| "authority_rank AuStudent = 3"

lemma authority_rank_inj: "authority_rank a = authority_rank b \<Longrightarrow> a = b"
  by (cases a; cases b) simp_all

text \<open>The derived \<open>Ord\<close>: the order of declaration.\<close>

instantiation campus_authority :: linorder
begin

definition less_eq_campus_authority :: "campus_authority \<Rightarrow> campus_authority \<Rightarrow> bool" where
  "less_eq_campus_authority a b \<longleftrightarrow> authority_rank a \<le> authority_rank b"

definition less_campus_authority :: "campus_authority \<Rightarrow> campus_authority \<Rightarrow> bool" where
  "less_campus_authority a b \<longleftrightarrow> authority_rank a < authority_rank b"

instance
  by standard
    (auto simp: less_eq_campus_authority_def less_campus_authority_def dest: authority_rank_inj)

end

definition REQUIRED_AUTHORITIES :: "campus_authority list" where
  "REQUIRED_AUTHORITIES = [AuPlatform, AuInstitution]"

fun authority_as_str :: "campus_authority \<Rightarrow> string" where
  "authority_as_str AuPlatform = ''platform''"
| "authority_as_str AuInstitution = ''institution''"
| "authority_as_str AuAssignment = ''assignment''"
| "authority_as_str AuStudent = ''student''"

fun is_shared :: "campus_authority \<Rightarrow> bool" where
  "is_shared AuPlatform = True"
| "is_shared AuInstitution = True"
| "is_shared _ = False"

datatype policy_source = SrcProfile | SrcPlatform | SrcInstitution | SrcAssignment | SrcStudent

fun source_of :: "campus_authority \<Rightarrow> policy_source" where
  "source_of AuPlatform = SrcPlatform"
| "source_of AuInstitution = SrcInstitution"
| "source_of AuAssignment = SrcAssignment"
| "source_of AuStudent = SrcStudent"

fun source_as_str :: "policy_source \<Rightarrow> string" where
  "source_as_str SrcProfile = ''profile''"
| "source_as_str SrcPlatform = ''platform''"
| "source_as_str SrcInstitution = ''institution''"
| "source_as_str SrcAssignment = ''assignment''"
| "source_as_str SrcStudent = ''student''"

datatype dimension =
    DTools | DEgress | DModelAliases | DTtlSeconds | DActiveExecutionSeconds | DCpuMillicores
  | DMemoryMib | DEphemeralStorageMib | DPids | DSessionAllocationMicroUsd | DHardTokens
  | DMaxOutputTokens | DMaxConcurrentRequests

fun dimension_as_str :: "dimension \<Rightarrow> string" where
  "dimension_as_str DTools = ''tools''"
| "dimension_as_str DEgress = ''egress''"
| "dimension_as_str DModelAliases = ''model_aliases''"
| "dimension_as_str DTtlSeconds = ''ttl_seconds''"
| "dimension_as_str DActiveExecutionSeconds = ''active_execution_seconds''"
| "dimension_as_str DCpuMillicores = ''cpu_millicores''"
| "dimension_as_str DMemoryMib = ''memory_mib''"
| "dimension_as_str DEphemeralStorageMib = ''ephemeral_storage_mib''"
| "dimension_as_str DPids = ''pids''"
| "dimension_as_str DSessionAllocationMicroUsd = ''session_allocation_micro_usd''"
| "dimension_as_str DHardTokens = ''hard_tokens''"
| "dimension_as_str DMaxOutputTokens = ''max_output_tokens''"
| "dimension_as_str DMaxConcurrentRequests = ''max_concurrent_requests''"

section \<open>Layers\<close>

record policy_constraints =
  pc_tools :: "string list option"
  pc_egress :: "egress_destination list option"
  pc_model_aliases :: "string list option"
  pc_ttl_seconds :: "u32 option"
  pc_active_execution_seconds :: "u64 option"
  pc_cpu_millicores :: "u32 option"
  pc_memory_mib :: "u32 option"
  pc_ephemeral_storage_mib :: "u32 option"
  pc_pids :: "u32 option"
  pc_session_allocation_micro_usd :: "u64 option"
  pc_hard_tokens :: "u64 option"
  pc_max_output_tokens :: "u32 option"
  pc_max_concurrent_requests :: "u32 option"

record mandatory_denies =
  md_tools :: "string list"
  md_egress_hosts :: "string list"
  md_model_aliases :: "string list"
  md_approval_kinds :: "approval_kind list"

record policy_layer =
  pl_schema_version :: string
  pl_authority :: campus_authority
  pl_id :: string
  pl_version :: string
  pl_constraints :: policy_constraints
  pl_mandatory_denies :: mandatory_denies

record layer_ref =
  lr_authority :: campus_authority
  lr_id :: string
  lr_version :: string
  lr_layer_hash :: string

datatype policy_error =
    PolProfile profile_error
  | PolMalformed string
  | PolInvalidLayer campus_authority string string
  | PolMissingLayer campus_authority
  | PolDuplicateAuthority campus_authority
  | PolOutOfOrder campus_authority campus_authority
  | PolWidening campus_authority dimension string string policy_source
  | PolMandatoryDenyConflict campus_authority dimension string campus_authority
  | PolDimensionNotPermitted campus_authority dimension
  | PolEmptyDimension dimension

type_synonym 'a policy_res = "(policy_error, 'a) res"

definition CAMPUS_POLICY_LAYER_SCHEMA :: string where
  "CAMPUS_POLICY_LAYER_SCHEMA = ''pharness.dev/campus-policy-layer/v1alpha1''"

definition EFFECTIVE_CAMPUS_POLICY_SCHEMA :: string where
  "EFFECTIVE_CAMPUS_POLICY_SCHEMA = ''pharness.dev/effective-campus-policy/v1alpha1''"

definition MAX_HARD_TOKENS :: u64 where "MAX_HARD_TOKENS = 1000000"

definition MAX_LAYER_BYTES :: nat where "MAX_LAYER_BYTES = 64 * 1024"

definition STUDENT_DIMENSIONS :: "dimension list" where
  "STUDENT_DIMENSIONS = [DModelAliases, DTtlSeconds]"

fun approval_kind_name :: "approval_kind \<Rightarrow> string" where
  "approval_kind_name ApFileWrite = ''file_write''"
| "approval_kind_name ApShellCommand = ''shell_command''"
| "approval_kind_name ApNetwork = ''network''"
| "approval_kind_name ApDestructive = ''destructive''"
| "approval_kind_name ApPrivileged = ''privileged''"
| "approval_kind_name ApSecretAccess = ''secret_access''"
| "approval_kind_name ApRegistryWrite = ''registry_write''"
| "approval_kind_name ApTektonRun = ''tekton_run''"
| "approval_kind_name ApArgoSync = ''argo_sync''"
| "approval_kind_name ApDatabaseChange = ''database_change''"
| "approval_kind_name ApProductionChange = ''production_change''"

definition egress_key :: "egress_destination \<Rightarrow> string" where
  "egress_key d = ed_host d @ '':'' @ show_word (ed_port d)"

definition egress_key_host :: "string \<Rightarrow> string" where
  "egress_key_host key = (case rsplit_once CHR '':'' key of None \<Rightarrow> key | Some (host, _) \<Rightarrow> host)"

definition denies_is_empty :: "mandatory_denies \<Rightarrow> bool" where
  "denies_is_empty m \<longleftrightarrow>
     md_tools m = [] \<and> md_egress_hosts m = [] \<and> md_model_aliases m = [] \<and> md_approval_kinds m = []"

definition denies :: "mandatory_denies \<Rightarrow> dimension \<Rightarrow> string \<Rightarrow> bool" where
  "denies m d v =
     (case d of
        DTools \<Rightarrow> v \<in> set (md_tools m)
      | DEgress \<Rightarrow> egress_key_host v \<in> set (md_egress_hosts m)
      | DModelAliases \<Rightarrow> v \<in> set (md_model_aliases m)
      | _ \<Rightarrow> False)"

definition denies_normalized :: "mandatory_denies \<Rightarrow> mandatory_denies" where
  "denies_normalized m =
     m\<lparr>md_tools := sort (md_tools m), md_egress_hosts := sort (md_egress_hosts m),
       md_model_aliases := sort (md_model_aliases m),
       md_approval_kinds := sort_key approval_kind_name (md_approval_kinds m)\<rparr>"

subsection \<open>Validation of a layer\<close>

fun layer_error :: "campus_authority \<Rightarrow> profile_error \<Rightarrow> policy_error" where
  "layer_error a (PeInvalid field reason) = PolInvalidLayer a field reason"
| "layer_error a e = PolProfile e"

definition validate_identifiers ::
    "campus_authority \<Rightarrow> string \<Rightarrow> string list \<Rightarrow> unit policy_res" where
  "validate_identifiers a field vs =
     each_unique id (\<lambda>_ v. map_err (layer_error a) (validate_identifier field v))
       (\<lambda>_ v. PolInvalidLayer a field (''duplicate value '' @ v)) 0 [] vs"

definition validate_layer_tools :: "policy_layer \<Rightarrow> unit policy_res" where
  "validate_layer_tools l =
     (case pc_tools (pl_constraints l) of
        None \<Rightarrow> Inr ()
      | Some tools \<Rightarrow>
          and_then (validate_identifiers (pl_authority l) ''constraints.tools'' tools)
            (case find (\<lambda>t. \<not> is_campus_tool t) tools of
               Some tool \<Rightarrow> Inl (PolInvalidLayer (pl_authority l) ''constraints.tools''
                 (tool @ '' is not a Campus tool''))
             | None \<Rightarrow> Inr ()))"

definition validate_layer_egress :: "policy_layer \<Rightarrow> unit policy_res" where
  "validate_layer_egress l =
     (let a = pl_authority l in
      case pc_egress (pl_constraints l) of
        None \<Rightarrow> Inr ()
      | Some egress \<Rightarrow>
          and_then
            (require (length egress \<le> MAX_EGRESS_DESTINATIONS)
              (PolInvalidLayer a ''constraints.egress''
                (''at most '' @ show_nat MAX_EGRESS_DESTINATIONS @ '' destinations'')))
            (each_unique id
              (\<lambda>i d. and_then
                 (map_err (layer_error a)
                   (validate_egress_host (egress_field ''constraints.egress'' i) (ed_host d)))
                 (require (ed_port d \<noteq> 0)
                   (PolInvalidLayer a (egress_field ''constraints.egress'' i)
                     ''port must be between 1 and 65535'')))
              (\<lambda>i d. PolInvalidLayer a (egress_field ''constraints.egress'' i)
                 ''duplicate destination'')
              0 [] egress))"

definition layer_limits :: "policy_constraints \<Rightarrow> (string \<times> u64 option \<times> u64 \<times> u64) list" where
  "layer_limits c =
    [(''constraints.ttl_seconds'', map_option ucast (pc_ttl_seconds c),
        ucast MIN_TTL_SECONDS, ucast MAX_TTL_SECONDS),
     (''constraints.active_execution_seconds'', pc_active_execution_seconds c,
        1, ucast MAX_TTL_SECONDS),
     (''constraints.cpu_millicores'', map_option ucast (pc_cpu_millicores c),
        100, ucast MAX_CPU_MILLICORES),
     (''constraints.memory_mib'', map_option ucast (pc_memory_mib c), 128, ucast MAX_MEMORY_MIB),
     (''constraints.ephemeral_storage_mib'', map_option ucast (pc_ephemeral_storage_mib c),
        128, ucast MAX_EPHEMERAL_STORAGE_MIB),
     (''constraints.pids'', map_option ucast (pc_pids c), ucast MIN_PIDS, ucast MAX_PIDS),
     (''constraints.session_allocation_micro_usd'', pc_session_allocation_micro_usd c,
        1, MAX_SESSION_ALLOCATION_MICRO_USD),
     (''constraints.hard_tokens'', pc_hard_tokens c, 1, MAX_HARD_TOKENS),
     (''constraints.max_output_tokens'', map_option ucast (pc_max_output_tokens c),
        1, ucast MAX_OUTPUT_TOKENS),
     (''constraints.max_concurrent_requests'', map_option ucast (pc_max_concurrent_requests c),
        1, ucast MAX_CONCURRENT_MODEL_REQUESTS)]"

definition validate_layer_limits :: "policy_layer \<Rightarrow> unit policy_res" where
  "validate_layer_limits l =
     for_each
       (\<lambda>(field, v, lo, hi).
          require (case v of None \<Rightarrow> True | Some w \<Rightarrow> lo \<le> w \<and> w \<le> hi)
            (PolInvalidLayer (pl_authority l) field
              (''must be between '' @ show_word lo @ '' and '' @ show_word hi)))
       (layer_limits (pl_constraints l))"

definition validate_layer_denies :: "policy_layer \<Rightarrow> unit policy_res" where
  "validate_layer_denies l =
     (let a = pl_authority l; m = pl_mandatory_denies l in
      checks
        [require (is_shared a \<or> denies_is_empty m)
           (PolInvalidLayer a ''mandatory_denies''
             ''only platform and institution layers may declare mandatory denies''),
         validate_identifiers a ''mandatory_denies.tools'' (md_tools m),
         validate_identifiers a ''mandatory_denies.model_aliases'' (md_model_aliases m),
         each_unique id
           (\<lambda>i h. map_err (layer_error a)
              (validate_egress_host (egress_field ''mandatory_denies.egress_hosts'' i) h))
           (\<lambda>i h. PolInvalidLayer a (egress_field ''mandatory_denies.egress_hosts'' i)
              ''duplicate host'')
           0 [] (md_egress_hosts m),
         (case first_dup [] (map approval_kind_name (md_approval_kinds m)) of
            Some kind \<Rightarrow> Inl (PolInvalidLayer a ''mandatory_denies.approval_kinds''
              (''duplicate value '' @ kind))
          | None \<Rightarrow> Inr ())])"

definition layer_validate :: "policy_layer \<Rightarrow> unit policy_res" where
  "layer_validate l =
     (let a = pl_authority l in
      checks
        [require (pl_schema_version l = CAMPUS_POLICY_LAYER_SCHEMA)
           (PolInvalidLayer a ''schema_version'' (''expected '' @ CAMPUS_POLICY_LAYER_SCHEMA)),
         map_err (layer_error a) (validate_identifier ''id'' (pl_id l)),
         map_err (layer_error a) (validate_identifier ''version'' (pl_version l)),
         validate_layer_tools l,
         validate_layer_egress l,
         (case pc_model_aliases (pl_constraints l) of
            None \<Rightarrow> Inr ()
          | Some aliases \<Rightarrow> validate_identifiers a ''constraints.model_aliases'' aliases),
         validate_layer_limits l,
         validate_layer_denies l])"

definition layer_parse :: "(string \<Rightarrow> (string, policy_layer) res) \<Rightarrow> string \<Rightarrow> policy_layer policy_res"
  where
  "layer_parse from_str document =
     (if MAX_LAYER_BYTES < length document
      then Inl (PolMalformed (''document exceeds '' @ show_nat MAX_LAYER_BYTES @ '' bytes''))
      else res_bind (map_err PolMalformed (from_str document)) (\<lambda>l.
        res_bind (layer_validate l) (\<lambda>_. Inr l)))"

subsection \<open>Identity of a layer\<close>

definition layer_normalized :: "policy_layer \<Rightarrow> policy_layer" where
  "layer_normalized l =
     (let c = pl_constraints l in
      l\<lparr>pl_constraints :=
          c\<lparr>pc_tools := map_option sort (pc_tools c),
            pc_model_aliases := map_option sort (pc_model_aliases c),
            pc_egress := map_option (sort_key (\<lambda>d. (ed_host d, ed_port d))) (pc_egress c)\<rparr>,
        pl_mandatory_denies := denies_normalized (pl_mandatory_denies l)\<rparr>)"

text \<open>\<open>lh\<close> is the SHA-256 of the canonical JSON of a serialised layer.\<close>

definition layer_hash :: "(policy_layer \<Rightarrow> string) \<Rightarrow> policy_layer \<Rightarrow> string" where
  "layer_hash lh l = lh (layer_normalized l)"

definition layer_ref_of :: "(policy_layer \<Rightarrow> string) \<Rightarrow> policy_layer \<Rightarrow> layer_ref" where
  "layer_ref_of lh l =
     \<lparr>lr_authority = pl_authority l, lr_id = pl_id l, lr_version = pl_version l,
      lr_layer_hash = layer_hash lh l\<rparr>"

end
