(* ===== verification/CampusCompose.thy ===== *)
theory CampusCompose
  imports CampusPolicy "HOL-Library.Multiset"
begin

text \<open>
  \<open>policy/campus.rs\<close>, composition: the bounds in force while the layers are folded over the profile,
  the widening check, narrowing with provenance, mandatory denies, the student's restrictions and
  \<open>EffectiveCampusPolicy::compose\<close>. The properties state the composed bounds declaratively: a
  set member survives exactly when the profile offers it, no layer excludes it and no layer denies
  it; a limit is the minimum of what was written.
\<close>

section \<open>Bounds\<close>

datatype bound = BSet "string list" | BLimit u64

fun bound_describe :: "bound \<Rightarrow> string" where
  "bound_describe (BSet vs) = (if vs = [] then ''none'' else join '', '' vs)"
| "bound_describe (BLimit v) = show_word v"

definition set_bounds :: "policy_constraints \<Rightarrow> (dimension \<times> bound) list" where
  "set_bounds c =
     (case pc_tools c of None \<Rightarrow> [] | Some ts \<Rightarrow> [(DTools, BSet (btree_set ts))]) @
     (case pc_egress c of None \<Rightarrow> []
      | Some es \<Rightarrow> [(DEgress, BSet (btree_set (map egress_key es)))]) @
     (case pc_model_aliases c of None \<Rightarrow> [] | Some as \<Rightarrow> [(DModelAliases, BSet (btree_set as))])"

definition limit_options :: "policy_constraints \<Rightarrow> (dimension \<times> u64 option) list" where
  "limit_options c =
    [(DTtlSeconds, map_option ucast (pc_ttl_seconds c)),
     (DActiveExecutionSeconds, pc_active_execution_seconds c),
     (DCpuMillicores, map_option ucast (pc_cpu_millicores c)),
     (DMemoryMib, map_option ucast (pc_memory_mib c)),
     (DEphemeralStorageMib, map_option ucast (pc_ephemeral_storage_mib c)),
     (DPids, map_option ucast (pc_pids c)),
     (DSessionAllocationMicroUsd, pc_session_allocation_micro_usd c),
     (DHardTokens, pc_hard_tokens c),
     (DMaxOutputTokens, map_option ucast (pc_max_output_tokens c)),
     (DMaxConcurrentRequests, map_option ucast (pc_max_concurrent_requests c))]"

definition constraint_bounds :: "policy_constraints \<Rightarrow> (dimension \<times> bound) list" where
  "constraint_bounds c =
     set_bounds c @
     List.map_filter (\<lambda>(d, v). map_option (\<lambda>v. (d, BLimit v)) v) (limit_options c)"

record bound_state =
  bs_bounds :: "dimension \<rightharpoonup> bound"
  bs_sources :: "dimension \<rightharpoonup> policy_source"
  bs_removed :: "dimension \<rightharpoonup> (string \<times> policy_source) list"

definition bound_state_default :: bound_state where
  "bound_state_default =
     \<lparr>bs_bounds = (\<lambda>_. None), bs_sources = (\<lambda>_. None), bs_removed = (\<lambda>_. None)\<rparr>"

fun profile_bound :: "campus_profile \<Rightarrow> dimension \<Rightarrow> bound" where
  "profile_bound p DTools = BSet (btree_set (map cb_tool (cp_capabilities p)))"
| "profile_bound p DEgress = BSet (btree_set (map egress_key (np_egress (cp_network p))))"
| "profile_bound p DModelAliases = BSet (btree_set (mp_model_aliases (cp_model_policy p)))"
| "profile_bound p DTtlSeconds = BLimit (ucast (cp_ttl_seconds p))"
| "profile_bound p DActiveExecutionSeconds =
     BLimit (ab_active_execution_seconds (cp_agent_budget p))"
| "profile_bound p DCpuMillicores = BLimit (ucast (rc_cpu_millicores (cp_resources p)))"
| "profile_bound p DMemoryMib = BLimit (ucast (rc_memory_mib (cp_resources p)))"
| "profile_bound p DEphemeralStorageMib =
     BLimit (ucast (rc_ephemeral_storage_mib (cp_resources p)))"
| "profile_bound p DPids = BLimit (ucast (rc_pids (cp_resources p)))"
| "profile_bound p DSessionAllocationMicroUsd =
     BLimit (mp_session_allocation_micro_usd (cp_model_policy p))"
| "profile_bound p DHardTokens = BLimit (ab_hard_tokens (cp_agent_budget p))"
| "profile_bound p DMaxOutputTokens =
     BLimit (ucast (mp_max_output_tokens (cp_model_policy p)))"
| "profile_bound p DMaxConcurrentRequests =
     BLimit (ucast (mp_max_concurrent_requests (cp_model_policy p)))"

definition from_profile :: "campus_profile \<Rightarrow> bound_state" where
  "from_profile p =
     \<lparr>bs_bounds = (\<lambda>d. Some (profile_bound p d)), bs_sources = (\<lambda>_. Some SrcProfile),
      bs_removed = (\<lambda>_. None)\<rparr>"

section \<open>Operations on the bounds\<close>

definition bound_check ::
    "bound_state \<Rightarrow> campus_authority \<Rightarrow> dimension \<Rightarrow> bound \<Rightarrow> (policy_error, unit) pres" where
  "bound_check st a d requested =
     (case bs_bounds st d of
        None \<Rightarrow> Some (Inr ())
      | Some b \<Rightarrow>
          (let widened =
             (case (requested, b) of
                (BSet r, BSet permitted) \<Rightarrow> Some (find (\<lambda>v. v \<notin> set permitted) r)
              | (BLimit r, BLimit permitted) \<Rightarrow>
                  Some (if permitted < r then Some (show_word r) else None)
              | _ \<Rightarrow> None)
           in case widened of
                None \<Rightarrow> None
              | Some None \<Rightarrow> Some (Inr ())
              | Some (Some r) \<Rightarrow>
                  (case bs_sources st d of
                     None \<Rightarrow> None
                   | Some src \<Rightarrow> Some (Inl (PolWidening a d r (bound_describe b) src)))))"

definition record_removed ::
    "policy_source \<Rightarrow> dimension \<Rightarrow> string list \<Rightarrow> bound_state \<Rightarrow> bound_state" where
  "record_removed src d removed st =
     st\<lparr>bs_removed := (bs_removed st)(d \<mapsto>
          fold (\<lambda>v m. btree_insert v src m) removed
            (case bs_removed st d of None \<Rightarrow> [] | Some m \<Rightarrow> m))\<rparr>"

definition bound_narrow ::
    "policy_source \<Rightarrow> dimension \<Rightarrow> bound \<Rightarrow> bound_state \<Rightarrow> bound_state option" where
  "bound_narrow src d requested st =
     (case bs_bounds st d of
        None \<Rightarrow>
          Some (st\<lparr>bs_bounds := (bs_bounds st)(d \<mapsto> requested),
                   bs_sources := (bs_sources st)(d \<mapsto> src)\<rparr>)
      | Some (BSet current) \<Rightarrow>
          (case requested of
             BLimit _ \<Rightarrow> None
           | BSet r \<Rightarrow>
               (let removed = filter (\<lambda>v. v \<notin> set r) current;
                    st = record_removed src d removed
                      (st\<lparr>bs_bounds := (bs_bounds st)(d \<mapsto> BSet (filter (\<lambda>v. v \<in> set r) current))\<rparr>)
                in Some (if removed \<noteq> [] then st\<lparr>bs_sources := (bs_sources st)(d \<mapsto> src)\<rparr> else st)))
      | Some (BLimit current) \<Rightarrow>
          (case requested of
             BSet _ \<Rightarrow> None
           | BLimit r \<Rightarrow>
               (let st' = st\<lparr>bs_bounds := (bs_bounds st)(d \<mapsto> BLimit (min current r))\<rparr>
                in Some (if r < current then st'\<lparr>bs_sources := (bs_sources st)(d \<mapsto> src)\<rparr> else st'))))"

definition apply_denies_at ::
    "campus_authority \<Rightarrow> mandatory_denies \<Rightarrow> dimension \<Rightarrow> bound_state \<Rightarrow> bound_state" where
  "apply_denies_at a m d st =
     (case bs_bounds st d of
        Some (BSet vs) \<Rightarrow>
          (let removed = filter (denies m d) vs;
               st = record_removed (source_of a) d removed
                 (st\<lparr>bs_bounds := (bs_bounds st)(d \<mapsto> BSet (filter (\<lambda>v. \<not> denies m d v) vs))\<rparr>)
           in if removed \<noteq> [] then st\<lparr>bs_sources := (bs_sources st)(d \<mapsto> source_of a)\<rparr> else st)
      | _ \<Rightarrow> st)"

definition apply_denies :: "campus_authority \<Rightarrow> mandatory_denies \<Rightarrow> bound_state \<Rightarrow> bound_state" where
  "apply_denies a m st = fold (apply_denies_at a m) [DTools, DEgress, DModelAliases] st"

definition state_set :: "bound_state \<Rightarrow> dimension \<Rightarrow> string list option" where
  "state_set st d = (case bs_bounds st d of Some (BSet vs) \<Rightarrow> Some vs | _ \<Rightarrow> None)"

definition state_limit :: "bound_state \<Rightarrow> dimension \<Rightarrow> u64 option" where
  "state_limit st d = (case bs_bounds st d of Some (BLimit v) \<Rightarrow> Some v | _ \<Rightarrow> None)"

definition state_limit_u32 :: "bound_state \<Rightarrow> dimension \<Rightarrow> u32 option" where
  "state_limit_u32 st d =
     (case state_limit st d of
        None \<Rightarrow> None
      | Some v \<Rightarrow> if v \<le> 0xFFFFFFFF then Some (ucast v) else None)"

section \<open>Checks on the layers\<close>

fun check_order_from ::
    "campus_authority list \<Rightarrow> campus_authority option \<Rightarrow> policy_layer list
       \<Rightarrow> (policy_error, campus_authority list) res" where
  "check_order_from seen previous [] = Inr seen"
| "check_order_from seen previous (l # ls) =
     (let a = pl_authority l in
      if a \<in> set seen then Inl (PolDuplicateAuthority a)
      else case previous of
          Some after \<Rightarrow>
            if a < after then Inl (PolOutOfOrder a after)
            else check_order_from (a # seen) (Some a) ls
        | None \<Rightarrow> check_order_from (a # seen) (Some a) ls)"

definition check_layer_order :: "policy_layer list \<Rightarrow> unit policy_res" where
  "check_layer_order ls =
     res_bind (check_order_from [] None ls) (\<lambda>seen.
       case find (\<lambda>a. a \<notin> set seen) REQUIRED_AUTHORITIES of
         Some a \<Rightarrow> Inl (PolMissingLayer a)
       | None \<Rightarrow> Inr ())"

record authority_denies =
  ad_authority :: campus_authority
  ad_denies :: mandatory_denies

definition check_mandatory_conflicts ::
    "policy_layer \<Rightarrow> authority_denies list \<Rightarrow> unit policy_res" where
  "check_mandatory_conflicts l ds =
     for_each
       (\<lambda>(d, b).
          case b of
            BLimit _ \<Rightarrow> Inr ()
          | BSet vs \<Rightarrow>
              for_each
                (\<lambda>v. case find (\<lambda>ad. denies (ad_denies ad) d v) ds of
                       Some ad \<Rightarrow>
                         Inl (PolMandatoryDenyConflict (pl_authority l) d v (ad_authority ad))
                     | None \<Rightarrow> Inr ())
                vs)
       (constraint_bounds (pl_constraints l))"

definition check_student_layer :: "policy_layer \<Rightarrow> campus_profile \<Rightarrow> unit policy_res" where
  "check_student_layer l p =
     (let choices = cp_student_choices p in
      for_each
        (\<lambda>(d, b).
           case (d, b) of
             (DModelAliases, BSet aliases) \<Rightarrow>
               (case find (\<lambda>a. a \<notin> set (sc_model_aliases choices)) aliases of
                  Some alias \<Rightarrow>
                    Inl (PolWidening AuStudent d alias
                      (bound_describe (BSet (btree_set (sc_model_aliases choices)))) SrcProfile)
                | None \<Rightarrow> Inr ())
           | (DTtlSeconds, BLimit ttl) \<Rightarrow>
               (if ttl < ucast (sc_min_ttl_seconds choices)
                then Inl (PolInvalidLayer AuStudent ''constraints.ttl_seconds''
                  (''must not be below the profile student minimum '' @
                     show_word (sc_min_ttl_seconds choices)))
                else Inr ())
           | _ \<Rightarrow>
               (if d \<notin> set STUDENT_DIMENSIONS then Inl (PolDimensionNotPermitted AuStudent d)
                else Inr ()))
        (constraint_bounds (pl_constraints l)))"

section \<open>The effective policy\<close>

record effective_constraints =
  ec_tools :: "string list"
  ec_egress :: "egress_destination list"
  ec_model_aliases :: "string list"
  ec_ttl_seconds :: u32
  ec_active_execution_seconds :: u64
  ec_cpu_millicores :: u32
  ec_memory_mib :: u32
  ec_ephemeral_storage_mib :: u32
  ec_pids :: u32
  ec_session_allocation_micro_usd :: u64
  ec_hard_tokens :: u64
  ec_max_output_tokens :: u32
  ec_max_concurrent_requests :: u32

text \<open>Everything the effective hash covers, and the hash itself.\<close>

record effective_core =
  ep_schema_version :: string
  ep_profile :: profile_ref
  ep_layers :: "layer_ref list"
  ep_constraints :: effective_constraints
  ep_mandatory_denies :: "authority_denies list"
  ep_provenance :: "dimension \<rightharpoonup> policy_source"
  ep_removed :: "dimension \<rightharpoonup> (string \<times> policy_source) list"

record effective_policy = effective_core +
  ep_effective_policy_hash :: string

record content_hashes =
  ch_profile :: "campus_profile \<Rightarrow> string"
  ch_layer :: "policy_layer \<Rightarrow> string"
  ch_effective :: "effective_core \<Rightarrow> string"

record compose_state =
  cs_effective :: bound_state
  cs_shared_ceiling :: bound_state
  cs_denies :: "authority_denies list"

definition narrow_both ::
    "campus_authority \<Rightarrow> dimension \<times> bound \<Rightarrow> compose_state \<Rightarrow> (policy_error, compose_state) pres"
  where
  "narrow_both a db s =
     (case db of (d, b) \<Rightarrow>
        (case (if is_shared a then bound_narrow (source_of a) d b (cs_shared_ceiling s)
               else Some (cs_shared_ceiling s)) of
           None \<Rightarrow> None
         | Some ceiling \<Rightarrow>
             (case bound_narrow (source_of a) d b (cs_effective s) of
                None \<Rightarrow> None
              | Some effective \<Rightarrow>
                  Some (Inr (s\<lparr>cs_shared_ceiling := ceiling, cs_effective := effective\<rparr>)))))"

definition compose_layer ::
    "campus_profile \<Rightarrow> policy_layer \<Rightarrow> compose_state \<Rightarrow> (policy_error, compose_state) pres" where
  "compose_layer p l s =
     (let a = pl_authority l;
          s = (if denies_is_empty (pl_mandatory_denies l) then s
               else s\<lparr>cs_denies := cs_denies s @
                 [\<lparr>ad_authority = a, ad_denies = denies_normalized (pl_mandatory_denies l)\<rparr>]\<rparr>);
          bounds = constraint_bounds (pl_constraints l);
          against = (if is_shared a then cs_shared_ceiling s else cs_effective s)
      in pres_bind (Some (check_mandatory_conflicts l (cs_denies s))) (\<lambda>_.
         pres_bind (pres_each (\<lambda>(d, b). bound_check against a d b) bounds) (\<lambda>_.
         pres_bind (Some (if a = AuStudent then check_student_layer l p else Inr ())) (\<lambda>_.
         pres_bind (pres_fold (narrow_both a) bounds s) (\<lambda>s.
           Some (Inr (s\<lparr>cs_effective :=
             apply_denies a (pl_mandatory_denies l) (cs_effective s)\<rparr>)))))))"

text \<open>Active execution time can never outlast the session.\<close>

definition clamp_active :: "bound_state \<Rightarrow> (policy_error, bound_state) pres" where
  "clamp_active st =
     (case (state_limit st DTtlSeconds, state_limit st DActiveExecutionSeconds) of
        (Some ttl, Some active) \<Rightarrow>
          (if ttl < active
           then (case bs_sources st DTtlSeconds of
                   None \<Rightarrow> None
                 | Some source \<Rightarrow>
                     map_option Inr
                       (bound_narrow source DActiveExecutionSeconds (BLimit ttl) st))
           else Some (Inr st))
      | _ \<Rightarrow> None)"

definition require_nonempty :: "bound_state \<Rightarrow> dimension \<Rightarrow> (policy_error, unit) pres" where
  "require_nonempty st d =
     map_option (\<lambda>vs. require (vs \<noteq> []) (PolEmptyDimension d)) (state_set st d)"

definition parse_egress_key :: "string \<Rightarrow> egress_destination option" where
  "parse_egress_key key =
     (case rsplit_once CHR '':'' key of
        None \<Rightarrow> None
      | Some (host, port) \<Rightarrow>
          map_option (\<lambda>n. \<lparr>ed_host = host, ed_port = of_nat n\<rparr>) (parse_unsigned (2 ^ 16) port))"

fun parse_egress_keys :: "string list \<Rightarrow> egress_destination list option" where
  "parse_egress_keys [] = Some []"
| "parse_egress_keys (k # ks) =
     (case parse_egress_key k of
        None \<Rightarrow> None
      | Some d \<Rightarrow> map_option (Cons d) (parse_egress_keys ks))"

definition effective_constraints_of :: "bound_state \<Rightarrow> effective_constraints option" where
  "effective_constraints_of st =
     Option.bind (state_set st DTools) (\<lambda>tools.
     Option.bind (state_set st DEgress) (\<lambda>keys.
     Option.bind (parse_egress_keys keys) (\<lambda>egress.
     Option.bind (state_set st DModelAliases) (\<lambda>aliases.
     Option.bind (state_limit_u32 st DTtlSeconds) (\<lambda>ttl.
     Option.bind (state_limit st DActiveExecutionSeconds) (\<lambda>active.
     Option.bind (state_limit_u32 st DCpuMillicores) (\<lambda>cpu.
     Option.bind (state_limit_u32 st DMemoryMib) (\<lambda>memory.
     Option.bind (state_limit_u32 st DEphemeralStorageMib) (\<lambda>storage.
     Option.bind (state_limit_u32 st DPids) (\<lambda>pids.
     Option.bind (state_limit st DSessionAllocationMicroUsd) (\<lambda>usd.
     Option.bind (state_limit st DHardTokens) (\<lambda>tokens.
     Option.bind (state_limit_u32 st DMaxOutputTokens) (\<lambda>output.
     Option.bind (state_limit_u32 st DMaxConcurrentRequests) (\<lambda>concurrent.
       Some \<lparr>ec_tools = tools,
             ec_egress = sort_key (\<lambda>d. (ed_host d, ed_port d)) (remdups egress),
             ec_model_aliases = aliases, ec_ttl_seconds = ttl,
             ec_active_execution_seconds = active, ec_cpu_millicores = cpu,
             ec_memory_mib = memory, ec_ephemeral_storage_mib = storage, ec_pids = pids,
             ec_session_allocation_micro_usd = usd, ec_hard_tokens = tokens,
             ec_max_output_tokens = output, ec_max_concurrent_requests = concurrent\<rparr>))))))))))))))"

definition compose_start :: "campus_profile \<Rightarrow> compose_state" where
  "compose_start p =
     \<lparr>cs_effective = from_profile p, cs_shared_ceiling = bound_state_default, cs_denies = []\<rparr>"

definition compose_finish ::
    "content_hashes \<Rightarrow> campus_profile \<Rightarrow> policy_layer list \<Rightarrow> compose_state
       \<Rightarrow> (policy_error, effective_policy) pres" where
  "compose_finish h p ls s =
     pres_bind (clamp_active (cs_effective s)) (\<lambda>st.
     pres_bind (pres_each (require_nonempty st) [DTools, DModelAliases]) (\<lambda>_.
       case effective_constraints_of st of
         None \<Rightarrow> None
       | Some c \<Rightarrow>
           (let core = \<lparr>ep_schema_version = EFFECTIVE_CAMPUS_POLICY_SCHEMA,
                  ep_profile = profile_ref_of (ch_profile h) p,
                  ep_layers = map (layer_ref_of (ch_layer h)) ls,
                  ep_constraints = c,
                  ep_mandatory_denies = cs_denies s,
                  ep_provenance = bs_sources st,
                  ep_removed = (\<lambda>d. case bs_removed st d of
                     None \<Rightarrow> None
                   | Some m \<Rightarrow> if m = [] then None else Some m)\<rparr>
            in Some (Inr (effective_core.extend core
                 \<lparr>ep_effective_policy_hash = ch_effective h core\<rparr>)))))"

definition compose ::
    "content_hashes \<Rightarrow> campus_profile \<Rightarrow> policy_layer list \<Rightarrow> string set
       \<Rightarrow> (policy_error, effective_policy) pres" where
  "compose h p ls recorded =
     pres_bind (Some (map_err PolProfile (profile_validate p))) (\<lambda>_.
     pres_bind (Some (map_err PolProfile (check_launchable p recorded))) (\<lambda>_.
     pres_bind (Some (check_layer_order ls)) (\<lambda>_.
     pres_bind (Some (for_each layer_validate ls)) (\<lambda>_.
     pres_bind (pres_fold (compose_layer p) ls (compose_start p)) (\<lambda>s.
       compose_finish h p ls s)))))"

section \<open>Kinds of bounds\<close>

definition is_set_dim :: "dimension \<Rightarrow> bool" where
  "is_set_dim d \<longleftrightarrow> d \<in> {DTools, DEgress, DModelAliases}"

fun kinded :: "dimension \<Rightarrow> bound \<Rightarrow> bool" where
  "kinded d (BSet vs) = is_set_dim d"
| "kinded d (BLimit v) = (\<not> is_set_dim d)"

text \<open>What one layer's constraints say about a dimension, as a function of the dimension.\<close>

fun constraint_bound :: "policy_constraints \<Rightarrow> dimension \<Rightarrow> bound option" where
  "constraint_bound c DTools = map_option (\<lambda>ts. BSet (btree_set ts)) (pc_tools c)"
| "constraint_bound c DEgress = map_option (\<lambda>es. BSet (btree_set (map egress_key es))) (pc_egress c)"
| "constraint_bound c DModelAliases = map_option (\<lambda>as. BSet (btree_set as)) (pc_model_aliases c)"
| "constraint_bound c d = Option.bind (map_of (limit_options c) d) (map_option BLimit)"

lemma kinded_profile_bound: "kinded d (profile_bound p d)"
  by (cases d) (simp_all add: is_set_dim_def)

lemma kinded_constraint_bound: "constraint_bound c d = Some b \<Longrightarrow> kinded d b"
  by (cases d) (auto simp: is_set_dim_def limit_options_def)

lemma map_filter_lookup:
  "distinct (map fst xs) \<Longrightarrow>
     (d, b) \<in> set (List.map_filter (\<lambda>(d, v). map_option (\<lambda>v. (d, BLimit v)) v) xs) \<longleftrightarrow>
     Option.bind (map_of xs d) (map_option BLimit) = Some b"
  by (induction xs) (auto simp: List.map_filter_def image_iff split: option.splits if_splits
      dest!: map_of_SomeD)

lemma limit_options_distinct: "distinct (map fst (limit_options c))"
  by (simp add: limit_options_def)

lemma limit_options_no_set: "is_set_dim d \<Longrightarrow> map_of (limit_options c) d = None"
  by (auto simp: is_set_dim_def limit_options_def)

lemma constraint_bound_limit:
  "\<not> is_set_dim d \<Longrightarrow> constraint_bound c d = Option.bind (map_of (limit_options c) d) (map_option BLimit)"
  by (cases d) (simp_all add: is_set_dim_def)

lemma set_bounds_lookup:
  "(d, b) \<in> set (set_bounds c) \<longleftrightarrow> is_set_dim d \<and> constraint_bound c d = Some b"
  by (cases d; cases "pc_tools c"; cases "pc_egress c"; cases "pc_model_aliases c")
    (auto simp: set_bounds_def is_set_dim_def)

lemma constraint_bounds_lookup:
  "(d, b) \<in> set (constraint_bounds c) \<longleftrightarrow> constraint_bound c d = Some b"
proof (cases "is_set_dim d")
  case True
  then show ?thesis
    using limit_options_no_set [OF True, of c]
    by (simp add: constraint_bounds_def set_bounds_lookup map_filter_lookup
        limit_options_distinct)
next
  case False
  then show ?thesis
    by (simp add: constraint_bounds_def set_bounds_lookup map_filter_lookup
        limit_options_distinct constraint_bound_limit)
qed

lemma map_filter_fst_distinct:
  "distinct (map fst xs) \<Longrightarrow>
     distinct (map fst (List.map_filter (\<lambda>(d, v). map_option (\<lambda>v. (d, BLimit v)) v) xs))"
  by (induction xs) (auto simp: List.map_filter_def image_iff split: option.splits)

lemma constraint_bounds_distinct: "distinct (map fst (constraint_bounds c))"
proof -
  have s: "distinct (map fst (set_bounds c))"
    by (auto simp: set_bounds_def split: option.splits)
  have "is_set_dim d" if "d \<in> fst ` set (set_bounds c)" for d
    using that by (auto simp: set_bounds_lookup)
  moreover have "\<not> is_set_dim d"
    if "d \<in> fst ` set (List.map_filter (\<lambda>(d, v). map_option (\<lambda>v. (d, BLimit v)) v) (limit_options c))"
    for d
    using that limit_options_no_set [of d c]
    by (auto simp: map_filter_lookup limit_options_distinct)
  ultimately show ?thesis
    using s map_filter_fst_distinct [OF limit_options_distinct, of c]
    by (auto simp: constraint_bounds_def)
qed

section \<open>The effect of an operation on the bounds\<close>

fun bound_meet :: "bound \<Rightarrow> bound \<Rightarrow> bound" where
  "bound_meet (BSet a) (BSet b) = BSet (filter (\<lambda>v. v \<in> set b) a)"
| "bound_meet (BLimit a) (BLimit b) = BLimit (min a b)"
| "bound_meet a b = a"

fun bound_le :: "bound \<Rightarrow> bound \<Rightarrow> bool" where
  "bound_le (BSet a) (BSet b) = (set a \<subseteq> set b)"
| "bound_le (BLimit a) (BLimit b) = (a \<le> b)"
| "bound_le a b = False"

definition deny_bound :: "mandatory_denies \<Rightarrow> dimension \<Rightarrow> bound \<Rightarrow> bound" where
  "deny_bound m d b =
     (case b of BSet vs \<Rightarrow> if is_set_dim d then BSet (filter (\<lambda>v. \<not> denies m d v) vs) else b
      | BLimit v \<Rightarrow> b)"

definition layer_effect :: "policy_layer \<Rightarrow> dimension \<Rightarrow> bound \<Rightarrow> bound" where
  "layer_effect l d b =
     deny_bound (pl_mandatory_denies l) d
       (case constraint_bound (pl_constraints l) d of None \<Rightarrow> b | Some r \<Rightarrow> bound_meet b r)"

definition bounds_kinded :: "bound_state \<Rightarrow> bool" where
  "bounds_kinded st \<longleftrightarrow>
     (\<forall>d b. bs_bounds st d = Some b \<longrightarrow> kinded d b \<and> bs_sources st d \<noteq> None)"

lemma kinded_meet: "kinded d a \<Longrightarrow> kinded d b \<Longrightarrow> kinded d (bound_meet a b)"
  by (cases a; cases b) simp_all

lemma kinded_layer_effect: "kinded d b \<Longrightarrow> kinded d (layer_effect l d b)"
  using kinded_constraint_bound [of "pl_constraints l" d]
  by (cases b; cases "constraint_bound (pl_constraints l) d"; cases "the (constraint_bound (pl_constraints l) d)")
    (auto simp: layer_effect_def deny_bound_def)

lemma record_removed_simps [simp]:
  "bs_bounds (record_removed s d r st) = bs_bounds st"
  "bs_sources (record_removed s d r st) = bs_sources st"
  by (simp_all add: record_removed_def)

lemma narrow_effect:
  assumes "bounds_kinded st" "kinded d r"
  shows "\<exists>st'. bound_narrow src d r st = Some st' \<and> bounds_kinded st' \<and>
     bs_bounds st' =
       (bs_bounds st)(d \<mapsto> (case bs_bounds st d of None \<Rightarrow> r | Some b \<Rightarrow> bound_meet b r))"
proof (cases "bs_bounds st d")
  case None
  with assms show ?thesis by (auto simp: bound_narrow_def bounds_kinded_def)
next
  case (Some b)
  with assms have "kinded d b" by (simp add: bounds_kinded_def)
  with Some assms show ?thesis
    by (cases b; cases r)
      (auto simp: bound_narrow_def bounds_kinded_def Let_def min_def)
qed

lemma bounds_kinded_set: "bounds_kinded st \<Longrightarrow> bs_bounds st d = Some (BSet vs) \<Longrightarrow> is_set_dim d"
  unfolding bounds_kinded_def by (metis kinded.simps(1))

lemma apply_denies_at_effect:
  assumes "bounds_kinded st"
  shows "bounds_kinded (apply_denies_at a m d st)"
    "bs_bounds (apply_denies_at a m d st) d' =
       (if d' = d then (case bs_bounds st d of Some (BSet vs) \<Rightarrow>
            Some (BSet (filter (\<lambda>v. \<not> denies m d v) vs)) | b \<Rightarrow> b)
        else bs_bounds st d')"
  using assms bounds_kinded_set [OF assms]
  by (auto simp: apply_denies_at_def bounds_kinded_def Let_def split: option.splits bound.splits)

lemma apply_denies_kinded: "bounds_kinded st \<Longrightarrow> bounds_kinded (apply_denies a m st)"
  by (simp add: apply_denies_def apply_denies_at_effect)

lemma apply_denies_effect:
  assumes "bounds_kinded st"
  shows "bs_bounds (apply_denies a m st) d = map_option (deny_bound m d) (bs_bounds st d)"
proof -
  note k = assms apply_denies_at_effect(1) [OF assms]
  have "bs_bounds (apply_denies a m st) d =
      (if is_set_dim d then (case bs_bounds st d of Some (BSet vs) \<Rightarrow>
          Some (BSet (filter (\<lambda>v. \<not> denies m d v) vs)) | b \<Rightarrow> b) else bs_bounds st d)"
    by (cases d) (auto simp: apply_denies_def apply_denies_at_effect k is_set_dim_def
        split: option.splits bound.splits)
  then show ?thesis by (auto simp: deny_bound_def split: option.splits bound.splits)
qed

lemma bound_check_no_panic:
  "bounds_kinded st \<Longrightarrow> kinded d r \<Longrightarrow> bound_check st a d r \<noteq> None"
proof -
  assume st: "bounds_kinded st" and r: "kinded d r"
  show ?thesis
  proof (cases "bs_bounds st d")
    case None
    then show ?thesis by (simp add: bound_check_def)
  next
    case (Some b)
    with st have "kinded d b" "\<exists>s. bs_sources st d = Some s" by (auto simp: bounds_kinded_def)
    with Some r show ?thesis
      by (cases b; cases r) (auto simp: bound_check_def split: option.splits)
  qed
qed

lemma bound_check_ok:
  "bound_check st a d r = Some (Inr ()) \<Longrightarrow> bs_bounds st d = Some b \<Longrightarrow> bound_le r b"
  by (cases b; cases r)
    (auto simp: bound_check_def find_None_iff split: option.splits if_splits)

section \<open>Folding the layers\<close>

definition merge_bounds :: "(dimension \<times> bound) list \<Rightarrow> (dimension \<rightharpoonup> bound) \<Rightarrow> (dimension \<rightharpoonup> bound)"
  where
  "merge_bounds bs m d =
     (case map_of bs d of
        None \<Rightarrow> m d
      | Some r \<Rightarrow> Some (case m d of None \<Rightarrow> r | Some b \<Rightarrow> bound_meet b r))"

lemma merge_bounds_Nil [simp]: "merge_bounds [] m = m"
  by (rule ext) (simp add: merge_bounds_def)

lemma merge_bounds_Cons:
  "d \<notin> fst ` set bs \<Longrightarrow>
     merge_bounds bs (m(d \<mapsto> (case m d of None \<Rightarrow> r | Some b \<Rightarrow> bound_meet b r))) =
     merge_bounds ((d, r) # bs) m"
proof (rule ext)
  fix x
  assume "d \<notin> fst ` set bs"
  then have "map_of bs d = None" by (simp add: map_of_eq_None_iff)
  then show "merge_bounds bs (m(d \<mapsto> (case m d of None \<Rightarrow> r | Some b \<Rightarrow> bound_meet b r))) x =
      merge_bounds ((d, r) # bs) m x"
    by (cases "x = d"; cases "map_of bs x") (simp_all add: merge_bounds_def)
qed

definition states_kinded :: "compose_state \<Rightarrow> bool" where
  "states_kinded s \<longleftrightarrow> bounds_kinded (cs_effective s) \<and> bounds_kinded (cs_shared_ceiling s)"

lemma narrow_both_fold:
  assumes "states_kinded s" "distinct (map fst bs)" "\<forall>(d, b)\<in>set bs. kinded d b"
  shows "\<exists>s'. pres_fold (narrow_both a) bs s = Some (Inr s') \<and> states_kinded s' \<and>
     cs_denies s' = cs_denies s \<and>
     bs_bounds (cs_effective s') = merge_bounds bs (bs_bounds (cs_effective s)) \<and>
     bs_bounds (cs_shared_ceiling s') =
       (if is_shared a then merge_bounds bs (bs_bounds (cs_shared_ceiling s))
        else bs_bounds (cs_shared_ceiling s))"
  using assms
proof (induction bs arbitrary: s)
  case Nil
  then show ?case by simp
next
  case (Cons db bs)
  obtain d r where db: "db = (d, r)" by (cases db)
  with Cons.prems have k: "kinded d r" "bounds_kinded (cs_effective s)"
    "bounds_kinded (cs_shared_ceiling s)" and d: "d \<notin> fst ` set bs"
    by (auto simp: states_kinded_def)
  from narrow_effect [OF k(2) k(1), of "source_of a"] obtain e where e:
    "bound_narrow (source_of a) d r (cs_effective s) = Some e" "bounds_kinded e"
    "bs_bounds e = (bs_bounds (cs_effective s))
       (d \<mapsto> (case bs_bounds (cs_effective s) d of None \<Rightarrow> r | Some b \<Rightarrow> bound_meet b r))" by auto
  from narrow_effect [OF k(3) k(1), of "source_of a"] obtain c where c:
    "bound_narrow (source_of a) d r (cs_shared_ceiling s) = Some c" "bounds_kinded c"
    "bs_bounds c = (bs_bounds (cs_shared_ceiling s))
       (d \<mapsto> (case bs_bounds (cs_shared_ceiling s) d of None \<Rightarrow> r | Some b \<Rightarrow> bound_meet b r))" by auto
  define c' where "c' = (if is_shared a then c else cs_shared_ceiling s)"
  define s1 where "s1 = s\<lparr>cs_shared_ceiling := c', cs_effective := e\<rparr>"
  have step: "narrow_both a db s = Some (Inr s1)"
    by (simp add: narrow_both_def db e c s1_def c'_def)
  have "states_kinded s1"
    using e c k by (simp add: s1_def c'_def states_kinded_def)
  with Cons.IH [of s1] Cons.prems obtain s' where s':
    "pres_fold (narrow_both a) bs s1 = Some (Inr s')" "states_kinded s'"
    "cs_denies s' = cs_denies s1"
    "bs_bounds (cs_effective s') = merge_bounds bs (bs_bounds (cs_effective s1))"
    "bs_bounds (cs_shared_ceiling s') =
       (if is_shared a then merge_bounds bs (bs_bounds (cs_shared_ceiling s1))
        else bs_bounds (cs_shared_ceiling s1))"
    by auto
  show ?case
    using step s' merge_bounds_Cons [OF d] by (intro exI [of _ s']) (simp add: s1_def c'_def db e c)
qed

lemma map_of_constraint_bounds: "map_of (constraint_bounds c) d = constraint_bound c d"
proof (cases "constraint_bound c d")
  case None
  then have "d \<notin> fst ` set (constraint_bounds c)" by (auto simp: constraint_bounds_lookup)
  with None show ?thesis by (simp add: map_of_eq_None_iff)
next
  case (Some b)
  then show ?thesis
    by (simp add: constraint_bounds_distinct constraint_bounds_lookup)
qed

lemma merge_layer_effect:
  "map_option (deny_bound m d) (merge_bounds (constraint_bounds c) f d) =
     (case f d of
        None \<Rightarrow> map_option (deny_bound m d) (constraint_bound c d)
      | Some b \<Rightarrow> Some (deny_bound m d (case constraint_bound c d of None \<Rightarrow> b | Some r \<Rightarrow> bound_meet b r)))"
  by (simp add: merge_bounds_def map_of_constraint_bounds split: option.splits)

text \<open>The bounds a layer is checked against, and the denies it adds.\<close>

definition checked_against :: "policy_layer \<Rightarrow> compose_state \<Rightarrow> bound_state" where
  "checked_against l s = (if is_shared (pl_authority l) then cs_shared_ceiling s else cs_effective s)"

definition add_denies :: "policy_layer \<Rightarrow> authority_denies list \<Rightarrow> authority_denies list" where
  "add_denies l ds =
     (if denies_is_empty (pl_mandatory_denies l) then ds
      else ds @ [\<lparr>ad_authority = pl_authority l,
                  ad_denies = denies_normalized (pl_mandatory_denies l)\<rparr>])"

lemma compose_layer_step:
  assumes "states_kinded s"
  shows "\<exists>r. compose_layer p l s = Some r \<and>
     (\<forall>s'. r = Inr s' \<longrightarrow>
        states_kinded s' \<and> cs_denies s' = add_denies l (cs_denies s) \<and>
        check_mandatory_conflicts l (cs_denies s') = Inr () \<and>
        (pl_authority l = AuStudent \<longrightarrow> check_student_layer l p = Inr ()) \<and>
        (\<forall>d r b. constraint_bound (pl_constraints l) d = Some r \<longrightarrow>
           bs_bounds (checked_against l s) d = Some b \<longrightarrow> bound_le r b) \<and>
        (\<forall>d b. bs_bounds (cs_effective s) d = Some b \<longrightarrow>
           bs_bounds (cs_effective s') d = Some (layer_effect l d b)) \<and>
        bs_bounds (cs_shared_ceiling s') =
          (if is_shared (pl_authority l)
           then merge_bounds (constraint_bounds (pl_constraints l)) (bs_bounds (cs_shared_ceiling s))
           else bs_bounds (cs_shared_ceiling s)))"
proof -
  let ?a = "pl_authority l" and ?bs = "constraint_bounds (pl_constraints l)"
  define s0 where "s0 = s\<lparr>cs_denies := add_denies l (cs_denies s)\<rparr>"
  have s0: "(if denies_is_empty (pl_mandatory_denies l) then s
      else s\<lparr>cs_denies := cs_denies s @
        [\<lparr>ad_authority = ?a, ad_denies = denies_normalized (pl_mandatory_denies l)\<rparr>]\<rparr>) = s0"
    by (simp add: s0_def add_denies_def)
  have k0: "states_kinded s0" using assms by (simp add: s0_def states_kinded_def)
  have ag: "(if is_shared ?a then cs_shared_ceiling s0 else cs_effective s0) = checked_against l s"
    by (simp add: s0_def checked_against_def)
  have kag: "bounds_kinded (checked_against l s)"
    using assms by (simp add: checked_against_def states_kinded_def)
  have kb: "\<forall>(d, b)\<in>set ?bs. kinded d b"
    by (auto simp: constraint_bounds_lookup kinded_constraint_bound)
  from narrow_both_fold [OF k0 constraint_bounds_distinct kb, of ?a] obtain s1 where s1:
    "pres_fold (narrow_both ?a) ?bs s0 = Some (Inr s1)" "states_kinded s1"
    "cs_denies s1 = cs_denies s0"
    "bs_bounds (cs_effective s1) = merge_bounds ?bs (bs_bounds (cs_effective s0))"
    "bs_bounds (cs_shared_ceiling s1) =
       (if is_shared ?a then merge_bounds ?bs (bs_bounds (cs_shared_ceiling s0))
        else bs_bounds (cs_shared_ceiling s0))"
    by auto
  define s2 where "s2 = s1\<lparr>cs_effective := apply_denies ?a (pl_mandatory_denies l) (cs_effective s1)\<rparr>"
  have k2: "states_kinded s2"
    using s1(2) by (simp add: s2_def states_kinded_def apply_denies_kinded)
  have eff: "bs_bounds (cs_effective s2) d = Some (layer_effect l d b)"
    if "bs_bounds (cs_effective s) d = Some b" for d b
    using s1(2) s1(4) that
    by (simp add: s2_def apply_denies_effect states_kinded_def merge_layer_effect s0_def
        layer_effect_def)
  have body: "compose_layer p l s =
      pres_bind (Some (check_mandatory_conflicts l (cs_denies s0))) (\<lambda>_.
      pres_bind (pres_each (\<lambda>(d, b). bound_check (checked_against l s) ?a d b) ?bs) (\<lambda>_.
      pres_bind (Some (if ?a = AuStudent then check_student_layer l p else Inr ())) (\<lambda>_.
        Some (Inr s2))))"
    unfolding compose_layer_def Let_def s0 ag by (simp add: s1(1) s2_def)
  have "pres_each (\<lambda>(d, b). bound_check (checked_against l s) ?a d b) ?bs \<noteq> None"
    using kb bound_check_no_panic [OF kag] by (intro pres_each_no_panic) fastforce
  then have "compose_layer p l s \<noteq> None" unfolding body by (auto simp: pres_bind_None)
  moreover have "bound_le r b"
    if "pres_each (\<lambda>(d, b). bound_check (checked_against l s) ?a d b) ?bs = Some (Inr ())"
      "constraint_bound (pl_constraints l) d = Some r" "bs_bounds (checked_against l s) d = Some b"
    for d r b
    using that by (auto simp: pres_each_ok constraint_bounds_lookup dest!: bspec [of _ _ "(d, r)"]
        intro: bound_check_ok)
  ultimately show ?thesis
    using k2 eff s1(3,5) unfolding body
    by (auto simp: pres_bind_ok s2_def s0_def)
qed

definition all_effects :: "policy_layer list \<Rightarrow> dimension \<Rightarrow> bound \<Rightarrow> bound" where
  "all_effects ls d = fold (\<lambda>l. layer_effect l d) ls"

lemma compose_fold:
  assumes "states_kinded s"
  shows "\<exists>r. pres_fold (compose_layer p) ls s = Some r \<and>
     (\<forall>s'. r = Inr s' \<longrightarrow>
        states_kinded s' \<and> cs_denies s' = fold add_denies ls (cs_denies s) \<and>
        (\<forall>d b. bs_bounds (cs_effective s) d = Some b \<longrightarrow>
           bs_bounds (cs_effective s') d = Some (all_effects ls d b)))"
  using assms
proof (induction ls arbitrary: s)
  case Nil
  then show ?case by (simp add: all_effects_def)
next
  case (Cons l ls)
  from compose_layer_step [OF Cons.prems, of p l] obtain r where
    step: "compose_layer p l s = Some r" and r: "\<And>s'. r = Inr s' \<Longrightarrow>
      states_kinded s' \<and> cs_denies s' = add_denies l (cs_denies s) \<and>
      (\<forall>d b. bs_bounds (cs_effective s) d = Some b \<longrightarrow>
         bs_bounds (cs_effective s') d = Some (layer_effect l d b))" by auto
  show ?case
  proof (cases r)
    case (Inl e)
    then show ?thesis using step by simp
  next
    case (Inr s1)
    with r [OF Inr] Cons.IH [of s1] step show ?thesis
      by (auto simp: all_effects_def)
  qed
qed

lemma compose_start_kinded: "states_kinded (compose_start p)"
  by (simp add: compose_start_def states_kinded_def bounds_kinded_def from_profile_def
      bound_state_default_def kinded_profile_bound)

lemma compose_start_bounds: "bs_bounds (cs_effective (compose_start p)) d = Some (profile_bound p d)"
  by (simp add: compose_start_def from_profile_def)

lemma compose_start_denies: "cs_denies (compose_start p) = []"
  by (simp add: compose_start_def)

section \<open>The declarative bounds\<close>

text \<open>The least of a profile limit and the limits the layers write.\<close>

definition tightest :: "'a::linorder \<Rightarrow> (policy_constraints \<Rightarrow> 'a option) \<Rightarrow> policy_layer list \<Rightarrow> 'a"
  where
  "tightest v f ls = fold min (List.map_filter (\<lambda>l. f (pl_constraints l)) ls) v"

lemma tightest_Nil [simp]: "tightest v f [] = v"
  by (simp add: tightest_def List.map_filter_def)

lemma tightest_Cons:
  "tightest v f (l # ls) =
     tightest (case f (pl_constraints l) of None \<Rightarrow> v | Some w \<Rightarrow> min v w) f ls"
  by (simp add: tightest_def List.map_filter_def min.commute split: option.splits)

lemma tightest_le: "tightest v f ls \<le> v"
proof (induction ls arbitrary: v)
  case (Cons l ls)
  show ?case
    using Cons [of "case f (pl_constraints l) of None \<Rightarrow> v | Some w \<Rightarrow> min v w"]
    by (auto simp: tightest_Cons split: option.splits)
qed simp

lemma tightest_le_layer: "l \<in> set ls \<Longrightarrow> f (pl_constraints l) = Some w \<Longrightarrow> tightest v f ls \<le> w"
proof (induction ls arbitrary: v)
  case (Cons l' ls)
  show ?case
  proof (cases "l = l'")
    case True
    with Cons.prems tightest_le [of "min v w" f ls] show ?thesis by (simp add: tightest_Cons)
  next
    case False
    with Cons show ?thesis by (simp add: tightest_Cons)
  qed
qed simp

lemma tightest_attained:
  "tightest v f ls = v \<or> (\<exists>l\<in>set ls. f (pl_constraints l) = Some (tightest v f ls))"
proof (induction ls arbitrary: v)
  case (Cons l ls)
  show ?case
  proof (cases "f (pl_constraints l)")
    case None
    with Cons show ?thesis by (auto simp: tightest_Cons)
  next
    case (Some w)
    with Cons [of "min v w"] show ?thesis by (auto simp: tightest_Cons min_def split: if_splits)
  qed
qed simp

lemma ucast_min: "(ucast (min a b :: u32) :: u64) = min (ucast a) (ucast b)"
  by (simp add: min_def ucast_u64_le)

lemma tightest_ucast:
  "tightest (ucast v :: u64) (\<lambda>c. map_option ucast (f c)) ls = ucast (tightest (v :: u32) f ls)"
  by (induction ls arbitrary: v) (auto simp: tightest_Cons ucast_min [symmetric] split: option.splits)

lemma all_effects_limit:
  assumes "\<not> is_set_dim d" "\<And>c. constraint_bound c d = map_option BLimit (f c)"
  shows "all_effects ls d (BLimit v) = BLimit (tightest v f ls)"
  by (induction ls arbitrary: v)
    (auto simp: all_effects_def tightest_Cons layer_effect_def deny_bound_def assms
      split: option.splits)

lemmas limit_dims = is_set_dim_def limit_options_def

lemma effects_limits:
  "all_effects ls DTtlSeconds (BLimit (ucast t)) = BLimit (ucast (tightest t pc_ttl_seconds ls))"
  "all_effects ls DActiveExecutionSeconds (BLimit v) =
     BLimit (tightest v pc_active_execution_seconds ls)"
  "all_effects ls DCpuMillicores (BLimit (ucast t)) = BLimit (ucast (tightest t pc_cpu_millicores ls))"
  "all_effects ls DMemoryMib (BLimit (ucast t)) = BLimit (ucast (tightest t pc_memory_mib ls))"
  "all_effects ls DEphemeralStorageMib (BLimit (ucast t)) =
     BLimit (ucast (tightest t pc_ephemeral_storage_mib ls))"
  "all_effects ls DPids (BLimit (ucast t)) = BLimit (ucast (tightest t pc_pids ls))"
  "all_effects ls DSessionAllocationMicroUsd (BLimit v) =
     BLimit (tightest v pc_session_allocation_micro_usd ls)"
  "all_effects ls DHardTokens (BLimit v) = BLimit (tightest v pc_hard_tokens ls)"
  "all_effects ls DMaxOutputTokens (BLimit (ucast t)) =
     BLimit (ucast (tightest t pc_max_output_tokens ls))"
  "all_effects ls DMaxConcurrentRequests (BLimit (ucast t)) =
     BLimit (ucast (tightest t pc_max_concurrent_requests ls))"
  using all_effects_limit [of DTtlSeconds "\<lambda>c. map_option ucast (pc_ttl_seconds c)"]
    all_effects_limit [of DActiveExecutionSeconds pc_active_execution_seconds]
    all_effects_limit [of DCpuMillicores "\<lambda>c. map_option ucast (pc_cpu_millicores c)"]
    all_effects_limit [of DMemoryMib "\<lambda>c. map_option ucast (pc_memory_mib c)"]
    all_effects_limit [of DEphemeralStorageMib "\<lambda>c. map_option ucast (pc_ephemeral_storage_mib c)"]
    all_effects_limit [of DPids "\<lambda>c. map_option ucast (pc_pids c)"]
    all_effects_limit [of DSessionAllocationMicroUsd pc_session_allocation_micro_usd]
    all_effects_limit [of DHardTokens pc_hard_tokens]
    all_effects_limit [of DMaxOutputTokens "\<lambda>c. map_option ucast (pc_max_output_tokens c)"]
    all_effects_limit [of DMaxConcurrentRequests "\<lambda>c. map_option ucast (pc_max_concurrent_requests c)"]
  by (simp_all add: limit_dims tightest_ucast option.map_comp comp_def)

text \<open>The members of a set dimension that survive every layer.\<close>

definition layer_admits :: "policy_layer \<Rightarrow> dimension \<Rightarrow> string \<Rightarrow> bool" where
  "layer_admits l d v \<longleftrightarrow>
     (\<forall>r. constraint_bound (pl_constraints l) d = Some (BSet r) \<longrightarrow> v \<in> set r) \<and>
     \<not> denies (pl_mandatory_denies l) d v"

lemma all_effects_set:
  assumes "is_set_dim d"
  shows "all_effects ls d (BSet vs) = BSet (filter (\<lambda>v. \<forall>l\<in>set ls. layer_admits l d v) vs)"
proof (induction ls arbitrary: vs)
  case Nil
  then show ?case by (simp add: all_effects_def)
next
  case (Cons l ls)
  have "layer_effect l d (BSet vs) = BSet (filter (layer_admits l d) vs)"
  proof (cases "constraint_bound (pl_constraints l) d")
    case None
    with assms show ?thesis
      by (auto simp: layer_effect_def deny_bound_def layer_admits_def intro: filter_cong)
  next
    case (Some r)
    with kinded_constraint_bound [OF Some] assms show ?thesis
      by (cases r)
        (auto simp: layer_effect_def deny_bound_def layer_admits_def intro: filter_cong)
  qed
  with Cons [of "filter (layer_admits l d) vs"] show ?case
    by (simp add: all_effects_def conj_commute)
qed

section \<open>Egress keys\<close>

lemma rsplit_egress_key: "rsplit_once CHR '':'' (egress_key d) = Some (ed_host d, show_word (ed_port d))"
  using rsplit_once_append [of "CHR '':''" "show_word (ed_port d)" "ed_host d"]
  by (simp add: egress_key_def show_word_def colon_notin_show_nat)

lemma parse_egress_key_inverse: "parse_egress_key (egress_key d) = Some d"
  using unat_u16_less [of "ed_port d"]
  by (simp add: parse_egress_key_def rsplit_egress_key show_word_def parse_unsigned_show_nat)

lemma egress_key_inj: "egress_key d = egress_key e \<Longrightarrow> d = e"
  by (metis option.inject parse_egress_key_inverse)

lemma egress_key_host_key [simp]: "egress_key_host (egress_key d) = ed_host d"
  by (simp add: egress_key_host_def rsplit_egress_key)

lemma parse_egress_keys_map: "parse_egress_keys (map egress_key ds) = Some ds"
  by (induction ds) (simp_all add: parse_egress_key_inverse)

lemma keys_of_destinations:
  "set ks \<subseteq> egress_key ` A \<Longrightarrow> \<exists>ds. ks = map egress_key ds \<and> set ds \<subseteq> A"
proof (induction ks)
  case (Cons k ks)
  then obtain ds d where "ks = map egress_key ds" "set ds \<subseteq> A" "k = egress_key d" "d \<in> A" by auto
  then show ?case by (intro exI [of _ "d # ds"]) simp
qed simp

section \<open>Closing the composition\<close>

definition layered_tools :: "campus_profile \<Rightarrow> policy_layer list \<Rightarrow> string set" where
  "layered_tools p ls =
     {t \<in> cb_tool ` set (cp_capabilities p). \<forall>l\<in>set ls.
        (\<forall>ts. pc_tools (pl_constraints l) = Some ts \<longrightarrow> t \<in> set ts) \<and>
        t \<notin> set (md_tools (pl_mandatory_denies l))}"

definition layered_egress :: "campus_profile \<Rightarrow> policy_layer list \<Rightarrow> egress_destination set" where
  "layered_egress p ls =
     {e \<in> set (np_egress (cp_network p)). \<forall>l\<in>set ls.
        (\<forall>es. pc_egress (pl_constraints l) = Some es \<longrightarrow> e \<in> set es) \<and>
        ed_host e \<notin> set (md_egress_hosts (pl_mandatory_denies l))}"

definition layered_aliases :: "campus_profile \<Rightarrow> policy_layer list \<Rightarrow> string set" where
  "layered_aliases p ls =
     {a \<in> set (mp_model_aliases (cp_model_policy p)). \<forall>l\<in>set ls.
        (\<forall>as. pc_model_aliases (pl_constraints l) = Some as \<longrightarrow> a \<in> set as) \<and>
        a \<notin> set (md_model_aliases (pl_mandatory_denies l))}"

text \<open>The composed constraints, stated from the profile and the layers alone.\<close>

definition constraints_spec ::
    "campus_profile \<Rightarrow> policy_layer list \<Rightarrow> effective_constraints \<Rightarrow> bool" where
  "constraints_spec p ls c \<longleftrightarrow>
     set (ec_tools c) = layered_tools p ls \<and>
     set (ec_egress c) = layered_egress p ls \<and>
     set (ec_model_aliases c) = layered_aliases p ls \<and>
     ec_ttl_seconds c = tightest (cp_ttl_seconds p) pc_ttl_seconds ls \<and>
     ec_active_execution_seconds c =
       min (tightest (ab_active_execution_seconds (cp_agent_budget p)) pc_active_execution_seconds ls)
         (ucast (ec_ttl_seconds c)) \<and>
     ec_cpu_millicores c = tightest (rc_cpu_millicores (cp_resources p)) pc_cpu_millicores ls \<and>
     ec_memory_mib c = tightest (rc_memory_mib (cp_resources p)) pc_memory_mib ls \<and>
     ec_ephemeral_storage_mib c =
       tightest (rc_ephemeral_storage_mib (cp_resources p)) pc_ephemeral_storage_mib ls \<and>
     ec_pids c = tightest (rc_pids (cp_resources p)) pc_pids ls \<and>
     ec_session_allocation_micro_usd c =
       tightest (mp_session_allocation_micro_usd (cp_model_policy p))
         pc_session_allocation_micro_usd ls \<and>
     ec_hard_tokens c = tightest (ab_hard_tokens (cp_agent_budget p)) pc_hard_tokens ls \<and>
     ec_max_output_tokens c =
       tightest (mp_max_output_tokens (cp_model_policy p)) pc_max_output_tokens ls \<and>
     ec_max_concurrent_requests c =
       tightest (mp_max_concurrent_requests (cp_model_policy p)) pc_max_concurrent_requests ls"

definition final_bound :: "campus_profile \<Rightarrow> policy_layer list \<Rightarrow> dimension \<Rightarrow> bound" where
  "final_bound p ls d = all_effects ls d (profile_bound p d)"

lemma final_sets:
  "final_bound p ls DTools = BSet (filter (\<lambda>v. \<forall>l\<in>set ls. layer_admits l DTools v)
     (btree_set (map cb_tool (cp_capabilities p))))"
  "final_bound p ls DEgress = BSet (filter (\<lambda>v. \<forall>l\<in>set ls. layer_admits l DEgress v)
     (btree_set (map egress_key (np_egress (cp_network p)))))"
  "final_bound p ls DModelAliases = BSet (filter (\<lambda>v. \<forall>l\<in>set ls. layer_admits l DModelAliases v)
     (btree_set (mp_model_aliases (cp_model_policy p))))"
  by (simp_all add: final_bound_def all_effects_set is_set_dim_def)

lemma admits_tools:
  "layer_admits l DTools v \<longleftrightarrow>
     (\<forall>ts. pc_tools (pl_constraints l) = Some ts \<longrightarrow> v \<in> set ts) \<and>
     v \<notin> set (md_tools (pl_mandatory_denies l))"
  by (auto simp: layer_admits_def denies_def)

lemma admits_aliases:
  "layer_admits l DModelAliases v \<longleftrightarrow>
     (\<forall>as. pc_model_aliases (pl_constraints l) = Some as \<longrightarrow> v \<in> set as) \<and>
     v \<notin> set (md_model_aliases (pl_mandatory_denies l))"
  by (auto simp: layer_admits_def denies_def)

lemma admits_egress:
  "layer_admits l DEgress (egress_key e) \<longleftrightarrow>
     (\<forall>es. pc_egress (pl_constraints l) = Some es \<longrightarrow> e \<in> set es) \<and>
     ed_host e \<notin> set (md_egress_hosts (pl_mandatory_denies l))"
  by (auto simp: layer_admits_def denies_def dest: egress_key_inj)

lemma layered_tools_keys:
  "set (filter (\<lambda>v. \<forall>l\<in>set ls. layer_admits l DTools v)
     (btree_set (map cb_tool (cp_capabilities p)))) = layered_tools p ls"
  by (auto simp: layered_tools_def admits_tools)

lemma layered_aliases_keys:
  "set (filter (\<lambda>v. \<forall>l\<in>set ls. layer_admits l DModelAliases v)
     (btree_set (mp_model_aliases (cp_model_policy p)))) = layered_aliases p ls"
  by (auto simp: layered_aliases_def admits_aliases)

lemma layered_egress_keys:
  "egress_key e \<in> set (filter (\<lambda>v. \<forall>l\<in>set ls. layer_admits l DEgress v)
     (btree_set (map egress_key (np_egress (cp_network p))))) \<longleftrightarrow> e \<in> layered_egress p ls"
  by (auto simp: layered_egress_def admits_egress dest: egress_key_inj)

lemma clamp_active_effect:
  assumes k: "bounds_kinded st" and b: "\<And>d. bs_bounds st d = Some (final_bound p ls d)"
  shows "\<exists>st'. clamp_active st = Some (Inr st') \<and> bounds_kinded st' \<and>
     bs_bounds st' = (\<lambda>d. Some (if d = DActiveExecutionSeconds then
       BLimit (min (tightest (ab_active_execution_seconds (cp_agent_budget p))
                 pc_active_execution_seconds ls)
          (ucast (tightest (cp_ttl_seconds p) pc_ttl_seconds ls))) else final_bound p ls d))"
proof -
  let ?ttl = "ucast (tightest (cp_ttl_seconds p) pc_ttl_seconds ls) :: u64"
  let ?act = "tightest (ab_active_execution_seconds (cp_agent_budget p)) pc_active_execution_seconds ls"
  have l: "bs_bounds st DTtlSeconds = Some (BLimit ?ttl)"
    "bs_bounds st DActiveExecutionSeconds = Some (BLimit ?act)"
    by (simp_all add: b final_bound_def effects_limits)
  then obtain s where s: "bs_sources st DTtlSeconds = Some s" using k by (auto simp: bounds_kinded_def)
  have c: "clamp_active st =
      (if ?ttl < ?act then map_option Inr (bound_narrow s DActiveExecutionSeconds (BLimit ?ttl) st)
       else Some (Inr st))"
    by (simp add: clamp_active_def state_limit_def l s)
  show ?thesis
  proof (cases "?ttl < ?act")
    case True
    from narrow_effect [OF k, of DActiveExecutionSeconds "BLimit ?ttl" s] obtain st' where
      "bound_narrow s DActiveExecutionSeconds (BLimit ?ttl) st = Some st'" "bounds_kinded st'"
      "bs_bounds st' = (bs_bounds st)(DActiveExecutionSeconds \<mapsto> BLimit (min ?act ?ttl))"
      by (auto simp: is_set_dim_def l)
    with True c b show ?thesis by auto
  next
    case False
    then have "min ?act ?ttl = ?act" by (simp add: min_def not_less)
    with False c b l k show ?thesis by auto
  qed
qed

lemma state_limit_u32_ucast:
  "bs_bounds st d = Some (BLimit (ucast (w :: u32))) \<Longrightarrow> state_limit_u32 st d = Some w"
  using unat_u32_less [of w]
  by (simp add: state_limit_u32_def state_limit_def word_le_nat_alt unat_ucast_u64)

lemma effective_constraints_total:
  assumes b: "bs_bounds st = (\<lambda>d. Some (if d = DActiveExecutionSeconds then
       BLimit (min (tightest (ab_active_execution_seconds (cp_agent_budget p))
                 pc_active_execution_seconds ls)
          (ucast (tightest (cp_ttl_seconds p) pc_ttl_seconds ls))) else final_bound p ls d))"
  shows "\<exists>c. effective_constraints_of st = Some c \<and> constraints_spec p ls c"
proof -
  let ?keys = "filter (\<lambda>v. \<forall>l\<in>set ls. layer_admits l DEgress v)
     (btree_set (map egress_key (np_egress (cp_network p))))"
  have "set ?keys \<subseteq> egress_key ` set (np_egress (cp_network p))" by auto
  from keys_of_destinations [OF this] obtain ds where ds: "?keys = map egress_key ds" by auto
  have "set ds = layered_egress p ls"
    using layered_egress_keys [of _ ls p] unfolding ds by (auto dest: egress_key_inj)
  moreover have sets: "state_set st DTools = Some (filter (\<lambda>v. \<forall>l\<in>set ls. layer_admits l DTools v)
        (btree_set (map cb_tool (cp_capabilities p))))"
    "state_set st DEgress = Some (map egress_key ds)"
    "state_set st DModelAliases = Some (filter (\<lambda>v. \<forall>l\<in>set ls. layer_admits l DModelAliases v)
       (btree_set (mp_model_aliases (cp_model_policy p))))"
    by (simp_all add: state_set_def b final_sets ds)
  moreover have limits:
    "state_limit_u32 st DTtlSeconds = Some (tightest (cp_ttl_seconds p) pc_ttl_seconds ls)"
    "state_limit_u32 st DCpuMillicores =
       Some (tightest (rc_cpu_millicores (cp_resources p)) pc_cpu_millicores ls)"
    "state_limit_u32 st DMemoryMib =
       Some (tightest (rc_memory_mib (cp_resources p)) pc_memory_mib ls)"
    "state_limit_u32 st DEphemeralStorageMib =
       Some (tightest (rc_ephemeral_storage_mib (cp_resources p)) pc_ephemeral_storage_mib ls)"
    "state_limit_u32 st DPids = Some (tightest (rc_pids (cp_resources p)) pc_pids ls)"
    "state_limit_u32 st DMaxOutputTokens =
       Some (tightest (mp_max_output_tokens (cp_model_policy p)) pc_max_output_tokens ls)"
    "state_limit_u32 st DMaxConcurrentRequests =
       Some (tightest (mp_max_concurrent_requests (cp_model_policy p)) pc_max_concurrent_requests ls)"
    by (rule state_limit_u32_ucast; simp add: b final_bound_def effects_limits)+
  moreover have
    "state_limit st DActiveExecutionSeconds =
       Some (min (tightest (ab_active_execution_seconds (cp_agent_budget p))
                 pc_active_execution_seconds ls)
          (ucast (tightest (cp_ttl_seconds p) pc_ttl_seconds ls)))"
    "state_limit st DSessionAllocationMicroUsd =
       Some (tightest (mp_session_allocation_micro_usd (cp_model_policy p))
         pc_session_allocation_micro_usd ls)"
    "state_limit st DHardTokens =
       Some (tightest (ab_hard_tokens (cp_agent_budget p)) pc_hard_tokens ls)"
    by (simp_all add: state_limit_def b final_bound_def effects_limits)
  ultimately show ?thesis
    by (simp add: effective_constraints_of_def parse_egress_keys_map constraints_spec_def
        layered_tools_keys layered_aliases_keys del: set_filter)
qed

lemma require_nonempty_ok:
  "bs_bounds st d = Some (BSet vs) \<Longrightarrow>
     require_nonempty st d = Some (require (vs \<noteq> []) (PolEmptyDimension d))"
  by (simp add: require_nonempty_def state_set_def)

text \<open>What a composition that succeeds has established.\<close>

definition composed ::
    "content_hashes \<Rightarrow> campus_profile \<Rightarrow> policy_layer list \<Rightarrow> effective_policy \<Rightarrow> bool" where
  "composed h p ls q \<longleftrightarrow>
     constraints_spec p ls (ep_constraints q) \<and>
     layered_tools p ls \<noteq> {} \<and> layered_aliases p ls \<noteq> {} \<and>
     ep_mandatory_denies q = fold add_denies ls [] \<and>
     ep_profile q = profile_ref_of (ch_profile h) p \<and>
     ep_layers q = map (layer_ref_of (ch_layer h)) ls \<and>
     (\<forall>d. ep_provenance q d \<noteq> None) \<and>
     ep_effective_policy_hash q = ch_effective h (effective_core.truncate q)"

lemma compose_finish_ok:
  assumes k: "states_kinded s" and b: "\<And>d. bs_bounds (cs_effective s) d = Some (final_bound p ls d)"
    and d: "cs_denies s = fold add_denies ls []"
  shows "\<exists>r. compose_finish h p ls s = Some r \<and> (\<forall>q. r = Inr q \<longrightarrow> composed h p ls q)"
proof -
  from clamp_active_effect [of "cs_effective s", OF _ b] k obtain st where st:
    "clamp_active (cs_effective s) = Some (Inr st)" "bounds_kinded st"
    "bs_bounds st = (\<lambda>d. Some (if d = DActiveExecutionSeconds then
       BLimit (min (tightest (ab_active_execution_seconds (cp_agent_budget p))
                 pc_active_execution_seconds ls)
          (ucast (tightest (cp_ttl_seconds p) pc_ttl_seconds ls))) else final_bound p ls d))"
    by (auto simp: states_kinded_def)
  from effective_constraints_total [OF st(3)] obtain c where c:
    "effective_constraints_of st = Some c" "constraints_spec p ls c" by auto
  have ne: "require_nonempty st DTools = Some (require (layered_tools p ls \<noteq> {}) (PolEmptyDimension DTools))"
    "require_nonempty st DModelAliases =
       Some (require (layered_aliases p ls \<noteq> {}) (PolEmptyDimension DModelAliases))"
    using require_nonempty_ok [of st DTools] require_nonempty_ok [of st DModelAliases]
    by (simp_all add: st(3) final_sets layered_tools_keys [symmetric] layered_aliases_keys [symmetric]
        del: set_filter)
  have src: "\<forall>d. bs_sources st d \<noteq> None"
    using st(2,3) by (auto simp: bounds_kinded_def)
  show ?thesis
    using c d src
    by (auto simp: compose_finish_def st(1) ne Let_def pres_bind_ok require_def composed_def
        effective_core.defs effective_policy.defs)
qed

lemma compose_run:
  "\<exists>r. pres_bind (pres_fold (compose_layer p) ls (compose_start p)) (compose_finish h p ls) = Some r \<and>
     (\<forall>q. r = Inr q \<longrightarrow> composed h p ls q)"
proof -
  from compose_fold [OF compose_start_kinded, of p ls p] obtain r where
    r: "pres_fold (compose_layer p) ls (compose_start p) = Some r" and
    s: "\<And>s'. r = Inr s' \<Longrightarrow> states_kinded s' \<and>
      cs_denies s' = fold add_denies ls (cs_denies (compose_start p)) \<and>
      (\<forall>d b. bs_bounds (cs_effective (compose_start p)) d = Some b \<longrightarrow>
         bs_bounds (cs_effective s') d = Some (all_effects ls d b))" by auto
  show ?thesis
  proof (cases r)
    case (Inl e)
    with r show ?thesis by simp
  next
    case (Inr s')
    with s compose_finish_ok [of s' p ls h] r show ?thesis
      by (simp add: compose_start_bounds final_bound_def compose_start_denies)
  qed
qed

section \<open>Properties\<close>

text \<open>Composing a profile with layers never panics: every \<open>unreachable!\<close>, \<open>expect\<close> and map index
  of the composition is unreachable, for any profile, any list of layers and any qualifications.\<close>
theorem compose_never_panics: "\<exists>r. compose h p ls recorded = Some r"
proof -
  have "pres_bind r f \<noteq> None" if "r \<noteq> None" "\<And>a. f a \<noteq> None"
    for r :: "(policy_error, unit) pres" and f :: "unit \<Rightarrow> (policy_error, effective_policy) pres"
    using that by (auto simp: pres_bind_None)
  then have "compose h p ls recorded \<noteq> None"
    unfolding compose_def using compose_run [of p ls h] by (metis option.distinct(1))
  then show ?thesis by auto
qed

lemma compose_ok:
  "compose h p ls recorded = Some (Inr q) \<longleftrightarrow>
     profile_validate p = Inr () \<and> check_launchable p recorded = Inr () \<and>
     check_layer_order ls = Inr () \<and> (\<forall>l\<in>set ls. layer_validate l = Inr ()) \<and>
     pres_bind (pres_fold (compose_layer p) ls (compose_start p)) (compose_finish h p ls)
       = Some (Inr q)"
  by (simp add: compose_def pres_bind_ok [of "Some _"])

lemma compose_composed:
  "compose h p ls recorded = Some (Inr q) \<Longrightarrow> composed h p ls q"
  using compose_run [of p ls h] by (auto simp: compose_ok)

text \<open>The step that composed one of the layers, with the state it started from.\<close>

lemma compose_at_layer:
  assumes "compose h p (pre @ l # post) recorded = Some (Inr q)"
  shows "\<exists>t t'. states_kinded t \<and>
     (\<forall>d. bs_bounds (cs_effective t) d = Some (final_bound p pre d)) \<and>
     cs_denies t = fold add_denies pre [] \<and>
     check_mandatory_conflicts l (add_denies l (fold add_denies pre [])) = Inr () \<and>
     (pl_authority l = AuStudent \<longrightarrow> check_student_layer l p = Inr ()) \<and>
     (\<forall>d r b. constraint_bound (pl_constraints l) d = Some r \<longrightarrow>
        bs_bounds (checked_against l t) d = Some b \<longrightarrow> bound_le r b) \<and>
     compose_layer p l t = Some (Inr t')"
proof -
  from assms obtain s where "pres_fold (compose_layer p) (pre @ l # post) (compose_start p) = Some (Inr s)"
    by (auto simp: compose_ok pres_bind_ok)
  then obtain t t' where t: "pres_fold (compose_layer p) pre (compose_start p) = Some (Inr t)"
    "compose_layer p l t = Some (Inr t')"
    by (auto simp: pres_fold_append pres_bind_ok)
  from compose_fold [OF compose_start_kinded, of p pre p] t(1) have
    k: "states_kinded t" "cs_denies t = fold add_denies pre []"
    "\<forall>d. bs_bounds (cs_effective t) d = Some (final_bound p pre d)"
    by (auto simp: compose_start_denies compose_start_bounds final_bound_def)
  from compose_layer_step [OF k(1), of p l] t(2) k show ?thesis
    by (intro exI [of _ t] exI [of _ t']) auto
qed

lemma check_order_from_ok:
  "check_order_from seen prev ls = Inr seen' \<Longrightarrow> (case prev of Some a \<Rightarrow> \<forall>b\<in>set seen. b \<le> a | None \<Rightarrow> seen = []) \<Longrightarrow>
     set seen' = set seen \<union> pl_authority ` set ls \<and>
     sorted_wrt (<) (map pl_authority ls) \<and>
     (\<forall>a. prev = Some a \<longrightarrow> a \<in> set seen \<longrightarrow> (\<forall>l\<in>set ls. a < pl_authority l))"
proof (induction seen prev ls rule: check_order_from.induct)
  case (1 seen previous)
  then show ?case by simp
next
  case (2 seen previous l ls)
  let ?a = "pl_authority l"
  have new: "?a \<notin> set seen" using 2(3) by (auto simp: Let_def split: if_splits)
  have rec: "check_order_from (?a # seen) (Some ?a) ls = Inr seen'"
    and prev: "\<forall>x. previous = Some x \<longrightarrow> \<not> ?a < x"
    using 2(3) by (auto simp: Let_def split: if_splits option.splits)
  have le: "\<forall>b\<in>set (?a # seen). b \<le> ?a"
  proof (cases previous)
    case None
    with 2(4) show ?thesis by simp
  next
    case (Some x)
    with prev 2(4) show ?thesis by (auto simp: not_less intro: order_trans)
  qed
  have IH: "set seen' = set (?a # seen) \<union> pl_authority ` set ls \<and>
      sorted_wrt (<) (map pl_authority ls) \<and>
      (\<forall>a. Some ?a = Some a \<longrightarrow> a \<in> set (?a # seen) \<longrightarrow> (\<forall>l\<in>set ls. a < pl_authority l))"
  proof (cases previous)
    case None
    with 2(1) new rec le show ?thesis by simp
  next
    case (Some x)
    with 2(2) new rec le prev show ?thesis by simp
  qed
  have "x < ?a" if "previous = Some x" "x \<in> set seen" for x
    using that new le by (auto simp: order_less_le)
  with IH show ?case by (auto intro: less_trans)
qed

lemma check_order_from_sorted:
  "sorted_wrt (<) (map pl_authority ls) \<Longrightarrow> \<forall>a\<in>set seen. \<forall>l\<in>set ls. a < pl_authority l \<Longrightarrow>
     (\<forall>a. prev = Some a \<longrightarrow> a \<in> set seen) \<Longrightarrow> \<exists>seen'. check_order_from seen prev ls = Inr seen'"
proof (induction seen prev ls rule: check_order_from.induct)
  case (2 seen previous l ls)
  have new: "pl_authority l \<notin> set seen" using 2(4) by auto
  have rest: "\<forall>a\<in>set (pl_authority l # seen). \<forall>l\<in>set ls. a < pl_authority l"
    using 2(3,4) by auto
  show ?case
  proof (cases previous)
    case None
    with 2(1) [OF refl new None] rest new 2(3) show ?thesis by (simp add: Let_def)
  next
    case (Some x)
    then have "\<not> pl_authority l < x" using 2(4,5) by fastforce
    with 2(2) [OF refl new Some] Some rest new 2(3) show ?thesis by (simp add: Let_def)
  qed
qed simp

text \<open>The layers are accepted exactly when their authorities strictly increase in the order
  platform, institution, assignment, student and the two mandatory authorities are among them.\<close>
theorem layer_order_exact:
  "check_layer_order ls = Inr () \<longleftrightarrow>
     sorted_wrt (<) (map pl_authority ls) \<and>
     AuPlatform \<in> pl_authority ` set ls \<and> AuInstitution \<in> pl_authority ` set ls"
proof
  assume "check_layer_order ls = Inr ()"
  then obtain seen where "check_order_from [] None ls = Inr seen"
    "find (\<lambda>a. a \<notin> set seen) REQUIRED_AUTHORITIES = None"
    by (auto simp: check_layer_order_def split: option.splits)
  with check_order_from_ok [of "[]" None ls seen] show "sorted_wrt (<) (map pl_authority ls) \<and>
     AuPlatform \<in> pl_authority ` set ls \<and> AuInstitution \<in> pl_authority ` set ls"
    by (auto simp: find_None_iff REQUIRED_AUTHORITIES_def split: if_splits)
next
  assume a: "sorted_wrt (<) (map pl_authority ls) \<and>
     AuPlatform \<in> pl_authority ` set ls \<and> AuInstitution \<in> pl_authority ` set ls"
  then obtain seen where s: "check_order_from [] None ls = Inr seen"
    using check_order_from_sorted [of ls "[]" None] by auto
  with check_order_from_ok [of "[]" None ls seen] a show "check_layer_order ls = Inr ()"
    by (auto simp: check_layer_order_def REQUIRED_AUTHORITIES_def)
qed

text \<open>C35: A composition that succeeds yields exactly the declared bounds: a tool, destination or model
  alias is effective if and only if the profile offers it, no layer's allowlist excludes it and no
  layer denies it; every limit is the least value written by the profile or a layer, with active
  time capped by the session time; and at least one tool and one model alias remain.\<close>
theorem compose_exact:
  assumes "compose h p ls recorded = Some (Inr q)"
  shows "constraints_spec p ls (ep_constraints q) \<and>
     ec_tools (ep_constraints q) \<noteq> [] \<and> ec_model_aliases (ep_constraints q) \<noteq> [] \<and>
     ec_active_execution_seconds (ep_constraints q) \<le> ucast (ec_ttl_seconds (ep_constraints q))"
  using compose_composed [OF assms] by (auto simp: composed_def constraints_spec_def)

text \<open>Widening is refused, not clamped: in a composition that succeeds, every bound an assignment or
  student layer writes is within the effective bound composed from the profile and the layers
  before it.\<close>
theorem widening_refused:
  assumes "compose h p (pre @ l # post) recorded = Some (Inr q)"
    "pl_authority l = AuAssignment \<or> pl_authority l = AuStudent"
    "constraint_bound (pl_constraints l) d = Some r"
  shows "bound_le r (final_bound p pre d)"
  using compose_at_layer [OF assms(1)] assms(2,3) by (auto simp: checked_against_def)

text \<open>A student layer of a composed policy only chooses model aliases and a session time; its
  aliases are among those the profile offers to students and become the effective aliases, and its
  session time is at least the profile's student minimum and becomes the effective session time.\<close>
theorem student_choices_bounded:
  assumes "compose h p (pre @ [l]) recorded = Some (Inr q)" "pl_authority l = AuStudent"
  shows "(\<forall>d. d \<noteq> DModelAliases \<longrightarrow> d \<noteq> DTtlSeconds \<longrightarrow> constraint_bound (pl_constraints l) d = None) \<and>
     (\<forall>as. pc_model_aliases (pl_constraints l) = Some as \<longrightarrow>
        set as \<subseteq> set (sc_model_aliases (cp_student_choices p)) \<and>
        set (ec_model_aliases (ep_constraints q)) = set as) \<and>
     (\<forall>t. pc_ttl_seconds (pl_constraints l) = Some t \<longrightarrow>
        sc_min_ttl_seconds (cp_student_choices p) \<le> t \<and> ec_ttl_seconds (ep_constraints q) = t)"
proof -
  let ?c = "pl_constraints l"
  have st: "check_student_layer l p = Inr ()"
    and le: "\<And>d r. constraint_bound ?c d = Some r \<Longrightarrow> bound_le r (final_bound p pre d)"
    and cf: "check_mandatory_conflicts l (add_denies l (fold add_denies pre [])) = Inr ()"
    using compose_at_layer [OF assms(1)] assms(2) by (auto simp: checked_against_def)
  have arm: "(case (d, b) of
       (DModelAliases, BSet aliases) \<Rightarrow> set aliases \<subseteq> set (sc_model_aliases (cp_student_choices p))
     | (DTtlSeconds, BLimit ttl) \<Rightarrow> ucast (sc_min_ttl_seconds (cp_student_choices p)) \<le> ttl
     | _ \<Rightarrow> d \<in> set STUDENT_DIMENSIONS)" if "constraint_bound ?c d = Some b" for d b
  proof -
    have "(d, b) \<in> set (constraint_bounds ?c)" using that by (simp add: constraint_bounds_lookup)
    with st show ?thesis
      by (cases d; cases b)
        (auto simp: check_student_layer_def Let_def find_None_iff not_less
          split: option.splits if_splits dest!: bspec)
  qed
  have only: "constraint_bound ?c d = None" if "d \<noteq> DModelAliases" "d \<noteq> DTtlSeconds" for d
  proof (cases "constraint_bound ?c d")
    case (Some b)
    from arm [OF this] that have "d \<in> set STUDENT_DIMENSIONS" by (cases d; cases b) simp_all
    with that show ?thesis by (simp add: STUDENT_DIMENSIONS_def)
  qed simp
  have lv: "layer_validate l = Inr ()" using assms(1) by (auto simp: compose_ok)
  then have nd: "denies_is_empty (pl_mandatory_denies l)"
    using assms(2) by (simp add: layer_validate_def validate_layer_denies_def Let_def)
  have q: "constraints_spec p (pre @ [l]) (ep_constraints q)"
    using compose_composed [OF assms(1)] by (simp add: composed_def)
  have "set as \<subseteq> set (sc_model_aliases (cp_student_choices p)) \<and>
      set (ec_model_aliases (ep_constraints q)) = set as"
    if as: "pc_model_aliases ?c = Some as" for as
  proof -
    have "set as \<subseteq> set (sc_model_aliases (cp_student_choices p))"
      using arm [of DModelAliases] as by simp
    moreover have "set as \<subseteq> layered_aliases p pre"
      using le [of DModelAliases] as by (auto simp: final_sets layered_aliases_def admits_aliases)
    moreover have "layered_aliases p (pre @ [l]) = layered_aliases p pre \<inter> set as"
      using as nd by (auto simp: layered_aliases_def denies_is_empty_def)
    ultimately show ?thesis using q by (auto simp: constraints_spec_def)
  qed
  moreover have "sc_min_ttl_seconds (cp_student_choices p) \<le> t \<and> ec_ttl_seconds (ep_constraints q) = t"
    if t: "pc_ttl_seconds ?c = Some t" for t
  proof -
    have "constraint_bound ?c DTtlSeconds = Some (BLimit (ucast t))"
      using t by (simp add: limit_options_def)
    from arm [OF this] le [OF this]
    have "sc_min_ttl_seconds (cp_student_choices p) \<le> t"
      "t \<le> tightest (cp_ttl_seconds p) pc_ttl_seconds pre"
      by (simp_all add: ucast_u64_le final_bound_def effects_limits)
    moreover have "tightest v f (xs @ [l]) =
        (case f ?c of None \<Rightarrow> tightest v f xs | Some w \<Rightarrow> min (tightest v f xs) w)"
      for v :: u32 and f xs
      by (induction xs arbitrary: v) (auto simp: tightest_Cons split: option.splits)
    ultimately show ?thesis using q t by (auto simp: constraints_spec_def min_def)
  qed
  ultimately show ?thesis using only by auto
qed

text \<open>Two layers that differ only in the order of their lists.\<close>

definition same_option :: "'a list option \<Rightarrow> 'a list option \<Rightarrow> bool" where
  "same_option x y \<longleftrightarrow> map_option mset x = map_option mset y"

definition same_up_to_order :: "policy_layer \<Rightarrow> policy_layer \<Rightarrow> bool" where
  "same_up_to_order l l' \<longleftrightarrow>
     (let c = pl_constraints l; c' = pl_constraints l';
          m = pl_mandatory_denies l; m' = pl_mandatory_denies l' in
      l' = l\<lparr>pl_constraints := c', pl_mandatory_denies := m'\<rparr> \<and>
      c' = c\<lparr>pc_tools := pc_tools c', pc_egress := pc_egress c',
             pc_model_aliases := pc_model_aliases c'\<rparr> \<and>
      same_option (pc_tools c) (pc_tools c') \<and> same_option (pc_egress c) (pc_egress c') \<and>
      same_option (pc_model_aliases c) (pc_model_aliases c') \<and>
      mset (md_tools m) = mset (md_tools m') \<and>
      mset (md_egress_hosts m) = mset (md_egress_hosts m') \<and>
      mset (md_model_aliases m) = mset (md_model_aliases m') \<and>
      mset (md_approval_kinds m) = mset (md_approval_kinds m'))"

lemma sort_mset_cong: "mset x = mset y \<Longrightarrow> sort x = sort y"
  by (metis properties_for_sort mset_sort sorted_sort)

lemma sort_key_mset_cong: "mset x = mset y \<Longrightarrow> inj k \<Longrightarrow> sort_key k x = sort_key k y"
  by (rule sort_key_eq_sort_key) (auto intro: inj_on_subset)

lemma approval_kind_name_inj: "inj approval_kind_name"
proof (rule injI)
  fix a b :: approval_kind
  assume "approval_kind_name a = approval_kind_name b"
  then show "a = b" by (cases a; cases b) simp_all
qed

lemma destination_key_inj: "inj (\<lambda>d :: egress_destination. (ed_host d, ed_port d))"
  by (rule injI) (simp add: egress_destination.equality)

lemma map_option_sort_cong:
  assumes "same_option x y" "\<And>a b. mset a = mset b \<Longrightarrow> f a = f b"
  shows "map_option f x = map_option f y"
proof (cases x)
  case None
  with assms(1) show ?thesis by (simp add: same_option_def)
next
  case (Some a)
  with assms(1) obtain b where "y = Some b" "mset a = mset b"
    by (cases y) (auto simp: same_option_def)
  with Some assms(2) [of a b] show ?thesis by simp
qed

text \<open>The layer hash does not depend on the order in which a layer writes its lists: two layers
  that agree up to the order of their lists have the same hash, whatever the hash function.\<close>
theorem layer_hash_order_insensitive:
  assumes "same_up_to_order l l'"
  shows "layer_hash lh l = layer_hash lh l'"
proof -
  obtain sv a i v c m where l: "l = \<lparr>pl_schema_version = sv, pl_authority = a, pl_id = i,
      pl_version = v, pl_constraints = c, pl_mandatory_denies = m\<rparr>" by (cases l)
  obtain sv' a' i' v' c' m' where l': "l' = \<lparr>pl_schema_version = sv', pl_authority = a',
      pl_id = i', pl_version = v', pl_constraints = c', pl_mandatory_denies = m'\<rparr>" by (cases l')
  have s: "same_option (pc_tools c) (pc_tools c')" "same_option (pc_egress c) (pc_egress c')"
    "same_option (pc_model_aliases c) (pc_model_aliases c')"
    and m: "mset (md_tools m) = mset (md_tools m')"
      "mset (md_egress_hosts m) = mset (md_egress_hosts m')"
      "mset (md_model_aliases m) = mset (md_model_aliases m')"
      "mset (md_approval_kinds m) = mset (md_approval_kinds m')"
    and c: "c' = c\<lparr>pc_tools := pc_tools c', pc_egress := pc_egress c',
      pc_model_aliases := pc_model_aliases c'\<rparr>"
    and eq: "sv' = sv" "a' = a" "i' = i" "v' = v"
    using assms by (simp_all add: same_up_to_order_def l l')
  have "denies_normalized m = denies_normalized m'"
    using sort_mset_cong [OF m(1)] sort_mset_cong [OF m(2)] sort_mset_cong [OF m(3)]
      sort_key_mset_cong [OF m(4) approval_kind_name_inj]
    by (simp add: denies_normalized_def)
  moreover have "map_option sort (pc_tools c) = map_option sort (pc_tools c')"
    "map_option sort (pc_model_aliases c) = map_option sort (pc_model_aliases c')"
    "map_option (sort_key (\<lambda>d. (ed_host d, ed_port d))) (pc_egress c) =
       map_option (sort_key (\<lambda>d. (ed_host d, ed_port d))) (pc_egress c')"
    using s sort_mset_cong sort_key_mset_cong [OF _ destination_key_inj]
    by (auto intro!: map_option_sort_cong)
  moreover have "c'\<lparr>pc_tools := x, pc_model_aliases := y, pc_egress := z\<rparr> =
      c\<lparr>pc_tools := x, pc_model_aliases := y, pc_egress := z\<rparr>" for x y z
    by (subst c) simp
  ultimately have "layer_normalized l = layer_normalized l'"
    by (simp add: layer_normalized_def l l' eq Let_def)
  then show ?thesis by (simp add: layer_hash_def)
qed

section \<open>A composition\<close>

definition no_constraints :: policy_constraints where
  "no_constraints =
     \<lparr>pc_tools = None, pc_egress = None, pc_model_aliases = None, pc_ttl_seconds = None,
      pc_active_execution_seconds = None, pc_cpu_millicores = None, pc_memory_mib = None,
      pc_ephemeral_storage_mib = None, pc_pids = None, pc_session_allocation_micro_usd = None,
      pc_hard_tokens = None, pc_max_output_tokens = None, pc_max_concurrent_requests = None\<rparr>"

definition no_denies :: mandatory_denies where
  "no_denies = \<lparr>md_tools = [], md_egress_hosts = [], md_model_aliases = [], md_approval_kinds = []\<rparr>"

definition example_layer :: "campus_authority \<Rightarrow> policy_constraints \<Rightarrow> mandatory_denies \<Rightarrow> policy_layer"
  where
  "example_layer a c m =
     \<lparr>pl_schema_version = CAMPUS_POLICY_LAYER_SCHEMA, pl_authority = a, pl_id = ''layer'',
      pl_version = ''v1'', pl_constraints = c, pl_mandatory_denies = m\<rparr>"

definition example_shared_layers :: "policy_layer list" where
  "example_shared_layers =
    [example_layer AuPlatform no_constraints
       (no_denies\<lparr>md_tools := [''read_file'', ''git_diff''], md_approval_kinds := [ApDestructive]\<rparr>),
     example_layer AuInstitution (no_constraints\<lparr>pc_ttl_seconds := Some 1800\<rparr>) no_denies]"

definition example_student_layer :: policy_layer where
  "example_student_layer =
     example_layer AuStudent
       (no_constraints\<lparr>pc_ttl_seconds := Some 900, pc_model_aliases := Some [''lab-small'']\<rparr>) no_denies"

definition example_hashes :: content_hashes where
  "example_hashes =
     \<lparr>ch_profile = (\<lambda>p. ''sha256:p''), ch_layer = (\<lambda>l. ''sha256:'' @ pl_id l),
      ch_effective = (\<lambda>e. ''sha256:e'')\<rparr>"

lemmas example_layer_defs =
  example_shared_layers_def example_student_layer_def example_layer_def no_constraints_def
  no_denies_def

lemma example_identifiers:
  "valid_identifier ''layer''" "valid_identifier ''v1''" "valid_identifier ''lab-small''"
  "valid_identifier ''read_file''" "valid_identifier ''git_diff''"
  by code_simp+

lemma example_layers_valid:
  "\<forall>l\<in>set (example_shared_layers @ [example_student_layer]). layer_validate l = Inr ()"
  by (simp add: example_layer_defs layer_validate_def validate_layer_tools_def
      validate_layer_egress_def validate_layer_limits_def layer_limits_def
      validate_layer_denies_def validate_identifiers_def validate_identifier_ok
      example_identifiers denies_is_empty_def profile_bounds)

lemma example_compose_steps:
  "map_option (\<lambda>r. isl r)
     (pres_bind (pres_fold (compose_layer example_profile)
        (example_shared_layers @ [example_student_layer]) (compose_start example_profile))
       (compose_finish example_hashes example_profile
         (example_shared_layers @ [example_student_layer]))) = Some False"
  by code_simp

definition example_recorded :: "string set" where
  "example_recorded = {SECURITY_PROFILE_QUALIFICATION}"

lemma example_compose:
  "\<exists>q. compose example_hashes example_profile (example_shared_layers @ [example_student_layer])
         example_recorded = Some (Inr q)"
proof -
  have "check_launchable example_profile example_recorded = Inr ()"
    by (simp add: check_launchable_def example_profile_def example_recorded_def)
  moreover have "check_layer_order (example_shared_layers @ [example_student_layer]) = Inr ()"
    by code_simp
  moreover obtain r where r: "pres_bind (pres_fold (compose_layer example_profile)
        (example_shared_layers @ [example_student_layer]) (compose_start example_profile))
       (compose_finish example_hashes example_profile
         (example_shared_layers @ [example_student_layer])) = Some r" "\<not> isl r"
    using example_compose_steps by auto
  ultimately show ?thesis
    using example_layers_valid example_profile_valid by (cases r) (auto simp: compose_ok)
qed

lemma compose_exact_witness:
  "\<exists>q :: effective_policy. constraints_spec example_profile (example_shared_layers @ [example_student_layer])
        (ep_constraints q) \<and> ec_tools (ep_constraints q) \<noteq> []"
proof -
  obtain q where "compose example_hashes example_profile
      (example_shared_layers @ [example_student_layer]) example_recorded = Some (Inr q)"
    using example_compose by auto
  from compose_exact [OF this] show ?thesis by (intro exI [of _ q]) simp
qed

lemma widening_refused_witness:
  "bound_le (BLimit 900) (final_bound example_profile example_shared_layers DTtlSeconds)"
proof -
  obtain q where "compose example_hashes example_profile
      (example_shared_layers @ example_student_layer # []) example_recorded = Some (Inr q)"
    using example_compose by auto
  from widening_refused [OF this, of DTtlSeconds "BLimit 900"] show ?thesis
    by (simp add: example_layer_defs limit_options_def)
qed

lemma student_choices_bounded_witness:
  "\<exists>q. ec_ttl_seconds (ep_constraints q) = 900 \<and> set (ec_model_aliases (ep_constraints q)) = {''lab-small''} \<and>
     compose example_hashes example_profile (example_shared_layers @ [example_student_layer])
       example_recorded = Some (Inr q)"
proof -
  obtain q where q: "compose example_hashes example_profile
      (example_shared_layers @ [example_student_layer]) example_recorded = Some (Inr q)"
    using example_compose by auto
  from student_choices_bounded [OF q] q show ?thesis
    by (intro exI [of _ q]) (simp add: example_layer_defs)
qed

lemma layer_hash_order_insensitive_witness:
  "layer_hash (ch_layer example_hashes) (example_layer AuPlatform (no_constraints\<lparr>pc_tools := Some [''finish'', ''read_file'']\<rparr>) no_denies)
   = layer_hash (ch_layer example_hashes) (example_layer AuPlatform (no_constraints\<lparr>pc_tools := Some [''read_file'', ''finish'']\<rparr>) no_denies)"
  by (rule layer_hash_order_insensitive)
    (simp add: same_up_to_order_def same_option_def example_layer_def no_constraints_def add_mset_commute)

end
