(* ===== verification/CampusDecision.thy ===== *)
theory CampusDecision
  imports CampusCompose
begin

text \<open>
  \<open>policy/campus.rs\<close>, decisions: who may approve what, the record of a decision, the membership
  decisions on model aliases and destinations, and the evaluation of an action under the effective
  policy, the unchanged safety baseline, its permission grants and a Campus approval, in the
  source's order.
\<close>

section \<open>Approvals and decision records\<close>

datatype approver_role = RoleInstructor | RoleStudent

definition ALL_APPROVER_ROLES :: "approver_role list" where
  "ALL_APPROVER_ROLES = [RoleInstructor, RoleStudent]"

fun approver_as_str :: "approver_role \<Rightarrow> string" where
  "approver_as_str RoleInstructor = ''instructor''"
| "approver_as_str RoleStudent = ''student''"

fun approver_authority :: "approver_role \<Rightarrow> campus_authority" where
  "approver_authority RoleInstructor = AuAssignment"
| "approver_authority RoleStudent = AuStudent"

fun may_approve :: "approver_role \<Rightarrow> approval_kind \<Rightarrow> bool" where
  "may_approve RoleInstructor k = (k \<in> {ApFileWrite, ApShellCommand, ApDestructive})"
| "may_approve RoleStudent k = (k \<in> {ApFileWrite, ApShellCommand})"

record campus_approval =
  ca_action_id :: string
  ca_approval_kind :: approval_kind
  ca_role :: approver_role

datatype decision_outcome = OutAllow | OutAsk | OutDeny

datatype decision_reason =
    ReMandatoryDeny | ReOutsideEffectivePolicy | ReWithinEffectivePolicy | ReBaselineAllow
  | ReBaselineDeny | ReApprovalRequired | RePermissionGrant | ReRoleApproval | ReApprovalMismatch
  | ReApproverRoleNotPermitted | ReApprovalUnavailable

record decision_record =
  dr_outcome :: decision_outcome
  dr_subject :: string
  dr_authority :: policy_source
  dr_reason :: decision_reason
  dr_summary :: string
  dr_risk :: "risk_level option"
  dr_approval_kind :: "approval_kind option"
  dr_grant_id :: "string option"
  dr_approved_by :: "approver_role option"
  dr_effective_policy_hash :: string
  dr_profile_hash :: string

definition record_is_allow :: "decision_record \<Rightarrow> bool" where
  "record_is_allow r \<longleftrightarrow> dr_outcome r = OutAllow"

section \<open>Queries on the effective policy\<close>

definition exclusion_source :: "effective_policy \<Rightarrow> dimension \<Rightarrow> string \<Rightarrow> policy_source" where
  "exclusion_source q d v =
     (case Option.bind (ep_removed q d) (\<lambda>m. map_of m v) of
        Some s \<Rightarrow> s | None \<Rightarrow> SrcProfile)"

definition mandatory_denier :: "effective_policy \<Rightarrow> (mandatory_denies \<Rightarrow> bool) \<Rightarrow> campus_authority option"
  where
  "mandatory_denier q f =
     map_option ad_authority (find (\<lambda>ad. f (ad_denies ad)) (ep_mandatory_denies q))"

definition base_record :: "effective_policy \<Rightarrow> decision_outcome \<Rightarrow> string \<Rightarrow> decision_record" where
  "base_record q outcome subject =
     \<lparr>dr_outcome = outcome, dr_subject = subject, dr_authority = SrcPlatform,
      dr_reason = ReBaselineAllow, dr_summary = [], dr_risk = None, dr_approval_kind = None,
      dr_grant_id = None, dr_approved_by = None,
      dr_effective_policy_hash = ep_effective_policy_hash q,
      dr_profile_hash = pr_profile_hash (ep_profile q)\<rparr>"

text \<open>\<open>None\<close> is the panic of a dimension without provenance or of a limit dimension.\<close>

definition member_permitted :: "effective_policy \<Rightarrow> dimension \<Rightarrow> string \<Rightarrow> bool option" where
  "member_permitted q d v =
     (case d of
        DTools \<Rightarrow> Some (v \<in> set (ec_tools (ep_constraints q)))
      | DModelAliases \<Rightarrow> Some (v \<in> set (ec_model_aliases (ep_constraints q)))
      | DEgress \<Rightarrow> Some (list_ex (\<lambda>e. egress_key e = v) (ec_egress (ep_constraints q)))
      | _ \<Rightarrow> None)"

definition authorize_member ::
    "effective_policy \<Rightarrow> dimension \<Rightarrow> string \<Rightarrow> string \<Rightarrow> decision_record option" where
  "authorize_member q d subject v =
     (case mandatory_denier q (\<lambda>m. denies m d v) of
        Some a \<Rightarrow>
          Some ((base_record q OutDeny subject)\<lparr>dr_authority := source_of a,
            dr_reason := ReMandatoryDeny,
            dr_summary := v @ '' is mandatorily denied by '' @ authority_as_str a @ '' policy''\<rparr>)
      | None \<Rightarrow>
          (case member_permitted q d v of
             None \<Rightarrow> None
           | Some True \<Rightarrow>
               map_option
                 (\<lambda>src. (base_record q OutAllow subject)\<lparr>dr_authority := src,
                    dr_reason := ReWithinEffectivePolicy,
                    dr_summary := v @ '' is within the effective Campus '' @ dimension_as_str d\<rparr>)
                 (ep_provenance q d)
           | Some False \<Rightarrow>
               Some ((base_record q OutDeny subject)\<lparr>dr_authority := exclusion_source q d v,
                 dr_reason := ReOutsideEffectivePolicy,
                 dr_summary := v @ '' is outside the effective Campus '' @ dimension_as_str d\<rparr>)))"

definition authorize_model_alias :: "effective_policy \<Rightarrow> string \<Rightarrow> decision_record option" where
  "authorize_model_alias q model_alias =
     authorize_member q DModelAliases (''model:'' @ model_alias) model_alias"

definition authorize_egress :: "effective_policy \<Rightarrow> string \<Rightarrow> u16 \<Rightarrow> decision_record option" where
  "authorize_egress q host port =
     (let key = host @ '':'' @ show_word port in
      authorize_member q DEgress (''egress:'' @ key) key)"

section \<open>Kinds of operations\<close>

definition command_line :: "string \<Rightarrow> string list \<Rightarrow> string" where
  "command_line executable args = join '' '' (executable # args)"

definition command_kind :: "string \<Rightarrow> approval_kind option" where
  "command_kind command =
     (case classify_command command of
        CcSafeReadOnly \<Rightarrow> None
      | CcWriteLocalProject \<Rightarrow> Some ApShellCommand
      | CcUnknown \<Rightarrow> Some ApShellCommand
      | CcDestructiveLocal \<Rightarrow> Some ApDestructive
      | CcNetwork \<Rightarrow> Some ApNetwork
      | CcEnvironmentSetup \<Rightarrow> Some ApNetwork
      | CcPrivileged \<Rightarrow> Some ApPrivileged
      | CcSecretAccessing \<Rightarrow> Some ApSecretAccess)"

definition operation_kind :: "'j agent_action \<Rightarrow> policy_decision \<Rightarrow> approval_kind option" where
  "operation_kind a decision =
     (case decision of
        PdAsk k r s \<Rightarrow> Some k
      | _ \<Rightarrow>
          (case a of
             WriteFile i r p c \<Rightarrow> Some ApFileWrite
           | PatchFile i r p pt \<Rightarrow> Some ApFileWrite
           | ApplyPatch i r pt pre \<Rightarrow> Some ApFileWrite
           | CreateDirectory i r p \<Rightarrow> Some ApFileWrite
           | RunShell i r cmd w t d \<Rightarrow> command_kind cmd
           | RunWorkspaceCommand i r x args w t \<Rightarrow> command_kind (command_line x args)
           | _ \<Rightarrow> None))"

fun decision_risk :: "policy_decision \<Rightarrow> risk_level" where
  "decision_risk (PdAllow r s g) = r"
| "decision_risk (PdAsk k r s) = r"
| "decision_risk (PdDeny r s) = r"

section \<open>Evaluation of an action\<close>

definition answer_ask ::
    "campus_approval option \<Rightarrow> string \<Rightarrow> approval_kind \<Rightarrow> string \<Rightarrow> decision_record \<Rightarrow> decision_record"
  where
  "answer_ask approval aid kind summary ask =
     (case approval of
        None \<Rightarrow> ask
      | Some ap \<Rightarrow>
          (if ca_action_id ap \<noteq> aid \<or> ca_approval_kind ap \<noteq> kind
           then ask\<lparr>dr_reason := ReApprovalMismatch,
                  dr_summary := summary @ ''; approval does not match this action''\<rparr>
           else if \<not> may_approve (ca_role ap) kind
           then ask\<lparr>dr_authority := source_of (approver_authority (ca_role ap)),
                  dr_reason := ReApproverRoleNotPermitted,
                  dr_summary := summary @ ''; '' @ approver_as_str (ca_role ap) @
                    '' may not approve '' @ approval_kind_name kind @ '' operations''\<rparr>
           else ask\<lparr>dr_outcome := OutAllow,
                  dr_authority := source_of (approver_authority (ca_role ap)),
                  dr_reason := ReRoleApproval,
                  dr_summary := summary @ ''; approved by '' @ approver_as_str (ca_role ap),
                  dr_approved_by := Some (ca_role ap)\<rparr>))"

definition evaluate_ask ::
    "safety_policy \<Rightarrow> 'j agent_action \<Rightarrow> run_scope \<Rightarrow> campus_approval option \<Rightarrow> approval_kind
       \<Rightarrow> risk_level \<Rightarrow> string \<Rightarrow> decision_record \<Rightarrow> decision_record" where
  "evaluate_ask baseline a rs approval kind risk summary base =
     (let base = base\<lparr>dr_approval_kind := Some kind\<rparr> in
      if \<not> list_ex (\<lambda>role. may_approve role kind) ALL_APPROVER_ROLES
      then base\<lparr>dr_outcome := OutDeny, dr_reason := ReApprovalUnavailable,
             dr_summary := ''no Campus role may approve '' @ approval_kind_name kind @ '' operations''\<rparr>
      else
        (let ask = base\<lparr>dr_outcome := OutAsk, dr_reason := ReApprovalRequired,
                    dr_summary := summary\<rparr> in
         case apply_permission_grants baseline a rs (PdAsk kind risk summary) of
           PdAllow r s (Some g) \<Rightarrow>
             base\<lparr>dr_reason := RePermissionGrant, dr_summary := s, dr_grant_id := Some g\<rparr>
         | _ \<Rightarrow> answer_ask approval (action_id a) kind summary ask))"

definition evaluate_with_baseline ::
    "effective_policy \<Rightarrow> safety_policy \<Rightarrow> 'j agent_action \<Rightarrow> policy_decision \<Rightarrow> run_scope
       \<Rightarrow> campus_approval option \<Rightarrow> decision_record" where
  "evaluate_with_baseline q baseline a decision rs approval =
     (let tool = kind_name a; subject = ''action:'' @ tool in
      case mandatory_denier q (\<lambda>m. tool \<in> set (md_tools m)) of
        Some au \<Rightarrow>
          (base_record q OutDeny subject)\<lparr>dr_authority := source_of au,
            dr_reason := ReMandatoryDeny,
            dr_summary := tool @ '' is mandatorily denied by '' @ authority_as_str au @ '' policy''\<rparr>
      | None \<Rightarrow>
        (if tool \<notin> set (ec_tools (ep_constraints q))
         then (base_record q OutDeny subject)\<lparr>dr_authority := exclusion_source q DTools tool,
                dr_reason := ReOutsideEffectivePolicy,
                dr_summary := tool @ '' is outside the effective Campus tools''\<rparr>
         else
           (case Option.bind (operation_kind a decision) (\<lambda>kind.
               map_option (Pair kind) (mandatory_denier q (\<lambda>m. kind \<in> set (md_approval_kinds m)))) of
              Some (kind, au) \<Rightarrow>
                (base_record q OutDeny subject)\<lparr>dr_authority := source_of au,
                  dr_reason := ReMandatoryDeny,
                  dr_summary := approval_kind_name kind @
                    '' operations are mandatorily denied by '' @ authority_as_str au @ '' policy'',
                  dr_risk := Some (decision_risk decision), dr_approval_kind := Some kind\<rparr>
            | None \<Rightarrow>
                (let base = (base_record q OutAllow subject)\<lparr>dr_risk := Some (decision_risk decision)\<rparr>
                 in case decision of
                      PdAllow r s g \<Rightarrow> base\<lparr>dr_reason := ReBaselineAllow, dr_summary := s\<rparr>
                    | PdDeny r s \<Rightarrow>
                        base\<lparr>dr_outcome := OutDeny, dr_reason := ReBaselineDeny, dr_summary := s\<rparr>
                    | PdAsk kind r s \<Rightarrow> evaluate_ask baseline a rs approval kind r s base))))"

definition campus_evaluate_action ::
    "effective_policy \<Rightarrow> safety_policy \<Rightarrow> 'j agent_action \<Rightarrow> run_scope \<Rightarrow> campus_approval option
       \<Rightarrow> decision_record" where
  "campus_evaluate_action q baseline a rs approval =
     evaluate_with_baseline q baseline a (evaluate_action_without_grants baseline a) rs approval"

definition sandbox_baseline :: "safety_policy \<Rightarrow> 'j agent_action \<Rightarrow> policy_decision" where
  "sandbox_baseline baseline a =
     (case a of
        RunWorkspaceCommand i r x args cwd t \<Rightarrow>
          evaluate_action_without_grants baseline
            (RunShell i r (command_line x args) cwd t False :: 'j agent_action)
      | _ \<Rightarrow> evaluate_action_without_grants baseline a)"

definition evaluate_sandbox_action ::
    "effective_policy \<Rightarrow> safety_policy \<Rightarrow> 'j agent_action \<Rightarrow> run_scope \<Rightarrow> campus_approval option
       \<Rightarrow> decision_record" where
  "evaluate_sandbox_action q baseline a rs approval =
     evaluate_with_baseline q baseline a (sandbox_baseline baseline a) rs approval"

section \<open>When an evaluation allows\<close>

lemma mandatory_denier_None:
  "mandatory_denier q f = None \<longleftrightarrow> (\<forall>ad\<in>set (ep_mandatory_denies q). \<not> f (ad_denies ad))"
  by (auto simp: mandatory_denier_def find_None_iff)

lemma answer_ask_allow:
  "dr_outcome ask = OutAsk \<Longrightarrow>
     dr_outcome (answer_ask approval aid kind summary ask) = OutAllow \<longleftrightarrow>
     (\<exists>ap. approval = Some ap \<and> ca_action_id ap = aid \<and> ca_approval_kind ap = kind \<and>
        may_approve (ca_role ap) kind)"
  by (auto simp: answer_ask_def split: option.splits)

lemma apply_grants_none_of_grant:
  "apply_permission_grants p a rs (PdAsk k r s) \<noteq> PdAllow r' s' None"
  by (auto simp: apply_grants_ask split: option.splits)

lemma ex_role: "(\<exists>role. P role) \<longleftrightarrow> P RoleInstructor \<or> P RoleStudent"
  by (metis approver_role.exhaust)

lemma evaluate_ask_allow:
  assumes "dr_outcome base = OutAllow"
  shows "dr_outcome (evaluate_ask baseline a rs approval kind risk summary base) = OutAllow \<longleftrightarrow>
     (\<exists>role. may_approve role kind) \<and>
     ((\<exists>r s g. apply_permission_grants baseline a rs (PdAsk kind risk summary) = PdAllow r s (Some g)) \<or>
      (\<exists>ap. approval = Some ap \<and> ca_action_id ap = action_id a \<and> ca_approval_kind ap = kind \<and>
        may_approve (ca_role ap) kind))"
proof -
  have roles: "list_ex (\<lambda>role. may_approve role kind) ALL_APPROVER_ROLES \<longleftrightarrow>
      (\<exists>role. may_approve role kind)"
    by (simp add: ALL_APPROVER_ROLES_def ex_role del: may_approve.simps)
  show ?thesis
  proof (cases "apply_permission_grants baseline a rs (PdAsk kind risk summary)")
    case (PdAllow r s g)
    then obtain g' where "g = Some g'"
      using apply_grants_none_of_grant [of baseline a rs kind risk summary] by (cases g) auto
    with PdAllow roles assms show ?thesis by (simp add: evaluate_ask_def Let_def)
  next
    case (PdAsk k r s)
    with roles show ?thesis by (simp add: evaluate_ask_def Let_def answer_ask_allow)
  next
    case (PdDeny r s)
    with roles show ?thesis by (simp add: evaluate_ask_def Let_def answer_ask_allow)
  qed
qed

text \<open>The exact condition under which an action is allowed on a given baseline decision.\<close>

definition allowed_by ::
    "effective_policy \<Rightarrow> safety_policy \<Rightarrow> 'j agent_action \<Rightarrow> policy_decision \<Rightarrow> run_scope
       \<Rightarrow> campus_approval option \<Rightarrow> bool" where
  "allowed_by q baseline a decision rs approval \<longleftrightarrow>
     kind_name a \<in> set (ec_tools (ep_constraints q)) \<and>
     (\<forall>ad\<in>set (ep_mandatory_denies q). kind_name a \<notin> set (md_tools (ad_denies ad)) \<and>
        (\<forall>k. operation_kind a decision = Some k \<longrightarrow> k \<notin> set (md_approval_kinds (ad_denies ad)))) \<and>
     (case decision of
        PdAllow r s g \<Rightarrow> True
      | PdDeny r s \<Rightarrow> False
      | PdAsk k r s \<Rightarrow>
          (\<exists>role. may_approve role k) \<and>
          ((\<exists>g\<in>set (sp_permission_grants baseline).
              grant_allows g (sp_subject baseline) (sp_environment baseline) rs a r) \<or>
           (\<exists>ap. approval = Some ap \<and> ca_action_id ap = action_id a \<and> ca_approval_kind ap = k \<and>
              may_approve (ca_role ap) k)))"

lemma grants_apply_iff:
  "(\<exists>r' s' g. apply_permission_grants p a rs (PdAsk k r s) = PdAllow r' s' (Some g)) \<longleftrightarrow>
     (\<exists>g\<in>set (sp_permission_grants p). grant_allows g (sp_subject p) (sp_environment p) rs a r)"
proof (cases "find (\<lambda>g. grant_allows g (sp_subject p) (sp_environment p) rs a r)
    (sp_permission_grants p)")
  case None
  then show ?thesis by (auto simp: apply_grants_ask dest: find_NoneD)
next
  case (Some g)
  with find_SomeD [OF Some] show ?thesis by (auto simp: apply_grants_ask)
qed

lemma evaluate_with_baseline_allow:
  "dr_outcome (evaluate_with_baseline q baseline a decision rs approval) = OutAllow \<longleftrightarrow>
     allowed_by q baseline a decision rs approval"
proof -
  let ?tools = "mandatory_denier q (\<lambda>m. kind_name a \<in> set (md_tools m))"
  let ?kinds = "Option.bind (operation_kind a decision) (\<lambda>kind.
      map_option (Pair kind) (mandatory_denier q (\<lambda>m. kind \<in> set (md_approval_kinds m))))"
  have kinds: "?kinds = None \<longleftrightarrow> (\<forall>ad\<in>set (ep_mandatory_denies q).
      \<forall>k. operation_kind a decision = Some k \<longrightarrow> k \<notin> set (md_approval_kinds (ad_denies ad)))"
    by (cases "operation_kind a decision") (auto simp: mandatory_denier_None)
  have tools: "?tools = None \<longleftrightarrow>
      (\<forall>ad\<in>set (ep_mandatory_denies q). kind_name a \<notin> set (md_tools (ad_denies ad)))"
    by (simp add: mandatory_denier_None)
  show ?thesis
  proof (cases "?tools = None \<and> kind_name a \<in> set (ec_tools (ep_constraints q)) \<and> ?kinds = None")
    case True
    then have d: "\<forall>ad\<in>set (ep_mandatory_denies q). kind_name a \<notin> set (md_tools (ad_denies ad)) \<and>
        (\<forall>k. operation_kind a decision = Some k \<longrightarrow> k \<notin> set (md_approval_kinds (ad_denies ad)))"
      using tools kinds by blast
    show ?thesis
      using True d
      by (cases decision)
        (simp_all add: evaluate_with_baseline_def Let_def allowed_by_def base_record_def
          evaluate_ask_allow grants_apply_iff)
  next
    case False
    then have "\<not> allowed_by q baseline a decision rs approval"
      using tools kinds by (auto simp: allowed_by_def)
    moreover from False have
      "dr_outcome (evaluate_with_baseline q baseline a decision rs approval) = OutDeny"
      by (auto simp: evaluate_with_baseline_def Let_def base_record_def split: option.splits)
    ultimately show ?thesis by simp
  qed
qed

section \<open>Denies of a composed policy\<close>

lemma fold_add_denies:
  "ad \<in> set (fold add_denies ls ds) \<longleftrightarrow>
     ad \<in> set ds \<or> (\<exists>l\<in>set ls. \<not> denies_is_empty (pl_mandatory_denies l) \<and>
       ad = \<lparr>ad_authority = pl_authority l, ad_denies = denies_normalized (pl_mandatory_denies l)\<rparr>)"
  by (induction ls arbitrary: ds) (auto simp: add_denies_def)

lemma denies_normalized_simps [simp]:
  "set (md_tools (denies_normalized m)) = set (md_tools m)"
  "set (md_egress_hosts (denies_normalized m)) = set (md_egress_hosts m)"
  "set (md_model_aliases (denies_normalized m)) = set (md_model_aliases m)"
  "set (md_approval_kinds (denies_normalized m)) = set (md_approval_kinds m)"
  by (simp_all add: denies_normalized_def)

lemma denies_normalized_denies: "denies (denies_normalized m) d v = denies m d v"
  by (simp add: denies_def split: dimension.splits)

lemma layer_denies_recorded:
  assumes "composed h p ls q" "l \<in> set ls" "\<not> denies_is_empty (pl_mandatory_denies l)"
  shows "\<exists>ad\<in>set (ep_mandatory_denies q). ad_authority ad = pl_authority l \<and>
     ad_denies ad = denies_normalized (pl_mandatory_denies l)"
  using assms by (auto simp: composed_def fold_add_denies intro!: bexI)

section \<open>Properties\<close>

text \<open>An action a sandbox asks for is allowed exactly when its tool is effective, no recorded
  mandatory deny names the tool or the kind of operation, and the baseline either allows it or asks
  for a kind some Campus role may approve and a permission grant or a matching approval by a role
  that may approve it answers the question; a baseline deny is never lifted.\<close>
theorem sandbox_action_allowed_exact:
  "record_is_allow (evaluate_sandbox_action q baseline a rs approval) \<longleftrightarrow>
     allowed_by q baseline a (sandbox_baseline baseline a) rs approval"
  by (simp add: evaluate_sandbox_action_def record_is_allow_def evaluate_with_baseline_allow)

text \<open>C36: A mandatory deny of a composed layer cannot be lifted: an action whose tool or whose kind
  of operation the layer denies is denied under every baseline, run scope, permission grant and
  approval.\<close>
theorem mandatory_deny_not_lifted:
  assumes "compose h p ls recorded = Some (Inr q)" "l \<in> set ls"
    "kind_name a \<in> set (md_tools (pl_mandatory_denies l)) \<or>
     (\<exists>k. operation_kind a decision = Some k \<and> k \<in> set (md_approval_kinds (pl_mandatory_denies l)))"
  shows "dr_outcome (evaluate_with_baseline q baseline a decision rs approval) = OutDeny"
proof -
  have "\<not> denies_is_empty (pl_mandatory_denies l)" using assms(3) by (auto simp: denies_is_empty_def)
  from layer_denies_recorded [OF compose_composed [OF assms(1)] assms(2) this] obtain ad where
    ad: "ad \<in> set (ep_mandatory_denies q)"
    "ad_denies ad = denies_normalized (pl_mandatory_denies l)" by auto
  show ?thesis
  proof (cases "kind_name a \<in> set (md_tools (pl_mandatory_denies l))")
    case True
    with ad have "mandatory_denier q (\<lambda>m. kind_name a \<in> set (md_tools m)) \<noteq> None"
      by (auto simp: mandatory_denier_None simp del: not_None_eq intro!: bexI [of _ ad])
    then show ?thesis
      by (auto simp: evaluate_with_baseline_def Let_def base_record_def)
  next
    case False
    then obtain k where k: "operation_kind a decision = Some k"
      "k \<in> set (md_approval_kinds (pl_mandatory_denies l))" using assms(3) by auto
    with ad have "mandatory_denier q (\<lambda>m. k \<in> set (md_approval_kinds m)) \<noteq> None"
      by (auto simp: mandatory_denier_None simp del: not_None_eq intro!: bexI [of _ ad])
    with k show ?thesis
      by (auto simp: evaluate_with_baseline_def Let_def base_record_def split: option.splits)
  qed
qed

lemma mandatory_deny_not_lifted_witness:
  "\<exists>q :: effective_policy. dr_outcome (evaluate_with_baseline q example_policy
      (ReadFile ''a1'' ''why'' ''x'' None None None :: unit agent_action)
      (PdAllow RiskLow [] None) example_scope None) = OutDeny"
proof -
  obtain q where "compose example_hashes example_profile
      (example_shared_layers @ [example_student_layer]) example_recorded = Some (Inr q)"
    using example_compose by auto
  from mandatory_deny_not_lifted [OF this, of "hd example_shared_layers"
      "ReadFile ''a1'' ''why'' ''x'' None None None :: unit agent_action"] show ?thesis
    by (intro exI [of _ q]) (simp add: example_layer_defs)
qed

text \<open>A question about a kind of operation outside file writes, shell commands and destructive
  local operations is never answered with an approval, whatever grants and approvals exist; and a
  destructive command in a sandbox is allowed, where the baseline asks for it, only by an
  instructor's approval of that very action.\<close>
theorem approvals_are_role_bounded:
  assumes "record_is_allow (evaluate_with_baseline q baseline a (PdAsk kind risk s) rs approval)"
  shows "kind \<in> {ApFileWrite, ApShellCommand, ApDestructive} \<and>
     (\<not> is_file_write a \<longrightarrow> (\<exists>ap. approval = Some ap \<and> ca_action_id ap = action_id a \<and>
        ca_approval_kind ap = kind \<and> (kind = ApDestructive \<longrightarrow> ca_role ap = RoleInstructor)))"
proof -
  have al: "allowed_by q baseline a (PdAsk kind risk s) rs approval"
    using assms by (simp add: record_is_allow_def evaluate_with_baseline_allow)
  have "kind \<in> {ApFileWrite, ApShellCommand, ApDestructive}"
    using al by (auto simp: allowed_by_def ex_role)
  moreover have "may_approve r ApDestructive \<Longrightarrow> r = RoleInstructor" for r by (cases r) simp_all
  ultimately show ?thesis using al by (auto simp: allowed_by_def grant_allows_def)
qed

lemma approvals_are_role_bounded_witness:
  "\<exists>q :: effective_policy. record_is_allow (evaluate_with_baseline q example_policy
      (Finish ''a1'' ''why'' ''done'' True :: unit agent_action)
      (PdAsk ApDestructive RiskHigh ''ask'') example_scope
      (Some \<lparr>ca_action_id = ''a1'', ca_approval_kind = ApDestructive, ca_role = RoleInstructor\<rparr>))
    \<and> \<not> is_file_write (Finish ''a1'' ''why'' ''done'' True :: unit agent_action)
    \<and> ApDestructive \<in> {ApFileWrite, ApShellCommand, ApDestructive}"
proof -
  define q :: effective_policy where "q = effective_policy.make
    EFFECTIVE_CAMPUS_POLICY_SCHEMA \<lparr>pr_id = ''p'', pr_version = ''v'', pr_profile_hash = ''h''\<rparr> []
    \<lparr>ec_tools = [''finish''], ec_egress = [], ec_model_aliases = [], ec_ttl_seconds = 600,
     ec_active_execution_seconds = 600, ec_cpu_millicores = 100, ec_memory_mib = 128,
     ec_ephemeral_storage_mib = 128, ec_pids = 32, ec_session_allocation_micro_usd = 1,
     ec_hard_tokens = 1, ec_max_output_tokens = 1, ec_max_concurrent_requests = 1\<rparr>
    [] (\<lambda>_. Some SrcProfile) (\<lambda>_. None) ''h''"
  have al: "record_is_allow (evaluate_with_baseline q example_policy
      (Finish ''a1'' ''why'' ''done'' True :: unit agent_action)
      (PdAsk ApDestructive RiskHigh ''ask'') example_scope
      (Some \<lparr>ca_action_id = ''a1'', ca_approval_kind = ApDestructive, ca_role = RoleInstructor\<rparr>))"
    by (simp add: record_is_allow_def evaluate_with_baseline_allow allowed_by_def q_def
        effective_policy.defs ex_role)
  from approvals_are_role_bounded [OF al] al show ?thesis
    by (intro exI [of _ q]) (simp add: is_file_write_def)
qed

text \<open>Under a composed policy a model alias is authorised exactly when the layered aliases contain
  it, a destination exactly when the layered destinations contain it, and neither decision
  panics.\<close>
theorem membership_decisions_exact:
  assumes "compose h p ls recorded = Some (Inr q)"
  shows "(\<exists>r. authorize_model_alias q al = Some r \<and>
       (record_is_allow r \<longleftrightarrow> al \<in> layered_aliases p ls)) \<and>
     (\<exists>r. authorize_egress q host port = Some r \<and>
       (record_is_allow r \<longleftrightarrow> \<lparr>ed_host = host, ed_port = port\<rparr> \<in> layered_egress p ls))"
proof -
  have c: "composed h p ls q" using assms by (rule compose_composed)
  then have spec: "constraints_spec p ls (ep_constraints q)" and
    prov: "\<And>d. \<exists>s. ep_provenance q d = Some s" by (auto simp: composed_def)
  have decide: "\<exists>r. authorize_member q d subj v = Some r \<and> (record_is_allow r \<longleftrightarrow> b \<and>
      mandatory_denier q (\<lambda>m. denies m d v) = None)"
    if "member_permitted q d v = Some b" for d subj v b
    using that prov [of d]
    by (cases b) (auto simp: authorize_member_def record_is_allow_def base_record_def
        split: option.splits)
  have undenied: "\<forall>l\<in>set ls. \<not> denies (pl_mandatory_denies l) d v \<Longrightarrow>
      mandatory_denier q (\<lambda>m. denies m d v) = None" for d v
    using c by (auto simp: mandatory_denier_None composed_def fold_add_denies denies_normalized_denies)
  have sets: "set (ec_model_aliases (ep_constraints q)) = layered_aliases p ls"
    "set (ec_egress (ep_constraints q)) = layered_egress p ls"
    using spec by (simp_all add: constraints_spec_def)
  have "al \<in> layered_aliases p ls \<Longrightarrow>
      mandatory_denier q (\<lambda>m. denies m DModelAliases al) = None"
    by (rule undenied) (simp add: layered_aliases_def denies_def)
  moreover have "\<lparr>ed_host = host, ed_port = port\<rparr> \<in> layered_egress p ls \<Longrightarrow>
      mandatory_denier q (\<lambda>m. denies m DEgress (egress_key \<lparr>ed_host = host, ed_port = port\<rparr>)) = None"
    by (rule undenied) (simp add: layered_egress_def denies_def)
  moreover have key: "host @ '':'' @ show_word port = egress_key \<lparr>ed_host = host, ed_port = port\<rparr>"
    by (simp add: egress_key_def)
  moreover have "member_permitted q DEgress (egress_key \<lparr>ed_host = host, ed_port = port\<rparr>) =
      Some (\<lparr>ed_host = host, ed_port = port\<rparr> \<in> layered_egress p ls)"
    by (auto simp: member_permitted_def list_ex_iff sets dest: egress_key_inj)
  moreover have "member_permitted q DModelAliases al = Some (al \<in> layered_aliases p ls)"
    by (simp add: member_permitted_def sets)
  ultimately show ?thesis
    using decide unfolding authorize_model_alias_def authorize_egress_def Let_def key by metis
qed

lemma membership_decisions_exact_witness:
  "\<exists>q r. authorize_model_alias q ''lab-small'' = Some r \<and> record_is_allow r"
proof -
  obtain q where "compose example_hashes example_profile
      (example_shared_layers @ [example_student_layer]) example_recorded = Some (Inr q)"
    using example_compose by auto
  moreover have "''lab-small'' \<in> layered_aliases example_profile
      (example_shared_layers @ [example_student_layer])"
    by (simp add: layered_aliases_def example_layer_defs example_profile_def)
  ultimately show ?thesis using membership_decisions_exact by blast
qed

end
