(* ===== verification/CapabilitySelector.thy ===== *)
theory CapabilitySelector
  imports CampusDecision
begin

text \<open>
  The typed capabilities of Campus tools and the resource selector of a call: \<open>registry.rs\<close> and
  \<open>selector.rs\<close> of \<open>campus_capability\<close>. Paths are UTF-8 text; the check of a path is lexical.
\<close>

section \<open>The registry\<close>

datatype selector_kind = SkAgentControl | SkWorkspace | SkWorkspacePath | SkWorkspacePaths | SkWorkspaceCommand

record tool_binding =
  tb_tool :: string
  tb_scope :: capability_scope
  tb_capability :: tool_capability
  tb_selector :: selector_kind

definition binding :: "string \<Rightarrow> capability_scope \<Rightarrow> tool_capability \<Rightarrow> selector_kind \<Rightarrow> tool_binding" where
  "binding tool scope capability selector =
     \<lparr>tb_tool = tool, tb_scope = scope, tb_capability = capability, tb_selector = selector\<rparr>"

definition CAMPUS_CAPABILITY_REGISTRY :: "tool_binding list" where
  "CAMPUS_CAPABILITY_REGISTRY =
     [binding ''finish'' ScopeAgentControl (tool_capability_read_only AgentControl) SkAgentControl,
      binding ''environment_info'' ScopeSessionWorkspace (tool_capability_read_only Filesystem) SkWorkspace,
      binding ''list_dir'' ScopeSessionWorkspace (tool_capability_read_only Filesystem) SkWorkspacePath,
      binding ''read_file'' ScopeSessionWorkspace (tool_capability_read_only Filesystem) SkWorkspacePath,
      binding ''search_files'' ScopeSessionWorkspace (tool_capability_read_only Filesystem) SkWorkspacePath,
      binding ''create_directory'' ScopeSessionWorkspace (tool_capability_mutating Filesystem False) SkWorkspacePath,
      binding ''write_file'' ScopeSessionWorkspace (tool_capability_mutating Filesystem False) SkWorkspacePath,
      binding ''patch_file'' ScopeSessionWorkspace (tool_capability_mutating Filesystem False) SkWorkspacePath,
      binding ''apply_patch'' ScopeSessionWorkspace (tool_capability_mutating Filesystem False) SkWorkspacePaths,
      binding ''git_diff'' ScopeSessionWorkspace (tool_capability_read_only Git) SkWorkspace,
      binding ''git_status'' ScopeSessionWorkspace (tool_capability_read_only Git) SkWorkspace,
      binding ''run_workspace_command'' ScopeSessionShell (tool_capability_mutating Shell False) SkWorkspaceCommand]"

definition campus_tool_binding :: "string \<Rightarrow> tool_binding option" where
  "campus_tool_binding tool = find (\<lambda>b. tb_tool b = tool) CAMPUS_CAPABILITY_REGISTRY"

section \<open>Workspace paths\<close>

datatype resource_selector =
    RsAgentControl
  | RsWorkspace
  | RsWorkspacePath string
  | RsWorkspacePaths "string list"
  | RsWorkspaceCommand string string

datatype selector_error = SeNotACampusTool string | SeOutsideWorkspace | SeInvalidPath | SeInvalidPatch | SeInvalidExecutable

definition MAX_PATH_BYTES :: nat where "MAX_PATH_BYTES = 1024"
definition MAX_EXECUTABLE_BYTES :: nat where "MAX_EXECUTABLE_BYTES = 64"
definition MAX_PATCH_PATHS :: nat where "MAX_PATCH_PATHS = 256"

fun selector_error_str :: "selector_error \<Rightarrow> string" where
  "selector_error_str (SeNotACampusTool t) = t @ '' is not a Campus capability''"
| "selector_error_str SeOutsideWorkspace = ''path is outside the session workspace''"
| "selector_error_str SeInvalidPath = ''path is not a valid workspace path''"
| "selector_error_str SeInvalidPatch = ''patch must name between one and 256 workspace paths''"
| "selector_error_str SeInvalidExecutable = ''executable must be a bare program name''"

fun selector_kind_of :: "resource_selector \<Rightarrow> selector_kind" where
  "selector_kind_of RsAgentControl = SkAgentControl"
| "selector_kind_of RsWorkspace = SkWorkspace"
| "selector_kind_of (RsWorkspacePath p) = SkWorkspacePath"
| "selector_kind_of (RsWorkspacePaths ps) = SkWorkspacePaths"
| "selector_kind_of (RsWorkspaceCommand cwd x) = SkWorkspaceCommand"

text \<open>The segments a path keeps, in order, or the refusal of \<open>..\<close>.\<close>

fun path_segments :: "string list \<Rightarrow> (selector_error, string list) res" where
  "path_segments [] = Inr []"
| "path_segments (s # ss) =
     (if s = [] \<or> s = ''.'' then path_segments ss
      else if s = ''..'' then Inl SeOutsideWorkspace
      else res_bind (path_segments ss) (\<lambda>rest. Inr (s # rest)))"

definition workspace_path :: "string \<Rightarrow> (selector_error, string) res" where
  "workspace_path raw =
     (if MAX_PATH_BYTES < length raw \<or> contains_char raw CHR 0x5C \<or> has_control raw then Inl SeInvalidPath
      else if starts_with raw ''/'' \<or> starts_with raw ''~'' then Inl SeOutsideWorkspace
      else res_bind (path_segments (split_on CHR ''/'' raw)) (\<lambda>segments.
        Inr (if segments = [] then ''.'' else join ''/'' segments)))"

definition executable_byte :: "char \<Rightarrow> bool" where
  "executable_byte c \<longleftrightarrow> is_ascii_alnum c \<or> c \<in> {CHR ''.'', CHR ''_'', CHR ''-'', CHR ''+''}"

definition bare_executable :: "string \<Rightarrow> (selector_error, string) res" where
  "bare_executable x =
     (if 1 \<le> length x \<and> length x \<le> MAX_EXECUTABLE_BYTES \<and> \<not> (starts_with x ''-'' \<or> starts_with x ''.'') \<and>
         list_all executable_byte x
      then Inr x else Inl SeInvalidExecutable)"

section \<open>Patches\<close>

text \<open>The names in a header line of a unified diff; other lines name nothing.\<close>

definition header_names :: "string \<Rightarrow> string list" where
  "header_names line =
     (case strip_prefix line ''diff --git '' of
        Some rest \<Rightarrow> split_whitespace rest
      | None \<Rightarrow>
          (case List.map_filter (strip_prefix line) [''--- '', ''+++ ''] of
             rest # _ \<Rightarrow> [trim_end (hd (split_on CHR 0x09 rest))]
           | [] \<Rightarrow>
               (case List.map_filter (strip_prefix line) [''rename from '', ''rename to '', ''copy from '', ''copy to ''] of
                  rest # _ \<Rightarrow> [rest]
                | [] \<Rightarrow> [])))"

definition strip_side :: "string \<Rightarrow> string" where
  "strip_side name = (case strip_prefix name ''a/'' of
     Some rest \<Rightarrow> rest
   | None \<Rightarrow> (case strip_prefix name ''b/'' of Some rest \<Rightarrow> rest | None \<Rightarrow> name))"

definition named_path :: "string \<Rightarrow> (selector_error, string) res" where
  "named_path name = res_bind (workspace_path (strip_side name)) (\<lambda>p.
     if p = ''.'' then Inl SeInvalidPatch else Inr p)"

fun named_paths :: "string list \<Rightarrow> (selector_error, string list) res" where
  "named_paths [] = Inr []"
| "named_paths (name # names) =
     (if name = ''/dev/null'' then named_paths names
      else res_bind (named_path name) (\<lambda>p. res_bind (named_paths names) (\<lambda>ps. Inr (p # ps))))"

definition patch_paths :: "string \<Rightarrow> (selector_error, string list) res" where
  "patch_paths patch = res_bind (named_paths (concat (map header_names (str_lines patch)))) (\<lambda>ps.
     let paths = sort (remdups ps) in
     if paths = [] \<or> MAX_PATCH_PATHS < length paths then Inl SeInvalidPatch else Inr paths)"

text \<open>Every path with a preimage hash is one the patch names.\<close>

fun check_keys :: "string list \<Rightarrow> string list \<Rightarrow> (selector_error, unit) res" where
  "check_keys paths [] = Inr ()"
| "check_keys paths (k # ks) = res_bind (workspace_path k) (\<lambda>p.
     if p \<in> set paths then check_keys paths ks else Inl SeInvalidPatch)"

section \<open>The selector of an action\<close>

definition path_selector :: "string \<Rightarrow> (selector_error, resource_selector) res" where
  "path_selector raw = res_bind (workspace_path raw) (\<lambda>p. Inr (RsWorkspacePath p))"

definition selector_for_action :: "'j agent_action \<Rightarrow> (selector_error, resource_selector) res" where
  "selector_for_action a =
     (case a of
        Finish i r s ok \<Rightarrow> Inr RsAgentControl
      | EnvironmentInfo i r \<Rightarrow> Inr RsWorkspace
      | GitStatus i r \<Rightarrow> Inr RsWorkspace
      | GitDiff i r pathspec \<Rightarrow>
          (case pathspec of
             None \<Rightarrow> Inr RsWorkspace
           | Some p \<Rightarrow>
               if starts_with p ''-'' then Inl SeInvalidPath
               else res_bind (workspace_path p) (\<lambda>_. Inr RsWorkspace))
      | ListDir i r p d me \<Rightarrow> path_selector p
      | ReadFile i r p mb sl lc \<Rightarrow> path_selector p
      | WriteFile i r p c \<Rightarrow> path_selector p
      | PatchFile i r p pt \<Rightarrow> path_selector p
      | CreateDirectory i r p \<Rightarrow> path_selector p
      | SearchFiles i r q p glob mr \<Rightarrow>
          res_bind (case glob of Some g \<Rightarrow> res_bind (workspace_path g) (\<lambda>_. Inr ()) | None \<Rightarrow> Inr ())
            (\<lambda>_. case p of Some target \<Rightarrow> path_selector target | None \<Rightarrow> Inr (RsWorkspacePath ''.''))
      | ApplyPatch i r pt pre \<Rightarrow>
          res_bind (patch_paths pt) (\<lambda>paths.
            res_bind (check_keys paths (sorted_list_of_set (dom pre))) (\<lambda>_. Inr (RsWorkspacePaths paths)))
      | RunWorkspaceCommand i r x args cwd t \<Rightarrow>
          res_bind (workspace_path (case cwd of Some c \<Rightarrow> c | None \<Rightarrow> ''.'')) (\<lambda>c.
            res_bind (bare_executable x) (\<lambda>x'. Inr (RsWorkspaceCommand c x')))
      | _ \<Rightarrow> Inl (SeNotACampusTool (kind_name a)))"

section \<open>The registry and the profile catalog\<close>

text \<open>A tool has a capability exactly when the profile catalog has it, in the scope the catalog gives it.\<close>

lemma registry_matches_catalog:
  "map (\<lambda>b. (tb_tool b, tb_scope b)) CAMPUS_CAPABILITY_REGISTRY = CAMPUS_TOOL_CATALOG"
  by (simp add: CAMPUS_CAPABILITY_REGISTRY_def CAMPUS_TOOL_CATALOG_def binding_def)

lemma binding_named: "campus_tool_binding tool = Some b \<Longrightarrow> tb_tool b = tool \<and> b \<in> set CAMPUS_CAPABILITY_REGISTRY"
  unfolding campus_tool_binding_def by (drule find_SomeD) simp

text \<open>The selector of an action has the kind its capability declares.\<close>

lemma selector_kind_bound:
  assumes "selector_for_action a = Inr r" "campus_tool_binding (kind_name a) = Some b"
  shows "selector_kind_of r = tb_selector b"
  using assms
  by (cases a) (auto simp: selector_for_action_def path_selector_def campus_tool_binding_def
      CAMPUS_CAPABILITY_REGISTRY_def binding_def split: if_splits option.splits)

section \<open>What a workspace path denotes\<close>

lemma path_segments_ok [res_simps]:
  "path_segments ss = Inr ts \<longleftrightarrow> ''..'' \<notin> set ss \<and> ts = filter (\<lambda>s. s \<noteq> [] \<and> s \<noteq> ''.'') ss"
  by (induction ss arbitrary: ts) auto

text \<open>Walking a path from the workspace root: \<open>..\<close> goes up, and above the root is nothing.\<close>

fun walk :: "string list \<Rightarrow> string list \<Rightarrow> string list option" where
  "walk at_dir [] = Some at_dir"
| "walk at_dir (s # ss) =
     (if s = [] \<or> s = ''.'' then walk at_dir ss
      else if s = ''..'' then (if at_dir = [] then None else walk (butlast at_dir) ss)
      else walk (at_dir @ [s]) ss)"

lemma walk_down: "''..'' \<notin> set ss \<Longrightarrow> walk at_dir ss = Some (at_dir @ filter (\<lambda>s. s \<noteq> [] \<and> s \<noteq> ''.'') ss)"
  by (induction ss arbitrary: at_dir) auto

definition names_of :: "string \<Rightarrow> string list" where
  "names_of p = (if p = ''.'' then [] else split_on CHR ''/'' p)"

text \<open>A plain name stands for itself in a directory.\<close>

definition plain_name :: "string \<Rightarrow> bool" where
  "plain_name s \<longleftrightarrow> s \<noteq> [] \<and> s \<noteq> ''.'' \<and> s \<noteq> ''..'' \<and> CHR ''/'' \<notin> set s"

definition confined :: "string \<Rightarrow> bool" where
  "confined p \<longleftrightarrow> list_all plain_name (names_of p) \<and> \<not> contains_char p CHR 0x5C \<and> \<not> has_control p"

lemma has_control_sep: "has_control (s @ CHR ''/'' # t) \<longleftrightarrow> has_control s \<or> has_control t"
proof (induction s)
  case Nil
  show ?case by (simp add: byte_def)
next
  case (Cons x s)
  then show ?case by (cases s) (auto simp: byte_def)
qed

lemma has_control_join: "has_control (join ''/'' ss) \<longleftrightarrow> (\<exists>s\<in>set ss. has_control s)"
proof (induction ss)
  case (Cons s ss)
  then show ?case using has_control_sep by (cases ss) auto
qed simp

lemma set_join: "set (join sep ss) \<subseteq> set sep \<union> \<Union> (set ` set ss)"
proof (induction ss)
  case (Cons s ss)
  then show ?case by (cases ss) auto
qed simp

lemma length_join_le: "length (join [c] (filter P ss)) \<le> length (join [c] ss)"
proof -
  have l: "length (join [c] xs) + (if xs = [] then 0 else 1) = sum_list (map (\<lambda>s. length s + 1) xs)" for xs :: "string list"
  proof (induction xs)
    case (Cons x xs)
    then show ?case by (cases xs) auto
  qed simp
  have "sum_list (map (\<lambda>s. length s + 1) (filter P ss)) \<le> sum_list (map (\<lambda>s. length s + 1) ss)"
    by (induction ss) auto
  then show ?thesis using l [of "filter P ss"] l [of ss] by (cases "filter P ss = []"; cases "ss = []") auto
qed

lemma workspace_pathE:
  assumes "workspace_path raw = Inr p"
  obtains segments where "''..'' \<notin> set (split_on CHR ''/'' raw)"
    "segments = filter (\<lambda>s. s \<noteq> [] \<and> s \<noteq> ''.'') (split_on CHR ''/'' raw)"
    "p = (if segments = [] then ''.'' else join ''/'' segments)" "names_of p = segments" "list_all plain_name segments"
proof -
  let ?segs = "split_on CHR ''/'' raw"
  let ?kept = "filter (\<lambda>s. s \<noteq> [] \<and> s \<noteq> ''.'') ?segs"
  from assms have up: "''..'' \<notin> set ?segs" and p: "p = (if ?kept = [] then ''.'' else join ''/'' ?kept)"
    by (auto simp: workspace_path_def path_segments_ok split: if_splits)
  have plain: "list_all plain_name ?kept"
    using up split_on_no_sep by (auto simp: list_all_iff plain_name_def)
  have names: "names_of p = ?kept"
  proof (cases "?kept = []")
    case True
    then show ?thesis by (simp add: p names_of_def)
  next
    case False
    have "split_on CHR ''/'' (join ''/'' ?kept) = ?kept"
      using False plain by (intro split_on_join) (auto simp: list_all_iff plain_name_def)
    moreover have "join ''/'' ?kept \<noteq> ''.''"
    proof
      assume "join ''/'' ?kept = ''.''"
      with calculation have "?kept = [''.'']" by (simp del: join.simps)
      then have "''.'' \<in> set ?kept" by (simp only: list.set_intros)
      then show False by simp
    qed
    ultimately show ?thesis using False by (simp add: p names_of_def)
  qed
  from that [OF up refl p names plain] show thesis .
qed

lemma workspace_path_confined:
  assumes "workspace_path raw = Inr p"
  shows "confined p"
proof (rule workspace_pathE [OF assms])
  fix segments
  let ?segs = "split_on CHR ''/'' raw"
  assume s: "segments = filter (\<lambda>s. s \<noteq> [] \<and> s \<noteq> ''.'') ?segs" "p = (if segments = [] then ''.'' else join ''/'' segments)"
    "names_of p = segments" "list_all plain_name segments"
  from assms have raw: "CHR 0x5C \<notin> set raw" "\<not> has_control raw"
    by (auto simp: workspace_path_def contains_char_def split: if_splits)
  have "\<not> has_control (join ''/'' ?segs)" using raw(2) by (simp only: join_split_on not_False_eq_True)
  then have "\<not> has_control (join ''/'' segments)" by (auto simp: has_control_join s(1))
  moreover have "set (join ''/'' segments) \<subseteq> {CHR ''/''} \<union> set raw"
    using set_join [of "''/''" segments] split_on_subset by (fastforce simp: s(1))
  ultimately show ?thesis
    using s raw(1) by (auto simp: confined_def contains_char_def byte_def)
qed

section \<open>What a selector covers\<close>

fun selector_paths :: "resource_selector \<Rightarrow> string list" where
  "selector_paths (RsWorkspacePath p) = [p]"
| "selector_paths (RsWorkspacePaths ps) = ps"
| "selector_paths (RsWorkspaceCommand cwd x) = [cwd]"
| "selector_paths _ = []"

lemma named_paths_ok:
  "named_paths names = Inr ps \<Longrightarrow>
     (\<forall>n \<in> set names. n = ''/dev/null'' \<or> (\<exists>p \<in> set ps. named_path n = Inr p)) \<and>
     (\<forall>p \<in> set ps. \<exists>n \<in> set names. named_path n = Inr p)"
proof (induction names arbitrary: ps)
  case (Cons n names)
  show ?case
  proof (cases "n = ''/dev/null''")
    case True
    with Cons.prems have "named_paths names = Inr ps" by simp
    from Cons.IH [OF this] True show ?thesis by auto
  next
    case False
    with Cons.prems obtain p qs where q: "named_path n = Inr p" "named_paths names = Inr qs" "ps = p # qs" by auto
    from Cons.IH [OF q(2)] q show ?thesis by auto
  qed
qed simp

lemma named_path_ok: "named_path n = Inr p \<Longrightarrow> workspace_path (strip_side n) = Inr p"
  by (auto simp: named_path_def split: if_splits)

lemma patch_paths_ok:
  assumes "patch_paths patch = Inr ps"
  shows "ps \<noteq> []" "length ps \<le> MAX_PATCH_PATHS" "sorted ps" "distinct ps"
    "\<forall>line \<in> set (str_lines patch). \<forall>n \<in> set (header_names line).
       n = ''/dev/null'' \<or> (\<exists>p \<in> set ps. workspace_path (strip_side n) = Inr p)"
    "\<forall>p \<in> set ps. \<exists>raw. workspace_path raw = Inr p"
proof -
  from assms obtain qs where q: "named_paths (concat (map header_names (str_lines patch))) = Inr qs"
    and ps: "ps = sort (remdups qs)" "ps \<noteq> []" "length ps \<le> MAX_PATCH_PATHS"
    by (auto simp: patch_paths_def Let_def split: if_splits)
  have s: "set ps = set qs" using ps(1) by simp
  note N = named_paths_ok [OF q]
  show "ps \<noteq> []" "length ps \<le> MAX_PATCH_PATHS" "sorted ps" "distinct ps" using ps by simp_all
  show "\<forall>line \<in> set (str_lines patch). \<forall>n \<in> set (header_names line).
      n = ''/dev/null'' \<or> (\<exists>p \<in> set ps. workspace_path (strip_side n) = Inr p)"
    using N named_path_ok unfolding s by fastforce
  show "\<forall>p \<in> set ps. \<exists>raw. workspace_path raw = Inr p" using N named_path_ok unfolding s by blast
qed

lemma check_keys_ok:
  "check_keys ps ks = Inr u \<longleftrightarrow> (\<forall>k \<in> set ks. \<exists>p \<in> set ps. workspace_path k = Inr p)"
  by (induction ks) auto

lemma confined_root [simp]: "confined ''.''"
  by (simp add: confined_def names_of_def contains_char_def byte_def)

lemma selector_confined:
  assumes "selector_for_action a = Inr r" "p \<in> set (selector_paths r)"
  shows "confined p"
proof -
  have patch: "patch_paths pt = Inr ps \<Longrightarrow> p \<in> set ps \<Longrightarrow> confined p" for pt ps
    using patch_paths_ok(6) workspace_path_confined by blast
  show ?thesis
    using assms
    by (cases a) (auto simp: selector_for_action_def path_selector_def intro: workspace_path_confined patch
        split: if_splits option.splits)
qed

text \<open>A path the model accepts leads from the workspace root to the place its selector names.\<close>

lemma workspace_path_walk:
  assumes "workspace_path raw = Inr p"
  shows "walk [] (split_on CHR ''/'' raw) = Some (names_of p)"
proof (rule workspace_pathE [OF assms])
  fix segments
  assume up: "''..'' \<notin> set (split_on CHR ''/'' raw)" and names: "names_of p = segments"
    "segments = filter (\<lambda>s. s \<noteq> [] \<and> s \<noteq> ''.'') (split_on CHR ''/'' raw)"
  from walk_down [OF up, of "[]"] show ?thesis by (simp add: names)
qed

end
