(* ===== verification/ModelProtocol.thy ===== *)
theory ModelProtocol
  imports SafetyPolicy Json
begin

text \<open>
  What the agent runtime exchanges with the model provider and the tools: \<open>model/request.rs\<close>,
  \<open>model/response.rs\<close>, \<open>model/provider.rs\<close>, \<open>model/tool_spec.rs\<close>, \<open>tools/result.rs\<close> and the errors of
  \<open>tools/executor.rs\<close>. serde's printing and parsing are the parameter record \<open>codec\<close>; a reasoning
  replay and a reasoning policy are the values they serialise to.
\<close>

section \<open>Messages and requests\<close>

datatype model_role = MrSystem | MrUser | MrAssistant | MrTool

record model_tool_call =
  mc_id :: string
  mc_name :: string
  mc_arguments :: string

record model_message =
  mm_role :: model_role
  mm_content :: string
  mm_tool_call_id :: "string option"
  mm_tool_calls :: "model_tool_call list"
  mm_reasoning :: "json option"

definition system_message :: "string \<Rightarrow> model_message" where
  "system_message content =
     \<lparr>mm_role = MrSystem, mm_content = content, mm_tool_call_id = None, mm_tool_calls = [], mm_reasoning = None\<rparr>"

definition user_message :: "string \<Rightarrow> model_message" where
  "user_message content =
     \<lparr>mm_role = MrUser, mm_content = content, mm_tool_call_id = None, mm_tool_calls = [], mm_reasoning = None\<rparr>"

datatype tool_protocol_mode = NativeTools | JsonAction
datatype tool_choice_mode = TcmAuto | TcmRequired | TcmSpecific

record tool_spec =
  ts_name :: string
  ts_description :: string
  ts_parameters_schema :: json
  ts_capability :: capability_kind

record model_request =
  mq_session_id :: string
  mq_run_id :: string
  mq_messages :: "model_message list"
  mq_tools :: "tool_spec list"
  mq_mode :: tool_protocol_mode
  mq_tool_choice :: tool_choice_mode
  mq_temperature :: string
  mq_max_tokens :: nat
  mq_reasoning :: "json option"

section \<open>Responses\<close>

record token_usage =
  tu_prompt_tokens :: nat
  tu_completion_tokens :: nat
  tu_total_tokens :: nat
  tu_reasoning_tokens :: nat
  tu_cached_tokens :: nat
  tu_cost_microusd :: "nat option"

record response_metadata =
  md_backend :: "string option"
  md_model :: "string option"
  md_provider :: "string option"
  md_native_finish_reason :: "string option"
  md_latency_ms :: nat

record model_turn =
  mt_raw_provider_id :: "string option"
  mt_assistant_message :: "string option"
  mt_assistant_tool_calls :: "model_tool_call list"
  mt_reasoning :: "json option"
  mt_action :: "json agent_action"
  mt_usage :: "token_usage option"
  mt_metadata :: "response_metadata option"

datatype protocol_error_kind = MissingAction | MalformedArguments | MultipleActions

fun protocol_error_as_str :: "protocol_error_kind \<Rightarrow> string" where
  "protocol_error_as_str MissingAction = ''missing_action''"
| "protocol_error_as_str MalformedArguments = ''malformed_arguments''"
| "protocol_error_as_str MultipleActions = ''multiple_actions''"

fun protocol_error_debug :: "protocol_error_kind \<Rightarrow> string" where
  "protocol_error_debug MissingAction = ''MissingAction''"
| "protocol_error_debug MalformedArguments = ''MalformedArguments''"
| "protocol_error_debug MultipleActions = ''MultipleActions''"

datatype model_provider_error =
    RequestFailed string bool
  | MalformedResponse string
  | ProtocolError protocol_error_kind string
  | UnsupportedCapability string

fun provider_error_str :: "model_provider_error \<Rightarrow> string" where
  "provider_error_str (RequestFailed m retryable) = ''provider request failed: '' @ m"
| "provider_error_str (MalformedResponse m) = ''provider returned malformed response: '' @ m"
| "provider_error_str (ProtocolError k m) =
     ''provider protocol error ('' @ protocol_error_debug k @ ''): '' @ m"
| "provider_error_str (UnsupportedCapability c) =
     ''provider does not support requested capability: '' @ c"

section \<open>Tools\<close>

datatype tool_result_status = TrsOk | TrsError

record tool_result =
  tr_status :: tool_result_status
  tr_summary :: string
  tr_content :: json

definition tool_result_error :: "string \<Rightarrow> json \<Rightarrow> tool_result" where
  "tool_result_error summary content = \<lparr>tr_status = TrsError, tr_summary = summary, tr_content = content\<rparr>"

fun status_str :: "tool_result_status \<Rightarrow> string" where
  "status_str TrsOk = ''ok''"
| "status_str TrsError = ''error''"

fun status_debug :: "tool_result_status \<Rightarrow> string" where
  "status_debug TrsOk = ''Ok''"
| "status_debug TrsError = ''Error''"

text \<open>\<open>serde_json::to_value\<close> of a result.\<close>

definition tool_result_value :: "tool_result \<Rightarrow> json" where
  "tool_result_value r = JObject
     [(''content'', tr_content r), (''status'', JString (status_str (tr_status r))), (''summary'', JString (tr_summary r))]"

datatype tool_error =
    TeUnsupportedAction string
  | TeOutsideWorkspace string
  | TeIo string
  | TeNonUtf8 string
  | TeNotDirectory string
  | TeInvalidArguments string
  | TeTimedOut string nat
  | TeCommandFailed string string string
  | TeNetwork string
  | TeCapabilityDenied string string

fun tool_error_str :: "tool_error \<Rightarrow> string" where
  "tool_error_str (TeUnsupportedAction a) = ''unsupported action: '' @ a"
| "tool_error_str (TeOutsideWorkspace p) = ''path is outside workspace: '' @ p"
| "tool_error_str (TeIo m) = ''I/O error: '' @ m"
| "tool_error_str (TeNonUtf8 p) = ''file is not valid UTF-8: '' @ p"
| "tool_error_str (TeNotDirectory p) = ''path is not a directory: '' @ p"
| "tool_error_str (TeInvalidArguments m) = ''invalid tool arguments: '' @ m"
| "tool_error_str (TeTimedOut c ms) = ''command timed out after '' @ show_nat ms @ '' ms: '' @ c"
| "tool_error_str (TeCommandFailed c s e) = ''command failed with status '' @ s @ '': '' @ c @ '': '' @ e"
| "tool_error_str (TeNetwork m) = ''network error: '' @ m"
| "tool_error_str (TeCapabilityDenied a r) = ''capability denied for '' @ a @ '': '' @ r"

datatype tool_error_disposition = Recoverable | Terminal

fun disposition :: "tool_error \<Rightarrow> tool_error_disposition" where
  "disposition (TeUnsupportedAction a) = Terminal"
| "disposition (TeOutsideWorkspace p) = Terminal"
| "disposition (TeCapabilityDenied a r) = Terminal"
| "disposition _ = Recoverable"

fun error_kind_name :: "tool_error \<Rightarrow> string" where
  "error_kind_name (TeUnsupportedAction a) = ''unsupported_action''"
| "error_kind_name (TeOutsideWorkspace p) = ''outside_workspace''"
| "error_kind_name (TeIo m) = ''io''"
| "error_kind_name (TeNonUtf8 p) = ''non_utf8''"
| "error_kind_name (TeNotDirectory p) = ''not_directory''"
| "error_kind_name (TeInvalidArguments m) = ''invalid_arguments''"
| "error_kind_name (TeTimedOut c ms) = ''timed_out''"
| "error_kind_name (TeCommandFailed c s e) = ''command_failed''"
| "error_kind_name (TeNetwork m) = ''network''"
| "error_kind_name (TeCapabilityDenied a r) = ''capability_denied''"

section \<open>Serialisation\<close>

text \<open>
  \<open>to_string\<close> and \<open>from_str\<close> of a value, \<open>to_string\<close> and \<open>from_str\<close> of a tool result, \<open>to_value\<close> of an
  action and \<open>to_string\<close> of the tool specifications.
\<close>

record codec =
  cd_print :: "json \<Rightarrow> string"
  cd_parse :: "string \<Rightarrow> json option"
  cd_result :: "tool_result \<Rightarrow> string"
  cd_parse_result :: "string \<Rightarrow> tool_result option"
  cd_action :: "json agent_action \<Rightarrow> json"
  cd_specs :: "tool_spec list \<Rightarrow> string"

text \<open>serde_json stops at 128 levels of nesting when it parses.\<close>

fun json_depth :: "json \<Rightarrow> nat" where
  "json_depth (JArray vs) = Suc (fold max (map json_depth vs) 0)"
| "json_depth (JObject es) = Suc (fold max (map (\<lambda>e. json_depth (snd e)) es) 0)"
| "json_depth _ = 0"

definition plain_result :: "tool_result \<Rightarrow> bool" where
  "plain_result r \<longleftrightarrow> json_ok (tr_content r) \<and> json_depth (tr_content r) \<le> 100"

text \<open>The round trip of a tool result that serde documents.\<close>

definition codec_ok :: "codec \<Rightarrow> bool" where
  "codec_ok cd \<longleftrightarrow>
     (\<forall>r. plain_result r \<longrightarrow> cd_parse cd (cd_result cd r) = Some (tool_result_value r) \<and>
        cd_parse_result cd (cd_result cd r) = Some r)"

text \<open>\<open>as_bool\<close> and \<open>as_u64\<close> of a value, the latter narrowed to \<open>u32\<close>; a number is its text.\<close>

definition json_bool :: "json \<Rightarrow> bool option" where
  "json_bool v = (case v of JBool b \<Rightarrow> Some b | _ \<Rightarrow> None)"

definition json_u32 :: "json \<Rightarrow> nat option" where
  "json_u32 v = (case v of JNumber n \<Rightarrow> parse_unsigned (2 ^ 32) n | _ \<Rightarrow> None)"

definition get_str :: "json \<Rightarrow> string \<Rightarrow> string option" where
  "get_str v k = Option.bind (json_get v k) json_str"

definition json_remove :: "string \<Rightarrow> json \<Rightarrow> json" where
  "json_remove k v = (case v of JObject es \<Rightarrow> JObject (filter (\<lambda>e. fst e \<noteq> k) es) | _ \<Rightarrow> v)"

text \<open>\<open>Map::insert\<close> keeps the keys in order and replaces the value of a known key.\<close>

fun insert_entry :: "string \<Rightarrow> json \<Rightarrow> (string \<times> json) list \<Rightarrow> (string \<times> json) list" where
  "insert_entry k v [] = [(k, v)]"
| "insert_entry k v ((k', v') # es) =
     (if k < k' then (k, v) # (k', v') # es else if k = k' then (k, v) # es else (k', v') # insert_entry k v es)"

definition json_insert :: "string \<Rightarrow> json \<Rightarrow> json \<Rightarrow> json" where
  "json_insert k v w = (case w of JObject es \<Rightarrow> JObject (insert_entry k v es) | _ \<Rightarrow> w)"

lemma insert_entry_keys: "fst ` set (insert_entry k v es) = insert k (fst ` set es)"
  by (induction k v es rule: insert_entry.induct) auto

lemma insert_entry_sorted:
  "sorted_wrt (<) (map fst es) \<Longrightarrow> sorted_wrt (<) (map fst (insert_entry k v es))"
proof (induction es)
  case (Cons e es)
  obtain k' v' where e: "e = (k', v')" by (cases e)
  have es: "sorted_wrt (<) (map fst es)" "\<forall>x \<in> fst ` set es. k' < x" using Cons.prems by (auto simp: e)
  show ?case
  proof (cases "k < k'")
    case True
    with Cons.prems es(2) show ?thesis by (auto simp: e intro: less_trans)
  next
    case False
    show ?thesis
    proof (cases "k = k'")
      case True
      with Cons.prems show ?thesis by (simp add: e)
    next
      case other: False
      with False have "k' < k" by simp
      then have "\<forall>x \<in> fst ` set (insert_entry k v es). k' < x" using es(2) by (simp add: insert_entry_keys)
      with Cons.IH [OF es(1)] False other show ?thesis by (auto simp: e)
    qed
  qed
qed simp

lemma insert_entry_get: "map_of (insert_entry k v es) k' = (if k' = k then Some v else map_of es k')"
  by (induction k v es rule: insert_entry.induct) auto

lemma json_insert_get [simp]:
  "is_object w \<Longrightarrow> json_get (json_insert k v w) k' = (if k' = k then Some v else json_get w k')"
  by (auto simp: json_insert_def is_object_def json_get_def object_entries_def insert_entry_get split: json.splits)

lemma map_of_filter_key: "map_of (filter (\<lambda>e. fst e \<noteq> k) es) k' = (if k' = k then None else map_of es k')"
  by (induction es) auto

lemma json_remove_get [simp]: "json_get (json_remove k w) k' = (if k' = k then None else json_get w k')"
  by (auto simp: json_remove_def json_get_def object_entries_def map_of_filter_key split: json.splits)

lemma is_object_edit [simp]: "is_object (json_insert k v w) = is_object w" "is_object (json_remove k w) = is_object w"
  by (simp_all add: json_insert_def json_remove_def is_object_def split: json.splits)

end
