(* ===== verification/ActionValue.thy ===== *)
theory ActionValue
  imports CanonicalJson ModelProtocol CampusPolicy
begin

text \<open>
  The serialised form of an action: \<open>AgentAction\<close> is an internally tagged enum, so its value is an
  object with the kind under \<open>action\<close> and one entry per field, in key order. The value of a Campus
  action determines the action.
\<close>

section \<open>Values\<close>

text \<open>Inserting the entries one by one into a map, as serde builds an object.\<close>

definition json_object :: "(string \<times> json) list \<Rightarrow> json" where
  "json_object es = JObject (fold (\<lambda>(k, v). insert_entry k v) es [])"

fun json_opt :: "('a \<Rightarrow> json) \<Rightarrow> 'a option \<Rightarrow> json" where
  "json_opt f None = JNull"
| "json_opt f (Some x) = f x"

definition json_word :: "'a::len word \<Rightarrow> json" where
  "json_word w = JNumber (show_word w)"

definition json_string_map :: "(string \<rightharpoonup> string) \<Rightarrow> json" where
  "json_string_map m = JObject (map (\<lambda>k. (k, JString (the (m k)))) (sorted_list_of_set (dom m)))"

definition text_patch_value :: "text_patch \<Rightarrow> json" where
  "text_patch_value p = json_object
     [(''find'', JString (tp_find p)), (''replace'', JString (tp_replace p)), (''replace_all'', JBool (tp_replace_all p))]"

definition selector_fields :: "string option \<Rightarrow> string option \<Rightarrow> bool \<Rightarrow> string option \<Rightarrow> (string \<times> json) list" where
  "selector_fields namespace name all label =
     [(''namespace'', json_opt JString namespace), (''name'', json_opt JString name),
      (''all_namespaces'', JBool all), (''label_selector'', json_opt JString label)]"

fun action_fields :: "json agent_action \<Rightarrow> (string \<times> json) list" where
  "action_fields (Respond i r m) = [(''message'', JString m)]"
| "action_fields (ReadFile i r p mb sl lc) =
     [(''path'', JString p), (''max_bytes'', json_opt json_word mb), (''start_line'', json_opt json_word sl),
      (''line_count'', json_opt json_word lc)]"
| "action_fields (WriteFile i r p c) = [(''path'', JString p), (''content'', JString c)]"
| "action_fields (PatchFile i r p pt) = [(''path'', JString p), (''patch'', text_patch_value pt)]"
| "action_fields (ApplyPatch i r pt pre) = [(''patch'', JString pt), (''preimage_sha256'', json_string_map pre)]"
| "action_fields (ListDir i r p d me) =
     [(''path'', JString p), (''depth'', json_word d), (''max_entries'', json_opt json_word me)]"
| "action_fields (SearchFiles i r q p g mr) =
     [(''query'', JString q), (''path'', json_opt JString p), (''glob'', json_opt JString g),
      (''max_results'', json_opt json_word mr)]"
| "action_fields (EnvironmentInfo i r) = []"
| "action_fields (CreateDirectory i r p) = [(''path'', JString p)]"
| "action_fields (RunAcceptanceCommand i r n) = [(''name'', JString n)]"
| "action_fields (RunWorkspaceCommand i r x a c t) =
     [(''executable'', JString x), (''args'', JArray (map JString a)), (''cwd'', json_opt JString c),
      (''timeout_ms'', json_opt json_word t)]"
| "action_fields (GetEvidence i r e) = [(''evidence_id'', JString e)]"
| "action_fields (SubmitOnboardingProposal i r j) = [(''proposal'', j)]"
| "action_fields (SubmitWorkPlan i r j) = [(''work_plan'', j)]"
| "action_fields (SubmitImplementation i r j) = [(''implementation'', j)]"
| "action_fields (SubmitTestOutcome i r j) = [(''outcome'', j)]"
| "action_fields (SubmitTestDiagnosis i r j) = [(''diagnosis'', j)]"
| "action_fields (SubmitVerification i r j) = [(''verification'', j)]"
| "action_fields (RunShell i r c w t d) =
     [(''cmd'', JString c), (''cwd'', json_opt JString w), (''timeout_ms'', json_opt json_word t),
      (''dry_run'', JBool d)]"
| "action_fields (GitDiff i r p) = [(''pathspec'', json_opt JString p)]"
| "action_fields (GitStatus i r) = []"
| "action_fields (KubernetesGet i r x n m al l) = (''resource'', JString x) # selector_fields n m al l"
| "action_fields (ArgoGetApp i r a) = [(''app'', JString a)]"
| "action_fields (PrometheusQuery i r q) = [(''query'', JString q)]"
| "action_fields (PrometheusInventory i r) = []"
| "action_fields (LokiLogSummary i r q s l) =
     [(''query'', JString q), (''since_seconds'', json_opt json_word s), (''limit'', json_opt json_word l)]"
| "action_fields (TektonGetPipelineRuns i r n m al l) = selector_fields n m al l"
| "action_fields (TektonGetTaskRuns i r n m al l) = selector_fields n m al l"
| "action_fields (TektonAnalyzePipelineRun i r n m) = [(''namespace'', JString n), (''name'', JString m)]"
| "action_fields (RegistryInspectImage i r im b) =
     [(''image_ref'', JString im), (''registry_base_url'', json_opt JString b)]"
| "action_fields (RequestApproval i r k m) =
     [(''approval_kind'', JString (approval_kind_name k)), (''summary'', JString m)]"
| "action_fields (Finish i r m ok) = [(''summary'', JString m), (''success'', JBool ok)]"

fun action_reason :: "'j agent_action \<Rightarrow> string" where
  "action_reason (Respond i r m) = r"
| "action_reason (ReadFile i r p mb sl lc) = r"
| "action_reason (WriteFile i r p c) = r"
| "action_reason (PatchFile i r p pt) = r"
| "action_reason (ApplyPatch i r pt pre) = r"
| "action_reason (ListDir i r p d me) = r"
| "action_reason (SearchFiles i r q p g mr) = r"
| "action_reason (EnvironmentInfo i r) = r"
| "action_reason (CreateDirectory i r p) = r"
| "action_reason (RunAcceptanceCommand i r n) = r"
| "action_reason (RunWorkspaceCommand i r x a c t) = r"
| "action_reason (GetEvidence i r e) = r"
| "action_reason (SubmitOnboardingProposal i r j) = r"
| "action_reason (SubmitWorkPlan i r j) = r"
| "action_reason (SubmitImplementation i r j) = r"
| "action_reason (SubmitTestOutcome i r j) = r"
| "action_reason (SubmitTestDiagnosis i r j) = r"
| "action_reason (SubmitVerification i r j) = r"
| "action_reason (RunShell i r c w t d) = r"
| "action_reason (GitDiff i r p) = r"
| "action_reason (GitStatus i r) = r"
| "action_reason (KubernetesGet i r x n m al l) = r"
| "action_reason (ArgoGetApp i r a) = r"
| "action_reason (PrometheusQuery i r q) = r"
| "action_reason (PrometheusInventory i r) = r"
| "action_reason (LokiLogSummary i r q s l) = r"
| "action_reason (TektonGetPipelineRuns i r n m al l) = r"
| "action_reason (TektonGetTaskRuns i r n m al l) = r"
| "action_reason (TektonAnalyzePipelineRun i r n m) = r"
| "action_reason (RegistryInspectImage i r im b) = r"
| "action_reason (RequestApproval i r k m) = r"
| "action_reason (Finish i r m ok) = r"

definition action_value :: "json agent_action \<Rightarrow> json" where
  "action_value a = json_object
     ((''action'', JString (kind_name a)) # (''id'', JString (action_id a)) #
      (''reason'', JString (action_reason a)) # action_fields a)"

section \<open>Reading a value back\<close>

lemma fold_insert_get:
  "map_of (fold (\<lambda>(k, v). insert_entry k v) es acc) k =
     (case map_of (rev es) k of Some v \<Rightarrow> Some v | None \<Rightarrow> map_of acc k)"
  by (induction es arbitrary: acc) (auto simp: insert_entry_get map_add_def split: option.splits)

lemma fold_insert_sorted:
  "sorted_wrt (<) (map fst acc) \<Longrightarrow> sorted_wrt (<) (map fst (fold (\<lambda>(k, v). insert_entry k v) es acc))"
  by (induction es arbitrary: acc) (auto simp: insert_entry_sorted)

lemma fold_insert_values:
  "e \<in> set (fold (\<lambda>(k, v). insert_entry k v) es acc) \<Longrightarrow> snd e \<in> snd ` set es \<or> e \<in> set acc"
proof (induction es arbitrary: acc)
  case (Cons x es)
  have "e \<in> set (insert_entry k v acc) \<Longrightarrow> snd e = v \<or> e \<in> set acc" for k v
    by (induction k v acc rule: insert_entry.induct) (auto split: if_splits)
  with Cons show ?case by (cases x) auto
qed simp

lemma json_object_get:
  assumes "distinct (map fst es)"
  shows "json_get (json_object es) k = map_of es k"
proof -
  have "map_of (rev es) = map_of es"
    using assms by (intro map_of_inject_set [THEN iffD2]) (simp_all flip: rev_map)
  then show ?thesis by (simp add: json_object_def fold_insert_get split: option.split)
qed

lemma json_object_ok: "\<forall>e \<in> set es. json_ok (snd e) \<Longrightarrow> json_ok (json_object es)"
  using fold_insert_values [of _ es "[]"] by (fastforce simp: json_object_def fold_insert_sorted list_all_iff)

lemma json_opt_ok: "(\<And>x. json_ok (f x)) \<Longrightarrow> json_ok (json_opt f x)"
  by (cases x) auto

text \<open>An action as the program can hold it: a finite map of hashes, and well-formed payloads.\<close>

definition action_ok :: "json agent_action \<Rightarrow> bool" where
  "action_ok a \<longleftrightarrow> (\<forall>e \<in> set (action_fields a). json_ok (snd e)) \<and>
     (case a of ApplyPatch i r pt pre \<Rightarrow> finite (dom pre) | _ \<Rightarrow> True)"

lemma action_value_ok: "action_ok a \<Longrightarrow> json_ok (action_value a)"
  unfolding action_value_def by (rule json_object_ok) (auto simp: action_ok_def)

definition read_nat :: "json \<Rightarrow> nat" where
  "read_nat v = (case v of JNumber s \<Rightarrow> (case parse_digits 0 s of Some n \<Rightarrow> n | None \<Rightarrow> 0) | _ \<Rightarrow> 0)"

fun read_str :: "json \<Rightarrow> string" where
  "read_str (JString s) = s"
| "read_str _ = []"

definition read_opt :: "(json \<Rightarrow> 'a) \<Rightarrow> json \<Rightarrow> 'a option" where
  "read_opt f v = (if v = JNull then None else Some (f v))"

definition read_word :: "json \<Rightarrow> 'a::len word" where
  "read_word v = of_nat (read_nat v)"

definition read_bool :: "json \<Rightarrow> bool" where
  "read_bool v = (v = JBool True)"

definition read_strs :: "json \<Rightarrow> string list" where
  "read_strs v = (case v of JArray vs \<Rightarrow> map read_str vs | _ \<Rightarrow> [])"

definition read_map :: "json \<Rightarrow> (string \<rightharpoonup> string)" where
  "read_map v = (\<lambda>k. map_option read_str (json_get v k))"

lemma read_back [simp]:
  "read_str (JString s) = s" "read_opt read_str (json_opt JString x) = x"
  "read_word (json_word w) = w" "read_opt read_word (json_opt json_word y) = y"
  "read_bool (JBool b) = b" "read_strs (JArray (map JString ss)) = ss"
  by (cases x; cases y; simp add: read_opt_def read_word_def read_nat_def json_word_def show_word_def read_bool_def
      read_strs_def parse_digits_show_nat comp_def)+

lemma read_map_back: "finite (dom m) \<Longrightarrow> read_map (json_string_map m) = m"
proof
  fix k
  assume fin: "finite (dom m)"
  have "map_of (map (\<lambda>k. (k, JString (the (m k)))) ks) k =
      (if k \<in> set ks then Some (JString (the (m k))) else None)" for ks
    by (induction ks) auto
  with fin show "read_map (json_string_map m) k = m k"
    by (auto simp: read_map_def json_string_map_def domIff)
qed

definition read_patch :: "json \<Rightarrow> text_patch" where
  "read_patch v = \<lparr>tp_find = read_str (json_index v ''find''), tp_replace = read_str (json_index v ''replace''),
     tp_replace_all = read_bool (json_index v ''replace_all'')\<rparr>"

lemma read_patch_back [simp]: "read_patch (text_patch_value p) = p"
  by (simp add: read_patch_def text_patch_value_def json_index_def json_object_get)

text \<open>The Campus actions, read from their values.\<close>

definition read_kind :: "string \<Rightarrow> string \<Rightarrow> string \<Rightarrow> (string \<Rightarrow> json) \<Rightarrow> json agent_action option" where
  "read_kind kind i r f =
     (if kind = ''finish'' then Some (Finish i r (read_str (f ''summary'')) (read_bool (f ''success'')))
      else if kind = ''environment_info'' then Some (EnvironmentInfo i r)
      else if kind = ''git_status'' then Some (GitStatus i r)
      else if kind = ''git_diff'' then Some (GitDiff i r (read_opt read_str (f ''pathspec'')))
      else if kind = ''list_dir'' then Some (ListDir i r (read_str (f ''path'')) (read_word (f ''depth''))
        (read_opt read_word (f ''max_entries'')))
      else if kind = ''read_file'' then Some (ReadFile i r (read_str (f ''path''))
        (read_opt read_word (f ''max_bytes'')) (read_opt read_word (f ''start_line''))
        (read_opt read_word (f ''line_count'')))
      else if kind = ''search_files'' then Some (SearchFiles i r (read_str (f ''query''))
        (read_opt read_str (f ''path'')) (read_opt read_str (f ''glob'')) (read_opt read_word (f ''max_results'')))
      else if kind = ''create_directory'' then Some (CreateDirectory i r (read_str (f ''path'')))
      else if kind = ''write_file'' then Some (WriteFile i r (read_str (f ''path'')) (read_str (f ''content'')))
      else if kind = ''patch_file'' then Some (PatchFile i r (read_str (f ''path'')) (read_patch (f ''patch'')))
      else if kind = ''apply_patch'' then Some (ApplyPatch i r (read_str (f ''patch''))
        (read_map (f ''preimage_sha256'')))
      else if kind = ''run_workspace_command'' then Some (RunWorkspaceCommand i r (read_str (f ''executable''))
        (read_strs (f ''args'')) (read_opt read_str (f ''cwd'')) (read_opt read_word (f ''timeout_ms'')))
      else None)"

definition read_action :: "json \<Rightarrow> json agent_action option" where
  "read_action v =
     read_kind (read_str (json_index v ''action'')) (read_str (json_index v ''id''))
       (read_str (json_index v ''reason'')) (json_index v)"

lemma action_value_get:
  "distinct (map fst (action_fields a)) \<Longrightarrow> {''action'', ''id'', ''reason''} \<inter> fst ` set (action_fields a) = {} \<Longrightarrow>
     json_get (action_value a) k =
       map_of ((''action'', JString (kind_name a)) # (''id'', JString (action_id a)) #
         (''reason'', JString (action_reason a)) # action_fields a) k"
  unfolding action_value_def by (rule json_object_get) auto

lemma action_keys:
  "distinct (map fst (action_fields a)) \<and> {''action'', ''id'', ''reason''} \<inter> fst ` set (action_fields a) = {}"
  by (cases a) (simp_all add: selector_fields_def)

lemma action_heads [simp]:
  "json_index (action_value a) ''action'' = JString (kind_name a)"
  "json_index (action_value a) ''id'' = JString (action_id a)"
  "json_index (action_value a) ''reason'' = JString (action_reason a)"
  using action_keys [of a] by (simp_all add: json_index_def action_value_get)

lemma action_field:
  "k \<noteq> ''action'' \<Longrightarrow> k \<noteq> ''id'' \<Longrightarrow> k \<noteq> ''reason'' \<Longrightarrow> map_of (action_fields a) k = Some v \<Longrightarrow>
     json_index (action_value a) k = v"
  using action_keys [of a] by (simp add: json_index_def action_value_get)

definition campus_kinds :: "string list" where
  "campus_kinds = [''finish'', ''environment_info'', ''list_dir'', ''read_file'', ''search_files'',
     ''create_directory'', ''write_file'', ''patch_file'', ''apply_patch'', ''git_diff'', ''git_status'',
     ''run_workspace_command'']"

text \<open>The fields of each Campus action as its value shows them.\<close>

lemma read_campus:
  "read_action (action_value (Finish i r m ok)) = Some (Finish i r m ok)"
  "read_action (action_value (EnvironmentInfo i r)) = Some (EnvironmentInfo i r)"
  "read_action (action_value (GitStatus i r)) = Some (GitStatus i r)"
  "read_action (action_value (GitDiff i r ps)) = Some (GitDiff i r ps)"
  "read_action (action_value (ListDir i r p d me)) = Some (ListDir i r p d me)"
  "read_action (action_value (ReadFile i r p mb sl lc)) = Some (ReadFile i r p mb sl lc)"
  "read_action (action_value (SearchFiles i r q op g mr)) = Some (SearchFiles i r q op g mr)"
  "read_action (action_value (CreateDirectory i r p)) = Some (CreateDirectory i r p)"
  "read_action (action_value (WriteFile i r p c)) = Some (WriteFile i r p c)"
  "read_action (action_value (PatchFile i r p pt)) = Some (PatchFile i r p pt)"
  "finite (dom pre) \<Longrightarrow> read_action (action_value (ApplyPatch i r t pre)) = Some (ApplyPatch i r t pre)"
  "read_action (action_value (RunWorkspaceCommand i r x args cwd tm)) = Some (RunWorkspaceCommand i r x args cwd tm)"
  by (simp_all add: read_action_def read_kind_def action_field read_map_back)

lemma campus_actions:
  assumes "kind_name a \<in> set campus_kinds"
  shows "(\<exists>i r m ok. a = Finish i r m ok) \<or> (\<exists>i r. a = EnvironmentInfo i r) \<or> (\<exists>i r. a = GitStatus i r) \<or>
    (\<exists>i r p. a = GitDiff i r p) \<or> (\<exists>i r p d me. a = ListDir i r p d me) \<or>
    (\<exists>i r p mb sl lc. a = ReadFile i r p mb sl lc) \<or> (\<exists>i r q p g mr. a = SearchFiles i r q p g mr) \<or>
    (\<exists>i r p. a = CreateDirectory i r p) \<or> (\<exists>i r p c. a = WriteFile i r p c) \<or>
    (\<exists>i r p pt. a = PatchFile i r p pt) \<or> (\<exists>i r t pre. a = ApplyPatch i r t pre) \<or>
    (\<exists>i r x args cwd t. a = RunWorkspaceCommand i r x args cwd t)"
  using assms by (cases a; simp add: campus_kinds_def)

lemma read_action_value:
  assumes "kind_name a \<in> set campus_kinds" "action_ok a"
  shows "read_action (action_value a) = Some a"
  using campus_actions [OF assms(1)]
proof (elim disjE exE)
  fix i r t pre
  assume "a = ApplyPatch i r t pre"
  with assms(2) show ?thesis by (simp add: action_ok_def read_campus(11))
qed (simp_all only: read_campus)

theorem action_value_injective:
  assumes "action_value a = action_value b" "kind_name a \<in> set campus_kinds" "action_ok a" "action_ok b"
  shows "a = b"
proof -
  have "JString (kind_name a) = JString (kind_name b)"
    unfolding action_heads(1) [symmetric] by (simp only: assms(1))
  with assms(2) have b: "kind_name b \<in> set campus_kinds" by simp
  have "Some a = Some b"
    unfolding read_action_value [OF assms(2, 3), symmetric] read_action_value [OF b assms(4), symmetric]
    by (simp only: assms(1))
  then show ?thesis by simp
qed

end
