(* ===== verification/CapabilityBroker.thy ===== *)
theory CapabilityBroker
  imports CapabilitySelector ActionValue
begin

text \<open>
  The Campus capability broker: the trusted records of \<open>campus_capability.rs\<close>, the decision and the
  execution of a call of \<open>broker.rs\<close>, its evidence in \<open>audit.rs\<close>, the tool path of
  \<open>session_tools.rs\<close>, and what a sandbox is given in \<open>sandbox.rs\<close>. The authority source, the clock, the
  executor and the audit sink are traits: they are arguments. The audit sink threads a state of its
  own, and a run of the executor records the state of the sink at that moment.
\<close>

section \<open>Trusted records\<close>

record actor_ref =
  ac_tenant_id :: string
  ac_identity_id :: string

record session_claims =
  sc_session_id :: string
  sc_effective_policy_hash :: string
  sc_profile_hash :: string

datatype campus_caller = SessionRuntime string | Principal actor_ref

datatype call_path = CpTool | CpDirect

fun caller_call_path :: "campus_caller \<Rightarrow> call_path" where
  "caller_call_path (SessionRuntime sid) = CpTool"
| "caller_call_path (Principal actor) = CpDirect"

datatype effect_class = EcSelfWork | EcPrivileged

definition for_approval_kind :: "approval_kind option \<Rightarrow> effect_class" where
  "for_approval_kind k = (if k \<in> {None, Some ApFileWrite, Some ApShellCommand} then EcSelfWork else EcPrivileged)"

record session_authority =
  sa_session_id :: string
  sa_course_id :: string
  sa_owner :: actor_ref
  sa_policy :: effective_policy
  sa_expires_at :: int

definition authority_claims :: "session_authority \<Rightarrow> session_claims" where
  "authority_claims a =
     \<lparr>sc_session_id = sa_session_id a, sc_effective_policy_hash = ep_effective_policy_hash (sa_policy a),
      sc_profile_hash = pr_profile_hash (ep_profile (sa_policy a))\<rparr>"

datatype authority_status = AsActive | AsProvisioning | AsRevoked

record authority_snapshot =
  sn_authority :: session_authority
  sn_status :: authority_status

record trusted_approval =
  ta_approval :: campus_approval
  ta_approver :: actor_ref
  ta_arguments_sha256 :: string

definition trusted_role :: "trusted_approval \<Rightarrow> approver_role" where
  "trusted_role ap = ca_role (ta_approval ap)"

record authorized_effect =
  ae_session_id :: string
  ae_course_id :: string
  ae_owner :: actor_ref
  ae_resource :: resource_selector

record capability_request =
  cr_caller :: campus_caller
  cr_claims :: session_claims
  cr_capability :: string
  cr_resource :: "resource_selector option"
  cr_action :: "json agent_action"

text \<open>
  What one call reads and is given: the source's answers to the two queries and the clock, at the
  moments the call asks, and the executor's answer. An unavailable source answers with its message.
\<close>

record broker_draw =
  bw_session :: "string \<Rightarrow> (string, authority_snapshot option) res"
  bw_approval :: "string \<Rightarrow> string \<Rightarrow> (string, trusted_approval option) res"
  bw_now :: int
  bw_decided_at :: int
  bw_run :: "authorized_effect \<Rightarrow> json agent_action \<Rightarrow> (tool_error, tool_result) res"
  bw_finished_at :: int

section \<open>Decisions\<close>

definition campus_baseline_policy :: safety_policy where
  "campus_baseline_policy =
     \<lparr>sp_subject = ''campus:session'', sp_environment = ''campus'', sp_mode = PmSupervisedAutonomy,
      sp_allow_read_only_shell = True, sp_require_approval_for_writes = False,
      sp_require_approval_for_network = True, sp_require_approval_for_destructive = True,
      sp_deny_privileged = True, sp_deny_secret_access = True, sp_permission_grants = []\<rparr>"

definition CREDENTIAL_REFERENCES :: "string list" where
  "CREDENTIAL_REFERENCES =
     [''/var/run/secrets'', ''/run/secrets'', ''serviceaccount/token'', ''pharness_worker_token'',
      ''pharness_operator_token'', ''169.254.169.254'', ''metadata.google.internal'']"

datatype capability_reason =
    CrAuthorized | CrApprovalRequired | CrPolicyDenied | CrUnknownSession | CrAuthorityUnavailable
  | CrCallerNotSessionOwner | CrRuntimeSessionMismatch | CrSessionRevoked | CrSessionExpired
  | CrPolicyHashMismatch | CrProfileHashMismatch | CrUndeclaredCapability | CrInvalidResource
  | CrUndeclaredResource | CrUntrustedApproval | CrCredentialReference | CrPrivilegedEffectNotApproved

fun reason_as_str :: "capability_reason \<Rightarrow> string" where
  "reason_as_str CrAuthorized = ''authorized''"
| "reason_as_str CrApprovalRequired = ''approval_required''"
| "reason_as_str CrPolicyDenied = ''policy_denied''"
| "reason_as_str CrUnknownSession = ''unknown_session''"
| "reason_as_str CrAuthorityUnavailable = ''authority_unavailable''"
| "reason_as_str CrCallerNotSessionOwner = ''caller_not_session_owner''"
| "reason_as_str CrRuntimeSessionMismatch = ''runtime_session_mismatch''"
| "reason_as_str CrSessionRevoked = ''session_revoked''"
| "reason_as_str CrSessionExpired = ''session_expired''"
| "reason_as_str CrPolicyHashMismatch = ''policy_hash_mismatch''"
| "reason_as_str CrProfileHashMismatch = ''profile_hash_mismatch''"
| "reason_as_str CrUndeclaredCapability = ''undeclared_capability''"
| "reason_as_str CrInvalidResource = ''invalid_resource''"
| "reason_as_str CrUndeclaredResource = ''undeclared_resource''"
| "reason_as_str CrUntrustedApproval = ''untrusted_approval''"
| "reason_as_str CrCredentialReference = ''credential_reference''"
| "reason_as_str CrPrivilegedEffectNotApproved = ''privileged_effect_not_approved''"

record capability_decision =
  bd_outcome :: decision_outcome
  bd_reason :: capability_reason
  bd_decided_by :: policy_source
  bd_summary :: string
  bd_binding :: "tool_binding option"
  bd_resource :: "resource_selector option"
  bd_effect :: "effect_class option"
  bd_policy :: "decision_record option"
  bd_approver :: "actor_ref option"
  bd_authority :: "session_authority option"

definition deny :: "session_authority option \<Rightarrow> capability_reason \<Rightarrow> string \<Rightarrow> capability_decision" where
  "deny authority reason summary =
     \<lparr>bd_outcome = OutDeny, bd_reason = reason, bd_decided_by = SrcPlatform, bd_summary = summary,
      bd_binding = None, bd_resource = None, bd_effect = None, bd_policy = None, bd_approver = None,
      bd_authority = authority\<rparr>"

definition decision_is_allow :: "capability_decision \<Rightarrow> bool" where
  "decision_is_allow d \<longleftrightarrow> bd_outcome d = OutAllow"

definition references_credentials :: "'j agent_action \<Rightarrow> bool" where
  "references_credentials a =
     (case a of
        RunWorkspaceCommand i r executable args cwd t \<Rightarrow>
          (let line = to_ascii_lowercase (command_line executable args) in
           list_ex (str_contains line) CREDENTIAL_REFERENCES \<or>
           (str_contains line ''/proc/'' \<and> str_contains line ''environ''))
      | _ \<Rightarrow> False)"

text \<open>The digest an approval must carry to be bound to an action.\<close>

definition arguments_sha256 :: "(json \<Rightarrow> string) \<Rightarrow> json agent_action \<Rightarrow> string" where
  "arguments_sha256 digest a = canonical_json_sha256 digest (action_value a)"

definition approval_is_trusted ::
    "(json \<Rightarrow> string) \<Rightarrow> session_authority \<Rightarrow> json agent_action \<Rightarrow> trusted_approval \<Rightarrow> bool" where
  "approval_is_trusted digest authority a ap \<longleftrightarrow>
     ac_tenant_id (ta_approver ap) = ac_tenant_id (sa_owner authority) \<and>
     (case trusted_role ap of
        RoleStudent \<Rightarrow> ta_approver ap = sa_owner authority
      | RoleInstructor \<Rightarrow> ta_approver ap \<noteq> sa_owner authority) \<and>
     ca_action_id (ta_approval ap) = action_id a \<and>
     ta_arguments_sha256 ap = arguments_sha256 digest a"

section \<open>Authorization\<close>

text \<open>The checks of the caller and of the session, in order: the first that fails refuses.\<close>

definition caller_refusal ::
    "session_authority \<Rightarrow> campus_caller \<Rightarrow> (capability_reason \<times> string) option" where
  "caller_refusal authority caller =
     (case caller of
        SessionRuntime sid \<Rightarrow>
          if sid \<noteq> sa_session_id authority
          then Some (CrRuntimeSessionMismatch, ''the runtime is bound to a different session'') else None
      | Principal actor \<Rightarrow>
          if actor \<noteq> sa_owner authority
          then Some (CrCallerNotSessionOwner, ''no Campus lab session matches the claimed session'') else None)"

definition session_refusal ::
    "int \<Rightarrow> authority_snapshot \<Rightarrow> session_claims \<Rightarrow> (capability_reason \<times> string) option" where
  "session_refusal now snapshot claims =
     (let authority = sn_authority snapshot; policy = sa_policy authority in
      if sn_status snapshot \<noteq> AsActive then Some (CrSessionRevoked, ''the Campus lab session is not active'')
      else if sa_expires_at authority \<le> now
      then Some (CrSessionExpired, ''the Campus lab session has expired'')
      else if sc_effective_policy_hash claims \<noteq> ep_effective_policy_hash policy
      then Some (CrPolicyHashMismatch, ''the claimed effective policy is not the session's current policy'')
      else if sc_profile_hash claims \<noteq> pr_profile_hash (ep_profile policy)
      then Some (CrProfileHashMismatch, ''the claimed profile is not the session's profile'')
      else None)"

text \<open>The decision of the policy on a call that passed every check of the broker.\<close>

definition policy_decision_on ::
    "session_authority \<Rightarrow> tool_binding \<Rightarrow> resource_selector \<Rightarrow> json agent_action \<Rightarrow> trusted_approval option
       \<Rightarrow> capability_decision" where
  "policy_decision_on authority b resource a approval =
     (let rec = evaluate_sandbox_action (sa_policy authority) campus_baseline_policy a run_scope_default
            (map_option ta_approval approval);
          effect = for_approval_kind (dr_approval_kind rec);
          approver = (case dr_approved_by rec of None \<Rightarrow> None | Some role \<Rightarrow> map_option ta_approver approval);
          (outcome, reason) =
            (case dr_outcome rec of
               OutAllow \<Rightarrow>
                 if effect = EcPrivileged \<and> dr_approved_by rec \<noteq> Some RoleInstructor
                 then (OutDeny, CrPrivilegedEffectNotApproved) else (OutAllow, CrAuthorized)
             | OutAsk \<Rightarrow> (OutAsk, CrApprovalRequired)
             | OutDeny \<Rightarrow> (OutDeny, CrPolicyDenied))
      in \<lparr>bd_outcome = outcome, bd_reason = reason, bd_decided_by = dr_authority rec,
          bd_summary = dr_summary rec, bd_binding = Some b, bd_resource = Some resource,
          bd_effect = Some effect, bd_policy = Some rec, bd_approver = approver,
          bd_authority = Some authority\<rparr>)"

definition declared_matches :: "capability_request \<Rightarrow> resource_selector \<Rightarrow> bool" where
  "declared_matches request resource =
     (case cr_resource request of
        Some declared \<Rightarrow> declared = resource
      | None \<Rightarrow> (case cr_caller request of SessionRuntime sid \<Rightarrow> True | Principal actor \<Rightarrow> False))"

text \<open>The checks of the capability, the resource and the approval, for a session that stands.\<close>

definition authorize_action ::
    "(json \<Rightarrow> string) \<Rightarrow> broker_draw \<Rightarrow> session_authority \<Rightarrow> capability_request \<Rightarrow> capability_decision" where
  "authorize_action digest w authority request =
     (let a = cr_action request; refuse = deny (Some authority) in
      case campus_tool_binding (cr_capability request) of
        None \<Rightarrow> refuse CrUndeclaredCapability
          ''the declared capability is not a Campus capability for this action''
      | Some b \<Rightarrow>
          (if tb_tool b \<noteq> kind_name a
           then refuse CrUndeclaredCapability
             ''the declared capability is not a Campus capability for this action''
           else case selector_for_action a of
               Inl e \<Rightarrow> (refuse CrInvalidResource (selector_error_str e))\<lparr>bd_binding := Some b\<rparr>
             | Inr resource \<Rightarrow>
                 (let with_resource = (\<lambda>d. d\<lparr>bd_binding := Some b, bd_resource := Some resource\<rparr>) in
                  if \<not> declared_matches request resource
                  then with_resource (refuse CrUndeclaredResource
                    ''the declared resource selector is not the one this action touches'')
                  else if references_credentials a
                  then with_resource (refuse CrCredentialReference
                    ''the command refers to platform or broker credentials'')
                  else case bw_approval w (sa_session_id authority) (action_id a) of
                      Inl e \<Rightarrow> with_resource (refuse CrAuthorityUnavailable
                        ''Campus session authority is unavailable'')
                    | Inr approval \<Rightarrow>
                        (if (case approval of Some ap \<Rightarrow> \<not> approval_is_trusted digest authority a ap | None \<Rightarrow> False)
                         then with_resource (refuse CrUntrustedApproval
                           ''the recorded approval is not bound to this action and session'')
                         else policy_decision_on authority b resource a approval))))"

definition authorize :: "(json \<Rightarrow> string) \<Rightarrow> broker_draw \<Rightarrow> capability_request \<Rightarrow> capability_decision" where
  "authorize digest w request =
     (case bw_session w (sc_session_id (cr_claims request)) of
        Inl e \<Rightarrow> deny None CrAuthorityUnavailable ''Campus session authority is unavailable''
      | Inr None \<Rightarrow> deny None CrUnknownSession ''no Campus lab session matches the claimed session''
      | Inr (Some snapshot) \<Rightarrow>
          (let authority = sn_authority snapshot in
           case caller_refusal authority (cr_caller request) of
             Some (reason, summary) \<Rightarrow> deny (Some authority) reason summary
           | None \<Rightarrow>
               (case session_refusal (bw_now w) snapshot (cr_claims request) of
                  Some (reason, summary) \<Rightarrow> deny (Some authority) reason summary
                | None \<Rightarrow> authorize_action digest w authority request)))"

section \<open>Evidence\<close>

datatype event_kind_cap = CeDecided | CeExecuted | CeFailed

fun event_kind_str :: "event_kind_cap \<Rightarrow> string" where
  "event_kind_str CeDecided = ''campus_capability.decided''"
| "event_kind_str CeExecuted = ''campus_capability.executed''"
| "event_kind_str CeFailed = ''campus_capability.failed''"

definition CAMPUS_CAPABILITY_EVENT_SCHEMA :: string where
  "CAMPUS_CAPABILITY_EVENT_SCHEMA = ''pharness.dev/campus-capability-event/v1alpha1''"

definition MAX_RECORDED_IDENTIFIER_BYTES :: nat where "MAX_RECORDED_IDENTIFIER_BYTES = 128"

definition recorded_identifier :: "(json \<Rightarrow> string) \<Rightarrow> string \<Rightarrow> string" where
  "recorded_identifier digest v =
     (if 1 \<le> length v \<and> length v \<le> MAX_RECORDED_IDENTIFIER_BYTES \<and>
         list_all (\<lambda>c. is_ascii_alnum c \<or> c \<in> {CHR ''_'', CHR ''-'', CHR ''.'', CHR '':''}) v
      then v else canonical_json_sha256 digest (JString v))"

record capability_ref =
  rf_declared :: string
  rf_kind :: "capability_kind option"
  rf_scope :: "capability_scope option"
  rf_selector :: "selector_kind option"
  rf_mutates :: "bool option"

definition capability_ref_new :: "(json \<Rightarrow> string) \<Rightarrow> string \<Rightarrow> tool_binding option \<Rightarrow> capability_ref" where
  "capability_ref_new digest declared b =
     \<lparr>rf_declared = recorded_identifier digest declared, rf_kind = map_option (\<lambda>b. tc_kind (tb_capability b)) b,
      rf_scope = map_option tb_scope b, rf_selector = map_option tb_selector b,
      rf_mutates = map_option (\<lambda>b. tc_mutates (tb_capability b)) b\<rparr>"

fun shape :: "json \<Rightarrow> json" where
  "shape (JString t) = JObject [(''bytes'', JNumber (show_nat (length t)))]"
| "shape (JArray vs) = JObject [(''items'', JNumber (show_nat (length vs)))]"
| "shape (JObject es) = JObject [(''entries'', JNumber (show_nat (length es)))]"
| "shape v = v"

record redacted_arguments =
  ra_action :: string
  ra_action_id :: string
  ra_sha256 :: string
  ra_fields :: "(string \<times> json) list"

definition redacted_of :: "(json \<Rightarrow> string) \<Rightarrow> json agent_action \<Rightarrow> redacted_arguments" where
  "redacted_of digest a =
     (let v = action_value a in
      \<lparr>ra_action = kind_name a, ra_action_id = recorded_identifier digest (action_id a),
       ra_sha256 = canonical_json_sha256 digest v,
       ra_fields = map (\<lambda>(k, v). (k, shape v)) (filter (\<lambda>(k, v). k \<noteq> ''action'') (object_entries v))\<rparr>)"

record untrusted_result =
  ur_trusted :: bool
  ur_reported_status :: "tool_result_status option"
  ur_error_kind :: "string option"
  ur_summary_sha256 :: "string option"
  ur_content_sha256 :: "string option"

definition untrusted_of :: "(json \<Rightarrow> string) \<Rightarrow> (tool_error, tool_result) res \<Rightarrow> untrusted_result" where
  "untrusted_of digest result =
     (case result of
        Inr t \<Rightarrow> \<lparr>ur_trusted = False, ur_reported_status = Some (tr_status t), ur_error_kind = None,
          ur_summary_sha256 = Some (canonical_json_sha256 digest (JString (tr_summary t))),
          ur_content_sha256 = Some (canonical_json_sha256 digest (tr_content t))\<rparr>
      | Inl e \<Rightarrow> \<lparr>ur_trusted = False, ur_reported_status = None, ur_error_kind = Some (error_kind_name e),
          ur_summary_sha256 = None, ur_content_sha256 = None\<rparr>)"

record capability_event =
  ev_schema_version :: string
  ev_event_id :: string
  ev_kind :: event_kind_cap
  ev_occurred_at :: int
  ev_call_path :: call_path
  ev_caller :: campus_caller
  ev_session_id :: string
  ev_actor :: "actor_ref option"
  ev_session_owner :: "actor_ref option"
  ev_course_id :: "string option"
  ev_outcome :: decision_outcome
  ev_reason :: capability_reason
  ev_policy_reason :: "decision_reason option"
  ev_authority :: policy_source
  ev_risk :: "risk_level option"
  ev_approval_kind :: "approval_kind option"
  ev_approved_by :: "approver_role option"
  ev_approver :: "actor_ref option"
  ev_effect :: "effect_class option"
  ev_capability :: capability_ref
  ev_resource :: "resource_selector option"
  ev_arguments :: redacted_arguments
  ev_profile_hash :: "string option"
  ev_effective_policy_hash :: "string option"
  ev_result :: "untrusted_result option"

function trim_start_matches :: "string \<Rightarrow> string \<Rightarrow> string" where
  "trim_start_matches p s =
     (if p \<noteq> [] \<and> prefix p s then trim_start_matches p (drop (length p) s) else s)"
  by pat_completeness auto
termination
  by (relation "measure (\<lambda>(p, s). length s)") (auto simp: prefix_def)

declare trim_start_matches.simps [simp del]

text \<open>\<open>to_value\<close> is serde's value of an event. A SHA-256 is 64 hexadecimal digits, so its first 32 exist.\<close>

record hashing =
  hs_digest :: "json \<Rightarrow> string"
  hs_event :: "capability_event \<Rightarrow> json"

definition event_id_of :: "hashing \<Rightarrow> capability_event \<Rightarrow> string" where
  "event_id_of h e =
     ''ccap_'' @ take 32 (trim_start_matches ''sha256:'' (canonical_json_sha256 (hs_digest h) (hs_event h e)))"

definition build_event ::
    "hashing \<Rightarrow> event_kind_cap \<Rightarrow> capability_request \<Rightarrow> capability_decision \<Rightarrow> untrusted_result option \<Rightarrow> int
       \<Rightarrow> capability_event" where
  "build_event h kind request d result now =
     (let digest = hs_digest h; authority = bd_authority d; policy = bd_policy d;
          event = \<lparr>ev_schema_version = CAMPUS_CAPABILITY_EVENT_SCHEMA, ev_event_id = [], ev_kind = kind,
            ev_occurred_at = now, ev_call_path = caller_call_path (cr_caller request),
            ev_caller = (case cr_caller request of
                SessionRuntime sid \<Rightarrow> SessionRuntime (recorded_identifier digest sid)
              | Principal actor \<Rightarrow> Principal actor),
            ev_session_id = recorded_identifier digest (sc_session_id (cr_claims request)),
            ev_actor = (case cr_caller request of
                Principal actor \<Rightarrow> Some actor | SessionRuntime sid \<Rightarrow> map_option sa_owner authority),
            ev_session_owner = map_option sa_owner authority,
            ev_course_id = map_option sa_course_id authority,
            ev_outcome = bd_outcome d, ev_reason = bd_reason d,
            ev_policy_reason = map_option dr_reason policy, ev_authority = bd_decided_by d,
            ev_risk = Option.bind policy dr_risk, ev_approval_kind = Option.bind policy dr_approval_kind,
            ev_approved_by = Option.bind policy dr_approved_by, ev_approver = bd_approver d,
            ev_effect = bd_effect d,
            ev_capability = capability_ref_new digest (cr_capability request) (bd_binding d),
            ev_resource = bd_resource d, ev_arguments = redacted_of digest (cr_action request),
            ev_profile_hash = map_option (\<lambda>au. pr_profile_hash (ep_profile (sa_policy au))) authority,
            ev_effective_policy_hash = map_option (\<lambda>au. ep_effective_policy_hash (sa_policy au)) authority,
            ev_result = result\<rparr>
      in event\<lparr>ev_event_id := event_id_of h event\<rparr>)"

definition decided_event :: "hashing \<Rightarrow> capability_request \<Rightarrow> capability_decision \<Rightarrow> int \<Rightarrow> capability_event" where
  "decided_event h request d now = build_event h CeDecided request d None now"

definition finished_event ::
    "hashing \<Rightarrow> capability_request \<Rightarrow> capability_decision \<Rightarrow> (tool_error, tool_result) res \<Rightarrow> int
       \<Rightarrow> capability_event" where
  "finished_event h request d result now =
     build_event h (case result of Inr t \<Rightarrow> CeExecuted | Inl e \<Rightarrow> CeFailed) request d
       (Some (untrusted_of (hs_digest h) result)) now"

section \<open>Execution\<close>

record capability_outcome =
  oc_decision :: capability_decision
  oc_result :: "(tool_error, tool_result) res option"

definition outcome_executed :: "capability_outcome \<Rightarrow> bool" where
  "outcome_executed oc \<longleftrightarrow> oc_result oc \<noteq> None"

datatype broker_error = AuditUnavailable string | AuditUnavailableAfterEffect string

definition audit_error_str :: "string \<Rightarrow> string" where
  "audit_error_str m = ''campus capability audit is unavailable: '' @ m"

fun broker_error_str :: "broker_error \<Rightarrow> string" where
  "broker_error_str (AuditUnavailable m) =
     ''campus capability decision could not be recorded; nothing ran: '' @ audit_error_str m"
| "broker_error_str (AuditUnavailableAfterEffect m) =
     ''campus capability result could not be recorded: '' @ audit_error_str m"

type_synonym 'k audit_sink = "capability_event \<Rightarrow> 'k \<Rightarrow> (string, unit) res \<times> 'k"

text \<open>A run of the executor: the effect it was handed, the action, and the sink when it began.\<close>

record 'k effect_run =
  er_effect :: authorized_effect
  er_action :: "json agent_action"
  er_sink :: 'k

record ('k, 'r) call_result =
  cl_answer :: 'r
  cl_sink :: 'k
  cl_run :: "'k effect_run option"

definition authorized_of :: "session_authority \<Rightarrow> resource_selector \<Rightarrow> authorized_effect" where
  "authorized_of authority resource =
     \<lparr>ae_session_id = sa_session_id authority, ae_course_id = sa_course_id authority,
      ae_owner = sa_owner authority, ae_resource = resource\<rparr>"

definition broker_execute ::
    "hashing \<Rightarrow> 'k audit_sink \<Rightarrow> broker_draw \<Rightarrow> capability_request \<Rightarrow> 'k
       \<Rightarrow> ('k, (broker_error, capability_outcome) res) call_result" where
  "broker_execute h sink w request k =
     (let d = authorize (hs_digest h) w request in
      case sink (decided_event h request d (bw_decided_at w)) k of
        (Inl m, k1) \<Rightarrow> \<lparr>cl_answer = Inl (AuditUnavailable m), cl_sink = k1, cl_run = None\<rparr>
      | (Inr u, k1) \<Rightarrow>
          (case (bd_authority d, bd_resource d, decision_is_allow d) of
             (Some authority, Some resource, True) \<Rightarrow>
               (let effect = authorized_of authority resource;
                    result = bw_run w effect (cr_action request);
                    run = Some \<lparr>er_effect = effect, er_action = cr_action request, er_sink = k1\<rparr>
                in case sink (finished_event h request d result (bw_finished_at w)) k1 of
                     (Inl m, k2) \<Rightarrow> \<lparr>cl_answer = Inl (AuditUnavailableAfterEffect m), cl_sink = k2, cl_run = run\<rparr>
                   | (Inr u', k2) \<Rightarrow>
                       \<lparr>cl_answer = Inr \<lparr>oc_decision = d, oc_result = Some result\<rparr>, cl_sink = k2, cl_run = run\<rparr>)
           | _ \<Rightarrow> \<lparr>cl_answer = Inr \<lparr>oc_decision = d, oc_result = None\<rparr>, cl_sink = k1, cl_run = None\<rparr>))"

section \<open>The tool path\<close>

definition tool_request :: "session_claims \<Rightarrow> json agent_action \<Rightarrow> capability_request" where
  "tool_request claims a =
     \<lparr>cr_caller = SessionRuntime (sc_session_id claims), cr_claims = claims, cr_capability = kind_name a,
      cr_resource = None, cr_action = a\<rparr>"

definition tool_answer ::
    "json agent_action \<Rightarrow> (broker_error, capability_outcome) res \<Rightarrow> (tool_error, tool_result) res" where
  "tool_answer a answer =
     (case answer of
        Inr outcome \<Rightarrow>
          (case oc_result outcome of
             Some result \<Rightarrow> result
           | None \<Rightarrow> Inl (TeCapabilityDenied (kind_name a)
               (reason_as_str (bd_reason (oc_decision outcome)) @ '': '' @ bd_summary (oc_decision outcome))))
      | Inl e \<Rightarrow> Inl (TeCapabilityDenied (kind_name a) (broker_error_str e)))"

definition session_tools_execute ::
    "hashing \<Rightarrow> 'k audit_sink \<Rightarrow> broker_draw \<Rightarrow> session_claims \<Rightarrow> json agent_action \<Rightarrow> 'k
       \<Rightarrow> ('k, (tool_error, tool_result) res) call_result" where
  "session_tools_execute h sink w claims a k =
     (let r = broker_execute h sink w (tool_request claims a) k in
      \<lparr>cl_answer = tool_answer a (cl_answer r), cl_sink = cl_sink r, cl_run = cl_run r\<rparr>)"

section \<open>What a sandbox is given\<close>

definition MAX_SANDBOX_ENV_VARS :: nat where "MAX_SANDBOX_ENV_VARS = 64"
definition MAX_SANDBOX_ENV_VALUE_BYTES :: nat where "MAX_SANDBOX_ENV_VALUE_BYTES = 4096"

definition CREDENTIAL_NAME_FRAGMENTS :: "string list" where
  "CREDENTIAL_NAME_FRAGMENTS =
     [''TOKEN'', ''SECRET'', ''PASSWORD'', ''PASSWD'', ''CREDENTIAL'', ''API_KEY'', ''APIKEY'', ''PRIVATE_KEY'',
      ''ACCESS_KEY'', ''AUTH'', ''COOKIE'', ''SESSION'']"

definition RESERVED_NAME_PREFIXES :: "string list" where
  "RESERVED_NAME_PREFIXES = [''PHARNESS'', ''AWS_'', ''AZURE_'', ''GOOGLE_'', ''GCP_'']"

definition RESERVED_NAMES :: "string list" where
  "RESERVED_NAMES = [''KUBECONFIG'', ''SSH_AUTH_SOCK'', ''DOCKER_CONFIG'']"

record sandbox_network =
  bn_mode :: network_mode
  bn_egress :: "egress_destination list"

definition sandbox_network_of :: "session_authority \<Rightarrow> sandbox_network" where
  "sandbox_network_of a =
     (let egress = ec_egress (ep_constraints (sa_policy a)) in
      \<lparr>bn_mode = (if egress = [] then NetDenied else NetApprovedEgress), bn_egress = egress\<rparr>)"

datatype sandbox_error =
    SxTooManyVariables | SxInvalidName string | SxCredentialName string | SxReservedName string | SxInvalidValue string

definition plain_env_name :: "string \<Rightarrow> bool" where
  "plain_env_name name \<longleftrightarrow>
     name \<noteq> [] \<and> length name \<le> 64 \<and> \<not> is_ascii_digit (hd name) \<and>
     list_all (\<lambda>c. is_ascii_upper c \<or> is_ascii_digit c \<or> c = CHR ''_'') name"

fun check_environment :: "nat \<Rightarrow> (string \<times> string) list \<Rightarrow> (sandbox_error, unit) res" where
  "check_environment seen [] = Inr ()"
| "check_environment seen ((name, v) # rest) =
     (if MAX_SANDBOX_ENV_VARS < Suc seen then Inl SxTooManyVariables
      else if \<not> plain_env_name name then Inl (SxInvalidName name)
      else if name \<in> set RESERVED_NAMES \<or> list_ex (starts_with name) RESERVED_NAME_PREFIXES
      then Inl (SxReservedName name)
      else if list_ex (str_contains name) CREDENTIAL_NAME_FRAGMENTS then Inl (SxCredentialName name)
      else if MAX_SANDBOX_ENV_VALUE_BYTES < length v \<or> contains_char v CHR 0x00 then Inl (SxInvalidValue name)
      else check_environment (Suc seen) rest)"

definition check_sandbox_environment :: "(string \<times> string) list \<Rightarrow> (sandbox_error, unit) res" where
  "check_sandbox_environment environment = check_environment 0 environment"

end
