(* ===== verification/CapabilitySafety.thy ===== *)
theory CapabilitySafety
  imports CapabilityBroker
begin

text \<open>
  What the broker grants and when an effect runs: the exact condition of an allow, the contracts of
  an audit sink and of an authority source as locales, and their interpretations on the in-memory
  sink and source of \<open>memory.rs\<close>.
\<close>

section \<open>The Campus baseline\<close>

lemma operation_campus: "kind_name a \<in> set campus_kinds \<longleftrightarrow> campus_tool_binding (kind_name a) \<noteq> None"
  by (cases a) (simp_all add: campus_kinds_def campus_tool_binding_def CAMPUS_CAPABILITY_REGISTRY_def binding_def)

definition work_kind :: "'j agent_action \<Rightarrow> approval_kind option" where
  "work_kind a =
     (if is_file_write a then Some ApFileWrite
      else case a of
          RunWorkspaceCommand i r x args cwd t \<Rightarrow> command_kind (command_line x args)
        | _ \<Rightarrow> None)"

definition approved_for :: "string \<Rightarrow> approval_kind \<Rightarrow> campus_approval option \<Rightarrow> bool" where
  "approved_for aid kind approval \<longleftrightarrow>
     (\<exists>ap. approval = Some ap \<and> ca_action_id ap = aid \<and> ca_approval_kind ap = kind \<and> may_approve (ca_role ap) kind)"

text \<open>What the Campus baseline lets a command do.\<close>

definition command_permitted :: "string \<Rightarrow> string \<Rightarrow> campus_approval option \<Rightarrow> bool" where
  "command_permitted aid line approval \<longleftrightarrow>
     (case classify_command line of
        CcSafeReadOnly \<Rightarrow> True
      | CcWriteLocalProject \<Rightarrow> approved_for aid ApShellCommand approval
      | CcUnknown \<Rightarrow> approved_for aid ApShellCommand approval
      | CcDestructiveLocal \<Rightarrow> approved_for aid ApDestructive approval
      | _ \<Rightarrow> False)"

definition campus_permits :: "effective_policy \<Rightarrow> json agent_action \<Rightarrow> campus_approval option \<Rightarrow> bool" where
  "campus_permits q a approval \<longleftrightarrow>
     kind_name a \<in> set (ec_tools (ep_constraints q)) \<and>
     (\<forall>ad\<in>set (ep_mandatory_denies q). kind_name a \<notin> set (md_tools (ad_denies ad)) \<and>
        (\<forall>k. work_kind a = Some k \<longrightarrow> k \<notin> set (md_approval_kinds (ad_denies ad)))) \<and>
     (case a of
        RunWorkspaceCommand i r x args cwd t \<Rightarrow> command_permitted i (command_line x args) approval
      | _ \<Rightarrow> True)"

lemma baseline_command:
  "evaluate_command campus_baseline_policy line =
     (case classify_command line of
        CcSafeReadOnly \<Rightarrow> pd_allow RiskLow (''read-only shell command allowed: '' @ line)
      | CcWriteLocalProject \<Rightarrow> PdAsk ApShellCommand RiskMedium (''local write command requires approval: '' @ line)
      | CcDestructiveLocal \<Rightarrow> PdAsk ApDestructive RiskHigh (''destructive command requires approval: '' @ line)
      | CcNetwork \<Rightarrow> PdAsk ApNetwork RiskHigh (''network or cluster-impacting command requires approval: '' @ line)
      | CcUnknown \<Rightarrow> PdAsk ApShellCommand RiskMedium (''unknown shell command requires approval: '' @ line)
      | _ \<Rightarrow> evaluate_command campus_baseline_policy line)"
  by (simp add: evaluate_command_def campus_baseline_policy_def split: command_class.split)

lemma baseline_denies:
  "classify_command line \<in> {CcEnvironmentSetup, CcPrivileged, CcSecretAccessing} \<Longrightarrow>
     \<exists>r s. evaluate_command campus_baseline_policy line = PdDeny r s"
  by (auto simp: evaluate_command_def campus_baseline_policy_def)

lemma baseline_write:
  "evaluate_write_action campus_baseline_policy p = PdAllow RiskMedium (''file write allowed: '' @ p) None"
  by (simp add: evaluate_write_action_def campus_baseline_policy_def pd_allow_def)

text \<open>The Campus baseline carries no grant, so an approval is the only answer to a question.\<close>

lemma no_grants: "sp_permission_grants campus_baseline_policy = []"
  by (simp add: campus_baseline_policy_def)

lemma ask_allowed:
  "allowed_by q campus_baseline_policy a (PdAsk k r s) rs approval \<longleftrightarrow>
     kind_name a \<in> set (ec_tools (ep_constraints q)) \<and>
     (\<forall>ad\<in>set (ep_mandatory_denies q). kind_name a \<notin> set (md_tools (ad_denies ad)) \<and>
        k \<notin> set (md_approval_kinds (ad_denies ad))) \<and>
     approved_for (action_id a) k approval"
  by (auto simp: allowed_by_def no_grants approved_for_def operation_kind_def)

lemma allow_allowed:
  "allowed_by q campus_baseline_policy a (PdAllow r s g) rs approval \<longleftrightarrow>
     kind_name a \<in> set (ec_tools (ep_constraints q)) \<and>
     (\<forall>ad\<in>set (ep_mandatory_denies q). kind_name a \<notin> set (md_tools (ad_denies ad)) \<and>
        (\<forall>k. operation_kind a (PdAllow r s g) = Some k \<longrightarrow> k \<notin> set (md_approval_kinds (ad_denies ad))))"
  by (simp add: allowed_by_def)

lemma deny_allowed: "\<not> allowed_by q baseline a (PdDeny r s) rs approval"
  by (simp add: allowed_by_def)

lemma never_approved: "approved_for aid ApNetwork approval \<longleftrightarrow> False"
proof -
  have "\<not> may_approve role ApNetwork" for role by (cases role) simp_all
  then show ?thesis by (simp add: approved_for_def)
qed

lemma command_allowed:
  fixes i r x args cwd t
  defines "a \<equiv> RunWorkspaceCommand i r x args cwd t" and "line \<equiv> command_line x args"
  shows "allowed_by q campus_baseline_policy a (evaluate_command campus_baseline_policy line) rs approval \<longleftrightarrow>
     campus_permits q a approval"
proof (cases "classify_command line \<in> {CcEnvironmentSetup, CcPrivileged, CcSecretAccessing}")
  case True
  then have "\<not> campus_permits q a approval"
    by (auto simp: campus_permits_def a_def command_permitted_def line_def)
  with baseline_denies [OF True] deny_allowed show ?thesis by metis
next
  case False
  have kind: "work_kind a = command_kind line"
    by (simp add: a_def work_kind_def is_file_write_def line_def)
  have op: "operation_kind a (PdAllow r' s g) = command_kind line" for r' s g
    by (simp add: operation_kind_def a_def line_def)
  have perm: "campus_permits q a approval \<longleftrightarrow> kind_name a \<in> set (ec_tools (ep_constraints q)) \<and>
      (\<forall>ad\<in>set (ep_mandatory_denies q). kind_name a \<notin> set (md_tools (ad_denies ad)) \<and>
        (\<forall>k. command_kind line = Some k \<longrightarrow> k \<notin> set (md_approval_kinds (ad_denies ad)))) \<and>
      command_permitted (action_id a) line approval"
    unfolding campus_permits_def kind by (simp add: a_def line_def)
  show ?thesis
    using False unfolding perm
    by (subst baseline_command, cases "classify_command line")
      (simp_all add: pd_allow_def ask_allowed allow_allowed op command_permitted_def command_kind_def never_approved)
qed

lemma other_allowed:
  assumes "kind_name a \<in> set campus_kinds" "\<not> (\<exists>i r x args cwd t. a = RunWorkspaceCommand i r x args cwd t)"
  shows "\<exists>r s. sandbox_baseline campus_baseline_policy a = PdAllow r s None \<and>
     operation_kind a (PdAllow r s None) = work_kind a"
  using campus_actions [OF assms(1)] assms(2)
  by (elim disjE exE) (simp_all add: sandbox_baseline_def evaluate_action_without_grants_def pd_allow_def
      operation_kind_def work_kind_def is_file_write_def baseline_write)

lemma campus_allowed:
  assumes "kind_name a \<in> set campus_kinds"
  shows "dr_outcome (evaluate_sandbox_action q campus_baseline_policy a rs approval) = OutAllow \<longleftrightarrow>
     campus_permits q a approval"
proof (cases "\<exists>i r x args cwd t. a = RunWorkspaceCommand i r x args cwd t")
  case True
  then obtain i r x args cwd t where a: "a = RunWorkspaceCommand i r x args cwd t" by blast
  have "sandbox_baseline campus_baseline_policy a = evaluate_command campus_baseline_policy (command_line x args)"
    by (simp add: a sandbox_baseline_def evaluate_action_without_grants_def)
  then show ?thesis
    using command_allowed [of q i r x args cwd t rs approval]
    by (simp add: evaluate_sandbox_action_def evaluate_with_baseline_allow a)
next
  case False
  then obtain r s where s: "sandbox_baseline campus_baseline_policy a = PdAllow r s None"
    "operation_kind a (PdAllow r s None) = work_kind a"
    using other_allowed [OF assms] by blast
  have "campus_permits q a approval \<longleftrightarrow> kind_name a \<in> set (ec_tools (ep_constraints q)) \<and>
      (\<forall>ad\<in>set (ep_mandatory_denies q). kind_name a \<notin> set (md_tools (ad_denies ad)) \<and>
        (\<forall>k. work_kind a = Some k \<longrightarrow> k \<notin> set (md_approval_kinds (ad_denies ad))))"
    using False by (auto simp: campus_permits_def split: agent_action.split)
  then show ?thesis
    by (simp add: evaluate_sandbox_action_def evaluate_with_baseline_allow s allow_allowed)
qed

text \<open>A record that allows a privileged kind carries an instructor's approval, so the broker's own
  check after the policy never has to refuse.\<close>

lemma answered_record:
  assumes "dr_outcome ask = OutAsk" "dr_outcome (answer_ask approval aid kind s ask) = OutAllow"
  shows "\<exists>ap. approval = Some ap \<and> dr_approved_by (answer_ask approval aid kind s ask) = Some (ca_role ap) \<and>
     may_approve (ca_role ap) kind \<and> dr_approval_kind (answer_ask approval aid kind s ask) = dr_approval_kind ask"
  using assms by (auto simp: answer_ask_def split: option.splits if_splits)

lemma record_kind:
  fixes d :: decision_record
  assumes d: "d = evaluate_with_baseline q campus_baseline_policy a decision rs approval"
    and allow: "dr_outcome d = OutAllow"
  shows "dr_approval_kind d = None \<and> dr_approved_by d = None \<or>
     (\<exists>ap k. approval = Some ap \<and> dr_approval_kind d = Some k \<and> dr_approved_by d = Some (ca_role ap) \<and>
        may_approve (ca_role ap) k)"
proof -
  have al: "allowed_by q campus_baseline_policy a decision rs approval"
    using allow by (simp add: d evaluate_with_baseline_allow)
  have kinds: "Option.bind (operation_kind a decision) (\<lambda>kind.
      map_option (Pair kind) (mandatory_denier q (\<lambda>m. kind \<in> set (md_approval_kinds m)))) = None"
    using al by (cases "operation_kind a decision") (auto simp: allowed_by_def mandatory_denier_None)
  have tools: "mandatory_denier q (\<lambda>m. kind_name a \<in> set (md_tools m)) = None"
    "kind_name a \<in> set (ec_tools (ep_constraints q))"
    using al by (auto simp: allowed_by_def mandatory_denier_None)
  show ?thesis
  proof (cases decision)
    case (PdAllow r s g)
    then show ?thesis using kinds tools by (simp add: d evaluate_with_baseline_def Let_def base_record_def)
  next
    case (PdDeny r s)
    with al show ?thesis by (simp add: deny_allowed)
  next
    case (PdAsk k r s)
    let ?base = "(base_record q OutAllow (''action:'' @ kind_name a))\<lparr>dr_risk := Some r, dr_approval_kind := Some k\<rparr>"
    let ?ask = "?base\<lparr>dr_outcome := OutAsk, dr_reason := ReApprovalRequired, dr_summary := s\<rparr>"
    have role: "list_ex (\<lambda>role. may_approve role k) ALL_APPROVER_ROLES"
      using al by (auto simp: PdAsk ask_allowed approved_for_def ALL_APPROVER_ROLES_def simp del: may_approve.simps)
        (metis approver_role.exhaust)
    have ask: "apply_permission_grants campus_baseline_policy a rs (PdAsk k r s) = PdAsk k r s"
      by (simp add: apply_grants_ask no_grants)
    have rec: "d = answer_ask approval (action_id a) k s ?ask"
      using kinds tools role ask
      by (simp add: d PdAsk evaluate_with_baseline_def Let_def evaluate_ask_def)
    have "dr_outcome (answer_ask approval (action_id a) k s ?ask) = OutAllow" using allow by (simp only: rec)
    from answered_record [OF _ this] obtain ap where
      "approval = Some ap" "dr_approved_by d = Some (ca_role ap)" "may_approve (ca_role ap) k"
      "dr_approval_kind d = Some k"
      unfolding rec by auto
    then show ?thesis by blast
  qed
qed

lemma privileged_instructor: "may_approve role k \<Longrightarrow> for_approval_kind (Some k) = EcPrivileged \<Longrightarrow> role = RoleInstructor"
  by (cases role) (auto simp: for_approval_kind_def)

lemma policy_allows:
  assumes "kind_name a \<in> set campus_kinds"
  shows "bd_outcome (policy_decision_on authority b resource a approval) = OutAllow \<longleftrightarrow>
     campus_permits (sa_policy authority) a (map_option ta_approval approval)"
proof -
  let ?rec = "evaluate_sandbox_action (sa_policy authority) campus_baseline_policy a run_scope_default
    (map_option ta_approval approval)"
  have "dr_outcome ?rec = OutAllow \<Longrightarrow> for_approval_kind (dr_approval_kind ?rec) = EcPrivileged \<Longrightarrow>
      dr_approved_by ?rec = Some RoleInstructor"
    using record_kind [OF refl, of "sa_policy authority" a "sandbox_baseline campus_baseline_policy a" run_scope_default
        "map_option ta_approval approval"] privileged_instructor
    by (auto simp: evaluate_sandbox_action_def for_approval_kind_def)
  then show ?thesis
    using campus_allowed [OF assms, of "sa_policy authority" run_scope_default "map_option ta_approval approval"]
    by (auto simp: policy_decision_on_def Let_def split: decision_outcome.splits)
qed

section \<open>When a call is authorized\<close>

definition caller_owns :: "session_authority \<Rightarrow> campus_caller \<Rightarrow> bool" where
  "caller_owns authority caller \<longleftrightarrow>
     (case caller of
        SessionRuntime sid \<Rightarrow> sid = sa_session_id authority
      | Principal actor \<Rightarrow> actor = sa_owner authority)"

lemma caller_refusal_None: "caller_refusal authority caller = None \<longleftrightarrow> caller_owns authority caller"
  by (simp add: caller_refusal_def caller_owns_def split: campus_caller.split)

definition session_stands :: "broker_draw \<Rightarrow> session_claims \<Rightarrow> session_authority \<Rightarrow> bool" where
  "session_stands w claims authority \<longleftrightarrow>
     bw_session w (sc_session_id claims) = Inr (Some \<lparr>sn_authority = authority, sn_status = AsActive\<rparr>) \<and>
     bw_now w < sa_expires_at authority \<and>
     sc_effective_policy_hash claims = ep_effective_policy_hash (sa_policy authority) \<and>
     sc_profile_hash claims = pr_profile_hash (ep_profile (sa_policy authority))"

lemma session_refusal_None:
  "session_refusal now snapshot claims = None \<longleftrightarrow>
     sn_status snapshot = AsActive \<and> now < sa_expires_at (sn_authority snapshot) \<and>
     sc_effective_policy_hash claims = ep_effective_policy_hash (sa_policy (sn_authority snapshot)) \<and>
     sc_profile_hash claims = pr_profile_hash (ep_profile (sa_policy (sn_authority snapshot)))"
  by (auto simp: session_refusal_def Let_def)

text \<open>The answers of the approval query under which an action may run.\<close>

definition approval_serves ::
    "(json \<Rightarrow> string) \<Rightarrow> session_authority \<Rightarrow> json agent_action \<Rightarrow> trusted_approval option \<Rightarrow> bool" where
  "approval_serves digest authority a approval \<longleftrightarrow>
     (\<forall>ap. approval = Some ap \<longrightarrow> approval_is_trusted digest authority a ap) \<and>
     campus_permits (sa_policy authority) a (map_option ta_approval approval)"

definition authorized_call ::
    "(json \<Rightarrow> string) \<Rightarrow> broker_draw \<Rightarrow> capability_request \<Rightarrow> session_authority \<Rightarrow> resource_selector \<Rightarrow> bool" where
  "authorized_call digest w request authority resource \<longleftrightarrow>
     session_stands w (cr_claims request) authority \<and> caller_owns authority (cr_caller request) \<and>
     cr_capability request = kind_name (cr_action request) \<and> kind_name (cr_action request) \<in> set campus_kinds \<and>
     selector_for_action (cr_action request) = Inr resource \<and> declared_matches request resource \<and>
     \<not> references_credentials (cr_action request) \<and>
     (\<exists>approval. bw_approval w (sa_session_id authority) (action_id (cr_action request)) = Inr approval \<and>
        approval_serves digest authority (cr_action request) approval)"

lemma deny_simps [simp]:
  "bd_outcome (deny au r s) = OutDeny" "bd_authority (deny au r s) = au" "bd_reason (deny au r s) = r"
  "bd_effect (deny au r s) = None" "bd_policy (deny au r s) = None"
  by (simp_all add: deny_def)

lemma policy_parts [simp]:
  "bd_authority (policy_decision_on authority b resource a approval) = Some authority"
  "bd_resource (policy_decision_on authority b resource a approval) = Some resource"
  by (simp_all add: policy_decision_on_def Let_def split_beta)

lemma authorize_action_allow:
  "bd_outcome (authorize_action digest w authority request) = OutAllow \<longleftrightarrow>
     (\<exists>b resource approval. campus_tool_binding (kind_name (cr_action request)) = Some b \<and>
        cr_capability request = kind_name (cr_action request) \<and>
        selector_for_action (cr_action request) = Inr resource \<and> declared_matches request resource \<and>
        \<not> references_credentials (cr_action request) \<and>
        bw_approval w (sa_session_id authority) (action_id (cr_action request)) = Inr approval \<and>
        approval_serves digest authority (cr_action request) approval \<and>
        authorize_action digest w authority request = policy_decision_on authority b resource (cr_action request) approval)"
  (is "?allow \<longleftrightarrow> ?parts")
proof
  assume allow: ?allow
  let ?a = "cr_action request"
  from allow obtain b where b: "campus_tool_binding (cr_capability request) = Some b" "tb_tool b = kind_name ?a"
    by (auto simp: authorize_action_def Let_def split: option.splits if_splits)
  with binding_named have cap: "cr_capability request = kind_name ?a" by metis
  from allow b obtain resource where r: "selector_for_action ?a = Inr resource"
    by (cases "selector_for_action ?a") (auto simp: authorize_action_def Let_def)
  from allow b r have d: "declared_matches request resource" "\<not> references_credentials ?a"
    by (auto simp: authorize_action_def Let_def split: if_splits)
  from allow b r d obtain approval where
    ap: "bw_approval w (sa_session_id authority) (action_id ?a) = Inr approval"
    by (cases "bw_approval w (sa_session_id authority) (action_id ?a)") (auto simp: authorize_action_def Let_def)
  from allow b r d ap have t: "\<forall>x. approval = Some x \<longrightarrow> approval_is_trusted digest authority ?a x"
    by (auto simp: authorize_action_def Let_def split: option.splits if_splits)
  have whole: "authorize_action digest w authority request = policy_decision_on authority b resource ?a approval"
    using b r d ap t by (auto simp: authorize_action_def Let_def split: option.split)
  have "kind_name ?a \<in> set campus_kinds" using b cap by (simp add: operation_campus)
  with allow whole t have "approval_serves digest authority ?a approval"
    by (simp add: approval_serves_def policy_allows)
  with b(1) cap r d ap whole show ?parts by auto
next
  assume ?parts
  then obtain b resource approval where
    "campus_tool_binding (kind_name (cr_action request)) = Some b"
    "approval_serves digest authority (cr_action request) approval"
    "authorize_action digest w authority request = policy_decision_on authority b resource (cr_action request) approval"
    by blast
  moreover from this(1) have "kind_name (cr_action request) \<in> set campus_kinds" by (simp add: operation_campus)
  ultimately show ?allow by (simp add: approval_serves_def policy_allows)
qed

lemma authorize_action_serves:
  assumes "campus_tool_binding (kind_name (cr_action request)) = Some b"
    "cr_capability request = kind_name (cr_action request)"
    "selector_for_action (cr_action request) = Inr resource" "declared_matches request resource"
    "\<not> references_credentials (cr_action request)"
    "bw_approval w (sa_session_id authority) (action_id (cr_action request)) = Inr approval"
    "approval_serves digest authority (cr_action request) approval"
  shows "authorize_action digest w authority request =
     policy_decision_on authority b resource (cr_action request) approval"
  using assms binding_named [OF assms(1)]
  by (auto simp: authorize_action_def Let_def approval_serves_def split: option.split)

lemma authorize_standing:
  assumes "session_stands w (cr_claims request) authority" "caller_owns authority (cr_caller request)"
  shows "authorize digest w request = authorize_action digest w authority request"
  using assms
  by (simp add: authorize_def session_stands_def caller_refusal_None [THEN iffD2] session_refusal_None [THEN iffD2] Let_def)

lemma authorize_allow_stands:
  assumes "bd_outcome (authorize digest w request) = OutAllow"
  shows "\<exists>authority. session_stands w (cr_claims request) authority \<and> caller_owns authority (cr_caller request)"
proof -
  from assms obtain snapshot where s: "bw_session w (sc_session_id (cr_claims request)) = Inr (Some snapshot)"
    by (cases "bw_session w (sc_session_id (cr_claims request))") (auto simp: authorize_def split: option.splits)
  have c: "caller_refusal (sn_authority snapshot) (cr_caller request) = None"
    using assms by (auto simp: authorize_def s Let_def split: option.splits)
  have r: "session_refusal (bw_now w) snapshot (cr_claims request) = None"
    using assms by (auto simp: authorize_def s c Let_def split: option.splits)
  have "snapshot = \<lparr>sn_authority = sn_authority snapshot, sn_status = AsActive\<rparr>"
    using r by (simp add: session_refusal_None)
  with s c r show ?thesis
    by (intro exI [of _ "sn_authority snapshot"])
      (auto simp: session_stands_def session_refusal_None caller_refusal_None)
qed

lemma authorize_allow:
  "decision_is_allow (authorize digest w request) \<longleftrightarrow> (\<exists>authority resource. authorized_call digest w request authority resource)"
proof
  assume allow: "decision_is_allow (authorize digest w request)"
  then obtain authority where st: "session_stands w (cr_claims request) authority" "caller_owns authority (cr_caller request)"
    using authorize_allow_stands [of digest w request] by (auto simp: decision_is_allow_def)
  from allow have "bd_outcome (authorize_action digest w authority request) = OutAllow"
    by (simp add: decision_is_allow_def authorize_standing [OF st])
  then obtain b resource approval where "campus_tool_binding (kind_name (cr_action request)) = Some b"
    "cr_capability request = kind_name (cr_action request)" "selector_for_action (cr_action request) = Inr resource"
    "declared_matches request resource" "\<not> references_credentials (cr_action request)"
    "bw_approval w (sa_session_id authority) (action_id (cr_action request)) = Inr approval"
    "approval_serves digest authority (cr_action request) approval"
    unfolding authorize_action_allow by blast
  with st have "authorized_call digest w request authority resource"
    by (auto simp: authorized_call_def operation_campus)
  then show "\<exists>authority resource. authorized_call digest w request authority resource" by blast
next
  assume "\<exists>authority resource. authorized_call digest w request authority resource"
  then obtain authority resource where c: "authorized_call digest w request authority resource" by blast
  then obtain b where b: "campus_tool_binding (kind_name (cr_action request)) = Some b"
    by (auto simp: authorized_call_def operation_campus)
  from c obtain approval where
    ap: "bw_approval w (sa_session_id authority) (action_id (cr_action request)) = Inr approval"
    "approval_serves digest authority (cr_action request) approval" by (auto simp: authorized_call_def)
  from c have st: "session_stands w (cr_claims request) authority" "caller_owns authority (cr_caller request)"
    and p: "cr_capability request = kind_name (cr_action request)" "selector_for_action (cr_action request) = Inr resource"
      "declared_matches request resource" "\<not> references_credentials (cr_action request)"
    by (simp_all add: authorized_call_def)
  have "authorize digest w request = policy_decision_on authority b resource (cr_action request) approval"
    unfolding authorize_standing [OF st] by (rule authorize_action_serves [OF b p ap])
  with c ap show "decision_is_allow (authorize digest w request)"
    by (simp add: authorized_call_def decision_is_allow_def policy_allows approval_serves_def)
qed

lemma authorized_parts:
  assumes "decision_is_allow (authorize digest w request)"
  shows "\<exists>authority resource. authorized_call digest w request authority resource \<and>
     bd_authority (authorize digest w request) = Some authority \<and>
     bd_resource (authorize digest w request) = Some resource"
proof -
  from assms obtain authority resource where c: "authorized_call digest w request authority resource"
    by (auto simp: authorize_allow)
  then have st: "session_stands w (cr_claims request) authority" "caller_owns authority (cr_caller request)"
    by (simp_all add: authorized_call_def)
  from assms have "bd_outcome (authorize_action digest w authority request) = OutAllow"
    by (simp add: decision_is_allow_def authorize_standing [OF st])
  then obtain b r approval where "selector_for_action (cr_action request) = Inr r"
    "authorize_action digest w authority request = policy_decision_on authority b r (cr_action request) approval"
    unfolding authorize_action_allow by blast
  with c show ?thesis by (auto simp: authorized_call_def authorize_standing [OF st])
qed

end
