(* ===== verification/CapabilityMemory.thy ===== *)
theory CapabilityMemory
  imports CapabilitySafety
begin

text \<open>
  The contracts of the two traits the broker relies on, an audit sink that keeps what it accepted and
  an authority source from which a withdrawn session stays withdrawn, with what the broker promises
  over any provider that keeps them; and \<open>memory.rs\<close>, the in-memory provider of both.
\<close>

section \<open>Runs of the executor\<close>

lemma not_allowed_no_run:
  "\<not> decision_is_allow (authorize (hs_digest h) w request) \<Longrightarrow> cl_run (broker_execute h sink w request k) = None"
  by (auto simp: broker_execute_def Let_def split: prod.split sum.split option.split)

text \<open>An effect that ran was authorized, after the sink accepted the decision.\<close>

lemma run_parts:
  assumes "cl_run (broker_execute h sink w request k) = Some run"
  obtains authority resource u k1 where "authorized_call (hs_digest h) w request authority resource"
    "bd_authority (authorize (hs_digest h) w request) = Some authority"
    "bd_resource (authorize (hs_digest h) w request) = Some resource"
    "decision_is_allow (authorize (hs_digest h) w request)"
    "sink (decided_event h request (authorize (hs_digest h) w request) (bw_decided_at w)) k = (Inr u, k1)"
    "run = \<lparr>er_effect = authorized_of authority resource, er_action = cr_action request, er_sink = k1\<rparr>"
proof -
  let ?d = "authorize (hs_digest h) w request"
  obtain r1 k1 where s1: "sink (decided_event h request ?d (bw_decided_at w)) k = (r1, k1)" by fastforce
  from assms s1 obtain u where u: "r1 = Inr u" by (cases r1) (auto simp: broker_execute_def Let_def)
  have allow: "decision_is_allow ?d" using assms not_allowed_no_run [of h w request sink k] by auto
  from authorized_parts [OF this] obtain authority resource where
    c: "authorized_call (hs_digest h) w request authority resource"
    "bd_authority ?d = Some authority" "bd_resource ?d = Some resource" by blast
  have "run = \<lparr>er_effect = authorized_of authority resource, er_action = cr_action request, er_sink = k1\<rparr>"
    using assms
    by (cases "sink (finished_event h request ?d (bw_run w (authorized_of authority resource) (cr_action request))
        (bw_finished_at w)) k1"; cases "fst (sink (finished_event h request ?d (bw_run w (authorized_of authority resource)
        (cr_action request)) (bw_finished_at w)) k1)")
      (simp_all add: broker_execute_def Let_def s1 u c(2, 3) allow)
  with that [OF c allow s1 [unfolded u]] show thesis by blast
qed

text \<open>An authorized call runs as soon as the sink accepts its decision.\<close>

lemma authorized_unique:
  assumes "authorized_call digest w request authority resource" "authorized_call digest w request authority' resource'"
  shows "authority' = authority \<and> resource' = resource"
  using assms by (simp add: authorized_call_def session_stands_def)

lemma authorized_runs:
  assumes c: "authorized_call (hs_digest h) w request authority resource"
    and s1: "sink (decided_event h request (authorize (hs_digest h) w request) (bw_decided_at w)) k = (Inr u, k1)"
  shows "cl_run (broker_execute h sink w request k) =
     Some \<lparr>er_effect = authorized_of authority resource, er_action = cr_action request, er_sink = k1\<rparr>"
proof -
  let ?d = "authorize (hs_digest h) w request"
  have allow: "decision_is_allow ?d" using c by (auto simp: authorize_allow)
  from authorized_parts [OF this] authorized_unique [OF c] have
    p: "bd_authority ?d = Some authority" "bd_resource ?d = Some resource" by blast+
  show ?thesis
    by (simp add: broker_execute_def Let_def s1 p allow split: prod.split sum.split)
qed

section \<open>The contract of an audit sink\<close>

locale audit_log =
  fixes record_event :: "'k audit_sink"
    and recorded :: "'k \<Rightarrow> capability_event list"
  assumes accepted: "record_event e k = (Inr u, k') \<Longrightarrow> e \<in> set (recorded k')"
    and kept: "record_event e k = (answer, k') \<Longrightarrow> set (recorded k) \<subseteq> set (recorded k')"
begin

lemma execute_keeps:
  "set (recorded k) \<subseteq> set (recorded (cl_sink (broker_execute h record_event w request k)))"
proof -
  let ?d = "authorize (hs_digest h) w request"
  obtain r1 k1 where s1: "record_event (decided_event h request ?d (bw_decided_at w)) k = (r1, k1)" by fastforce
  have "cl_sink (broker_execute h record_event w request k) = k1 \<or>
      (\<exists>e r. record_event e k1 = (r, cl_sink (broker_execute h record_event w request k)))"
    by (auto simp: broker_execute_def Let_def s1 split: prod.split sum.split option.split bool.split)
  with kept [OF s1] kept show ?thesis by (metis subset_trans)
qed

lemma run_recorded:
  assumes "cl_run (broker_execute h record_event w request k) = Some run"
  shows "decided_event h request (authorize (hs_digest h) w request) (bw_decided_at w) \<in> set (recorded (er_sink run)) \<and>
     set (recorded (er_sink run)) \<subseteq> set (recorded (cl_sink (broker_execute h record_event w request k)))"
proof (rule run_parts [OF assms])
  fix authority resource u k1
  let ?d = "authorize (hs_digest h) w request"
  assume c: "bd_authority ?d = Some authority" "bd_resource ?d = Some resource" "decision_is_allow ?d"
    and s1: "record_event (decided_event h request ?d (bw_decided_at w)) k = (Inr u, k1)"
    and run: "run = \<lparr>er_effect = authorized_of authority resource, er_action = cr_action request, er_sink = k1\<rparr>"
  let ?result = "bw_run w (authorized_of authority resource) (cr_action request)"
  obtain r2 k2 where s2: "record_event (finished_event h request ?d ?result (bw_finished_at w)) k1 = (r2, k2)"
    by fastforce
  have "cl_sink (broker_execute h record_event w request k) = k2"
    by (cases r2) (simp_all add: broker_execute_def Let_def s1 c s2)
  with accepted [OF s1] kept [OF s2] show ?thesis by (simp add: run)
qed

text \<open>An answer with a result is one whose evidence is in the sink.\<close>

lemma result_recorded:
  assumes "cl_answer (broker_execute h record_event w request k) = Inr oc" "oc_result oc = Some result"
  shows "finished_event h request (oc_decision oc) result (bw_finished_at w)
     \<in> set (recorded (cl_sink (broker_execute h record_event w request k)))"
proof -
  let ?d = "authorize (hs_digest h) w request"
  obtain r1 k1 where s1: "record_event (decided_event h request ?d (bw_decided_at w)) k = (r1, k1)" by fastforce
  from assms s1 obtain u where u: "r1 = Inr u" by (cases r1) (auto simp: broker_execute_def Let_def)
  have allow: "decision_is_allow ?d"
    using assms by (rule_tac ccontr) (auto simp: broker_execute_def Let_def s1 u split: option.splits)
  from authorized_parts [OF allow] obtain authority resource where
    c: "bd_authority ?d = Some authority" "bd_resource ?d = Some resource" by blast
  let ?result = "bw_run w (authorized_of authority resource) (cr_action request)"
  obtain r2 k2 where s2: "record_event (finished_event h request ?d ?result (bw_finished_at w)) k1 = (r2, k2)"
    by fastforce
  from assms obtain u' where u': "r2 = Inr u'"
    by (cases r2) (auto simp: broker_execute_def Let_def s1 u c allow s2)
  with assms accepted [OF s2 [unfolded u']] show ?thesis
    by (auto simp: broker_execute_def Let_def s1 u c allow s2)
qed

end

section \<open>The contract of an authority source\<close>

text \<open>
  \<open>session_of c s sid\<close> is what the source answers from its state \<open>s\<close> in the environment \<open>c\<close> (clock,
  policies); \<open>later sid s s'\<close> are the states the source can reach without admitting \<open>sid\<close> again.
\<close>

locale revocable_authority =
  fixes session_of :: "'c \<Rightarrow> 's \<Rightarrow> string \<Rightarrow> (string, authority_snapshot option) res"
    and sound :: "'s \<Rightarrow> bool"
    and withdrawn :: "'s \<Rightarrow> string \<Rightarrow> bool"
    and later :: "string \<Rightarrow> 's \<Rightarrow> 's \<Rightarrow> bool"
  assumes named: "sound s \<Longrightarrow> session_of c s sid = Inr (Some snapshot) \<Longrightarrow> sa_session_id (sn_authority snapshot) = sid"
    and withdrawn_inactive:
      "withdrawn s sid \<Longrightarrow> session_of c s sid = Inr (Some snapshot) \<Longrightarrow> sn_status snapshot \<noteq> AsActive"
    and withdrawn_later: "sound s \<Longrightarrow> withdrawn s sid \<Longrightarrow> later sid s s' \<Longrightarrow> withdrawn s' sid"
begin

lemma withdrawn_not_standing:
  assumes "sound s" "withdrawn s (sc_session_id claims)" "later (sc_session_id claims) s s'"
    "bw_session w = session_of c s'"
  shows "\<not> session_stands w claims authority"
proof
  assume "session_stands w claims authority"
  then have "session_of c s' (sc_session_id claims) = Inr (Some \<lparr>sn_authority = authority, sn_status = AsActive\<rparr>)"
    by (simp add: session_stands_def assms(4))
  with withdrawn_inactive [OF withdrawn_later [OF assms(1-3)]] show False by fastforce
qed

lemma withdrawn_denied:
  assumes "sound s" "withdrawn s (sc_session_id (cr_claims request))" "later (sc_session_id (cr_claims request)) s s'"
    "bw_session w = session_of c s'"
  shows "\<not> decision_is_allow (authorize digest w request)"
  using withdrawn_not_standing [OF assms] by (auto simp: authorize_allow authorized_call_def)

lemma claims_name_session:
  assumes "sound s" "bw_session w = session_of c s" "session_stands w claims authority"
  shows "sa_session_id authority = sc_session_id claims"
proof -
  from assms(2, 3) have "session_of c s (sc_session_id claims) = Inr (Some \<lparr>sn_authority = authority, sn_status = AsActive\<rparr>)"
    by (simp add: session_stands_def)
  from named [OF assms(1) this] show ?thesis by simp
qed

end

section \<open>The in-memory providers\<close>

record memory_source =
  my_sessions :: "string \<rightharpoonup> authority_snapshot"
  my_approvals :: "string \<times> string \<rightharpoonup> trusted_approval"
  my_unavailable :: bool

definition memory_insert :: "session_authority \<Rightarrow> memory_source \<Rightarrow> memory_source" where
  "memory_insert authority s =
     s\<lparr>my_sessions := (my_sessions s)(sa_session_id authority \<mapsto> \<lparr>sn_authority = authority, sn_status = AsActive\<rparr>)\<rparr>"

definition set_status :: "string \<Rightarrow> authority_status \<Rightarrow> memory_source \<Rightarrow> memory_source" where
  "set_status sid status s =
     (case my_sessions s sid of
        Some snapshot \<Rightarrow> s\<lparr>my_sessions := (my_sessions s)(sid \<mapsto> snapshot\<lparr>sn_status := status\<rparr>)\<rparr>
      | None \<Rightarrow> s)"

definition memory_revoke :: "string \<Rightarrow> memory_source \<Rightarrow> memory_source" where
  "memory_revoke sid s = set_status sid AsRevoked s"

definition record_approval :: "string \<Rightarrow> trusted_approval \<Rightarrow> memory_source \<Rightarrow> memory_source" where
  "record_approval sid ap s = s\<lparr>my_approvals := (my_approvals s)((sid, ca_action_id (ta_approval ap)) \<mapsto> ap)\<rparr>"

definition set_unavailable :: "bool \<Rightarrow> memory_source \<Rightarrow> memory_source" where
  "set_unavailable b s = s\<lparr>my_unavailable := b\<rparr>"

definition check_available :: "memory_source \<Rightarrow> (string, unit) res" where
  "check_available s = (if my_unavailable s then Inl ''in-memory source set unavailable'' else Inr ())"

definition memory_session :: "memory_source \<Rightarrow> string \<Rightarrow> (string, authority_snapshot option) res" where
  "memory_session s sid = res_bind (check_available s) (\<lambda>_. Inr (my_sessions s sid))"

definition memory_approval :: "memory_source \<Rightarrow> string \<Rightarrow> string \<Rightarrow> (string, trusted_approval option) res" where
  "memory_approval s sid aid = res_bind (check_available s) (\<lambda>_. Inr (my_approvals s (sid, aid)))"

record memory_sink =
  mk_events :: "capability_event list"
  mk_failing :: bool

definition set_failing :: "bool \<Rightarrow> memory_sink \<Rightarrow> memory_sink" where
  "set_failing b k = k\<lparr>mk_failing := b\<rparr>"

definition memory_record :: "memory_sink audit_sink" where
  "memory_record e k =
     (if mk_failing k then (Inl ''in-memory sink set failing'', k)
      else (Inr (), k\<lparr>mk_events := mk_events k @ [e]\<rparr>))"

interpretation memory_log: audit_log memory_record mk_events
  by unfold_locales (auto simp: memory_record_def split: if_splits)

text \<open>The calls of the source other than the two queries, and the histories without a new admission.\<close>

datatype memory_call =
    McInsert session_authority
  | McSetStatus string authority_status
  | McApproval string trusted_approval
  | McUnavailable bool

fun memory_apply :: "memory_call \<Rightarrow> memory_source \<Rightarrow> memory_source" where
  "memory_apply (McInsert authority) s = memory_insert authority s"
| "memory_apply (McSetStatus sid status) s = set_status sid status s"
| "memory_apply (McApproval sid ap) s = record_approval sid ap s"
| "memory_apply (McUnavailable b) s = set_unavailable b s"

fun admits :: "string \<Rightarrow> memory_call \<Rightarrow> bool" where
  "admits sid (McInsert authority) = (sa_session_id authority = sid)"
| "admits sid (McSetStatus sid' status) = (sid' = sid \<and> status = AsActive)"
| "admits sid _ = False"

definition memory_later :: "string \<Rightarrow> memory_source \<Rightarrow> memory_source \<Rightarrow> bool" where
  "memory_later sid s s' \<longleftrightarrow> (\<exists>calls. list_all (\<lambda>c. \<not> admits sid c) calls \<and> s' = fold memory_apply calls s)"

definition memory_keyed :: "memory_source \<Rightarrow> bool" where
  "memory_keyed s \<longleftrightarrow> (\<forall>sid snapshot. my_sessions s sid = Some snapshot \<longrightarrow> sa_session_id (sn_authority snapshot) = sid)"

definition memory_withdrawn :: "memory_source \<Rightarrow> string \<Rightarrow> bool" where
  "memory_withdrawn s sid \<longleftrightarrow> (\<forall>snapshot. my_sessions s sid = Some snapshot \<longrightarrow> sn_status snapshot \<noteq> AsActive)"

lemma memory_apply_keyed: "memory_keyed s \<Longrightarrow> memory_keyed (memory_apply c s)"
  by (cases c) (auto simp: memory_keyed_def memory_insert_def set_status_def record_approval_def set_unavailable_def
      split: option.split)

lemma memory_apply_withdrawn:
  "memory_withdrawn s sid \<Longrightarrow> \<not> admits sid c \<Longrightarrow> memory_withdrawn (memory_apply c s) sid"
  by (cases c) (auto simp: memory_withdrawn_def memory_insert_def set_status_def record_approval_def set_unavailable_def
      split: option.split)

lemma memory_fold_withdrawn:
  "memory_withdrawn s sid \<Longrightarrow> list_all (\<lambda>c. \<not> admits sid c) calls \<Longrightarrow> memory_withdrawn (fold memory_apply calls s) sid"
  by (induction calls arbitrary: s) (auto simp: memory_apply_withdrawn)

lemma memory_session_Some: "memory_session s sid = Inr (Some snapshot) \<Longrightarrow> my_sessions s sid = Some snapshot"
  by (auto simp: memory_session_def)

interpretation memory_authority:
  revocable_authority "\<lambda>c :: unit. memory_session" memory_keyed memory_withdrawn memory_later
proof
  show "memory_keyed s \<Longrightarrow> memory_session s sid = Inr (Some snapshot) \<Longrightarrow> sa_session_id (sn_authority snapshot) = sid"
    for s sid snapshot by (simp add: memory_keyed_def memory_session_Some)
  show "memory_withdrawn s sid \<Longrightarrow> memory_session s sid = Inr (Some snapshot) \<Longrightarrow> sn_status snapshot \<noteq> AsActive"
    for s sid snapshot by (simp add: memory_withdrawn_def memory_session_Some)
  show "memory_withdrawn s sid \<Longrightarrow> memory_later sid s s' \<Longrightarrow> memory_withdrawn s' sid" for s sid s'
    by (auto simp: memory_later_def memory_fold_withdrawn)
qed

lemma revoke_withdraws: "memory_withdrawn (memory_revoke sid s) sid"
  by (simp add: memory_withdrawn_def memory_revoke_def set_status_def split: option.split)

end
