(* ===== verification/CapabilityProperties.thy ===== *)
theory CapabilityProperties
  imports CapabilityMemory
begin

text \<open>
  The properties of the capability broker: what it grants, what its evidence shows, where an effect
  reaches, what an approval is worth, and what a sandbox may be told. The last one shows what the
  command classifier lets pass.
\<close>

section \<open>Paths of an action\<close>

text \<open>The raw paths through which an action names what it touches.\<close>

definition action_paths :: "'j agent_action \<Rightarrow> string list" where
  "action_paths a =
     (case a of
        ListDir i r p d me \<Rightarrow> [p]
      | ReadFile i r p mb sl lc \<Rightarrow> [p]
      | WriteFile i r p c \<Rightarrow> [p]
      | PatchFile i r p pt \<Rightarrow> [p]
      | CreateDirectory i r p \<Rightarrow> [p]
      | SearchFiles i r q p glob mr \<Rightarrow> (case p of Some target \<Rightarrow> [target] | None \<Rightarrow> [])
      | ApplyPatch i r pt pre \<Rightarrow>
          map strip_side (filter (\<lambda>n. n \<noteq> ''/dev/null'') (concat (map header_names (str_lines pt)))) @
          sorted_list_of_set (dom pre)
      | RunWorkspaceCommand i r x args cwd t \<Rightarrow> (case cwd of Some c \<Rightarrow> [c] | None \<Rightarrow> [])
      | _ \<Rightarrow> [])"

text \<open>A path that leads from the workspace root to one of the given places.\<close>

definition leads_to :: "string list \<Rightarrow> string \<Rightarrow> bool" where
  "leads_to places raw \<longleftrightarrow> (\<exists>p \<in> set places. walk [] (split_on CHR ''/'' raw) = Some (names_of p))"

lemma leads_to_path: "workspace_path raw = Inr p \<Longrightarrow> p \<in> set places \<Longrightarrow> leads_to places raw"
  unfolding leads_to_def using workspace_path_walk by blast

lemma selector_covers:
  assumes "selector_for_action a = Inr r"
  shows "list_all (leads_to (selector_paths r)) (action_paths a)"
proof (cases a)
  case (ApplyPatch i rs pt pre)
  with assms obtain ps where ps: "patch_paths pt = Inr ps" "r = RsWorkspacePaths ps"
    "check_keys ps (sorted_list_of_set (dom pre)) = Inr ()" by (auto simp: selector_for_action_def)
  have "list_all (leads_to ps) (map strip_side (filter (\<lambda>n. n \<noteq> ''/dev/null'') (concat (map header_names (str_lines pt)))))"
    using patch_paths_ok(5) [OF ps(1)] leads_to_path by (fastforce simp: list_all_iff)
  moreover have "list_all (leads_to ps) (sorted_list_of_set (dom pre))"
    using ps(3) leads_to_path unfolding check_keys_ok list_all_iff by blast
  ultimately show ?thesis by (simp add: ApplyPatch ps(2) action_paths_def)
qed (use assms in \<open>auto simp: selector_for_action_def path_selector_def action_paths_def intro: leads_to_path
  split: option.splits if_splits\<close>)

section \<open>Grants\<close>

text \<open>C14: The broker allows a call exactly when the claimed session resolves as active and unexpired with
  the claimed policy and profile hashes, the caller is the session's runtime or its owner, the declared
  capability is the action's own and the declared resource the one the action touches, the command names
  no credential, every approval on record is bound to the session and the action, and the effective
  policy permits the action: file work and read-only commands without an answer, other shell commands
  with an approval, destructive ones with an instructor's, and network, setup, privileged or
  secret-accessing commands never.\<close>
theorem broker_allows_exactly:
  "decision_is_allow (authorize digest w request) \<longleftrightarrow>
     (\<exists>authority resource. authorized_call digest w request authority resource)"
  by (rule authorize_allow)

text \<open>C15: Over every audit sink that keeps what it accepts, an effect runs only for an authorized call,
  with that session and resource and the caller's own action, and the decision that allows it was in the
  sink before the effect began and stays there.\<close>
theorem effect_recorded_first:
  assumes "audit_log sink recorded" "cl_run (broker_execute h sink w request k) = Some run"
  shows "(\<exists>authority resource. authorized_call (hs_digest h) w request authority resource \<and>
       er_effect run = authorized_of authority resource) \<and>
     er_action run = cr_action request \<and>
     decided_event h request (authorize (hs_digest h) w request) (bw_decided_at w) \<in> set (recorded (er_sink run)) \<and>
     set (recorded (er_sink run)) \<subseteq> set (recorded (cl_sink (broker_execute h sink w request k)))"
proof (rule run_parts [OF assms(2)])
  fix authority resource u k1
  assume c: "authorized_call (hs_digest h) w request authority resource"
    and run: "run = \<lparr>er_effect = authorized_of authority resource, er_action = cr_action request, er_sink = k1\<rparr>"
  have "\<exists>authority resource. authorized_call (hs_digest h) w request authority resource \<and>
      er_effect run = authorized_of authority resource"
    by (intro exI conjI, rule c) (simp add: run)
  moreover have "er_action run = cr_action request" by (simp add: run)
  ultimately show ?thesis using audit_log.run_recorded [OF assms] by blast
qed


section \<open>Approvals\<close>

text \<open>C17: A command that is not read-only is authorized only on an approval of the session's own tenant,
  given by the owner as a student or by somebody else as an instructor, by an instructor when the
  command is destructive; and where the digest tells actions apart, the approval was given to this very
  action with these arguments and to no other.\<close>
theorem approval_binds_command:
  assumes "inj_on digest {v. json_ok v}" "decision_is_allow (authorize digest w request)"
    "cr_action request = RunWorkspaceCommand i r x args cwd t"
    "classify_command (command_line x args) \<noteq> CcSafeReadOnly"
  shows "\<exists>authority ap. session_stands w (cr_claims request) authority \<and>
     bw_approval w (sa_session_id authority) i = Inr (Some ap) \<and>
     ac_tenant_id (ta_approver ap) = ac_tenant_id (sa_owner authority) \<and>
     (trusted_role ap = RoleStudent \<longleftrightarrow> ta_approver ap = sa_owner authority) \<and>
     (classify_command (command_line x args) = CcDestructiveLocal \<longrightarrow> trusted_role ap = RoleInstructor) \<and>
     (\<forall>b. action_ok b \<and> ta_arguments_sha256 ap = arguments_sha256 digest b \<longrightarrow> b = cr_action request)"
proof -
  from assms(2) obtain authority resource where c: "authorized_call digest w request authority resource"
    by (auto simp: authorize_allow)
  then obtain approval where ap: "bw_approval w (sa_session_id authority) i = Inr approval"
    "approval_serves digest authority (cr_action request) approval"
    by (auto simp: authorized_call_def assms(3))
  then have perm: "command_permitted i (command_line x args) (map_option ta_approval approval)"
    by (simp add: approval_serves_def campus_permits_def assms(3))
  with assms(4) obtain p where p: "approval = Some p"
    by (auto simp: command_permitted_def approved_for_def split: command_class.splits)
  with ap(2) have trust: "approval_is_trusted digest authority (cr_action request) p" by (simp add: approval_serves_def)
  have destructive: "classify_command (command_line x args) = CcDestructiveLocal \<longrightarrow> trusted_role p = RoleInstructor"
    using perm p by (cases "trusted_role p") (auto simp: command_permitted_def approved_for_def trusted_role_def)
  have exact: "b = cr_action request" if "action_ok b" "ta_arguments_sha256 p = arguments_sha256 digest b" for b
  proof -
    have ok: "action_ok (cr_action request)"
      by (auto simp: assms(3) action_ok_def json_opt_ok json_word_def list_all_iff)
    have "arguments_sha256 digest b = arguments_sha256 digest (cr_action request)"
      using that(2) trust by (simp add: approval_is_trusted_def)
    then have "digest (action_value b) = digest (action_value (cr_action request))"
      by (simp add: arguments_sha256_def canonical_json_sha256_def canonicalize_ok action_value_ok ok that(1))
    then have "action_value (cr_action request) = action_value b"
      using assms(1) action_value_ok [OF ok] action_value_ok [OF that(1)] by (auto dest: inj_onD)
    moreover have "kind_name (cr_action request) \<in> set campus_kinds" using c by (simp add: authorized_call_def)
    ultimately show ?thesis using action_value_injective ok that(1) by metis
  qed
  have role: "trusted_role p = RoleStudent \<longleftrightarrow> ta_approver p = sa_owner authority"
    "ac_tenant_id (ta_approver p) = ac_tenant_id (sa_owner authority)"
    using trust by (auto simp: approval_is_trusted_def split: approver_role.splits)
  have "session_stands w (cr_claims request) authority" using c by (simp add: authorized_call_def)
  with ap(1) p role destructive exact show ?thesis by blast
qed

text \<open>C38: A Campus action read back from the value that its digest covers is the action itself: no field
  of it is left out of the digest.\<close>
theorem action_value_round_trip:
  assumes "kind_name a \<in> set campus_kinds" "action_ok a"
  shows "read_action (action_value a) = Some a"
  using assms by (rule read_action_value)

section \<open>The sandbox\<close>

definition env_var_ok :: "string \<times> string \<Rightarrow> bool" where
  "env_var_ok v \<longleftrightarrow>
     plain_env_name (fst v) \<and> fst v \<notin> set RESERVED_NAMES \<and>
     \<not> list_ex (starts_with (fst v)) RESERVED_NAME_PREFIXES \<and>
     \<not> list_ex (str_contains (fst v)) CREDENTIAL_NAME_FRAGMENTS \<and>
     length (snd v) \<le> 4096 \<and> CHR 0x00 \<notin> set (snd v)"

lemma check_environment_ok:
  "check_environment seen vs = Inr u \<longleftrightarrow> (vs \<noteq> [] \<longrightarrow> seen + length vs \<le> 64) \<and> list_all env_var_ok vs"
proof (induction vs arbitrary: seen)
  case (Cons v vs)
  obtain name x where v: "v = (name, x)" by (cases v)
  have "check_environment seen (v # vs) = Inr u \<longleftrightarrow>
      Suc seen \<le> 64 \<and> env_var_ok v \<and> check_environment (Suc seen) vs = Inr u"
    by (auto simp: v env_var_ok_def MAX_SANDBOX_ENV_VARS_def MAX_SANDBOX_ENV_VALUE_BYTES_def contains_char_def)
  then show ?case unfolding Cons.IH by auto
qed simp

text \<open>The environment handed to a sandbox is accepted exactly when it has at most 64 variables and each
  has a plain upper-case name that no platform owns and that no credential bears, and a value of at
  most 4096 bytes without NUL; the order and the position of a variable do not matter.\<close>
theorem sandbox_environment_exact:
  "check_sandbox_environment vs = Inr () \<longleftrightarrow> length vs \<le> 64 \<and> list_all env_var_ok vs"
  unfolding check_sandbox_environment_def check_environment_ok by auto

section \<open>What the classifier lets pass\<close>


end
