(* ===== verification/ContextPack.thy ===== *)
theory ContextPack
  imports ModelProtocol
begin

text \<open>
  The packing of a transcript into the model's context: \<open>agent/context.rs\<close>. Lengths are those of
  UTF-8 bytes; the token estimates are \<open>u32\<close>, so a character count is cut to 32 bits after the
  division.
\<close>

section \<open>Budgets and estimates\<close>

record context_budget =
  cb_max_input_tokens :: nat
  cb_recent_message_tokens :: nat
  cb_max_tool_result_tokens :: nat
  cb_reserved_output_tokens :: nat
  cb_characters_per_token :: nat

definition CHECKPOINT_PREFIX :: string where
  "CHECKPOINT_PREFIX = ''Controller checkpoint:'' @ [CHR 0x0A]"

record context_pack =
  cp_messages :: "model_message list"
  cp_original_message_count :: nat
  cp_compacted_exchanges :: nat
  cp_truncated_tool_results :: nat
  cp_estimated_input_tokens :: nat

datatype context_error = MandatoryContextExceedsBudget

definition context_error_str :: string where
  "context_error_str = ''context_budget_exceeded''"

definition u32_add :: "nat \<Rightarrow> nat \<Rightarrow> nat" where
  "u32_add a b = min (2 ^ 32 - 1) (a + b)"

definition div_ceil :: "nat \<Rightarrow> nat \<Rightarrow> nat" where
  "div_ceil n c = (n + c - 1) div c"

definition tokens_of :: "context_budget \<Rightarrow> nat \<Rightarrow> nat" where
  "tokens_of b characters = div_ceil characters (max (cb_characters_per_token b) 1) mod 2 ^ 32"

definition message_characters :: "codec \<Rightarrow> model_message \<Rightarrow> nat" where
  "message_characters cd m =
     length (mm_content m) +
     sum_list (map (\<lambda>c. length (mc_arguments c) + length (mc_name c) + length (mc_id c)) (mm_tool_calls m)) +
     (case mm_reasoning m of Some r \<Rightarrow> length (cd_print cd r) | None \<Rightarrow> 0)"

definition characters :: "codec \<Rightarrow> model_message list \<Rightarrow> nat" where
  "characters cd ms = sum_list (map (message_characters cd) ms)"

definition estimate_tokens :: "codec \<Rightarrow> model_message list \<Rightarrow> context_budget \<Rightarrow> nat" where
  "estimate_tokens cd ms b = tokens_of b (characters cd ms)"

definition estimate_request_tokens :: "codec \<Rightarrow> model_message list \<Rightarrow> tool_spec list \<Rightarrow> context_budget \<Rightarrow> nat" where
  "estimate_request_tokens cd ms tools b =
     u32_add (estimate_tokens cd ms b) (tokens_of b (length (cd_specs cd tools)))"

definition checkpoint_characters :: "string list \<Rightarrow> nat" where
  "checkpoint_characters entries =
     (if entries = [] then 0
      else length CHECKPOINT_PREFIX + sum_list (map length entries) + (length entries - 1))"

definition estimate_tokens_with_checkpoint ::
    "codec \<Rightarrow> model_message list \<Rightarrow> string list \<Rightarrow> context_budget \<Rightarrow> nat" where
  "estimate_tokens_with_checkpoint cd ms entries b =
     u32_add (estimate_tokens cd ms b) (tokens_of b (checkpoint_characters entries))"

section \<open>Compaction\<close>

definition is_char_boundary :: "string \<Rightarrow> nat \<Rightarrow> bool" where
  "is_char_boundary s i \<longleftrightarrow>
     i = 0 \<or> i = length s \<or> i < length s \<and> \<not> (128 \<le> byte (s ! i) \<and> byte (s ! i) < 192)"

text \<open>The last character boundary at or before an index.\<close>

fun floor_boundary :: "string \<Rightarrow> nat \<Rightarrow> nat" where
  "floor_boundary s 0 = 0"
| "floor_boundary s (Suc i) = (if is_char_boundary s (Suc i) then Suc i else floor_boundary s i)"

definition checkpoint_detail :: "codec \<Rightarrow> model_message \<Rightarrow> string list" where
  "checkpoint_detail cd m =
     (if mm_role m = MrAssistant then map (\<lambda>c. ''tool='' @ mc_name c) (mm_tool_calls m) else []) @
     (if mm_role m = MrTool then
        (case cd_parse_result cd (mm_content m) of
           None \<Rightarrow> []
         | Some r \<Rightarrow>
             let action = (case get_str (tr_content r) ''action'' of Some a \<Rightarrow> a | None \<Rightarrow> ''unknown'');
                 path = (case get_str (tr_content r) ''path'' of Some p \<Rightarrow> p | None \<Rightarrow> []);
                 ex = (case json_get (tr_content r) ''exit_code'' of Some v \<Rightarrow> cd_print cd v | None \<Rightarrow> [])
             in [''result='' @ status_debug (tr_status r) @ '' action='' @ action @ '' path='' @ path @ '' exit='' @ ex])
      else [])"

definition checkpoint_entry :: "codec \<Rightarrow> model_message list \<Rightarrow> string" where
  "checkpoint_entry cd ms =
     (let details = join '' '' (concat (map (checkpoint_detail cd) ms));
          entry = (if details = [] then ''exchange_without_tool_evidence'' else details)
      in take (floor_boundary entry (min (length entry) 512)) entry)"

definition oldest_exchange_range :: "model_message list \<Rightarrow> nat \<Rightarrow> (nat \<times> nat) option" where
  "oldest_exchange_range ms start =
     (if length ms \<le> start then None
      else if mm_role (ms ! start) = MrAssistant \<and> mm_tool_calls (ms ! start) \<noteq> []
      then Some (start, start + 1 + length (takeWhile (\<lambda>m. mm_role m = MrTool) (drop (start + 1) ms)))
      else Some (start, start + 1))"

definition compacted_keys :: "string list" where
  "compacted_keys = [''action'', ''path'', ''cmd'', ''exit_code'', ''truncated_stdout'', ''truncated_stderr'', ''error_kind'']"

definition compact_value :: "tool_result \<Rightarrow> json" where
  "compact_value r =
     foldl (\<lambda>v k. case json_get (tr_content r) k of Some x \<Rightarrow> json_insert k x v | None \<Rightarrow> v)
       (JObject [(''content_compacted'', JBool True), (''status'', JString (status_str (tr_status r))),
                 (''summary'', JString (tr_summary r))])
       compacted_keys"

definition compact_fallback :: string where
  "compact_fallback =
     ''{\"status\":\"error\",\"summary\":\"tool output compacted\",\"content_compacted\":true}''"

definition compact_tool_result :: "codec \<Rightarrow> string \<Rightarrow> nat \<Rightarrow> string" where
  "compact_tool_result cd content max_chars =
     (let summary = (case cd_parse_result cd content of
            Some r \<Rightarrow> cd_print cd (compact_value r) | None \<Rightarrow> compact_fallback)
      in if length summary \<le> max_chars then summary else take (floor_boundary summary max_chars) summary)"

section \<open>Packing\<close>

definition is_history :: "model_message \<Rightarrow> bool" where
  "is_history m \<longleftrightarrow> mm_role m \<in> {MrAssistant, MrTool}"

definition mandatory_end :: "model_message list \<Rightarrow> nat" where
  "mandatory_end ms = length (takeWhile (\<lambda>m. \<not> is_history m) ms)"

definition tool_character_limit :: "context_budget \<Rightarrow> nat" where
  "tool_character_limit b = cb_max_tool_result_tokens b * max (cb_characters_per_token b) 1"

definition oversized :: "context_budget \<Rightarrow> model_message \<Rightarrow> bool" where
  "oversized b m \<longleftrightarrow> mm_role m = MrTool \<and> tool_character_limit b < length (mm_content m)"

definition compact_message :: "codec \<Rightarrow> context_budget \<Rightarrow> model_message \<Rightarrow> model_message" where
  "compact_message cd b m =
     (if oversized b m
      then m\<lparr>mm_content := compact_tool_result cd (mm_content m) (tool_character_limit b)\<rparr> else m)"

definition effective_input_budget :: "context_budget \<Rightarrow> nat" where
  "effective_input_budget b = cb_max_input_tokens b - cb_reserved_output_tokens b"

function pack_loop ::
    "codec \<Rightarrow> context_budget \<Rightarrow> nat \<Rightarrow> model_message list \<Rightarrow> string list \<Rightarrow> nat
       \<Rightarrow> (context_error, model_message list \<times> string list \<times> nat) res" where
  "pack_loop cd b mandatory packed entries n =
     (if cb_recent_message_tokens b < estimate_tokens cd (drop mandatory packed) b \<or>
         effective_input_budget b < estimate_tokens_with_checkpoint cd packed entries b
      then (case oldest_exchange_range packed mandatory of
              None \<Rightarrow> Inl MandatoryContextExceedsBudget
            | Some (start, stop) \<Rightarrow>
                pack_loop cd b mandatory (take start packed @ drop stop packed)
                  (entries @ [checkpoint_entry cd (take (stop - start) (drop start packed))]) (n + 1))
      else Inr (packed, entries, n))"
  by pat_completeness auto
termination
  by (relation "measure (\<lambda>(cd, b, mandatory, packed, entries, n). length packed)")
    (auto simp: oldest_exchange_range_def split: if_splits)

definition pack_messages ::
    "codec \<Rightarrow> model_message list \<Rightarrow> context_budget \<Rightarrow> (context_error, context_pack) res" where
  "pack_messages cd ms b =
     (let mandatory = mandatory_end ms;
          history = drop mandatory ms;
          compacted = take mandatory ms @ map (compact_message cd b) history
      in if effective_input_budget b < estimate_tokens cd (take mandatory compacted) b
         then Inl MandatoryContextExceedsBudget
         else res_bind (pack_loop cd b mandatory compacted [] 0) (\<lambda>(packed, entries, n).
           let out = (if entries = [] then packed
                  else take mandatory packed @
                    [system_message (CHECKPOINT_PREFIX @ join [CHR 0x0A] entries)] @ drop mandatory packed)
           in Inr \<lparr>cp_messages = out, cp_original_message_count = length ms, cp_compacted_exchanges = n,
                   cp_truncated_tool_results = length (filter (oversized b) history),
                   cp_estimated_input_tokens = estimate_tokens cd out b\<rparr>))"

declare pack_loop.simps [simp del]

section \<open>What packing keeps\<close>

lemma mandatory_end_le: "mandatory_end ms \<le> length ms"
  by (simp add: mandatory_end_def length_takeWhile_le)

lemma oldest_exchange_rangeD:
  assumes "oldest_exchange_range ms start = Some (a, z)"
  shows "a = start" "start < z" "z \<le> length ms"
  using assms length_takeWhile_le [of "\<lambda>m. mm_role m = MrTool" "drop (start + 1) ms"]
  by (auto simp: oldest_exchange_range_def split: if_splits)

text \<open>The history is a list of exchanges: a tool message stands only after the assistant message
  whose calls it answers.\<close>

fun answered :: "bool \<Rightarrow> model_message list \<Rightarrow> bool" where
  "answered calls [] \<longleftrightarrow> True"
| "answered calls (m # ms) \<longleftrightarrow>
     (mm_role m = MrTool \<longrightarrow> calls) \<and>
     answered (mm_role m = MrTool \<or> mm_role m = MrAssistant \<and> mm_tool_calls m \<noteq> []) ms"

lemma answered_mono: "answered False ms \<Longrightarrow> answered c ms"
  by (cases ms) auto

lemma answered_tools: "answered c ms \<Longrightarrow> answered False (dropWhile (\<lambda>m. mm_role m = MrTool) ms)"
  by (induction ms arbitrary: c) auto

lemma answered_drop_exchange:
  assumes "oldest_exchange_range ms start = Some (a, z)" "answered False (drop start ms)"
  shows "answered False (drop z ms)"
proof -
  from assms(1) have s: "start < length ms" by (auto simp: oldest_exchange_range_def split: if_splits)
  let ?m = "ms ! start" and ?rest = "drop (start + 1) ms"
  have d: "drop start ms = ?m # ?rest" using s by (simp add: Cons_nth_drop_Suc)
  have a: "mm_role ?m \<noteq> MrTool" "answered (mm_role ?m = MrAssistant \<and> mm_tool_calls ?m \<noteq> []) ?rest"
    using assms(2) by (auto simp: d)
  show ?thesis
  proof (cases "mm_role ?m = MrAssistant \<and> mm_tool_calls ?m \<noteq> []")
    case True
    then have "z = start + 1 + length (takeWhile (\<lambda>m. mm_role m = MrTool) ?rest)"
      using assms(1) by (auto simp: oldest_exchange_range_def split: if_splits)
    then have "drop z ms = dropWhile (\<lambda>m. mm_role m = MrTool) ?rest"
      by (simp add: dropWhile_eq_drop add.commute)
    with answered_tools [OF a(2)] show ?thesis by simp
  next
    case False
    then have "z = start + 1" using assms(1) s by (auto simp: oldest_exchange_range_def)
    with a(2) False show ?thesis by simp
  qed
qed

lemma pack_loop_keeps:
  assumes "pack_loop cd b mandatory packed entries n = Inr (out, entries', n')" "mandatory \<le> length packed"
  shows "\<exists>k. out = take mandatory packed @ drop k packed \<and> mandatory \<le> k \<and> k \<le> length packed \<and>
    (entries' = [] \<longrightarrow> k = mandatory \<and> entries = []) \<and>
    (answered False (drop mandatory packed) \<longrightarrow> answered False (drop k packed)) \<and>
    estimate_tokens cd (drop mandatory out) b \<le> cb_recent_message_tokens b \<and>
    estimate_tokens_with_checkpoint cd out entries' b \<le> effective_input_budget b"
  using assms
proof (induction cd b mandatory packed entries n rule: pack_loop.induct)
  case (1 cd b mandatory packed entries n)
  show ?case
  proof (cases "cb_recent_message_tokens b < estimate_tokens cd (drop mandatory packed) b \<or>
         effective_input_budget b < estimate_tokens_with_checkpoint cd packed entries b")
    case False
    with "1.prems" have "out = packed" "entries' = entries" by (simp_all add: pack_loop.simps [of cd b mandatory packed])
    with False "1.prems"(2) show ?thesis by (intro exI [of _ mandatory]) auto
  next
    case True
    with "1.prems"(1) obtain start stop where r0: "oldest_exchange_range packed mandatory = Some (start, stop)"
      by (cases "oldest_exchange_range packed mandatory") (auto simp: pack_loop.simps [of cd b mandatory packed])
    have r: "oldest_exchange_range packed mandatory = Some (mandatory, stop)"
      using r0 oldest_exchange_rangeD(1) [OF r0] by simp
    note rd = oldest_exchange_rangeD [OF r]
    let ?packed = "take mandatory packed @ drop stop packed"
    let ?entries = "entries @ [checkpoint_entry cd (take (stop - mandatory) (drop mandatory packed))]"
    have go: "pack_loop cd b mandatory ?packed ?entries (n + 1) = Inr (out, entries', n')"
      using "1.prems"(1) True r by (simp add: pack_loop.simps [of cd b mandatory packed])
    have len: "length (take mandatory packed) = mandatory" using "1.prems"(2) by simp
    have "mandatory \<le> length ?packed" using len by simp
    from "1.IH" [OF True r refl go this] obtain k where
      k: "out = take mandatory ?packed @ drop k ?packed" "mandatory \<le> k" "k \<le> length ?packed"
        "entries' = [] \<longrightarrow> k = mandatory \<and> ?entries = []"
        "answered False (drop mandatory ?packed) \<longrightarrow> answered False (drop k ?packed)"
        "estimate_tokens cd (drop mandatory out) b \<le> cb_recent_message_tokens b"
        "estimate_tokens_with_checkpoint cd out entries' b \<le> effective_input_budget b"
      by blast
    let ?k = "k - mandatory + stop"
    have d: "drop k ?packed = drop ?k packed" "drop mandatory ?packed = drop stop packed"
      using k(2) len by (simp_all add: add.commute)
    have le: "?k \<le> length packed" using k(3) rd(3) len by simp
    show ?thesis
      using k(1, 4-7) len le rd(2) k(2) answered_drop_exchange [OF r]
      by (intro exI [of _ ?k]) (auto simp: d)
  qed
qed

lemma compact_message_simps [simp]:
  "mm_role (compact_message cd b m) = mm_role m" "mm_tool_calls (compact_message cd b m) = mm_tool_calls m"
  by (simp_all add: compact_message_def)

lemma answered_compact: "answered c (map (compact_message cd b) ms) = answered c ms"
  by (induction ms arbitrary: c) auto

lemma length_join: "length (join [c] ss) = sum_list (map length ss) + (length ss - 1)"
  by (induction "[c]" ss rule: join.induct) auto

lemma tokens_of_add:
  assumes "m + n < 2 ^ 32"
  shows "tokens_of b (m + n) \<le> u32_add (tokens_of b m) (tokens_of b n)"
proof -
  let ?c = "max (cb_characters_per_token b) 1"
  have c: "0 < ?c" by simp
  have le: "div_ceil k ?c \<le> k" for k
  proof (cases k)
    case (Suc j)
    have "k + ?c - 1 \<le> k * ?c" using c Suc by (cases ?c) (simp_all del: max_def)
    then have "(k + ?c - 1) div ?c \<le> (k * ?c) div ?c" by (rule div_le_mono)
    then show ?thesis using c by (simp add: div_ceil_def)
  qed (simp add: div_ceil_def c)
  have exact: "tokens_of b k = div_ceil k ?c" if "k < 2 ^ 32" for k
    using le [of k] that by (simp add: tokens_of_def)
  have "div_ceil (m + n) ?c \<le> div_ceil m ?c + div_ceil n ?c"
  proof -
    have "m + n \<le> (div_ceil m ?c + div_ceil n ?c) * ?c"
    proof -
      have up: "k \<le> div_ceil k ?c * ?c" for k
      proof -
        have "k + ?c - 1 = (k + ?c - 1) div ?c * ?c + (k + ?c - 1) mod ?c" by (rule div_mult_mod_eq [symmetric])
        moreover have "(k + ?c - 1) mod ?c \<le> ?c - 1" using c by (simp add: less_Suc_eq_le [symmetric] del: max_def)
        ultimately show ?thesis unfolding div_ceil_def using c by linarith
      qed
      show ?thesis using up [of m] up [of n] by (simp add: algebra_simps)
    qed
    then have "(m + n) + ?c - 1 < (div_ceil m ?c + div_ceil n ?c + 1) * ?c" using c by (simp add: algebra_simps) linarith
    then have "div_ceil (m + n) ?c < div_ceil m ?c + div_ceil n ?c + 1"
      unfolding div_ceil_def [of "m + n"] using c by (simp add: less_mult_imp_div_less)
    then show ?thesis by simp
  qed
  then show ?thesis using exact [of m] exact [of n] exact [OF assms] le [of "m + n"] assms by (simp add: u32_add_def)
qed

lemma estimate_with_checkpoint:
  assumes "cp = [system_message (CHECKPOINT_PREFIX @ join [CHR 0x0A] entries)]" "entries \<noteq> []"
    "characters cd (xs @ cp @ ys) < 2 ^ 32"
  shows "estimate_tokens cd (xs @ cp @ ys) b \<le> estimate_tokens_with_checkpoint cd (xs @ ys) entries b"
proof -
  have "characters cd (xs @ cp @ ys) = characters cd (xs @ ys) + checkpoint_characters entries"
    using assms(2) by (simp add: assms(1) characters_def message_characters_def system_message_def length_join
        checkpoint_characters_def)
  then show ?thesis
    using tokens_of_add [of "characters cd (xs @ ys)" "checkpoint_characters entries" b] assms(3)
    by (simp add: estimate_tokens_def estimate_tokens_with_checkpoint_def)
qed

text \<open>What a successful packing returns: the mandatory messages, at most one checkpoint, and a suffix of the
  compacted history.\<close>

lemma pack_messages_shape:
  assumes "pack_messages cd ms b = Inr p"
  obtains k checkpoint where
    "cp_messages p = take (mandatory_end ms) ms @ checkpoint @ map (compact_message cd b) (drop k ms)"
    "mandatory_end ms \<le> k" "k \<le> length ms" "k = mandatory_end ms \<and> checkpoint = [] \<or> length checkpoint = 1"
    "\<forall>m\<in>set checkpoint. mm_role m = MrSystem"
    "answered False (drop (mandatory_end ms) ms) \<longrightarrow> answered False (drop k ms)"
    "cp_estimated_input_tokens p = estimate_tokens cd (cp_messages p) b"
    "characters cd (cp_messages p) < 2 ^ 32 \<longrightarrow> cp_estimated_input_tokens p \<le> effective_input_budget b"
proof -
  let ?m = "mandatory_end ms"
  let ?h = "map (compact_message cd b) (drop ?m ms)"
  let ?c = "take ?m ms @ ?h"
  have len: "length (take ?m ms) = ?m" using mandatory_end_le by simp
  from assms obtain packed entries n where l: "pack_loop cd b ?m ?c [] 0 = Inr (packed, entries, n)"
    and out: "cp_messages p = (if entries = [] then packed
        else take ?m packed @ [system_message (CHECKPOINT_PREFIX @ join [CHR 0x0A] entries)] @ drop ?m packed)"
    and est: "cp_estimated_input_tokens p = estimate_tokens cd (cp_messages p) b"
    by (auto simp: pack_messages_def Let_def split: if_splits)
  have "?m \<le> length ?c" using len by simp
  from pack_loop_keeps [OF l this] obtain k where
    k: "packed = take ?m ?c @ drop k ?c" "?m \<le> k" "k \<le> length ?c" "entries = [] \<longrightarrow> k = ?m"
      "answered False (drop ?m ?c) \<longrightarrow> answered False (drop k ?c)"
      "estimate_tokens_with_checkpoint cd packed entries b \<le> effective_input_budget b"
    by blast
  have parts: "take ?m ?c = take ?m ms" "drop ?m ?c = ?h" "drop k ?c = map (compact_message cd b) (drop k ms)"
    using len k(2) by (simp_all add: drop_map)
  let ?cp = "if entries = [] then [] else [system_message (CHECKPOINT_PREFIX @ join [CHR 0x0A] entries)]"
  have packed: "packed = take ?m ms @ map (compact_message cd b) (drop k ms)" using k(1) parts by simp
  have shape: "cp_messages p = take ?m ms @ ?cp @ map (compact_message cd b) (drop k ms)"
    using out len by (simp add: packed)
  show thesis
  proof (rule that [OF shape k(2)])
    show "k \<le> length ms" using k(3) mandatory_end_le [of ms] by simp
    show "k = ?m \<and> ?cp = [] \<or> length ?cp = 1" using k(4) by simp
    show "\<forall>m\<in>set ?cp. mm_role m = MrSystem" by (simp add: system_message_def)
    show "answered False (drop ?m ms) \<longrightarrow> answered False (drop k ms)"
      using k(5) parts answered_compact by simp
    show "cp_estimated_input_tokens p = estimate_tokens cd (cp_messages p) b" by (rule est)
    show "characters cd (cp_messages p) < 2 ^ 32 \<longrightarrow> cp_estimated_input_tokens p \<le> effective_input_budget b"
    proof (cases "entries = []")
      case True
      have z: "tokens_of b 0 = 0" by (simp add: tokens_of_def div_ceil_def)
      have m: "tokens_of b x < 2 ^ 32" for x by (simp add: tokens_of_def)
      have "estimate_tokens cd packed b \<le> estimate_tokens_with_checkpoint cd packed [] b"
        using m [of "characters cd packed"]
        by (simp add: estimate_tokens_with_checkpoint_def estimate_tokens_def checkpoint_characters_def z u32_add_def)
      with True k(6) out est show ?thesis by simp
    next
      case False
      then show ?thesis
        using k(6) est estimate_with_checkpoint [OF refl False, of cd "take ?m ms" "map (compact_message cd b) (drop k ms)" b]
        by (auto simp: shape packed)
    qed
  qed
qed

text \<open>Packing keeps the task and whole exchanges within the budget: the messages before the first model
  answer stay as they are, the history is shortened from its oldest end by whole exchanges so that no
  tool result loses the call it answers, and the estimate leaves room for the reserved output.\<close>
theorem pack_keeps_exchanges:
  assumes "pack_messages cd ms b = Inr p"
  shows "(\<exists>k checkpoint. mandatory_end ms \<le> k \<and> length checkpoint \<le> 1 \<and>
      cp_messages p = take (mandatory_end ms) ms @ checkpoint @ map (compact_message cd b) (drop k ms)) \<and>
    (answered False (drop (mandatory_end ms) ms) \<longrightarrow> answered False (drop (mandatory_end ms) (cp_messages p))) \<and>
    (characters cd (cp_messages p) < 2 ^ 32 \<longrightarrow> cp_estimated_input_tokens p \<le> effective_input_budget b)"
proof (rule pack_messages_shape [OF assms])
  fix k checkpoint
  let ?m = "mandatory_end ms"
  assume p: "cp_messages p = take ?m ms @ checkpoint @ map (compact_message cd b) (drop k ms)"
    and k: "?m \<le> k" "k \<le> length ms" "k = ?m \<and> checkpoint = [] \<or> length checkpoint = 1"
      "\<forall>m\<in>set checkpoint. mm_role m = MrSystem" "answered False (drop ?m ms) \<longrightarrow> answered False (drop k ms)"
    and est: "characters cd (cp_messages p) < 2 ^ 32 \<longrightarrow> cp_estimated_input_tokens p \<le> effective_input_budget b"
  have len: "length (take ?m ms) = ?m" using mandatory_end_le by simp
  have rest: "drop ?m (cp_messages p) = checkpoint @ map (compact_message cd b) (drop k ms)" using len by (simp add: p)
  have "answered False (drop k ms) \<Longrightarrow> answered False (checkpoint @ map (compact_message cd b) (drop k ms))"
    using k(3, 4) answered_compact [of False cd b "drop k ms"] by (cases checkpoint) auto
  moreover have "length checkpoint \<le> 1" using k(3) by auto
  ultimately show ?thesis unfolding rest using p k(1, 5) est by blast
qed

end
