(* ===== verification/AgentState.thy ===== *)
theory AgentState
  imports ContextPack
begin

text \<open>
  The state the agent loop keeps between turns, and how a resumed run rebuilds it from the transcript:
  \<open>agent/runtime.rs\<close> without the loop itself. Counters are natural numbers; a set of acceptance
  commands is a list without repetition.
\<close>

section \<open>Configuration\<close>

record recovery_policy =
  rp_max_recoverable_errors :: nat
  rp_max_identical_failures :: nat

datatype task_kind = TkGeneral | TkCoding

record task_contract =
  tk_kind :: task_kind
  tk_acceptance_criteria :: "string list"
  tk_require_workspace_change :: bool
  tk_require_post_change_diff :: bool

record repository_instruction =
  ri_filename :: string
  ri_bytes :: nat

record execution_budget =
  xb_initial_turns :: nat
  xb_hard_turns :: nat
  xb_initial_tokens :: nat
  xb_hard_tokens :: nat
  xb_active_execution_seconds :: nat
  xb_recoverable_tool_errors :: nat
  xb_identical_failures :: nat
  xb_verification_reserve_turns :: nat

record budget_consumption =
  bc_allowed_turns :: nat
  bc_allowed_tokens :: nat
  bc_turns_used :: nat
  bc_tokens_used :: nat
  bc_active_execution_seconds_used :: nat
  bc_extensions :: nat

text \<open>Of a resolved inference binding: its stage prompt's identifier, its policy's reasoning, and the
  value \<open>inference_event_metadata\<close> projects it to.\<close>

record inference_binding =
  ib_stage_prompt_id :: "string option"
  ib_reasoning :: json
  ib_event_metadata :: json

record run_config =
  rc_session_id :: string
  rc_run_id :: string
  rc_messages :: "model_message list"
  rc_tools :: "tool_spec list"
  rc_tool_protocol :: tool_protocol_mode
  rc_tool_choice :: tool_choice_mode
  rc_temperature :: string
  rc_max_tokens :: nat
  rc_max_turns :: nat
  rc_context_budget :: context_budget
  rc_recovery_policy :: recovery_policy
  rc_task_contract :: task_contract
  rc_repository_instruction_files :: "repository_instruction list"
  rc_policy :: safety_policy
  rc_run_scope :: run_scope
  rc_event_seq_start :: nat
  rc_run_budget :: "execution_budget option"
  rc_budget_consumption :: budget_consumption
  rc_inference_binding :: "inference_binding option"

definition stage_prompt_id :: "run_config \<Rightarrow> string option" where
  "stage_prompt_id c = Option.bind (rc_inference_binding c) ib_stage_prompt_id"

definition reliability_v2_enabled :: "run_config \<Rightarrow> bool" where
  "reliability_v2_enabled c \<longleftrightarrow> stage_prompt_id c \<noteq> None"

definition is_builder :: "run_config \<Rightarrow> bool" where
  "is_builder c \<longleftrightarrow>
     (case stage_prompt_id c of Some p \<Rightarrow> p \<in> {''repo-builder-v2'', ''repo-repair-v2''} | None \<Rightarrow> False)"

section \<open>Tools of a turn\<close>

definition tools_for_turn :: "tool_spec list \<Rightarrow> nat \<Rightarrow> nat \<Rightarrow> tool_spec list \<times> bool" where
  "tools_for_turn tools remaining_turns verification_reserve_turns =
     (if 0 < verification_reserve_turns \<and> remaining_turns \<le> verification_reserve_turns \<and>
         list_ex (\<lambda>t. ts_name t = ''submit_verification'') tools
      then (filter (\<lambda>t. ts_name t \<in> {''submit_verification'', ''finish''}) tools, True)
      else (tools, False))"

definition required_acceptance_names :: "tool_spec list \<Rightarrow> string list" where
  "required_acceptance_names tools =
     (case find (\<lambda>t. ts_name t = ''run_acceptance_command'') tools of
        None \<Rightarrow> []
      | Some t \<Rightarrow>
          (case json_index (json_index (json_index (ts_parameters_schema t) ''properties'') ''name'') ''enum'' of
             JArray vs \<Rightarrow> sort (remdups (List.map_filter json_str vs))
           | _ \<Rightarrow> []))"

definition terminal_submission_kind :: "json agent_action \<Rightarrow> string option" where
  "terminal_submission_kind a =
     (case a of
        SubmitOnboardingProposal i r j \<Rightarrow> Some ''onboarding_proposal''
      | SubmitWorkPlan i r j \<Rightarrow> Some ''work_plan''
      | SubmitImplementation i r j \<Rightarrow> Some ''implementation''
      | SubmitTestDiagnosis i r j \<Rightarrow> Some ''test_diagnosis''
      | SubmitVerification i r j \<Rightarrow> Some ''verification''
      | _ \<Rightarrow> None)"

section \<open>Completion evidence\<close>

record completion_state =
  cs_changed :: bool
  cs_mutation_seen :: bool
  cs_git_status_after_mutation :: bool
  cs_git_diff_after_mutation :: bool
  cs_acceptance_passed :: "string list"
  cs_rejected_finishes :: nat

definition completion_start :: completion_state where
  "completion_start = \<lparr>cs_changed = False, cs_mutation_seen = False, cs_git_status_after_mutation = False,
     cs_git_diff_after_mutation = False, cs_acceptance_passed = [], cs_rejected_finishes = 0\<rparr>"

text \<open>A successful write: all evidence collected before is stale.\<close>

definition after_mutation :: "json \<Rightarrow> completion_state \<Rightarrow> completion_state" where
  "after_mutation content s =
     s\<lparr>cs_mutation_seen := True, cs_changed := cs_changed s \<or> get_str content ''diff'' \<noteq> Some ''unchanged'',
       cs_git_status_after_mutation := False, cs_git_diff_after_mutation := False, cs_acceptance_passed := []\<rparr>"

definition is_mutation :: "json agent_action \<Rightarrow> bool" where
  "is_mutation a = (case a of WriteFile i r p c \<Rightarrow> True | PatchFile i r p pt \<Rightarrow> True | ApplyPatch i r pt pre \<Rightarrow> True | _ \<Rightarrow> False)"

definition update_completion_state :: "completion_state \<Rightarrow> json agent_action \<Rightarrow> tool_result \<Rightarrow> completion_state" where
  "update_completion_state s a result =
     (case a of
        RunAcceptanceCommand i r name \<Rightarrow>
          (if cs_mutation_seen s \<and> tr_status result = TrsOk
           then s\<lparr>cs_acceptance_passed := List.insert name (cs_acceptance_passed s)\<rparr>
           else s\<lparr>cs_acceptance_passed := removeAll name (cs_acceptance_passed s)\<rparr>)
      | _ \<Rightarrow>
          if tr_status result \<noteq> TrsOk then s
          else if is_mutation a then after_mutation (tr_content result) s
          else (case a of
              GitStatus i r \<Rightarrow> if cs_mutation_seen s then s\<lparr>cs_git_status_after_mutation := True\<rparr> else s
            | GitDiff i r p \<Rightarrow> if cs_mutation_seen s then s\<lparr>cs_git_diff_after_mutation := True\<rparr> else s
            | _ \<Rightarrow> s))"

definition completion_failure_reason :: "task_contract \<Rightarrow> completion_state \<Rightarrow> string option" where
  "completion_failure_reason contract s =
     (if tk_kind contract \<noteq> TkCoding then None
      else if tk_require_workspace_change contract \<and> \<not> cs_changed s
      then Some ''a meaningful workspace change is required before success''
      else if tk_require_post_change_diff contract \<and> \<not> cs_git_status_after_mutation s \<and>
          \<not> cs_git_diff_after_mutation s
      then Some ''inspect git status or git diff after the final mutation before success''
      else None)"

definition builder_submission_ready :: "run_config \<Rightarrow> completion_state \<Rightarrow> bool" where
  "builder_submission_ready c s \<longleftrightarrow>
     is_builder c \<and> completion_failure_reason (rc_task_contract c) s = None \<and>
     cs_git_status_after_mutation s \<and> cs_git_diff_after_mutation s \<and>
     required_acceptance_names (rc_tools c) \<noteq> [] \<and>
     list_all (\<lambda>n. n \<in> set (cs_acceptance_passed s)) (required_acceptance_names (rc_tools c))"

definition implementation_submission_failure_reason :: "run_config \<Rightarrow> completion_state \<Rightarrow> string option" where
  "implementation_submission_failure_reason c s =
     (case completion_failure_reason (rc_task_contract c) s of
        Some reason \<Rightarrow> Some reason
      | None \<Rightarrow>
          if \<not> is_builder c then None
          else if tk_require_post_change_diff (rc_task_contract c) \<and>
              (\<not> cs_git_status_after_mutation s \<or> \<not> cs_git_diff_after_mutation s)
          then Some ''inspect both git status and git diff after the final mutation before success''
          else
            let missing = filter (\<lambda>n. n \<notin> set (cs_acceptance_passed s)) (required_acceptance_names (rc_tools c)) in
            if missing = [] then None
            else Some (''run every selected acceptance command after the final mutation; missing: '' @
              join '', '' missing))"

section \<open>Recovery\<close>

record recovery_state =
  rv_total :: nat
  rv_last_fingerprint :: "string option"
  rv_identical :: nat

definition recovery_start :: recovery_state where
  "recovery_start = \<lparr>rv_total = 0, rv_last_fingerprint = None, rv_identical = 0\<rparr>"

definition action_fingerprint :: "codec \<Rightarrow> json agent_action \<Rightarrow> tool_error \<Rightarrow> string" where
  "action_fingerprint cd a e =
     kind_name a @ '':'' @ error_kind_name e @ '':'' @
     cd_print cd (json_remove ''reason'' (json_remove ''id'' (cd_action cd a)))"

definition count_failure :: "string \<Rightarrow> recovery_state \<Rightarrow> recovery_state" where
  "count_failure fingerprint s =
     s\<lparr>rv_total := rv_total s + 1,
       rv_identical := (if rv_last_fingerprint s = Some fingerprint then rv_identical s + 1 else 1),
       rv_last_fingerprint := Some fingerprint\<rparr>"

definition may_recover :: "recovery_policy \<Rightarrow> recovery_state \<Rightarrow> bool" where
  "may_recover p s \<longleftrightarrow>
     rv_total s \<le> rp_max_recoverable_errors p \<and> rv_identical s \<le> rp_max_identical_failures p"

definition recoverable_error_result :: "codec \<Rightarrow> json agent_action \<Rightarrow> tool_error \<Rightarrow> recovery_state \<Rightarrow> tool_result" where
  "recoverable_error_result cd a e s = tool_result_error
     (kind_name a @ '' failed; inspect the error and choose a different safe action'')
     (JObject
       [(''action'', JString (kind_name a)), (''error_kind'', JString (error_kind_name e)),
        (''failure_fingerprint'', JString (action_fingerprint cd a e)),
        (''identical_failure_count'', JNumber (show_nat (rv_identical s))),
        (''message'', JString (tool_error_str e)), (''recoverable'', JBool True),
        (''recovery_count'', JNumber (show_nat (rv_total s)))])"

section \<open>Messages the loop writes\<close>

definition tool_message :: "codec \<Rightarrow> tool_result \<Rightarrow> string option \<Rightarrow> json agent_action option \<Rightarrow> model_message" where
  "tool_message cd result call_id action =
     (let content = json_remove ''artifact_content'' (tr_content result);
          content' = (case action of Some a \<Rightarrow> json_insert ''action'' (JString (kind_name a)) content | None \<Rightarrow> content)
      in \<lparr>mm_role = MrTool, mm_content = cd_result cd (result\<lparr>tr_content := content'\<rparr>),
          mm_tool_call_id = call_id, mm_tool_calls = [], mm_reasoning = None\<rparr>)"

definition PROTOCOL_CORRECTION_MARKER :: string where
  "PROTOCOL_CORRECTION_MARKER = ''PHARNESS_PROTOCOL_CORRECTION''"

definition protocol_correction_count :: "model_message list \<Rightarrow> nat" where
  "protocol_correction_count ms =
     min (2 ^ 32 - 1) (length (filter (\<lambda>m. mm_role m = MrSystem \<and>
        starts_with (mm_content m) PROTOCOL_CORRECTION_MARKER) ms))"

definition protocol_correction_message :: "string \<Rightarrow> string \<Rightarrow> nat \<Rightarrow> model_message" where
  "protocol_correction_message category message correction = system_message
     (PROTOCOL_CORRECTION_MARKER @ '' '' @ show_nat correction @ ''/2 ('' @ category @ ''): '' @ message @
      ''. Select exactly one available PHarness tool. Do not emit prose without a tool call, do not call multiple tools in one response, and submit arguments that exactly match the advertised schema.'')"

definition failure_category_for_provider_error :: "model_provider_error \<Rightarrow> string" where
  "failure_category_for_provider_error e =
     (case e of
        RequestFailed m retryable \<Rightarrow> ''provider_rejection_or_transport_failure''
      | MalformedResponse m \<Rightarrow> ''malformed_provider_response''
      | ProtocolError k m \<Rightarrow> protocol_error_as_str k
      | UnsupportedCapability c \<Rightarrow> ''unavailable_capability'')"

section \<open>Resuming\<close>

definition resume_recovery :: "json \<Rightarrow> recovery_state \<Rightarrow> recovery_state" where
  "resume_recovery content s =
     (if Option.bind (json_get content ''recoverable'') json_bool = Some True
      then s\<lparr>rv_total := (case Option.bind (json_get content ''recovery_count'') json_u32 of Some n \<Rightarrow> n | None \<Rightarrow> rv_total s),
             rv_identical := (case Option.bind (json_get content ''identical_failure_count'') json_u32 of
                 Some n \<Rightarrow> n | None \<Rightarrow> rv_identical s),
             rv_last_fingerprint := get_str content ''failure_fingerprint''\<rparr>
      else s)"

definition resume_completion :: "json \<Rightarrow> string option \<Rightarrow> completion_state \<Rightarrow> completion_state" where
  "resume_completion content status s =
     (let action = get_str content ''action''; name = get_str content ''name'' in
      if status \<noteq> Some ''ok'' then
        (case name of
           Some n \<Rightarrow>
             if action = Some ''run_acceptance_command''
             then s\<lparr>cs_acceptance_passed := removeAll n (cs_acceptance_passed s)\<rparr> else s
         | None \<Rightarrow> s)
      else if action \<in> {Some ''write_file'', Some ''patch_file'', Some ''apply_patch''}
      then after_mutation content s
      else if action = Some ''git_status'' \<and> cs_mutation_seen s then s\<lparr>cs_git_status_after_mutation := True\<rparr>
      else if action = Some ''git_diff'' \<and> cs_mutation_seen s then s\<lparr>cs_git_diff_after_mutation := True\<rparr>
      else if action = Some ''run_acceptance_command'' \<and> cs_mutation_seen s then
        (case name of
           Some n \<Rightarrow> s\<lparr>cs_acceptance_passed := List.insert n (cs_acceptance_passed s)\<rparr>
         | None \<Rightarrow> s)
      else s)"

definition resume_step ::
    "codec \<Rightarrow> model_message \<Rightarrow> recovery_state \<times> completion_state \<Rightarrow> recovery_state \<times> completion_state" where
  "resume_step cd m = (\<lambda>(recovery, completion).
     if mm_role m \<noteq> MrTool then (recovery, completion)
     else (case Option.bind (cd_parse cd (mm_content m)) (\<lambda>result.
             map_option (\<lambda>content. (content, get_str result ''status'')) (json_get result ''content'')) of
         None \<Rightarrow> (recovery, completion)
       | Some (content, status) \<Rightarrow> (resume_recovery content recovery, resume_completion content status completion)))"

definition resume_runtime_state :: "codec \<Rightarrow> model_message list \<Rightarrow> recovery_state \<times> completion_state" where
  "resume_runtime_state cd ms = fold (resume_step cd) ms (recovery_start, completion_start)"

section \<open>The ledger\<close>

record ledger =
  lg_inspected :: "string list"
  lg_changed :: "string list"
  lg_commands :: "json list"
  lg_failures :: "json list"

definition add_path :: "string \<Rightarrow> string list \<Rightarrow> string list" where
  "add_path p ps = (if p \<in> set ps then ps else ps @ [p])"

definition ledger_command :: "tool_result \<Rightarrow> json" where
  "ledger_command r = JObject
     [(''args'', json_index (tr_content r) ''args''), (''command'', json_index (tr_content r) ''command''),
      (''executable'', json_index (tr_content r) ''executable''), (''exit_code'', json_index (tr_content r) ''exit_code''),
      (''name'', json_index (tr_content r) ''name''), (''status'', JString (status_str (tr_status r)))]"

definition ledger_failure :: "string \<Rightarrow> tool_result \<Rightarrow> json" where
  "ledger_failure action r = JObject
     [(''action'', JString action), (''error_kind'', json_index (tr_content r) ''error_kind''), (''summary'', JString (tr_summary r))]"

definition ledger_step :: "tool_result \<Rightarrow> ledger \<Rightarrow> ledger" where
  "ledger_step r l =
     (let action = (case get_str (tr_content r) ''action'' of Some a \<Rightarrow> a | None \<Rightarrow> ''unknown'');
          l1 = (case get_str (tr_content r) ''path'' of
              None \<Rightarrow> l
            | Some p \<Rightarrow>
                if action \<in> {''write_file'', ''patch_file'', ''apply_patch''} then l\<lparr>lg_changed := add_path p (lg_changed l)\<rparr>
                else l\<lparr>lg_inspected := add_path p (lg_inspected l)\<rparr>);
          l2 = (case json_get (tr_content r) ''changed_paths'' of
              Some (JArray vs) \<Rightarrow> l1\<lparr>lg_changed := fold add_path (List.map_filter json_str vs) (lg_changed l1)\<rparr>
            | _ \<Rightarrow> l1);
          l3 = (if json_get (tr_content r) ''acceptance_command'' = Some (JBool True) \<or>
              json_get (tr_content r) ''workspace_command'' = Some (JBool True)
            then l2\<lparr>lg_commands := lg_commands l2 @ [ledger_command r]\<rparr> else l2)
      in if tr_status r \<noteq> TrsOk then l3\<lparr>lg_failures := lg_failures l3 @ [ledger_failure action r]\<rparr> else l3)"

definition execution_ledger :: "codec \<Rightarrow> model_message list \<Rightarrow> nat \<Rightarrow> nat \<Rightarrow> string" where
  "execution_ledger cd ms remaining_turns remaining_tokens =
     (let results = List.map_filter (\<lambda>m. cd_parse_result cd (mm_content m)) (filter (\<lambda>m. mm_role m = MrTool) ms);
          l = fold ledger_step results \<lparr>lg_inspected = [], lg_changed = [], lg_commands = [], lg_failures = []\<rparr>
      in ''Controller execution ledger (derived from durable tool results; do not rewrite):'' @ [CHR 0x0A] @
         cd_print cd (JObject
           [(''changed_paths'', JArray (map JString (lg_changed l))), (''commands'', JArray (lg_commands l)),
            (''inspected_paths'', JArray (map JString (lg_inspected l))),
            (''remaining_tokens'', JNumber (show_nat remaining_tokens)),
            (''remaining_turns'', JNumber (show_nat remaining_turns)),
            (''unresolved_failures'', JArray (lg_failures l))]))"

end
