(* ===== verification/AgentRuntime.thy ===== *)
theory AgentRuntime
  imports AgentState
begin

text \<open>
  The agent loop: \<open>AgentRuntime::run_loop\<close> of \<open>agent/runtime.rs\<close>. One turn packs the transcript, asks
  the provider for one action, puts it before the safety policy and executes it. The provider's answer,
  the tool's result, the clock and the cancellation flag of a turn are a draw. The run's trace records
  the events it emits, the requests it sends and the actions it executes, in order.
\<close>

section \<open>Events and effects\<close>

datatype event_kind =
    EkRunQueued | EkRunStarted | EkRunResumed | EkRunCancelled | EkRunFailed | EkRunFinished
  | EkModelRequestStarted | EkModelResponseFinished | EkModelProtocolCorrection | EkActionProposed
  | EkPolicyEvaluated | EkApprovalRequired | EkApprovalDecided | EkToolStarted | EkToolFinished

text \<open>The value of a payload field: what is serialised, not its text. \<open>PvHash\<close> is the canonical hash of
  the messages, \<open>PvMillionths\<close> a number divided by a million.\<close>

datatype (plugins only: code) pvalue =
    PvNull
  | PvBool bool
  | PvNat nat
  | PvMillionths nat
  | PvStr string
  | PvStrs "string list"
  | PvMessages "model_message list"
  | PvHash "model_message list"
  | PvAction "json agent_action"
  | PvResult tool_result
  | PvDecision policy_decision
  | PvScope run_scope
  | PvApproval approval_kind
  | PvInstructions "repository_instruction list"
  | PvJson json
  | PvFields "(string \<times> pvalue) list"

record agent_event =
  ae_event_id :: string
  ae_session_id :: string
  ae_run_id :: string
  ae_seq :: nat
  ae_kind :: event_kind
  ae_payload :: pvalue

datatype (plugins only: code) run_effect =
    FxEvent agent_event
  | FxRequest model_request
  | FxExecute "json agent_action" "(tool_error, tool_result) res"

definition pv_opt :: "('a \<Rightarrow> pvalue) \<Rightarrow> 'a option \<Rightarrow> pvalue" where
  "pv_opt f x = (case x of Some a \<Rightarrow> f a | None \<Rightarrow> PvNull)"

section \<open>Outcomes\<close>

datatype run_status = RstCompleted | RstApprovalRequired | RstBudgetExtensionRequired | RstFailed | RstCancelled

record pending_approval =
  pa_approval_kind :: approval_kind
  pa_risk :: risk_level
  pa_summary :: string
  pa_action :: "json agent_action option"
  pa_resume_messages :: "model_message list"
  pa_turns_completed :: nat

record pending_budget_extension =
  pb_reason :: string
  pb_resume_messages :: "model_message list"
  pb_turns_completed :: nat
  pb_consumption :: budget_consumption

record run_outcome =
  ro_status :: run_status
  ro_turns :: nat
  ro_summary :: "string option"
  ro_error :: "string option"
  ro_approval :: "pending_approval option"
  ro_budget_pause :: "pending_budget_extension option"
  ro_consumption :: budget_consumption

record budget_resume =
  br_resume_messages :: "model_message list"
  br_turns_completed :: nat

record approved_action =
  aa_approval_id :: string
  aa_action :: "json agent_action"
  aa_resume_messages :: "model_message list"
  aa_turns_completed :: nat

datatype (plugins only: code) run_start = Fresh | Approved approved_action | ResumedBudget budget_resume

section \<open>Draws and the loop's state\<close>

record turn_draw =
  tn_elapsed_before :: nat
  tn_elapsed_after :: nat
  tn_cancelled :: bool
  tn_response :: "(model_provider_error, model_turn) res"
  tn_tool :: "(tool_error, tool_result) res"

record loop_state =
  lp_seq :: nat
  lp_messages :: "model_message list"
  lp_tokens_used :: nat
  lp_recovery :: recovery_state
  lp_completion :: completion_state
  lp_corrections :: nat
  lp_trace :: "run_effect list"

datatype (plugins only: code) turn_step = Next loop_state | Done loop_state run_outcome

definition u64_add :: "nat \<Rightarrow> nat \<Rightarrow> nat" where
  "u64_add a b = min (2 ^ 64 - 1) (a + b)"

definition emit :: "run_config \<Rightarrow> event_kind \<Rightarrow> pvalue \<Rightarrow> loop_state \<Rightarrow> loop_state" where
  "emit c kind payload s =
     (let seq = lp_seq s + 1 in
      s\<lparr>lp_seq := seq,
        lp_trace := lp_trace s @ [FxEvent
          \<lparr>ae_event_id = ''evt_'' @ rc_run_id c @ ''_'' @ show_nat seq, ae_session_id = rc_session_id c,
           ae_run_id = rc_run_id c, ae_seq = seq, ae_kind = kind, ae_payload = payload\<rparr>]\<rparr>)"

definition push :: "model_message \<Rightarrow> loop_state \<Rightarrow> loop_state" where
  "push m s = s\<lparr>lp_messages := lp_messages s @ [m]\<rparr>"

definition log_effect :: "run_effect \<Rightarrow> loop_state \<Rightarrow> loop_state" where
  "log_effect x s = s\<lparr>lp_trace := lp_trace s @ [x]\<rparr>"

definition scope_value :: "run_config \<Rightarrow> pvalue" where
  "scope_value c = pv_opt PvScope (to_optional_json id (rc_run_scope c))"

definition active_seconds :: "run_config \<Rightarrow> nat \<Rightarrow> nat" where
  "active_seconds c elapsed = u64_add (bc_active_execution_seconds_used (rc_budget_consumption c)) elapsed"

definition consumption_snapshot :: "run_config \<Rightarrow> nat \<Rightarrow> nat \<Rightarrow> nat \<Rightarrow> budget_consumption" where
  "consumption_snapshot c turns tokens active =
     (rc_budget_consumption c)\<lparr>bc_turns_used := turns, bc_tokens_used := tokens,
        bc_active_execution_seconds_used := active\<rparr>"

definition failed_outcome :: "nat \<Rightarrow> string \<Rightarrow> budget_consumption \<Rightarrow> run_outcome" where
  "failed_outcome turns error consumption =
     \<lparr>ro_status = RstFailed, ro_turns = turns, ro_summary = None, ro_error = Some error, ro_approval = None,
      ro_budget_pause = None, ro_consumption = consumption\<rparr>"

definition cancelled_outcome :: "nat \<Rightarrow> budget_consumption \<Rightarrow> run_outcome" where
  "cancelled_outcome turns consumption =
     \<lparr>ro_status = RstCancelled, ro_turns = turns, ro_summary = None, ro_error = Some ''run cancelled'',
      ro_approval = None, ro_budget_pause = None, ro_consumption = consumption\<rparr>"

definition budget_boundary_outcome ::
    "run_config \<Rightarrow> nat \<Rightarrow> nat \<Rightarrow> model_message list \<Rightarrow> execution_budget \<Rightarrow> nat \<Rightarrow> string \<Rightarrow> run_outcome" where
  "budget_boundary_outcome c turns tokens messages budget active reason =
     (if xb_hard_turns budget \<le> turns \<or> xb_hard_tokens budget \<le> tokens
      then failed_outcome turns ''hard_budget_exhausted'' (consumption_snapshot c turns tokens active)
      else \<lparr>ro_status = RstBudgetExtensionRequired, ro_turns = turns,
            ro_summary = Some ''Run paused before exceeding its resumable budget boundary'', ro_error = None,
            ro_approval = None,
            ro_budget_pause = Some \<lparr>pb_reason = reason, pb_resume_messages = messages, pb_turns_completed = turns,
              pb_consumption = consumption_snapshot c turns tokens active\<rparr>,
            ro_consumption = consumption_snapshot c turns tokens active\<rparr>)"

text \<open>\<open>RunOutcome::failed(..).with_consumption(..)\<close> at the end of a turn.\<close>

definition stop_failed :: "run_config \<Rightarrow> turn_draw \<Rightarrow> nat \<Rightarrow> string \<Rightarrow> loop_state \<Rightarrow> turn_step" where
  "stop_failed c d turns error s =
     Done s (failed_outcome turns error
       (consumption_snapshot c turns (lp_tokens_used s) (active_seconds c (tn_elapsed_after d))))"

text \<open>One more protocol correction: the event and the system message that tells the model.\<close>

definition correct ::
    "run_config \<Rightarrow> nat \<Rightarrow> string \<Rightarrow> (string \<times> pvalue) list \<Rightarrow> string \<Rightarrow> loop_state \<Rightarrow> loop_state" where
  "correct c turn category extra message s =
     (let n = lp_corrections s + 1 in
      push (protocol_correction_message category message n)
        (emit c EkModelProtocolCorrection (PvFields
            ([(''category'', PvStr category)] @ extra @
             [(''turn'', PvNat turn), (''correction'', PvNat n), (''maximum_corrections'', PvNat 2)]))
          (s\<lparr>lp_corrections := n\<rparr>)))"

section \<open>The request of a turn\<close>

definition insert_at_one :: "string \<Rightarrow> model_message list \<Rightarrow> model_message list" where
  "insert_at_one content ms =
     take (min 1 (length ms)) ms @ [system_message content] @ drop (min 1 (length ms)) ms"

record turn_plan =
  pl_turn :: nat
  pl_remaining_turns :: nat
  pl_tools :: "tool_spec list"
  pl_reserve :: bool
  pl_builder_only :: bool
  pl_finish_allowed :: bool

definition plan_turn :: "run_config \<Rightarrow> completion_state \<Rightarrow> nat \<Rightarrow> turn_plan" where
  "plan_turn c completion turn =
     (let remaining = bc_allowed_turns (rc_budget_consumption c) - turn;
          (tools, reserve) = (case rc_run_budget c of
              Some b \<Rightarrow> tools_for_turn (rc_tools c) remaining (xb_verification_reserve_turns b)
            | None \<Rightarrow> (rc_tools c, False));
          builder = builder_submission_ready c completion;
          tools' = (if builder then filter (\<lambda>t. ts_name t = ''submit_implementation'') tools else tools)
      in \<lparr>pl_turn = turn, pl_remaining_turns = remaining, pl_tools = tools', pl_reserve = reserve,
          pl_builder_only = builder, pl_finish_allowed = list_ex (\<lambda>t. ts_name t = ''finish'') tools'\<rparr>)"

definition budget_notice :: "run_config \<Rightarrow> execution_budget \<Rightarrow> nat \<Rightarrow> nat \<Rightarrow> string" where
  "budget_notice c b remaining tokens_used =
     ''Execution budget: '' @ show_nat remaining @ '' turns and '' @
     show_nat (bc_allowed_tokens (rc_budget_consumption c) - tokens_used) @ '' tokens remain; '' @
     show_nat (xb_active_execution_seconds b - bc_active_execution_seconds_used (rc_budget_consumption c)) @
     '' seconds of active time were configured. Reserve the final '' @ show_nat (xb_verification_reserve_turns b) @
     '' turns for declared acceptance commands, Git status/diff, and completion evidence.''"

definition reserve_notice :: "bool \<Rightarrow> string" where
  "reserve_notice finish_allowed =
     (if finish_allowed
      then ''FINAL VERIFIER RESERVE: evidence collection is closed. Submit the typed verification verdict now from the sealed Tester outcome and evidence already inspected, then finish. Only submit_verification and finish are authorized in these remaining turns.''
      else ''FINAL VERIFIER RESERVE: evidence collection is closed. Submit the terminal typed verification verdict now from the sealed Test outcome and evidence already inspected. Only submit_verification is authorized in these remaining turns.'')"

definition builder_notice :: string where
  "builder_notice = ''BUILDER SUBMISSION BOUNDARY: every selected acceptance command passed after the final mutation, and final Git status and diff were inspected. Evidence collection is closed. Submit the terminal typed implementation record now; only submit_implementation is authorized. Do not run another focused command or inspect more files.''"

definition request_messages :: "codec \<Rightarrow> run_config \<Rightarrow> turn_plan \<Rightarrow> nat \<Rightarrow> model_message list \<Rightarrow> model_message list" where
  "request_messages cd c pl tokens_used ms =
     (let m1 = (case rc_run_budget c of
              Some b \<Rightarrow> insert_at_one (budget_notice c b (pl_remaining_turns pl) tokens_used) ms
            | None \<Rightarrow> ms);
          m2 = (if pl_reserve pl then insert_at_one (reserve_notice (pl_finish_allowed pl)) m1 else m1);
          m3 = (if pl_builder_only pl then insert_at_one builder_notice m2 else m2)
      in if reliability_v2_enabled c
         then insert_at_one (execution_ledger cd ms (pl_remaining_turns pl)
             (bc_allowed_tokens (rc_budget_consumption c) - tokens_used)) m3
         else m3)"

definition model_request_of :: "run_config \<Rightarrow> turn_plan \<Rightarrow> model_message list \<Rightarrow> model_request" where
  "model_request_of c pl ms =
     \<lparr>mq_session_id = rc_session_id c, mq_run_id = rc_run_id c, mq_messages = ms, mq_tools = pl_tools pl,
      mq_mode = rc_tool_protocol c, mq_tool_choice = rc_tool_choice c, mq_temperature = rc_temperature c,
      mq_max_tokens = rc_max_tokens c, mq_reasoning = map_option ib_reasoning (rc_inference_binding c)\<rparr>"

definition inference_value :: "run_config \<Rightarrow> pvalue" where
  "inference_value c = pv_opt (\<lambda>b. PvJson (ib_event_metadata b)) (rc_inference_binding c)"

text \<open>The error of a request that does not fit, or the state after the request was sent.\<close>

definition send_request ::
    "codec \<Rightarrow> run_config \<Rightarrow> turn_draw \<Rightarrow> turn_plan \<Rightarrow> context_pack \<Rightarrow> loop_state \<Rightarrow> turn_step" where
  "send_request cd c d pl packed s =
     (let ms = request_messages cd c pl (lp_tokens_used s) (lp_messages s);
          b = rc_context_budget c;
          estimated = estimate_request_tokens cd ms (pl_tools pl) b
      in if cb_max_input_tokens b < u32_add estimated (cb_reserved_output_tokens b)
         then stop_failed c d (pl_turn pl) ''context_budget_exceeded''
           (emit c EkRunFailed (PvFields
              [(''error'', PvStr ''context_budget_exceeded''), (''turn'', PvNat (pl_turn pl)),
               (''estimated_request_tokens'', PvNat estimated), (''tool_schema_count'', PvNat (length (pl_tools pl))),
               (''reasoning_replay_included'', PvBool (list_ex (\<lambda>m. mm_reasoning m \<noteq> None) ms))]) s)
         else Next (log_effect (FxRequest (model_request_of c pl ms))
           (emit c EkModelRequestStarted (PvFields
              [(''turn'', PvNat (pl_turn pl)), (''estimated_input_tokens'', PvNat estimated),
               (''input_context_sha256'', PvHash ms), (''packed_message_tokens'', PvNat (cp_estimated_input_tokens packed)),
               (''original_message_count'', PvNat (cp_original_message_count packed)),
               (''packed_message_count'', PvNat (length (lp_messages s))),
               (''compacted_exchanges'', PvNat (cp_compacted_exchanges packed)),
               (''truncated_tool_results'', PvNat (cp_truncated_tool_results packed)),
               (''tool_schema_count'', PvNat (length (pl_tools pl))), (''context_budget'', PvNat (cb_max_input_tokens b)),
               (''repository_instruction_files'', PvInstructions (rc_repository_instruction_files c)),
               (''inference'', inference_value c)]) s)))"

section \<open>The answer\<close>

definition provider_failed :: "run_config \<Rightarrow> turn_draw \<Rightarrow> nat \<Rightarrow> model_provider_error \<Rightarrow> loop_state \<Rightarrow> turn_step" where
  "provider_failed c d turn e s =
     (case (e, reliability_v2_enabled c \<and> lp_corrections s < 2) of
        (ProtocolError category message, True) \<Rightarrow>
          Next (correct c turn (protocol_error_as_str category) [(''message'', PvStr message)] message s)
      | _ \<Rightarrow> stop_failed c d (turn + 1) (provider_error_str e)
          (emit c EkRunFailed (PvFields
             [(''error'', PvStr (provider_error_str e)), (''turn'', PvNat turn),
              (''stop_category'', PvStr (failure_category_for_provider_error e)),
              (''protocol_corrections'', PvNat (lp_corrections s))]) s))"

definition response_payload :: "run_config \<Rightarrow> nat \<Rightarrow> model_turn \<Rightarrow> pvalue" where
  "response_payload c turn t = PvFields
     [(''turn'', PvNat turn), (''raw_provider_id'', pv_opt PvStr (mt_raw_provider_id t)),
      (''prompt_tokens'', pv_opt (\<lambda>u. PvNat (tu_prompt_tokens u)) (mt_usage t)),
      (''completion_tokens'', pv_opt (\<lambda>u. PvNat (tu_completion_tokens u)) (mt_usage t)),
      (''total_tokens'', pv_opt (\<lambda>u. PvNat (tu_total_tokens u)) (mt_usage t)),
      (''reasoning_tokens'', pv_opt (\<lambda>u. PvNat (tu_reasoning_tokens u)) (mt_usage t)),
      (''cached_tokens'', pv_opt (\<lambda>u. PvNat (tu_cached_tokens u)) (mt_usage t)),
      (''cost_microusd'', pv_opt PvNat (Option.bind (mt_usage t) tu_cost_microusd)),
      (''normalized_cost'', pv_opt PvMillionths (Option.bind (mt_usage t) tu_cost_microusd)),
      (''model'', pv_opt PvStr (Option.bind (mt_metadata t) md_model)),
      (''provider'', pv_opt PvStr (Option.bind (mt_metadata t) md_provider)),
      (''backend'', pv_opt PvStr (Option.bind (mt_metadata t) md_backend)),
      (''finish_reason'', pv_opt PvStr (Option.bind (mt_metadata t) md_native_finish_reason)),
      (''latency_ms'', pv_opt (\<lambda>m. PvNat (md_latency_ms m)) (mt_metadata t)), (''inference'', inference_value c)]"

definition assistant_message :: "string \<Rightarrow> model_tool_call list \<Rightarrow> json option \<Rightarrow> model_message" where
  "assistant_message content calls reasoning =
     \<lparr>mm_role = MrAssistant, mm_content = content, mm_tool_call_id = None, mm_tool_calls = calls, mm_reasoning = reasoning\<rparr>"

definition is_respond :: "json agent_action \<Rightarrow> bool" where
  "is_respond a = (case a of Respond i r m \<Rightarrow> True | _ \<Rightarrow> False)"

definition push_assistant :: "model_turn \<Rightarrow> loop_state \<Rightarrow> loop_state" where
  "push_assistant t s =
     (if mt_assistant_tool_calls t \<noteq> []
      then push (assistant_message (case mt_assistant_message t of Some m \<Rightarrow> m | None \<Rightarrow> [])
          (mt_assistant_tool_calls t) (mt_reasoning t)) s
      else case mt_assistant_message t of
          Some m \<Rightarrow> if is_respond (mt_action t) then s else push (assistant_message m [] (mt_reasoning t)) s
        | None \<Rightarrow> s)"

definition record_response :: "run_config \<Rightarrow> nat \<Rightarrow> model_turn \<Rightarrow> loop_state \<Rightarrow> loop_state" where
  "record_response c turn t s =
     (let s1 = (case mt_usage t of
            Some u \<Rightarrow> s\<lparr>lp_tokens_used := u64_add (lp_tokens_used s) (tu_total_tokens u)\<rparr> | None \<Rightarrow> s)
      in emit c EkActionProposed (PvAction (mt_action t))
           (push_assistant t (emit c EkModelResponseFinished (response_payload c turn t) s1)))"

text \<open>A tool result goes into the events and the transcript.\<close>

definition finish_tool ::
    "codec \<Rightarrow> run_config \<Rightarrow> tool_result \<Rightarrow> string option \<Rightarrow> json agent_action option \<Rightarrow> loop_state \<Rightarrow> loop_state" where
  "finish_tool cd c result call_id action s =
     push (tool_message cd result call_id action) (emit c EkToolFinished (PvResult result) s)"

text \<open>The call the result answers: the first native tool call, or the action itself.\<close>

definition answered_call :: "model_turn \<Rightarrow> string option" where
  "answered_call t =
     (case mt_assistant_tool_calls t of call # _ \<Rightarrow> Some (mc_id call) | [] \<Rightarrow> Some (action_id (mt_action t)))"

definition exhausted ::
    "run_config \<Rightarrow> turn_draw \<Rightarrow> nat \<Rightarrow> string \<Rightarrow> (string \<times> pvalue) list \<Rightarrow> loop_state \<Rightarrow> turn_step" where
  "exhausted c d turn error details s =
     stop_failed c d (turn + 1) error (emit c EkRunFailed (PvFields ((''error'', PvStr error) # details)) s)"

section \<open>Turns that execute nothing\<close>

definition reserve_refused :: "codec \<Rightarrow> run_config \<Rightarrow> turn_plan \<Rightarrow> json agent_action \<Rightarrow> loop_state \<Rightarrow> turn_step" where
  "reserve_refused cd c pl a s =
     Next (finish_tool cd c
       (tool_result_error
         (if pl_finish_allowed pl then ''verifier final reserve accepts only submit_verification or finish''
          else ''verifier final reserve accepts only submit_verification'')
         (JObject
           [(''allowed_actions'', JArray (if pl_finish_allowed pl then [JString ''submit_verification'', JString ''finish'']
               else [JString ''submit_verification''])),
            (''error_kind'', JString ''verifier_final_reserve''),
            (''remaining_turns'', JNumber (show_nat (pl_remaining_turns pl)))]))
       (Some (action_id a)) (Some a) s)"

definition builder_refused ::
    "codec \<Rightarrow> run_config \<Rightarrow> turn_draw \<Rightarrow> nat \<Rightarrow> json agent_action \<Rightarrow> loop_state \<Rightarrow> turn_step" where
  "builder_refused cd c d turn a s =
     (let s1 = finish_tool cd c
            (tool_result_error ''builder evidence is complete; only submit_implementation is authorized''
              (JObject
                [(''action'', JString (kind_name a)), (''allowed_actions'', JArray [JString ''submit_implementation'']),
                 (''error_kind'', JString ''builder_submission_required''), (''executed'', JBool False)]))
            (Some (action_id a)) (Some a) s
      in if lp_corrections s1 < 2
         then Next (correct c turn ''invalid_action''
           [(''action'', PvStr (kind_name a)), (''required_action'', PvStr ''submit_implementation'')]
           ''builder evidence is sealed; submit_implementation is the only action exposed in the current request'' s1)
         else exhausted c d turn ''protocol_correction_exhausted:builder_submission_required''
           [(''stop_category'', PvStr ''invalid_action''), (''turn'', PvNat turn), (''action'', PvStr (kind_name a)),
            (''required_action'', PvStr ''submit_implementation''),
            (''protocol_corrections'', PvNat (lp_corrections s1))] s1)"

definition finish_refused :: "codec \<Rightarrow> run_config \<Rightarrow> turn_draw \<Rightarrow> nat \<Rightarrow> string \<Rightarrow> loop_state \<Rightarrow> turn_step" where
  "finish_refused cd c d turn i s =
     (if lp_corrections s < 2
      then Next (correct c turn ''invalid_action'' [(''action'', PvStr ''finish'')]
        ''use the stage's typed submit_* action; it is terminal and replaces finish''
        (finish_tool cd c
          (tool_result_error ''finish is not a terminal action for reliability-v2 stages''
            (JObject
              [(''action'', JString ''finish''), (''error_kind'', JString ''unsupported_action''),
               (''executed'', JBool False), (''recoverable'', JBool False)]))
          (Some i) None s))
      else exhausted c d turn ''protocol_correction_exhausted:invalid_action''
        [(''stop_category'', PvStr ''invalid_action''), (''error_kind'', PvStr ''unsupported_action''),
         (''turn'', PvNat turn), (''action'', PvStr ''finish''), (''protocol_corrections'', PvNat (lp_corrections s))] s)"

definition finished_outcome :: "run_config \<Rightarrow> turn_draw \<Rightarrow> nat \<Rightarrow> string \<Rightarrow> bool \<Rightarrow> loop_state \<Rightarrow> run_outcome" where
  "finished_outcome c d turn summary success s =
     \<lparr>ro_status = (if success then RstCompleted else RstFailed), ro_turns = turn + 1, ro_summary = Some summary,
      ro_error = (if success then None else Some ''model finished unsuccessfully''), ro_approval = None,
      ro_budget_pause = None,
      ro_consumption = consumption_snapshot c (turn + 1) (lp_tokens_used s) (active_seconds c (tn_elapsed_after d))\<rparr>"

definition reject_finish :: "completion_state \<Rightarrow> completion_state" where
  "reject_finish s = s\<lparr>cs_rejected_finishes := cs_rejected_finishes s + 1\<rparr>"

definition finish_action ::
    "codec \<Rightarrow> run_config \<Rightarrow> turn_draw \<Rightarrow> nat \<Rightarrow> string \<Rightarrow> string \<Rightarrow> bool \<Rightarrow> loop_state \<Rightarrow> turn_step" where
  "finish_action cd c d turn i summary success s =
     (case (success, completion_failure_reason (rc_task_contract c) (lp_completion s)) of
        (True, Some reason) \<Rightarrow>
          (let s1 = s\<lparr>lp_completion := reject_finish (lp_completion s)\<rparr>;
               n = cs_rejected_finishes (lp_completion s1)
           in if 2 < n then exhausted c d turn ''completion_evidence_exhausted'' [(''turn'', PvNat turn)] s1
              else Next (finish_tool cd c
                (tool_result_error ''finish rejected: completion evidence is incomplete''
                  (JObject
                    [(''error_kind'', JString ''completion_evidence_missing''), (''reason'', JString reason),
                     (''rejected_finishes'', JNumber (show_nat n))]))
                (Some i) None s1))
      | _ \<Rightarrow>
          Done (emit c (if success then EkRunFinished else EkRunFailed)
              (PvFields [(''summary'', PvStr summary), (''success'', PvBool success)]) s)
            (finished_outcome c d turn summary success s))"

definition approval_outcome ::
    "run_config \<Rightarrow> turn_draw \<Rightarrow> nat \<Rightarrow> approval_kind \<Rightarrow> risk_level \<Rightarrow> string \<Rightarrow> json agent_action option \<Rightarrow> loop_state
       \<Rightarrow> run_outcome" where
  "approval_outcome c d turn kind risk summary action s =
     \<lparr>ro_status = RstApprovalRequired, ro_turns = turn + 1, ro_summary = Some summary, ro_error = None,
      ro_approval = Some \<lparr>pa_approval_kind = kind, pa_risk = risk, pa_summary = summary, pa_action = action,
        pa_resume_messages = lp_messages s, pa_turns_completed = turn + 1\<rparr>,
      ro_budget_pause = None,
      ro_consumption = consumption_snapshot c (turn + 1) (lp_tokens_used s) (active_seconds c (tn_elapsed_after d))\<rparr>"

definition request_approval ::
    "run_config \<Rightarrow> turn_draw \<Rightarrow> nat \<Rightarrow> approval_kind \<Rightarrow> string \<Rightarrow> loop_state \<Rightarrow> turn_step" where
  "request_approval c d turn kind summary s =
     Done (emit c EkApprovalRequired (PvFields
         [(''approval_kind'', PvApproval kind), (''summary'', PvStr summary), (''run_scope'', scope_value c)]) s)
       (approval_outcome c d turn kind RiskMedium summary None s)"

definition respond_action :: "run_config \<Rightarrow> turn_draw \<Rightarrow> nat \<Rightarrow> string \<Rightarrow> loop_state \<Rightarrow> turn_step" where
  "respond_action c d turn message s =
     (if \<not> reliability_v2_enabled c then Next (push (assistant_message message [] None) s)
      else if lp_corrections s < 2
      then Next (correct c turn ''missing_action'' [(''message'', PvStr message)]
        ''the response did not select a PHarness action'' (push (assistant_message message [] None) s))
      else exhausted c d turn ''protocol_correction_exhausted:missing_action''
        [(''stop_category'', PvStr ''missing_action''), (''turn'', PvNat turn),
         (''protocol_corrections'', PvNat (lp_corrections s))] s)"

section \<open>Turns that execute a tool\<close>

definition correct_or_stop ::
    "run_config \<Rightarrow> turn_draw \<Rightarrow> nat \<Rightarrow> string \<Rightarrow> (string \<times> pvalue) list \<Rightarrow> string \<Rightarrow> (string \<times> pvalue) list
       \<Rightarrow> loop_state \<Rightarrow> turn_step" where
  "correct_or_stop c d turn category extra message details s =
     (if lp_corrections s < 2 then Next (correct c turn category extra message s)
      else exhausted c d turn (''protocol_correction_exhausted:'' @ category)
        ([(''stop_category'', PvStr category)] @ details @
         [(''protocol_corrections'', PvNat (lp_corrections s))]) s)"

definition accept_submission :: "run_config \<Rightarrow> turn_draw \<Rightarrow> nat \<Rightarrow> string \<Rightarrow> loop_state \<Rightarrow> turn_step" where
  "accept_submission c d turn kind s =
     (let summary = ''controller-validated '' @ kind @ '' submission accepted'' in
      Done (emit c EkRunFinished (PvFields
          [(''summary'', PvStr summary), (''success'', PvBool True), (''terminal_submission'', PvStr kind)]) s)
        (finished_outcome c d turn summary True s))"

definition is_implementation :: "json agent_action \<Rightarrow> bool" where
  "is_implementation a = (case a of SubmitImplementation i r j \<Rightarrow> True | _ \<Rightarrow> False)"

definition tool_succeeded ::
    "codec \<Rightarrow> run_config \<Rightarrow> turn_draw \<Rightarrow> nat \<Rightarrow> model_turn \<Rightarrow> tool_result \<Rightarrow> loop_state \<Rightarrow> turn_step" where
  "tool_succeeded cd c d turn t result s =
     (let a = mt_action t;
          s1 = emit c EkToolFinished (PvResult result) s;
          s2 = s1\<lparr>lp_completion := update_completion_state (lp_completion s1) a result\<rparr>;
          s3 = push (tool_message cd result (answered_call t) (Some a)) s2
      in case terminal_submission_kind a of
           None \<Rightarrow> Next s3
         | Some kind \<Rightarrow>
             if tr_status result = TrsError then
               (if reliability_v2_enabled c
                then correct_or_stop c d turn ''invalid_submission'' [(''action'', PvStr (kind_name a))]
                  ''the controller rejected the typed terminal submission'' [(''turn'', PvNat turn)] s3
                else Next s3)
             else (case (is_implementation a, implementation_submission_failure_reason c (lp_completion s3)) of
                 (True, Some reason) \<Rightarrow>
                   correct_or_stop c d turn ''missing_completion_evidence'' [(''action'', PvStr (kind_name a))]
                     reason [(''turn'', PvNat turn)]
                     (finish_tool cd c
                       (tool_result_error ''implementation submission rejected: completion evidence is incomplete''
                         (JObject [(''error_kind'', JString ''completion_evidence_missing''), (''reason'', JString reason)]))
                       (Some (action_id a)) (Some a) s3)
               | _ \<Rightarrow> accept_submission c d turn kind s3))"

definition unexposed_action ::
    "codec \<Rightarrow> run_config \<Rightarrow> turn_draw \<Rightarrow> nat \<Rightarrow> model_turn \<Rightarrow> tool_error \<Rightarrow> loop_state \<Rightarrow> turn_step" where
  "unexposed_action cd c d turn t e s =
     (let a = mt_action t in
      correct_or_stop c d turn ''invalid_action'' [(''action'', PvStr (kind_name a))]
        ''select exactly one action from the tools exposed in the current request''
        [(''error_kind'', PvStr (error_kind_name e)), (''turn'', PvNat turn), (''action'', PvStr (kind_name a))]
        (finish_tool cd c
          (tool_result_error ''the selected action is not exposed by this immutable AgentProfile''
            (JObject
              [(''action'', JString (kind_name a)), (''error_kind'', JString (error_kind_name e)),
               (''executed'', JBool False), (''recoverable'', JBool False)]))
          (answered_call t) (Some a) s))"

definition recoverable_failure ::
    "codec \<Rightarrow> run_config \<Rightarrow> turn_draw \<Rightarrow> nat \<Rightarrow> model_turn \<Rightarrow> tool_error \<Rightarrow> loop_state \<Rightarrow> turn_step" where
  "recoverable_failure cd c d turn t e s =
     (let a = mt_action t;
          s1 = s\<lparr>lp_recovery := count_failure (action_fingerprint cd a e) (lp_recovery s)\<rparr>
      in if may_recover (rc_recovery_policy c) (lp_recovery s1)
         then Next (finish_tool cd c (recoverable_error_result cd a e (lp_recovery s1)) (answered_call t) (Some a) s1)
         else exhausted c d turn ''tool_recovery_exhausted''
           [(''turn'', PvNat turn), (''action'', PvStr (kind_name a)),
            (''recoverable_error_kind'', PvStr (error_kind_name e))] s1)"

definition tool_stop_category :: "tool_error \<Rightarrow> string" where
  "tool_stop_category e =
     (case e of
        TeOutsideWorkspace p \<Rightarrow> ''workspace_scope_violation''
      | TeUnsupportedAction a \<Rightarrow> ''tool_policy_rejection''
      | _ \<Rightarrow> ''tool_execution_failure'')"

definition tool_failed ::
    "codec \<Rightarrow> run_config \<Rightarrow> turn_draw \<Rightarrow> nat \<Rightarrow> model_turn \<Rightarrow> tool_error \<Rightarrow> loop_state \<Rightarrow> turn_step" where
  "tool_failed cd c d turn t e s =
     (if reliability_v2_enabled c \<and> e = TeUnsupportedAction (kind_name (mt_action t))
      then unexposed_action cd c d turn t e s
      else if disposition e = Recoverable then recoverable_failure cd c d turn t e s
      else exhausted c d turn (tool_error_str e)
        [(''stop_category'', PvStr (tool_stop_category e)), (''error_kind'', PvStr (error_kind_name e)),
         (''turn'', PvNat turn), (''action'', PvStr (kind_name (mt_action t)))] s)"

definition execute_tool :: "codec \<Rightarrow> run_config \<Rightarrow> turn_draw \<Rightarrow> nat \<Rightarrow> model_turn \<Rightarrow> loop_state \<Rightarrow> turn_step" where
  "execute_tool cd c d turn t s =
     (let s1 = log_effect (FxExecute (mt_action t) (tn_tool d))
            (emit c EkToolStarted (PvFields [(''action'', PvStr (kind_name (mt_action t)))]) s)
      in case tn_tool d of
           Inr result \<Rightarrow> tool_succeeded cd c d turn t result s1
         | Inl e \<Rightarrow> tool_failed cd c d turn t e s1)"

definition tool_action :: "codec \<Rightarrow> run_config \<Rightarrow> turn_draw \<Rightarrow> nat \<Rightarrow> model_turn \<Rightarrow> loop_state \<Rightarrow> turn_step" where
  "tool_action cd c d turn t s =
     (let a = mt_action t;
          decision = evaluate_action_in_scope (rc_policy c) a (rc_run_scope c);
          s1 = emit c EkPolicyEvaluated (PvFields
            [(''action'', PvStr (kind_name a)), (''decision'', PvDecision decision), (''run_scope'', scope_value c)]) s
      in case decision of
           PdAllow risk summary grant \<Rightarrow> execute_tool cd c d turn t s1
         | PdAsk kind risk summary \<Rightarrow>
             Done (emit c EkApprovalRequired (PvFields
                 [(''approval_kind'', PvApproval kind), (''summary'', PvStr summary),
                  (''action'', PvStr (kind_name a)), (''run_scope'', scope_value c)]) s1)
               (approval_outcome c d turn kind risk summary (Some a) s1)
         | PdDeny risk summary \<Rightarrow>
             exhausted c d turn summary
               [(''stop_category'', PvStr ''tool_policy_rejection''), (''turn'', PvNat turn),
                (''action'', PvStr (kind_name a))] s1)"

section \<open>A turn\<close>

definition is_verification :: "json agent_action \<Rightarrow> bool" where
  "is_verification a = (case a of SubmitVerification i r j \<Rightarrow> True | _ \<Rightarrow> False)"

definition is_finish :: "json agent_action \<Rightarrow> bool" where
  "is_finish a = (case a of Finish i r m ok \<Rightarrow> True | _ \<Rightarrow> False)"

definition handle_action ::
    "codec \<Rightarrow> run_config \<Rightarrow> turn_draw \<Rightarrow> turn_plan \<Rightarrow> model_turn \<Rightarrow> loop_state \<Rightarrow> turn_step" where
  "handle_action cd c d pl t s =
     (let a = mt_action t; turn = pl_turn pl in
      if pl_reserve pl \<and> \<not> is_verification a \<and> \<not> (pl_finish_allowed pl \<and> is_finish a)
      then reserve_refused cd c pl a s
      else if pl_builder_only pl \<and> \<not> is_implementation a then builder_refused cd c d turn a s
      else case a of
          Finish i r summary success \<Rightarrow>
            if reliability_v2_enabled c then finish_refused cd c d turn i s
            else finish_action cd c d turn i summary success s
        | RequestApproval i r kind summary \<Rightarrow> request_approval c d turn kind summary s
        | Respond i r message \<Rightarrow> respond_action c d turn message s
        | _ \<Rightarrow> tool_action cd c d turn t s)"

text \<open>The checks before a turn: budget, cancellation, and what fits the context.\<close>

definition budget_stop :: "run_config \<Rightarrow> turn_draw \<Rightarrow> nat \<Rightarrow> loop_state \<Rightarrow> run_outcome option" where
  "budget_stop c d turn s =
     (case rc_run_budget c of
        None \<Rightarrow> None
      | Some b \<Rightarrow>
          let active = active_seconds c (tn_elapsed_before d) in
          if xb_active_execution_seconds b \<le> active
          then Some (failed_outcome turn ''active_execution_budget_exhausted''
            (consumption_snapshot c turn (lp_tokens_used s) active))
          else if bc_allowed_tokens (rc_budget_consumption c) \<le> lp_tokens_used s
          then Some (budget_boundary_outcome c turn (lp_tokens_used s) (lp_messages s) b active
            ''soft_token_budget_exhausted'')
          else None)"

definition run_turn :: "codec \<Rightarrow> run_config \<Rightarrow> turn_draw \<Rightarrow> nat \<Rightarrow> loop_state \<Rightarrow> turn_step" where
  "run_turn cd c d turn s =
     (case budget_stop c d turn s of
        Some outcome \<Rightarrow> Done s outcome
      | None \<Rightarrow>
          if tn_cancelled d
          then Done (emit c EkRunCancelled (PvFields [(''turn'', PvNat turn)]) s)
            (cancelled_outcome turn
              (consumption_snapshot c turn (lp_tokens_used s) (active_seconds c (tn_elapsed_after d))))
          else case pack_messages cd (lp_messages s) (rc_context_budget c) of
              Inl e \<Rightarrow>
                stop_failed c d turn context_error_str
                  (emit c EkRunFailed (PvFields [(''error'', PvStr context_error_str), (''turn'', PvNat turn)]) s)
            | Inr packed \<Rightarrow>
                let s1 = s\<lparr>lp_messages := cp_messages packed\<rparr>;
                    pl = plan_turn c (lp_completion s1) turn
                in (case send_request cd c d pl packed s1 of
                      Done s2 outcome \<Rightarrow> Done s2 outcome
                    | Next s2 \<Rightarrow>
                        (case tn_response d of
                           Inl e \<Rightarrow> provider_failed c d turn e s2
                         | Inr t \<Rightarrow> handle_action cd c d pl t (record_response c turn t s2))))"

section \<open>The loop\<close>

definition turns_exhausted :: "run_config \<Rightarrow> turn_draw \<Rightarrow> loop_state \<Rightarrow> loop_state \<times> run_outcome" where
  "turns_exhausted c d s =
     (case rc_run_budget c of
        Some b \<Rightarrow>
          (s, budget_boundary_outcome c (rc_max_turns c) (lp_tokens_used s) (lp_messages s) b
            (active_seconds c (tn_elapsed_after d)) ''soft_turn_budget_exhausted'')
      | None \<Rightarrow>
          let message = ''run exceeded max_turns='' @ show_nat (rc_max_turns c) in
          (emit c EkRunFailed (PvFields [(''error'', PvStr message)]) s,
           failed_outcome (rc_max_turns c) message
             (consumption_snapshot c (rc_max_turns c) (lp_tokens_used s) (active_seconds c (tn_elapsed_after d)))))"

fun run_turns ::
    "codec \<Rightarrow> run_config \<Rightarrow> (nat \<Rightarrow> turn_draw) \<Rightarrow> nat list \<Rightarrow> loop_state \<Rightarrow> loop_state \<times> run_outcome" where
  "run_turns cd c draws [] s = turns_exhausted c (draws (rc_max_turns c)) s"
| "run_turns cd c draws (turn # turns) s =
     (case run_turn cd c (draws turn) turn s of
        Next s' \<Rightarrow> run_turns cd c draws turns s'
      | Done s' outcome \<Rightarrow> (s', outcome))"

definition initial_payload :: "run_config \<Rightarrow> pvalue" where
  "initial_payload c = PvFields
     (if reliability_v2_enabled c
      then [(''initial_context'', PvFields
        [(''schema_version'', PvStr ''pharness.dev/initial-model-context/v1''),
         (''content_hash'', PvHash (rc_messages c)), (''messages'', PvMessages (rc_messages c))])]
      else [])"

definition start_messages :: "run_config \<Rightarrow> run_start \<Rightarrow> model_message list" where
  "start_messages c start =
     (case start of
        Fresh \<Rightarrow> rc_messages c
      | Approved a \<Rightarrow> aa_resume_messages a
      | ResumedBudget b \<Rightarrow> br_resume_messages b)"

definition start_turn :: "run_start \<Rightarrow> nat" where
  "start_turn start =
     (case start of
        Fresh \<Rightarrow> 0
      | Approved a \<Rightarrow> aa_turns_completed a
      | ResumedBudget b \<Rightarrow> br_turns_completed b)"

definition emit_start :: "run_config \<Rightarrow> run_start \<Rightarrow> loop_state \<Rightarrow> loop_state" where
  "emit_start c start s =
     (case start of
        Fresh \<Rightarrow> emit c EkRunStarted (initial_payload c) s
      | Approved a \<Rightarrow> emit c EkRunResumed (PvFields
          [(''approval_id'', PvStr (aa_approval_id a)), (''action'', PvStr (kind_name (aa_action a))),
           (''run_scope'', scope_value c)]) s
      | ResumedBudget b \<Rightarrow> emit c EkRunResumed (PvFields
          [(''budget_extension'', PvBool True), (''turns_completed'', PvNat (br_turns_completed b)),
           (''run_scope'', scope_value c)]) s)"

definition start_state :: "codec \<Rightarrow> run_config \<Rightarrow> run_start \<Rightarrow> loop_state" where
  "start_state cd c start =
     (let ms = start_messages c start; (recovery, completion) = resume_runtime_state cd ms in
      emit_start c start
        \<lparr>lp_seq = rc_event_seq_start c, lp_messages = ms,
         lp_tokens_used = bc_tokens_used (rc_budget_consumption c), lp_recovery = recovery,
         lp_completion = completion, lp_corrections = protocol_correction_count ms, lp_trace = []\<rparr>)"

text \<open>The action an operator approved is executed as it was paused, without asking the policy again.\<close>

definition execute_approved_action ::
    "codec \<Rightarrow> run_config \<Rightarrow> turn_draw \<Rightarrow> approved_action \<Rightarrow> loop_state \<Rightarrow> turn_step" where
  "execute_approved_action cd c d approved s =
     (let a = aa_action approved;
          stop = (\<lambda>error s. stop_failed c d (aa_turns_completed approved) error s);
          s1 = log_effect (FxExecute a (tn_tool d))
            (emit c EkToolStarted (PvFields
              [(''action'', PvStr (kind_name a)), (''approval_id'', PvStr (aa_approval_id approved))]) s)
      in case tn_tool d of
           Inr result \<Rightarrow>
             let s2 = emit c EkToolFinished (PvResult result) s1 in
             Next (push (tool_message cd result (Some (action_id a)) (Some a))
               (s2\<lparr>lp_completion := update_completion_state (lp_completion s2) a result\<rparr>))
         | Inl e \<Rightarrow>
             if disposition e = Recoverable then
               (let s2 = s1\<lparr>lp_recovery := count_failure (action_fingerprint cd a e) (lp_recovery s1)\<rparr> in
                if may_recover (rc_recovery_policy c) (lp_recovery s2)
                then Next (finish_tool cd c (recoverable_error_result cd a e (lp_recovery s2))
                  (Some (action_id a)) (Some a) s2)
                else stop ''tool_recovery_exhausted'' s2)
             else stop (tool_error_str e)
               (emit c EkRunFailed (PvFields
                 [(''error'', PvStr (tool_error_str e)), (''action'', PvStr (kind_name a)),
                  (''approval_id'', PvStr (aa_approval_id approved))]) s1))"

definition run_loop ::
    "codec \<Rightarrow> run_config \<Rightarrow> turn_draw \<Rightarrow> (nat \<Rightarrow> turn_draw) \<Rightarrow> run_start \<Rightarrow> loop_state \<times> run_outcome" where
  "run_loop cd c approved_draw draws start =
     (let s = start_state cd c start; turns = [start_turn start..<rc_max_turns c] in
      case start of
        Approved a \<Rightarrow>
          (case execute_approved_action cd c approved_draw a s of
             Done s' outcome \<Rightarrow> (s', outcome)
           | Next s' \<Rightarrow> run_turns cd c draws turns s')
      | _ \<Rightarrow> run_turns cd c draws turns s)"

end
