(* ===== verification/RuntimeSafety.thy ===== *)
theory RuntimeSafety
  imports AgentRuntime
begin

text \<open>
  What one turn of the agent loop does to its state, and what follows for a whole run: which actions
  are executed, how often the model is corrected and asked, and the evidence behind a completed run.
\<close>

section \<open>Views of the trace\<close>

definition executed :: "loop_state \<Rightarrow> (json agent_action \<times> (tool_error, tool_result) res) list" where
  "executed s = List.map_filter (\<lambda>x. case x of FxExecute a r \<Rightarrow> Some (a, r) | _ \<Rightarrow> None) (lp_trace s)"

definition requested :: "loop_state \<Rightarrow> model_request list" where
  "requested s = List.map_filter (\<lambda>x. case x of FxRequest q \<Rightarrow> Some q | _ \<Rightarrow> None) (lp_trace s)"

definition emitted :: "loop_state \<Rightarrow> agent_event list" where
  "emitted s = List.map_filter (\<lambda>x. case x of FxEvent e \<Rightarrow> Some e | _ \<Rightarrow> None) (lp_trace s)"

definition correction_events :: "loop_state \<Rightarrow> nat" where
  "correction_events s = length (filter (\<lambda>e. ae_kind e = EkModelProtocolCorrection) (emitted s))"

definition step_state :: "turn_step \<Rightarrow> loop_state" where
  "step_state x = (case x of Next s \<Rightarrow> s | Done s outcome \<Rightarrow> s)"

lemma step_state_simps [simp]: "step_state (Next s) = s" "step_state (Done s outcome) = s"
  by (simp_all add: step_state_def)

lemma map_filter_snoc: "List.map_filter f (xs @ [x]) = List.map_filter f xs @ (case f x of Some y \<Rightarrow> [y] | None \<Rightarrow> [])"
  by (simp add: List.map_filter_def split: option.split)

lemma emit_simps [simp]:
  "executed (emit c k p s) = executed s" "requested (emit c k p s) = requested s"
  "lp_messages (emit c k p s) = lp_messages s" "lp_tokens_used (emit c k p s) = lp_tokens_used s"
  "lp_recovery (emit c k p s) = lp_recovery s" "lp_completion (emit c k p s) = lp_completion s"
  "lp_corrections (emit c k p s) = lp_corrections s" "lp_seq (emit c k p s) = lp_seq s + 1"
  "correction_events (emit c k p s) = correction_events s + (if k = EkModelProtocolCorrection then 1 else 0)"
  "map ae_seq (emitted (emit c k p s)) = map ae_seq (emitted s) @ [lp_seq s + 1]"
  by (simp_all add: emit_def Let_def executed_def requested_def correction_events_def emitted_def map_filter_snoc)

lemma push_simps [simp]:
  "executed (push m s) = executed s" "requested (push m s) = requested s" "emitted (push m s) = emitted s"
  "lp_messages (push m s) = lp_messages s @ [m]" "lp_tokens_used (push m s) = lp_tokens_used s"
  "lp_recovery (push m s) = lp_recovery s" "lp_completion (push m s) = lp_completion s"
  "lp_corrections (push m s) = lp_corrections s" "lp_seq (push m s) = lp_seq s"
  "correction_events (push m s) = correction_events s" "lp_trace (push m s) = lp_trace s"
  by (simp_all add: push_def executed_def requested_def correction_events_def emitted_def)

lemma log_effect_simps [simp]:
  "executed (log_effect (FxExecute a r) s) = executed s @ [(a, r)]" "requested (log_effect (FxExecute a r) s) = requested s"
  "requested (log_effect (FxRequest q) s) = requested s @ [q]" "executed (log_effect (FxRequest q) s) = executed s"
  "lp_messages (log_effect x s) = lp_messages s" "lp_tokens_used (log_effect x s) = lp_tokens_used s"
  "lp_recovery (log_effect x s) = lp_recovery s" "lp_completion (log_effect x s) = lp_completion s"
  "lp_corrections (log_effect x s) = lp_corrections s" "lp_seq (log_effect x s) = lp_seq s"
  "emitted (log_effect (FxExecute a r) s) = emitted s" "emitted (log_effect (FxRequest q) s) = emitted s"
  "correction_events (log_effect (FxExecute a r) s) = correction_events s"
  "correction_events (log_effect (FxRequest q) s) = correction_events s"
  by (simp_all add: log_effect_def executed_def requested_def correction_events_def emitted_def map_filter_snoc)

lemma update_simps [simp]:
  "executed (s\<lparr>lp_messages := ms\<rparr>) = executed s" "executed (s\<lparr>lp_completion := cs\<rparr>) = executed s"
  "executed (s\<lparr>lp_recovery := rv\<rparr>) = executed s" "executed (s\<lparr>lp_corrections := n\<rparr>) = executed s"
  "executed (s\<lparr>lp_tokens_used := n\<rparr>) = executed s"
  "requested (s\<lparr>lp_messages := ms\<rparr>) = requested s" "requested (s\<lparr>lp_completion := cs\<rparr>) = requested s"
  "requested (s\<lparr>lp_recovery := rv\<rparr>) = requested s" "requested (s\<lparr>lp_corrections := n\<rparr>) = requested s"
  "requested (s\<lparr>lp_tokens_used := n\<rparr>) = requested s"
  "emitted (s\<lparr>lp_messages := ms\<rparr>) = emitted s" "emitted (s\<lparr>lp_completion := cs\<rparr>) = emitted s"
  "emitted (s\<lparr>lp_recovery := rv\<rparr>) = emitted s" "emitted (s\<lparr>lp_corrections := n\<rparr>) = emitted s"
  "emitted (s\<lparr>lp_tokens_used := n\<rparr>) = emitted s"
  "correction_events (s\<lparr>lp_messages := ms\<rparr>) = correction_events s"
  "correction_events (s\<lparr>lp_completion := cs\<rparr>) = correction_events s"
  "correction_events (s\<lparr>lp_recovery := rv\<rparr>) = correction_events s"
  "correction_events (s\<lparr>lp_corrections := n\<rparr>) = correction_events s"
  "correction_events (s\<lparr>lp_tokens_used := n\<rparr>) = correction_events s"
  by (simp_all add: executed_def requested_def correction_events_def emitted_def)

section \<open>Turns\<close>

text \<open>What a turn adds, by the parts of the state a property looks at: \<open>evidence\<close> leaves out the count
  of rejected finishes.\<close>

definition evidence :: "loop_state \<Rightarrow> completion_state" where
  "evidence s = (lp_completion s)\<lparr>cs_rejected_finishes := 0\<rparr>"

definition note_execution :: "json agent_action \<times> (tool_error, tool_result) res \<Rightarrow> completion_state \<Rightarrow> completion_state" where
  "note_execution x s = (case snd x of Inr result \<Rightarrow> update_completion_state s (fst x) result | Inl e \<Rightarrow> s)"

definition note_failure :: "json agent_action \<times> (tool_error, tool_result) res \<Rightarrow> nat" where
  "note_failure x = (case snd x of Inl e \<Rightarrow> if disposition e = Recoverable then 1 else 0 | Inr result \<Rightarrow> 0)"

text \<open>A step that executes nothing and corrects at most once, within the bound.\<close>

definition quiet_step :: "loop_state \<Rightarrow> loop_state \<Rightarrow> bool" where
  "quiet_step s s' \<longleftrightarrow>
     executed s' = executed s \<and> requested s' = requested s \<and> evidence s' = evidence s \<and>
     lp_recovery s' = lp_recovery s \<and> lp_tokens_used s' = lp_tokens_used s \<and>
     correction_events s' + lp_corrections s = correction_events s + lp_corrections s' \<and>
     lp_corrections s \<le> lp_corrections s' \<and> lp_corrections s' \<le> max 2 (lp_corrections s)"

lemma quiet_refl [simp]: "quiet_step s s"
  by (simp add: quiet_step_def)

lemma quiet_emit [simp]: "k \<noteq> EkModelProtocolCorrection \<Longrightarrow> quiet_step s (emit c k p s') \<longleftrightarrow> quiet_step s s'"
  by (simp add: quiet_step_def evidence_def)

lemma quiet_push [simp]: "quiet_step s (push m s') \<longleftrightarrow> quiet_step s s'"
  by (simp add: quiet_step_def evidence_def)

lemma quiet_correct: "quiet_step s s' \<Longrightarrow> lp_corrections s' < 2 \<Longrightarrow> quiet_step s (correct c turn category extra message s')"
  by (auto simp: correct_def Let_def quiet_step_def evidence_def)

lemma quiet_finish_tool [simp]: "quiet_step s (finish_tool cd c result i a s') \<longleftrightarrow> quiet_step s s'"
  by (simp add: finish_tool_def)

lemma quiet_reject: "quiet_step s s' \<Longrightarrow> quiet_step s (s'\<lparr>lp_completion := reject_finish (lp_completion s')\<rparr>)"
  by (simp add: quiet_step_def evidence_def reject_finish_def)

lemma quiet_exhausted [simp]: "quiet_step s (step_state (exhausted c d turn error details s')) \<longleftrightarrow> quiet_step s s'"
  by (simp add: exhausted_def stop_failed_def)

lemma correct_or_stop_quiet [simp]:
  "quiet_step s s' \<Longrightarrow> quiet_step s (step_state (correct_or_stop c d turn category extra message details s'))"
  by (simp add: correct_or_stop_def quiet_correct)

lemma reserve_refused_quiet [simp]: "quiet_step s (step_state (reserve_refused cd c pl a s))"
  by (simp add: reserve_refused_def)

lemma builder_refused_quiet [simp]: "quiet_step s (step_state (builder_refused cd c d turn a s))"
  by (simp add: builder_refused_def Let_def finish_tool_def quiet_correct)

lemma finish_refused_quiet [simp]: "quiet_step s (step_state (finish_refused cd c d turn i s))"
  by (simp add: finish_refused_def finish_tool_def quiet_correct)

lemma finish_action_quiet [simp]: "quiet_step s (step_state (finish_action cd c d turn i summary success s))"
  by (auto simp: finish_action_def Let_def quiet_reject split: bool.split option.split)

lemma request_approval_quiet [simp]: "quiet_step s (step_state (request_approval c d turn kind summary s))"
  by (simp add: request_approval_def)

lemma respond_action_quiet [simp]: "quiet_step s (step_state (respond_action c d turn message s))"
  by (simp add: respond_action_def quiet_correct)

lemma provider_failed_quiet [simp]: "quiet_step s (step_state (provider_failed c d turn e s))"
  by (auto simp: provider_failed_def stop_failed_def quiet_correct split: model_provider_error.split bool.split)

lemma unexposed_action_quiet [simp]: "quiet_step s (step_state (unexposed_action cd c d turn t e s))"
  by (simp add: unexposed_action_def Let_def)

text \<open>A step that executed one action.\<close>

definition ran_one :: "json agent_action \<times> (tool_error, tool_result) res \<Rightarrow> loop_state \<Rightarrow> loop_state \<Rightarrow> bool" where
  "ran_one x s s' \<longleftrightarrow>
     executed s' = executed s @ [x] \<and> requested s' = requested s \<and> evidence s' = note_execution x (evidence s) \<and>
     rv_total (lp_recovery s') = rv_total (lp_recovery s) + note_failure x \<and> lp_tokens_used s' = lp_tokens_used s \<and>
     correction_events s' + lp_corrections s = correction_events s + lp_corrections s' \<and>
     lp_corrections s \<le> lp_corrections s' \<and> lp_corrections s' \<le> max 2 (lp_corrections s)"

lemma ran_quiet: "ran_one x s s1 \<Longrightarrow> quiet_step s1 s2 \<Longrightarrow> ran_one x s s2"
  by (auto simp: ran_one_def quiet_step_def)

lemma quiet_ran: "quiet_step s s1 \<Longrightarrow> ran_one x s1 s2 \<Longrightarrow> ran_one x s s2"
  by (auto simp: ran_one_def quiet_step_def)

lemma update_rejected:
  "(update_completion_state s a r)\<lparr>cs_rejected_finishes := 0\<rparr> = update_completion_state (s\<lparr>cs_rejected_finishes := 0\<rparr>) a r"
  by (cases a) (simp_all add: update_completion_state_def after_mutation_def is_mutation_def)

lemma count_failure_total [simp]: "rv_total (count_failure f s) = rv_total s + 1"
  by (simp add: count_failure_def)

lemma tool_succeeded_quiet:
  assumes "s3 = push (tool_message cd result (answered_call t) (Some (mt_action t)))
      ((emit c EkToolFinished (PvResult result) s)\<lparr>lp_completion := update_completion_state (lp_completion s) (mt_action t) result\<rparr>)"
  shows "quiet_step s3 (step_state (tool_succeeded cd c d turn t result s))"
  unfolding assms
  by (simp add: tool_succeeded_def Let_def accept_submission_def split: option.split bool.split prod.split)

lemma execute_tool_ran: "ran_one (mt_action t, tn_tool d) s (step_state (execute_tool cd c d turn t s))"
proof -
  let ?s1 = "log_effect (FxExecute (mt_action t) (tn_tool d))
      (emit c EkToolStarted (PvFields [(''action'', PvStr (kind_name (mt_action t)))]) s)"
  show ?thesis
  proof (cases "tn_tool d")
    case (Inr result)
    let ?s3 = "push (tool_message cd result (answered_call t) (Some (mt_action t)))
      ((emit c EkToolFinished (PvResult result) ?s1)\<lparr>lp_completion := update_completion_state (lp_completion ?s1) (mt_action t) result\<rparr>)"
    have "ran_one (mt_action t, tn_tool d) s ?s3"
      using Inr by (simp add: ran_one_def evidence_def note_execution_def note_failure_def update_rejected)
    moreover have "quiet_step ?s3 (step_state (tool_succeeded cd c d turn t result ?s1))"
      by (rule tool_succeeded_quiet) simp
    ultimately show ?thesis using Inr by (simp add: execute_tool_def ran_quiet)
  next
    case (Inl e)
    have q: "ran_one (mt_action t, tn_tool d) s (?s1\<lparr>lp_recovery := count_failure f (lp_recovery ?s1)\<rparr>)"
      if "disposition e = Recoverable" for f
      using Inl that by (simp add: ran_one_def evidence_def note_execution_def note_failure_def)
    have n: "ran_one (mt_action t, tn_tool d) s ?s1" if "disposition e \<noteq> Recoverable"
      using Inl that by (simp add: ran_one_def evidence_def note_execution_def note_failure_def)
    show ?thesis
    proof (cases "reliability_v2_enabled c \<and> e = TeUnsupportedAction (kind_name (mt_action t))")
      case True
      then have "disposition e \<noteq> Recoverable" by auto
      with n show ?thesis using Inl True by (auto simp: execute_tool_def tool_failed_def intro: ran_quiet)
    next
      case False
      show ?thesis
      proof (cases "disposition e = Recoverable")
        case True
        let ?s2 = "?s1\<lparr>lp_recovery := count_failure (action_fingerprint cd (mt_action t) e) (lp_recovery ?s1)\<rparr>"
        have "execute_tool cd c d turn t s = recoverable_failure cd c d turn t e ?s1"
          using Inl False True by (auto simp: execute_tool_def tool_failed_def)
        moreover have "quiet_step ?s2 (step_state (recoverable_failure cd c d turn t e ?s1))"
          by (simp add: recoverable_failure_def Let_def)
        ultimately show ?thesis using ran_quiet [OF q [OF True]] by simp
      next
        case other: False
        from ran_quiet [OF n [OF other]] show ?thesis
          using Inl False other by (auto simp: execute_tool_def tool_failed_def)
      qed
    qed
  qed
qed

lemma tool_action_effect:
  "quiet_step s (step_state (tool_action cd c d turn t s)) \<or>
   ran_one (mt_action t, tn_tool d) s (step_state (tool_action cd c d turn t s)) \<and>
     pd_is_allow (evaluate_action_in_scope (rc_policy c) (mt_action t) (rc_run_scope c))"
proof (cases "evaluate_action_in_scope (rc_policy c) (mt_action t) (rc_run_scope c)")
  case (PdAllow risk summary grant)
  have "ran_one (mt_action t, tn_tool d) s (step_state (tool_action cd c d turn t s))"
    using quiet_ran [OF _ execute_tool_ran] PdAllow by (simp add: tool_action_def Let_def)
  with PdAllow show ?thesis by simp
qed (simp_all add: tool_action_def Let_def)

text \<open>Which action a turn may execute in the final reserve and at the builder's boundary.\<close>

definition exposed :: "turn_plan \<Rightarrow> json agent_action \<Rightarrow> bool" where
  "exposed pl a \<longleftrightarrow> (pl_reserve pl \<longrightarrow> is_verification a) \<and> (pl_builder_only pl \<longrightarrow> is_implementation a)"

lemma handle_action_effect:
  "quiet_step s (step_state (handle_action cd c d pl t s)) \<or>
   ran_one (mt_action t, tn_tool d) s (step_state (handle_action cd c d pl t s)) \<and>
     pd_is_allow (evaluate_action_in_scope (rc_policy c) (mt_action t) (rc_run_scope c)) \<and> exposed pl (mt_action t)"
proof (cases "pl_reserve pl \<and> \<not> is_verification (mt_action t) \<and> \<not> (pl_finish_allowed pl \<and> is_finish (mt_action t)) \<or>
    pl_builder_only pl \<and> \<not> is_implementation (mt_action t)")
  case True
  then show ?thesis by (auto simp: handle_action_def Let_def)
next
  case False
  then show ?thesis
    using tool_action_effect [of s cd c d "pl_turn pl" t]
    by (cases "mt_action t") (auto simp: handle_action_def Let_def exposed_def is_finish_def)
qed

section \<open>The effect of a turn\<close>

text \<open>A turn asks the provider at most once, executes at most the action it proposed, and only if the
  policy allows it.\<close>

definition turn_request_ok :: "run_config \<Rightarrow> turn_draw \<Rightarrow> nat \<Rightarrow> loop_state \<Rightarrow> model_request \<Rightarrow> bool" where
  "turn_request_ok c d turn s q \<longleftrightarrow>
     \<not> tn_cancelled d \<and> mq_tools q = pl_tools (plan_turn c (lp_completion s) turn) \<and>
     (rc_run_budget c \<noteq> None \<longrightarrow> lp_tokens_used s < bc_allowed_tokens (rc_budget_consumption c))"

definition turn_action_ok ::
    "run_config \<Rightarrow> turn_draw \<Rightarrow> nat \<Rightarrow> loop_state \<Rightarrow> json agent_action \<times> (tool_error, tool_result) res \<Rightarrow> bool" where
  "turn_action_ok c d turn s x \<longleftrightarrow>
     (\<exists>t. tn_response d = Inr t \<and> x = (mt_action t, tn_tool d)) \<and>
     pd_is_allow (evaluate_action_in_scope (rc_policy c) (fst x) (rc_run_scope c)) \<and>
     exposed (plan_turn c (lp_completion s) turn) (fst x)"

definition turn_effect :: "run_config \<Rightarrow> turn_draw \<Rightarrow> nat \<Rightarrow> loop_state \<Rightarrow> loop_state \<Rightarrow> bool" where
  "turn_effect c d turn s s' \<longleftrightarrow>
     (\<exists>xs qs. executed s' = executed s @ xs \<and> requested s' = requested s @ qs \<and>
        evidence s' = fold note_execution xs (evidence s) \<and>
        rv_total (lp_recovery s') = rv_total (lp_recovery s) + sum_list (map note_failure xs) \<and>
        length xs \<le> length qs \<and> length qs \<le> 1 \<and>
        (\<forall>q\<in>set qs. turn_request_ok c d turn s q) \<and> (\<forall>x\<in>set xs. turn_action_ok c d turn s x)) \<and>
     correction_events s' + lp_corrections s = correction_events s + lp_corrections s' \<and>
     lp_corrections s \<le> lp_corrections s' \<and> lp_corrections s' \<le> max 2 (lp_corrections s)"

lemma quiet_effect: "quiet_step s s' \<Longrightarrow> turn_effect c d turn s s'"
  unfolding turn_effect_def quiet_step_def by (auto intro!: exI [of _ "[]"])

text \<open>The state in which the provider has answered.\<close>

definition asked :: "run_config \<Rightarrow> turn_draw \<Rightarrow> nat \<Rightarrow> loop_state \<Rightarrow> loop_state \<Rightarrow> bool" where
  "asked c d turn s s2 \<longleftrightarrow>
     (\<exists>q. requested s2 = requested s @ [q] \<and> turn_request_ok c d turn s q) \<and> executed s2 = executed s \<and>
     evidence s2 = evidence s \<and> lp_recovery s2 = lp_recovery s \<and> lp_corrections s2 = lp_corrections s \<and>
     correction_events s2 = correction_events s \<and> lp_completion s2 = lp_completion s"

lemma asked_quiet: "asked c d turn s s2 \<Longrightarrow> quiet_step s2 s' \<Longrightarrow> turn_effect c d turn s s'"
  unfolding turn_effect_def quiet_step_def asked_def by (force intro!: exI [of _ "[]"])

lemma asked_ran:
  assumes "asked c d turn s s2" "ran_one x s2 s'" "turn_action_ok c d turn s x"
  shows "turn_effect c d turn s s'"
proof -
  from assms(1) obtain q where "requested s2 = requested s @ [q]" "turn_request_ok c d turn s q"
    unfolding asked_def by blast
  with assms show ?thesis unfolding turn_effect_def ran_one_def asked_def
    by (intro conjI exI [of _ "[x]"] exI [of _ "[q]"]) auto
qed

lemma plan_turn_turn [simp]: "pl_turn (plan_turn c completion turn) = turn"
  by (simp add: plan_turn_def Let_def split: prod.split)

lemma push_assistant_simps [simp]:
  "executed (push_assistant t s) = executed s" "requested (push_assistant t s) = requested s"
  "lp_completion (push_assistant t s) = lp_completion s" "lp_recovery (push_assistant t s) = lp_recovery s"
  "lp_corrections (push_assistant t s) = lp_corrections s" "correction_events (push_assistant t s) = correction_events s"
  by (simp_all add: push_assistant_def split: option.split)

lemma record_response_simps [simp]:
  "executed (record_response c turn t s) = executed s" "requested (record_response c turn t s) = requested s"
  "lp_completion (record_response c turn t s) = lp_completion s" "lp_recovery (record_response c turn t s) = lp_recovery s"
  "lp_corrections (record_response c turn t s) = lp_corrections s"
  "correction_events (record_response c turn t s) = correction_events s"
  by (simp_all add: record_response_def Let_def split: option.split)

lemma budget_stop_none:
  "budget_stop c d turn s = None \<Longrightarrow> rc_run_budget c \<noteq> None \<Longrightarrow> lp_tokens_used s < bc_allowed_tokens (rc_budget_consumption c)"
  by (auto simp: budget_stop_def Let_def split: if_splits)

lemma send_request_asked:
  assumes "send_request cd c d pl packed s1 = Next s2" "s1 = s\<lparr>lp_messages := ms\<rparr>"
    "pl = plan_turn c (lp_completion s) turn" "budget_stop c d turn s = None" "\<not> tn_cancelled d"
  shows "asked c d turn s s2"
  using assms(1, 4, 5) budget_stop_none [OF assms(4)] unfolding assms(2, 3)
  by (auto simp: send_request_def Let_def stop_failed_def asked_def turn_request_ok_def model_request_of_def
      evidence_def split: if_splits)

lemma send_request_refused:
  "send_request cd c d pl packed s1 = Done s2 outcome \<Longrightarrow> quiet_step s1 s2 \<and> ro_status outcome = RstFailed"
  by (auto simp: send_request_def Let_def stop_failed_def failed_outcome_def split: if_splits)

text \<open>A turn either stops before it asks, or asks and handles the answer.\<close>

lemma run_turn_cases:
  obtains (stopped) s' outcome where "run_turn cd c d turn s = Done s' outcome" "quiet_step s s'" "ro_status outcome \<noteq> RstCompleted"
      "ro_approval outcome = None"
  | (failed) s2 e where "asked c d turn s s2" "tn_response d = Inl e" "run_turn cd c d turn s = provider_failed c d turn e s2"
  | (answered) s2 t where "asked c d turn s s2" "tn_response d = Inr t"
      "run_turn cd c d turn s = handle_action cd c d (plan_turn c (lp_completion s) turn) t s2"
proof (cases "budget_stop c d turn s")
  case (Some outcome)
  have "ro_status outcome \<noteq> RstCompleted" "ro_approval outcome = None" using Some
    by (auto simp: budget_stop_def Let_def failed_outcome_def budget_boundary_outcome_def split: option.splits if_splits)
  with Some show thesis by (intro stopped [of s outcome]) (simp_all add: run_turn_def)
next
  case None
  note budget = None
  show thesis
  proof (cases "tn_cancelled d")
    case True
    show thesis
      by (rule stopped [of "emit c EkRunCancelled (PvFields [(''turn'', PvNat turn)]) s" "cancelled_outcome turn
          (consumption_snapshot c turn (lp_tokens_used s) (active_seconds c (tn_elapsed_after d)))"])
        (use True None in \<open>simp_all add: run_turn_def cancelled_outcome_def\<close>)
  next
    case False
    show thesis
    proof (cases "pack_messages cd (lp_messages s) (rc_context_budget c)")
      case (Inl e)
      show thesis
        by (rule stopped [of "emit c EkRunFailed (PvFields [(''error'', PvStr context_error_str), (''turn'', PvNat turn)]) s"
            "failed_outcome turn context_error_str
              (consumption_snapshot c turn (lp_tokens_used s) (active_seconds c (tn_elapsed_after d)))"])
          (use Inl False None in \<open>simp_all add: run_turn_def stop_failed_def failed_outcome_def\<close>)
    next
      case (Inr packed)
      let ?s1 = "s\<lparr>lp_messages := cp_messages packed\<rparr>"
      let ?pl = "plan_turn c (lp_completion s) turn"
      show thesis
      proof (cases "send_request cd c d ?pl packed ?s1")
        case (Done s2 outcome)
        have q: "quiet_step ?s1 s2" "ro_status outcome = RstFailed" using send_request_refused [OF Done] by simp_all
        have "quiet_step s s2" using q(1) by (simp add: quiet_step_def evidence_def)
        moreover have "ro_approval outcome = None" using Done
          by (auto simp: send_request_def Let_def stop_failed_def failed_outcome_def split: if_splits)
        ultimately show thesis
          using q(2) Done Inr False budget by (intro stopped [of s2 outcome]) (simp_all add: run_turn_def Let_def)
      next
        case (Next s2)
        have a: "asked c d turn s s2" by (rule send_request_asked [OF Next refl refl budget False])
        show thesis
        proof (cases "tn_response d")
          case (Inl e)
          then show thesis using a Next Inr False budget by (intro failed [OF a Inl]) (simp add: run_turn_def Let_def)
        next
          case (Inr t)
          have "asked c d turn s (record_response c turn t s2)" using a by (simp add: asked_def evidence_def)
          then show thesis
            by (rule answered [OF _ Inr])
              (use Next Inr False budget \<open>pack_messages cd (lp_messages s) (rc_context_budget c) = Inr packed\<close> in
                \<open>simp add: run_turn_def Let_def\<close>)
        qed
      qed
    qed
  qed
qed

lemma run_turn_effect: "turn_effect c d turn s (step_state (run_turn cd c d turn s))"
proof (cases rule: run_turn_cases [of cd c d turn s])
  case (stopped s' outcome)
  then show ?thesis by (simp add: quiet_effect)
next
  case (failed s2 e)
  then show ?thesis by (simp add: asked_quiet)
next
  case (answered s2 t)
  let ?pl = "plan_turn c (lp_completion s) turn"
  from handle_action_effect [of s2 cd c d ?pl t] show ?thesis
  proof
    assume "quiet_step s2 (step_state (handle_action cd c d ?pl t s2))"
    with answered show ?thesis by (simp add: asked_quiet)
  next
    assume r: "ran_one (mt_action t, tn_tool d) s2 (step_state (handle_action cd c d ?pl t s2)) \<and>
      pd_is_allow (evaluate_action_in_scope (rc_policy c) (mt_action t) (rc_run_scope c)) \<and> exposed ?pl (mt_action t)"
    then have "turn_action_ok c d turn s (mt_action t, tn_tool d)" using answered(2) by (simp add: turn_action_ok_def)
    with r answered show ?thesis by (auto intro: asked_ran)
  qed
qed

end
