(* ===== verification/RuntimeProperties.thy ===== *)
theory RuntimeProperties
  imports RuntimeSafety
begin

text \<open>
  What the agent loop guarantees for whole runs, over every answer of the provider, result of the
  tools, clock and cancellation.
\<close>

section \<open>Runs\<close>

definition allowed_execution :: "run_config \<Rightarrow> json agent_action \<times> (tool_error, tool_result) res \<Rightarrow> bool" where
  "allowed_execution c x \<longleftrightarrow> pd_is_allow (evaluate_action_in_scope (rc_policy c) (fst x) (rc_run_scope c))"

definition turns_effect :: "run_config \<Rightarrow> nat \<Rightarrow> loop_state \<Rightarrow> loop_state \<Rightarrow> bool" where
  "turns_effect c n s s' \<longleftrightarrow>
     (\<exists>xs qs. executed s' = executed s @ xs \<and> requested s' = requested s @ qs \<and>
        evidence s' = fold note_execution xs (evidence s) \<and>
        rv_total (lp_recovery s') = rv_total (lp_recovery s) + sum_list (map note_failure xs) \<and>
        length xs \<le> length qs \<and> length qs \<le> n \<and> (\<forall>x\<in>set xs. allowed_execution c x)) \<and>
     correction_events s' + lp_corrections s = correction_events s + lp_corrections s' \<and>
     lp_corrections s \<le> lp_corrections s' \<and> lp_corrections s' \<le> max 2 (lp_corrections s)"

lemma turn_turns: "turn_effect c d turn s s' \<Longrightarrow> turns_effect c 1 s s'"
  unfolding turn_effect_def turns_effect_def turn_action_ok_def allowed_execution_def by blast

lemma turns_trans:
  assumes "turns_effect c m s s1" "turns_effect c n s1 s2"
  shows "turns_effect c (m + n) s s2"
proof -
  from assms(1) obtain xs qs where a: "executed s1 = executed s @ xs" "requested s1 = requested s @ qs"
    "evidence s1 = fold note_execution xs (evidence s)"
    "rv_total (lp_recovery s1) = rv_total (lp_recovery s) + sum_list (map note_failure xs)"
    "length xs \<le> length qs" "length qs \<le> m" "\<forall>x\<in>set xs. allowed_execution c x"
    unfolding turns_effect_def by blast
  from assms(2) obtain ys rs where b: "executed s2 = executed s1 @ ys" "requested s2 = requested s1 @ rs"
    "evidence s2 = fold note_execution ys (evidence s1)"
    "rv_total (lp_recovery s2) = rv_total (lp_recovery s1) + sum_list (map note_failure ys)"
    "length ys \<le> length rs" "length rs \<le> n" "\<forall>x\<in>set ys. allowed_execution c x"
    unfolding turns_effect_def by blast
  have "\<exists>zs ps. executed s2 = executed s @ zs \<and> requested s2 = requested s @ ps \<and>
      evidence s2 = fold note_execution zs (evidence s) \<and>
      rv_total (lp_recovery s2) = rv_total (lp_recovery s) + sum_list (map note_failure zs) \<and>
      length zs \<le> length ps \<and> length ps \<le> m + n \<and> (\<forall>x\<in>set zs. allowed_execution c x)"
    using a b by (intro exI [of _ "xs @ ys"] exI [of _ "qs @ rs"]) auto
  with assms show ?thesis unfolding turns_effect_def by auto
qed

lemma turns_mono: "turns_effect c m s s' \<Longrightarrow> m \<le> n \<Longrightarrow> turns_effect c n s s'"
  unfolding turns_effect_def by (meson le_trans)

lemma turns_refl [simp]: "turns_effect c n s s"
  unfolding turns_effect_def by (auto intro!: exI [of _ "[]"])

lemma turns_exhausted_effect: "turns_exhausted c d s = (s', outcome) \<Longrightarrow> turns_effect c 0 s s' \<and>
    ro_status outcome \<noteq> RstCompleted \<and> ro_approval outcome = None"
  by (auto simp: turns_exhausted_def Let_def budget_boundary_outcome_def failed_outcome_def turns_effect_def evidence_def
      intro!: exI [of _ "[]"] split: option.splits if_splits)

lemma run_turns_effect:
  "run_turns cd c draws turns s = (s', outcome) \<Longrightarrow> turns_effect c (length turns) s s'"
proof (induction cd c draws turns s rule: run_turns.induct)
  case (1 cd c draws s)
  then show ?case using turns_exhausted_effect by simp
next
  case (2 cd c draws turn turns s)
  have t: "turns_effect c 1 s (step_state (run_turn cd c (draws turn) turn s))" by (rule turn_turns [OF run_turn_effect])
  show ?case
  proof (cases "run_turn cd c (draws turn) turn s")
    case (Next s1)
    with 2 have "turns_effect c (length turns) s1 s'" by simp
    from turns_trans [OF _ this, of 1 s] t Next show ?thesis by simp
  next
    case (Done s1 o1)
    with 2 t show ?thesis by (auto intro: turns_mono)
  qed
qed

text \<open>The start: nothing executed yet, or the approved action.\<close>

lemma emit_start_simps [simp]:
  "executed (emit_start c start s) = executed s" "requested (emit_start c start s) = requested s"
  "lp_completion (emit_start c start s) = lp_completion s" "lp_recovery (emit_start c start s) = lp_recovery s"
  "lp_corrections (emit_start c start s) = lp_corrections s" "lp_messages (emit_start c start s) = lp_messages s"
  "correction_events (emit_start c start s) = correction_events s" "evidence (emit_start c start s) = evidence s"
  by (simp_all add: emit_start_def evidence_def split: run_start.split)

lemma empty_trace: "lp_trace s = [] \<Longrightarrow> executed s = [] \<and> requested s = [] \<and> correction_events s = 0"
  by (simp add: executed_def requested_def correction_events_def emitted_def)

lemma start_state_simps [simp]:
  "executed (start_state cd c start) = []" "requested (start_state cd c start) = []"
  "correction_events (start_state cd c start) = 0"
  "lp_corrections (start_state cd c start) = protocol_correction_count (start_messages c start)"
  "lp_recovery (start_state cd c start) = fst (resume_runtime_state cd (start_messages c start))"
  "lp_completion (start_state cd c start) = snd (resume_runtime_state cd (start_messages c start))"
  by (simp_all add: start_state_def Let_def empty_trace split: prod.split)

definition approved_execution :: "turn_draw \<Rightarrow> run_start \<Rightarrow> (json agent_action \<times> (tool_error, tool_result) res) list" where
  "approved_execution d start = (case start of Approved a \<Rightarrow> [(aa_action a, tn_tool d)] | _ \<Rightarrow> [])"

lemma execute_approved_ran:
  "ran_one (aa_action a, tn_tool d) s (step_state (execute_approved_action cd c d a s))"
  by (auto simp: execute_approved_action_def Let_def stop_failed_def ran_one_def evidence_def note_execution_def
      note_failure_def update_rejected finish_tool_def split: sum.split tool_error_disposition.split)

lemma run_loop_effect:
  assumes "run_loop cd c d draws start = (s', outcome)"
  obtains xs where "executed s' = approved_execution d start @ xs" "\<forall>x\<in>set xs. allowed_execution c x"
    "evidence s' = fold note_execution (executed s') (evidence (start_state cd c start))"
    "length xs \<le> length (requested s')" "length (requested s') \<le> rc_max_turns c - start_turn start"
    "correction_events s' + protocol_correction_count (start_messages c start) \<le> max 2 (protocol_correction_count (start_messages c start))"
proof -
  let ?s = "start_state cd c start" and ?turns = "[start_turn start..<rc_max_turns c]"
  have "\<exists>s1. ((executed s1 = approved_execution d start \<and> evidence s1 = fold note_execution (approved_execution d start) (evidence ?s)) \<and>
      requested s1 = [] \<and> correction_events s1 = 0 \<and> lp_corrections s1 = lp_corrections ?s) \<and>
      turns_effect c (length ?turns) s1 s'"
  proof (cases start)
    case (Approved a)
    let ?x = "(aa_action a, tn_tool d)"
    have r: "ran_one ?x ?s (step_state (execute_approved_action cd c d a ?s))" by (rule execute_approved_ran)
    have corr: "lp_corrections (step_state (execute_approved_action cd c d a s)) = lp_corrections s"
      "correction_events (step_state (execute_approved_action cd c d a s)) = correction_events s" for s
      by (auto simp: execute_approved_action_def Let_def stop_failed_def finish_tool_def split: sum.split)
    have base: "executed (step_state (execute_approved_action cd c d a ?s)) = [?x]"
      "evidence (step_state (execute_approved_action cd c d a ?s)) = note_execution ?x (evidence ?s)"
      "requested (step_state (execute_approved_action cd c d a ?s)) = []"
      using r by (simp_all add: ran_one_def)
    show ?thesis
    proof (cases "execute_approved_action cd c d a ?s")
      case (Next s1)
      with assms Approved have "run_turns cd c draws ?turns s1 = (s', outcome)" by (simp add: run_loop_def Let_def)
      from run_turns_effect [OF this] show ?thesis
        using base corr [of ?s] Next Approved by (intro exI [of _ s1]) (simp add: approved_execution_def)
    next
      case (Done s1 o1)
      with assms Approved have "s' = s1" by (simp add: run_loop_def Let_def)
      then show ?thesis
        using base corr [of ?s] Done Approved by (intro exI [of _ s1]) (simp add: approved_execution_def)
    qed
  next
    case Fresh
    with assms have "run_turns cd c draws ?turns ?s = (s', outcome)" by (simp add: run_loop_def Let_def)
    from run_turns_effect [OF this] show ?thesis using Fresh by (intro exI [of _ ?s]) (simp add: approved_execution_def)
  next
    case (ResumedBudget b)
    with assms have "run_turns cd c draws ?turns ?s = (s', outcome)" by (simp add: run_loop_def Let_def)
    from run_turns_effect [OF this] show ?thesis
      using ResumedBudget by (intro exI [of _ ?s]) (simp add: approved_execution_def)
  qed
  then obtain s1 where base: "executed s1 = approved_execution d start"
      "evidence s1 = fold note_execution (approved_execution d start) (evidence ?s)"
      "requested s1 = []" "correction_events s1 = 0" "lp_corrections s1 = lp_corrections ?s"
    and t: "turns_effect c (length ?turns) s1 s'"
    by blast
  from t obtain xs qs where s': "executed s' = executed s1 @ xs" "requested s' = requested s1 @ qs"
      "evidence s' = fold note_execution xs (evidence s1)" "length xs \<le> length qs"
      "length qs \<le> length ?turns" "\<forall>x\<in>set xs. allowed_execution c x"
    unfolding turns_effect_def by blast
  from t have corr: "correction_events s' + lp_corrections s1 = correction_events s1 + lp_corrections s'"
      "lp_corrections s' \<le> max 2 (lp_corrections s1)"
    unfolding turns_effect_def by simp_all
  show thesis
    by (rule that [of xs]) (use base s' corr in simp_all)
qed

text \<open>C9: Nothing runs without authority: every action a run executes is the action an operator approved,
  executed once and first exactly as it was paused, or one the safety policy allows in the run's scope,
  and there are no more executions than requests to the model.\<close>
theorem executes_only_authorised:
  assumes "run_loop cd c d draws start = (s', outcome)"
  shows "\<exists>xs. executed s' = (case start of Approved a \<Rightarrow> [(aa_action a, tn_tool d)] | _ \<Rightarrow> []) @ xs \<and>
    (\<forall>x\<in>set xs. pd_is_allow (evaluate_action_in_scope (rc_policy c) (fst x) (rc_run_scope c))) \<and>
    length xs \<le> length (requested s')"
  by (rule run_loop_effect [OF assms]) (auto simp: approved_execution_def allowed_execution_def)

text \<open>C13: A run is bounded: it asks the model at most once per turn it has left, and corrects its protocol
  at most twice over its whole transcript, across every pause.\<close>
theorem run_bounded:
  assumes "run_loop cd c d draws start = (s', outcome)"
  shows "length (requested s') \<le> rc_max_turns c - start_turn start \<and>
    correction_events s' \<le> 2 - protocol_correction_count (start_messages c start)"
  by (rule run_loop_effect [OF assms]) auto

section \<open>Completed and paused runs\<close>

definition successful_mutation :: "json agent_action \<times> (tool_error, tool_result) res \<Rightarrow> bool" where
  "successful_mutation x \<longleftrightarrow> is_mutation (fst x) \<and> (\<exists>r. snd x = Inr r \<and> tr_status r = TrsOk)"

definition completed_ok :: "run_config \<Rightarrow> loop_state \<Rightarrow> bool" where
  "completed_ok c s \<longleftrightarrow>
     \<not> reliability_v2_enabled c \<and> completion_failure_reason (rc_task_contract c) (lp_completion s) = None \<or>
     (\<exists>a r k. executed s \<noteq> [] \<and> last (executed s) = (a, Inr r) \<and> terminal_submission_kind a = Some k \<and>
        tr_status r = TrsOk \<and>
        (is_implementation a \<longrightarrow> implementation_submission_failure_reason c (lp_completion s) = None))"

lemma stop_not_completed [simp]:
  "stop_failed c d turns error s = Done s' o1 \<Longrightarrow> ro_status o1 = RstFailed \<and> ro_approval o1 = None"
  "exhausted c d turn error details s = Done s' o1 \<Longrightarrow> ro_status o1 = RstFailed \<and> ro_approval o1 = None"
  "correct_or_stop c d turn category extra message details s = Done s' o1 \<Longrightarrow> ro_status o1 = RstFailed \<and> ro_approval o1 = None"
  by (auto simp: stop_failed_def failed_outcome_def exhausted_def correct_or_stop_def split: if_splits)

lemma execute_tool_done:
  assumes "execute_tool cd c d turn t s = Done s' o1"
  shows "(ro_status o1 = RstCompleted \<longrightarrow> completed_ok c s') \<and> ro_approval o1 = None"
proof (cases "tn_tool d")
  case (Inl e)
  with assms have "ro_status o1 = RstFailed \<and> ro_approval o1 = None"
    by (auto simp: execute_tool_def tool_failed_def unexposed_action_def recoverable_failure_def Let_def split: if_splits)
  then show ?thesis by simp
next
  case (Inr result)
  let ?a = "mt_action t"
  let ?s1 = "log_effect (FxExecute ?a (tn_tool d))
      (emit c EkToolStarted (PvFields [(''action'', PvStr (kind_name ?a))]) s)"
  let ?s3 = "push (tool_message cd result (answered_call t) (Some ?a))
    ((emit c EkToolFinished (PvResult result) ?s1)\<lparr>lp_completion := update_completion_state (lp_completion ?s1) ?a result\<rparr>)"
  have ex: "executed ?s3 = executed s @ [(?a, Inr result)]" using Inr by simp
  from assms Inr have d: "tool_succeeded cd c d turn t result ?s1 = Done s' o1" by (simp add: execute_tool_def)
  show ?thesis
  proof (cases "terminal_submission_kind ?a")
    case None
    with d show ?thesis by (simp add: tool_succeeded_def Let_def)
  next
    case (Some k)
    show ?thesis
    proof (cases "tr_status result = TrsError \<or>
        is_implementation ?a \<and> implementation_submission_failure_reason c (lp_completion ?s3) \<noteq> None")
      case True
      with d Some have "ro_status o1 = RstFailed \<and> ro_approval o1 = None"
        by (auto simp: tool_succeeded_def Let_def split: if_splits tool_result_status.split)
      then show ?thesis by simp
    next
      case False
      then have ok: "tr_status result = TrsOk" by (cases "tr_status result") auto
      from False d Some have "accept_submission c d turn k ?s3 = Done s' o1"
        by (auto simp: tool_succeeded_def Let_def split: bool.splits option.splits)
      then have s': "executed s' = executed s @ [(?a, Inr result)]" "lp_completion s' = lp_completion ?s3"
        and o: "ro_approval o1 = None"
        using ex by (auto simp: accept_submission_def Let_def finished_outcome_def)
      have "completed_ok c s'" unfolding completed_ok_def using s' Some ok False by auto
      with o show ?thesis by simp
    qed
  qed
qed

definition paused_on :: "run_config \<Rightarrow> loop_state \<Rightarrow> run_outcome \<Rightarrow> bool" where
  "paused_on c s outcome \<longleftrightarrow>
     (\<forall>p a. ro_approval outcome = Some p \<longrightarrow> pa_action p = Some a \<longrightarrow>
        evaluate_action_in_scope (rc_policy c) a (rc_run_scope c) = PdAsk (pa_approval_kind p) (pa_risk p) (pa_summary p) \<and>
        pa_resume_messages p = lp_messages s)"

lemma tool_action_done:
  assumes "tool_action cd c d turn t s = Done s' o1"
  shows "(ro_status o1 = RstCompleted \<longrightarrow> completed_ok c s') \<and> paused_on c s' o1"
proof (cases "evaluate_action_in_scope (rc_policy c) (mt_action t) (rc_run_scope c)")
  case (PdAllow risk summary grant)
  with assms execute_tool_done show ?thesis by (fastforce simp: tool_action_def Let_def paused_on_def)
next
  case (PdAsk kind risk summary)
  with assms show ?thesis by (auto simp: tool_action_def Let_def approval_outcome_def paused_on_def)
next
  case (PdDeny risk summary)
  with assms have "ro_status o1 = RstFailed \<and> ro_approval o1 = None" by (auto simp: tool_action_def Let_def)
  then show ?thesis by (simp add: paused_on_def)
qed

lemma handle_action_done:
  assumes "handle_action cd c d pl t s = Done s' o1"
  shows "(ro_status o1 = RstCompleted \<longrightarrow> completed_ok c s') \<and> paused_on c s' o1"
proof (cases "pl_reserve pl \<and> \<not> is_verification (mt_action t) \<and> \<not> (pl_finish_allowed pl \<and> is_finish (mt_action t)) \<or>
    pl_builder_only pl \<and> \<not> is_implementation (mt_action t)")
  case True
  with assms have "ro_status o1 = RstFailed \<and> ro_approval o1 = None"
    by (auto simp: handle_action_def Let_def reserve_refused_def builder_refused_def split: if_splits)
  then show ?thesis by (simp add: paused_on_def)
next
  case False
  show ?thesis
  proof (cases "is_finish (mt_action t) \<or> is_respond (mt_action t) \<or> (\<exists>i r k m. mt_action t = RequestApproval i r k m)")
    case True
    with False assms show ?thesis
      by (cases "mt_action t")
        (auto simp: handle_action_def Let_def is_finish_def is_respond_def finish_refused_def finish_action_def
          finished_outcome_def completed_ok_def request_approval_def approval_outcome_def respond_action_def paused_on_def
          split: if_splits option.splits bool.splits dest: stop_not_completed)
  next
    case other: False
    with False assms have "tool_action cd c d (pl_turn pl) t s = Done s' o1"
      by (cases "mt_action t") (auto simp: handle_action_def Let_def is_finish_def is_respond_def split: if_splits)
    then show ?thesis by (rule tool_action_done)
  qed
qed

lemma run_turn_done:
  assumes "run_turn cd c d turn s = Done s' o1"
  shows "(ro_status o1 = RstCompleted \<longrightarrow> completed_ok c s') \<and> paused_on c s' o1"
proof (cases rule: run_turn_cases [of cd c d turn s])
  case (stopped s1 o2)
  with assms show ?thesis by (simp add: paused_on_def)
next
  case (failed s2 e)
  with assms have "ro_status o1 = RstFailed \<and> ro_approval o1 = None"
    by (auto simp: provider_failed_def split: model_provider_error.splits bool.splits)
  then show ?thesis by (simp add: paused_on_def)
next
  case (answered s2 t)
  with assms show ?thesis using handle_action_done by metis
qed

lemma run_turns_done:
  "run_turns cd c draws turns s = (s', o1) \<Longrightarrow>
     (ro_status o1 = RstCompleted \<longrightarrow> completed_ok c s') \<and> paused_on c s' o1"
proof (induction cd c draws turns s rule: run_turns.induct)
  case (1 cd c draws s)
  then show ?case using turns_exhausted_effect [of c "draws (rc_max_turns c)" s s' o1] by (simp add: paused_on_def)
next
  case (2 cd c draws turn turns s)
  then show ?case using run_turn_done by (cases "run_turn cd c (draws turn) turn s") auto
qed

lemma approved_done:
  "execute_approved_action cd c d a s = Done s' o1 \<Longrightarrow> ro_status o1 = RstFailed \<and> ro_approval o1 = None"
  by (auto simp: execute_approved_action_def Let_def stop_failed_def failed_outcome_def split: sum.splits if_splits)

lemma run_loop_done:
  assumes "run_loop cd c d draws start = (s', o1)"
  shows "(ro_status o1 = RstCompleted \<longrightarrow> completed_ok c s') \<and> paused_on c s' o1"
proof (cases "\<exists>a s2 o2. start = Approved a \<and> execute_approved_action cd c d a (start_state cd c start) = Done s2 o2")
  case True
  then obtain a s2 o2 where a: "start = Approved a"
    and "execute_approved_action cd c d a (start_state cd c start) = Done s2 o2" by blast
  with assms have "execute_approved_action cd c d a (start_state cd c start) = Done s' o1"
    by (simp add: run_loop_def Let_def)
  from approved_done [OF this] show ?thesis by (simp add: paused_on_def)
next
  case False
  with assms obtain s1 where "run_turns cd c draws [start_turn start..<rc_max_turns c] s1 = (s', o1)"
    by (cases start) (auto simp: run_loop_def Let_def split: turn_step.splits)
  then show ?thesis by (rule run_turns_done)
qed

section \<open>Evidence\<close>

lemma note_execution_mutation:
  assumes "successful_mutation x"
  shows "cs_acceptance_passed (note_execution x s) = []"
proof -
  from assms obtain r where "is_mutation (fst x)" "snd x = Inr r" "tr_status r = TrsOk"
    by (auto simp: successful_mutation_def)
  then show ?thesis
    by (cases "fst x") (auto simp: note_execution_def update_completion_state_def after_mutation_def is_mutation_def)
qed

lemma note_execution_passed:
  assumes "n \<in> set (cs_acceptance_passed (note_execution x s))" "n \<notin> set (cs_acceptance_passed s)"
  shows "\<exists>i r result. x = (RunAcceptanceCommand i r n, Inr result) \<and> tr_status result = TrsOk"
proof (cases x)
  case (Pair a y)
  show ?thesis
  proof (cases y)
    case (Inl e)
    with assms Pair show ?thesis by (simp add: note_execution_def)
  next
    case (Inr result)
    with assms Pair show ?thesis
      by (cases a) (auto simp: note_execution_def update_completion_state_def after_mutation_def is_mutation_def split: if_splits)
  qed
qed

lemma note_execution_changed:
  assumes "cs_changed (note_execution x s)" "\<not> cs_changed s"
  shows "successful_mutation x"
proof (cases x)
  case (Pair a y)
  show ?thesis
  proof (cases y)
    case (Inl e)
    with assms Pair show ?thesis by (simp add: note_execution_def)
  next
    case (Inr result)
    with assms Pair show ?thesis
      by (cases a) (auto simp: note_execution_def update_completion_state_def after_mutation_def is_mutation_def
          successful_mutation_def split: if_splits)
  qed
qed

text \<open>An acceptance command that counts as passed passed after the last successful write.\<close>

lemma passed_after_mutation:
  assumes "n \<in> set (cs_acceptance_passed (fold note_execution xs s))" "n \<notin> set (cs_acceptance_passed s)"
  shows "\<exists>pre i r result post. xs = pre @ (RunAcceptanceCommand i r n, Inr result) # post \<and>
    tr_status result = TrsOk \<and> \<not> (\<exists>x\<in>set post. successful_mutation x)"
  using assms
proof (induction xs rule: rev_induct)
  case (snoc x xs)
  let ?s = "fold note_execution xs s"
  have x: "n \<in> set (cs_acceptance_passed (note_execution x ?s))" using snoc.prems(1) by simp
  then have nm: "\<not> successful_mutation x" using note_execution_mutation [of x ?s] by auto
  show ?case
  proof (cases "n \<in> set (cs_acceptance_passed ?s)")
    case True
    from snoc.IH [OF True snoc.prems(2)] obtain pre i r result post where
      p: "xs = pre @ (RunAcceptanceCommand i r n, Inr result) # post" "tr_status result = TrsOk"
        "\<not> (\<exists>x\<in>set post. successful_mutation x)" by blast
    then have "xs @ [x] = pre @ (RunAcceptanceCommand i r n, Inr result) # (post @ [x])"
      "\<not> (\<exists>x\<in>set (post @ [x]). successful_mutation x)" using nm by simp_all
    with p(2) show ?thesis by blast
  next
    case False
    from note_execution_passed [OF x False] show ?thesis by (metis empty_iff list.set(1))
  qed
qed simp

lemma changed_by_mutation:
  "cs_changed (fold note_execution xs s) \<Longrightarrow> \<not> cs_changed s \<Longrightarrow> \<exists>x\<in>set xs. successful_mutation x"
proof (induction xs rule: rev_induct)
  case (snoc x xs)
  then show ?case using note_execution_changed [of x "fold note_execution xs s"] by auto
qed simp

lemma reason_evidence:
  "implementation_submission_failure_reason c (lp_completion s) = implementation_submission_failure_reason c (evidence s)"
  by (auto simp: implementation_submission_failure_reason_def completion_failure_reason_def evidence_def Let_def
      split: option.split)

lemma resume_without_tools:
  "\<forall>m\<in>set ms. mm_role m \<noteq> MrTool \<Longrightarrow> resume_runtime_state cd ms = (recovery_start, completion_start)"
proof -
  have "\<forall>m\<in>set ms. mm_role m \<noteq> MrTool \<Longrightarrow> fold (resume_step cd) ms st = st" for st
    by (induction ms arbitrary: st) (auto simp: resume_step_def)
  then show "\<forall>m\<in>set ms. mm_role m \<noteq> MrTool \<Longrightarrow> resume_runtime_state cd ms = (recovery_start, completion_start)"
    by (simp add: resume_runtime_state_def)
qed


text \<open>A paused action is the one that is resumed: a run that pauses for approval with an action did not
  execute it in that turn's place; the policy asks about exactly that action, with the risk and summary the
  operator sees, and a run resumed with it executes it first.\<close>
theorem pause_keeps_action:
  assumes "run_loop cd c d draws start = (s', outcome)" "ro_approval outcome = Some p" "pa_action p = Some a"
    "run_loop cd c d' draws'
       (Approved \<lparr>aa_approval_id = i, aa_action = a, aa_resume_messages = pa_resume_messages p,
          aa_turns_completed = pa_turns_completed p\<rparr>) = (s2, outcome2)"
  shows "evaluate_action_in_scope (rc_policy c) a (rc_run_scope c) = PdAsk (pa_approval_kind p) (pa_risk p) (pa_summary p) \<and>
    pa_resume_messages p = lp_messages s' \<and> executed s2 \<noteq> [] \<and> hd (executed s2) = (a, tn_tool d')"
proof -
  have "evaluate_action_in_scope (rc_policy c) a (rc_run_scope c) = PdAsk (pa_approval_kind p) (pa_risk p) (pa_summary p) \<and>
      pa_resume_messages p = lp_messages s'"
    using run_loop_done [OF assms(1)] assms(2, 3) unfolding paused_on_def by blast
  moreover have "executed s2 \<noteq> [] \<and> hd (executed s2) = (a, tn_tool d')"
    by (rule run_loop_effect [OF assms(4)]) (simp add: approved_execution_def)
  ultimately show ?thesis by blast
qed

section \<open>Failures\<close>

text \<open>A turn after which the run goes on stayed within the recovery policy.\<close>

definition within_recovery :: "run_config \<Rightarrow> loop_state \<Rightarrow> turn_step \<Rightarrow> bool" where
  "within_recovery c s x \<longleftrightarrow>
     (case x of
        Next s' \<Rightarrow> rv_total (lp_recovery s') \<le> max (rv_total (lp_recovery s)) (rp_max_recoverable_errors (rc_recovery_policy c))
      | Done s' outcome \<Rightarrow> True)"

lemma within_quiet: "quiet_step s (step_state x) \<Longrightarrow> within_recovery c s x"
  by (cases x) (auto simp: within_recovery_def quiet_step_def)

lemma within_ran: "ran_one y s (step_state x) \<Longrightarrow> note_failure y = 0 \<Longrightarrow> within_recovery c s x"
  by (cases x) (auto simp: within_recovery_def ran_one_def)

lemma within_from: "within_recovery c s1 x \<Longrightarrow> lp_recovery s1 = lp_recovery s \<Longrightarrow> within_recovery c s x"
  unfolding within_recovery_def by (simp cong: turn_step.case_cong)

lemma within_recoverable: "within_recovery c s (recoverable_failure cd c d turn t e s')"
  by (auto simp: recoverable_failure_def Let_def within_recovery_def finish_tool_def may_recover_def exhausted_def
      stop_failed_def)

lemma execute_tool_within: "within_recovery c s (execute_tool cd c d turn t s)"
proof (cases "note_failure (mt_action t, tn_tool d)")
  case 0
  from within_ran [OF execute_tool_ran this] show ?thesis .
next
  case (Suc n)
  then obtain e where e: "tn_tool d = Inl e" "disposition e = Recoverable"
    by (auto simp: note_failure_def split: sum.splits if_splits)
  then have "e \<noteq> TeUnsupportedAction (kind_name (mt_action t))" by auto
  with e show ?thesis by (simp add: execute_tool_def tool_failed_def Let_def within_recoverable)
qed

lemma handle_action_within: "within_recovery c s (handle_action cd c d pl t s)"
proof (cases "quiet_step s (step_state (handle_action cd c d pl t s))")
  case True
  then show ?thesis by (rule within_quiet)
next
  case False
  have q: "\<not> (pl_reserve pl \<and> \<not> is_verification (mt_action t) \<and> \<not> (pl_finish_allowed pl \<and> is_finish (mt_action t)) \<or>
      pl_builder_only pl \<and> \<not> is_implementation (mt_action t))" (is "\<not> ?refused")
  proof
    assume ?refused
    then have "quiet_step s (step_state (handle_action cd c d pl t s))" by (auto simp: handle_action_def Let_def)
    with False show False by blast
  qed
  have "handle_action cd c d pl t s = tool_action cd c d (pl_turn pl) t s"
    using False q by (cases "mt_action t") (auto simp: handle_action_def Let_def)
  then have t: "handle_action cd c d pl t s = tool_action cd c d (pl_turn pl) t s" .
  show ?thesis
  proof (cases "evaluate_action_in_scope (rc_policy c) (mt_action t) (rc_run_scope c)")
    case (PdAllow risk summary grant)
    let ?s1 = "emit c EkPolicyEvaluated (PvFields [(''action'', PvStr (kind_name (mt_action t))),
      (''decision'', PvDecision (PdAllow risk summary grant)), (''run_scope'', scope_value c)]) s"
    have "within_recovery c ?s1 (execute_tool cd c d (pl_turn pl) t ?s1)" by (rule execute_tool_within)
    then have "within_recovery c s (execute_tool cd c d (pl_turn pl) t ?s1)" by (rule within_from) simp
    with PdAllow show ?thesis unfolding t by (simp add: tool_action_def Let_def)
  next
    case (PdAsk kind risk summary)
    then show ?thesis unfolding t by (simp add: tool_action_def Let_def within_recovery_def)
  next
    case (PdDeny risk summary)
    then show ?thesis unfolding t by (simp add: tool_action_def Let_def within_recovery_def exhausted_def stop_failed_def)
  qed
qed

lemma run_turn_within: "within_recovery c s (run_turn cd c d turn s)"
proof (cases rule: run_turn_cases [of cd c d turn s])
  case (stopped s' outcome)
  then show ?thesis by (simp add: within_recovery_def)
next
  case (failed s2 e)
  have "within_recovery c s2 (provider_failed c d turn e s2)" by (rule within_quiet) simp
  then have "within_recovery c s (provider_failed c d turn e s2)"
    by (rule within_from) (use failed in \<open>simp add: asked_def\<close>)
  with failed show ?thesis by simp
next
  case (answered s2 t)
  have "within_recovery c s (handle_action cd c d (plan_turn c (lp_completion s) turn) t s2)"
    by (rule within_from [OF handle_action_within]) (use answered in \<open>simp add: asked_def\<close>)
  with answered show ?thesis by simp
qed

lemma turn_effect_total:
  assumes "turn_effect c d turn s s'"
  shows "rv_total (lp_recovery s') \<le> rv_total (lp_recovery s) + 1"
proof -
  from assms obtain xs qs where "rv_total (lp_recovery s') = rv_total (lp_recovery s) + sum_list (map note_failure xs)"
      "length xs \<le> length (qs :: model_request list)" "length qs \<le> 1"
    unfolding turn_effect_def by blast
  moreover from this(2, 3) have "xs = [] \<or> (\<exists>x. xs = [x])"
    by (cases xs; cases "tl xs") auto
  then have "sum_list (map note_failure xs) \<le> 1" by (auto simp: note_failure_def split: sum.split)
  ultimately show ?thesis by simp
qed

lemma run_turns_recovery:
  "run_turns cd c draws turns s = (s', outcome) \<Longrightarrow>
     rv_total (lp_recovery s') \<le> max (rv_total (lp_recovery s)) (rp_max_recoverable_errors (rc_recovery_policy c)) + 1"
proof (induction cd c draws turns s rule: run_turns.induct)
  case (1 cd c draws s)
  then have "turns_effect c 0 s s'" using turns_exhausted_effect by simp
  then show ?case unfolding turns_effect_def by auto
next
  case (2 cd c draws turn turns s)
  have w: "within_recovery c s (run_turn cd c (draws turn) turn s)" by (rule run_turn_within)
  show ?case
  proof (cases "run_turn cd c (draws turn) turn s")
    case (Next s1)
    with 2 w show ?thesis by (fastforce simp: within_recovery_def)
  next
    case (Done s1 o1)
    have "turn_effect c (draws turn) turn s (step_state (run_turn cd c (draws turn) turn s))" by (rule run_turn_effect)
    from turn_effect_total [OF this] show ?thesis using 2 Done by simp
  qed
qed

lemma approved_within: "within_recovery c s (execute_approved_action cd c d a s)"
  by (auto simp: execute_approved_action_def Let_def within_recovery_def stop_failed_def finish_tool_def may_recover_def
      split: sum.split)

lemma run_loop_total:
  assumes "run_loop cd c d draws start = (s', outcome)"
  shows "rv_total (lp_recovery s') =
    rv_total (fst (resume_runtime_state cd (start_messages c start))) + sum_list (map note_failure (executed s'))"
proof -
  let ?s = "start_state cd c start" and ?turns = "[start_turn start..<rc_max_turns c]"
  have turns: "rv_total (lp_recovery s') = rv_total (lp_recovery s1) + sum_list (map note_failure xs)
      \<Longrightarrow> executed s' = executed s1 @ xs \<Longrightarrow>
      rv_total (lp_recovery s1) = rv_total (lp_recovery ?s) + sum_list (map note_failure (executed s1)) \<Longrightarrow> ?thesis" for s1 xs
    by simp
  have from_turns: "run_turns cd c draws ?turns s1 = (s', outcome) \<Longrightarrow>
      rv_total (lp_recovery s1) = rv_total (lp_recovery ?s) + sum_list (map note_failure (executed s1)) \<Longrightarrow> ?thesis" for s1
    using run_turns_effect [of cd c draws ?turns s1 s' outcome] turns unfolding turns_effect_def by blast
  show ?thesis
  proof (cases start)
    case (Approved a)
    have "ran_one (aa_action a, tn_tool d) ?s (step_state (execute_approved_action cd c d a ?s))" by (rule execute_approved_ran)
    then have "rv_total (lp_recovery (step_state (execute_approved_action cd c d a ?s))) =
        rv_total (lp_recovery ?s) + sum_list (map note_failure (executed (step_state (execute_approved_action cd c d a ?s))))"
      by (simp add: ran_one_def)
    with assms Approved from_turns show ?thesis
      by (cases "execute_approved_action cd c d a ?s") (auto simp: run_loop_def Let_def)
  qed (use assms from_turns [of ?s] in \<open>auto simp: run_loop_def Let_def\<close>)
qed

text \<open>Failures are bounded across pauses: a run and the runs it continues make at most one recoverable
  failure more than the recovery policy allows, counted over the whole transcript.\<close>
theorem failures_bounded:
  assumes "run_loop cd c d draws start = (s', outcome)"
  shows "rv_total (fst (resume_runtime_state cd (start_messages c start))) + sum_list (map note_failure (executed s')) \<le>
    max (rv_total (fst (resume_runtime_state cd (start_messages c start)))) (rp_max_recoverable_errors (rc_recovery_policy c)) + 1"
proof -
  let ?s = "start_state cd c start" and ?turns = "[start_turn start..<rc_max_turns c]"
  have "rv_total (lp_recovery s') \<le> max (rv_total (lp_recovery ?s)) (rp_max_recoverable_errors (rc_recovery_policy c)) + 1"
  proof (cases start)
    case (Approved a)
    have w: "within_recovery c ?s (execute_approved_action cd c d a ?s)" by (rule approved_within)
    show ?thesis
    proof (cases "execute_approved_action cd c d a ?s")
      case (Next s1)
      with assms Approved have "run_turns cd c draws ?turns s1 = (s', outcome)" by (simp add: run_loop_def Let_def)
      from run_turns_recovery [OF this] w Next show ?thesis by (auto simp: within_recovery_def)
    next
      case (Done s1 o1)
      have "ran_one (aa_action a, tn_tool d) ?s (step_state (execute_approved_action cd c d a ?s))" by (rule execute_approved_ran)
      with Done Approved assms show ?thesis
        by (auto simp: ran_one_def run_loop_def Let_def note_failure_def split: sum.splits)
    qed
  qed (use assms run_turns_recovery [of cd c draws ?turns ?s s' outcome] in \<open>auto simp: run_loop_def Let_def\<close>)
  with run_loop_total [OF assms] show ?thesis by simp
qed

end
