(* ===== verification/CapabilityRuntime.thy ===== *)
theory CapabilityRuntime
  imports CapabilityMemory RuntimeProperties
begin

text \<open>
  The broker as the tool executor of the agent runtime: a call that ran nothing is answered with a
  capability error, which no run survives.
\<close>

section \<open>What the tool path answers\<close>

lemma execute_result_iff:
  assumes "cl_answer (broker_execute h sink w request k) = Inr oc"
  shows "oc_result oc = None \<longleftrightarrow> cl_run (broker_execute h sink w request k) = None"
  using assms
  by (auto simp: broker_execute_def Let_def split: prod.splits sum.splits option.splits bool.splits)

lemma tools_denied:
  assumes "cl_run (session_tools_execute h sink w claims a k) = None"
  shows "\<exists>reason. cl_answer (session_tools_execute h sink w claims a k) = Inl (TeCapabilityDenied (kind_name a) reason)"
proof (cases "cl_answer (broker_execute h sink w (tool_request claims a) k)")
  case (Inl e)
  then show ?thesis by (simp add: session_tools_execute_def tool_answer_def Let_def)
next
  case (Inr oc)
  moreover have "cl_run (broker_execute h sink w (tool_request claims a) k) = None"
    using assms by (simp add: session_tools_execute_def Let_def)
  ultimately have "oc_result oc = None" by (simp add: execute_result_iff)
  with Inr show ?thesis by (simp add: session_tools_execute_def tool_answer_def Let_def)
qed

section \<open>A denied call in a run\<close>

definition denied_result :: "(tool_error, tool_result) res \<Rightarrow> bool" where
  "denied_result r \<longleftrightarrow> (\<exists>kind reason. r = Inl (TeCapabilityDenied kind reason))"

definition ends_failed :: "turn_step \<Rightarrow> bool" where
  "ends_failed x \<longleftrightarrow> (\<exists>s outcome. x = Done s outcome \<and> ro_status outcome = RstFailed)"

lemma stop_failed_fails [simp]: "ends_failed (stop_failed c d turn error s)"
  unfolding ends_failed_def stop_failed_def failed_outcome_def by (intro exI conjI) (rule refl, simp)

lemma exhausted_fails [simp]: "ends_failed (exhausted c d turn error details s)"
  unfolding exhausted_def by (rule stop_failed_fails)

lemma execute_tool_denied: "denied_result (tn_tool d) \<Longrightarrow> ends_failed (execute_tool cd c d turn t s)"
  by (auto simp: denied_result_def execute_tool_def tool_failed_def simp del: tool_error_str.simps)

lemma tool_action_denied:
  assumes "denied_result (tn_tool d)"
  shows "quiet_step s (step_state (tool_action cd c d turn t s)) \<or> ends_failed (tool_action cd c d turn t s)"
proof (cases "evaluate_action_in_scope (rc_policy c) (mt_action t) (rc_run_scope c)")
  case (PdAllow risk summary grant)
  then show ?thesis by (simp add: tool_action_def Let_def execute_tool_denied [OF assms])
qed (simp_all add: tool_action_def Let_def)

lemma handle_action_denied:
  assumes "denied_result (tn_tool d)"
  shows "quiet_step s (step_state (handle_action cd c d pl t s)) \<or> ends_failed (handle_action cd c d pl t s)"
proof (cases "pl_reserve pl \<and> \<not> is_verification (mt_action t) \<and> \<not> (pl_finish_allowed pl \<and> is_finish (mt_action t)) \<or>
    pl_builder_only pl \<and> \<not> is_implementation (mt_action t)")
  case True
  then show ?thesis by (auto simp: handle_action_def Let_def)
next
  case False
  then show ?thesis
    using tool_action_denied [OF assms, of s cd c "pl_turn pl" t]
    by (cases "mt_action t") (auto simp: handle_action_def Let_def is_finish_def)
qed

lemma run_turn_denied:
  assumes "denied_result (tn_tool d)"
  shows "executed (step_state (run_turn cd c d turn s)) = executed s \<or> ends_failed (run_turn cd c d turn s)"
proof (cases rule: run_turn_cases [of cd c d turn s])
  case (stopped s' outcome)
  then show ?thesis by (simp add: quiet_step_def)
next
  case (failed s2 e)
  then show ?thesis using provider_failed_quiet [of s2 c d turn e] by (simp add: quiet_step_def asked_def)
next
  case (answered s2 t)
  with handle_action_denied [OF assms, of s2 cd c "plan_turn c (lp_completion s) turn" t] show ?thesis
    by (auto simp: quiet_step_def asked_def)
qed

text \<open>A denied call is the last one of the list and the run failed.\<close>

definition denial_last ::
    "(json agent_action \<times> (tool_error, tool_result) res) list \<Rightarrow> run_outcome \<Rightarrow> bool" where
  "denial_last xs outcome \<longleftrightarrow>
     (\<forall>pre a r post. xs = pre @ (a, r) # post \<longrightarrow> denied_result r \<longrightarrow> post = [] \<and> ro_status outcome = RstFailed)"

lemma denial_last_Nil [simp]: "denial_last [] outcome"
  by (simp add: denial_last_def)

lemma denial_last_Cons:
  "\<not> denied_result (snd x) \<Longrightarrow> denial_last xs outcome \<Longrightarrow> denial_last (x # xs) outcome"
  unfolding denial_last_def by (auto simp: Cons_eq_append_conv)

lemma denial_last_single: "(denied_result (snd x) \<Longrightarrow> ro_status outcome = RstFailed) \<Longrightarrow> denial_last [x] outcome"
  by (auto simp: denial_last_def Cons_eq_append_conv)

lemma turn_ran:
  obtains "executed (step_state (run_turn cd c d turn s)) = executed s"
  | x where "executed (step_state (run_turn cd c d turn s)) = executed s @ [x]" "snd x = tn_tool d"
proof -
  obtain xs qs where xs: "executed (step_state (run_turn cd c d turn s)) = executed s @ xs" "length xs \<le> 1"
    "\<forall>x\<in>set xs. turn_action_ok c d turn s x"
    using run_turn_effect [of c d turn s cd] unfolding turn_effect_def by fastforce
  show thesis
  proof (cases xs)
    case Nil
    with xs(1) that(1) show thesis by simp
  next
    case (Cons x ys)
    with xs that(2) [of x] show thesis by (auto simp: turn_action_ok_def)
  qed
qed

lemma run_turns_denied:
  "run_turns cd c draws turns s = (s', outcome) \<Longrightarrow> \<exists>xs. executed s' = executed s @ xs \<and> denial_last xs outcome"
proof (induction cd c draws turns s rule: run_turns.induct)
  case (1 cd c draws s)
  then have "executed s' = executed s" by (auto simp: turns_exhausted_def Let_def split: option.splits)
  then show ?case by simp
next
  case (2 cd c draws turn turns s)
  let ?x = "run_turn cd c (draws turn) turn s"
  show ?case
  proof (cases ?x)
    case (Next s1)
    with 2 obtain xs where xs: "executed s' = executed s1 @ xs" "denial_last xs outcome" by auto
    show ?thesis
    proof (rule turn_ran [of cd c "draws turn" turn s])
      assume "executed (step_state ?x) = executed s"
      with xs Next show ?thesis by auto
    next
      fix x
      assume x: "executed (step_state ?x) = executed s @ [x]" "snd x = tn_tool (draws turn)"
      then have "\<not> denied_result (snd x)"
        using run_turn_denied [of "draws turn" cd c turn s] Next by (auto simp: ends_failed_def)
      from denial_last_Cons [OF this xs(2)] xs(1) x(1) Next show ?thesis by (intro exI [of _ "x # xs"]) simp
    qed
  next
    case (Done s1 o1)
    with 2(2) have s1: "s' = s1" "outcome = o1" by simp_all
    show ?thesis
    proof (rule turn_ran [of cd c "draws turn" turn s])
      assume "executed (step_state ?x) = executed s"
      with s1 Done show ?thesis by auto
    next
      fix x
      assume x: "executed (step_state ?x) = executed s @ [x]" "snd x = tn_tool (draws turn)"
      then have "denial_last [x] outcome"
        using run_turn_denied [of "draws turn" cd c turn s] Done s1 by (intro denial_last_single) (auto simp: ends_failed_def)
      with x(1) s1 Done show ?thesis by auto
    qed
  qed
qed

lemma start_executes_nothing [simp]: "executed (start_state cd c start) = []"
  by (cases start) (simp_all add: start_state_def emit_start_def Let_def split_beta executed_def emit_def)

lemma approved_action_ran:
  "executed (step_state (execute_approved_action cd c d a s)) = executed s @ [(aa_action a, tn_tool d)]"
  by (simp add: execute_approved_action_def Let_def stop_failed_def finish_tool_def split: sum.split)

lemma approved_action_denied: "denied_result (tn_tool d) \<Longrightarrow> ends_failed (execute_approved_action cd c d a s)"
  by (auto simp: denied_result_def execute_approved_action_def Let_def simp del: tool_error_str.simps)

lemma run_loop_denied:
  assumes "run_loop cd c d draws start = (s', outcome)"
  shows "denial_last (executed s') outcome"
proof (cases start)
  case (Approved a)
  let ?s = "start_state cd c start"
  show ?thesis
  proof (cases "execute_approved_action cd c d a ?s")
    case (Next s1)
    then have "\<not> denied_result (tn_tool d)" using approved_action_denied [of d cd c a ?s] by (auto simp: ends_failed_def)
    moreover have "executed s1 = [(aa_action a, tn_tool d)]"
      using approved_action_ran [of cd c d a ?s] Next by simp
    moreover have "run_turns cd c draws [start_turn start..<rc_max_turns c] s1 = (s', outcome)"
      using assms Approved Next by (simp add: run_loop_def Let_def)
    moreover from run_turns_denied [OF this] obtain xs where "executed s' = executed s1 @ xs" "denial_last xs outcome"
      by blast
    ultimately show ?thesis by (simp add: denial_last_Cons)
  next
    case (Done s1 o1)
    with assms Approved have "s' = s1" "outcome = o1" by (simp_all add: run_loop_def Let_def)
    then show ?thesis
      using approved_action_ran [of cd c d a ?s] approved_action_denied [of d cd c a ?s] Done
      by (auto intro!: denial_last_single simp: ends_failed_def)
  qed
next
  case Fresh
  with assms run_turns_denied show ?thesis by (fastforce simp: run_loop_def Let_def)
next
  case (ResumedBudget b)
  with assms run_turns_denied show ?thesis by (fastforce simp: run_loop_def Let_def)
qed

section \<open>Property\<close>

text \<open>C19: A tool call for which the broker ran nothing, whatever the reason, is the last action of the
  agent's run, and the run fails: the model cannot try another call after a denial.\<close>
theorem denied_call_ends_run:
  assumes "run_loop cd c d draws start = (s, outcome)"
    "executed s = pre @ (a, cl_answer (session_tools_execute h sink w claims a k)) # post"
    "cl_run (session_tools_execute h sink w claims a k) = None"
  shows "post = [] \<and> ro_status outcome = RstFailed"
  using run_loop_denied [OF assms(1)] assms(2) tools_denied [OF assms(3)]
  unfolding denial_last_def denied_result_def by blast

end
