(* ===== verification/BrokerToken.thy ===== *)
theory BrokerToken
  imports LabSession
begin

text \<open>
  \<open>campus_broker_token.rs\<close>: the scoped credential a sandbox presents to the trusted broker
  endpoints. The audiences, the syntax of a token, its rotation, and the decision taken on every
  request from the stored facts. The Base64 encoder and SHA-256 belong to third-party crates: they
  are arguments of the definitions that call them.
\<close>

section \<open>Tokens\<close>

definition CAMPUS_BROKER_TOKEN_PREFIX :: string where "CAMPUS_BROKER_TOKEN_PREFIX = ''pcbt1_''"
definition SECRET_CHARS :: nat where "SECRET_CHARS = 43"
definition CAMPUS_BROKER_TOKEN_CHARS :: nat where
  "CAMPUS_BROKER_TOKEN_CHARS = length CAMPUS_BROKER_TOKEN_PREFIX + SECRET_CHARS"
definition HASH_DOMAIN :: string where
  "HASH_DOMAIN = ''pharness-campus-broker-token-v1'' @ [CHR 0x00]"
definition CAMPUS_BROKER_TOKEN_MAX_TTL_SECONDS :: int where "CAMPUS_BROKER_TOKEN_MAX_TTL_SECONDS = 900"
definition CAMPUS_BROKER_TOKEN_ROTATE_AFTER_SECONDS :: int where
  "CAMPUS_BROKER_TOKEN_ROTATE_AFTER_SECONDS = 450"
definition CAMPUS_BROKER_MAX_LIVE_TOKENS :: nat where "CAMPUS_BROKER_MAX_LIVE_TOKENS = 2"

datatype broker_audience = AudInference | AudTools

definition ALL_AUDIENCES :: "broker_audience list" where "ALL_AUDIENCES = [AudInference, AudTools]"

fun audience_as_str :: "broker_audience \<Rightarrow> string" where
  "audience_as_str AudInference = ''inference''"
| "audience_as_str AudTools = ''tools''"

definition audience_parse :: "string \<Rightarrow> broker_audience option" where
  "audience_parse v = find (\<lambda>audience. audience_as_str audience = v) ALL_AUDIENCES"

definition sandbox_may_hold :: "broker_audience \<Rightarrow> bool" where
  "sandbox_may_hold a \<longleftrightarrow> a = AudInference"

text \<open>\<open>b64\<close> is \<open>URL_SAFE_NO_PAD.encode\<close>, and \<open>sha256_hex\<close> the lower-case hexadecimal digest.\<close>

definition secret_from_random_bytes :: "(u8 list \<Rightarrow> string) \<Rightarrow> u8 list \<Rightarrow> string" where
  "secret_from_random_bytes b64 bytes = CAMPUS_BROKER_TOKEN_PREFIX @ b64 bytes"

definition campus_broker_token_hash :: "(string \<Rightarrow> string) \<Rightarrow> string \<Rightarrow> string" where
  "campus_broker_token_hash sha256_hex token = sha256_hex (HASH_DOMAIN @ token)"

definition is_campus_broker_token :: "string \<Rightarrow> bool" where
  "is_campus_broker_token v \<longleftrightarrow> starts_with v CAMPUS_BROKER_TOKEN_PREFIX"

definition is_well_formed_campus_broker_token :: "string \<Rightarrow> bool" where
  "is_well_formed_campus_broker_token v \<longleftrightarrow>
     length v = CAMPUS_BROKER_TOKEN_CHARS \<and>
     (case strip_prefix v CAMPUS_BROKER_TOKEN_PREFIX of
        Some secret \<Rightarrow>
          list_all (\<lambda>b. is_ascii_alnum b \<or> b = CHR ''-'' \<or> b = CHR ''_'') secret
      | None \<Rightarrow> False)"

record issued_token =
  it_token_id :: string
  it_audience :: broker_audience
  it_workload :: workload_ref
  it_lab_generation :: int
  it_issued_at :: int
  it_expires_at :: int
  it_secret :: string

definition rotate_at :: "issued_token \<Rightarrow> int" where
  "rotate_at t =
     min (saturating_add (it_issued_at t) CAMPUS_BROKER_TOKEN_ROTATE_AFTER_SECONDS) (it_expires_at t)"

definition needs_rotation :: "issued_token \<Rightarrow> int \<Rightarrow> bool" where
  "needs_rotation t now \<longleftrightarrow> rotate_at t \<le> now"

section \<open>The decision of a request\<close>

record broker_grant =
  bg_token_id :: string
  bg_audience :: broker_audience
  bg_tenant_id :: string
  bg_course_id :: string
  bg_owner_identity_id :: string
  bg_workload :: workload_ref
  bg_lab_generation :: int
  bg_expires_at :: int

datatype broker_denial =
    BdMalformed | BdUnknownToken | BdWrongAudience | BdTokenRevoked | BdTokenExpired
  | BdSessionInactive | BdSessionExpired | BdGenerationMismatch

fun broker_denial_as_str :: "broker_denial \<Rightarrow> string" where
  "broker_denial_as_str BdMalformed = ''malformed''"
| "broker_denial_as_str BdUnknownToken = ''unknown_token''"
| "broker_denial_as_str BdWrongAudience = ''wrong_audience''"
| "broker_denial_as_str BdTokenRevoked = ''token_revoked''"
| "broker_denial_as_str BdTokenExpired = ''token_expired''"
| "broker_denial_as_str BdSessionInactive = ''session_inactive''"
| "broker_denial_as_str BdSessionExpired = ''session_expired''"
| "broker_denial_as_str BdGenerationMismatch = ''generation_mismatch''"

record token_facts =
  tf_token_id :: string
  tf_audience :: broker_audience
  tf_workload :: workload_ref
  tf_lab_generation :: int
  tf_expires_at :: int
  tf_revoked :: bool
  tf_tenant_id :: string
  tf_course_id :: string
  tf_owner_identity_id :: string
  tf_session_state :: lab_session_state
  tf_session_desired_state :: desired_state
  tf_session_revoked :: bool
  tf_session_expires_at :: int
  tf_session_workload :: "workload_ref option"
  tf_current_session_id :: "string option"
  tf_current_lab_generation :: int

definition token_evaluate ::
    "token_facts \<Rightarrow> broker_audience \<Rightarrow> int \<Rightarrow> (broker_denial, broker_grant) res" where
  "token_evaluate f audience now =
     (if tf_audience f \<noteq> audience then Inl BdWrongAudience
      else if tf_revoked f then Inl BdTokenRevoked
      else if tf_expires_at f \<le> now then Inl BdTokenExpired
      else if \<not> grants_access (tf_session_state f) \<or> tf_session_desired_state f \<noteq> DesiredReady \<or>
        tf_session_revoked f then Inl BdSessionInactive
      else if tf_session_expires_at f \<le> now then Inl BdSessionExpired
      else if tf_session_workload f \<noteq> Some (tf_workload f) \<or>
        tf_current_session_id f \<noteq> Some (wl_session_id (tf_workload f)) \<or>
        tf_current_lab_generation f \<noteq> tf_lab_generation f then Inl BdGenerationMismatch
      else Inr
        \<lparr>bg_token_id = tf_token_id f, bg_audience = tf_audience f, bg_tenant_id = tf_tenant_id f,
         bg_course_id = tf_course_id f, bg_owner_identity_id = tf_owner_identity_id f,
         bg_workload = tf_workload f, bg_lab_generation = tf_lab_generation f,
         bg_expires_at = tf_expires_at f\<rparr>)"

section \<open>Properties\<close>

lemma audience_parse_iff: "audience_parse v = Some a \<longleftrightarrow> audience_as_str a = v"
  by (cases a) (auto simp: audience_parse_def ALL_AUDIENCES_def)

text \<open>A token drawn from a secret generator is well formed, claims to be a broker token and is read
  back to the encoded secret only: two tokens are equal exactly when their encoded secrets are. The
  hypothesis is what the encoder promises of 32 bytes: 43 characters of the URL-safe alphabet.\<close>
theorem drawn_token_well_formed:
  assumes "\<And>bytes. length bytes = 32 \<Longrightarrow> length (b64 bytes) = 43 \<and>
      list_all (\<lambda>b. is_ascii_alnum b \<or> b = CHR ''-'' \<or> b = CHR ''_'') (b64 bytes)"
    and "length bytes = 32"
  shows "is_well_formed_campus_broker_token (secret_from_random_bytes b64 bytes) \<and>
     is_campus_broker_token (secret_from_random_bytes b64 bytes) \<and>
     (\<forall>other. secret_from_random_bytes b64 bytes = secret_from_random_bytes b64 other \<longleftrightarrow>
        b64 bytes = b64 other)"
  using assms(1) [OF assms(2)]
  by (auto simp: is_well_formed_campus_broker_token_def secret_from_random_bytes_def
      is_campus_broker_token_def CAMPUS_BROKER_TOKEN_CHARS_def SECRET_CHARS_def
      strip_prefix_Some starts_with_def strip_prefix_def)

lemma drawn_token_well_formed_witness:
  "is_well_formed_campus_broker_token
     (secret_from_random_bytes (\<lambda>bytes. replicate 43 CHR ''A'') (replicate 32 7))"
  using drawn_token_well_formed [of "\<lambda>bytes. replicate 43 CHR ''A''" "replicate 32 7"]
  by (simp add: is_ascii_alnum_def is_ascii_upper_def is_ascii_lower_def is_ascii_digit_def byte_def
      list_all_iff)

text \<open>A well-formed token is the prefix followed by exactly 43 characters of the URL-safe
  alphabet, and nothing else is.\<close>
theorem well_formed_token_exact:
  "is_well_formed_campus_broker_token v \<longleftrightarrow>
     (\<exists>secret. v = CAMPUS_BROKER_TOKEN_PREFIX @ secret \<and> length secret = 43 \<and>
        list_all (\<lambda>b. is_ascii_alnum b \<or> b \<in> {CHR ''-'', CHR ''_''}) secret)"
  by (auto simp: is_well_formed_campus_broker_token_def CAMPUS_BROKER_TOKEN_CHARS_def
      SECRET_CHARS_def strip_prefix_Some list_all_iff split: option.splits)
    (metis strip_prefix_Some option.distinct(1))

text \<open>A token authorises a request exactly when it is of the audience asked, live and unexpired,
  its session is ready, wanted, not revoked and unexpired, and it names the slot occupancy and the
  lab generation the session holds now; the grant then repeats the token's stored identity.\<close>
theorem broker_grant_exact:
  "token_evaluate f audience now = Inr g \<longleftrightarrow>
     tf_audience f = audience \<and> \<not> tf_revoked f \<and> now < tf_expires_at f \<and>
     tf_session_state f = LsReady \<and> tf_session_desired_state f = DesiredReady \<and>
     \<not> tf_session_revoked f \<and> now < tf_session_expires_at f \<and>
     tf_session_workload f = Some (tf_workload f) \<and>
     tf_current_session_id f = Some (wl_session_id (tf_workload f)) \<and>
     tf_current_lab_generation f = tf_lab_generation f \<and>
     g = \<lparr>bg_token_id = tf_token_id f, bg_audience = audience, bg_tenant_id = tf_tenant_id f,
          bg_course_id = tf_course_id f, bg_owner_identity_id = tf_owner_identity_id f,
          bg_workload = tf_workload f, bg_lab_generation = tf_lab_generation f,
          bg_expires_at = tf_expires_at f\<rparr>"
  by (auto simp: token_evaluate_def grants_access_def)

text \<open>A refused request is told the first failing condition in the order audience, revocation,
  token expiry, session activity, session expiry, occupancy; a decision on stored facts is never
  \<open>Malformed\<close> or \<open>UnknownToken\<close>.\<close>
theorem broker_denial_precedence:
  assumes "token_evaluate f audience now = Inl d"
  shows "(d = BdWrongAudience \<longleftrightarrow> tf_audience f \<noteq> audience) \<and>
     (d = BdTokenRevoked \<longleftrightarrow> tf_audience f = audience \<and> tf_revoked f) \<and>
     (d = BdTokenExpired \<longleftrightarrow> tf_audience f = audience \<and> \<not> tf_revoked f \<and> tf_expires_at f \<le> now) \<and>
     d \<notin> {BdMalformed, BdUnknownToken} \<and>
     (d = BdGenerationMismatch \<longrightarrow> tf_session_state f = LsReady \<and> now < tf_session_expires_at f \<and>
        now < tf_expires_at f)"
  using assms by (auto simp: token_evaluate_def grants_access_def split: if_splits)

definition example_workload :: workload_ref where
  "example_workload = \<lparr>wl_session_id = ''s1'', wl_slot_id = ''slot-a'', wl_slot_generation = 3\<rparr>"

definition example_facts :: "lab_session_state \<Rightarrow> token_facts" where
  "example_facts state =
     \<lparr>tf_token_id = ''cbt_1'', tf_audience = AudInference, tf_workload = example_workload,
      tf_lab_generation = 2, tf_expires_at = 1900, tf_revoked = False, tf_tenant_id = ''t'',
      tf_course_id = ''c'', tf_owner_identity_id = ''o'', tf_session_state = state,
      tf_session_desired_state = DesiredReady, tf_session_revoked = False,
      tf_session_expires_at = 5000, tf_session_workload = Some example_workload,
      tf_current_session_id = Some ''s1'', tf_current_lab_generation = 2\<rparr>"

lemma broker_denial_precedence_witness:
  "token_evaluate (example_facts LsStopping) AudInference 1000 = Inl BdSessionInactive \<and>
   \<not> tf_revoked (example_facts LsStopping) \<and> 1000 < tf_expires_at (example_facts LsStopping)"
proof -
  have d: "token_evaluate (example_facts LsStopping) AudInference 1000 = Inl BdSessionInactive"
    by code_simp
  show ?thesis using broker_denial_precedence [OF d] d
    by (simp add: example_facts_def)
qed

text \<open>Rotation comes after the issue and never after the expiry: a token whose life is at most the
  maximum asks for its replacement exactly from 450 seconds on or from its expiry if that is
  earlier, and never with more than 450 seconds of life left.\<close>
theorem rotation_before_expiry:
  assumes "i64_min \<le> it_issued_at t" "it_issued_at t \<le> i64_max - 900"
    "it_issued_at t < it_expires_at t"
    "it_expires_at t \<le> it_issued_at t + CAMPUS_BROKER_TOKEN_MAX_TTL_SECONDS"
  shows "rotate_at t \<le> it_expires_at t \<and> it_issued_at t < rotate_at t \<and>
     (needs_rotation t now \<longleftrightarrow> it_expires_at t \<le> now \<or> it_issued_at t + 450 \<le> now) \<and>
     it_expires_at t - rotate_at t \<le> 450"
  using assms
  by (auto simp: rotate_at_def needs_rotation_def saturating_add_def sat_i64_def
      CAMPUS_BROKER_TOKEN_ROTATE_AFTER_SECONDS_def CAMPUS_BROKER_TOKEN_MAX_TTL_SECONDS_def
      i64_min_def i64_max_def)

definition example_token :: issued_token where
  "example_token =
     \<lparr>it_token_id = ''cbt_1'', it_audience = AudInference, it_workload = example_workload,
      it_lab_generation = 2, it_issued_at = 1000, it_expires_at = 1900, it_secret = ''pcbt1_''\<rparr>"

lemma rotation_before_expiry_witness:
  "rotate_at example_token \<le> 1900 \<and> needs_rotation example_token 1450 \<and>
   \<not> needs_rotation example_token 1449"
  using rotation_before_expiry [of example_token 1450] rotation_before_expiry [of example_token 1449]
  by (simp add: example_token_def i64_min_def i64_max_def CAMPUS_BROKER_TOKEN_MAX_TTL_SECONDS_def)

end
