(* ===== verification/CampusStore.thy ===== *)
theory CampusStore
  imports LabSafety BrokerToken
begin

text \<open>
  The tables around the journal: assignment labs, their generations and launch keys (migration
  0059), broker tokens (migration 0060) and the trigger that revokes the tokens of a session when
  its row changes. \<open>sqlite/campus_admission.rs\<close> and \<open>sqlite/campus_broker.rs\<close> of the store; as in
  \<open>LabJournal\<close> a transaction is a function, and an error or a rejection leaves the store as it was.
\<close>

section \<open>Rows\<close>

record lab_limits =
  lm_lab_slots :: int
  lm_max_active_per_identity :: int
  lm_max_active_per_course :: int

record admit_launch =
  al_tenant_id :: string
  al_course_id :: string
  al_assignment_id :: string
  al_issuer :: string
  al_subject :: string
  al_idempotency_key :: "string option"
  al_reset_from :: "string option"
  al_candidate_lab_id :: string
  al_candidate_budget_id :: string
  al_candidate_session_id :: string
  al_profile :: profile_ref
  al_policy_hash :: string
  al_expires_at :: int
  al_actor :: string
  al_now :: int
  al_limits :: lab_limits

record campus_lab =
  lb_lab_id :: string
  lb_tenant_id :: string
  lb_course_id :: string
  lb_assignment_id :: string
  lb_issuer :: string
  lb_subject :: string
  lb_budget_id :: string
  lb_generation :: int
  lb_current :: "string option"
  lb_reset_requested_at :: "int option"
  lb_created_at :: int
  lb_updated_at :: int

record lab_generation =
  gn_session_id :: string
  gn_lab_id :: string
  gn_generation :: int
  gn_policy_hash :: string
  gn_reset_from :: "string option"
  gn_created_at :: int

record launch_request =
  rq_tenant_id :: string
  rq_issuer :: string
  rq_subject :: string
  rq_key :: string
  rq_course_id :: string
  rq_assignment_id :: string
  rq_session_id :: string
  rq_created_at :: int

record stored_token =
  bk_sequence :: int
  bk_token_id :: string
  bk_token_hash :: string
  bk_audience :: broker_audience
  bk_workload :: workload_ref
  bk_lab_id :: string
  bk_lab_generation :: int
  bk_issued_by :: string
  bk_issued_at :: int
  bk_expires_at :: int
  bk_revoked_at :: "int option"
  bk_revoked_reason :: "string option"

text \<open>\<open>st_identity_id\<close> is the \<open>id\<close> column of the identity rows, whose keys are \<open>jn_identities\<close>.\<close>

record campus_store =
  st_journal :: journal
  st_labs :: "campus_lab list"
  st_generations :: "lab_generation list"
  st_launches :: "launch_request list"
  st_tokens :: "stored_token list"
  st_identity_id :: "string \<times> string \<times> string \<Rightarrow> string"

record session_record =
  sr_session :: lab_session
  sr_lab :: campus_lab
  sr_generation :: int
  sr_policy_hash :: string
  sr_reset_from :: "string option"
  sr_owner_identity_id :: string

definition is_current :: "session_record \<Rightarrow> bool" where
  "is_current r \<longleftrightarrow> lb_current (sr_lab r) = Some (ls_session_id (sr_session r))"

datatype lab_rejection =
    NoSlotsAvailable
  | CourseCapacityReached
  | IdentitySessionLimit string
  | IdempotencyKeyReused
  | ResetSuperseded "string option"
  | TeardownPending

datatype lab_admission =
    AdmCreated session_record
  | AdmActive session_record
  | AdmReplayed session_record
  | AdmRejected lab_rejection

section \<open>Queries\<close>

abbreviation lab_owner :: "campus_lab \<Rightarrow> string \<times> string \<times> string" where
  "lab_owner l \<equiv> (lb_tenant_id l, lb_issuer l, lb_subject l)"

definition load_lab :: "campus_store \<Rightarrow> string \<Rightarrow> campus_lab option" where
  "load_lab s lab_id = find (\<lambda>l. lb_lab_id l = lab_id) (st_labs s)"

definition load_generation :: "campus_store \<Rightarrow> string \<Rightarrow> lab_generation option" where
  "load_generation s sid = find (\<lambda>g. gn_session_id g = sid) (st_generations s)"

definition load_record :: "campus_store \<Rightarrow> string \<Rightarrow> session_record option" where
  "load_record s sid =
     Option.bind (load_session (st_journal s) sid) (\<lambda>session.
     Option.bind (load_generation s sid) (\<lambda>g.
     Option.bind (load_lab s (gn_lab_id g)) (\<lambda>lab.
       if lab_owner lab \<in> set (jn_identities (st_journal s))
       then Some \<lparr>sr_session = session, sr_lab = lab, sr_generation = gn_generation g,
                  sr_policy_hash = gn_policy_hash g, sr_reset_from = gn_reset_from g,
                  sr_owner_identity_id = st_identity_id s (lab_owner lab)\<rparr>
       else None)))"

definition get_campus_lab ::
    "campus_store \<Rightarrow> string \<Rightarrow> string \<Rightarrow> string \<Rightarrow> string \<Rightarrow> string \<Rightarrow> campus_lab option" where
  "get_campus_lab s tenant course assignment issuer subject =
     find (\<lambda>l. lb_tenant_id l = tenant \<and> lb_course_id l = course \<and> lb_assignment_id l = assignment \<and>
        lb_issuer l = issuer \<and> lb_subject l = subject) (st_labs s)"

section \<open>The trigger on session rows\<close>

text \<open>
  After an update of a session row, its live tokens are revoked when the row is asked to stop, is
  revoked, or is neither provisioning nor ready. A transaction updates a session row at most once;
  an update that writes the row unchanged finds no live token the row would revoke.
\<close>

definition revokes_tokens :: "lab_session \<Rightarrow> bool" where
  "revokes_tokens s \<longleftrightarrow>
     ls_desired s = DesiredTerminated \<or> ls_revoked_at s \<noteq> None \<or>
     ls_state s \<notin> {LsProvisioning, LsReady}"

definition session_revocation_reason :: "lab_session \<Rightarrow> string" where
  "session_revocation_reason s =
     (if ls_state s \<in> {LsProvisioning, LsReady} then ''session_stop_requested''
      else ''session_'' @ lab_state_as_str (ls_state s))"

definition revoked_token :: "int \<Rightarrow> string \<Rightarrow> stored_token \<Rightarrow> stored_token" where
  "revoked_token now reason t = t\<lparr>bk_revoked_at := Some now, bk_revoked_reason := Some reason\<rparr>"

definition live_token :: "string \<Rightarrow> stored_token \<Rightarrow> bool" where
  "live_token sid t \<longleftrightarrow> wl_session_id (bk_workload t) = sid \<and> bk_revoked_at t = None"

definition revoke_session_tokens :: "lab_session \<Rightarrow> stored_token list \<Rightarrow> stored_token list" where
  "revoke_session_tokens s =
     update_where (live_token (ls_session_id s))
       (revoked_token (ls_updated_at s) (session_revocation_reason s))"

definition updated_sessions :: "journal \<Rightarrow> journal \<Rightarrow> lab_session list" where
  "updated_sessions j j' =
     filter (\<lambda>s. case load_session j (ls_session_id s) of Some old \<Rightarrow> old \<noteq> s | None \<Rightarrow> False)
       (jn_sessions j')"

definition with_journal :: "campus_store \<Rightarrow> journal \<Rightarrow> campus_store" where
  "with_journal s j' =
     s\<lparr>st_journal := j',
       st_tokens := fold revoke_session_tokens
         (filter revokes_tokens (updated_sessions (st_journal s) j')) (st_tokens s)\<rparr>"

section \<open>Admission\<close>

definition MAX_IDEMPOTENCY_KEY_CHARS :: nat where "MAX_IDEMPOTENCY_KEY_CHARS = 128"

definition find_launch :: "campus_store \<Rightarrow> admit_launch \<Rightarrow> string \<Rightarrow> launch_request option" where
  "find_launch s r key =
     find (\<lambda>q. rq_tenant_id q = al_tenant_id r \<and> rq_issuer q = al_issuer r \<and>
        rq_subject q = al_subject r \<and> rq_key q = key) (st_launches s)"

definition insert_launch_request ::
    "campus_store \<Rightarrow> admit_launch \<Rightarrow> string option \<Rightarrow> string \<Rightarrow> campus_store" where
  "insert_launch_request s r key sid =
     (case key of
        None \<Rightarrow> s
      | Some key \<Rightarrow> s\<lparr>st_launches := st_launches s @
          [\<lparr>rq_tenant_id = al_tenant_id r, rq_issuer = al_issuer r, rq_subject = al_subject r,
            rq_key = key, rq_course_id = al_course_id r, rq_assignment_id = al_assignment_id r,
            rq_session_id = sid, rq_created_at = al_now r\<rparr>]\<rparr>)"

definition admission_request_ok :: "admit_launch \<Rightarrow> bool" where
  "admission_request_ok r \<longleftrightarrow>
     1 \<le> lm_lab_slots (al_limits r) \<and> 1 \<le> lm_max_active_per_identity (al_limits r) \<and>
     1 \<le> lm_max_active_per_course (al_limits r) \<and>
     (case al_idempotency_key r of
        Some key \<Rightarrow> key \<noteq> [] \<and> char_count key \<le> MAX_IDEMPOTENCY_KEY_CHARS
      | None \<Rightarrow> True) \<and>
     \<not> (al_idempotency_key r \<noteq> None \<and> al_reset_from r \<noteq> None)"

text \<open>A key that already answered a launch answers again with the same session.\<close>

definition replay_launch ::
    "campus_store \<Rightarrow> admit_launch \<Rightarrow> launch_request \<Rightarrow> (journal_error, lab_admission) res" where
  "replay_launch s r previous =
     (if rq_course_id previous \<noteq> al_course_id r \<or> rq_assignment_id previous \<noteq> al_assignment_id r
      then Inr (AdmRejected IdempotencyKeyReused)
      else res_bind (ok_or (load_record s (rq_session_id previous)) (JeNotFound (rq_session_id previous)))
        (\<lambda>record. Inr (AdmReplayed record)))"

definition request_lab :: "campus_store \<Rightarrow> admit_launch \<Rightarrow> campus_lab option" where
  "request_lab s r = get_campus_lab s (al_tenant_id r) (al_course_id r) (al_assignment_id r)
     (al_issuer r) (al_subject r)"

definition candidate_lab :: "admit_launch \<Rightarrow> campus_lab" where
  "candidate_lab r =
     \<lparr>lb_lab_id = al_candidate_lab_id r, lb_tenant_id = al_tenant_id r,
      lb_course_id = al_course_id r, lb_assignment_id = al_assignment_id r,
      lb_issuer = al_issuer r, lb_subject = al_subject r, lb_budget_id = al_candidate_budget_id r,
      lb_generation = 0, lb_current = None, lb_reset_requested_at = None,
      lb_created_at = al_now r, lb_updated_at = al_now r\<rparr>"

definition lab_text_ok :: "campus_lab \<Rightarrow> bool" where
  "lab_text_ok l \<longleftrightarrow>
     chars_between 1 128 (lb_lab_id l) \<and> chars_between 1 64 (lb_tenant_id l) \<and>
     chars_between 1 128 (lb_course_id l) \<and> chars_between 1 128 (lb_assignment_id l) \<and>
     chars_between 1 128 (lb_budget_id l)"

text \<open>\<open>INSERT ... ON CONFLICT DO NOTHING\<close> over the owner and assignment: the row checks come
  first, an existing lab of the same owner and assignment makes the insert a no-op, and any other
  uniqueness conflict is an error.\<close>

definition find_or_create_lab ::
    "campus_store \<Rightarrow> admit_launch \<Rightarrow> (journal_error, campus_store \<times> campus_lab) res" where
  "find_or_create_lab s r =
     (let new = candidate_lab r in
      if \<not> lab_text_ok new then Inl JeStore
      else case request_lab s r of
          Some lab \<Rightarrow> Inr (s, lab)
        | None \<Rightarrow>
            if list_ex (\<lambda>l. lb_lab_id l = lb_lab_id new \<or> lb_budget_id l = lb_budget_id new) (st_labs s)
            then Inl JeStore
            else Inr (s\<lparr>st_labs := st_labs s @ [new]\<rparr>, new))"

text \<open>What the lab's current session answers; \<open>None\<close> when a new generation is needed.\<close>

definition answer_from_current ::
    "campus_store \<Rightarrow> campus_store \<Rightarrow> admit_launch \<Rightarrow> campus_lab
       \<Rightarrow> (journal_error, campus_store \<times> lab_admission) res option" where
  "answer_from_current before s r lab =
     (case (lb_current lab, al_reset_from r) of
        (Some current_id, reset_from) \<Rightarrow>
          (case load_record s current_id of
             None \<Rightarrow> Some (Inl (JeNotFound current_id))
           | Some current \<Rightarrow>
               if reset_from \<noteq> None \<and> reset_from \<noteq> Some current_id then
                 Some (Inr (before,
                   if sr_reset_from current = reset_from then AdmReplayed current
                   else AdmRejected (ResetSuperseded (Some current_id))))
               else if \<not> is_terminal (ls_state (sr_session current)) then
                 (if reset_from \<noteq> None then Some (Inr (before, AdmRejected TeardownPending))
                  else Some (Inr (insert_launch_request s r (al_idempotency_key r) current_id,
                         AdmActive current)))
               else None)
      | (None, Some _) \<Rightarrow> Some (Inr (before, AdmRejected (ResetSuperseded None)))
      | (None, None) \<Rightarrow> None)"

text \<open>The session identifiers that count against a limit: the live sessions the query selects, and
  the torn-down current sessions of other labs whose reset waits. SQL leaves their order open; the
  model lists them in table order.\<close>

definition awaiting_reset :: "campus_store \<Rightarrow> string \<Rightarrow> campus_lab \<Rightarrow> bool" where
  "awaiting_reset s tenant l \<longleftrightarrow>
     lb_tenant_id l = tenant \<and> lb_reset_requested_at l \<noteq> None \<and>
     (case Option.bind (lb_current l) (load_session (st_journal s)) of
        Some session \<Rightarrow> is_terminal (ls_state session)
      | None \<Rightarrow> False)"

definition occupying_ids ::
    "campus_store \<Rightarrow> string \<Rightarrow> (lab_session \<Rightarrow> bool) \<Rightarrow> (campus_lab \<Rightarrow> bool) \<Rightarrow> string list" where
  "occupying_ids s tenant P Q =
     map ls_session_id (filter (\<lambda>x. ls_tenant_id x = tenant \<and> P x \<and> \<not> is_terminal (ls_state x))
       (jn_sessions (st_journal s))) @
     map (\<lambda>l. the (lb_current l)) (filter (\<lambda>l. awaiting_reset s tenant l \<and> Q l) (st_labs s))"

definition identity_live :: "campus_store \<Rightarrow> admit_launch \<Rightarrow> string \<Rightarrow> string list" where
  "identity_live s r lab_id = occupying_ids s (al_tenant_id r)
     (\<lambda>x. ls_issuer x = al_issuer r \<and> ls_subject x = al_subject r)
     (\<lambda>l. lb_issuer l = al_issuer r \<and> lb_subject l = al_subject r \<and> lb_lab_id l \<noteq> lab_id)"

definition course_live :: "campus_store \<Rightarrow> admit_launch \<Rightarrow> string \<Rightarrow> int" where
  "course_live s r lab_id = int (length (occupying_ids s (al_tenant_id r)
     (\<lambda>x. ls_course_id x = al_course_id r)
     (\<lambda>l. lb_course_id l = al_course_id r \<and> lb_lab_id l \<noteq> lab_id)))"

definition tenant_live :: "campus_store \<Rightarrow> admit_launch \<Rightarrow> string \<Rightarrow> int" where
  "tenant_live s r lab_id = int (length (occupying_ids s (al_tenant_id r)
     (\<lambda>_. True) (\<lambda>l. lb_lab_id l \<noteq> lab_id)))"

definition usable_slots :: "journal \<Rightarrow> string \<Rightarrow> int" where
  "usable_slots j tenant = int (length (filter (\<lambda>l. sl_tenant_id l = tenant \<and>
     (sl_occupant l \<noteq> None \<or> \<not> slot_held j (sl_slot_id l))) (jn_slots j)))"

definition capacity_rejection ::
    "campus_store \<Rightarrow> admit_launch \<Rightarrow> campus_lab \<Rightarrow> lab_rejection option" where
  "capacity_rejection s r lab =
     (let live = identity_live s r (lb_lab_id lab); limits = al_limits r in
      if lm_max_active_per_identity limits \<le> int (length live)
      then Some (IdentitySessionLimit (hd live))
      else if min (lm_lab_slots limits) (usable_slots (st_journal s) (al_tenant_id r))
           \<le> tenant_live s r (lb_lab_id lab)
      then Some NoSlotsAvailable
      else if lm_max_active_per_course limits \<le> course_live s r (lb_lab_id lab)
      then Some CourseCapacityReached
      else None)"

definition session_request :: "admit_launch \<Rightarrow> create_session" where
  "session_request r =
     \<lparr>cs_session_id = al_candidate_session_id r, cs_tenant_id = al_tenant_id r,
      cs_course_id = al_course_id r, cs_issuer = al_issuer r, cs_subject = al_subject r,
      cs_profile = al_profile r, cs_expires_at = al_expires_at r, cs_actor = al_actor r,
      cs_now = al_now r\<rparr>"

definition new_generation :: "admit_launch \<Rightarrow> campus_lab \<Rightarrow> lab_generation" where
  "new_generation r lab =
     \<lparr>gn_session_id = al_candidate_session_id r, gn_lab_id = lb_lab_id lab,
      gn_generation = lb_generation lab + 1, gn_policy_hash = al_policy_hash r,
      gn_reset_from = al_reset_from r, gn_created_at = al_now r\<rparr>"

definition generation_row_ok :: "campus_store \<Rightarrow> lab_generation \<Rightarrow> bool" where
  "generation_row_ok s g \<longleftrightarrow>
     chars_between 1 128 (gn_policy_hash g) \<and>
     (case gn_reset_from g of Some old \<Rightarrow> load_session (st_journal s) old \<noteq> None | None \<Rightarrow> True) \<and>
     \<not> list_ex (\<lambda>h. gn_session_id h = gn_session_id g \<or>
         gn_lab_id h = gn_lab_id g \<and> gn_generation h = gn_generation g) (st_generations s)"

definition next_generation_of :: "admit_launch \<Rightarrow> campus_lab \<Rightarrow> campus_lab \<Rightarrow> campus_lab" where
  "next_generation_of r lab l =
     l\<lparr>lb_current := Some (al_candidate_session_id r), lb_generation := lb_generation lab + 1,
       lb_reset_requested_at := None, lb_updated_at := al_now r\<rparr>"

definition admitted_payload :: "campus_store \<Rightarrow> admit_launch \<Rightarrow> campus_lab \<Rightarrow> event_payload" where
  "admitted_payload s r lab =
     PayAdmitted (lb_lab_id lab) (al_assignment_id r) (lb_generation lab + 1) (lb_budget_id lab)
       (al_reset_from r) (al_policy_hash r) (tenant_live s r (lb_lab_id lab))
       (course_live s r (lb_lab_id lab))"

definition create_generation ::
    "campus_store \<Rightarrow> admit_launch \<Rightarrow> campus_lab \<Rightarrow> (journal_error, campus_store \<times> lab_admission) res"
where
  "create_generation s r lab =
     res_bind (insert_campus_lab_session (st_journal s) (session_request r)) (\<lambda>(j1, session, created).
     if \<not> created then Inl (JeConflict ConflictExists)
     else
       let g = new_generation r lab; s1 = with_journal s j1;
           here = (\<lambda>l. lb_lab_id l = lb_lab_id lab \<and> lb_generation l = lb_generation lab) in
       if \<not> generation_row_ok s1 g then Inl JeStore
       else if rows_affected here (st_labs s1) \<noteq> 1 then Inl (JeFenced FenceLabGeneration)
       else
         let s2 = s1\<lparr>st_generations := st_generations s1 @ [g],
                     st_labs := update_where here (next_generation_of r lab) (st_labs s1)\<rparr>;
             s3 = insert_launch_request s2 r (al_idempotency_key r) (ls_session_id session);
             j2 = fst (insert_event (st_journal s3) (ls_session_id session) ''campus.lab.admitted''
               None None (ls_generation session) None (al_actor r) (admitted_payload s r lab) (al_now r));
             s4 = with_journal s3 j2 in
         res_bind (ok_or (load_record s4 (ls_session_id session)) (JeNotFound (ls_session_id session)))
           (\<lambda>record. Inr (s4, AdmCreated record)))"

definition admit_campus_lab_launch ::
    "campus_store \<Rightarrow> admit_launch \<Rightarrow> (journal_error, campus_store \<times> lab_admission) res" where
  "admit_campus_lab_launch s r =
     (if \<not> admission_request_ok r then Inl JeInvalid
      else case Option.bind (al_idempotency_key r) (find_launch s r) of
          Some previous \<Rightarrow> res_bind (replay_launch s r previous) (\<lambda>answer. Inr (s, answer))
        | None \<Rightarrow>
            if (al_tenant_id r, al_issuer r, al_subject r) \<notin> set (jn_identities (st_journal s))
            then Inl JeInvalid
            else res_bind (find_or_create_lab s r) (\<lambda>(s1, lab).
              case answer_from_current s s1 r lab of
                Some answer \<Rightarrow> answer
              | None \<Rightarrow>
                  (case capacity_rejection s1 r lab of
                     Some rejection \<Rightarrow> Inr (s, AdmRejected rejection)
                   | None \<Rightarrow> create_generation s1 r lab)))"

section \<open>Stops and resets\<close>

definition reset_request :: "session_record \<Rightarrow> bool \<Rightarrow> lab_session \<Rightarrow> int \<Rightarrow> int option" where
  "reset_request record reset session now =
     (if reset \<and> \<not> is_terminal (ls_state session)
      then Some (case lb_reset_requested_at (sr_lab record) of Some at \<Rightarrow> at | None \<Rightarrow> now)
      else None)"

definition request_campus_lab_stop ::
    "campus_store \<Rightarrow> string \<Rightarrow> string \<Rightarrow> string \<Rightarrow> bool \<Rightarrow> int
       \<Rightarrow> (journal_error, campus_store \<times> session_record) res" where
  "request_campus_lab_stop s sid actor reason reset now =
     res_bind (ok_or (load_record s sid) (JeNotFound sid)) (\<lambda>record.
     res_bind (request_campus_lab_stop_in (st_journal s) sid actor reason now) (\<lambda>(j', session).
       let s1 = with_journal s j'; wanted = reset_request record reset session now;
           lab = sr_lab record;
           s2 = (if is_current record \<and> wanted \<noteq> lb_reset_requested_at lab
             then s1\<lparr>st_labs := update_where
                 (\<lambda>l. lb_lab_id l = lb_lab_id lab \<and> lb_generation l = lb_generation lab)
                 (\<lambda>l. l\<lparr>lb_reset_requested_at := wanted, lb_updated_at := now\<rparr>) (st_labs s1)\<rparr>
             else s1) in
       res_bind (ok_or (load_record s2 sid) (JeNotFound sid)) (\<lambda>record. Inr (s2, record))))"

definition clear_campus_lab_reset :: "campus_store \<Rightarrow> string \<Rightarrow> string \<Rightarrow> int \<Rightarrow> campus_store \<times> bool" where
  "clear_campus_lab_reset s lab_id sid now =
     (let waiting = (\<lambda>l. lb_lab_id l = lab_id \<and> lb_current l = Some sid \<and>
            lb_reset_requested_at l \<noteq> None) in
      (s\<lparr>st_labs := update_where waiting
          (\<lambda>l. l\<lparr>lb_reset_requested_at := None, lb_updated_at := now\<rparr>) (st_labs s)\<rparr>,
       rows_affected waiting (st_labs s) = 1))"

end
