(* ===== verification/BrokerStore.thy ===== *)
theory BrokerStore
  imports CampusStore
begin

text \<open>
  \<open>sqlite/campus_broker.rs\<close>, \<open>campus_broker.rs\<close> of the store and the request check of the API's
  \<open>campus/broker.rs\<close>: a token is issued against the session's row, its lab and its slot, checked
  against them on every request, and revoked. Tokens are stored by hash only; the secret
  generator, Base64 and SHA-256 are arguments.
\<close>

section \<open>Issuing\<close>

record issue_token =
  iq_token_id :: string
  iq_token_hash :: string
  iq_workload :: workload_ref
  iq_audience :: broker_audience
  iq_actor :: string
  iq_now :: int
  iq_ttl_seconds :: int

definition is_ascii_hexdigit :: "char \<Rightarrow> bool" where
  "is_ascii_hexdigit c \<longleftrightarrow>
     is_ascii_digit c \<or> (65 \<le> byte c \<and> byte c \<le> 70) \<or> (97 \<le> byte c \<and> byte c \<le> 102)"

definition issue_request_ok :: "issue_token \<Rightarrow> bool" where
  "issue_request_ok r \<longleftrightarrow>
     iq_token_id r \<noteq> [] \<and> length (iq_token_id r) \<le> 128 \<and> \<not> is_blank (iq_actor r) \<and>
     length (iq_token_hash r) = 64 \<and> list_all is_ascii_hexdigit (iq_token_hash r) \<and>
     1 \<le> iq_ttl_seconds r \<and> iq_ttl_seconds r \<le> CAMPUS_BROKER_TOKEN_MAX_TTL_SECONDS"

definition issuable :: "session_record \<Rightarrow> issue_token \<Rightarrow> (journal_error, unit) res" where
  "issuable record r =
     (let session = sr_session record in
      if ls_state session \<notin> {LsProvisioning, LsReady} \<or> ls_desired session \<noteq> DesiredReady \<or>
         ls_revoked_at session \<noteq> None
      then Inl (JeConflict ConflictInactive)
      else if ls_expires_at session \<le> iq_now r then Inl (JeConflict ConflictExpired)
      else if session_workload session \<noteq> Some (iq_workload r) then Inl (JeFenced FenceOccupancy)
      else if \<not> is_current record then Inl (JeFenced FenceLabGeneration)
      else Inr ())"

definition token_expiry :: "session_record \<Rightarrow> issue_token \<Rightarrow> int" where
  "token_expiry record r =
     min (saturating_add (iq_now r) (iq_ttl_seconds r)) (ls_expires_at (sr_session record))"

definition new_token :: "campus_store \<Rightarrow> session_record \<Rightarrow> issue_token \<Rightarrow> stored_token" where
  "new_token s record r =
     \<lparr>bk_sequence = int (length (st_tokens s)) + 1, bk_token_id = iq_token_id r,
      bk_token_hash = iq_token_hash r, bk_audience = iq_audience r, bk_workload = iq_workload r,
      bk_lab_id = lb_lab_id (sr_lab record), bk_lab_generation = sr_generation record,
      bk_issued_by = iq_actor r, bk_issued_at = iq_now r, bk_expires_at = token_expiry record r,
      bk_revoked_at = None, bk_revoked_reason = None\<rparr>"

text \<open>Live tokens of the session and audience, newest first; all but the newest two are
  superseded.\<close>

definition live_of :: "string \<Rightarrow> broker_audience \<Rightarrow> stored_token \<Rightarrow> bool" where
  "live_of sid audience t \<longleftrightarrow> live_token sid t \<and> bk_audience t = audience"

definition newest_live :: "string \<Rightarrow> broker_audience \<Rightarrow> stored_token list \<Rightarrow> int list" where
  "newest_live sid audience tokens =
     take CAMPUS_BROKER_MAX_LIVE_TOKENS
       (rev (sort (map bk_sequence (filter (live_of sid audience) tokens))))"

definition supersede ::
    "string \<Rightarrow> broker_audience \<Rightarrow> int \<Rightarrow> stored_token list \<Rightarrow> stored_token list" where
  "supersede sid audience now tokens =
     update_where (\<lambda>t. live_of sid audience t \<and> bk_sequence t \<notin> set (newest_live sid audience tokens))
       (revoked_token now ''superseded'') tokens"

definition load_token :: "campus_store \<Rightarrow> string \<Rightarrow> stored_token option" where
  "load_token s token_id = find (\<lambda>t. bk_token_id t = token_id) (st_tokens s)"

definition token_row_ok :: "campus_store \<Rightarrow> stored_token \<Rightarrow> bool" where
  "token_row_ok s t \<longleftrightarrow>
     1 \<le> wl_slot_generation (bk_workload t) \<and> 1 \<le> bk_lab_generation t \<and>
     load_slot (st_journal s) (wl_slot_id (bk_workload t)) \<noteq> None \<and>
     bk_issued_at t < bk_expires_at t \<and> bk_expires_at t - bk_issued_at t \<le> 900 \<and>
     \<not> list_ex (\<lambda>u. bk_token_id u = bk_token_id t \<or> bk_token_hash u = bk_token_hash t) (st_tokens s)"

definition issue_campus_broker_token ::
    "campus_store \<Rightarrow> issue_token \<Rightarrow> (journal_error, campus_store \<times> stored_token) res" where
  "issue_campus_broker_token s r =
     (if \<not> issue_request_ok r then Inl JeInvalid
      else
        let sid = wl_session_id (iq_workload r) in
        res_bind (ok_or (load_record s sid) (JeNotFound sid)) (\<lambda>record.
        res_bind (issuable record r) (\<lambda>_.
          let t = new_token s record r in
          if \<not> token_row_ok s t then Inl JeStore
          else
            let s' = s\<lparr>st_tokens := supersede sid (iq_audience r) (iq_now r) (st_tokens s @ [t])\<rparr> in
            res_bind (ok_or (load_token s' (iq_token_id r)) (JeNotFound (iq_token_id r)))
              (\<lambda>stored. Inr (s', stored)))))"

section \<open>Checking and revoking\<close>

text \<open>The join of a token with its session, lab and owner.\<close>

definition joined_facts :: "campus_store \<Rightarrow> stored_token \<Rightarrow> token_facts option" where
  "joined_facts s t =
     Option.bind (load_session (st_journal s) (wl_session_id (bk_workload t))) (\<lambda>session.
     Option.bind (load_lab s (bk_lab_id t)) (\<lambda>lab.
       if lab_owner lab \<in> set (jn_identities (st_journal s))
       then Some
         \<lparr>tf_token_id = bk_token_id t, tf_audience = bk_audience t, tf_workload = bk_workload t,
          tf_lab_generation = bk_lab_generation t, tf_expires_at = bk_expires_at t,
          tf_revoked = (bk_revoked_at t \<noteq> None), tf_tenant_id = ls_tenant_id session,
          tf_course_id = ls_course_id session,
          tf_owner_identity_id = st_identity_id s (lab_owner lab),
          tf_session_state = ls_state session, tf_session_desired_state = ls_desired session,
          tf_session_revoked = (ls_revoked_at session \<noteq> None),
          tf_session_expires_at = ls_expires_at session,
          tf_session_workload = session_workload session,
          tf_current_session_id = lb_current lab, tf_current_lab_generation = lb_generation lab\<rparr>
       else None))"

definition authenticate_campus_broker_token ::
    "campus_store \<Rightarrow> string \<Rightarrow> broker_audience \<Rightarrow> int \<Rightarrow> (broker_denial, broker_grant) res" where
  "authenticate_campus_broker_token s hash audience now =
     (case Option.bind (find (\<lambda>t. bk_token_hash t = hash) (st_tokens s)) (joined_facts s) of
        None \<Rightarrow> Inl BdUnknownToken
      | Some facts \<Rightarrow> token_evaluate facts audience now)"

definition list_campus_broker_tokens :: "campus_store \<Rightarrow> string \<Rightarrow> stored_token list" where
  "list_campus_broker_tokens s sid =
     sort_key bk_sequence (filter (\<lambda>t. wl_session_id (bk_workload t) = sid) (st_tokens s))"

definition MAX_REASON_CHARS :: nat where "MAX_REASON_CHARS = 64"

definition revoke_campus_broker_tokens ::
    "campus_store \<Rightarrow> string \<Rightarrow> string \<Rightarrow> int \<Rightarrow> (journal_error, campus_store \<times> nat) res" where
  "revoke_campus_broker_tokens s sid reason now =
     (if is_blank reason \<or> MAX_REASON_CHARS < char_count reason then Inl JeInvalid
      else Inr (s\<lparr>st_tokens := update_where (live_token sid) (revoked_token now reason) (st_tokens s)\<rparr>,
                rows_affected (live_token sid) (st_tokens s)))"

section \<open>The issuer\<close>

datatype token_error = TeNotIssuable | TeUnavailable

definition hex_nibble :: "nat \<Rightarrow> char" where
  "hex_nibble n = char_of (if n < 10 then 48 + n else 87 + n)"

definition hex_byte :: "u8 \<Rightarrow> string" where
  "hex_byte b = [hex_nibble (unat b div 16), hex_nibble (unat b mod 16)]"

definition token_error_of :: "journal_error \<Rightarrow> token_error" where
  "token_error_of e =
     (case e of
        JeNotFound _ \<Rightarrow> TeNotIssuable
      | JeConflict _ \<Rightarrow> TeNotIssuable
      | JeFenced _ \<Rightarrow> TeNotIssuable
      | JeInvalid \<Rightarrow> TeNotIssuable
      | _ \<Rightarrow> TeUnavailable)"

text \<open>\<open>draw32\<close> and \<open>draw16\<close> are the answers of the system generator, \<open>None\<close> when it fails.\<close>

definition journal_issuer_issue ::
    "(u8 list \<Rightarrow> string) \<Rightarrow> (string \<Rightarrow> string) \<Rightarrow> string \<Rightarrow> u8 list option \<Rightarrow> u8 list option \<Rightarrow> int
       \<Rightarrow> campus_store \<Rightarrow> workload_ref \<Rightarrow> broker_audience \<Rightarrow> (token_error, campus_store \<times> issued_token) res"
where
  "journal_issuer_issue b64 sha256_hex actor draw32 draw16 now s workload audience =
     res_bind (ok_or draw32 TeUnavailable) (\<lambda>random.
     let secret = secret_from_random_bytes b64 random in
     res_bind (ok_or draw16 TeUnavailable) (\<lambda>id_bytes.
     res_bind (map_err token_error_of (issue_campus_broker_token s
         \<lparr>iq_token_id = ''cbt_'' @ concat (map hex_byte id_bytes),
          iq_token_hash = campus_broker_token_hash sha256_hex secret, iq_workload = workload,
          iq_audience = audience, iq_actor = actor, iq_now = now,
          iq_ttl_seconds = CAMPUS_BROKER_TOKEN_MAX_TTL_SECONDS\<rparr>)) (\<lambda>(s', stored).
       Inr (s', \<lparr>it_token_id = bk_token_id stored, it_audience = bk_audience stored,
                 it_workload = bk_workload stored, it_lab_generation = bk_lab_generation stored,
                 it_issued_at = bk_issued_at stored, it_expires_at = bk_expires_at stored,
                 it_secret = secret\<rparr>))))"

section \<open>A request at the broker\<close>

text \<open>A header value reads as text when every byte is visible ASCII or a tab.\<close>

definition header_to_str :: "string \<Rightarrow> string option" where
  "header_to_str v =
     (if list_all (\<lambda>c. byte c = 9 \<or> 32 \<le> byte c \<and> byte c < 127) v then Some v else None)"

definition presented_token :: "string list \<Rightarrow> string option" where
  "presented_token authorization =
     (case authorization of
        [value] \<Rightarrow>
          Option.bind (header_to_str value) (\<lambda>text.
          Option.bind (strip_prefix text ''Bearer '') (\<lambda>token.
            if is_well_formed_campus_broker_token token then Some token else None))
      | _ \<Rightarrow> None)"

definition broker_authenticate ::
    "(string \<Rightarrow> string) \<Rightarrow> campus_store \<Rightarrow> string list \<Rightarrow> broker_audience \<Rightarrow> int
       \<Rightarrow> (broker_denial, broker_grant) res" where
  "broker_authenticate sha256_hex s authorization audience now =
     (case presented_token authorization of
        None \<Rightarrow> Inl BdMalformed
      | Some token \<Rightarrow>
          authenticate_campus_broker_token s (campus_broker_token_hash sha256_hex token) audience now)"

record chat_request =
  cr_model :: "string option"
  cr_messages :: "(string \<times> string) list"

definition FAKE_INFERENCE_MODEL :: string where "FAKE_INFERENCE_MODEL = ''campus-fake''"
definition MAX_MESSAGES :: nat where "MAX_MESSAGES = 64"

definition chat_request_ok :: "chat_request \<Rightarrow> bool" where
  "chat_request_ok q \<longleftrightarrow>
     cr_messages q \<noteq> [] \<and> length (cr_messages q) \<le> MAX_MESSAGES \<and>
     list_all (\<lambda>(role, _). role = ''system'' \<or> role = ''user'' \<or> role = ''assistant'') (cr_messages q) \<and>
     (case cr_model q of Some model \<Rightarrow> model = FAKE_INFERENCE_MODEL | None \<Rightarrow> True)"

end
