(* ===== verification/StoreSafety.thy ===== *)
theory StoreSafety
  imports BrokerStore
begin

text \<open>
  The store as a state machine over its calls, and its invariant: every lab has one current
  generation and only that one may be live, launch keys and tokens point at the sessions they were
  made for, and a live token's session is one a token may be held for.
\<close>

section \<open>Calls\<close>

datatype store_call =
    ScJournal journal_call
  | ScAdmit admit_launch
  | ScStop string string string bool int
  | ScClearReset string string int
  | ScIssue issue_token
  | ScRevoke string string int

definition committed_store :: "campus_store \<Rightarrow> (journal_error, campus_store \<times> 'a) res \<Rightarrow> campus_store" where
  "committed_store s r = (case r of Inl _ \<Rightarrow> s | Inr (s', _) \<Rightarrow> s')"

fun store_apply :: "campus_store \<Rightarrow> store_call \<Rightarrow> campus_store" where
  "store_apply s (ScJournal c) = with_journal s (fst (journal_answer (st_journal s) c))"
| "store_apply s (ScAdmit r) = committed_store s (admit_campus_lab_launch s r)"
| "store_apply s (ScStop sid actor reason reset now) =
     committed_store s (request_campus_lab_stop s sid actor reason reset now)"
| "store_apply s (ScClearReset lab_id sid now) = fst (clear_campus_lab_reset s lab_id sid now)"
| "store_apply s (ScIssue r) = committed_store s (issue_campus_broker_token s r)"
| "store_apply s (ScRevoke sid reason now) = committed_store s (revoke_campus_broker_tokens s sid reason now)"

inductive store_steps :: "(store_call \<Rightarrow> bool) \<Rightarrow> campus_store \<Rightarrow> campus_store \<Rightarrow> bool"
  for allowed where
  store_here: "store_steps allowed s s"
| store_more: "allowed c \<Longrightarrow> store_steps allowed (store_apply s c) s' \<Longrightarrow> store_steps allowed s s'"

abbreviation any_call :: "store_call \<Rightarrow> bool" where
  "any_call \<equiv> \<lambda>_. True"

definition empty_store :: "(string \<times> string \<times> string) list \<Rightarrow> (string \<times> string \<times> string \<Rightarrow> string) \<Rightarrow> campus_store" where
  "empty_store identities ids =
     \<lparr>st_journal = empty_journal identities, st_labs = [], st_generations = [], st_launches = [],
      st_tokens = [], st_identity_id = ids\<rparr>"

definition store_reachable :: "(store_call \<Rightarrow> bool) \<Rightarrow> campus_store \<Rightarrow> bool" where
  "store_reachable allowed s \<longleftrightarrow> (\<exists>identities ids. store_steps allowed (empty_store identities ids) s)"

fun run_store :: "campus_store \<Rightarrow> store_call list \<Rightarrow> campus_store" where
  "run_store s [] = s"
| "run_store s (c # cs) = run_store (store_apply s c) cs"

lemma run_store_steps: "list_all allowed cs \<Longrightarrow> store_steps allowed s (run_store s cs)"
  by (induction s cs rule: run_store.induct) (auto intro: store_steps.intros)

lemma run_store_reachable: "list_all allowed cs \<Longrightarrow> store_reachable allowed (run_store (empty_store identities ids) cs)"
  unfolding store_reachable_def using run_store_steps by blast

lemma store_steps_mono: "store_steps A s s' \<Longrightarrow> store_steps any_call s s'"
  by (induction rule: store_steps.induct) (auto intro: store_steps.intros)

lemma store_reachable_mono: "store_reachable A s \<Longrightarrow> store_reachable any_call s"
  by (auto simp: store_reachable_def dest: store_steps_mono)

section \<open>Journal calls\<close>

text \<open>A call keeps the identities, and only a creation adds a session.\<close>

definition same_frame :: "journal \<Rightarrow> journal \<Rightarrow> bool" where
  "same_frame j j' \<longleftrightarrow>
     jn_identities j' = jn_identities j \<and> dom (load_session j') = dom (load_session j)"

lemma same_frame_refl [simp]: "same_frame j j"
  by (simp add: same_frame_def)

lemma slots_frame: "slots_extended j j' \<Longrightarrow> same_frame j j'"
  by (simp add: slots_extended_def same_frame_def load_session_lookup)

lemma ops_frame: "same_frame j (j\<lparr>jn_ops := ops\<rparr>)" "same_frame j (j\<lparr>jn_hook_runs := runs\<rparr>)"
  "same_frame j (j\<lparr>jn_events := events\<rparr>)"
  by (simp_all add: same_frame_def load_session_lookup)

lemma row_frame:
  "load_session j k = Some x \<Longrightarrow> load_session j' = (load_session j)(k \<mapsto> y) \<Longrightarrow>
     jn_identities j' = jn_identities j \<Longrightarrow> same_frame j j'"
  by (auto simp: same_frame_def insert_absorb)

lemma create_identities:
  "insert_campus_lab_session j r = Inr (j', a) \<Longrightarrow> jn_identities j' = jn_identities j"
  by (auto simp: insert_campus_lab_session_def insert_event_def Let_def split: if_splits option.splits)

lemma stop_frame:
  assumes "request_campus_lab_stop_in j sid actor reason now = Inr (j', s')" "journal_inv j"
  shows "same_frame j j'"
  using stop_ok [OF assms] by (auto intro: row_frame split: if_splits)

lemma observe_frame:
  "record_campus_lab_observation j sid g ob now = Inr (j', s') \<Longrightarrow> journal_inv j \<Longrightarrow> same_frame j j'"
  by (drule observation_ok, assumption) (auto intro: row_frame)

lemma transition_frame:
  "transition_campus_lab_session j t = Inr (j', out) \<Longrightarrow> journal_inv j \<Longrightarrow> same_frame j j'"
  by (drule transition_committed, assumption) (auto intro: row_frame simp: committed_def)

lemma lease_frame:
  "lease_campus_lab_operation j key owner now secs = Inr (j', q) \<Longrightarrow> journal_inv j \<Longrightarrow> same_frame j j'"
  by (drule lease_ok, assumption) (auto simp: ops_frame)

lemma hook_frame: "record_campus_teardown_hook_run j sid hook key w now = Inr (j', b) \<Longrightarrow> same_frame j j'"
  by (auto simp: record_campus_teardown_hook_run_def ops_frame split: if_splits)

theorem answer_frame:
  assumes "journal_answer j c = (j', r)" "journal_inv j" "holds_ok j" "\<forall>req. c \<noteq> CallCreate req"
  shows "same_frame j j'"
proof (cases c)
  case (CallRegister slot tenant now)
  with assms(1) have "reply RepSlot (commit j (register_campus_lab_slot j slot tenant now)) = (j', r)" by simp
  then show ?thesis
    by (rule commit_cases) (use assms in \<open>auto intro: slots_frame dest: register_extends\<close>)
next
  case (CallStop sid actor reason now)
  with assms(1) have "reply RepStopped (commit j (request_campus_lab_stop_in j sid actor reason now)) = (j', r)"
    by simp
  then show ?thesis by (rule commit_cases) (use assms stop_frame in auto)
next
  case (CallObserve sid g ob now)
  with assms(1) have "reply RepObserved (commit j (record_campus_lab_observation j sid g ob now)) = (j', r)"
    by simp
  then show ?thesis by (rule commit_cases) (use assms observe_frame in auto)
next
  case (CallTransition t)
  with assms(1) have "reply RepTransition (commit j (transition_campus_lab_session j t)) = (j', r)" by simp
  then show ?thesis by (rule commit_cases) (use assms transition_frame in auto)
next
  case (CallLease key owner now secs)
  with assms(1) have "reply RepLease (commit j (lease_campus_lab_operation j key owner now secs)) = (j', r)"
    by simp
  then show ?thesis by (rule commit_cases) (use assms lease_frame in auto)
next
  case (CallRelease lease error now)
  then show ?thesis using assms(1) by (auto simp: reply_def release_campus_lab_operation_lease_def ops_frame)
next
  case (CallRecordHook sid hook key w now)
  with assms(1) have "reply RepHook (commit j (record_campus_teardown_hook_run j sid hook key w now)) = (j', r)"
    by simp
  then show ?thesis by (rule commit_cases) (use hook_frame in auto)
next
  case (CallPublish ns now)
  then show ?thesis
    using assms(1) by (auto simp: reply_def mark_campus_lab_events_published_def split_beta ops_frame)
next
  case (CallHold slot tenant kind reason actor now)
  with assms(1) have "reply RepHold (commit j (hold_campus_lab_slot j slot tenant kind reason actor now)) = (j', r)"
    by simp
  then show ?thesis
    by (rule commit_cases) (use assms in \<open>auto intro: slots_frame dest: hold_extends\<close>)
next
  case (CallReleaseHold slot kind held_by actor reason now)
  with assms(1) have "reply RepHoldReleased
      (commit j (release_campus_lab_slot_hold j slot kind held_by actor reason now)) = (j', r)" by simp
  then show ?thesis
    by (rule commit_cases) (use assms in \<open>auto intro: slots_frame dest: release_slot_hold_extends\<close>)
next
  case (CallSync tenant slots actor now)
  with assms(1) have "reply RepSync (commit j (sync_campus_lab_slots j tenant slots actor now)) = (j', r)" by simp
  then show ?thesis
    by (rule commit_cases) (use assms in \<open>auto intro: slots_frame dest: sync_extends\<close>)
qed (use assms in auto)

lemma answer_identities:
  assumes "journal_answer j c = (j', r)" "journal_inv j" "holds_ok j"
  shows "jn_identities j' = jn_identities j"
proof (cases "\<exists>req. c = CallCreate req")
  case True
  then obtain req where "c = CallCreate req" ..
  with assms(1) have "reply RepCreated (commit j (insert_campus_lab_session j req)) = (j', r)" by simp
  then show ?thesis by (rule commit_cases) (use create_identities in auto)
next
  case False
  with answer_frame [OF assms] show ?thesis by (simp add: same_frame_def)
qed

text \<open>An event that enters no state leaves the journal sound.\<close>

lemma note_event_ok:
  assumes "sound j"
  shows "sound_step j (fst (insert_event j sid kind None None g key actor payload now))" (is "sound_step j ?j")
proof -
  have e: "jn_events ?j = jn_events j @ [\<lparr>ev_sequence = int (length (jn_events j)) + 1, ev_session_id = sid,
      ev_kind = kind, ev_from = None, ev_to = None, ev_generation = g, ev_op_key = key, ev_actor = actor,
      ev_payload = payload, ev_created_at = now, ev_published_at = None\<rparr>]" (is "_ = _ @ [?ev]")
    and l: "load_session ?j = load_session j" "load_operation ?j = load_operation j" "load_slot ?j = load_slot j"
    and h: "jn_holds ?j = jn_holds j"
    by (simp_all add: insert_event_def Let_def load_lookup)
  have inv: "journal_inv j" "audit_ok j" "holds_ok j" using assms by (simp_all add: sound_def)
  have "session_trail_ok ?j x" for x
    by (rule session_trail_same [OF audit_okD(1) [OF inv(2)]]) (simp_all add: trail_append [OF e] l)
  then have "audit_ok ?j" using sequence_append [OF audit_okD(3) [OF inv(2)] e] by (simp add: audit_ok_def)
  moreover have "journal_inv ?j"
    using inv(1) by (simp add: journal_inv_def l keys_ok_def insert_event_def Let_def)
  ultimately have "step_ok j ?j" by (simp add: step_ok_def journal_grows_def l)
  then show ?thesis using inv(3) h by (rule sound_stepI)
qed

end
