(* ===== verification/StoreInvariant.thy ===== *)
theory StoreInvariant
  imports StoreSafety
begin

text \<open>
  The invariant of the store over its tables and its preservation by every call. A lab's current
  session is the one of its latest generation and every earlier generation is torn down; launch
  keys, tokens and generations agree with the sessions they name; a live token's session may hold
  one, and no session has more than two live tokens of an audience.
\<close>

section \<open>Labs and generations\<close>

definition owned :: "lab_session \<Rightarrow> campus_lab \<Rightarrow> bool" where
  "owned x l \<longleftrightarrow> ls_tenant_id x = lb_tenant_id l \<and> ls_course_id x = lb_course_id l \<and>
     ls_issuer x = lb_issuer l \<and> ls_subject x = lb_subject l"

abbreviation lab_key :: "campus_lab \<Rightarrow> string \<times> string \<times> string \<times> string \<times> string" where
  "lab_key l \<equiv> (lb_tenant_id l, lb_course_id l, lb_assignment_id l, lb_issuer l, lb_subject l)"

definition lab_row_ok :: "(string \<times> string \<times> string) set \<Rightarrow> lab_generation list \<Rightarrow> campus_lab \<Rightarrow> bool" where
  "lab_row_ok I gens l \<longleftrightarrow>
     lab_owner l \<in> I \<and>
     (case lb_current l of
        None \<Rightarrow> lb_generation l = 0
      | Some c \<Rightarrow> \<exists>g \<in> set gens. gn_session_id g = c \<and> gn_lab_id g = lb_lab_id l \<and>
          gn_generation g = lb_generation l)"

definition gen_row_ok :: "sessions_map \<Rightarrow> campus_lab list \<Rightarrow> lab_generation \<Rightarrow> bool" where
  "gen_row_ok M labs g \<longleftrightarrow>
     1 \<le> gn_generation g \<and>
     (\<exists>l \<in> set labs. \<exists>x. lb_lab_id l = gn_lab_id g \<and> gn_generation g \<le> lb_generation l \<and>
        M (gn_session_id g) = Some x \<and> owned x l \<and>
        (gn_generation g < lb_generation l \<longrightarrow> is_terminal (ls_state x)))"

definition labs_ok ::
    "sessions_map \<Rightarrow> (string \<times> string \<times> string) set \<Rightarrow> campus_lab list \<Rightarrow> lab_generation list \<Rightarrow> bool" where
  "labs_ok M I labs gens \<longleftrightarrow>
     distinct (map lb_lab_id labs) \<and> distinct (map lb_budget_id labs) \<and> distinct (map lab_key labs) \<and>
     distinct (map gn_session_id gens) \<and> distinct (map (\<lambda>g. (gn_lab_id g, gn_generation g)) gens) \<and>
     (\<forall>l \<in> set labs. lab_row_ok I gens l) \<and> (\<forall>g \<in> set gens. gen_row_ok M labs g)"

lemma labs_okD:
  assumes "labs_ok M I labs gens"
  shows "distinct (map lb_lab_id labs)" "distinct (map lb_budget_id labs)" "distinct (map lab_key labs)"
    "distinct (map gn_session_id gens)" "distinct (map (\<lambda>g. (gn_lab_id g, gn_generation g)) gens)"
    "l \<in> set labs \<Longrightarrow> lab_row_ok I gens l" "g \<in> set gens \<Longrightarrow> gen_row_ok M labs g"
  using assms by (simp_all add: labs_ok_def)

text \<open>A stop or a cleared reset changes only the request time of a lab.\<close>

definition lab_core :: "campus_lab \<Rightarrow> campus_lab" where
  "lab_core l = l\<lparr>lb_reset_requested_at := None, lb_updated_at := 0\<rparr>"

lemma lab_core_simps [simp]:
  "lb_lab_id (lab_core l) = lb_lab_id l" "lb_tenant_id (lab_core l) = lb_tenant_id l"
  "lb_course_id (lab_core l) = lb_course_id l" "lb_assignment_id (lab_core l) = lb_assignment_id l"
  "lb_issuer (lab_core l) = lb_issuer l" "lb_subject (lab_core l) = lb_subject l"
  "lb_budget_id (lab_core l) = lb_budget_id l" "lb_generation (lab_core l) = lb_generation l"
  "lb_current (lab_core l) = lb_current l"
  by (simp_all add: lab_core_def)

lemma labs_ok_core: "labs_ok M I (map lab_core labs) gens \<longleftrightarrow> labs_ok M I labs gens"
  by (simp add: labs_ok_def lab_row_ok_def gen_row_ok_def owned_def o_def cong: option.case_cong)

lemma labs_ok_same_core:
  "labs_ok M I labs gens \<Longrightarrow> map lab_core labs' = map lab_core labs \<Longrightarrow> labs_ok M I labs' gens"
  by (metis labs_ok_core)

lemma core_update:
  "(\<And>l. lab_core (f l) = lab_core l) \<Longrightarrow> map lab_core (update_where P f labs) = map lab_core labs"
  by (simp add: update_where_def)

lemma owned_step: "session_update_ok x x' \<Longrightarrow> owned x l \<Longrightarrow> owned x' l"
  by (simp add: owned_def session_update_ok_def)

lemma gen_row_step:
  assumes "gen_row_ok M labs g" "rows_step session_update_ok M M'"
  shows "gen_row_ok M' labs g"
proof -
  from assms(1) obtain l x where l: "1 \<le> gn_generation g" "l \<in> set labs" "lb_lab_id l = gn_lab_id g"
    "gn_generation g \<le> lb_generation l" "M (gn_session_id g) = Some x" "owned x l"
    "gn_generation g < lb_generation l \<longrightarrow> is_terminal (ls_state x)"
    by (auto simp: gen_row_ok_def)
  from assms(2) l(5) obtain x' where x': "M' (gn_session_id g) = Some x'" "x' = x \<or> session_update_ok x x'"
    unfolding rows_step_def by blast
  with l(6) have "owned x' l" using owned_step by blast
  moreover have "gn_generation g < lb_generation l \<longrightarrow> is_terminal (ls_state x')"
    using l(7) x'(2) by (auto simp: session_update_ok_def)
  ultimately show ?thesis using l x'(1) by (auto simp: gen_row_ok_def)
qed

lemma labs_ok_step: "labs_ok M I labs gens \<Longrightarrow> rows_step session_update_ok M M' \<Longrightarrow> labs_ok M' I labs gens"
  using gen_row_step by (simp add: labs_ok_def) blast

lemma generation_unique:
  assumes "labs_ok M I labs gens" "g \<in> set gens" "g' \<in> set gens"
  shows "gn_session_id g = gn_session_id g' \<Longrightarrow> g = g'"
    "gn_lab_id g = gn_lab_id g' \<Longrightarrow> gn_generation g = gn_generation g' \<Longrightarrow> g = g'"
  using labs_okD(4, 5) [OF assms(1)] assms(2, 3) by (auto simp: distinct_map inj_on_def)

lemma lab_unique:
  assumes "labs_ok M I labs gens" "l \<in> set labs" "l' \<in> set labs"
  shows "lb_lab_id l = lb_lab_id l' \<Longrightarrow> l = l'" "lb_budget_id l = lb_budget_id l' \<Longrightarrow> l = l'"
    "lab_key l = lab_key l' \<Longrightarrow> l = l'"
  using labs_okD(1-3) [OF assms(1)] assms(2, 3) by (auto simp: distinct_map inj_on_def)

text \<open>The lab and the session of a generation.\<close>

lemma generation_lab:
  assumes "labs_ok M I labs gens" "g \<in> set gens"
  obtains l x where "l \<in> set labs" "lb_lab_id l = gn_lab_id g" "1 \<le> gn_generation g"
    "gn_generation g \<le> lb_generation l" "M (gn_session_id g) = Some x" "owned x l"
    "gn_generation g < lb_generation l \<longrightarrow> is_terminal (ls_state x)"
  using labs_okD(7) [OF assms] by (auto simp: gen_row_ok_def)

text \<open>A session that is not torn down is the current one of its lab.\<close>

lemma live_is_current:
  assumes "labs_ok M I labs gens" "g \<in> set gens" "l \<in> set labs" "lb_lab_id l = gn_lab_id g"
    "M (gn_session_id g) = Some x" "\<not> is_terminal (ls_state x)"
  shows "lb_current l = Some (gn_session_id g) \<and> lb_generation l = gn_generation g"
proof -
  obtain l' x' where l': "l' \<in> set labs" "lb_lab_id l' = gn_lab_id g" "1 \<le> gn_generation g"
    "gn_generation g \<le> lb_generation l'" "M (gn_session_id g) = Some x'"
    "gn_generation g < lb_generation l' \<longrightarrow> is_terminal (ls_state x')"
    using generation_lab [OF assms(1, 2)] by metis
  have "l' = l" using lab_unique(1) [OF assms(1) l'(1) assms(3)] l'(2) assms(4) by simp
  with l' assms(5, 6) have n: "lb_generation l = gn_generation g" "lb_generation l \<noteq> 0" by auto
  with labs_okD(6) [OF assms(1, 3)] obtain c g' where "lb_current l = Some c" "g' \<in> set gens"
    "gn_session_id g' = c" "gn_lab_id g' = lb_lab_id l" "gn_generation g' = lb_generation l"
    by (auto simp: lab_row_ok_def split: option.splits)
  with n(1) generation_unique(2) [OF assms(1), of g' g] assms(2, 4) show ?thesis by auto
qed

section \<open>Launch keys\<close>

definition launch_row_ok :: "campus_lab list \<Rightarrow> lab_generation list \<Rightarrow> launch_request \<Rightarrow> bool" where
  "launch_row_ok labs gens q \<longleftrightarrow>
     (\<exists>g \<in> set gens. \<exists>l \<in> set labs. gn_session_id g = rq_session_id q \<and> gn_lab_id g = lb_lab_id l \<and>
        lab_key l = (rq_tenant_id q, rq_course_id q, rq_assignment_id q, rq_issuer q, rq_subject q))"

abbreviation launch_key :: "launch_request \<Rightarrow> string \<times> string \<times> string \<times> string" where
  "launch_key q \<equiv> (rq_tenant_id q, rq_issuer q, rq_subject q, rq_key q)"

definition launches_ok :: "campus_lab list \<Rightarrow> lab_generation list \<Rightarrow> launch_request list \<Rightarrow> bool" where
  "launches_ok labs gens qs \<longleftrightarrow> distinct (map launch_key qs) \<and> (\<forall>q \<in> set qs. launch_row_ok labs gens q)"

lemma launches_ok_mono:
  assumes "launches_ok labs gens qs" "set gens \<subseteq> set gens'"
    "\<And>l. l \<in> set labs \<Longrightarrow> \<exists>l' \<in> set labs'. lb_lab_id l' = lb_lab_id l \<and> lab_key l' = lab_key l"
  shows "launches_ok labs' gens' qs"
proof -
  have "launch_row_ok labs' gens' q" if "launch_row_ok labs gens q" for q
  proof -
    from that obtain g l where g: "g \<in> set gens" "l \<in> set labs" "gn_session_id g = rq_session_id q"
      "gn_lab_id g = lb_lab_id l"
      "lab_key l = (rq_tenant_id q, rq_course_id q, rq_assignment_id q, rq_issuer q, rq_subject q)"
      unfolding launch_row_ok_def by blast
    from assms(3) [OF g(2)] obtain l' where "l' \<in> set labs'" "lb_lab_id l' = lb_lab_id l"
      "lab_key l' = lab_key l" by blast
    with g assms(2) show ?thesis unfolding launch_row_ok_def by (intro bexI [of _ g] bexI [of _ l']) auto
  qed
  with assms(1) show ?thesis by (simp add: launches_ok_def)
qed

lemma launches_ok_core:
  assumes "launches_ok labs gens qs" "map lab_core labs' = map lab_core labs"
  shows "launches_ok labs' gens qs"
proof (rule launches_ok_mono [OF assms(1) subset_refl])
  fix l
  assume "l \<in> set labs"
  then have "lab_core l \<in> set (map lab_core labs')" using assms(2) by simp
  then obtain l' where l': "l' \<in> set labs'" "lab_core l' = lab_core l" by auto
  have "lb_lab_id (lab_core l') = lb_lab_id (lab_core l) \<and> lab_key (lab_core l') = lab_key (lab_core l)"
    using l'(2) by simp
  with l'(1) show "\<exists>l' \<in> set labs'. lb_lab_id l' = lb_lab_id l \<and> lab_key l' = lab_key l" by auto
qed

section \<open>Tokens\<close>

definition tokens_evolve :: "stored_token list \<Rightarrow> stored_token list \<Rightarrow> bool" where
  "tokens_evolve = list_all2 (\<lambda>t t'. t' = t \<or>
     bk_revoked_at t = None \<and> (\<exists>now reason. t' = revoked_token now reason t))"

lemma revoked_token_simps [simp]:
  "bk_sequence (revoked_token n r t) = bk_sequence t" "bk_token_id (revoked_token n r t) = bk_token_id t"
  "bk_token_hash (revoked_token n r t) = bk_token_hash t" "bk_audience (revoked_token n r t) = bk_audience t"
  "bk_workload (revoked_token n r t) = bk_workload t" "bk_lab_id (revoked_token n r t) = bk_lab_id t"
  "bk_lab_generation (revoked_token n r t) = bk_lab_generation t"
  "bk_issued_at (revoked_token n r t) = bk_issued_at t" "bk_expires_at (revoked_token n r t) = bk_expires_at t"
  "bk_issued_by (revoked_token n r t) = bk_issued_by t"
  "bk_revoked_at (revoked_token n r t) = Some n" "bk_revoked_reason (revoked_token n r t) = Some r"
  by (simp_all add: revoked_token_def)

lemma evolve_refl [simp]: "tokens_evolve ts ts"
  by (simp add: tokens_evolve_def list_all2_refl)

lemma evolve_trans: "tokens_evolve ts ts1 \<Longrightarrow> tokens_evolve ts1 ts2 \<Longrightarrow> tokens_evolve ts ts2"
  unfolding tokens_evolve_def by (erule list_all2_trans [rotated], assumption) auto

lemma evolve_length: "tokens_evolve ts ts' \<Longrightarrow> length ts' = length ts"
  by (simp add: tokens_evolve_def list_all2_conv_all_nth)

lemma evolve_update:
  "(\<And>t. P t \<Longrightarrow> bk_revoked_at t = None) \<Longrightarrow> tokens_evolve ts (update_where P (revoked_token n r) ts)"
  by (auto simp: tokens_evolve_def update_where_def list_all2_conv_all_nth)

lemma evolve_map:
  "tokens_evolve ts ts' \<Longrightarrow> (\<And>n r t. f (revoked_token n r t) = f t) \<Longrightarrow> map f ts' = map f ts"
  unfolding tokens_evolve_def by (induction rule: list_all2_induct) auto

lemma evolve_origin:
  assumes "tokens_evolve ts ts'" "t' \<in> set ts'"
  obtains t where "t \<in> set ts" "t' = t \<or> bk_revoked_at t = None \<and> (\<exists>now reason. t' = revoked_token now reason t)"
proof -
  from assms(2) obtain i where i: "i < length ts'" "t' = ts' ! i" by (auto simp: in_set_conv_nth)
  with evolve_length [OF assms(1)] have "i < length ts" by simp
  moreover from this i assms(1) have "t' = ts ! i \<or> bk_revoked_at (ts ! i) = None \<and>
      (\<exists>now reason. t' = revoked_token now reason (ts ! i))"
    by (simp add: tokens_evolve_def list_all2_conv_all_nth)
  ultimately show ?thesis using that [of "ts ! i"] by simp
qed

lemma evolve_live: "tokens_evolve ts ts' \<Longrightarrow> t' \<in> set ts' \<Longrightarrow> bk_revoked_at t' = None \<Longrightarrow> t' \<in> set ts"
  by (erule evolve_origin, assumption) auto

lemma evolve_count:
  "tokens_evolve ts ts' \<Longrightarrow> (\<And>t. P t \<Longrightarrow> bk_revoked_at t = None) \<Longrightarrow>
     length (filter P ts') \<le> length (filter P ts)"
  unfolding tokens_evolve_def by (induction rule: list_all2_induct) fastforce+

lemma revoke_fold_evolves: "tokens_evolve ts (fold revoke_session_tokens xs ts)"
proof (induction xs arbitrary: ts)
  case (Cons x xs)
  have "tokens_evolve ts (revoke_session_tokens x ts)"
    unfolding revoke_session_tokens_def by (rule evolve_update) (simp add: live_token_def)
  with Cons show ?case by (auto intro: evolve_trans)
qed simp

lemma revoke_fold_live:
  "t \<in> set (fold revoke_session_tokens xs ts) \<Longrightarrow> bk_revoked_at t = None \<Longrightarrow> x \<in> set xs \<Longrightarrow>
     ls_session_id x \<noteq> wl_session_id (bk_workload t)"
proof (induction xs arbitrary: ts)
  case (Cons y xs)
  show ?case
  proof (cases "x = y")
    case True
    have "t \<in> set (revoke_session_tokens y ts)"
      by (rule evolve_live [OF revoke_fold_evolves [of _ xs]]) (use Cons.prems in simp_all)
    then obtain u where u: "t = (if live_token (ls_session_id y) u
        then revoked_token (ls_updated_at y) (session_revocation_reason y) u else u)"
      unfolding revoke_session_tokens_def update_where_set by blast
    with Cons.prems(2) have "\<not> live_token (ls_session_id y) u" "t = u" by (auto split: if_splits)
    with Cons.prems(2) True show ?thesis by (simp add: live_token_def)
  next
    case False
    with Cons show ?thesis by simp
  qed
qed simp

definition token_row_inv :: "sessions_map \<Rightarrow> lab_generation list \<Rightarrow> stored_token \<Rightarrow> bool" where
  "token_row_inv M gens t \<longleftrightarrow>
     (\<exists>x. M (wl_session_id (bk_workload t)) = Some x \<and> session_workload x = Some (bk_workload t) \<and>
        bk_expires_at t \<le> ls_expires_at x \<and>
        (bk_revoked_at t = None \<longrightarrow> \<not> revokes_tokens x)) \<and>
     (\<exists>g \<in> set gens. gn_session_id g = wl_session_id (bk_workload t) \<and> gn_lab_id g = bk_lab_id t \<and>
        gn_generation g = bk_lab_generation t) \<and>
     bk_issued_at t < bk_expires_at t \<and> bk_expires_at t \<le> bk_issued_at t + 900"

definition tokens_ok :: "sessions_map \<Rightarrow> lab_generation list \<Rightarrow> stored_token list \<Rightarrow> bool" where
  "tokens_ok M gens ts \<longleftrightarrow>
     map bk_sequence ts = map int [1..<Suc (length ts)] \<and> distinct (map bk_token_id ts) \<and>
     distinct (map bk_token_hash ts) \<and> (\<forall>t \<in> set ts. token_row_inv M gens t) \<and>
     (\<forall>sid audience. length (filter (live_of sid audience) ts) \<le> 2)"

lemma tokens_okD:
  assumes "tokens_ok M gens ts"
  shows "map bk_sequence ts = map int [1..<Suc (length ts)]" "distinct (map bk_token_id ts)"
    "distinct (map bk_token_hash ts)" "t \<in> set ts \<Longrightarrow> token_row_inv M gens t"
    "length (filter (live_of sid audience) ts) \<le> 2"
  using assms unfolding tokens_ok_def by blast+

lemma workload_step:
  "session_update_ok x x' \<Longrightarrow> session_workload x = Some w \<Longrightarrow> session_workload x' = Some w"
  by (auto simp: session_update_ok_def session_workload_def split: option.splits)

lemma live_of_live: "live_of sid audience t \<Longrightarrow> bk_revoked_at t = None"
  by (simp add: live_of_def live_token_def)

text \<open>Session rows may step and tokens be revoked, if no live token's session revokes it.\<close>

lemma tokens_ok_step:
  assumes "tokens_ok M gens ts" "rows_step session_update_ok M M'" "tokens_evolve ts ts'"
    "set gens \<subseteq> set gens'"
    "\<And>t x. t \<in> set ts' \<Longrightarrow> bk_revoked_at t = None \<Longrightarrow> M' (wl_session_id (bk_workload t)) = Some x \<Longrightarrow>
       \<not> revokes_tokens x"
  shows "tokens_ok M' gens' ts'"
proof -
  have "token_row_inv M' gens' t'" if t': "t' \<in> set ts'" for t'
  proof -
    from evolve_origin [OF assms(3) t'] obtain t where t: "t \<in> set ts"
      "t' = t \<or> (\<exists>now reason. t' = revoked_token now reason t)" by metis
    have f: "bk_workload t' = bk_workload t" "bk_lab_id t' = bk_lab_id t"
      "bk_lab_generation t' = bk_lab_generation t" "bk_issued_at t' = bk_issued_at t"
      "bk_expires_at t' = bk_expires_at t" using t(2) by auto
    from tokens_okD(4) [OF assms(1) t(1)] obtain x where x: "M (wl_session_id (bk_workload t)) = Some x"
      "session_workload x = Some (bk_workload t)" "bk_expires_at t \<le> ls_expires_at x"
      by (auto simp: token_row_inv_def)
    from assms(2) x(1) obtain x' where x': "M' (wl_session_id (bk_workload t)) = Some x'"
      "x' = x \<or> session_update_ok x x'" unfolding rows_step_def by blast
    have "session_workload x' = Some (bk_workload t)" "ls_expires_at x' = ls_expires_at x"
      using x'(2) x(2) workload_step by (auto simp: session_update_ok_def)
    moreover have "bk_revoked_at t' = None \<longrightarrow> \<not> revokes_tokens x'"
      using assms(5) [OF t'] x'(1) f(1) by simp
    ultimately show ?thesis
      using tokens_okD(4) [OF assms(1) t(1)] x(3) x'(1) assms(4) f
      by (auto simp: token_row_inv_def)
  qed
  moreover have "map bk_sequence ts' = map bk_sequence ts" "map bk_token_id ts' = map bk_token_id ts"
    "map bk_token_hash ts' = map bk_token_hash ts"
    by (rule evolve_map [OF assms(3)], simp)+
  moreover have "length ts' = length ts" using assms(3) by (rule evolve_length)
  moreover have "length (filter (live_of sid audience) ts') \<le> 2" for sid audience
    using evolve_count [OF assms(3), of "live_of sid audience"] live_of_live
      tokens_okD(5) [OF assms(1), of sid audience] by fastforce
  ultimately show ?thesis
    using tokens_okD(1-3) [OF assms(1)] by (simp add: tokens_ok_def del: upt_Suc)
qed

text \<open>Issuing a token keeps at most the two newest of its session and audience.\<close>

lemma newest_live_set:
  "length (newest_live sid audience ts) \<le> 2"
  by (simp add: newest_live_def CAMPUS_BROKER_MAX_LIVE_TOKENS_def)

lemma supersede_evolves: "tokens_evolve ts (supersede sid audience now ts)"
  unfolding supersede_def by (rule evolve_update) (auto dest: live_of_live)

lemma supersede_count:
  assumes "distinct (map bk_sequence ts)"
  shows "length (filter (live_of sid audience) (supersede sid audience now ts)) \<le> 2"
proof -
  let ?ts = "supersede sid audience now ts" and ?n = "newest_live sid audience ts"
  have "map bk_sequence ?ts = map bk_sequence ts" by (rule evolve_map [OF supersede_evolves]) simp
  then have "distinct (map bk_sequence (filter (live_of sid audience) ?ts))"
    using assms by (metis distinct_map_filter)
  moreover have "set (map bk_sequence (filter (live_of sid audience) ?ts)) \<subseteq> set ?n"
  proof
    fix n
    assume "n \<in> set (map bk_sequence (filter (live_of sid audience) ?ts))"
    then obtain t where t: "t \<in> set ?ts" "live_of sid audience t" "n = bk_sequence t" by auto
    then obtain u where u: "t = (if live_of sid audience u \<and> bk_sequence u \<notin> set ?n
        then revoked_token now ''superseded'' u else u)"
      unfolding supersede_def update_where_set by blast
    with live_of_live [OF t(2)] have "t = u" "\<not> (live_of sid audience u \<and> bk_sequence u \<notin> set ?n)"
      by (auto split: if_splits)
    with t show "n \<in> set ?n" by simp
  qed
  ultimately have "length (map bk_sequence (filter (live_of sid audience) ?ts)) \<le> card (set ?n)"
    by (metis List.finite_set card_mono distinct_card)
  also have "\<dots> \<le> 2" using card_length [of ?n] newest_live_set [of sid audience ts] by linarith
  finally show ?thesis by simp
qed

lemma tokens_ok_issue:
  assumes "tokens_ok M gens ts" "token_row_inv M gens t" "bk_sequence t = int (length ts) + 1"
    "bk_token_id t \<notin> bk_token_id ` set ts" "bk_token_hash t \<notin> bk_token_hash ` set ts"
    "wl_session_id (bk_workload t) = sid" "bk_audience t = audience"
  shows "tokens_ok M gens (supersede sid audience now (ts @ [t]))"
proof -
  let ?ts = "ts @ [t]" and ?s = "supersede sid audience now (ts @ [t])"
  have seq: "map bk_sequence ?ts = map int [1..<Suc (length ?ts)]"
    using tokens_okD(1) [OF assms(1)] assms(3) by simp
  have "distinct (map bk_sequence ?ts)" unfolding seq by (simp add: distinct_map del: upt_Suc)
  note own = supersede_count [OF this, of sid audience now]
  have ev: "tokens_evolve ?ts ?s" by (rule supersede_evolves)
  have "length (filter (live_of sid' audience') ?s) \<le> 2" for sid' audience'
  proof (cases "sid' = sid \<and> audience' = audience")
    case False
    then have "\<not> live_of sid' audience' t" using assms(6, 7) by (auto simp: live_of_def live_token_def)
    then have "length (filter (live_of sid' audience') ?ts) \<le> 2"
      using tokens_okD(5) [OF assms(1)] by simp
    with evolve_count [OF ev, of "live_of sid' audience'"] live_of_live show ?thesis by fastforce
  qed (use own in simp)
  moreover have "token_row_inv M gens t'" if "t' \<in> set ?s" for t'
  proof -
    from evolve_origin [OF ev that] obtain u where u: "u \<in> set ?ts"
      "t' = u \<or> (\<exists>now reason. t' = revoked_token now reason u)" by metis
    then have "token_row_inv M gens u" using tokens_okD(4) [OF assms(1)] assms(2) by auto
    with u(2) show ?thesis by (auto simp: token_row_inv_def)
  qed
  moreover have "map bk_sequence ?s = map bk_sequence ?ts" "map bk_token_id ?s = map bk_token_id ?ts"
    "map bk_token_hash ?s = map bk_token_hash ?ts"
    by (rule evolve_map [OF ev], simp)+
  moreover have "length ?s = length ?ts" using ev by (rule evolve_length)
  ultimately show ?thesis
    using seq tokens_okD(2, 3) [OF assms(1)] assms(4, 5) by (simp add: tokens_ok_def del: upt_Suc)
qed

section \<open>The invariant\<close>

definition store_inv :: "campus_store \<Rightarrow> bool" where
  "store_inv s \<longleftrightarrow>
     sound (st_journal s) \<and>
     labs_ok (load_session (st_journal s)) (set (jn_identities (st_journal s))) (st_labs s) (st_generations s) \<and>
     launches_ok (st_labs s) (st_generations s) (st_launches s) \<and>
     tokens_ok (load_session (st_journal s)) (st_generations s) (st_tokens s)"

lemma store_invD:
  assumes "store_inv s"
  shows "sound (st_journal s)" "journal_inv (st_journal s)" "audit_ok (st_journal s)" "holds_ok (st_journal s)"
    "labs_ok (load_session (st_journal s)) (set (jn_identities (st_journal s))) (st_labs s) (st_generations s)"
    "launches_ok (st_labs s) (st_generations s) (st_launches s)"
    "tokens_ok (load_session (st_journal s)) (st_generations s) (st_tokens s)"
  using assms by (simp_all add: store_inv_def sound_def)

lemma with_journal_simps [simp]:
  "st_journal (with_journal s j) = j" "st_labs (with_journal s j) = st_labs s"
  "st_generations (with_journal s j) = st_generations s" "st_launches (with_journal s j) = st_launches s"
  "st_identity_id (with_journal s j) = st_identity_id s"
  by (simp_all add: with_journal_def)

lemma with_journal_evolves: "tokens_evolve (st_tokens s) (st_tokens (with_journal s j))"
  by (simp add: with_journal_def revoke_fold_evolves)

lemma with_journal_tokens:
  assumes "tokens_ok (load_session (st_journal s)) gens (st_tokens s)" "sound_step (st_journal s) j"
    "set gens \<subseteq> set gens'"
  shows "tokens_ok (load_session j) gens' (st_tokens (with_journal s j))"
proof (rule tokens_ok_step [OF assms(1) _ with_journal_evolves assms(3)])
  show "rows_step session_update_ok (load_session (st_journal s)) (load_session j)"
    using assms(2) by (simp add: sound_step_def journal_grows_def)
  fix t x
  assume t: "t \<in> set (st_tokens (with_journal s j))" "bk_revoked_at t = None"
    "load_session j (wl_session_id (bk_workload t)) = Some x"
  have "t \<in> set (st_tokens s)" by (rule evolve_live [OF with_journal_evolves t(1, 2)])
  from tokens_okD(4) [OF assms(1) this] t(2) obtain x0 where x0: "load_session (st_journal s) (wl_session_id (bk_workload t)) = Some x0"
    "\<not> revokes_tokens x0" by (auto simp: token_row_inv_def)
  have x: "x \<in> set (jn_sessions j)" "ls_session_id x = wl_session_id (bk_workload t)"
    using t(3) by (auto simp: load_session_lookup dest: lookup_SomeD)
  show "\<not> revokes_tokens x"
  proof
    assume r: "revokes_tokens x"
    with x0 have "x0 \<noteq> x" by auto
    with x x0(1) r have "x \<in> set (filter revokes_tokens (updated_sessions (st_journal s) j))"
      by (simp add: updated_sessions_def)
    from revoke_fold_live [OF _ t(2) this] t(1) x(2) show False by (simp add: with_journal_def)
  qed
qed

lemma with_journal_inv:
  assumes "store_inv s" "sound_step (st_journal s) j" "jn_identities j = jn_identities (st_journal s)"
  shows "store_inv (with_journal s j)"
proof -
  note I = store_invD [OF assms(1)]
  have "rows_step session_update_ok (load_session (st_journal s)) (load_session j)" "sound j"
    using assms(2) by (simp_all add: sound_step_def journal_grows_def)
  with I labs_ok_step with_journal_tokens [OF I(7) assms(2) subset_refl] assms(3) show ?thesis
    by (simp add: store_inv_def)
qed

lemma journal_call_inv: "store_inv s \<Longrightarrow> store_inv (store_apply s (ScJournal c))"
proof -
  assume s: "store_inv s"
  obtain j r where j: "journal_answer (st_journal s) c = (j, r)" by fastforce
  note I = store_invD [OF s]
  show ?thesis
    using with_journal_inv [OF s answer_sound [OF j I(1)] answer_identities [OF j I(2, 4)]] j by simp
qed

lemma same_core_inv:
  assumes "store_inv s" "map lab_core labs = map lab_core (st_labs s)"
  shows "store_inv (s\<lparr>st_labs := labs\<rparr>)"
  using assms labs_ok_same_core [OF store_invD(5) [OF assms(1)] assms(2)]
    launches_ok_core [OF store_invD(6) [OF assms(1)] assms(2)]
  by (simp add: store_inv_def)

lemma clear_reset_inv: "store_inv s \<Longrightarrow> store_inv (fst (clear_campus_lab_reset s lab_id sid now))"
  by (simp add: clear_campus_lab_reset_def Let_def, rule same_core_inv)
    (simp_all add: core_update lab_core_def)

lemma stop_sound:
  assumes "request_campus_lab_stop_in j sid actor reason now = Inr (j', x)" "sound j"
  shows "sound_step j j'"
  using assms(2) by (intro sound_stepI [OF stop_step_ok [OF assms(1)] _ stop_holds [OF assms(1)]])
    (simp_all add: sound_def)

lemma request_stop_cases:
  assumes "request_campus_lab_stop s sid actor reason reset now = Inr (s', found')"
  obtains found j' x labs where "load_record s sid = Some found"
    "request_campus_lab_stop_in (st_journal s) sid actor reason now = Inr (j', x)"
    "s' = (with_journal s j')\<lparr>st_labs := labs\<rparr>" "load_record s' sid = Some found'"
    "labs = (if is_current found \<and> reset_request found reset x now \<noteq> lb_reset_requested_at (sr_lab found)
       then update_where (\<lambda>l. lb_lab_id l = lb_lab_id (sr_lab found) \<and> lb_generation l = lb_generation (sr_lab found))
         (\<lambda>l. l\<lparr>lb_reset_requested_at := reset_request found reset x now, lb_updated_at := now\<rparr>) (st_labs s)
       else st_labs s)"
  using assms that
  by (auto simp: request_campus_lab_stop_def Let_def split: if_splits)

lemma stop_inv:
  assumes "request_campus_lab_stop s sid actor reason reset now = Inr (s', found')" "store_inv s"
  shows "store_inv s'"
proof (rule request_stop_cases [OF assms(1)])
  fix found j' x labs
  assume j: "request_campus_lab_stop_in (st_journal s) sid actor reason now = Inr (j', x)"
    and s': "s' = (with_journal s j')\<lparr>st_labs := labs\<rparr>"
    and labs: "labs = (if is_current found \<and> reset_request found reset x now \<noteq> lb_reset_requested_at (sr_lab found)
       then update_where (\<lambda>l. lb_lab_id l = lb_lab_id (sr_lab found) \<and> lb_generation l = lb_generation (sr_lab found))
         (\<lambda>l. l\<lparr>lb_reset_requested_at := reset_request found reset x now, lb_updated_at := now\<rparr>) (st_labs s)
       else st_labs s)"
  note I = store_invD [OF assms(2)]
  have "map lab_core labs = map lab_core (st_labs s)"
    by (simp add: labs core_update lab_core_def)
  moreover have "store_inv (with_journal s j')"
    by (rule with_journal_inv [OF assms(2) stop_sound [OF j I(1)]])
      (use stop_frame [OF j I(2)] in \<open>simp add: same_frame_def\<close>)
  ultimately show "store_inv s'" using same_core_inv [of "with_journal s j'" labs] s' by simp
qed

lemma revoke_tokens_inv:
  assumes "revoke_campus_broker_tokens s sid reason now = Inr (s', n)" "store_inv s"
  shows "store_inv s'"
proof -
  let ?ts = "update_where (live_token sid) (revoked_token now reason) (st_tokens s)"
  note I = store_invD [OF assms(2)]
  have s': "s' = s\<lparr>st_tokens := ?ts\<rparr>" using assms(1) by (auto simp: revoke_campus_broker_tokens_def split: if_splits)
  have ev: "tokens_evolve (st_tokens s) ?ts" by (rule evolve_update) (simp add: live_token_def)
  have "tokens_ok (load_session (st_journal s)) (st_generations s) ?ts"
    by (rule tokens_ok_step [OF I(7) _ ev subset_refl])
      (use evolve_live [OF ev] tokens_okD(4) [OF I(7)] in \<open>fastforce simp: token_row_inv_def\<close>)+
  with I s' show ?thesis by (simp add: store_inv_def)
qed

end
