(* ===== verification/StoreTransactions.thy ===== *)
theory StoreTransactions
  imports StoreInvariant
begin

text \<open>
  The store's own transactions one by one: what a record joins, what issuing a token and admitting
  a launch or a reset change, and that the invariant survives every call.
\<close>

section \<open>Records\<close>

lemma load_recordD:
  assumes "load_record s sid = Some r"
  shows "load_session (st_journal s) sid = Some (sr_session r)" "sr_lab r \<in> set (st_labs s)"
    "lab_owner (sr_lab r) \<in> set (jn_identities (st_journal s))"
    "\<exists>g \<in> set (st_generations s). gn_session_id g = sid \<and> gn_lab_id g = lb_lab_id (sr_lab r) \<and>
       gn_generation g = sr_generation r \<and> gn_reset_from g = sr_reset_from r"
    "load_lab s (lb_lab_id (sr_lab r)) = Some (sr_lab r)"
    "sr_owner_identity_id r = st_identity_id s (lab_owner (sr_lab r))"
proof -
  from assms obtain x g l where x: "load_session (st_journal s) sid = Some x" "load_generation s sid = Some g"
    "load_lab s (gn_lab_id g) = Some l" "lab_owner l \<in> set (jn_identities (st_journal s))"
    "r = \<lparr>sr_session = x, sr_lab = l, sr_generation = gn_generation g, sr_policy_hash = gn_policy_hash g,
        sr_reset_from = gn_reset_from g, sr_owner_identity_id = st_identity_id s (lab_owner l)\<rparr>"
    by (auto simp: load_record_def split: if_splits bind_splits)
  have g: "g \<in> set (st_generations s)" "gn_session_id g = sid"
    using x(2) unfolding load_generation_def by (auto dest: find_SomeD)
  have l: "l \<in> set (st_labs s)" "lb_lab_id l = gn_lab_id g"
    using x(3) unfolding load_lab_def by (auto dest: find_SomeD)
  show "load_session (st_journal s) sid = Some (sr_session r)" "sr_lab r \<in> set (st_labs s)"
    "lab_owner (sr_lab r) \<in> set (jn_identities (st_journal s))"
    "load_lab s (lb_lab_id (sr_lab r)) = Some (sr_lab r)"
    "sr_owner_identity_id r = st_identity_id s (lab_owner (sr_lab r))" using x l by simp_all
  show "\<exists>g \<in> set (st_generations s). gn_session_id g = sid \<and> gn_lab_id g = lb_lab_id (sr_lab r) \<and>
       gn_generation g = sr_generation r \<and> gn_reset_from g = sr_reset_from r"
    using g l x(5) by (intro bexI [of _ g]) simp_all
qed

lemma load_lab_iff:
  "labs_ok M I (st_labs s) gens \<Longrightarrow> load_lab s k = Some l \<longleftrightarrow> l \<in> set (st_labs s) \<and> lb_lab_id l = k"
  using lookup_Some [of lb_lab_id "st_labs s" k l] by (simp add: load_lab_def lookup_def labs_ok_def)

lemma load_generation_iff:
  "labs_ok M I labs (st_generations s) \<Longrightarrow>
     load_generation s sid = Some g \<longleftrightarrow> g \<in> set (st_generations s) \<and> gn_session_id g = sid"
  using lookup_Some [of gn_session_id "st_generations s" sid g]
  by (simp add: load_generation_def lookup_def labs_ok_def)

lemma load_record_exists:
  assumes "store_inv s" "g \<in> set (st_generations s)"
  obtains r where "load_record s (gn_session_id g) = Some r" "sr_generation r = gn_generation g"
    "lb_lab_id (sr_lab r) = gn_lab_id g" "owned (sr_session r) (sr_lab r)" "sr_reset_from r = gn_reset_from g"
proof -
  note L = store_invD(5) [OF assms(1)]
  from generation_lab [OF L assms(2)] obtain l x where l: "l \<in> set (st_labs s)" "lb_lab_id l = gn_lab_id g"
    "load_session (st_journal s) (gn_session_id g) = Some x" "owned x l" by metis
  have "load_lab s (gn_lab_id g) = Some l" using load_lab_iff [OF L] l by simp
  moreover have "load_generation s (gn_session_id g) = Some g" using load_generation_iff [OF L] assms(2) by simp
  moreover have "lab_owner l \<in> set (jn_identities (st_journal s))"
    using labs_okD(6) [OF L l(1)] by (simp add: lab_row_ok_def)
  ultimately show ?thesis using l that by (simp add: load_record_def)
qed

section \<open>Issuing\<close>

lemma issue_cases:
  assumes "issue_campus_broker_token s r = Inr (s', stored)"
  obtains found where "issue_request_ok r" "load_record s (wl_session_id (iq_workload r)) = Some found"
    "issuable found r = Inr ()" "token_row_ok s (new_token s found r)"
    "s' = s\<lparr>st_tokens := supersede (wl_session_id (iq_workload r)) (iq_audience r) (iq_now r)
       (st_tokens s @ [new_token s found r])\<rparr>"
    "load_token s' (iq_token_id r) = Some stored"
  using assms that by (auto simp: issue_campus_broker_token_def Let_def split: if_splits)

lemma issuableD:
  assumes "issuable found r = Inr ()"
  shows "\<not> revokes_tokens (sr_session found)" "iq_now r < ls_expires_at (sr_session found)"
    "session_workload (sr_session found) = Some (iq_workload r)" "is_current found"
  using assms by (cases "ls_desired (sr_session found)"; auto simp: issuable_def Let_def revokes_tokens_def split: if_splits)+

lemma new_token_simps [simp]:
  "bk_sequence (new_token s f r) = int (length (st_tokens s)) + 1" "bk_token_id (new_token s f r) = iq_token_id r"
  "bk_token_hash (new_token s f r) = iq_token_hash r" "bk_audience (new_token s f r) = iq_audience r"
  "bk_workload (new_token s f r) = iq_workload r" "bk_lab_id (new_token s f r) = lb_lab_id (sr_lab f)"
  "bk_lab_generation (new_token s f r) = sr_generation f" "bk_issued_at (new_token s f r) = iq_now r"
  "bk_expires_at (new_token s f r) = token_expiry f r" "bk_revoked_at (new_token s f r) = None"
  by (simp_all add: new_token_def)

lemma issue_inv:
  assumes "issue_campus_broker_token s r = Inr (s', stored)" "store_inv s"
  shows "store_inv s'"
proof (rule issue_cases [OF assms(1)])
  fix found
  let ?t = "new_token s found r" and ?sid = "wl_session_id (iq_workload r)"
  assume f: "load_record s ?sid = Some found" "issuable found r = Inr ()" "token_row_ok s ?t"
    and s': "s' = s\<lparr>st_tokens := supersede ?sid (iq_audience r) (iq_now r) (st_tokens s @ [?t])\<rparr>"
  note I = store_invD [OF assms(2)] and R = load_recordD [OF f(1)] and U = issuableD [OF f(2)]
  have fresh: "iq_token_id r \<notin> bk_token_id ` set (st_tokens s)" "iq_token_hash r \<notin> bk_token_hash ` set (st_tokens s)"
    and times: "iq_now r < token_expiry found r" "token_expiry found r \<le> iq_now r + 900"
    using f(3) by (auto simp: token_row_ok_def list_ex_iff)
  have "token_row_inv (load_session (st_journal s)) (st_generations s) ?t"
    using R(1, 4) U times by (auto simp: token_row_inv_def token_expiry_def)
  with tokens_ok_issue [OF I(7) this] fresh I s' show "store_inv s'" by (simp add: store_inv_def)
qed

section \<open>Admission\<close>

lemma owned_request: "owned (requested_session (session_request r)) l \<longleftrightarrow>
    lb_tenant_id l = al_tenant_id r \<and> lb_course_id l = al_course_id r \<and> lb_issuer l = al_issuer r \<and>
    lb_subject l = al_subject r"
  by (auto simp: owned_def requested_session_def session_request_def)

lemma request_labD:
  "request_lab s r = Some l \<Longrightarrow> l \<in> set (st_labs s) \<and>
     lab_key l = (al_tenant_id r, al_course_id r, al_assignment_id r, al_issuer r, al_subject r)"
  unfolding request_lab_def get_campus_lab_def by (drule find_SomeD) auto

lemma request_lab_None:
  "request_lab s r = None \<Longrightarrow>
     (al_tenant_id r, al_course_id r, al_assignment_id r, al_issuer r, al_subject r) \<notin> lab_key ` set (st_labs s)"
  unfolding request_lab_def get_campus_lab_def find_None_iff by auto

lemma find_or_create_cases:
  assumes "find_or_create_lab s r = Inr (s1, lab)"
  obtains (found) "request_lab s r = Some lab" "s1 = s"
    | (made) "request_lab s r = None" "lab = candidate_lab r" "s1 = s\<lparr>st_labs := st_labs s @ [lab]\<rparr>"
      "\<forall>l \<in> set (st_labs s). lb_lab_id l \<noteq> lb_lab_id lab \<and> lb_budget_id l \<noteq> lb_budget_id lab"
  using assms by (auto simp: find_or_create_lab_def Let_def list_ex_iff split: if_splits option.splits)

lemma find_or_create_inv:
  assumes "find_or_create_lab s r = Inr (s1, lab)" "store_inv s"
    "(al_tenant_id r, al_issuer r, al_subject r) \<in> set (jn_identities (st_journal s))"
  shows "store_inv s1" "lab \<in> set (st_labs s1)"
    "lab_key lab = (al_tenant_id r, al_course_id r, al_assignment_id r, al_issuer r, al_subject r)"
proof (atomize (full), cases rule: find_or_create_cases [OF assms(1), case_names found made])
  case found
  with assms(2) request_labD [OF found(1)] show "store_inv s1 \<and> lab \<in> set (st_labs s1) \<and>
    lab_key lab = (al_tenant_id r, al_course_id r, al_assignment_id r, al_issuer r, al_subject r)" by simp
next
  case made
  note L = store_invD(5) [OF assms(2)]
  have k: "lab_key lab = (al_tenant_id r, al_course_id r, al_assignment_id r, al_issuer r, al_subject r)"
    by (simp add: made(2) candidate_lab_def)
  have "labs_ok (load_session (st_journal s)) (set (jn_identities (st_journal s))) (st_labs s @ [lab]) (st_generations s)"
  proof -
    have "gen_row_ok (load_session (st_journal s)) (st_labs s @ [lab]) g" if "g \<in> set (st_generations s)" for g
      using labs_okD(7) [OF L that] by (auto simp: gen_row_ok_def)
    moreover have "lab_row_ok (set (jn_identities (st_journal s))) (st_generations s) lab"
      using assms(3) by (simp add: lab_row_ok_def made(2) candidate_lab_def)
    ultimately show ?thesis
      using L made(4) request_lab_None [OF made(1)] k by (auto simp: labs_ok_def)
  qed
  moreover have "launches_ok (st_labs s @ [lab]) (st_generations s) (st_launches s)"
    by (rule launches_ok_mono [OF store_invD(6) [OF assms(2)]]) auto
  ultimately show "store_inv s1 \<and> lab \<in> set (st_labs s1) \<and>
    lab_key lab = (al_tenant_id r, al_course_id r, al_assignment_id r, al_issuer r, al_subject r)"
    using assms(2) k by (simp add: store_inv_def made(3))
qed

lemma find_launch_same: "st_launches s1 = st_launches s \<Longrightarrow> find_launch s1 r = find_launch s r"
  by (simp add: find_launch_def fun_eq_iff)

text \<open>A launch key is recorded for a session of the lab the request is for.\<close>

lemma insert_launch_inv:
  assumes "store_inv s" "Option.bind key (find_launch s r) = None"
    "g \<in> set (st_generations s)" "gn_session_id g = sid" "l \<in> set (st_labs s)" "gn_lab_id g = lb_lab_id l"
    "lab_key l = (al_tenant_id r, al_course_id r, al_assignment_id r, al_issuer r, al_subject r)"
  shows "store_inv (insert_launch_request s r key sid)"
proof (cases key)
  case (Some k)
  have "(al_tenant_id r, al_issuer r, al_subject r, k) \<notin> launch_key ` set (st_launches s)"
    using assms(2) by (auto simp: Some find_launch_def find_None_iff)
  moreover have "launch_row_ok (st_labs s) (st_generations s)
      \<lparr>rq_tenant_id = al_tenant_id r, rq_issuer = al_issuer r, rq_subject = al_subject r, rq_key = k,
       rq_course_id = al_course_id r, rq_assignment_id = al_assignment_id r, rq_session_id = sid,
       rq_created_at = al_now r\<rparr>"
    using assms(3-7) by (auto simp: launch_row_ok_def)
  ultimately show ?thesis
    using assms(1) by (simp add: store_inv_def launches_ok_def insert_launch_request_def Some)
qed (simp add: insert_launch_request_def assms(1))

text \<open>The next generation of a lab, once its current session is torn down.\<close>

abbreviation at_generation :: "campus_lab \<Rightarrow> campus_lab \<Rightarrow> bool" where
  "at_generation lab \<equiv> \<lambda>l. lb_lab_id l = lb_lab_id lab \<and> lb_generation l = lb_generation lab"

definition advance_lab :: "admit_launch \<Rightarrow> campus_lab \<Rightarrow> campus_lab list \<Rightarrow> campus_lab list" where
  "advance_lab r lab = update_where (at_generation lab) (next_generation_of r lab)"

lemma next_generation_simps [simp]:
  "lb_lab_id (next_generation_of r lab l) = lb_lab_id l" "lb_budget_id (next_generation_of r lab l) = lb_budget_id l"
  "lb_tenant_id (next_generation_of r lab l) = lb_tenant_id l" "lb_course_id (next_generation_of r lab l) = lb_course_id l"
  "lb_assignment_id (next_generation_of r lab l) = lb_assignment_id l" "lb_issuer (next_generation_of r lab l) = lb_issuer l"
  "lb_subject (next_generation_of r lab l) = lb_subject l"
  "lb_current (next_generation_of r lab l) = Some (al_candidate_session_id r)"
  "lb_generation (next_generation_of r lab l) = lb_generation lab + 1"
  "lb_reset_requested_at (next_generation_of r lab l) = None"
  "owned x (next_generation_of r lab l) = owned x l"
  by (simp_all add: next_generation_of_def owned_def)

lemma labs_ok_generation:
  assumes "labs_ok M I labs gens" "lab \<in> set labs" "M sid = None"
    "\<And>c x. lb_current lab = Some c \<Longrightarrow> M c = Some x \<Longrightarrow> is_terminal (ls_state x)"
    "sid = al_candidate_session_id r" "owned x lab"
  shows "labs_ok (M(sid \<mapsto> x)) I (advance_lab r lab labs) (gens @ [new_generation r lab])"
proof -
  let ?labs = "advance_lab r lab labs" and ?g = "new_generation r lab" and ?M = "M(sid \<mapsto> x)"
  have g: "gn_session_id ?g = sid" "gn_lab_id ?g = lb_lab_id lab" "gn_generation ?g = lb_generation lab + 1"
    by (simp_all add: new_generation_def assms(5))
  have fresh: "gn_session_id h \<noteq> sid" if "h \<in> set gens" for h
    using generation_lab [OF assms(1) that] assms(3) by (metis option.distinct(1))
  have upper: "gn_generation h \<le> lb_generation lab" if "h \<in> set gens" "gn_lab_id h = lb_lab_id lab" for h
    using generation_lab [OF assms(1) that(1)] lab_unique(1) [OF assms(1) _ assms(2)] that(2) by metis
  have upd: "l' \<in> set ?labs \<longleftrightarrow> (\<exists>l \<in> set labs. l' = (if l = lab then next_generation_of r lab l else l))" for l'
    unfolding advance_lab_def update_where_set using lab_unique(1) [OF assms(1) _ assms(2)] by fastforce
  have last: "is_terminal (ls_state y)" if h: "h \<in> set gens" "gn_lab_id h = lb_lab_id lab"
    "gn_generation h = lb_generation lab" "M (gn_session_id h) = Some y" for h y
  proof -
    have "1 \<le> gn_generation h" by (rule generation_lab [OF assms(1) h(1)])
    with h(3) have "lb_generation lab \<noteq> 0" by linarith
    with labs_okD(6) [OF assms(1, 2)] obtain c h' where "lb_current lab = Some c" "h' \<in> set gens"
      "gn_session_id h' = c" "gn_lab_id h' = lb_lab_id lab" "gn_generation h' = lb_generation lab"
      by (auto simp: lab_row_ok_def split: option.splits)
    with generation_unique(2) [OF assms(1), of h' h] h assms(4) show ?thesis by auto
  qed
  have gens': "gen_row_ok ?M ?labs h" if h: "h \<in> set gens" for h
  proof -
    from generation_lab [OF assms(1) h] obtain l y where l: "l \<in> set labs" "lb_lab_id l = gn_lab_id h"
      "1 \<le> gn_generation h" "gn_generation h \<le> lb_generation l" "M (gn_session_id h) = Some y" "owned y l"
      "gn_generation h < lb_generation l \<longrightarrow> is_terminal (ls_state y)" by metis
    have y: "?M (gn_session_id h) = Some y" using fresh [OF h] l(5) by simp
    let ?l = "if l = lab then next_generation_of r lab l else l"
    have "?l \<in> set ?labs" unfolding upd using l(1) by blast
    moreover have "lb_lab_id ?l = gn_lab_id h" "gn_generation h \<le> lb_generation ?l" "owned y ?l"
      using l by auto
    moreover have "is_terminal (ls_state y)" if "gn_generation h < lb_generation ?l"
      using l(2, 4, 5, 7) last [OF h] that by (cases "l = lab") force+
    ultimately show ?thesis using l(3) y unfolding gen_row_ok_def by blast
  qed
  have new: "gen_row_ok ?M ?labs ?g"
  proof -
    have "0 \<le> lb_generation lab"
    proof (cases "lb_current lab")
      case None
      with labs_okD(6) [OF assms(1, 2)] show ?thesis by (simp add: lab_row_ok_def)
    next
      case (Some c)
      with labs_okD(6) [OF assms(1, 2)] obtain h where h: "h \<in> set gens" "gn_generation h = lb_generation lab"
        by (auto simp: lab_row_ok_def)
      have "1 \<le> gn_generation h" by (rule generation_lab [OF assms(1) h(1)])
      with h(2) show ?thesis by simp
    qed
    moreover have "next_generation_of r lab lab \<in> set ?labs" unfolding upd using assms(2) by auto
    ultimately show ?thesis unfolding gen_row_ok_def
      by (intro conjI bexI [of _ "next_generation_of r lab lab"] exI [of _ x]) (simp_all add: g assms(6))
  qed
  have rows: "lab_row_ok I (gens @ [?g]) l'" if l': "l' \<in> set ?labs" for l'
  proof -
    from l' obtain l where l: "l \<in> set labs" "l' = (if l = lab then next_generation_of r lab l else l)"
      unfolding upd by blast
    show ?thesis
    proof (cases "l = lab")
      case True
      with labs_okD(6) [OF assms(1, 2)] l(2) g assms(5) show ?thesis by (simp add: lab_row_ok_def)
    next
      case False
      with labs_okD(6) [OF assms(1) l(1)] l(2) show ?thesis
        by (auto simp: lab_row_ok_def split: option.splits)
    qed
  qed
  have "distinct (map lb_lab_id ?labs)" "distinct (map lb_budget_id ?labs)" "distinct (map lab_key ?labs)"
    unfolding advance_lab_def using labs_okD(1-3) [OF assms(1)] by (simp_all only: keys_update next_generation_simps)
  moreover have "sid \<notin> gn_session_id ` set gens" using fresh by blast
  then have "distinct (map gn_session_id (gens @ [?g]))" using labs_okD(4) [OF assms(1)] g by simp
  moreover have "distinct (map (\<lambda>g. (gn_lab_id g, gn_generation g)) (gens @ [?g]))"
    using labs_okD(5) [OF assms(1)] upper g by fastforce
  ultimately show ?thesis using rows gens' new by (simp add: labs_ok_def)
qed

lemma create_cases:
  assumes "create_generation s r lab = Inr (s', answer)"
  obtains j1 x s3 j2 found where
    "insert_campus_lab_session (st_journal s) (session_request r) = Inr (j1, x, True)"
    "generation_row_ok (with_journal s j1) (new_generation r lab)"
    "s3 = insert_launch_request ((with_journal s j1)\<lparr>st_generations := st_generations s @ [new_generation r lab],
       st_labs := advance_lab r lab (st_labs s)\<rparr>) r (al_idempotency_key r) (ls_session_id x)"
    "j2 = fst (insert_event (st_journal s3) (ls_session_id x) ''campus.lab.admitted'' None None
       (ls_generation x) None (al_actor r) (admitted_payload s r lab) (al_now r))"
    "s' = with_journal s3 j2" "answer = AdmCreated found" "load_record s' (ls_session_id x) = Some found"
  using assms that
  by (auto simp: create_generation_def Let_def advance_lab_def split: if_splits)

lemma created_sound:
  assumes "insert_campus_lab_session j q = Inr (j1, x, True)" "sound j"
  shows "sound_step j j1" "load_session j (cs_session_id q) = None" "x = requested_session q"
    "load_session j1 = (load_session j)(cs_session_id q \<mapsto> x)" "jn_identities j1 = jn_identities j"
  using insert_session_ok [OF assms(1)] sound_stepI [OF create_step_ok [OF assms(1)] _ create_holds [OF assms(1)]]
    create_identities [OF assms(1)] assms(2)
  by (simp_all add: sound_def)

lemma note_event_inv:
  assumes "store_inv s" "j = fst (insert_event (st_journal s) sid kind None None g key actor payload now)"
  shows "store_inv (with_journal s j)" "load_session j = load_session (st_journal s)"
    "jn_identities j = jn_identities (st_journal s)"
proof -
  show "load_session j = load_session (st_journal s)" and i: "jn_identities j = jn_identities (st_journal s)"
    by (simp_all add: assms(2) insert_event_def Let_def load_session_lookup)
  show "store_inv (with_journal s j)"
    by (rule with_journal_inv [OF assms(1) _ i])
      (unfold assms(2), rule note_event_ok [OF store_invD(1) [OF assms(1)]])
qed

text \<open>What a created generation leaves behind.\<close>

lemma create_inv:
  assumes "create_generation s r lab = Inr (s', answer)" "store_inv s" "lab \<in> set (st_labs s)"
    "lab_key lab = (al_tenant_id r, al_course_id r, al_assignment_id r, al_issuer r, al_subject r)"
    "Option.bind (al_idempotency_key r) (find_launch s r) = None"
    "\<forall>c x. lb_current lab = Some c \<and> load_session (st_journal s) c = Some x \<longrightarrow> is_terminal (ls_state x)"
  shows "store_inv s' \<and> st_labs s' = advance_lab r lab (st_labs s) \<and>
     st_generations s' = st_generations s @ [new_generation r lab] \<and>
     load_session (st_journal s) (al_candidate_session_id r) = None \<and>
     load_session (st_journal s') = (load_session (st_journal s))
       (al_candidate_session_id r \<mapsto> requested_session (session_request r)) \<and>
     jn_identities (st_journal s') = jn_identities (st_journal s) \<and>
     st_launches s' = st_launches (insert_launch_request s r (al_idempotency_key r) (al_candidate_session_id r)) \<and>
     (\<exists>found. answer = AdmCreated found \<and> load_record s' (al_candidate_session_id r) = Some found)"
proof (rule create_cases [OF assms(1)])
  fix j1 x s3 j2 found
  let ?g = "new_generation r lab" and ?sid = "al_candidate_session_id r"
  let ?s2 = "(with_journal s j1)\<lparr>st_generations := st_generations s @ [?g], st_labs := advance_lab r lab (st_labs s)\<rparr>"
  assume j1: "insert_campus_lab_session (st_journal s) (session_request r) = Inr (j1, x, True)"
    and s3: "s3 = insert_launch_request ?s2 r (al_idempotency_key r) (ls_session_id x)"
    and j2: "j2 = fst (insert_event (st_journal s3) (ls_session_id x) ''campus.lab.admitted'' None None
       (ls_generation x) None (al_actor r) (admitted_payload s r lab) (al_now r))"
    and s': "s' = with_journal s3 j2" "answer = AdmCreated found" "load_record s' (ls_session_id x) = Some found"
  note I = store_invD [OF assms(2)] and C = created_sound [OF j1 store_invD(1) [OF assms(2)]]
  have sid: "cs_session_id (session_request r) = ?sid" "ls_session_id x = ?sid"
    by (simp_all add: C(3) session_request_def requested_session_def)
  have "owned x lab" using assms(4) by (simp add: C(3) owned_request)
  with labs_ok_generation [OF I(5) assms(3)] C(2) assms(6) sid(1)
  have labs: "labs_ok ((load_session (st_journal s))(?sid \<mapsto> x)) (set (jn_identities (st_journal s)))
      (advance_lab r lab (st_labs s)) (st_generations s @ [?g])" by simp
  have kept: "\<exists>l' \<in> set (advance_lab r lab (st_labs s)). lb_lab_id l' = lb_lab_id l \<and> lab_key l' = lab_key l"
    if "l \<in> set (st_labs s)" for l
    unfolding advance_lab_def
    by (rule bexI [OF _ update_where_keeps [OF that]]) simp
  have "launches_ok (advance_lab r lab (st_labs s)) (st_generations s @ [?g]) (st_launches s)"
    by (rule launches_ok_mono [OF I(6) _ kept]) auto
  moreover have "tokens_ok (load_session j1) (st_generations s @ [?g]) (st_tokens (with_journal s j1))"
    by (rule with_journal_tokens [OF I(7) C(1)]) auto
  ultimately have s2: "store_inv ?s2" using labs C(1, 4, 5) sid by (simp add: store_inv_def sound_step_def)
  obtain l' where l': "l' \<in> set (advance_lab r lab (st_labs s))" "lb_lab_id l' = lb_lab_id lab" "lab_key l' = lab_key lab"
    using kept [OF assms(3)] by blast
  have "store_inv s3" unfolding s3 sid(2)
  proof (rule insert_launch_inv [OF s2, where g = ?g and l = l'])
    show "Option.bind (al_idempotency_key r) (find_launch ?s2 r) = None"
      using assms(5) find_launch_same [of ?s2 s r] by simp
  qed (use l' assms(4) in \<open>simp_all add: new_generation_def\<close>)
  from note_event_inv [OF this j2] s' show ?thesis
    using C sid by (simp add: s3 insert_launch_request_def split: option.splits)
qed

text \<open>Every answer of an admission, with what it wrote.\<close>

lemma res_bind_pair: "res_bind x (\<lambda>a. Inr (s, a)) = Inr (s', b) \<Longrightarrow> s' = s \<and> x = Inr b"
  by (cases x) auto

lemma admit_cases:
  assumes "admit_campus_lab_launch s r = Inr (s', answer)"
  obtains (replay) previous where "s' = s" "Option.bind (al_idempotency_key r) (find_launch s r) = Some previous"
      "replay_launch s r previous = Inr answer" "admission_request_ok r"
    | (answered) s1 lab where "admission_request_ok r" "Option.bind (al_idempotency_key r) (find_launch s r) = None"
      "(al_tenant_id r, al_issuer r, al_subject r) \<in> set (jn_identities (st_journal s))"
      "find_or_create_lab s r = Inr (s1, lab)" "answer_from_current s s1 r lab = Some (Inr (s', answer))"
    | (refused) s1 lab rejection where "find_or_create_lab s r = Inr (s1, lab)"
      "answer_from_current s s1 r lab = None"
      "capacity_rejection s1 r lab = Some rejection" "s' = s" "answer = AdmRejected rejection"
    | (created) s1 lab where "admission_request_ok r" "Option.bind (al_idempotency_key r) (find_launch s r) = None"
      "(al_tenant_id r, al_issuer r, al_subject r) \<in> set (jn_identities (st_journal s))"
      "find_or_create_lab s r = Inr (s1, lab)" "answer_from_current s s1 r lab = None"
      "capacity_rejection s1 r lab = None" "create_generation s1 r lab = Inr (s', answer)"
proof -
  have ok: "admission_request_ok r" using assms by (simp add: admit_campus_lab_launch_def split: if_splits)
  show ?thesis
  proof (cases "Option.bind (al_idempotency_key r) (find_launch s r)")
    case (Some previous)
    have "res_bind (replay_launch s r previous) (\<lambda>answer. Inr (s, answer)) = Inr (s', answer)"
      using assms by (simp only: admit_campus_lab_launch_def ok Some option.case not_True_eq_False if_False)
    note P = res_bind_pair [OF this]
    show ?thesis by (rule replay [OF P [THEN conjunct1] Some P [THEN conjunct2] ok])
  next
    case None
    with assms ok have known: "(al_tenant_id r, al_issuer r, al_subject r) \<in> set (jn_identities (st_journal s))"
      by (simp add: admit_campus_lab_launch_def split: if_splits)
    show ?thesis
    proof (cases "find_or_create_lab s r")
      case (Inl e)
      with assms ok None known show ?thesis by (simp add: admit_campus_lab_launch_def)
    next
      case (Inr p)
      obtain s1 lab where F: "find_or_create_lab s r = Inr (s1, lab)" using Inr by (cases p) simp
      have A: "(case answer_from_current s s1 r lab of
            Some answer \<Rightarrow> answer
          | None \<Rightarrow> (case capacity_rejection s1 r lab of
                 Some rejection \<Rightarrow> Inr (s, AdmRejected rejection)
               | None \<Rightarrow> create_generation s1 r lab)) = Inr (s', answer)"
        using assms ok None known F by (simp add: admit_campus_lab_launch_def)
      show ?thesis
      proof (cases "answer_from_current s s1 r lab")
        case (Some a)
        with A answered [OF ok None known F] show ?thesis by simp
      next
        case no_answer: None
        show ?thesis
        proof (cases "capacity_rejection s1 r lab")
          case (Some rejection)
          have "s' = s" "answer = AdmRejected rejection"
            using A by (simp_all only: no_answer Some option.case sum.inject prod.inject)
          then show ?thesis by (rule refused [OF F no_answer Some])
        next
          case no_rejection: None
          with A no_answer created [OF ok None known F] show ?thesis by simp
        qed
      qed
    qed
  qed
qed

lemma answer_none:
  assumes "answer_from_current before s r lab = None"
  shows "\<forall>c x. lb_current lab = Some c \<and> load_session (st_journal s) c = Some x \<longrightarrow> is_terminal (ls_state x)"
proof (intro allI impI, elim conjE)
  fix c x
  assume c: "lb_current lab = Some c" "load_session (st_journal s) c = Some x"
  with assms obtain found where f: "load_record s c = Some found" "is_terminal (ls_state (sr_session found))"
    by (auto simp: answer_from_current_def split: option.splits if_splits)
  with load_recordD(1) [OF f(1)] c(2) show "is_terminal (ls_state x)" by simp
qed

lemma answer_some:
  assumes "answer_from_current before s r lab = Some (Inr (s', answer))"
  shows "s' = before \<and> al_reset_from r \<noteq> None \<or> (\<exists>c found. lb_current lab = Some c \<and> al_reset_from r = None \<and>
     load_record s c = Some found \<and> \<not> is_terminal (ls_state (sr_session found)) \<and>
     s' = insert_launch_request s r (al_idempotency_key r) c \<and> answer = AdmActive found)"
  using assms by (auto simp: answer_from_current_def split: option.splits if_splits)

lemma same_launches: "find_or_create_lab s r = Inr (s1, lab) \<Longrightarrow> st_launches s1 = st_launches s \<and>
    st_journal s1 = st_journal s \<and> st_generations s1 = st_generations s \<and> st_tokens s1 = st_tokens s"
  by (erule find_or_create_cases) auto

lemma admit_inv:
  assumes "admit_campus_lab_launch s r = Inr (s', answer)" "store_inv s"
  shows "store_inv s'"
proof (cases rule: admit_cases [OF assms(1), case_names replay answered refused created])
  case (answered s1 lab)
  note F = find_or_create_inv [OF answered(4) assms(2) answered(3)]
  note S = same_launches [OF answered(4), THEN conjunct1, THEN find_launch_same]
  from answer_some [OF answered(5)] consider (same) "s' = s"
    | (live) c where "lb_current lab = Some c" "s' = insert_launch_request s1 r (al_idempotency_key r) c"
    by blast
  then show ?thesis
  proof cases
    case (live c)
    have "lab_row_ok (set (jn_identities (st_journal s1))) (st_generations s1) lab"
      by (rule labs_okD(6) [OF store_invD(5) [OF F(1)] F(2)])
    with live(1) obtain g where "g \<in> set (st_generations s1)" "gn_session_id g = c" "gn_lab_id g = lb_lab_id lab"
      by (auto simp: lab_row_ok_def)
    from insert_launch_inv [OF F(1) _ this(1, 2) F(2) this(3) F(3)] answered(2) S live(2) show ?thesis by simp
  qed (use assms(2) in simp)
next
  case (created s1 lab)
  note F = find_or_create_inv [OF created(4) assms(2) created(3)]
  have "Option.bind (al_idempotency_key r) (find_launch s1 r) = None"
    by (simp only: created(2) find_launch_same [OF same_launches [OF created(4), THEN conjunct1]])
  from create_inv [OF created(7) F this answer_none [OF created(5)]] show ?thesis by (rule conjunct1)
qed (use assms in simp_all)

section \<open>Reachable stores\<close>

theorem apply_inv:
  assumes "store_inv s"
  shows "store_inv (store_apply s c)"
proof (cases c)
  case (ScJournal jc)
  with journal_call_inv [OF assms] show ?thesis by simp
next
  case (ScAdmit r)
  with admit_inv assms show ?thesis
    by (cases "admit_campus_lab_launch s r") (auto simp: committed_store_def)
next
  case (ScStop sid actor reason reset now)
  with stop_inv assms show ?thesis
    by (cases "request_campus_lab_stop s sid actor reason reset now") (auto simp: committed_store_def)
next
  case (ScClearReset lab_id sid now)
  with clear_reset_inv [OF assms] show ?thesis by simp
next
  case (ScIssue r)
  with issue_inv assms show ?thesis
    by (cases "issue_campus_broker_token s r") (auto simp: committed_store_def)
next
  case (ScRevoke sid reason now)
  with revoke_tokens_inv assms show ?thesis
    by (cases "revoke_campus_broker_tokens s sid reason now") (auto simp: committed_store_def)
qed

lemma empty_store_inv: "store_inv (empty_store identities ids)"
  using empty_sound by (simp add: store_inv_def empty_store_def labs_ok_def launches_ok_def tokens_ok_def)

lemma store_steps_inv: "store_steps allowed s s' \<Longrightarrow> store_inv s \<Longrightarrow> store_inv s'"
  by (induction rule: store_steps.induct) (auto intro: apply_inv)

lemma store_reachable_inv: "store_reachable allowed s \<Longrightarrow> store_inv s"
  using store_steps_inv empty_store_inv by (auto simp: store_reachable_def)

end
