(* ===== verification/StoreGrowth.thy ===== *)
theory StoreGrowth
  imports StoreTransactions
begin

text \<open>
  What the store keeps over any number of calls: sessions only take lifecycle steps, labs keep their
  owner and budget, generations and launch keys are only added, and a revoked token stays as it is.
\<close>

definition lab_kept :: "campus_lab \<Rightarrow> campus_lab \<Rightarrow> bool" where
  "lab_kept l l' \<longleftrightarrow> lb_lab_id l' = lb_lab_id l \<and> lab_key l' = lab_key l \<and>
     lb_budget_id l' = lb_budget_id l \<and> lb_generation l \<le> lb_generation l'"

definition store_grows :: "campus_store \<Rightarrow> campus_store \<Rightarrow> bool" where
  "store_grows s s' \<longleftrightarrow>
     rows_step session_update_ok (load_session (st_journal s)) (load_session (st_journal s')) \<and>
     (\<forall>l \<in> set (st_labs s). \<exists>l' \<in> set (st_labs s'). lab_kept l l') \<and>
     set (st_generations s) \<subseteq> set (st_generations s') \<and>
     (\<exists>qs. st_launches s' = st_launches s @ qs) \<and>
     (\<forall>t \<in> set (st_tokens s). bk_revoked_at t \<noteq> None \<longrightarrow> t \<in> set (st_tokens s'))"

lemma lab_kept_refl [simp]: "lab_kept l l"
  by (simp add: lab_kept_def)

lemma subset_kept: "labs \<subseteq> labs' \<Longrightarrow> \<forall>l \<in> labs. Bex labs' (lab_kept l)"
  using lab_kept_refl by blast

lemma store_grows_refl [simp]: "store_grows s s"
  by (simp add: store_grows_def) (rule subset_kept [OF subset_refl])

lemma evolve_keeps_revoked:
  assumes "tokens_evolve ts ts'" "t \<in> set ts" "bk_revoked_at t \<noteq> None"
  shows "t \<in> set ts'"
proof -
  from assms(2) obtain i where i: "i < length ts" "t = ts ! i" by (auto simp: in_set_conv_nth)
  with assms(1, 3) have "ts' ! i = ts ! i" by (auto simp: tokens_evolve_def list_all2_conv_all_nth)
  with i evolve_length [OF assms(1)] show ?thesis by (metis nth_mem)
qed

lemma same_core_kept:
  assumes "map lab_core labs' = map lab_core labs" "l \<in> set labs"
  shows "\<exists>l' \<in> set labs'. lab_kept l l'"
proof -
  from assms(2) have "lab_core l \<in> set (map lab_core labs')" using assms(1) by simp
  then obtain l' where l': "l' \<in> set labs'" "lab_core l' = lab_core l" by auto
  have "lab_kept (lab_core l) (lab_core l')" using l'(2) by simp
  with l'(1) show ?thesis by (auto simp: lab_kept_def)
qed

lemma with_journal_grows:
  assumes "sound_step (st_journal s) j" "map lab_core labs = map lab_core (st_labs s)"
  shows "store_grows s ((with_journal s j)\<lparr>st_labs := labs\<rparr>)"
  using assms same_core_kept [OF assms(2)] evolve_keeps_revoked [OF with_journal_evolves]
  by (auto simp: store_grows_def sound_step_def journal_grows_def)

lemma tokens_grow:
  assumes "tokens_evolve (st_tokens s @ new) ts"
  shows "store_grows s (s\<lparr>st_tokens := ts\<rparr>)"
  using evolve_keeps_revoked [OF assms] by (simp add: store_grows_def) (rule subset_kept [OF subset_refl])

lemma insert_launch_grows:
  "st_journal (insert_launch_request s r key sid) = st_journal s"
  "st_labs (insert_launch_request s r key sid) = st_labs s"
  "st_generations (insert_launch_request s r key sid) = st_generations s"
  "st_tokens (insert_launch_request s r key sid) = st_tokens s"
  "\<exists>qs. st_launches (insert_launch_request s r key sid) = st_launches s @ qs"
  by (simp_all add: insert_launch_request_def split: option.split)

lemma find_or_create_grows: "find_or_create_lab s r = Inr (s1, lab) \<Longrightarrow> set (st_labs s) \<subseteq> set (st_labs s1)"
  by (erule find_or_create_cases) auto

lemma advance_kept: "l \<in> set labs \<Longrightarrow> \<exists>l' \<in> set (advance_lab r lab labs). lab_kept l l'"
  unfolding advance_lab_def
  by (rule bexI [OF _ update_where_keeps]) (auto simp: lab_kept_def)

lemma create_tokens:
  assumes "create_generation s r lab = Inr (s', answer)"
  shows "tokens_evolve (st_tokens s) (st_tokens s')"
proof (rule create_cases [OF assms])
  fix j1 x s3 j2
  let ?s2 = "(with_journal s j1)\<lparr>st_generations := st_generations s @ [new_generation r lab],
       st_labs := advance_lab r lab (st_labs s)\<rparr>"
  assume s3: "s3 = insert_launch_request ?s2 r (al_idempotency_key r) (ls_session_id x)"
    and s': "s' = with_journal s3 j2"
  have "st_tokens s3 = st_tokens (with_journal s j1)" by (simp add: s3 insert_launch_grows)
  with with_journal_evolves [of s j1] with_journal_evolves [of s3 j2] s' show ?thesis
    by (auto intro: evolve_trans)
qed

lemma admit_grows:
  assumes "admit_campus_lab_launch s r = Inr (s', answer)" "store_inv s"
  shows "store_grows s s'"
proof (cases rule: admit_cases [OF assms(1), case_names replay answered refused created])
  case (answered s1 lab)
  note S = same_launches [OF answered(4)]
  from answer_some [OF answered(5)] consider (same) "s' = s"
    | (live) c where "s' = insert_launch_request s1 r (al_idempotency_key r) c" by blast
  then show ?thesis
  proof cases
    case (live c)
    with S insert_launch_grows [of s1 r "al_idempotency_key r" c] find_or_create_grows [OF answered(4)]
    show ?thesis by (simp add: store_grows_def) (rule subset_kept)
  qed simp
next
  case (created s1 lab)
  note F = find_or_create_inv [OF created(4) assms(2) created(3)] and S = same_launches [OF created(4)]
  have fresh: "Option.bind (al_idempotency_key r) (find_launch s1 r) = None"
    by (simp only: created(2) find_launch_same [OF S [THEN conjunct1]])
  note C = create_inv [OF created(7) F fresh answer_none [OF created(5)]]
  have "rows_step session_update_ok (load_session (st_journal s)) (load_session (st_journal s'))"
    using C S rows_step_new [of "load_session (st_journal s)"] by simp
  moreover have "\<exists>qs. st_launches s' = st_launches s @ qs" using C S insert_launch_grows(5) by metis
  moreover have "\<forall>l \<in> set (st_labs s). \<exists>l' \<in> set (st_labs s'). lab_kept l l'"
    using C advance_kept find_or_create_grows [OF created(4)] by (metis subsetD)
  moreover have "tokens_evolve (st_tokens s) (st_tokens s')" using create_tokens [OF created(7)] S by simp
  ultimately show ?thesis using C S evolve_keeps_revoked by (auto simp: store_grows_def)
qed simp_all

theorem apply_grows:
  assumes "store_inv s"
  shows "store_grows s (store_apply s c)"
proof (cases c)
  case (ScJournal jc)
  obtain j r where j: "journal_answer (st_journal s) jc = (j, r)" by fastforce
  have "store_grows s ((with_journal s j)\<lparr>st_labs := st_labs s\<rparr>)"
    by (rule with_journal_grows [OF answer_sound [OF j store_invD(1) [OF assms]] refl])
  moreover have "(with_journal s j)\<lparr>st_labs := st_labs s\<rparr> = with_journal s j"
    by (simp add: with_journal_def)
  ultimately show ?thesis using ScJournal j by simp
next
  case (ScAdmit r)
  with admit_grows assms show ?thesis
    by (cases "admit_campus_lab_launch s r") (auto simp: committed_store_def)
next
  case (ScStop sid actor reason reset now)
  show ?thesis
  proof (cases "request_campus_lab_stop s sid actor reason reset now")
    case (Inr p)
    then obtain s' found' where p: "request_campus_lab_stop s sid actor reason reset now = Inr (s', found')"
      by (cases p) simp
    have "store_grows s s'"
    proof (rule request_stop_cases [OF p])
      fix found j' x labs
      assume j: "request_campus_lab_stop_in (st_journal s) sid actor reason now = Inr (j', x)"
        and s': "s' = (with_journal s j')\<lparr>st_labs := labs\<rparr>"
        and labs: "labs = (if is_current found \<and> reset_request found reset x now \<noteq> lb_reset_requested_at (sr_lab found)
         then update_where (\<lambda>l. lb_lab_id l = lb_lab_id (sr_lab found) \<and> lb_generation l = lb_generation (sr_lab found))
           (\<lambda>l. l\<lparr>lb_reset_requested_at := reset_request found reset x now, lb_updated_at := now\<rparr>) (st_labs s)
         else st_labs s)"
      show "store_grows s s'" unfolding s'
        by (rule with_journal_grows [OF stop_sound [OF j store_invD(1) [OF assms]]])
          (simp add: labs core_update lab_core_def)
    qed
    with ScStop p show ?thesis by (simp add: committed_store_def)
  qed (simp add: ScStop committed_store_def)
next
  case (ScClearReset lab_id sid now)
  have "store_grows s (s\<lparr>st_labs := labs\<rparr>)" if "map lab_core labs = map lab_core (st_labs s)" for labs
    using same_core_kept [OF that] by (auto simp: store_grows_def)
  with ScClearReset show ?thesis by (simp add: clear_campus_lab_reset_def Let_def core_update lab_core_def)
next
  case (ScIssue r)
  show ?thesis
  proof (cases "issue_campus_broker_token s r")
    case (Inr p)
    then obtain s' stored where p: "issue_campus_broker_token s r = Inr (s', stored)" by (cases p) simp
    have "store_grows s s'" by (rule issue_cases [OF p]) (simp only: tokens_grow [OF supersede_evolves])
    with ScIssue p show ?thesis by (simp add: committed_store_def)
  qed (simp add: ScIssue committed_store_def)
next
  case (ScRevoke sid reason now)
  have "store_grows s (s\<lparr>st_tokens := update_where (live_token sid) (revoked_token now reason) (st_tokens s)\<rparr>)"
    by (rule tokens_grow [of s "[]", unfolded append_Nil2]) (rule evolve_update, simp add: live_token_def)
  with ScRevoke show ?thesis by (simp add: committed_store_def revoke_campus_broker_tokens_def)
qed

end
