(* ===== verification/StoreCapacity.thy ===== *)
theory StoreCapacity
  imports StoreGrowth
begin

text \<open>
  The live-session limits. A lab holds a place while its current session is not torn down or a reset
  waits to replace it; what admission counts is exactly the places of other labs, every call but an
  admission can only free places, and an admission takes at most one it found free.
\<close>

section \<open>Places\<close>

definition current_session :: "campus_store \<Rightarrow> campus_lab \<Rightarrow> lab_session option" where
  "current_session s l = Option.bind (lb_current l) (load_session (st_journal s))"

definition holds_place :: "campus_store \<Rightarrow> campus_lab \<Rightarrow> bool" where
  "holds_place s l \<longleftrightarrow>
     (case current_session s l of
        Some x \<Rightarrow> \<not> is_terminal (ls_state x) \<or> lb_reset_requested_at l \<noteq> None
      | None \<Rightarrow> False)"

definition places :: "campus_store \<Rightarrow> (campus_lab \<Rightarrow> bool) \<Rightarrow> nat" where
  "places s Q = length (filter (\<lambda>l. holds_place s l \<and> Q l) (st_labs s))"

lemma holds_placeD:
  "holds_place s l \<Longrightarrow> \<exists>c x. lb_current l = Some c \<and> load_session (st_journal s) c = Some x \<and>
     current_session s l = Some x \<and> (\<not> is_terminal (ls_state x) \<or> lb_reset_requested_at l \<noteq> None)"
  by (cases "lb_current l") (auto simp: holds_place_def current_session_def split: option.splits)

text \<open>Every session was made by an admission.\<close>

definition all_admitted :: "campus_store \<Rightarrow> bool" where
  "all_admitted s \<longleftrightarrow> dom (load_session (st_journal s)) \<subseteq> gn_session_id ` set (st_generations s)"

fun admitted_only :: "lab_limits \<Rightarrow> store_call \<Rightarrow> bool" where
  "admitted_only L (ScJournal (CallCreate _)) \<longleftrightarrow> False"
| "admitted_only L (ScAdmit r) \<longleftrightarrow> al_limits r = L"
| "admitted_only L _ \<longleftrightarrow> True"

lemma awaiting_current: "awaiting_reset s tenant l \<longleftrightarrow>
    lb_tenant_id l = tenant \<and> lb_reset_requested_at l \<noteq> None \<and>
    (\<exists>x. current_session s l = Some x \<and> is_terminal (ls_state x))"
  by (auto simp: awaiting_reset_def current_session_def split: option.splits)

lemma current_of_lab:
  assumes "store_inv s" "l \<in> set (st_labs s)" "lb_current l = Some c"
  obtains x where "load_session (st_journal s) c = Some x" "owned x l"
proof -
  note L = store_invD(5) [OF assms(1)]
  from labs_okD(6) [OF L assms(2)] assms(3) obtain g where g: "g \<in> set (st_generations s)"
    "gn_session_id g = c" "gn_lab_id g = lb_lab_id l" by (auto simp: lab_row_ok_def)
  from generation_lab [OF L g(1)] obtain l' x where x: "l' \<in> set (st_labs s)" "lb_lab_id l' = gn_lab_id g"
    "load_session (st_journal s) (gn_session_id g) = Some x" "owned x l'" by metis
  have "l' = l" using lab_unique(1) [OF L x(1) assms(2)] x(2) g(3) by simp
  with x g(2) that show ?thesis by simp
qed

lemma current_unique:
  assumes "store_inv s" "l \<in> set (st_labs s)" "l' \<in> set (st_labs s)" "lb_current l = Some c" "lb_current l' = Some c"
  shows "l = l'"
proof -
  note L = store_invD(5) [OF assms(1)]
  from labs_okD(6) [OF L assms(2)] assms(4) obtain g where g: "g \<in> set (st_generations s)"
    "gn_session_id g = c" "gn_lab_id g = lb_lab_id l" by (auto simp: lab_row_ok_def)
  from labs_okD(6) [OF L assms(3)] assms(5) obtain g' where g': "g' \<in> set (st_generations s)"
    "gn_session_id g' = c" "gn_lab_id g' = lb_lab_id l'" by (auto simp: lab_row_ok_def)
  have "g = g'" using generation_unique(1) [OF L g(1) g'(1)] g(2) g'(2) by simp
  with g(3) g'(3) lab_unique(1) [OF L assms(2, 3)] show ?thesis by simp
qed

lemma session_in: "store_inv s \<Longrightarrow> x \<in> set (jn_sessions (st_journal s)) \<longleftrightarrow>
    load_session (st_journal s) (ls_session_id x) = Some x"
  using lookup_Some [of ls_session_id "jn_sessions (st_journal s)"] journal_invD(1) [OF store_invD(2)]
  by (simp add: load_session_lookup keys_ok_def)

section \<open>What admission counts\<close>

definition occupied_labs :: "campus_store \<Rightarrow> string \<Rightarrow> (campus_lab \<Rightarrow> bool) \<Rightarrow> campus_lab list" where
  "occupied_labs s tenant Q = filter (\<lambda>l. holds_place s l \<and> lb_tenant_id l = tenant \<and> Q l) (st_labs s)"

lemma occupying_set:
  assumes "store_inv s" "all_admitted s" "\<And>x l. owned x l \<Longrightarrow> P x \<longleftrightarrow> Q l"
    "\<And>l x. l \<in> set (st_labs s) \<Longrightarrow> X l \<Longrightarrow> current_session s l = Some x \<Longrightarrow> is_terminal (ls_state x)"
  shows "set (occupying_ids s tenant P (\<lambda>l. Q l \<and> \<not> X l)) =
     (\<lambda>l. the (lb_current l)) ` set (occupied_labs s tenant (\<lambda>l. Q l \<and> \<not> X l))" (is "?A = ?B")
proof
  note L = store_invD(5) [OF assms(1)]
  show "?A \<subseteq> ?B"
  proof
    fix c
    assume "c \<in> ?A"
    then consider (live) x where "x \<in> set (jn_sessions (st_journal s))" "c = ls_session_id x"
        "ls_tenant_id x = tenant" "P x" "\<not> is_terminal (ls_state x)"
      | (waiting) l where "l \<in> set (st_labs s)" "awaiting_reset s tenant l" "Q l" "\<not> X l" "c = the (lb_current l)"
      by (auto simp: occupying_ids_def)
    then show "c \<in> ?B"
    proof cases
      case live
      then have x: "load_session (st_journal s) c = Some x" using session_in [OF assms(1)] by simp
      with assms(2) obtain g where g: "g \<in> set (st_generations s)" "gn_session_id g = c"
        by (auto simp: all_admitted_def)
      from generation_lab [OF L g(1)] obtain l where l: "l \<in> set (st_labs s)" "lb_lab_id l = gn_lab_id g" "owned x l"
        using x g(2) by (metis option.inject)
      have cur: "lb_current l = Some c" using live_is_current [OF L g(1) l(1, 2), of x] g(2) x live(5) by simp
      then have "current_session s l = Some x" using x by (simp add: current_session_def)
      moreover from this have "\<not> X l" using assms(4) [OF l(1)] live(5) by blast
      ultimately have "l \<in> set (occupied_labs s tenant (\<lambda>l. Q l \<and> \<not> X l))"
        using l(1, 3) live(3-5) assms(3) [OF l(3)] by (simp add: occupied_labs_def holds_place_def owned_def)
      then have "the (lb_current l) \<in> ?B" by (rule imageI)
      with cur show ?thesis by simp
    next
      case waiting
      then have "holds_place s l" "lb_tenant_id l = tenant"
        unfolding awaiting_current holds_place_def by (auto split: option.split)
      with waiting have "l \<in> set (occupied_labs s tenant (\<lambda>l. Q l \<and> \<not> X l))"
        by (simp add: occupied_labs_def)
      then have "the (lb_current l) \<in> ?B" by (rule imageI)
      with waiting(5) show ?thesis by simp
    qed
  qed
  show "?B \<subseteq> ?A"
  proof
    fix c
    assume "c \<in> ?B"
    then obtain l where l: "l \<in> set (st_labs s)" "holds_place s l" "lb_tenant_id l = tenant" "Q l" "\<not> X l"
      "c = the (lb_current l)" by (auto simp: occupied_labs_def)
    from holds_placeD [OF l(2)] obtain x where x: "current_session s l = Some x" "lb_current l = Some c"
      using l(6) by (metis option.sel)
    obtain y where "load_session (st_journal s) c = Some y" "owned y l"
      by (rule current_of_lab [OF assms(1) l(1) x(2)])
    with x have o: "owned x l" "load_session (st_journal s) c = Some x" by (simp_all add: current_session_def)
    then have id: "ls_session_id x = c" by (simp add: load_session_lookup) (drule lookup_SomeD, simp)
    show "c \<in> ?A"
    proof (cases "is_terminal (ls_state x)")
      case True
      with x l(2) have "awaiting_reset s tenant l" by (simp add: awaiting_current holds_place_def l(3))
      with l(1, 4, 5) have "l \<in> set (filter (\<lambda>l. awaiting_reset s tenant l \<and> Q l \<and> \<not> X l) (st_labs s))" by simp
      with l(6) show ?thesis by (simp add: occupying_ids_def)
    next
      case False
      have "x \<in> set (jn_sessions (st_journal s))" using session_in [OF assms(1)] o(2) id by simp
      moreover have "ls_tenant_id x = tenant" "P x" using o(1) assms(3) [OF o(1)] l(3, 4) by (simp_all add: owned_def)
      ultimately have "x \<in> set (filter (\<lambda>x. ls_tenant_id x = tenant \<and> P x \<and> \<not> is_terminal (ls_state x))
          (jn_sessions (st_journal s)))" using False by simp
      then have "ls_session_id x \<in> ?A" by (simp add: occupying_ids_def)
      with id show ?thesis by simp
    qed
  qed
qed

lemma occupied_current:
  "l \<in> set (occupied_labs s tenant Q) \<Longrightarrow> l \<in> set (st_labs s) \<and> (\<exists>c. lb_current l = Some c)"
  using holds_placeD unfolding occupied_labs_def by fastforce

lemma distinct_current:
  assumes "store_inv s" "distinct ls" "\<And>l. l \<in> set ls \<Longrightarrow> l \<in> set (st_labs s) \<and> (\<exists>c. lb_current l = Some c)"
  shows "distinct (map (\<lambda>l. the (lb_current l)) ls)"
proof -
  have "inj_on (\<lambda>l. the (lb_current l)) (set ls)"
  proof (rule inj_onI)
    fix l l'
    assume l: "l \<in> set ls" "l' \<in> set ls" "the (lb_current l) = the (lb_current l')"
    obtain c c' where "lb_current l = Some c" "lb_current l' = Some c'" using assms(3) l(1, 2) by blast
    with current_unique [OF assms(1), of l l' c] assms(3) l show "l = l'" by simp
  qed
  with assms(2) show ?thesis by (simp add: distinct_map)
qed

lemma occupying_count:
  assumes "store_inv s" "all_admitted s" "\<And>x l. owned x l \<Longrightarrow> P x \<longleftrightarrow> Q l"
    "\<And>l x. l \<in> set (st_labs s) \<Longrightarrow> X l \<Longrightarrow> current_session s l = Some x \<Longrightarrow> is_terminal (ls_state x)"
  shows "length (occupying_ids s tenant P (\<lambda>l. Q l \<and> \<not> X l)) =
     places s (\<lambda>l. lb_tenant_id l = tenant \<and> Q l \<and> \<not> X l)"
proof -
  let ?Q = "\<lambda>l. Q l \<and> \<not> X l"
  have labs: "distinct (st_labs s)" using labs_okD(1) [OF store_invD(5) [OF assms(1)]] by (simp add: distinct_map)
  have "distinct (map ls_session_id (filter (\<lambda>x. ls_tenant_id x = tenant \<and> P x \<and> \<not> is_terminal (ls_state x))
      (jn_sessions (st_journal s))))"
    using journal_invD(1) [OF store_invD(2) [OF assms(1)]] by (simp add: keys_ok_def distinct_map_filter)
  moreover have "distinct (map (\<lambda>l. the (lb_current l)) (filter (\<lambda>l. awaiting_reset s tenant l \<and> ?Q l) (st_labs s)))"
    by (rule distinct_current [OF assms(1)])
      (use labs in \<open>auto simp: awaiting_current current_session_def split: bind_splits\<close>)
  moreover have False if x: "x \<in> set (jn_sessions (st_journal s))" "\<not> is_terminal (ls_state x)"
    and l: "awaiting_reset s tenant l" "ls_session_id x = the (lb_current l)" for x l
    using l x session_in [OF assms(1), of x] by (auto simp: awaiting_current current_session_def split: bind_splits)
  ultimately have "distinct (occupying_ids s tenant P ?Q)"
    unfolding occupying_ids_def by (simp only: distinct_append) fastforce
  then have "length (occupying_ids s tenant P ?Q) = card (set (occupying_ids s tenant P ?Q))"
    by (simp only: distinct_card)
  also have "\<dots> = card (set (map (\<lambda>l. the (lb_current l)) (occupied_labs s tenant ?Q)))"
    using occupying_set [where P = P and Q = Q and X = X, OF assms] by simp
  also have "distinct (map (\<lambda>l. the (lb_current l)) (occupied_labs s tenant ?Q))"
    by (rule distinct_current [OF assms(1) _ occupied_current]) (use labs in \<open>simp_all add: occupied_labs_def\<close>)
  then have "card (set (map (\<lambda>l. the (lb_current l)) (occupied_labs s tenant ?Q))) = length (occupied_labs s tenant ?Q)"
    by (metis distinct_card length_map)
  finally show ?thesis by (simp add: occupied_labs_def places_def)
qed

section \<open>Limits\<close>

text \<open>The groups of labs a limit counts, with the limit.\<close>

definition limit_group :: "lab_limits \<Rightarrow> (campus_lab \<Rightarrow> bool) \<Rightarrow> int \<Rightarrow> bool" where
  "limit_group L Q n \<longleftrightarrow>
     (\<exists>t. Q = (\<lambda>l. lb_tenant_id l = t) \<and> n = lm_lab_slots L) \<or>
     (\<exists>t i u. Q = (\<lambda>l. lb_tenant_id l = t \<and> lb_issuer l = i \<and> lb_subject l = u) \<and>
        n = lm_max_active_per_identity L) \<or>
     (\<exists>t c. Q = (\<lambda>l. lb_tenant_id l = t \<and> lb_course_id l = c) \<and> n = lm_max_active_per_course L)"

definition capacity_ok :: "lab_limits \<Rightarrow> campus_store \<Rightarrow> bool" where
  "capacity_ok L s \<longleftrightarrow> all_admitted s \<and> (\<forall>Q n. limit_group L Q n \<longrightarrow> int (places s Q) \<le> n)"

lemma limit_groups:
  "limit_group L (\<lambda>l. lb_tenant_id l = t) (lm_lab_slots L)"
  "limit_group L (\<lambda>l. lb_tenant_id l = t \<and> True) (lm_lab_slots L)"
  "limit_group L (\<lambda>l. lb_tenant_id l = t \<and> lb_issuer l = i \<and> lb_subject l = u) (lm_max_active_per_identity L)"
  "limit_group L (\<lambda>l. lb_tenant_id l = t \<and> lb_course_id l = c) (lm_max_active_per_course L)"
  unfolding limit_group_def simp_thms by blast+

lemma limit_group_key:
  "limit_group L Q n \<Longrightarrow> lab_key l' = lab_key l \<Longrightarrow> Q l' = Q l"
  by (auto simp: limit_group_def)

lemma filter_shrink:
  "list_all2 R xs ys \<Longrightarrow> (\<And>x y. x \<in> set xs \<Longrightarrow> R x y \<Longrightarrow> P' y \<Longrightarrow> P x) \<Longrightarrow>
     length (filter P' ys) \<le> length (filter P xs)"
  by (induction rule: list_all2_induct) fastforce+

lemma holds_back:
  assumes "store_inv s" "l \<in> set (st_labs s)" "lb_current l' = lb_current l"
    "rows_step session_update_ok (load_session (st_journal s)) (load_session (st_journal s'))"
    "lb_reset_requested_at l' \<noteq> None \<Longrightarrow> lb_reset_requested_at l \<noteq> None \<or>
       (\<exists>x. current_session s l = Some x \<and> \<not> is_terminal (ls_state x))"
    "holds_place s' l'"
  shows "holds_place s l"
proof -
  from holds_placeD [OF assms(6)] obtain c x' where c: "lb_current l' = Some c"
    "load_session (st_journal s') c = Some x'" "\<not> is_terminal (ls_state x') \<or> lb_reset_requested_at l' \<noteq> None" by blast
  obtain x where x: "load_session (st_journal s) c = Some x"
    by (rule current_of_lab [OF assms(1, 2)]) (use c(1) assms(3) in auto)
  then have cur: "current_session s l = Some x" using c(1) assms(3) by (simp add: current_session_def)
  from assms(4) x c(2) have "x' = x \<or> session_update_ok x x'" unfolding rows_step_def by fastforce
  then have "is_terminal (ls_state x) \<Longrightarrow> x' = x" by (auto simp: session_update_ok_def)
  with c(3) assms(5) cur show ?thesis by (auto simp: holds_place_def)
qed

text \<open>A call that keeps the labs and adds no session only frees places.\<close>

lemma capacity_shrinks:
  assumes "capacity_ok L s" "store_inv s" "st_generations s' = st_generations s"
    "dom (load_session (st_journal s')) = dom (load_session (st_journal s))"
    "rows_step session_update_ok (load_session (st_journal s)) (load_session (st_journal s'))"
    "list_all2 (\<lambda>l l'. lb_current l' = lb_current l \<and> lab_key l' = lab_key l \<and>
       (lb_reset_requested_at l' \<noteq> None \<longrightarrow> lb_reset_requested_at l \<noteq> None \<or>
          (\<exists>x. current_session s l = Some x \<and> \<not> is_terminal (ls_state x)))) (st_labs s) (st_labs s')"
  shows "capacity_ok L s'"
proof -
  have "places s' Q \<le> places s Q" if "limit_group L Q n" for Q n
    unfolding places_def
  proof (rule filter_shrink [OF assms(6)])
    fix l l'
    assume l: "l \<in> set (st_labs s)"
      "lb_current l' = lb_current l \<and> lab_key l' = lab_key l \<and>
       (lb_reset_requested_at l' \<noteq> None \<longrightarrow> lb_reset_requested_at l \<noteq> None \<or>
          (\<exists>x. current_session s l = Some x \<and> \<not> is_terminal (ls_state x)))"
      "holds_place s' l' \<and> Q l'"
    have "holds_place s l"
      by (rule holds_back [OF assms(2) l(1) _ assms(5), of l']) (use l(2, 3) in simp_all)
    moreover have "Q l" using limit_group_key [OF that, of l' l] l(2, 3) by simp
    ultimately show "holds_place s l \<and> Q l" by simp
  qed
  then have "int (places s' Q) \<le> n" if "limit_group L Q n" for Q n
    using assms(1) that by (force simp: capacity_ok_def)
  moreover have "all_admitted s'" using assms(1) by (simp add: capacity_ok_def all_admitted_def assms(3, 4))
  ultimately show ?thesis by (simp add: capacity_ok_def)
qed

lemma labs_same: "list_all2 (\<lambda>l l'. lb_current l' = lb_current l \<and> lab_key l' = lab_key l \<and>
    (lb_reset_requested_at l' \<noteq> None \<longrightarrow> lb_reset_requested_at l \<noteq> None \<or> R l)) labs labs"
  by (simp add: list_all2_same)

lemma capacity_with_journal:
  assumes "capacity_ok L s" "store_inv s" "sound_step (st_journal s) j" "same_frame (st_journal s) j"
  shows "capacity_ok L (with_journal s j)"
  by (rule capacity_shrinks [OF assms(1, 2)])
    (use assms(3, 4) labs_same in \<open>auto simp: sound_step_def journal_grows_def same_frame_def\<close>)

lemma capacity_tokens: "capacity_ok L (s\<lparr>st_tokens := ts\<rparr>) = capacity_ok L s"
  by (simp add: capacity_ok_def all_admitted_def places_def holds_place_def current_session_def)

lemma capacity_launches: "capacity_ok L (s\<lparr>st_launches := qs\<rparr>) = capacity_ok L s"
  by (simp add: capacity_ok_def all_admitted_def places_def holds_place_def current_session_def)

lemma capacity_clear: "capacity_ok L s \<Longrightarrow> store_inv s \<Longrightarrow> capacity_ok L (fst (clear_campus_lab_reset s lab_id sid now))"
  by (rule capacity_shrinks)
    (auto simp: clear_campus_lab_reset_def Let_def update_where_def list_all2_map2 list_all2_same)

lemma capacity_stop:
  assumes "request_campus_lab_stop s sid actor reason reset now = Inr (s', found')" "capacity_ok L s" "store_inv s"
  shows "capacity_ok L s'"
proof (rule request_stop_cases [OF assms(1)])
  fix found j' x labs
  assume f: "load_record s sid = Some found"
    and j: "request_campus_lab_stop_in (st_journal s) sid actor reason now = Inr (j', x)"
    and s': "s' = (with_journal s j')\<lparr>st_labs := labs\<rparr>"
    and labs: "labs = (if is_current found \<and> reset_request found reset x now \<noteq> lb_reset_requested_at (sr_lab found)
       then update_where (\<lambda>l. lb_lab_id l = lb_lab_id (sr_lab found) \<and> lb_generation l = lb_generation (sr_lab found))
         (\<lambda>l. l\<lparr>lb_reset_requested_at := reset_request found reset x now, lb_updated_at := now\<rparr>) (st_labs s)
       else st_labs s)"
  note I = store_invD [OF assms(3)]
  have x: "ls_state x = ls_state (sr_session found)"
    using stop_ok [OF j I(2)] load_recordD(1) [OF f] by (auto split: if_splits)
  let ?R = "\<lambda>l l'. lb_current l' = lb_current l \<and> lab_key l' = lab_key l \<and>
       (lb_reset_requested_at l' \<noteq> None \<longrightarrow> lb_reset_requested_at l \<noteq> None \<or>
          (\<exists>x. current_session s l = Some x \<and> \<not> is_terminal (ls_state x)))"
  have "?R l (if lb_lab_id l = lb_lab_id (sr_lab found) \<and> lb_generation l = lb_generation (sr_lab found)
        then l\<lparr>lb_reset_requested_at := reset_request found reset x now, lb_updated_at := now\<rparr> else l)"
    if cur: "is_current found" and l: "l \<in> set (st_labs s)" for l
  proof (cases "lb_lab_id l = lb_lab_id (sr_lab found) \<and> reset_request found reset x now \<noteq> None")
    case True
    then have "l = sr_lab found" using lab_unique(1) [OF I(5) l load_recordD(2) [OF f]] by simp
    moreover have "\<not> is_terminal (ls_state (sr_session found))"
      using True x by (auto simp: reset_request_def split: if_splits)
    moreover have "ls_session_id (sr_session found) = sid"
      using load_recordD(1) [OF f] by (simp add: load_session_lookup) (drule lookup_SomeD, simp)
    ultimately have "current_session s l = Some (sr_session found) \<and> \<not> is_terminal (ls_state (sr_session found))"
      using cur load_recordD(1) [OF f] by (simp add: is_current_def current_session_def)
    then show ?thesis by auto
  qed auto
  then have "list_all2 ?R (st_labs s) labs"
    by (auto simp: labs update_where_def list_all2_map2 list_all2_same)
  then show "capacity_ok L s'"
    by (intro capacity_shrinks [OF assms(2, 3)])
      (use stop_sound [OF j I(1)] stop_frame [OF j I(2)] s' in
        \<open>simp_all add: sound_step_def journal_grows_def same_frame_def\<close>)
qed

section \<open>A new generation takes one free place\<close>

lemma filter_replace:
  "distinct (map k ls) \<Longrightarrow> (\<And>l. l \<in> set ls \<Longrightarrow> l \<noteq> a \<Longrightarrow> P' l \<Longrightarrow> P l) \<Longrightarrow> a \<in> set ls \<Longrightarrow>
     length (filter P' (map (\<lambda>l. if l = a then b else l) ls)) \<le>
     length (filter (\<lambda>l. P l \<and> k l \<noteq> k a) ls) + (if P' b then 1 else 0)"
proof (induction ls)
  case (Cons y ls)
  show ?case
  proof (cases "y = a")
    case True
    have fresh: "k l \<noteq> k a" if "l \<in> set ls" for l
    proof
      assume "k l = k a"
      with that have "k a \<in> k ` set ls" by (metis imageI)
      with Cons.prems(1) True show False by simp
    qed
    have "map (\<lambda>l. if l = a then b else l) ls = ls" using fresh by (intro map_idI) auto
    moreover have "length (filter P' ls) \<le> length (filter (\<lambda>l. P l \<and> k l \<noteq> k a) ls)"
      using Cons.prems(2) fresh by (intro filter_shrink [of "(=)"]) (auto simp: list_all2_same list.rel_eq)
    ultimately show ?thesis using True by simp
  next
    case False
    with Cons have "a \<in> set ls" by simp
    with Cons.prems(1) have "k y \<noteq> k a" by auto
    with Cons False \<open>a \<in> set ls\<close> show ?thesis by (auto split: if_splits)
  qed
qed simp

lemma advance_map:
  assumes "distinct (map lb_lab_id labs)" "lab \<in> set labs"
  shows "advance_lab r lab labs = map (\<lambda>l. if l = lab then next_generation_of r lab lab else l) labs"
  unfolding advance_lab_def update_where_def
  using assms by (intro map_cong refl) (auto simp: distinct_map inj_on_def)

lemma places_create:
  assumes "store_inv s" "lab \<in> set (st_labs s)" "st_labs s' = advance_lab r lab (st_labs s)"
    "load_session (st_journal s') = (load_session (st_journal s))(sid \<mapsto> x)"
    "load_session (st_journal s) sid = None" "limit_group L Q n"
  shows "places s' Q \<le> places s (\<lambda>l. Q l \<and> lb_lab_id l \<noteq> lb_lab_id lab) + (if Q lab then 1 else 0)"
proof -
  note D = labs_okD(1) [OF store_invD(5) [OF assms(1)]]
  have same: "holds_place s' l \<longleftrightarrow> holds_place s l" if l: "l \<in> set (st_labs s)" for l
  proof (cases "lb_current l")
    case (Some c)
    obtain y where "load_session (st_journal s) c = Some y" by (rule current_of_lab [OF assms(1) l Some])
    with assms(4, 5) Some show ?thesis by (auto simp: holds_place_def current_session_def)
  qed (simp add: holds_place_def current_session_def)
  have "lab_key (next_generation_of r lab lab) = lab_key lab" by simp
  from limit_group_key [OF assms(6) this] have Q: "Q (next_generation_of r lab lab) = Q lab" .
  have "places s' Q = length (filter (\<lambda>l. holds_place s' l \<and> Q l)
      (map (\<lambda>l. if l = lab then next_generation_of r lab lab else l) (st_labs s)))"
    unfolding places_def assms(3) advance_map [OF D assms(2)] by (rule refl)
  also have "\<dots> \<le> length (filter (\<lambda>l. (holds_place s l \<and> Q l) \<and> lb_lab_id l \<noteq> lb_lab_id lab) (st_labs s)) +
      (if holds_place s' (next_generation_of r lab lab) \<and> Q (next_generation_of r lab lab) then 1 else 0)"
    by (rule filter_replace [OF D _ assms(2)]) (use same in auto)
  finally show ?thesis
    by (cases "Q lab"; cases "holds_place s' (next_generation_of r lab lab)") (simp_all add: places_def Q)
qed

lemma admission_counts:
  assumes "store_inv s" "all_admitted s" "lab \<in> set (st_labs s)"
    "lab_key lab = (al_tenant_id r, al_course_id r, al_assignment_id r, al_issuer r, al_subject r)"
    "\<forall>c x. lb_current lab = Some c \<and> load_session (st_journal s) c = Some x \<longrightarrow> is_terminal (ls_state x)"
  shows "tenant_live s r (lb_lab_id lab) =
      int (places s (\<lambda>l. lb_tenant_id l = al_tenant_id r \<and> lb_lab_id l \<noteq> lb_lab_id lab))"
    "course_live s r (lb_lab_id lab) = int (places s (\<lambda>l. lb_tenant_id l = al_tenant_id r \<and>
       lb_course_id l = al_course_id r \<and> lb_lab_id l \<noteq> lb_lab_id lab))"
    "length (identity_live s r (lb_lab_id lab)) = places s (\<lambda>l. lb_tenant_id l = al_tenant_id r \<and>
       lb_issuer l = al_issuer r \<and> lb_subject l = al_subject r \<and> lb_lab_id l \<noteq> lb_lab_id lab)"
proof -
  have X: "is_terminal (ls_state x)"
    if "l \<in> set (st_labs s)" "lb_lab_id l = lb_lab_id lab" "current_session s l = Some x" for l x
    using lab_unique(1) [OF store_invD(5) [OF assms(1)] that(1) assms(3)] that(2, 3) assms(5)
    by (cases "lb_current lab") (auto simp: current_session_def)
  note C = occupying_count [OF assms(1, 2), where X = "\<lambda>l. lb_lab_id l = lb_lab_id lab", OF _ X]
  show "tenant_live s r (lb_lab_id lab) =
      int (places s (\<lambda>l. lb_tenant_id l = al_tenant_id r \<and> lb_lab_id l \<noteq> lb_lab_id lab))"
    using C [where P = "\<lambda>_. True" and Q = "\<lambda>_. True" and tenant = "al_tenant_id r"] by (simp add: tenant_live_def)
  show "course_live s r (lb_lab_id lab) = int (places s (\<lambda>l. lb_tenant_id l = al_tenant_id r \<and>
       lb_course_id l = al_course_id r \<and> lb_lab_id l \<noteq> lb_lab_id lab))"
    using C [where P = "\<lambda>x. ls_course_id x = al_course_id r" and Q = "\<lambda>l. lb_course_id l = al_course_id r"
      and tenant = "al_tenant_id r"]
    by (simp add: course_live_def owned_def)
  show "length (identity_live s r (lb_lab_id lab)) = places s (\<lambda>l. lb_tenant_id l = al_tenant_id r \<and>
       lb_issuer l = al_issuer r \<and> lb_subject l = al_subject r \<and> lb_lab_id l \<noteq> lb_lab_id lab)"
    using C [where P = "\<lambda>x. ls_issuer x = al_issuer r \<and> ls_subject x = al_subject r"
      and Q = "\<lambda>l. lb_issuer l = al_issuer r \<and> lb_subject l = al_subject r" and tenant = "al_tenant_id r"]
    by (simp add: identity_live_def owned_def)
qed

lemma admitted_room:
  assumes "store_inv s" "all_admitted s" "lab \<in> set (st_labs s)"
    "lab_key lab = (al_tenant_id r, al_course_id r, al_assignment_id r, al_issuer r, al_subject r)"
    "\<forall>c x. lb_current lab = Some c \<and> load_session (st_journal s) c = Some x \<longrightarrow> is_terminal (ls_state x)"
    "capacity_rejection s r lab = None" "limit_group (al_limits r) Q n" "Q lab"
  shows "int (places s (\<lambda>l. Q l \<and> lb_lab_id l \<noteq> lb_lab_id lab)) < n"
proof -
  note C = admission_counts [OF assms(1-5)]
  have room: "int (length (identity_live s r (lb_lab_id lab))) < lm_max_active_per_identity (al_limits r)"
    "tenant_live s r (lb_lab_id lab) < lm_lab_slots (al_limits r)"
    "course_live s r (lb_lab_id lab) < lm_max_active_per_course (al_limits r)"
    using assms(6) by (auto simp: capacity_rejection_def Let_def split: if_splits)
  from assms(7) show ?thesis
    unfolding limit_group_def
  proof (elim disjE exE conjE)
    fix t
    assume "Q = (\<lambda>l. lb_tenant_id l = t)" "n = lm_lab_slots (al_limits r)"
    with assms(4, 8) room(2) C(1) show ?thesis by auto
  next
    fix t i u
    assume "Q = (\<lambda>l. lb_tenant_id l = t \<and> lb_issuer l = i \<and> lb_subject l = u)"
      "n = lm_max_active_per_identity (al_limits r)"
    with assms(4, 8) room(1) C(3) show ?thesis by (auto simp: conj_assoc)
  next
    fix t c
    assume "Q = (\<lambda>l. lb_tenant_id l = t \<and> lb_course_id l = c)" "n = lm_max_active_per_course (al_limits r)"
    with assms(4, 8) room(3) C(2) show ?thesis by (auto simp: conj_assoc)
  qed
qed

lemma find_or_create_capacity:
  "find_or_create_lab s r = Inr (s1, lab) \<Longrightarrow> capacity_ok L s \<Longrightarrow> capacity_ok L s1"
  by (erule find_or_create_cases)
    (simp_all add: capacity_ok_def all_admitted_def places_def holds_place_def current_session_def candidate_lab_def)

lemma capacity_admit:
  assumes "admit_campus_lab_launch s r = Inr (s', answer)" "capacity_ok L s" "store_inv s" "al_limits r = L"
  shows "capacity_ok L s'"
proof (cases rule: admit_cases [OF assms(1), case_names replay answered refused created])
  case (answered s1 lab)
  have "capacity_ok L s1" by (rule find_or_create_capacity [OF answered(4) assms(2)])
  with answer_some [OF answered(5)] assms(2) capacity_launches show ?thesis
    by (auto simp: insert_launch_request_def split: option.splits)
next
  case (created s1 lab)
  note F = find_or_create_inv [OF created(4) assms(3) created(3)]
  have none: "Option.bind (al_idempotency_key r) (find_launch s1 r) = None"
    by (simp only: created(2) find_launch_same [OF same_launches [OF created(4), THEN conjunct1]])
  note ended = answer_none [OF created(5)]
  note C = create_inv [OF created(7) F none ended]
  have cap: "capacity_ok L s1" by (rule find_or_create_capacity [OF created(4) assms(2)])
  then have adm: "all_admitted s1" by (simp add: capacity_ok_def)
  have "int (places s' Q) \<le> n" if g: "limit_group L Q n" for Q n
  proof -
    have grow: "places s' Q \<le> places s1 (\<lambda>l. Q l \<and> lb_lab_id l \<noteq> lb_lab_id lab) + (if Q lab then 1 else 0)"
      by (rule places_create [OF F(1, 2), where r = r and L = L and n = n and
          sid = "al_candidate_session_id r" and x = "requested_session (session_request r)"]) (use C g in simp_all)
    show ?thesis
    proof (cases "Q lab")
      case True
      with grow admitted_room [OF F(1) adm F(2, 3) ended created(6), of Q n] g assms(4) show ?thesis by simp
    next
      case False
      have "places s1 (\<lambda>l. Q l \<and> lb_lab_id l \<noteq> lb_lab_id lab) \<le> places s1 Q"
        unfolding places_def by (rule filter_shrink [of "(=)"]) (auto simp: list_all2_same list.rel_eq)
      moreover have "int (places s1 Q) \<le> n" using cap g by (auto simp: capacity_ok_def)
      ultimately show ?thesis using grow False by simp
    qed
  qed
  moreover have "all_admitted s'" using adm C by (auto simp: all_admitted_def new_generation_def)
  ultimately show ?thesis by (simp add: capacity_ok_def)
qed (use assms(2) in simp_all)

lemma capacity_apply:
  assumes "admitted_only L c" "capacity_ok L s" "store_inv s"
  shows "capacity_ok L (store_apply s c)"
proof (cases c)
  case (ScJournal jc)
  obtain j r where j: "journal_answer (st_journal s) jc = (j, r)" by fastforce
  note I = store_invD [OF assms(3)]
  have "\<forall>req. jc \<noteq> CallCreate req" using assms(1) ScJournal by auto
  from answer_frame [OF j I(2, 4) this] capacity_with_journal [OF assms(2, 3) answer_sound [OF j I(1)]]
  show ?thesis using ScJournal j by simp
next
  case (ScAdmit r)
  with capacity_admit assms show ?thesis
    by (cases "admit_campus_lab_launch s r") (auto simp: committed_store_def)
next
  case (ScStop sid actor reason reset now)
  with capacity_stop assms show ?thesis
    by (cases "request_campus_lab_stop s sid actor reason reset now") (auto simp: committed_store_def)
next
  case (ScClearReset lab_id sid now)
  with capacity_clear [OF assms(2, 3)] show ?thesis by simp
next
  case (ScIssue r)
  have "capacity_ok L s'" if "issue_campus_broker_token s r = Inr (s', stored)" for s' stored
    by (rule issue_cases [OF that]) (simp add: capacity_tokens assms(2))
  with ScIssue assms show ?thesis
    by (cases "issue_campus_broker_token s r") (auto simp: committed_store_def)
next
  case (ScRevoke sid reason now)
  with assms capacity_tokens show ?thesis
    by (auto simp: committed_store_def revoke_campus_broker_tokens_def)
qed

definition limits_ok :: "lab_limits \<Rightarrow> bool" where
  "limits_ok L \<longleftrightarrow> 1 \<le> lm_lab_slots L \<and> 1 \<le> lm_max_active_per_identity L \<and> 1 \<le> lm_max_active_per_course L"

lemma capacity_steps:
  "store_steps (admitted_only L) s s' \<Longrightarrow> capacity_ok L s \<Longrightarrow> store_inv s \<Longrightarrow> capacity_ok L s'"
  by (induction rule: store_steps.induct) (auto intro: capacity_apply apply_inv)

lemma capacity_empty: "limits_ok L \<Longrightarrow> capacity_ok L (empty_store identities ids)"
  by (auto simp: capacity_ok_def all_admitted_def places_def empty_store_def empty_journal_def limit_group_def
      limits_ok_def load_session_def)

lemma capacity_reachable: "store_reachable (admitted_only L) s \<Longrightarrow> limits_ok L \<Longrightarrow> capacity_ok L s"
  using capacity_steps capacity_empty empty_store_inv by (auto simp: store_reachable_def)

text \<open>The same groups counted over the rows admission counts.\<close>

lemma occupying_limit:
  assumes "capacity_ok L s" "store_inv s" "limit_group L (\<lambda>l. lb_tenant_id l = tenant \<and> Q l) n"
    "\<And>x l. owned x l \<Longrightarrow> P x \<longleftrightarrow> Q l"
  shows "int (length (occupying_ids s tenant P Q)) \<le> n"
proof -
  have "length (occupying_ids s tenant P (\<lambda>l. Q l \<and> \<not> False)) =
      places s (\<lambda>l. lb_tenant_id l = tenant \<and> Q l \<and> \<not> False)"
    by (rule occupying_count [OF assms(2) _ assms(4)]) (use assms(1) in \<open>simp_all add: capacity_ok_def\<close>)
  with assms(1, 3) show ?thesis by (simp add: capacity_ok_def)
qed

end
