(* ===== verification/StoreProperties.thy ===== *)
theory StoreProperties
  imports StoreCapacity
begin

text \<open>
  What admission and the broker promise over every history of store calls: one live session per lab,
  answers that replay, budgets that follow the lab, and tokens that end with their session.
\<close>

section \<open>Histories\<close>

lemma store_steps_keep:
  "store_steps allowed s s' \<Longrightarrow> store_inv s \<Longrightarrow> P s \<Longrightarrow>
     (\<And>s s'. store_inv s \<Longrightarrow> store_grows s s' \<Longrightarrow> P s \<Longrightarrow> P s') \<Longrightarrow> P s'"
proof (induction rule: store_steps.induct)
  case (store_more c s s')
  have "P (store_apply s c)"
    by (rule store_more.prems(3) [OF store_more.prems(1) apply_grows [OF store_more.prems(1)] store_more.prems(2)])
  then show ?case
    by (rule store_more.IH [OF apply_inv [OF store_more.prems(1)]]) (rule store_more.prems(3))
qed

text \<open>A session that was asked to stop, or ended, stays so.\<close>

definition stopped_session :: "string \<Rightarrow> campus_store \<Rightarrow> bool" where
  "stopped_session sid s \<longleftrightarrow> (\<exists>x. load_session (st_journal s) sid = Some x \<and>
     (is_terminal (ls_state x) \<or> ls_desired x = DesiredTerminated))"

lemma stopped_grows: "store_grows s s' \<Longrightarrow> stopped_session sid s \<Longrightarrow> stopped_session sid s'"
  unfolding store_grows_def rows_step_def stopped_session_def session_update_ok_def by metis

lemma stopped_revokes: "is_terminal (ls_state x) \<or> ls_desired x = DesiredTerminated \<Longrightarrow> revokes_tokens x"
  by (auto simp: revokes_tokens_def is_terminal_def)

lemma stop_stops:
  assumes "request_campus_lab_stop s sid actor reason reset now = Inr (s', found)" "store_inv s"
  shows "stopped_session sid s'"
proof (rule request_stop_cases [OF assms(1)])
  fix j' x labs
  assume j: "request_campus_lab_stop_in (st_journal s) sid actor reason now = Inr (j', x)"
    and s': "s' = (with_journal s j')\<lparr>st_labs := labs\<rparr>"
  from stop_ok [OF j store_invD(2) [OF assms(2)]] show "stopped_session sid s'"
    by (auto simp: s' stopped_session_def split: if_splits)
qed

lemma grant_session:
  assumes "authenticate_campus_broker_token s hash audience now = Inr grant"
  obtains t where "t \<in> set (st_tokens s)" "bk_token_hash t = hash" "bk_revoked_at t = None"
    "bg_workload grant = bk_workload t" "joined_facts s t \<noteq> None"
    "Option.bind (find (\<lambda>t. bk_token_hash t = hash) (st_tokens s)) (joined_facts s) = joined_facts s t"
    "token_evaluate (the (joined_facts s t)) audience now = Inr grant"
proof -
  from assms obtain facts where f: "Option.bind (find (\<lambda>t. bk_token_hash t = hash) (st_tokens s)) (joined_facts s) = Some facts"
    "token_evaluate facts audience now = Inr grant"
    by (auto simp: authenticate_campus_broker_token_def split: option.splits)
  from f(1) obtain t where t: "find (\<lambda>t. bk_token_hash t = hash) (st_tokens s) = Some t" "joined_facts s t = Some facts"
    by (auto split: bind_splits)
  have "tf_workload facts = bk_workload t" "tf_revoked facts \<longleftrightarrow> bk_revoked_at t \<noteq> None"
    using t(2) by (auto simp: joined_facts_def split: bind_splits if_splits)
  moreover have "\<not> tf_revoked facts" "bg_workload grant = tf_workload facts"
    using f(2) by (auto simp: token_evaluate_def split: if_splits)
  ultimately show ?thesis using that [of t] t f find_SomeD [OF t(1)] by simp
qed

section \<open>Tokens\<close>


lemma token_of_hash:
  assumes "store_inv s" "t \<in> set (st_tokens s)"
  shows "find (\<lambda>u. bk_token_hash u = bk_token_hash t) (st_tokens s) = Some t"
  using lookup_Some [of bk_token_hash "st_tokens s" "bk_token_hash t" t] assms(2)
    tokens_okD(3) [OF store_invD(7) [OF assms(1)]]
  by (simp add: lookup_def)


text \<open>However often tokens are issued, a session holds at most two live ones of an audience, and
  every token ends within fifteen minutes of its issue and no later than its session.\<close>
theorem tokens_bounded:
  assumes "store_reachable allowed s"
  shows "length (filter (\<lambda>t. wl_session_id (bk_workload t) = sid \<and> bk_audience t = audience \<and>
       bk_revoked_at t = None) (st_tokens s)) \<le> 2 \<and>
     (\<forall>t. t \<in> set (st_tokens s) \<longrightarrow> bk_issued_at t < bk_expires_at t \<and> bk_expires_at t \<le> bk_issued_at t + 900 \<and>
        (\<exists>x. load_session (st_journal s) (wl_session_id (bk_workload t)) = Some x \<and>
           bk_expires_at t \<le> ls_expires_at x))"
proof -
  note T = tokens_okD [OF store_invD(7) [OF store_reachable_inv [OF assms]]]
  have "(\<lambda>t. wl_session_id (bk_workload t) = sid \<and> bk_audience t = audience \<and> bk_revoked_at t = None) =
      live_of sid audience" by (auto simp: live_of_def live_token_def)
  with T(5) [of sid audience] T(4) show ?thesis by (auto simp: token_row_inv_def)
qed

section \<open>Labs\<close>

lemma session_id_of: "load_session j sid = Some x \<Longrightarrow> ls_session_id x = sid"
  by (simp add: load_session_lookup) (drule lookup_SomeD, simp)

text \<open>C32: One owner never has two live sessions for one assignment: a session that is not torn down is
  the current generation of its lab, and the only live one of that owner and assignment.\<close>
theorem one_live_session_per_lab:
  assumes "store_reachable allowed s"
    and "load_record s sid = Some f" and "\<not> is_terminal (ls_state (sr_session f))"
    and "load_record s sid' = Some f'" and "\<not> is_terminal (ls_state (sr_session f'))"
    and "lab_key (sr_lab f) = lab_key (sr_lab f')"
  shows "sid = sid' \<and> is_current f \<and> sr_generation f = lb_generation (sr_lab f)"
proof -
  note L = store_invD(5) [OF store_reachable_inv [OF assms(1)]]
  have current: "lb_current (sr_lab r) = Some k \<and> sr_generation r = lb_generation (sr_lab r)"
    if r: "load_record s k = Some r" "\<not> is_terminal (ls_state (sr_session r))" for k r
  proof -
    from load_recordD(4) [OF r(1)] obtain g where g: "g \<in> set (st_generations s)" "gn_session_id g = k"
      "gn_lab_id g = lb_lab_id (sr_lab r)" "gn_generation g = sr_generation r" by auto
    from live_is_current [OF L g(1) load_recordD(2) [OF r(1)] g(3) [symmetric], of "sr_session r"]
      load_recordD(1) [OF r(1)] g r(2) show ?thesis by simp
  qed
  have "sr_lab f = sr_lab f'"
    by (rule lab_unique(3) [OF L load_recordD(2) [OF assms(2)] load_recordD(2) [OF assms(4)] assms(6)])
  with current [OF assms(2, 3)] current [OF assms(4, 5)]
    session_id_of [OF load_recordD(1) [OF assms(2)]] show ?thesis by (simp add: is_current_def)
qed

lemma record_grows:
  assumes "store_inv s" "store_inv s'" "store_grows s s'" "load_record s sid = Some f"
  obtains f' where "load_record s' sid = Some f'" "lab_kept (sr_lab f) (sr_lab f')"
    "sr_generation f' = sr_generation f" "sr_reset_from f' = sr_reset_from f"
proof -
  from load_recordD(4) [OF assms(4)] obtain g where g: "g \<in> set (st_generations s)" "gn_session_id g = sid"
    "gn_lab_id g = lb_lab_id (sr_lab f)" "gn_generation g = sr_generation f" "gn_reset_from g = sr_reset_from f"
    by auto
  have "g \<in> set (st_generations s')" using assms(3) g(1) by (auto simp: store_grows_def)
  from load_record_exists [OF assms(2) this] obtain f' where f': "load_record s' sid = Some f'"
    "sr_generation f' = gn_generation g" "lb_lab_id (sr_lab f') = gn_lab_id g" "sr_reset_from f' = gn_reset_from g"
    using g(2) by metis
  obtain l' where l': "l' \<in> set (st_labs s')" "lab_kept (sr_lab f) l'"
    using assms(3) load_recordD(2) [OF assms(4)] by (auto simp: store_grows_def)
  have "l' = sr_lab f'"
    by (rule lab_unique(1) [OF store_invD(5) [OF assms(2)] l'(1) load_recordD(2) [OF f'(1)]])
      (use l'(2) f'(3) g(3) in \<open>simp add: lab_kept_def\<close>)
  with f' l'(2) g that show ?thesis by metis
qed

text \<open>The budget a session is charged to never changes, and follows the lab through every reset: two
  sessions have the same budget exactly when they are of the same owner and assignment.\<close>
theorem budget_follows_lab:
  assumes "store_reachable allowed s" and "load_record s sid = Some f" and "store_steps allowed' s s'"
  shows "\<exists>f'. load_record s' sid = Some f' \<and> lb_budget_id (sr_lab f') = lb_budget_id (sr_lab f) \<and>
     lab_key (sr_lab f') = lab_key (sr_lab f) \<and> sr_generation f' = sr_generation f \<and>
     (\<forall>sid2 f2. load_record s' sid2 = Some f2 \<longrightarrow>
        (lb_budget_id (sr_lab f2) = lb_budget_id (sr_lab f) \<longleftrightarrow> lab_key (sr_lab f2) = lab_key (sr_lab f)))"
proof -
  let ?P = "\<lambda>s'. store_inv s' \<and> (\<exists>f'. load_record s' sid = Some f' \<and> lab_kept (sr_lab f) (sr_lab f') \<and>
     sr_generation f' = sr_generation f)"
  have s: "store_inv s" by (rule store_reachable_inv [OF assms(1)])
  have "?P s'"
    using assms(3) s assms(2)
  proof (induction arbitrary: f rule: store_steps.induct)
    case (store_here s)
    then show ?case by auto
  next
    case (store_more c s s')
    note s1 = apply_inv [OF store_more.prems(1), of c]
    from record_grows [OF store_more.prems(1) s1 apply_grows [OF store_more.prems(1)] store_more.prems(2)]
    obtain f1 where f1: "load_record (store_apply s c) sid = Some f1" "lab_kept (sr_lab f) (sr_lab f1)"
      "sr_generation f1 = sr_generation f" by metis
    from store_more.IH [OF s1 f1(1)] f1(2, 3) show ?case by (fastforce simp: lab_kept_def)
  qed
  then obtain f' where f': "load_record s' sid = Some f'" "lab_kept (sr_lab f) (sr_lab f')"
    "sr_generation f' = sr_generation f" and s': "store_inv s'" by blast
  have "lb_budget_id (sr_lab f2) = lb_budget_id (sr_lab f') \<longleftrightarrow> lab_key (sr_lab f2) = lab_key (sr_lab f')"
    if f2: "load_record s' sid2 = Some f2" for sid2 f2
    using lab_unique(2, 3) [OF store_invD(5) [OF s'] load_recordD(2) [OF f2] load_recordD(2) [OF f'(1)]] by auto
  with f' show ?thesis by (intro exI [of _ f']) (simp add: lab_kept_def)
qed

section \<open>Launch keys\<close>

lemma find_launch_inserted:
  assumes "find_launch s r key = None"
  obtains q where "find_launch (insert_launch_request s r (Some key) sid) r key = Some q" "rq_session_id q = sid"
    "rq_course_id q = al_course_id r" "rq_assignment_id q = al_assignment_id r"
  using assms that by (simp add: find_launch_def insert_launch_request_def find_snoc)

lemma admit_records_key:
  assumes "admit_campus_lab_launch s r = Inr (s1, answer)" "store_inv s" "al_idempotency_key r = Some key"
    "answer = AdmCreated f \<or> answer = AdmActive f \<or> answer = AdmReplayed f"
  obtains q where "find_launch s1 r key = Some q" "rq_session_id q = ls_session_id (sr_session f)"
    "rq_course_id q = al_course_id r" "rq_assignment_id q = al_assignment_id r"
proof (cases rule: admit_cases [OF assms(1), case_names replay answered refused created])
  case (replay previous)
  with assms(3, 4) have p: "find_launch s1 r key = Some previous" "load_record s (rq_session_id previous) = Some f"
    "rq_course_id previous = al_course_id r" "rq_assignment_id previous = al_assignment_id r"
    by (auto simp: replay_launch_def split: if_splits)
  with session_id_of [OF load_recordD(1) [OF p(2)]] that show ?thesis by simp
next
  case (answered s1' lab)
  have none: "find_launch s1' r key = None"
    using answered(2) assms(3) find_launch_same [OF same_launches [OF answered(4), THEN conjunct1], of r] by simp
  from answer_some [OF answered(5)] show ?thesis
  proof (elim disjE exE conjE)
    fix c found
    assume c: "load_record s1' c = Some found" "s1 = insert_launch_request s1' r (al_idempotency_key r) c"
      "answer = AdmActive found"
    with assms(4) have "f = found" by auto
    with session_id_of [OF load_recordD(1) [OF c(1)]] find_launch_inserted [OF none, of c] c(2) assms(3) that
    show ?thesis by metis
  next
    assume "al_reset_from r \<noteq> None"
    with answered(1) assms(3) show ?thesis by (simp add: admission_request_ok_def)
  qed
next
  case (refused s1' lab rejection)
  with assms(4) show ?thesis by simp
next
  case (created s1' lab)
  note F = find_or_create_inv [OF created(4) assms(2) created(3)] and S = same_launches [OF created(4)]
  have none: "Option.bind (al_idempotency_key r) (find_launch s1' r) = None"
    by (simp only: created(2) find_launch_same [OF S [THEN conjunct1]])
  note C = create_inv [OF created(7) F none answer_none [OF created(5)]]
  have f: "load_record s1 (al_candidate_session_id r) = Some f" using C assms(4) by auto
  have "find_launch s1' r key = None" using none assms(3) by simp
  from find_launch_inserted [OF this, of "al_candidate_session_id r"] obtain q where
    q: "find_launch (insert_launch_request s1' r (Some key) (al_candidate_session_id r)) r key = Some q"
    "rq_session_id q = al_candidate_session_id r" "rq_course_id q = al_course_id r"
    "rq_assignment_id q = al_assignment_id r" by metis
  have "st_launches s1 = st_launches (insert_launch_request s1' r (Some key) (al_candidate_session_id r))"
    using C assms(3) by simp
  from find_launch_same [OF this] q session_id_of [OF load_recordD(1) [OF f]] that show ?thesis by simp
qed

text \<open>A launch key answers for good: once a launch with a key was answered with a session, every later
  launch of the same identity under that key writes nothing and is answered with that session, or,
  for another assignment, refused.\<close>
theorem launch_key_replays:
  assumes "store_reachable allowed s"
    and "admit_campus_lab_launch s r = Inr (s1, answer)"
    and "answer = AdmCreated f \<or> answer = AdmActive f \<or> answer = AdmReplayed f"
    and "al_idempotency_key r = Some key"
    and "store_steps allowed' s1 s2"
    and "admission_request_ok r'" and "al_idempotency_key r' = Some key"
    and "(al_tenant_id r', al_issuer r', al_subject r') = (al_tenant_id r, al_issuer r, al_subject r)"
  shows "if al_course_id r' = al_course_id r \<and> al_assignment_id r' = al_assignment_id r
     then \<exists>f'. admit_campus_lab_launch s2 r' = Inr (s2, AdmReplayed f') \<and>
       ls_session_id (sr_session f') = ls_session_id (sr_session f)
     else admit_campus_lab_launch s2 r' = Inr (s2, AdmRejected IdempotencyKeyReused)"
proof -
  have s: "store_inv s" by (rule store_reachable_inv [OF assms(1)])
  have s1: "store_inv s1" by (rule admit_inv [OF assms(2) s])
  have s2: "store_inv s2" by (rule store_steps_inv [OF assms(5) s1])
  from admit_records_key [OF assms(2) s assms(4, 3)] obtain q where q: "find_launch s1 r key = Some q"
    "rq_session_id q = ls_session_id (sr_session f)" "rq_course_id q = al_course_id r"
    "rq_assignment_id q = al_assignment_id r" by metis
  have "find_launch s2 r key = Some q"
  proof (rule store_steps_keep [where P = "\<lambda>s. find_launch s r key = Some q", OF assms(5) s1 q(1)])
    fix u v
    assume "store_grows u v" "find_launch u r key = Some q"
    then show "find_launch v r key = Some q" by (auto simp: store_grows_def find_launch_def find_append)
  qed
  then have q2: "find_launch s2 r' key = Some q" using assms(8) by (simp add: find_launch_def)
  then have "q \<in> set (st_launches s2)" unfolding find_launch_def by (auto dest: find_SomeD)
  with store_invD(6) [OF s2] obtain g where g: "g \<in> set (st_generations s2)" "gn_session_id g = rq_session_id q"
    unfolding launches_ok_def launch_row_ok_def by blast
  from load_record_exists [OF s2 g(1)] obtain f' where f': "load_record s2 (rq_session_id q) = Some f'"
    using g(2) by metis
  have "admit_campus_lab_launch s2 r' = res_bind (replay_launch s2 r' q) (\<lambda>answer. Inr (s2, answer))"
    using assms(6, 7) q2 by (simp add: admit_campus_lab_launch_def)
  with f' q session_id_of [OF load_recordD(1) [OF f']] show ?thesis by (auto simp: replay_launch_def)
qed

section \<open>Limits\<close>

text \<open>C33: While sessions are made by admissions under the limits \<open>L\<close>, no sequence of launches, resets,
  stops, journal calls and replays ever exceeds them: the live sessions of a tenant, identity or
  course, together with the labs whose reset waits for its turn, stay within the limit.\<close>
theorem capacity_never_exceeded:
  assumes "store_reachable (admitted_only L) s" and "limits_ok L"
  shows "int (length (occupying_ids s tenant (\<lambda>_. True) (\<lambda>_. True))) \<le> lm_lab_slots L \<and>
     int (length (occupying_ids s tenant (\<lambda>x. ls_issuer x = issuer \<and> ls_subject x = subject)
       (\<lambda>l. lb_issuer l = issuer \<and> lb_subject l = subject))) \<le> lm_max_active_per_identity L \<and>
     int (length (occupying_ids s tenant (\<lambda>x. ls_course_id x = course) (\<lambda>l. lb_course_id l = course))) \<le>
       lm_max_active_per_course L"
proof -
  have s: "store_inv s" by (rule store_reachable_inv [OF assms(1)])
  have c: "capacity_ok L s" by (rule capacity_reachable [OF assms])
  show ?thesis
    by (intro conjI occupying_limit [OF c s] limit_groups) (auto simp: owned_def)
qed

text \<open>A reset keeps its lab's place: once the session it replaces is torn down, the reset is never
  refused for the identity's or the course's limit, and for the tenant's only when fewer slots are
  usable than the limit allows.\<close>
theorem waiting_reset_keeps_place:
  assumes "store_reachable (admitted_only L) s" and "limits_ok L" and "al_limits r = L"
    and "request_lab s r = Some lab" and "awaiting_reset s (al_tenant_id r) lab"
    and "al_reset_from r = lb_current lab"
    and "admit_campus_lab_launch s r = Inr (s', AdmRejected rejection)"
  shows "rejection = NoSlotsAvailable \<and> usable_slots (st_journal s) (al_tenant_id r) < lm_lab_slots L"
proof -
  have s: "store_inv s" by (rule store_reachable_inv [OF assms(1)])
  have cap: "capacity_ok L s" by (rule capacity_reachable [OF assms(1, 2)])
  have lab: "lab \<in> set (st_labs s)"
    "lab_key lab = (al_tenant_id r, al_course_id r, al_assignment_id r, al_issuer r, al_subject r)"
    using request_labD [OF assms(4)] by simp_all
  from assms(5) obtain x where x: "current_session s lab = Some x" "is_terminal (ls_state x)"
    "lb_reset_requested_at lab \<noteq> None" by (auto simp: awaiting_current)
  then obtain c where c: "lb_current lab = Some c" "load_session (st_journal s) c = Some x"
    by (auto simp: current_session_def split: bind_splits)
  have here: "holds_place s lab" using x by (simp add: holds_place_def)
  have ended: "\<forall>c x. lb_current lab = Some c \<and> load_session (st_journal s) c = Some x \<longrightarrow> is_terminal (ls_state x)"
    using c x(2) by simp
  have less: "int (places s (\<lambda>l. Q l \<and> lb_lab_id l \<noteq> lb_lab_id lab)) < n" if "limit_group L Q n" "Q lab" for Q n
  proof -
    have "places s (\<lambda>l. Q l \<and> lb_lab_id l \<noteq> lb_lab_id lab) < places s Q"
      using length_filter_less [of lab "filter (\<lambda>l. holds_place s l \<and> Q l) (st_labs s)"
          "\<lambda>l. lb_lab_id l \<noteq> lb_lab_id lab"] lab(1) here that(2)
      by (simp add: places_def conj_assoc)
    moreover have "int (places s Q) \<le> n" using cap that(1) by (simp add: capacity_ok_def)
    ultimately show ?thesis by simp
  qed
  have "all_admitted s" using cap by (simp add: capacity_ok_def)
  note C = admission_counts [OF s this lab ended]
  have "tenant_live s r (lb_lab_id lab) < lm_lab_slots L"
    using less [of "\<lambda>l. lb_tenant_id l = al_tenant_id r" "lm_lab_slots L", OF limit_groups(1)] lab(2) C(1) by simp
  moreover have "int (length (identity_live s r (lb_lab_id lab))) < lm_max_active_per_identity L"
    using less [of "\<lambda>l. lb_tenant_id l = al_tenant_id r \<and> lb_issuer l = al_issuer r \<and> lb_subject l = al_subject r"
        "lm_max_active_per_identity L", OF limit_groups(3)] lab(2) C(3)
    by (simp add: conj_assoc)
  moreover have "course_live s r (lb_lab_id lab) < lm_max_active_per_course L"
    using less [of "\<lambda>l. lb_tenant_id l = al_tenant_id r \<and> lb_course_id l = al_course_id r"
        "lm_max_active_per_course L", OF limit_groups(4)] lab(2) C(2)
    by (simp add: conj_assoc)
  ultimately have only_slots: "capacity_rejection s r lab = Some rej \<Longrightarrow> rej = NoSlotsAvailable \<and>
      usable_slots (st_journal s) (al_tenant_id r) < lm_lab_slots L" for rej
    by (auto simp: capacity_rejection_def Let_def assms(3) split: if_splits)
  have same: "s1 = s \<and> lab1 = lab" if "find_or_create_lab s r = Inr (s1, lab1)" for s1 lab1
    by (rule find_or_create_cases [OF that]) (use assms(4) in auto)
  have none: "al_idempotency_key r = None" if "admission_request_ok r"
    using that assms(6) c(1) by (auto simp: admission_request_ok_def)
  have answer: "answer_from_current s s r lab \<noteq> Some (Inr (s', AdmRejected rejection))"
    using c assms(6) x(2) load_recordD(1) [of s c]
    by (auto simp: answer_from_current_def split: option.splits)
  show ?thesis
  proof (cases rule: admit_cases [OF assms(7), case_names replay answered refused created])
    case (replay previous)
    with none show ?thesis by simp
  next
    case (answered s1 lab1)
    with same [OF answered(4)] answer show ?thesis by simp
  next
    case (refused s1 lab1 rej)
    with same [OF refused(1)] only_slots show ?thesis by simp
  next
    case (created s1 lab1)
    show ?thesis by (rule create_cases [OF created(7)]) simp
  qed
qed

end
