(* ===== verification/CapabilityJournal.thy ===== *)
theory CapabilityJournal
  imports CapabilityMemory StoreProperties
begin

text \<open>
  \<open>campus_authority.rs\<close>: the authority source that answers from the lab journal and the admission rows,
  and what the broker then grants. A read of the journal that fails is the draw \<open>je_available\<close>; the
  policies configured now and the clock are the other parts of the environment.
\<close>

section \<open>The source\<close>

record journal_env =
  je_available :: bool
  je_policy :: "string \<Rightarrow> string \<Rightarrow> string \<Rightarrow> effective_policy option"
  je_now :: int

definition journal_owner :: "session_record \<Rightarrow> actor_ref" where
  "journal_owner r = \<lparr>ac_tenant_id = ls_tenant_id (sr_session r), ac_identity_id = sr_owner_identity_id r\<rparr>"

definition journal_status :: "int \<Rightarrow> lab_session \<Rightarrow> authority_status" where
  "journal_status now x =
     (let authorized = ls_desired x = DesiredReady \<and> ls_revoked_at x = None \<and> now < ls_expires_at x in
      case ls_state x of
        LsReady \<Rightarrow> if authorized then AsActive else AsRevoked
      | LsProvisioning \<Rightarrow> if authorized then AsProvisioning else AsRevoked
      | _ \<Rightarrow> AsRevoked)"

definition journal_session ::
    "journal_env \<Rightarrow> campus_store \<Rightarrow> string \<Rightarrow> (string, authority_snapshot option) res" where
  "journal_session env s sid =
     (if \<not> je_available env then Inl ''the campus lab journal is unavailable''
      else Inr (case load_record s sid of
          None \<Rightarrow> None
        | Some r \<Rightarrow>
            (let x = sr_session r in
             case je_policy env (ls_tenant_id x) (ls_course_id x) (lb_assignment_id (sr_lab r)) of
               None \<Rightarrow> None
             | Some policy \<Rightarrow>
                 if ep_effective_policy_hash policy \<noteq> sr_policy_hash r \<or> ep_profile policy \<noteq> ls_profile x then None
                 else Some \<lparr>sn_authority = \<lparr>sa_session_id = ls_session_id x, sa_course_id = ls_course_id x,
                          sa_owner = journal_owner r, sa_policy = policy, sa_expires_at = ls_expires_at x\<rparr>,
                        sn_status = journal_status (je_now env) x\<rparr>)))"

text \<open>No trusted approval flow records Campus approvals yet.\<close>

definition journal_approval :: "string \<Rightarrow> string \<Rightarrow> (string, trusted_approval option) res" where
  "journal_approval sid aid = Inr None"

section \<open>Withdrawn sessions\<close>

definition session_withdrawn :: "campus_store \<Rightarrow> string \<Rightarrow> bool" where
  "session_withdrawn s sid \<longleftrightarrow>
     (\<exists>x. load_session (st_journal s) sid = Some x \<and>
        (ls_desired x = DesiredTerminated \<or>
         ls_state x \<in> {LsStopping, LsCleaning, LsCleanupBlocked, LsTerminated, LsFailed}))"

lemma stopped_withdrawn: "stopped_session sid s \<Longrightarrow> session_withdrawn s sid"
  by (auto simp: stopped_session_def session_withdrawn_def is_terminal_def)

lemma withdrawn_update:
  "session_update_ok x y \<Longrightarrow>
     ls_desired x = DesiredTerminated \<or> ls_state x \<in> {LsStopping, LsCleaning, LsCleanupBlocked, LsTerminated, LsFailed} \<Longrightarrow>
     ls_desired y = DesiredTerminated \<or> ls_state y \<in> {LsStopping, LsCleaning, LsCleanupBlocked, LsTerminated, LsFailed}"
  by (cases "ls_state x") (auto simp: session_update_ok_def split: if_splits)

lemma withdrawn_grows: "store_grows s s' \<Longrightarrow> session_withdrawn s sid \<Longrightarrow> session_withdrawn s' sid"
  unfolding store_grows_def rows_step_def session_withdrawn_def using withdrawn_update by metis

lemma journal_snapshot:
  assumes "journal_session env s sid = Inr (Some snapshot)"
  obtains r where "load_record s sid = Some r" "ep_profile (sa_policy (sn_authority snapshot)) = ls_profile (sr_session r)"
    "je_policy env (ls_tenant_id (sr_session r)) (ls_course_id (sr_session r)) (lb_assignment_id (sr_lab r)) =
       Some (sa_policy (sn_authority snapshot))"
    "ep_effective_policy_hash (sa_policy (sn_authority snapshot)) = sr_policy_hash r"
    "sa_session_id (sn_authority snapshot) = ls_session_id (sr_session r)" "sa_owner (sn_authority snapshot) = journal_owner r"
    "sa_expires_at (sn_authority snapshot) = ls_expires_at (sr_session r)"
    "sn_status snapshot = journal_status (je_now env) (sr_session r)"
  using assms by (auto simp: journal_session_def Let_def split: if_splits option.splits)

lemma journal_active:
  "journal_status now x = AsActive \<longleftrightarrow>
     ls_state x = LsReady \<and> ls_desired x = DesiredReady \<and> ls_revoked_at x = None \<and> now < ls_expires_at x"
  by (cases "ls_state x") (auto simp: journal_status_def)

lemma record_named: "load_record s sid = Some r \<Longrightarrow> ls_session_id (sr_session r) = sid"
  using load_recordD(1) [of s sid r] by (simp add: load_session_lookup) (drule lookup_SomeD, simp)

interpretation journal_authority:
  revocable_authority journal_session store_inv session_withdrawn "\<lambda>sid. store_steps any_call"
proof
  fix s env sid snapshot
  assume j: "journal_session env s sid = Inr (Some snapshot)"
  show "sa_session_id (sn_authority snapshot) = sid"
  proof (rule journal_snapshot [OF j])
    fix r
    assume "load_record s sid = Some r" "sa_session_id (sn_authority snapshot) = ls_session_id (sr_session r)"
    then show ?thesis by (simp add: record_named)
  qed
next
  fix s env sid snapshot
  assume w: "session_withdrawn s sid" and j: "journal_session env s sid = Inr (Some snapshot)"
  show "sn_status snapshot \<noteq> AsActive"
  proof (rule journal_snapshot [OF j])
    fix r
    assume r: "load_record s sid = Some r" "sn_status snapshot = journal_status (je_now env) (sr_session r)"
    with w load_recordD(1) [OF r(1)] have "\<not> (ls_state (sr_session r) = LsReady \<and> ls_desired (sr_session r) = DesiredReady)"
      by (auto simp: session_withdrawn_def)
    then show ?thesis by (simp only: r(2) journal_active) blast
  qed
next
  fix s sid s'
  assume "store_inv s" "session_withdrawn s sid" "store_steps any_call s s'"
  then show "session_withdrawn s' sid"
    using store_steps_keep [of any_call s s' "\<lambda>s. session_withdrawn s sid"] withdrawn_grows by blast
qed

section \<open>Properties\<close>

text \<open>C16: Once a session was asked to stop or has begun its teardown, the broker denies every call that
  claims it and no effect runs for one, in every later store, whatever the clock, the configured policies
  and the caller.\<close>
theorem withdrawn_session_denied:
  assumes "store_reachable allowed s" "session_withdrawn s sid" "store_steps allowed' s s'"
    "bw_session w = journal_session env s'" "sc_session_id (cr_claims request) = sid"
  shows "\<not> decision_is_allow (authorize (hs_digest h) w request) \<and> cl_run (broker_execute h sink w request k) = None"
proof -
  have "\<not> decision_is_allow (authorize (hs_digest h) w request)"
    using journal_authority.withdrawn_denied [OF store_reachable_inv [OF assms(1)] _ _ assms(4)]
      assms(2, 3, 5) store_steps_mono by blast
  then show ?thesis by (simp add: not_allowed_no_run)
qed

text \<open>An effect that runs on the authority of the journal runs in the claimed session, which the journal
  then has as ready, wanted ready, not revoked and not expired at both readings of the clock, admitted
  under the very policy configured now and claimed by the caller, who is the session's runtime or the
  owner the journal records; and when it is a command, it is one the classifier calls read-only.\<close>
theorem journal_grants_ready_session:
  assumes "store_reachable allowed s" "bw_session w = journal_session env s" "bw_approval w = journal_approval"
    "cl_run (broker_execute h sink w request k) = Some run"
  shows "\<exists>r. load_record s (sc_session_id (cr_claims request)) = Some r \<and>
     ae_session_id (er_effect run) = ls_session_id (sr_session r) \<and>
     ls_session_id (sr_session r) = sc_session_id (cr_claims request) \<and>
     ls_state (sr_session r) = LsReady \<and> ls_desired (sr_session r) = DesiredReady \<and>
     ls_revoked_at (sr_session r) = None \<and> max (je_now env) (bw_now w) < ls_expires_at (sr_session r) \<and>
     sr_policy_hash r = sc_effective_policy_hash (cr_claims request) \<and>
     cr_caller request \<in> {SessionRuntime (sc_session_id (cr_claims request)), Principal (journal_owner r)} \<and>
     (case er_action run of
        RunWorkspaceCommand i rs x args cwd t \<Rightarrow> classify_command (command_line x args) = CcSafeReadOnly
      | _ \<Rightarrow> True)"
proof (rule run_parts [OF assms(4)])
  fix authority resource u k1
  assume c: "authorized_call (hs_digest h) w request authority resource"
    and run: "run = \<lparr>er_effect = authorized_of authority resource, er_action = cr_action request, er_sink = k1\<rparr>"
  let ?sid = "sc_session_id (cr_claims request)"
  from c have st: "session_stands w (cr_claims request) authority" "caller_owns authority (cr_caller request)"
    by (simp_all add: authorized_call_def)
  then have j: "journal_session env s ?sid = Inr (Some \<lparr>sn_authority = authority, sn_status = AsActive\<rparr>)"
    by (simp add: session_stands_def assms(2))
  from journal_authority.claims_name_session [OF store_reachable_inv [OF assms(1)] assms(2) st(1)]
  have sid: "sa_session_id authority = ?sid" .
  from c have "campus_permits (sa_policy authority) (cr_action request) None"
    by (auto simp: authorized_call_def assms(3) journal_approval_def approval_serves_def)
  then have command: "case er_action run of RunWorkspaceCommand i rs x args cwd t \<Rightarrow> classify_command (command_line x args) = CcSafeReadOnly
      | _ \<Rightarrow> True"
    by (auto simp: run campus_permits_def command_permitted_def approved_for_def split: agent_action.splits command_class.splits)
  show ?thesis
  proof (rule journal_snapshot [OF j])
    fix r
    assume r: "load_record s ?sid = Some r"
      "ep_effective_policy_hash (sa_policy (sn_authority \<lparr>sn_authority = authority, sn_status = AsActive\<rparr>)) = sr_policy_hash r"
      "sa_session_id (sn_authority \<lparr>sn_authority = authority, sn_status = AsActive\<rparr>) = ls_session_id (sr_session r)"
      "sa_owner (sn_authority \<lparr>sn_authority = authority, sn_status = AsActive\<rparr>) = journal_owner r"
      "sa_expires_at (sn_authority \<lparr>sn_authority = authority, sn_status = AsActive\<rparr>) = ls_expires_at (sr_session r)"
      "sn_status \<lparr>sn_authority = authority, sn_status = AsActive\<rparr> = journal_status (je_now env) (sr_session r)"
    then have "journal_status (je_now env) (sr_session r) = AsActive" by simp
    then have ready: "ls_state (sr_session r) = LsReady" "ls_desired (sr_session r) = DesiredReady"
      "ls_revoked_at (sr_session r) = None" "je_now env < ls_expires_at (sr_session r)"
      by (simp_all add: journal_active)
    have "bw_now w < ls_expires_at (sr_session r)" "sc_effective_policy_hash (cr_claims request) = sr_policy_hash r"
      using st(1) r by (simp_all add: session_stands_def)
    moreover have "cr_caller request \<in> {SessionRuntime ?sid, Principal (journal_owner r)}"
      using st(2) r sid by (auto simp: caller_owns_def split: campus_caller.splits)
    moreover have "ae_session_id (er_effect run) = ls_session_id (sr_session r)" "ls_session_id (sr_session r) = ?sid"
      using r sid by (simp_all add: run authorized_of_def)
    ultimately show ?thesis using r(1) ready command by (intro exI [of _ r]) simp
  qed
qed

end
