(* ===== verification/RuntimeResume.thy ===== *)
theory RuntimeResume
  imports RuntimeProperties
begin

text \<open>
  A paused run keeps only its transcript. What a resumed run reads back from it is the state the paused
  run had, as long as the transcript was not compacted on the way; a write whose result was compacted is
  not read back.
\<close>

section \<open>Tool messages\<close>

lemma fold_max_le: "fold max xs (a::nat) \<le> n \<longleftrightarrow> a \<le> n \<and> (\<forall>x\<in>set xs. x \<le> n)"
  by (induction xs arbitrary: a) auto

lemma object_depth_le: "json_depth (JObject es) \<le> Suc n \<longleftrightarrow> (\<forall>e\<in>set es. json_depth (snd e) \<le> n)"
  by (simp add: fold_max_le)

declare json_depth.simps(2) [simp del]

definition told :: "json agent_action option \<Rightarrow> json \<Rightarrow> json" where
  "told action content =
     (case action of
        Some a \<Rightarrow> json_insert ''action'' (JString (kind_name a)) (json_remove ''artifact_content'' content)
      | None \<Rightarrow> json_remove ''artifact_content'' content)"

lemma tool_message_told:
  "tool_message cd result i action =
     \<lparr>mm_role = MrTool, mm_content = cd_result cd (result\<lparr>tr_content := told action (tr_content result)\<rparr>),
      mm_tool_call_id = i, mm_tool_calls = [], mm_reasoning = None\<rparr>"
  by (simp add: tool_message_def told_def Let_def split: option.split)

lemma told_get [simp]:
  "is_object c \<Longrightarrow> json_get (told (Some a) c) k =
     (if k = ''action'' then Some (JString (kind_name a)) else if k = ''artifact_content'' then None else json_get c k)"
  "json_get (told None c) k = (if k = ''artifact_content'' then None else json_get c k)"
  by (simp_all add: told_def)

lemma insert_entry_values: "e \<in> set (insert_entry k v es) \<Longrightarrow> snd e = v \<or> e \<in> set es"
  by (induction k v es rule: insert_entry.induct) (auto split: if_splits)

lemma remove_plain: "json_ok c \<Longrightarrow> json_depth c \<le> Suc n \<Longrightarrow> json_ok (json_remove k c) \<and> json_depth (json_remove k c) \<le> Suc n"
  by (cases c) (auto simp: json_remove_def object_depth_le list_all_iff sorted_wrt_map intro: sorted_wrt_filter)

lemma insert_plain:
  assumes "json_ok c" "json_depth c \<le> Suc n" "json_ok v" "json_depth v \<le> n"
  shows "json_ok (json_insert k v c) \<and> json_depth (json_insert k v c) \<le> Suc n"
  using assms insert_entry_sorted
  by (cases c) (auto simp: json_insert_def object_depth_le list_all_iff dest!: insert_entry_values)

lemma told_plain: "plain_result r \<Longrightarrow> plain_result (r\<lparr>tr_content := told action (tr_content r)\<rparr>)"
  using remove_plain [of "tr_content r" 99 "''artifact_content''"]
    insert_plain [of "json_remove ''artifact_content'' (tr_content r)" 99 "JString s" "''action''" for s]
  by (auto simp: plain_result_def told_def split: option.split)

section \<open>Reading a message back\<close>

lemma resume_snoc: "resume_runtime_state cd (ms @ [m]) = resume_step cd m (resume_runtime_state cd ms)"
  by (simp add: resume_runtime_state_def)

lemma resume_step_other [simp]: "mm_role m \<noteq> MrTool \<Longrightarrow> resume_step cd m st = st"
  by (cases st) (simp add: resume_step_def)

lemma resume_step_told:
  assumes "codec_ok cd" "plain_result r"
  shows "resume_step cd (tool_message cd r i action) (rv, cs) =
    (resume_recovery (told action (tr_content r)) rv,
     resume_completion (told action (tr_content r)) (Some (status_str (tr_status r))) cs)"
proof -
  let ?r = "r\<lparr>tr_content := told action (tr_content r)\<rparr>"
  have "cd_parse cd (cd_result cd ?r) = Some (tool_result_value ?r)"
    using assms told_plain [OF assms(2)] by (simp add: codec_ok_def)
  then show ?thesis by (simp add: resume_step_def tool_message_told tool_result_value_def get_str_def json_str_def)
qed

text \<open>Before the first write nothing counts as passed, and rejected finishes are not read back.\<close>

definition unread :: "completion_state \<Rightarrow> bool" where
  "unread s \<longleftrightarrow> (\<not> cs_mutation_seen s \<longrightarrow> cs_acceptance_passed s = []) \<and> cs_rejected_finishes s = 0"

lemma resume_completion_unread: "unread s \<Longrightarrow> unread (resume_completion content status s)"
  by (auto simp: unread_def resume_completion_def Let_def after_mutation_def split: option.split)

lemma resume_unread: "unread (snd (resume_runtime_state cd ms))"
proof (induction ms rule: rev_induct)
  case Nil
  show ?case by (simp add: resume_runtime_state_def completion_start_def unread_def)
next
  case (snoc m ms)
  then show ?case
    by (cases "resume_runtime_state cd ms")
      (auto simp: resume_snoc resume_step_def resume_completion_unread split: option.split prod.split)
qed

text \<open>What a tool reports of itself: an object that serialises, not a recovery record, and with its own
  name when it is an acceptance command.\<close>

definition reportable :: "json agent_action \<Rightarrow> tool_result \<Rightarrow> bool" where
  "reportable a r \<longleftrightarrow>
     plain_result r \<and> is_object (tr_content r) \<and>
     Option.bind (json_get (tr_content r) ''recoverable'') json_bool \<noteq> Some True \<and>
     (case a of RunAcceptanceCommand i reason n \<Rightarrow> get_str (tr_content r) ''name'' = Some n | _ \<Rightarrow> True)"

lemma kind_names:
  "kind_name a \<in> {''write_file'', ''patch_file'', ''apply_patch''} \<longleftrightarrow> is_mutation a"
  "kind_name a = ''run_acceptance_command'' \<longleftrightarrow> (\<exists>i r n. a = RunAcceptanceCommand i r n)"
  "kind_name a = ''git_status'' \<longleftrightarrow> (\<exists>i r. a = GitStatus i r)"
  "kind_name a = ''git_diff'' \<longleftrightarrow> (\<exists>i r p. a = GitDiff i r p)"
  by (cases a; simp add: is_mutation_def)+

lemma update_acceptance:
  "update_completion_state s (RunAcceptanceCommand i reason n) r =
     (if cs_mutation_seen s \<and> tr_status r = TrsOk
      then s\<lparr>cs_acceptance_passed := List.insert n (cs_acceptance_passed s)\<rparr>
      else s\<lparr>cs_acceptance_passed := removeAll n (cs_acceptance_passed s)\<rparr>)"
  by (simp add: update_completion_state_def)

lemma update_other:
  assumes "\<nexists>i reason n. a = RunAcceptanceCommand i reason n"
  shows "update_completion_state s a r =
    (if tr_status r \<noteq> TrsOk then s
     else if is_mutation a then after_mutation (tr_content r) s
     else if (\<exists>i reason. a = GitStatus i reason) \<and> cs_mutation_seen s then s\<lparr>cs_git_status_after_mutation := True\<rparr>
     else if (\<exists>i reason p. a = GitDiff i reason p) \<and> cs_mutation_seen s then s\<lparr>cs_git_diff_after_mutation := True\<rparr>
     else s)"
  using assms by (cases a) (simp_all add: update_completion_state_def is_mutation_def)

lemma status_ok [simp]: "status_str st = ''ok'' \<longleftrightarrow> st = TrsOk"
  by (cases st) simp_all

lemma told_update:
  assumes "reportable a r" "unread s"
  shows "resume_completion (told (Some a) (tr_content r)) (Some (status_str (tr_status r))) s = update_completion_state s a r"
proof -
  let ?c = "told (Some a) (tr_content r)"
  have o: "is_object (tr_content r)" using assms(1) by (simp add: reportable_def)
  have g: "get_str ?c ''action'' = Some (kind_name a)" "get_str ?c ''name'' = get_str (tr_content r) ''name''"
    "get_str ?c ''diff'' = get_str (tr_content r) ''diff''"
    using o by (simp_all add: get_str_def json_str_def)
  have am: "after_mutation ?c s = after_mutation (tr_content r) s" by (simp add: after_mutation_def g)
  show ?thesis
  proof (cases "\<exists>i reason n. a = RunAcceptanceCommand i reason n")
    case True
    then obtain i reason n where a: "a = RunAcceptanceCommand i reason n" by blast
    with assms(1) have n: "get_str (tr_content r) ''name'' = Some n" by (simp add: reportable_def)
    have m: "cs_acceptance_passed s = []" if "\<not> cs_mutation_seen s" using assms(2) that by (simp add: unread_def)
    have act: "get_str ?c ''action'' = Some ''run_acceptance_command''" using g(1) a by simp
    have same: "s\<lparr>cs_acceptance_passed := []\<rparr> = s" if "\<not> cs_mutation_seen s" using m [OF that] by simp
    have r: "resume_completion ?c (Some (status_str (tr_status r))) s =
      (if tr_status r \<noteq> TrsOk then s\<lparr>cs_acceptance_passed := removeAll n (cs_acceptance_passed s)\<rparr>
       else if cs_mutation_seen s then s\<lparr>cs_acceptance_passed := List.insert n (cs_acceptance_passed s)\<rparr> else s)"
      unfolding resume_completion_def g(2) act n Let_def by simp
    show ?thesis unfolding r unfolding a update_acceptance using m same by simp
  next
    case False
    then have k: "kind_name a \<noteq> ''run_acceptance_command''" by (simp add: kind_names)
    have r: "resume_completion ?c (Some (status_str (tr_status r))) s =
      (if tr_status r \<noteq> TrsOk then s
       else if kind_name a \<in> {''write_file'', ''patch_file'', ''apply_patch''} then after_mutation (tr_content r) s
       else if kind_name a = ''git_status'' \<and> cs_mutation_seen s then s\<lparr>cs_git_status_after_mutation := True\<rparr>
       else if kind_name a = ''git_diff'' \<and> cs_mutation_seen s then s\<lparr>cs_git_diff_after_mutation := True\<rparr>
       else s)"
      using k by (simp add: resume_completion_def g(1) Let_def am split: option.split)
    show ?thesis unfolding r update_other [OF False] kind_names by (simp only: kind_names)
  qed
qed

lemma told_recovery: "reportable a r \<Longrightarrow> resume_recovery (told (Some a) (tr_content r)) s = s"
  by (auto simp: resume_recovery_def reportable_def)

section \<open>The state and its transcript\<close>

text \<open>What the loop keeps besides the transcript is what a resumed run reads back from it.\<close>

definition synced :: "codec \<Rightarrow> loop_state \<Rightarrow> bool" where
  "synced cd s \<longleftrightarrow>
     resume_runtime_state cd (lp_messages s) = (lp_recovery s, evidence s) \<and>
     (lp_corrections s < 2 ^ 32 - 1 \<longrightarrow> protocol_correction_count (lp_messages s) = lp_corrections s)"

lemma evidence_same [simp]:
  "evidence (emit c k p s) = evidence s" "evidence (log_effect x s) = evidence s" "evidence (push m s) = evidence s"
  "evidence (s\<lparr>lp_messages := ms\<rparr>) = evidence s" "evidence (s\<lparr>lp_recovery := rv\<rparr>) = evidence s"
  "evidence (s\<lparr>lp_corrections := n\<rparr>) = evidence s" "evidence (s\<lparr>lp_tokens_used := n\<rparr>) = evidence s"
  "evidence (s\<lparr>lp_completion := reject_finish (lp_completion s)\<rparr>) = evidence s"
  "evidence (s\<lparr>lp_completion := update_completion_state (lp_completion s) a r\<rparr>) = update_completion_state (evidence s) a r"
  by (simp_all add: evidence_def reject_finish_def update_rejected)

lemma synced_same [simp]:
  "synced cd (emit c k p s) = synced cd s" "synced cd (log_effect x s) = synced cd s"
  "synced cd (s\<lparr>lp_tokens_used := n\<rparr>) = synced cd s"
  "synced cd (s\<lparr>lp_completion := reject_finish (lp_completion s)\<rparr>) = synced cd s"
  by (simp_all add: synced_def)

lemma count_other:
  assumes "\<not> (mm_role m = MrSystem \<and> starts_with (mm_content m) PROTOCOL_CORRECTION_MARKER)"
  shows "protocol_correction_count (ms @ [m]) = protocol_correction_count ms"
  using assms unfolding protocol_correction_count_def filter_append by (simp only: filter.simps if_False append_Nil2)

lemma synced_push_assistant [simp]: "synced cd (push (assistant_message content calls reasoning) s) = synced cd s"
  by (simp add: synced_def resume_snoc assistant_message_def count_other)

lemma synced_record_response [simp]: "synced cd (record_response c turn t s) = synced cd s"
  by (simp add: record_response_def Let_def push_assistant_def split: option.split)

lemma correction_starts: "starts_with (mm_content (protocol_correction_message category message n)) PROTOCOL_CORRECTION_MARKER"
  by (simp add: protocol_correction_message_def system_message_def starts_with_def)

lemma synced_correct [simp]:
  assumes "synced cd s" "lp_corrections s < 2"
  shows "synced cd (correct c turn category extra message s)"
proof -
  let ?m = "protocol_correction_message category message (lp_corrections s + 1)"
  have r: "mm_role ?m = MrSystem" by (simp add: protocol_correction_message_def system_message_def)
  have "protocol_correction_count (lp_messages s @ [?m]) = lp_corrections s + 1"
    using assms r correction_starts [of category message "lp_corrections s + 1"]
    by (simp add: synced_def protocol_correction_count_def min_def split: if_splits)
  then show ?thesis using assms r by (simp add: synced_def correct_def Let_def resume_snoc)
qed

text \<open>A refusal the loop itself writes changes nothing that is read back.\<close>

lemma synced_refusal:
  assumes "codec_ok cd" "plain_result (tool_result_error summary content)" "is_object content"
    "json_get content ''recoverable'' \<noteq> Some (JBool True)" "json_get content ''name'' = None"
  shows "synced cd (finish_tool cd c (tool_result_error summary content) i action s) = synced cd s"
proof -
  let ?r = "tool_result_error summary content"
  have g: "json_get (told action content) ''recoverable'' = json_get content ''recoverable''"
    "json_get (told action content) ''name'' = None"
    using assms(3, 5) by (cases action; simp)+
  have b: "Option.bind (json_get (told action content) ''recoverable'') json_bool \<noteq> Some True"
    using assms(4) unfolding g by (cases "json_get content ''recoverable''") (auto simp: json_bool_def split: json.splits)
  have n: "get_str (told action content) ''name'' = None" by (simp add: get_str_def g)
  have "resume_step cd (tool_message cd ?r i action) (rv, cs) = (rv, cs)" for rv cs
    using b n unfolding resume_step_told [OF assms(1, 2)]
    by (simp add: tool_result_error_def resume_recovery_def resume_completion_def Let_def)
  then have "resume_step cd (tool_message cd ?r i action) st = st" for st by (cases st) simp
  then show ?thesis
    by (simp add: synced_def finish_tool_def resume_snoc count_other tool_message_told)
qed

lemma plain_error [simp]:
  "plain_result (tool_result_error summary (JObject es)) \<longleftrightarrow>
     sorted_wrt (<) (map fst es) \<and> (\<forall>e\<in>set es. json_ok (snd e) \<and> json_depth (snd e) \<le> 99)"
  using object_depth_le [of es 99] by (auto simp: plain_result_def tool_result_error_def list_all_iff)

section \<open>A turn keeps the transcript readable\<close>

definition pause_messages :: "run_outcome \<Rightarrow> model_message list option" where
  "pause_messages outcome =
     (case ro_approval outcome of
        Some p \<Rightarrow> Some (pa_resume_messages p)
      | None \<Rightarrow> map_option pb_resume_messages (ro_budget_pause outcome))"

definition keeps :: "codec \<Rightarrow> turn_step \<Rightarrow> bool" where
  "keeps cd x \<longleftrightarrow>
     (case x of
        Next s \<Rightarrow> synced cd s
      | Done s outcome \<Rightarrow> (\<forall>ms. pause_messages outcome = Some ms \<longrightarrow> synced cd s \<and> ms = lp_messages s))"

lemma keeps_next [simp]: "keeps cd (Next s) = synced cd s"
  by (simp add: keeps_def)

lemma keeps_done: "ro_approval outcome = None \<Longrightarrow> ro_budget_pause outcome = None \<Longrightarrow> keeps cd (Done s outcome)"
  by (simp add: keeps_def pause_messages_def)

lemma keeps_failed [simp]: "keeps cd (stop_failed c d turn error s)"
  unfolding stop_failed_def by (rule keeps_done) (simp_all add: failed_outcome_def)

lemma keeps_exhausted [simp]: "keeps cd (exhausted c d turn error details s)"
  unfolding exhausted_def by (rule keeps_failed)

lemma keeps_correct_or_stop [simp]: "synced cd s \<Longrightarrow> keeps cd (correct_or_stop c d turn category extra message details s)"
  by (simp add: correct_or_stop_def)

lemma finish_tool_corrections [simp]: "lp_corrections (finish_tool cd c r i a s) = lp_corrections s"
  by (simp add: finish_tool_def)

lemma keeps_reserve: "codec_ok cd \<Longrightarrow> synced cd s \<Longrightarrow> keeps cd (reserve_refused cd c pl a s)"
  by (simp add: reserve_refused_def synced_refusal)

lemma keeps_builder: "codec_ok cd \<Longrightarrow> synced cd s \<Longrightarrow> keeps cd (builder_refused cd c d turn a s)"
  by (simp add: builder_refused_def Let_def synced_refusal)

lemma keeps_finish_refused: "codec_ok cd \<Longrightarrow> synced cd s \<Longrightarrow> keeps cd (finish_refused cd c d turn i s)"
  by (simp add: finish_refused_def synced_refusal)

lemma keeps_finish: "codec_ok cd \<Longrightarrow> synced cd s \<Longrightarrow> keeps cd (finish_action cd c d turn i summary success s)"
  by (auto simp: finish_action_def Let_def synced_refusal finished_outcome_def intro!: keeps_done split: bool.split option.split)

lemma keeps_approval: "synced cd s \<Longrightarrow> keeps cd (request_approval c d turn kind summary s)"
  by (simp add: request_approval_def keeps_def pause_messages_def approval_outcome_def)

lemma keeps_respond: "synced cd s \<Longrightarrow> keeps cd (respond_action c d turn message s)"
  by (simp add: respond_action_def)

lemma keeps_provider: "synced cd s \<Longrightarrow> keeps cd (provider_failed c d turn e s)"
  by (auto simp: provider_failed_def split: model_provider_error.split bool.split)

lemma keeps_unexposed: "codec_ok cd \<Longrightarrow> synced cd s \<Longrightarrow> keeps cd (unexposed_action cd c d turn t e s)"
  by (simp add: unexposed_action_def Let_def synced_refusal)

text \<open>The result of a tool, and the record of a failure that may be retried.\<close>

lemma synced_result:
  assumes "codec_ok cd" "synced cd s" "reportable a r"
  shows "synced cd (push (tool_message cd r i (Some a)) (s\<lparr>lp_completion := update_completion_state (lp_completion s) a r\<rparr>))"
proof -
  have u: "unread (evidence s)"
    using resume_unread [of cd "lp_messages s"] assms(2) by (simp add: synced_def)
  have "resume_step cd (tool_message cd r i (Some a)) (lp_recovery s, evidence s) =
      (lp_recovery s, update_completion_state (evidence s) a r)"
    using assms(3) unfolding resume_step_told [OF assms(1) assms(3) [unfolded reportable_def, THEN conjunct1]]
    by (simp add: told_update [OF assms(3) u] told_recovery)
  then show ?thesis using assms(2) by (simp add: synced_def resume_snoc count_other tool_message_told)
qed

definition within_u32 :: "recovery_policy \<Rightarrow> bool" where
  "within_u32 p \<longleftrightarrow> rp_max_recoverable_errors p < 2 ^ 32 \<and> rp_max_identical_failures p < 2 ^ 32"

lemma json_u32_show [simp]: "n < 2 ^ 32 \<Longrightarrow> json_u32 (JNumber (show_nat n)) = Some n"
  by (simp add: json_u32_def parse_unsigned_show_nat)

lemma plain_recoverable: "plain_result (recoverable_error_result cd a e s)"
  by (simp add: recoverable_error_result_def)

lemma synced_recoverable:
  assumes "codec_ok cd" "synced cd s" "may_recover p (count_failure (action_fingerprint cd a e) (lp_recovery s))" "within_u32 p"
  shows "synced cd (finish_tool cd c (recoverable_error_result cd a e (count_failure (action_fingerprint cd a e) (lp_recovery s)))
    i (Some a) (s\<lparr>lp_recovery := count_failure (action_fingerprint cd a e) (lp_recovery s)\<rparr>))"
proof -
  let ?rv = "count_failure (action_fingerprint cd a e) (lp_recovery s)"
  let ?r = "recoverable_error_result cd a e ?rv"
  have n: "rv_total ?rv < 2 ^ 32" "rv_identical ?rv < 2 ^ 32" "rv_last_fingerprint ?rv = Some (action_fingerprint cd a e)"
    using assms(3, 4) by (auto simp: may_recover_def within_u32_def count_failure_def)
  let ?c = "told (Some a) (tr_content ?r)"
  have c: "json_get ?c ''recoverable'' = Some (JBool True)" "json_get ?c ''recovery_count'' = Some (JNumber (show_nat (rv_total ?rv)))"
    "json_get ?c ''identical_failure_count'' = Some (JNumber (show_nat (rv_identical ?rv)))"
    "json_get ?c ''failure_fingerprint'' = Some (JString (action_fingerprint cd a e))" "json_get ?c ''name'' = None"
    by (simp_all add: recoverable_error_result_def tool_result_error_def)
  have st: "tr_status ?r = TrsError" by (simp add: recoverable_error_result_def tool_result_error_def)
  have "resume_recovery ?c (lp_recovery s) = ?rv"
    using n unfolding resume_recovery_def get_str_def c by (simp add: json_bool_def json_str_def)
  moreover have "resume_completion ?c (Some (status_str (tr_status ?r))) (evidence s) = evidence s"
    unfolding resume_completion_def get_str_def c st by (simp add: Let_def)
  ultimately have "resume_step cd (tool_message cd ?r i (Some a)) (lp_recovery s, evidence s) = (?rv, evidence s)"
    by (simp add: resume_step_told [OF assms(1) plain_recoverable])
  then show ?thesis using assms(2) by (simp add: synced_def finish_tool_def resume_snoc count_other tool_message_told)
qed

definition reportable_draw :: "turn_draw \<Rightarrow> bool" where
  "reportable_draw d \<longleftrightarrow>
     (case (tn_response d, tn_tool d) of (Inr t, Inr r) \<Rightarrow> reportable (mt_action t) r | _ \<Rightarrow> True)"

lemma keeps_succeeded:
  assumes "codec_ok cd" "synced cd s" "reportable (mt_action t) result"
  shows "keeps cd (tool_succeeded cd c d turn t result s)"
proof -
  let ?a = "mt_action t"
  let ?s3 = "push (tool_message cd result (answered_call t) (Some ?a))
    ((emit c EkToolFinished (PvResult result) s)\<lparr>lp_completion := update_completion_state (lp_completion s) ?a result\<rparr>)"
  have s3: "synced cd ?s3"
    using synced_result [OF assms(1) _ assms(3), of "emit c EkToolFinished (PvResult result) s"] assms(2) by simp
  show ?thesis
    using s3 assms(1)
    by (auto simp: tool_succeeded_def Let_def accept_submission_def finished_outcome_def synced_refusal intro!: keeps_done
        split: option.split bool.split)
qed

lemma keeps_execute_tool:
  assumes "codec_ok cd" "synced cd s" "within_u32 (rc_recovery_policy c)"
    "\<And>r. tn_tool d = Inr r \<Longrightarrow> reportable (mt_action t) r"
  shows "keeps cd (execute_tool cd c d turn t s)"
proof (cases "tn_tool d")
  case (Inr r)
  with assms show ?thesis by (simp add: execute_tool_def keeps_succeeded)
next
  case (Inl e)
  let ?s1 = "log_effect (FxExecute (mt_action t) (tn_tool d))
      (emit c EkToolStarted (PvFields [(''action'', PvStr (kind_name (mt_action t)))]) s)"
  have s1: "synced cd ?s1" using assms(2) by simp
  have "keeps cd (recoverable_failure cd c d turn t e ?s1)"
  proof (cases "may_recover (rc_recovery_policy c) (count_failure (action_fingerprint cd (mt_action t) e) (lp_recovery ?s1))")
    case True
    show ?thesis
      using synced_recoverable [OF assms(1) s1 True assms(3), of c "answered_call t"] True
      by (simp add: recoverable_failure_def Let_def)
  next
    case False
    then show ?thesis by (simp add: recoverable_failure_def Let_def)
  qed
  with Inl s1 assms(1) show ?thesis by (simp add: execute_tool_def tool_failed_def Let_def keeps_unexposed)
qed

lemma keeps_tool_action:
  assumes "codec_ok cd" "synced cd s" "within_u32 (rc_recovery_policy c)"
    "\<And>r. tn_tool d = Inr r \<Longrightarrow> reportable (mt_action t) r"
  shows "keeps cd (tool_action cd c d turn t s)"
proof (cases "evaluate_action_in_scope (rc_policy c) (mt_action t) (rc_run_scope c)")
  case (PdAllow risk summary grant)
  then show ?thesis using assms keeps_execute_tool by (simp add: tool_action_def Let_def)
next
  case (PdAsk kind risk summary)
  then show ?thesis using assms(2)
    by (simp add: tool_action_def Let_def keeps_def pause_messages_def approval_outcome_def)
next
  case (PdDeny risk summary)
  then show ?thesis by (simp add: tool_action_def Let_def)
qed

lemma keeps_handle_action:
  assumes "codec_ok cd" "synced cd s" "within_u32 (rc_recovery_policy c)"
    "\<And>r. tn_tool d = Inr r \<Longrightarrow> reportable (mt_action t) r"
  shows "keeps cd (handle_action cd c d pl t s)"
proof (cases "is_finish (mt_action t) \<or> is_respond (mt_action t) \<or> (\<exists>i r k m. mt_action t = RequestApproval i r k m)")
  case True
  with assms(1, 2) show ?thesis
    by (cases "mt_action t")
      (simp_all add: handle_action_def Let_def is_finish_def is_respond_def keeps_reserve keeps_builder keeps_finish_refused
        keeps_finish keeps_approval keeps_respond)
next
  case False
  then have "handle_action cd c d pl t s =
      (if pl_reserve pl \<and> \<not> is_verification (mt_action t) \<and> \<not> (pl_finish_allowed pl \<and> is_finish (mt_action t))
       then reserve_refused cd c pl (mt_action t) s
       else if pl_builder_only pl \<and> \<not> is_implementation (mt_action t) then builder_refused cd c d (pl_turn pl) (mt_action t) s
       else tool_action cd c d (pl_turn pl) t s)"
    by (cases "mt_action t") (simp_all add: handle_action_def Let_def is_finish_def is_respond_def)
  then show ?thesis using assms keeps_tool_action by (simp add: keeps_reserve keeps_builder)
qed

text \<open>Whether packing leaves the transcript of a turn as it is.\<close>

definition packs_as_is :: "codec \<Rightarrow> run_config \<Rightarrow> loop_state \<Rightarrow> bool" where
  "packs_as_is cd c s \<longleftrightarrow>
     (case pack_messages cd (lp_messages s) (rc_context_budget c) of
        Inl e \<Rightarrow> True
      | Inr p \<Rightarrow> cp_compacted_exchanges p = 0 \<and> cp_truncated_tool_results p = 0)"


lemma pack_loop_count:
  "pack_loop cd b mandatory packed entries n = Inr (out, entries', n') \<Longrightarrow>
     n \<le> n' \<and> (n' = n \<longrightarrow> out = packed \<and> entries' = entries)"
proof (induction cd b mandatory packed entries n rule: pack_loop.induct)
  case (1 cd b mandatory packed entries n)
  show ?case
  proof (cases "cb_recent_message_tokens b < estimate_tokens cd (drop mandatory packed) b \<or>
         effective_input_budget b < estimate_tokens_with_checkpoint cd packed entries b")
    case False
    with "1.prems" show ?thesis by (simp add: pack_loop.simps [of cd b mandatory packed])
  next
    case True
    with "1.prems" obtain start stop where r: "oldest_exchange_range packed mandatory = Some (start, stop)"
      by (cases "oldest_exchange_range packed mandatory") (auto simp: pack_loop.simps [of cd b mandatory packed])
    with "1.prems" True have "pack_loop cd b mandatory (take start packed @ drop stop packed)
        (entries @ [checkpoint_entry cd (take (stop - start) (drop start packed))]) (n + 1) = Inr (out, entries', n')"
      by (simp add: pack_loop.simps [of cd b mandatory packed])
    from "1.IH" [OF True r refl this] show ?thesis by simp
  qed
qed

lemma packed_as_is:
  assumes "pack_messages cd ms b = Inr p" "cp_compacted_exchanges p = 0" "cp_truncated_tool_results p = 0"
  shows "cp_messages p = ms"
proof -
  let ?m = "mandatory_end ms"
  let ?compacted = "take ?m ms @ map (compact_message cd b) (drop ?m ms)"
  from assms(1) obtain out entries n where
    l: "pack_loop cd b ?m ?compacted [] 0 = Inr (out, entries, n)"
    and p: "cp_compacted_exchanges p = n" "cp_truncated_tool_results p = length (filter (oversized b) (drop ?m ms))"
      "cp_messages p = (if entries = [] then out
         else take ?m out @ [system_message (CHECKPOINT_PREFIX @ join [CHR 0x0A] entries)] @ drop ?m out)"
    by (auto simp: pack_messages_def Let_def split: if_splits)
  from pack_loop_count [OF l] p(1) assms(2) have "out = ?compacted" "entries = []" by simp_all
  moreover have "\<forall>m\<in>set (drop ?m ms). \<not> oversized b m"
    using p(2) assms(3) by (simp add: filter_empty_conv)
  then have "map (compact_message cd b) (drop ?m ms) = drop ?m ms"
    by (intro map_idI) (simp add: compact_message_def)
  ultimately show ?thesis using p(3) by simp
qed

lemma keeps_run_turn:
  assumes "codec_ok cd" "synced cd s" "within_u32 (rc_recovery_policy c)" "reportable_draw d" "packs_as_is cd c s"
  shows "keeps cd (run_turn cd c d turn s)"
proof (cases "budget_stop c d turn s")
  case (Some outcome)
  then have "pause_messages outcome = Some ms \<Longrightarrow> ms = lp_messages s" for ms
    by (auto simp: budget_stop_def Let_def failed_outcome_def budget_boundary_outcome_def pause_messages_def
        split: option.splits if_splits)
  with Some assms(2) show ?thesis by (simp add: run_turn_def keeps_def)
next
  case None
  have cancelled: "keeps cd (Done s1 (cancelled_outcome turn consumption))" for s1 consumption
    by (rule keeps_done) (simp_all add: cancelled_outcome_def)
  show ?thesis
  proof (cases "pack_messages cd (lp_messages s) (rc_context_budget c)")
    case (Inl e)
    with None cancelled show ?thesis by (simp add: run_turn_def)
  next
    case (Inr packed)
    with assms(5) have same: "s\<lparr>lp_messages := cp_messages packed\<rparr> = s"
      using packed_as_is [OF Inr] by (simp add: packs_as_is_def)
    let ?pl = "plan_turn c (lp_completion s) turn"
    show ?thesis
    proof (cases "send_request cd c d ?pl packed s")
      case (Done s2 outcome)
      then have "\<exists>turn' error s1. stop_failed c d turn' error s1 = Done s2 outcome"
        by (auto simp: send_request_def Let_def split: if_splits)
      then have "keeps cd (Done s2 outcome)" using keeps_failed by metis
      with Done Inr None cancelled show ?thesis by (simp add: run_turn_def Let_def same)
    next
      case (Next s2)
      then have s2: "synced cd s2" using assms(2)
        by (auto simp: send_request_def Let_def stop_failed_def split: if_splits)
      have "keeps cd (handle_action cd c d ?pl t (record_response c turn t s2))" if "tn_response d = Inr t" for t
        using that assms(4) s2 by (intro keeps_handle_action [OF assms(1) _ assms(3)]) (auto simp: reportable_draw_def)
      with Next Inr None cancelled s2 show ?thesis
        by (cases "tn_response d") (simp_all add: run_turn_def Let_def same keeps_provider)
    qed
  qed
qed

section \<open>Runs\<close>

fun uncompacted :: "codec \<Rightarrow> run_config \<Rightarrow> (nat \<Rightarrow> turn_draw) \<Rightarrow> nat list \<Rightarrow> loop_state \<Rightarrow> bool" where
  "uncompacted cd c draws [] s \<longleftrightarrow> True"
| "uncompacted cd c draws (turn # turns) s \<longleftrightarrow>
     packs_as_is cd c s \<and>
     (case run_turn cd c (draws turn) turn s of Next s' \<Rightarrow> uncompacted cd c draws turns s' | Done s' outcome \<Rightarrow> True)"

lemma keeps_turns_exhausted:
  "synced cd s \<Longrightarrow> turns_exhausted c d s = (s', outcome) \<Longrightarrow> keeps cd (Done s' outcome)"
  by (auto simp: turns_exhausted_def Let_def budget_boundary_outcome_def failed_outcome_def keeps_def pause_messages_def
      split: option.splits if_splits)

lemma keeps_run_turns:
  assumes "codec_ok cd" "within_u32 (rc_recovery_policy c)" "\<And>n. reportable_draw (draws n)"
  shows "synced cd s \<Longrightarrow> uncompacted cd c draws turns s \<Longrightarrow> run_turns cd c draws turns s = (s', outcome) \<Longrightarrow>
    keeps cd (Done s' outcome)"
proof (induction turns arbitrary: s)
  case Nil
  then show ?case using keeps_turns_exhausted by simp
next
  case (Cons turn turns)
  have "keeps cd (run_turn cd c (draws turn) turn s)"
    using Cons.prems by (intro keeps_run_turn [OF assms(1) _ assms(2, 3)]) simp_all
  with Cons show ?case by (cases "run_turn cd c (draws turn) turn s") auto
qed

lemma keeps_approved:
  assumes "codec_ok cd" "synced cd s" "within_u32 (rc_recovery_policy c)"
    "\<And>r. tn_tool d = Inr r \<Longrightarrow> reportable (aa_action a) r"
  shows "keeps cd (execute_approved_action cd c d a s)"
proof -
  let ?s1 = "log_effect (FxExecute (aa_action a) (tn_tool d))
      (emit c EkToolStarted (PvFields
        [(''action'', PvStr (kind_name (aa_action a))), (''approval_id'', PvStr (aa_approval_id a))]) s)"
  have s1: "synced cd ?s1" using assms(2) by simp
  show ?thesis
  proof (cases "tn_tool d")
    case (Inr r)
    have "synced cd (emit c EkToolFinished (PvResult r) ?s1)" using s1 by simp
    from synced_result [OF assms(1) this assms(4) [OF Inr]] Inr show ?thesis
      by (simp add: execute_approved_action_def Let_def)
  next
    case (Inl e)
    let ?rv = "count_failure (action_fingerprint cd (aa_action a) e) (lp_recovery ?s1)"
    show ?thesis
    proof (cases "disposition e = Recoverable \<and> may_recover (rc_recovery_policy c) ?rv")
      case True
      then show ?thesis
        using synced_recoverable [OF assms(1) s1 _ assms(3), of "aa_action a" e c "Some (action_id (aa_action a))"] Inl
        by (simp add: execute_approved_action_def Let_def)
    next
      case False
      with Inl show ?thesis by (auto simp: execute_approved_action_def Let_def)
    qed
  qed
qed

lemma evidence_unread: "unread (lp_completion s) \<Longrightarrow> evidence s = lp_completion s"
  by (simp add: evidence_def unread_def)

lemma start_state_synced: "synced cd (start_state cd c start)"
proof -
  have "evidence (start_state cd c start) = snd (resume_runtime_state cd (start_messages c start))"
    using resume_unread by (simp add: evidence_unread)
  moreover have "lp_messages (start_state cd c start) = start_messages c start"
    by (simp add: start_state_def Let_def split: prod.split)
  ultimately show ?thesis by (simp add: synced_def)
qed

text \<open>No turn of a run compacted its transcript.\<close>

definition run_uncompacted ::
    "codec \<Rightarrow> run_config \<Rightarrow> turn_draw \<Rightarrow> (nat \<Rightarrow> turn_draw) \<Rightarrow> run_start \<Rightarrow> bool" where
  "run_uncompacted cd c approved_draw draws start =
     (let s = start_state cd c start; turns = [start_turn start..<rc_max_turns c] in
      case start of
        Approved a \<Rightarrow>
          (case execute_approved_action cd c approved_draw a s of
             Done s' outcome \<Rightarrow> True
           | Next s' \<Rightarrow> uncompacted cd c draws turns s')
      | _ \<Rightarrow> uncompacted cd c draws turns s)"

definition reportable_start :: "turn_draw \<Rightarrow> run_start \<Rightarrow> bool" where
  "reportable_start d start \<longleftrightarrow>
     (case (start, tn_tool d) of (Approved a, Inr r) \<Rightarrow> reportable (aa_action a) r | _ \<Rightarrow> True)"

lemma keeps_run_loop:
  assumes "codec_ok cd" "within_u32 (rc_recovery_policy c)" "\<And>n. reportable_draw (draws n)"
    "reportable_start d start" "run_uncompacted cd c d draws start" "run_loop cd c d draws start = (s', outcome)"
  shows "keeps cd (Done s' outcome)"
proof -
  let ?s = "start_state cd c start" and ?turns = "[start_turn start..<rc_max_turns c]"
  note turns = keeps_run_turns [OF assms(1-3)]
  show ?thesis
  proof (cases start)
    case (Approved a)
    have "keeps cd (execute_approved_action cd c d a ?s)"
      using assms(4) Approved by (intro keeps_approved [OF assms(1) start_state_synced assms(2)]) (simp add: reportable_start_def)
    with assms(5, 6) Approved show ?thesis
      by (cases "execute_approved_action cd c d a ?s")
        (auto simp: run_loop_def run_uncompacted_def Let_def intro: turns)
  qed (use assms(5, 6) in \<open>auto simp: run_loop_def run_uncompacted_def Let_def intro!: turns [OF start_state_synced]\<close>)
qed

text \<open>C11: A paused run continues in the state it was paused in: when no turn had to compact the transcript and
  the tools report what they ran, a run resumed from the stored messages starts with the same transcript,
  failure counts, completion evidence and protocol corrections.\<close>
theorem resume_continues_run:
  assumes "codec_ok cd" "within_u32 (rc_recovery_policy c)" "\<forall>n. reportable_draw (draws n)" "reportable_start d start"
    "run_uncompacted cd c d draws start" "run_loop cd c d draws start = (s', outcome)"
    "pause_messages outcome = Some ms" "start_messages c' start' = ms"
  shows "lp_messages (start_state cd c' start') = lp_messages s' \<and>
    lp_recovery (start_state cd c' start') = lp_recovery s' \<and>
    evidence (start_state cd c' start') = evidence s' \<and>
    (lp_corrections s' < 2 ^ 32 - 1 \<longrightarrow> lp_corrections (start_state cd c' start') = lp_corrections s')"
proof -
  have "keeps cd (Done s' outcome)" by (rule keeps_run_loop [OF assms(1, 2) _ assms(4-6)]) (use assms(3) in blast)
  with assms(7) have s': "synced cd s'" "ms = lp_messages s'" by (auto simp: keeps_def)
  have m: "lp_messages (start_state cd c' start') = ms"
    using assms(8) by (simp add: start_state_def Let_def split: prod.split)
  from start_state_synced [of cd c' start'] s' m assms(8) show ?thesis by (auto simp: synced_def)
qed

section \<open>Compacted results\<close>

text \<open>The round trip of a value that serde documents.\<close>

definition prints_ok :: "codec \<Rightarrow> bool" where
  "prints_ok cd \<longleftrightarrow> (\<forall>v. json_ok v \<longrightarrow> json_depth v \<le> 100 \<longrightarrow> cd_parse cd (cd_print cd v) = Some v)"

lemma get_plain:
  assumes "json_ok c" "json_depth c \<le> Suc n" "json_get c k = Some v"
  shows "json_ok v \<and> json_depth v \<le> n"
  using assms by (cases c) (auto simp: json_get_def object_entries_def object_depth_le list_all_iff dest!: map_of_SomeD)

definition copy_key :: "json \<Rightarrow> json \<Rightarrow> string \<Rightarrow> json" where
  "copy_key c v k = (case json_get c k of Some x \<Rightarrow> json_insert k x v | None \<Rightarrow> v)"

lemma copy_keys_plain:
  assumes "json_ok c" "json_depth c \<le> Suc n"
  shows "json_ok v \<Longrightarrow> json_depth v \<le> Suc n \<Longrightarrow> is_object v \<Longrightarrow>
    json_ok (foldl (copy_key c) v ks) \<and> json_depth (foldl (copy_key c) v ks) \<le> Suc n \<and> is_object (foldl (copy_key c) v ks) \<and>
    (k \<notin> set ks \<longrightarrow> json_get (foldl (copy_key c) v ks) k = json_get v k)"
proof (induction ks arbitrary: v)
  case (Cons x ks)
  have "json_ok (copy_key c v x) \<and> json_depth (copy_key c v x) \<le> Suc n"
    using get_plain [OF assms, of x] Cons.prems by (auto simp: copy_key_def insert_plain split: option.split)
  moreover have "is_object (copy_key c v x)" "x \<noteq> k \<Longrightarrow> json_get (copy_key c v x) k = json_get v k"
    using Cons.prems(3) by (auto simp: copy_key_def split: option.split)
  ultimately show ?case using Cons.IH [of "copy_key c v x"] by auto
qed simp

lemma compact_value_plain:
  assumes "plain_result r"
  shows "json_ok (compact_value r) \<and> json_depth (compact_value r) \<le> 100 \<and> json_get (compact_value r) ''content'' = None"
proof -
  let ?v = "JObject [(''content_compacted'', JBool True), (''status'', JString (status_str (tr_status r))),
      (''summary'', JString (tr_summary r))]"
  have c: "json_ok (tr_content r)" "json_depth (tr_content r) \<le> Suc 99" using assms by (simp_all add: plain_result_def)
  have d: "json_depth ?v \<le> Suc 99" unfolding object_depth_le by simp
  have "compact_value r = foldl (copy_key (tr_content r)) ?v compacted_keys"
    unfolding compact_value_def copy_key_def by (rule refl)
  with copy_keys_plain [OF c _ d, where k = "''content''" and ks = compacted_keys] show ?thesis by (simp add: compacted_keys_def)
qed

lemma resume_without_content:
  "Option.bind (cd_parse cd (mm_content m)) (\<lambda>v. json_get v ''content'') = None \<Longrightarrow> resume_step cd m st = st"
  by (cases st; cases "cd_parse cd (mm_content m)") (auto simp: resume_step_def)


end
