(* ===== verification/RuntimeExamples.thy ===== *)
theory RuntimeExamples
  imports RuntimeResume "HOL-Library.Code_Target_Nat"
begin

text \<open>
  The runtime's theorems at concrete runs. The codec of the examples is a prefix code of JSON values,
  whose round trip is proved; the runs themselves are evaluated.
\<close>

section \<open>A codec\<close>

fun code_str :: "string \<Rightarrow> string" where
  "code_str [] = ''.''"
| "code_str (c # s) = CHR ''+'' # c # code_str s"

fun decode_str :: "string \<Rightarrow> (string \<times> string) option" where
  "decode_str (t # c # r) =
     (if t = CHR ''+'' then map_option (\<lambda>(s, r'). (c # s, r')) (decode_str r)
      else if t = CHR ''.'' then Some ([], c # r) else None)"
| "decode_str [t] = (if t = CHR ''.'' then Some ([], []) else None)"
| "decode_str [] = None"

lemma decode_code_str [simp]: "decode_str (code_str s @ r) = Some (s, r)"
proof (induction s)
  case Nil
  show ?case by (cases r) simp_all
qed simp

fun code_json :: "json \<Rightarrow> string" where
  "code_json JNull = ''n''"
| "code_json (JBool b) = (if b then ''t'' else ''f'')"
| "code_json (JNumber s) = CHR ''#'' # code_str s"
| "code_json (JString s) = CHR ''$'' # code_str s"
| "code_json (JArray vs) = CHR ''['' # concat (map code_json vs) @ '']''"
| "code_json (JObject es) = CHR ''{'' # concat (map (\<lambda>(k, v). CHR '':'' # code_str k @ code_json v) es) @ ''}''"

fun decode_json :: "nat \<Rightarrow> string \<Rightarrow> (json \<times> string) option"
  and decode_items :: "nat \<Rightarrow> string \<Rightarrow> (json list \<times> string) option"
  and decode_entries :: "nat \<Rightarrow> string \<Rightarrow> ((string \<times> json) list \<times> string) option" where
  "decode_json 0 s = None"
| "decode_json (Suc n) s = (case s of
     [] \<Rightarrow> None
   | t # r \<Rightarrow>
       if t = CHR ''n'' then Some (JNull, r)
       else if t = CHR ''t'' then Some (JBool True, r)
       else if t = CHR ''f'' then Some (JBool False, r)
       else if t = CHR ''#'' then map_option (\<lambda>(x, r'). (JNumber x, r')) (decode_str r)
       else if t = CHR ''$'' then map_option (\<lambda>(x, r'). (JString x, r')) (decode_str r)
       else if t = CHR ''['' then map_option (\<lambda>(x, r'). (JArray x, r')) (decode_items n r)
       else if t = CHR ''{'' then map_option (\<lambda>(x, r'). (JObject x, r')) (decode_entries n r)
       else None)"
| "decode_items 0 s = None"
| "decode_items (Suc n) s = (case s of
     [] \<Rightarrow> None
   | t # r \<Rightarrow>
       if t = CHR '']'' then Some ([], r)
       else Option.bind (decode_json n s) (\<lambda>(v, r'). map_option (\<lambda>(vs, r''). (v # vs, r'')) (decode_items n r')))"
| "decode_entries 0 s = None"
| "decode_entries (Suc n) s = (case s of
     [] \<Rightarrow> None
   | t # r \<Rightarrow>
       if t = CHR ''}'' then Some ([], r)
       else if t = CHR '':'' then
         Option.bind (decode_str r) (\<lambda>(k, r1).
           Option.bind (decode_json n r1) (\<lambda>(v, r2). map_option (\<lambda>(es, r3). ((k, v) # es, r3)) (decode_entries n r2)))
       else None)"

lemma code_json_start: "code_json v \<noteq> [] \<and> hd (code_json v) \<noteq> CHR '']''"
  by (cases v) auto

lemma decode_code:
  "(\<forall>v r. length (code_json v) \<le> n \<longrightarrow> decode_json n (code_json v @ r) = Some (v, r)) \<and>
   (\<forall>vs r. length (concat (map code_json vs)) < n \<longrightarrow> decode_items n (concat (map code_json vs) @ '']'' @ r) = Some (vs, r)) \<and>
   (\<forall>es r. length (concat (map (\<lambda>(k, v). CHR '':'' # code_str k @ code_json v) es)) < n \<longrightarrow>
      decode_entries n (concat (map (\<lambda>(k, v). CHR '':'' # code_str k @ code_json v) es) @ ''}'' @ r) = Some (es, r))"
proof (induction n)
  case 0
  show ?case using code_json_start by simp
next
  case (Suc n)
  have v: "decode_json (Suc n) (code_json v @ r) = Some (v, r)" if "length (code_json v) \<le> Suc n" for v r
    using that Suc.IH by (cases v) (auto simp: map_option_case)
  have vs: "decode_items (Suc n) (concat (map code_json vs) @ '']'' @ r) = Some (vs, r)"
    if "length (concat (map code_json vs)) < Suc n" for vs r
  proof (cases vs)
    case (Cons w ws)
    obtain t s where w: "code_json w = t # s" "t \<noteq> CHR '']''" using code_json_start [of w] by (cases "code_json w") auto
    have "decode_json n (code_json w @ concat (map code_json ws) @ '']'' @ r) = Some (w, concat (map code_json ws) @ '']'' @ r)"
      using that Cons Suc.IH by auto
    moreover have "decode_items n (concat (map code_json ws) @ '']'' @ r) = Some (ws, r)" using that Cons w Suc.IH by auto
    ultimately show ?thesis using Cons w by simp
  qed simp
  have es: "decode_entries (Suc n) (concat (map (\<lambda>(k, v). CHR '':'' # code_str k @ code_json v) es) @ ''}'' @ r) = Some (es, r)"
    if "length (concat (map (\<lambda>(k, v). CHR '':'' # code_str k @ code_json v) es)) < Suc n" for es r
  proof (cases es)
    case (Cons e rest)
    obtain k w where e: "e = (k, w)" by (cases e)
    let ?rest = "concat (map (\<lambda>(k, v). CHR '':'' # code_str k @ code_json v) rest) @ ''}'' @ r"
    have "decode_json n (code_json w @ ?rest) = Some (w, ?rest)" "decode_entries n ?rest = Some (rest, r)"
      using that Cons e Suc.IH by auto
    then show ?thesis using Cons e by simp
  qed simp
  show ?case using v vs es by blast
qed

definition decode_text :: "string \<Rightarrow> json option" where
  "decode_text s = (case decode_json (length s) s of Some (v, []) \<Rightarrow> Some v | _ \<Rightarrow> None)"

lemma decode_text_code [simp]: "decode_text (code_json v) = Some v"
  using decode_code [of "length (code_json v)"] by (simp add: decode_text_def) (metis append_Nil2 list.simps(4) option.simps(5) order_refl prod.case)

definition decode_result :: "json \<Rightarrow> tool_result option" where
  "decode_result v =
     (case v of
        JObject [(k1, c), (k2, JString st), (k3, JString summary)] \<Rightarrow>
          Some \<lparr>tr_status = (if st = ''ok'' then TrsOk else TrsError), tr_summary = summary, tr_content = c\<rparr>
      | _ \<Rightarrow> None)"

definition example_codec :: codec where
  "example_codec = \<lparr>cd_print = code_json, cd_parse = decode_text, cd_result = (\<lambda>r. code_json (tool_result_value r)),
     cd_parse_result = (\<lambda>s. Option.bind (decode_text s) decode_result),
     cd_action = (\<lambda>a. JObject [(''action'', JString (kind_name a))]), cd_specs = (\<lambda>ts. [])\<rparr>"

lemma decode_result_value: "decode_result (tool_result_value r) = Some r"
  by (cases "tr_status r") (simp_all add: decode_result_def tool_result_value_def)

lemma example_codec_ok: "codec_ok example_codec \<and> prints_ok example_codec"
  by (simp add: codec_ok_def prints_ok_def example_codec_def decode_result_value)

section \<open>Runs\<close>

definition example_tool :: "string \<Rightarrow> json \<Rightarrow> tool_spec" where
  "example_tool name schema = \<lparr>ts_name = name, ts_description = ''a tool'', ts_parameters_schema = schema, ts_capability = Filesystem\<rparr>"

definition example_tools :: "tool_spec list" where
  "example_tools =
     [example_tool ''write_file'' empty_object,
      example_tool ''run_acceptance_command'' (JObject [(''properties'', JObject [(''name'', JObject [(''enum'', JArray [JString ''test''])])])]),
      example_tool ''git_status'' empty_object, example_tool ''git_diff'' empty_object,
      example_tool ''submit_implementation'' empty_object]"

definition builder_config :: "safety_policy \<Rightarrow> run_config" where
  "builder_config policy =
     \<lparr>rc_session_id = ''ses'', rc_run_id = ''run'', rc_messages = [system_message ''sys'', user_message ''task''],
      rc_tools = example_tools, rc_tool_protocol = NativeTools, rc_tool_choice = TcmRequired, rc_temperature = ''0'',
      rc_max_tokens = 100, rc_max_turns = 8,
      rc_context_budget = \<lparr>cb_max_input_tokens = 100000, cb_recent_message_tokens = 100000, cb_max_tool_result_tokens = 10000,
        cb_reserved_output_tokens = 100, cb_characters_per_token = 4\<rparr>,
      rc_recovery_policy = \<lparr>rp_max_recoverable_errors = 4, rp_max_identical_failures = 2\<rparr>,
      rc_task_contract = \<lparr>tk_kind = TkCoding, tk_acceptance_criteria = [], tk_require_workspace_change = True,
        tk_require_post_change_diff = True\<rparr>,
      rc_repository_instruction_files = [], rc_policy = policy, rc_run_scope = run_scope_default,
      rc_event_seq_start = 0, rc_run_budget = None,
      rc_budget_consumption = \<lparr>bc_allowed_turns = 8, bc_allowed_tokens = 1000, bc_turns_used = 0, bc_tokens_used = 0,
        bc_active_execution_seconds_used = 0, bc_extensions = 0\<rparr>,
      rc_inference_binding = Some \<lparr>ib_stage_prompt_id = Some ''repo-builder-v2'', ib_reasoning = JNull, ib_event_metadata = JNull\<rparr>\<rparr>"

definition trusting_config :: run_config where
  "trusting_config = builder_config (safety_policy_default\<lparr>sp_mode := PmTrustedWrites\<rparr>)"

definition asking_config :: run_config where
  "asking_config = builder_config safety_policy_default"

definition turn_of :: "json agent_action \<Rightarrow> model_turn" where
  "turn_of a = \<lparr>mt_raw_provider_id = None, mt_assistant_message = None,
     mt_assistant_tool_calls = [\<lparr>mc_id = action_id a, mc_name = kind_name a, mc_arguments = ''{}''\<rparr>],
     mt_reasoning = None, mt_action = a, mt_usage = None, mt_metadata = None\<rparr>"

definition ok_result :: "json \<Rightarrow> tool_result" where
  "ok_result content = \<lparr>tr_status = TrsOk, tr_summary = ''done'', tr_content = content\<rparr>"

definition draw_of :: "json agent_action \<Rightarrow> (tool_error, tool_result) res \<Rightarrow> turn_draw" where
  "draw_of a result = \<lparr>tn_elapsed_before = 0, tn_elapsed_after = 0, tn_cancelled = False, tn_response = Inr (turn_of a),
     tn_tool = result\<rparr>"

definition example_write_action :: "json agent_action" where
  "example_write_action = WriteFile ''w'' ''why'' ''src/lib.rs'' ''text''"

definition builder_draws :: "nat \<Rightarrow> turn_draw" where
  "builder_draws n =
     (if n = 0 then draw_of example_write_action (Inr (ok_result (JObject [(''path'', JString ''src/lib.rs'')])))
      else if n = 1 then draw_of (RunAcceptanceCommand ''t'' ''why'' ''test'') (Inr (ok_result (JObject [(''name'', JString ''test'')])))
      else if n = 2 then draw_of (GitStatus ''s'' ''why'') (Inr (ok_result empty_object))
      else if n = 3 then draw_of (GitDiff ''d'' ''why'' None) (Inr (ok_result empty_object))
      else draw_of (SubmitImplementation ''i'' ''why'' empty_object) (Inr (ok_result empty_object)))"

text \<open>The runs whose transcript is not read back use a codec that prints nothing.\<close>

definition silent_codec :: codec where
  "silent_codec = \<lparr>cd_print = (\<lambda>v. []), cd_parse = (\<lambda>s. None), cd_result = (\<lambda>r. []), cd_parse_result = (\<lambda>s. None),
     cd_action = (\<lambda>a. JNull), cd_specs = (\<lambda>ts. [])\<rparr>"

definition builder_run :: "loop_state \<times> run_outcome" where
  "builder_run = run_loop silent_codec trusting_config (builder_draws 0) builder_draws Fresh"

definition action_names :: "loop_state \<Rightarrow> string list" where
  "action_names s = map (\<lambda>x. kind_name (fst x)) (executed s)"

fun run_summary :: "loop_state \<times> run_outcome \<Rightarrow> run_status \<times> string list \<times> nat \<times> bool" where
  "run_summary (s, outcome) =
     (ro_status outcome, action_names s, length (requested s), is_implementation (fst (last (executed s))))"

lemma run_summary_is:
  "run_summary r = (ro_status (snd r), action_names (fst r), length (requested (fst r)), is_implementation (fst (last (executed (fst r)))))"
  by (cases r) simp

lemma builder_run_summary:
  "run_summary builder_run =
     (RstCompleted, [''write_file'', ''run_acceptance_command'', ''git_status'', ''git_diff'', ''submit_implementation''], 5, True)"
  by code_simp

lemma builder_run_runs:
  "ro_status (snd builder_run) = RstCompleted \<and>
   action_names (fst builder_run) =
     [''write_file'', ''run_acceptance_command'', ''git_status'', ''git_diff'', ''submit_implementation''] \<and>
   length (requested (fst builder_run)) = 5 \<and> is_implementation (fst (last (executed (fst builder_run))))"
  using builder_run_summary by (simp add: run_summary_is)

lemma trusting_config_facts:
  "start_turn Fresh = 0" "rc_max_turns trusting_config = 8"
  "protocol_correction_count (start_messages trusting_config Fresh) = 0" "is_builder trusting_config"
  "\<forall>m\<in>set (start_messages trusting_config Fresh). mm_role m \<noteq> MrTool"
  "tk_kind (rc_task_contract trusting_config) = TkCoding" "tk_require_workspace_change (rc_task_contract trusting_config)"
  "''test'' \<in> set (required_acceptance_names (rc_tools trusting_config))"
  by code_simp+

lemma builder_run_is: "run_loop silent_codec trusting_config (builder_draws 0) builder_draws Fresh = (fst builder_run, snd builder_run)"
  by (simp add: builder_run_def)

lemma executes_only_authorised_witness:
  "action_names (fst builder_run) =
     [''write_file'', ''run_acceptance_command'', ''git_status'', ''git_diff'', ''submit_implementation''] \<and>
   list_all (\<lambda>x. pd_is_allow (evaluate_action_in_scope (rc_policy trusting_config) (fst x)
     (rc_run_scope trusting_config))) (executed (fst builder_run))"
  using executes_only_authorised [OF builder_run_is] builder_run_runs by (auto simp: list_all_iff)

lemma run_bounded_witness:
  "length (requested (fst builder_run)) = 5 \<and> length (requested (fst builder_run)) \<le> 8 \<and>
   correction_events (fst builder_run) \<le> 2"
  using run_bounded [OF builder_run_is] builder_run_runs by (simp add: trusting_config_facts)


text \<open>A run that reads, then asks for a write, and the run that continues it.\<close>

definition asking_draws :: "nat \<Rightarrow> turn_draw" where
  "asking_draws n =
     (if n = 0 then draw_of (GitStatus ''s'' ''why'') (Inr (ok_result empty_object))
      else if n = 1 then draw_of (GitDiff ''d'' ''why'' None) (Inl (TeIo ''broken''))
      else draw_of example_write_action (Inr (ok_result empty_object)))"

definition asking_run :: "codec \<Rightarrow> loop_state \<times> run_outcome" where
  "asking_run cd = run_loop cd asking_config (asking_draws 0) asking_draws Fresh"

fun pause_summary :: "loop_state \<times> run_outcome \<Rightarrow> string list \<times> string option \<times> nat \<times> string option \<times> nat option" where
  "pause_summary (s, outcome) =
     (action_names s, map_option (\<lambda>p. case pa_action p of Some a \<Rightarrow> kind_name a | None \<Rightarrow> []) (ro_approval outcome),
      rv_total (lp_recovery s), rv_last_fingerprint (lp_recovery s), map_option length (pause_messages outcome))"

lemma pause_summary_is:
  "pause_summary r =
     (action_names (fst r), map_option (\<lambda>p. case pa_action p of Some a \<Rightarrow> kind_name a | None \<Rightarrow> []) (ro_approval (snd r)),
      rv_total (lp_recovery (fst r)), rv_last_fingerprint (lp_recovery (fst r)), map_option length (pause_messages (snd r)))"
  by (cases r) simp

lemma asking_run_is: "run_loop cd asking_config (asking_draws 0) asking_draws Fresh = (fst (asking_run cd), snd (asking_run cd))"
  by (simp add: asking_run_def)

lemma silent_pause: "pause_summary (asking_run silent_codec) =
    ([''git_status'', ''git_diff''], Some ''write_file'', 1, Some ''git_diff:io:'', Some 7)"
  by code_simp

text \<open>The operator's approval of what a run is paused on.\<close>

definition approval_of :: "pending_approval \<Rightarrow> json agent_action \<Rightarrow> approved_action" where
  "approval_of p a = \<lparr>aa_approval_id = ''approval-1'', aa_action = a, aa_resume_messages = pa_resume_messages p,
     aa_turns_completed = pa_turns_completed p\<rparr>"

lemma pause_keeps_action_witness:
  "\<exists>p a s2 outcome2. ro_approval (snd (asking_run silent_codec)) = Some p \<and> pa_action p = Some a \<and> kind_name a = ''write_file'' \<and>
     run_loop silent_codec asking_config (asking_draws 2) builder_draws (Approved (approval_of p a)) = (s2, outcome2) \<and>
     executed s2 \<noteq> [] \<and> fst (hd (executed s2)) = a"
proof -
  obtain p where p: "ro_approval (snd (asking_run silent_codec)) = Some p"
    using silent_pause by (cases "ro_approval (snd (asking_run silent_codec))") (auto simp: pause_summary_is)
  moreover obtain a where a: "pa_action p = Some a" "kind_name a = ''write_file''"
    using silent_pause p by (cases "pa_action p") (auto simp: pause_summary_is)
  moreover obtain s2 outcome2 where r:
    "run_loop silent_codec asking_config (asking_draws 2) builder_draws (Approved (approval_of p a)) = (s2, outcome2)"
    by fastforce
  ultimately show ?thesis
    using pause_keeps_action [OF asking_run_is p a(1) r [unfolded approval_of_def]] by auto
qed

section \<open>Resuming\<close>

lemma asking_draws_reportable: "\<forall>n. reportable_draw (asking_draws n)"
proof -
  have "reportable_draw (asking_draws 0)" "reportable_draw (asking_draws 1)" "reportable_draw (asking_draws 2)"
    by code_simp+
  moreover have "asking_draws n = asking_draws 2" if "n \<noteq> 0" "n \<noteq> 1" for n using that by (simp add: asking_draws_def)
  ultimately show ?thesis by metis
qed

lemma asking_uncompacted: "run_uncompacted example_codec asking_config (asking_draws 0) asking_draws Fresh"
  by code_simp

lemma readable_pause: "pause_summary (asking_run example_codec) =
    ([''git_status'', ''git_diff''], Some ''write_file'', 1,
     Some (''git_diff:io:'' @ code_json (JObject [(''action'', JString ''git_diff'')])), Some 7)"
  by code_simp

lemma resume_continues_run_witness:
  "\<exists>ms. pause_messages (snd (asking_run example_codec)) = Some ms \<and> length ms = 7 \<and>
     (let s = start_state example_codec asking_config (ResumedBudget \<lparr>br_resume_messages = ms, br_turns_completed = 3\<rparr>) in
      lp_messages s = lp_messages (fst (asking_run example_codec)) \<and> rv_total (lp_recovery s) = 1 \<and>
      evidence s = evidence (fst (asking_run example_codec)))"
proof -
  obtain ms where ms: "pause_messages (snd (asking_run example_codec)) = Some ms" "length ms = 7"
    using readable_pause by (auto simp: pause_summary_is)
  let ?start = "ResumedBudget \<lparr>br_resume_messages = ms, br_turns_completed = 3\<rparr>"
  have "within_u32 (rc_recovery_policy asking_config)" "reportable_start (asking_draws 0) Fresh" by code_simp+
  moreover have "start_messages asking_config ?start = ms" by (simp add: start_messages_def)
  ultimately show ?thesis
    using resume_continues_run [OF example_codec_ok [THEN conjunct1] _ asking_draws_reportable _ asking_uncompacted
        asking_run_is ms(1), of asking_config ?start] readable_pause ms
    by (auto simp: pause_summary_is Let_def)
qed

text \<open>A builder's transcript with all evidence, and one more write whose diff is too long for the context.\<close>

definition evidence_messages :: "model_message list" where
  "evidence_messages =
     [tool_message example_codec (ok_result (JObject [(''path'', JString ''src/lib.rs'')])) None (Some example_write_action),
      tool_message example_codec (ok_result (JObject [(''name'', JString ''test'')])) None
        (Some (RunAcceptanceCommand ''t'' ''why'' ''test'')),
      tool_message example_codec (ok_result empty_object) None (Some (GitStatus ''s'' ''why'')),
      tool_message example_codec (ok_result empty_object) None (Some (GitDiff ''d'' ''why'' None))]"

definition long_write_result :: tool_result where
  "long_write_result = ok_result (JObject [(''diff'', JString (replicate 400 CHR ''x'')), (''path'', JString ''src/lib.rs'')])"

definition long_write_message :: model_message where
  "long_write_message = tool_message example_codec long_write_result None (Some example_write_action)"

definition small_results :: context_budget where
  "small_results = (rc_context_budget asking_config)\<lparr>cb_max_tool_result_tokens := 150\<rparr>"

lemma long_write_facts:
  "is_mutation example_write_action" "tr_status long_write_result = TrsOk" "reportable example_write_action long_write_result"
  "oversized small_results long_write_message"
  "length (cd_print example_codec (compact_value (long_write_result
     \<lparr>tr_content := told (Some example_write_action) (tr_content long_write_result)\<rparr>))) \<le> tool_character_limit small_results"
  by code_simp+

lemma evidence_ready: "builder_submission_ready asking_config (snd (resume_runtime_state example_codec evidence_messages))"
  by code_simp

lemma not_ready:
  "cs_acceptance_passed s = [] \<Longrightarrow> \<not> builder_submission_ready asking_config s"
proof -
  have "required_acceptance_names (rc_tools asking_config) = [''test'']" by code_simp
  then show "cs_acceptance_passed s = [] \<Longrightarrow> \<not> builder_submission_ready asking_config s"
    by (simp add: builder_submission_ready_def)
qed


section \<open>Failures and packing\<close>

definition failing_run :: "loop_state \<times> run_outcome" where
  "failing_run = run_loop silent_codec asking_config (asking_draws 1) (\<lambda>n. asking_draws 1) Fresh"

fun failure_summary :: "loop_state \<times> run_outcome \<Rightarrow> nat \<times> string option" where
  "failure_summary (s, outcome) = (sum_list (map note_failure (executed s)), ro_error outcome)"

lemma failure_summary_is: "failure_summary r = (sum_list (map note_failure (executed (fst r))), ro_error (snd r))"
  by (cases r) simp

lemma failing_run_summary: "failure_summary failing_run = (3, Some ''tool_recovery_exhausted'')"
  by code_simp

lemma failures_bounded_witness:
  "sum_list (map note_failure (executed (fst failing_run))) = 3 \<and> sum_list (map note_failure (executed (fst failing_run))) \<le> 5"
proof -
  have "run_loop silent_codec asking_config (asking_draws 1) (\<lambda>n. asking_draws 1) Fresh = (fst failing_run, snd failing_run)"
    by (simp add: failing_run_def)
  note b = failures_bounded [OF this]
  have "rv_total (fst (resume_runtime_state silent_codec (start_messages asking_config Fresh))) = 0"
    "rp_max_recoverable_errors (rc_recovery_policy asking_config) = 4" by code_simp+
  with b failing_run_summary show ?thesis by (simp add: failure_summary_is)
qed

definition long_transcript :: "model_message list" where
  "long_transcript = [system_message ''sys'', user_message ''task''] @
     concat (replicate 3 [assistant_message (replicate 40 CHR ''a'') [\<lparr>mc_id = ''1'', mc_name = ''git_status'', mc_arguments = ''{}''\<rparr>] None,
       tool_message example_codec (ok_result empty_object) (Some ''1'') (Some (GitStatus ''s'' ''why''))])"

definition small_context :: context_budget where
  "small_context = \<lparr>cb_max_input_tokens = 200, cb_recent_message_tokens = 100, cb_max_tool_result_tokens = 100,
     cb_reserved_output_tokens = 20, cb_characters_per_token = 4\<rparr>"

fun pack_summary :: "(context_error, context_pack) res \<Rightarrow> (nat \<times> nat \<times> nat) option" where
  "pack_summary (Inl e) = None"
| "pack_summary (Inr p) = Some (cp_original_message_count p, length (cp_messages p), cp_compacted_exchanges p)"

lemma long_transcript_packs: "pack_summary (pack_messages example_codec long_transcript small_context) = Some (8, 7, 1)"
  by code_simp

lemma long_transcript_answered: "mandatory_end long_transcript = 2 \<and> answered False (drop 2 long_transcript)"
  by code_simp

lemma pack_keeps_exchanges_witness:
  "\<exists>p. pack_messages example_codec long_transcript small_context = Inr p \<and> length (cp_messages p) = 7 \<and>
     answered False (drop 2 (cp_messages p))"
proof (cases "pack_messages example_codec long_transcript small_context")
  case (Inr p)
  from pack_keeps_exchanges [OF Inr] Inr long_transcript_packs long_transcript_answered show ?thesis by auto
qed (use long_transcript_packs in simp)

end
