(* ===== verification/StoreExamples.thy ===== *)
theory StoreExamples
  imports StoreProperties
begin

text \<open>
  A small deployment, run in the kernel: a tenant with two slots, one student who launches a lab,
  whose session is provisioned and given tokens; and the same lab stopped with a reset while its slots
  are held. The guarantees of \<open>StoreProperties\<close> are applied to these stores.
\<close>

section \<open>A deployment\<close>

definition example_limits :: lab_limits where
  "example_limits = \<lparr>lm_lab_slots = 2, lm_max_active_per_identity = 1, lm_max_active_per_course = 2\<rparr>"

definition example_launch :: "string \<Rightarrow> string option \<Rightarrow> string option \<Rightarrow> admit_launch" where
  "example_launch sid key reset_from =
     \<lparr>al_tenant_id = ''t'', al_course_id = ''c'', al_assignment_id = ''a1'', al_issuer = ''i'',
      al_subject = ''u'', al_idempotency_key = key, al_reset_from = reset_from,
      al_candidate_lab_id = ''l1'', al_candidate_budget_id = ''b1'', al_candidate_session_id = sid,
      al_profile = \<lparr>pr_id = ''p'', pr_version = ''1'', pr_profile_hash = ''h''\<rparr>,
      al_policy_hash = ''e'', al_expires_at = 900, al_actor = ''api'', al_now = 10,
      al_limits = example_limits\<rparr>"

definition store_move :: "string \<Rightarrow> int \<Rightarrow> lab_session_state \<Rightarrow> lab_session_state \<Rightarrow> store_call" where
  "store_move sid generation from target = ScJournal (CallTransition
     \<lparr>lt_session_id = sid, lt_expected_generation = generation, lt_from = from, lt_to = target,
      lt_actor = ''w1'', lt_now = 100, lt_lease = Some
        \<lparr>ol_op_key = campus_operation_key sid OpProvision 3, ol_owner = ''w1'', ol_fence = 1,
         ol_expires_at = 160\<rparr>,
      lt_lease_seconds = 60, lt_failure = None, lt_reason = None, lt_workspace_id = Some ''ws'',
      lt_observed = None, lt_result = ResEmpty\<rparr>)"

definition example_issue :: "char \<Rightarrow> issue_token" where
  "example_issue digit =
     \<lparr>iq_token_id = [digit], iq_token_hash = replicate 64 digit,
      iq_workload = \<lparr>wl_session_id = ''s1'', wl_slot_id = ''a'', wl_slot_generation = 1\<rparr>,
      iq_audience = AudInference, iq_actor = ''w1'', iq_now = 150, iq_ttl_seconds = 600\<rparr>"

definition registered_store :: campus_store where
  "registered_store = run_store (empty_store [(''t'', ''i'', ''u'')] (\<lambda>_. ''id1''))
     [ScJournal (CallSync ''t'' [''b'', ''a''] ''api'' 5)]"

definition running_calls :: "store_call list" where
  "running_calls =
     [ScAdmit (example_launch ''s1'' (Some ''k1'') None), store_move ''s1'' 1 LsRequested LsAuthorizing,
      store_move ''s1'' 2 LsAuthorizing LsProvisioning, store_move ''s1'' 3 LsProvisioning LsReady,
      ScIssue (example_issue CHR ''1''), ScIssue (example_issue CHR ''2''), ScIssue (example_issue CHR ''3'')]"

definition running_store :: campus_store where
  "running_store = run_store registered_store running_calls"

definition waiting_calls :: "store_call list" where
  "waiting_calls =
     [ScAdmit (example_launch ''s1'' None None), store_move ''s1'' 1 LsRequested LsAuthorizing,
      ScStop ''s1'' ''u'' ''reset'' True 20, store_move ''s1'' 2 LsAuthorizing LsTerminated,
      ScJournal (CallHold ''a'' ''t'' HoldQuarantined ''leftover'' ''j'' 30),
      ScJournal (CallHold ''b'' ''t'' HoldQuarantined ''leftover'' ''j'' 30)]"

definition waiting_store :: campus_store where
  "waiting_store = run_store registered_store waiting_calls"

lemma run_store_append: "run_store s (cs @ ds) = run_store (run_store s cs) ds"
  by (induction s cs rule: run_store.induct) simp_all

lemma registered_allowed: "store_reachable (admitted_only example_limits) registered_store"
  unfolding registered_store_def by (rule run_store_reachable) simp

lemma calls_allowed: "list_all (admitted_only example_limits) running_calls"
  "list_all (admitted_only example_limits) waiting_calls"
  by (simp_all add: running_calls_def waiting_calls_def example_launch_def store_move_def)

lemma running_steps: "store_steps (admitted_only example_limits) registered_store running_store"
  unfolding running_store_def by (rule run_store_steps [OF calls_allowed(1)])

lemma examples_allowed: "store_reachable (admitted_only example_limits) running_store"
  "store_reachable (admitted_only example_limits) waiting_store"
  unfolding running_store_def waiting_store_def registered_store_def run_store_append [symmetric]
  by (rule run_store_reachable, simp add: calls_allowed)+

section \<open>The guarantees at these stores\<close>

lemma token_rows: "map (\<lambda>t. (bk_token_id t, bk_revoked_at t)) (st_tokens running_store) =
    [(''1'', Some 150), (''2'', None), (''3'', None)]"
  by code_simp

lemma stop_answers:
  "case request_campus_lab_stop running_store ''s1'' ''u'' ''done'' False 200 of Inr _ \<Rightarrow> True | Inl _ \<Rightarrow> False"
  by code_simp



lemma tokens_bounded_witness:
  "length (filter (\<lambda>t. wl_session_id (bk_workload t) = ''s1'' \<and> bk_audience t = AudInference \<and>
       bk_revoked_at t = None) (st_tokens running_store)) \<le> 2 \<and> length (st_tokens running_store) = 3"
proof -
  have "length (st_tokens running_store) = 3" using arg_cong [OF token_rows, of length] by simp
  with tokens_bounded [OF examples_allowed(1), of "''s1''" AudInference] show ?thesis by simp
qed

lemma running_session:
  "case load_record running_store ''s1'' of
     Some f \<Rightarrow> \<not> is_terminal (ls_state (sr_session f)) \<and> lb_budget_id (sr_lab f) = ''b1'' | None \<Rightarrow> False"
  by code_simp

lemma one_live_session_per_lab_witness:
  "\<exists>f. load_record running_store ''s1'' = Some f \<and> \<not> is_terminal (ls_state (sr_session f)) \<and> is_current f"
proof -
  obtain f where f: "load_record running_store ''s1'' = Some f" "\<not> is_terminal (ls_state (sr_session f))"
    using running_session by (auto split: option.splits)
  from one_live_session_per_lab [OF examples_allowed(1) f f refl] f show ?thesis by blast
qed

lemma budget_follows_lab_witness:
  "\<exists>f'. load_record (store_apply running_store (ScStop ''s1'' ''u'' ''again'' True 200)) ''s1'' = Some f' \<and>
     lb_budget_id (sr_lab f') = ''b1''"
proof -
  obtain f where f: "load_record running_store ''s1'' = Some f" "lb_budget_id (sr_lab f) = ''b1''"
    using running_session by (auto split: option.splits)
  have "store_steps any_call running_store (store_apply running_store (ScStop ''s1'' ''u'' ''again'' True 200))"
    by (rule store_more [OF _ store_here]) simp
  from budget_follows_lab [OF examples_allowed(1) f(1) this] f(2) show ?thesis by auto
qed

lemma created_answer:
  assumes "case x of Inr (_, AdmCreated f) \<Rightarrow> P f | _ \<Rightarrow> False"
  obtains s f where "x = Inr (s, AdmCreated f)" "P f"
proof (cases x)
  case (Inr p)
  then show ?thesis using assms that by (cases p; cases "snd p") auto
qed (use assms in simp)

lemma rejected_answer:
  assumes "case x of Inr (_, AdmRejected _) \<Rightarrow> True | _ \<Rightarrow> False"
  obtains s rejection where "x = Inr (s, AdmRejected rejection)"
proof (cases x)
  case (Inr p)
  then show ?thesis using assms that by (cases p; cases "snd p") auto
qed (use assms in simp)

lemma launch_key_replays_witness:
  "\<exists>f'. admit_campus_lab_launch running_store (example_launch ''s9'' (Some ''k1'') None) =
     Inr (running_store, AdmReplayed f') \<and> ls_session_id (sr_session f') = ''s1''"
proof -
  have "case admit_campus_lab_launch registered_store (example_launch ''s1'' (Some ''k1'') None) of
      Inr (_, AdmCreated f) \<Rightarrow> ls_session_id (sr_session f) = ''s1'' | _ \<Rightarrow> False"
    by code_simp
  from created_answer [OF this] obtain s1 f where a: "admit_campus_lab_launch registered_store (example_launch ''s1'' (Some ''k1'') None) =
      Inr (s1, AdmCreated f)" "ls_session_id (sr_session f) = ''s1''"
    by blast
  have "running_store = run_store s1 (tl running_calls)"
    using a(1) by (simp add: running_store_def running_calls_def committed_store_def)
  then have steps: "store_steps any_call s1 running_store"
    by (metis list.pred_True run_store_steps)
  have ok: "admission_request_ok (example_launch ''s9'' (Some ''k1'') None)" by code_simp
  show ?thesis
    using launch_key_replays [where f = f and key = "''k1''", OF registered_allowed a(1) _ _ steps ok] a(2)
    by (simp add: example_launch_def)
qed

lemma capacity_never_exceeded_witness:
  "int (length (occupying_ids running_store ''t'' (\<lambda>_. True) (\<lambda>_. True))) \<le> 2 \<and>
   occupying_ids running_store ''t'' (\<lambda>_. True) (\<lambda>_. True) = [''s1'']"
proof -
  have "occupying_ids running_store ''t'' (\<lambda>_. True) (\<lambda>_. True) = [''s1'']" by code_simp
  moreover have "limits_ok example_limits" by code_simp
  ultimately show ?thesis
    using capacity_never_exceeded [OF examples_allowed(1), of "''t''"] by (simp add: example_limits_def)
qed

lemma waiting_reset_keeps_place_witness:
  "\<exists>s' rejection. admit_campus_lab_launch waiting_store (example_launch ''s2'' None (Some ''s1'')) =
     Inr (s', AdmRejected rejection) \<and> rejection = NoSlotsAvailable \<and>
     usable_slots (st_journal waiting_store) ''t'' < 2"
proof -
  let ?r = "example_launch ''s2'' None (Some ''s1'')"
  have "case admit_campus_lab_launch waiting_store ?r of Inr (_, AdmRejected _) \<Rightarrow> True | _ \<Rightarrow> False"
    by code_simp
  from rejected_answer [OF this] obtain s' rejection where a: "admit_campus_lab_launch waiting_store ?r = Inr (s', AdmRejected rejection)"
    by blast
  have "case request_lab waiting_store ?r of
      Some l \<Rightarrow> awaiting_reset waiting_store ''t'' l \<and> lb_current l = Some ''s1'' | None \<Rightarrow> False"
    by code_simp
  then obtain l where l: "request_lab waiting_store ?r = Some l" "awaiting_reset waiting_store ''t'' l"
    "lb_current l = Some ''s1''" by (auto split: option.splits)
  have "limits_ok example_limits" by code_simp
  from waiting_reset_keeps_place [OF examples_allowed(2) this _ l(1) _ _ a] l a show ?thesis
    by (simp add: example_launch_def example_limits_def)
qed

end
