(* ===== verification/CapabilityExamples.thy ===== *)
theory CapabilityExamples
  imports CapabilityProperties CapabilityRuntime CapabilityJournal RuntimeExamples StoreExamples
begin

text \<open>
  The broker's theorems at concrete calls: on the journal of the running example session, on the
  in-memory source with an instructor's approval, and in a run of the agent after a revocation.
\<close>

section \<open>The session\<close>

definition cap_policy :: effective_policy where
  "cap_policy = effective_policy.make
     EFFECTIVE_CAMPUS_POLICY_SCHEMA \<lparr>pr_id = ''p'', pr_version = ''1'', pr_profile_hash = ''h''\<rparr> []
     \<lparr>ec_tools = [''write_file'', ''run_workspace_command''], ec_egress = [], ec_model_aliases = [], ec_ttl_seconds = 600,
      ec_active_execution_seconds = 600, ec_cpu_millicores = 100, ec_memory_mib = 128,
      ec_ephemeral_storage_mib = 128, ec_pids = 32, ec_session_allocation_micro_usd = 1,
      ec_hard_tokens = 1, ec_max_output_tokens = 1, ec_max_concurrent_requests = 1\<rparr>
     [] (\<lambda>_. Some SrcProfile) (\<lambda>_. None) ''e''"

lemma cap_policy_simps [simp]:
  "ec_tools (ep_constraints cap_policy) = [''write_file'', ''run_workspace_command'']" "ep_mandatory_denies cap_policy = []"
  "ep_effective_policy_hash cap_policy = ''e''"
  "ep_profile cap_policy = \<lparr>pr_id = ''p'', pr_version = ''1'', pr_profile_hash = ''h''\<rparr>"
  by (simp_all add: cap_policy_def effective_policy.defs)

definition cap_authority :: session_authority where
  "cap_authority = \<lparr>sa_session_id = ''s1'', sa_course_id = ''c'',
     sa_owner = \<lparr>ac_tenant_id = ''t'', ac_identity_id = ''id1''\<rparr>, sa_policy = cap_policy, sa_expires_at = 900\<rparr>"

definition cap_claims :: session_claims where
  "cap_claims = authority_claims cap_authority"

definition cap_hashing :: hashing where
  "cap_hashing = \<lparr>hs_digest = code_json, hs_event = (\<lambda>e. JNull)\<rparr>"

definition cap_draw ::
    "(string \<Rightarrow> (string, authority_snapshot option) res) \<Rightarrow>
       (string \<Rightarrow> string \<Rightarrow> (string, trusted_approval option) res) \<Rightarrow> broker_draw" where
  "cap_draw session approval = \<lparr>bw_session = session, bw_approval = approval, bw_now = 300, bw_decided_at = 300,
     bw_run = (\<lambda>e a. Inr (ok_result JNull)), bw_finished_at = 301\<rparr>"

definition empty_sink :: memory_sink where
  "empty_sink = \<lparr>mk_events = [], mk_failing = False\<rparr>"

definition cap_write :: "json agent_action" where
  "cap_write = WriteFile ''w'' ''why'' ''./src//lib.rs'' ''text''"

definition cap_remove :: "json agent_action" where
  "cap_remove = RunWorkspaceCommand ''c'' ''why'' ''rm'' [''-rf'', ''target''] None None"

lemma sink_accepts: "\<exists>k1. memory_record e empty_sink = (Inr (), k1)"
  by (simp add: memory_record_def empty_sink_def)

lemma digest_tells_apart: "inj_on code_json {v. json_ok v}"
  by (rule inj_onI) (metis decode_text_code option.inject)

lemma cap_stands:
  assumes "session ''s1'' = Inr (Some \<lparr>sn_authority = cap_authority, sn_status = AsActive\<rparr>)"
  shows "session_stands (cap_draw session approval) cap_claims cap_authority"
  using assms by (simp add: session_stands_def cap_draw_def cap_claims_def authority_claims_def cap_authority_def)

section \<open>A write on the authority of the journal\<close>

definition cap_env :: journal_env where
  "cap_env = \<lparr>je_available = True, je_policy = (\<lambda>t c a. Some cap_policy), je_now = 300\<rparr>"

lemma running_record:
  "case load_record running_store ''s1'' of
     Some r \<Rightarrow> sr_policy_hash r = ''e'' \<and> sr_owner_identity_id r = ''id1'' \<and> ls_session_id (sr_session r) = ''s1'' \<and>
       ls_tenant_id (sr_session r) = ''t'' \<and> ls_course_id (sr_session r) = ''c'' \<and>
       ls_profile (sr_session r) = \<lparr>pr_id = ''p'', pr_version = ''1'', pr_profile_hash = ''h''\<rparr> \<and>
       ls_state (sr_session r) = LsReady \<and> ls_desired (sr_session r) = DesiredReady \<and>
       ls_revoked_at (sr_session r) = None \<and> ls_expires_at (sr_session r) = 900
   | None \<Rightarrow> False"
  by code_simp

lemma running_session_authority:
  "journal_session cap_env running_store ''s1'' = Inr (Some \<lparr>sn_authority = cap_authority, sn_status = AsActive\<rparr>)"
  using running_record
  by (cases "load_record running_store ''s1''")
    (simp_all add: journal_session_def cap_env_def journal_active cap_authority_def journal_owner_def)

definition journal_draw :: broker_draw where
  "journal_draw = cap_draw (journal_session cap_env running_store) journal_approval"

lemma write_resource: "selector_for_action cap_write = Inr (RsWorkspacePath ''src/lib.rs'')"
  by (simp add: cap_write_def selector_for_action_def path_selector_def workspace_path_def MAX_PATH_BYTES_def
      contains_char_def byte_def starts_with_def)

lemma write_authorized:
  "authorized_call (hs_digest cap_hashing) journal_draw (tool_request cap_claims cap_write) cap_authority
     (RsWorkspacePath ''src/lib.rs'')"
proof -
  have st: "session_stands journal_draw cap_claims cap_authority"
    unfolding journal_draw_def by (rule cap_stands) (rule running_session_authority)
  have "campus_permits cap_policy cap_write None"
    by (simp add: campus_permits_def cap_write_def)
  then have serves: "approval_serves (hs_digest cap_hashing) cap_authority cap_write None"
    by (simp add: approval_serves_def cap_authority_def)
  have "kind_name cap_write = ''write_file''" "\<not> references_credentials cap_write"
    by (simp_all add: cap_write_def references_credentials_def)
  with st serves write_resource show ?thesis
    by (simp add: authorized_call_def tool_request_def caller_owns_def declared_matches_def campus_kinds_def
        cap_claims_def authority_claims_def journal_draw_def cap_draw_def journal_approval_def)
qed

lemma write_runs:
  "\<exists>k1. cl_run (broker_execute cap_hashing memory_record journal_draw (tool_request cap_claims cap_write) empty_sink) =
     Some \<lparr>er_effect = authorized_of cap_authority (RsWorkspacePath ''src/lib.rs''), er_action = cap_write, er_sink = k1\<rparr>"
proof -
  obtain k1 where "memory_record (decided_event cap_hashing (tool_request cap_claims cap_write)
      (authorize (hs_digest cap_hashing) journal_draw (tool_request cap_claims cap_write)) (bw_decided_at journal_draw))
      empty_sink = (Inr (), k1)" using sink_accepts by blast
  from authorized_runs [where sink = memory_record, OF write_authorized this] show ?thesis by (auto simp: tool_request_def)
qed

lemma effect_recorded_first_witness:
  "\<exists>run. cl_run (broker_execute cap_hashing memory_record journal_draw (tool_request cap_claims cap_write) empty_sink) = Some run \<and>
     er_action run = cap_write \<and> mk_events (er_sink run) \<noteq> []"
proof -
  obtain run where r: "cl_run (broker_execute cap_hashing memory_record journal_draw (tool_request cap_claims cap_write) empty_sink) = Some run"
    using write_runs by blast
  from effect_recorded_first [OF memory_log.audit_log_axioms r] r show ?thesis by (auto simp: tool_request_def)
qed


lemma journal_grants_ready_session_witness:
  "\<exists>run r. cl_run (broker_execute cap_hashing memory_record journal_draw (tool_request cap_claims cap_write) empty_sink) = Some run \<and>
     load_record running_store ''s1'' = Some r \<and> ls_state (sr_session r) = LsReady"
proof -
  obtain run where r: "cl_run (broker_execute cap_hashing memory_record journal_draw (tool_request cap_claims cap_write) empty_sink) = Some run"
    using write_runs by blast
  have d: "bw_session journal_draw = journal_session cap_env running_store" "bw_approval journal_draw = journal_approval"
    by (simp_all add: journal_draw_def cap_draw_def)
  have "sc_session_id (cr_claims (tool_request cap_claims cap_write)) = ''s1''"
    by (simp add: tool_request_def cap_claims_def authority_claims_def cap_authority_def)
  with journal_grants_ready_session [OF examples_allowed(1) d r] r show ?thesis by auto
qed

lemma withdrawn_session_denied_witness:
  "\<exists>s1 found. request_campus_lab_stop running_store ''s1'' ''u'' ''done'' False 200 = Inr (s1, found) \<and>
     cl_run (broker_execute cap_hashing memory_record (cap_draw (journal_session cap_env s1) journal_approval)
       (tool_request cap_claims cap_write) empty_sink) = None"
proof -
  obtain s1 found where p: "request_campus_lab_stop running_store ''s1'' ''u'' ''done'' False 200 = Inr (s1, found)"
    using stop_answers by (auto split: sum.splits)
  let ?calls = "[ScJournal (CallSync ''t'' [''b'', ''a''] ''api'' 5)] @ running_calls @ [ScStop ''s1'' ''u'' ''done'' False 200]"
  have "run_store (empty_store [(''t'', ''i'', ''u'')] (\<lambda>_. ''id1'')) ?calls = s1"
    using p unfolding run_store_append registered_store_def [symmetric] running_store_def [symmetric]
    by (simp add: committed_store_def)
  moreover have "store_reachable any_call (run_store (empty_store [(''t'', ''i'', ''u'')] (\<lambda>_. ''id1'')) ?calls)"
    by (rule run_store_reachable) (simp add: list_all_iff)
  ultimately have r: "store_reachable any_call s1" by simp
  have w: "session_withdrawn s1 ''s1''"
    by (rule stopped_withdrawn [OF stop_stops [OF p store_reachable_inv [OF examples_allowed(1)]]])
  have d: "bw_session (cap_draw (journal_session cap_env s1) journal_approval) = journal_session cap_env s1"
    by (simp add: cap_draw_def)
  have c: "sc_session_id (cr_claims (tool_request cap_claims cap_write)) = ''s1''"
    by (simp add: tool_request_def cap_claims_def authority_claims_def cap_authority_def)
  from withdrawn_session_denied [where sink = memory_record and k = empty_sink and h = cap_hashing,
      OF r w store_here [where allowed = any_call] d c] p show ?thesis by blast
qed

section \<open>An instructor's approval\<close>

definition cap_approval :: trusted_approval where
  "cap_approval = \<lparr>ta_approval = \<lparr>ca_action_id = ''c'', ca_approval_kind = ApDestructive, ca_role = RoleInstructor\<rparr>,
     ta_approver = \<lparr>ac_tenant_id = ''t'', ac_identity_id = ''teacher''\<rparr>,
     ta_arguments_sha256 = arguments_sha256 code_json cap_remove\<rparr>"

definition cap_memory :: memory_source where
  "cap_memory = record_approval ''s1'' cap_approval (memory_insert cap_authority
     \<lparr>my_sessions = (\<lambda>_. None), my_approvals = (\<lambda>_. None), my_unavailable = False\<rparr>)"

definition memory_draw :: "memory_source \<Rightarrow> broker_draw" where
  "memory_draw s = cap_draw (memory_session s) (memory_approval s)"

lemma cap_memory_reads:
  "memory_session cap_memory ''s1'' = Inr (Some \<lparr>sn_authority = cap_authority, sn_status = AsActive\<rparr>)"
  "memory_approval cap_memory ''s1'' ''c'' = Inr (Some cap_approval)"
  by (simp_all add: memory_session_def memory_approval_def check_available_def cap_memory_def record_approval_def
      memory_insert_def cap_authority_def cap_approval_def)

lemma remove_class: "classify_command (command_line ''rm'' [''-rf'', ''target'']) = CcDestructiveLocal"
  "command_kind (command_line ''rm'' [''-rf'', ''target'']) = Some ApDestructive"
  by code_simp+

lemma remove_authorized:
  "authorized_call code_json (memory_draw cap_memory) (tool_request cap_claims cap_remove) cap_authority
     (RsWorkspaceCommand ''.'' ''rm'')"
proof -
  have st: "session_stands (memory_draw cap_memory) cap_claims cap_authority"
    unfolding memory_draw_def by (rule cap_stands) (rule cap_memory_reads)
  have "campus_permits cap_policy cap_remove (Some (ta_approval cap_approval))"
    by (simp add: campus_permits_def cap_remove_def command_permitted_def remove_class approved_for_def cap_approval_def)
  moreover have "approval_is_trusted code_json cap_authority cap_remove cap_approval"
    by (simp add: approval_is_trusted_def cap_approval_def cap_authority_def trusted_role_def cap_remove_def)
  ultimately have serves: "approval_serves code_json cap_authority cap_remove (Some cap_approval)"
    by (simp add: approval_serves_def cap_authority_def)
  have "selector_for_action cap_remove = Inr (RsWorkspaceCommand ''.'' ''rm'')"
    by (simp add: cap_remove_def selector_for_action_def workspace_path_def MAX_PATH_BYTES_def contains_char_def byte_def
        starts_with_def bare_executable_def MAX_EXECUTABLE_BYTES_def executable_byte_def is_ascii_alnum_def is_ascii_lower_def)
  moreover have "kind_name cap_remove = ''run_workspace_command''" "action_id cap_remove = ''c''" by (simp_all add: cap_remove_def)
  moreover have "\<not> references_credentials (RunWorkspaceCommand ''c'' ''why'' ''rm'' [''-rf'', ''target''] None None :: unit agent_action)"
    by code_simp
  then have "\<not> references_credentials cap_remove" by (simp add: references_credentials_def cap_remove_def)
  ultimately show ?thesis using st serves cap_memory_reads
    by (simp add: authorized_call_def tool_request_def caller_owns_def declared_matches_def campus_kinds_def
        cap_claims_def authority_claims_def memory_draw_def cap_draw_def) (simp add: cap_authority_def)
qed

lemma approval_binds_command_witness:
  "decision_is_allow (authorize code_json (memory_draw cap_memory) (tool_request cap_claims cap_remove)) \<and>
   (\<exists>(authority :: session_authority) ap. bw_approval (memory_draw cap_memory) (sa_session_id authority) ''c'' = Inr (Some ap) \<and>
      trusted_role ap = RoleInstructor)"
proof -
  have allow: "decision_is_allow (authorize code_json (memory_draw cap_memory) (tool_request cap_claims cap_remove))"
    unfolding authorize_allow using remove_authorized by blast
  have a: "cr_action (tool_request cap_claims cap_remove) = RunWorkspaceCommand ''c'' ''why'' ''rm'' [''-rf'', ''target''] None None"
    by (simp add: tool_request_def cap_remove_def)
  have c: "classify_command (command_line ''rm'' [''-rf'', ''target'']) \<noteq> CcSafeReadOnly" by (simp add: remove_class)
  from approval_binds_command [OF digest_tells_apart allow a c] allow show ?thesis by (auto simp: remove_class)
qed

lemma action_value_round_trip_witness: "read_action (action_value cap_remove) = Some cap_remove"
proof -
  have "action_ok cap_remove" by (simp add: action_ok_def cap_remove_def)
  moreover have "kind_name cap_remove \<in> set campus_kinds" by (simp add: campus_kinds_def cap_remove_def)
  ultimately show ?thesis by (intro action_value_round_trip)
qed


section \<open>A run after a revocation\<close>

definition revoked_memory :: memory_source where
  "revoked_memory = memory_revoke ''s1'' cap_memory"

lemma revoked_answer:
  "cl_run (session_tools_execute cap_hashing memory_record (memory_draw revoked_memory) cap_claims cap_write empty_sink) = None"
  "cl_answer (session_tools_execute cap_hashing memory_record (memory_draw revoked_memory) cap_claims cap_write empty_sink) =
     Inl (TeCapabilityDenied ''write_file'' ''session_revoked: the Campus lab session is not active'')"
proof -
  have s: "memory_session revoked_memory ''s1'' = Inr (Some \<lparr>sn_authority = cap_authority, sn_status = AsRevoked\<rparr>)"
    by (simp add: revoked_memory_def memory_revoke_def set_status_def memory_session_def check_available_def
        cap_memory_def record_approval_def memory_insert_def cap_authority_def)
  have d: "authorize digest (memory_draw revoked_memory) (tool_request cap_claims cap_write) =
      deny (Some cap_authority) CrSessionRevoked ''the Campus lab session is not active''" for digest
    using s by (simp add: authorize_def tool_request_def memory_draw_def cap_draw_def cap_claims_def authority_claims_def
        caller_refusal_def session_refusal_def Let_def cap_authority_def)
  have k: "kind_name cap_write = ''write_file''" by (simp add: cap_write_def)
  show "cl_run (session_tools_execute cap_hashing memory_record (memory_draw revoked_memory) cap_claims cap_write empty_sink) = None"
    "cl_answer (session_tools_execute cap_hashing memory_record (memory_draw revoked_memory) cap_claims cap_write empty_sink) =
     Inl (TeCapabilityDenied ''write_file'' ''session_revoked: the Campus lab session is not active'')"
    by (simp_all add: session_tools_execute_def broker_execute_def d Let_def memory_record_def empty_sink_def deny_def
        tool_answer_def k)
qed

definition denied_draw :: turn_draw where
  "denied_draw = draw_of cap_write
     (Inl (TeCapabilityDenied ''write_file'' ''session_revoked: the Campus lab session is not active''))"

definition denied_run :: "loop_state \<times> run_outcome" where
  "denied_run = run_loop silent_codec trusting_config denied_draw (\<lambda>n. denied_draw) Fresh"

lemma denied_run_ran:
  "case executed (fst denied_run) of
     [(WriteFile i r p c, result)] \<Rightarrow> i = ''w'' \<and> r = ''why'' \<and> p = ''./src//lib.rs'' \<and> c = ''text'' \<and>
       result = Inl (TeCapabilityDenied ''write_file'' ''session_revoked: the Campus lab session is not active'')
   | _ \<Rightarrow> False"
  by code_simp

lemma denied_call_ends_run_witness:
  "length (executed (fst denied_run)) = 1 \<and> ro_status (snd denied_run) = RstFailed"
proof -
  have run: "run_loop silent_codec trusting_config denied_draw (\<lambda>n. denied_draw) Fresh = (fst denied_run, snd denied_run)"
    by (simp add: denied_run_def)
  have ran: "executed (fst denied_run) = [] @ (cap_write,
      cl_answer (session_tools_execute cap_hashing memory_record (memory_draw revoked_memory) cap_claims cap_write empty_sink)) # []"
  proof -
    obtain a result rest where e: "executed (fst denied_run) = (a, result) # rest"
      using denied_run_ran by (cases "executed (fst denied_run)") auto
    show ?thesis
      using denied_run_ran unfolding e by (cases rest; cases a) (simp_all add: revoked_answer(2) [unfolded cap_write_def] cap_write_def)
  qed
  from denied_call_ends_run [OF run ran revoked_answer(1)] ran show ?thesis by simp
qed

end
