(* ===== verification/OsFiles.thy ===== *)
theory OsFiles
  imports Utf8
begin

text \<open>
  The file system as \<open>std::fs\<close> and \<open>std::path\<close> present it on Linux: a tree of directories, files
  and symbolic links, the resolution of a path by the kernel, and the calls the tools make. A path is
  its bytes; a resolved path is the list of its names below the root. A call can fail for reasons outside
  the tree (permissions, space): the environment says which.
\<close>

section \<open>The tree\<close>

datatype os_node = NFile string | NDir | NLink string

type_synonym os_path = "string list"
type_synonym os_files = "os_path \<Rightarrow> os_node option"

definition plain_os_name :: "string \<Rightarrow> bool" where
  "plain_os_name c \<longleftrightarrow> c \<noteq> [] \<and> c \<noteq> ''.'' \<and> c \<noteq> ''..'' \<and> CHR ''/'' \<notin> set c"

definition tree_ok :: "os_files \<Rightarrow> bool" where
  "tree_ok fs \<longleftrightarrow> fs [] = Some NDir \<and>
     (\<forall>p c. fs (p @ [c]) \<noteq> None \<longrightarrow> fs p = Some NDir \<and> plain_os_name c)"

datatype os_error = ENoEnt | ENotDir | EIsDir | EExist | ELoop | EBusy | EInvalidData | EOther string

fun os_error_str :: "os_error \<Rightarrow> string" where
  "os_error_str ENoEnt = ''No such file or directory (os error 2)''"
| "os_error_str ENotDir = ''Not a directory (os error 20)''"
| "os_error_str EIsDir = ''Is a directory (os error 21)''"
| "os_error_str EExist = ''File exists (os error 17)''"
| "os_error_str ELoop = ''Too many levels of symbolic links (os error 40)''"
| "os_error_str EBusy = ''Device or resource busy (os error 16)''"
| "os_error_str EInvalidData = ''stream did not contain valid UTF-8''"
| "os_error_str (EOther m) = m"

section \<open>Paths\<close>

definition is_absolute :: "string \<Rightarrow> bool" where
  "is_absolute p \<longleftrightarrow> starts_with p ''/''"

text \<open>\<open>Path::components\<close> after the root: empty and \<open>.\<close> segments vanish, but for a leading \<open>.\<close>\<close>

definition path_comps :: "string \<Rightarrow> string list" where
  "path_comps p =
     (let segs = split_on CHR ''/'' p in
      (if hd segs = ''.'' then [''.''] else []) @ filter (\<lambda>s. s \<noteq> [] \<and> s \<noteq> ''.'') segs)"

definition path_of :: "bool \<Rightarrow> string list \<Rightarrow> string" where
  "path_of absolute comps = (if absolute then ''/'' else []) @ join ''/'' comps"

text \<open>The path of resolved names, and \<open>PathBuf::join\<close> with a relative path.\<close>

definition path_str :: "os_path \<Rightarrow> string" where
  "path_str q = path_of True q"

definition path_join :: "string \<Rightarrow> string \<Rightarrow> string" where
  "path_join base p =
     (if is_absolute p then p
      else if base = [] \<or> ends_with base ''/'' then base @ p else base @ ''/'' @ p)"

definition path_parent :: "string \<Rightarrow> string option" where
  "path_parent p =
     (let comps = path_comps p in
      if comps = [] then None else Some (path_of (is_absolute p) (butlast comps)))"

definition path_file_name :: "string \<Rightarrow> string option" where
  "path_file_name p =
     (let comps = path_comps p in
      if comps = [] \<or> last comps = ''..'' \<or> last comps = ''.'' then None else Some (last comps))"

text \<open>A name split at its last dot; a dot in front does not count.\<close>

definition split_name :: "string \<Rightarrow> string \<times> string option" where
  "split_name name =
     (case rsplit_once CHR ''.'' name of
        None \<Rightarrow> (name, None)
      | Some (stem, ext) \<Rightarrow> if stem = [] then (name, None) else (stem, Some ext))"

definition path_extension :: "string \<Rightarrow> string option" where
  "path_extension p = (case path_file_name p of None \<Rightarrow> None | Some name \<Rightarrow> snd (split_name name))"

definition with_extension :: "string \<Rightarrow> string \<Rightarrow> string" where
  "with_extension p ext =
     (case path_file_name p of
        None \<Rightarrow> p
      | Some name \<Rightarrow>
          path_of (is_absolute p) (butlast (path_comps p) @ [fst (split_name name) @ ''.'' @ ext]))"

section \<open>Resolution\<close>

text \<open>
  The kernel's walk: from a directory along segments, following at most \<open>n\<close> links; the last segment is
  followed when \<open>follow\<close> is set, and may name nothing.
\<close>

definition link_start :: "os_path \<Rightarrow> string \<Rightarrow> os_path" where
  "link_start cur target = (if is_absolute target then [] else cur)"

function walk_path :: "os_files \<Rightarrow> bool \<Rightarrow> nat \<Rightarrow> os_path \<Rightarrow> string list \<Rightarrow> (os_error, os_path) res" where
  "walk_path fs follow n cur [] = Inr cur"
| "walk_path fs follow n cur (c # cs) =
     (if fs cur \<noteq> Some NDir then Inl ENotDir
      else if c = [] \<or> c = ''.'' then walk_path fs follow n cur cs
      else if c = ''..'' then walk_path fs follow n (butlast cur) cs
      else case fs (cur @ [c]) of
          None \<Rightarrow> if cs = [] then Inr (cur @ [c]) else Inl ENoEnt
        | Some (NLink target) \<Rightarrow>
            if cs = [] \<and> \<not> follow then Inr (cur @ [c])
            else if n = 0 then Inl ELoop
            else walk_path fs follow (n - 1) (link_start cur target) (split_on CHR ''/'' target @ cs)
        | Some _ \<Rightarrow> walk_path fs follow n (cur @ [c]) cs)"
  by pat_completeness auto
termination
  by (relation "measures [\<lambda>(fs, follow, n, cur, cs). n, \<lambda>(fs, follow, n, cur, cs). length cs]") auto

declare walk_path.simps [simp del]

definition MAX_LINKS :: nat where "MAX_LINKS = 40"

text \<open>A call of the program, so that the environment can make it fail.\<close>

datatype os_call =
    CallCanonicalize string | CallRead string | CallCreate string | CallWrite string | CallSync string
  | CallRename string string | CallMkdir string

record os_env =
  oe_cwd :: os_path
  oe_fault :: "os_call \<Rightarrow> string option"
  oe_written :: nat

definition faulty :: "os_env \<Rightarrow> os_call \<Rightarrow> (os_error, unit) res" where
  "faulty e call = (case oe_fault e call of None \<Rightarrow> Inr () | Some m \<Rightarrow> Inl (EOther m))"

definition locate :: "os_env \<Rightarrow> os_files \<Rightarrow> bool \<Rightarrow> string \<Rightarrow> (os_error, os_path) res" where
  "locate e fs follow p =
     (if p = [] then Inl ENoEnt
      else walk_path fs follow MAX_LINKS (if is_absolute p then [] else oe_cwd e) (split_on CHR ''/'' p))"

section \<open>Calls\<close>

definition canonicalize_path :: "os_env \<Rightarrow> os_files \<Rightarrow> string \<Rightarrow> (os_error, os_path) res" where
  "canonicalize_path e fs p =
     res_bind (faulty e (CallCanonicalize p)) (\<lambda>_.
     res_bind (locate e fs True p) (\<lambda>q. if fs q = None then Inl ENoEnt else Inr q))"

definition path_is_dir :: "os_env \<Rightarrow> os_files \<Rightarrow> string \<Rightarrow> bool" where
  "path_is_dir e fs p \<longleftrightarrow> (case locate e fs True p of Inl _ \<Rightarrow> False | Inr q \<Rightarrow> fs q = Some NDir)"

definition path_is_file :: "os_env \<Rightarrow> os_files \<Rightarrow> string \<Rightarrow> bool" where
  "path_is_file e fs p \<longleftrightarrow>
     (case locate e fs True p of Inl _ \<Rightarrow> False
      | Inr q \<Rightarrow> (case fs q of Some (NFile _) \<Rightarrow> True | _ \<Rightarrow> False))"

definition read_bytes :: "os_env \<Rightarrow> os_files \<Rightarrow> string \<Rightarrow> (os_error, string) res" where
  "read_bytes e fs p =
     res_bind (faulty e (CallRead p)) (\<lambda>_.
     res_bind (locate e fs True p) (\<lambda>q.
       case fs q of Some (NFile b) \<Rightarrow> Inr b | None \<Rightarrow> Inl ENoEnt | Some _ \<Rightarrow> Inl EIsDir))"

definition read_to_string :: "os_env \<Rightarrow> os_files \<Rightarrow> string \<Rightarrow> (os_error, string) res" where
  "read_to_string e fs p =
     res_bind (read_bytes e fs p) (\<lambda>b. if utf8_valid b then Inr b else Inl EInvalidData)"

text \<open>\<open>File::create\<close> opens what the path leads to, links included, and empties it.\<close>

definition create_file :: "os_env \<Rightarrow> os_files \<Rightarrow> string \<Rightarrow> (os_error, os_path \<times> os_files) res" where
  "create_file e fs p =
     res_bind (faulty e (CallCreate p)) (\<lambda>_.
     res_bind (locate e fs True p) (\<lambda>q.
       if fs q = Some NDir then Inl EIsDir else Inr (q, fs(q \<mapsto> NFile []))))"

text \<open>A failing write leaves the bytes written before the failure.\<close>

definition write_all :: "os_env \<Rightarrow> os_files \<Rightarrow> string \<Rightarrow> os_path \<Rightarrow> string \<Rightarrow> os_files \<times> (os_error, unit) res" where
  "write_all e fs p q content =
     (case faulty e (CallWrite p) of
        Inl err \<Rightarrow> (fs(q \<mapsto> NFile (take (oe_written e) content)), Inl err)
      | Inr u \<Rightarrow> (fs(q \<mapsto> NFile content), Inr ()))"

definition last_special :: "string \<Rightarrow> bool" where
  "last_special p \<longleftrightarrow> (let l = last (split_on CHR ''/'' p) in l = [] \<or> l = ''.'' \<or> l = ''..'')"

text \<open>
  \<open>rename\<close> of a file or link. It names directory entries: a link at either end is the entry itself. The
  tools rename only what they created, so a directory as the source is refused here.
\<close>

definition rename_path :: "os_env \<Rightarrow> os_files \<Rightarrow> string \<Rightarrow> string \<Rightarrow> (os_error, os_files) res" where
  "rename_path e fs a b =
     res_bind (faulty e (CallRename a b)) (\<lambda>_.
     res_bind (locate e fs False a) (\<lambda>qa.
     res_bind (locate e fs False b) (\<lambda>qb.
       case fs qa of
         None \<Rightarrow> Inl ENoEnt
       | Some NDir \<Rightarrow> Inl EIsDir
       | Some node \<Rightarrow>
           if fs qb = Some NDir then Inl EIsDir
           else if last_special a \<or> last_special b then Inl ENotDir
           else Inr ((fs(qa := None))(qb \<mapsto> node)))))"

text \<open>
  \<open>mkdir\<close> does not follow a link at the last name. \<open>create_dir_all\<close> makes the missing parents first; its
  last argument is the components of the path from the last to the first.
\<close>

definition make_dir :: "os_env \<Rightarrow> os_files \<Rightarrow> string \<Rightarrow> (os_error, os_files) res" where
  "make_dir e fs p =
     res_bind (faulty e (CallMkdir p)) (\<lambda>_.
     res_bind (locate e fs False p) (\<lambda>q.
       if fs q = None then Inr (fs(q \<mapsto> NDir)) else Inl EExist))"

fun create_dirs :: "os_env \<Rightarrow> os_files \<Rightarrow> string \<Rightarrow> string list \<Rightarrow> os_files \<times> (os_error, unit) res" where
  "create_dirs e fs p rcomps =
     (if p = [] then (fs, Inr ())
      else case make_dir e fs p of
          Inr fs1 \<Rightarrow> (fs1, Inr ())
        | Inl err \<Rightarrow>
            if err \<noteq> ENoEnt then (fs, if path_is_dir e fs p then Inr () else Inl err)
            else case rcomps of
                [] \<Rightarrow> (fs, Inl (EOther ''failed to create whole tree''))
              | c # rest \<Rightarrow>
                  (case create_dirs e fs (path_of (is_absolute p) (rev rest)) rest of
                     (fs1, Inl err1) \<Rightarrow> (fs1, Inl err1)
                   | (fs1, Inr u) \<Rightarrow>
                       (case make_dir e fs1 p of
                          Inr fs2 \<Rightarrow> (fs2, Inr ())
                        | Inl err2 \<Rightarrow> (fs1, if path_is_dir e fs1 p then Inr () else Inl err2))))"

declare create_dirs.simps [simp del]

definition create_dir_all :: "os_env \<Rightarrow> os_files \<Rightarrow> string \<Rightarrow> os_files \<times> (os_error, unit) res" where
  "create_dir_all e fs p = create_dirs e fs p (rev (path_comps p))"

section \<open>What a walk finds\<close>

lemma tree_ok_parent: "tree_ok fs \<Longrightarrow> fs (p @ [c]) = Some node \<Longrightarrow> fs p = Some NDir \<and> plain_os_name c"
  unfolding tree_ok_def by blast

lemma tree_ok_root: "tree_ok fs \<Longrightarrow> fs [] = Some NDir"
  by (simp add: tree_ok_def)

lemma tree_ok_butlast: "tree_ok fs \<Longrightarrow> fs p \<noteq> None \<Longrightarrow> p \<noteq> [] \<Longrightarrow> fs (butlast p) = Some NDir"
  by (metis append_butlast_last_id option.exhaust tree_ok_parent)

lemma tree_ok_prefix: "tree_ok fs \<Longrightarrow> fs (p @ c # q) \<noteq> None \<Longrightarrow> fs p = Some NDir"
proof (induction q arbitrary: c rule: rev_induct)
  case Nil
  then show ?case using tree_ok_parent by fastforce
next
  case (snoc x q)
  then have "fs ((p @ c # q) @ [x]) \<noteq> None" by simp
  then have "fs (p @ c # q) \<noteq> None" using snoc.prems(1) tree_ok_parent by fastforce
  with snoc show ?case by blast
qed

lemma tree_ok_names: "tree_ok fs \<Longrightarrow> fs q \<noteq> None \<Longrightarrow> c \<in> set q \<Longrightarrow> plain_os_name c"
proof (induction q rule: rev_induct)
  case (snoc x q)
  then have "fs q = Some NDir \<and> plain_os_name x" using tree_ok_parent by fastforce
  with snoc show ?case by auto
qed simp

text \<open>A property that survives the moves of a walk holds where it ends.\<close>

lemma walk_path_inv:
  assumes "walk_path fs follow n cur segs = Inr q" "P cur" "P []" "\<forall>s\<in>set segs. CHR ''/'' \<notin> set s"
    and "\<And>cur. fs cur = Some NDir \<Longrightarrow> P cur \<Longrightarrow> P (butlast cur)"
    and "\<And>cur c. fs cur = Some NDir \<Longrightarrow> P cur \<Longrightarrow> plain_os_name c \<Longrightarrow>
          \<not> follow \<or> (\<forall>t. fs (cur @ [c]) \<noteq> Some (NLink t)) \<Longrightarrow> P (cur @ [c])"
  shows "P q"
  using assms
proof (induction fs follow n cur segs rule: walk_path.induct [case_names Nil Cons])
  case (Nil fs follow n cur)
  then show ?case by (simp add: walk_path.simps)
next
  case (Cons fs follow n cur c cs)
  have dir: "fs cur = Some NDir"
    using Cons.prems(1) by (simp add: walk_path.simps split: if_splits)
  have cs: "\<forall>s\<in>set cs. CHR ''/'' \<notin> set s" "CHR ''/'' \<notin> set c" using Cons.prems(4) by auto
  consider (skip) "c = [] \<or> c = ''.''" | (up) "c = ''..''" | (name) "plain_os_name c"
    using cs(2) by (auto simp: plain_os_name_def)
  then show ?case
  proof cases
    case skip
    then have "walk_path fs follow n cur cs = Inr q"
      using Cons.prems(1) dir by (auto simp: walk_path.simps(2))
    from Cons.IH(1) [OF _ skip this Cons.prems(2,3) cs(1) Cons.prems(5,6)] show ?thesis using dir by simp
  next
    case up
    then have "walk_path fs follow n (butlast cur) cs = Inr q"
      using Cons.prems(1) dir by (simp add: walk_path.simps(2))
    from Cons.IH(2) [OF _ _ up this Cons.prems(5) [OF dir Cons.prems(2)] Cons.prems(3) cs(1) Cons.prems(5,6)]
    show ?thesis using dir up by simp
  next
    case name
    then have c: "c \<noteq> []" "c \<noteq> ''.''" "c \<noteq> ''..''" by (auto simp: plain_os_name_def)
    note walk = Cons.prems(1) [unfolded walk_path.simps(2), simplified dir c, simplified]
    show ?thesis
    proof (cases "fs (cur @ [c])")
      case None
      with walk show ?thesis
        using Cons.prems(6) [OF dir Cons.prems(2) name] by (auto split: if_splits)
    next
      case (Some node)
      show ?thesis
      proof (cases node)
        case (NLink t)
        have segs: "\<forall>s\<in>set (split_on CHR ''/'' t @ cs). CHR ''/'' \<notin> set s"
          using cs(1) by (auto dest: split_on_no_sep)
        have start: "P (link_start cur t)" using Cons.prems(2,3) by (simp add: link_start_def)
        show ?thesis
        proof (cases "cs = [] \<and> \<not> follow")
          case True
          then show ?thesis
            using walk Some NLink Cons.prems(6) [OF dir Cons.prems(2) name] by auto
        next
          case False
          with walk Some NLink have n: "n \<noteq> 0"
            and w: "walk_path fs follow (n - 1) (link_start cur t) (split_on CHR ''/'' t @ cs) = Inr q"
            by (auto split: if_splits)
          show ?thesis
            by (rule Cons.IH(5) [OF _ _ _ Some NLink False n w start Cons.prems(3) segs Cons.prems(5,6)])
              (use dir c in auto)
        qed
      next
        case (NFile b)
        with walk Some have w: "walk_path fs follow n (cur @ [c]) cs = Inr q" by simp
        show ?thesis
          by (rule Cons.IH(3) [OF _ _ _ Some NFile w _ Cons.prems(3) cs(1) Cons.prems(5,6)])
            (use dir c name Some NFile Cons.prems(2,6) in auto)
      next
        case NDir
        with walk Some have w: "walk_path fs follow n (cur @ [c]) cs = Inr q" by simp
        show ?thesis
          by (rule Cons.IH(4) [OF _ _ _ Some NDir w _ Cons.prems(3) cs(1) Cons.prems(5,6)])
            (use dir c name Some NDir Cons.prems(2,6) in auto)
      qed
    qed
  qed
qed

text \<open>Where a path leads: below a directory, and to no link when links are followed.\<close>

definition entry_place :: "os_files \<Rightarrow> os_path \<Rightarrow> bool" where
  "entry_place fs q \<longleftrightarrow> q = [] \<or> fs (butlast q) = Some NDir \<and> plain_os_name (last q)"

definition env_ok :: "os_env \<Rightarrow> os_files \<Rightarrow> bool" where
  "env_ok e fs \<longleftrightarrow> tree_ok fs \<and> fs (oe_cwd e) = Some NDir"

lemma tree_entry_place: "tree_ok fs \<Longrightarrow> fs q \<noteq> None \<Longrightarrow> entry_place fs q"
  unfolding entry_place_def by (metis append_butlast_last_id option.exhaust tree_ok_parent)

lemma locate_place:
  assumes "env_ok e fs" "locate e fs follow p = Inr q"
  shows "entry_place fs q"
proof -
  from assms(1) have ok: "tree_ok fs" "fs (oe_cwd e) = Some NDir" by (simp_all add: env_ok_def)
  from assms(2) have w: "walk_path fs follow MAX_LINKS (if is_absolute p then [] else oe_cwd e)
      (split_on CHR ''/'' p) = Inr q"
    by (simp add: locate_def split: if_splits)
  show ?thesis
  proof (rule walk_path_inv [OF w])
    fix cur
    assume "fs cur = Some NDir"
    then have "cur = [] \<or> fs (butlast cur) = Some NDir" using tree_ok_butlast [OF ok(1), of cur] by auto
    then show "entry_place fs (butlast cur)"
      using tree_entry_place [OF ok(1), of "butlast cur"] by (auto simp: entry_place_def)
  qed (auto simp: entry_place_def ok tree_ok_root dest: split_on_no_sep
      intro!: tree_entry_place [OF ok(1), unfolded entry_place_def])
qed

lemma locate_no_link:
  assumes "env_ok e fs" "locate e fs True p = Inr q"
  shows "fs q \<noteq> Some (NLink t)"
proof -
  from assms(1) have ok: "tree_ok fs" "fs (oe_cwd e) = Some NDir" by (simp_all add: env_ok_def)
  from assms(2) have w: "walk_path fs True MAX_LINKS (if is_absolute p then [] else oe_cwd e)
      (split_on CHR ''/'' p) = Inr q"
    by (simp add: locate_def split: if_splits)
  have "\<forall>t. fs q \<noteq> Some (NLink t)"
  proof (rule walk_path_inv [OF w])
    fix cur
    assume "fs cur = Some NDir"
    then have "fs (butlast cur) = Some NDir" using tree_ok_butlast [OF ok(1), of cur] by (cases "cur = []") auto
    then show "\<forall>t. fs (butlast cur) \<noteq> Some (NLink t)" by simp
  qed (auto simp: ok tree_ok_root dest: split_on_no_sep)
  then show ?thesis by simp
qed

text \<open>The path of resolved names leads back to them.\<close>

lemma walk_path_names:
  assumes "tree_ok fs" "fs (cur @ segs) \<noteq> None \<or> segs \<noteq> [] \<and> entry_place fs (cur @ segs)"
    "\<forall>t. fs (cur @ segs) \<noteq> Some (NLink t) \<or> segs \<noteq> [] \<and> \<not> follow"
  shows "walk_path fs follow n cur segs = Inr (cur @ segs)"
  using assms(2,3)
proof (induction segs arbitrary: cur)
  case Nil
  then show ?case by (simp add: walk_path.simps)
next
  case (Cons c cs)
  have dir: "fs cur = Some NDir"
  proof (cases "fs (cur @ c # cs) = None")
    case True
    with Cons.prems(1) have "fs (cur @ butlast (c # cs)) = Some NDir"
      by (simp add: entry_place_def butlast_append split: if_splits)
    then show ?thesis
      using tree_ok_prefix [OF assms(1), of cur "hd (butlast (c # cs))" "tl (butlast (c # cs))"]
      by (cases "butlast (c # cs)") auto
  next
    case False
    with tree_ok_prefix [OF assms(1)] show ?thesis by blast
  qed
  have name: "plain_os_name c"
  proof (cases "fs (cur @ c # cs) = None")
    case True
    with Cons.prems(1) have p: "entry_place fs (cur @ c # cs)" by blast
    show ?thesis
    proof (cases "cs = []")
      case True
      with p show ?thesis by (simp add: entry_place_def)
    next
      case False
      with p have "fs (cur @ c # butlast cs) \<noteq> None" by (simp add: entry_place_def butlast_append)
      then show ?thesis by (rule tree_ok_names [OF assms(1)]) simp
    qed
  next
    case False
    then show ?thesis by (rule tree_ok_names [OF assms(1)]) simp
  qed
  then have c: "c \<noteq> []" "c \<noteq> ''.''" "c \<noteq> ''..''" by (auto simp: plain_os_name_def)
  have rest: "walk_path fs follow n (cur @ [c]) cs = Inr (cur @ c # cs)" if "cs \<noteq> [] \<or> fs (cur @ [c]) \<noteq> None"
    "\<forall>t. fs (cur @ [c]) \<noteq> Some (NLink t)"
  proof -
    have "walk_path fs follow n (cur @ [c]) cs = Inr ((cur @ [c]) @ cs)"
      by (rule Cons.IH) (use Cons.prems that in auto)
    then show ?thesis by simp
  qed
  have inner: "cs \<noteq> [] \<Longrightarrow> fs (cur @ [c]) = Some NDir"
  proof -
    assume "cs \<noteq> []"
    show ?thesis
    proof (cases "fs (cur @ c # cs) = None")
      case True
      with Cons.prems(1) \<open>cs \<noteq> []\<close> have "fs (cur @ c # butlast cs) = Some NDir"
        by (simp add: entry_place_def butlast_append)
      then show ?thesis
        using tree_ok_prefix [OF assms(1), of "cur @ [c]" "hd (butlast cs)" "tl (butlast cs)"]
        by (cases "butlast cs") auto
    next
      case False
      then show ?thesis
        using tree_ok_prefix [OF assms(1), of "cur @ [c]" "hd cs" "tl cs"] \<open>cs \<noteq> []\<close> by (cases cs) auto
    qed
  qed
  show ?case
  proof (cases "cs = []")
    case True
    with Cons.prems show ?thesis
      by (auto simp: walk_path.simps dir c split: option.splits os_node.splits)
  next
    case False
    with inner rest show ?thesis by (simp add: walk_path.simps(2) dir c)
  qed
qed

lemma split_path_str:
  "list_all plain_os_name q \<Longrightarrow> split_on CHR ''/'' (path_str q) = [] # (if q = [] then [[]] else q)"
  by (simp add: path_str_def path_of_def split_on_join list_all_iff plain_os_name_def)

lemma is_absolute_path_str [simp]: "is_absolute (path_str q)"
  by (simp add: is_absolute_def starts_with_def path_str_def path_of_def)

lemma place_names:
  assumes "tree_ok fs" "fs q \<noteq> None \<or> entry_place fs q"
  shows "list_all plain_os_name q"
proof (cases "fs q = None")
  case True
  with assms have q: "q \<noteq> []" "fs (butlast q) \<noteq> None" "plain_os_name (last q)"
    by (auto simp: entry_place_def tree_ok_root)
  show ?thesis
    using tree_ok_names [OF assms(1) q(2)] q(1,3) by (cases q rule: rev_cases) (auto simp: list_all_iff)
next
  case False
  then show ?thesis using tree_ok_names [OF assms(1)] by (auto simp: list_all_iff)
qed

lemma locate_path_str:
  assumes "tree_ok fs" "fs q \<noteq> None \<or> entry_place fs q" "\<forall>t. fs q \<noteq> Some (NLink t) \<or> \<not> follow"
  shows "locate e fs follow (path_str q) = Inr q"
proof -
  have root: "fs [] = Some NDir" by (rule tree_ok_root [OF assms(1)])
  have names: "list_all plain_os_name q" by (rule place_names [OF assms(1,2)])
  have "walk_path fs follow MAX_LINKS [] q = Inr ([] @ q)"
    by (rule walk_path_names [OF assms(1)]) (use assms root in \<open>cases "q = []"; auto\<close>)+
  then show ?thesis
    using root split_path_str [OF names]
    by (auto simp: locate_def path_str_def path_of_def walk_path.simps is_absolute_def starts_with_def)
qed

section \<open>Walks in parts\<close>

definition skipped :: "string \<Rightarrow> bool" where
  "skipped s \<longleftrightarrow> s = [] \<or> s = ''.''"

lemma walk_path_skip: "skipped s \<Longrightarrow> ys \<noteq> [] \<Longrightarrow> walk_path fs follow n cur (s # ys) = walk_path fs follow n cur ys"
  by (cases ys) (auto simp: walk_path.simps(2) skipped_def)

text \<open>After a walk that ended, the rest of the path goes on from there with the links that remain.\<close>

lemma walk_path_append:
  assumes "walk_path fs True n cur xs = Inr q" "fs q \<noteq> None" "ys \<noteq> []"
  shows "\<exists>m\<le>n. walk_path fs follow n cur (xs @ ys) = walk_path fs follow m q ys"
  using assms(1)
proof (induction n arbitrary: cur xs rule: less_induct)
  case (less n)
  show ?case
    using less.prems
  proof (induction xs arbitrary: cur)
    case Nil
    then show ?case by (auto simp: walk_path.simps(1))
  next
    case (Cons c cs)
    have dir: "fs cur = Some NDir" using Cons.prems by (simp add: walk_path.simps split: if_splits)
    consider (skip) "c = [] \<or> c = ''.''" | (up) "c = ''..''" | (name) "c \<noteq> []" "c \<noteq> ''.''" "c \<noteq> ''..''"
      by auto
    then show ?case
    proof cases
      case skip
      with Cons dir show ?thesis by (auto simp: walk_path.simps(2))
    next
      case up
      with Cons dir show ?thesis by (auto simp: walk_path.simps(2))
    next
      case name
      note walk = Cons.prems [unfolded walk_path.simps(2), simplified dir name, simplified]
      show ?thesis
      proof (cases "fs (cur @ [c])")
        case None
        with walk assms(2) show ?thesis by (auto split: if_splits)
      next
        case (Some node)
        show ?thesis
        proof (cases node)
          case (NLink t)
          with walk Some have n: "n - 1 < n"
            and w: "walk_path fs True (n - 1) (link_start cur t) (split_on CHR ''/'' t @ cs) = Inr q"
            by (auto split: if_splits)
          from less.IH [OF n w] obtain m where "m \<le> n - 1" "walk_path fs follow (n - 1) (link_start cur t)
              ((split_on CHR ''/'' t @ cs) @ ys) = walk_path fs follow m q ys" by blast
          with n show ?thesis
            using dir name Some NLink assms(3) by (intro exI [of _ m]) (simp add: walk_path.simps(2))
        qed (use Cons dir name Some walk in \<open>auto simp: walk_path.simps(2)\<close>)
      qed
    qed
  qed
qed

lemma filter_last_ne: "segs \<noteq> [] \<Longrightarrow> P (last segs) \<Longrightarrow> filter P segs \<noteq> []"
  by (metis (mono_tags, lifting) filter_empty_conv last_in_set)

lemma walk_path_filter:
  assumes "segs \<noteq> []" "\<not> skipped (last segs)"
  shows "walk_path fs follow n cur (pre @ segs) =
    walk_path fs follow n cur (pre @ filter (\<lambda>s. \<not> skipped s) segs)"
  using assms
proof (induction n arbitrary: cur pre segs rule: less_induct)
  case (less n)
  note outer = less.IH
  show ?case
  proof (induction pre arbitrary: cur)
    case (Cons p pre)
    show ?case
      unfolding append_Cons walk_path.simps(2)
      using Cons outer [OF _ less.prems, of "n - 1" "link_start cur t" "split_on CHR ''/'' t @ pre" for t]
        less.prems(1) filter_last_ne [OF less.prems(1), of "\<lambda>s. \<not> skipped s", OF less.prems(2)]
      by (auto split: option.splits os_node.splits simp: walk_path.simps(1))
  next
    case Nil
    show ?case
      using less.prems
    proof (induction segs arbitrary: cur)
      case (Cons s segs)
      show ?case
      proof (cases "segs = []")
        case True
        with Cons.prems show ?thesis by simp
      next
        case False
        then have last: "\<not> skipped (last segs)" using Cons.prems by simp
        note ih = Cons.IH [OF False last] and ne = filter_last_ne [OF False, of "\<lambda>s. \<not> skipped s", OF last]
        show ?thesis
        proof (cases "skipped s")
          case True
          then show ?thesis using ih False by (simp add: walk_path_skip)
        next
          case s: False
          show ?thesis
            using ih ne False s outer [OF _ False last, of "n - 1" "link_start cur t" "split_on CHR ''/'' t" for t]
            by (auto simp: walk_path.simps(2) skipped_def split: option.splits os_node.splits)
        qed
      qed
    qed simp
  qed
qed

end
