(* ===== verification/FsTools.thy ===== *)
theory FsTools
  imports ContextPack OsFiles
begin

text \<open>
  \<open>tools/fs.rs\<close>: the tools that list, read, search, write and patch files of the workspace. The
  directory walk of the \<open>ignore\<close> crate is a parameter: what it yields for a root and a depth. SHA-256 of a
  file's bytes, in hexadecimal, is a parameter.
\<close>

section \<open>The tools and their paths\<close>

record fs_tools =
  ft_workspace_root :: string
  ft_canonical_root :: os_path

definition io_error :: "string \<Rightarrow> os_error \<Rightarrow> tool_error" where
  "io_error what err = TeIo (what @ '': '' @ os_error_str err)"

definition fs_tools_new :: "os_env \<Rightarrow> os_files \<Rightarrow> string \<Rightarrow> (tool_error, fs_tools) res" where
  "fs_tools_new e fs workspace_root =
     res_bind (map_err (io_error ''failed to canonicalize workspace root'') (canonicalize_path e fs workspace_root))
       (\<lambda>q. Inr \<lparr>ft_workspace_root = workspace_root, ft_canonical_root = q\<rparr>)"

definition resolve_existing :: "os_env \<Rightarrow> os_files \<Rightarrow> fs_tools \<Rightarrow> string \<Rightarrow> (tool_error, os_path) res" where
  "resolve_existing e fs t path =
     (let candidate =
            (if path = [] \<or> path = ''.'' then ft_workspace_root t
             else if is_absolute path then path else path_join (ft_workspace_root t) path) in
      res_bind (map_err (io_error (''failed to canonicalize '' @ path)) (canonicalize_path e fs candidate)) (\<lambda>q.
        if \<not> prefix (ft_canonical_root t) q then Inl (TeOutsideWorkspace path) else Inr q))"

definition resolve_for_write :: "os_env \<Rightarrow> os_files \<Rightarrow> fs_tools \<Rightarrow> string \<Rightarrow> (tool_error, string) res" where
  "resolve_for_write e fs t path =
     (let candidate = (if is_absolute path then path else path_join (ft_workspace_root t) path) in
      res_bind (ok_or (path_parent candidate) (TeIo (''write path has no parent: '' @ path))) (\<lambda>parent.
      res_bind (map_err (io_error (''failed to canonicalize parent for '' @ path)) (canonicalize_path e fs parent)) (\<lambda>q.
        if \<not> prefix (ft_canonical_root t) q then Inl (TeOutsideWorkspace path) else Inr candidate)))"

text \<open>A leading slash of the path outside the workspace is trimmed; names may be any bytes.\<close>

definition display_path :: "fs_tools \<Rightarrow> os_path \<Rightarrow> string" where
  "display_path t q =
     (let shown = (if prefix (ft_canonical_root t) q then join ''/'' (drop (length (ft_canonical_root t)) q)
                   else path_str q)
      in dropWhile (\<lambda>c. c = CHR ''/'') (utf8_lossy shown))"

section \<open>Listing and searching\<close>

datatype file_type = FtDir | FtOther

text \<open>What the walk yields: an error, or an entry with the type of the entry itself (a link is no directory).\<close>

datatype walk_item = WalkError string | WalkEntry os_path "file_type option"

type_synonym walker = "os_path \<Rightarrow> nat option \<Rightarrow> walk_item list"

definition IGNORED_NAMES :: "string list" where
  "IGNORED_NAMES = [''.git'', ''target'', ''node_modules'', ''.pharness'']"

definition should_ignore_path :: "os_path \<Rightarrow> bool" where
  "should_ignore_path q \<longleftrightarrow> list_ex (\<lambda>c. c \<in> set IGNORED_NAMES) q"

definition clamp_nat :: "nat \<Rightarrow> nat \<Rightarrow> nat \<Rightarrow> nat" where
  "clamp_nat lo hi n = (if n < lo then lo else if hi < n then hi else n)"

definition opt_nat :: "'a::len word option \<Rightarrow> nat \<Rightarrow> nat" where
  "opt_nat w d = (case w of None \<Rightarrow> d | Some x \<Rightarrow> unat x)"

text \<open>The entries found so far, each a path and a kind, and whether the walk was cut short.\<close>

fun collect_entries ::
    "fs_tools \<Rightarrow> os_path \<Rightarrow> nat \<Rightarrow> walk_item list \<Rightarrow> (string \<times> string) list
       \<Rightarrow> (tool_error, (string \<times> string) list \<times> bool) res" where
  "collect_entries t root limit [] found = Inr (found, False)"
| "collect_entries t root limit (WalkError m # items) found = Inl (TeIo m)"
| "collect_entries t root limit (WalkEntry q ft # items) found =
     (if q = root \<or> should_ignore_path q then collect_entries t root limit items found
      else if limit \<le> length found then Inr (found, True)
      else case ft of
          None \<Rightarrow> Inl (TeIo (''failed to read file type for '' @ utf8_lossy (path_str q)))
        | Some k \<Rightarrow> collect_entries t root limit items
            (found @ [(display_path t q, if k = FtDir then ''dir'' else ''file'')]))"

definition tool_result_ok :: "string \<Rightarrow> json \<Rightarrow> tool_result" where
  "tool_result_ok summary content = \<lparr>tr_status = TrsOk, tr_summary = summary, tr_content = content\<rparr>"

definition json_nat :: "nat \<Rightarrow> json" where
  "json_nat n = JNumber (show_nat n)"

definition list_dir ::
    "os_env \<Rightarrow> os_files \<Rightarrow> walker \<Rightarrow> fs_tools \<Rightarrow> string \<Rightarrow> u8 \<Rightarrow> u32 option \<Rightarrow> (tool_error, tool_result) res" where
  "list_dir e fs walker t path depth max_entries =
     res_bind (resolve_existing e fs t path) (\<lambda>root.
       if fs root \<noteq> Some NDir then Inl (TeNotDirectory path)
       else
         let limit = clamp_nat 1 2000 (opt_nat max_entries 500) in
         res_bind (collect_entries t root limit (walker root (Some (unat depth + 1))) []) (\<lambda>(found, truncated).
           Inr (tool_result_ok (''listed '' @ show_nat (length found) @ '' entries'')
             (JObject [(''entries'', JArray (map (\<lambda>(p, kind).
                 JObject [(''kind'', JString kind), (''path'', JString p)]) (sort_key fst found))),
               (''truncated'', JBool truncated)]))))"

record search_match =
  sm_path :: string
  sm_line :: nat
  sm_snippet :: string

text \<open>The lines of one file, numbered from one, until the limit is met.\<close>

fun search_lines ::
    "string \<Rightarrow> string \<Rightarrow> nat \<Rightarrow> nat \<Rightarrow> string list \<Rightarrow> search_match list \<Rightarrow> search_match list \<times> bool" where
  "search_lines query shown limit i [] found = (found, False)"
| "search_lines query shown limit i (l # ls) found =
     (if str_contains l query
      then if limit \<le> length found then (found, True)
           else search_lines query shown limit (Suc i) ls
                  (found @ [\<lparr>sm_path = shown, sm_line = i, sm_snippet = trim l\<rparr>])
      else search_lines query shown limit (Suc i) ls found)"

definition trim_stars :: "string \<Rightarrow> string" where
  "trim_stars s = rev (dropWhile (\<lambda>c. c = CHR ''*'') (rev (dropWhile (\<lambda>c. c = CHR ''*'') s)))"

definition searched ::
    "os_env \<Rightarrow> os_files \<Rightarrow> fs_tools \<Rightarrow> os_path \<Rightarrow> bool \<Rightarrow> string option \<Rightarrow> os_path \<Rightarrow> bool" where
  "searched e fs t root explicit glob q \<longleftrightarrow>
     \<not> (q = root \<and> fs root = Some NDir) \<and> \<not> path_is_dir e fs (path_str q) \<and>
     \<not> (should_ignore_path q \<and> \<not> explicit) \<and>
     (case glob of None \<Rightarrow> True | Some g \<Rightarrow> str_contains (display_path t q) (trim_stars g))"

fun search_walk ::
    "os_env \<Rightarrow> os_files \<Rightarrow> fs_tools \<Rightarrow> os_path \<Rightarrow> bool \<Rightarrow> string option \<Rightarrow> string \<Rightarrow> nat \<Rightarrow> walk_item list
       \<Rightarrow> search_match list \<Rightarrow> (tool_error, search_match list \<times> bool) res" where
  "search_walk e fs t root explicit glob query limit [] found = Inr (found, False)"
| "search_walk e fs t root explicit glob query limit (WalkError m # items) found = Inl (TeIo m)"
| "search_walk e fs t root explicit glob query limit (WalkEntry q ft # items) found =
     (if \<not> searched e fs t root explicit glob q
      then search_walk e fs t root explicit glob query limit items found
      else case read_to_string e fs (path_str q) of
          Inl err \<Rightarrow> search_walk e fs t root explicit glob query limit items found
        | Inr content \<Rightarrow>
            (case search_lines query (display_path t q) limit 1 (str_lines content) found of
               (found1, True) \<Rightarrow> Inr (found1, True)
             | (found1, False) \<Rightarrow> search_walk e fs t root explicit glob query limit items found1))"

definition search_files ::
    "os_env \<Rightarrow> os_files \<Rightarrow> walker \<Rightarrow> fs_tools \<Rightarrow> string \<Rightarrow> string option \<Rightarrow> string option \<Rightarrow> u32 option
       \<Rightarrow> (tool_error, tool_result) res" where
  "search_files e fs walker t query path glob max_results =
     res_bind (resolve_existing e fs t (case path of None \<Rightarrow> ''.'' | Some p \<Rightarrow> p)) (\<lambda>root.
       let explicit = (path \<noteq> None \<and> (case fs root of Some (NFile _) \<Rightarrow> True | _ \<Rightarrow> False));
           limit = clamp_nat 1 200 (opt_nat max_results 50) in
       res_bind (search_walk e fs t root explicit glob query limit (walker root None) []) (\<lambda>(found, truncated).
         Inr (tool_result_ok (''found '' @ show_nat (length found) @ '' matches'')
           (JObject [(''matches'', JArray (map (\<lambda>m.
               JObject [(''line'', json_nat (sm_line m)), (''path'', JString (sm_path m)),
                 (''snippet'', JString (sm_snippet m))]) found)),
             (''truncated'', JBool truncated)]))))"

section \<open>Reading\<close>

definition truncate_utf8 :: "string \<Rightarrow> nat \<Rightarrow> string \<times> bool" where
  "truncate_utf8 v max_bytes =
     (if length v \<le> max_bytes then (v, False) else (take (floor_boundary v max_bytes) v, True))"

text \<open>
  The line after which text is left out is added in 64-bit arithmetic, which wraps in a release build.
\<close>

definition read_file ::
    "(string \<Rightarrow> string) \<Rightarrow> os_env \<Rightarrow> os_files \<Rightarrow> fs_tools \<Rightarrow> string \<Rightarrow> u64 option \<Rightarrow> u64 option \<Rightarrow> u64 option
       \<Rightarrow> (tool_error, tool_result) res" where
  "read_file sha256 e fs t path max_bytes start_line line_count =
     res_bind (resolve_existing e fs t path) (\<lambda>resolved.
     res_bind (map_err (io_error (''failed to read '' @ path)) (read_to_string e fs (path_str resolved))) (\<lambda>content.
       let start = max (opt_nat start_line 1) 1;
           lines_wanted = clamp_nat 1 2000 (opt_nat line_count 400);
           bytes_wanted = clamp_nat 1 (128 * 1024) (opt_nat max_bytes (64 * 1024));
           total = length (str_lines content);
           selected = join [CHR 0x0A] (take lines_wanted (drop (start - 1) (str_lines content)));
           (shown, cut) = truncate_utf8 selected bytes_wanted
       in Inr (tool_result_ok (''read '' @ show_nat (length shown) @ '' bytes from '' @ path)
         (JObject [(''content'', JString shown), (''line_count'', json_nat lines_wanted), (''path'', JString path),
           (''sha256'', JString (''sha256:'' @ sha256 content)), (''start_line'', json_nat start),
           (''total_lines'', json_nat total),
           (''truncated_after'', JBool (unat ((of_nat (start - 1) :: u64) + of_nat lines_wanted) < total \<or> cut)),
           (''truncated_before'', JBool (1 < start))]))))"

section \<open>Writing\<close>

text \<open>\<open>str::split\<close> at every occurrence of a pattern that is not empty.\<close>

lemma split_once_shorter: "split_once p s = Some (h, t) \<Longrightarrow> p \<noteq> [] \<Longrightarrow> length t < length s"
  by (drule split_once_Some) simp

function split_str :: "string \<Rightarrow> string \<Rightarrow> string list" where
  "split_str p s =
     (if p = [] then [s]
      else case split_once p s of None \<Rightarrow> [s] | Some (h, t) \<Rightarrow> h # split_str p t)"
  by pat_completeness auto
termination
  by (relation "measure (\<lambda>(p, s). length s)") (auto dest: split_once_shorter)

declare split_str.simps [simp del]

definition match_count :: "string \<Rightarrow> string \<Rightarrow> nat" where
  "match_count p s = length (split_str p s) - 1"

definition replace_str :: "string \<Rightarrow> string \<Rightarrow> string \<Rightarrow> string" where
  "replace_str p r s = join r (split_str p s)"

definition replace_first :: "string \<Rightarrow> string \<Rightarrow> string \<Rightarrow> string" where
  "replace_first p r s = (case split_once p s of None \<Rightarrow> s | Some (h, t) \<Rightarrow> h @ r @ t)"

definition simple_text_diff :: "string option \<Rightarrow> string \<Rightarrow> string" where
  "simple_text_diff before after =
     (let header = ''--- before'' @ [CHR 0x0A] @ ''+++ after'' @ [CHR 0x0A];
          plus = ''+'' @ replace_str [CHR 0x0A] (CHR 0x0A # ''+'') after in
      case before of
        Some b \<Rightarrow>
          if b = after then ''unchanged''
          else header @ ''-'' @ replace_str [CHR 0x0A] (CHR 0x0A # ''-'') b @ [CHR 0x0A] @ plus
      | None \<Rightarrow> header @ plus)"

definition temp_path_of :: "string \<Rightarrow> string" where
  "temp_path_of destination =
     with_extension destination
       ((case path_extension destination of None \<Rightarrow> ''tmp'' | Some x \<Rightarrow> x) @ ''.pharness-tmp'')"

text \<open>The new content goes to a file beside the destination, which then takes its name.\<close>

definition replace_file ::
    "os_env \<Rightarrow> os_files \<Rightarrow> string \<Rightarrow> string \<Rightarrow> string \<Rightarrow> os_files \<times> (tool_error, unit) res" where
  "replace_file e fs path destination content =
     (let temp = temp_path_of destination in
      case create_file e fs temp of
        Inl err \<Rightarrow> (fs, Inl (io_error (''failed to create temp file for '' @ path) err))
      | Inr (opened, fs1) \<Rightarrow>
          (case write_all e fs1 temp opened content of
             (fs2, Inl err) \<Rightarrow> (fs2, Inl (io_error (''failed to write temp file for '' @ path) err))
           | (fs2, Inr u) \<Rightarrow>
               (case faulty e (CallSync temp) of
                  Inl err \<Rightarrow> (fs2, Inl (io_error (''failed to sync temp file for '' @ path) err))
                | Inr u' \<Rightarrow>
                    (case rename_path e fs2 temp destination of
                       Inl err \<Rightarrow> (fs2, Inl (io_error (''failed to replace '' @ path) err))
                     | Inr fs3 \<Rightarrow> (fs3, Inr ())))))"

definition write_file ::
    "os_env \<Rightarrow> os_files \<Rightarrow> fs_tools \<Rightarrow> string \<Rightarrow> string \<Rightarrow> os_files \<times> (tool_error, tool_result) res" where
  "write_file e fs t path content =
     (case resolve_for_write e fs t path of
        Inl err \<Rightarrow> (fs, Inl err)
      | Inr destination \<Rightarrow>
          (let before = (case read_to_string e fs destination of Inl _ \<Rightarrow> None | Inr b \<Rightarrow> Some b) in
           case replace_file e fs path destination content of
             (fs1, Inl err) \<Rightarrow> (fs1, Inl err)
           | (fs1, Inr u) \<Rightarrow>
               (fs1, Inr (tool_result_ok (''wrote '' @ show_nat (length content) @ '' bytes to '' @ path)
                 (JObject [(''bytes'', json_nat (length content)), (''diff'', JString (simple_text_diff before content)),
                   (''existed'', JBool (before \<noteq> None)), (''path'', JString path)])))))"

definition patch_text :: "text_patch \<Rightarrow> string \<Rightarrow> (tool_error, string \<times> nat) res" where
  "patch_text patch before =
     (let replacements = match_count (tp_find patch) before in
      if replacements = 0 then Inl (TeInvalidArguments ''patch.find did not match target file'')
      else if \<not> tp_replace_all patch \<and> replacements \<noteq> 1
      then Inl (TeInvalidArguments (''patch.find matched '' @ show_nat replacements @
        '' times; set replace_all=true to replace every match''))
      else if tp_replace_all patch then Inr (replace_str (tp_find patch) (tp_replace patch) before, replacements)
      else Inr (replace_first (tp_find patch) (tp_replace patch) before, 1))"

definition patch_file ::
    "os_env \<Rightarrow> os_files \<Rightarrow> fs_tools \<Rightarrow> string \<Rightarrow> text_patch \<Rightarrow> os_files \<times> (tool_error, tool_result) res" where
  "patch_file e fs t path patch =
     (if tp_find patch = [] then (fs, Inl (TeInvalidArguments ''patch.find must not be empty''))
      else case resolve_existing e fs t path of
          Inl err \<Rightarrow> (fs, Inl err)
        | Inr destination \<Rightarrow>
            (case fs destination of
               Some (NFile _) \<Rightarrow>
                 (case read_to_string e fs (path_str destination) of
                    Inl err \<Rightarrow> (fs, Inl (io_error (''failed to read '' @ path) err))
                  | Inr before \<Rightarrow>
                      (case patch_text patch before of
                         Inl err \<Rightarrow> (fs, Inl err)
                       | Inr (after, made) \<Rightarrow>
                           (case replace_file e fs path (path_str destination) after of
                              (fs1, Inl err) \<Rightarrow> (fs1, Inl err)
                            | (fs1, Inr u) \<Rightarrow>
                                (fs1, Inr (tool_result_ok
                                  (''patched '' @ show_nat made @ '' replacement'' @
                                   (if tp_replace_all patch \<and> made \<noteq> 1 then ''s'' else []) @ '' in '' @ path)
                                  (JObject [(''bytes'', json_nat (length after)),
                                    (''diff'', JString (simple_text_diff (Some before) after)),
                                    (''path'', JString path), (''replacements'', json_nat made)]))))))
             | _ \<Rightarrow> (fs, Inl (TeInvalidArguments (''patch target is not a file: '' @ path)))))"

section \<open>The executor\<close>

definition fs_execute ::
    "(string \<Rightarrow> string) \<Rightarrow> os_env \<Rightarrow> walker \<Rightarrow> fs_tools \<Rightarrow> 'j agent_action \<Rightarrow> os_files
       \<Rightarrow> os_files \<times> (tool_error, tool_result) res" where
  "fs_execute sha256 e walker t a fs =
     (case a of
        ListDir i r path depth max_entries \<Rightarrow> (fs, list_dir e fs walker t path depth max_entries)
      | ReadFile i r path max_bytes start_line line_count \<Rightarrow>
          (fs, read_file sha256 e fs t path max_bytes start_line line_count)
      | WriteFile i r path content \<Rightarrow> write_file e fs t path content
      | PatchFile i r path patch \<Rightarrow> patch_file e fs t path patch
      | SearchFiles i r query path glob max_results \<Rightarrow>
          (fs, search_files e fs walker t query path glob max_results)
      | _ \<Rightarrow> (fs, Inl (TeUnsupportedAction (kind_name a))))"

end
