(* ===== verification/ShellTools.thy ===== *)
theory ShellTools
  imports FsTools
begin

text \<open>
  \<open>tools/shell.rs\<close> and the composite executor of \<open>tools/executor.rs\<close>: shell commands and the two Git reads. What
  a spawned process does is a parameter: it answers a call, within a limit, and leaves a file system. The state
  of an executor keeps the processes it spawned.
\<close>

section \<open>Processes\<close>

record process_call =
  pc_program :: string
  pc_args :: "string list"
  pc_cwd :: string
  pc_env :: "(string \<times> string) list"
  pc_input :: string

datatype process_answer =
    PaTimedOut
  | PaFailed string
  | PaExited "int option" string string nat

type_synonym spawner = "process_call \<Rightarrow> nat option \<Rightarrow> os_files \<Rightarrow> os_files \<times> process_answer"

record tool_state =
  wd_files :: os_files
  wd_spawned :: "process_call list"

definition spawn_process :: "spawner \<Rightarrow> process_call \<Rightarrow> nat option \<Rightarrow> tool_state \<Rightarrow> tool_state \<times> process_answer" where
  "spawn_process spawn call limit s =
     (case spawn call limit (wd_files s) of (fs, answer) \<Rightarrow>
        (\<lparr>wd_files = fs, wd_spawned = wd_spawned s @ [call]\<rparr>, answer))"

record shell_tools =
  sh_workspace_root :: string
  sh_canonical_root :: os_path
  sh_shell_bin :: string
  sh_timeout_ms :: nat
  sh_max_output_bytes :: nat

text \<open>The variables of the process that builds the tools.\<close>

record shell_vars =
  sv_shell_bin :: "string option"
  sv_timeout_ms :: "string option"
  sv_max_output_bytes :: "string option"
  sv_path :: "string option"

definition DEFAULT_TIMEOUT_MS :: nat where "DEFAULT_TIMEOUT_MS = 120000"
definition DEFAULT_MAX_OUTPUT_BYTES :: nat where "DEFAULT_MAX_OUTPUT_BYTES = 64 * 1024"

definition var_u64 :: "string option \<Rightarrow> nat \<Rightarrow> nat" where
  "var_u64 v d =
     (case v of None \<Rightarrow> d | Some s \<Rightarrow> (case parse_unsigned (2 ^ 64) s of None \<Rightarrow> d | Some n \<Rightarrow> n))"

definition shell_tools_new :: "os_env \<Rightarrow> os_files \<Rightarrow> shell_vars \<Rightarrow> string \<Rightarrow> (tool_error, shell_tools) res" where
  "shell_tools_new e fs vars workspace_root =
     res_bind (map_err (io_error ''failed to canonicalize workspace root'') (canonicalize_path e fs workspace_root))
       (\<lambda>q. Inr \<lparr>sh_workspace_root = workspace_root, sh_canonical_root = q,
         sh_shell_bin = (case sv_shell_bin vars of None \<Rightarrow> ''sh'' | Some b \<Rightarrow> b),
         sh_timeout_ms = var_u64 (sv_timeout_ms vars) DEFAULT_TIMEOUT_MS,
         sh_max_output_bytes = var_u64 (sv_max_output_bytes vars) DEFAULT_MAX_OUTPUT_BYTES\<rparr>)"

section \<open>Output\<close>

definition SECRETISH :: "string list" where
  "SECRETISH =
     [''.env'', ''secret'', ''token'', ''password'', ''credential'', ''kubeconfig'', ''private_key'',
      ''authorization'', ''id_rsa'', ''id_ed25519'']"

definition looks_secretish :: "string \<Rightarrow> bool" where
  "looks_secretish v \<longleftrightarrow> list_ex (str_contains (to_ascii_lowercase v)) SECRETISH"

definition redact_text :: "string \<Rightarrow> string" where
  "redact_text text =
     join [CHR 0x0A] (map (\<lambda>l. if looks_secretish l then ''[redacted]'' else l) (str_lines text))"

text \<open>The first character boundary at or after an index.\<close>

function ceil_boundary :: "string \<Rightarrow> nat \<Rightarrow> nat" where
  "ceil_boundary s i =
     (if i < length s \<and> \<not> is_char_boundary s i then ceil_boundary s (Suc i) else i)"
  by pat_completeness auto
termination
  by (relation "measure (\<lambda>(s, i). length s - i)") auto

declare ceil_boundary.simps [simp del]

definition truncate_middle :: "string \<Rightarrow> nat \<Rightarrow> string \<times> bool" where
  "truncate_middle v max_bytes =
     (if length v \<le> max_bytes then (v, False)
      else
        let half = max_bytes div 2;
            head_end = floor_boundary v half;
            tail_start = ceil_boundary v (length v - half);
            omitted = length v - head_end - (length v - tail_start)
        in (take head_end v @ [CHR 0x0A] @ ''...['' @ show_nat omitted @ '' bytes truncated]...'' @ [CHR 0x0A] @
            drop tail_start v, True))"

definition command_summary :: "string \<Rightarrow> string list \<Rightarrow> string" where
  "command_summary program args = join '' '' (program # args)"

record process_output =
  po_command :: string
  po_success :: bool
  po_exit_code :: "int option"
  po_stdout :: string
  po_stderr :: string
  po_stdout_truncated :: bool
  po_stderr_truncated :: bool
  po_duration_ms :: nat

definition json_code :: "int option \<Rightarrow> json" where
  "json_code code = (case code of None \<Rightarrow> JNull | Some c \<Rightarrow> JNumber (show_int c))"

definition output_result :: "process_output \<Rightarrow> string \<Rightarrow> json \<Rightarrow> tool_result" where
  "output_result out summary extra =
     (let content = JObject
        [(''command'', JString (po_command out)), (''duration_ms'', json_nat (po_duration_ms out)),
         (''exit_code'', json_code (po_exit_code out)), (''extra'', extra), (''stderr'', JString (po_stderr out)),
         (''stderr_truncated'', JBool (po_stderr_truncated out)), (''stdout'', JString (po_stdout out)),
         (''stdout_truncated'', JBool (po_stdout_truncated out))]
      in if po_success out then tool_result_ok summary content else tool_result_error summary content)"

section \<open>Commands\<close>

definition program_call :: "shell_vars \<Rightarrow> string \<Rightarrow> string list \<Rightarrow> string \<Rightarrow> process_call" where
  "program_call vars program args cwd =
     \<lparr>pc_program = program, pc_args = args, pc_cwd = cwd,
      pc_env = (case sv_path vars of None \<Rightarrow> [] | Some p \<Rightarrow> [(''PATH'', p)]) @ [(''PHARNESS'', ''1'')],
      pc_input = []\<rparr>"

definition run_program ::
    "spawner \<Rightarrow> shell_vars \<Rightarrow> shell_tools \<Rightarrow> string \<Rightarrow> string list \<Rightarrow> string \<Rightarrow> nat option \<Rightarrow> tool_state
       \<Rightarrow> tool_state \<times> (tool_error, process_output) res" where
  "run_program spawn vars t program args cwd timeout_ms s =
     (let limit = (case timeout_ms of None \<Rightarrow> sh_timeout_ms t | Some ms \<Rightarrow> ms);
          command = command_summary program args in
      case spawn_process spawn (program_call vars program args cwd) (Some limit) s of
        (s1, PaTimedOut) \<Rightarrow> (s1, Inl (TeTimedOut command limit))
      | (s1, PaFailed m) \<Rightarrow> (s1, Inl (TeIo (''failed to run '' @ command @ '': '' @ m)))
      | (s1, PaExited code out err duration) \<Rightarrow>
          (let (stdout, stdout_truncated) = truncate_middle (utf8_lossy out) (sh_max_output_bytes t);
               (stderr, stderr_truncated) = truncate_middle (utf8_lossy err) (sh_max_output_bytes t)
           in (s1, Inr \<lparr>po_command = command, po_success = (code = Some 0), po_exit_code = code,
                po_stdout = redact_text stdout, po_stderr = redact_text stderr,
                po_stdout_truncated = stdout_truncated, po_stderr_truncated = stderr_truncated,
                po_duration_ms = duration\<rparr>)))"

text \<open>A program's output as the tool's answer.\<close>

definition run_tool ::
    "spawner \<Rightarrow> shell_vars \<Rightarrow> shell_tools \<Rightarrow> string \<Rightarrow> string list \<Rightarrow> string \<Rightarrow> nat option \<Rightarrow> string \<Rightarrow> string \<Rightarrow> json
       \<Rightarrow> tool_state \<Rightarrow> tool_state \<times> (tool_error, tool_result) res" where
  "run_tool spawn vars t program args cwd timeout_ms completed failed extra s =
     (case run_program spawn vars t program args cwd timeout_ms s of
        (s1, Inl err) \<Rightarrow> (s1, Inl err)
      | (s1, Inr out) \<Rightarrow> (s1, Inr (output_result out (if po_success out then completed else failed) extra)))"

definition reject_never_execute_command :: "string \<Rightarrow> (tool_error, unit) res" where
  "reject_never_execute_command command =
     (case classify_command command of
        CcPrivileged \<Rightarrow> Inl (TeInvalidArguments ''privileged shell commands are denied by the executor'')
      | CcSecretAccessing \<Rightarrow>
          Inl (TeInvalidArguments ''secret-accessing shell commands are denied by the executor'')
      | _ \<Rightarrow> Inr ())"

definition resolve_cwd :: "os_env \<Rightarrow> os_files \<Rightarrow> shell_tools \<Rightarrow> string option \<Rightarrow> (tool_error, os_path) res" where
  "resolve_cwd e fs t cwd =
     (let candidate = (case cwd of None \<Rightarrow> sh_workspace_root t | Some c \<Rightarrow> path_join (sh_workspace_root t) c) in
      res_bind (map_err (io_error (''failed to canonicalize cwd '' @ utf8_lossy candidate))
          (canonicalize_path e fs candidate)) (\<lambda>q.
        if \<not> prefix (sh_canonical_root t) q then Inl (TeOutsideWorkspace (utf8_lossy candidate)) else Inr q))"

text \<open>Below the canonical root the remaining names are shown, otherwise the path as it is written.\<close>

definition shell_display_path :: "shell_tools \<Rightarrow> string \<Rightarrow> string" where
  "shell_display_path t p =
     dropWhile (\<lambda>c. c = CHR ''/'')
       (utf8_lossy (if is_absolute p \<and> prefix (sh_canonical_root t) (path_comps p)
          then join ''/'' (drop (length (sh_canonical_root t)) (path_comps p)) else p))"

definition run_shell ::
    "spawner \<Rightarrow> shell_vars \<Rightarrow> os_env \<Rightarrow> shell_tools \<Rightarrow> string \<Rightarrow> string option \<Rightarrow> nat option \<Rightarrow> bool \<Rightarrow> tool_state
       \<Rightarrow> tool_state \<times> (tool_error, tool_result) res" where
  "run_shell spawn vars e t cmd cwd timeout_ms dry_run s =
     (case res_bind (reject_never_execute_command cmd) (\<lambda>_. resolve_cwd e (wd_files s) t cwd) of
        Inl err \<Rightarrow> (s, Inl err)
      | Inr q \<Rightarrow>
          (let extra = JObject [(''cmd'', JString cmd), (''cwd'', JString (shell_display_path t (path_str q))),
                 (''dry_run'', JBool dry_run)] in
           if dry_run then (s, Inr (tool_result_ok ''dry-run shell command'' extra))
           else run_tool spawn vars t (sh_shell_bin t) [''-lc'', cmd] (path_str q) timeout_ms
             ''shell command completed'' ''shell command exited non-zero'' extra s))"

definition git_args :: "shell_tools \<Rightarrow> string list \<Rightarrow> string list" where
  "git_args t args = [''-c'', ''safe.directory='' @ utf8_lossy (path_str (sh_canonical_root t))] @ args"

definition git_status ::
    "spawner \<Rightarrow> shell_vars \<Rightarrow> shell_tools \<Rightarrow> tool_state \<Rightarrow> tool_state \<times> (tool_error, tool_result) res" where
  "git_status spawn vars t =
     run_tool spawn vars t ''git'' (git_args t [''status'', ''--short'', ''--branch'']) (sh_workspace_root t)
       (Some 30000) ''git status completed'' ''git status failed''
       (JObject [(''cwd'', JString (shell_display_path t (sh_workspace_root t)))])"

definition reject_secretish :: "string \<Rightarrow> string \<Rightarrow> (tool_error, unit) res" where
  "reject_secretish label v =
     require (\<not> looks_secretish v) (TeInvalidArguments (label @ '' appears to request secret data''))"

definition check_pathspec :: "string option \<Rightarrow> (tool_error, unit) res" where
  "check_pathspec pathspec =
     (case pathspec of None \<Rightarrow> Inr ()
      | Some p \<Rightarrow> and_then (reject_secretish ''pathspec'' p)
          (require (\<not> starts_with p ''-'') (TeInvalidArguments (''pathspec cannot start with '' @ [CHR 0x27, CHR ''-'', CHR 0x27]))))"

definition git_diff ::
    "spawner \<Rightarrow> shell_vars \<Rightarrow> shell_tools \<Rightarrow> string option \<Rightarrow> tool_state \<Rightarrow> tool_state \<times> (tool_error, tool_result) res" where
  "git_diff spawn vars t pathspec s =
     (case check_pathspec pathspec of
        Inl err \<Rightarrow> (s, Inl err)
      | Inr u \<Rightarrow>
          run_tool spawn vars t ''git''
            (git_args t ([''diff'', ''--no-ext-diff''] @ (case pathspec of None \<Rightarrow> [] | Some p \<Rightarrow> [''--'', p])))
            (sh_workspace_root t) (Some 30000) ''git diff completed'' ''git diff failed''
            (JObject [(''cwd'', JString (shell_display_path t (sh_workspace_root t))),
              (''pathspec'', case pathspec of None \<Rightarrow> JNull | Some p \<Rightarrow> JString p)]) s)"

section \<open>The executors\<close>

text \<open>An executor answers an action and leaves a state.\<close>

type_synonym 'j executor = "'j agent_action \<Rightarrow> tool_state \<Rightarrow> tool_state \<times> (tool_error, tool_result) res"

definition shell_execute :: "spawner \<Rightarrow> shell_vars \<Rightarrow> os_env \<Rightarrow> shell_tools \<Rightarrow> 'j executor" where
  "shell_execute spawn vars e t a s =
     (case a of
        RunShell i r cmd cwd timeout_ms dry_run \<Rightarrow>
          run_shell spawn vars e t cmd cwd (map_option unat timeout_ms) dry_run s
      | GitStatus i r \<Rightarrow> git_status spawn vars t s
      | GitDiff i r pathspec \<Rightarrow> git_diff spawn vars t pathspec s
      | _ \<Rightarrow> (s, Inl (TeUnsupportedAction (kind_name a))))"

text \<open>The file tools over this state.\<close>

definition files_execute :: "(string \<Rightarrow> string) \<Rightarrow> os_env \<Rightarrow> walker \<Rightarrow> fs_tools \<Rightarrow> 'j executor" where
  "files_execute sha256 e walker t a s =
     (case fs_execute sha256 e walker t a (wd_files s) of (fs, r) \<Rightarrow> (s\<lparr>wd_files := fs\<rparr>, r))"

text \<open>A composite asks its fallback exactly when the primary does not support the action.\<close>

fun unsupported :: "(tool_error, 'a) res \<Rightarrow> bool" where
  "unsupported (Inl (TeUnsupportedAction a)) = True"
| "unsupported _ = False"

definition noop_execute :: "'j executor" where
  "noop_execute a s = (s, Inl (TeUnsupportedAction (kind_name a)))"

definition composite_execute :: "'j executor \<Rightarrow> 'j executor \<Rightarrow> 'j executor" where
  "composite_execute primary fallback a s =
     (case primary a s of (s1, r) \<Rightarrow> if unsupported r then fallback a s1 else (s1, r))"

section \<open>What is shown and what is spawned\<close>

lemma join_lines_of:
  "\<forall>s\<in>set ls. CHR 0x0A \<notin> set s \<Longrightarrow> ls \<noteq> [] \<Longrightarrow> split_on CHR 0x0A (join [CHR 0x0A] ls) = ls"
  by (simp add: split_on_join)

lemma marker_not_secretish: "\<not> looks_secretish ''[redacted]''"
  by code_simp

lemma strip_cr_subset: "set (strip_cr m) \<subseteq> set m"
  by (auto simp: strip_cr_def strip_suffix_Some split: option.splits)

lemma str_lines_no_newline: "l \<in> set (str_lines s) \<Longrightarrow> CHR 0x0A \<notin> set l"
proof -
  let ?segs = "split_on CHR 0x0A s"
  assume "l \<in> set (str_lines s)"
  then consider m where "m \<in> set ?segs" "l = strip_cr m" | "l \<in> set ?segs"
    using last_in_set [OF split_on_not_Nil, of "CHR 0x0A" s]
    by (auto simp: str_lines_def Let_def dest: in_set_butlastD split: if_splits)
  then show ?thesis using split_on_no_sep strip_cr_subset by cases blast+
qed

text \<open>No line of a redacted text mentions a secret.\<close>

lemma redact_text_lines: "\<forall>l\<in>set (split_on CHR 0x0A (redact_text s)). \<not> looks_secretish l"
proof (cases "str_lines s = []")
  case True
  have "\<not> looks_secretish []" by code_simp
  with True show ?thesis by (simp add: redact_text_def)
next
  case False
  let ?ls = "map (\<lambda>l. if looks_secretish l then ''[redacted]'' else l) (str_lines s)"
  have "\<forall>l\<in>set ?ls. CHR 0x0A \<notin> set l" using str_lines_no_newline by auto
  with False have "split_on CHR 0x0A (redact_text s) = ?ls"
    unfolding redact_text_def by (intro join_lines_of) auto
  then show ?thesis using marker_not_secretish by auto
qed

lemma run_tool_spawned:
  "wd_spawned (fst (run_tool spawn vars t program args cwd timeout_ms ok failed extra s)) =
     wd_spawned s @ [program_call vars program args cwd]"
  by (simp add: run_tool_def run_program_def spawn_process_def Let_def split: prod.splits process_answer.splits)

text \<open>A shell command is spawned only when it is neither privileged nor after secrets, in the workspace.\<close>

definition shell_call_ok :: "shell_vars \<Rightarrow> shell_tools \<Rightarrow> process_call \<Rightarrow> bool" where
  "shell_call_ok vars t call \<longleftrightarrow>
     (\<exists>cmd q. classify_command cmd \<noteq> CcPrivileged \<and> classify_command cmd \<noteq> CcSecretAccessing \<and>
        prefix (sh_canonical_root t) q \<and> call = program_call vars (sh_shell_bin t) [''-lc'', cmd] (path_str q))"

lemma run_shell_spawned:
  assumes "run_shell spawn vars e t cmd cwd timeout_ms dry_run s = (s', r)"
  shows "wd_spawned s' = wd_spawned s \<or>
    \<not> dry_run \<and> (\<exists>call. wd_spawned s' = wd_spawned s @ [call] \<and> shell_call_ok vars t call \<and> pc_args call = [''-lc'', cmd])"
proof (cases "res_bind (reject_never_execute_command cmd) (\<lambda>_. resolve_cwd e (wd_files s) t cwd)")
  case (Inl err)
  with assms show ?thesis by (auto simp: run_shell_def)
next
  case (Inr q)
  then have ok: "reject_never_execute_command cmd = Inr ()" "prefix (sh_canonical_root t) q"
    by (auto simp: resolve_cwd_def Let_def split: if_splits)
  from ok(1) have "classify_command cmd \<noteq> CcPrivileged" "classify_command cmd \<noteq> CcSecretAccessing"
    by (auto simp: reject_never_execute_command_def)
  with ok(2) have call: "shell_call_ok vars t (program_call vars (sh_shell_bin t) [''-lc'', cmd] (path_str q))"
    unfolding shell_call_ok_def by blast
  show ?thesis
  proof (cases dry_run)
    case True
    with assms Inr show ?thesis by (simp add: run_shell_def Let_def)
  next
    case False
    with assms Inr have "s' = fst (run_tool spawn vars t (sh_shell_bin t) [''-lc'', cmd] (path_str q) timeout_ms
        ''shell command completed'' ''shell command exited non-zero''
        (JObject [(''cmd'', JString cmd), (''cwd'', JString (shell_display_path t (path_str q))),
          (''dry_run'', JBool False)]) s)"
      by (simp add: run_shell_def Let_def)
    with False call show ?thesis by (simp add: run_tool_spawned program_call_def)
  qed
qed

end
