(* ===== verification/ProjectTools.thy ===== *)
theory ProjectTools
  imports ShellTools CanonicalJson
begin

text \<open>
  The tools of a run: \<open>ProjectTools\<close>, \<open>ProfileRestrictedTools\<close> and their composition in \<open>pharness-runhost/src/lib.rs\<close>,
  and \<open>evidence_refs.rs\<close>. Parameters: the file walk, SHA-256 and the digest and text of a JSON value, spawned
  processes (\<open>git apply\<close> is one of them), the serialised contract and snapshot, the binding of an onboarding
  proposal and the check of a plan.
\<close>

section \<open>Data\<close>

record acceptance_command =
  acm_name :: string
  acm_command :: string

record repository_contract =
  ct_writable_paths :: "string list"
  ct_acceptance_commands :: "acceptance_command list"
  ct_source_roots :: "string list"
  ct_value :: json

record runtime_snapshot =
  rn_kind :: string
  rn_executable :: string
  rn_package_manager :: "string option"
  rn_path_entries :: "string list"

record environment_snapshot =
  en_runtime :: "runtime_snapshot option"
  en_value :: json

record project_tools =
  pt_workspace :: string
  pt_canonical :: os_path
  pt_files :: fs_tools
  pt_contract :: "repository_contract option"
  pt_snapshot :: "environment_snapshot option"
  pt_selected :: "string list"
  pt_catalog :: "json list"
  pt_payloads :: "json list"
  pt_bound_refs :: bool
  pt_onboarding :: "(json \<Rightarrow> (tool_error, json) res) option"
  pt_planner_readiness :: bool

record run_world =
  rw_env :: os_env
  rw_walker :: walker
  rw_sha256 :: "string \<Rightarrow> string"
  rw_digest :: "json \<Rightarrow> string"
  rw_print :: "json \<Rightarrow> string"
  rw_spawn :: spawner
  rw_path :: "string option"
  rw_plan_check :: "json \<Rightarrow> bool \<Rightarrow> (string, unit) res"

definition contract_command :: "repository_contract \<Rightarrow> string \<Rightarrow> acceptance_command option" where
  "contract_command c name = find (\<lambda>command. acm_name command = name) (ct_acceptance_commands c)"

section \<open>Paths\<close>

definition project_path_glob_matches :: "string \<Rightarrow> string \<Rightarrow> bool" where
  "project_path_glob_matches pattern path =
     (case strip_suffix pattern ''/**'' of
        Some p \<Rightarrow> path = p \<or> starts_with path (p @ ''/'')
      | None \<Rightarrow> pattern = path)"

definition secret_shaped_part :: "string \<Rightarrow> bool" where
  "secret_shaped_part part \<longleftrightarrow>
     part = ''.env'' \<or> starts_with part ''.env.'' \<or> ends_with part ''.pem'' \<or> ends_with part ''.key'' \<or>
     str_contains part ''secret'' \<or> str_contains part ''credential'' \<or> str_contains part ''token'' \<or>
     str_contains part ''kubeconfig''"

definition secret_shaped_project_path :: "string \<Rightarrow> bool" where
  "secret_shaped_project_path path \<longleftrightarrow>
     list_ex secret_shaped_part (split_on CHR ''/'' (to_ascii_lowercase path))"

definition writable_path :: "project_tools \<Rightarrow> string \<Rightarrow> (tool_error, string) res" where
  "writable_path t path =
     (if path = [] \<or> starts_with path ''/'' \<or>
         list_ex (\<lambda>part. part = [] \<or> part = ''..'') (split_on CHR ''/'' path) \<or> secret_shaped_project_path path
      then Inl (TeOutsideWorkspace path)
      else case pt_contract t of
          None \<Rightarrow> Inl (TeUnsupportedAction ''create_directory'')
        | Some c \<Rightarrow>
            if \<not> list_ex (\<lambda>pattern. project_path_glob_matches pattern path) (ct_writable_paths c)
            then Inl (TeOutsideWorkspace path)
            else Inr (path_join (pt_workspace t) path))"

definition resolve_command_cwd ::
    "os_env \<Rightarrow> os_files \<Rightarrow> project_tools \<Rightarrow> string option \<Rightarrow> (tool_error, os_path) res" where
  "resolve_command_cwd e fs t cwd =
     (let relative = (case cwd of None \<Rightarrow> ''.'' | Some c \<Rightarrow> c) in
      if starts_with relative ''/'' \<or>
         list_ex (\<lambda>part. part = ''..'' \<or> part = []) (split_on CHR ''/'' relative) \<or> secret_shaped_project_path relative
      then Inl (TeOutsideWorkspace relative)
      else res_bind (map_err (\<lambda>err. TeIo (os_error_str err))
          (canonicalize_path e fs (path_join (pt_workspace t) relative))) (\<lambda>q.
        if \<not> prefix (pt_canonical t) q then Inl (TeOutsideWorkspace relative) else Inr q))"

section \<open>Workspace commands\<close>

definition contains_inline_program :: "string list \<Rightarrow> bool" where
  "contains_inline_program args \<longleftrightarrow>
     list_ex (\<lambda>arg. arg \<in> {''-c'', ''-e'', ''--eval'', ''--input-type''}) args"

fun installs_module :: "string list \<Rightarrow> bool" where
  "installs_module (a # b # rest) =
     (a = ''-m'' \<and> (b = ''pip'' \<or> b = ''ensurepip'') \<or> installs_module (b # rest))"
| "installs_module _ = False"

definition SHELL_TOKENS :: "string list" where
  "SHELL_TOKENS = ['';'', ''&&'', ''||'', ''&'', ''|'', [CHR 0x60], ''$'', ''{'', ''}'', ''>'', ''<'']"

definition NPM_DENIED :: "string list" where
  "NPM_DENIED = [''ci'', ''install'', ''i'', ''add'', ''update'', ''uninstall'', ''publish'', ''exec'', ''init'',
     ''login'', ''logout'', ''owner'', ''token'']"

definition CARGO_DENIED :: "string list" where
  "CARGO_DENIED = [''add'', ''fetch'', ''install'', ''login'', ''logout'', ''owner'', ''publish'', ''remove'',
     ''search'', ''update'', ''vendor'', ''yank'']"

definition command_argument_bad :: "string \<Rightarrow> bool" where
  "command_argument_bad arg \<longleftrightarrow>
     4096 < length arg \<or> contains_char arg (CHR 0x00) \<or> contains_char arg (CHR 0x0A) \<or>
     list_ex (str_contains arg) SHELL_TOKENS"

definition command_denied :: "string \<Rightarrow> string list \<Rightarrow> bool" where
  "command_denied x args =
     (if x = ''pip'' \<or> x = ''pip3'' then True
      else if x = ''npm'' then (case args of [] \<Rightarrow> False | a # _ \<Rightarrow> a \<in> set NPM_DENIED)
      else if x = ''python'' \<or> x = ''python3'' then installs_module args \<or> contains_inline_program args
      else if x = ''node'' then contains_inline_program args
      else if x = ''cargo'' then (case args of [] \<Rightarrow> False | a # _ \<Rightarrow> a \<in> set CARGO_DENIED)
      else False)"

definition validate_workspace_command :: "string \<Rightarrow> string list \<Rightarrow> (tool_error, unit) res" where
  "validate_workspace_command x args =
     (if x = [] \<or> 256 < length x \<or> 128 < length args \<or> list_ex command_argument_bad args
      then Inl (TeInvalidArguments ''workspace command contains shell composition or exceeds its bounds'')
      else if command_denied x args
      then Inl (TeUnsupportedAction (''run_workspace_command:'' @ x @ '':package_or_network''))
      else Inr ())"

definition known_executable :: "string \<Rightarrow> string \<Rightarrow> bool" where
  "known_executable kind requested \<longleftrightarrow>
     (kind, requested) \<in> {(''python'', ''python''), (''python'', ''python3''), (''python'', ''pytest''),
       (''node'', ''node''), (''node'', ''npm''), (''rust'', ''cargo''), (''rust'', ''rustc'')}"

text \<open>The package manager answers for its own name only when there is one, so the source's \<open>expect\<close> holds.\<close>

definition resolve_workspace_executable :: "runtime_snapshot \<Rightarrow> string \<Rightarrow> (tool_error, string) res" where
  "resolve_workspace_executable rt requested =
     (let runtime_name = path_file_name (rn_executable rt);
          manager_name = Option.bind (rn_package_manager rt) path_file_name in
      if \<not> (runtime_name = Some requested \<or> manager_name = Some requested \<or> known_executable (rn_kind rt) requested) \<or>
         contains_char requested CHR ''/''
      then Inl (TeUnsupportedAction (''run_workspace_command:'' @ requested))
      else if runtime_name = Some requested then Inr (rn_executable rt)
      else case rn_package_manager rt of
          Some manager \<Rightarrow> if manager_name = Some requested then Inr manager else Inr requested
        | None \<Rightarrow> Inr requested)"

definition workspace_file :: "project_tools \<Rightarrow> string \<Rightarrow> string" where
  "workspace_file t p = utf8_lossy (path_join (pt_workspace t) p)"

definition node_acceptance_environment :: "project_tools \<Rightarrow> (string \<times> string) list" where
  "node_acceptance_environment t =
     [(''NPM_CONFIG_CACHE'', workspace_file t ''.pharness-runtime/npm-cache''),
      (''NPM_CONFIG_UPDATE_NOTIFIER'', ''false''), (''NPM_CONFIG_AUDIT'', ''false''), (''NPM_CONFIG_FUND'', ''false''),
      (''NPM_CONFIG_OFFLINE'', ''true''), (''HOME'', workspace_file t ''.pharness-runtime/home''),
      (''XDG_CACHE_HOME'', workspace_file t ''.pharness-runtime/cache'')]"

definition python_path :: "project_tools \<Rightarrow> repository_contract \<Rightarrow> string" where
  "python_path t c = join '':'' (map (workspace_file t) (ct_source_roots c))"

definition cargo_environment :: "project_tools \<Rightarrow> (string \<times> string) list" where
  "cargo_environment t =
     [(''CARGO_NET_OFFLINE'', ''true''),
      (''CARGO_TARGET_DIR'', path_join (pt_workspace t) ''.pharness-runtime/cargo-target'')]"

definition base_environment :: "run_world \<Rightarrow> project_tools \<Rightarrow> string list \<Rightarrow> (string \<times> string) list" where
  "base_environment w t entries =
     [(''PATH'', join '':'' (entries @ [case rw_path w of None \<Rightarrow> [] | Some p \<Rightarrow> p])),
      (''HOME'', path_join (pt_workspace t) ''.pharness-runtime/home''), (''LANG'', ''C.UTF-8'')]"

section \<open>Output\<close>

definition bounded_output :: "string \<Rightarrow> string" where
  "bounded_output bytes =
     (let text = utf8_lossy bytes in
      if length text \<le> 64 * 1024 then text
      else take (floor_boundary text (64 * 1024)) text @ ''...[truncated]'')"

definition bounded_artifact_output :: "string \<Rightarrow> string" where
  "bounded_artifact_output bytes = utf8_lossy (take (2 * 1024 * 1024) bytes)"

definition sha_text :: "run_world \<Rightarrow> string \<Rightarrow> string" where
  "sha_text w bytes = ''sha256:'' @ rw_sha256 w bytes"

text \<open>The home of a command is made before anything else of it is looked at.\<close>

definition make_home :: "run_world \<Rightarrow> project_tools \<Rightarrow> tool_state \<Rightarrow> tool_state \<times> (tool_error, unit) res" where
  "make_home w t s =
     (case create_dir_all (rw_env w) (wd_files s) (path_join (pt_workspace t) ''.pharness-runtime/home'') of
        (fs, r) \<Rightarrow> (s\<lparr>wd_files := fs\<rparr>, map_err (\<lambda>err. TeIo (os_error_str err)) r))"

definition acceptance_call :: "run_world \<Rightarrow> project_tools \<Rightarrow> repository_contract \<Rightarrow> string \<Rightarrow> process_call" where
  "acceptance_call w t c command =
     (let rt = Option.bind (pt_snapshot t) en_runtime;
          entries = (case rt of Some x \<Rightarrow> rn_path_entries x | None \<Rightarrow> [workspace_file t ''.pharness-runtime/venv/bin'']);
          kind = map_option rn_kind rt
      in \<lparr>pc_program = ''/bin/sh'', pc_args = [''-c'', command], pc_cwd = pt_workspace t,
          pc_env = base_environment w t entries @
            (if kind = Some ''node'' then node_acceptance_environment t else []) @
            (if kind = Some ''rust'' then cargo_environment t else []) @
            (if kind = Some ''python'' \<or> kind = None then [(''PYTHONPATH'', python_path t c)] else []),
          pc_input = []\<rparr>)"

definition run_acceptance ::
    "run_world \<Rightarrow> project_tools \<Rightarrow> string \<Rightarrow> tool_state \<Rightarrow> tool_state \<times> (tool_error, tool_result) res" where
  "run_acceptance w t name s =
     (case make_home w t s of
        (s1, Inl err) \<Rightarrow> (s1, Inl err)
      | (s1, Inr u) \<Rightarrow>
          (case pt_contract t of
             None \<Rightarrow> (s1, Inl (TeUnsupportedAction ''run_acceptance_command''))
           | Some c \<Rightarrow>
               (case contract_command c name of
                  None \<Rightarrow> (s1, Inl (TeInvalidArguments (''acceptance command is not declared: '' @ name)))
                | Some declared \<Rightarrow>
                    if acm_command declared \<notin> set (pt_selected t)
                    then (s1, Inl (TeInvalidArguments (''acceptance command was not selected by the WorkItem: '' @ name)))
                    else
                      (case spawn_process (rw_spawn w) (acceptance_call w t c (acm_command declared)) (Some 600000) s1 of
                         (s2, PaTimedOut) \<Rightarrow> (s2, Inl (TeTimedOut (acm_command declared) 600000))
                       | (s2, PaFailed m) \<Rightarrow> (s2, Inl (TeIo m))
                       | (s2, PaExited code out err duration) \<Rightarrow>
                           (let content = JObject
                              [(''acceptance_command'', JBool True), (''command'', JString (acm_command declared)),
                               (''duration_ms'', json_nat duration), (''exit_code'', json_code code),
                               (''name'', JString name), (''stderr'', JString (bounded_output err)),
                               (''stdout'', JString (bounded_output out))]
                            in (s2, Inr (if code = Some 0
                                then tool_result_ok (''acceptance command '' @ name @ '' passed'') content
                                else tool_result_error (''acceptance command '' @ name @ '' failed'') content)))))))"

definition workspace_call ::
    "run_world \<Rightarrow> project_tools \<Rightarrow> runtime_snapshot \<Rightarrow> string \<Rightarrow> string \<Rightarrow> string list \<Rightarrow> os_path \<Rightarrow> process_call" where
  "workspace_call w t rt program x args q =
     \<lparr>pc_program = program, pc_args = args, pc_cwd = path_str q,
      pc_env = base_environment w t (rn_path_entries rt) @
        (if rn_kind rt = ''node'' then node_acceptance_environment t else []) @
        (if rn_kind rt = ''python''
         then [(''PYTHONPATH'', case pt_contract t of None \<Rightarrow> [] | Some c \<Rightarrow> python_path t c)] else []) @
        (if x = ''cargo'' then cargo_environment t else []),
      pc_input = []\<rparr>"

definition workspace_result ::
    "run_world \<Rightarrow> string \<Rightarrow> string list \<Rightarrow> string option \<Rightarrow> int option \<Rightarrow> string \<Rightarrow> string \<Rightarrow> nat \<Rightarrow> tool_result" where
  "workspace_result w x args cwd code out err duration =
     (let limit = 2 * 1024 * 1024;
          content = JObject
       [(''args'', JArray (map JString args)),
        (''artifact_content'', JObject
          [(''artifact_limit_bytes'', json_nat limit), (''stderr'', JString (bounded_artifact_output err)),
           (''stderr_bytes'', json_nat (length err)), (''stderr_truncated'', JBool (limit < length err)),
           (''stdout'', JString (bounded_artifact_output out)), (''stdout_bytes'', json_nat (length out)),
           (''stdout_truncated'', JBool (limit < length out))]),
        (''cwd'', JString (case cwd of None \<Rightarrow> ''.'' | Some c \<Rightarrow> c)), (''duration_ms'', json_nat duration),
        (''executable'', JString x), (''exit_code'', json_code code), (''stderr'', JString (bounded_output err)),
        (''stderr_sha256'', JString (sha_text w err)), (''stdout'', JString (bounded_output out)),
        (''stdout_sha256'', JString (sha_text w out)), (''workspace_command'', JBool True)]
      in if code = Some 0 then tool_result_ok ''workspace command passed'' content
         else tool_result_error ''workspace command failed'' content)"

text \<open>The checks of a command before it is spawned: what runs it, and where.\<close>

definition command_checks ::
    "os_env \<Rightarrow> os_files \<Rightarrow> project_tools \<Rightarrow> string \<Rightarrow> string list \<Rightarrow> string option
       \<Rightarrow> (tool_error, runtime_snapshot \<times> string \<times> os_path) res" where
  "command_checks e fs t x args cwd =
     and_then (validate_workspace_command x args)
       (res_bind (ok_or (Option.bind (pt_snapshot t) en_runtime) (TeUnsupportedAction ''run_workspace_command'')) (\<lambda>rt.
        res_bind (resolve_workspace_executable rt x) (\<lambda>program.
        res_bind (resolve_command_cwd e fs t cwd) (\<lambda>q. Inr (rt, program, q)))))"

definition run_workspace_command ::
    "run_world \<Rightarrow> project_tools \<Rightarrow> string \<Rightarrow> string list \<Rightarrow> string option \<Rightarrow> nat option \<Rightarrow> tool_state
       \<Rightarrow> tool_state \<times> (tool_error, tool_result) res" where
  "run_workspace_command w t x args cwd timeout_ms s =
     (case make_home w t s of
        (s1, Inl err) \<Rightarrow> (s1, Inl err)
      | (s1, Inr u) \<Rightarrow>
          (case command_checks (rw_env w) (wd_files s1) t x args cwd of
             Inl err \<Rightarrow> (s1, Inl err)
           | Inr (rt, program, q) \<Rightarrow>
               (let limit = clamp_nat 100 120000 (case timeout_ms of None \<Rightarrow> 120000 | Some ms \<Rightarrow> ms) in
                case spawn_process (rw_spawn w) (workspace_call w t rt program x args q) (Some limit) s1 of
                  (s2, PaTimedOut) \<Rightarrow> (s2, Inl (TeTimedOut (x @ '' '' @ join '' '' args) limit))
                | (s2, PaFailed m) \<Rightarrow> (s2, Inl (TeIo m))
                | (s2, PaExited code out err duration) \<Rightarrow>
                    (s2, Inr (workspace_result w x args cwd code out err duration)))))"

end
