(* ===== verification/ProjectExecutor.thy ===== *)
theory ProjectExecutor
  imports ProjectTools
begin

text \<open>
  \<open>pharness-runhost/src/lib.rs\<close>, continued: unified patches through \<open>git apply\<close>, allowlisted evidence, typed
  submissions, the executor of a run's tools and its restriction to the tools of an agent profile.
\<close>

section \<open>Unified patches\<close>

definition push_new :: "'a \<Rightarrow> 'a list \<Rightarrow> 'a list" where
  "push_new x xs = (if x \<in> set xs then xs else xs @ [x])"

fun declared_paths :: "string list \<Rightarrow> string list \<Rightarrow> (tool_error, string list) res" where
  "declared_paths [] paths = Inr paths"
| "declared_paths (l # ls) paths =
     (if \<not> starts_with l ''diff --git '' then declared_paths ls paths
      else case drop 2 (split_whitespace l) of
          [old, new] \<Rightarrow>
            if starts_with old ''a/'' \<and> starts_with new ''b/'' \<and> drop 2 old = drop 2 new
            then declared_paths ls (push_new (drop 2 new) paths)
            else Inl (TeInvalidArguments ''patch contains an unsupported or renamed path'')
        | _ \<Rightarrow> Inl (TeInvalidArguments ''patch contains an unsupported or renamed path''))"

definition header_path :: "string \<Rightarrow> string option" where
  "header_path l =
     map_option (\<lambda>p. hd (split_on (CHR 0x09) p))
       (case strip_prefix l ''--- a/'' of Some p \<Rightarrow> Some p | None \<Rightarrow> strip_prefix l ''+++ b/'')"

fun header_paths :: "string list \<Rightarrow> string list \<Rightarrow> string list" where
  "header_paths [] paths = paths"
| "header_paths (l # ls) paths =
     (case header_path l of None \<Rightarrow> header_paths ls paths | Some p \<Rightarrow> header_paths ls (push_new p paths))"

definition unified_diff_paths :: "string \<Rightarrow> (tool_error, string list) res" where
  "unified_diff_paths patch =
     res_bind (declared_paths (str_lines patch) []) (\<lambda>paths.
       let headers = header_paths (str_lines patch) [] in
       if paths = [] \<or> 200 < length paths
       then Inl (TeInvalidArguments ''patch must contain between one and 200 standard diff paths'')
       else if \<not> list_all (\<lambda>p. p \<in> set paths) headers \<or> \<not> list_all (\<lambda>p. p \<in> set headers) paths
       then Inl (TeInvalidArguments ''patch file headers do not exactly match its declared diff paths'')
       else Inr paths)"

definition git_apply_call :: "project_tools \<Rightarrow> string \<Rightarrow> bool \<Rightarrow> process_call" where
  "git_apply_call t patch check_only =
     \<lparr>pc_program = ''git'',
      pc_args = [''-c'', ''safe.directory='' @ utf8_lossy (pt_workspace t), ''-C'', pt_workspace t, ''apply'',
        ''--whitespace=nowarn''] @ (if check_only then [''--check''] else []),
      pc_cwd = [], pc_env = [], pc_input = patch\<rparr>"

text \<open>This process inherits the worker's directory and environment; without a limit it does not time out.\<close>

definition run_git_apply ::
    "run_world \<Rightarrow> project_tools \<Rightarrow> string \<Rightarrow> bool \<Rightarrow> tool_state \<Rightarrow> tool_state \<times> (tool_error, unit) res" where
  "run_git_apply w t patch check_only s =
     (case spawn_process (rw_spawn w) (git_apply_call t patch check_only) None s of
        (s1, PaTimedOut) \<Rightarrow> (s1, Inl (TeIo []))
      | (s1, PaFailed m) \<Rightarrow> (s1, Inl (TeIo m))
      | (s1, PaExited code out err duration) \<Rightarrow>
          (s1, require (code = Some 0) (TeInvalidArguments
            (''patch '' @ (if check_only then ''validation'' else ''application'') @ '' failed: '' @ bounded_output err))))"

definition check_patch_path ::
    "run_world \<Rightarrow> project_tools \<Rightarrow> os_files \<Rightarrow> (string \<rightharpoonup> string) \<Rightarrow> string \<Rightarrow> (tool_error, unit) res" where
  "check_patch_path w t fs preimage path =
     res_bind (writable_path t path) (\<lambda>_.
       require (\<not> (path_is_file (rw_env w) fs (path_join (pt_workspace t) path) \<and> preimage path = None))
         (TeInvalidArguments (''patch requires a preimage SHA-256 for existing path '' @ path)))"

definition hash_shaped :: "string \<Rightarrow> bool" where
  "hash_shaped expected \<longleftrightarrow>
     (case strip_prefix expected ''sha256:'' of
        None \<Rightarrow> False
      | Some h \<Rightarrow> length h = 64 \<and> list_all (\<lambda>c. is_ascii_digit c \<or> 97 \<le> byte c \<and> byte c \<le> 102) h)"

definition check_preimage ::
    "run_world \<Rightarrow> project_tools \<Rightarrow> os_files \<Rightarrow> string list \<Rightarrow> (string \<rightharpoonup> string) \<Rightarrow> string \<Rightarrow> (tool_error, unit) res" where
  "check_preimage w t fs paths preimage path =
     (case preimage path of
        None \<Rightarrow> Inr ()
      | Some expected \<Rightarrow>
          if path \<notin> set paths \<or> \<not> hash_shaped expected
          then Inl (TeInvalidArguments (''invalid patch preimage binding for '' @ path))
          else res_bind (map_err (\<lambda>err. TeIo (os_error_str err))
              (read_bytes (rw_env w) fs (path_join (pt_workspace t) path))) (\<lambda>bytes.
            require (sha_text w bytes = expected)
              (TeInvalidArguments (''patch preimage changed for '' @ path))))"

fun after_hashes ::
    "run_world \<Rightarrow> project_tools \<Rightarrow> os_files \<Rightarrow> string list \<Rightarrow> (string \<times> json) list
       \<Rightarrow> (tool_error, (string \<times> json) list) res" where
  "after_hashes w t fs [] m = Inr m"
| "after_hashes w t fs (p # ps) m =
     (case read_bytes (rw_env w) fs (path_join (pt_workspace t) p) of
        Inr bytes \<Rightarrow> after_hashes w t fs ps (btree_insert p (JString (sha_text w bytes)) m)
      | Inl err \<Rightarrow>
          if err = ENoEnt then after_hashes w t fs ps (btree_insert p JNull m)
          else Inl (TeIo (os_error_str err)))"

text \<open>
  The checks before the patch is applied. The preimages are a map of the request, so there are finitely many;
  they are checked in key order.
\<close>

definition patch_checks ::
    "run_world \<Rightarrow> project_tools \<Rightarrow> os_files \<Rightarrow> string \<Rightarrow> (string \<rightharpoonup> string) \<Rightarrow> (tool_error, string list) res" where
  "patch_checks w t fs patch preimage =
     (if patch = [] \<or> 256 * 1024 < length patch \<or> contains_char patch (CHR 0x00)
      then Inl (TeInvalidArguments ''unified patch must contain between one byte and 256 KiB'')
      else res_bind (unified_diff_paths patch) (\<lambda>paths.
        and_then (for_each (check_patch_path w t fs preimage) paths)
          (and_then (for_each (check_preimage w t fs paths preimage) (sorted_list_of_set (dom preimage)))
            (Inr paths))))"

definition patch_result ::
    "run_world \<Rightarrow> project_tools \<Rightarrow> os_files \<Rightarrow> string \<Rightarrow> string list \<Rightarrow> (tool_error, tool_result) res" where
  "patch_result w t fs patch paths =
     res_bind (after_hashes w t fs paths []) (\<lambda>hashes.
       Inr (tool_result_ok (''atomically applied patch to '' @ show_nat (length paths) @ '' path(s)'')
         (JObject [(''after_sha256'', JObject hashes), (''changed_paths'', JArray (map JString paths)),
           (''diff'', JString ''changed''), (''patch_sha256'', JString (sha_text w patch))])))"

definition apply_unified_patch ::
    "run_world \<Rightarrow> project_tools \<Rightarrow> string \<Rightarrow> (string \<rightharpoonup> string) \<Rightarrow> tool_state
       \<Rightarrow> tool_state \<times> (tool_error, tool_result) res" where
  "apply_unified_patch w t patch preimage s =
     (case patch_checks w t (wd_files s) patch preimage of
        Inl err \<Rightarrow> (s, Inl err)
      | Inr paths \<Rightarrow>
          (case run_git_apply w t patch True s of
             (s1, Inl err) \<Rightarrow> (s1, Inl err)
           | (s1, Inr u) \<Rightarrow>
               (case run_git_apply w t patch False s1 of
                  (s2, Inl err) \<Rightarrow> (s2, Inl err)
                | (s2, Inr u') \<Rightarrow> (s2, patch_result w t (wd_files s2) patch paths))))"

section \<open>Evidence and submissions\<close>

definition entry_id :: "json \<Rightarrow> string option" where
  "entry_id v = Option.bind (json_get v ''id'') json_str"

definition entry_hash :: "json \<Rightarrow> string option" where
  "entry_hash v = Option.bind (json_get v ''hash'') json_str"

definition get_evidence :: "run_world \<Rightarrow> project_tools \<Rightarrow> string \<Rightarrow> (tool_error, tool_result) res" where
  "get_evidence w t evidence_id =
     res_bind (ok_or (find (\<lambda>v. entry_id v = Some evidence_id) (pt_catalog t))
       (TeInvalidArguments ''evidence_id is outside the context-pack allowlist'')) (\<lambda>catalog_entry.
     res_bind (ok_or (find (\<lambda>v. entry_id v = Some evidence_id) (pt_payloads t))
       (TeInvalidArguments ''allowlisted evidence payload is unavailable'')) (\<lambda>evidence.
     res_bind (ok_or (json_get evidence ''payload'')
       (TeInvalidArguments ''allowlisted evidence payload is malformed'')) (\<lambda>payload.
       let returned_hash = canonical_json_sha256 (rw_digest w) payload in
       if entry_hash catalog_entry \<noteq> Some returned_hash \<or> entry_hash evidence \<noteq> Some returned_hash
       then Inl (TeInvalidArguments ''allowlisted evidence payload hash does not match the context pack'')
       else Inr (tool_result_ok (''returned allowlisted evidence '' @ evidence_id)
         (JObject [(''evidence'', payload), (''evidence_id'', JString evidence_id),
           (''evidence_kind'', json_index catalog_entry ''kind''),
           (''evidence_version'', json_index catalog_entry ''version''),
           (''returned_hash'', JString returned_hash)])))))"

definition structured_submission :: "run_world \<Rightarrow> string \<Rightarrow> json \<Rightarrow> (tool_error, tool_result) res" where
  "structured_submission w kind document =
     (if \<not> is_object document \<or> object_entries document = []
      then Inl (TeInvalidArguments (kind @ '' must be a non-empty JSON object''))
      else if 128 < length (object_entries document) \<or> 128 * 1024 < length (rw_print w document)
      then Inl (TeInvalidArguments (kind @ '' exceeds the structured submission limit''))
      else Inr (tool_result_ok (''accepted typed '' @ kind @ '' for controller validation'')
        (JObject [(''document'', document), (''kind'', JString kind), (''structured_submission'', JBool True)])))"

definition onboarding_submission :: "run_world \<Rightarrow> project_tools \<Rightarrow> json \<Rightarrow> (tool_error, tool_result) res" where
  "onboarding_submission w t document =
     (case pt_onboarding t of
        None \<Rightarrow> Inl (TeInvalidArguments ''repository onboarding proposal has no controller-bound discovery'')
      | Some bind \<Rightarrow> res_bind (bind document) (structured_submission w ''repository_onboarding_proposal''))"

text \<open>\<open>evidence_refs::validate\<close>: the references are texts, each new, each the id of exactly one entry.\<close>

fun refs_distinct :: "json list \<Rightarrow> string list \<Rightarrow> json list \<Rightarrow> bool" where
  "refs_distinct catalog seen [] = True"
| "refs_distinct catalog seen (v # vs) =
     (case json_str v of
        None \<Rightarrow> False
      | Some i \<Rightarrow> i \<noteq> [] \<and> i \<notin> set seen \<and>
          length (filter (\<lambda>entry. json_index entry ''id'' = JString i) catalog) = 1 \<and>
          refs_distinct catalog (i # seen) vs)"

definition validate_evidence_refs :: "json \<Rightarrow> json list \<Rightarrow> (tool_error, unit) res" where
  "validate_evidence_refs document catalog =
     require (case json_index document ''evidence_refs'' of
          JArray refs \<Rightarrow> refs \<noteq> [] \<and> length refs \<le> 100 \<and> refs_distinct catalog [] refs
        | _ \<Rightarrow> False)
       (TeInvalidArguments (''evidence_refs must contain distinct exact IDs from the controller evidence_catalog; '' @
         ''payload hashes and workspace paths are not evidence IDs''))"

definition bound_submission ::
    "run_world \<Rightarrow> project_tools \<Rightarrow> string \<Rightarrow> json \<Rightarrow> (tool_error, tool_result) res" where
  "bound_submission w t kind document =
     and_then (if pt_bound_refs t then validate_evidence_refs document (pt_catalog t) else Inr ())
       (structured_submission w kind document)"

section \<open>The executor of a run\<close>

text \<open>The directory is made first and compared with the workspace afterwards.\<close>

definition create_directory ::
    "run_world \<Rightarrow> project_tools \<Rightarrow> string \<Rightarrow> tool_state \<Rightarrow> tool_state \<times> (tool_error, tool_result) res" where
  "create_directory w t path s =
     (case writable_path t path of
        Inl err \<Rightarrow> (s, Inl err)
      | Inr target \<Rightarrow>
          (case create_dir_all (rw_env w) (wd_files s) target of
             (fs, Inl err) \<Rightarrow> (s\<lparr>wd_files := fs\<rparr>, Inl (TeIo (os_error_str err)))
           | (fs, Inr u) \<Rightarrow>
               (s\<lparr>wd_files := fs\<rparr>,
                res_bind (map_err (\<lambda>err. TeIo (os_error_str err)) (canonicalize_path (rw_env w) fs target)) (\<lambda>q.
                  if \<not> prefix (pt_canonical t) q then Inl (TeOutsideWorkspace path)
                  else Inr (tool_result_ok (''created directory '' @ path) (JObject [(''path'', JString path)]))))))"

definition contract_write ::
    "run_world \<Rightarrow> project_tools \<Rightarrow> json agent_action \<Rightarrow> string \<Rightarrow> tool_state \<Rightarrow> tool_state \<times> (tool_error, tool_result) res" where
  "contract_write w t a path s =
     (if pt_contract t = None then (s, Inl (TeUnsupportedAction (kind_name a)))
      else case writable_path t path of
          Inl err \<Rightarrow> (s, Inl err)
        | Inr _ \<Rightarrow> files_execute (rw_sha256 w) (rw_env w) (rw_walker w) (pt_files t) a s)"

definition project_execute :: "run_world \<Rightarrow> project_tools \<Rightarrow> json executor" where
  "project_execute w t a s =
     (case a of
        EnvironmentInfo i r \<Rightarrow>
          (s, case (pt_snapshot t, pt_contract t) of
             (Some snapshot, Some c) \<Rightarrow>
               Inr (tool_result_ok ''returned durable environment information''
                 (JObject [(''environment_snapshot'', en_value snapshot), (''project_contract'', ct_value c)]))
           | _ \<Rightarrow> Inl (TeUnsupportedAction (kind_name a)))
      | CreateDirectory i r path \<Rightarrow> create_directory w t path s
      | WriteFile i r path content \<Rightarrow> contract_write w t a path s
      | PatchFile i r path patch \<Rightarrow> contract_write w t a path s
      | ApplyPatch i r patch preimage \<Rightarrow> apply_unified_patch w t patch preimage s
      | RunAcceptanceCommand i r name \<Rightarrow> run_acceptance w t name s
      | RunWorkspaceCommand i r x args cwd timeout_ms \<Rightarrow>
          run_workspace_command w t x args cwd (map_option unat timeout_ms) s
      | GetEvidence i r evidence_id \<Rightarrow> (s, get_evidence w t evidence_id)
      | SubmitOnboardingProposal i r document \<Rightarrow> (s, onboarding_submission w t document)
      | SubmitWorkPlan i r document \<Rightarrow>
          (s, and_then (map_err TeInvalidArguments (rw_plan_check w document (pt_planner_readiness t)))
            (structured_submission w ''work_plan'' document))
      | SubmitImplementation i r document \<Rightarrow> (s, structured_submission w ''implementation'' document)
      | SubmitTestOutcome i r document \<Rightarrow> (s, structured_submission w ''test_outcome'' document)
      | SubmitTestDiagnosis i r document \<Rightarrow> (s, bound_submission w t ''test_diagnosis'' document)
      | SubmitVerification i r document \<Rightarrow> (s, bound_submission w t ''verification'' document)
      | _ \<Rightarrow> (s, Inl (TeUnsupportedAction (kind_name a))))"

definition restricted_execute :: "string list option \<Rightarrow> 'j executor \<Rightarrow> 'j executor" where
  "restricted_execute allowed inner a s =
     (if (case allowed of None \<Rightarrow> False | Some names \<Rightarrow> kind_name a \<notin> set names)
      then (s, Inl (TeUnsupportedAction (kind_name a))) else inner a s)"

text \<open>The tools of an attempt. The cluster tools are a parameter.\<close>

definition attempt_tools ::
    "run_world \<Rightarrow> project_tools \<Rightarrow> shell_vars \<Rightarrow> fs_tools \<Rightarrow> shell_tools \<Rightarrow> json executor \<Rightarrow> string list option \<Rightarrow> json executor" where
  "attempt_tools w t vars files shell cluster allowed =
     restricted_execute allowed
       (composite_execute (project_execute w t)
         (composite_execute
           (composite_execute (files_execute (rw_sha256 w) (rw_env w) (rw_walker w) files) cluster)
           (shell_execute (rw_spawn w) vars (rw_env w) shell)))"

fun allowlist :: "string list \<Rightarrow> json list \<Rightarrow> (string, string list) res" where
  "allowlist allowed [] = Inr allowed"
| "allowlist allowed (v # vs) =
     (case json_str v of
        Some name \<Rightarrow>
          if is_blank name then Inl ''agent_profile tool allowlist is invalid''
          else if name \<in> set allowed then Inl ''agent_profile tool allowlist contains duplicates''
          else allowlist (name # allowed) vs
      | None \<Rightarrow> Inl ''agent_profile tool allowlist is invalid'')"

definition profile_tool_names :: "json \<Rightarrow> (string, string list option) res" where
  "profile_tool_names target =
     (case json_get target ''agent_profile'' of
        None \<Rightarrow> Inr None
      | Some profile \<Rightarrow>
          (case json_get profile ''tools'' of
             Some (JArray tools) \<Rightarrow>
               res_bind (allowlist [] tools) (\<lambda>allowed.
                 if allowed = [] then Inl ''agent_profile tool allowlist is empty'' else Inr (Some allowed))
           | _ \<Rightarrow> Inl ''agent_profile has no tool allowlist''))"

end
