(* ===== verification/FsSafety.thy ===== *)
theory FsSafety
  imports FsTools
begin

text \<open>
  Where the file tools reach: what a resolved path names, where the temporary file and the destination of
  a write lie, and what a write changes when it succeeds and when it fails.
\<close>

section \<open>Resolution\<close>

lemma canonicalize_path_place:
  assumes "env_ok e fs" "canonicalize_path e fs p = Inr q"
  shows "\<exists>node. fs q = Some node \<and> (\<forall>t. node \<noteq> NLink t)" "locate e fs True p = Inr q"
  using assms locate_no_link [OF assms(1)]
  by (auto simp: canonicalize_path_def res_simps split: if_splits)

lemma resolve_existing_inside:
  "resolve_existing e fs t path = Inr q \<Longrightarrow> prefix (ft_canonical_root t) q"
  by (auto simp: resolve_existing_def Let_def res_simps)

lemma resolve_existing_node:
  "env_ok e fs \<Longrightarrow> resolve_existing e fs t path = Inr q \<Longrightarrow>
     \<exists>node. fs q = Some node \<and> (\<forall>t. node \<noteq> NLink t)"
  by (auto simp: resolve_existing_def Let_def res_simps dest!: canonicalize_path_place(1))

lemma read_resolved:
  assumes "env_ok e fs" "fs q \<noteq> None" "\<forall>t. fs q \<noteq> Some (NLink t)" "read_to_string e fs (path_str q) = Inr b"
  shows "fs q = Some (NFile b) \<and> utf8_valid b"
proof -
  have "locate e fs True (path_str q) = Inr q"
    by (rule locate_path_str) (use assms in \<open>auto simp: env_ok_def\<close>)
  with assms show ?thesis
    by (auto simp: read_to_string_def read_bytes_def res_simps split: option.splits os_node.splits if_splits)
qed

section \<open>Entries of one directory\<close>

text \<open>A later walk through a directory tree in which one file changed goes the same way.\<close>

lemma walk_path_update:
  assumes "walk_path fs True n cur xs = Inr q" "fs q = Some NDir" "fs z = None \<or> (\<exists>b. fs z = Some (NFile b))"
  shows "walk_path (fs(z \<mapsto> NFile b')) True n cur xs = Inr q"
  using assms(1)
proof (induction n arbitrary: cur xs rule: less_induct)
  case (less n)
  show ?case
    using less.prems
  proof (induction xs arbitrary: cur)
    case Nil
    then show ?case by (simp add: walk_path.simps(1))
  next
    case (Cons c cs)
    have dir: "fs cur = Some NDir" using Cons.prems by (simp add: walk_path.simps split: if_splits)
    then have z: "cur \<noteq> z" using assms(3) by auto
    consider (skip) "c = [] \<or> c = ''.''" | (up) "c = ''..''" | (name) "c \<noteq> []" "c \<noteq> ''.''" "c \<noteq> ''..''"
      by auto
    then show ?case
    proof cases
      case name
      note walk = Cons.prems [unfolded walk_path.simps(2), simplified dir name, simplified]
      have cz: "cur @ [c] \<noteq> z"
      proof
        assume "cur @ [c] = z"
        with walk assms(2,3) show False
          by (cases cs) (auto simp: walk_path.simps split: if_splits)
      qed
      with walk Cons.IH less.IH [of "n - 1"] dir z name show ?thesis
        by (auto simp: walk_path.simps(2) split: option.splits os_node.splits if_splits)
    qed (use Cons dir z in \<open>auto simp: walk_path.simps(2)\<close>)
  qed
qed

text \<open>The parent of a path leads to a node of the tree; if that is a directory, the path names an entry of it.\<close>

definition parent_at :: "os_env \<Rightarrow> os_files \<Rightarrow> bool \<Rightarrow> string list \<Rightarrow> os_path \<Rightarrow> bool" where
  "parent_at e fs absolute comps q \<longleftrightarrow>
     locate e fs True (path_of absolute comps) = Inr q \<and> fs q \<noteq> None"

definition no_slash :: "string \<Rightarrow> bool" where
  "no_slash s \<longleftrightarrow> CHR ''/'' \<notin> set s"

lemma split_path_of:
  "cs \<noteq> [] \<Longrightarrow> list_all no_slash cs \<Longrightarrow>
     split_on CHR ''/'' (path_of absolute cs) = (if absolute then [[]] else []) @ cs"
  by (simp add: path_of_def split_on_join list_all_iff no_slash_def)

lemma is_absolute_path_of:
  "list_all (\<lambda>s. no_slash s \<and> s \<noteq> []) cs \<Longrightarrow> is_absolute (path_of absolute cs) \<longleftrightarrow> absolute"
proof (cases absolute)
  case False
  assume cs: "list_all (\<lambda>s. no_slash s \<and> s \<noteq> []) cs"
  show ?thesis
  proof (cases cs)
    case (Cons c rest)
    with cs obtain x xs where "c = x # xs" "x \<noteq> CHR ''/''" by (cases c) (auto simp: no_slash_def)
    with False Cons show ?thesis by (cases rest) (auto simp: is_absolute_def starts_with_def path_of_def)
  qed (use False in \<open>simp add: is_absolute_def starts_with_def path_of_def\<close>)
qed (simp add: is_absolute_def starts_with_def path_of_def)

lemma locate_entry:
  assumes "parent_at e fs (is_absolute p) cs q" "list_all (\<lambda>s. no_slash s \<and> s \<noteq> []) cs"
    and "p \<noteq> []" "\<not> skipped (last (split_on CHR ''/'' p))"
    and "filter (\<lambda>s. \<not> skipped s) (split_on CHR ''/'' p) = filter (\<lambda>s. \<not> skipped s) cs @ [x]"
  shows "\<exists>m\<le>MAX_LINKS. locate e fs follow p = walk_path fs follow m q [x]"
proof -
  define start where "start = (if is_absolute p then [] else oe_cwd e)"
  have x: "\<not> skipped x"
  proof -
    have "x \<in> set (filter (\<lambda>s. \<not> skipped s) (split_on CHR ''/'' p))" unfolding assms(5) by simp
    then show ?thesis by simp
  qed
  have q: "fs q \<noteq> None" using assms(1) by (simp add: parent_at_def)
  have "locate e fs follow p = walk_path fs follow MAX_LINKS start (split_on CHR ''/'' p)"
    using assms(3) by (simp add: locate_def start_def)
  also have "\<dots> = walk_path fs follow MAX_LINKS start (filter (\<lambda>s. \<not> skipped s) (cs @ [x]))"
    using walk_path_filter [OF split_on_not_Nil assms(4), of fs follow MAX_LINKS start "[]"] assms(5) x
    by simp
  also have "\<dots> = walk_path fs follow MAX_LINKS start (cs @ [x])"
    using walk_path_filter [of "cs @ [x]" fs follow MAX_LINKS start "[]"] x by simp
  finally have loc: "locate e fs follow p = walk_path fs follow MAX_LINKS start (cs @ [x])" .
  have par: "locate e fs True (path_of (is_absolute p) cs) = Inr q" using assms(1) by (simp add: parent_at_def)
  show ?thesis
  proof (cases "cs = []")
    case True
    with par have "is_absolute p" "q = []"
      by (auto simp: locate_def path_of_def is_absolute_def starts_with_def walk_path.simps split: if_splits)
    with loc True start_def show ?thesis by auto
  next
    case False
    then have sp: "split_on CHR ''/'' (path_of (is_absolute p) cs) = (if is_absolute p then [[]] else []) @ cs"
      by (rule split_path_of) (use assms(2) in \<open>auto simp: list_all_iff\<close>)
    have "walk_path fs True MAX_LINKS start ((if is_absolute p then [[]] else []) @ cs) = Inr q"
      using par is_absolute_path_of [OF assms(2), of "is_absolute p"] sp
      by (simp add: locate_def start_def split: if_splits)
    then have "walk_path fs True MAX_LINKS start cs = Inr q"
      using walk_path_skip [of "[]" cs fs True MAX_LINKS start] False by (simp add: skipped_def split: if_splits)
    from walk_path_append [OF this q, of "[x]" follow] loc show ?thesis by simp
  qed
qed

lemma path_comps_segments: "list_all (\<lambda>s. no_slash s \<and> s \<noteq> []) (path_comps p)"
  using split_on_no_sep [of _ "CHR ''/''" p] by (auto simp: path_comps_def Let_def list_all_iff no_slash_def)

lemma path_comps_filter:
  "filter (\<lambda>s. \<not> skipped s) (path_comps p) = filter (\<lambda>s. \<not> skipped s) (split_on CHR ''/'' p)"
  by (auto simp: path_comps_def Let_def skipped_def intro: filter_cong)

lemma file_name_comps:
  "path_file_name p = Some name \<Longrightarrow>
     path_comps p = butlast (path_comps p) @ [name] \<and> plain_os_name name"
  using path_comps_segments [of p]
  by (auto simp: path_file_name_def Let_def plain_os_name_def list_all_iff no_slash_def split: if_splits)

definition temp_name :: "string \<Rightarrow> string" where
  "temp_name name =
     fst (split_name name) @ ''.'' @ (case snd (split_name name) of None \<Rightarrow> ''tmp'' | Some x \<Rightarrow> x) @ ''.pharness-tmp''"

lemma split_name_parts:
  "(case split_name name of (stem, None) \<Rightarrow> name = stem | (stem, Some ext) \<Rightarrow> name = stem @ ''.'' @ ext)"
  by (auto simp: split_name_def dest: rsplit_once_Some split: option.splits)

lemma temp_name_longer: "length name < length (temp_name name)"
  using split_name_parts [of name] by (auto simp: temp_name_def split: prod.splits option.splits)

lemma temp_name_suffix: "suffix ''.pharness-tmp'' (temp_name name)"
  unfolding temp_name_def append_assoc [symmetric] by (rule suffixI) (rule refl)

lemma temp_name_plain: "plain_os_name name \<Longrightarrow> plain_os_name (temp_name name)"
  using split_name_parts [of name] temp_name_longer [of name] temp_name_suffix [of name]
  by (auto simp: plain_os_name_def temp_name_def split: prod.splits option.splits)

lemma temp_path_name:
  "path_file_name d = Some name \<Longrightarrow>
     temp_path_of d = path_of (is_absolute d) (butlast (path_comps d) @ [temp_name name])"
  by (cases "split_name name")
    (auto simp: temp_path_of_def with_extension_def path_extension_def temp_name_def split: option.splits)

lemma walk_path_one:
  "fs q = Some NDir \<Longrightarrow> plain_os_name x \<Longrightarrow> \<not> follow \<or> (\<forall>t. fs (q @ [x]) \<noteq> Some (NLink t)) \<Longrightarrow>
     walk_path fs follow m q [x] = Inr (q @ [x])"
  by (auto simp: walk_path.simps plain_os_name_def split: option.splits os_node.splits)

lemma plain_not_skipped: "plain_os_name x \<Longrightarrow> \<not> skipped x"
  by (auto simp: plain_os_name_def skipped_def)

text \<open>The temporary file and the destination are entries of the directory the parent leads to.\<close>

lemma locate_temp_walk:
  assumes "path_file_name d = Some name" "parent_at e fs (is_absolute d) (butlast (path_comps d)) q"
  shows "\<exists>m\<le>MAX_LINKS. locate e fs follow (temp_path_of d) = walk_path fs follow m q [temp_name name]"
proof -
  let ?cs = "butlast (path_comps d)"
  have name: "plain_os_name (temp_name name)"
    using file_name_comps [OF assms(1)] by (simp add: temp_name_plain)
  have cs: "list_all (\<lambda>s. no_slash s \<and> s \<noteq> []) ?cs"
    using path_comps_segments [of d] by (auto simp: list_all_iff dest: in_set_butlastD)
  then have all: "list_all (\<lambda>s. no_slash s \<and> s \<noteq> []) (?cs @ [temp_name name])"
    using name by (auto simp: plain_os_name_def no_slash_def)
  have sp: "split_on CHR ''/'' (temp_path_of d) = (if is_absolute d then [[]] else []) @ ?cs @ [temp_name name]"
    unfolding temp_path_name [OF assms(1)]
    by (rule split_path_of) (use all in \<open>auto simp: list_all_iff\<close>)
  have abs: "is_absolute (temp_path_of d) = is_absolute d"
    unfolding temp_path_name [OF assms(1)] by (rule is_absolute_path_of [OF all])
  show ?thesis
  proof (rule locate_entry)
    show "parent_at e fs (is_absolute (temp_path_of d)) ?cs q" using assms(2) abs by simp
    show "temp_path_of d \<noteq> []" using sp name by (auto simp: plain_os_name_def split: if_splits)
  qed (use cs sp plain_not_skipped [OF name] in \<open>auto simp: skipped_def\<close>)
qed

lemma locate_temp:
  assumes "path_file_name d = Some name" "parent_at e fs (is_absolute d) (butlast (path_comps d)) q"
    and "fs q = Some NDir" "\<not> follow \<or> (\<forall>t. fs (q @ [temp_name name]) \<noteq> Some (NLink t))"
  shows "locate e fs follow (temp_path_of d) = Inr (q @ [temp_name name])"
  using locate_temp_walk [OF assms(1,2), of follow] file_name_comps [OF assms(1)]
    walk_path_one [OF assms(3) _ assms(4)]
  by (auto simp: temp_name_plain)

lemma locate_destination:
  assumes "path_file_name d = Some name" "parent_at e fs (is_absolute d) (butlast (path_comps d)) q"
    and "\<not> last_special d" "fs q = Some NDir" "\<not> follow \<or> (\<forall>t. fs (q @ [name]) \<noteq> Some (NLink t))"
  shows "locate e fs follow d = Inr (q @ [name])"
proof -
  let ?cs = "butlast (path_comps d)"
  have name: "path_comps d = ?cs @ [name]" "plain_os_name name" using file_name_comps [OF assms(1)] by auto
  have "\<exists>m\<le>MAX_LINKS. locate e fs follow d = walk_path fs follow m q [name]"
  proof (rule locate_entry [OF assms(2)])
    show "list_all (\<lambda>s. no_slash s \<and> s \<noteq> []) ?cs"
      using path_comps_segments [of d] by (auto simp: list_all_iff dest: in_set_butlastD)
    show "d \<noteq> []" using assms(1) by (auto simp: path_file_name_def path_comps_def)
    show "\<not> skipped (last (split_on CHR ''/'' d))"
      using assms(3) by (auto simp: last_special_def Let_def skipped_def)
    show "filter (\<lambda>s. \<not> skipped s) (split_on CHR ''/'' d) = filter (\<lambda>s. \<not> skipped s) ?cs @ [name]"
      using arg_cong [OF name(1), of "filter (\<lambda>s. \<not> skipped s)"] plain_not_skipped [OF name(2)]
        path_comps_filter [of d] by simp
  qed
  with walk_path_one [OF assms(4) name(2) assms(5)] show ?thesis by auto
qed

lemma parent_at_update:
  assumes "parent_at e fs absolute cs q" "fs z = None \<or> (\<exists>b. fs z = Some (NFile b))" "fs q = Some NDir"
  shows "parent_at e (fs(z \<mapsto> NFile b')) absolute cs q"
proof -
  have "z \<noteq> q" using assms by auto
  with assms walk_path_update [OF _ assms(3,2)] show ?thesis
    by (auto simp: parent_at_def locate_def split: if_splits)
qed

text \<open>A path that ends in \<open>..\<close> or is only dots leads to a directory.\<close>

primrec ends_up :: "string list \<Rightarrow> bool" where
  "ends_up [] = False"
| "ends_up (c # cs) = (ends_up cs \<or> c = ''..'' \<and> list_all skipped cs)"

lemma ends_up_append [simp]: "ends_up ys \<Longrightarrow> ends_up (xs @ ys)"
  by (induction xs) auto

lemma walk_path_skips:
  "list_all skipped cs \<Longrightarrow> fs cur = Some NDir \<Longrightarrow> walk_path fs follow n cur cs = Inr cur"
  by (induction cs) (auto simp: walk_path.simps skipped_def)

lemma walk_path_up:
  assumes "walk_path fs follow n cur segs = Inr q" "tree_ok fs" "ends_up segs"
  shows "fs q = Some NDir"
  using assms
proof (induction fs follow n cur segs rule: walk_path.induct [case_names Nil Cons])
  case (Cons fs follow n cur c cs)
  have dir: "fs cur = Some NDir" using Cons.prems(1) by (simp add: walk_path.simps(2) split: if_splits)
  then have up: "fs (butlast cur) = Some NDir"
    using tree_ok_butlast [OF Cons.prems(2), of cur] by (cases "cur = []") auto
  show ?case
  proof (cases "ends_up cs")
    case True
    then have "cs \<noteq> []" by auto
    with True Cons dir show ?thesis
      by (auto simp: walk_path.simps(2) split: if_splits option.splits os_node.splits)
  next
    case False
    with Cons.prems have "c = ''..''" "list_all skipped cs" by auto
    with Cons.prems(1) dir up walk_path_skips [where fs = fs and cur = "butlast cur", OF _ up]
    show ?thesis by (auto simp: walk_path.simps(2))
  qed
qed simp

lemma ends_up_filter:
  "filter (\<lambda>s. \<not> skipped s) segs \<noteq> [] \<Longrightarrow> last (filter (\<lambda>s. \<not> skipped s) segs) = ''..'' \<Longrightarrow> ends_up segs"
  by (induction segs) (auto simp: filter_empty_conv list_all_iff split: if_splits)

lemma path_comps_unnamed:
  assumes "path_file_name d = None" "path_comps d \<noteq> []"
  shows "ends_up (split_on CHR ''/'' d) \<or> list_all skipped (split_on CHR ''/'' d)"
proof (cases "filter (\<lambda>s. \<not> skipped s) (split_on CHR ''/'' d) = []")
  case True
  then show ?thesis by (auto simp: filter_empty_conv list_all_iff)
next
  case False
  let ?f = "filter (\<lambda>s. \<not> skipped s) (split_on CHR ''/'' d)"
  have "path_comps d = (if hd (split_on CHR ''/'' d) = ''.'' then [''.''] else []) @ ?f"
    by (simp add: path_comps_def Let_def skipped_def)
  with False have "last (path_comps d) = last ?f" by simp
  moreover have "last ?f \<in> set ?f" using False by (rule last_in_set)
  then have "last ?f \<noteq> ''.''" by (auto simp: skipped_def)
  ultimately have "last ?f = ''..''" using assms by (auto simp: path_file_name_def Let_def split: if_splits)
  with False show ?thesis using ends_up_filter by blast
qed

lemma locate_unnamed:
  assumes "env_ok e fs" "path_file_name d = None" "path_comps d \<noteq> []" "locate e fs follow d = Inr q"
  shows "fs q = Some NDir"
proof -
  have ok: "tree_ok fs" "fs (oe_cwd e) = Some NDir" "fs [] = Some NDir"
    using assms(1) tree_ok_root by (auto simp: env_ok_def)
  from assms(4) have "walk_path fs follow MAX_LINKS (if is_absolute d then [] else oe_cwd e)
      (split_on CHR ''/'' d) = Inr q" by (simp add: locate_def split: if_splits)
  with path_comps_unnamed [OF assms(2,3)] walk_path_up [OF _ ok(1)] ok(2,3) show ?thesis
    by (auto simp: walk_path_skips split: if_splits)
qed

section \<open>What a write changes\<close>

text \<open>
  On success the temporary entry is gone and the destination holds the content; on failure only the
  temporary entry may have changed.
\<close>

definition replaced ::
    "os_files \<Rightarrow> os_path \<Rightarrow> string \<Rightarrow> string \<Rightarrow> os_files \<Rightarrow> ('e, 'a) res \<Rightarrow> bool" where
  "replaced fs q name content fs' r \<longleftrightarrow>
     (case r of
        Inr _ \<Rightarrow> fs' = (fs(q @ [temp_name name] := None))(q @ [name] \<mapsto> NFile content)
      | Inl _ \<Rightarrow> (\<forall>p. p \<noteq> q @ [temp_name name] \<longrightarrow> fs' p = fs p))"

lemma replaced_refl [simp]: "replaced fs q name content fs (Inl err)"
  by (simp add: replaced_def)

lemma create_file_entry:
  assumes "locate e fs True p = Inr z"
  shows "(\<exists>err. create_file e fs p = Inl err) \<or>
    fs z \<noteq> Some NDir \<and> create_file e fs p = Inr (z, fs(z \<mapsto> NFile []))"
  using assms by (cases "oe_fault e (CallCreate p)") (auto simp: create_file_def faulty_def)

lemma write_all_entry:
  "\<exists>b. fst (write_all e fs p z content) = fs(z \<mapsto> NFile b)"
  "snd (write_all e fs p z content) = Inr () \<Longrightarrow> fst (write_all e fs p z content) = fs(z \<mapsto> NFile content)"
  by (auto simp: write_all_def split: sum.splits)

lemma rename_path_entry:
  assumes "rename_path e fs a b = Inr fs'" "locate e fs False a = Inr qa" "fs qa = Some (NFile content)"
    and "\<And>qb. \<not> last_special b \<Longrightarrow> locate e fs False b = Inr qb \<Longrightarrow> qb = z"
  shows "fs' = (fs(qa := None))(z \<mapsto> NFile content)"
  using assms by (auto simp: rename_path_def res_simps split: if_splits)

lemma replace_file_effect:
  assumes "path_file_name d = Some name" "parent_at e fs (is_absolute d) (butlast (path_comps d)) q"
    and "\<forall>t. fs (q @ [temp_name name]) \<noteq> Some (NLink t)"
    and "replace_file e fs path d content = (fs', r)"
  shows "replaced fs q name content fs' r"
proof (cases "fs q = Some NDir")
  case False
  then have "\<exists>err. locate e fs True (temp_path_of d) = Inl err"
    using locate_temp_walk [OF assms(1,2), of True] by (auto simp: walk_path.simps)
  then have "\<exists>err. create_file e fs (temp_path_of d) = Inl err"
    by (cases "oe_fault e (CallCreate (temp_path_of d))") (auto simp: create_file_def faulty_def)
  with assms(4) show ?thesis by (auto simp: replace_file_def Let_def)
next
  case dir: True
  let ?z = "q @ [temp_name name]"
  have loc: "locate e fs True (temp_path_of d) = Inr ?z"
    by (rule locate_temp [OF assms(1,2) dir]) (use assms(3) in simp)
  show ?thesis
  proof (cases "create_file e fs (temp_path_of d)")
    case (Inl err)
    with assms(4) show ?thesis by (auto simp: replace_file_def Let_def)
  next
    case (Inr opened)
    with create_file_entry [OF loc] have z: "fs ?z \<noteq> Some NDir" "opened = (?z, fs(?z \<mapsto> NFile []))" by auto
    then have leaf: "fs ?z = None \<or> (\<exists>b. fs ?z = Some (NFile b))"
      using assms(3) by (cases "fs ?z") (auto, metis os_node.exhaust)
    obtain fs2 w where wr: "write_all e (fs(?z \<mapsto> NFile [])) (temp_path_of d) ?z content = (fs2, w)"
      by (cases "write_all e (fs(?z \<mapsto> NFile [])) (temp_path_of d) ?z content")
    then obtain b where fs2: "fs2 = fs(?z \<mapsto> NFile b)" "w = Inr () \<Longrightarrow> b = content"
      using write_all_entry [of e "fs(?z \<mapsto> NFile [])" "temp_path_of d" ?z content] by fastforce
    have par: "parent_at e fs2 (is_absolute d) (butlast (path_comps d)) q" "fs2 q = Some NDir"
      using parent_at_update [OF assms(2) leaf dir, of b] dir by (simp_all add: fs2)
    have ne: "name \<noteq> temp_name name" using temp_name_longer [of name] by auto
    show ?thesis
    proof (cases "w = Inr () \<and> faulty e (CallSync (temp_path_of d)) = Inr ()")
      case False
      with assms(4) Inr z wr show ?thesis
        by (cases w; cases "faulty e (CallSync (temp_path_of d))")
          (auto simp: replace_file_def Let_def replaced_def fs2)
    next
      case True
      show ?thesis
      proof (cases "rename_path e fs2 (temp_path_of d) d")
        case (Inl err)
        with assms(4) Inr z wr True show ?thesis
          by (auto simp: replace_file_def Let_def replaced_def fs2)
      next
        case renamed: (Inr fs3)
        have "fs3 = (fs2(?z := None))(q @ [name] \<mapsto> NFile content)"
        proof (rule rename_path_entry [OF renamed])
          show "locate e fs2 False (temp_path_of d) = Inr ?z" by (rule locate_temp [OF assms(1) par]) simp
          show "fs2 ?z = Some (NFile content)" using True fs2 by simp
          fix qb
          assume "\<not> last_special d" "locate e fs2 False d = Inr qb"
          then show "qb = q @ [name]" using locate_destination [OF assms(1) par(1) _ par(2), of False] by simp
        qed
        with assms(4) Inr z wr True renamed show ?thesis
          by (auto simp: replace_file_def Let_def replaced_def fs2)
      qed
    qed
  qed
qed

lemma replace_file_unnamed:
  assumes "env_ok e fs" "path_file_name d = None" "path_comps d \<noteq> []"
  shows "\<exists>err. replace_file e fs path d content = (fs, Inl err)"
proof -
  have temp: "temp_path_of d = d" using assms(2) by (simp add: temp_path_of_def with_extension_def)
  have "\<exists>err. create_file e fs d = Inl err"
    using locate_unnamed [OF assms] by (cases "create_file e fs d") (auto simp: create_file_def res_simps)
  with temp show ?thesis by (auto simp: replace_file_def Let_def)
qed

end
