(* ===== verification/FsProperties.thy ===== *)
theory FsProperties
  imports FsSafety "HOL-Library.Code_Target_Nat"
begin

text \<open>
  What the file tools guarantee of the workspace, and the calls with which a symbolic link inside the
  workspace takes them out of it.
\<close>

section \<open>Reading\<close>

lemma truncate_utf8_prefix: "truncate_utf8 v n = (shown, short) \<Longrightarrow> prefix shown v"
  by (auto simp: truncate_utf8_def take_is_prefix split: if_splits)


section \<open>Writing\<close>

text \<open>No link of the tree carries the name of a temporary file.\<close>

definition no_temp_links :: "os_files \<Rightarrow> bool" where
  "no_temp_links fs \<longleftrightarrow>
     (\<forall>q x target. fs (q @ [x]) = Some (NLink target) \<longrightarrow> \<not> suffix ''.pharness-tmp'' x)"

lemma no_temp_link: "no_temp_links fs \<Longrightarrow> \<forall>t. fs (q @ [temp_name name]) \<noteq> Some (NLink t)"
  using temp_name_suffix unfolding no_temp_links_def by blast

lemma resolve_for_write_parent:
  assumes "env_ok e fs" "resolve_for_write e fs t path = Inr d"
  obtains q where "d = (if is_absolute path then path else path_join (ft_workspace_root t) path)"
    "path_comps d \<noteq> []" "parent_at e fs (is_absolute d) (butlast (path_comps d)) q"
    "prefix (ft_canonical_root t) q"
proof -
  from assms(2) obtain parent q where
    d: "d = (if is_absolute path then path else path_join (ft_workspace_root t) path)"
    and p: "path_parent d = Some parent" "canonicalize_path e fs parent = Inr q" "prefix (ft_canonical_root t) q"
    unfolding resolve_for_write_def Let_def by (auto simp: res_simps split: if_splits)
  have "path_comps d \<noteq> []" "parent_at e fs (is_absolute d) (butlast (path_comps d)) q"
    using p(1) canonicalize_path_place [OF assms(1) p(2)]
    by (auto simp: path_parent_def Let_def parent_at_def split: if_splits)
  then show thesis using d p(3) that by blast
qed

lemma write_file_cases:
  assumes "write_file e fs t path content = (fs', r)"
  obtains err where "resolve_for_write e fs t path = Inl err" "fs' = fs" "r = Inl err"
  | d r' where "resolve_for_write e fs t path = Inr d" "replace_file e fs path d content = (fs', r')"
      "\<And>err. r = Inl err \<longleftrightarrow> r' = Inl err"
  using assms unfolding write_file_def Let_def
  by (auto split: sum.splits prod.splits)

lemma replaced_same_error:
  "replaced fs q name content fs' (r' :: ('e, unit) res) \<Longrightarrow> (\<And>err. r = Inl err \<longleftrightarrow> r' = Inl err) \<Longrightarrow>
     replaced fs q name content fs' r"
  by (cases r; cases r') (auto simp: replaced_def)

lemma write_replaces:
  assumes "env_ok e fs" "no_temp_links fs"
    and "write_file e fs t path content = (fs', r)"
  shows "\<exists>q name. prefix (ft_canonical_root t) q \<and> replaced fs q name content fs' r \<and>
    (\<not> isl r \<longrightarrow> path_file_name (if is_absolute path then path else path_join (ft_workspace_root t) path)
       = Some name)"
  using assms(3)
proof (cases rule: write_file_cases)
  case (1 err)
  then show ?thesis by auto
next
  case (2 d r')
  from resolve_for_write_parent [OF assms(1) 2(1)] obtain q where
    d: "d = (if is_absolute path then path else path_join (ft_workspace_root t) path)" "path_comps d \<noteq> []"
    and q: "parent_at e fs (is_absolute d) (butlast (path_comps d)) q" "prefix (ft_canonical_root t) q" .
  show ?thesis
  proof (cases "path_file_name d")
    case None
    obtain err where "replace_file e fs path d content = (fs, Inl err)"
      using replace_file_unnamed [OF assms(1) None d(2)] by blast
    with 2(2,3) have "fs' = fs" "r = Inl err" by auto
    with q(2) show ?thesis by auto
  next
    case (Some name)
    have "replaced fs q name content fs' r'"
      by (rule replace_file_effect [OF Some q(1) no_temp_link [OF assms(2)] 2(2)])
    then have "replaced fs q name content fs' r" by (rule replaced_same_error) (rule 2(3))
    with q(2) Some d(1) show ?thesis by blast
  qed
qed

text \<open>C24: a write changes one directory of the workspace. When it succeeds, the entry it was asked for holds
  the new content and no temporary file is left; when it fails at any point, every entry but the temporary one
  is as it was, the destination included.\<close>

theorem write_replaces_one_entry:
  assumes "env_ok e fs" "no_temp_links fs"
    and "write_file e fs t path content = (fs', r)"
  shows "\<exists>q name. prefix (ft_canonical_root t) q \<and> replaced fs q name content fs' r \<and>
    (\<not> isl r \<longrightarrow> path_file_name (if is_absolute path then path else path_join (ft_workspace_root t) path)
       = Some name)"
  by (rule write_replaces [OF assms])

section \<open>Patching\<close>

lemma join_split_str: "p \<noteq> [] \<Longrightarrow> join p (split_str p s) = s"
proof (induction p s rule: split_str.induct)
  case (1 p s)
  show ?case
  proof (cases "split_once p s")
    case (Some x)
    obtain h u where x: "x = (h, u)" by (cases x)
    have "split_str p u \<noteq> []" by (subst split_str.simps) (auto split: option.splits)
    then show ?thesis
      using 1(1) [OF 1(2) Some x [symmetric]] 1(2) Some x split_once_Some [of p s h u]
      by (subst split_str.simps) (cases "split_str p u"; simp)
  qed (use 1 in \<open>subst split_str.simps; simp\<close>)
qed

lemma split_once_None: "split_once p s = None \<Longrightarrow> \<not> str_contains s p"
proof (induction s)
  case Nil
  then show ?case by (subst (asm) split_once.simps) (auto simp: str_contains_def split: if_splits)
next
  case (Cons x xs)
  then show ?case
    by (subst (asm) split_once.simps) (auto simp: str_contains_def sublist_Cons_right split: if_splits)
qed

lemma split_once_first: "split_once p s = Some (h, t) \<Longrightarrow> p \<noteq> [] \<Longrightarrow> \<not> str_contains h p"
proof (induction s arbitrary: h)
  case Nil
  then show ?case by (subst (asm) split_once.simps) (auto simp: str_contains_def split: if_splits)
next
  case (Cons x xs)
  show ?case
  proof (cases "prefix p (x # xs)")
    case True
    then have "h = []" using Cons.prems(1) by (subst (asm) split_once.simps) simp
    then show ?thesis using Cons.prems(2) by (simp add: str_contains_def)
  next
    case False
    then obtain h' where h: "split_once p xs = Some (h', t)" "h = x # h'"
      using Cons.prems(1) by (subst (asm) split_once.simps) auto
    have "\<not> prefix p (x # h')"
      using False split_once_Some [OF h(1)] prefix_prefix [of p "x # h'" "p @ t"] by auto
    with Cons.IH [OF h(1) Cons.prems(2)] show ?thesis
      unfolding h(2) str_contains_def sublist_Cons_right by blast
  qed
qed

lemma split_str_parts: "p \<noteq> [] \<Longrightarrow> list_all (\<lambda>s. \<not> str_contains s p) (split_str p s)"
proof (induction p s rule: split_str.induct)
  case (1 p s)
  then show ?case
    by (subst split_str.simps)
      (auto dest: split_once_None split_once_first split: option.splits)
qed

lemma split_str_single: "split_once p s = None \<Longrightarrow> split_str p s = [s]"
  by (subst split_str.simps) simp

text \<open>C25: an accepted patch replaces exactly the occurrences of the text to find: the file is the parts between
  them, none of which contains that text, and the patched file is the same parts around the replacement; without
  \<open>replace_all\<close> there is exactly one.\<close>

theorem patch_replaces_occurrences:
  assumes "tp_find patch \<noteq> []" "patch_text patch before = Inr (after, n)"
  shows "\<exists>parts. before = join (tp_find patch) parts \<and> after = join (tp_replace patch) parts \<and>
    list_all (\<lambda>s. \<not> str_contains s (tp_find patch)) parts \<and> length parts = Suc n \<and> 0 < n \<and>
    (tp_replace_all patch \<or> n = 1)"
proof -
  let ?p = "tp_find patch"
  define parts where "parts = split_str ?p before"
  have parts: "before = join ?p parts" "list_all (\<lambda>s. \<not> str_contains s ?p) parts"
    using join_split_str [OF assms(1)] split_str_parts [OF assms(1)] by (simp_all add: parts_def)
  have n: "match_count ?p before = n" "0 < n" "tp_replace_all patch \<or> n = 1"
    using assms(2) by (auto simp: patch_text_def Let_def split: if_splits)
  then have len: "length parts = Suc n" by (simp add: match_count_def parts_def)
  have "after = join (tp_replace patch) parts"
  proof (cases "tp_replace_all patch")
    case True
    with assms(2) show ?thesis by (auto simp: patch_text_def Let_def replace_str_def parts_def split: if_splits)
  next
    case False
    with n len obtain h u where two: "parts = [h, u]" by (cases parts; cases "tl parts") auto
    then obtain x where x: "split_once ?p before = Some x"
      unfolding parts_def using split_str_single by (cases "split_once ?p before") auto
    obtain h' u' where x': "x = (h', u')" by (cases x)
    have "parts = h' # split_str ?p u'"
      unfolding parts_def by (subst split_str.simps) (simp add: assms(1) x x')
    with two have "h' = h" "split_str ?p u' = [u]" by auto
    then have "u' = u" using join_split_str [OF assms(1), of u'] by simp
    with False assms(2) x x' two \<open>h' = h\<close> show ?thesis
      by (auto simp: patch_text_def Let_def replace_first_def split: if_splits)
  qed
  with parts len n show ?thesis by blast
qed

section \<open>Listing\<close>

lemma collect_ignored:
  "\<forall>q ft. WalkEntry q ft \<in> set items \<longrightarrow> should_ignore_path q \<Longrightarrow>
     collect_entries t root limit items found = Inr (found', trunc) \<Longrightarrow> found' = found"
  by (induction t root limit items found rule: collect_entries.induct) (auto split: if_splits)

lemma should_ignore_prefix: "prefix p q \<Longrightarrow> should_ignore_path p \<Longrightarrow> should_ignore_path q"
  by (auto simp: should_ignore_path_def prefix_def)

text \<open>the names that hide generated trees are looked for in the whole path of an entry: below a workspace whose
  own path contains one of them, no directory shows any entry.\<close>

theorem ignored_root_lists_nothing:
  assumes "should_ignore_path (ft_canonical_root t)"
    and "\<And>root depth q ft. WalkEntry q ft \<in> set (walker root depth) \<Longrightarrow> prefix root q"
    and "list_dir e fs walker t path depth max_entries = Inr r"
  shows "json_get (tr_content r) ''entries'' = Some (JArray [])"
proof -
  from assms(3) obtain root found trunc where root: "resolve_existing e fs t path = Inr root"
    and found: "collect_entries t root (clamp_nat 1 2000 (opt_nat max_entries 500))
      (walker root (Some (unat depth + 1))) [] = Inr (found, trunc)"
    and r: "tr_content r = JObject [(''entries'', JArray (map (\<lambda>(p, kind).
        JObject [(''kind'', JString kind), (''path'', JString p)]) (sort_key fst found))),
      (''truncated'', JBool trunc)]"
    by (auto simp: list_dir_def Let_def tool_result_ok_def split: if_splits)
  have "should_ignore_path q" if "WalkEntry q ft \<in> set (walker root (Some (unat depth + 1)))" for q ft
    using should_ignore_prefix [OF prefix_order.trans [OF resolve_existing_inside [OF root] assms(2) [OF that]] assms(1)] .
  with collect_ignored [OF _ found] have "found = []" by blast
  with r show ?thesis by simp
qed

end
