(* ===== verification/ToolSafety.thy ===== *)
theory ToolSafety
  imports ProjectExecutor FsProperties
begin

text \<open>
  What the composed tools of an attempt may do: which processes they spawn, where a write under a repository
  contract reaches, what evidence they return and what of an output they show.
\<close>

section \<open>Spawned processes\<close>

text \<open>A process the tools may spawn, with the checks behind it.\<close>

datatype allowed_call =
    ByShell process_call | ByGit "string list" | ByPatch string bool "string list"
  | ByAcceptance repository_contract acceptance_command
  | ByCommand runtime_snapshot string string "string list" os_path

fun call_of :: "run_world \<Rightarrow> project_tools \<Rightarrow> shell_vars \<Rightarrow> shell_tools \<Rightarrow> allowed_call \<Rightarrow> process_call" where
  "call_of w t vars shell (ByShell call) = call"
| "call_of w t vars shell (ByGit args) = program_call vars ''git'' (git_args shell args) (sh_workspace_root shell)"
| "call_of w t vars shell (ByPatch patch check_only paths) = git_apply_call t patch check_only"
| "call_of w t vars shell (ByAcceptance c command) = acceptance_call w t c (acm_command command)"
| "call_of w t vars shell (ByCommand rt program x args q) = workspace_call w t rt program x args q"

fun call_checked :: "project_tools \<Rightarrow> shell_vars \<Rightarrow> shell_tools \<Rightarrow> allowed_call \<Rightarrow> bool" where
  "call_checked t vars shell (ByShell call) = shell_call_ok vars shell call"
| "call_checked t vars shell (ByGit args) =
     (args = [''status'', ''--short'', ''--branch''] \<or> args = [''diff'', ''--no-ext-diff''] \<or>
      (\<exists>p. args = [''diff'', ''--no-ext-diff'', ''--'', p] \<and> \<not> looks_secretish p \<and> \<not> starts_with p ''-''))"
| "call_checked t vars shell (ByPatch patch check_only paths) =
     (unified_diff_paths patch = Inr paths \<and> (\<forall>p\<in>set paths. \<exists>d. writable_path t p = Inr d))"
| "call_checked t vars shell (ByAcceptance c command) =
     (pt_contract t = Some c \<and> command \<in> set (ct_acceptance_commands c) \<and> acm_command command \<in> set (pt_selected t))"
| "call_checked t vars shell (ByCommand rt program x args q) =
     (Option.bind (pt_snapshot t) en_runtime = Some rt \<and> validate_workspace_command x args = Inr () \<and>
      resolve_workspace_executable rt x = Inr program \<and> prefix (pt_canonical t) q)"

definition spawns_allowed ::
    "run_world \<Rightarrow> project_tools \<Rightarrow> shell_vars \<Rightarrow> shell_tools \<Rightarrow> tool_state \<Rightarrow> tool_state \<Rightarrow> bool" where
  "spawns_allowed w t vars shell s s' \<longleftrightarrow>
     (\<exists>calls. wd_spawned s' = wd_spawned s @ map (call_of w t vars shell) calls \<and>
        (\<forall>c\<in>set calls. call_checked t vars shell c))"

lemma spawns_none: "wd_spawned s' = wd_spawned s \<Longrightarrow> spawns_allowed w t vars shell s s'"
  unfolding spawns_allowed_def by (rule exI [of _ "[]"]) simp

lemma spawns_refl [simp]: "spawns_allowed w t vars shell s s"
  by (simp add: spawns_none)

lemma spawns_one:
  "wd_spawned s' = wd_spawned s @ [call_of w t vars shell c] \<Longrightarrow> call_checked t vars shell c \<Longrightarrow>
     spawns_allowed w t vars shell s s'"
  unfolding spawns_allowed_def by (rule exI [of _ "[c]"]) simp

lemma spawns_trans:
  "spawns_allowed w t vars shell s s1 \<Longrightarrow> spawns_allowed w t vars shell s1 s2 \<Longrightarrow> spawns_allowed w t vars shell s s2"
  unfolding spawns_allowed_def by (elim exE conjE, rule_tac x = "calls @ callsa" in exI) auto

lemma spawn_process_log: "wd_spawned (fst (spawn_process spawn call limit s)) = wd_spawned s @ [call]"
  by (simp add: spawn_process_def split: prod.splits)

lemma files_execute_log: "wd_spawned (fst (files_execute sha256 e walker t a s)) = wd_spawned s"
  by (simp add: files_execute_def split: prod.splits)

lemma make_home_log: "wd_spawned (fst (make_home w t s)) = wd_spawned s"
  by (simp add: make_home_def split: prod.splits)

lemma shell_execute_spawns: "spawns_allowed w t vars shell s (fst (shell_execute spawn vars e shell a s))"
proof -
  have status: "spawns_allowed w t vars shell s (fst (git_status spawn vars shell s))"
    unfolding git_status_def
    by (rule spawns_one [where c = "ByGit [''status'', ''--short'', ''--branch'']"]) (simp_all add: run_tool_spawned)
  have diff: "spawns_allowed w t vars shell s (fst (git_diff spawn vars shell p s))" for p
  proof (cases "check_pathspec p")
    case (Inr u)
    then have "call_checked t vars shell (ByGit ([''diff'', ''--no-ext-diff''] @ (case p of None \<Rightarrow> [] | Some q \<Rightarrow> [''--'', q])))"
      by (auto simp: check_pathspec_def reject_secretish_def split: option.splits)
    with Inr show ?thesis
      unfolding git_diff_def
      by (intro spawns_one [where c = "ByGit ([''diff'', ''--no-ext-diff''] @ (case p of None \<Rightarrow> [] | Some q \<Rightarrow> [''--'', q]))"])
        (simp_all add: run_tool_spawned)
  qed (simp add: git_diff_def)
  have shell: "spawns_allowed w t vars shell s (fst (run_shell spawn vars e shell cmd cwd limit dry s))" for cmd cwd limit dry
  proof -
    obtain s' r where run: "run_shell spawn vars e shell cmd cwd limit dry s = (s', r)" by fastforce
    from run_shell_spawned [OF run] show ?thesis
      unfolding run fst_conv
      by (elim disjE conjE exE) (rule spawns_none, assumption, rule spawns_one [of _ _ _ _ _ _ "ByShell call" for call], auto)
  qed
  show ?thesis using status diff shell by (cases a) (simp_all add: shell_execute_def)
qed

lemma run_acceptance_spawns: "spawns_allowed w t vars shell s (fst (run_acceptance w t name s))"
proof -
  obtain s1 h where home: "make_home w t s = (s1, h)" by fastforce
  have base: "wd_spawned s1 = wd_spawned s" using make_home_log [of w t s] home by simp
  show ?thesis
  proof (cases "\<exists>c declared. h = Inr () \<and> pt_contract t = Some c \<and> contract_command c name = Some declared \<and>
      acm_command declared \<in> set (pt_selected t)")
    case False
    with home base show ?thesis
      by (intro spawns_none) (auto simp: run_acceptance_def split: sum.splits option.splits)
  next
    case True
    then obtain c declared where ok: "h = Inr ()" "pt_contract t = Some c" "contract_command c name = Some declared"
      "acm_command declared \<in> set (pt_selected t)" by blast
    then have allowed: "call_checked t vars shell (ByAcceptance c declared)"
      by (auto simp: contract_command_def dest: find_SomeD)
    obtain s2 answer where spawn:
      "spawn_process (rw_spawn w) (acceptance_call w t c (acm_command declared)) (Some 600000) s1 = (s2, answer)"
      by fastforce
    then have "fst (run_acceptance w t name s) = s2"
      using home ok by (cases answer) (simp_all add: run_acceptance_def Let_def)
    moreover have "wd_spawned s2 = wd_spawned s @ [call_of w t vars shell (ByAcceptance c declared)]"
      using spawn base spawn_process_log [of "rw_spawn w" "acceptance_call w t c (acm_command declared)" "Some 600000" s1]
      by simp
    ultimately show ?thesis using spawns_one [OF _ allowed] by simp
  qed
qed

lemma run_workspace_command_spawns:
  "spawns_allowed w t vars shell s (fst (run_workspace_command w t x args cwd ms s))"
proof -
  obtain s1 h where home: "make_home w t s = (s1, h)" by fastforce
  have base: "wd_spawned s1 = wd_spawned s" using make_home_log [of w t s] home by simp
  show ?thesis
  proof (cases "h = Inr () \<and> (\<exists>ok. command_checks (rw_env w) (wd_files s1) t x args cwd = Inr ok)")
    case False
    with home base show ?thesis
      by (intro spawns_none) (auto simp: run_workspace_command_def split: sum.splits)
  next
    case True
    then obtain rt program q where ok: "h = Inr ()"
      "command_checks (rw_env w) (wd_files s1) t x args cwd = Inr (rt, program, q)"
      by auto
    then have allowed: "call_checked t vars shell (ByCommand rt program x args q)"
      by (auto simp: command_checks_def resolve_command_cwd_def Let_def split: if_splits)
    let ?limit = "clamp_nat 100 120000 (case ms of None \<Rightarrow> 120000 | Some n \<Rightarrow> n)"
    obtain s2 answer where spawn:
      "spawn_process (rw_spawn w) (workspace_call w t rt program x args q) (Some ?limit) s1 = (s2, answer)"
      by fastforce
    then have "fst (run_workspace_command w t x args cwd ms s) = s2"
      using home ok by (cases answer) (simp_all add: run_workspace_command_def Let_def)
    moreover have "wd_spawned s2 = wd_spawned s @ [call_of w t vars shell (ByCommand rt program x args q)]"
      using spawn base spawn_process_log [of "rw_spawn w" "workspace_call w t rt program x args q" "Some ?limit" s1]
      by simp
    ultimately show ?thesis using spawns_one [OF _ allowed] by simp
  qed
qed

lemma run_git_apply_log:
  "wd_spawned (fst (run_git_apply w t patch check_only s)) = wd_spawned s @ [git_apply_call t patch check_only]"
proof -
  obtain s1 answer where spawn: "spawn_process (rw_spawn w) (git_apply_call t patch check_only) None s = (s1, answer)"
    by fastforce
  then show ?thesis
    using spawn_process_log [of "rw_spawn w" "git_apply_call t patch check_only" None s]
    by (cases answer) (simp_all add: run_git_apply_def)
qed

lemma apply_unified_patch_spawns: "spawns_allowed w t vars shell s (fst (apply_unified_patch w t patch preimage s))"
proof (cases "patch_checks w t (wd_files s) patch preimage")
  case (Inl err)
  then show ?thesis by (simp add: apply_unified_patch_def)
next
  case (Inr paths)
  then have ok: "call_checked t vars shell (ByPatch patch b paths)" for b
    by (auto simp: patch_checks_def check_patch_path_def split: if_splits)
  obtain s1 r1 where one: "run_git_apply w t patch True s = (s1, r1)" by fastforce
  obtain s2 r2 where two: "run_git_apply w t patch False s1 = (s2, r2)" by fastforce
  have s1: "spawns_allowed w t vars shell s s1"
    by (rule spawns_one [OF _ ok [of True]]) (use run_git_apply_log [of w t patch True s] one in simp)
  have "spawns_allowed w t vars shell s1 s2"
    by (rule spawns_one [OF _ ok [of False]]) (use run_git_apply_log [of w t patch False s1] two in simp)
  then have s2: "spawns_allowed w t vars shell s s2" by (rule spawns_trans [OF s1])
  from Inr one two s1 s2 show ?thesis
    by (cases r1; cases r2) (simp_all add: apply_unified_patch_def)
qed

lemma create_directory_log: "wd_spawned (fst (create_directory w t path s)) = wd_spawned s"
  by (auto simp: create_directory_def split: sum.splits prod.splits)

lemma contract_write_log: "wd_spawned (fst (contract_write w t a path s)) = wd_spawned s"
  by (auto simp: contract_write_def files_execute_log split: sum.splits)

lemma project_execute_spawns: "spawns_allowed w t vars shell s (fst (project_execute w t a s))"
  using run_acceptance_spawns run_workspace_command_spawns apply_unified_patch_spawns
    spawns_none [OF create_directory_log] spawns_none [OF contract_write_log]
  by (cases a) (simp_all add: project_execute_def)

lemma composite_spawns:
  assumes "\<And>s. spawns_allowed w t vars shell s (fst (primary a s))"
    and "\<And>s. spawns_allowed w t vars shell s (fst (fallback a s))"
  shows "spawns_allowed w t vars shell s (fst (composite_execute primary fallback a s))"
  using assms(1) [of s] spawns_trans [OF assms(1) [of s] assms(2) [of "fst (primary a s)"]]
  by (auto simp: composite_execute_def split: prod.splits)

end
