(* ===== verification/FsExamples.thy ===== *)
theory FsExamples
  imports FsProperties
begin

text \<open>
  A small tree with a workspace at \<open>/ws\<close>, and the file tools on it: an ordinary read, write and patch, and
  two calls that a link of the workspace takes outside.
\<close>

definition example_env :: os_env where
  "example_env = \<lparr>oe_cwd = [], oe_fault = (\<lambda>_. None), oe_written = 0\<rparr>"

definition plain_entries :: "(os_path \<times> os_node) list" where
  "plain_entries =
    [([], NDir), ([''ws''], NDir), ([''etc''], NDir), ([''ws'', ''a.txt''], NFile ''old word''),
     ([''etc'', ''key''], NFile ''private word'')]"

text \<open>Two links: one to a file outside, one at the name the temporary file of \<open>a.txt\<close> gets.\<close>

definition linked_entries :: "(os_path \<times> os_node) list" where
  "linked_entries = plain_entries @
    [([''ws'', ''note''], NLink ''/etc/key''), ([''ws'', ''a.txt.pharness-tmp''], NLink ''../etc/key'')]"

definition fs_example_tools :: fs_tools where
  "fs_example_tools = \<lparr>ft_workspace_root = ''/ws'', ft_canonical_root = [''ws'']\<rparr>"

definition example_walker :: walker where
  "example_walker root depth =
     (if root = [''ws''] then [WalkEntry [''ws''] (Some FtDir), WalkEntry [''ws'', ''a.txt''] (Some FtOther),
        WalkEntry [''ws'', ''note''] (Some FtOther)] else [])"

lemmas fs_example_defs = example_env_def plain_entries_def linked_entries_def fs_example_tools_def example_walker_def

lemma example_new: "fs_tools_new example_env (map_of plain_entries) ''/ws'' = Inr fs_example_tools"
  by code_simp

definition tree_check :: "(os_path \<times> os_node) list \<Rightarrow> bool" where
  "tree_check es \<longleftrightarrow> map_of es [] = Some NDir \<and>
     list_all (\<lambda>(p, node). p = [] \<or> map_of es (butlast p) = Some NDir \<and> plain_os_name (last p)) es"

lemma tree_check_ok: "tree_check es \<Longrightarrow> tree_ok (map_of es)"
  unfolding tree_check_def tree_ok_def
proof (intro conjI allI impI)
  fix p c
  assume es: "map_of es [] = Some NDir \<and>
     list_all (\<lambda>(p, node). p = [] \<or> map_of es (butlast p) = Some NDir \<and> plain_os_name (last p)) es"
    and "map_of es (p @ [c]) \<noteq> None"
  then obtain node where "(p @ [c], node) \<in> set es" by (auto dest: map_of_SomeD)
  with es show "map_of es p = Some NDir" "plain_os_name c" by (auto simp: list_all_iff)
qed simp

lemma example_env_ok: "env_ok example_env (map_of plain_entries)"
proof -
  have "tree_check plain_entries" by code_simp
  then have "tree_ok (map_of plain_entries)" by (rule tree_check_ok)
  then show ?thesis by (simp add: env_ok_def example_env_def tree_ok_root)
qed

text \<open>a search follows links: on a tree where a link of the workspace names a file outside, the search shows
  that file's text, although reading the link is refused.\<close>

theorem search_discloses_outside:
  "search_files example_env (map_of linked_entries) example_walker fs_example_tools ''private'' None None None =
     Inr (tool_result_ok ''found 1 matches'' (JObject
       [(''matches'', JArray [JObject [(''line'', JNumber ''1''), (''path'', JString ''note''),
           (''snippet'', JString ''private word'')]]),
        (''truncated'', JBool False)])) \<and>
   read_file (\<lambda>_. []) example_env (map_of linked_entries) fs_example_tools ''note'' None None None =
     Inl (TeOutsideWorkspace ''note'')"
  by (rule conjI) code_simp+


text \<open>Writing over a link replaces the link, and shows the text of the file it named as the text before.\<close>

lemma write_discloses_outside:
  "(let (fs, r) = write_file example_env (map_of linked_entries) fs_example_tools ''note'' ''new'' in
    fs [''etc'', ''key''] = Some (NFile ''private word'') \<and>
    r = Inr (tool_result_ok ''wrote 3 bytes to note'' (JObject
      [(''bytes'', JNumber ''3''),
       (''diff'', JString (simple_text_diff (Some ''private word'') ''new'')),
       (''existed'', JBool True), (''path'', JString ''note'')])))"
  by code_simp

section \<open>The guarantees at these calls\<close>

definition example_digest :: "string \<Rightarrow> string" where
  "example_digest s = s"

lemma example_read:
  "read_file example_digest example_env (map_of plain_entries) fs_example_tools ''a.txt'' (Some 3) None None =
     Inr (tool_result_ok ''read 3 bytes from a.txt'' (JObject
       [(''content'', JString ''old''), (''line_count'', JNumber ''400''), (''path'', JString ''a.txt''),
        (''sha256'', JString ''sha256:old word''), (''start_line'', JNumber ''1''), (''total_lines'', JNumber ''1''),
        (''truncated_after'', JBool True), (''truncated_before'', JBool False)]))"
  by code_simp


lemma example_no_temp_links: "no_temp_links (map_of plain_entries)"
  by (auto simp: no_temp_links_def plain_entries_def split: if_splits)

lemma example_write:
  "snd (write_file example_env (map_of plain_entries) fs_example_tools ''a.txt'' ''new'') =
     Inr (tool_result_ok ''wrote 3 bytes to a.txt'' (JObject
      [(''bytes'', JNumber ''3''),
       (''diff'', JString (simple_text_diff (Some ''old word'') ''new'')),
       (''existed'', JBool True), (''path'', JString ''a.txt'')]))"
  by code_simp

theorem write_replaces_one_entry_witness:
  "\<exists>q. prefix [''ws''] q \<and>
     fst (write_file example_env (map_of plain_entries) fs_example_tools ''a.txt'' ''new'') =
       ((map_of plain_entries)(q @ [''a.txt.pharness-tmp''] := None))(q @ [''a.txt''] \<mapsto> NFile ''new'')"
proof -
  have name: "path_file_name ''/ws/a.txt'' = Some ''a.txt''" "temp_name ''a.txt'' = ''a.txt.pharness-tmp''"
    "\<not> is_absolute ''a.txt''" "path_join ''/ws'' ''a.txt'' = ''/ws/a.txt''"
    by code_simp+
  obtain fs' where w: "write_file example_env (map_of plain_entries) fs_example_tools ''a.txt'' ''new'' =
      (fs', Inr (tool_result_ok ''wrote 3 bytes to a.txt'' (JObject
      [(''bytes'', JNumber ''3''),
       (''diff'', JString (simple_text_diff (Some ''old word'') ''new'')),
       (''existed'', JBool True), (''path'', JString ''a.txt'')])))"
    using example_write by (metis prod.collapse)
  show ?thesis
    using write_replaces_one_entry [OF example_env_ok example_no_temp_links w] name
    unfolding w by (auto simp: replaced_def fs_example_tools_def)
qed

definition example_patch :: text_patch where
  "example_patch = \<lparr>tp_find = ''o'', tp_replace = ''00'', tp_replace_all = True\<rparr>"

theorem patch_replaces_occurrences_witness:
  "\<exists>parts. ''old word'' = join ''o'' parts \<and> ''00ld w00rd'' = join ''00'' parts \<and> length parts = 3"
proof -
  have "patch_text example_patch ''old word'' = Inr (''00ld w00rd'', 2)" by code_simp
  from patch_replaces_occurrences [OF _ this] show ?thesis by (auto simp: example_patch_def)
qed

text \<open>A workspace below a directory called \<open>target\<close>.\<close>

definition target_entries :: "(os_path \<times> os_node) list" where
  "target_entries = [([], NDir), ([''target''], NDir), ([''target'', ''a.txt''], NFile ''old word'')]"

definition target_tools :: fs_tools where
  "target_tools = \<lparr>ft_workspace_root = ''/target'', ft_canonical_root = [''target'']\<rparr>"

definition target_walker :: walker where
  "target_walker root depth =
     (if root = [''target''] then [WalkEntry [''target''] (Some FtDir), WalkEntry [''target'', ''a.txt''] (Some FtOther)]
      else [])"

theorem ignored_root_lists_nothing_witness:
  "\<exists>r. list_dir example_env (map_of target_entries) target_walker target_tools ''.'' 1 None = Inr r \<and>
     json_get (tr_content r) ''entries'' = Some (JArray [])"
proof -
  have "list_dir example_env (map_of target_entries) target_walker target_tools ''.'' 1 None =
      Inr (tool_result_ok ''listed 0 entries'' (JObject [(''entries'', JArray []), (''truncated'', JBool False)]))"
    by code_simp
  moreover have "should_ignore_path (ft_canonical_root target_tools)" by code_simp
  moreover have "prefix root q" if "WalkEntry q ft \<in> set (target_walker root depth)" for root depth q ft
    using that by (auto simp: target_walker_def split: if_splits)
  ultimately show ?thesis using ignored_root_lists_nothing [of target_tools target_walker] by blast
qed

end
