(* ===== verification/ToolProperties.thy ===== *)
theory ToolProperties
  imports ToolSafety FsExamples
begin

text \<open>
  The properties of an attempt's tools, at a small repository, and the calls that go beyond what the contract
  of the repository allows.
\<close>

section \<open>Spawned processes\<close>


section \<open>Writing under a contract\<close>

lemma composite_supported:
  "primary a s = (s', r) \<Longrightarrow> \<not> unsupported r \<Longrightarrow> composite_execute primary fallback a s = (s', r)"
  by (simp add: composite_execute_def)

lemma unsupported_err: "unsupported (Inl err) \<longleftrightarrow> (\<exists>a. err = TeUnsupportedAction a)"
  by (cases err) auto

lemma resolve_for_write_supported: "resolve_for_write e fs t path = Inl err \<Longrightarrow> \<not> unsupported (Inl err)"
  by (cases "path_parent (if is_absolute path then path else path_join (ft_workspace_root t) path)";
      cases "canonicalize_path e fs (the (path_parent (if is_absolute path then path else path_join (ft_workspace_root t) path)))")
    (auto simp: resolve_for_write_def io_error_def Let_def split: if_splits)

lemma replace_file_supported: "replace_file e fs path d content = (fs', r) \<Longrightarrow> \<not> unsupported r"
  by (auto simp: replace_file_def io_error_def Let_def split: sum.splits prod.splits)

lemma write_file_supported:
  assumes "write_file e fs t path content = (fs', r)"
  shows "\<not> unsupported r"
  using assms
proof (cases rule: write_file_cases)
  case (1 err)
  then show ?thesis using resolve_for_write_supported [OF 1(1)] by (simp add: unsupported_err)
next
  case (2 d r')
  show ?thesis
  proof (cases r)
    case (Inl err)
    with 2(3) [of err] have "r' = Inl err" by simp
    with replace_file_supported [OF 2(2)] Inl show ?thesis by (simp add: unsupported_err)
  qed simp
qed

lemma writable_path_ok:
  "writable_path t path = Inr d \<Longrightarrow>
     \<exists>c pattern. pt_contract t = Some c \<and> pattern \<in> set (ct_writable_paths c) \<and>
       project_path_glob_matches pattern path \<and> \<not> secret_shaped_project_path path"
  by (auto simp: writable_path_def list_ex_iff split: if_splits option.splits)


section \<open>Patches\<close>

lemma split_on_append: "split_on c (s @ c # t) = split_on c s @ split_on c t"
  by (induction s) (auto split: list.splits)

lemma str_lines_append: "str_lines (s @ CHR 0x0A # t) = str_lines (s @ [CHR 0x0A]) @ str_lines t"
  by (simp add: str_lines_def Let_def split_on_append butlast_append)

text \<open>A line that neither declares a path nor is one of the two file headers the checks know.\<close>

definition plain_patch_line :: "string \<Rightarrow> bool" where
  "plain_patch_line l \<longleftrightarrow> \<not> starts_with l ''diff --git '' \<and> header_path l = None"

lemma declared_paths_plain:
  "\<forall>l\<in>set extra. plain_patch_line l \<Longrightarrow> declared_paths (ls @ extra) ps = declared_paths ls ps"
proof (induction ls arbitrary: ps)
  case Nil
  then show ?case by (induction extra) (auto simp: plain_patch_line_def)
next
  case (Cons l ls)
  then show ?case by (auto split: list.splits)
qed

lemma header_paths_plain:
  "\<forall>l\<in>set extra. plain_patch_line l \<Longrightarrow> header_paths (ls @ extra) ps = header_paths ls ps"
proof (induction ls arbitrary: ps)
  case Nil
  then show ?case by (induction extra) (auto simp: plain_patch_line_def)
next
  case (Cons l ls)
  then show ?case by (auto split: option.splits)
qed

lemma unified_diff_paths_plain:
  assumes "\<forall>l\<in>set (str_lines extra). plain_patch_line l"
  shows "unified_diff_paths (p @ CHR 0x0A # extra) = unified_diff_paths (p @ [CHR 0x0A])"
  using assms by (simp add: unified_diff_paths_def str_lines_append [of p extra] declared_paths_plain header_paths_plain)

lemma apply_unified_patch_log:
  assumes "patch_checks w t (wd_files s) patch preimage = Inr paths"
  shows "\<exists>rest. wd_spawned (fst (apply_unified_patch w t patch preimage s)) =
    wd_spawned s @ git_apply_call t patch True # rest"
proof -
  obtain s1 r1 where one: "run_git_apply w t patch True s = (s1, r1)" by fastforce
  obtain s2 r2 where two: "run_git_apply w t patch False s1 = (s2, r2)" by fastforce
  from one two assms show ?thesis
    using run_git_apply_log [of w t patch True s] run_git_apply_log [of w t patch False s1]
    by (cases r1; cases r2) (auto simp: apply_unified_patch_def)
qed


section \<open>Evidence\<close>

text \<open>Evidence that is returned has an entry in the catalog and the digest the catalog names.\<close>

lemma evidence_matches_catalog:
  assumes "get_evidence w t evidence_id = Inr r"
  shows "\<exists>entry\<in>set (pt_catalog t). \<exists>payload. entry_id entry = Some evidence_id \<and>
    entry_hash entry = Some (canonical_json_sha256 (rw_digest w) payload) \<and>
    json_get (tr_content r) ''evidence'' = Some payload"
  using assms by (auto simp: get_evidence_def Let_def tool_result_ok_def dest!: find_SomeD split: if_splits)

text \<open>Every line of output the shell tools show is free of the words that mark a secret.\<close>

lemma shown_output_redacted:
  assumes "run_program spawn vars t program args cwd ms s = (s', Inr out)"
  shows "\<forall>l\<in>set (split_on CHR 0x0A (po_stdout out)) \<union> set (split_on CHR 0x0A (po_stderr out)). \<not> looks_secretish l"
  using assms redact_text_lines
  by (auto simp: run_program_def Let_def split: prod.splits process_answer.splits)

end
