(* ===== verification/ToolExamples.thy ===== *)
theory ToolExamples
  imports ToolProperties
begin

text \<open>
  An attempt on a small repository whose contract lets the agent write below \<open>src\<close>, and the calls that reach
  further: a directory made through a link, a patch with a file its headers do not declare, a write through a
  link inside the workspace, and a secret whose line was cut before it was looked for.
\<close>

definition repo_entries :: "(os_path \<times> os_node) list" where
  "repo_entries = plain_entries @ [([''ws'', ''src''], NDir), ([''ws'', ''ci''], NDir)]"

definition linked_repo :: "(os_path \<times> os_node) list" where
  "linked_repo = repo_entries @
    [([''ws'', ''src'', ''out''], NLink ''/etc''), ([''ws'', ''src'', ''hooks''], NLink ''../ci'')]"

definition repo_contract :: repository_contract where
  "repo_contract = \<lparr>ct_writable_paths = [''src/**''],
     ct_acceptance_commands = [\<lparr>acm_name = ''test'', acm_command = ''make test''\<rparr>], ct_source_roots = [],
     ct_value = JNull\<rparr>"

definition repo_tools :: project_tools where
  "repo_tools = \<lparr>pt_workspace = ''/ws'', pt_canonical = [''ws''], pt_files = fs_example_tools,
     pt_contract = Some repo_contract, pt_snapshot = None, pt_selected = [''make test''], pt_catalog = [],
     pt_payloads = [], pt_bound_refs = False, pt_onboarding = None, pt_planner_readiness = False\<rparr>"

text \<open>A process of the example prints one line and leaves the files alone.\<close>

definition example_spawn :: spawner where
  "example_spawn call limit fs = (fs, PaExited (Some 0) ''password=aaaaaaaaaaaaaaaa hunter2'' [] 1)"

definition repo_world :: run_world where
  "repo_world = \<lparr>rw_env = example_env, rw_walker = example_walker, rw_sha256 = example_digest,
     rw_digest = (\<lambda>_. []), rw_print = (\<lambda>_. []), rw_spawn = example_spawn, rw_path = None,
     rw_plan_check = (\<lambda>_ _. Inr ())\<rparr>"

definition example_vars :: shell_vars where
  "example_vars = \<lparr>sv_shell_bin = None, sv_timeout_ms = None, sv_max_output_bytes = Some ''20'', sv_path = None\<rparr>"

definition example_shell :: shell_tools where
  "example_shell = \<lparr>sh_workspace_root = ''/ws'', sh_canonical_root = [''ws''], sh_shell_bin = ''sh'',
     sh_timeout_ms = 120000, sh_max_output_bytes = 20\<rparr>"

definition state_on :: "(os_path \<times> os_node) list \<Rightarrow> tool_state" where
  "state_on es = \<lparr>wd_files = map_of es, wd_spawned = []\<rparr>"

lemma example_shell_new: "shell_tools_new example_env (map_of repo_entries) example_vars ''/ws'' = Inr example_shell"
  by code_simp

section \<open>Beyond the contract\<close>

text \<open>a directory is made before its place is checked: through a link of a writable directory it is made
  outside the workspace, and stays there although the call is refused.\<close>

theorem create_directory_leaves_workspace:
  "(let (s, r) = create_directory repo_world repo_tools ''src/out/new'' (state_on linked_repo) in
    r = Inl (TeOutsideWorkspace ''src/out/new'') \<and> wd_files (state_on linked_repo) [''etc'', ''new''] = None \<and>
    wd_files s [''etc'', ''new''] = Some NDir)"
  by code_simp

text \<open>The first patch declares its file; the second has headers that start with neither \<open>a/\<close> nor \<open>b/\<close>, which
  \<open>git apply\<close> strips all the same.\<close>

definition declared_patch :: string where
  "declared_patch = join [CHR 0x0A]
     [''diff --git a/src/ok.txt b/src/ok.txt'', ''new file mode 100644'', ''--- /dev/null'', ''+++ b/src/ok.txt'',
      ''@@ -0,0 +1 @@'', ''+ok'']"

definition hidden_patch :: string where
  "hidden_patch = join [CHR 0x0A] [''--- c/ci/run'', ''+++ c/ci/run'', ''@@ -1 +1 @@'', ''-old'', ''+new'', []]"

text \<open>An equation for evaluation that does not take a number apart.\<close>

lemma ws_words_acc_code [code]:
  "ws_words_acc n cur s =
     (if n = 0 then (if cur = [] then [] else [rev cur])
      else case s of
          [] \<Rightarrow> if cur = [] then [] else [rev cur]
        | x # xs \<Rightarrow>
            if ws_len (x # xs) = 0 then ws_words_acc (n - 1) (x # cur) xs
            else (if cur = [] then [] else [rev cur]) @ ws_words_acc (n - 1) [] (drop (ws_len (x # xs)) (x # xs)))"
  by (cases n; cases s) auto

lemma hidden_patch_plain: "\<forall>l\<in>set (str_lines hidden_patch). plain_patch_line l"
  unfolding list.pred_set [symmetric] by code_simp

lemma patches_small:
  "length declared_patch + length hidden_patch < 1000 \<and> \<not> contains_char declared_patch (CHR 0x00) \<and>
   \<not> contains_char hidden_patch (CHR 0x00)"
  by code_simp

lemma declared_patch_paths: "unified_diff_paths (declared_patch @ [CHR 0x0A]) = Inr [''src/ok.txt'']"
  by code_simp

lemma declared_patch_checked:
  "patch_checks repo_world repo_tools (map_of repo_entries) (declared_patch @ [CHR 0x0A]) Map.empty = Inr [''src/ok.txt'']"
proof -
  have one: "check_patch_path repo_world repo_tools (map_of repo_entries) Map.empty ''src/ok.txt'' = Inr ()"
    by code_simp
  show ?thesis
    using patches_small one by (simp add: patch_checks_def declared_patch_paths contains_char_def)
qed

lemma hidden_path_not_writable: "writable_path repo_tools ''ci/run'' = Inl (TeOutsideWorkspace ''ci/run'')"
  by code_simp


text \<open>A writable pattern is matched against the path as written, so a link below \<open>src\<close> leads a write elsewhere in
  the workspace.\<close>

lemma contract_write_follows_link:
  "(let (s, r) = contract_write repo_world repo_tools (WriteFile ''w'' ''r'' ''src/hooks/run'' ''new'') ''src/hooks/run''
       (state_on linked_repo) in
    \<not> isl r \<and> wd_files s [''ws'', ''ci'', ''run''] = Some (NFile ''new'') \<and> \<not> project_path_glob_matches ''src/**'' ''ci/run'')"
  by code_simp

text \<open>Output is shortened before it is redacted: the end of a line that names a password is shown when its
  beginning was cut.\<close>

lemma cut_secret_shown:
  "(case snd (run_program example_spawn example_vars example_shell ''cat'' [] ''/ws'' None (state_on repo_entries)) of
      Inr out \<Rightarrow> looks_secretish ''password=aaaaaaaaaaaaaaaa hunter2'' \<and> suffix ''aa hunter2'' (po_stdout out)
    | Inl err \<Rightarrow> False)"
  by code_simp

section \<open>The guarantees at these calls\<close>


lemma repo_env_ok: "env_ok example_env (map_of repo_entries)"
proof -
  have "tree_check repo_entries" by code_simp
  then have "tree_ok (map_of repo_entries)" by (rule tree_check_ok)
  then show ?thesis by (simp add: env_ok_def example_env_def tree_ok_root)
qed

lemma repo_no_temp_links: "no_temp_links (map_of repo_entries)"
  by (auto simp: no_temp_links_def repo_entries_def plain_entries_def map_add_def split: if_splits option.splits)

lemma repo_write:
  "\<not> isl (snd (contract_write repo_world repo_tools (WriteFile ''w'' ''r'' ''src/b.txt'' ''new'') ''src/b.txt''
     (state_on repo_entries)))"
  by code_simp


end
