(* ===== verification/Spec2Isabelle.thy ===== *)
theory Spec2Isabelle
  imports CampusEgress LabOutcome HostedExamples CapabilityExamples ToolExamples
begin

text \<open>
  PHarness runs software-delivery agents and, for Campus, student labs. A run is a loop of a model and
  tools under a safety policy; a Campus session is such a run in a sandbox, under a composed policy,
  with every tool call decided by a trusted broker. Lab sessions are kept in a journal that a
  reconciler drives against an execution backend; hosted deliveries are kept in a store from which a
  scheduler claims due work. The source is Rust; paths below are under \<open>src/crates\<close>, and \<open>core\<close>,
  \<open>store\<close>, \<open>api\<close>, \<open>runhost\<close> stand for \<open>pharness-core/src\<close>, \<open>pharness-store/src\<close>,
  \<open>pharness-api/src\<close>, \<open>pharness-runhost/src\<close>.

  \<^bold>\<open>Ground.\<close> \<open>Prelude\<close> holds results as sums with their early returns, panics as \<open>None\<close>, machine
  integers and ordered sets; \<open>RustStr\<close> the string operations of the standard library on UTF-8 bytes;
  \<open>Json\<close> and \<open>CanonicalJson\<close> the values of \<open>serde_json\<close> and their canonical form; \<open>Tables\<close> SQL
  updates and counts over rows; \<open>Fencing\<close> the contract of a fenced resource.

  \<^bold>\<open>Policy\<close> (\<open>core/policy\<close>, \<open>core/model/action.rs\<close>, \<open>core/campus_profile.rs\<close>, \<open>core/campus_egress.rs\<close>).
  \<open>Actions\<close> has the agent's actions, \<open>CommandClassifier\<close> and \<open>SafetyPolicy\<close> the decision on one of
  them. \<open>CampusProfile\<close>, \<open>CampusPolicy\<close>, \<open>CampusCompose\<close> and \<open>CampusDecision\<close> follow the composition of
  platform, tenant, course and assignment layers into one effective policy and its decisions:
  validation accepts exactly the well-formed profiles, composition computes exactly the bounds its
  layers state and never panics, and a mandatory deny is not lifted by any approval. \<open>CampusEgress\<close> is the
  contract of the egress proxy.

  \<^bold>\<open>Labs\<close> (\<open>core/campus_lab_session.rs\<close>, \<open>store/campus_*.rs\<close>, \<open>store/sqlite/campus_*.rs\<close>). \<open>LabSession\<close> is
  the lifecycle; \<open>LabJournal\<close> the transactions on sessions, slots, operations and audit events;
  \<open>LabSlots\<close> holds. \<open>LabInvariant\<close> and \<open>LabTransactions\<close> prove the invariant and that the schema
  never refuses a write; \<open>LabSafety\<close> and \<open>LabProperties\<close> state what any interleaving of workers
  keeps. \<open>ExecutionProvider\<close> is the backend's contract, \<open>FakeProvider\<close> the in-memory backend that keeps
  it, \<open>LabDriver\<close> the reconciler step, \<open>LabSystem\<close> the journal, a backend and crashing workers
  interleaved, and \<open>LabOutcome\<close> the result: no orphan survives a session. \<open>CampusStore\<close>, \<open>BrokerToken\<close>
  and \<open>BrokerStore\<close> add assignment labs, their generations, launch keys and broker tokens;
  \<open>StoreInvariant\<close>, \<open>StoreTransactions\<close>, \<open>StoreGrowth\<close>, \<open>StoreCapacity\<close>, \<open>StoreSafety\<close>,
  \<open>StoreProperties\<close> and \<open>StoreExamples\<close> prove admission, its limits and the end of tokens.

  \<^bold>\<open>Hosted controller\<close> (\<open>store/sqlite/hosted_controller.rs\<close>, \<open>api/app/hosted_controller\<close>). \<open>HostedStore\<close>
  has the calls, \<open>HostedOperator\<close> pausing, resuming and cancelling, \<open>HostedScheduler\<close> a tick and the drain;
  \<open>HostedSteps\<close>, \<open>HostedSafety\<close>, \<open>HostedGrowth\<close>, \<open>HostedProperties\<close>, \<open>HostedControl\<close> and
  \<open>HostedExamples\<close> show fencing of claims, disjoint locks, that stopped work starts nothing, and that
  a tick serves every due row.

  \<^bold>\<open>Agent runtime\<close> (\<open>core/agent\<close>). \<open>ModelProtocol\<close> has requests, responses and tool results,
  \<open>ContextPack\<close> the packing of a transcript, \<open>AgentState\<close> the counters and evidence between turns and
  their reconstruction on resume, \<open>AgentRuntime\<close> the loop. \<open>RuntimeSafety\<close>, \<open>RuntimeProperties\<close>,
  \<open>RuntimeResume\<close> and \<open>RuntimeExamples\<close> show that only authorised actions run, that completion rests
  on evidence, that a run ends within its bounds, and what a resumed run remembers.

  \<^bold>\<open>Capability broker\<close> (\<open>core/campus_capability\<close>, \<open>store/campus_authority.rs\<close>). \<open>CapabilitySelector\<close> names
  the resource of a call, \<open>ActionValue\<close> is the serialised action, \<open>CapabilityBroker\<close> decides, records and
  executes. \<open>CapabilitySafety\<close> has the exact condition of an allow; \<open>CapabilityMemory\<close> and
  \<open>CapabilityJournal\<close> interpret the contracts of its audit sink and authority source;
  \<open>CapabilityRuntime\<close> puts it behind the agent loop; \<open>CapabilityProperties\<close> and
  \<open>CapabilityExamples\<close> hold the properties and concrete calls.

  \<^bold>\<open>Workspace tools\<close> (\<open>core/tools\<close>). \<open>Utf8\<close> and \<open>OsFiles\<close> are what the standard library gives them: decoding of
  text, and a tree of directories, files and symbolic links with the kernel's resolution of paths and the calls
  \<open>canonicalize\<close>, \<open>read\<close>, \<open>create\<close>, \<open>rename\<close>. \<open>FsTools\<close> is the executor that lists, reads, searches, writes
  and patches; \<open>FsSafety\<close> shows where a resolved path, a temporary file and a destination lie;
  \<open>FsProperties\<close> that a read shows a file of the workspace, that a write changes one entry or, when it
  fails, none but the temporary one, and that a patch replaces exactly what it found; \<open>FsExamples\<close>
  applies them, and holds the calls that a symbolic link in the workspace takes out of it. A system call may
  fail as the environment says, a write after any number of bytes; a tree is changed by one tool
  at a time. A walk follows at most forty links, the kernel's own bound.
  \<open>ShellTools\<close> (\<open>core/tools/shell.rs\<close>, \<open>executor.rs\<close>) runs shell commands and Git reads, and composes executors;
  \<open>ProjectTools\<close> and \<open>ProjectExecutor\<close> (\<open>pharness-runhost/src/lib.rs\<close>, \<open>evidence_refs.rs\<close>) are the tools of an attempt:
  contract paths, acceptance and workspace commands, patches, evidence, typed submissions, the profile's
  allowlist, and \<open>attempt_tools\<close>, their composition as \<open>execute_attempt\<close> builds it. What a spawned process does to
  the files and answers is a parameter, \<open>git apply\<close> included; the state logs each process, so that \<open>ToolSafety\<close> and
  \<open>ToolProperties\<close> show which processes an action can start, where a write under a contract reaches, what evidence
  is returned and that no shown line names a secret. They also show what the checks of a patch do not see;
  \<open>ToolExamples\<close> holds the other calls that go beyond a contract. The cluster tools, the onboarding binding
  and the plan check are parameters.

  \<^bold>\<open>Interfaces.\<close> \<open>execution_provider\<close> is what the journal may assume of a backend, and
  \<open>lab_on_provider\<close> extends it with the answers the workers read; both are interpreted on the fake
  provider with every fault it can inject. \<open>fencing\<close> is interpreted three times: session generations and operation leases of the
  journal, and claims of the hosted store. \<open>audit_log\<close> is interpreted on the in-memory sink;
  \<open>revocable_authority\<close> on the in-memory source and on the lab journal.

  \<^bold>\<open>Correspondence.\<close> A struct is a record, an enum a datatype with its constructors; a fallible
  function returns a sum, and one that may panic an option of it. A SQL transaction is a
  function of the tables that returns them changed only when it commits. Any number of workers is a step
  relation over such calls, with reachability by rule induction. Unsigned integers whose wrap-around could
  matter are words; \<open>i64\<close> timestamps use saturating addition; counters that only ever rise by one per
  call are \<open>nat\<close> or \<open>int\<close>, so their overflow after \<open>2^32\<close> or \<open>2^63\<close> calls is outside the model.

  \<^bold>\<open>Parameters.\<close> Hash functions, base64 and random draws; the codec of messages and actions in a
  transcript (hypotheses: a printed value reads back); the answers of the model provider, the tools and the
  clock, one draw per turn; what a pass of the hosted controller does; the id column of an
  identity. Witnesses instantiate each of them by a concrete function.

  \<^bold>\<open>Fuel.\<close> \<open>utf8_lossy\<close> and \<open>split_whitespace\<close> run on one unit of fuel per byte, and each round
  consumes a byte; the four rounds of percent decoding are the source's own bound; the decoder of the examples
  uses the length of its input. Every other recursion is structural or has a measure. The drain
  of the hosted scheduler ends because a served row carries a lease: that is proved, not assumed.

  \<^bold>\<open>Not modelled.\<close> Messages of database errors, the length check on operation keys and NUL bytes in
  text; the order in which SQL returns rows it was not asked to sort, wherever a result depends on it; numbers
  of JSON are their text. Callers of dispatched operations are taken to hold the locks the API
  takes for them. A run that resumes starts its count of rejected finishes anew, as in the code. The
  remaining crates are HTTP surfaces, drivers of Git, Kubernetes, Tekton and Argo, model clients, the console,
  the command line and the evaluator: their behaviour is that of services, and what the modelled
  parts need of them is a parameter or a contract above.
\<close>

end
